(* ===== verification/Prelude.thy ===== *)
theory Prelude
  imports Main "HOL-Library.Word" "HOL-Library.AList" "HOL-Library.Monad_Syntax" "HOL-Library.Multiset"
begin

text \<open>
  What the components share: names for Go's machine integers and fixed-size byte arrays,
  Go's two ways of failing (an error value, a panic), big-endian byte strings, and Go maps as
  association lists.

  A \<open>uint64\<close>, \<open>uint32\<close>, \<open>uint16\<close> or \<open>byte\<close> is a word of that width, so \<open>+\<close>, \<open>-\<close> and \<open>*\<close> wrap
  as Go's do and \<open><\<close> is the unsigned comparison. An \<open>int64\<close> is a 64-bit word that is read with
  \<open>sint\<close> and compared with the signed comparisons. \<open>[32]byte\<close>, \<open>[20]byte\<close> and \<open>[16]byte\<close> values
  (hashes, addresses, channel ids) are words of 256, 160 and 128 bits, most significant byte
  first.

  A call that may panic returns \<open>None\<close> for the panic; a call that may return an error returns
  \<open>Inl\<close> of it.
\<close>

unbundle bit_operations_syntax

section \<open>Machine integers and byte arrays\<close>

type_synonym byte = "8 word"
type_synonym u16 = "16 word"
type_synonym u32 = "32 word"
type_synonym u64 = "64 word"
type_synonym i64 = "64 word"
type_synonym bytes = "byte list"
type_synonym Hash = "256 word"
type_synonym Address = "160 word"

section \<open>Failures\<close>

text \<open>
  The error values of the node. \<open>EOF\<close>, \<open>UnexpectedEOF\<close>, \<open>NotFound\<close> stand for the sentinels
  \<open>io.EOF\<close>, \<open>io.ErrUnexpectedEOF\<close> and \<open>ethereum.NotFound\<close>; \<open>Msg\<close> is an \<open>errors.New\<close> or a
  \<open>fmt.Errorf\<close> without \<open>%w\<close>; \<open>Wrap\<close> is a \<open>fmt.Errorf\<close> with \<open>%w\<close>; \<open>Leveled\<close> is the struct
  \<open>Error\<close> of derive/error.go, \<open>InputError\<close> the one of op-service/eth/types.go with its code.
\<close>

datatype Level = LevelTemporary | LevelReset | LevelCritical

datatype gerr =
    EOF
  | UnexpectedEOF
  | NotFound
  | NotEnoughData
  | DuplicateErr
  | EngineELSyncing
  | Msg string
  | Wrap string gerr
  | Leveled Level "gerr option"
  | InputError int gerr

type_synonym 'a res = "gerr + 'a"
type_synonym 'a go = "'a option"

named_theorems panic_free \<open>operations that do not panic under their invariant\<close>
named_theorems inv_intros \<open>operations keep their component's invariant\<close>

fun is_ok :: "'a res \<Rightarrow> bool" where
  "is_ok (Inl e) = False"
| "is_ok (Inr x) = True"

lemma is_ok_iff [simp]: "is_ok r \<longleftrightarrow> (\<exists>x. r = Inr x)"
  by (cases r) auto

section \<open>Go maps as association lists\<close>

text \<open>
  A Go map is a list of pairs with distinct keys: \<open>map_of\<close> looks up, \<open>AList.update\<close> stores,
  \<open>AList.delete\<close> deletes, \<open>length\<close> counts. Ranging over the map in any order visits the pairs of
  the list in some order, so what the code computes that way must not depend on it.
\<close>

definition wf_map :: "('k \<times> 'v) list \<Rightarrow> bool" where
  "wf_map m \<longleftrightarrow> distinct (map fst m)"

lemma wf_map_Nil [simp]: "wf_map []"
  by (simp add: wf_map_def)

lemma wf_map_update [simp, intro]: "wf_map m \<Longrightarrow> wf_map (AList.update k v m)"
  by (simp add: wf_map_def distinct_update)

lemma wf_map_delete [simp, intro]: "wf_map m \<Longrightarrow> wf_map (AList.delete k m)"
  by (simp add: wf_map_def distinct_delete)

lemma wf_map_filter [simp, intro]: "wf_map m \<Longrightarrow> wf_map (filter P m)"
  unfolding wf_map_def by (induction m) auto

lemma wf_map_lookup: "wf_map m \<Longrightarrow> (k, v) \<in> set m \<longleftrightarrow> map_of m k = Some v"
  unfolding wf_map_def by (metis map_of_eq_Some_iff)

lemma map_of_filter_key:
  "map_of (filter (\<lambda>kv. P (fst kv)) m) k = (if P k then map_of m k else None)"
  by (induction m) auto

lemma update_fresh: "k \<notin> fst ` set m \<Longrightarrow> AList.update k v m = m @ [(k, v)]"
  by (induction m) auto

lemma map_of_None_fresh: "map_of m k = None \<Longrightarrow> k \<notin> fst ` set m"
  by (simp add: map_of_eq_None_iff)

lemma length_wf_map: "wf_map m \<Longrightarrow> length m = card (dom (map_of m))"
  unfolding wf_map_def
  by (metis distinct_card dom_map_of_conv_image_fst length_map set_map)

section \<open>Big-endian byte strings\<close>

fun nat_to_be :: "nat \<Rightarrow> nat \<Rightarrow> bytes" where
  "nat_to_be 0 v = []"
| "nat_to_be (Suc n) v = nat_to_be n (v div 256) @ [of_nat (v mod 256)]"

lemma nat_to_be_0: "nat_to_be n 0 = replicate n 0"
  by (induction n) (simp_all flip: replicate_append_same)

definition be_to_nat :: "bytes \<Rightarrow> nat" where
  "be_to_nat bs = foldl (\<lambda>a b. 256 * a + unat b) 0 bs"

lemma length_nat_to_be [simp]: "length (nat_to_be n v) = n"
  by (induction n arbitrary: v) auto

lemma be_to_nat_Nil [simp]: "be_to_nat [] = 0"
  by (simp add: be_to_nat_def)

lemma be_to_nat_snoc [simp]: "be_to_nat (bs @ [b]) = 256 * be_to_nat bs + unat b"
  by (simp add: be_to_nat_def)

lemma unat_byte_of_nat: "unat (of_nat (v mod 256) :: byte) = v mod 256"
  by (simp add: unat_of_nat)

lemma be_to_nat_to_be [simp]: "be_to_nat (nat_to_be n v) = v mod 256 ^ n"
proof (induction n arbitrary: v)
  case 0
  then show ?case by simp
next
  case (Suc n)
  have "be_to_nat (nat_to_be (Suc n) v) = 256 * (v div 256 mod 256 ^ n) + v mod 256"
    by (simp only: nat_to_be.simps be_to_nat_snoc Suc.IH unat_byte_of_nat)
  also have "\<dots> = v mod (256 * 256 ^ n)"
    by (metis add.commute mod_mult2_eq)
  finally show ?case by simp
qed

lemma be_to_nat_bound: "be_to_nat bs < 256 ^ length bs"
proof (induction bs rule: rev_induct)
  case Nil
  then show ?case by simp
next
  case (snoc b bs)
  have "unat b < 256" using unsigned_less [of b] by simp
  with snoc.IH have "256 * be_to_nat bs + unat b < 256 * 256 ^ length bs" by linarith
  then show ?case by simp
qed

lemma nat_to_be_to_nat: "length bs = n \<Longrightarrow> nat_to_be n (be_to_nat bs) = bs"
proof (induction n arbitrary: bs)
  case 0
  then show ?case by simp
next
  case (Suc n)
  then obtain cs b where bs: "bs = cs @ [b]" and len: "length cs = n"
    by (metis length_Suc_conv_rev)
  have "unat b < 256" using unsigned_less [of b] by simp
  then show ?case using Suc.IH [OF len] by (simp add: bs)
qed

definition be_put :: "nat \<Rightarrow> 'a::len word \<Rightarrow> bytes" where
  "be_put n w = nat_to_be n (unat w)"

definition be_get :: "bytes \<Rightarrow> 'a::len word" where
  "be_get bs = of_nat (be_to_nat bs)"

lemma length_be_put [simp]: "length (be_put n w) = n"
  by (simp add: be_put_def)

lemma be_get_put:
  assumes "LENGTH('a) = 8 * n"
  shows "be_get (be_put n (w :: 'a::len word)) = w"
proof -
  have "unat w < 2 ^ LENGTH('a)" by (rule unsigned_less)
  then have "unat w < 256 ^ n" by (simp add: assms power_mult)
  then show ?thesis by (simp add: be_get_def be_put_def)
qed

lemma be_put_get:
  assumes "LENGTH('a) = 8 * n" and "length bs = n"
  shows "be_put n (be_get bs :: 'a::len word) = bs"
proof -
  have "be_to_nat bs < 2 ^ LENGTH('a)"
    using be_to_nat_bound [of bs] assms by (simp add: power_mult)
  then have "unat (be_get bs :: 'a word) = be_to_nat bs"
    by (simp add: be_get_def unat_of_nat)
  then show ?thesis by (simp add: be_put_def nat_to_be_to_nat assms)
qed

lemma be_put_inj:
  assumes "LENGTH('a) = 8 * n" and "be_put n (v :: 'a::len word) = be_put n w"
  shows "v = w"
  using assms be_get_put by metis

section \<open>Byte readers\<close>

text \<open>
  A reader is the bytes not yet read. \<open>io.ReadFull\<close> of \<open>n\<close> bytes fails with \<open>EOF\<close> when nothing is
  left and with \<open>UnexpectedEOF\<close> when something but not enough is; a read of no bytes succeeds.
\<close>

definition ReadFull :: "nat \<Rightarrow> bytes \<Rightarrow> (bytes \<times> bytes) res" where
  "ReadFull n r =
     (if n \<le> length r then Inr (take n r, drop n r)
      else if r = [] then Inl EOF
      else Inl UnexpectedEOF)"

definition ReadByte :: "bytes \<Rightarrow> (byte \<times> bytes) res" where
  "ReadByte r = (case r of [] \<Rightarrow> Inl EOF | b # r' \<Rightarrow> Inr (b, r'))"

lemma ReadFull_append [simp]: "length xs = n \<Longrightarrow> ReadFull n (xs @ r) = Inr (xs, r)"
  by (simp add: ReadFull_def)

lemma ReadFull_InrD: "ReadFull n r = Inr (xs, r') \<Longrightarrow> r = xs @ r' \<and> length xs = n"
  by (auto simp: ReadFull_def split: if_splits)

lemma ReadByte_Cons [simp]: "ReadByte (b # r) = Inr (b, r)"
  by (simp add: ReadByte_def)

lemma ReadByte_InrD: "ReadByte r = Inr (b, r') \<Longrightarrow> r = b # r'"
  by (auto simp: ReadByte_def split: list.splits)

section \<open>Arithmetic on 64-bit words without overflow\<close>

lemma unat_of_nat_u64: "k < 2 ^ 64 \<Longrightarrow> unat (of_nat k :: u64) = k"
  by (simp add: unat_of_nat take_bit_nat_eq_self)

lemma sint_of_nat_u64: "k < 2 ^ 63 \<Longrightarrow> sint (of_nat k :: u64) = int k"
  by (simp add: sint_uint uint_nat unat_of_nat_u64 signed_take_bit_int_eq_self)

lemma sless_of_nat_u64:
  assumes "k < 2 ^ 63"
  shows "\<not> (of_nat k :: u64) <s 0" "0 <s (of_nat k :: u64) \<longleftrightarrow> 0 < k"
  using assms by (simp_all add: word_sless_alt sint_of_nat_u64)

lemma of_nat_div_u64: "of_nat (unat a div unat b) = (a div b :: u64)"
  by (metis unat_div of_nat_unat ucast_id)

lemma of_nat_eq_0_u64: "k < 2 ^ 64 \<Longrightarrow> (of_nat k :: u64) = 0 \<longleftrightarrow> k = 0"
  by (metis unat_of_nat_u64 unat_eq_0)

lemma unat_add_small: "unat (a :: u64) + unat b < 2 ^ 64 \<Longrightarrow> unat (a + b) = unat a + unat b"
  by (simp add: unat_word_ariths)

lemma unat_mult_small: "unat (a :: u64) * unat b < 2 ^ 64 \<Longrightarrow> unat (a * b) = unat a * unat b"
  by (simp add: unat_word_ariths)

end
