(* ===== verification/EthTypes.thy ===== *)
theory EthTypes
  imports Prelude
begin

text \<open>
  The chain references of op-service/eth/id.go and the system configuration of
  op-service/eth/types.go. A block time is its second part times 1000 plus its millisecond part.
\<close>

section \<open>Block references (op-service/eth/id.go)\<close>

record BlockID =
  bid_Hash :: Hash
  bid_Number :: u64

record L1BlockRef =
  l1_Hash :: Hash
  l1_Number :: u64
  l1_ParentHash :: Hash
  l1_Time :: u64
  l1_MilliTime :: u64

record L2BlockRef =
  l2_Hash :: Hash
  l2_Number :: u64
  l2_ParentHash :: Hash
  l2_Time :: u64
  l2_MilliTime :: u64
  l2_L1Origin :: BlockID
  l2_SequenceNumber :: u64

definition zero_L1BlockRef :: L1BlockRef where
  "zero_L1BlockRef =
     \<lparr>l1_Hash = 0, l1_Number = 0, l1_ParentHash = 0, l1_Time = 0, l1_MilliTime = 0\<rparr>"

definition l1_MillisecondTimestamp :: "L1BlockRef \<Rightarrow> u64" where
  "l1_MillisecondTimestamp b = l1_Time b * 1000 + l1_MilliTime b"

definition l2_MillisecondTimestamp :: "L2BlockRef \<Rightarrow> u64" where
  "l2_MillisecondTimestamp b = l2_Time b * 1000 + l2_MilliTime b"

definition l1_ID :: "L1BlockRef \<Rightarrow> BlockID" where
  "l1_ID b = \<lparr>bid_Hash = l1_Hash b, bid_Number = l1_Number b\<rparr>"

definition l2_ID :: "L2BlockRef \<Rightarrow> BlockID" where
  "l2_ID b = \<lparr>bid_Hash = l2_Hash b, bid_Number = l2_Number b\<rparr>"

definition l1_ParentID :: "L1BlockRef \<Rightarrow> BlockID" where
  "l1_ParentID b =
     (let n = bid_Number (l1_ID b);
          n = (if 0 < n then n - 1 else n)
      in \<lparr>bid_Hash = l1_ParentHash b, bid_Number = n\<rparr>)"

definition l2_ParentID :: "L2BlockRef \<Rightarrow> BlockID" where
  "l2_ParentID b =
     (let n = bid_Number (l2_ID b);
          n = (if 0 < n then n - 1 else n)
      in \<lparr>bid_Hash = l2_ParentHash b, bid_Number = n\<rparr>)"

section \<open>System configuration (op-service/eth/types.go)\<close>

record SystemConfig =
  BatcherAddr :: Address
  Overhead :: "256 word"
  Scalar :: "256 word"
  GasLimit :: u64

section \<open>Facts\<close>

lemma l1_ID_simps [simp]:
  "bid_Hash (l1_ID b) = l1_Hash b" "bid_Number (l1_ID b) = l1_Number b"
  by (simp_all add: l1_ID_def)

lemma l2_ID_simps [simp]:
  "bid_Hash (l2_ID b) = l2_Hash b" "bid_Number (l2_ID b) = l2_Number b"
  by (simp_all add: l2_ID_def)

text \<open>Consecutive L1 blocks: each has the number after the one before.\<close>

definition succ_block :: "L1BlockRef \<Rightarrow> L1BlockRef \<Rightarrow> bool" where
  "succ_block a b \<longleftrightarrow> unat (l1_Number b) = Suc (unat (l1_Number a))"

fun consecutive :: "L1BlockRef list \<Rightarrow> bool" where
  "consecutive [] = True"
| "consecutive [b] = True"
| "consecutive (a # b # bs) = (succ_block a b \<and> consecutive (b # bs))"

lemma consecutive_tl: "consecutive bs \<Longrightarrow> consecutive (tl bs)"
  by (cases bs rule: consecutive.cases) auto

lemma consecutive_drop: "consecutive bs \<Longrightarrow> consecutive (drop n bs)"
  by (induction n arbitrary: bs) (auto simp: drop_Suc consecutive_tl)

lemma consecutive_nth:
  "consecutive bs \<Longrightarrow> i < length bs \<Longrightarrow> unat (l1_Number (bs ! i)) = unat (l1_Number (bs ! 0)) + i"
proof (induction bs arbitrary: i rule: consecutive.induct)
  case (3 a b bs)
  show ?case
  proof (cases i)
    case (Suc j)
    with "3.prems" have "unat (l1_Number ((b # bs) ! j)) = unat (l1_Number b) + j"
      using "3.IH" [of j] by simp
    moreover have "unat (l1_Number b) = Suc (unat (l1_Number a))"
      using "3.prems"(1) by (simp add: succ_block_def)
    ultimately show ?thesis using Suc by simp
  qed simp
qed auto

lemma consecutive_snoc:
  "consecutive (bs @ [b]) \<longleftrightarrow> consecutive bs \<and> (bs \<noteq> [] \<longrightarrow> succ_block (last bs) b)"
  by (induction bs rule: consecutive.induct) auto

lemma consecutive_append1: "consecutive (xs @ ys) \<Longrightarrow> consecutive xs"
  by (induction ys rule: rev_induct) (auto simp: consecutive_snoc simp flip: append_assoc)

lemma consecutive_inj:
  assumes "consecutive bs" "i < length bs" "j < length bs"
    and "l1_Number (bs ! i) = l1_Number (bs ! j)"
  shows "i = j"
proof -
  have "unat (l1_Number (bs ! 0)) + i = unat (l1_Number (bs ! 0)) + j"
    by (simp only: consecutive_nth [OF assms(1,2), symmetric] consecutive_nth [OF assms(1,3), symmetric] assms(4))
  then show ?thesis by simp
qed

end
