(* ===== verification/Rollup.thy ===== *)
theory Rollup
  imports EthTypes
begin

text \<open>
  The rollup configuration (op-node/rollup/types.go) and the chain spec
  (op-node/rollup/chain_spec.go): the fork switches, the two formulas that relate an L2 block
  number to its time in milliseconds, and the checks that the configuration makes sense.

  Fork times are pointers in the code: a missing fork is \<open>None\<close>. A division by the configured
  block time panics when that is zero, a call of \<open>log.Crit\<close> ends the process: both are \<open>None\<close>
  results.
\<close>

section \<open>Data\<close>

record Genesis =
  gen_L1 :: BlockID
  gen_L2 :: BlockID
  gen_L2Time :: u64
  gen_SystemConfig :: SystemConfig

record PlasmaConfig =
  pc_DAChallengeAddress :: Address
  pc_CommitmentType :: string
  pc_DAChallengeWindow :: u64
  pc_DAResolveWindow :: u64

record Config =
  cfg_Genesis :: Genesis
  cfg_BlockTime :: u64
  cfg_MaxSequencerDrift :: u64
  cfg_SeqWindowSize :: u64
  cfg_ChannelTimeout :: u64
  cfg_L1ChainID :: "int option"
  cfg_L2ChainID :: "int option"
  cfg_RegolithTime :: "u64 option"
  cfg_CanyonTime :: "u64 option"
  cfg_DeltaTime :: "u64 option"
  cfg_EcotoneTime :: "u64 option"
  cfg_FjordTime :: "u64 option"
  cfg_InteropTime :: "u64 option"
  cfg_Fermat :: "int option"
  cfg_SnowTime :: "u64 option"
  cfg_VoltaTime :: "u64 option"
  cfg_FourierTime :: "u64 option"
  cfg_BatchInboxAddress :: Address
  cfg_DepositContractAddress :: Address
  cfg_L1SystemConfigAddress :: Address
  cfg_ProtocolVersionsAddress :: Address
  cfg_PlasmaConfig :: "PlasmaConfig option"
  cfg_LegacyDAChallengeAddress :: Address
  cfg_LegacyDAChallengeWindow :: u64
  cfg_LegacyDAResolveWindow :: u64
  cfg_LegacyUsePlasma :: bool

section \<open>Fork switches\<close>

definition isTimestampForked :: "u64 option \<Rightarrow> u64 \<Rightarrow> bool" where
  "isTimestampForked s head = (case s of None \<Rightarrow> False | Some t \<Rightarrow> t \<le> head)"

definition isBlockForked :: "int option \<Rightarrow> int option \<Rightarrow> bool" where
  "isBlockForked s head =
     (case (s, head) of (Some a, Some b) \<Rightarrow> a \<le> b | _ \<Rightarrow> False)"

definition IsRegolith :: "Config \<Rightarrow> u64 \<Rightarrow> bool" where
  "IsRegolith c timestamp = (case cfg_RegolithTime c of None \<Rightarrow> False | Some t \<Rightarrow> timestamp \<ge> t)"

definition IsCanyon :: "Config \<Rightarrow> u64 \<Rightarrow> bool" where
  "IsCanyon c timestamp = (case cfg_CanyonTime c of None \<Rightarrow> False | Some t \<Rightarrow> timestamp \<ge> t)"

definition IsDelta :: "Config \<Rightarrow> u64 \<Rightarrow> bool" where
  "IsDelta c timestamp = (case cfg_DeltaTime c of None \<Rightarrow> False | Some t \<Rightarrow> timestamp \<ge> t)"

definition IsEcotone :: "Config \<Rightarrow> u64 \<Rightarrow> bool" where
  "IsEcotone c timestamp = (case cfg_EcotoneTime c of None \<Rightarrow> False | Some t \<Rightarrow> timestamp \<ge> t)"

definition IsFjord :: "Config \<Rightarrow> u64 \<Rightarrow> bool" where
  "IsFjord c timestamp = (case cfg_FjordTime c of None \<Rightarrow> False | Some t \<Rightarrow> timestamp \<ge> t)"

definition IsInterop :: "Config \<Rightarrow> u64 \<Rightarrow> bool" where
  "IsInterop c timestamp = (case cfg_InteropTime c of None \<Rightarrow> False | Some t \<Rightarrow> timestamp \<ge> t)"

definition IsVolta :: "Config \<Rightarrow> u64 \<Rightarrow> bool" where
  "IsVolta c timestamp = (case cfg_VoltaTime c of None \<Rightarrow> False | Some t \<Rightarrow> timestamp \<ge> t)"

definition IsFourier :: "Config \<Rightarrow> u64 \<Rightarrow> bool" where
  "IsFourier c timestamp = (case cfg_FourierTime c of None \<Rightarrow> False | Some t \<Rightarrow> timestamp \<ge> t)"

definition IsSnow :: "Config \<Rightarrow> u64 \<Rightarrow> bool" where
  "IsSnow c time = isTimestampForked (cfg_SnowTime c) time"

definition IsFermat :: "Config \<Rightarrow> int option \<Rightarrow> bool" where
  "IsFermat c num = isBlockForked (cfg_Fermat c) num"

lemmas fork_defs = IsRegolith_def IsCanyon_def IsDelta_def IsEcotone_def IsFjord_def
  IsInterop_def IsVolta_def IsFourier_def

section \<open>Block intervals\<close>

definition MillisecondBlockIntervalVolta :: u64 where
  "MillisecondBlockIntervalVolta = 500"

definition MillisecondBlockIntervalFourier :: u64 where
  "MillisecondBlockIntervalFourier = 250"

definition MillisecondBlockInterval :: "Config \<Rightarrow> u64 \<Rightarrow> u64" where
  "MillisecondBlockInterval cfg ms =
     (if IsFourier cfg (ms div 1000) then MillisecondBlockIntervalFourier
      else if IsVolta cfg (ms div 1000) then MillisecondBlockIntervalVolta
      else cfg_BlockTime cfg * 1000)"

definition SecondBlockInterval :: "Config \<Rightarrow> u64 \<Rightarrow> u64" where
  "SecondBlockInterval cfg ms = MillisecondBlockInterval cfg ms div 1000"

definition NextMillisecondBlockTime :: "Config \<Rightarrow> u64 \<Rightarrow> u64" where
  "NextMillisecondBlockTime cfg ms = ms + MillisecondBlockInterval cfg ms"

definition NextSecondBlockTime :: "Config \<Rightarrow> u64 \<Rightarrow> u64" where
  "NextSecondBlockTime cfg ms = NextMillisecondBlockTime cfg ms div 1000"

section \<open>Activation blocks\<close>

definition IsRegolithActivationBlock :: "Config \<Rightarrow> u64 \<Rightarrow> bool" where
  "IsRegolithActivationBlock c t \<longleftrightarrow>
     IsRegolith c t \<and> SecondBlockInterval c (t * 1000) \<le> t \<and>
     \<not> IsRegolith c (t - SecondBlockInterval c (t * 1000))"

definition IsCanyonActivationBlock :: "Config \<Rightarrow> u64 \<Rightarrow> bool" where
  "IsCanyonActivationBlock c t \<longleftrightarrow>
     IsCanyon c t \<and> SecondBlockInterval c (t * 1000) \<le> t \<and>
     \<not> IsCanyon c (t - SecondBlockInterval c (t * 1000))"

definition IsDeltaActivationBlock :: "Config \<Rightarrow> u64 \<Rightarrow> bool" where
  "IsDeltaActivationBlock c t \<longleftrightarrow>
     IsDelta c t \<and> SecondBlockInterval c (t * 1000) \<le> t \<and>
     \<not> IsDelta c (t - SecondBlockInterval c (t * 1000))"

definition IsEcotoneActivationBlock :: "Config \<Rightarrow> u64 \<Rightarrow> bool" where
  "IsEcotoneActivationBlock c t \<longleftrightarrow>
     IsEcotone c t \<and> SecondBlockInterval c (t * 1000) \<le> t \<and>
     \<not> IsEcotone c (t - SecondBlockInterval c (t * 1000))"

definition IsFjordActivationBlock :: "Config \<Rightarrow> u64 \<Rightarrow> bool" where
  "IsFjordActivationBlock c t \<longleftrightarrow>
     IsFjord c t \<and> SecondBlockInterval c (t * 1000) \<le> t \<and>
     \<not> IsFjord c (t - SecondBlockInterval c (t * 1000))"

definition IsInteropActivationBlock :: "Config \<Rightarrow> u64 \<Rightarrow> bool" where
  "IsInteropActivationBlock c t \<longleftrightarrow>
     IsInterop c t \<and> SecondBlockInterval c (t * 1000) \<le> t \<and>
     \<not> IsInterop c (t - SecondBlockInterval c (t * 1000))"

definition IsVoltaActivationBlock :: "Config \<Rightarrow> u64 \<Rightarrow> bool" where
  "IsVoltaActivationBlock c ms \<longleftrightarrow>
     (if ms mod 1000 \<noteq> 0 then False
      else let t = ms div 1000
           in IsVolta c t \<and> cfg_BlockTime c \<le> t \<and> \<not> IsVolta c (t - cfg_BlockTime c))"

lemmas activation_defs = IsRegolithActivationBlock_def IsCanyonActivationBlock_def
  IsDeltaActivationBlock_def IsEcotoneActivationBlock_def IsFjordActivationBlock_def
  IsInteropActivationBlock_def

section \<open>Block numbers and block times\<close>

text \<open>
  \<open>int64\<close> results are read as signed: \<open>-1\<close> says that the fork is not scheduled.
\<close>

definition VoltaBlockNumber :: "Config \<Rightarrow> i64 go" where
  "VoltaBlockNumber c =
     (case cfg_VoltaTime c of
        None \<Rightarrow> Some (- 1)
      | Some v \<Rightarrow>
          if v < gen_L2Time (cfg_Genesis c) then Some (- 1)
          else if cfg_BlockTime c = 0 then None
          else Some ((v - gen_L2Time (cfg_Genesis c)) div cfg_BlockTime c
                     + bid_Number (gen_L2 (cfg_Genesis c))))"

definition FourierBlockNumber :: "Config \<Rightarrow> i64 go" where
  "FourierBlockNumber c =
     do {
       v \<leftarrow> VoltaBlockNumber c;
       if 0 <s v then
         (case cfg_FourierTime c of
            None \<Rightarrow> Some (- 1)
          | Some f \<Rightarrow>
              if f < gen_L2Time (cfg_Genesis c) then Some (- 1)
              else do {
                vt \<leftarrow> cfg_VoltaTime c;
                Some (v + (f - vt) div MillisecondBlockIntervalVolta)
              })
       else Some (- 1)
     }"

definition MillisecondTimestampForBlock :: "Config \<Rightarrow> u64 \<Rightarrow> u64 go" where
  "MillisecondTimestampForBlock cfg n =
     do {
       v \<leftarrow> VoltaBlockNumber cfg;
       if v <s 0 then
         Some (gen_L2Time (cfg_Genesis cfg) * 1000
               + (n - bid_Number (gen_L2 (cfg_Genesis cfg))) * cfg_BlockTime cfg * 1000)
       else if v = 0 then
         do { vt \<leftarrow> cfg_VoltaTime cfg; Some (vt * 1000 + n * MillisecondBlockIntervalVolta) }
       else if n \<le> v then
         Some (gen_L2Time (cfg_Genesis cfg) * 1000
               + (n - bid_Number (gen_L2 (cfg_Genesis cfg))) * cfg_BlockTime cfg * 1000)
       else do {
         f \<leftarrow> FourierBlockNumber cfg;
         vt \<leftarrow> cfg_VoltaTime cfg;
         if f <s 0 \<or> n \<le> f then Some (vt * 1000 + (n - v) * MillisecondBlockIntervalVolta)
         else Some (vt * 1000 + (f - v) * MillisecondBlockIntervalVolta
                    + (n - f) * MillisecondBlockIntervalFourier)
       }
     }"

definition TargetBlockNumber :: "Config \<Rightarrow> u64 \<Rightarrow> u64 res go" where
  "TargetBlockNumber cfg ms =
     do {
       v \<leftarrow> VoltaBlockNumber cfg;
       before \<leftarrow> (if v <s 0 then Some True
                  else do { vt \<leftarrow> cfg_VoltaTime cfg; Some (ms < vt * 1000) });
       if before then
         (let genesisMs = gen_L2Time (cfg_Genesis cfg) * 1000
          in if ms < genesisMs then Some (Inl (Msg ''did not reach genesis time yet''))
             else if cfg_BlockTime cfg * 1000 = 0 then None
             else Some (Inr (bid_Number (gen_L2 (cfg_Genesis cfg))
                             + (ms - genesisMs) div (cfg_BlockTime cfg * 1000))))
       else do {
         f \<leftarrow> FourierBlockNumber cfg;
         fourier \<leftarrow> (if 0 <s f then do { ft \<leftarrow> cfg_FourierTime cfg; Some (ft * 1000 \<le> ms) }
                      else Some False);
         if fourier then do {
           ft \<leftarrow> cfg_FourierTime cfg;
           Some (Inr (f + (ms - ft * 1000) div MillisecondBlockIntervalFourier))
         }
         else do {
           vt \<leftarrow> cfg_VoltaTime cfg;
           Some (Inr (v + (ms - vt * 1000) div MillisecondBlockIntervalVolta))
         }
       }
     }"

section \<open>Checking the configuration\<close>

text \<open>
  A sentinel error is \<open>Msg\<close> of its name, a formatted error is \<open>Msg\<close> of its fixed text. The check
  writes to the configuration it is called on, also when it fails later, so it returns both.
\<close>

definition KeccakCommitmentString :: string where
  "KeccakCommitmentString = ''KeccakCommitment''"

definition GenericCommitmentString :: string where
  "GenericCommitmentString = ''GenericCommitment''"

definition validatePlasmaConfig :: "Config \<Rightarrow> Config \<times> gerr option" where
  "validatePlasmaConfig cfg =
     (case cfg_PlasmaConfig cfg of
        None \<Rightarrow>
          if cfg_LegacyUsePlasma cfg then
            (cfg\<lparr>cfg_PlasmaConfig := Some
                 \<lparr>pc_DAChallengeAddress = cfg_LegacyDAChallengeAddress cfg,
                  pc_CommitmentType = [],
                  pc_DAChallengeWindow = cfg_LegacyDAChallengeWindow cfg,
                  pc_DAResolveWindow = cfg_LegacyDAResolveWindow cfg\<rparr>\<rparr>, None)
          else (cfg, None)
      | Some pc \<Rightarrow>
          if cfg_LegacyUsePlasma cfg then
            (if cfg_LegacyDAChallengeAddress cfg \<noteq> pc_DAChallengeAddress pc then
               (cfg, Some (Msg ''LegacyDAChallengeAddress != PlasmaConfig.DAChallengeAddress''))
             else if cfg_LegacyDAChallengeWindow cfg \<noteq> pc_DAChallengeWindow pc then
               (cfg, Some (Msg ''LegacyDAChallengeWindow != PlasmaConfig.DAChallengeWindow''))
             else if cfg_LegacyDAResolveWindow cfg \<noteq> pc_DAResolveWindow pc then
               (cfg, Some (Msg ''LegacyDAResolveWindow != PlasmaConfig.DAResolveWindow''))
             else if pc_CommitmentType pc \<noteq> KeccakCommitmentString then
               (cfg, Some (Msg ''Cannot set CommitmentType with the legacy config''))
             else (cfg, None))
          else if \<not> (pc_CommitmentType pc = KeccakCommitmentString
                     \<or> pc_CommitmentType pc = GenericCommitmentString) then
            (cfg, Some (Msg ''invalid commitment type''))
          else if pc_CommitmentType pc = KeccakCommitmentString
                  \<and> pc_DAChallengeAddress pc = 0 then
            (cfg, Some (Msg ''Must set da_challenge_contract_address for keccak commitments''))
          else if pc_CommitmentType pc = GenericCommitmentString
                  \<and> pc_DAChallengeAddress pc \<noteq> 0 then
            (cfg, Some (Msg ''Must set empty da_challenge_contract_address for generic commitments''))
          else (cfg, None))"

definition checkFork :: "u64 option \<Rightarrow> u64 option \<Rightarrow> gerr option" where
  "checkFork a b =
     (case (a, b) of
        (None, None) \<Rightarrow> None
      | (None, Some _) \<Rightarrow> Some (Msg ''fork set, but prior fork missing'')
      | (Some _, None) \<Rightarrow> None
      | (Some x, Some y) \<Rightarrow>
          if x > y then Some (Msg ''fork set, but prior fork has higher offset'') else None)"

definition validateAndCorrectVoltaTime :: "Config \<Rightarrow> Config go" where
  "validateAndCorrectVoltaTime c =
     (case cfg_VoltaTime c of
        None \<Rightarrow> Some c
      | Some v \<Rightarrow>
          if v = 0 then Some (c\<lparr>cfg_VoltaTime := Some (gen_L2Time (cfg_Genesis c))\<rparr>)
          else if v < gen_L2Time (cfg_Genesis c) then None
          else Some c)"

definition validateAndCorrectFourierTime :: "Config \<Rightarrow> Config go" where
  "validateAndCorrectFourierTime c =
     (case cfg_FourierTime c of
        None \<Rightarrow> Some c
      | Some v \<Rightarrow>
          if v = 0 then Some (c\<lparr>cfg_FourierTime := Some (gen_L2Time (cfg_Genesis c))\<rparr>)
          else if v < gen_L2Time (cfg_Genesis c) then None
          else Some c)"

fun first_error :: "gerr option list \<Rightarrow> gerr option" where
  "first_error [] = None"
| "first_error (None # es) = first_error es"
| "first_error (Some e # es) = Some e"

definition checkFields :: "Config \<Rightarrow> gerr option" where
  "checkFields cfg =
     (let g = cfg_Genesis cfg; sc = gen_SystemConfig g in
      if cfg_BlockTime cfg = 0 then Some (Msg ''ErrBlockTimeZero'')
      else if cfg_ChannelTimeout cfg = 0 then Some (Msg ''ErrMissingChannelTimeout'')
      else if cfg_SeqWindowSize cfg < 2 then Some (Msg ''ErrInvalidSeqWindowSize'')
      else if bid_Hash (gen_L1 g) = 0 then Some (Msg ''ErrMissingGenesisL1Hash'')
      else if bid_Hash (gen_L2 g) = 0 then Some (Msg ''ErrMissingGenesisL2Hash'')
      else if bid_Hash (gen_L2 g) = bid_Hash (gen_L1 g) then Some (Msg ''ErrGenesisHashesSame'')
      else if gen_L2Time g = 0 then Some (Msg ''ErrMissingGenesisL2Time'')
      else if BatcherAddr sc = 0 then Some (Msg ''ErrMissingBatcherAddr'')
      else if Scalar sc = 0 then Some (Msg ''ErrMissingScalar'')
      else if GasLimit sc = 0 then Some (Msg ''ErrMissingGasLimit'')
      else if cfg_BatchInboxAddress cfg = 0 then Some (Msg ''ErrMissingBatchInboxAddress'')
      else if cfg_DepositContractAddress cfg = 0 then Some (Msg ''ErrMissingDepositContractAddress'')
      else (case (cfg_L1ChainID cfg, cfg_L2ChainID cfg) of
              (None, _) \<Rightarrow> Some (Msg ''ErrMissingL1ChainID'')
            | (_, None) \<Rightarrow> Some (Msg ''ErrMissingL2ChainID'')
            | (Some a, Some b) \<Rightarrow>
                if a = b then Some (Msg ''ErrChainIDsSame'')
                else if a \<le> 0 then Some (Msg ''ErrL1ChainIDNotPositive'')
                else if b \<le> 0 then Some (Msg ''ErrL2ChainIDNotPositive'')
                else None))"

definition checkForks :: "Config \<Rightarrow> gerr option" where
  "checkForks cfg =
     first_error
       [checkFork (cfg_RegolithTime cfg) (cfg_CanyonTime cfg),
        checkFork (cfg_CanyonTime cfg) (cfg_DeltaTime cfg),
        checkFork (cfg_DeltaTime cfg) (cfg_EcotoneTime cfg),
        checkFork (cfg_EcotoneTime cfg) (cfg_FjordTime cfg),
        checkFork (cfg_FjordTime cfg) (cfg_VoltaTime cfg),
        checkFork (cfg_SnowTime cfg) (cfg_VoltaTime cfg),
        checkFork (cfg_VoltaTime cfg) (cfg_FourierTime cfg)]"

definition Check :: "Config \<Rightarrow> (Config \<times> gerr option) go" where
  "Check cfg =
     (case checkFields cfg of
        Some e \<Rightarrow> Some (cfg, Some e)
      | None \<Rightarrow>
          (case validatePlasmaConfig cfg of
             (cfg1, Some e) \<Rightarrow> Some (cfg1, Some e)
           | (cfg1, None) \<Rightarrow>
               do {
                 cfg2 \<leftarrow> validateAndCorrectVoltaTime cfg1;
                 cfg3 \<leftarrow> validateAndCorrectFourierTime cfg2;
                 Some (cfg3, checkForks cfg3)
               }))"

section \<open>Engine API versions and plasma settings\<close>

datatype EngineAPIMethod =
    FCUV1 | FCUV2 | FCUV3 | NewPayloadV2 | NewPayloadV3
  | GetPayloadV2 | GetPayloadV3 | SealPayloadV2 | SealPayloadV3

text \<open>The argument is the timestamp of the payload attributes, \<open>None\<close> for nil attributes.\<close>

definition ForkchoiceUpdatedVersion :: "Config \<Rightarrow> u64 option \<Rightarrow> EngineAPIMethod" where
  "ForkchoiceUpdatedVersion c attr =
     (case attr of
        None \<Rightarrow> FCUV3
      | Some ts \<Rightarrow> if IsEcotone c ts then FCUV3 else if IsCanyon c ts then FCUV2 else FCUV1)"

definition NewPayloadVersion :: "Config \<Rightarrow> u64 \<Rightarrow> EngineAPIMethod" where
  "NewPayloadVersion c t = (if IsEcotone c t then NewPayloadV3 else NewPayloadV2)"

definition GetPayloadVersion :: "Config \<Rightarrow> u64 \<Rightarrow> EngineAPIMethod" where
  "GetPayloadVersion c t = (if IsEcotone c t then GetPayloadV3 else GetPayloadV2)"

definition SealPayloadVersion :: "Config \<Rightarrow> u64 \<Rightarrow> EngineAPIMethod" where
  "SealPayloadVersion c t = (if IsEcotone c t then SealPayloadV3 else SealPayloadV2)"

definition PlasmaEnabled :: "Config \<Rightarrow> bool" where
  "PlasmaEnabled c = (cfg_PlasmaConfig c \<noteq> None)"

definition SyncLookback :: "Config \<Rightarrow> u64" where
  "SyncLookback c =
     (case cfg_PlasmaConfig c of
        Some pc \<Rightarrow>
          (let win = pc_DAChallengeWindow pc + pc_DAResolveWindow pc
           in if win > cfg_SeqWindowSize c then win else cfg_SeqWindowSize c)
      | None \<Rightarrow> cfg_SeqWindowSize c)"

section \<open>The chain spec (op-node/rollup/chain_spec.go)\<close>

text \<open>\<open>FUnset\<close> is the empty string, the zero value of a fork name.\<close>

datatype ForkName =
    Bedrock | Regolith | Canyon | Delta | Ecotone | Fjord | Snow | Volta | Fourier | Interop
  | FNone | FUnset

fun nextFork :: "ForkName \<Rightarrow> ForkName" where
  "nextFork Bedrock = Regolith"
| "nextFork Regolith = Canyon"
| "nextFork Canyon = Delta"
| "nextFork Delta = Ecotone"
| "nextFork Ecotone = Fjord"
| "nextFork Fjord = Interop"
| "nextFork Interop = FNone"
| "nextFork _ = FUnset"

record ChainSpec =
  cs_config :: Config
  cs_currentFork :: ForkName

definition NewChainSpec :: "Config \<Rightarrow> ChainSpec" where
  "NewChainSpec c = \<lparr>cs_config = c, cs_currentFork = FUnset\<rparr>"

definition MaxChannelBankSize :: "Config \<Rightarrow> u64 \<Rightarrow> u64" where
  "MaxChannelBankSize c t = (if IsFjord c t then 1000000000 else 100000000)"

definition MaxRLPBytesPerChannel :: "Config \<Rightarrow> u64 \<Rightarrow> u64" where
  "MaxRLPBytesPerChannel c t = (if IsFjord c t then 100000000 else 10000000)"

definition MaxSequencerDrift :: "Config \<Rightarrow> u64 \<Rightarrow> u64" where
  "MaxSequencerDrift c t = (if IsFjord c t then 1800 else cfg_MaxSequencerDrift c)"

definition CheckForkActivation :: "ChainSpec \<Rightarrow> L2BlockRef \<Rightarrow> ChainSpec" where
  "CheckForkActivation s block =
     (let c = cs_config s; t = l2_Time block in
      if cs_currentFork s = Interop then s
      else if cs_currentFork s = FUnset then
        (let f = Bedrock;
             f = (if IsRegolith c t then Regolith else f);
             f = (if IsCanyon c t then Canyon else f);
             f = (if IsDelta c t then Delta else f);
             f = (if IsEcotone c t then Ecotone else f);
             f = (if IsFjord c t then Fjord else f);
             f = (if IsInterop c t then Interop else f)
         in s\<lparr>cs_currentFork := f\<rparr>)
      else
        (let found =
           (case nextFork (cs_currentFork s) of
              Regolith \<Rightarrow> IsRegolithActivationBlock c t
            | Canyon \<Rightarrow> IsCanyonActivationBlock c t
            | Delta \<Rightarrow> IsDeltaActivationBlock c t
            | Ecotone \<Rightarrow> IsEcotoneActivationBlock c t
            | Fjord \<Rightarrow> IsFjordActivationBlock c t
            | Interop \<Rightarrow> IsInteropActivationBlock c t
            | _ \<Rightarrow> False)
         in if found then s\<lparr>cs_currentFork := nextFork (cs_currentFork s)\<rparr> else s))"

section \<open>The networks (op-node/chaincfg/chains.go)\<close>

definition OPBNBMainnet :: Config where
  "OPBNBMainnet =
     \<lparr>cfg_Genesis =
        \<lparr>gen_L1 = \<lparr>bid_Hash = 0x29443b21507894febe7700f7c5cd3569cc8bf1ba535df0489276d8004af81044,
                   bid_Number = 30758357\<rparr>,
         gen_L2 = \<lparr>bid_Hash = 0x4dd61178c8b0f01670c231597e7bcb368e84545acd46d940a896d6a791dd6df4,
                   bid_Number = 0\<rparr>,
         gen_L2Time = 1691753723,
         gen_SystemConfig =
           \<lparr>BatcherAddr = 0xef8783382ef80ec23b66c43575a6103deca909c3,
            Overhead = 0x834, Scalar = 0xf4240, GasLimit = 100000000\<rparr>\<rparr>,
      cfg_BlockTime = 1,
      cfg_MaxSequencerDrift = 600,
      cfg_SeqWindowSize = 96000,
      cfg_ChannelTimeout = 1200,
      cfg_L1ChainID = Some 56,
      cfg_L2ChainID = Some 204,
      cfg_RegolithTime = Some 0,
      cfg_CanyonTime = Some 1718870400,
      cfg_DeltaTime = Some 1718871000,
      cfg_EcotoneTime = Some 1718871600,
      cfg_FjordTime = Some 1727157600,
      cfg_InteropTime = None,
      cfg_Fermat = Some 9397477,
      cfg_SnowTime = Some 1713160800,
      cfg_VoltaTime = Some 1745204400,
      cfg_FourierTime = None,
      cfg_BatchInboxAddress = 0xff00000000000000000000000000000000000204,
      cfg_DepositContractAddress = 0x1876ea7702c0ad0c6a2ae6036de7733edfbca519,
      cfg_L1SystemConfigAddress = 0x7ac836148c14c74086d57f7828f2d065672db3b8,
      cfg_ProtocolVersionsAddress = 0,
      cfg_PlasmaConfig = None,
      cfg_LegacyDAChallengeAddress = 0,
      cfg_LegacyDAChallengeWindow = 0,
      cfg_LegacyDAResolveWindow = 0,
      cfg_LegacyUsePlasma = False\<rparr>"

definition OPBNBTestnet :: Config where
  "OPBNBTestnet =
     \<lparr>cfg_Genesis =
        \<lparr>gen_L1 = \<lparr>bid_Hash = 0xc01a09840419cd993cf4666309f36e6d38de39771af8dbffecfa0386321c19f7,
                   bid_Number = 30727847\<rparr>,
         gen_L2 = \<lparr>bid_Hash = 0x51fa57729dfb1c27542c21b06cb72a0459c57440ceb43a465dae1307cd04fe80,
                   bid_Number = 0\<rparr>,
         gen_L2Time = 1686878506,
         gen_SystemConfig =
           \<lparr>BatcherAddr = 0x1fd6a75cc72f39147756a663f3ef1fc95ef89495,
            Overhead = 0x834, Scalar = 0xf4240, GasLimit = 100000000\<rparr>\<rparr>,
      cfg_BlockTime = 1,
      cfg_MaxSequencerDrift = 600,
      cfg_SeqWindowSize = 96000,
      cfg_ChannelTimeout = 1200,
      cfg_L1ChainID = Some 97,
      cfg_L2ChainID = Some 5611,
      cfg_RegolithTime = Some 0,
      cfg_CanyonTime = Some 1715753400,
      cfg_DeltaTime = Some 1715754000,
      cfg_EcotoneTime = Some 1715754600,
      cfg_FjordTime = Some 1725948000,
      cfg_InteropTime = None,
      cfg_Fermat = Some 12113000,
      cfg_SnowTime = Some 1715752800,
      cfg_VoltaTime = Some 1743562800,
      cfg_FourierTime = Some 1762398000,
      cfg_BatchInboxAddress = 0xff00000000000000000000000000000000005611,
      cfg_DepositContractAddress = 0x4386c8abf2009ac0c263462da568dd9d46e52a31,
      cfg_L1SystemConfigAddress = 0x406ac857817708eaf4ca3a82317ef4ae3d1ea23b,
      cfg_ProtocolVersionsAddress = 0,
      cfg_PlasmaConfig = None,
      cfg_LegacyDAChallengeAddress = 0,
      cfg_LegacyDAChallengeWindow = 0,
      cfg_LegacyDAResolveWindow = 0,
      cfg_LegacyUsePlasma = False\<rparr>"

section \<open>The block schedule over the natural numbers\<close>

definition realistic :: "Config \<Rightarrow> bool" where
  "realistic cfg \<longleftrightarrow>
     0 < cfg_BlockTime cfg \<and> cfg_BlockTime cfg \<le> 1024 \<and>
     gen_L2Time (cfg_Genesis cfg) < 2 ^ 40 \<and>
     bid_Number (gen_L2 (cfg_Genesis cfg)) < 2 ^ 40 \<and>
     (case cfg_VoltaTime cfg of None \<Rightarrow> True | Some v \<Rightarrow> v < 2 ^ 40)"

abbreviation genTime :: "Config \<Rightarrow> nat" where
  "genTime cfg \<equiv> unat (gen_L2Time (cfg_Genesis cfg))"
abbreviation genNumber :: "Config \<Rightarrow> nat" where
  "genNumber cfg \<equiv> unat (bid_Number (gen_L2 (cfg_Genesis cfg)))"
abbreviation blockTime :: "Config \<Rightarrow> nat" where
  "blockTime cfg \<equiv> unat (cfg_BlockTime cfg)"

definition volta_at :: "Config \<Rightarrow> (nat \<times> nat) option" where
  "volta_at cfg =
     (case cfg_VoltaTime cfg of
        None \<Rightarrow> None
      | Some v \<Rightarrow>
          if v < gen_L2Time (cfg_Genesis cfg) then None
          else Some (unat v, (unat v - genTime cfg) div blockTime cfg + genNumber cfg))"

lemma VoltaBlockNumber_None:
  "volta_at cfg = None \<Longrightarrow> VoltaBlockNumber cfg = Some (- 1)"
  by (auto simp: volta_at_def VoltaBlockNumber_def split: option.splits if_splits)

lemma VoltaBlockNumber_Some:
  assumes "realistic cfg" "volta_at cfg = Some (v, k)"
  shows "VoltaBlockNumber cfg = Some (of_nat k)"
    and "k < 2 ^ 41" and "cfg_VoltaTime cfg = Some (of_nat v)" and "v < 2 ^ 40"
    and "genTime cfg \<le> v" and "k = (v - genTime cfg) div blockTime cfg + genNumber cfg"
proof -
  obtain t where t: "cfg_VoltaTime cfg = Some t" "gen_L2Time (cfg_Genesis cfg) \<le> t" "v = unat t"
    and k: "k = (unat t - genTime cfg) div blockTime cfg + genNumber cfg"
    using assms(2) by (auto simp: volta_at_def split: option.splits if_splits)
  have b: "unat t < 2 ^ 40" "genNumber cfg < 2 ^ 40"
    using assms(1) t by (auto simp: realistic_def word_less_nat_alt)
  have "(unat t - genTime cfg) div blockTime cfg \<le> unat t"
    by (meson div_le_dividend diff_le_self le_trans)
  then show "k < 2 ^ 41" using b k by simp
  have "of_nat k = (t - gen_L2Time (cfg_Genesis cfg)) div cfg_BlockTime cfg
                   + bid_Number (gen_L2 (cfg_Genesis cfg))"
    using t by (simp add: k unat_sub [symmetric] of_nat_div_u64)
  then show "VoltaBlockNumber cfg = Some (of_nat k)"
    using assms(1) t by (auto simp: VoltaBlockNumber_def realistic_def)
  show "cfg_VoltaTime cfg = Some (of_nat v)" "v < 2 ^ 40" "genTime cfg \<le> v" 
     "k = (v - genTime cfg) div blockTime cfg + genNumber cfg"
    using t b k by (simp_all add: word_le_nat_alt)
qed

lemma FourierBlockNumber_None:
  assumes "realistic cfg" "cfg_FourierTime cfg = None"
  shows "FourierBlockNumber cfg = Some (- 1)"
  using VoltaBlockNumber_None [of cfg] VoltaBlockNumber_Some(1) [OF assms(1)] assms(2)
  by (cases "volta_at cfg") (auto simp: FourierBlockNumber_def)

definition block_ms :: "Config \<Rightarrow> nat \<Rightarrow> nat" where
  "block_ms cfg n =
     (let pre = (genTime cfg + (n - genNumber cfg) * blockTime cfg) * 1000 in
      case volta_at cfg of
        None \<Rightarrow> pre
      | Some (v, k) \<Rightarrow>
          if k = 0 then v * 1000 + n * 500
          else if n \<le> k then pre
          else v * 1000 + (n - k) * 500)"

lemma pre_ms:
  assumes "realistic cfg" "bid_Number (gen_L2 (cfg_Genesis cfg)) \<le> n" "n < 2 ^ 41"
  shows "unat (gen_L2Time (cfg_Genesis cfg) * 1000
               + (n - bid_Number (gen_L2 (cfg_Genesis cfg))) * cfg_BlockTime cfg * 1000)
         = (genTime cfg + (unat n - genNumber cfg) * blockTime cfg) * 1000"
proof -
  let ?g = "gen_L2Time (cfg_Genesis cfg)" and ?m = "bid_Number (gen_L2 (cfg_Genesis cfg))"
  let ?b = "cfg_BlockTime cfg"
  have b: "unat ?g < 2 ^ 40" "unat ?b \<le> 1024" "unat n < 2 ^ 41" "unat ?m \<le> unat n"
    using assms by (auto simp: realistic_def word_less_nat_alt word_le_nat_alt)
  have d: "unat (n - ?m) = unat n - unat ?m" using b(4) by (simp add: unat_sub word_le_nat_alt)
  have m: "(unat n - unat ?m) * unat ?b \<le> 2 ^ 41 * 1024" using b by (intro mult_le_mono) auto
  then have e: "unat ((n - ?m) * ?b) = (unat n - unat ?m) * unat ?b"
    by (subst unat_mult_small) (simp_all add: d)
  obtain p where p: "(unat n - unat ?m) * unat ?b = p" by simp
  have f: "unat ((n - ?m) * ?b * 1000) = p * 1000"
    using m e p by (subst unat_mult_small) simp_all
  have h: "unat (?g * 1000) = unat ?g * 1000"
    using b by (subst unat_mult_small) simp_all
  have "unat (?g * 1000 + (n - ?m) * ?b * 1000) = unat (?g * 1000) + unat ((n - ?m) * ?b * 1000)"
    by (rule unat_add_small) (use b m f h p in simp)
  then show ?thesis by (simp only: f h p) simp
qed

lemma post_ms:
  assumes "v < 2 ^ 40" "k \<le> unat (n :: u64)" "unat n < 2 ^ 41"
  shows "unat (of_nat v * 1000 + (n - of_nat k) * 500) = v * 1000 + (unat n - k) * 500"
proof -
  have v: "unat (of_nat v * 1000 :: u64) = v * 1000"
    using assms(1) by (subst unat_mult_small) (simp_all add: unat_of_nat_u64)
  have "n - of_nat k = of_nat (unat n - k)" using assms(2) by simp
  then have "unat ((n - of_nat k) * 500) = (unat n - k) * 500"
    using assms(3) by (simp add: unat_mult_small unat_of_nat_u64 del: of_nat_diff)
  then show ?thesis using v assms by (subst unat_add_small) simp_all
qed

lemma MillisecondTimestampForBlock_refines:
  assumes r: "realistic cfg" and f: "cfg_FourierTime cfg = None"
    and n: "bid_Number (gen_L2 (cfg_Genesis cfg)) \<le> n" "n < 2 ^ 41"
  shows "\<exists>w. MillisecondTimestampForBlock cfg n = Some w \<and> unat w = block_ms cfg (unat n)"
proof (cases "volta_at cfg")
  case None
  then show ?thesis
    using pre_ms [OF r n] VoltaBlockNumber_None [OF None]
    by (simp add: MillisecondTimestampForBlock_def block_ms_def)
next
  case (Some vk)
  then obtain v k where vk: "volta_at cfg = Some (v, k)" by (cases vk) auto
  note V = VoltaBlockNumber_Some [OF r vk]
  have le: "n \<le> of_nat k \<longleftrightarrow> unat n \<le> k"
    using V(2) by (simp add: word_le_nat_alt unat_of_nat_u64)
  have z: "(of_nat k :: u64) = 0 \<longleftrightarrow> k = 0" using V(2) by (intro of_nat_eq_0_u64) simp
  have s: "\<not> (of_nat k :: u64) <s 0" using V(2) by (intro sless_of_nat_u64) simp
  have n41: "unat n < 2 ^ 41" using n(2) by (simp add: word_less_nat_alt)
  show ?thesis
    using pre_ms [OF r n] post_ms [OF V(4) _ n41, of k] post_ms [OF V(4) _ n41, of 0]
      FourierBlockNumber_None [OF r f] vk V(1,3) s z le
    by (simp add: MillisecondTimestampForBlock_def block_ms_def MillisecondBlockIntervalVolta_def)
qed

definition target_block :: "Config \<Rightarrow> nat \<Rightarrow> nat" where
  "target_block cfg ms =
     (let pre = genNumber cfg + (ms - genTime cfg * 1000) div (blockTime cfg * 1000) in
      case volta_at cfg of
        None \<Rightarrow> pre
      | Some (v, k) \<Rightarrow> if ms < v * 1000 then pre else k + (ms - v * 1000) div 500)"

lemma TargetBlockNumber_refines:
  assumes r: "realistic cfg" and f: "cfg_FourierTime cfg = None"
    and ms: "genTime cfg * 1000 \<le> unat ms" "ms < 2 ^ 62"
  shows "\<exists>w. TargetBlockNumber cfg ms = Some (Inr w) \<and> unat w = target_block cfg (unat ms)"
proof -
  have b: "genTime cfg < 2 ^ 40" "0 < blockTime cfg" "blockTime cfg \<le> 1024" "genNumber cfg < 2 ^ 40"
    "unat ms < 2 ^ 62"
    using r ms by (auto simp: realistic_def word_less_nat_alt word_le_nat_alt)
  have g: "unat (gen_L2Time (cfg_Genesis cfg) * 1000) = genTime cfg * 1000"
    using b by (subst unat_mult_small) simp_all
  have bt: "unat (cfg_BlockTime cfg * 1000) = blockTime cfg * 1000"
    using b by (subst unat_mult_small) simp_all
  have bt0: "cfg_BlockTime cfg * 1000 \<noteq> 0"
    using b bt by (metis mult_eq_0_iff not_gr0 unat_0 zero_neq_numeral)
  have ge: "gen_L2Time (cfg_Genesis cfg) * 1000 \<le> ms"
    using g ms by (simp add: word_le_nat_alt)
  let ?q = "(ms - gen_L2Time (cfg_Genesis cfg) * 1000) div (cfg_BlockTime cfg * 1000)"
  have q: "unat ?q = (unat ms - genTime cfg * 1000) div (blockTime cfg * 1000)"
    using ge g bt by (simp add: unat_div unat_sub)
  have "unat ?q \<le> unat ms" unfolding q by (meson div_le_dividend diff_le_self le_trans)
  then have pre: "unat (bid_Number (gen_L2 (cfg_Genesis cfg)) + ?q)
       = genNumber cfg + (unat ms - genTime cfg * 1000) div (blockTime cfg * 1000)"
    using b q by (subst unat_add_small) simp_all
  show ?thesis
  proof (cases "volta_at cfg")
    case None
    then show ?thesis
      using VoltaBlockNumber_None [OF None] ge bt0 pre
      by (simp add: TargetBlockNumber_def target_block_def Let_def)
  next
    case (Some vk)
    then obtain v k where vk: "volta_at cfg = Some (v, k)" by (cases vk) auto
    note V = VoltaBlockNumber_Some [OF r vk]
    have s: "\<not> (of_nat k :: u64) <s 0" using V(2) by (intro sless_of_nat_u64) simp
    have v: "unat (of_nat v * 1000 :: u64) = v * 1000"
      using V(4) by (subst unat_mult_small) (simp_all add: unat_of_nat_u64)
    have lt: "ms < of_nat v * 1000 \<longleftrightarrow> unat ms < v * 1000"
      using v by (simp add: word_less_nat_alt)
    have post: "unat (of_nat k + (ms - of_nat v * 1000) div 500) = k + (unat ms - v * 1000) div 500"
      if "v * 1000 \<le> unat ms"
    proof -
      have "unat ((ms - of_nat v * 1000) div 500) = (unat ms - v * 1000) div 500"
        using v that by (simp add: unat_div unat_sub word_le_nat_alt)
      then show ?thesis using V(2) b(5) by (subst unat_add_small) (simp_all add: unat_of_nat_u64)
    qed
    show ?thesis
      using V(1,3) s lt pre post leD [OF ge] bt0 FourierBlockNumber_None [OF r f] vk
      by (simp add: TargetBlockNumber_def target_block_def MillisecondBlockIntervalVolta_def Let_def)
  qed
qed

lemma realistic_bounds:
  assumes "realistic cfg"
  shows "0 < blockTime cfg" "blockTime cfg \<le> 1024" "genTime cfg < 2 ^ 40" "genNumber cfg < 2 ^ 40"
  using assms by (auto simp: realistic_def word_less_nat_alt word_le_nat_alt)

lemma block_ms_ge: "volta_at cfg = Some (v, k) \<Longrightarrow> genTime cfg \<le> v"
  by (auto simp: volta_at_def word_less_nat_alt split: option.splits if_splits)

lemma block_ms_lower: "genTime cfg * 1000 \<le> block_ms cfg n"
  using block_ms_ge [of cfg] by (auto simp: block_ms_def Let_def split: option.splits)

lemma block_ms_upper:
  assumes r: "realistic cfg" and n: "n < 2 ^ 41"
  shows "block_ms cfg n < 2 ^ 62"
proof -
  note b = realistic_bounds [OF r]
  have "(n - genNumber cfg) * blockTime cfg \<le> 2 ^ 41 * 1024"
    using b n by (intro mult_le_mono) auto
  then show ?thesis
    using b n VoltaBlockNumber_Some(4) [OF r]
    by (auto simp: block_ms_def Let_def split: option.splits)
qed

lemma target_block_ms:
  assumes r: "realistic cfg" and n: "genNumber cfg \<le> n"
  shows "target_block cfg (block_ms cfg n) = n"
proof -
  note b = realistic_bounds [OF r]
  let ?pre = "(genTime cfg + (n - genNumber cfg) * blockTime cfg) * 1000"
  have "?pre - genTime cfg * 1000 = (n - genNumber cfg) * (blockTime cfg * 1000)" by simp
  then have pre: "genNumber cfg + (?pre - genTime cfg * 1000) div (blockTime cfg * 1000) = n"
    using b n by simp
  show ?thesis
  proof (cases "volta_at cfg")
    case None
    then show ?thesis using pre by (simp add: target_block_def block_ms_def)
  next
    case (Some vk)
    then obtain v k where vk: "volta_at cfg = Some (v, k)" by (cases vk) auto
    note V = VoltaBlockNumber_Some(5,6) [OF r vk]
    have at: "n = k" if "n \<le> k" "v * 1000 \<le> ?pre"
    proof -
      have "v - genTime cfg \<le> (n - genNumber cfg) * blockTime cfg" using that(2) by simp
      then have "(v - genTime cfg) div blockTime cfg \<le> n - genNumber cfg"
        by (metis b(1) div_le_mono nonzero_mult_div_cancel_right not_gr0)
      then show ?thesis using V that n by simp
    qed
    have eq: "?pre = v * 1000" if "n = k" "v * 1000 \<le> ?pre"
    proof -
      have "(n - genNumber cfg) * blockTime cfg \<le> v - genTime cfg"
        using V that by (simp add: div_times_less_eq_dividend)
      then show ?thesis using that(2) V(1) by simp
    qed
    show ?thesis
      using pre at eq vk by (auto simp: target_block_def block_ms_def not_less)
  qed
qed

definition volta_aligned :: "Config \<Rightarrow> bool" where
  "volta_aligned cfg \<longleftrightarrow>
     (case volta_at cfg of None \<Rightarrow> cfg_VoltaTime cfg = None
      | Some (v, k) \<Rightarrow> (v - genTime cfg) mod blockTime cfg = 0)"

lemma realistic_OPBNBMainnet: "realistic OPBNBMainnet"
  by (simp add: realistic_def OPBNBMainnet_def)

lemma volta_aligned_OPBNBMainnet: "volta_aligned OPBNBMainnet"
  by (simp add: volta_aligned_def OPBNBMainnet_def volta_at_def)

lemma OPBNBMainnet_fields:
  "cfg_FourierTime OPBNBMainnet = None" "bid_Number (gen_L2 (cfg_Genesis OPBNBMainnet)) = 0"
  "cfg_BlockTime OPBNBMainnet = 1" "cfg_VoltaTime OPBNBMainnet = Some 1745204400"
  "cfg_LegacyUsePlasma OPBNBMainnet = False"
  by (simp_all add: OPBNBMainnet_def)

text \<open>The two schedule formulas agree: under a configuration with sane bounds and no Fourier
  fork, the target block number of the millisecond timestamp of block n is n, before, at and
  after the Volta switch, with no overflow of the 64-bit arithmetic and no panic.\<close>

theorem TargetBlockNumber_of_timestamp:
  assumes "realistic cfg" "cfg_FourierTime cfg = None"
    and "bid_Number (gen_L2 (cfg_Genesis cfg)) \<le> n" "n < 2 ^ 41"
  shows "do { ms \<leftarrow> MillisecondTimestampForBlock cfg n; TargetBlockNumber cfg ms } = Some (Inr n)"
proof -
  have n: "genNumber cfg \<le> unat n" "unat n < 2 ^ 41"
    using assms(3,4) by (simp_all add: word_le_nat_alt word_less_nat_alt)
  obtain w where w: "MillisecondTimestampForBlock cfg n = Some w" "unat w = block_ms cfg (unat n)"
    using MillisecondTimestampForBlock_refines [OF assms] by blast
  have "w < 2 ^ 62" using block_ms_upper [OF assms(1) n(2)] w(2) by (simp add: word_less_nat_alt)
  then obtain t where t: "TargetBlockNumber cfg w = Some (Inr t)" "unat t = target_block cfg (unat w)"
    using TargetBlockNumber_refines [OF assms(1,2), of w] block_ms_lower [of cfg] w(2) by auto
  have "unat t = unat n" by (simp add: t(2) w(2) target_block_ms [OF assms(1) n(1)])
  then show ?thesis using w t by (simp add: unsigned_word_eqI)
qed

theorem TargetBlockNumber_of_timestamp_witness:
  "do { ms \<leftarrow> MillisecondTimestampForBlock OPBNBMainnet 60000000;
        TargetBlockNumber OPBNBMainnet ms } = Some (Inr 60000000)"
  by (rule TargetBlockNumber_of_timestamp)
    (simp_all add: realistic_OPBNBMainnet OPBNBMainnet_fields)

lemma NextMillisecondBlockTime_refines:
  assumes "realistic cfg" "cfg_FourierTime cfg = None" "volta_aligned cfg" "unat ms < 2 ^ 62"
  shows "unat (NextMillisecondBlockTime cfg ms) =
     unat ms + (case volta_at cfg of
                  None \<Rightarrow> blockTime cfg * 1000
                | Some (v, k) \<Rightarrow> if v \<le> unat ms div 1000 then 500 else blockTime cfg * 1000)"
proof -
  note b = realistic_bounds [OF assms(1)]
  have bt: "unat (cfg_BlockTime cfg * 1000) = blockTime cfg * 1000"
    using b by (subst unat_mult_small) simp_all
  have add: "unat (ms + i) = unat ms + unat i" if "unat i \<le> 1024000" for i
    using that assms(4) by (intro unat_add_small) simp
  have volta: "IsVolta cfg (ms div 1000) \<longleftrightarrow> (case volta_at cfg of None \<Rightarrow> False | Some (v, k) \<Rightarrow> v \<le> unat ms div 1000)"
    using assms(3)
    by (auto simp: IsVolta_def volta_aligned_def volta_at_def word_le_nat_alt unat_div split: option.splits if_splits)
  have i: "unat (MillisecondBlockInterval cfg ms) =
     (case volta_at cfg of
                  None \<Rightarrow> blockTime cfg * 1000
                | Some (v, k) \<Rightarrow> if v \<le> unat ms div 1000 then 500 else blockTime cfg * 1000)"
    using bt volta assms(2)
    by (auto simp: MillisecondBlockInterval_def IsFourier_def MillisecondBlockIntervalVolta_def split: option.splits)
  then have "unat (MillisecondBlockInterval cfg ms) \<le> 1024000"
    using b by (auto split: option.splits)
  then show ?thesis using i by (simp add: NextMillisecondBlockTime_def add)
qed

lemma block_ms_Suc:
  assumes "realistic cfg" "volta_aligned cfg" "genNumber cfg \<le> n"
  shows "block_ms cfg (Suc n) = block_ms cfg n +
     (case volta_at cfg of
        None \<Rightarrow> blockTime cfg * 1000
      | Some (v, k) \<Rightarrow> if v \<le> block_ms cfg n div 1000 then 500 else blockTime cfg * 1000)"
proof (cases "volta_at cfg")
  case None
  then show ?thesis using assms(3) by (auto simp: block_ms_def le_iff_add algebra_simps)
next
  case (Some vk)
  then obtain v k where vk: "volta_at cfg = Some (v, k)" by (cases vk) auto
  note b = realistic_bounds [OF assms(1)]
  note V = VoltaBlockNumber_Some(5,6) [OF assms(1) vk]
  have al: "v = genTime cfg + (k - genNumber cfg) * blockTime cfg"
    using div_mult_mod_eq [of "v - genTime cfg" "blockTime cfg"] assms(2) V(1) vk
    unfolding V(2) by (auto simp: volta_aligned_def)
  have k: "genNumber cfg \<le> k" using V(2) by simp
  consider "n < k" | "n = k" | "k < n" by linarith
  then show ?thesis
  proof cases
    case 1
    obtain a where a: "n = genNumber cfg + a" using assms(3) le_iff_add by blast
    obtain c where c: "k = genNumber cfg + a + Suc c" using 1 a less_iff_Suc_add by auto
    have "(genTime cfg + a * blockTime cfg) * 1000 div 1000 = genTime cfg + a * blockTime cfg" by simp
    then show ?thesis using vk al b(1) by (auto simp: block_ms_def a c algebra_simps)
  next
    case 2
    then show ?thesis using vk al by (simp add: block_ms_def)
  next
    case 3
    then show ?thesis using vk by (simp add: block_ms_def Suc_diff_le)
  qed
qed

lemma next_block_time:
  assumes "realistic cfg" "cfg_FourierTime cfg = None" "volta_aligned cfg"
    and "bid_Number (gen_L2 (cfg_Genesis cfg)) \<le> n" "n + 1 < 2 ^ 41" "n < 2 ^ 41"
  shows "map_option (NextMillisecondBlockTime cfg) (MillisecondTimestampForBlock cfg n)
         = MillisecondTimestampForBlock cfg (n + 1)"
proof -
  have n: "genNumber cfg \<le> unat n" "unat n < 2 ^ 41"
    using assms(4,6) by (simp_all add: word_le_nat_alt word_less_nat_alt)
  have Suc: "unat (n + 1) = Suc (unat n)" using n by (subst unat_add_small) simp_all
  have le: "bid_Number (gen_L2 (cfg_Genesis cfg)) \<le> n + 1"
    using n Suc by (simp add: word_le_nat_alt)
  obtain w where w: "MillisecondTimestampForBlock cfg n = Some w" "unat w = block_ms cfg (unat n)"
    using MillisecondTimestampForBlock_refines [OF assms(1,2,4,6)] by blast
  obtain w' where w': "MillisecondTimestampForBlock cfg (n + 1) = Some w'"
      "unat w' = block_ms cfg (unat (n + 1))"
    using MillisecondTimestampForBlock_refines [OF assms(1,2) le assms(5)] by blast
  have "unat w < 2 ^ 62" using block_ms_upper [OF assms(1) n(2)] w(2) by simp
  then have "unat (NextMillisecondBlockTime cfg w) = unat w'"
    unfolding w'(2) Suc block_ms_Suc [OF assms(1,3) n(1)] NextMillisecondBlockTime_refines [OF assms(1-3) \<open>unat w < 2 ^ 62\<close>] w(2)
    by simp
  then show ?thesis using w(1) w'(1) by (simp add: unsigned_word_eqI)
qed



text \<open>Once Volta is active no block is the activation block of a later fork: the interval in
  whole seconds is zero there, so the block before has the same time.\<close>

theorem no_activation_block_after_Volta:
  assumes "IsVolta cfg t" "t < 2 ^ 50"
  shows "\<not> IsRegolithActivationBlock cfg t \<and> \<not> IsCanyonActivationBlock cfg t
       \<and> \<not> IsDeltaActivationBlock cfg t \<and> \<not> IsEcotoneActivationBlock cfg t
       \<and> \<not> IsFjordActivationBlock cfg t \<and> \<not> IsInteropActivationBlock cfg t"
proof -
  have "unat (t * 1000) = unat t * 1000"
    using assms(2) by (subst unat_mult_small) (simp_all add: word_less_nat_alt)
  then have "unat (t * 1000 div 1000) = unat t" by (simp add: unat_div)
  then have "t * 1000 div 1000 = t" by (rule unsigned_word_eqI)
  then have "SecondBlockInterval cfg (t * 1000) = 0"
    using assms(1) by (simp add: SecondBlockInterval_def MillisecondBlockInterval_def
        MillisecondBlockIntervalVolta_def MillisecondBlockIntervalFourier_def)
  then show ?thesis by (simp add: activation_defs)
qed

theorem no_activation_block_after_Volta_witness:
  "IsVolta OPBNBMainnet 1745204401 \<and> \<not> IsFjordActivationBlock OPBNBMainnet 1745204401"
  using no_activation_block_after_Volta [of OPBNBMainnet 1745204401]
  by (simp add: IsVolta_def OPBNBMainnet_fields)

section \<open>What the checks establish\<close>

lemma Check_OPBNBMainnet: "Check OPBNBMainnet = Some (OPBNBMainnet, None)"
  by (simp add: Check_def checkFields_def OPBNBMainnet_def validatePlasmaConfig_def
      validateAndCorrectVoltaTime_def validateAndCorrectFourierTime_def checkForks_def checkFork_def)

lemma Check_OPBNBTestnet: "Check OPBNBTestnet = Some (OPBNBTestnet, None)"
  by (simp add: Check_def checkFields_def OPBNBTestnet_def validatePlasmaConfig_def
      validateAndCorrectVoltaTime_def validateAndCorrectFourierTime_def checkForks_def checkFork_def)

lemma OPBNBTestnet_fields:
  "cfg_VoltaTime OPBNBTestnet = Some 1743562800" "cfg_FourierTime OPBNBTestnet = Some 1762398000"
  "cfg_BlockTime OPBNBTestnet = 1" "gen_L2Time (cfg_Genesis OPBNBTestnet) = 1686878506"
  "bid_Number (gen_L2 (cfg_Genesis OPBNBTestnet)) = 0"
  by (simp_all add: OPBNBTestnet_def)

lemma VoltaBlockNumber_testnet: "VoltaBlockNumber OPBNBTestnet = Some 56684294"
  by (simp add: VoltaBlockNumber_def OPBNBTestnet_fields)

lemma FourierBlockNumber_testnet: "FourierBlockNumber OPBNBTestnet = Some (56684294 + 37670)"
  by (simp add: VoltaBlockNumber_testnet FourierBlockNumber_def OPBNBTestnet_fields MillisecondBlockIntervalVolta_def word_sless_alt)

text \<open>On the test network the target block number is not monotone in time: at the millisecond
  at which Fourier activates it falls back by more than 37 million blocks, because
  FourierBlockNumber divides a time in seconds by an interval in milliseconds.\<close>

theorem TargetBlockNumber_drops_at_Fourier:
  "TargetBlockNumber OPBNBTestnet (1762398000 * 1000 - 500) = Some (Inr 94354693) \<and>
   TargetBlockNumber OPBNBTestnet (1762398000 * 1000) = Some (Inr 56721964)"
  by (simp add: TargetBlockNumber_def VoltaBlockNumber_testnet FourierBlockNumber_testnet
      OPBNBTestnet_fields MillisecondBlockIntervalVolta_def MillisecondBlockIntervalFourier_def
      word_sless_alt)

lemma checkFork_None:
  "checkFork a b = None \<longleftrightarrow> (\<forall>y. b = Some y \<longrightarrow> (\<exists>x. a = Some x \<and> x \<le> y))"
  by (auto simp: checkFork_def not_less split: option.splits if_splits)

lemma first_error_None: "first_error es = None \<longleftrightarrow> (\<forall>e \<in> set es. e = None)"
  by (induction es rule: first_error.induct) auto

lemma Check_ok_iff:
  "Check cfg = Some (cfg', None) \<longleftrightarrow>
     checkFields cfg = None \<and> checkForks cfg' = None \<and>
     (\<exists>cfg1 cfg2. validatePlasmaConfig cfg = (cfg1, None)
        \<and> validateAndCorrectVoltaTime cfg1 = Some cfg2
        \<and> validateAndCorrectFourierTime cfg2 = Some cfg')"
  by (auto simp: Check_def split: option.splits prod.splits Option.bind_splits)

lemma validatePlasmaConfig_frame:
  assumes "validatePlasmaConfig cfg = (cfg', e)"
  shows "cfg' = cfg\<lparr>cfg_PlasmaConfig := cfg_PlasmaConfig cfg'\<rparr>"
    and "cfg_PlasmaConfig cfg \<noteq> None \<or> \<not> cfg_LegacyUsePlasma cfg \<Longrightarrow> cfg' = cfg"
  using assms by (auto simp: validatePlasmaConfig_def split: option.splits if_splits)

lemma validateAndCorrectVoltaTime_frame:
  assumes "validateAndCorrectVoltaTime cfg = Some cfg'"
  shows "cfg' = cfg\<lparr>cfg_VoltaTime := cfg_VoltaTime cfg'\<rparr>"
    "\<forall>v. cfg_VoltaTime cfg' = Some v \<longrightarrow> gen_L2Time (cfg_Genesis cfg) \<le> v"
  using assms by (auto simp: validateAndCorrectVoltaTime_def not_less split: option.splits if_splits)

lemma validateAndCorrectFourierTime_frame:
  assumes "validateAndCorrectFourierTime cfg = Some cfg'"
  shows "cfg' = cfg\<lparr>cfg_FourierTime := cfg_FourierTime cfg'\<rparr>"
    "\<forall>v. cfg_FourierTime cfg' = Some v \<longrightarrow> gen_L2Time (cfg_Genesis cfg) \<le> v"
  using assms by (auto simp: validateAndCorrectFourierTime_def not_less split: option.splits if_splits)

lemma Check_okE:
  assumes "Check cfg = Some (cfg', None)"
  obtains pc v f where "cfg' = cfg\<lparr>cfg_PlasmaConfig := pc, cfg_VoltaTime := v, cfg_FourierTime := f\<rparr>"
    "\<forall>t. v = Some t \<longrightarrow> gen_L2Time (cfg_Genesis cfg) \<le> t"
    "\<forall>t. f = Some t \<longrightarrow> gen_L2Time (cfg_Genesis cfg) \<le> t"
    "checkForks cfg' = None" "checkFields cfg = None"
proof -
  obtain cfg1 cfg2 where c: "checkFields cfg = None" "checkForks cfg' = None"
      "validatePlasmaConfig cfg = (cfg1, None)" "validateAndCorrectVoltaTime cfg1 = Some cfg2"
      "validateAndCorrectFourierTime cfg2 = Some cfg'"
    using assms unfolding Check_ok_iff by blast
  obtain pc where 1: "cfg1 = cfg\<lparr>cfg_PlasmaConfig := pc\<rparr>"
    using validatePlasmaConfig_frame(1) [OF c(3)] by blast
  obtain v where 2: "cfg2 = cfg1\<lparr>cfg_VoltaTime := v\<rparr>" "\<forall>t. v = Some t \<longrightarrow> gen_L2Time (cfg_Genesis cfg1) \<le> t"
    using validateAndCorrectVoltaTime_frame [OF c(4)] by blast
  obtain f where 3: "cfg' = cfg2\<lparr>cfg_FourierTime := f\<rparr>" "\<forall>t. f = Some t \<longrightarrow> gen_L2Time (cfg_Genesis cfg2) \<le> t"
    using validateAndCorrectFourierTime_frame [OF c(5)] by blast
  show ?thesis using that [where pc = pc and v = v and f = f] 1 2 3 c(1,2) by simp
qed

lemma fork_switch:
  "IsRegolith c = isTimestampForked (cfg_RegolithTime c)" "IsCanyon c = isTimestampForked (cfg_CanyonTime c)"
  "IsDelta c = isTimestampForked (cfg_DeltaTime c)" "IsEcotone c = isTimestampForked (cfg_EcotoneTime c)"
  "IsFjord c = isTimestampForked (cfg_FjordTime c)" "IsInterop c = isTimestampForked (cfg_InteropTime c)"
  "IsVolta c = isTimestampForked (cfg_VoltaTime c)" "IsFourier c = isTimestampForked (cfg_FourierTime c)"
  "IsSnow c = isTimestampForked (cfg_SnowTime c)"
  by (simp_all add: fun_eq_iff isTimestampForked_def fork_defs IsSnow_def split: option.splits)

lemma checkFork_forked: "checkFork a b = None \<Longrightarrow> isTimestampForked b t \<Longrightarrow> isTimestampForked a t"
  by (auto simp: checkFork_None isTimestampForked_def split: option.splits)

text \<open>A configuration that passes Check has its forks in order, at every timestamp: a later fork
  is active only if the ones it builds on are.\<close>

theorem Check_orders_forks:
  assumes "Check cfg = Some (cfg', None)"
  shows "(IsFourier cfg' t \<longrightarrow> IsVolta cfg' t) \<and> (IsVolta cfg' t \<longrightarrow> IsFjord cfg' t)
       \<and> (IsVolta cfg' t \<longrightarrow> IsSnow cfg' t) \<and> (IsFjord cfg' t \<longrightarrow> IsEcotone cfg' t)
       \<and> (IsEcotone cfg' t \<longrightarrow> IsDelta cfg' t) \<and> (IsDelta cfg' t \<longrightarrow> IsCanyon cfg' t)
       \<and> (IsCanyon cfg' t \<longrightarrow> IsRegolith cfg' t)"
proof -
  have "checkForks cfg' = None" using assms by (rule Check_okE)
  then show ?thesis
    unfolding fork_switch checkForks_def first_error_None by (auto intro: checkFork_forked)
qed

theorem Check_orders_forks_witness: "IsFjord OPBNBMainnet 1745204400"
  using Check_orders_forks [OF Check_OPBNBMainnet, of 1745204400]
  by (simp add: IsVolta_def OPBNBMainnet_fields)

lemma VoltaBlockNumber_total: "cfg_BlockTime c \<noteq> 0 \<Longrightarrow> \<exists>v. VoltaBlockNumber c = Some v"
  by (auto simp: VoltaBlockNumber_def split: option.splits)

lemma VoltaBlockNumber_scheduled:
  "VoltaBlockNumber c = Some v \<Longrightarrow> \<not> v <s 0 \<Longrightarrow> \<exists>t. cfg_VoltaTime c = Some t"
  by (auto simp: VoltaBlockNumber_def split: option.splits)

lemma sless_zero_asym: "0 <s (w :: u64) \<Longrightarrow> \<not> w <s 0"
  by (simp add: word_sless_alt)

lemma FourierBlockNumber_total:
  assumes "cfg_BlockTime c \<noteq> 0"
  shows "\<exists>f. FourierBlockNumber c = Some f"
proof -
  obtain v where v: "VoltaBlockNumber c = Some v" using VoltaBlockNumber_total [OF assms] by blast
  then have "0 <s v \<Longrightarrow> \<exists>t. cfg_VoltaTime c = Some t"
    by (blast intro: VoltaBlockNumber_scheduled dest: sless_zero_asym)
  then show ?thesis using v by (cases "0 <s v") (auto simp: FourierBlockNumber_def split: option.splits)
qed

lemma FourierBlockNumber_scheduled:
  "FourierBlockNumber c = Some v \<Longrightarrow> 0 <s v \<Longrightarrow> \<exists>t. cfg_FourierTime c = Some t"
  by (auto simp: FourierBlockNumber_def split: option.splits Option.bind_splits if_splits)

lemma MillisecondTimestampForBlock_total:
  assumes "cfg_BlockTime c \<noteq> 0"
  shows "\<exists>ms. MillisecondTimestampForBlock c n = Some ms"
proof -
  obtain v f where "VoltaBlockNumber c = Some v" "FourierBlockNumber c = Some f"
    using VoltaBlockNumber_total [OF assms] FourierBlockNumber_total [OF assms] by blast
  then show ?thesis
    using VoltaBlockNumber_scheduled [of c v]
    by (cases "v <s 0") (auto simp: MillisecondTimestampForBlock_def)
qed

lemma TargetBlockNumber_total:
  assumes "cfg_BlockTime c * 1000 \<noteq> 0"
  shows "\<exists>r. TargetBlockNumber c ms = Some r"
proof -
  have "cfg_BlockTime c \<noteq> 0" using assms by auto
  then obtain v f where vf: "VoltaBlockNumber c = Some v" "FourierBlockNumber c = Some f"
    using VoltaBlockNumber_total FourierBlockNumber_total by blast
  show ?thesis
    using vf assms VoltaBlockNumber_scheduled [OF vf(1)] FourierBlockNumber_scheduled [OF vf(2)]
    by (cases "v <s 0"; cases "0 <s f") (auto simp: TargetBlockNumber_def Let_def)
qed

text \<open>The division by the block time and the reads of a missing fork time cannot panic under a
  configuration that passed Check, with any block number and any time.\<close>

theorem Check_excludes_panics:
  assumes "Check cfg = Some (cfg', None)" and "cfg_BlockTime cfg < 2 ^ 54"
  shows "MillisecondTimestampForBlock cfg' n \<noteq> None \<and> TargetBlockNumber cfg' ms \<noteq> None"
proof -
  obtain pc v f where c: "cfg' = cfg\<lparr>cfg_PlasmaConfig := pc, cfg_VoltaTime := v, cfg_FourierTime := f\<rparr>"
    and fields: "checkFields cfg = None" using assms(1) by (rule Check_okE)
  have bt: "cfg_BlockTime cfg \<noteq> 0"
    using fields by (auto simp: checkFields_def Let_def split: if_splits)
  have "unat (cfg_BlockTime cfg * 1000) = unat (cfg_BlockTime cfg) * 1000"
    using assms(2) by (subst unat_mult_small) (simp_all add: word_less_nat_alt)
  then have "cfg_BlockTime cfg * 1000 \<noteq> 0" using bt by (auto simp flip: unat_eq_0)
  then have "cfg_BlockTime cfg' \<noteq> 0" "cfg_BlockTime cfg' * 1000 \<noteq> 0" using bt by (simp_all add: c)
  then show ?thesis
    using MillisecondTimestampForBlock_total [of cfg' n] TargetBlockNumber_total [of cfg' ms] by auto
qed

theorem Check_excludes_panics_witness:
  "MillisecondTimestampForBlock OPBNBTestnet 7 \<noteq> None \<and> TargetBlockNumber OPBNBTestnet 0 \<noteq> None"
  by (rule Check_excludes_panics [OF Check_OPBNBTestnet]) (simp add: OPBNBTestnet_fields)

lemma checkFields_frame:
  "checkFields (cfg\<lparr>cfg_PlasmaConfig := pc, cfg_VoltaTime := v, cfg_FourierTime := f\<rparr>) = checkFields cfg"
  by (simp add: checkFields_def Let_def)

lemma validatePlasmaConfig_again:
  assumes "validatePlasmaConfig cfg = (cfg', None)"
  shows "validatePlasmaConfig (cfg'\<lparr>cfg_VoltaTime := v, cfg_FourierTime := f\<rparr>) =
     (cfg'\<lparr>cfg_VoltaTime := v, cfg_FourierTime := f\<rparr>,
      if cfg_LegacyUsePlasma cfg \<and> cfg_PlasmaConfig cfg = None
      then Some (Msg ''Cannot set CommitmentType with the legacy config'') else None)"
proof (cases "cfg_LegacyUsePlasma cfg \<and> cfg_PlasmaConfig cfg = None")
  case True
  then show ?thesis
    using assms by (auto simp: validatePlasmaConfig_def KeccakCommitmentString_def)
next
  case False
  then have "cfg' = cfg" using validatePlasmaConfig_frame(2) [OF assms] by auto
  then show ?thesis
    using assms False by (cases "cfg_PlasmaConfig cfg")
      (auto simp: validatePlasmaConfig_def KeccakCommitmentString_def GenericCommitmentString_def
        split: if_splits)
qed

lemma validateTimes_again:
  assumes "gen_L2Time (cfg_Genesis cfg) \<noteq> 0"
  shows "(case cfg_VoltaTime cfg of None \<Rightarrow> True | Some t \<Rightarrow> gen_L2Time (cfg_Genesis cfg) \<le> t) \<Longrightarrow> validateAndCorrectVoltaTime cfg = Some cfg"
    and "(case cfg_FourierTime cfg of None \<Rightarrow> True | Some t \<Rightarrow> gen_L2Time (cfg_Genesis cfg) \<le> t) \<Longrightarrow> validateAndCorrectFourierTime cfg = Some cfg"
  using assms
  by (auto simp: validateAndCorrectVoltaTime_def validateAndCorrectFourierTime_def split: option.splits)

text \<open>Checking a checked configuration changes nothing and succeeds, unless the plasma
  configuration was copied from the legacy fields: that copy has no commitment type, and the
  second check rejects it.\<close>

theorem Check_again:
  assumes "Check cfg = Some (cfg', None)"
  shows "Check cfg' = Some (cfg', if cfg_LegacyUsePlasma cfg \<and> cfg_PlasmaConfig cfg = None
           then Some (Msg ''Cannot set CommitmentType with the legacy config'') else None)"
proof -
  obtain cfg1 cfg2 where c: "checkFields cfg = None" "checkForks cfg' = None"
      "validatePlasmaConfig cfg = (cfg1, None)" "validateAndCorrectVoltaTime cfg1 = Some cfg2"
      "validateAndCorrectFourierTime cfg2 = Some cfg'"
    using assms unfolding Check_ok_iff by blast
  obtain pc where 1: "cfg1 = cfg\<lparr>cfg_PlasmaConfig := pc\<rparr>"
    using validatePlasmaConfig_frame(1) [OF c(3)] by blast
  obtain v where 2: "cfg2 = cfg1\<lparr>cfg_VoltaTime := v\<rparr>" "\<forall>t. v = Some t \<longrightarrow> gen_L2Time (cfg_Genesis cfg) \<le> t"
    using validateAndCorrectVoltaTime_frame [OF c(4)] 1 by auto
  obtain f where 3: "cfg' = cfg2\<lparr>cfg_FourierTime := f\<rparr>" "\<forall>t. f = Some t \<longrightarrow> gen_L2Time (cfg_Genesis cfg) \<le> t"
    using validateAndCorrectFourierTime_frame [OF c(5)] 1 2 by auto
  have g: "gen_L2Time (cfg_Genesis cfg) \<noteq> 0"
    using c(1) by (auto simp: checkFields_def Let_def split: if_splits)
  have plasma: "validatePlasmaConfig cfg' = (cfg', if cfg_LegacyUsePlasma cfg \<and> cfg_PlasmaConfig cfg = None
           then Some (Msg ''Cannot set CommitmentType with the legacy config'') else None)"
    using validatePlasmaConfig_again [OF c(3), where v = v and f = f] 2(1) 3(1) by simp
  have fields: "checkFields cfg' = None"
    using c(1) by (simp add: 1 2(1) 3(1) checkFields_frame)
  have "validateAndCorrectVoltaTime cfg' = Some cfg'" "validateAndCorrectFourierTime cfg' = Some cfg'"
    using g 2(2) 3(2) by (auto simp: 1 2(1) 3(1) intro!: validateTimes_again split: option.splits)
  then show ?thesis using fields plasma c(2) by (simp add: Check_def)
qed

theorem Check_again_witness:
  "Check OPBNBMainnet = Some (OPBNBMainnet, None)"
  using Check_again [OF Check_OPBNBMainnet] by (simp add: OPBNBMainnet_fields)

end
