(* ===== verification/Errors.thy ===== *)
theory Errors
  imports Prelude
begin

text \<open>
  Error severities (op-node/rollup/derive/error.go) and \<open>errors.Is\<close> on the error values of the
  node: two errors match when they are the same value, when both are leveled and of the same
  level (the method \<open>Is\<close>), or when the error they wrap matches.
\<close>

section \<open>Constructors and matching\<close>

definition NewError :: "gerr option \<Rightarrow> Level \<Rightarrow> gerr" where
  "NewError err level = Leveled level err"

definition NewTemporaryError :: "gerr option \<Rightarrow> gerr" where
  "NewTemporaryError err = NewError err LevelTemporary"

definition NewResetError :: "gerr option \<Rightarrow> gerr" where
  "NewResetError err = NewError err LevelReset"

definition NewCriticalError :: "gerr option \<Rightarrow> gerr" where
  "NewCriticalError err = NewError err LevelCritical"

definition ErrTemporary :: gerr where "ErrTemporary = NewTemporaryError None"

definition ErrReset :: gerr where "ErrReset = NewResetError None"

definition ErrCritical :: gerr where "ErrCritical = NewCriticalError None"

fun Unwrap :: "gerr \<Rightarrow> gerr option" where
  "Unwrap (Wrap _ e) = Some e"
| "Unwrap (Leveled _ e) = e"
| "Unwrap (InputError _ e) = Some e"
| "Unwrap _ = None"

fun Error_Is :: "gerr \<Rightarrow> gerr \<Rightarrow> bool" where
  "Error_Is (Leveled l e) (Leveled l' e') = (l = l')"
| "Error_Is (InputError c e) (InputError c' e') = True"
| "Error_Is _ _ = False"

function errors_Is :: "gerr \<Rightarrow> gerr \<Rightarrow> bool" where
  "errors_Is e target =
     (e = target \<or> Error_Is e target \<or>
      (case Unwrap e of None \<Rightarrow> False | Some e' \<Rightarrow> errors_Is e' target))"
  by pat_completeness auto

lemma Unwrap_size: "Unwrap e = Some e' \<Longrightarrow> size e' < size e"
  by (cases e) auto

termination errors_Is
  by (relation "measure (\<lambda>(e, _). size e)") (auto dest: Unwrap_size)

declare errors_Is.simps [simp del]

lemmas level_defs = NewTemporaryError_def NewResetError_def NewCriticalError_def NewError_def
  ErrTemporary_def ErrReset_def ErrCritical_def

text \<open>\<open>errors.As\<close> into an \<open>InputError\<close>, and the text of an error, as far as the code looks into it.\<close>

fun errors_As_InputError :: "gerr \<Rightarrow> (int \<times> gerr) option" where
  "errors_As_InputError (InputError code inner) = Some (code, inner)"
| "errors_As_InputError (Wrap _ e) = errors_As_InputError e"
| "errors_As_InputError (Leveled _ (Some e)) = errors_As_InputError e"
| "errors_As_InputError _ = None"

fun Level_String :: "Level \<Rightarrow> string" where
  "Level_String LevelTemporary = ''temp''"
| "Level_String LevelReset = ''reset''"
| "Level_String LevelCritical = ''crit''"

fun Error_text :: "gerr \<Rightarrow> string" where
  "Error_text (Msg s) = s"
| "Error_text (Wrap s e) = s @ '': '' @ Error_text e"
| "Error_text (Leveled l None) = Level_String l"
| "Error_text (Leveled l (Some e)) = Level_String l @ '': '' @ Error_text e"
| "Error_text (InputError _ e) = ''input error: '' @ Error_text e"
| "Error_text NotFound = ''not found''"
| "Error_text EOF = ''EOF''"
| "Error_text UnexpectedEOF = ''unexpected EOF''"
| "Error_text NotEnoughData = ''not enough data''"
| "Error_text DuplicateErr = ''duplicate frame''"
| "Error_text EngineELSyncing = ''engine is performing EL sync''"

fun string_Contains :: "string \<Rightarrow> string \<Rightarrow> bool" where
  "string_Contains [] sub = (sub = [])"
| "string_Contains (c # s) sub = (take (length sub) (c # s) = sub \<or> string_Contains s sub)"

section \<open>Facts\<close>

lemma errors_Is_refl [simp]: "errors_Is e e"
  by (simp add: errors_Is.simps)

lemma errors_Is_Wrap [simp]: "errors_Is (Wrap s e) t \<longleftrightarrow> Wrap s e = t \<or> errors_Is e t"
  by (simp add: errors_Is.simps [of "Wrap s e"])

lemma errors_Is_Leveled [simp]:
  "errors_Is (Leveled l e) t \<longleftrightarrow>
     Leveled l e = t \<or> (\<exists>e'. t = Leveled l e') \<or> (\<exists>e'. e = Some e' \<and> errors_Is e' t)"
  by (cases t) (auto simp: errors_Is.simps [of "Leveled l e"] split: option.splits)

lemma errors_Is_plain [simp]:
  "errors_Is EOF t \<longleftrightarrow> t = EOF" "errors_Is UnexpectedEOF t \<longleftrightarrow> t = UnexpectedEOF"
  "errors_Is NotFound t \<longleftrightarrow> t = NotFound" "errors_Is NotEnoughData t \<longleftrightarrow> t = NotEnoughData"
  "errors_Is DuplicateErr t \<longleftrightarrow> t = DuplicateErr" "errors_Is (Msg s) t \<longleftrightarrow> t = Msg s"
  "errors_Is EngineELSyncing t \<longleftrightarrow> t = EngineELSyncing"
  by (auto simp: errors_Is.simps [of EOF] errors_Is.simps [of UnexpectedEOF] errors_Is.simps [of NotFound]
      errors_Is.simps [of NotEnoughData] errors_Is.simps [of DuplicateErr] errors_Is.simps [of "Msg s"]
      errors_Is.simps [of EngineELSyncing])

lemma errors_Is_level:
  "errors_Is (NewResetError e) ErrReset" "errors_Is (NewTemporaryError e) ErrTemporary"
  "errors_Is (NewCriticalError e) ErrCritical"
  by (simp_all add: level_defs)

end
