(* ===== verification/Frames.thy ===== *)
theory Frames
  imports Errors
begin

text \<open>
  Frames (op-node/rollup/derive/frame.go and params.go): the binary format of a frame, and the
  parser of the frames of one L1 transaction. A writer is a function that takes its state and a
  byte slice and returns the new state or an error; a reader is the bytes it has left.
\<close>

section \<open>Data\<close>

type_synonym ChannelID = "128 word"

record Frame =
  fr_ID :: ChannelID
  fr_FrameNumber :: u16
  fr_Data :: bytes
  fr_IsLast :: bool

definition MaxFrameLen :: nat where "MaxFrameLen = 1000000"

definition DerivationVersion0 :: byte where "DerivationVersion0 = 0"

definition frameOverhead :: u64 where "frameOverhead = 200"

definition frameSize :: "Frame \<Rightarrow> u64" where
  "frameSize frame = of_nat (length (fr_Data frame)) + frameOverhead"

section \<open>Writing a frame\<close>

definition MarshalBinary :: "('w \<Rightarrow> bytes \<Rightarrow> 'w res) \<Rightarrow> Frame \<Rightarrow> 'w \<Rightarrow> 'w res" where
  "MarshalBinary write f w =
     (case write w (be_put 16 (fr_ID f)) of
        Inl err \<Rightarrow> Inl err
      | Inr w \<Rightarrow>
     (case write w (be_put 2 (fr_FrameNumber f)) of
        Inl err \<Rightarrow> Inl err
      | Inr w \<Rightarrow>
     (case write w (be_put 4 (of_nat (length (fr_Data f)) :: u32)) of
        Inl err \<Rightarrow> Inl err
      | Inr w \<Rightarrow>
     (case write w (fr_Data f) of
        Inl err \<Rightarrow> Inl err
      | Inr w \<Rightarrow> if fr_IsLast f then write w [1] else write w [0]))))"

section \<open>Reading a frame\<close>

definition eofAsUnexpectedMissing :: "gerr \<Rightarrow> gerr" where
  "eofAsUnexpectedMissing err =
     (if errors_Is err EOF then Wrap ''fully missing'' UnexpectedEOF else err)"

definition UnmarshalBinary :: "bytes \<Rightarrow> (Frame \<times> bytes) res" where
  "UnmarshalBinary r =
     (case ReadFull 16 r of
        Inl err \<Rightarrow> Inl (Wrap ''reading channel_id'' err)
      | Inr (cid, r) \<Rightarrow>
     (case ReadFull 2 r of
        Inl err \<Rightarrow> Inl (Wrap ''reading frame_number'' (eofAsUnexpectedMissing err))
      | Inr (num, r) \<Rightarrow>
     (case ReadFull 4 r of
        Inl err \<Rightarrow> Inl (Wrap ''reading frame_data_length'' (eofAsUnexpectedMissing err))
      | Inr (len, r) \<Rightarrow>
     (let frameLength = unat (be_get len :: u32) in
      if frameLength > MaxFrameLen then Inl (Msg ''frame_data_length is too large'')
      else
     (case ReadFull frameLength r of
        Inl err \<Rightarrow> Inl (Wrap ''reading frame_data'' (eofAsUnexpectedMissing err))
      | Inr (data, r) \<Rightarrow>
     (case ReadByte r of
        Inl err \<Rightarrow> Inl (Wrap ''reading final byte (is_last)'' (eofAsUnexpectedMissing err))
      | Inr (isLastByte, r) \<Rightarrow>
          (let f = \<lparr>fr_ID = be_get cid, fr_FrameNumber = be_get num, fr_Data = data,
                    fr_IsLast = False\<rparr> in
           if isLastByte = 0 then Inr (f, r)
           else if isLastByte = 1 then Inr (f\<lparr>fr_IsLast := True\<rparr>, r)
           else Inl (Msg ''invalid byte as is_last''))))))))"

section \<open>A frame and its bytes\<close>

text \<open>The bytes a frame is written as, and the writer that collects what it is given.\<close>

definition frame_bytes :: "Frame \<Rightarrow> bytes" where
  "frame_bytes f =
     be_put 16 (fr_ID f) @ be_put 2 (fr_FrameNumber f)
     @ be_put 4 (of_nat (length (fr_Data f)) :: u32) @ fr_Data f @ [if fr_IsLast f then 1 else 0]"

definition buffer_write :: "bytes \<Rightarrow> bytes \<Rightarrow> bytes res" where
  "buffer_write w bs = Inr (w @ bs)"

lemma MarshalBinary_buffer [simp]: "MarshalBinary buffer_write f w = Inr (w @ frame_bytes f)"
  by (simp add: MarshalBinary_def buffer_write_def frame_bytes_def)

lemma length_frame_bytes [simp]: "length (frame_bytes f) = 23 + length (fr_Data f)"
  by (simp add: frame_bytes_def)

lemma UnmarshalBinary_frame_bytes:
  assumes "length (fr_Data f) \<le> MaxFrameLen"
  shows "UnmarshalBinary (frame_bytes f @ rest) = Inr (f, rest)"
proof -
  let ?n = "length (fr_Data f)"
  have n: "unat (of_nat ?n :: u32) = ?n"
    using assms by (simp add: unat_of_nat MaxFrameLen_def)
  have r1: "ReadFull 16 (frame_bytes f @ rest) =
      Inr (be_put 16 (fr_ID f), be_put 2 (fr_FrameNumber f)
     @ be_put 4 (of_nat ?n :: u32) @ fr_Data f @ [if fr_IsLast f then 1 else 0] @ rest)"
    by (simp add: frame_bytes_def)
  show ?thesis
    unfolding UnmarshalBinary_def r1
    using assms by (simp add: be_get_put n Let_def)
qed

lemma UnmarshalBinary_InrD:
  assumes "UnmarshalBinary r = Inr (f, r')"
  shows "r = frame_bytes f @ r' \<and> length (fr_Data f) \<le> MaxFrameLen"
proof -
  obtain cid num len b r1 r2 r3 r4 where
    p: "ReadFull 16 r = Inr (cid, r1)" "ReadFull 2 r1 = Inr (num, r2)" "ReadFull 4 r2 = Inr (len, r3)"
      "unat (be_get len :: u32) \<le> MaxFrameLen"
      "ReadFull (unat (be_get len :: u32)) r3 = Inr (fr_Data f, r4)" "ReadByte r4 = Inr (b, r')"
      "fr_ID f = be_get cid" "fr_FrameNumber f = be_get num"
      "b = (if fr_IsLast f then 1 else 0)"
    using assms
    by (auto simp: UnmarshalBinary_def Let_def not_less split: sum.splits prod.splits if_splits)
  note d = p(1-3,5) [THEN ReadFull_InrD] p(6) [THEN ReadByte_InrD]
  have "(of_nat (length (fr_Data f)) :: u32) = be_get len" using d(4) by simp
  then show ?thesis
    using d p(4) by (simp add: frame_bytes_def p(7,8,9) be_put_get)
qed

lemma UnmarshalBinary_shorter: "UnmarshalBinary r = Inr (f, r') \<Longrightarrow> length r' < length r"
  by (auto dest!: UnmarshalBinary_InrD)

section \<open>Parsing the frames of a transaction\<close>

function parseFrames_loop :: "Frame list \<Rightarrow> bytes \<Rightarrow> (Frame list \<times> bytes) res" where
  "parseFrames_loop frames buf =
     (if 0 < length buf then
        (case UnmarshalBinary buf of
           Inl err \<Rightarrow> Inl (Wrap ''parsing frame'' err)
         | Inr (f, buf) \<Rightarrow> parseFrames_loop (frames @ [f]) buf)
      else Inr (frames, buf))"
  by pat_completeness auto

termination parseFrames_loop
  by (relation "measure (\<lambda>(_, buf). length buf)") (auto dest: UnmarshalBinary_shorter)

declare parseFrames_loop.simps [simp del]

definition ParseFrames :: "bytes \<Rightarrow> Frame list res" where
  "ParseFrames data =
     (case data of
        [] \<Rightarrow> Inl (Msg ''data array must not be empty'')
      | version # rest \<Rightarrow>
          if version \<noteq> DerivationVersion0 then Inl (Msg ''invalid derivation format byte'')
          else
            (case parseFrames_loop [] rest of
               Inl err \<Rightarrow> Inl err
             | Inr (frames, buf) \<Rightarrow>
                 if length buf \<noteq> 0 then Inl (Msg ''did not fully consume data'')
                 else if length frames = 0 then Inl (Msg ''was not able to find any frames'')
                 else Inr frames))"

definition frames_bytes :: "Frame list \<Rightarrow> bytes" where
  "frames_bytes fs = concat (map frame_bytes fs)"

lemma parseFrames_loop_frames_bytes:
  "(\<forall>f \<in> set fs. length (fr_Data f) \<le> MaxFrameLen) \<Longrightarrow>
   parseFrames_loop acc (frames_bytes fs) = Inr (acc @ fs, [])"
proof (induction fs arbitrary: acc)
  case Nil
  then show ?case by (simp add: frames_bytes_def parseFrames_loop.simps)
next
  case (Cons f fs)
  then have "UnmarshalBinary (frames_bytes (f # fs)) = Inr (f, frames_bytes fs)"
    by (simp add: frames_bytes_def UnmarshalBinary_frame_bytes)
  moreover have "0 < length (frames_bytes (f # fs))" by (simp add: frames_bytes_def)
  ultimately show ?case
    using Cons by (subst parseFrames_loop.simps) simp
qed

lemma parseFrames_loop_InrD:
  "parseFrames_loop acc buf = Inr (fs', buf') \<Longrightarrow>
   \<exists>fs. fs' = acc @ fs \<and> buf = frames_bytes fs \<and> buf' = []
        \<and> (\<forall>f \<in> set fs. length (fr_Data f) \<le> MaxFrameLen)"
proof (induction acc buf rule: parseFrames_loop.induct)
  case (1 acc buf)
  show ?case
  proof (cases "buf = []")
    case True
    then show ?thesis using "1.prems" by (simp add: parseFrames_loop.simps frames_bytes_def)
  next
    case False
    then obtain f b where u: "UnmarshalBinary buf = Inr (f, b)"
      and l: "parseFrames_loop (acc @ [f]) b = Inr (fs', buf')"
      using "1.prems" by (subst (asm) parseFrames_loop.simps) (auto split: sum.splits)
    obtain fs where "fs' = acc @ [f] @ fs" "b = frames_bytes fs" "buf' = []"
       "\<forall>f \<in> set fs. length (fr_Data f) \<le> MaxFrameLen"
      using "1.IH" [OF _ u refl] False l by auto
    then show ?thesis
      using UnmarshalBinary_InrD [OF u] by (intro exI [of _ "f # fs"]) (simp add: frames_bytes_def)
  qed
qed

lemma ParseFrames_spec:
  "ParseFrames data = Inr fs \<longleftrightarrow>
     fs \<noteq> [] \<and> (\<forall>f \<in> set fs. length (fr_Data f) \<le> MaxFrameLen)
     \<and> data = DerivationVersion0 # concat (map frame_bytes fs)"
proof
  assume "ParseFrames data = Inr fs"
  then obtain rest where d: "data = DerivationVersion0 # rest" "fs \<noteq> []"
     "parseFrames_loop [] rest = Inr (fs, [])"
    by (auto simp: ParseFrames_def split: list.splits if_splits sum.splits prod.splits)
  then show "fs \<noteq> [] \<and> (\<forall>f \<in> set fs. length (fr_Data f) \<le> MaxFrameLen)
     \<and> data = DerivationVersion0 # concat (map frame_bytes fs)"
    using parseFrames_loop_InrD [OF d(3)] by (auto simp: frames_bytes_def)
next
  assume r: "fs \<noteq> [] \<and> (\<forall>f \<in> set fs. length (fr_Data f) \<le> MaxFrameLen)
     \<and> data = DerivationVersion0 # concat (map frame_bytes fs)"
  then have "parseFrames_loop [] (concat (map frame_bytes fs)) = Inr (fs, [])"
    using parseFrames_loop_frames_bytes [of fs "[]"] by (simp add: frames_bytes_def)
  then show "ParseFrames data = Inr fs" using r by (simp add: ParseFrames_def)
qed

text \<open>C37: The frames of a transaction are exactly its bytes: the parser accepts a byte string if
  and only if it is the version byte followed by the concatenated encodings of one or more frames
  of at most the maximal length, and it then returns these frames, none lost, none invented, in
  their order.\<close>

theorem ParseFrames_iff:
  "ParseFrames data = Inr fs \<longleftrightarrow>
     fs \<noteq> [] \<and> (\<forall>f \<in> set fs. length (fr_Data f) \<le> MaxFrameLen)
     \<and> data = DerivationVersion0 # concat (map frame_bytes fs)"
  by (rule ParseFrames_spec)

theorem ParseFrames_iff_witness:
  "ParseFrames (0 # frame_bytes \<lparr>fr_ID = 7, fr_FrameNumber = 3, fr_Data = [1, 2], fr_IsLast = True\<rparr>)
   = Inr [\<lparr>fr_ID = 7, fr_FrameNumber = 3, fr_Data = [1, 2], fr_IsLast = True\<rparr>]"
  unfolding ParseFrames_iff by (simp add: MaxFrameLen_def DerivationVersion0_def)

end
