(* ===== verification/SysConfig.thy ===== *)
theory SysConfig
  imports Frames Rollup
begin

text \<open>
  Solidity ABI words (op-service/solabi/util.go), the fee scalars of the system configuration
  (op-service/eth/types.go), and the updates of the system configuration by events of its L1
  contract (op-node/rollup/derive/system_config.go). A reader is the bytes it has left, a writer
  returns the bytes it writes. The hash of the event signature is a parameter.
\<close>

section \<open>ABI words (op-service/solabi/util.go)\<close>

definition addressEmptyPadding :: bytes where "addressEmptyPadding = replicate 12 0"

definition uint64EmptyPadding :: bytes where "uint64EmptyPadding = replicate 24 0"

definition ReadSignature :: "bytes \<Rightarrow> (bytes \<times> bytes) res" where
  "ReadSignature r = ReadFull 4 r"

definition ReadAndValidateSignature :: "bytes \<Rightarrow> bytes \<Rightarrow> (bytes \<times> bytes) res" where
  "ReadAndValidateSignature r expectedSignature =
     (case ReadFull 4 r of
        Inl err \<Rightarrow> Inl err
      | Inr (sig, r) \<Rightarrow>
          if sig \<noteq> expectedSignature then Inl (Msg ''invalid function signature'')
          else Inr (sig, r))"

definition ReadHash :: "bytes \<Rightarrow> (Hash \<times> bytes) res" where
  "ReadHash r = (case ReadFull 32 r of Inl err \<Rightarrow> Inl err | Inr (h, r) \<Rightarrow> Inr (be_get h, r))"

definition ReadEthBytes32 :: "bytes \<Rightarrow> (Hash \<times> bytes) res" where
  "ReadEthBytes32 r = (case ReadFull 32 r of Inl err \<Rightarrow> Inl err | Inr (b, r) \<Rightarrow> Inr (be_get b, r))"

definition ReadAddress :: "bytes \<Rightarrow> (Address \<times> bytes) res" where
  "ReadAddress r =
     (case ReadFull 12 r of
        Inl err \<Rightarrow> Inl err
      | Inr (readPadding, r) \<Rightarrow>
          if readPadding \<noteq> addressEmptyPadding then Inl (Msg ''address padding was not empty'')
          else (case ReadFull 20 r of Inl err \<Rightarrow> Inl err | Inr (a, r) \<Rightarrow> Inr (be_get a, r)))"

definition ReadUint64 :: "bytes \<Rightarrow> (u64 \<times> bytes) res" where
  "ReadUint64 r =
     (case ReadFull 24 r of
        Inl err \<Rightarrow> Inl err
      | Inr (readPadding, r) \<Rightarrow>
          if readPadding \<noteq> uint64EmptyPadding then Inl (Msg ''number padding was not empty'')
          else (case ReadFull 8 r of
                  Inl err \<Rightarrow> Inl (Msg ''expected number length to be 8 bytes'')
                | Inr (n, r) \<Rightarrow> Inr (be_get n, r)))"

definition ReadUint256 :: "bytes \<Rightarrow> (int \<times> bytes) res" where
  "ReadUint256 r =
     (case ReadFull 32 r of Inl err \<Rightarrow> Inl err | Inr (n, r) \<Rightarrow> Inr (int (be_to_nat n), r))"

definition EmptyReader :: "bytes \<Rightarrow> bool" where
  "EmptyReader r = (r = [])"

definition WriteSignature :: "bytes \<Rightarrow> bytes" where "WriteSignature sig = sig"

definition WriteHash :: "Hash \<Rightarrow> bytes" where "WriteHash h = be_put 32 h"

definition WriteEthBytes32 :: "Hash \<Rightarrow> bytes" where "WriteEthBytes32 b = be_put 32 b"

definition WriteAddress :: "Address \<Rightarrow> bytes" where
  "WriteAddress a = addressEmptyPadding @ be_put 20 a"

text \<open>\<open>BitLen\<close> and \<open>FillBytes\<close> look at the absolute value.\<close>

definition WriteUint256 :: "int \<Rightarrow> bytes res" where
  "WriteUint256 n =
     (if nat \<bar>n\<bar> \<ge> 2 ^ 256 then Inl (Msg ''big int exceeds 256 bits'')
      else Inr (nat_to_be 32 (nat \<bar>n\<bar>)))"

definition WriteUint64 :: "u64 \<Rightarrow> bytes" where
  "WriteUint64 n = uint64EmptyPadding @ be_put 8 n"

lemma ReadHash_Write [simp]: "ReadHash (WriteHash h @ r) = Inr (h, r)"
  by (simp add: ReadHash_def WriteHash_def be_get_put)

lemma ReadEthBytes32_Write [simp]: "ReadEthBytes32 (WriteEthBytes32 h @ r) = Inr (h, r)"
  by (simp add: ReadEthBytes32_def WriteEthBytes32_def be_get_put)

lemma ReadAddress_Write [simp]: "ReadAddress (WriteAddress a @ r) = Inr (a, r)"
  by (simp add: ReadAddress_def WriteAddress_def addressEmptyPadding_def be_get_put)

lemma ReadUint64_Write [simp]: "ReadUint64 (WriteUint64 n @ r) = Inr (n, r)"
  by (simp add: ReadUint64_def WriteUint64_def uint64EmptyPadding_def be_get_put)

lemma ReadUint256_Write:
  "0 \<le> n \<Longrightarrow> n < 2 ^ 256 \<Longrightarrow> \<exists>bs. WriteUint256 n = Inr bs \<and> ReadUint256 (bs @ r) = Inr (n, r)"
proof -
  assume n: "0 \<le> n" "n < 2 ^ 256"
  then have "nat n < 2 ^ 256" using nat_less_iff [of n "2 ^ 256"] by simp
  then have "nat n mod 256 ^ 32 = nat n" by simp
  then show ?thesis using n \<open>nat n < 2 ^ 256\<close>
    by (auto simp: WriteUint256_def ReadUint256_def simp del: nat_to_be.simps)
qed

lemma ReadUint256_signed: "WriteUint256 (- 1) = WriteUint256 1"
  by (simp add: WriteUint256_def)

lemma ReadHash_InrD: "ReadHash r = Inr (h, r') \<Longrightarrow> r = WriteHash h @ r'"
  by (auto simp: ReadHash_def WriteHash_def be_put_get dest!: ReadFull_InrD split: sum.splits)

lemma ReadEthBytes32_InrD: "ReadEthBytes32 r = Inr (h, r') \<Longrightarrow> r = WriteEthBytes32 h @ r'"
  by (auto simp: ReadEthBytes32_def WriteEthBytes32_def be_put_get dest!: ReadFull_InrD split: sum.splits)

lemma ReadAddress_InrD: "ReadAddress r = Inr (a, r') \<Longrightarrow> r = WriteAddress a @ r'"
  by (auto simp: ReadAddress_def WriteAddress_def be_put_get dest!: ReadFull_InrD split: sum.splits if_splits)

lemma ReadUint64_InrD: "ReadUint64 r = Inr (n, r') \<Longrightarrow> r = WriteUint64 n @ r'"
  by (auto simp: ReadUint64_def WriteUint64_def be_put_get dest!: ReadFull_InrD split: sum.splits if_splits)

lemmas solabi_InrD = ReadHash_InrD ReadEthBytes32_InrD ReadAddress_InrD ReadUint64_InrD

section \<open>Fee scalars (op-service/eth/types.go)\<close>

definition L1ScalarBedrock :: byte where "L1ScalarBedrock = 0"

definition L1ScalarEcotone :: byte where "L1ScalarEcotone = 1"

record EcotoneScalars =
  BlobBaseFeeScalar :: u32
  BaseFeeScalar :: u32

definition CheckEcotoneL1SystemConfigScalar :: "256 word \<Rightarrow> gerr option" where
  "CheckEcotoneL1SystemConfigScalar sc =
     (let scalar = be_put 32 sc; versionByte = scalar ! 0 in
      if versionByte = L1ScalarBedrock then
        (if take 27 (drop 1 scalar) \<noteq> replicate 27 0
         then Some (Msg ''ErrBedrockScalarPaddingNotEmpty'') else None)
      else if versionByte = L1ScalarEcotone then
        (if take 23 (drop 1 scalar) \<noteq> replicate 23 0
         then Some (Msg ''invalid version 1 scalar padding'') else None)
      else Some (Msg ''unrecognized scalar version''))"

definition DecodeScalar :: "256 word \<Rightarrow> EcotoneScalars res" where
  "DecodeScalar sc =
     (let scalar = be_put 32 sc in
      if scalar ! 0 = L1ScalarBedrock then
        Inr \<lparr>BlobBaseFeeScalar = 0, BaseFeeScalar = be_get (take 4 (drop 28 scalar))\<rparr>
      else if scalar ! 0 = L1ScalarEcotone then
        Inr \<lparr>BlobBaseFeeScalar = be_get (take 4 (drop 24 scalar)),
             BaseFeeScalar = be_get (take 4 (drop 28 scalar))\<rparr>
      else Inl (Msg ''unexpected system config scalar''))"

definition EncodeScalar :: "EcotoneScalars \<Rightarrow> 256 word" where
  "EncodeScalar scalars =
     be_get ([L1ScalarEcotone] @ replicate 23 0 @ be_put 4 (BlobBaseFeeScalar scalars)
             @ be_put 4 (BaseFeeScalar scalars))"

definition SystemConfig_EcotoneScalars :: "SystemConfig \<Rightarrow> EcotoneScalars res" where
  "SystemConfig_EcotoneScalars sysCfg =
     (case CheckEcotoneL1SystemConfigScalar (Scalar sysCfg) of
        Some err \<Rightarrow>
          if errors_Is err (Msg ''ErrBedrockScalarPaddingNotEmpty'')
          then Inr \<lparr>BlobBaseFeeScalar = 0, BaseFeeScalar = - 1\<rparr>
          else Inl err
      | None \<Rightarrow> DecodeScalar (Scalar sysCfg))"

lemma be_put_EncodeScalar:
  "be_put 32 (EncodeScalar s) =
     [L1ScalarEcotone] @ replicate 23 0 @ be_put 4 (BlobBaseFeeScalar s) @ be_put 4 (BaseFeeScalar s)"
  unfolding EncodeScalar_def by (rule be_put_get) simp_all

lemma EncodeScalar_accepted: "CheckEcotoneL1SystemConfigScalar (EncodeScalar s) = None"
  unfolding CheckEcotoneL1SystemConfigScalar_def Let_def be_put_EncodeScalar
  by (simp add: L1ScalarBedrock_def L1ScalarEcotone_def)

lemma DecodeScalar_EncodeScalar: "DecodeScalar (EncodeScalar s) = Inr s"
  by (simp add: DecodeScalar_def be_put_EncodeScalar L1ScalarBedrock_def L1ScalarEcotone_def be_get_put)

section \<open>Configuration updates (op-node/rollup/derive/system_config.go)\<close>

record L1Log =
  log_Address :: Address
  log_Topics :: "Hash list"
  log_Data :: bytes
  log_BlockHash :: Hash
  log_Index :: u64

record L1Receipt =
  rec_Status :: u64
  rec_Logs :: "L1Log list"

definition ReceiptStatusSuccessful :: u64 where "ReceiptStatusSuccessful = 1"

definition SystemConfigUpdateBatcher :: Hash where "SystemConfigUpdateBatcher = 0"

definition SystemConfigUpdateGasConfig :: Hash where "SystemConfigUpdateGasConfig = 1"

definition SystemConfigUpdateGasLimit :: Hash where "SystemConfigUpdateGasLimit = 2"

definition SystemConfigUpdateUnsafeBlockSigner :: Hash where "SystemConfigUpdateUnsafeBlockSigner = 3"

definition ConfigUpdateEventVersion0 :: Hash where "ConfigUpdateEventVersion0 = 0"

lemmas update_type_defs = SystemConfigUpdateBatcher_def SystemConfigUpdateGasConfig_def
  SystemConfigUpdateGasLimit_def SystemConfigUpdateUnsafeBlockSigner_def

text \<open>The configuration is changed in place: the result is the new configuration and the error.\<close>

definition ProcessSystemConfigUpdateLogEvent ::
    "Hash \<Rightarrow> SystemConfig \<Rightarrow> L1Log \<Rightarrow> Config \<Rightarrow> u64 \<Rightarrow> SystemConfig \<times> gerr option" where
  "ProcessSystemConfigUpdateLogEvent abiHash destSysCfg ev rollupCfg l1Time =
     (let crit = (\<lambda>s. (destSysCfg, Some (NewCriticalError (Some (Msg s))))) in
      if length (log_Topics ev) \<noteq> 3 then (destSysCfg, Some (Msg ''expected 3 event topics''))
      else if log_Topics ev ! 0 \<noteq> abiHash then (destSysCfg, Some (Msg ''invalid SystemConfig update event''))
      else if log_Topics ev ! 1 \<noteq> ConfigUpdateEventVersion0 then
        (destSysCfg, Some (Msg ''unrecognized SystemConfig update event version''))
      else
        (let updateType = log_Topics ev ! 2; reader = log_Data ev in
         if updateType = SystemConfigUpdateBatcher then
           (case ReadUint64 reader of Inl err \<Rightarrow> crit ''invalid pointer field'' | Inr (pointer, reader) \<Rightarrow>
            if pointer \<noteq> 32 then crit ''invalid pointer field'' else
           (case ReadUint64 reader of Inl err \<Rightarrow> crit ''invalid length field'' | Inr (len, reader) \<Rightarrow>
            if len \<noteq> 32 then crit ''invalid length field'' else
           (case ReadAddress reader of Inl err \<Rightarrow> crit ''could not read address'' | Inr (address, reader) \<Rightarrow>
            if \<not> EmptyReader reader then crit ''too many bytes''
            else (destSysCfg\<lparr>BatcherAddr := address\<rparr>, None))))
         else if updateType = SystemConfigUpdateGasConfig then
           (case ReadUint64 reader of Inl err \<Rightarrow> crit ''invalid pointer field'' | Inr (pointer, reader) \<Rightarrow>
            if pointer \<noteq> 32 then crit ''invalid pointer field'' else
           (case ReadUint64 reader of Inl err \<Rightarrow> crit ''invalid length field'' | Inr (len, reader) \<Rightarrow>
            if len \<noteq> 64 then crit ''invalid length field'' else
           (case ReadEthBytes32 reader of Inl err \<Rightarrow> crit ''could not read overhead'' | Inr (overhead, reader) \<Rightarrow>
           (case ReadEthBytes32 reader of Inl err \<Rightarrow> crit ''could not read scalar'' | Inr (scalar, reader) \<Rightarrow>
            if \<not> EmptyReader reader then crit ''too many bytes''
            else if IsEcotone rollupCfg l1Time then
              (case CheckEcotoneL1SystemConfigScalar scalar of
                 Some err \<Rightarrow> (destSysCfg, None)
               | None \<Rightarrow> (destSysCfg\<lparr>Scalar := scalar, Overhead := 0\<rparr>, None))
            else (destSysCfg\<lparr>Overhead := overhead, Scalar := scalar\<rparr>, None)))))
         else if updateType = SystemConfigUpdateGasLimit then
           (case ReadUint64 reader of Inl err \<Rightarrow> crit ''invalid pointer field'' | Inr (pointer, reader) \<Rightarrow>
            if pointer \<noteq> 32 then crit ''invalid pointer field'' else
           (case ReadUint64 reader of Inl err \<Rightarrow> crit ''invalid length field'' | Inr (len, reader) \<Rightarrow>
            if len \<noteq> 32 then crit ''invalid length field'' else
           (case ReadUint64 reader of Inl err \<Rightarrow> crit ''could not read gas limit'' | Inr (gasLimit, reader) \<Rightarrow>
            if \<not> EmptyReader reader then crit ''too many bytes''
            else (destSysCfg\<lparr>GasLimit := gasLimit\<rparr>, None))))
         else if updateType = SystemConfigUpdateUnsafeBlockSigner then (destSysCfg, None)
         else (destSysCfg, Some (Msg ''unrecognized L1 sysCfg update type''))))"

text \<open>The errors of all malformed events are collected; no error is an empty list.\<close>

fun update_logs :: "Hash \<Rightarrow> Config \<Rightarrow> u64 \<Rightarrow> L1Log list \<Rightarrow> SystemConfig \<times> gerr list
    \<Rightarrow> SystemConfig \<times> gerr list" where
  "update_logs abiHash cfg l1Time [] (sysCfg, result) = (sysCfg, result)"
| "update_logs abiHash cfg l1Time (log # logs) (sysCfg, result) =
     (if log_Address log = cfg_L1SystemConfigAddress cfg \<and> length (log_Topics log) > 0
         \<and> log_Topics log ! 0 = abiHash then
        (case ProcessSystemConfigUpdateLogEvent abiHash sysCfg log cfg l1Time of
           (sysCfg, Some err) \<Rightarrow>
             update_logs abiHash cfg l1Time logs
               (sysCfg, result @ [Wrap ''malformatted L1 system sysCfg log'' err])
         | (sysCfg, None) \<Rightarrow> update_logs abiHash cfg l1Time logs (sysCfg, result))
      else update_logs abiHash cfg l1Time logs (sysCfg, result))"

fun update_receipts :: "Hash \<Rightarrow> Config \<Rightarrow> u64 \<Rightarrow> L1Receipt list \<Rightarrow> SystemConfig \<times> gerr list
    \<Rightarrow> SystemConfig \<times> gerr list" where
  "update_receipts abiHash cfg l1Time [] acc = acc"
| "update_receipts abiHash cfg l1Time (r # rs) acc =
     (if rec_Status r \<noteq> ReceiptStatusSuccessful then update_receipts abiHash cfg l1Time rs acc
      else update_receipts abiHash cfg l1Time rs (update_logs abiHash cfg l1Time (rec_Logs r) acc))"

definition UpdateSystemConfigWithL1Receipts ::
    "Hash \<Rightarrow> SystemConfig \<Rightarrow> L1Receipt list \<Rightarrow> Config \<Rightarrow> u64 \<Rightarrow> SystemConfig \<times> gerr list" where
  "UpdateSystemConfigWithL1Receipts abiHash sysCfg receipts cfg l1Time =
     update_receipts abiHash cfg l1Time receipts (sysCfg, [])"

section \<open>What an update event means\<close>

text \<open>The update an event asks for, and the data the contract encodes it as.\<close>

datatype ConfigUpdate =
    SetBatcher Address
  | SetGasConfig "256 word" "256 word"
  | SetGasLimit u64

fun update_type :: "ConfigUpdate \<Rightarrow> Hash" where
  "update_type (SetBatcher _) = SystemConfigUpdateBatcher"
| "update_type (SetGasConfig _ _) = SystemConfigUpdateGasConfig"
| "update_type (SetGasLimit _) = SystemConfigUpdateGasLimit"

fun update_data :: "ConfigUpdate \<Rightarrow> bytes" where
  "update_data (SetBatcher a) = WriteUint64 32 @ WriteUint64 32 @ WriteAddress a"
| "update_data (SetGasConfig ov sc) = WriteUint64 32 @ WriteUint64 64 @ WriteEthBytes32 ov @ WriteEthBytes32 sc"
| "update_data (SetGasLimit g) = WriteUint64 32 @ WriteUint64 32 @ WriteUint64 g"

fun apply_update :: "bool \<Rightarrow> ConfigUpdate \<Rightarrow> SystemConfig \<Rightarrow> SystemConfig" where
  "apply_update ecotone (SetBatcher a) c = c\<lparr>BatcherAddr := a\<rparr>"
| "apply_update ecotone (SetGasConfig ov sc) c =
     (if ecotone then
        (if CheckEcotoneL1SystemConfigScalar sc = None then c\<lparr>Scalar := sc, Overhead := 0\<rparr> else c)
      else c\<lparr>Overhead := ov, Scalar := sc\<rparr>)"
| "apply_update ecotone (SetGasLimit g) c = c\<lparr>GasLimit := g\<rparr>"

lemma WriteUint64_eq [simp]: "WriteUint64 a = WriteUint64 b \<longleftrightarrow> a = b"
  by (metis ReadUint64_Write append_Nil2 prod.inject sum.inject(2))

text \<open>A result that is an error leaves the configuration as it was.\<close>

definition keeps :: "SystemConfig \<Rightarrow> SystemConfig \<times> gerr option \<Rightarrow> bool" where
  "keeps c r \<longleftrightarrow> snd r = None \<or> fst r = c"

lemma keeps_intros:
  "keeps c (c, e)" "keeps c (c', None)"
  "\<lbrakk>keeps c r; keeps c r'\<rbrakk> \<Longrightarrow> keeps c (if b then r else r')"
  "\<lbrakk>\<And>x. keeps c (f x); \<And>y. keeps c (g y)\<rbrakk> \<Longrightarrow> keeps c (case s of Inl x \<Rightarrow> f x | Inr y \<Rightarrow> g y)"
  "\<lbrakk>\<And>x y. keeps c (h x y)\<rbrakk> \<Longrightarrow> keeps c (case p of (x, y) \<Rightarrow> h x y)"
  "\<lbrakk>keeps c r; \<And>x. keeps c (k x)\<rbrakk> \<Longrightarrow> keeps c (case oo of None \<Rightarrow> r | Some x \<Rightarrow> k x)"
  by (auto simp: keeps_def split: sum.split prod.split option.split)

lemma Process_rejected:
  "ProcessSystemConfigUpdateLogEvent abiHash c ev cfg t = (c', Some e) \<Longrightarrow> c' = c"
proof -
  have "keeps c (ProcessSystemConfigUpdateLogEvent abiHash c ev cfg t)"
    unfolding ProcessSystemConfigUpdateLogEvent_def Let_def by (intro keeps_intros)
  then show "ProcessSystemConfigUpdateLogEvent abiHash c ev cfg t = (c', Some e) \<Longrightarrow> c' = c"
    by (simp add: keeps_def)
qed

lemma Process_accepts:
  assumes "log_Topics ev = [abiHash, ConfigUpdateEventVersion0, update_type u]" "log_Data ev = update_data u"
  shows "ProcessSystemConfigUpdateLogEvent abiHash c ev cfg t = (apply_update (IsEcotone cfg t) u c, None)"
  using assms
  by (cases u) (auto simp: ProcessSystemConfigUpdateLogEvent_def Let_def update_type_defs EmptyReader_def
      ReadUint64_Write [of _ "[]", simplified] ReadEthBytes32_Write [of _ "[]", simplified]
      ReadAddress_Write [of _ "[]", simplified] split: option.splits)

lemma WriteEthBytes32_append_eq [simp]:
  "WriteEthBytes32 a @ r = WriteEthBytes32 b @ r' \<longleftrightarrow> a = b \<and> r = r'"
  by (metis ReadEthBytes32_Write prod.inject sum.inject(2))

lemma WriteEthBytes32_eq [simp]: "WriteEthBytes32 a = WriteEthBytes32 b \<longleftrightarrow> a = b"
  using WriteEthBytes32_append_eq [of a "[]" b "[]"] by simp

lemma WriteAddress_eq [simp]: "WriteAddress a = WriteAddress b \<longleftrightarrow> a = b"
  by (metis ReadAddress_Write append_Nil2 prod.inject sum.inject(2))

lemma Process_data:
  assumes "log_Topics ev = [abiHash, ConfigUpdateEventVersion0, ty]"
    and "ProcessSystemConfigUpdateLogEvent abiHash c ev cfg t = (c', None)"
    and "ty \<in> {SystemConfigUpdateBatcher, SystemConfigUpdateGasConfig, SystemConfigUpdateGasLimit}"
  obtains u where "update_type u = ty" "log_Data ev = update_data u"
proof -
  have "ty = SystemConfigUpdateBatcher \<Longrightarrow> \<exists>a. log_Data ev = update_data (SetBatcher a)"
    using assms(1,2)
    by (auto simp: ProcessSystemConfigUpdateLogEvent_def Let_def EmptyReader_def
        split: sum.splits prod.splits if_splits dest!: solabi_InrD)
  moreover have "ty = SystemConfigUpdateGasConfig \<Longrightarrow> \<exists>ov sc. log_Data ev = update_data (SetGasConfig ov sc)"
    using assms(1,2)
    by (auto simp: ProcessSystemConfigUpdateLogEvent_def Let_def EmptyReader_def update_type_defs
        split: sum.splits prod.splits if_splits option.splits dest!: solabi_InrD)
  moreover have "ty = SystemConfigUpdateGasLimit \<Longrightarrow> \<exists>g. log_Data ev = update_data (SetGasLimit g)"
    using assms(1,2)
    by (auto simp: ProcessSystemConfigUpdateLogEvent_def Let_def EmptyReader_def update_type_defs
        split: sum.splits prod.splits if_splits dest!: solabi_InrD)
  ultimately show ?thesis using assms(3) that by (metis insertE empty_iff update_type.simps)
qed

text \<open>The events that change the configuration are exactly the ABI encodings of the three
  updates: such an event is accepted and applied, any other event of these update types is
  rejected, and no rejected event changes the configuration.\<close>

theorem ProcessSystemConfigUpdateLogEvent_iff:
  assumes "log_Topics ev = [abiHash, ConfigUpdateEventVersion0, ty]"
    and "ty \<in> {SystemConfigUpdateBatcher, SystemConfigUpdateGasConfig, SystemConfigUpdateGasLimit}"
  shows "(ProcessSystemConfigUpdateLogEvent abiHash c ev cfg t = (c', None) \<longleftrightarrow>
            (\<exists>u. update_type u = ty \<and> log_Data ev = update_data u
                 \<and> c' = apply_update (IsEcotone cfg t) u c))
       \<and> (ProcessSystemConfigUpdateLogEvent abiHash c ev cfg t = (c', Some e) \<longrightarrow> c' = c)"
proof (intro conjI iffI impI)
  assume a: "ProcessSystemConfigUpdateLogEvent abiHash c ev cfg t = (c', None)"
  obtain u where u: "update_type u = ty" "log_Data ev = update_data u"
    using Process_data [OF assms(1) a assms(2)] .
  then show "\<exists>u. update_type u = ty \<and> log_Data ev = update_data u \<and> c' = apply_update (IsEcotone cfg t) u c"
    using a Process_accepts [of ev abiHash u c cfg t] assms(1) by auto
next
  assume "\<exists>u. update_type u = ty \<and> log_Data ev = update_data u \<and> c' = apply_update (IsEcotone cfg t) u c"
  then show "ProcessSystemConfigUpdateLogEvent abiHash c ev cfg t = (c', None)"
    using Process_accepts assms(1) by blast
next
  assume "ProcessSystemConfigUpdateLogEvent abiHash c ev cfg t = (c', Some e)"
  then show "c' = c" by (rule Process_rejected)
qed

theorem ProcessSystemConfigUpdateLogEvent_iff_witness:
  "ProcessSystemConfigUpdateLogEvent 9 \<lparr>BatcherAddr = 1, Overhead = 0, Scalar = 0, GasLimit = 5\<rparr>
     \<lparr>log_Address = 7, log_Topics = [9, ConfigUpdateEventVersion0, SystemConfigUpdateGasLimit],
      log_Data = update_data (SetGasLimit 30), log_BlockHash = 0, log_Index = 0\<rparr> OPBNBMainnet 0
   = (\<lparr>BatcherAddr = 1, Overhead = 0, Scalar = 0, GasLimit = 30\<rparr>, None)"
proof (rule iffD2 [OF conjunct1 [OF ProcessSystemConfigUpdateLogEvent_iff [of _ 9 SystemConfigUpdateGasLimit]]])
qed (auto intro: exI [of _ "SetGasLimit 30"])

section \<open>The updates of a block\<close>

definition relevant_logs :: "Hash \<Rightarrow> Config \<Rightarrow> L1Receipt list \<Rightarrow> L1Log list" where
  "relevant_logs abiHash cfg rs =
     filter (\<lambda>l. log_Address l = cfg_L1SystemConfigAddress cfg \<and> log_Topics l \<noteq> []
                 \<and> log_Topics l ! 0 = abiHash)
       (concat (map rec_Logs (filter (\<lambda>r. rec_Status r = ReceiptStatusSuccessful) rs)))"

lemma update_logs_config:
  "fst (update_logs abiHash cfg t ls (c, es)) =
     foldl (\<lambda>c l. fst (ProcessSystemConfigUpdateLogEvent abiHash c l cfg t)) c
       (filter (\<lambda>l. log_Address l = cfg_L1SystemConfigAddress cfg \<and> log_Topics l \<noteq> [] \<and> log_Topics l ! 0 = abiHash) ls)"
  by (induction ls arbitrary: c es) (auto split: prod.splits option.splits)

lemma update_receipts_config:
  "fst (update_receipts abiHash cfg t rs (c, es)) =
     foldl (\<lambda>c l. fst (ProcessSystemConfigUpdateLogEvent abiHash c l cfg t)) c (relevant_logs abiHash cfg rs)"
proof (induction rs arbitrary: c es)
  case (Cons r rs)
  obtain c' es' where u: "update_logs abiHash cfg t (rec_Logs r) (c, es) = (c', es')" by fastforce
  then show ?case using Cons update_logs_config [of abiHash cfg t "rec_Logs r" c es]
    by (simp add: relevant_logs_def)
qed (simp add: relevant_logs_def)

end
