(* ===== verification/L1Info.thy ===== *)
theory L1Info
  imports SysConfig
begin

text \<open>
  The L1 attributes transaction (op-node/rollup/derive/l1_block_info.go), the source hashes of
  deposits (deposit_source.go), and what a node reads back from an L2 block: its reference and its
  system configuration (payload_util.go, l2block_util.go). Keccak-256 is a parameter, and so is
  the decoder of a transaction's envelope, which yields its type and its data.
\<close>

type_synonym keccak = "bytes \<Rightarrow> Hash"

definition ascii :: "string \<Rightarrow> bytes" where
  "ascii s = map of_char s"

section \<open>L1 block information\<close>

definition L1InfoFuncBedrockBytes4 :: "keccak \<Rightarrow> bytes" where
  "L1InfoFuncBedrockBytes4 keccak256 = take 4 (be_put 32 (keccak256
     (ascii ''setL1BlockValues(uint64,uint64,uint256,bytes32,uint64,bytes32,uint256,uint256)'')))"

definition L1InfoFuncEcotoneBytes4 :: "keccak \<Rightarrow> bytes" where
  "L1InfoFuncEcotoneBytes4 keccak256 = take 4 (be_put 32 (keccak256
     (ascii ''setL1BlockValuesEcotone()'')))"

definition L1InfoBedrockLen :: nat where "L1InfoBedrockLen = 4 + 32 * 8"

definition L1InfoEcotoneLen :: nat where "L1InfoEcotoneLen = 4 + 32 * 5"

definition L1InfoDepositerAddress :: Address where
  "L1InfoDepositerAddress = 0xdeaddeaddeaddeaddeaddeaddeaddeaddead0001"

definition L1BlockAddress :: Address where
  "L1BlockAddress = 0x4200000000000000000000000000000000000015"

definition RegolithSystemTxGas :: u64 where "RegolithSystemTxGas = 1000000"

text \<open>A big integer is an \<open>int\<close>; the pointer to the blob base fee may be nil.\<close>

record L1BlockInfo =
  li_Number :: u64
  li_Time :: u64
  li_BaseFee :: int
  li_BlockHash :: Hash
  li_SequenceNumber :: u64
  li_BatcherAddr :: Address
  li_L1FeeOverhead :: "256 word"
  li_L1FeeScalar :: "256 word"
  li_BlobBaseFee :: "int option"
  li_BaseFeeScalar :: u32
  li_BlobBaseFeeScalar :: u32

definition zero_L1BlockInfo :: L1BlockInfo where
  "zero_L1BlockInfo =
     \<lparr>li_Number = 0, li_Time = 0, li_BaseFee = 0, li_BlockHash = 0, li_SequenceNumber = 0,
      li_BatcherAddr = 0, li_L1FeeOverhead = 0, li_L1FeeScalar = 0, li_BlobBaseFee = None,
      li_BaseFeeScalar = 0, li_BlobBaseFeeScalar = 0\<rparr>"

definition marshalBinaryBedrock :: "keccak \<Rightarrow> L1BlockInfo \<Rightarrow> bytes res" where
  "marshalBinaryBedrock keccak256 info =
     (case WriteUint256 (li_BaseFee info) of
        Inl err \<Rightarrow> Inl err
      | Inr baseFee \<Rightarrow>
          Inr (WriteSignature (L1InfoFuncBedrockBytes4 keccak256)
               @ WriteUint64 (li_Number info) @ WriteUint64 (li_Time info) @ baseFee
               @ WriteHash (li_BlockHash info) @ WriteUint64 (li_SequenceNumber info)
               @ WriteAddress (li_BatcherAddr info) @ WriteEthBytes32 (li_L1FeeOverhead info)
               @ WriteEthBytes32 (li_L1FeeScalar info)))"

definition unmarshalBinaryBedrock :: "keccak \<Rightarrow> bytes \<Rightarrow> L1BlockInfo res" where
  "unmarshalBinaryBedrock keccak256 data =
     (if length data \<noteq> L1InfoBedrockLen then Inl (Msg ''data is unexpected length'')
      else case ReadAndValidateSignature data (L1InfoFuncBedrockBytes4 keccak256) of
        Inl err \<Rightarrow> Inl err | Inr (_, r) \<Rightarrow>
     (case ReadUint64 r of Inl err \<Rightarrow> Inl err | Inr (number, r) \<Rightarrow>
     (case ReadUint64 r of Inl err \<Rightarrow> Inl err | Inr (time, r) \<Rightarrow>
     (case ReadUint256 r of Inl err \<Rightarrow> Inl err | Inr (baseFee, r) \<Rightarrow>
     (case ReadHash r of Inl err \<Rightarrow> Inl err | Inr (blockHash, r) \<Rightarrow>
     (case ReadUint64 r of Inl err \<Rightarrow> Inl err | Inr (seqNumber, r) \<Rightarrow>
     (case ReadAddress r of Inl err \<Rightarrow> Inl err | Inr (batcherAddr, r) \<Rightarrow>
     (case ReadEthBytes32 r of Inl err \<Rightarrow> Inl err | Inr (overhead, r) \<Rightarrow>
     (case ReadEthBytes32 r of Inl err \<Rightarrow> Inl err | Inr (scalar, r) \<Rightarrow>
        if \<not> EmptyReader r then Inl (Msg ''too many bytes'')
        else Inr (zero_L1BlockInfo\<lparr>li_Number := number, li_Time := time, li_BaseFee := baseFee,
                    li_BlockHash := blockHash, li_SequenceNumber := seqNumber,
                    li_BatcherAddr := batcherAddr, li_L1FeeOverhead := overhead,
                    li_L1FeeScalar := scalar\<rparr>))))))))))"

definition marshalBinaryEcotone :: "keccak \<Rightarrow> L1BlockInfo \<Rightarrow> bytes res" where
  "marshalBinaryEcotone keccak256 info =
     (case WriteUint256 (li_BaseFee info) of
        Inl err \<Rightarrow> Inl err
      | Inr baseFee \<Rightarrow>
     (let blobBasefee = (case li_BlobBaseFee info of None \<Rightarrow> 1 | Some f \<Rightarrow> f) in
      case WriteUint256 blobBasefee of
        Inl err \<Rightarrow> Inl err
      | Inr blobFee \<Rightarrow>
          Inr (WriteSignature (L1InfoFuncEcotoneBytes4 keccak256)
               @ be_put 4 (li_BaseFeeScalar info) @ be_put 4 (li_BlobBaseFeeScalar info)
               @ be_put 8 (li_SequenceNumber info) @ be_put 8 (li_Time info)
               @ be_put 8 (li_Number info) @ baseFee @ blobFee
               @ WriteHash (li_BlockHash info) @ WriteAddress (li_BatcherAddr info))))"

definition unmarshalBinaryEcotone :: "keccak \<Rightarrow> bytes \<Rightarrow> L1BlockInfo res" where
  "unmarshalBinaryEcotone keccak256 data =
     (let bad = Inl (Msg ''invalid ecotone l1 block info format'') in
      if length data \<noteq> L1InfoEcotoneLen then Inl (Msg ''data is unexpected length'')
      else case ReadAndValidateSignature data (L1InfoFuncEcotoneBytes4 keccak256) of
        Inl err \<Rightarrow> Inl err | Inr (_, r) \<Rightarrow>
     (case ReadFull 4 r of Inl err \<Rightarrow> bad | Inr (baseFeeScalar, r) \<Rightarrow>
     (case ReadFull 4 r of Inl err \<Rightarrow> bad | Inr (blobBaseFeeScalar, r) \<Rightarrow>
     (case ReadFull 8 r of Inl err \<Rightarrow> bad | Inr (seqNumber, r) \<Rightarrow>
     (case ReadFull 8 r of Inl err \<Rightarrow> bad | Inr (time, r) \<Rightarrow>
     (case ReadFull 8 r of Inl err \<Rightarrow> bad | Inr (number, r) \<Rightarrow>
     (case ReadUint256 r of Inl err \<Rightarrow> Inl err | Inr (baseFee, r) \<Rightarrow>
     (case ReadUint256 r of Inl err \<Rightarrow> Inl err | Inr (blobBaseFee, r) \<Rightarrow>
     (case ReadHash r of Inl err \<Rightarrow> Inl err | Inr (blockHash, r) \<Rightarrow>
     (case ReadAddress r of Inl err \<Rightarrow> Inl err | Inr (batcherAddr, r) \<Rightarrow>
        if \<not> EmptyReader r then Inl (Msg ''too many bytes'')
        else Inr (zero_L1BlockInfo\<lparr>li_Number := be_get number, li_Time := be_get time,
                    li_BaseFee := baseFee, li_BlockHash := blockHash,
                    li_SequenceNumber := be_get seqNumber, li_BatcherAddr := batcherAddr,
                    li_BlobBaseFee := Some blobBaseFee, li_BaseFeeScalar := be_get baseFeeScalar,
                    li_BlobBaseFeeScalar := be_get blobBaseFeeScalar\<rparr>)))))))))))"

definition isEcotoneButNotFirstBlock :: "Config \<Rightarrow> u64 \<Rightarrow> bool" where
  "isEcotoneButNotFirstBlock rollupCfg l2BlockTime \<longleftrightarrow>
     IsEcotone rollupCfg l2BlockTime \<and> \<not> IsEcotoneActivationBlock rollupCfg l2BlockTime"

definition L1BlockInfoFromBytes :: "keccak \<Rightarrow> Config \<Rightarrow> u64 \<Rightarrow> bytes \<Rightarrow> L1BlockInfo res" where
  "L1BlockInfoFromBytes keccak256 rollupCfg l2BlockTime data =
     (if isEcotoneButNotFirstBlock rollupCfg l2BlockTime then unmarshalBinaryEcotone keccak256 data
      else unmarshalBinaryBedrock keccak256 data)"

section \<open>Deposit sources\<close>

definition UserDepositSourceDomain :: u64 where "UserDepositSourceDomain = 0"

definition L1InfoDepositSourceDomain :: u64 where "L1InfoDepositSourceDomain = 1"

definition UpgradeDepositSourceDomain :: u64 where "UpgradeDepositSourceDomain = 2"

definition UserDepositSource_SourceHash :: "keccak \<Rightarrow> Hash \<Rightarrow> u64 \<Rightarrow> Hash" where
  "UserDepositSource_SourceHash keccak256 l1BlockHash logIndex =
     (let depositIDHash = keccak256 (be_put 32 l1BlockHash @ replicate 24 0 @ be_put 8 logIndex)
      in keccak256 (replicate 24 0 @ be_put 8 UserDepositSourceDomain @ be_put 32 depositIDHash))"

definition L1InfoDepositSource_SourceHash :: "keccak \<Rightarrow> Hash \<Rightarrow> u64 \<Rightarrow> Hash" where
  "L1InfoDepositSource_SourceHash keccak256 l1BlockHash seqNumber =
     (let depositIDHash = keccak256 (be_put 32 l1BlockHash @ replicate 24 0 @ be_put 8 seqNumber)
      in keccak256 (replicate 24 0 @ be_put 8 L1InfoDepositSourceDomain @ be_put 32 depositIDHash))"

definition UpgradeDepositSource_SourceHash :: "keccak \<Rightarrow> bytes \<Rightarrow> Hash" where
  "UpgradeDepositSource_SourceHash keccak256 intent =
     (let intentHash = keccak256 intent
      in keccak256 (replicate 24 0 @ be_put 8 UpgradeDepositSourceDomain @ be_put 32 intentHash))"

section \<open>The L1 attributes transaction\<close>

record BlockInfo =
  bi_Hash :: Hash
  bi_NumberU64 :: u64
  bi_Time :: u64
  bi_BaseFee :: int
  bi_BlobBaseFee :: "int option"

record DepositTx =
  dt_SourceHash :: Hash
  dt_From :: Address
  dt_To :: "Address option"
  dt_Mint :: "int option"
  dt_Value :: int
  dt_Gas :: u64
  dt_IsSystemTransaction :: bool
  dt_Data :: bytes

definition L1InfoDeposit ::
    "keccak \<Rightarrow> Config \<Rightarrow> SystemConfig \<Rightarrow> u64 \<Rightarrow> BlockInfo \<Rightarrow> u64 \<Rightarrow> DepositTx res" where
  "L1InfoDeposit keccak256 rollupCfg sysCfg seqNumber block nextL2MilliTime =
     (let l1BlockInfo = zero_L1BlockInfo\<lparr>li_Number := bi_NumberU64 block, li_Time := bi_Time block,
            li_BaseFee := bi_BaseFee block, li_BlockHash := bi_Hash block,
            li_SequenceNumber := seqNumber, li_BatcherAddr := BatcherAddr sysCfg\<rparr>;
          encoded =
            (if isEcotoneButNotFirstBlock rollupCfg (nextL2MilliTime div 1000) then
               (let l1BlockInfo = l1BlockInfo\<lparr>li_BlobBaseFee :=
                      (case bi_BlobBaseFee block of None \<Rightarrow> Some 1 | Some f \<Rightarrow> Some f)\<rparr> in
                case SystemConfig_EcotoneScalars sysCfg of
                  Inl err \<Rightarrow> Inl err
                | Inr scalars \<Rightarrow>
                    (case marshalBinaryEcotone keccak256
                            (l1BlockInfo\<lparr>li_BlobBaseFeeScalar := BlobBaseFeeScalar scalars,
                                        li_BaseFeeScalar := BaseFeeScalar scalars\<rparr>) of
                       Inl err \<Rightarrow> Inl (Wrap ''failed to marshal Ecotone l1 block info'' err)
                     | Inr out \<Rightarrow> Inr out))
             else
               (case marshalBinaryBedrock keccak256
                       (l1BlockInfo\<lparr>li_L1FeeOverhead := Overhead sysCfg, li_L1FeeScalar := Scalar sysCfg\<rparr>) of
                  Inl err \<Rightarrow> Inl (Wrap ''failed to marshal Bedrock l1 block info'' err)
                | Inr out \<Rightarrow> Inr out))
      in case encoded of
           Inl err \<Rightarrow> Inl err
         | Inr data \<Rightarrow>
             (let out = \<lparr>dt_SourceHash = L1InfoDepositSource_SourceHash keccak256 (bi_Hash block) seqNumber,
                         dt_From = L1InfoDepositerAddress, dt_To = Some L1BlockAddress,
                         dt_Mint = None, dt_Value = 0, dt_Gas = 150000000,
                         dt_IsSystemTransaction = True, dt_Data = data\<rparr>
              in if IsRegolith rollupCfg (nextL2MilliTime div 1000)
                 then Inr (out\<lparr>dt_IsSystemTransaction := False, dt_Gas := RegolithSystemTxGas\<rparr>)
                 else Inr out))"

text \<open>The serialisation of a deposit transaction belongs to the transaction library.\<close>

definition L1InfoDepositBytes ::
    "keccak \<Rightarrow> (DepositTx \<Rightarrow> bytes res) \<Rightarrow> Config \<Rightarrow> SystemConfig \<Rightarrow> u64 \<Rightarrow> BlockInfo \<Rightarrow> u64 \<Rightarrow> bytes res" where
  "L1InfoDepositBytes keccak256 encodeTx rollupCfg sysCfg seqNumber l1Info nextL2MilliTime =
     (case L1InfoDeposit keccak256 rollupCfg sysCfg seqNumber l1Info nextL2MilliTime of
        Inl err \<Rightarrow> Inl (Wrap ''failed to create L1 info tx'' err)
      | Inr dep \<Rightarrow>
          (case encodeTx dep of
             Inl err \<Rightarrow> Inl (Wrap ''failed to encode L1 info tx'' err)
           | Inr opaqueL1Tx \<Rightarrow> Inr opaqueL1Tx))"

section \<open>Reading an L2 block back\<close>

text \<open>The fields of an execution payload that are read, and a transaction decoder.\<close>

record ExecutionPayload =
  ep_ParentHash :: Hash
  ep_PrevRandao :: Hash
  ep_BlockNumber :: u64
  ep_GasLimit :: u64
  ep_Timestamp :: u64
  ep_BlockHash :: Hash
  ep_Transactions :: "bytes list"

type_synonym txDecoder = "bytes \<Rightarrow> (byte \<times> bytes) res"

definition DepositTxType :: byte where "DepositTxType = 0x7e"

definition milliPart :: "Hash \<Rightarrow> u64" where
  "milliPart prevRandao =
     (let b = be_put 32 prevRandao in ucast (b ! 0) * 256 + ucast (b ! 1))"

definition payload_MillisecondTimestamp :: "ExecutionPayload \<Rightarrow> u64" where
  "payload_MillisecondTimestamp payload =
     ep_Timestamp payload * 1000 + milliPart (ep_PrevRandao payload)"

definition payload_ID :: "ExecutionPayload \<Rightarrow> BlockID" where
  "payload_ID payload = \<lparr>bid_Hash = ep_BlockHash payload, bid_Number = ep_BlockNumber payload\<rparr>"

definition payload_ParentID :: "ExecutionPayload \<Rightarrow> BlockID" where
  "payload_ParentID payload =
     (let n = ep_BlockNumber payload; n = (if n > 0 then n - 1 else n)
      in \<lparr>bid_Hash = ep_ParentHash payload, bid_Number = n\<rparr>)"

text \<open>The L1 information of a payload that is not the genesis block's.\<close>

definition payload_info :: "keccak \<Rightarrow> txDecoder \<Rightarrow> Config \<Rightarrow> ExecutionPayload \<Rightarrow> L1BlockInfo res" where
  "payload_info keccak256 decodeTx rollupCfg payload =
     (case ep_Transactions payload of
        [] \<Rightarrow> Inl (Msg ''l2 block is missing L1 info deposit tx'')
      | tx0 # _ \<Rightarrow>
          (case decodeTx tx0 of
             Inl err \<Rightarrow> Inl (Wrap ''failed to decode first tx to read l1 info from'' err)
           | Inr (ty, data) \<Rightarrow>
               if ty \<noteq> DepositTxType then Inl (Msg ''first payload tx has unexpected tx type'')
               else
                 (case L1BlockInfoFromBytes keccak256 rollupCfg (ep_Timestamp payload) data of
                    Inl err \<Rightarrow> Inl (Wrap ''failed to parse L1 info deposit tx from L2 block'' err)
                  | Inr info \<Rightarrow> Inr info)))"

definition PayloadToBlockRef :: "keccak \<Rightarrow> txDecoder \<Rightarrow> Config \<Rightarrow> ExecutionPayload \<Rightarrow> L2BlockRef res" where
  "PayloadToBlockRef keccak256 decodeTx rollupCfg payload =
     (let genesis = cfg_Genesis rollupCfg;
          originAndSeq =
            (if ep_BlockNumber payload = bid_Number (gen_L2 genesis) then
               (if ep_BlockHash payload \<noteq> bid_Hash (gen_L2 genesis) then
                  Inl (Msg ''expected L2 genesis hash to match L2 block at genesis block number'')
                else Inr (gen_L1 genesis, 0))
             else
               (case payload_info keccak256 decodeTx rollupCfg payload of
                  Inl err \<Rightarrow> Inl err
                | Inr info \<Rightarrow>
                    Inr (\<lparr>bid_Hash = li_BlockHash info, bid_Number = li_Number info\<rparr>, li_SequenceNumber info)))
      in case originAndSeq of
           Inl err \<Rightarrow> Inl err
         | Inr (l1Origin, sequenceNumber) \<Rightarrow>
             Inr \<lparr>l2_Hash = ep_BlockHash payload, l2_Number = ep_BlockNumber payload,
                  l2_ParentHash = ep_ParentHash payload, l2_Time = ep_Timestamp payload,
                  l2_MilliTime = milliPart (ep_PrevRandao payload), l2_L1Origin = l1Origin,
                  l2_SequenceNumber = sequenceNumber\<rparr>)"

text \<open>The scalar is patched in place: version 1, then the two fee scalars.\<close>

definition patch_scalar :: "256 word \<Rightarrow> u32 \<Rightarrow> u32 \<Rightarrow> 256 word" where
  "patch_scalar scalar blobBaseFeeScalar baseFeeScalar =
     (let b = be_put 32 scalar
      in be_get ([1] @ take 23 (drop 1 b) @ be_put 4 blobBaseFeeScalar @ be_put 4 baseFeeScalar))"

definition PayloadToSystemConfig :: "keccak \<Rightarrow> txDecoder \<Rightarrow> Config \<Rightarrow> ExecutionPayload \<Rightarrow> SystemConfig res" where
  "PayloadToSystemConfig keccak256 decodeTx rollupCfg payload =
     (let genesis = cfg_Genesis rollupCfg in
      if ep_BlockNumber payload = bid_Number (gen_L2 genesis) then
        (if ep_BlockHash payload \<noteq> bid_Hash (gen_L2 genesis) then
           Inl (Msg ''expected L2 genesis hash to match L2 block at genesis block number'')
         else Inr (gen_SystemConfig genesis))
      else
        (case payload_info keccak256 decodeTx rollupCfg payload of
           Inl err \<Rightarrow> Inl err
         | Inr info \<Rightarrow>
             (let info = (if isEcotoneButNotFirstBlock rollupCfg (ep_Timestamp payload)
                          then info\<lparr>li_L1FeeScalar := patch_scalar (li_L1FeeScalar info)
                                      (li_BlobBaseFeeScalar info) (li_BaseFeeScalar info)\<rparr>
                          else info)
              in Inr \<lparr>BatcherAddr = li_BatcherAddr info, Overhead = li_L1FeeOverhead info,
                      Scalar = li_L1FeeScalar info, GasLimit = ep_GasLimit payload\<rparr>)))"

text \<open>A block of the execution engine: the same information from its header and its decoded
  transactions (type and data).\<close>

record L2Block =
  lb_Hash :: Hash
  lb_ParentHash :: Hash
  lb_MixDigest :: Hash
  lb_NumberU64 :: u64
  lb_Time :: u64
  lb_Transactions :: "(byte \<times> bytes) list"

definition L2BlockToBlockRef :: "keccak \<Rightarrow> Config \<Rightarrow> L2Block \<Rightarrow> L2BlockRef res" where
  "L2BlockToBlockRef keccak256 rollupCfg block =
     (let genesis = cfg_Genesis rollupCfg;
          originAndSeq =
            (if lb_NumberU64 block = bid_Number (gen_L2 genesis) then
               (if lb_Hash block \<noteq> bid_Hash (gen_L2 genesis) then
                  Inl (Msg ''expected L2 genesis hash to match L2 block at genesis block number'')
                else Inr (gen_L1 genesis, 0))
             else
               (case lb_Transactions block of
                  [] \<Rightarrow> Inl (Msg ''l2 block is missing L1 info deposit tx'')
                | (ty, data) # _ \<Rightarrow>
                    if ty \<noteq> DepositTxType then Inl (Msg ''first payload tx has unexpected tx type'')
                    else
                      (case L1BlockInfoFromBytes keccak256 rollupCfg (lb_Time block) data of
                         Inl err \<Rightarrow> Inl (Wrap ''failed to parse L1 info deposit tx from L2 block'' err)
                       | Inr info \<Rightarrow>
                           Inr (\<lparr>bid_Hash = li_BlockHash info, bid_Number = li_Number info\<rparr>,
                                li_SequenceNumber info))))
      in case originAndSeq of
           Inl err \<Rightarrow> Inl err
         | Inr (l1Origin, sequenceNumber) \<Rightarrow>
             Inr \<lparr>l2_Hash = lb_Hash block, l2_Number = lb_NumberU64 block,
                  l2_ParentHash = lb_ParentHash block, l2_Time = lb_Time block,
                  l2_MilliTime = (if lb_MixDigest block \<noteq> 0 then milliPart (lb_MixDigest block) else 0),
                  l2_L1Origin = l1Origin, l2_SequenceNumber = sequenceNumber\<rparr>)"

section \<open>What is written is read back\<close>

lemma ReadUint256_WriteUint256:
  "WriteUint256 n = Inr bs \<Longrightarrow> ReadUint256 (bs @ r) = Inr (\<bar>n\<bar>, r) \<and> length bs = 32"
proof -
  assume w: "WriteUint256 n = Inr bs"
  then have b: "nat \<bar>n\<bar> < 2 ^ 256" "bs = nat_to_be 32 (nat \<bar>n\<bar>)"
    by (simp_all add: WriteUint256_def not_le split: if_splits)
  then have "nat \<bar>n\<bar> mod 256 ^ 32 = nat \<bar>n\<bar>" by simp
  then show ?thesis unfolding b(2) by (simp add: ReadUint256_def)
qed

lemma length_solabi [simp]:
  "length (WriteUint64 n) = 32" "length (WriteHash h) = 32" "length (WriteAddress a) = 32"
  "length (WriteEthBytes32 h) = 32"
  by (simp_all add: WriteUint64_def WriteHash_def WriteAddress_def WriteEthBytes32_def
      uint64EmptyPadding_def addressEmptyPadding_def)

lemma length_signature [simp]:
  "length (L1InfoFuncBedrockBytes4 k) = 4" "length (L1InfoFuncEcotoneBytes4 k) = 4"
  by (simp_all add: L1InfoFuncBedrockBytes4_def L1InfoFuncEcotoneBytes4_def)

lemma ReadEthBytes32_end [simp]: "ReadEthBytes32 (WriteEthBytes32 h) = Inr (h, [])"
  using ReadEthBytes32_Write [of h "[]"] by simp

lemma ReadAddress_end [simp]: "ReadAddress (WriteAddress h) = Inr (h, [])"
  using ReadAddress_Write [of h "[]"] by simp

lemma ReadAndValidateSignature_append [simp]:
  "length sig = 4 \<Longrightarrow> ReadAndValidateSignature (sig @ r) sig = Inr (sig, r)"
  by (simp add: ReadAndValidateSignature_def)

lemma unmarshal_marshal_Bedrock:
  assumes "marshalBinaryBedrock k info = Inr data"
  shows "unmarshalBinaryBedrock k data =
     Inr (info\<lparr>li_BaseFee := \<bar>li_BaseFee info\<bar>, li_BlobBaseFee := None, li_BaseFeeScalar := 0,
               li_BlobBaseFeeScalar := 0\<rparr>)"
proof -
  obtain fee where w: "WriteUint256 (li_BaseFee info) = Inr fee"
    and d: "data = L1InfoFuncBedrockBytes4 k
               @ WriteUint64 (li_Number info) @ WriteUint64 (li_Time info) @ fee
               @ WriteHash (li_BlockHash info) @ WriteUint64 (li_SequenceNumber info)
               @ WriteAddress (li_BatcherAddr info) @ WriteEthBytes32 (li_L1FeeOverhead info)
               @ WriteEthBytes32 (li_L1FeeScalar info)"
    using assms by (auto simp: marshalBinaryBedrock_def WriteSignature_def split: sum.splits)
  note f = ReadUint256_WriteUint256 [OF w]
  show ?thesis
    using f by (simp add: unmarshalBinaryBedrock_def d L1InfoBedrockLen_def EmptyReader_def zero_L1BlockInfo_def)
qed

lemma unmarshal_marshal_Ecotone:
  assumes "marshalBinaryEcotone k info = Inr data"
  shows "unmarshalBinaryEcotone k data =
     Inr (info\<lparr>li_BaseFee := \<bar>li_BaseFee info\<bar>, li_L1FeeOverhead := 0, li_L1FeeScalar := 0,
               li_BlobBaseFee := Some (case li_BlobBaseFee info of None \<Rightarrow> 1 | Some f \<Rightarrow> \<bar>f\<bar>)\<rparr>)"
proof -
  let ?blob = "case li_BlobBaseFee info of None \<Rightarrow> 1 | Some f \<Rightarrow> f"
  obtain fee bfee where w: "WriteUint256 (li_BaseFee info) = Inr fee" "WriteUint256 ?blob = Inr bfee"
    and d: "data = L1InfoFuncEcotoneBytes4 k
               @ be_put 4 (li_BaseFeeScalar info) @ be_put 4 (li_BlobBaseFeeScalar info)
               @ be_put 8 (li_SequenceNumber info) @ be_put 8 (li_Time info)
               @ be_put 8 (li_Number info) @ fee @ bfee
               @ WriteHash (li_BlockHash info) @ WriteAddress (li_BatcherAddr info)"
    using assms by (auto simp: marshalBinaryEcotone_def WriteSignature_def Let_def split: sum.splits)
  note f = ReadUint256_WriteUint256 [OF w(1)] ReadUint256_WriteUint256 [OF w(2)]
  have b: "\<bar>?blob\<bar> = (case li_BlobBaseFee info of None \<Rightarrow> 1 | Some f \<Rightarrow> \<bar>f\<bar>)"
    by (simp split: option.split)
  show ?thesis
    using f unfolding b
    by (simp add: unmarshalBinaryEcotone_def d L1InfoEcotoneLen_def EmptyReader_def zero_L1BlockInfo_def
        be_get_put)
qed

text \<open>The information the attributes transaction of a block carries.\<close>

definition deposit_info :: "Config \<Rightarrow> SystemConfig \<Rightarrow> u64 \<Rightarrow> BlockInfo \<Rightarrow> u64 \<Rightarrow> EcotoneScalars \<Rightarrow> L1BlockInfo" where
  "deposit_info cfg sysCfg seqNumber block t scalars =
     (let info = zero_L1BlockInfo\<lparr>li_Number := bi_NumberU64 block, li_Time := bi_Time block,
            li_BaseFee := \<bar>bi_BaseFee block\<bar>, li_BlockHash := bi_Hash block,
            li_SequenceNumber := seqNumber, li_BatcherAddr := BatcherAddr sysCfg\<rparr>
      in if isEcotoneButNotFirstBlock cfg t
         then info\<lparr>li_BlobBaseFee := Some (case bi_BlobBaseFee block of None \<Rightarrow> 1 | Some f \<Rightarrow> \<bar>f\<bar>),
                   li_BlobBaseFeeScalar := BlobBaseFeeScalar scalars,
                   li_BaseFeeScalar := BaseFeeScalar scalars\<rparr>
         else info\<lparr>li_L1FeeOverhead := Overhead sysCfg, li_L1FeeScalar := Scalar sysCfg\<rparr>)"

lemma L1InfoDeposit_data:
  assumes "L1InfoDeposit k cfg sysCfg seqNumber block ms = Inr dep"
  obtains scalars where
    "L1BlockInfoFromBytes k cfg (ms div 1000) (dt_Data dep)
       = Inr (deposit_info cfg sysCfg seqNumber block (ms div 1000) scalars)"
    "isEcotoneButNotFirstBlock cfg (ms div 1000) \<Longrightarrow> SystemConfig_EcotoneScalars sysCfg = Inr scalars"
proof (cases "isEcotoneButNotFirstBlock cfg (ms div 1000)")
  case True
  let ?info = "\<lambda>sc. zero_L1BlockInfo\<lparr>li_Number := bi_NumberU64 block, li_Time := bi_Time block,
            li_BaseFee := bi_BaseFee block, li_BlockHash := bi_Hash block,
            li_SequenceNumber := seqNumber, li_BatcherAddr := BatcherAddr sysCfg,
            li_BlobBaseFee := (case bi_BlobBaseFee block of None \<Rightarrow> Some 1 | Some f \<Rightarrow> Some f),
            li_BlobBaseFeeScalar := BlobBaseFeeScalar sc, li_BaseFeeScalar := BaseFeeScalar sc\<rparr>"
  obtain scalars where sc: "SystemConfig_EcotoneScalars sysCfg = Inr scalars"
    and m: "marshalBinaryEcotone k (?info scalars) = Inr (dt_Data dep)"
    using assms True
    by (auto simp: L1InfoDeposit_def Let_def split: sum.splits if_splits)
  show ?thesis
    by (rule that [of scalars])
      (use unmarshal_marshal_Ecotone [OF m] True sc in
        \<open>auto simp: L1BlockInfoFromBytes_def deposit_info_def zero_L1BlockInfo_def split: option.splits\<close>)
next
  case False
  let ?info = "zero_L1BlockInfo\<lparr>li_Number := bi_NumberU64 block, li_Time := bi_Time block,
            li_BaseFee := bi_BaseFee block, li_BlockHash := bi_Hash block,
            li_SequenceNumber := seqNumber, li_BatcherAddr := BatcherAddr sysCfg,
            li_L1FeeOverhead := Overhead sysCfg, li_L1FeeScalar := Scalar sysCfg\<rparr>"
  have m: "marshalBinaryBedrock k ?info = Inr (dt_Data dep)"
    using assms False
    by (auto simp: L1InfoDeposit_def Let_def split: sum.splits if_splits)
  show ?thesis
    by (rule that [of "\<lparr>BlobBaseFeeScalar = 0, BaseFeeScalar = 0\<rparr>"])
      (use unmarshal_marshal_Bedrock [OF m] False in
        \<open>auto simp: L1BlockInfoFromBytes_def deposit_info_def zero_L1BlockInfo_def\<close>)
qed

lemma patch_scalar_0: "patch_scalar 0 bl ba = EncodeScalar \<lparr>BlobBaseFeeScalar = bl, BaseFeeScalar = ba\<rparr>"
  by (simp add: patch_scalar_def EncodeScalar_def L1ScalarEcotone_def be_put_def nat_to_be_0)

lemma EcotoneScalars_EncodeScalar:
  "SystemConfig_EcotoneScalars \<lparr>BatcherAddr = a, Overhead = ov, Scalar = EncodeScalar s, GasLimit = g\<rparr> = Inr s"
  by (simp add: SystemConfig_EcotoneScalars_def EncodeScalar_accepted DecodeScalar_EncodeScalar)

text \<open>A payload whose first transaction is the attributes transaction \<open>dep\<close> of its time.\<close>

definition starts_with_deposit :: "txDecoder \<Rightarrow> ExecutionPayload \<Rightarrow> u64 \<Rightarrow> DepositTx \<Rightarrow> bool" where
  "starts_with_deposit decodeTx payload ms dep \<longleftrightarrow>
     ep_Timestamp payload = ms div 1000 \<and> ep_Transactions payload \<noteq> [] \<and>
     decodeTx (hd (ep_Transactions payload)) = Inr (DepositTxType, dt_Data dep)"

lemma payload_info_deposit:
  assumes "L1InfoDeposit k cfg sysCfg seqNumber block ms = Inr dep"
    and "starts_with_deposit decodeTx payload ms dep"
  obtains scalars where
    "payload_info k decodeTx cfg payload
       = Inr (deposit_info cfg sysCfg seqNumber block (ms div 1000) scalars)"
    "isEcotoneButNotFirstBlock cfg (ms div 1000) \<Longrightarrow> SystemConfig_EcotoneScalars sysCfg = Inr scalars"
proof -
  obtain tx0 txs where t: "ep_Transactions payload = tx0 # txs"
    using assms(2) by (cases "ep_Transactions payload") (auto simp: starts_with_deposit_def)
  from L1InfoDeposit_data [OF assms(1)] obtain scalars where
    "L1BlockInfoFromBytes k cfg (ms div 1000) (dt_Data dep)
       = Inr (deposit_info cfg sysCfg seqNumber block (ms div 1000) scalars)"
    "isEcotoneButNotFirstBlock cfg (ms div 1000) \<Longrightarrow> SystemConfig_EcotoneScalars sysCfg = Inr scalars"
    by blast
  with assms(2) t show ?thesis
    by (intro that [of scalars]) (simp_all add: payload_info_def starts_with_deposit_def)
qed

lemma mainnet_before_Ecotone: "\<not> isEcotoneButNotFirstBlock OPBNBMainnet 1691753724"
  by (simp add: isEcotoneButNotFirstBlock_def IsEcotone_def OPBNBMainnet_def isTimestampForked_def)

lemma mainnet_deposit:
  "\<exists>dep. L1InfoDeposit (\<lambda>_. 0) OPBNBMainnet \<lparr>BatcherAddr = 1, Overhead = 2, Scalar = 3, GasLimit = 4\<rparr> 0
     \<lparr>bi_Hash = 5, bi_NumberU64 = 6, bi_Time = 7, bi_BaseFee = 8, bi_BlobBaseFee = None\<rparr> 1691753724000 = Inr dep"
  using mainnet_before_Ecotone
  by (simp add: L1InfoDeposit_def marshalBinaryBedrock_def WriteUint256_def zero_L1BlockInfo_def Let_def)

text \<open>What a node reads back from a block is what the block was built on: when the first
  transaction of a payload is the L1 attributes transaction made for an L1 block and a sequence
  number, and the payload is not the genesis block, the reference read from the payload
  has that L1 block as its origin and that sequence number, before and after Ecotone.\<close>

theorem PayloadToBlockRef_origin:
  assumes "L1InfoDeposit keccak256 cfg sysCfg seqNumber block ms = Inr dep"
    and "starts_with_deposit decodeTx payload ms dep"
    and "ep_BlockNumber payload \<noteq> bid_Number (gen_L2 (cfg_Genesis cfg))"
  shows "PayloadToBlockRef keccak256 decodeTx cfg payload =
     Inr \<lparr>l2_Hash = ep_BlockHash payload, l2_Number = ep_BlockNumber payload,
          l2_ParentHash = ep_ParentHash payload, l2_Time = ms div 1000,
          l2_MilliTime = milliPart (ep_PrevRandao payload),
          l2_L1Origin = \<lparr>bid_Hash = bi_Hash block, bid_Number = bi_NumberU64 block\<rparr>,
          l2_SequenceNumber = seqNumber\<rparr>"
proof -
  have t: "ep_Timestamp payload = ms div 1000" using assms(2) by (simp add: starts_with_deposit_def)
  from payload_info_deposit [OF assms(1,2)] obtain scalars where
    "payload_info keccak256 decodeTx cfg payload
       = Inr (deposit_info cfg sysCfg seqNumber block (ms div 1000) scalars)" by blast
  then show ?thesis
    by (simp add: PayloadToBlockRef_def assms(3) t deposit_info_def zero_L1BlockInfo_def Let_def)
qed

theorem PayloadToBlockRef_origin_witness:
  "\<exists>dep :: DepositTx. PayloadToBlockRef (\<lambda>_. 0) (\<lambda>b. Inr (DepositTxType, b)) OPBNBMainnet
     \<lparr>ep_ParentHash = 9, ep_PrevRandao = 0, ep_BlockNumber = 1, ep_GasLimit = 10, ep_Timestamp = 1691753724,
      ep_BlockHash = 11, ep_Transactions = [dt_Data dep]\<rparr> =
     Inr \<lparr>l2_Hash = 11, l2_Number = 1, l2_ParentHash = 9, l2_Time = 1691753724, l2_MilliTime = milliPart 0,
          l2_L1Origin = \<lparr>bid_Hash = 5, bid_Number = 6\<rparr>, l2_SequenceNumber = 0\<rparr>"
proof -
  let ?sysCfg = "\<lparr>BatcherAddr = 1, Overhead = 2, Scalar = 3, GasLimit = 4\<rparr>"
  let ?block = "\<lparr>bi_Hash = 5, bi_NumberU64 = 6, bi_Time = 7, bi_BaseFee = 8, bi_BlobBaseFee = None\<rparr>"
  obtain dep where dep: "L1InfoDeposit (\<lambda>_. 0) OPBNBMainnet ?sysCfg 0 ?block 1691753724000 = Inr dep"
    using mainnet_deposit by blast
  let ?payload = "\<lparr>ep_ParentHash = 9, ep_PrevRandao = 0, ep_BlockNumber = 1, ep_GasLimit = 10,
    ep_Timestamp = 1691753724, ep_BlockHash = 11, ep_Transactions = [dt_Data dep]\<rparr>"
  have p: "starts_with_deposit (\<lambda>b. Inr (DepositTxType, b)) ?payload 1691753724000 dep"
    by (simp add: starts_with_deposit_def)
  have n: "ep_BlockNumber ?payload \<noteq> bid_Number (gen_L2 (cfg_Genesis OPBNBMainnet))"
    by (simp add: OPBNBMainnet_def)
  show ?thesis
    using PayloadToBlockRef_origin [OF dep p n] by (intro exI [of _ dep]) simp
qed

text \<open>The system configuration survives the round trip through a block. Outside Ecotone (and
  in its activation block) the configuration read back from a payload is the one its attributes
  transaction was made from, with the gas limit of the payload; in Ecotone the batcher and the
  decoded fee scalars are the same, and the overhead, which Ecotone does not use, is zero.\<close>

theorem PayloadToSystemConfig_roundtrip:
  assumes "L1InfoDeposit keccak256 cfg sysCfg seqNumber block ms = Inr dep"
    and "starts_with_deposit decodeTx payload ms dep"
    and "ep_BlockNumber payload \<noteq> bid_Number (gen_L2 (cfg_Genesis cfg))"
  shows "\<exists>c. PayloadToSystemConfig keccak256 decodeTx cfg payload = Inr c \<and>
     GasLimit c = ep_GasLimit payload \<and> BatcherAddr c = BatcherAddr sysCfg \<and>
     (if isEcotoneButNotFirstBlock cfg (ms div 1000)
      then Overhead c = 0 \<and> SystemConfig_EcotoneScalars c = SystemConfig_EcotoneScalars sysCfg
      else Overhead c = Overhead sysCfg \<and> Scalar c = Scalar sysCfg)"
proof -
  have t: "ep_Timestamp payload = ms div 1000" using assms(2) by (simp add: starts_with_deposit_def)
  from payload_info_deposit [OF assms(1,2)] obtain scalars where
    i: "payload_info keccak256 decodeTx cfg payload
       = Inr (deposit_info cfg sysCfg seqNumber block (ms div 1000) scalars)" and
    sc: "isEcotoneButNotFirstBlock cfg (ms div 1000) \<Longrightarrow> SystemConfig_EcotoneScalars sysCfg = Inr scalars"
    by blast
  have e: "EncodeScalar \<lparr>BlobBaseFeeScalar = BlobBaseFeeScalar scalars, BaseFeeScalar = BaseFeeScalar scalars\<rparr>
    = EncodeScalar scalars" by (cases scalars) simp
  show ?thesis
    by (cases "isEcotoneButNotFirstBlock cfg (ms div 1000)")
      (simp_all add: PayloadToSystemConfig_def assms(3) i t sc deposit_info_def zero_L1BlockInfo_def Let_def
        patch_scalar_0 e EcotoneScalars_EncodeScalar)
qed

theorem PayloadToSystemConfig_roundtrip_witness:
  "\<exists>(dep :: DepositTx) c. PayloadToSystemConfig (\<lambda>_. 0) (\<lambda>b. Inr (DepositTxType, b)) OPBNBMainnet
     \<lparr>ep_ParentHash = 9, ep_PrevRandao = 0, ep_BlockNumber = 1, ep_GasLimit = 10, ep_Timestamp = 1691753724,
      ep_BlockHash = 11, ep_Transactions = [dt_Data dep]\<rparr> = Inr c \<and>
     GasLimit c = 10 \<and> BatcherAddr c = 1 \<and> Overhead c = 2 \<and> Scalar c = 3"
proof -
  let ?sysCfg = "\<lparr>BatcherAddr = 1, Overhead = 2, Scalar = 3, GasLimit = 4\<rparr>"
  let ?block = "\<lparr>bi_Hash = 5, bi_NumberU64 = 6, bi_Time = 7, bi_BaseFee = 8, bi_BlobBaseFee = None\<rparr>"
  obtain dep where dep: "L1InfoDeposit (\<lambda>_. 0) OPBNBMainnet ?sysCfg 0 ?block 1691753724000 = Inr dep"
    using mainnet_deposit by blast
  let ?payload = "\<lparr>ep_ParentHash = 9, ep_PrevRandao = 0, ep_BlockNumber = 1, ep_GasLimit = 10,
    ep_Timestamp = 1691753724, ep_BlockHash = 11, ep_Transactions = [dt_Data dep]\<rparr>"
  have p: "starts_with_deposit (\<lambda>b. Inr (DepositTxType, b)) ?payload 1691753724000 dep"
    by (simp add: starts_with_deposit_def)
  have n: "ep_BlockNumber ?payload \<noteq> bid_Number (gen_L2 (cfg_Genesis OPBNBMainnet))"
    by (simp add: OPBNBMainnet_def)
  obtain c where "PayloadToSystemConfig (\<lambda>_. 0) (\<lambda>b. Inr (DepositTxType, b)) OPBNBMainnet ?payload = Inr c"
    "GasLimit c = 10" "BatcherAddr c = 1" "Overhead c = 2" "Scalar c = 3"
    using PayloadToSystemConfig_roundtrip [OF dep p n] mainnet_before_Ecotone by auto
  then show ?thesis by blast
qed

text \<open>The two readers of a block's reference agree on the two views of a block.\<close>

definition same_block :: "txDecoder \<Rightarrow> ExecutionPayload \<Rightarrow> L2Block \<Rightarrow> bool" where
  "same_block decodeTx payload block \<longleftrightarrow>
     lb_Hash block = ep_BlockHash payload \<and> lb_ParentHash block = ep_ParentHash payload \<and>
     lb_MixDigest block = ep_PrevRandao payload \<and> lb_NumberU64 block = ep_BlockNumber payload \<and>
     lb_Time block = ep_Timestamp payload \<and>
     map decodeTx (ep_Transactions payload) = map Inr (lb_Transactions block)"

lemma milliPart_0: "milliPart 0 = 0"
  by (simp add: milliPart_def be_put_def nat_to_be_0 Let_def)

text \<open>Reading the reference from the payload of a block and from the block itself gives the same
  result, errors included.\<close>

theorem block_ref_readers_agree:
  assumes "same_block decodeTx payload block"
  shows "L2BlockToBlockRef keccak256 cfg block = PayloadToBlockRef keccak256 decodeTx cfg payload"
proof -
  note b = assms [unfolded same_block_def]
  have m: "(if lb_MixDigest block \<noteq> 0 then milliPart (lb_MixDigest block) else 0)
    = milliPart (ep_PrevRandao payload)"
    using b milliPart_0 by auto
  show ?thesis
  proof (cases "lb_Transactions block")
    case Nil
    with b have "ep_Transactions payload = []" by simp
    with Nil b show ?thesis
      unfolding L2BlockToBlockRef_def PayloadToBlockRef_def payload_info_def Let_def m by simp
  next
    case (Cons p ps)
    obtain ty data where p: "p = (ty, data)" by (cases p)
    with Cons b obtain tx0 txs where "ep_Transactions payload = tx0 # txs" "decodeTx tx0 = Inr (ty, data)"
      by (cases "ep_Transactions payload") auto
    with Cons b p show ?thesis
      unfolding L2BlockToBlockRef_def PayloadToBlockRef_def payload_info_def Let_def m
      by (simp split: sum.split)
  qed
qed

theorem block_ref_readers_agree_witness:
  "let payload = \<lparr>ep_ParentHash = 9, ep_PrevRandao = 0, ep_BlockNumber = 1, ep_GasLimit = 10,
         ep_Timestamp = 1691753724, ep_BlockHash = 11, ep_Transactions = [[1, 2]]\<rparr>;
       block = \<lparr>lb_Hash = 11, lb_ParentHash = 9, lb_MixDigest = 0, lb_NumberU64 = 1, lb_Time = 1691753724,
         lb_Transactions = [(DepositTxType, [1, 2])]\<rparr>
   in L2BlockToBlockRef (\<lambda>_. 0) OPBNBMainnet block =
      PayloadToBlockRef (\<lambda>_. 0) (\<lambda>b. Inr (DepositTxType, b)) OPBNBMainnet payload"
  unfolding Let_def by (rule block_ref_readers_agree) (simp add: same_block_def)

end
