(* ===== verification/SpanBatchTxs.thy ===== *)
theory SpanBatchTxs
  imports Rollup Errors
begin

text \<open>
  The columns of transactions of a span batch (op-node/rollup/derive/span_batch_txs.go,
  span_batch_tx.go, span_batch_util.go): bit lists, varints, the split of a transaction into its
  columns and back. The transaction and RLP libraries are the record of functions \<open>TxLib\<close>.
  A nil bit list is \<open>None\<close>, and using one panics. The theorems are the round trips of varints, bit
  lists and columns, the losslessness of the columns, and a panic on SetCode transactions.
\<close>

definition MaxSpanBatchElementCount :: u64 where "MaxSpanBatchElementCount = 10000000"

definition ErrTooBigSpanBatchSize :: gerr where
  "ErrTooBigSpanBatchSize = Msg ''span batch size limit reached''"

section \<open>Varints (encoding/binary)\<close>

text \<open>\<open>PutUvarint\<close> and \<open>ReadUvarint\<close>; at most ten bytes are read.\<close>

function PutUvarint :: "u64 \<Rightarrow> bytes" where
  "PutUvarint x = (if x < 0x80 then [ucast x] else (ucast x OR 0x80) # PutUvarint (drop_bit 7 x))"
  by pat_completeness auto

termination PutUvarint
proof (relation "measure unat")
  fix x :: u64 assume "\<not> x < 0x80"
  then have "128 \<le> unat x" by (simp add: word_less_nat_alt)
  moreover have "unat (drop_bit 7 x) = unat x div 128" by (simp add: drop_bit_eq_div unat_div)
  ultimately show "(drop_bit 7 x, x) \<in> measure unat" by simp
qed simp

declare PutUvarint.simps [simp del]

fun ReadUvarint_loop :: "nat \<Rightarrow> nat \<Rightarrow> u64 \<Rightarrow> bytes \<Rightarrow> (u64 \<times> bytes) res" where
  "ReadUvarint_loop 0 i x r = Inl (Msg ''binary: varint overflows a 64-bit integer'')"
| "ReadUvarint_loop (Suc n) i x r =
     (case r of
        [] \<Rightarrow> Inl (if i > 0 then UnexpectedEOF else EOF)
      | b # r' \<Rightarrow>
          if b < 0x80 then
            (if i = 9 \<and> b > 1 then Inl (Msg ''binary: varint overflows a 64-bit integer'')
             else Inr (x OR push_bit (7 * i) (ucast b), r'))
          else ReadUvarint_loop n (i + 1) (x OR push_bit (7 * i) (ucast (b AND 0x7f))) r')"

definition ReadUvarint :: "bytes \<Rightarrow> (u64 \<times> bytes) res" where
  "ReadUvarint r = ReadUvarint_loop 10 0 0 r"

section \<open>Bit lists (span_batch_util.go)\<close>

text \<open>A big integer used as a bit list is a natural number.\<close>

fun BitLen :: "nat \<Rightarrow> nat" where
  "BitLen n = (if n = 0 then 0 else Suc (BitLen (n div 2)))"

declare BitLen.simps [simp del]

definition bitlist_bytes :: "u64 \<Rightarrow> u64" where
  "bitlist_bytes bitLength =
     (let bufLen = bitLength div 8 in if bitLength mod 8 \<noteq> 0 then bufLen + 1 else bufLen)"

definition decodeSpanBatchBits :: "bytes \<Rightarrow> u64 \<Rightarrow> (nat \<times> bytes) res" where
  "decodeSpanBatchBits r bitLength =
     (case ReadFull (unat (bitlist_bytes bitLength)) r of
        Inl err \<Rightarrow> Inl (Wrap ''failed to read bits'' err)
      | Inr (buf, r) \<Rightarrow>
          (let out = be_to_nat buf in
           if (of_nat (BitLen out) :: u64) > bitLength
           then Inl (Msg ''bitfield has too many bits'')
           else Inr (out, r)))"

definition encodeSpanBatchBits :: "u64 \<Rightarrow> nat option \<Rightarrow> bytes res go" where
  "encodeSpanBatchBits bitLength bits =
     (case bits of
        None \<Rightarrow> None
      | Some bits \<Rightarrow>
          if (of_nat (BitLen bits) :: u64) > bitLength then
            Some (Inl (Msg ''bitfield is larger than bitLength''))
          else Some (Inr (nat_to_be (unat (bitlist_bytes bitLength)) bits)))"

text \<open>\<open>SetBit\<close> of a big integer panics on a bit other than 0 and 1.\<close>

definition SetBit :: "nat option \<Rightarrow> nat \<Rightarrow> u64 \<Rightarrow> nat option go" where
  "SetBit bits i b =
     (case bits of
        None \<Rightarrow> None
      | Some n \<Rightarrow> if b = 0 then Some (Some (unset_bit i n))
                  else if b = 1 then Some (Some (set_bit i n)) else None)"

section \<open>The transaction library\<close>

type_synonym AccessList = bytes
type_synonym AuthList = bytes

record Transaction =
  tx_Type :: byte
  tx_ChainID :: int
  tx_Nonce :: u64
  tx_GasPrice :: int
  tx_GasTipCap :: int
  tx_GasFeeCap :: int
  tx_Gas :: u64
  tx_To :: "Address option"
  tx_Value :: int
  tx_Data :: bytes
  tx_AccessList :: AccessList
  tx_AuthList :: AuthList
  tx_V :: int
  tx_R :: int
  tx_S :: int

definition LegacyTxType :: byte where "LegacyTxType = 0"
definition AccessListTxType :: byte where "AccessListTxType = 1"
definition DynamicFeeTxType :: byte where "DynamicFeeTxType = 2"
definition SetCodeTxType :: byte where "SetCodeTxType = 4"

text \<open>The variants of a span batch transaction (span_batch_tx.go).\<close>

datatype spanBatchTxData =
    spanBatchLegacyTxData int int bytes
  | spanBatchAccessListTxData int int bytes AccessList
  | spanBatchDynamicFeeTxData int int int bytes AccessList
  | spanBatchSetCodeTxData int int int bytes AccessList AuthList

text \<open>
  Decoding and encoding of a transaction, the chain id protection test, the RLP codec of the
  variants (decoding is told which variant), and an RLP stream: whether the next value is a list,
  and the bytes of that value with the rest.
\<close>

record TxLib =
  lib_UnmarshalBinary :: "bytes \<Rightarrow> Transaction res"
  lib_MarshalBinary :: "Transaction \<Rightarrow> bytes res"
  lib_Protected :: "Transaction \<Rightarrow> bool"
  lib_ChainId :: "Transaction \<Rightarrow> int"
  lib_rlpEncode :: "spanBatchTxData \<Rightarrow> bytes res"
  lib_rlpDecode :: "byte \<Rightarrow> bytes \<Rightarrow> spanBatchTxData res"
  lib_rlpIsList :: "bytes \<Rightarrow> bool res"
  lib_rlpRaw :: "bytes \<Rightarrow> (bytes \<times> bytes) res"

definition ErrValueTooLarge :: gerr where "ErrValueTooLarge = Msg ''rlp: value size exceeds available input length''"

section \<open>A transaction of a span batch (span_batch_tx.go)\<close>

fun txType :: "spanBatchTxData \<Rightarrow> byte" where
  "txType (spanBatchLegacyTxData _ _ _) = LegacyTxType"
| "txType (spanBatchAccessListTxData _ _ _ _) = AccessListTxType"
| "txType (spanBatchDynamicFeeTxData _ _ _ _ _) = DynamicFeeTxType"
| "txType (spanBatchSetCodeTxData _ _ _ _ _ _) = SetCodeTxType"

definition stx_MarshalBinary :: "TxLib \<Rightarrow> spanBatchTxData \<Rightarrow> bytes res" where
  "stx_MarshalBinary lib inner =
     (if txType inner = LegacyTxType then lib_rlpEncode lib inner
      else (case lib_rlpEncode lib inner of Inl err \<Rightarrow> Inl err | Inr bs \<Rightarrow> Inr (txType inner # bs)))"

definition stx_decodeTyped :: "TxLib \<Rightarrow> bytes \<Rightarrow> spanBatchTxData res" where
  "stx_decodeTyped lib b =
     (if length b \<le> 1 then Inl (Wrap ''failed to decode span batch'' (Msg ''ErrTypedTxTooShort''))
      else if hd b = AccessListTxType then
        (case lib_rlpDecode lib AccessListTxType (tl b) of
           Inl err \<Rightarrow> Inl (Wrap ''failed to decode spanBatchAccessListTxData'' err) | Inr d \<Rightarrow> Inr d)
      else if hd b = DynamicFeeTxType then
        (case lib_rlpDecode lib DynamicFeeTxType (tl b) of
           Inl err \<Rightarrow> Inl (Wrap ''failed to decode spanBatchDynamicFeeTxData'' err) | Inr d \<Rightarrow> Inr d)
      else if hd b = SetCodeTxType then
        (case lib_rlpDecode lib SetCodeTxType (tl b) of
           Inl err \<Rightarrow> Inl (Wrap ''failed to decode spanBatchSetCodeTxData'' err) | Inr d \<Rightarrow> Inr d)
      else Inl (Msg ''ErrTxTypeNotSupported''))"

definition stx_UnmarshalBinary :: "TxLib \<Rightarrow> bytes \<Rightarrow> spanBatchTxData res" where
  "stx_UnmarshalBinary lib b =
     (if b \<noteq> [] \<and> hd b > 0x7f then
        (case lib_rlpDecode lib LegacyTxType b of
           Inl err \<Rightarrow> Inl (Wrap ''failed to decode spanBatchLegacyTxData'' err) | Inr d \<Rightarrow> Inr d)
      else stx_decodeTyped lib b)"

text \<open>\<open>uint256.MustFromBig\<close> panics when the value needs more than 256 bits.\<close>

definition MustFromBig :: "int \<Rightarrow> int go" where
  "MustFromBig n = (if \<bar>n\<bar> < 2 ^ 256 then Some (n mod 2 ^ 256) else None)"

definition blank_tx :: "byte \<Rightarrow> u64 \<Rightarrow> u64 \<Rightarrow> Address option \<Rightarrow> int \<Rightarrow> int \<Rightarrow> int \<Rightarrow> Transaction" where
  "blank_tx ty nonce gas to V R S =
     \<lparr>tx_Type = ty, tx_ChainID = 0, tx_Nonce = nonce, tx_GasPrice = 0, tx_GasTipCap = 0,
      tx_GasFeeCap = 0, tx_Gas = gas, tx_To = to, tx_Value = 0, tx_Data = [], tx_AccessList = [],
      tx_AuthList = [], tx_V = V, tx_R = R, tx_S = S\<rparr>"

text \<open>The type switch of \<open>convertToFullTx\<close> has no other case on these variants.\<close>

fun convertToFullTx ::
    "spanBatchTxData \<Rightarrow> u64 \<Rightarrow> u64 \<Rightarrow> Address option \<Rightarrow> int \<Rightarrow> int \<Rightarrow> int \<Rightarrow> int \<Rightarrow> Transaction go" where
  "convertToFullTx (spanBatchLegacyTxData val gasPrice data) nonce gas to chainID V R S =
     Some ((blank_tx LegacyTxType nonce gas to V R S)
             \<lparr>tx_GasPrice := gasPrice, tx_Value := val, tx_Data := data\<rparr>)"
| "convertToFullTx (spanBatchAccessListTxData val gasPrice data al) nonce gas to chainID V R S =
     Some ((blank_tx AccessListTxType nonce gas to V R S)
             \<lparr>tx_ChainID := chainID, tx_GasPrice := gasPrice, tx_Value := val, tx_Data := data,
              tx_AccessList := al\<rparr>)"
| "convertToFullTx (spanBatchDynamicFeeTxData val tip fee data al) nonce gas to chainID V R S =
     Some ((blank_tx DynamicFeeTxType nonce gas to V R S)
             \<lparr>tx_ChainID := chainID, tx_GasTipCap := tip, tx_GasFeeCap := fee, tx_Value := val,
              tx_Data := data, tx_AccessList := al\<rparr>)"
| "convertToFullTx (spanBatchSetCodeTxData val tip fee data al auth) nonce gas to chainID V R S =
     do { chainID \<leftarrow> MustFromBig chainID;
          tip \<leftarrow> MustFromBig tip;
          fee \<leftarrow> MustFromBig fee;
          to \<leftarrow> to;
          val \<leftarrow> MustFromBig val;
          V \<leftarrow> MustFromBig V;
          R \<leftarrow> MustFromBig R;
          S \<leftarrow> MustFromBig S;
          Some ((blank_tx SetCodeTxType nonce gas (Some to) V R S)
             \<lparr>tx_ChainID := chainID, tx_GasTipCap := tip, tx_GasFeeCap := fee, tx_Value := val,
              tx_Data := data, tx_AccessList := al, tx_AuthList := auth\<rparr>) }"

definition newSpanBatchTx :: "Transaction \<Rightarrow> spanBatchTxData res" where
  "newSpanBatchTx tx =
     (if tx_Type tx = LegacyTxType then
        Inr (spanBatchLegacyTxData (tx_Value tx) (tx_GasPrice tx) (tx_Data tx))
      else if tx_Type tx = AccessListTxType then
        Inr (spanBatchAccessListTxData (tx_Value tx) (tx_GasPrice tx) (tx_Data tx) (tx_AccessList tx))
      else if tx_Type tx = DynamicFeeTxType then
        Inr (spanBatchDynamicFeeTxData (tx_Value tx) (tx_GasTipCap tx) (tx_GasFeeCap tx) (tx_Data tx)
               (tx_AccessList tx))
      else if tx_Type tx = SetCodeTxType then
        Inr (spanBatchSetCodeTxData (tx_Value tx) (tx_GasTipCap tx) (tx_GasFeeCap tx) (tx_Data tx)
               (tx_AccessList tx) (tx_AuthList tx))
      else Inl (Msg ''invalid tx type''))"

section \<open>The columns (span_batch_txs.go)\<close>

record spanBatchSignature =
  sig_v :: u64
  sig_r :: "256 word"
  sig_s :: "256 word"

record spanBatchTxs =
  totalBlockTxCount :: u64
  contractCreationBits :: "nat option"
  yParityBits :: "nat option"
  txSigs :: "spanBatchSignature list"
  txNonces :: "u64 list"
  txGases :: "u64 list"
  txTos :: "Address list"
  txDatas :: "bytes list"
  protectedBits :: "nat option"
  txTypes :: "byte list"
  totalLegacyTxCount :: u64

definition zero_spanBatchTxs :: spanBatchTxs where
  "zero_spanBatchTxs =
     \<lparr>totalBlockTxCount = 0, contractCreationBits = None, yParityBits = None, txSigs = [], txNonces = [],
      txGases = [], txTos = [], txDatas = [], protectedBits = None, txTypes = [], totalLegacyTxCount = 0\<rparr>"

text \<open>Indexing out of range and a method of a nil bit list panic.\<close>

definition at :: "'a list \<Rightarrow> nat \<Rightarrow> 'a go" where
  "at xs i = (if i < length xs then Some (xs ! i) else None)"

definition Bit :: "nat option \<Rightarrow> nat \<Rightarrow> u64 go" where
  "Bit bits i = map_option (\<lambda>n. of_bool (bit n i)) bits"

definition contractCreationCount :: "spanBatchTxs \<Rightarrow> u64 res" where
  "contractCreationCount btx =
     (case contractCreationBits btx of
        None \<Rightarrow> Inl (Msg ''dev error: contract creation bits not set'')
      | Some n \<Rightarrow> Inr (sum_list (map (\<lambda>i. of_bool (bit n i)) [0..<unat (totalBlockTxCount btx)])))"

text \<open>Reading a number of items one after the other.\<close>

fun read_many :: "nat \<Rightarrow> (bytes \<Rightarrow> ('a \<times> bytes) res) \<Rightarrow> bytes \<Rightarrow> ('a list \<times> bytes) res" where
  "read_many 0 rd r = Inr ([], r)"
| "read_many (Suc n) rd r =
     (case rd r of
        Inl err \<Rightarrow> Inl err
      | Inr (x, r) \<Rightarrow>
          (case read_many n rd r of Inl err \<Rightarrow> Inl err | Inr (xs, r) \<Rightarrow> Inr (x # xs, r)))"

definition encodeContractCreationBits :: "spanBatchTxs \<Rightarrow> bytes res go" where
  "encodeContractCreationBits btx = encodeSpanBatchBits (totalBlockTxCount btx) (contractCreationBits btx)"

definition encodeYParityBits :: "spanBatchTxs \<Rightarrow> bytes res go" where
  "encodeYParityBits btx = encodeSpanBatchBits (totalBlockTxCount btx) (yParityBits btx)"

definition encodeProtectedBits :: "spanBatchTxs \<Rightarrow> bytes res go" where
  "encodeProtectedBits btx = encodeSpanBatchBits (totalLegacyTxCount btx) (protectedBits btx)"

definition encodeTxSigsRS :: "spanBatchTxs \<Rightarrow> bytes" where
  "encodeTxSigsRS btx = concat (map (\<lambda>sig. be_put 32 (sig_r sig) @ be_put 32 (sig_s sig)) (txSigs btx))"

definition encodeTxNonces :: "spanBatchTxs \<Rightarrow> bytes" where
  "encodeTxNonces btx = concat (map PutUvarint (txNonces btx))"

definition encodeTxGases :: "spanBatchTxs \<Rightarrow> bytes" where
  "encodeTxGases btx = concat (map PutUvarint (txGases btx))"

definition encodeTxTos :: "spanBatchTxs \<Rightarrow> bytes" where
  "encodeTxTos btx = concat (map (be_put 20) (txTos btx))"

definition encodeTxDatas :: "spanBatchTxs \<Rightarrow> bytes" where
  "encodeTxDatas btx = concat (txDatas btx)"

text \<open>The errors of the three bit lists are wrapped; writing to a buffer does not fail.\<close>

definition wrap_err :: "string \<Rightarrow> 'a res \<Rightarrow> 'a res" where
  "wrap_err s r = (case r of Inl err \<Rightarrow> Inl (Wrap s err) | Inr x \<Rightarrow> Inr x)"

definition encode_txs :: "spanBatchTxs \<Rightarrow> bytes res go" where
  "encode_txs btx = do {
     creation \<leftarrow> encodeContractCreationBits btx;
     case wrap_err ''failed to encode contract creation bits'' creation of
       Inl err \<Rightarrow> Some (Inl err)
     | Inr creation \<Rightarrow> do {
         parity \<leftarrow> encodeYParityBits btx;
         case wrap_err ''failed to encode y-parity bits'' parity of
           Inl err \<Rightarrow> Some (Inl err)
         | Inr parity \<Rightarrow> do {
             protected \<leftarrow> encodeProtectedBits btx;
             case wrap_err ''failed to encode protected bits'' protected of
               Inl err \<Rightarrow> Some (Inl err)
             | Inr protected \<Rightarrow>
                 Some (Inr (creation @ parity @ encodeTxSigsRS btx @ encodeTxTos btx @ encodeTxDatas btx
                            @ encodeTxNonces btx @ encodeTxGases btx @ protected))
           }
       }
   }"

definition decodeContractCreationBits :: "spanBatchTxs \<Rightarrow> bytes \<Rightarrow> (spanBatchTxs \<times> bytes) res" where
  "decodeContractCreationBits btx r =
     (if totalBlockTxCount btx > MaxSpanBatchElementCount then Inl ErrTooBigSpanBatchSize
      else (case decodeSpanBatchBits r (totalBlockTxCount btx) of
              Inl err \<Rightarrow> Inl (Wrap ''failed to decode contract creation bits'' err)
            | Inr (bits, r) \<Rightarrow> Inr (btx\<lparr>contractCreationBits := Some bits\<rparr>, r)))"

definition decodeYParityBits :: "spanBatchTxs \<Rightarrow> bytes \<Rightarrow> (spanBatchTxs \<times> bytes) res" where
  "decodeYParityBits btx r =
     (case decodeSpanBatchBits r (totalBlockTxCount btx) of
        Inl err \<Rightarrow> Inl (Wrap ''failed to decode y-parity bits'' err)
      | Inr (bits, r) \<Rightarrow> Inr (btx\<lparr>yParityBits := Some bits\<rparr>, r))"

definition decodeProtectedBits :: "spanBatchTxs \<Rightarrow> bytes \<Rightarrow> (spanBatchTxs \<times> bytes) res" where
  "decodeProtectedBits btx r =
     (if totalLegacyTxCount btx > MaxSpanBatchElementCount then Inl ErrTooBigSpanBatchSize
      else (case decodeSpanBatchBits r (totalLegacyTxCount btx) of
              Inl err \<Rightarrow> Inl (Wrap ''failed to decode protected bits'' err)
            | Inr (bits, r) \<Rightarrow> Inr (btx\<lparr>protectedBits := Some bits\<rparr>, r)))"

definition read_sig :: "bytes \<Rightarrow> (spanBatchSignature \<times> bytes) res" where
  "read_sig r =
     (case ReadFull 32 r of
        Inl err \<Rightarrow> Inl (Wrap ''failed to read tx sig r'' err)
      | Inr (rb, r) \<Rightarrow>
          (case ReadFull 32 r of
             Inl err \<Rightarrow> Inl (Wrap ''failed to read tx sig s'' err)
           | Inr (sb, r) \<Rightarrow> Inr (\<lparr>sig_v = 0, sig_r = be_get rb, sig_s = be_get sb\<rparr>, r)))"

definition decodeTxSigsRS :: "spanBatchTxs \<Rightarrow> bytes \<Rightarrow> (spanBatchTxs \<times> bytes) res" where
  "decodeTxSigsRS btx r =
     (case read_many (unat (totalBlockTxCount btx)) read_sig r of
        Inl err \<Rightarrow> Inl err | Inr (sigs, r) \<Rightarrow> Inr (btx\<lparr>txSigs := sigs\<rparr>, r))"

definition read_uvarint_as :: "string \<Rightarrow> bytes \<Rightarrow> (u64 \<times> bytes) res" where
  "read_uvarint_as what r = wrap_err what (ReadUvarint r)"

definition decodeTxNonces :: "spanBatchTxs \<Rightarrow> bytes \<Rightarrow> (spanBatchTxs \<times> bytes) res" where
  "decodeTxNonces btx r =
     (case read_many (unat (totalBlockTxCount btx)) (read_uvarint_as ''failed to read tx nonce'') r of
        Inl err \<Rightarrow> Inl err | Inr (xs, r) \<Rightarrow> Inr (btx\<lparr>txNonces := xs\<rparr>, r))"

definition decodeTxGases :: "spanBatchTxs \<Rightarrow> bytes \<Rightarrow> (spanBatchTxs \<times> bytes) res" where
  "decodeTxGases btx r =
     (case read_many (unat (totalBlockTxCount btx)) (read_uvarint_as ''failed to read tx gas'') r of
        Inl err \<Rightarrow> Inl err | Inr (xs, r) \<Rightarrow> Inr (btx\<lparr>txGases := xs\<rparr>, r))"

definition read_address :: "bytes \<Rightarrow> (Address \<times> bytes) res" where
  "read_address r =
     (case ReadFull 20 r of
        Inl err \<Rightarrow> Inl (Wrap ''failed to read tx to address'' err) | Inr (b, r) \<Rightarrow> Inr (be_get b, r))"

definition decodeTxTos :: "spanBatchTxs \<Rightarrow> bytes \<Rightarrow> (spanBatchTxs \<times> bytes) res" where
  "decodeTxTos btx r =
     (case contractCreationCount btx of
        Inl err \<Rightarrow> Inl err
      | Inr created \<Rightarrow>
          (case read_many (unat (totalBlockTxCount btx - created)) read_address r of
             Inl err \<Rightarrow> Inl err | Inr (xs, r) \<Rightarrow> Inr (btx\<lparr>txTos := xs\<rparr>, r)))"

text \<open>\<open>ReadTxData\<close> (span_batch.go): a type byte below \<open>0x80\<close> is kept in front of the RLP list.\<close>

definition ReadTxData :: "TxLib \<Rightarrow> bytes \<Rightarrow> ((bytes \<times> byte) \<times> bytes) res" where
  "ReadTxData lib r =
     (case r of
        [] \<Rightarrow> Inl (Wrap ''failed to read tx initial byte'' EOF)
      | b # r' \<Rightarrow>
          (let (typ, head, body) = (if b \<le> 0x7f then (b, [b], r') else (0, [], r)) in
           case lib_rlpIsList lib body of
             Inl err \<Rightarrow>
               if errors_Is err ErrValueTooLarge then Inl ErrTooBigSpanBatchSize
               else Inl (Wrap ''failed to read tx RLP prefix'' err)
           | Inr is_list \<Rightarrow>
               if is_list then
                 (case lib_rlpRaw lib body of
                    Inl err \<Rightarrow> Inl (Wrap ''failed to read tx RLP payload'' err)
                  | Inr (txPayload, r) \<Rightarrow> Inr ((head @ txPayload, typ), r))
               else Inl (Msg ''tx RLP prefix type must be list'')))"

definition decodeTxDatas :: "TxLib \<Rightarrow> spanBatchTxs \<Rightarrow> bytes \<Rightarrow> (spanBatchTxs \<times> bytes) res" where
  "decodeTxDatas lib btx r =
     (case read_many (unat (totalBlockTxCount btx)) (ReadTxData lib) r of
        Inl err \<Rightarrow> Inl err
      | Inr (xs, r) \<Rightarrow>
          Inr (btx\<lparr>txDatas := map fst xs, txTypes := map snd xs,
                   totalLegacyTxCount := totalLegacyTxCount btx
                     + of_nat (length (filter (\<lambda>x. snd x = LegacyTxType) xs))\<rparr>, r))"

definition decode_txs :: "TxLib \<Rightarrow> spanBatchTxs \<Rightarrow> bytes \<Rightarrow> (spanBatchTxs \<times> bytes) res" where
  "decode_txs lib btx r =
     (case decodeContractCreationBits btx r of Inl err \<Rightarrow> Inl err | Inr (btx, r) \<Rightarrow>
     (case decodeYParityBits btx r of Inl err \<Rightarrow> Inl err | Inr (btx, r) \<Rightarrow>
     (case decodeTxSigsRS btx r of Inl err \<Rightarrow> Inl err | Inr (btx, r) \<Rightarrow>
     (case decodeTxTos btx r of Inl err \<Rightarrow> Inl err | Inr (btx, r) \<Rightarrow>
     (case decodeTxDatas lib btx r of Inl err \<Rightarrow> Inl err | Inr (btx, r) \<Rightarrow>
     (case decodeTxNonces btx r of Inl err \<Rightarrow> Inl err | Inr (btx, r) \<Rightarrow>
     (case decodeTxGases btx r of Inl err \<Rightarrow> Inl err | Inr (btx, r) \<Rightarrow>
      decodeProtectedBits btx r)))))))"

section \<open>Recovering the signatures and the transactions\<close>

text \<open>\<open>chainID.Uint64()\<close> are the low 64 bits.\<close>

fun recover_loop :: "int \<Rightarrow> spanBatchTxs \<Rightarrow> byte list \<Rightarrow> nat \<Rightarrow> nat \<Rightarrow> spanBatchSignature list
    \<Rightarrow> spanBatchSignature list res go" where
  "recover_loop chainID btx [] idx protectedBitsIdx sigs = Some (Inr sigs)"
| "recover_loop chainID btx (ty # tys) idx protectedBitsIdx sigs = do {
     b \<leftarrow> Bit (yParityBits btx) idx;
     if ty = LegacyTxType then do {
       protectedBit \<leftarrow> Bit (protectedBits btx) protectedBitsIdx;
       let v = (if protectedBit = 0 then 27 + b else word_of_int chainID * 2 + 35 + b);
       recover_loop chainID btx tys (idx + 1) (protectedBitsIdx + 1) (sigs[idx := (sigs ! idx)\<lparr>sig_v := v\<rparr>])
     }
     else if ty = AccessListTxType \<or> ty = DynamicFeeTxType \<or> ty = SetCodeTxType then
       recover_loop chainID btx tys (idx + 1) protectedBitsIdx (sigs[idx := (sigs ! idx)\<lparr>sig_v := b\<rparr>])
     else Some (Inl (Msg ''invalid tx type''))
   }"

definition recoverV :: "int \<Rightarrow> spanBatchTxs \<Rightarrow> spanBatchTxs res go" where
  "recoverV chainID btx =
     (if length (txTypes btx) \<noteq> length (txSigs btx) then
        Some (Inl (Msg ''tx type length and tx sigs length mismatch''))
      else if protectedBits btx = None then Some (Inl (Msg ''dev error: protected bits not set''))
      else do {
        sigs \<leftarrow> recover_loop chainID btx (txTypes btx) 0 0 (txSigs btx);
        case sigs of Inl err \<Rightarrow> Some (Inl err) | Inr sigs \<Rightarrow> Some (Inr (btx\<lparr>txSigs := sigs\<rparr>))
      })"

definition full_tx :: "TxLib \<Rightarrow> int \<Rightarrow> spanBatchTxs \<Rightarrow> nat \<Rightarrow> nat \<Rightarrow> (bytes \<times> nat) res go" where
  "full_tx lib chainID btx idx toIdx = do {
     data \<leftarrow> at (txDatas btx) idx;
     case stx_UnmarshalBinary lib data of
       Inl err \<Rightarrow> Some (Inl err)
     | Inr stx \<Rightarrow> do {
         nonce \<leftarrow> at (txNonces btx) idx;
         gas \<leftarrow> at (txGases btx) idx;
         b \<leftarrow> Bit (contractCreationBits btx) idx;
         if b = 0 \<and> length (txTos btx) \<le> toIdx then Some (Inl (Msg ''tx to not enough''))
         else do {
           let (to, toIdx) = (if b = 0 then (Some (txTos btx ! toIdx), toIdx + 1) else (None, toIdx));
           sig \<leftarrow> at (txSigs btx) idx;
           tx \<leftarrow> convertToFullTx stx nonce gas to chainID (uint (sig_v sig)) (uint (sig_r sig)) (uint (sig_s sig));
           case lib_MarshalBinary lib tx of
             Inl err \<Rightarrow> Some (Inl err)
           | Inr encodedTx \<Rightarrow> Some (Inr (encodedTx, toIdx))
         }
       }
   }"

fun fullTxs_loop :: "TxLib \<Rightarrow> int \<Rightarrow> spanBatchTxs \<Rightarrow> nat \<Rightarrow> nat \<Rightarrow> nat \<Rightarrow> bytes list res go" where
  "fullTxs_loop lib chainID btx 0 idx toIdx = Some (Inr [])"
| "fullTxs_loop lib chainID btx (Suc n) idx toIdx = do {
     tx \<leftarrow> full_tx lib chainID btx idx toIdx;
     case tx of
       Inl err \<Rightarrow> Some (Inl err)
     | Inr (encodedTx, toIdx) \<Rightarrow> do {
         txs \<leftarrow> fullTxs_loop lib chainID btx n (idx + 1) toIdx;
         case txs of Inl err \<Rightarrow> Some (Inl err) | Inr txs \<Rightarrow> Some (Inr (encodedTx # txs))
       }
   }"

definition fullTxs :: "TxLib \<Rightarrow> int \<Rightarrow> spanBatchTxs \<Rightarrow> bytes list res go" where
  "fullTxs lib chainID btx = fullTxs_loop lib chainID btx (unat (totalBlockTxCount btx)) 0 0"

section \<open>Adding transactions\<close>

definition isProtectedV :: "u64 \<Rightarrow> byte \<Rightarrow> bool" where
  "isProtectedV v ty = (if ty = LegacyTxType then v \<noteq> 27 \<and> v \<noteq> 28 else True)"

definition convertVToYParity :: "u64 \<Rightarrow> byte \<Rightarrow> u64 res" where
  "convertVToYParity v ty =
     (if ty = LegacyTxType then
        (if isProtectedV v ty then Inr ((v - 35) AND 1) else Inr (v - 27))
      else if ty = AccessListTxType \<or> ty = DynamicFeeTxType \<or> ty = SetCodeTxType then Inr v
      else Inl (Msg ''invalid tx type''))"

text \<open>
  \<open>AddTxs\<close> updates the columns in place, so an error leaves the transactions before it, and part of
  the failing one, in the columns.
\<close>

definition add_tx :: "TxLib \<Rightarrow> int \<Rightarrow> nat \<Rightarrow> bytes \<Rightarrow> spanBatchTxs \<Rightarrow> (spanBatchTxs \<times> gerr option) go" where
  "add_tx lib chainID pos txBytes sbtx =
     (case lib_UnmarshalBinary lib txBytes of
        Inl err \<Rightarrow> Some (sbtx, Some (Msg ''failed to decode tx''))
      | Inr tx \<Rightarrow> do {
          sbtx \<leftarrow>
            (if tx_Type tx = LegacyTxType then do {
               bits \<leftarrow> SetBit (protectedBits sbtx) (unat (totalLegacyTxCount sbtx)) (of_bool (lib_Protected lib tx));
               Some (sbtx\<lparr>protectedBits := bits, totalLegacyTxCount := totalLegacyTxCount sbtx + 1\<rparr>)
             } else Some sbtx);
          if lib_Protected lib tx \<and> lib_ChainId lib tx \<noteq> chainID then
            Some (sbtx, Some (Msg ''protected tx has another chain ID''))
          else do {
            let txSig = \<lparr>sig_v = word_of_int (tx_V tx), sig_r = word_of_int (tx_R tx), sig_s = word_of_int (tx_S tx)\<rparr>;
            let sbtx = sbtx\<lparr>txSigs := txSigs sbtx @ [txSig],
                            txTos := txTos sbtx @ (case tx_To tx of None \<Rightarrow> [] | Some to \<Rightarrow> [to])\<rparr>;
            creation \<leftarrow> SetBit (contractCreationBits sbtx) pos (of_bool (tx_To tx = None));
            let sbtx = sbtx\<lparr>contractCreationBits := creation\<rparr>;
            case convertVToYParity (sig_v txSig) (tx_Type tx) of
              Inl err \<Rightarrow> Some (sbtx, Some err)
            | Inr yParityBit \<Rightarrow> do {
                parity \<leftarrow> SetBit (yParityBits sbtx) pos yParityBit;
                let sbtx = sbtx\<lparr>yParityBits := parity, txNonces := txNonces sbtx @ [tx_Nonce tx],
                                txGases := txGases sbtx @ [tx_Gas tx]\<rparr>;
                case newSpanBatchTx tx of
                  Inl err \<Rightarrow> Some (sbtx, Some err)
                | Inr stx \<Rightarrow>
                    (case stx_MarshalBinary lib stx of
                       Inl err \<Rightarrow> Some (sbtx, Some err)
                     | Inr txData \<Rightarrow>
                         Some (sbtx\<lparr>txDatas := txDatas sbtx @ [txData], txTypes := txTypes sbtx @ [tx_Type tx]\<rparr>,
                               None))
              }
          }
        })"

fun add_txs_loop :: "TxLib \<Rightarrow> int \<Rightarrow> nat \<Rightarrow> bytes list \<Rightarrow> spanBatchTxs \<Rightarrow> (spanBatchTxs \<times> gerr option) go" where
  "add_txs_loop lib chainID pos [] sbtx = Some (sbtx, None)"
| "add_txs_loop lib chainID pos (tx # txs) sbtx = do {
     (sbtx, err) \<leftarrow> add_tx lib chainID pos tx sbtx;
     case err of
       Some err \<Rightarrow> Some (sbtx, Some err)
     | None \<Rightarrow> add_txs_loop lib chainID (pos + 1) txs sbtx
   }"

definition AddTxs :: "TxLib \<Rightarrow> bytes list \<Rightarrow> int \<Rightarrow> spanBatchTxs \<Rightarrow> (spanBatchTxs \<times> gerr option) go" where
  "AddTxs lib txs chainID sbtx = do {
     (sbtx', err) \<leftarrow> add_txs_loop lib chainID (unat (totalBlockTxCount sbtx)) txs sbtx;
     case err of
       Some err \<Rightarrow> Some (sbtx', Some err)
     | None \<Rightarrow> Some (sbtx'\<lparr>totalBlockTxCount := totalBlockTxCount sbtx' + of_nat (length txs)\<rparr>, None)
   }"

definition newSpanBatchTxs :: "TxLib \<Rightarrow> bytes list \<Rightarrow> int \<Rightarrow> spanBatchTxs res go" where
  "newSpanBatchTxs lib txs chainID = do {
     (sbtxs, err) \<leftarrow> AddTxs lib txs chainID
        (zero_spanBatchTxs\<lparr>contractCreationBits := Some 0, yParityBits := Some 0, protectedBits := Some 0\<rparr>);
     case err of Some err \<Rightarrow> Some (Inl err) | None \<Rightarrow> Some (Inr sbtxs)
   }"

section \<open>Varints and bit lists are read back\<close>

lemma take_bit_self_iff: "take_bit n w = (w :: 'a::len word) \<longleftrightarrow> unat w < 2 ^ n"
proof -
  have "unat (take_bit n w) = take_bit n (unat w)" by (rule unsigned_take_bit_eq)
  then show ?thesis by (metis take_bit_nat_eq_self_iff unsigned_word_eqI)
qed

lemma unat_u64_bound: "unat (x :: u64) < 2 ^ 64"
proof -
  have "unat x < 2 ^ LENGTH(64)" by (rule unsigned_less)
  then show ?thesis by simp
qed

lemma uvarint_step:
  fixes x :: u64
  defines "y i \<equiv> drop_bit (7 * i) x"
  shows "y i < 0x80 \<Longrightarrow> take_bit (7 * i) x OR push_bit (7 * i) (ucast (ucast (y i) :: byte)) = x"
    "take_bit (7 * i) x OR push_bit (7 * i) (ucast ((ucast (y i) OR 0x80 :: byte) AND 0x7f)) = take_bit (7 * (i + 1)) x"
    "drop_bit 7 (y i) = y (i + 1)"
proof -
  have m: "bit (127 :: int) k \<longleftrightarrow> k < 7" for k
    using bit_mask_iff [of 7 k, where 'a = int] by (simp add: mask_eq_exp_minus_1)
  have h: "bit (128 :: int) k \<longleftrightarrow> k = 7" for k
    using bit_exp_iff [of 7 k, where 'a = int] by auto
  show "drop_bit 7 (y i) = y (i + 1)" by (simp add: y_def drop_bit_drop_bit algebra_simps)
  show "take_bit (7 * i) x OR push_bit (7 * i) (ucast ((ucast (y i) OR 0x80 :: byte) AND 0x7f)) = take_bit (7 * (i + 1)) x"
    by (rule bit_word_eqI) (auto simp: y_def bit_simps m h)
  assume "y i < 0x80"
  then have "take_bit 7 (y i) = y i" by (simp add: take_bit_self_iff word_less_nat_alt)
  then have b: "bit (y i) k \<Longrightarrow> k < 7" for k by (metis bit_take_bit_iff)
  have "bit x k \<Longrightarrow> 7 * i \<le> k \<Longrightarrow> k < 7 * i + 7" for k
    using b [of "k - 7 * i"] by (simp add: y_def bit_simps)
  then show "take_bit (7 * i) x OR push_bit (7 * i) (ucast (ucast (y i) :: byte)) = x"
    by (intro bit_word_eqI) (fastforce simp: y_def bit_simps)
qed

lemma unat_byte_of_u64: "unat (ucast (y :: u64) :: byte) = unat y mod 256"
  by (simp add: unsigned_ucast_eq take_bit_eq_mod)

lemma small_byte: "(y :: u64) < 0x80 \<Longrightarrow> (ucast y :: byte) < 0x80"
  unfolding word_less_nat_alt unat_byte_of_u64 by simp

lemma cont_byte: "\<not> ((ucast (y :: u64) OR 0x80 :: byte) < 0x80)"
proof -
  have h: "bit (128 :: int) k \<longleftrightarrow> k = 7" for k
    using bit_exp_iff [of 7 k, where 'a = int] by auto
  have "take_bit 7 (ucast y OR 0x80 :: byte) \<noteq> ucast y OR 0x80"
  proof
    assume "take_bit 7 (ucast y OR 0x80 :: byte) = ucast y OR 0x80"
    from arg_cong [OF this, of "\<lambda>b. bit b 7"] show False by (simp add: bit_simps h)
  qed
  then show ?thesis unfolding take_bit_self_iff word_less_nat_alt by simp
qed

lemma ReadUvarint_loop_Put:
  "i \<le> 9 \<Longrightarrow> ReadUvarint_loop (10 - i) i (take_bit (7 * i) x) (PutUvarint (drop_bit (7 * i) x) @ r) = Inr (x, r)"
proof (induction "9 - i" arbitrary: i)
  case 0
  then have i: "i = 9" by simp
  have "unat (drop_bit 63 x) = unat x div 2 ^ 63" by (simp add: drop_bit_eq_div unat_div)
  also have "\<dots> \<le> 1" using unat_u64_bound [of x] by simp
  finally have l: "drop_bit 63 x \<le> 1" by (simp add: word_le_nat_alt)
  then have "drop_bit 63 x < 0x80" by (simp add: word_le_nat_alt word_less_nat_alt)
  moreover have "\<not> (ucast (drop_bit 63 x) :: byte) > 1"
    using l unfolding word_less_nat_alt word_le_nat_alt unat_byte_of_u64 by simp
  ultimately show ?case
    using uvarint_step(1) [where x = x and i = 9] small_byte [of "drop_bit 63 x"] unfolding i by (simp add: PutUvarint.simps)
next
  case (Suc k)
  then have d: "10 - i = Suc (10 - (i + 1))" "i < 9" by simp_all
  show ?case
  proof (cases "drop_bit (7 * i) x < 0x80")
    case True
    then show ?thesis
      using uvarint_step(1) [where x = x and i = i] d small_byte [OF True] by (simp add: PutUvarint.simps)
  next
    case False
    have k: "k = 9 - (i + 1)" using Suc(2) by simp
    have "ReadUvarint_loop (10 - (i + 1)) (i + 1) (take_bit (7 * (i + 1)) x)
        (PutUvarint (drop_bit (7 * (i + 1)) x) @ r) = Inr (x, r)"
      using Suc(1) [OF k] d by simp
    moreover have "PutUvarint (drop_bit (7 * i) x)
        = (ucast (drop_bit (7 * i) x) OR 0x80) # PutUvarint (drop_bit (7 * (i + 1)) x)"
      using False unfolding uvarint_step(3) [where x = x and i = i, symmetric]
      by (simp only: PutUvarint.simps [of "drop_bit (7 * i) x"] if_False)
    ultimately show ?thesis
      unfolding d(1) using uvarint_step(2) [where x = x and i = i]
      by (simp only: ReadUvarint_loop.simps append_Cons list.case cont_byte if_False)
  qed
qed

lemma ReadUvarint_Put [simp]: "ReadUvarint (PutUvarint x @ r) = Inr (x, r)"
  using ReadUvarint_loop_Put [of 0 x r] by (simp add: ReadUvarint_def)

lemma BitLen_le: "BitLen n \<le> k \<longleftrightarrow> n < 2 ^ k"
proof (induction n arbitrary: k rule: BitLen.induct)
  case (1 n)
  show ?case
  proof (cases "n = 0")
    case False
    show ?thesis
    proof (cases k)
      case (Suc j)
      have "n div 2 < 2 ^ j \<longleftrightarrow> n < 2 ^ Suc j" by (simp add: div_less_iff_less_mult mult.commute)
      then show ?thesis using 1 [OF False, of j] False Suc by (simp add: BitLen.simps [of n])
    qed (use False in \<open>simp add: BitLen.simps [of n]\<close>)
  next
    case True
    then show ?thesis by (simp add: BitLen.simps [of 0])
  qed
qed

lemma unat_bitlist_bytes: "unat (bitlist_bytes L) = (unat L + 7) div 8"
proof -
  have q: "unat (L div 8) = unat L div 8" "unat (L mod 8) = unat L mod 8"
    by (simp_all add: unat_div unat_mod)
  have "L mod 8 = 0 \<longleftrightarrow> unat L mod 8 = 0" using q(2) by (metis unat_eq_0)
  moreover have "unat (L div 8 + 1) = unat L div 8 + 1"
    using unat_u64_bound [of L] by (subst unat_add_small) (simp_all add: q)
  ultimately show ?thesis unfolding bitlist_bytes_def Let_def by (simp only: q split: if_split) presburger
qed

lemma BitLen_bytes: "BitLen (be_to_nat bs) \<le> 8 * length bs"
  using be_to_nat_bound [of bs] by (simp add: BitLen_le power_mult)

lemma bits_fit: "(n :: nat) < 2 ^ unat L \<Longrightarrow> n < 256 ^ unat (bitlist_bytes L)"
proof -
  assume "n < 2 ^ unat L"
  moreover have "unat L \<le> 8 * ((unat L + 7) div 8)" by presburger
  then have "(2 :: nat) ^ unat L \<le> 2 ^ (8 * ((unat L + 7) div 8))" by (intro power_increasing) auto
  ultimately show ?thesis by (simp add: unat_bitlist_bytes power_mult)
qed

lemma encodeSpanBatchBits_Some:
  assumes "n < 2 ^ unat L"
  shows "encodeSpanBatchBits L (Some n) = Some (Inr (nat_to_be (unat (bitlist_bytes L)) n))"
proof -
  have l: "BitLen n \<le> unat L" using assms by (simp add: BitLen_le)
  then have "unat (of_nat (BitLen n) :: u64) \<le> unat L"
    using unat_u64_bound [of L] by (simp add: unat_of_nat_u64)
  then have "\<not> (of_nat (BitLen n) :: u64) > L" by (simp add: word_less_nat_alt)
  then show ?thesis by (simp add: encodeSpanBatchBits_def)
qed

lemma decodeSpanBatchBits_encoded:
  assumes "n < 2 ^ unat L"
  shows "decodeSpanBatchBits (nat_to_be (unat (bitlist_bytes L)) n @ r) L = Inr (n, r)"
proof -
  have l: "BitLen n \<le> unat L" using assms by (simp add: BitLen_le)
  then have "unat (of_nat (BitLen n) :: u64) \<le> unat L"
    using unat_u64_bound [of L] by (simp add: unat_of_nat_u64)
  then have "\<not> (of_nat (BitLen n) :: u64) > L" by (simp add: word_less_nat_alt)
  moreover have "be_to_nat (nat_to_be (unat (bitlist_bytes L)) n) = n"
    using bits_fit [OF assms] by simp
  ultimately show ?thesis by (simp add: decodeSpanBatchBits_def Let_def)
qed

text \<open>What a bit list of a bounded length decodes to has no bit beyond that length.\<close>

lemma decodeSpanBatchBits_bound:
  assumes "decodeSpanBatchBits r L = Inr (n, r')" "unat L < 2 ^ 32"
  shows "n < 2 ^ unat L"
proof -
  obtain buf where b: "ReadFull (unat (bitlist_bytes L)) r = Inr (buf, r')" "n = be_to_nat buf"
    "\<not> (of_nat (BitLen n) :: u64) > L"
    using assms(1) by (auto simp: decodeSpanBatchBits_def Let_def split: sum.splits if_splits)
  have "length buf = (unat L + 7) div 8"
    using ReadFull_InrD [OF b(1)] by (simp add: unat_bitlist_bytes)
  then have "BitLen n \<le> 8 * ((unat L + 7) div 8)" using BitLen_bytes [of buf] b(2) by simp
  also have "\<dots> < 2 ^ 64" using assms(2) by simp
  finally have "unat (of_nat (BitLen n) :: u64) = BitLen n" by (rule unat_of_nat_u64)
  with b(3) have "BitLen n \<le> unat L" by (simp add: not_less word_le_nat_alt)
  then show ?thesis by (simp add: BitLen_le)
qed

section \<open>The columns are read back\<close>

text \<open>The columns are those of \<open>n\<close> transactions; the RLP stream splits each encoded transaction
  from what follows and finds its type.\<close>

definition wf_columns :: "TxLib \<Rightarrow> spanBatchTxs \<Rightarrow> bool" where
  "wf_columns lib btx \<longleftrightarrow>
     (let n = unat (totalBlockTxCount btx) in
      totalBlockTxCount btx \<le> MaxSpanBatchElementCount \<and>
      (\<exists>c y p. contractCreationBits btx = Some c \<and> c < 2 ^ n \<and> yParityBits btx = Some y \<and> y < 2 ^ n \<and>
         protectedBits btx = Some p \<and> p < 2 ^ unat (totalLegacyTxCount btx) \<and>
         length (txTos btx) = length (filter (\<lambda>i. \<not> bit c i) [0..<n])) \<and>
      length (txSigs btx) = n \<and> length (txNonces btx) = n \<and> length (txGases btx) = n \<and>
      length (txDatas btx) = n \<and> length (txTypes btx) = n \<and>
      unat (totalLegacyTxCount btx) = length (filter (\<lambda>t. t = LegacyTxType) (txTypes btx)) \<and>
      (\<forall>(d, t) \<in> set (zip (txDatas btx) (txTypes btx)). \<forall>r. ReadTxData lib (d @ r) = Inr ((d, t), r)))"

lemma read_many_concat:
  assumes "\<And>x r. x \<in> set xs \<Longrightarrow> rd (enc x @ r) = Inr (x, r)"
  shows "read_many (length xs) rd (concat (map enc xs) @ r) = Inr (xs, r)"
  using assms by (induction xs) auto

lemma read_sigs:
  "read_many (length sigs) read_sig
     (concat (map (\<lambda>sig. be_put 32 (sig_r sig) @ be_put 32 (sig_s sig)) sigs) @ r)
   = Inr (map (\<lambda>sig. sig\<lparr>sig_v := 0\<rparr>) sigs, r)"
  by (induction sigs) (auto simp: read_sig_def be_get_put)

lemma read_datas:
  assumes "length ds = length ts" "\<forall>(d, t) \<in> set (zip ds ts). \<forall>r. ReadTxData lib (d @ r) = Inr ((d, t), r)"
  shows "read_many (length ds) (ReadTxData lib) (concat ds @ r) = Inr (zip ds ts, r)"
  using assms by (induction ds ts rule: list_induct2) auto

lemma count_bits:
  "sum_list (map (\<lambda>i. of_bool (bit c i)) [0..<n]) = (of_nat (length (filter (\<lambda>i. bit (c :: nat) i) [0..<n])) :: u64)"
  by (induction n) auto

lemma encode_txs_wf:
  assumes "wf_columns lib btx"
  obtains bs where "encode_txs btx = Some (Inr bs)"
  using assms
  by (auto simp: wf_columns_def Let_def encode_txs_def encodeContractCreationBits_def encodeYParityBits_def
      encodeProtectedBits_def encodeSpanBatchBits_Some wrap_err_def)

lemma decode_encode_txs:
  assumes "wf_columns lib btx" "encode_txs btx = Some (Inr bs)"
  shows "decode_txs lib (zero_spanBatchTxs\<lparr>totalBlockTxCount := totalBlockTxCount btx\<rparr>) (bs @ r)
    = Inr (btx\<lparr>txSigs := map (\<lambda>sig. sig\<lparr>sig_v := 0\<rparr>) (txSigs btx)\<rparr>, r)"
proof -
  let ?L = "totalBlockTxCount btx" and ?n = "unat (totalBlockTxCount btx)"
  let ?M = "totalLegacyTxCount btx"
  note wf = assms(1) [unfolded wf_columns_def Let_def]
  obtain c y p where cyp: "contractCreationBits btx = Some c" "c < 2 ^ ?n" "yParityBits btx = Some y" "y < 2 ^ ?n"
    "protectedBits btx = Some p" "p < 2 ^ unat ?M"
    "length (txTos btx) = length (filter (\<lambda>i. \<not> bit c i) [0..<?n])"
    using wf by blast
  have len: "length (txSigs btx) = ?n" "length (txNonces btx) = ?n" "length (txGases btx) = ?n"
    "length (txDatas btx) = ?n" "length (txTypes btx) = ?n"
    and small: "\<not> ?L > MaxSpanBatchElementCount"
    and leg: "unat ?M = length (filter (\<lambda>t. t = LegacyTxType) (txTypes btx))"
    and datas: "\<forall>(d, t) \<in> set (zip (txDatas btx) (txTypes btx)). \<forall>r. ReadTxData lib (d @ r) = Inr ((d, t), r)"
    using wf by (auto simp: not_less)
  have bs: "bs = nat_to_be (unat (bitlist_bytes ?L)) c @ nat_to_be (unat (bitlist_bytes ?L)) y
      @ encodeTxSigsRS btx @ encodeTxTos btx @ encodeTxDatas btx @ encodeTxNonces btx @ encodeTxGases btx
      @ nat_to_be (unat (bitlist_bytes ?M)) p"
    using assms(2)
    by (simp add: encode_txs_def encodeContractCreationBits_def encodeYParityBits_def encodeProtectedBits_def
        cyp encodeSpanBatchBits_Some wrap_err_def)
  have M: "\<not> ?M > MaxSpanBatchElementCount"
  proof -
    have "unat ?M \<le> ?n" using leg len(5) length_filter_le by metis
    then show ?thesis using small by (simp add: word_less_nat_alt)
  qed
  have tos: "unat (?L - of_nat (length (filter (bit c) [0..<?n]))) = length (txTos btx)"
  proof -
    have s: "length (filter (bit c) [0..<?n]) + length (txTos btx) = ?n"
      unfolding cyp(7) using sum_length_filter_compl [of "bit c" "[0..<?n]"] by simp
    then have "length (filter (bit c) [0..<?n]) < 2 ^ 64" using unat_u64_bound [of ?L] by linarith
    then have u: "unat (of_nat (length (filter (bit c) [0..<?n])) :: u64) = length (filter (bit c) [0..<?n])"
      by (rule unat_of_nat_u64)
    then have "unat (?L - of_nat (length (filter (bit c) [0..<?n]))) = ?n - length (filter (bit c) [0..<?n])"
      using s by (subst unat_sub) (simp_all add: word_le_nat_alt)
    then show ?thesis using s by simp
  qed
  have tc: "length (filter (\<lambda>x. snd x = LegacyTxType) (zip (txDatas btx) (txTypes btx))) = unat ?M"
  proof -
    have "map snd (zip (txDatas btx) (txTypes btx)) = txTypes btx" using len by simp
    then show ?thesis unfolding leg
      by (metis (mono_tags, lifting) comp_apply filter_cong filter_map length_map)
  qed
  have rs: "read_many ?n read_sig (encodeTxSigsRS btx @ r) = Inr (map (\<lambda>sig. sig\<lparr>sig_v := 0\<rparr>) (txSigs btx), r)" for r
    using read_sigs [of "txSigs btx" r] len(1) by (simp add: encodeTxSigsRS_def)
  have rt: "read_many (length (txTos btx)) read_address (encodeTxTos btx @ r) = Inr (txTos btx, r)" for r
    unfolding encodeTxTos_def by (rule read_many_concat) (simp add: read_address_def be_get_put)
  have rd: "read_many ?n (ReadTxData lib) (encodeTxDatas btx @ r) = Inr (zip (txDatas btx) (txTypes btx), r)" for r
    using read_datas [of "txDatas btx" "txTypes btx" lib r] len datas by (simp add: encodeTxDatas_def)
  have rn: "read_many ?n (read_uvarint_as s) (concat (map PutUvarint xs) @ r) = Inr (xs, r)"
    if "length xs = ?n" for s xs r
    using read_many_concat [of xs "read_uvarint_as s" PutUvarint r] that
    by (simp add: read_uvarint_as_def wrap_err_def)
  show ?thesis
    unfolding bs append_assoc decode_txs_def
    by (simp add: decodeContractCreationBits_def decodeYParityBits_def decodeTxSigsRS_def decodeTxTos_def
        decodeTxDatas_def decodeTxNonces_def decodeTxGases_def decodeProtectedBits_def zero_spanBatchTxs_def
        contractCreationCount_def count_bits tos small M rs rt rd rn encodeTxNonces_def encodeTxGases_def
        decodeSpanBatchBits_encoded cyp(1-6) len tc)
qed

text \<open>The columns of a span batch's transactions survive their encoding: well-formed columns encode
  without error or panic, and decoding what was written, whatever follows it, gives back every column,
  except the v of the signatures, which is not written and is recovered later, and leaves what follows.\<close>

theorem columns_roundtrip:
  assumes "wf_columns lib btx"
  shows "\<exists>bs. encode_txs btx = Some (Inr bs) \<and>
     (\<forall>r. decode_txs lib (zero_spanBatchTxs\<lparr>totalBlockTxCount := totalBlockTxCount btx\<rparr>) (bs @ r)
        = Inr (btx\<lparr>txSigs := map (\<lambda>sig. sig\<lparr>sig_v := 0\<rparr>) (txSigs btx)\<rparr>, r))"
  using encode_txs_wf [OF assms] decode_encode_txs [OF assms] by metis

definition example_lib :: TxLib where
  "example_lib =
     \<lparr>lib_UnmarshalBinary = (\<lambda>_. Inl EOF), lib_MarshalBinary = (\<lambda>_. Inr [7]), lib_Protected = (\<lambda>_. True),
      lib_ChainId = tx_ChainID, lib_rlpEncode = (\<lambda>_. Inr [0xc0]),
      lib_rlpDecode = (\<lambda>ty _. Inr (if ty = SetCodeTxType then spanBatchSetCodeTxData 1 2 3 [] [] []
                                 else spanBatchLegacyTxData 1 2 [])),
      lib_rlpIsList = (\<lambda>_. Inr True), lib_rlpRaw = (\<lambda>r. Inr (take 1 r, drop 1 r))\<rparr>"

definition example_columns :: spanBatchTxs where
  "example_columns =
     \<lparr>totalBlockTxCount = 1, contractCreationBits = Some 0, yParityBits = Some 1,
      txSigs = [\<lparr>sig_v = 28, sig_r = 5, sig_s = 6\<rparr>], txNonces = [300], txGases = [21000], txTos = [9],
      txDatas = [[0xc0]], protectedBits = Some 0, txTypes = [0], totalLegacyTxCount = 1\<rparr>"

theorem columns_roundtrip_witness:
  "\<exists>bs. encode_txs example_columns = Some (Inr bs) \<and>
     (\<forall>r. decode_txs example_lib (zero_spanBatchTxs\<lparr>totalBlockTxCount := totalBlockTxCount example_columns\<rparr>) (bs @ r)
        = Inr (example_columns\<lparr>txSigs := map (\<lambda>sig. sig\<lparr>sig_v := 0\<rparr>) (txSigs example_columns)\<rparr>, r))"
  by (rule columns_roundtrip)
    (simp add: wf_columns_def example_columns_def example_lib_def ReadTxData_def MaxSpanBatchElementCount_def
      LegacyTxType_def)

text \<open>A SetCode transaction of a span batch can crash the node: rebuilding the transactions panics
  when the first one decodes to a SetCode transaction and is marked as a contract creation, or when its
  tip cap does not fit in 256 bits.\<close>

theorem fullTxs_SetCode_panics:
  assumes "txDatas btx = d # ds" "txNonces btx \<noteq> []" "txGases btx \<noteq> []" "txSigs btx \<noteq> []" "txTos btx \<noteq> []"
    and "totalBlockTxCount btx \<noteq> 0" "contractCreationBits btx = Some c"
    and "stx_UnmarshalBinary lib d = Inr (spanBatchSetCodeTxData val tip fee data al auth)"
    and "bit c 0 \<or> 2 ^ 256 \<le> tip"
  shows "fullTxs lib chainID btx = None"
proof -
  obtain n where n: "unat (totalBlockTxCount btx) = Suc n"
    using assms(6) by (metis not0_implies_Suc unat_eq_0)
  have "full_tx lib chainID btx 0 0 = None"
    using assms(1-5,7-9)
    by (cases "bit c 0") (auto simp: full_tx_def at_def Bit_def MustFromBig_def bind_eq_None_conv)
  then show ?thesis by (simp add: fullTxs_def n)
qed

theorem fullTxs_SetCode_panics_witness:
  "fullTxs example_lib 1 (example_columns\<lparr>contractCreationBits := Some 1, txDatas := [[4, 0xc0]], txTypes := [4]\<rparr>) = None"
  by (rule fullTxs_SetCode_panics [where c = 1 and d = "[4, 0xc0]" and tip = 2 and val = 1 and fee = 3
        and data = "[]" and al = "[]" and auth = "[]"])
    (simp_all add: example_columns_def example_lib_def stx_UnmarshalBinary_def stx_decodeTyped_def
      SetCodeTxType_def AccessListTxType_def DynamicFeeTxType_def bit_Suc_0_iff)

section \<open>Transactions survive their columns\<close>

text \<open>
  What a transaction accepted by the sequencer looks like: the fields its type does not have are
  zero, its signature values fit, its v is the one of its type and of the chain id, and the
  libraries decode what they encode.
\<close>

definition yparity :: "Transaction \<Rightarrow> bool" where
  "yparity tx = (if tx_Type tx = LegacyTxType then even (tx_V tx) else odd (tx_V tx))"

definition valid_v :: "TxLib \<Rightarrow> int \<Rightarrow> Transaction \<Rightarrow> bool" where
  "valid_v lib chainID tx \<longleftrightarrow>
     0 \<le> chainID \<and> 2 * chainID + 36 < 2 ^ 64 \<and>
     (if tx_Type tx = LegacyTxType then
        (if lib_Protected lib tx then tx_V tx = 2 * chainID + 35 \<or> tx_V tx = 2 * chainID + 36
         else tx_V tx = 27 \<or> tx_V tx = 28)
      else tx_V tx = 0 \<or> tx_V tx = 1) \<and>
     (lib_Protected lib tx \<longrightarrow> lib_ChainId lib tx = chainID)"

definition rebuilt :: "int \<Rightarrow> spanBatchTxData \<Rightarrow> Transaction \<Rightarrow> bool" where
  "rebuilt chainID stx tx \<longleftrightarrow>
     convertToFullTx stx (tx_Nonce tx) (tx_Gas tx) (tx_To tx) chainID (tx_V tx) (tx_R tx) (tx_S tx) = Some tx"

definition valid_tx :: "TxLib \<Rightarrow> int \<Rightarrow> bytes \<Rightarrow> Transaction \<Rightarrow> bool" where
  "valid_tx lib chainID bs tx \<longleftrightarrow>
     lib_UnmarshalBinary lib bs = Inr tx \<and> lib_MarshalBinary lib tx = Inr bs \<and> valid_v lib chainID tx \<and>
     0 \<le> tx_R tx \<and> tx_R tx < 2 ^ 256 \<and> 0 \<le> tx_S tx \<and> tx_S tx < 2 ^ 256 \<and>
     (\<exists>stx d. newSpanBatchTx tx = Inr stx \<and> rebuilt chainID stx tx \<and> lib_rlpEncode lib stx = Inr d \<and>
        d \<noteq> [] \<and> hd d > 0x7f \<and> lib_rlpDecode lib (tx_Type tx) d = Inr stx \<and>
        (\<forall>r. lib_rlpIsList lib (d @ r) = Inr True \<and> lib_rlpRaw lib (d @ r) = Inr (d, r)))"

definition sig_of :: "Transaction \<Rightarrow> spanBatchSignature" where
  "sig_of tx = \<lparr>sig_v = word_of_int (tx_V tx), sig_r = word_of_int (tx_R tx), sig_s = word_of_int (tx_S tx)\<rparr>"

definition tos :: "Transaction list \<Rightarrow> Address list" where
  "tos ts = concat (map (\<lambda>t. case tx_To t of None \<Rightarrow> [] | Some a \<Rightarrow> [a]) ts)"

definition legacies :: "Transaction list \<Rightarrow> nat" where
  "legacies ts = length (filter (\<lambda>t. tx_Type t = LegacyTxType) ts)"

definition bits_are :: "nat option \<Rightarrow> bool list \<Rightarrow> bool" where
  "bits_are bits bs \<longleftrightarrow> (\<exists>n. bits = Some n \<and> (\<forall>i. bit n i \<longleftrightarrow> i < length bs \<and> bs ! i))"

text \<open>The columns of a list of transactions with their encodings.\<close>

definition columns_of :: "TxLib \<Rightarrow> int \<Rightarrow> (bytes \<times> Transaction) list \<Rightarrow> spanBatchTxs \<Rightarrow> bool" where
  "columns_of lib chainID bts btx \<longleftrightarrow>
     (let ts = map snd bts in
      (\<forall>(b, t) \<in> set bts. valid_tx lib chainID b t) \<and>
      txSigs btx = map sig_of ts \<and> txTos btx = tos ts \<and> txNonces btx = map tx_Nonce ts \<and>
      txGases btx = map tx_Gas ts \<and> txTypes btx = map tx_Type ts \<and>
      list_all2 (\<lambda>d t. \<exists>stx. newSpanBatchTx t = Inr stx \<and> stx_MarshalBinary lib stx = Inr d) (txDatas btx) ts \<and>
      bits_are (contractCreationBits btx) (map (\<lambda>t. tx_To t = None) ts) \<and>
      bits_are (yParityBits btx) (map yparity ts) \<and>
      bits_are (protectedBits btx) (map (lib_Protected lib) (filter (\<lambda>t. tx_Type t = LegacyTxType) ts)) \<and>
      totalLegacyTxCount btx = of_nat (legacies ts))"

lemma bits_are_Nil: "bits_are (Some 0) []"
  by (simp add: bits_are_def)

lemma bits_are_snoc:
  assumes "bits_are (Some n) bs"
  shows "bits_are (Some (set_bit (length bs) n)) (bs @ [True])"
    "bits_are (Some (unset_bit (length bs) n)) (bs @ [False])"
proof -
  have n: "bit n i \<longleftrightarrow> i < length bs \<and> bs ! i" for i using assms by (simp add: bits_are_def)
  have a: "(i < length (bs @ [v]) \<and> (bs @ [v]) ! i) \<longleftrightarrow> (if i = length bs then v else bit n i)" for i v
    by (cases "i < length bs") (auto simp: nth_append n)
  show "bits_are (Some (set_bit (length bs) n)) (bs @ [True])"
    "bits_are (Some (unset_bit (length bs) n)) (bs @ [False])"
    unfolding bits_are_def a by (auto simp: bit_set_bit_iff bit_unset_bit_iff possible_bit_def)
qed

lemma SetBit_snoc:
  assumes "bits_are bits bs"
  obtains bits' where "SetBit bits (length bs) (of_bool b) = Some bits'" "bits_are bits' (bs @ [b])"
proof -
  obtain n where n: "bits = Some n" using assms by (auto simp: bits_are_def)
  show ?thesis
    using that bits_are_snoc [of n bs] assms unfolding n by (cases b) (simp_all add: SetBit_def)
qed

lemma bits_are_Bit: "bits_are bits bs \<Longrightarrow> i < length bs \<Longrightarrow> Bit bits i = Some (of_bool (bs ! i))"
  by (auto simp: bits_are_def Bit_def)

lemma newSpanBatchTx_type: "newSpanBatchTx tx = Inr stx \<Longrightarrow> txType stx = tx_Type tx"
  by (auto simp: newSpanBatchTx_def split: if_splits)

lemma newSpanBatchTx_types:
  "newSpanBatchTx tx = Inr stx \<Longrightarrow>
     tx_Type tx \<in> {LegacyTxType, AccessListTxType, DynamicFeeTxType, SetCodeTxType}"
  by (auto simp: newSpanBatchTx_def split: if_splits)

lemmas type_defs = LegacyTxType_def AccessListTxType_def DynamicFeeTxType_def SetCodeTxType_def

lemma stx_roundtrip:
  assumes "newSpanBatchTx tx = Inr stx" "lib_rlpEncode lib stx = Inr d" "d \<noteq> []" "hd d > 0x7f"
    and "lib_rlpDecode lib (tx_Type tx) d = Inr stx"
  obtains e where "stx_MarshalBinary lib stx = Inr e" "stx_UnmarshalBinary lib e = Inr stx"
proof (cases "tx_Type tx = LegacyTxType")
  case True
  then show ?thesis
    using assms newSpanBatchTx_type [OF assms(1)]
    by (intro that [of d]) (simp_all add: stx_MarshalBinary_def stx_UnmarshalBinary_def)
next
  case False
  have ty: "tx_Type tx \<in> {AccessListTxType, DynamicFeeTxType, SetCodeTxType}"
    using newSpanBatchTx_types [OF assms(1)] False by auto
  then have "\<not> tx_Type tx > 0x7f" by (auto simp: type_defs)
  moreover have "Suc 0 < length (tx_Type tx # d)" using assms(3) by simp
  ultimately show ?thesis
    using assms newSpanBatchTx_type [OF assms(1)] False ty
    by (intro that [of "tx_Type tx # d"])
      (auto simp: stx_MarshalBinary_def stx_UnmarshalBinary_def stx_decodeTyped_def type_defs)
qed

lemma and_1_double:
  "(2 * w AND 1 :: u64) = 0" "((2 * w + 1) AND 1 :: u64) = 1"
proof -
  show "(2 * w AND 1 :: u64) = 0"
    by (rule bit_word_eqI) (auto simp: bit_and_iff bit_1_iff bit_double_iff)
  have "even (2 * w)" by simp
  then show "((2 * w + 1) AND 1 :: u64) = 1"
    by (intro bit_word_eqI) (auto simp: bit_and_iff bit_1_iff bit_double_iff even_bit_succ_iff add.commute)
qed

lemma uint_small_u64: "0 \<le> n \<Longrightarrow> n < 2 ^ 64 \<Longrightarrow> uint (word_of_int n :: u64) = n"
  by (simp add: uint_word_of_int_eq take_bit_int_eq_self)

lemma valid_parity:
  assumes "valid_v lib chainID tx" "newSpanBatchTx tx = Inr stx"
  shows "convertVToYParity (word_of_int (tx_V tx)) (tx_Type tx) = Inr (of_bool (yparity tx))"
proof (cases "tx_Type tx = LegacyTxType")
  case True
  note v = assms(1) [unfolded valid_v_def]
  show ?thesis
  proof (cases "lib_Protected lib tx")
    case False
    with v True have "tx_V tx = 27 \<or> tx_V tx = 28" by auto
    with True show ?thesis by (auto simp: convertVToYParity_def isProtectedV_def yparity_def)
  next
    case p: True
    have u: "uint (word_of_int (tx_V tx) :: u64) = tx_V tx"
      by (rule uint_small_u64) (use v True p in auto)
    have n: "(word_of_int (tx_V tx) :: u64) \<noteq> 27" "(word_of_int (tx_V tx) :: u64) \<noteq> 28"
      using u v True p by (auto dest: arg_cong [where f = uint])
    have "tx_V tx = 2 * chainID + 35 \<or> tx_V tx = 2 * chainID + 36" using v True p by auto
    then consider "tx_V tx = 2 * chainID + 35" | "tx_V tx = 2 * chainID + 36" by blast
    then have "((word_of_int (tx_V tx) :: u64) - 35) AND 1 = of_bool (yparity tx)"
    proof cases
      case 1
      have "(word_of_int (2 * chainID + 35) - 35 :: u64) = 2 * word_of_int chainID" by simp
      then show ?thesis by (simp only: 1 and_1_double) (simp add: yparity_def True 1)
    next
      case 2
      have "(word_of_int (2 * chainID + 36) - 35 :: u64) = 2 * word_of_int chainID + 1" by simp
      then show ?thesis by (simp only: 2 and_1_double) (simp add: yparity_def True 2)
    qed
    with n True show ?thesis by (simp add: convertVToYParity_def isProtectedV_def)
  qed
next
  case False
  note v = assms(1) [unfolded valid_v_def]
  with False have "tx_V tx = 0 \<or> tx_V tx = 1" by auto
  moreover have "tx_Type tx \<in> {AccessListTxType, DynamicFeeTxType, SetCodeTxType}"
    using newSpanBatchTx_types [OF assms(2)] False by auto
  ultimately show ?thesis using False by (auto simp: convertVToYParity_def yparity_def)
qed

text \<open>The v that is recovered from the parity and the protection bit.\<close>

lemma recovered_v:
  assumes "valid_v lib chainID tx"
  shows "word_of_int (tx_V tx) =
    (if tx_Type tx = LegacyTxType then
       (if lib_Protected lib tx then word_of_int chainID * 2 + 35 + of_bool (yparity tx)
        else 27 + of_bool (yparity tx))
     else of_bool (yparity tx) :: u64)"
  using assms by (auto simp: valid_v_def yparity_def split: if_splits)

text \<open>Adding a valid transaction.\<close>

lemma columns_empty:
  "columns_of lib chainID [] (zero_spanBatchTxs\<lparr>contractCreationBits := Some 0, yParityBits := Some 0,
     protectedBits := Some 0\<rparr>)"
  by (simp add: columns_of_def zero_spanBatchTxs_def tos_def legacies_def bits_are_Nil)

lemma add_tx_columns:
  assumes "columns_of lib chainID bts btx" "valid_tx lib chainID b t" "length bts < 2 ^ 64"
  obtains btx' where "add_tx lib chainID (length bts) b btx = Some (btx', None)"
    "columns_of lib chainID (bts @ [(b, t)]) btx'" "totalBlockTxCount btx' = totalBlockTxCount btx"
proof -
  let ?ts = "map snd bts"
  note c = assms(1) [unfolded columns_of_def Let_def]
  obtain stx d where tx: "newSpanBatchTx t = Inr stx" "lib_rlpEncode lib stx = Inr d" "d \<noteq> []" "hd d > 0x7f"
    "lib_rlpDecode lib (tx_Type t) d = Inr stx"
    using assms(2) by (auto simp: valid_tx_def)
  obtain e where e: "stx_MarshalBinary lib stx = Inr e" using stx_roundtrip [OF tx] by blast
  have v: "valid_v lib chainID t" "lib_UnmarshalBinary lib b = Inr t" using assms(2) by (auto simp: valid_tx_def)
  have chain: "\<not> (lib_Protected lib t \<and> lib_ChainId lib t \<noteq> chainID)" using v(1) by (auto simp: valid_v_def)
  have leg: "unat (totalLegacyTxCount btx) = length (map (lib_Protected lib) (filter (\<lambda>t. tx_Type t = LegacyTxType) ?ts))"
  proof -
    have "legacies ?ts \<le> length ?ts" unfolding legacies_def by (rule length_filter_le)
    then have "legacies ?ts < 2 ^ 64" using assms(3) by simp
    then show ?thesis using c by (simp add: unat_of_nat_u64) (simp add: legacies_def)
  qed
  obtain bits1 where b1: "SetBit (protectedBits btx) (unat (totalLegacyTxCount btx)) (of_bool (lib_Protected lib t)) = Some bits1"
    "bits_are bits1 (map (lib_Protected lib) (filter (\<lambda>t. tx_Type t = LegacyTxType) ?ts) @ [lib_Protected lib t])"
    using SetBit_snoc [of "protectedBits btx" "map (lib_Protected lib) (filter (\<lambda>t. tx_Type t = LegacyTxType) ?ts)"] c
    unfolding leg by blast
  obtain bits2 where b2: "SetBit (contractCreationBits btx) (length bts) (of_bool (tx_To t = None)) = Some bits2"
    "bits_are bits2 (map (\<lambda>t. tx_To t = None) ?ts @ [tx_To t = None])"
    using SetBit_snoc [of "contractCreationBits btx" "map (\<lambda>t. tx_To t = None) ?ts"] c by auto
  obtain bits3 where b3: "SetBit (yParityBits btx) (length bts) (of_bool (yparity t)) = Some bits3"
    "bits_are bits3 (map yparity ?ts @ [yparity t])"
    using SetBit_snoc [of "yParityBits btx" "map yparity ?ts"] c by auto
  define btx1 where "btx1 = (if tx_Type t = LegacyTxType
    then btx\<lparr>protectedBits := bits1, totalLegacyTxCount := totalLegacyTxCount btx + 1\<rparr> else btx)"
  define btx' where "btx' = btx1\<lparr>txSigs := txSigs btx1 @ [sig_of t],
     txTos := txTos btx1 @ (case tx_To t of None \<Rightarrow> [] | Some a \<Rightarrow> [a]), contractCreationBits := bits2,
     yParityBits := bits3, txNonces := txNonces btx1 @ [tx_Nonce t], txGases := txGases btx1 @ [tx_Gas t],
     txDatas := txDatas btx1 @ [e], txTypes := txTypes btx1 @ [tx_Type t]\<rparr>"
  have "add_tx lib chainID (length bts) b btx = Some (btx', None)"
    using b1(1) b2(1) b3(1) chain v(2) tx(1) e valid_parity [OF v(1) tx(1)]
    by (cases "lib_Protected lib t") (simp_all add: add_tx_def btx'_def btx1_def sig_of_def Let_def)
  moreover have "columns_of lib chainID (bts @ [(b, t)]) btx'"
    using c b1(2) b2(2) b3(2) assms(2) tx(1) e
    by (auto simp: columns_of_def btx'_def btx1_def tos_def legacies_def intro!: list_all2_appendI)
  moreover have "totalBlockTxCount btx' = totalBlockTxCount btx" by (simp add: btx'_def btx1_def)
  ultimately show ?thesis by (rule that)
qed

lemma add_txs_loop_columns:
  assumes "columns_of lib chainID bts btx" "list_all2 (valid_tx lib chainID) bs ts"
    and "length bts + length bs < 2 ^ 64"
  obtains btx' where "add_txs_loop lib chainID (length bts) bs btx = Some (btx', None)"
    "columns_of lib chainID (bts @ zip bs ts) btx'" "totalBlockTxCount btx' = totalBlockTxCount btx"
  using assms
proof (induction bs arbitrary: ts bts btx thesis)
  case Nil
  then show ?case by simp
next
  case (Cons b bs)
  obtain t ts' where ts: "ts = t # ts'" "valid_tx lib chainID b t" "list_all2 (valid_tx lib chainID) bs ts'"
    using Cons.prems(3) by (auto simp: list_all2_Cons1)
  have l: "length bts < 2 ^ 64" using Cons.prems(4) by simp
  obtain btx1 where b1: "add_tx lib chainID (length bts) b btx = Some (btx1, None)"
    "columns_of lib chainID (bts @ [(b, t)]) btx1" "totalBlockTxCount btx1 = totalBlockTxCount btx"
    using add_tx_columns [OF Cons.prems(2) ts(2) l] by blast
  have l': "length (bts @ [(b, t)]) + length bs < 2 ^ 64" using Cons.prems(4) by simp
  obtain btx2 where "add_txs_loop lib chainID (length (bts @ [(b, t)])) bs btx1 = Some (btx2, None)"
    "columns_of lib chainID ((bts @ [(b, t)]) @ zip bs ts') btx2" "totalBlockTxCount btx2 = totalBlockTxCount btx1"
    using Cons.IH [OF _ b1(2) ts(3) l'] by blast
  with b1 ts show ?case by (intro Cons.prems(1) [of btx2]) simp_all
qed

text \<open>All the columns: the total is the number of transactions.\<close>

definition complete_columns :: "TxLib \<Rightarrow> int \<Rightarrow> (bytes \<times> Transaction) list \<Rightarrow> spanBatchTxs \<Rightarrow> bool" where
  "complete_columns lib chainID bts btx \<longleftrightarrow>
     columns_of lib chainID bts btx \<and> totalBlockTxCount btx = of_nat (length bts) \<and> length bts < 2 ^ 63"

lemma columns_of_total [simp]:
  "columns_of lib chainID bts (btx\<lparr>totalBlockTxCount := n\<rparr>) = columns_of lib chainID bts btx"
  by (simp add: columns_of_def)

lemma AddTxs_columns:
  assumes "complete_columns lib chainID bts btx" "list_all2 (valid_tx lib chainID) bs ts"
    and "length bts + length bs < 2 ^ 63"
  obtains btx' where "AddTxs lib bs chainID btx = Some (btx', None)"
    "complete_columns lib chainID (bts @ zip bs ts) btx'"
proof -
  have n: "unat (totalBlockTxCount btx) = length bts"
    using assms(1) by (simp add: complete_columns_def unat_of_nat_u64)
  have l: "length bts + length bs < 2 ^ 64" using assms(3) by simp
  obtain btx' where "add_txs_loop lib chainID (length bts) bs btx = Some (btx', None)"
    "columns_of lib chainID (bts @ zip bs ts) btx'" "totalBlockTxCount btx' = totalBlockTxCount btx"
    using add_txs_loop_columns [OF _ assms(2) l] assms(1) unfolding complete_columns_def by metis
  moreover have "length ts = length bs" using assms(2) by (simp add: list_all2_lengthD)
  moreover have "totalBlockTxCount btx = of_nat (length bts)" using assms(1) by (simp add: complete_columns_def)
  moreover have "unat (of_nat (length bts) :: u64) = length bts" using assms(3) by (simp add: unat_of_nat_u64)
  ultimately show ?thesis
    using assms(3)
    by (intro that [of "btx'\<lparr>totalBlockTxCount := totalBlockTxCount btx' + of_nat (length bs)\<rparr>"])
      (simp_all only: AddTxs_def n, simp_all add: complete_columns_def)
qed

lemma newSpanBatchTxs_columns:
  "\<exists>btx. newSpanBatchTxs lib [] chainID = Some (Inr btx) \<and> complete_columns lib chainID [] btx"
  using columns_empty [of lib chainID]
  by (simp add: newSpanBatchTxs_def AddTxs_def complete_columns_def) (simp add: zero_spanBatchTxs_def)

text \<open>Recovering the v of the signatures.\<close>

lemma recover_loop_columns:
  assumes "columns_of lib chainID bts btx" "length sigs = length bts" "i \<le> length bts"
    and "\<forall>j < length bts. sigs ! j = (sig_of (snd (bts ! j)))\<lparr>sig_v := sig_v (sigs ! j)\<rparr>"
    and "\<forall>j < i. sigs ! j = sig_of (snd (bts ! j))"
  shows "recover_loop chainID btx (map tx_Type (drop i (map snd bts))) i (legacies (take i (map snd bts))) sigs
    = Some (Inr (map sig_of (map snd bts)))"
  using assms(2-)
proof (induction "length bts - i" arbitrary: i sigs)
  case 0
  then have "sigs = map sig_of (map snd bts)" by (intro nth_equalityI) auto
  with 0 show ?case by simp
next
  case (Suc k)
  let ?ts = "map snd bts" let ?t = "snd (bts ! i)"
  have i: "i < length bts" using Suc(2) by simp
  note c = assms(1) [unfolded columns_of_def Let_def]
  have v: "valid_tx lib chainID (fst (bts ! i)) ?t"
    using c i nth_mem [OF i] by (cases "bts ! i") auto
  then have vv: "valid_v lib chainID ?t" and
    ty: "tx_Type ?t \<in> {LegacyTxType, AccessListTxType, DynamicFeeTxType, SetCodeTxType}"
    using newSpanBatchTx_types by (auto simp: valid_tx_def)
  have d: "drop i ?ts = ?t # drop (Suc i) ?ts" using i by (simp flip: Cons_nth_drop_Suc)
  have tk: "take (Suc i) ?ts = take i ?ts @ [?t]" using i by (simp add: take_Suc_conv_app_nth)
  have y: "Bit (yParityBits btx) i = Some (of_bool (yparity ?t))"
    using bits_are_Bit [of "yParityBits btx" "map yparity ?ts" i] c i by simp
  let ?v = "word_of_int (tx_V ?t) :: u64"
  let ?sigs = "sigs[i := (sigs ! i)\<lparr>sig_v := ?v\<rparr>]"
  have s: "(sigs ! i)\<lparr>sig_v := ?v\<rparr> = sig_of ?t"
    by (subst Suc(5) [rule_format, OF i]) (simp add: sig_of_def)
  have IH: "recover_loop chainID btx (map tx_Type (drop (Suc i) ?ts)) (Suc i) (legacies (take (Suc i) ?ts)) ?sigs
    = Some (Inr (map sig_of ?ts))"
  proof (rule Suc(1))
    show "k = length bts - Suc i" using Suc(2) by simp
    show "length ?sigs = length bts" "Suc i \<le> length bts" using Suc(3) i by simp_all
    show "\<forall>j<length bts. ?sigs ! j = (sig_of (snd (bts ! j)))\<lparr>sig_v := sig_v (?sigs ! j)\<rparr>"
    proof (intro allI impI)
      fix j assume "j < length bts"
      then show "?sigs ! j = (sig_of (snd (bts ! j)))\<lparr>sig_v := sig_v (?sigs ! j)\<rparr>"
        unfolding s using Suc(3,5) by (cases "j = i") simp_all
    qed
    show "\<forall>j<Suc i. ?sigs ! j = sig_of (snd (bts ! j))"
      unfolding s using Suc(3,6) i by (auto simp: nth_list_update less_Suc_eq)
  qed
  show ?case
  proof (cases "tx_Type ?t = LegacyTxType")
    case True
    let ?leg = "filter (\<lambda>t. tx_Type t = LegacyTxType)"
    have lt: "legacies (take i ?ts) < length (?leg ?ts)"
      "?leg ?ts ! legacies (take i ?ts) = ?t"
    proof -
      have "?ts = take i ?ts @ ?t # drop (Suc i) ?ts" using d by (metis append_take_drop_id)
      then have "?leg ?ts = ?leg (take i ?ts) @ ?t # ?leg (drop (Suc i) ?ts)"
        using True by (metis (mono_tags, lifting) filter.simps(2) filter_append)
      then show "legacies (take i ?ts) < length (?leg ?ts)" "?leg ?ts ! legacies (take i ?ts) = ?t"
        by (simp_all add: legacies_def)
    qed
    have p: "Bit (protectedBits btx) (legacies (take i ?ts)) = Some (of_bool (lib_Protected lib ?t))"
      using bits_are_Bit [of "protectedBits btx" "map (lib_Protected lib) (?leg ?ts)" "legacies (take i ?ts)"] c lt by simp
    have "legacies (take (Suc i) ?ts) = legacies (take i ?ts) + 1" unfolding tk by (simp add: legacies_def True)
    with IH recovered_v [OF vv] show ?thesis
      unfolding d by (cases "yparity ?t"; cases "lib_Protected lib ?t") (simp_all add: y p True Let_def)
  next
    case False
    have "legacies (take (Suc i) ?ts) = legacies (take i ?ts)" unfolding tk by (simp add: legacies_def False)
    with IH recovered_v [OF vv] ty False show ?thesis unfolding d by (auto simp: y)
  qed
qed

lemma recoverV_columns:
  assumes "columns_of lib chainID bts btx" "length vs = length bts"
  shows "recoverV chainID (btx\<lparr>txSigs := map2 (\<lambda>sig v. sig\<lparr>sig_v := v\<rparr>) (txSigs btx) vs\<rparr>) = Some (Inr btx)"
proof -
  let ?ts = "map snd bts" and ?sigs = "map2 (\<lambda>sig v. sig\<lparr>sig_v := v\<rparr>) (txSigs btx) vs"
  note c = assms(1) [unfolded columns_of_def Let_def]
  have c': "columns_of lib chainID bts (btx\<lparr>txSigs := txSigs btx\<rparr>)" using assms(1) by simp
  have e: "recover_loop chainID (btx\<lparr>txSigs := sg\<rparr>) tys i p sigs = recover_loop chainID btx tys i p sigs"
    for sg tys i p sigs
  proof (induction tys arbitrary: i p sigs)
    case (Cons ty tys)
    then show ?case
      by (cases "Bit (yParityBits btx) i"; cases "Bit (protectedBits btx) p") (simp_all add: Let_def)
  qed simp
  have "recover_loop chainID btx (map tx_Type (drop 0 ?ts)) 0 (legacies (take 0 ?ts)) ?sigs = Some (Inr (map sig_of ?ts))"
    by (rule recover_loop_columns [OF assms(1)]) (use c assms(2) in auto)
  then have "recover_loop chainID btx (txTypes btx) 0 0 ?sigs = Some (Inr (txSigs btx))"
    using c by (simp add: legacies_def)
  moreover have "protectedBits btx \<noteq> None" using c by (auto simp: bits_are_def)
  moreover have "length (txTypes btx) = length ?sigs" using c assms(2) by simp
  ultimately show ?thesis by (simp add: recoverV_def e)
qed

text \<open>Rebuilding the transactions.\<close>

lemma tos_Cons: "tos (t # ts) = (case tx_To t of None \<Rightarrow> [] | Some a \<Rightarrow> [a]) @ tos ts"
  by (simp add: tos_def)

lemma tos_snoc: "tos (ts @ [t]) = tos ts @ (case tx_To t of None \<Rightarrow> [] | Some a \<Rightarrow> [a])"
  by (simp add: tos_def)

lemma full_tx_columns:
  assumes "columns_of lib chainID bts btx" "i < length bts"
  shows "full_tx lib chainID btx i (length (tos (take i (map snd bts))))
    = Some (Inr (fst (bts ! i), length (tos (take (Suc i) (map snd bts)))))"
proof -
  let ?ts = "map snd bts" let ?t = "snd (bts ! i)" let ?k = "length (tos (take i ?ts))"
  note c = assms(1) [unfolded columns_of_def Let_def]
  have v: "valid_tx lib chainID (fst (bts ! i)) ?t"
    using c nth_mem [OF assms(2)] by (cases "bts ! i") auto
  then obtain stx d where tx: "newSpanBatchTx ?t = Inr stx" "rebuilt chainID stx ?t" "lib_rlpEncode lib stx = Inr d"
    "d \<noteq> []" "hd d > 0x7f" "lib_rlpDecode lib (tx_Type ?t) d = Inr stx"
    and ms: "lib_MarshalBinary lib ?t = Inr (fst (bts ! i))"
    by (auto simp: valid_tx_def)
  obtain e where e: "stx_MarshalBinary lib stx = Inr e" "stx_UnmarshalBinary lib e = Inr stx"
    using stx_roundtrip [OF tx(1,3-6)] by blast
  have l2: "list_all2 (\<lambda>d t. \<exists>stx. newSpanBatchTx t = Inr stx \<and> stx_MarshalBinary lib stx = Inr d) (txDatas btx) ?ts"
    using c by simp
  have ds: "length (txDatas btx) = length bts" "txDatas btx ! i = e"
    using list_all2_lengthD [OF l2] list_all2_nthD2 [OF l2, of i] assms(2) tx(1) e(1) by auto
  have cr: "Bit (contractCreationBits btx) i = Some (of_bool (tx_To ?t = None))"
    using bits_are_Bit [of "contractCreationBits btx" "map (\<lambda>t. tx_To t = None) ?ts" i] c assms(2) by simp
  have tk: "take (Suc i) ?ts = take i ?ts @ [?t]" using assms(2) by (simp add: take_Suc_conv_app_nth)
  have "?ts = take i ?ts @ ?t # drop (Suc i) ?ts"
    using id_take_nth_drop [of i ?ts] assms(2) by simp
  then have "tos ?ts = tos (take i ?ts) @ tos (?t # drop (Suc i) ?ts)" by (metis concat_append map_append tos_def)
  then have to: "txTos btx = tos (take i ?ts) @ (case tx_To ?t of None \<Rightarrow> [] | Some a \<Rightarrow> [a]) @ tos (drop (Suc i) ?ts)"
    using c by (simp add: tos_Cons)
  have sv: "uint (sig_v (sig_of ?t)) = tx_V ?t" "uint (sig_r (sig_of ?t)) = tx_R ?t" "uint (sig_s (sig_of ?t)) = tx_S ?t"
    using v by (auto simp: sig_of_def valid_tx_def valid_v_def uint_word_of_int_eq take_bit_int_eq_self split: if_splits)
  have at: "at (txNonces btx) i = Some (tx_Nonce ?t)" "at (txGases btx) i = Some (tx_Gas ?t)"
    "at (txSigs btx) i = Some (sig_of ?t)" "at (txDatas btx) i = Some e"
    using c assms(2) ds by (simp_all add: at_def)
  show ?thesis
  proof (cases "tx_To ?t")
    case None
    then show ?thesis
      using tx(2) unfolding tk tos_snoc rebuilt_def by (simp add: full_tx_def at e(2) cr sv ms)
  next
    case (Some a)
    then show ?thesis
      using tx(2) unfolding tk tos_snoc rebuilt_def by (simp add: full_tx_def at e(2) cr sv ms to)
  qed
qed

lemma fullTxs_columns:
  assumes "complete_columns lib chainID bts btx"
  shows "fullTxs lib chainID btx = Some (Inr (map fst bts))"
proof -
  have c: "columns_of lib chainID bts btx" and n: "unat (totalBlockTxCount btx) = length bts"
    using assms by (simp_all add: complete_columns_def unat_of_nat_u64)
  have "i \<le> length bts \<Longrightarrow> fullTxs_loop lib chainID btx (length bts - i) i (length (tos (take i (map snd bts))))
    = Some (Inr (map fst (drop i bts)))" for i
  proof (induction "length bts - i" arbitrary: i)
    case (Suc k)
    then have i: "i < length bts" "length bts - i = Suc (length bts - Suc i)" by simp_all
    have "k = length bts - Suc i" "Suc i \<le> length bts" using Suc(2) by simp_all
    note IH = Suc(1) [OF this]
    show ?case
      unfolding i(2) using IH i(1) by (simp add: full_tx_columns [OF c i(1)]) (simp flip: Cons_nth_drop_Suc)
  qed simp
  from this [of 0] show ?thesis by (simp add: fullTxs_def n tos_def)
qed

lemma ReadTxData_stx:
  assumes "newSpanBatchTx t = Inr stx" "stx_MarshalBinary lib stx = Inr e" "valid_tx lib chainID b t"
  shows "ReadTxData lib (e @ r) = Inr ((e, tx_Type t), r)"
proof -
  obtain d where d: "lib_rlpEncode lib stx = Inr d" "d \<noteq> []" "hd d > 0x7f"
    "\<And>r. lib_rlpIsList lib (d @ r) = Inr True \<and> lib_rlpRaw lib (d @ r) = Inr (d, r)"
    using assms(1,3) by (auto simp: valid_tx_def)
  have ty: "txType stx = tx_Type t" by (rule newSpanBatchTx_type [OF assms(1)])
  obtain x d' where xd: "d = x # d'" using d(2) by (cases d) auto
  show ?thesis
  proof (cases "tx_Type t = LegacyTxType")
    case True
    with assms(2) d(1) ty have "e = d" by (simp add: stx_MarshalBinary_def)
    moreover have "\<not> x \<le> 0x7f" using d(3) xd by (simp add: not_le)
    ultimately show ?thesis using d(4) [of r] True by (simp add: ReadTxData_def xd LegacyTxType_def)
  next
    case False
    with assms(2) d(1) ty have "e = tx_Type t # d" by (simp add: stx_MarshalBinary_def)
    moreover have "tx_Type t \<le> 0x7f" using newSpanBatchTx_types [OF assms(1)] by (auto simp: type_defs)
    ultimately show ?thesis using d(4) [of r] by (simp add: ReadTxData_def)
  qed
qed

lemma bits_are_bound: "bits_are bits bs \<Longrightarrow> \<exists>n. bits = Some n \<and> n < 2 ^ length bs \<and> (\<forall>i < length bs. bit n i \<longleftrightarrow> bs ! i)"
proof -
  assume "bits_are bits bs"
  then obtain n where n: "bits = Some n" "\<And>i. bit n i \<longleftrightarrow> i < length bs \<and> bs ! i"
    by (auto simp: bits_are_def)
  have "take_bit (length bs) n = n" by (rule bit_eqI) (auto simp: bit_take_bit_iff n(2))
  then show ?thesis using n by (metis take_bit_nat_eq_self_iff)
qed

lemma length_tos: "length (tos ts) = length (filter (\<lambda>i. tx_To (ts ! i) \<noteq> None) [0..<length ts])"
proof (induction ts rule: rev_induct)
  case (snoc t ts)
  have "filter (\<lambda>i. tx_To ((ts @ [t]) ! i) \<noteq> None) [0..<length ts] = filter (\<lambda>i. tx_To (ts ! i) \<noteq> None) [0..<length ts]"
    by (rule filter_cong) (auto simp: nth_append)
  with snoc show ?case by (simp add: tos_snoc split: option.split)
qed (simp add: tos_def)

lemma complete_columns_wf:
  assumes "complete_columns lib chainID bts btx" "length bts \<le> unat MaxSpanBatchElementCount"
  shows "wf_columns lib btx"
proof -
  let ?ts = "map snd bts"
  have c: "columns_of lib chainID bts btx" and tot: "totalBlockTxCount btx = of_nat (length bts)"
    and n: "unat (totalBlockTxCount btx) = length bts"
    using assms by (simp_all add: complete_columns_def unat_of_nat_u64)
  note c' = c [unfolded columns_of_def Let_def]
  have l: "unat (totalLegacyTxCount btx) = legacies ?ts"
  proof -
    have "legacies ?ts \<le> length ?ts" unfolding legacies_def by (rule length_filter_le)
    then have "legacies ?ts < 2 ^ 64" using assms(1) by (simp add: complete_columns_def)
    then show ?thesis using c' by (simp add: unat_of_nat_u64)
  qed
  obtain cb where cb: "contractCreationBits btx = Some cb" "cb < 2 ^ length bts"
    "\<And>i. i < length bts \<Longrightarrow> bit cb i \<longleftrightarrow> tx_To (?ts ! i) = None"
    using bits_are_bound [of "contractCreationBits btx" "map (\<lambda>t. tx_To t = None) ?ts"] c' by auto
  obtain yb where yb: "yParityBits btx = Some yb" "yb < 2 ^ length bts"
    using bits_are_bound [of "yParityBits btx" "map yparity ?ts"] c' by auto
  obtain pb where pb: "protectedBits btx = Some pb" "pb < 2 ^ legacies ?ts"
    using bits_are_bound [of "protectedBits btx" "map (lib_Protected lib) (filter (\<lambda>t. tx_Type t = LegacyTxType) ?ts)"] c'
    unfolding length_map legacies_def [symmetric] by blast
  have "length (txTos btx) = length (filter (\<lambda>i. \<not> bit cb i) [0..<length bts])"
    using c' length_tos [of ?ts] cb(3) by (auto intro!: arg_cong [of _ _ length] filter_cong)
  moreover have "totalBlockTxCount btx \<le> MaxSpanBatchElementCount"
    using assms(2) n by (simp add: word_le_nat_alt)
  moreover have "\<forall>(d, t) \<in> set (zip (txDatas btx) (txTypes btx)). \<forall>r. ReadTxData lib (d @ r) = Inr ((d, t), r)"
  proof -
    have l2: "list_all2 (\<lambda>d t. \<exists>stx. newSpanBatchTx t = Inr stx \<and> stx_MarshalBinary lib stx = Inr d) (txDatas btx) ?ts"
      using c' by simp
    have "ReadTxData lib (d @ r) = Inr ((d, ty), r)" if z: "(d, ty) \<in> set (zip (txDatas btx) (txTypes btx))" for d ty r
    proof -
      obtain i where i: "i < length bts" "d = txDatas btx ! i" "ty = tx_Type (snd (bts ! i))"
      proof -
        obtain i where "i < length (txDatas btx)" "d = txDatas btx ! i" "ty = txTypes btx ! i"
          using z unfolding in_set_zip by auto
        then show ?thesis using c' list_all2_lengthD [OF l2] by (intro that) auto
      qed
      obtain stx where "newSpanBatchTx (snd (bts ! i)) = Inr stx" "stx_MarshalBinary lib stx = Inr d"
        using list_all2_nthD2 [OF l2, of i] i by auto
      moreover have "valid_tx lib chainID (fst (bts ! i)) (snd (bts ! i))"
        using c' nth_mem [OF i(1)] by (cases "bts ! i") auto
      ultimately show ?thesis using ReadTxData_stx i(3) by blast
    qed
    then show ?thesis by blast
  qed
  moreover have "length (txDatas btx) = length bts"
    using c' by (auto dest: list_all2_lengthD)
  moreover have "legacies ?ts = length (filter (\<lambda>t. t = LegacyTxType) (txTypes btx))"
    using c' by (simp add: legacies_def filter_map comp_def)
  ultimately show ?thesis
    unfolding wf_columns_def Let_def n l using c' cb(1,2) yb pb by auto
qed

text \<open>A span batch does not lose transactions: for transactions as the sequencer includes them, on
  the chain's id, splitting them into columns succeeds, the columns encode, and a node that decodes what
  was written, whatever follows it, recovers the v of every signature and rebuilds exactly the
  transactions that were added.\<close>

theorem span_txs_lossless:
  assumes "list_all2 (valid_tx lib chainID) bs ts" "length bs \<le> unat MaxSpanBatchElementCount"
  shows "\<exists>btx enc. newSpanBatchTxs lib bs chainID = Some (Inr btx) \<and> encode_txs btx = Some (Inr enc) \<and>
     (\<forall>r. \<exists>btx'. decode_txs lib (zero_spanBatchTxs\<lparr>totalBlockTxCount := of_nat (length bs)\<rparr>) (enc @ r) = Inr (btx', r) \<and>
        recoverV chainID btx' = Some (Inr btx)) \<and>
     fullTxs lib chainID btx = Some (Inr bs)"
proof -
  let ?btx0 = "zero_spanBatchTxs\<lparr>contractCreationBits := Some 0, yParityBits := Some 0, protectedBits := Some 0\<rparr>"
  have s: "length ([] :: (bytes \<times> Transaction) list) + length bs < 2 ^ 63"
    using assms(2) by (simp add: MaxSpanBatchElementCount_def)
  have c0: "complete_columns lib chainID [] ?btx0"
    using columns_empty [of lib chainID] by (simp add: complete_columns_def) (simp add: zero_spanBatchTxs_def)
  obtain btx where btx: "AddTxs lib bs chainID ?btx0 = Some (btx, None)"
    "complete_columns lib chainID (zip bs ts) btx"
    using AddTxs_columns [OF c0 assms(1) s] by auto
  have len: "length ts = length bs" "length (zip bs ts) = length bs"
    using assms(1) by (simp_all add: list_all2_lengthD)
  have cols: "columns_of lib chainID (zip bs ts) btx" and tot: "totalBlockTxCount btx = of_nat (length bs)"
    using btx(2) len by (simp_all add: complete_columns_def)
  have wf: "wf_columns lib btx" by (rule complete_columns_wf [OF btx(2)]) (use assms(2) len in simp)
  obtain enc where enc: "encode_txs btx = Some (Inr enc)" using encode_txs_wf [OF wf] by blast
  have ls: "length (txSigs btx) = length bs" using cols len by (simp add: columns_of_def)
  have z: "map (\<lambda>sig. sig\<lparr>sig_v := 0\<rparr>) (txSigs btx)
      = map2 (\<lambda>sig v. sig\<lparr>sig_v := v\<rparr>) (txSigs btx) (replicate (length bs) 0)"
    by (rule nth_equalityI) (simp_all add: ls)
  have "recoverV chainID (btx\<lparr>txSigs := map (\<lambda>sig. sig\<lparr>sig_v := 0\<rparr>) (txSigs btx)\<rparr>) = Some (Inr btx)"
    unfolding z by (rule recoverV_columns [OF cols]) (simp add: len)
  moreover have "fullTxs lib chainID btx = Some (Inr bs)"
    using fullTxs_columns [OF btx(2)] len by simp
  ultimately show ?thesis
    using btx(1) enc decode_encode_txs [OF wf enc] tot by (auto simp: newSpanBatchTxs_def)
qed

definition example_tx :: Transaction where
  "example_tx = (blank_tx LegacyTxType 5 21000 (Some 9) 37 11 12)\<lparr>tx_GasPrice := 3, tx_Value := 4\<rparr>"

definition example_lib2 :: TxLib where
  "example_lib2 =
     \<lparr>lib_UnmarshalBinary = (\<lambda>_. Inr example_tx), lib_MarshalBinary = (\<lambda>_. Inr [7]), lib_Protected = (\<lambda>_. True),
      lib_ChainId = (\<lambda>_. 1), lib_rlpEncode = (\<lambda>_. Inr [0xc0]),
      lib_rlpDecode = (\<lambda>_ _. Inr (spanBatchLegacyTxData 4 3 [])),
      lib_rlpIsList = (\<lambda>_. Inr True), lib_rlpRaw = (\<lambda>r. Inr (take 1 r, drop 1 r))\<rparr>"

theorem span_txs_lossless_witness:
  "\<exists>btx enc. newSpanBatchTxs example_lib2 [[7], [7]] 1 = Some (Inr btx) \<and> encode_txs btx = Some (Inr enc) \<and>
     (\<forall>r. \<exists>btx'. decode_txs example_lib2 (zero_spanBatchTxs\<lparr>totalBlockTxCount := of_nat (length [[7 :: byte], [7]])\<rparr>) (enc @ r)
            = Inr (btx', r) \<and> recoverV 1 btx' = Some (Inr btx)) \<and>
     fullTxs example_lib2 1 btx = Some (Inr [[7], [7]])"
  by (rule span_txs_lossless [where ts = "[example_tx, example_tx]"])
    (simp_all add: valid_tx_def example_lib2_def example_tx_def blank_tx_def valid_v_def newSpanBatchTx_def
      rebuilt_def LegacyTxType_def MaxSpanBatchElementCount_def)

end
