(* ===== verification/Deposits.thy ===== *)
theory Deposits
  imports L1Info SpanBatchTxs
begin

text \<open>
  User deposits: the log event of the deposit contract in both directions
  (op-node/rollup/derive/deposit_log.go) and the deposits of the receipts of an L1 block
  (deposits.go). Keccak-256, the hash of the event's signature and the encoding of a deposit
  transaction are parameters.
\<close>

section \<open>Reading a deposit event\<close>

definition DepositEventVersion0 :: Hash where "DepositEventVersion0 = 0"

definition topic_address :: "Hash \<Rightarrow> Address" where
  "topic_address h = be_get (drop 12 (be_put 32 h))"

definition zero_DepositTx :: DepositTx where
  "zero_DepositTx =
     \<lparr>dt_SourceHash = 0, dt_From = 0, dt_To = None, dt_Mint = None, dt_Value = 0, dt_Gas = 0,
      dt_IsSystemTransaction = False, dt_Data = []\<rparr>"

definition unmarshalDepositVersion0 :: "DepositTx \<Rightarrow> Address \<Rightarrow> bytes \<Rightarrow> DepositTx res" where
  "unmarshalDepositVersion0 dep to opaqueData =
     (if length opaqueData < 32 + 32 + 8 + 1 then Inl (Msg ''unexpected opaqueData length'')
      else
        (let mint = int (be_to_nat (take 32 opaqueData));
             dep = dep\<lparr>dt_Mint := (if mint = 0 then None else Some mint)\<rparr>;
             dep = dep\<lparr>dt_Value := int (be_to_nat (take 32 (drop 32 opaqueData)))\<rparr>;
             gas = be_to_nat (take 8 (drop 64 opaqueData))
         in if gas \<ge> 2 ^ 64 then Inl (Msg ''bad gas value'')
            else
              (let dep = dep\<lparr>dt_Gas := of_nat gas\<rparr>;
                   dep = (if opaqueData ! 72 = 0 then dep\<lparr>dt_To := Some to\<rparr> else dep)
               in Inr (dep\<lparr>dt_Data := drop 73 opaqueData\<rparr>))))"

definition UnmarshalDepositLogEvent :: "keccak \<Rightarrow> Hash \<Rightarrow> L1Log \<Rightarrow> DepositTx res" where
  "UnmarshalDepositLogEvent keccak256 abiHash ev =
     (let topics = log_Topics ev; data = log_Data ev in
      if length topics \<noteq> 4 then Inl (Msg ''expected 4 event topics'')
      else if topics ! 0 \<noteq> abiHash then Inl (Msg ''invalid deposit event selector'')
      else if length data < 64 then Inl (Msg ''incomplate opaqueData slice header'')
      else if length data mod 32 \<noteq> 0 then Inl (Msg ''expected log data to be multiple of 32 bytes'')
      else
        (let from = topic_address (topics ! 1); to = topic_address (topics ! 2); version = topics ! 3;
             opaqueContentOffset = be_to_nat (take 32 data);
             opaqueContentLength = be_to_nat (take 32 (drop 32 data))
         in if opaqueContentOffset \<noteq> 32 then Inl (Msg ''invalid opaqueData slice header offset'')
            else if opaqueContentLength \<ge> 2 ^ 64 \<or> opaqueContentLength > length data - 64
                 \<or> (opaqueContentLength + 32) mod 2 ^ 64 \<le> length data - 64 then
              Inl (Msg ''invalid opaqueData slice header length'')
            else
              (let opaqueData = take opaqueContentLength (drop 64 data);
                   dep = zero_DepositTx\<lparr>
                     dt_SourceHash := UserDepositSource_SourceHash keccak256 (log_BlockHash ev) (log_Index ev),
                     dt_From := from, dt_IsSystemTransaction := False\<rparr>
               in if version = DepositEventVersion0 then
                    (case unmarshalDepositVersion0 dep to opaqueData of
                       Inl err \<Rightarrow> Inl (Wrap ''failed to decode deposit'' err)
                     | Inr dep \<Rightarrow> Inr dep)
                  else Inl (Msg ''invalid deposit version''))))"

section \<open>Writing a deposit event\<close>

definition AddressAsLeftPaddedHash :: "Address \<Rightarrow> Hash" where
  "AddressAsLeftPaddedHash addr = be_get (replicate 12 0 @ be_put 20 addr)"

definition marshalDepositVersion0 :: "DepositTx \<Rightarrow> bytes res" where
  "marshalDepositVersion0 deposit =
     (let exceeds = (\<lambda>n. BitLen (nat \<bar>n\<bar>) > 256); fill = (\<lambda>n. nat_to_be 32 (nat \<bar>n\<bar>)) in
      if (case dt_Mint deposit of None \<Rightarrow> False | Some mint \<Rightarrow> exceeds mint) then
        Inl (Msg ''mint value exceeds 256 bits'')
      else if exceeds (dt_Value deposit) then Inl (Msg ''value value exceeds 256 bits'')
      else Inr ((case dt_Mint deposit of None \<Rightarrow> replicate 32 0 | Some mint \<Rightarrow> fill mint)
                @ fill (dt_Value deposit) @ be_put 8 (dt_Gas deposit)
                @ [if dt_To deposit = None then 1 else 0] @ dt_Data deposit))"

definition MarshalDepositLogEvent :: "Hash \<Rightarrow> Address \<Rightarrow> DepositTx \<Rightarrow> L1Log res" where
  "MarshalDepositLogEvent abiHash depositContractAddr deposit =
     (let toBytes = (case dt_To deposit of None \<Rightarrow> 0 | Some to \<Rightarrow> AddressAsLeftPaddedHash to);
          topics = [abiHash, AddressAsLeftPaddedHash (dt_From deposit), toBytes, DepositEventVersion0]
      in case marshalDepositVersion0 deposit of
           Inl err \<Rightarrow> Inl err
         | Inr opaqueData \<Rightarrow>
             (let data = replicate 24 0 @ be_put 8 (32 :: u64)
                         @ replicate 24 0 @ be_put 8 (of_nat (length opaqueData) :: u64) @ opaqueData;
                  data = (if length data mod 32 \<noteq> 0 then data @ replicate (32 - length data mod 32) 0 else data)
              in Inr \<lparr>log_Address = depositContractAddr, log_Topics = topics, log_Data = data,
                      log_BlockHash = 0, log_Index = 0\<rparr>))"

section \<open>The deposits of a block\<close>

fun deposit_logs :: "keccak \<Rightarrow> Hash \<Rightarrow> Address \<Rightarrow> L1Log list \<Rightarrow> DepositTx list \<times> gerr list" where
  "deposit_logs keccak256 abiHash addr [] = ([], [])"
| "deposit_logs keccak256 abiHash addr (log # logs) =
     (let (deps, errs) = deposit_logs keccak256 abiHash addr logs in
      if log_Address log = addr \<and> length (log_Topics log) > 0 \<and> log_Topics log ! 0 = abiHash then
        (case UnmarshalDepositLogEvent keccak256 abiHash log of
           Inl err \<Rightarrow> (deps, Wrap ''malformatted L1 deposit log'' err # errs)
         | Inr dep \<Rightarrow> (dep # deps, errs))
      else (deps, errs))"

fun UserDeposits :: "keccak \<Rightarrow> Hash \<Rightarrow> L1Receipt list \<Rightarrow> Address \<Rightarrow> DepositTx list \<times> gerr list" where
  "UserDeposits keccak256 abiHash [] addr = ([], [])"
| "UserDeposits keccak256 abiHash (r # receipts) addr =
     (let (deps, errs) = UserDeposits keccak256 abiHash receipts addr in
      if rec_Status r \<noteq> ReceiptStatusSuccessful then (deps, errs)
      else (let (deps', errs') = deposit_logs keccak256 abiHash addr (rec_Logs r)
            in (deps' @ deps, errs' @ errs)))"

fun encode_deposits :: "(DepositTx \<Rightarrow> bytes res) \<Rightarrow> DepositTx list \<Rightarrow> bytes list \<times> gerr list" where
  "encode_deposits encodeTx [] = ([], [])"
| "encode_deposits encodeTx (tx # txs) =
     (let (encoded, errs) = encode_deposits encodeTx txs in
      case encodeTx tx of
        Inl err \<Rightarrow> (encoded, Msg ''failed to encode user tx'' # errs)
      | Inr opaqueTx \<Rightarrow> (opaqueTx # encoded, errs))"

definition DeriveDeposits :: "keccak \<Rightarrow> Hash \<Rightarrow> (DepositTx \<Rightarrow> bytes res) \<Rightarrow> L1Receipt list \<Rightarrow> Address
    \<Rightarrow> bytes list \<times> gerr list" where
  "DeriveDeposits keccak256 abiHash encodeTx receipts depositContractAddr =
     (let (userDeposits, errs) = UserDeposits keccak256 abiHash receipts depositContractAddr;
          (encodedTxs, errs') = encode_deposits encodeTx userDeposits
      in (encodedTxs, errs @ errs'))"

section \<open>Events are read back\<close>

lemma BitLen_256: "BitLen n \<le> 256 \<longleftrightarrow> n < 2 ^ 256"
  by (rule BitLen_le)

lemma topic_address_padded: "topic_address (AddressAsLeftPaddedHash a) = a"
proof -
  have "be_put 32 (AddressAsLeftPaddedHash a) = replicate 12 0 @ be_put 20 a"
    unfolding AddressAsLeftPaddedHash_def by (rule be_put_get) simp_all
  then show ?thesis by (simp add: topic_address_def be_get_put)
qed

text \<open>A deposit as the contract emits it: no mint of zero, and amounts of 256 bits.\<close>

definition user_deposit :: "DepositTx \<Rightarrow> bool" where
  "user_deposit dep \<longleftrightarrow>
     (\<forall>m. dt_Mint dep = Some m \<longrightarrow> 0 < m \<and> m < 2 ^ 256) \<and> 0 \<le> dt_Value dep \<and> dt_Value dep < 2 ^ 256
     \<and> \<not> dt_IsSystemTransaction dep \<and> length (dt_Data dep) < 2 ^ 63"

lemma be_to_nat_zeros [simp]: "be_to_nat (replicate n 0 @ bs) = be_to_nat bs"
  by (induction n) (simp_all add: be_to_nat_def)

lemma be_to_nat_be_put: "LENGTH('a) = 8 * n \<Longrightarrow> be_to_nat (be_put n (w :: 'a::len word)) = unat w"
proof -
  assume n: "LENGTH('a) = 8 * n"
  have "unat w < 2 ^ LENGTH('a)" by (rule unsigned_less)
  then have "unat w < 256 ^ n" by (simp add: n power_mult)
  then show ?thesis by (simp add: be_put_def)
qed

definition opaque :: "DepositTx \<Rightarrow> bytes" where
  "opaque dep = nat_to_be 32 (nat (case dt_Mint dep of None \<Rightarrow> 0 | Some m \<Rightarrow> m)) @ nat_to_be 32 (nat (dt_Value dep))
     @ be_put 8 (dt_Gas dep) @ [if dt_To dep = None then 1 else 0] @ dt_Data dep"

lemma marshal_user_deposit:
  assumes "user_deposit dep"
  shows "marshalDepositVersion0 dep = Inr (opaque dep)"
proof -
  have "BitLen (nat \<bar>m\<bar>) \<le> 256" if "0 \<le> m" "m < 2 ^ 256" for m :: int
    using that nat_less_iff [of m "2 ^ 256"] by (simp add: BitLen_256)
  then show ?thesis
    using assms nat_to_be_0 [of 32]
    by (auto simp: marshalDepositVersion0_def opaque_def user_deposit_def Let_def not_less simp del: nat_to_be.simps
        split: option.splits)
qed

lemma unmarshal_opaque:
  assumes u: "user_deposit dep" and b: "dt_Mint b = None" "dt_To b = None"
  shows "unmarshalDepositVersion0 b (case dt_To dep of None \<Rightarrow> x | Some to \<Rightarrow> to) (opaque dep)
     = Inr (b\<lparr>dt_Mint := dt_Mint dep, dt_Value := dt_Value dep, dt_Gas := dt_Gas dep, dt_To := dt_To dep,
              dt_Data := dt_Data dep\<rparr>)"
proof -
  let ?m = "nat (case dt_Mint dep of None \<Rightarrow> 0 | Some m \<Rightarrow> m)"
  have small: "nat n mod 256 ^ 32 = nat n" if "0 \<le> n" "n < 2 ^ 256" for n :: int
    using that nat_less_iff [of n "2 ^ 256"] by simp
  have v: "nat (dt_Value dep) mod 256 ^ 32 = nat (dt_Value dep)" "?m mod 256 ^ 32 = ?m"
    using u by (auto simp: user_deposit_def intro!: small split: option.split)
  have mint: "(if int ?m = 0 then None else Some (int ?m)) = dt_Mint dep"
    using u by (auto simp: user_deposit_def split: option.split)
  have parts: "take 32 (opaque dep) = nat_to_be 32 ?m" "take 32 (drop 32 (opaque dep)) = nat_to_be 32 (nat (dt_Value dep))"
    "take 8 (drop 64 (opaque dep)) = be_put 8 (dt_Gas dep)" "drop 73 (opaque dep) = dt_Data dep"
    "opaque dep ! 72 = (if dt_To dep = None then 1 else 0)"
    "(length (opaque dep) < 32 + 32 + 8 + 1) = False"
    by (simp_all add: opaque_def nth_append del: nat_to_be.simps)
  have gas: "be_to_nat (be_put 8 (dt_Gas dep)) = unat (dt_Gas dep)" "unat (dt_Gas dep) < 2 ^ 64"
    using unsigned_less [of "dt_Gas dep"] by (simp_all add: be_to_nat_be_put)
  show ?thesis
    unfolding unmarshalDepositVersion0_def Let_def parts be_to_nat_to_be v gas(1) mint
    using gas(2) u b
    by (cases b; cases "dt_To dep") (simp_all add: user_deposit_def)
qed

lemma pad_mod: "((n :: nat) + (if n mod 32 \<noteq> 0 then 32 - n mod 32 else 0)) mod 32 = 0"
  by presburger

lemma MarshalDepositLogEvent_user:
  assumes "user_deposit dep"
  shows "\<exists>padding. length padding < 32 \<and> (64 + length (opaque dep) + length padding) mod 32 = 0 \<and>
     MarshalDepositLogEvent abiHash addr dep = Inr \<lparr>log_Address = addr,
       log_Topics = [abiHash, AddressAsLeftPaddedHash (dt_From dep),
         case dt_To dep of None \<Rightarrow> 0 | Some to \<Rightarrow> AddressAsLeftPaddedHash to, DepositEventVersion0],
       log_Data = replicate 24 0 @ be_put 8 (32 :: u64)
         @ replicate 24 0 @ be_put 8 (of_nat (length (opaque dep)) :: u64) @ opaque dep @ padding,
       log_BlockHash = 0, log_Index = 0\<rparr>"
proof -
  let ?data = "replicate 24 0 @ be_put 8 (32 :: u64)
         @ replicate 24 0 @ be_put 8 (of_nat (length (opaque dep)) :: u64) @ opaque dep"
  define n where "n = 64 + length (opaque dep)"
  define padding :: bytes where "padding = replicate (if n mod 32 \<noteq> 0 then 32 - n mod 32 else 0) 0"
  have len: "length ?data = n" by (simp add: n_def)
  have "(n + length padding) mod 32 = 0"
    unfolding padding_def length_replicate by (rule pad_mod)
  moreover have "length padding < 32" by (simp add: padding_def)
  moreover have pad: "(if n mod 32 \<noteq> 0 then ?data @ replicate (32 - n mod 32) 0 else ?data) = ?data @ padding"
    by (simp add: padding_def)
  have "MarshalDepositLogEvent abiHash addr dep = Inr \<lparr>log_Address = addr,
       log_Topics = [abiHash, AddressAsLeftPaddedHash (dt_From dep),
         case dt_To dep of None \<Rightarrow> 0 | Some to \<Rightarrow> AddressAsLeftPaddedHash to, DepositEventVersion0],
       log_Data = ?data @ padding, log_BlockHash = 0, log_Index = 0\<rparr>"
    unfolding MarshalDepositLogEvent_def marshal_user_deposit [OF assms] Let_def sum.case len pad by (rule refl)
  ultimately show ?thesis unfolding n_def append_assoc by (intro exI conjI)
qed

text \<open>A user deposit survives the deposit contract's event: the log MarshalDepositLogEvent writes for
  a deposit, placed at an index of an L1 block, is accepted by UnmarshalDepositLogEvent and gives the
  deposit back, with the source hash of that block and index.\<close>

theorem deposit_event_roundtrip:
  assumes "user_deposit dep"
  shows "\<exists>log. MarshalDepositLogEvent abiHash addr dep = Inr log \<and>
     UnmarshalDepositLogEvent keccak256 abiHash (log\<lparr>log_BlockHash := h, log_Index := i\<rparr>)
       = Inr (dep\<lparr>dt_SourceHash := UserDepositSource_SourceHash keccak256 h i\<rparr>)"
proof -
  obtain padding where p: "length padding < 32" "(64 + length (opaque dep) + length padding) mod 32 = 0"
    and log: "MarshalDepositLogEvent abiHash addr dep = Inr \<lparr>log_Address = addr,
       log_Topics = [abiHash, AddressAsLeftPaddedHash (dt_From dep),
         case dt_To dep of None \<Rightarrow> 0 | Some to \<Rightarrow> AddressAsLeftPaddedHash to, DepositEventVersion0],
       log_Data = replicate 24 0 @ be_put 8 (32 :: u64)
         @ replicate 24 0 @ be_put 8 (of_nat (length (opaque dep)) :: u64) @ opaque dep @ padding,
       log_BlockHash = 0, log_Index = 0\<rparr>"
    using MarshalDepositLogEvent_user [OF assms, of abiHash addr] by (elim exE conjE) (rule that)
  let ?data = "replicate 24 0 @ be_put 8 (32 :: u64)
         @ replicate 24 0 @ be_put 8 (of_nat (length (opaque dep)) :: u64) @ opaque dep @ padding"
  have len: "length (opaque dep) < 2 ^ 64 - 32" using assms by (simp add: opaque_def user_deposit_def)
  then have n: "be_to_nat (be_put 8 (of_nat (length (opaque dep)) :: u64)) = length (opaque dep)"
    by (simp add: be_to_nat_be_put unat_of_nat_u64)
  have m: "be_to_nat (be_put 8 (32 :: u64)) = 32"
    using be_to_nat_be_put [of 8 "32 :: u64"] by simp
  have "take 32 ?data = replicate 24 0 @ be_put 8 (32 :: u64)"
    "take 32 (drop 32 ?data) = replicate 24 0 @ be_put 8 (of_nat (length (opaque dep)) :: u64)"
    by simp_all
  then have parts: "be_to_nat (take 32 ?data) = 32" "be_to_nat (take 32 (drop 32 ?data)) = length (opaque dep)"
    "take (length (opaque dep)) (drop 64 ?data) = opaque dep" "length ?data - 64 = length (opaque dep) + length padding"
    "\<not> length ?data < 64" "length ?data mod 32 = 0"
    using n m p by (simp_all add: ac_simps)
  have guard: "\<not> (length (opaque dep) \<ge> 2 ^ 64 \<or> length (opaque dep) > length (opaque dep) + length padding
      \<or> (length (opaque dep) + 32) mod 2 ^ 64 \<le> length (opaque dep) + length padding)"
    using len p(1) by simp
  have to: "topic_address (case dt_To dep of None \<Rightarrow> 0 | Some to \<Rightarrow> AddressAsLeftPaddedHash to)
      = (case dt_To dep of None \<Rightarrow> topic_address 0 | Some to \<Rightarrow> to)"
    by (simp add: topic_address_padded split: option.split)
  let ?b = "zero_DepositTx\<lparr>dt_SourceHash := UserDepositSource_SourceHash keccak256 h i, dt_From := dt_From dep,
     dt_IsSystemTransaction := False\<rparr>"
  have inner: "unmarshalDepositVersion0 ?b (case dt_To dep of None \<Rightarrow> topic_address 0 | Some to \<Rightarrow> to) (opaque dep)
      = Inr (?b\<lparr>dt_Mint := dt_Mint dep, dt_Value := dt_Value dep, dt_Gas := dt_Gas dep, dt_To := dt_To dep,
              dt_Data := dt_Data dep\<rparr>)"
    by (rule unmarshal_opaque [OF assms]) (simp_all add: zero_DepositTx_def)
  have "UnmarshalDepositLogEvent keccak256 abiHash \<lparr>log_Address = addr,
       log_Topics = [abiHash, AddressAsLeftPaddedHash (dt_From dep),
         case dt_To dep of None \<Rightarrow> 0 | Some to \<Rightarrow> AddressAsLeftPaddedHash to, DepositEventVersion0],
       log_Data = ?data, log_BlockHash = h, log_Index = i\<rparr>
     = Inr (?b\<lparr>dt_Mint := dt_Mint dep, dt_Value := dt_Value dep, dt_Gas := dt_Gas dep, dt_To := dt_To dep,
              dt_Data := dt_Data dep\<rparr>)"
    using guard parts inner
    by (simp add: UnmarshalDepositLogEvent_def Let_def to topic_address_padded)
  also have "?b\<lparr>dt_Mint := dt_Mint dep, dt_Value := dt_Value dep, dt_Gas := dt_Gas dep, dt_To := dt_To dep,
              dt_Data := dt_Data dep\<rparr> = dep\<lparr>dt_SourceHash := UserDepositSource_SourceHash keccak256 h i\<rparr>"
    using assms by (cases dep) (simp add: zero_DepositTx_def user_deposit_def)
  finally show ?thesis using log by simp
qed

theorem deposit_event_roundtrip_witness:
  "\<exists>log. MarshalDepositLogEvent 5 6 (zero_DepositTx\<lparr>dt_From := 1, dt_To := Some 2, dt_Mint := Some 3, dt_Data := [4]\<rparr>) = Inr log \<and>
     UnmarshalDepositLogEvent (\<lambda>_. 0) 5 (log\<lparr>log_BlockHash := 7, log_Index := 8\<rparr>)
       = Inr (zero_DepositTx\<lparr>dt_From := 1, dt_To := Some 2, dt_Mint := Some 3, dt_Data := [4],
                dt_SourceHash := UserDepositSource_SourceHash (\<lambda>_. 0) 7 8\<rparr>)"
  using deposit_event_roundtrip [of "zero_DepositTx\<lparr>dt_From := 1, dt_To := Some 2, dt_Mint := Some 3, dt_Data := [4]\<rparr>" 5 6
      "\<lambda>_. 0" 8 7]
  by (simp add: user_deposit_def zero_DepositTx_def)

end
