(* ===== verification/Attributes.thy ===== *)
theory Attributes
  imports Deposits EthTypes
begin

text \<open>
  Building payload attributes (op-node/rollup/derive/attributes.go): the gas price of L1 as BSC has it
  (op-service/bsc/compat.go), the upgrade transactions of Ecotone and Fjord, the millisecond part of
  a block time in the attributes (op-service/eth/types.go). The L1 and L2 clients answer for one call;
  Keccak-256, the encoding of deposit transactions, the address of a created contract, the bytecode of
  the upgraded contracts (output of the Solidity compiler) and the LRU cache are parameters.
\<close>

section \<open>Gas prices\<close>

definition DefaultBaseFee :: int where "DefaultBaseFee = 3000000000"
definition DefaultOPBNBTestnetBaseFee :: int where "DefaultOPBNBTestnetBaseFee = 5000000000"
definition CountBlockSize :: nat where "CountBlockSize = 21"

text \<open>A transaction counts with its gas price.\<close>

definition BaseFeeByTransactions :: "int list \<Rightarrow> int" where
  "BaseFeeByTransactions transactions =
     (let nonZero = filter (\<lambda>p. p > 0) transactions in
      if length nonZero = 0 then DefaultBaseFee else sum_list nonZero div int (length nonZero))"

definition BaseFeeByNetworks :: "int \<Rightarrow> int" where
  "BaseFeeByNetworks chainId = (if chainId = 5611 then DefaultOPBNBTestnetBaseFee else DefaultBaseFee)"

definition MedianGasPrice :: "int list \<Rightarrow> int" where
  "MedianGasPrice transactions =
     (let nonZeroTxsGasPrice = sort (filter (\<lambda>p. p > 0) transactions) in
      if nonZeroTxsGasPrice = [] then DefaultBaseFee
      else nonZeroTxsGasPrice ! ((length nonZeroTxsGasPrice - 1) * 50 div 100))"

definition FinalGasPrice :: "int list \<Rightarrow> int go" where
  "FinalGasPrice allMedianGasPrice =
     (if allMedianGasPrice = [] then None
      else Some (sort allMedianGasPrice ! ((length allMedianGasPrice - 1) * 50 div 100)))"

text \<open>The cached information of an L1 block, the cache, and the last price that was computed.\<close>

record BscBlockInfo =
  bb_BlockHash :: Hash
  bb_ParentHash :: Hash
  bb_MedianGasPrice :: int

record 'c CacheLib =
  cl_Get :: "'c \<Rightarrow> Hash \<Rightarrow> BscBlockInfo option \<times> 'c"
  cl_Add :: "'c \<Rightarrow> Hash \<Rightarrow> BscBlockInfo \<Rightarrow> 'c"

record 'c SnowState =
  latestBlockHash :: Hash
  latestL1GasPrice :: "int option"
  BlockInfoCache :: 'c

record AttrInfo = BlockInfo +
  ai_ParentHash :: Hash
  ai_MixDigest :: Hash
  ai_MillisecondTimestamp :: u64
  ai_ParentBeaconRoot :: "Hash option"

record AttrEnv =
  SystemConfigByL2Hash :: "Hash \<Rightarrow> SystemConfig res"
  AttrFetchReceipts :: "Hash \<Rightarrow> (AttrInfo \<times> L1Receipt list) res"
  InfoByHash :: "Hash \<Rightarrow> AttrInfo res"
  InfoAndTxsByHash :: "Hash \<Rightarrow> (AttrInfo \<times> int list) res"

text \<open>\<open>n\<close> prices are still to be found, from the block of the hash back.\<close>

fun snow_loop :: "'c CacheLib \<Rightarrow> AttrEnv \<Rightarrow> nat \<Rightarrow> Hash \<Rightarrow> int list \<Rightarrow> 'c \<Rightarrow> int list res \<times> 'c" where
  "snow_loop lib env 0 blockHash allMedianGasPrice cache = (Inr allMedianGasPrice, cache)"
| "snow_loop lib env (Suc n) blockHash allMedianGasPrice cache =
     (case cl_Get lib cache blockHash of
        (Some blockInfo, cache) \<Rightarrow>
          snow_loop lib env n (bb_ParentHash blockInfo) (allMedianGasPrice @ [bb_MedianGasPrice blockInfo]) cache
      | (None, cache) \<Rightarrow>
          (case InfoAndTxsByHash env blockHash of
             Inl err \<Rightarrow> (Inl (NewTemporaryError (Some (Wrap ''failed to fetch L1 block info and txs'' err))), cache)
           | Inr (block, transactions) \<Rightarrow>
               (let medianGasPrice = MedianGasPrice transactions;
                    newBlockInfo = \<lparr>bb_BlockHash = bi_Hash block, bb_ParentHash = ai_ParentHash block,
                                    bb_MedianGasPrice = medianGasPrice\<rparr>
                in snow_loop lib env n (ai_ParentHash block) (allMedianGasPrice @ [medianGasPrice])
                     (cl_Add lib cache (bi_Hash block) newBlockInfo))))"

definition SnowL1GasPrice :: "'c CacheLib \<Rightarrow> AttrEnv \<Rightarrow> BlockID \<Rightarrow> 'c SnowState \<Rightarrow> (int option res \<times> 'c SnowState) go" where
  "SnowL1GasPrice lib env epoch st =
     (if bid_Number epoch < of_nat CountBlockSize - 1 then Some (Inr (Some DefaultBaseFee), st)
      else if latestBlockHash st = bid_Hash epoch then Some (Inr (latestL1GasPrice st), st)
      else
        (case snow_loop lib env CountBlockSize (bid_Hash epoch) [] (BlockInfoCache st) of
           (Inl err, cache) \<Rightarrow> Some (Inl err, st\<lparr>BlockInfoCache := cache\<rparr>)
         | (Inr prices, cache) \<Rightarrow> do {
             final \<leftarrow> FinalGasPrice prices;
             Some (Inr (Some final), st\<lparr>latestBlockHash := bid_Hash epoch, latestL1GasPrice := Some final,
                                        BlockInfoCache := cache\<rparr>)
           }))"

section \<open>Upgrade transactions\<close>

record UpgradeCode =
  uc_CreateAddress :: "Address \<Rightarrow> u64 \<Rightarrow> Address"
  uc_l1BlockDeploymentBytecode :: bytes
  uc_gasPriceOracleDeploymentBytecode :: bytes
  uc_gasPriceOracleFjordDeploymentBytecode :: bytes

definition GasPriceOracleAddr :: Address where
  "GasPriceOracleAddr = 0x420000000000000000000000000000000000000f"
definition L1BlockDeployerAddress :: Address where
  "L1BlockDeployerAddress = 0x4210000000000000000000000000000000000000"
definition GasPriceOracleDeployerAddress :: Address where
  "GasPriceOracleDeployerAddress = 0x4210000000000000000000000000000000000001"
definition GasPriceOracleFjordDeployerAddress :: Address where
  "GasPriceOracleFjordDeployerAddress = 0x4210000000000000000000000000000000000002"
definition fjordGasPriceOracleAddress :: Address where
  "fjordGasPriceOracleAddress = 0xa919894851548179A0750865e7974DA599C0Fac7"
definition EIP4788From :: Address where
  "EIP4788From = 0x0B799C86a49DEeb90402691F1041aa3AF2d3C875"

definition eip4788CreationData :: bytes where
  "eip4788CreationData = nat_to_be 106 0x60618060095f395ff33373fffffffffffffffffffffffffffffffffffffffe14604d57602036146024575f5ffd5b5f35801560495762001fff810690815414603c575f5ffd5b62001fff01545f5260205ff35b5f5ffd5b62001fff42064281555f359062001fff015500"

definition ascii :: "string \<Rightarrow> bytes" where "ascii s = map of_char s"

definition upgradeToCalldata :: "keccak \<Rightarrow> Address \<Rightarrow> bytes" where
  "upgradeToCalldata keccak256 addr =
     WriteSignature (take 4 (be_put 32 (keccak256 (ascii ''upgradeTo(address)'')))) @ WriteAddress addr"

definition upgrade_tx :: "keccak \<Rightarrow> string \<Rightarrow> Address \<Rightarrow> Address option \<Rightarrow> u64 \<Rightarrow> bytes \<Rightarrow> DepositTx" where
  "upgrade_tx keccak256 intent from to gas data =
     \<lparr>dt_SourceHash = UpgradeDepositSource_SourceHash keccak256 (ascii intent), dt_From = from, dt_To = to,
      dt_Mint = Some 0, dt_Value = 0, dt_Gas = gas, dt_IsSystemTransaction = False, dt_Data = data\<rparr>"

fun encode_all :: "('a \<Rightarrow> 'b res) \<Rightarrow> 'a list \<Rightarrow> 'b list res" where
  "encode_all encodeTx [] = Inr []"
| "encode_all encodeTx (tx # txs) =
     (case encodeTx tx of
        Inl err \<Rightarrow> Inl err
      | Inr bs \<Rightarrow> (case encode_all encodeTx txs of Inl err \<Rightarrow> Inl err | Inr rest \<Rightarrow> Inr (bs # rest)))"

definition EcotoneNetworkUpgradeTransactions :: "keccak \<Rightarrow> (DepositTx \<Rightarrow> bytes res) \<Rightarrow> UpgradeCode \<Rightarrow> bytes list res" where
  "EcotoneNetworkUpgradeTransactions keccak256 encodeTx code =
     encode_all encodeTx
       [upgrade_tx keccak256 ''Ecotone: L1 Block Deployment'' L1BlockDeployerAddress None 375000
          (uc_l1BlockDeploymentBytecode code),
        upgrade_tx keccak256 ''Ecotone: Gas Price Oracle Deployment'' GasPriceOracleDeployerAddress None 1000000
          (uc_gasPriceOracleDeploymentBytecode code),
        upgrade_tx keccak256 ''Ecotone: L1 Block Proxy Update'' 0 (Some L1BlockAddress) 50000
          (upgradeToCalldata keccak256 (uc_CreateAddress code L1BlockDeployerAddress 0)),
        upgrade_tx keccak256 ''Ecotone: Gas Price Oracle Proxy Update'' 0 (Some GasPriceOracleAddr) 50000
          (upgradeToCalldata keccak256 (uc_CreateAddress code GasPriceOracleDeployerAddress 0)),
        upgrade_tx keccak256 ''Ecotone: Gas Price Oracle Set Ecotone'' L1InfoDepositerAddress (Some GasPriceOracleAddr) 80000
          (take 4 (be_put 32 (keccak256 (ascii ''setEcotone()'')))),
        upgrade_tx keccak256 ''Ecotone: beacon block roots contract deployment'' EIP4788From None 0x3d090
          eip4788CreationData]"

definition FjordNetworkUpgradeTransactions :: "keccak \<Rightarrow> (DepositTx \<Rightarrow> bytes res) \<Rightarrow> UpgradeCode \<Rightarrow> bytes list res" where
  "FjordNetworkUpgradeTransactions keccak256 encodeTx code =
     encode_all encodeTx
       [upgrade_tx keccak256 ''Fjord: Gas Price Oracle Deployment'' GasPriceOracleFjordDeployerAddress None 1450000
          (uc_gasPriceOracleFjordDeploymentBytecode code),
        upgrade_tx keccak256 ''Fjord: Gas Price Oracle Proxy Update'' 0 (Some GasPriceOracleAddr) 50000
          (upgradeToCalldata keccak256 fjordGasPriceOracleAddress),
        upgrade_tx keccak256 ''Fjord: Gas Price Oracle Set Fjord'' L1InfoDepositerAddress (Some GasPriceOracleAddr) 90000
          (take 4 (be_put 32 (keccak256 (ascii ''setFjord()''))))]"

section \<open>Payload attributes\<close>

type_synonym Withdrawals = "(u64 \<times> u64 \<times> Address \<times> u64) list"

record PayloadAttributes =
  pa_Timestamp :: u64
  pa_PrevRandao :: Hash
  pa_SuggestedFeeRecipient :: Address
  pa_Withdrawals :: "Withdrawals option"
  pa_ParentBeaconBlockRoot :: "Hash option"
  pa_Transactions :: "bytes list"
  pa_NoTxPool :: bool
  pa_GasLimit :: "u64 option"

definition BlockMillisecondsInterval :: u64 where "BlockMillisecondsInterval = 250"

definition pa_MillisecondTimestamp :: "PayloadAttributes \<Rightarrow> u64" where
  "pa_MillisecondTimestamp pa =
     (let b = be_put 32 (pa_PrevRandao pa) in
      pa_Timestamp pa * 1000 + (ucast (b ! 0) * 256 + ucast (b ! 1)))"

definition SetMillisecondTimestamp :: "u64 \<Rightarrow> bool \<Rightarrow> PayloadAttributes \<Rightarrow> PayloadAttributes" where
  "SetMillisecondTimestamp ts updateMilliSecond pa =
     (let pa = pa\<lparr>pa_Timestamp := ts div 1000\<rparr> in
      if updateMilliSecond then
        (let milliPartBytes = nat_to_be 32 (unat (ts mod 1000));
             b = be_put 32 (pa_PrevRandao pa);
             b = b[0 := milliPartBytes ! 30, 1 := milliPartBytes ! 31, 2 := 1]
         in pa\<lparr>pa_PrevRandao := be_get b\<rparr>)
      else pa)"

text \<open>A count that does not fit one byte ends the process.\<close>

definition SetBlockIntervalCount :: "u64 \<Rightarrow> PayloadAttributes \<Rightarrow> PayloadAttributes go" where
  "SetBlockIntervalCount blockIntervalCount pa =
     (if blockIntervalCount > 255 then None
      else Some (pa\<lparr>pa_PrevRandao :=
             be_get ((be_put 32 (pa_PrevRandao pa))[3 := nat_to_be 32 (unat blockIntervalCount) ! 31])\<rparr>))"


section \<open>Preparing the attributes\<close>

text \<open>What does not change during a call: the libraries, the event hashes and the configuration.\<close>

record 'c AttrLib =
  al_keccak256 :: keccak
  al_depositAbiHash :: Hash
  al_configAbiHash :: Hash
  al_encodeTx :: "DepositTx \<Rightarrow> bytes res"
  al_code :: UpgradeCode
  al_cache :: "'c CacheLib"
  al_cfg :: Config

definition SequencerFeeVaultAddr :: Address where
  "SequencerFeeVaultAddr = 0x4200000000000000000000000000000000000011"

text \<open>The L1 block, its deposits, the system configuration and the sequence number of the new block.\<close>

definition epoch_inputs :: "'c AttrLib \<Rightarrow> AttrEnv \<Rightarrow> L2BlockRef \<Rightarrow> BlockID
    \<Rightarrow> (AttrInfo \<times> bytes list \<times> SystemConfig \<times> u64) res" where
  "epoch_inputs lib env l2Parent epoch =
     (case SystemConfigByL2Hash env (l2_Hash l2Parent) of
        Inl err \<Rightarrow> Inl (NewTemporaryError (Some (Wrap ''failed to retrieve L2 parent block'' err)))
      | Inr sysConfig \<Rightarrow>
          if bid_Number (l2_L1Origin l2Parent) \<noteq> bid_Number epoch then
            (case AttrFetchReceipts env (bid_Hash epoch) of
               Inl err \<Rightarrow> Inl (NewTemporaryError (Some (Wrap ''failed to fetch L1 block info and receipts'' err)))
             | Inr (info, receipts) \<Rightarrow>
                 if bid_Hash (l2_L1Origin l2Parent) \<noteq> ai_ParentHash info then
                   Inl (NewResetError (Some (Msg ''cannot create new block with L1 origin on top of L1 origin'')))
                 else
                   (case DeriveDeposits (al_keccak256 lib) (al_depositAbiHash lib) (al_encodeTx lib) receipts
                           (cfg_DepositContractAddress (al_cfg lib)) of
                      (_, err # _) \<Rightarrow> Inl (NewCriticalError (Some (Wrap ''failed to derive some deposits'' err)))
                    | (deposits, []) \<Rightarrow>
                        (case UpdateSystemConfigWithL1Receipts (al_configAbiHash lib) sysConfig receipts
                                (al_cfg lib) (bi_Time info) of
                           (_, err # _) \<Rightarrow>
                             Inl (NewCriticalError (Some (Wrap ''failed to apply derived L1 sysCfg updates'' err)))
                         | (sysConfig, []) \<Rightarrow> Inr (info, deposits, sysConfig, 0))))
          else if bid_Hash (l2_L1Origin l2Parent) \<noteq> bid_Hash epoch then
            Inl (NewResetError (Some (Msg ''cannot create new block with L1 origin in conflict with L1 origin'')))
          else
            (case InfoByHash env (bid_Hash epoch) of
               Inl err \<Rightarrow> Inl (NewTemporaryError (Some (Wrap ''failed to fetch L1 block info'' err)))
             | Inr info \<Rightarrow> Inr (info, [], sysConfig, l2_SequenceNumber l2Parent + 1)))"

text \<open>The base fee; a missing one makes the fee's first use panic.\<close>

definition l1_base_fee :: "'c AttrLib \<Rightarrow> AttrEnv \<Rightarrow> L2BlockRef \<Rightarrow> BlockID \<Rightarrow> 'c SnowState
    \<Rightarrow> (int option res \<times> 'c SnowState) go" where
  "l1_base_fee lib env l2Parent epoch st =
     (if IsSnow (al_cfg lib) (NextSecondBlockTime (al_cfg lib) (l2_MillisecondTimestamp l2Parent)) then
        SnowL1GasPrice (al_cache lib) env epoch st
      else if IsFermat (al_cfg lib) (Some (sint (l2_Number l2Parent + 1))) then
        (case cfg_L2ChainID (al_cfg lib) of
           None \<Rightarrow> None
         | Some chainId \<Rightarrow> Some (Inr (Some (BaseFeeByNetworks chainId)), st))
      else
        (case InfoAndTxsByHash env (bid_Hash epoch) of
           Inl err \<Rightarrow> Some (Inl (NewTemporaryError (Some (Wrap ''failed to fetch L1 block info and txs'' err))), st)
         | Inr (_, transactions) \<Rightarrow> Some (Inr (Some (BaseFeeByTransactions transactions)), st)))"

definition upgrade_txs :: "'c AttrLib \<Rightarrow> u64 \<Rightarrow> bytes list res" where
  "upgrade_txs lib nextL2MilliTime =
     (let ecotone = (if IsEcotoneActivationBlock (al_cfg lib) (nextL2MilliTime div 1000) then
                       (case EcotoneNetworkUpgradeTransactions (al_keccak256 lib) (al_encodeTx lib) (al_code lib) of
                          Inl err \<Rightarrow> Inl (NewCriticalError (Some (Wrap ''failed to build ecotone network upgrade txs'' err)))
                        | Inr txs \<Rightarrow> Inr txs)
                     else Inr [])
      in case ecotone of
           Inl err \<Rightarrow> Inl err
         | Inr upgradeTxs \<Rightarrow>
             if IsFjordActivationBlock (al_cfg lib) (nextL2MilliTime div 1000) then
               (case FjordNetworkUpgradeTransactions (al_keccak256 lib) (al_encodeTx lib) (al_code lib) of
                  Inl err \<Rightarrow> Inl (NewCriticalError (Some (Wrap ''failed to build fjord network upgrade txs'' err)))
                | Inr fjord \<Rightarrow> Inr (upgradeTxs @ fjord))
             else Inr upgradeTxs)"

definition finish_attributes :: "'c AttrLib \<Rightarrow> L2BlockRef \<Rightarrow> AttrInfo \<Rightarrow> bytes list \<Rightarrow> SystemConfig \<Rightarrow> u64
    \<Rightarrow> int option \<Rightarrow> PayloadAttributes res go" where
  "finish_attributes lib l2Parent info depositTxs sysConfig seqNumber l1BaseFee =
     (let cfg = al_cfg lib;
          nextL2MilliTime = NextMillisecondBlockTime cfg (l2_MillisecondTimestamp l2Parent) in
      if nextL2MilliTime < ai_MillisecondTimestamp info then
        Some (Inl (NewResetError (Some (Msg ''cannot build L2 block before L1 origin''))))
      else
        (case upgrade_txs lib nextL2MilliTime of
           Inl err \<Rightarrow> Some (Inl err)
         | Inr upgradeTxs \<Rightarrow> do {
             baseFee \<leftarrow> l1BaseFee;
             let l1Info = BlockInfo.truncate (info\<lparr>bi_BaseFee := baseFee\<rparr>);
             case L1InfoDepositBytes (al_keccak256 lib) (al_encodeTx lib) cfg sysConfig seqNumber l1Info nextL2MilliTime of
               Inl err \<Rightarrow> Some (Inl (NewCriticalError (Some (Wrap ''failed to create l1InfoTx'' err))))
             | Inr l1InfoTx \<Rightarrow> do {
                 let withdrawals = (if IsCanyon cfg (nextL2MilliTime div 1000) then Some [] else None);
                 let parentBeaconRoot =
                   (if IsEcotone cfg (nextL2MilliTime div 1000) then
                      Some (case ai_ParentBeaconRoot info of None \<Rightarrow> 0 | Some root \<Rightarrow> root)
                    else None);
                 let pa = \<lparr>pa_Timestamp = 0, pa_PrevRandao = ai_MixDigest info,
                           pa_SuggestedFeeRecipient = SequencerFeeVaultAddr, pa_Withdrawals = withdrawals,
                           pa_ParentBeaconBlockRoot = parentBeaconRoot,
                           pa_Transactions = l1InfoTx # depositTxs @ upgradeTxs, pa_NoTxPool = True,
                           pa_GasLimit = Some (GasLimit sysConfig)\<rparr>;
                 let pa = SetMillisecondTimestamp nextL2MilliTime (IsVolta cfg (nextL2MilliTime div 1000)) pa;
                 pa \<leftarrow> (if IsFourier cfg (nextL2MilliTime div 1000) then
                          (let blockIntervalCount = MillisecondBlockInterval cfg nextL2MilliTime div BlockMillisecondsInterval
                           in SetBlockIntervalCount (blockIntervalCount + 1) pa)
                        else Some pa);
                 Some (Inr pa)
               }
           }))"

definition PreparePayloadAttributes :: "'c AttrLib \<Rightarrow> AttrEnv \<Rightarrow> L2BlockRef \<Rightarrow> BlockID \<Rightarrow> 'c SnowState
    \<Rightarrow> (PayloadAttributes res \<times> 'c SnowState) go" where
  "PreparePayloadAttributes lib env l2Parent epoch st =
     (case epoch_inputs lib env l2Parent epoch of
        Inl err \<Rightarrow> Some (Inl err, st)
      | Inr (info, depositTxs, sysConfig, seqNumber) \<Rightarrow> do {
          (fee, st) \<leftarrow> l1_base_fee lib env l2Parent epoch st;
          case fee of
            Inl err \<Rightarrow> Some (Inl err, st)
          | Inr l1BaseFee \<Rightarrow> do {
              pa \<leftarrow> finish_attributes lib l2Parent info depositTxs sysConfig seqNumber l1BaseFee;
              Some (pa, st)
            }
        })"


section \<open>The block time in the attributes\<close>

lemma nat_to_be_last2:
  "nat_to_be 32 v ! 31 = of_nat (v mod 256)" "nat_to_be 32 v ! 30 = of_nat (v div 256 mod 256)"
proof -
  have n: "(32 :: nat) = Suc (Suc 30)" by simp
  have "nat_to_be 32 v = nat_to_be 30 (v div 256 div 256) @ [of_nat (v div 256 mod 256), of_nat (v mod 256)]"
    unfolding n nat_to_be.simps append_assoc append_Cons append_Nil by (rule refl)
  then show "nat_to_be 32 v ! 31 = of_nat (v mod 256)" "nat_to_be 32 v ! 30 = of_nat (v div 256 mod 256)"
    by (simp_all add: nth_append del: nat_to_be.simps)
qed

lemma milliPart_bytes:
  "length b = 32 \<Longrightarrow> milliPart (be_get b) = ucast (b ! 0) * 256 + ucast (b ! 1)"
  by (simp add: milliPart_def be_put_get)

lemma two_bytes:
  assumes "m < 65536"
  shows "(ucast (of_nat (m div 256 mod 256) :: byte) * 256 + ucast (of_nat (m mod 256) :: byte) :: u64) = of_nat m"
proof -
  have c: "(ucast (of_nat k :: byte) :: u64) = of_nat k" if "k < 256" for k
    using that by (simp add: unsigned_of_nat take_bit_nat_eq_self)
  have "(of_nat (m div 256 mod 256) * 256 + of_nat (m mod 256) :: u64) = of_nat (m div 256 * 256 + m mod 256)"
    using assms by (simp only: of_nat_add of_nat_mult) simp
  then show ?thesis using c [of "m div 256 mod 256"] c [of "m mod 256"] by simp
qed

lemma SetMillisecondTimestamp_time:
  fixes pa :: PayloadAttributes and ts :: u64
  defines "pa' \<equiv> SetMillisecondTimestamp ts True pa"
  shows "pa_Timestamp pa' = ts div 1000" "milliPart (pa_PrevRandao pa') = ts mod 1000"
    "pa_Transactions pa' = pa_Transactions pa"
proof -
  let ?b = "(be_put 32 (pa_PrevRandao pa))[0 := nat_to_be 32 (unat (ts mod 1000)) ! 30,
     1 := nat_to_be 32 (unat (ts mod 1000)) ! 31, 2 := 1]"
  have p: "pa' = pa\<lparr>pa_Timestamp := ts div 1000, pa_PrevRandao := be_get ?b\<rparr>"
    by (simp add: pa'_def SetMillisecondTimestamp_def Let_def)
  then show "pa_Timestamp pa' = ts div 1000" "pa_Transactions pa' = pa_Transactions pa" by simp_all
  have "unat (ts mod 1000) < 65536" by (simp add: unat_mod)
  then show "milliPart (pa_PrevRandao pa') = ts mod 1000"
    using two_bytes [of "unat (ts mod 1000)"]
    by (simp add: p milliPart_bytes nat_to_be_last2 del: nat_to_be.simps)
qed

lemma SetBlockIntervalCount_time:
  assumes "SetBlockIntervalCount n pa = Some pa'"
  shows "pa_Timestamp pa' = pa_Timestamp pa" "milliPart (pa_PrevRandao pa') = milliPart (pa_PrevRandao pa)"
    "pa_Transactions pa' = pa_Transactions pa"
  using assms
  by (auto simp: SetBlockIntervalCount_def milliPart_bytes milliPart_def [of "pa_PrevRandao pa"] Let_def split: if_splits
      simp del: nat_to_be.simps)

lemma finish_attributes_Inr:
  assumes "finish_attributes lib l2Parent info depositTxs sysConfig seqNumber l1BaseFee = Some (Inr pa)"
  defines "ms \<equiv> NextMillisecondBlockTime (al_cfg lib) (l2_MillisecondTimestamp l2Parent)"
  obtains fee dep tx upgradeTxs where
    "L1InfoDeposit (al_keccak256 lib) (al_cfg lib) sysConfig seqNumber (BlockInfo.truncate (info\<lparr>bi_BaseFee := fee\<rparr>)) ms = Inr dep"
    "al_encodeTx lib dep = Inr tx" "pa_Transactions pa = tx # depositTxs @ upgradeTxs"
    "upgrade_txs lib ms = Inr upgradeTxs" "ai_MillisecondTimestamp info \<le> ms" "pa_Timestamp pa = ms div 1000"
    "milliPart (pa_PrevRandao pa) =
       (if IsVolta (al_cfg lib) (ms div 1000) then ms mod 1000 else milliPart (ai_MixDigest info))"
proof -
  have t: "\<not> ms < ai_MillisecondTimestamp info"
    using assms by (auto simp: finish_attributes_def Let_def)
  obtain upgradeTxs where u: "upgrade_txs lib ms = Inr upgradeTxs"
    using assms t by (cases "upgrade_txs lib ms") (auto simp: finish_attributes_def Let_def)
  obtain fee where f: "l1BaseFee = Some fee"
    using assms t u by (cases l1BaseFee) (auto simp: finish_attributes_def Let_def)
  let ?l1Info = "BlockInfo.truncate (info\<lparr>bi_BaseFee := fee\<rparr>)"
  obtain tx where tx: "L1InfoDepositBytes (al_keccak256 lib) (al_encodeTx lib) (al_cfg lib) sysConfig seqNumber ?l1Info ms = Inr tx"
    using assms t u f
    by (cases "L1InfoDepositBytes (al_keccak256 lib) (al_encodeTx lib) (al_cfg lib) sysConfig seqNumber ?l1Info ms")
      (auto simp: finish_attributes_def Let_def)
  obtain dep where dep: "L1InfoDeposit (al_keccak256 lib) (al_cfg lib) sysConfig seqNumber ?l1Info ms = Inr dep"
    "al_encodeTx lib dep = Inr tx"
    using tx by (auto simp: L1InfoDepositBytes_def split: sum.splits)
  obtain pa0 where pa0: "pa_Transactions pa0 = tx # depositTxs @ upgradeTxs" "pa_PrevRandao pa0 = ai_MixDigest info"
    "(if IsFourier (al_cfg lib) (ms div 1000) then
        SetBlockIntervalCount (MillisecondBlockInterval (al_cfg lib) ms div BlockMillisecondsInterval + 1)
          (SetMillisecondTimestamp ms (IsVolta (al_cfg lib) (ms div 1000)) pa0)
      else Some (SetMillisecondTimestamp ms (IsVolta (al_cfg lib) (ms div 1000)) pa0)) = Some pa"
  proof (rule that)
    let ?pa0 = "\<lparr>pa_Timestamp = 0, pa_PrevRandao = ai_MixDigest info, pa_SuggestedFeeRecipient = SequencerFeeVaultAddr,
       pa_Withdrawals = (if IsCanyon (al_cfg lib) (ms div 1000) then Some [] else None),
       pa_ParentBeaconBlockRoot = (if IsEcotone (al_cfg lib) (ms div 1000)
          then Some (case ai_ParentBeaconRoot info of None \<Rightarrow> 0 | Some root \<Rightarrow> root) else None),
       pa_Transactions = tx # depositTxs @ upgradeTxs, pa_NoTxPool = True, pa_GasLimit = Some (GasLimit sysConfig)\<rparr>"
    show "pa_Transactions ?pa0 = tx # depositTxs @ upgradeTxs" "pa_PrevRandao ?pa0 = ai_MixDigest info" by simp_all
    show "(if IsFourier (al_cfg lib) (ms div 1000) then
        SetBlockIntervalCount (MillisecondBlockInterval (al_cfg lib) ms div BlockMillisecondsInterval + 1)
          (SetMillisecondTimestamp ms (IsVolta (al_cfg lib) (ms div 1000)) ?pa0)
      else Some (SetMillisecondTimestamp ms (IsVolta (al_cfg lib) (ms div 1000)) ?pa0)) = Some pa"
      using assms(1) t u tx unfolding finish_attributes_def Let_def ms_def [symmetric] f
      by (auto split: if_splits bind_splits)
  qed
  let ?pa1 = "SetMillisecondTimestamp ms (IsVolta (al_cfg lib) (ms div 1000)) pa0"
  have "pa_Timestamp ?pa1 = ms div 1000" "pa_Transactions ?pa1 = pa_Transactions pa0"
    by (simp_all add: SetMillisecondTimestamp_def Let_def)
  moreover have "milliPart (pa_PrevRandao ?pa1) =
      (if IsVolta (al_cfg lib) (ms div 1000) then ms mod 1000 else milliPart (ai_MixDigest info))"
    using SetMillisecondTimestamp_time(2) [of ms pa0] pa0(2) by (simp add: SetMillisecondTimestamp_def Let_def)
  moreover have "pa_Timestamp pa = pa_Timestamp ?pa1 \<and> pa_Transactions pa = pa_Transactions ?pa1
      \<and> milliPart (pa_PrevRandao pa) = milliPart (pa_PrevRandao ?pa1)"
    using pa0(3) SetBlockIntervalCount_time by (auto split: if_splits)
  ultimately show ?thesis
    using pa0(1) t by (intro that [OF dep _ u]) (simp_all add: not_less)
qed


text \<open>The L1 client answers with the block that was asked for.\<close>

definition honest_l1 :: "AttrEnv \<Rightarrow> BlockID \<Rightarrow> bool" where
  "honest_l1 env epoch \<longleftrightarrow>
     (\<forall>info receipts. AttrFetchReceipts env (bid_Hash epoch) = Inr (info, receipts) \<longrightarrow>
        bi_Hash info = bid_Hash epoch \<and> bi_NumberU64 info = bid_Number epoch) \<and>
     (\<forall>info. InfoByHash env (bid_Hash epoch) = Inr info \<longrightarrow>
        bi_Hash info = bid_Hash epoch \<and> bi_NumberU64 info = bid_Number epoch)"

lemma epoch_inputs_Inr:
  assumes "epoch_inputs lib env l2Parent epoch = Inr (info, depositTxs, sysConfig, seqNumber)"
    and "honest_l1 env epoch"
  shows "bi_Hash info = bid_Hash epoch" "bi_NumberU64 info = bid_Number epoch"
    "seqNumber = (if bid_Number (l2_L1Origin l2Parent) \<noteq> bid_Number epoch then 0 else l2_SequenceNumber l2Parent + 1)"
    "bid_Number (l2_L1Origin l2Parent) \<noteq> bid_Number epoch \<Longrightarrow> bid_Hash (l2_L1Origin l2Parent) = ai_ParentHash info"
    "bid_Number (l2_L1Origin l2Parent) = bid_Number epoch \<Longrightarrow> l2_L1Origin l2Parent = epoch \<and> depositTxs = []"
  using assms
  by (auto simp: epoch_inputs_def honest_l1_def split: sum.splits if_splits prod.splits list.splits intro: BlockID.equality)

lemma PreparePayloadAttributes_Inr:
  assumes "PreparePayloadAttributes lib env l2Parent epoch st = Some (Inr pa, st')"
  obtains info depositTxs sysConfig seqNumber l1BaseFee where
    "epoch_inputs lib env l2Parent epoch = Inr (info, depositTxs, sysConfig, seqNumber)"
    "l1_base_fee lib env l2Parent epoch st = Some (Inr l1BaseFee, st')"
    "finish_attributes lib l2Parent info depositTxs sysConfig seqNumber l1BaseFee = Some (Inr pa)"
  using assms
  by (auto simp: PreparePayloadAttributes_def split: sum.splits prod.splits bind_splits)

text \<open>The block of a payload that the engine makes from attributes: the attributes' transactions
  come first.\<close>

definition built_from :: "PayloadAttributes \<Rightarrow> ExecutionPayload \<Rightarrow> bool" where
  "built_from pa payload \<longleftrightarrow>
     ep_Timestamp payload = pa_Timestamp pa \<and> ep_PrevRandao payload = pa_PrevRandao pa \<and>
     take (length (pa_Transactions pa)) (ep_Transactions payload) = pa_Transactions pa"

lemma read_back:
  assumes "PreparePayloadAttributes lib env l2Parent epoch st = Some (Inr pa, st')"
    and "built_from pa payload"
    and "\<forall>dep tx. al_encodeTx lib dep = Inr tx \<longrightarrow> decodeTx tx = Inr (DepositTxType, dt_Data dep)"
    and "ep_BlockNumber payload \<noteq> bid_Number (gen_L2 (cfg_Genesis (al_cfg lib)))"
  defines "ms \<equiv> NextMillisecondBlockTime (al_cfg lib) (l2_MillisecondTimestamp l2Parent)"
  obtains info depositTxs sysConfig seqNumber where
    "epoch_inputs lib env l2Parent epoch = Inr (info, depositTxs, sysConfig, seqNumber)"
    "PayloadToBlockRef (al_keccak256 lib) decodeTx (al_cfg lib) payload =
       Inr \<lparr>l2_Hash = ep_BlockHash payload, l2_Number = ep_BlockNumber payload,
            l2_ParentHash = ep_ParentHash payload, l2_Time = ms div 1000,
            l2_MilliTime = (if IsVolta (al_cfg lib) (ms div 1000) then ms mod 1000 else milliPart (ai_MixDigest info)),
            l2_L1Origin = \<lparr>bid_Hash = bi_Hash info, bid_Number = bi_NumberU64 info\<rparr>, l2_SequenceNumber = seqNumber\<rparr>"
proof -
  from PreparePayloadAttributes_Inr [OF assms(1)] obtain info depositTxs sysConfig seqNumber l1BaseFee where
    e: "epoch_inputs lib env l2Parent epoch = Inr (info, depositTxs, sysConfig, seqNumber)" and
    f: "finish_attributes lib l2Parent info depositTxs sysConfig seqNumber l1BaseFee = Some (Inr pa)" .
  from finish_attributes_Inr [OF f] obtain fee dep tx upgradeTxs where
    dep: "L1InfoDeposit (al_keccak256 lib) (al_cfg lib) sysConfig seqNumber (BlockInfo.truncate (info\<lparr>bi_BaseFee := fee\<rparr>)) ms = Inr dep"
    and tx: "al_encodeTx lib dep = Inr tx" and txs: "pa_Transactions pa = tx # depositTxs @ upgradeTxs"
    and t: "pa_Timestamp pa = ms div 1000"
    and m: "milliPart (pa_PrevRandao pa) = (if IsVolta (al_cfg lib) (ms div 1000) then ms mod 1000 else milliPart (ai_MixDigest info))"
    unfolding ms_def .
  obtain rest where "ep_Transactions payload = tx # rest"
    using assms(2) txs by (cases "ep_Transactions payload") (auto simp: built_from_def)
  then have s: "starts_with_deposit decodeTx payload ms dep"
    using assms(2,3) t tx by (simp add: starts_with_deposit_def built_from_def)
  have p: "ep_Timestamp payload = ms div 1000" "ep_PrevRandao payload = pa_PrevRandao pa"
    using assms(2) t by (simp_all add: built_from_def)
  let ?l1Info = "BlockInfo.truncate (info\<lparr>bi_BaseFee := fee\<rparr>)"
  have b: "bi_Hash ?l1Info = bi_Hash info" "bi_NumberU64 ?l1Info = bi_NumberU64 info"
    by (simp_all add: BlockInfo.truncate_def)
  from payload_info_deposit [OF dep s] obtain scalars where
    i: "payload_info (al_keccak256 lib) decodeTx (al_cfg lib) payload
       = Inr (deposit_info (al_cfg lib) sysConfig seqNumber ?l1Info (ms div 1000) scalars)"
    by blast
  show ?thesis
    using p b m
    by (intro that [OF e]) (simp add: PayloadToBlockRef_def i deposit_info_def zero_L1BlockInfo_def assms(4) Let_def)
qed

text \<open>C39: attributes are read back from the block. When PreparePayloadAttributes succeeds after Volta,
  the L1 client is honest and the transaction decoder inverts the encoder on deposits, then any block
  other than the genesis that the engine builds from the attributes has, as PayloadToBlockRef reads
  it, the epoch as its L1 origin, sequence number zero exactly at a change of epoch and one more than
  the parent's otherwise, and a millisecond timestamp one block interval after its parent's.\<close>

theorem attributes_read_back:
  assumes "PreparePayloadAttributes lib env l2Parent epoch st = Some (Inr pa, st')"
    and "built_from pa payload"
    and "honest_l1 env epoch"
    and "\<forall>dep tx. al_encodeTx lib dep = Inr tx \<longrightarrow> decodeTx tx = Inr (DepositTxType, dt_Data dep)"
    and "ep_BlockNumber payload \<noteq> bid_Number (gen_L2 (cfg_Genesis (al_cfg lib)))"
    and "IsVolta (al_cfg lib) (NextSecondBlockTime (al_cfg lib) (l2_MillisecondTimestamp l2Parent))"
  shows "\<exists>ref. PayloadToBlockRef (al_keccak256 lib) decodeTx (al_cfg lib) payload = Inr ref \<and>
     l2_Hash ref = ep_BlockHash payload \<and> l2_L1Origin ref = epoch \<and>
     l2_SequenceNumber ref =
       (if bid_Number (l2_L1Origin l2Parent) \<noteq> bid_Number epoch then 0 else l2_SequenceNumber l2Parent + 1) \<and>
     l2_MillisecondTimestamp ref = NextMillisecondBlockTime (al_cfg lib) (l2_MillisecondTimestamp l2Parent)"
proof -
  let ?ms = "NextMillisecondBlockTime (al_cfg lib) (l2_MillisecondTimestamp l2Parent)"
  have d: "?ms div 1000 * 1000 + ?ms mod 1000 = ?ms" by (rule div_mult_mod_eq)
  from read_back [OF assms(1,2,4,5)] obtain info depositTxs sysConfig seqNumber where
    e: "epoch_inputs lib env l2Parent epoch = Inr (info, depositTxs, sysConfig, seqNumber)" and
    p: "PayloadToBlockRef (al_keccak256 lib) decodeTx (al_cfg lib) payload =
       Inr \<lparr>l2_Hash = ep_BlockHash payload, l2_Number = ep_BlockNumber payload,
            l2_ParentHash = ep_ParentHash payload, l2_Time = ?ms div 1000,
            l2_MilliTime = (if IsVolta (al_cfg lib) (?ms div 1000) then ?ms mod 1000 else milliPart (ai_MixDigest info)),
            l2_L1Origin = \<lparr>bid_Hash = bi_Hash info, bid_Number = bi_NumberU64 info\<rparr>, l2_SequenceNumber = seqNumber\<rparr>" .
  then show ?thesis
    using epoch_inputs_Inr(1-3) [OF e assms(3)] assms(6) d by (simp add: l2_MillisecondTimestamp_def NextSecondBlockTime_def)
qed

definition attr_info :: AttrInfo where
  "attr_info = \<lparr>bi_Hash = 5, bi_NumberU64 = 6, bi_Time = 7, bi_BaseFee = 8, bi_BlobBaseFee = None,
     ai_ParentHash = 4, ai_MixDigest = 0, ai_MillisecondTimestamp = 7000, ai_ParentBeaconRoot = None\<rparr>"

definition attr_env :: AttrEnv where
  "attr_env = \<lparr>SystemConfigByL2Hash = (\<lambda>_. Inr \<lparr>BatcherAddr = 1, Overhead = 2, Scalar = EncodeScalar \<lparr>BlobBaseFeeScalar = 3, BaseFeeScalar = 2\<rparr>, GasLimit = 4\<rparr>),
     AttrFetchReceipts = (\<lambda>_. Inr (attr_info, [])), InfoByHash = (\<lambda>_. Inr attr_info),
     InfoAndTxsByHash = (\<lambda>_. Inr (attr_info, [7]))\<rparr>"

definition attr_lib :: "unit AttrLib" where
  "attr_lib = \<lparr>al_keccak256 = (\<lambda>_. 0), al_depositAbiHash = 1, al_configAbiHash = 2,
     al_encodeTx = (\<lambda>dep. Inr (dt_Data dep)),
     al_code = \<lparr>uc_CreateAddress = (\<lambda>_ _. 0), uc_l1BlockDeploymentBytecode = [],
       uc_gasPriceOracleDeploymentBytecode = [], uc_gasPriceOracleFjordDeploymentBytecode = []\<rparr>,
     al_cache = \<lparr>cl_Get = (\<lambda>c _. (None, c)), cl_Add = (\<lambda>c _ _. c)\<rparr>, al_cfg = OPBNBTestnet\<rparr>"

definition attr_parent :: L2BlockRef where
  "attr_parent = \<lparr>l2_Hash = 20, l2_Number = 100, l2_ParentHash = 19, l2_Time = 1750000000, l2_MilliTime = 500,
     l2_L1Origin = \<lparr>bid_Hash = 5, bid_Number = 6\<rparr>, l2_SequenceNumber = 3\<rparr>"


lemmas attributes_eval = attr_lib_def attr_env_def attr_info_def attr_parent_def
  NextMillisecondBlockTime_def NextSecondBlockTime_def MillisecondBlockInterval_def l2_MillisecondTimestamp_def
  OPBNBTestnet_def

lemma attr_epoch: "epoch_inputs attr_lib attr_env attr_parent \<lparr>bid_Hash = 5, bid_Number = 6\<rparr>
  = Inr (attr_info, [], \<lparr>BatcherAddr = 1, Overhead = 2, Scalar = EncodeScalar \<lparr>BlobBaseFeeScalar = 3, BaseFeeScalar = 2\<rparr>, GasLimit = 4\<rparr>, 4)"
  by (simp add: epoch_inputs_def attributes_eval)

lemma attr_time: "NextMillisecondBlockTime (al_cfg attr_lib) (l2_MillisecondTimestamp attr_parent) = 1750000001000"
  by (simp add: attributes_eval IsVolta_def IsFourier_def MillisecondBlockIntervalVolta_def)

lemma attr_fee: "l1_base_fee attr_lib attr_env attr_parent \<lparr>bid_Hash = 5, bid_Number = 6\<rparr> st
  = Some (Inr (Some DefaultBaseFee), st)"
  unfolding l1_base_fee_def NextSecondBlockTime_def attr_time
  by (simp add: IsSnow_def isTimestampForked_def attr_lib_def OPBNBTestnet_def SnowL1GasPrice_def CountBlockSize_def)

lemma attr_forks:
  "isEcotoneButNotFirstBlock (al_cfg attr_lib) 1750000001" "IsRegolith (al_cfg attr_lib) 1750000001"
  "IsVolta (al_cfg attr_lib) 1750000001" "\<not> IsFourier (al_cfg attr_lib) 1750000001"
  "upgrade_txs attr_lib 1750000001000 = Inr []"
  by (simp_all add: isEcotoneButNotFirstBlock_def IsEcotoneActivationBlock_def IsFjordActivationBlock_def upgrade_txs_def
    SecondBlockInterval_def MillisecondBlockInterval_def MillisecondBlockIntervalVolta_def fork_defs
    attr_lib_def OPBNBTestnet_def)

lemma attr_succeeds:
  "\<exists>pa. PreparePayloadAttributes attr_lib attr_env attr_parent \<lparr>bid_Hash = 5, bid_Number = 6\<rparr> st = Some (Inr pa, st)"
proof -
  let ?sysConfig = "\<lparr>BatcherAddr = 1, Overhead = 2, Scalar = EncodeScalar \<lparr>BlobBaseFeeScalar = 3, BaseFeeScalar = 2\<rparr>, GasLimit = 4\<rparr>"
  obtain dep where dep: "L1InfoDeposit (al_keccak256 attr_lib) (al_cfg attr_lib) ?sysConfig 4
      (BlockInfo.truncate (attr_info\<lparr>bi_BaseFee := DefaultBaseFee\<rparr>)) 1750000001000 = Inr dep"
    using attr_forks(1,2)
    by (auto simp: L1InfoDeposit_def EcotoneScalars_EncodeScalar marshalBinaryEcotone_def
        WriteUint256_def attr_info_def BlockInfo.truncate_def DefaultBaseFee_def zero_L1BlockInfo_def Let_def)
  have "\<exists>pa. finish_attributes attr_lib attr_parent attr_info [] ?sysConfig 4 (Some DefaultBaseFee) = Some (Inr pa)"
    unfolding finish_attributes_def attr_time Let_def L1InfoDepositBytes_def
    using attr_forks(3-5) dep
    by (simp add: attr_lib_def attr_info_def)
  then show ?thesis
    unfolding PreparePayloadAttributes_def attr_epoch by (auto simp: attr_fee)
qed

definition attr_payload :: "PayloadAttributes \<Rightarrow> ExecutionPayload" where
  "attr_payload pa = \<lparr>ep_ParentHash = 20, ep_PrevRandao = pa_PrevRandao pa, ep_BlockNumber = 101, ep_GasLimit = 10,
     ep_Timestamp = pa_Timestamp pa, ep_BlockHash = 21, ep_Transactions = pa_Transactions pa\<rparr>"

theorem attributes_read_back_witness:
  "\<exists>pa ref. PreparePayloadAttributes attr_lib attr_env attr_parent \<lparr>bid_Hash = 5, bid_Number = 6\<rparr>
       \<lparr>latestBlockHash = 0, latestL1GasPrice = None, BlockInfoCache = ()\<rparr>
       = Some (Inr pa, \<lparr>latestBlockHash = 0, latestL1GasPrice = None, BlockInfoCache = ()\<rparr>) \<and>
     PayloadToBlockRef (\<lambda>_. 0) (\<lambda>tx. Inr (DepositTxType, tx)) OPBNBTestnet (attr_payload pa) = Inr ref \<and>
     l2_L1Origin ref = \<lparr>bid_Hash = 5, bid_Number = 6\<rparr> \<and> l2_SequenceNumber ref = 4 \<and>
     l2_MillisecondTimestamp ref = 1750000001000"
proof -
  let ?epoch = "\<lparr>bid_Hash = 5, bid_Number = 6\<rparr>" and ?st = "\<lparr>latestBlockHash = 0, latestL1GasPrice = None, BlockInfoCache = ()\<rparr>"
  obtain pa where pa: "PreparePayloadAttributes attr_lib attr_env attr_parent ?epoch ?st = Some (Inr pa, ?st)"
    using attr_succeeds by blast
  have b: "built_from pa (attr_payload pa)" by (simp add: built_from_def attr_payload_def)
  have h: "honest_l1 attr_env ?epoch" by (simp add: honest_l1_def attr_env_def attr_info_def)
  have d: "\<forall>dep tx. al_encodeTx attr_lib dep = Inr tx \<longrightarrow> Inr (DepositTxType, tx) = Inr (DepositTxType, dt_Data dep)"
    by (simp add: attr_lib_def)
  have n: "ep_BlockNumber (attr_payload pa) \<noteq> bid_Number (gen_L2 (cfg_Genesis (al_cfg attr_lib)))"
    by (simp add: attr_payload_def attr_lib_def OPBNBTestnet_def)
  have v: "IsVolta (al_cfg attr_lib) (NextSecondBlockTime (al_cfg attr_lib) (l2_MillisecondTimestamp attr_parent))"
    unfolding NextSecondBlockTime_def attr_time using attr_forks(3) by simp
  have l: "al_cfg attr_lib = OPBNBTestnet" "al_keccak256 attr_lib = (\<lambda>_. 0)"
    "l2_L1Origin attr_parent = ?epoch" "l2_SequenceNumber attr_parent = 3"
    by (simp_all add: attr_lib_def attr_parent_def)
  show ?thesis
    using attributes_read_back [of _ _ _ _ _ _ _ _ "\<lambda>tx. Inr (DepositTxType, tx)", OF pa b h d n v] pa
    unfolding attr_time [unfolded l] l by auto
qed


section \<open>The cached gas price\<close>

text \<open>The price without a cache: the medians of the block and its twenty ancestors.\<close>

fun snow_prices :: "AttrEnv \<Rightarrow> nat \<Rightarrow> Hash \<Rightarrow> int list option" where
  "snow_prices env 0 blockHash = Some []"
| "snow_prices env (Suc n) blockHash =
     (case InfoAndTxsByHash env blockHash of
        Inl _ \<Rightarrow> None
      | Inr (block, transactions) \<Rightarrow>
          map_option ((#) (MedianGasPrice transactions)) (snow_prices env n (ai_ParentHash block)))"

definition snow_reference :: "AttrEnv \<Rightarrow> BlockID \<Rightarrow> int option" where
  "snow_reference env epoch =
     (if bid_Number epoch < 20 then Some DefaultBaseFee
      else map_option (\<lambda>prices. sort prices ! 10) (snow_prices env 21 (bid_Hash epoch)))"

text \<open>What a cache promises, with the entries it may still hold: it answers with the last entry that
  was added for a key, and may forget entries at any time.\<close>

definition cache_laws :: "'c CacheLib \<Rightarrow> ('c \<Rightarrow> Hash \<rightharpoonup> BscBlockInfo) \<Rightarrow> bool" where
  "cache_laws lib held \<longleftrightarrow>
     (\<forall>c h. held (snd (cl_Get lib c h)) \<subseteq>\<^sub>m held c \<and>
            (\<forall>b. fst (cl_Get lib c h) = Some b \<longrightarrow> held c h = Some b)) \<and>
     (\<forall>c h b. held (cl_Add lib c h b) \<subseteq>\<^sub>m (held c)(h \<mapsto> b))"

definition true_entry :: "AttrEnv \<Rightarrow> Hash \<Rightarrow> BscBlockInfo \<Rightarrow> bool" where
  "true_entry env h b \<longleftrightarrow>
     (\<exists>block transactions. InfoAndTxsByHash env h = Inr (block, transactions) \<and>
        bb_ParentHash b = ai_ParentHash block \<and> bb_MedianGasPrice b = MedianGasPrice transactions)"

definition cache_true :: "AttrEnv \<Rightarrow> (Hash \<rightharpoonup> BscBlockInfo) \<Rightarrow> bool" where
  "cache_true env m \<longleftrightarrow> (\<forall>h b. m h = Some b \<longrightarrow> true_entry env h b)"

definition snow_inv :: "AttrEnv \<Rightarrow> ('c \<Rightarrow> Hash \<rightharpoonup> BscBlockInfo) \<Rightarrow> 'c SnowState \<Rightarrow> bool" where
  "snow_inv env held st \<longleftrightarrow>
     cache_true env (held (BlockInfoCache st)) \<and>
     (\<forall>prices. snow_prices env 21 (latestBlockHash st) = Some prices \<longrightarrow> latestL1GasPrice st = Some (sort prices ! 10))"

lemma cache_true_mono: "cache_true env m \<Longrightarrow> m' \<subseteq>\<^sub>m m \<Longrightarrow> cache_true env m'"
  by (force simp: cache_true_def map_le_def dom_def)

lemma snow_prices_length: "snow_prices env n h = Some prices \<Longrightarrow> length prices = n"
  by (induction n arbitrary: h prices) (auto split: sum.splits)

lemma snow_loop_prices:
  assumes "cache_laws lib held" "\<forall>h block txs. InfoAndTxsByHash env h = Inr (block, txs) \<longrightarrow> bi_Hash block = h"
    and "cache_true env (held c)" "snow_prices env n h = Some prices"
  shows "\<exists>c'. snow_loop lib env n h acc c = (Inr (acc @ prices), c') \<and> cache_true env (held c')"
  using assms(3,4)
proof (induction n arbitrary: h acc c prices)
  case (Suc n)
  obtain block txs rest where f: "InfoAndTxsByHash env h = Inr (block, txs)"
    "snow_prices env n (ai_ParentHash block) = Some rest" "prices = MedianGasPrice txs # rest"
    using Suc.prems(2) by (auto split: sum.splits)
  obtain e c1 where g: "cl_Get lib c h = (e, c1)" by (cases "cl_Get lib c h")
  have "held c1 \<subseteq>\<^sub>m held c" and hit: "\<And>b. e = Some b \<Longrightarrow> held c h = Some b"
    using assms(1) g unfolding cache_laws_def by (metis snd_conv, metis fst_conv)
  then have c1: "cache_true env (held c1)" using Suc.prems(1) cache_true_mono by blast
  show ?case
  proof (cases e)
    case None
    let ?b = "\<lparr>bb_BlockHash = bi_Hash block, bb_ParentHash = ai_ParentHash block, bb_MedianGasPrice = MedianGasPrice txs\<rparr>"
    let ?c2 = "cl_Add lib c1 (bi_Hash block) ?b"
    have h: "bi_Hash block = h" using assms(2) f(1) by blast
    have "held ?c2 \<subseteq>\<^sub>m (held c1)(h \<mapsto> ?b)" using assms(1) h by (simp add: cache_laws_def)
    moreover have "cache_true env ((held c1)(h \<mapsto> ?b))"
      using c1 f(1) by (simp add: cache_true_def true_entry_def)
    ultimately have "cache_true env (held ?c2)" using cache_true_mono by blast
    from Suc.IH [OF this f(2), of "acc @ [MedianGasPrice txs]"] show ?thesis using g None f(1,3) by (auto simp: Let_def)
  next
    case (Some b)
    have "true_entry env h b" using hit [OF Some] Suc.prems(1) by (simp add: cache_true_def)
    then have b: "bb_ParentHash b = ai_ParentHash block" "bb_MedianGasPrice b = MedianGasPrice txs"
      using f(1) by (simp_all add: true_entry_def)
    from Suc.IH [OF c1 f(2), of "acc @ [MedianGasPrice txs]"] show ?thesis using g Some f(3) b by auto
  qed
qed simp

text \<open>The caches of the gas price are transparent. With a cache that may forget entries but never
  makes one up, in a state whose entries agree with L1, whenever the twenty-one blocks can be
  fetched, SnowL1GasPrice answers with the median of their medians computed afresh, and the state it
  leaves agrees with L1 again.\<close>

theorem SnowL1GasPrice_cache_transparent:
  assumes "cache_laws lib held"
    and "\<forall>h block txs. InfoAndTxsByHash env h = Inr (block, txs) \<longrightarrow> bi_Hash block = h"
    and "snow_inv env held st"
    and "snow_reference env epoch = Some price"
  shows "\<exists>st'. SnowL1GasPrice lib env epoch st = Some (Inr (Some price), st') \<and> snow_inv env held st'"
proof (cases "bid_Number epoch < 20")
  case True
  then show ?thesis using assms(3,4) by (simp add: SnowL1GasPrice_def snow_reference_def CountBlockSize_def)
next
  case False
  then obtain prices where p: "snow_prices env 21 (bid_Hash epoch) = Some prices" "price = sort prices ! 10"
    using assms(4) by (auto simp: snow_reference_def)
  have n: "\<not> bid_Number epoch < of_nat CountBlockSize - 1" using False by (simp add: CountBlockSize_def)
  have l: "length prices = 21" by (rule snow_prices_length [OF p(1)])
  then have final: "FinalGasPrice prices = Some price" using p(2) by (auto simp: FinalGasPrice_def)
  show ?thesis
  proof (cases "latestBlockHash st = bid_Hash epoch")
    case True
    then have "latestL1GasPrice st = Some price" using assms(3) p by (simp add: snow_inv_def)
    then show ?thesis using True n assms(3) by (simp add: SnowL1GasPrice_def)
  next
    case new: False
    have "cache_true env (held (BlockInfoCache st))" using assms(3) by (simp add: snow_inv_def)
    from snow_loop_prices [OF assms(1,2) this p(1), of "[]"] obtain c' where
      "snow_loop lib env CountBlockSize (bid_Hash epoch) [] (BlockInfoCache st) = (Inr prices, c')"
      "cache_true env (held c')" by (auto simp: CountBlockSize_def)
    then show ?thesis using new n final p by (simp add: SnowL1GasPrice_def snow_inv_def)
  qed
qed

definition chain_env :: AttrEnv where
  "chain_env = attr_env\<lparr>InfoAndTxsByHash := \<lambda>h. Inr (attr_info\<lparr>bi_Hash := h, ai_ParentHash := h - 1\<rparr>, [9, 0, 5])\<rparr>"

lemma chain_env_prices: "snow_prices chain_env n h = Some (replicate n 5)"
  by (induction n arbitrary: h) (simp_all add: chain_env_def MedianGasPrice_def)

definition map_cache :: "(Hash \<rightharpoonup> BscBlockInfo) CacheLib" where
  "map_cache = \<lparr>cl_Get = (\<lambda>c h. (c h, c)), cl_Add = (\<lambda>c h b. c(h \<mapsto> b))\<rparr>"

theorem SnowL1GasPrice_cache_transparent_witness:
  "\<exists>st'. SnowL1GasPrice map_cache chain_env \<lparr>bid_Hash = 30, bid_Number = 30\<rparr>
       \<lparr>latestBlockHash = 29, latestL1GasPrice = Some 5, BlockInfoCache = Map.empty\<rparr> = Some (Inr (Some 5), st')
     \<and> snow_inv chain_env (\<lambda>c. c) st'"
proof -
  have s: "sort (replicate 21 (5::int)) = replicate 21 5" by (rule sorted_sort_id) (simp add: sorted_replicate)
  then have r: "snow_reference chain_env \<lparr>bid_Hash = 30, bid_Number = 30\<rparr> = Some 5"
    by (simp add: snow_reference_def chain_env_prices)
  have i: "snow_inv chain_env (\<lambda>c. c) \<lparr>latestBlockHash = 29, latestL1GasPrice = Some 5, BlockInfoCache = Map.empty\<rparr>"
    using s by (simp add: snow_inv_def cache_true_def chain_env_prices)
  have l: "cache_laws map_cache (\<lambda>c. c)" by (simp add: cache_laws_def map_cache_def)
  have h: "\<forall>h block txs. InfoAndTxsByHash chain_env h = Inr (block, txs) \<longrightarrow> bi_Hash block = h"
    by (auto simp: chain_env_def)
  show ?thesis by (rule SnowL1GasPrice_cache_transparent [OF l h i r])
qed

end
