(* ===== verification/SpanBatch.thy ===== *)
theory SpanBatch
  imports SpanBatchTxs EthTypes
begin

text \<open>
  Batches (op-node/rollup/derive/batch.go, singular_batch.go, span_batch.go): the input of one L2
  block, and of a span of L2 blocks in its derived and its raw form. The RLP codec of a singular
  batch is a parameter, like the transaction library of the columns. The timestamp of a batch is
  in milliseconds once it is derived; on the side of the batcher it is in seconds before Volta.
\<close>

section \<open>Singular batches\<close>

record SingularBatch =
  sb_ParentHash :: Hash
  sb_EpochNum :: u64
  sb_EpochHash :: Hash
  sb_Timestamp :: u64
  sb_Transactions :: "bytes list"

definition Epoch :: "SingularBatch \<Rightarrow> BlockID" where
  "Epoch b = \<lparr>bid_Hash = sb_EpochHash b, bid_Number = sb_EpochNum b\<rparr>"

section \<open>Raw span batches\<close>

definition ErrEmptySpanBatch :: gerr where "ErrEmptySpanBatch = Msg ''span-batch must not be empty''"

record RawSpanBatch =
  relTimestamp :: u64
  l1OriginNum :: u64
  parentCheck :: Address
  l1OriginCheck :: Address
  blockCount :: u64
  originBits :: "nat option"
  blockTxCounts :: "u64 list"
  rsb_txs :: "spanBatchTxs option"

definition zero_RawSpanBatch :: RawSpanBatch where
  "zero_RawSpanBatch =
     \<lparr>relTimestamp = 0, l1OriginNum = 0, parentCheck = 0, l1OriginCheck = 0, blockCount = 0,
      originBits = None, blockTxCounts = [], rsb_txs = None\<rparr>"

definition decodeRelTimestamp :: "RawSpanBatch \<Rightarrow> bytes \<Rightarrow> (RawSpanBatch \<times> bytes) res" where
  "decodeRelTimestamp bp r =
     (case ReadUvarint r of
        Inl err \<Rightarrow> Inl (Wrap ''failed to read rel timestamp'' err)
      | Inr (n, r) \<Rightarrow> Inr (bp\<lparr>relTimestamp := n\<rparr>, r))"

definition decodeL1OriginNum :: "RawSpanBatch \<Rightarrow> bytes \<Rightarrow> (RawSpanBatch \<times> bytes) res" where
  "decodeL1OriginNum bp r =
     (case ReadUvarint r of
        Inl err \<Rightarrow> Inl (Wrap ''failed to read l1 origin num'' err)
      | Inr (n, r) \<Rightarrow> Inr (bp\<lparr>l1OriginNum := n\<rparr>, r))"

definition decodeParentCheck :: "RawSpanBatch \<Rightarrow> bytes \<Rightarrow> (RawSpanBatch \<times> bytes) res" where
  "decodeParentCheck bp r =
     (case ReadFull 20 r of
        Inl err \<Rightarrow> Inl (Wrap ''failed to read parent check'' err)
      | Inr (b, r) \<Rightarrow> Inr (bp\<lparr>parentCheck := be_get b\<rparr>, r))"

definition decodeL1OriginCheck :: "RawSpanBatch \<Rightarrow> bytes \<Rightarrow> (RawSpanBatch \<times> bytes) res" where
  "decodeL1OriginCheck bp r =
     (case ReadFull 20 r of
        Inl err \<Rightarrow> Inl (Wrap ''failed to read l1 origin check'' err)
      | Inr (b, r) \<Rightarrow> Inr (bp\<lparr>l1OriginCheck := be_get b\<rparr>, r))"

definition decodePrefix :: "RawSpanBatch \<Rightarrow> bytes \<Rightarrow> (RawSpanBatch \<times> bytes) res" where
  "decodePrefix bp r =
     (case decodeRelTimestamp bp r of Inl err \<Rightarrow> Inl err | Inr (bp, r) \<Rightarrow>
     (case decodeL1OriginNum bp r of Inl err \<Rightarrow> Inl err | Inr (bp, r) \<Rightarrow>
     (case decodeParentCheck bp r of Inl err \<Rightarrow> Inl err | Inr (bp, r) \<Rightarrow>
      decodeL1OriginCheck bp r)))"

definition decodeBlockCount :: "RawSpanBatch \<Rightarrow> bytes \<Rightarrow> (RawSpanBatch \<times> bytes) res" where
  "decodeBlockCount bp r =
     (case ReadUvarint r of
        Inl err \<Rightarrow> Inl (Wrap ''failed to read block count'' err)
      | Inr (n, r) \<Rightarrow>
          if n > MaxSpanBatchElementCount then Inl ErrTooBigSpanBatchSize
          else if n = 0 then Inl ErrEmptySpanBatch
          else Inr (bp\<lparr>blockCount := n\<rparr>, r))"

definition decodeOriginBits :: "RawSpanBatch \<Rightarrow> bytes \<Rightarrow> (RawSpanBatch \<times> bytes) res" where
  "decodeOriginBits bp r =
     (if blockCount bp > MaxSpanBatchElementCount then Inl ErrTooBigSpanBatchSize
      else (case decodeSpanBatchBits r (blockCount bp) of
              Inl err \<Rightarrow> Inl (Wrap ''failed to decode origin bits'' err)
            | Inr (bits, r) \<Rightarrow> Inr (bp\<lparr>originBits := Some bits\<rparr>, r)))"

definition read_tx_count :: "bytes \<Rightarrow> (u64 \<times> bytes) res" where
  "read_tx_count r =
     (case ReadUvarint r of
        Inl err \<Rightarrow> Inl (Wrap ''failed to read block tx count'' err)
      | Inr (n, r) \<Rightarrow>
          if n > MaxSpanBatchElementCount then Inl ErrTooBigSpanBatchSize else Inr (n, r))"

definition decodeBlockTxCounts :: "RawSpanBatch \<Rightarrow> bytes \<Rightarrow> (RawSpanBatch \<times> bytes) res" where
  "decodeBlockTxCounts bp r =
     (case read_many (unat (blockCount bp)) read_tx_count r of
        Inl err \<Rightarrow> Inl err
      | Inr (ns, r) \<Rightarrow> Inr (bp\<lparr>blockTxCounts := ns\<rparr>, r))"

text \<open>The counts are summed with an overflow check; no counts is the nil slice.\<close>

fun sum_counts :: "u64 \<Rightarrow> u64 list \<Rightarrow> u64 res" where
  "sum_counts acc [] = Inr acc"
| "sum_counts acc (n # ns) =
     (if acc + n < acc then Inl ErrTooBigSpanBatchSize else sum_counts (acc + n) ns)"

definition decodeTxs :: "TxLib \<Rightarrow> RawSpanBatch \<Rightarrow> bytes \<Rightarrow> (RawSpanBatch \<times> bytes) res" where
  "decodeTxs lib bp r =
     (let txs = (case rsb_txs bp of None \<Rightarrow> zero_spanBatchTxs | Some txs \<Rightarrow> txs) in
      if blockTxCounts bp = [] then Inl (Msg ''failed to read txs: blockTxCounts not set'')
      else (case sum_counts 0 (blockTxCounts bp) of
              Inl err \<Rightarrow> Inl err
            | Inr n \<Rightarrow>
                if n > MaxSpanBatchElementCount then Inl ErrTooBigSpanBatchSize
                else (case decode_txs lib (txs\<lparr>totalBlockTxCount := n\<rparr>) r of
                        Inl err \<Rightarrow> Inl err
                      | Inr (txs, r) \<Rightarrow> Inr (bp\<lparr>rsb_txs := Some txs\<rparr>, r))))"

definition decodePayload :: "TxLib \<Rightarrow> RawSpanBatch \<Rightarrow> bytes \<Rightarrow> (RawSpanBatch \<times> bytes) res" where
  "decodePayload lib bp r =
     (case decodeBlockCount bp r of Inl err \<Rightarrow> Inl err | Inr (bp, r) \<Rightarrow>
     (case decodeOriginBits bp r of Inl err \<Rightarrow> Inl err | Inr (bp, r) \<Rightarrow>
     (case decodeBlockTxCounts bp r of Inl err \<Rightarrow> Inl err | Inr (bp, r) \<Rightarrow>
      decodeTxs lib bp r)))"

definition decode_raw :: "TxLib \<Rightarrow> RawSpanBatch \<Rightarrow> bytes \<Rightarrow> (RawSpanBatch \<times> bytes) res" where
  "decode_raw lib b r =
     (case decodePrefix b r of
        Inl err \<Rightarrow> Inl (Wrap ''failed to decode span batch prefix'' err)
      | Inr (b, r) \<Rightarrow>
          (case decodePayload lib b r of
             Inl err \<Rightarrow> Inl (Wrap ''failed to decode span batch payload'' err)
           | Inr x \<Rightarrow> Inr x))"

definition encodePrefix :: "RawSpanBatch \<Rightarrow> bytes" where
  "encodePrefix bp =
     PutUvarint (relTimestamp bp) @ PutUvarint (l1OriginNum bp) @ be_put 20 (parentCheck bp)
     @ be_put 20 (l1OriginCheck bp)"

definition encodeOriginBits :: "RawSpanBatch \<Rightarrow> bytes res go" where
  "encodeOriginBits bp =
     map_option (wrap_err ''failed to encode origin bits'') (encodeSpanBatchBits (blockCount bp) (originBits bp))"

definition encodeBlockTxCounts :: "RawSpanBatch \<Rightarrow> bytes" where
  "encodeBlockTxCounts bp = concat (map PutUvarint (blockTxCounts bp))"

definition encodeTxs :: "RawSpanBatch \<Rightarrow> bytes res go" where
  "encodeTxs bp =
     (case rsb_txs bp of None \<Rightarrow> Some (Inl (Msg ''cannot write txs: txs not set'')) | Some txs \<Rightarrow> encode_txs txs)"

definition encodePayload :: "RawSpanBatch \<Rightarrow> bytes res go" where
  "encodePayload bp = do {
     bits \<leftarrow> encodeOriginBits bp;
     case bits of
       Inl err \<Rightarrow> Some (Inl err)
     | Inr bits \<Rightarrow> do {
         txs \<leftarrow> encodeTxs bp;
         case txs of
           Inl err \<Rightarrow> Some (Inl err)
         | Inr txs \<Rightarrow> Some (Inr (PutUvarint (blockCount bp) @ bits @ encodeBlockTxCounts bp @ txs))
       }
   }"

definition encode_raw :: "RawSpanBatch \<Rightarrow> bytes res go" where
  "encode_raw b = do {
     payload \<leftarrow> encodePayload b;
     case payload of Inl err \<Rightarrow> Some (Inl err) | Inr payload \<Rightarrow> Some (Inr (encodePrefix b @ payload))
   }"

section \<open>Deriving a span batch\<close>

record SpanBatchElement =
  el_EpochNum :: u64
  el_Timestamp :: u64
  el_Transactions :: "bytes list"

record SpanBatch =
  ParentCheck :: Address
  L1OriginCheck :: Address
  GenesisTimestamp :: u64
  ChainID :: int
  Batches :: "SpanBatchElement list"
  sp_originBits :: "nat option"
  sp_blockTxCounts :: "u64 list"
  sp_sbtxs :: "spanBatchTxs option"

definition zero_SpanBatch :: SpanBatch where
  "zero_SpanBatch =
     \<lparr>ParentCheck = 0, L1OriginCheck = 0, GenesisTimestamp = 0, ChainID = 0, Batches = [],
      sp_originBits = None, sp_blockTxCounts = [], sp_sbtxs = None\<rparr>"

text \<open>The origin numbers are computed from the last block backwards: \<open>n\<close> blocks are left to do.\<close>

fun origin_nums :: "nat option \<Rightarrow> nat \<Rightarrow> u64 \<Rightarrow> u64 list go" where
  "origin_nums bits 0 num = Some []"
| "origin_nums bits (Suc i) num = do {
     b \<leftarrow> Bit bits i;
     nums \<leftarrow> origin_nums bits i (if b = 1 \<and> i > 0 then num - 1 else num);
     Some (nums @ [num])
   }"

definition span_interval :: "Config \<Rightarrow> u64 \<Rightarrow> u64 \<Rightarrow> u64 \<times> bool" where
  "span_interval rollupCfg genesisTimestamp rel =
     (let default = (cfg_BlockTime rollupCfg * 1000, False) in
      case cfg_VoltaTime rollupCfg of
        None \<Rightarrow> default
      | Some volta \<Rightarrow>
          if volta \<ge> genesisTimestamp then
            (let secondSinceVolta = volta - genesisTimestamp in
             if rel \<ge> secondSinceVolta then
               (case cfg_FourierTime rollupCfg of
                  None \<Rightarrow> (MillisecondBlockIntervalVolta, True)
                | Some fourier \<Rightarrow>
                    if fourier \<ge> genesisTimestamp then
                      (let msSinceFourier = (fourier - genesisTimestamp) * 1000 in
                       if rel \<ge> msSinceFourier then (MillisecondBlockIntervalFourier, True)
                       else (MillisecondBlockIntervalVolta, True))
                    else (MillisecondBlockIntervalVolta, True))
             else default)
          else default)"

text \<open>The elements of the span from block \<open>i\<close> on, with the transactions not yet handed out.
  Indexing a missing count or transaction panics.\<close>

fun derive_elements :: "u64 list \<Rightarrow> u64 list \<Rightarrow> (nat \<Rightarrow> u64) \<Rightarrow> nat \<Rightarrow> bytes list \<Rightarrow> SpanBatchElement list go" where
  "derive_elements [] counts ts i txs = Some []"
| "derive_elements (num # nums) counts ts i txs = do {
     n \<leftarrow> at counts i;
     if unat n > length txs then None
     else do {
       els \<leftarrow> derive_elements nums counts ts (i + 1) (drop (unat n) txs);
       Some (\<lparr>el_EpochNum = num, el_Timestamp = ts i, el_Transactions = take (unat n) txs\<rparr> # els)
     }
   }"

definition derive :: "TxLib \<Rightarrow> RawSpanBatch \<Rightarrow> Config \<Rightarrow> u64 \<Rightarrow> int \<Rightarrow> SpanBatch res go" where
  "derive lib b rollupCfg genesisTimestamp chainID =
     (if blockCount b = 0 then Some (Inl ErrEmptySpanBatch)
      else do {
        blockOriginNums \<leftarrow> origin_nums (originBits b) (unat (blockCount b)) (l1OriginNum b);
        txs \<leftarrow> rsb_txs b;
        recovered \<leftarrow> recoverV chainID txs;
        case recovered of
          Inl err \<Rightarrow> Some (Inl err)
        | Inr txs \<Rightarrow> do {
            full \<leftarrow> fullTxs lib chainID txs;
            case full of
              Inl err \<Rightarrow> Some (Inl err)
            | Inr full \<Rightarrow> do {
                let (blockInterval, millisecondTimestamp) =
                  span_interval rollupCfg genesisTimestamp (relTimestamp b);
                let start = (if millisecondTimestamp then genesisTimestamp * 1000 + relTimestamp b
                             else genesisTimestamp * 1000 + relTimestamp b * 1000);
                els \<leftarrow> derive_elements blockOriginNums (blockTxCounts b)
                         (\<lambda>i. start + blockInterval * of_nat i) 0 full;
                Some (Inr (zero_SpanBatch\<lparr>ParentCheck := parentCheck b, L1OriginCheck := l1OriginCheck b,
                                          Batches := els\<rparr>))
              }
          }
      })"

definition ToSpanBatch :: "TxLib \<Rightarrow> RawSpanBatch \<Rightarrow> Config \<Rightarrow> u64 \<Rightarrow> int \<Rightarrow> SpanBatch res go" where
  "ToSpanBatch lib b rollupCfg genesisTimestamp chainID = derive lib b rollupCfg genesisTimestamp chainID"

section \<open>Operations of a span batch\<close>

text \<open>Reading an element out of range panics.\<close>

definition hash20 :: "Hash \<Rightarrow> Address" where
  "hash20 h = be_get (take 20 (be_put 32 h))"

definition GetTimestamp :: "SpanBatch \<Rightarrow> u64 go" where
  "GetTimestamp b = map_option el_Timestamp (at (Batches b) 0)"

definition GetStartEpochNum :: "SpanBatch \<Rightarrow> u64 go" where
  "GetStartEpochNum b = map_option el_EpochNum (at (Batches b) 0)"

definition CheckOriginHash :: "SpanBatch \<Rightarrow> Hash \<Rightarrow> bool" where
  "CheckOriginHash b h \<longleftrightarrow> L1OriginCheck b = hash20 h"

definition CheckParentHash :: "SpanBatch \<Rightarrow> Hash \<Rightarrow> bool" where
  "CheckParentHash b h \<longleftrightarrow> ParentCheck b = hash20 h"

definition GetBlockEpochNum :: "SpanBatch \<Rightarrow> nat \<Rightarrow> u64 go" where
  "GetBlockEpochNum b i = map_option el_EpochNum (at (Batches b) i)"

definition GetBlockTimestamp :: "SpanBatch \<Rightarrow> nat \<Rightarrow> u64 go" where
  "GetBlockTimestamp b i = map_option el_Timestamp (at (Batches b) i)"

definition GetBlockTransactions :: "SpanBatch \<Rightarrow> nat \<Rightarrow> bytes list go" where
  "GetBlockTransactions b i = map_option el_Transactions (at (Batches b) i)"

definition GetBlockCount :: "SpanBatch \<Rightarrow> nat" where
  "GetBlockCount b = length (Batches b)"

definition singularBatchToElement :: "SingularBatch \<Rightarrow> SpanBatchElement" where
  "singularBatchToElement b =
     \<lparr>el_EpochNum = sb_EpochNum b, el_Timestamp = sb_Timestamp b, el_Transactions = sb_Transactions b\<rparr>"

definition AppendSingularBatch ::
    "TxLib \<Rightarrow> SpanBatch \<Rightarrow> SingularBatch \<Rightarrow> u64 \<Rightarrow> (SpanBatch \<times> gerr option) go" where
  "AppendSingularBatch lib b singularBatch seqNum =
     (if Batches b \<noteq> [] \<and> el_Timestamp (last (Batches b)) > sb_Timestamp singularBatch then None
      else do {
        let b = b\<lparr>Batches := Batches b @ [singularBatchToElement singularBatch],
                  L1OriginCheck := hash20 (sb_EpochHash singularBatch)\<rparr>;
        let n = length (Batches b);
        let epochBit = (if n = 1 then of_bool (seqNum = 0)
                        else of_bool (el_EpochNum (Batches b ! (n - 2)) < el_EpochNum (Batches b ! (n - 1))));
        let b = (if n = 1 then b\<lparr>ParentCheck := hash20 (sb_ParentHash singularBatch)\<rparr> else b);
        bits \<leftarrow> SetBit (sp_originBits b) (n - 1) epochBit;
        let b = b\<lparr>sp_originBits := bits,
                  sp_blockTxCounts := sp_blockTxCounts b @ [of_nat (length (sb_Transactions singularBatch))]\<rparr>;
        sbtxs \<leftarrow> sp_sbtxs b;
        (sbtxs, err) \<leftarrow> AddTxs lib (sb_Transactions singularBatch) (ChainID b) sbtxs;
        Some (b\<lparr>sp_sbtxs := Some sbtxs\<rparr>, err)
      })"

definition ToRawSpanBatch :: "SpanBatch \<Rightarrow> Config \<Rightarrow> RawSpanBatch res" where
  "ToRawSpanBatch b cfg =
     (if Batches b = [] then Inl (Msg ''cannot merge empty singularBatch list'')
      else
        (let span_start = hd (Batches b); span_end = last (Batches b);
             relTs = (if IsVolta cfg (el_Timestamp span_start)
                      then el_Timestamp span_start - GenesisTimestamp b * 1000
                      else el_Timestamp span_start - GenesisTimestamp b)
         in Inr \<lparr>relTimestamp = relTs, l1OriginNum = el_EpochNum span_end, parentCheck = ParentCheck b,
                 l1OriginCheck = L1OriginCheck b, blockCount = of_nat (length (Batches b)),
                 originBits = sp_originBits b, blockTxCounts = sp_blockTxCounts b, rsb_txs = sp_sbtxs b\<rparr>))"

text \<open>The first origin of a block's number from position \<open>originIdx\<close> on.\<close>

fun find_origin :: "L1BlockRef list \<Rightarrow> nat \<Rightarrow> nat \<Rightarrow> u64 \<Rightarrow> (nat \<times> L1BlockRef) option" where
  "find_origin l1Origins 0 i num = None"
| "find_origin l1Origins (Suc n) i num =
     (if i \<ge> length l1Origins then None
      else if l1_Number (l1Origins ! i) = num then Some (i, l1Origins ! i)
      else find_origin l1Origins n (i + 1) num)"

fun get_singulars :: "L1BlockRef list \<Rightarrow> u64 \<Rightarrow> nat \<Rightarrow> SpanBatchElement list \<Rightarrow> SingularBatch list res" where
  "get_singulars l1Origins safeTime originIdx [] = Inr []"
| "get_singulars l1Origins safeTime originIdx (batch # bs) =
     (if el_Timestamp batch \<le> safeTime then get_singulars l1Origins safeTime originIdx bs
      else
        (case find_origin l1Origins (length l1Origins) originIdx (el_EpochNum batch) of
           None \<Rightarrow> Inl (Msg ''unable to find L1 origin for the epoch number'')
         | Some (originIdx, origin) \<Rightarrow>
             (case get_singulars l1Origins safeTime originIdx bs of
                Inl err \<Rightarrow> Inl err
              | Inr rest \<Rightarrow>
                  Inr (\<lparr>sb_ParentHash = 0, sb_EpochNum = el_EpochNum batch, sb_EpochHash = l1_Hash origin,
                        sb_Timestamp = el_Timestamp batch, sb_Transactions = el_Transactions batch\<rparr> # rest))))"

definition GetSingularBatches :: "SpanBatch \<Rightarrow> L1BlockRef list \<Rightarrow> L2BlockRef \<Rightarrow> SingularBatch list res" where
  "GetSingularBatches b l1Origins l2SafeHead =
     get_singulars l1Origins (l2_MillisecondTimestamp l2SafeHead) 0 (Batches b)"

definition NewSpanBatch :: "TxLib \<Rightarrow> u64 \<Rightarrow> int \<Rightarrow> SpanBatch go" where
  "NewSpanBatch lib genesisTimestamp chainID = do {
     sbtxs \<leftarrow> newSpanBatchTxs lib [] chainID;
     Some (zero_SpanBatch\<lparr>GenesisTimestamp := genesisTimestamp, ChainID := chainID, sp_originBits := Some 0,
             sp_sbtxs := (case sbtxs of Inl _ \<Rightarrow> None | Inr sbtxs \<Rightarrow> Some sbtxs)\<rparr>)
   }"

section \<open>Typed batches (batch.go)\<close>

definition SingularBatchType :: byte where "SingularBatchType = 0"
definition SpanBatchType :: byte where "SpanBatchType = 1"

datatype InnerBatchData = InnerSingular SingularBatch | InnerRaw RawSpanBatch

record BatchData =
  bd_inner :: InnerBatchData
  bd_ComprAlgo :: string

record BatchLib =
  lib_tx :: TxLib
  lib_encodeSingular :: "SingularBatch \<Rightarrow> bytes res"
  lib_decodeSingular :: "bytes \<Rightarrow> SingularBatch res"

fun GetBatchType :: "InnerBatchData \<Rightarrow> byte" where
  "GetBatchType (InnerSingular _) = SingularBatchType"
| "GetBatchType (InnerRaw _) = SpanBatchType"

definition encode_inner :: "BatchLib \<Rightarrow> InnerBatchData \<Rightarrow> bytes res go" where
  "encode_inner lib inner =
     (case inner of
        InnerSingular b \<Rightarrow> Some (lib_encodeSingular lib b)
      | InnerRaw b \<Rightarrow> encode_raw b)"

definition encodeTyped :: "BatchLib \<Rightarrow> BatchData \<Rightarrow> bytes res go" where
  "encodeTyped lib b = do {
     bs \<leftarrow> encode_inner lib (bd_inner b);
     case bs of Inl err \<Rightarrow> Some (Inl err) | Inr bs \<Rightarrow> Some (Inr (GetBatchType (bd_inner b) # bs))
   }"

definition decodeTyped :: "BatchLib \<Rightarrow> BatchData option \<Rightarrow> bytes \<Rightarrow> InnerBatchData res" where
  "decodeTyped lib b data =
     (if b = None then Inl (Msg ''cannot decode into nil BatchData'')
      else case data of
        [] \<Rightarrow> Inl (Msg ''batch too short'')
      | ty # body \<Rightarrow>
          if ty = SingularBatchType then
            (case lib_decodeSingular lib body of Inl err \<Rightarrow> Inl err | Inr s \<Rightarrow> Inr (InnerSingular s))
          else if ty = SpanBatchType then
            (case decode_raw (lib_tx lib) zero_RawSpanBatch body of
               Inl err \<Rightarrow> Inl err | Inr (raw, _) \<Rightarrow> Inr (InnerRaw raw))
          else Inl (Msg ''unrecognized batch type''))"

definition GetSingularBatch :: "BatchData \<Rightarrow> Config \<Rightarrow> SingularBatch res" where
  "GetSingularBatch batchData rollupCfg =
     (case bd_inner batchData of
        InnerRaw _ \<Rightarrow> Inl (NewCriticalError (Some (Msg ''failed type assertion to SingularBatch'')))
      | InnerSingular b \<Rightarrow>
          Inr (if \<not> IsVolta rollupCfg (sb_Timestamp b) then b\<lparr>sb_Timestamp := sb_Timestamp b * 1000\<rparr> else b))"

definition DeriveSpanBatch :: "TxLib \<Rightarrow> BatchData \<Rightarrow> Config \<Rightarrow> u64 \<Rightarrow> int \<Rightarrow> SpanBatch res go" where
  "DeriveSpanBatch lib batchData rollupCfg genesisTimestamp chainID =
     (case bd_inner batchData of
        InnerSingular _ \<Rightarrow> Some (Inl (NewCriticalError (Some (Msg ''failed type assertion to SpanBatch''))))
      | InnerRaw raw \<Rightarrow> ToSpanBatch lib raw rollupCfg genesisTimestamp chainID)"

section \<open>The raw form is read back\<close>

definition wf_raw :: "TxLib \<Rightarrow> RawSpanBatch \<Rightarrow> bool" where
  "wf_raw lib b \<longleftrightarrow>
     0 < blockCount b \<and> blockCount b \<le> MaxSpanBatchElementCount \<and>
     (\<exists>og. originBits b = Some og \<and> og < 2 ^ unat (blockCount b)) \<and>
     length (blockTxCounts b) = unat (blockCount b) \<and>
     (\<forall>n \<in> set (blockTxCounts b). n \<le> MaxSpanBatchElementCount) \<and>
     (\<exists>txs. rsb_txs b = Some txs \<and> wf_columns lib txs \<and>
        sum_counts 0 (blockTxCounts b) = Inr (totalBlockTxCount txs))"

definition unsigned_raw :: "RawSpanBatch \<Rightarrow> RawSpanBatch" where
  "unsigned_raw b =
     b\<lparr>rsb_txs := map_option (\<lambda>txs. txs\<lparr>txSigs := map (\<lambda>sig. sig\<lparr>sig_v := 0\<rparr>) (txSigs txs)\<rparr>) (rsb_txs b)\<rparr>"

lemma ReadUvarint_Put_end: "ReadUvarint (PutUvarint x) = Inr (x, [])"
  using ReadUvarint_Put [of x "[]"] by simp

lemma decodePrefix_encoded:
  "decodePrefix bp (encodePrefix b @ r) =
     Inr (bp\<lparr>relTimestamp := relTimestamp b, l1OriginNum := l1OriginNum b, parentCheck := parentCheck b,
             l1OriginCheck := l1OriginCheck b\<rparr>, r)"
  by (simp add: decodePrefix_def encodePrefix_def decodeRelTimestamp_def decodeL1OriginNum_def
      decodeParentCheck_def decodeL1OriginCheck_def be_get_put)

lemma raw_roundtrip:
  assumes "wf_raw lib b"
  shows "\<exists>bs. encode_raw b = Some (Inr bs) \<and>
     (\<forall>r. decode_raw lib zero_RawSpanBatch (bs @ r) = Inr (unsigned_raw b, r))"
proof -
  obtain og txs where w: "0 < blockCount b" "blockCount b \<le> MaxSpanBatchElementCount"
    "originBits b = Some og" "og < 2 ^ unat (blockCount b)" "length (blockTxCounts b) = unat (blockCount b)"
    "\<forall>n \<in> set (blockTxCounts b). n \<le> MaxSpanBatchElementCount" "rsb_txs b = Some txs" "wf_columns lib txs"
    "sum_counts 0 (blockTxCounts b) = Inr (totalBlockTxCount txs)"
    using assms by (auto simp: wf_raw_def)
  obtain tb where tb: "encode_txs txs = Some (Inr tb)" using encode_txs_wf [OF w(8)] by blast
  note td = decode_encode_txs [OF w(8) tb]
  define bits where "bits = nat_to_be (unat (bitlist_bytes (blockCount b))) og"
  have enc: "encode_raw b = Some (Inr (encodePrefix b @ PutUvarint (blockCount b) @ bits @ encodeBlockTxCounts b @ tb))"
    using w(3,7) tb encodeSpanBatchBits_Some [OF w(4)]
    by (simp add: encode_raw_def encodePayload_def encodeOriginBits_def encodeTxs_def wrap_err_def bits_def)
  have counts: "read_many (unat (blockCount b)) read_tx_count (encodeBlockTxCounts b @ r) = Inr (blockTxCounts b, r)" for r
    using read_many_concat [of "blockTxCounts b" read_tx_count PutUvarint r] w(5,6)
    by (simp add: encodeBlockTxCounts_def read_tx_count_def not_less)
  have c0: "blockTxCounts b \<noteq> []" "blockCount b \<noteq> 0" "\<not> blockCount b > MaxSpanBatchElementCount"
    using w(1,2,5) by (auto simp: unat_eq_0 not_less)
  have tot: "\<not> totalBlockTxCount txs > MaxSpanBatchElementCount"
    using w(8) by (simp add: wf_columns_def Let_def not_less)
  have "decode_raw lib zero_RawSpanBatch ((encodePrefix b @ PutUvarint (blockCount b) @ bits @ encodeBlockTxCounts b @ tb) @ r)
    = Inr (unsigned_raw b, r)" for r
    using c0 tot w(3,7)
    by (simp add: decode_raw_def decodePrefix_encoded decodePayload_def decodeBlockCount_def decodeOriginBits_def
        decodeSpanBatchBits_encoded [OF w(4)] bits_def decodeBlockTxCounts_def counts decodeTxs_def w(9) td
        zero_RawSpanBatch_def unsigned_raw_def)
  with enc show ?thesis by blast
qed

text \<open>A typed batch is read back: a well-formed raw span batch encodes with its type byte, without
  error or panic, and decoding the bytes gives the same batch, up to the v of the signatures, which the
  encoding leaves out; a singular batch is read back when its RLP codec reads back what it writes.\<close>

theorem batch_roundtrip:
  fixes bd bd' :: BatchData and lib :: BatchLib
  assumes "case bd_inner bd of
      InnerRaw b \<Rightarrow> wf_raw (lib_tx lib) b
    | InnerSingular s \<Rightarrow> (\<exists>bs. lib_encodeSingular lib s = Inr bs \<and> lib_decodeSingular lib bs = Inr s)"
  shows "\<exists>bs. encodeTyped lib bd = Some (Inr bs) \<and>
     decodeTyped lib (Some bd') bs =
       Inr (case bd_inner bd of InnerRaw b \<Rightarrow> InnerRaw (unsigned_raw b) | InnerSingular s \<Rightarrow> InnerSingular s)"
proof (cases "bd_inner bd")
  case (InnerSingular s)
  then show ?thesis
    using assms by (auto simp: encodeTyped_def encode_inner_def decodeTyped_def)
next
  case (InnerRaw b)
  then obtain bs where "encode_raw b = Some (Inr bs)"
    "\<forall>r. decode_raw (lib_tx lib) zero_RawSpanBatch (bs @ r) = Inr (unsigned_raw b, r)"
    using assms raw_roundtrip [of "lib_tx lib" b] by auto
  moreover from this(2) have "decode_raw (lib_tx lib) zero_RawSpanBatch bs = Inr (unsigned_raw b, [])"
    by (metis append_Nil2)
  ultimately show ?thesis
    using InnerRaw by (simp add: encodeTyped_def encode_inner_def decodeTyped_def SpanBatchType_def SingularBatchType_def)
qed

definition example_raw :: RawSpanBatch where
  "example_raw =
     \<lparr>relTimestamp = 500, l1OriginNum = 7, parentCheck = 1, l1OriginCheck = 2, blockCount = 2,
      originBits = Some 1, blockTxCounts = [0, 1], rsb_txs = Some example_columns\<rparr>"

lemma example_raw_wf: "wf_raw example_lib example_raw"
  by (simp add: wf_raw_def example_raw_def wf_columns_def example_columns_def example_lib_def ReadTxData_def
      MaxSpanBatchElementCount_def LegacyTxType_def)

theorem batch_roundtrip_witness:
  "\<exists>bs. encodeTyped \<lparr>lib_tx = example_lib, lib_encodeSingular = (\<lambda>_. Inr []), lib_decodeSingular = (\<lambda>_. Inl EOF)\<rparr>
      \<lparr>bd_inner = InnerRaw example_raw, bd_ComprAlgo = []\<rparr> = Some (Inr bs) \<and>
     decodeTyped \<lparr>lib_tx = example_lib, lib_encodeSingular = (\<lambda>_. Inr []), lib_decodeSingular = (\<lambda>_. Inl EOF)\<rparr>
      (Some \<lparr>bd_inner = InnerRaw example_raw, bd_ComprAlgo = []\<rparr>) bs = Inr (InnerRaw (unsigned_raw example_raw))"
  using batch_roundtrip [where bd = "\<lparr>bd_inner = InnerRaw example_raw, bd_ComprAlgo = []\<rparr>"
      and lib = "\<lparr>lib_tx = example_lib, lib_encodeSingular = (\<lambda>_. Inr []), lib_decodeSingular = (\<lambda>_. Inl EOF)\<rparr>"
      and bd' = "\<lparr>bd_inner = InnerRaw example_raw, bd_ComprAlgo = []\<rparr>"] example_raw_wf by simp

section \<open>Origins\<close>

text \<open>The origin bits of a list of epoch numbers: a bit is set where the number grows.\<close>

definition advances :: "u64 list \<Rightarrow> nat \<Rightarrow> bool" where
  "advances es i \<longleftrightarrow> 0 < i \<and> i < length es \<and> es ! (i - 1) < es ! i"

definition steps_by_one :: "u64 list \<Rightarrow> bool" where
  "steps_by_one es \<longleftrightarrow>
     (\<forall>i. Suc i < length es \<longrightarrow> es ! Suc i = es ! i \<or> (es ! Suc i = es ! i + 1 \<and> es ! i < es ! Suc i))"

lemma origin_nums_recover:
  assumes "steps_by_one es" "n \<le> length es" "\<And>i. 0 < i \<Longrightarrow> i < length es \<Longrightarrow> bit bits i = advances es i" "0 < n"
  shows "origin_nums (Some bits) n (es ! (n - 1)) = Some (take n es)"
  using assms(2,4)
proof (induction n)
  case (Suc n)
  show ?case
  proof (cases n)
    case 0
    then show ?thesis using Suc by (cases es) (simp_all add: Bit_def)
  next
    case (Suc m)
    have n: "n < length es" "0 < n" using Suc.prems Suc by simp_all
    have "es ! n = es ! (n - 1) \<or> (es ! n = es ! (n - 1) + 1 \<and> es ! (n - 1) < es ! n)"
      using assms(1) n Suc by (simp add: steps_by_one_def)
    then have "(if bit bits n \<and> n > 0 then es ! n - 1 else es ! n) = es ! (n - 1)"
      using assms(3) [OF n(2,1)] n by (auto simp: advances_def)
    then show ?thesis
      using Suc.IH n Suc.prems by (cases "bit bits n") (simp_all add: Bit_def take_Suc_conv_app_nth)
  qed
qed simp

section \<open>From the batcher to the node\<close>

text \<open>The batcher appends batches with their sequence numbers one after the other.\<close>

fun append_all :: "TxLib \<Rightarrow> SpanBatch \<Rightarrow> (SingularBatch \<times> u64) list \<Rightarrow> (SpanBatch \<times> gerr option) go" where
  "append_all lib b [] = Some (b, None)"
| "append_all lib b ((s, seqNum) # ss) = do {
     (b, err) \<leftarrow> AppendSingularBatch lib b s seqNum;
     case err of None \<Rightarrow> append_all lib b ss | Some err \<Rightarrow> Some (b, Some err)
   }"

text \<open>What a span batch holds after appending \<open>ss\<close>; \<open>bts\<close> are its transactions.\<close>

definition span_of :: "TxLib \<Rightarrow> u64 \<Rightarrow> int \<Rightarrow> SingularBatch list \<Rightarrow> (bytes \<times> Transaction) list \<Rightarrow> SpanBatch \<Rightarrow> bool" where
  "span_of lib G chainID ss bts b \<longleftrightarrow>
     GenesisTimestamp b = G \<and> ChainID b = chainID \<and> Batches b = map singularBatchToElement ss \<and>
     (ss \<noteq> [] \<longrightarrow> ParentCheck b = hash20 (sb_ParentHash (hd ss)) \<and> L1OriginCheck b = hash20 (sb_EpochHash (last ss))) \<and>
     (\<exists>og. sp_originBits b = Some og \<and> og < 2 ^ length ss \<and>
        (\<forall>i. 0 < i \<longrightarrow> i < length ss \<longrightarrow> bit og i = advances (map sb_EpochNum ss) i)) \<and>
     sp_blockTxCounts b = map (\<lambda>s. of_nat (length (sb_Transactions s))) ss \<and>
     map fst bts = concat (map sb_Transactions ss) \<and>
     (\<exists>txs. sp_sbtxs b = Some txs \<and> complete_columns lib chainID bts txs)"

lemma NewSpanBatch_span:
  "\<exists>b. NewSpanBatch lib G chainID = Some b \<and> span_of lib G chainID [] [] b"
proof -
  obtain btx where "newSpanBatchTxs lib [] chainID = Some (Inr btx)" "complete_columns lib chainID [] btx"
    using newSpanBatchTxs_columns by blast
  then show ?thesis by (simp add: NewSpanBatch_def span_of_def zero_SpanBatch_def)
qed

lemma bit_snoc_bound:
  assumes "(n :: nat) < 2 ^ k"
  shows "set_bit k n < 2 ^ Suc k" "unset_bit k n < 2 ^ Suc k" "i < k \<Longrightarrow> bit (set_bit k n) i = bit n i"
    "i < k \<Longrightarrow> bit (unset_bit k n) i = bit n i" "bit (set_bit k n) k" "\<not> bit (unset_bit k n) k"
proof -
  have n: "bit n i \<Longrightarrow> i < k" for i using assms by (metis bit_take_bit_iff take_bit_nat_eq_self_iff)
  have "take_bit (Suc k) (set_bit k n) = set_bit k n" "take_bit (Suc k) (unset_bit k n) = unset_bit k n"
    by (rule bit_eqI; auto simp: bit_take_bit_iff bit_set_bit_iff bit_unset_bit_iff possible_bit_def dest: n)+
  then show "set_bit k n < 2 ^ Suc k" "unset_bit k n < 2 ^ Suc k" by (metis take_bit_nat_eq_self_iff)+
qed (auto simp: bit_set_bit_iff bit_unset_bit_iff possible_bit_def)

lemma AppendSingularBatch_span:
  assumes "span_of lib G chainID ss bts b" "list_all2 (valid_tx lib chainID) (sb_Transactions s) ts"
    and "ss \<noteq> [] \<Longrightarrow> sb_Timestamp (last ss) \<le> sb_Timestamp s"
    and "length bts + length (sb_Transactions s) < 2 ^ 63"
  obtains b' where "AppendSingularBatch lib b s seqNum = Some (b', None)"
    "span_of lib G chainID (ss @ [s]) (bts @ zip (sb_Transactions s) ts) b'"
proof -
  note sp = assms(1) [unfolded span_of_def]
  obtain og txs where o: "sp_originBits b = Some og" "og < 2 ^ length ss"
    "\<forall>i. 0 < i \<longrightarrow> i < length ss \<longrightarrow> bit og i = advances (map sb_EpochNum ss) i"
    and txs: "sp_sbtxs b = Some txs" "complete_columns lib chainID bts txs"
    using sp by blast
  obtain txs' where add: "AddTxs lib (sb_Transactions s) chainID txs = Some (txs', None)"
    "complete_columns lib chainID (bts @ zip (sb_Transactions s) ts) txs'"
    using AddTxs_columns [OF txs(2) assms(2,4)] by blast
  have ord: "\<not> (Batches b \<noteq> [] \<and> el_Timestamp (last (Batches b)) > sb_Timestamp s)"
    using sp assms(3) by (cases ss rule: rev_cases) (auto simp: singularBatchToElement_def not_less)
  define bitv where "bitv = (if ss = [] then seqNum = 0 else sb_EpochNum (last ss) < sb_EpochNum s)"
  define og' where "og' = (if bitv then set_bit (length ss) og else unset_bit (length ss) og)"
  define b' where "b' = b\<lparr>Batches := Batches b @ [singularBatchToElement s], L1OriginCheck := hash20 (sb_EpochHash s),
     ParentCheck := (if ss = [] then hash20 (sb_ParentHash s) else ParentCheck b), sp_originBits := Some og',
     sp_blockTxCounts := sp_blockTxCounts b @ [of_nat (length (sb_Transactions s))], sp_sbtxs := Some txs'\<rparr>"
  have app: "AppendSingularBatch lib b s seqNum = Some (b', None)"
  proof (cases ss rule: rev_cases)
    case Nil
    then show ?thesis
      using sp o(1) txs(1) add(1) by (simp add: AppendSingularBatch_def SetBit_def og'_def bitv_def b'_def Let_def)
  next
    case (snoc ss' s')
    have n: "Batches b = map singularBatchToElement ss' @ [singularBatchToElement s']" using sp snoc by simp
    show ?thesis
      using sp o(1) txs(1) add(1) ord unfolding AppendSingularBatch_def n
      by (simp add: snoc SetBit_def og'_def bitv_def b'_def n Let_def nth_append singularBatchToElement_def)
  qed
  have og': "og' < 2 ^ length (ss @ [s])"
    "0 < i \<Longrightarrow> i < length (ss @ [s]) \<Longrightarrow> bit og' i = advances (map sb_EpochNum (ss @ [s])) i" for i
  proof -
    show "og' < 2 ^ length (ss @ [s])" using bit_snoc_bound(1,2) [OF o(2)] by (simp add: og'_def)
    assume i: "0 < i" "i < length (ss @ [s])"
    show "bit og' i = advances (map sb_EpochNum (ss @ [s])) i"
    proof (cases "i < length ss")
      case True
      then have "bit og' i = bit og i" using bit_snoc_bound(3,4) [OF o(2)] by (simp add: og'_def)
      moreover have "i - Suc 0 < length ss" using True by linarith
      ultimately show ?thesis using o(3) i True by (simp add: advances_def nth_append)
    next
      case False
      with i have e: "i = length ss" "ss \<noteq> []" by auto
      then have "bit og' i = bitv" using bit_snoc_bound(5,6) [OF o(2)] by (simp add: og'_def)
      with e show ?thesis by (simp add: advances_def nth_append bitv_def last_conv_nth)
    qed
  qed
  have "map fst (zip (sb_Transactions s) ts) = sb_Transactions s"
    using assms(2) by (simp add: list_all2_lengthD)
  then have "span_of lib G chainID (ss @ [s]) (bts @ zip (sb_Transactions s) ts) b'"
    using sp add(2) og' by (auto simp: span_of_def b'_def)
  with app show ?thesis by (rule that)
qed

definition singulars :: "(SingularBatch \<times> u64) list \<Rightarrow> SingularBatch list" where
  "singulars ss = map fst ss"

definition all_txs :: "SingularBatch list \<Rightarrow> bytes list" where
  "all_txs ss = concat (map sb_Transactions ss)"

lemma append_all_span:
  assumes "span_of lib G chainID done_ss bts b"
    and "list_all2 (valid_tx lib chainID) (all_txs (singulars ss)) ts"
    and "sorted (map sb_Timestamp (done_ss @ singulars ss))"
    and "length bts + length (all_txs (singulars ss)) < 2 ^ 63"
  obtains b' bts' where "append_all lib b ss = Some (b', None)"
    "span_of lib G chainID (done_ss @ singulars ss) bts' b'"
    "length bts' = length bts + length (all_txs (singulars ss))"
  using assms
proof (induction ss arbitrary: done_ss bts b ts thesis)
  case Nil
  then show ?case by (simp add: singulars_def all_txs_def)
next
  case (Cons p ss)
  obtain s seqNum where p: "p = (s, seqNum)" by (cases p)
  have a: "all_txs (singulars (p # ss)) = sb_Transactions s @ all_txs (singulars ss)"
    by (simp add: all_txs_def singulars_def p)
  obtain ts1 ts2 where ts: "list_all2 (valid_tx lib chainID) (sb_Transactions s) ts1"
    "list_all2 (valid_tx lib chainID) (all_txs (singulars ss)) ts2"
    using Cons.prems(3) unfolding a list_all2_append1 by blast
  have le: "done_ss \<noteq> [] \<Longrightarrow> sb_Timestamp (last done_ss) \<le> sb_Timestamp s"
    using Cons.prems(4) by (simp add: sorted_append singulars_def p)
  have l: "length bts + length (sb_Transactions s) < 2 ^ 63" using Cons.prems(5) a by simp
  obtain b1 where b1: "AppendSingularBatch lib b s seqNum = Some (b1, None)"
    "span_of lib G chainID (done_ss @ [s]) (bts @ zip (sb_Transactions s) ts1) b1"
    using AppendSingularBatch_span [OF Cons.prems(2) ts(1) le l] by blast
  have zl: "length (zip (sb_Transactions s) ts1) = length (sb_Transactions s)"
    using ts(1) by (simp add: list_all2_lengthD)
  have so: "sorted (map sb_Timestamp ((done_ss @ [s]) @ singulars ss))"
    using Cons.prems(4) by (simp add: singulars_def p)
  have l2: "length (bts @ zip (sb_Transactions s) ts1) + length (all_txs (singulars ss)) < 2 ^ 63"
    using Cons.prems(5) a zl by simp
  obtain b' bts' where "append_all lib b1 ss = Some (b', None)"
    "span_of lib G chainID ((done_ss @ [s]) @ singulars ss) bts' b'"
    "length bts' = length (bts @ zip (sb_Transactions s) ts1) + length (all_txs (singulars ss))"
    using Cons.IH [OF _ b1(2) ts(2) so l2] by blast
  with b1(1) zl a show ?case
    by (intro Cons.prems(1) [of b' bts']) (simp_all add: p singulars_def)
qed

lemma sum_counts_lengths:
  "unat acc + length (all_txs ss) < 2 ^ 64 \<Longrightarrow>
     sum_counts acc (map (\<lambda>s. of_nat (length (sb_Transactions s))) ss) = Inr (acc + of_nat (length (all_txs ss)))"
proof (induction ss arbitrary: acc)
  case Nil
  then show ?case by (simp add: all_txs_def)
next
  case (Cons s ss)
  let ?n = "length (sb_Transactions s)"
  have a: "length (all_txs (s # ss)) = ?n + length (all_txs ss)" by (simp add: all_txs_def)
  have n: "unat (of_nat ?n :: u64) = ?n" using Cons.prems a by (intro unat_of_nat_u64) simp
  have s: "unat (acc + of_nat ?n) = unat acc + ?n"
    using Cons.prems a n by (subst unat_add_small) simp_all
  then have "\<not> acc + of_nat ?n < acc" by (simp add: word_less_nat_alt)
  then show ?case using Cons.IH [of "acc + of_nat ?n"] Cons.prems a s by (simp add: algebra_simps)
qed

lemma derive_elements_recover:
  assumes "length nums = length ss" "i + length ss \<le> length cs"
    and "\<And>j. j < length ss \<Longrightarrow> unat (cs ! (i + j)) = length (sb_Transactions (ss ! j))"
  shows "derive_elements nums cs ts i (all_txs ss @ r) =
    Some (map2 (\<lambda>(j, num) s. \<lparr>el_EpochNum = num, el_Timestamp = ts (i + j), el_Transactions = sb_Transactions s\<rparr>)
            (zip [0..<length ss] nums) ss)"
  using assms
proof (induction ss arbitrary: nums i)
  case Nil
  then show ?case by simp
next
  case (Cons s ss)
  obtain num nums' where nums: "nums = num # nums'" "length nums' = length ss"
    using Cons.prems(1) by (cases nums) auto
  have c: "at cs i = Some (cs ! i)" "unat (cs ! i) = length (sb_Transactions s)"
    using Cons.prems(2) Cons.prems(3) [of 0] by (simp_all add: at_def)
  have IH: "derive_elements nums' cs ts (i + 1) (all_txs ss @ r) =
    Some (map2 (\<lambda>(j, num) s. \<lparr>el_EpochNum = num, el_Timestamp = ts (i + 1 + j), el_Transactions = sb_Transactions s\<rparr>)
            (zip [0..<length ss] nums') ss)"
  proof (rule Cons.IH [OF nums(2)])
    show "i + 1 + length ss \<le> length cs" using Cons.prems(2) by simp
    show "unat (cs ! (i + 1 + j)) = length (sb_Transactions (ss ! j))" if "j < length ss" for j
      using Cons.prems(3) [of "Suc j"] that by simp
  qed
  have u: "[0..<length (s # ss)] = 0 # map Suc [0..<length ss]" by (simp del: upt_Suc add: upt_conv_Cons map_Suc_upt)
  have a: "all_txs (s # ss) @ r = sb_Transactions s @ (all_txs ss @ r)" by (simp add: all_txs_def)
  show ?case
    unfolding u a nums(1) using IH c by (simp add: zip_map1 comp_def case_prod_beta)
qed

text \<open>The timestamp of a batch in milliseconds: the batcher gives seconds before Volta. The units agree
  when Volta is not before the genesis and no batch is.\<close>

definition milli :: "Config \<Rightarrow> u64 \<Rightarrow> u64" where
  "milli cfg t = (if IsVolta cfg t then t else t * 1000)"

definition units_agree :: "Config \<Rightarrow> u64 \<Rightarrow> u64 \<Rightarrow> bool" where
  "units_agree cfg G t \<longleftrightarrow>
     (case cfg_VoltaTime cfg of
        None \<Rightarrow> True
      | Some v \<Rightarrow> G \<le> v \<and> (if v \<le> t then unat v * 1000 \<le> unat t else G \<le> t))"

definition rel_time :: "Config \<Rightarrow> u64 \<Rightarrow> u64 \<Rightarrow> u64" where
  "rel_time cfg G t = (if IsVolta cfg t then t - G * 1000 else t - G)"

lemma span_start:
  assumes "units_agree cfg G t"
  shows "(case span_interval cfg G (rel_time cfg G t) of (interval, ms) \<Rightarrow>
            if ms then G * 1000 + rel_time cfg G t else G * 1000 + rel_time cfg G t * 1000) = milli cfg t"
proof -
  have ring: "G * 1000 + (t - G) * 1000 = t * 1000" "G * 1000 + (t - G * 1000) = t" by (simp_all add: algebra_simps)
  show ?thesis
  proof (cases "cfg_VoltaTime cfg")
    case None
    then show ?thesis using ring by (simp add: span_interval_def rel_time_def IsVolta_def milli_def)
  next
    case (Some v)
    have gv: "G \<le> v" using assms Some by (simp add: units_agree_def)
    show ?thesis
    proof (cases "v \<le> t")
      case True
      have vt: "unat v * 1000 \<le> unat t" using assms Some True by (simp add: units_agree_def)
      have G1: "unat (G * 1000) = unat G * 1000"
      proof -
        have "unat G \<le> unat v" using gv by (simp add: word_le_nat_alt)
        then have "unat G * 1000 < 2 ^ 64" using vt unat_u64_bound [of t] by linarith
        then show ?thesis by (subst unat_mult_small) simp_all
      qed
      have "G * 1000 \<le> t"
        using vt gv G1 by (simp add: word_le_nat_alt)
      then have "unat (t - G * 1000) = unat t - unat G * 1000" using G1 by (simp add: unat_sub)
      moreover have "unat (v - G) = unat v - unat G" using gv by (simp add: unat_sub)
      moreover have "unat v - unat G \<le> unat t - unat G * 1000"
      proof -
        have "unat v - unat G \<le> (unat v - unat G) * 1000" by simp
        also have "\<dots> = unat v * 1000 - unat G * 1000" by (simp add: diff_mult_distrib)
        also have "\<dots> \<le> unat t - unat G * 1000" using vt by simp
        finally show ?thesis .
      qed
      ultimately have "v - G \<le> t - G * 1000" by (simp add: word_le_nat_alt)
      then have "snd (span_interval cfg G (t - G * 1000))"
        using gv by (auto simp: span_interval_def Some Let_def split: option.split)
      then show ?thesis
        using Some True ring
        by (cases "span_interval cfg G (t - G * 1000)") (simp add: rel_time_def IsVolta_def milli_def)
    next
      case False
      have gt: "G \<le> t" using assms Some False by (simp add: units_agree_def)
      have "unat (t - G) < unat (v - G)"
        using gt gv False by (simp add: unat_sub word_le_nat_alt not_le)
      then have "\<not> v - G \<le> t - G" by (simp add: word_le_nat_alt)
      then have "\<not> snd (span_interval cfg G (t - G))"
        using gv by (simp add: span_interval_def Some)
      then show ?thesis
        using Some False ring
        by (cases "span_interval cfg G (t - G)") (simp add: rel_time_def IsVolta_def milli_def)
    qed
  qed
qed

text \<open>The span batch built by the batcher, in raw form.\<close>

lemma span_raw:
  assumes "span_of lib G chainID ss bts b" "ss \<noteq> []" "length ss \<le> unat MaxSpanBatchElementCount"
    and "length bts \<le> unat MaxSpanBatchElementCount"
  obtains raw txs og where "ToRawSpanBatch b cfg = Inr raw" "wf_raw lib raw"
    "relTimestamp raw = rel_time cfg G (sb_Timestamp (hd ss))" "l1OriginNum raw = sb_EpochNum (last ss)"
    "parentCheck raw = hash20 (sb_ParentHash (hd ss))" "l1OriginCheck raw = hash20 (sb_EpochHash (last ss))"
    "blockCount raw = of_nat (length ss)" "originBits raw = Some og"
    "\<And>i. 0 < i \<Longrightarrow> i < length ss \<Longrightarrow> bit og i = advances (map sb_EpochNum ss) i"
    "blockTxCounts raw = map (\<lambda>s. of_nat (length (sb_Transactions s))) ss"
    "rsb_txs raw = Some txs" "complete_columns lib chainID bts txs"
proof -
  note sp = assms(1) [unfolded span_of_def]
  obtain og txs where o: "sp_originBits b = Some og" "og < 2 ^ length ss"
    "\<forall>i. 0 < i \<longrightarrow> i < length ss \<longrightarrow> bit og i = advances (map sb_EpochNum ss) i"
    and txs: "sp_sbtxs b = Some txs" "complete_columns lib chainID bts txs"
    using sp by blast
  have M: "unat MaxSpanBatchElementCount < 2 ^ 63" by (simp add: MaxSpanBatchElementCount_def)
  define raw where "raw = \<lparr>relTimestamp = rel_time cfg G (sb_Timestamp (hd ss)), l1OriginNum = sb_EpochNum (last ss),
     parentCheck = hash20 (sb_ParentHash (hd ss)), l1OriginCheck = hash20 (sb_EpochHash (last ss)),
     blockCount = of_nat (length ss), originBits = Some og,
     blockTxCounts = map (\<lambda>s. of_nat (length (sb_Transactions s))) ss, rsb_txs = Some txs\<rparr>"
  have raw: "ToRawSpanBatch b cfg = Inr raw"
    using sp assms(2) o(1) txs(1)
    by (simp add: ToRawSpanBatch_def hd_map last_map singularBatchToElement_def rel_time_def Let_def raw_def)
  have f: "relTimestamp raw = rel_time cfg G (sb_Timestamp (hd ss))" "l1OriginNum raw = sb_EpochNum (last ss)"
    "parentCheck raw = hash20 (sb_ParentHash (hd ss))" "l1OriginCheck raw = hash20 (sb_EpochHash (last ss))"
    "blockCount raw = of_nat (length ss)" "originBits raw = Some og"
    "blockTxCounts raw = map (\<lambda>s. of_nat (length (sb_Transactions s))) ss" "rsb_txs raw = Some txs"
    by (simp_all add: raw_def)
  have n: "unat (blockCount raw) = length ss"
    using assms(3) M by (simp add: f unat_of_nat_u64)
  have tc: "length (sb_Transactions s) \<le> length bts" if "s \<in> set ss" for s
  proof -
    have "length bts = length (all_txs ss)" using sp by (metis all_txs_def length_map)
    then show ?thesis using that by (simp add: all_txs_def length_concat member_le_sum_list)
  qed
  have "sum_counts 0 (blockTxCounts raw) = Inr (of_nat (length bts))"
  proof -
    have e: "length bts = length (all_txs ss)" using sp by (metis all_txs_def length_map)
    show ?thesis unfolding f e using sum_counts_lengths [of 0 ss] assms(4) M e by simp
  qed
  moreover have "\<forall>m \<in> set (blockTxCounts raw). m \<le> MaxSpanBatchElementCount"
  proof
    fix m assume "m \<in> set (blockTxCounts raw)"
    then obtain s where s: "s \<in> set ss" "m = of_nat (length (sb_Transactions s))" unfolding f by auto
    have "length (sb_Transactions s) \<le> unat MaxSpanBatchElementCount" using tc [OF s(1)] assms(4) by linarith
    moreover from this have "unat m = length (sb_Transactions s)" unfolding s(2) by (intro unat_of_nat_u64) (simp add: MaxSpanBatchElementCount_def)
    ultimately show "m \<le> MaxSpanBatchElementCount" by (simp add: word_le_nat_alt)
  qed
  ultimately have "wf_raw lib raw"
    using n assms(2,3) o(2) f txs(2) complete_columns_wf [OF txs(2) assms(4)]
    by (auto simp: wf_raw_def word_le_nat_alt word_less_nat_alt complete_columns_def)
  with raw f o(3) txs(2) show ?thesis by (intro that) auto
qed

lemma unsigned_raw_simps [simp]:
  "relTimestamp (unsigned_raw b) = relTimestamp b" "l1OriginNum (unsigned_raw b) = l1OriginNum b"
  "parentCheck (unsigned_raw b) = parentCheck b" "l1OriginCheck (unsigned_raw b) = l1OriginCheck b"
  "blockCount (unsigned_raw b) = blockCount b" "originBits (unsigned_raw b) = originBits b"
  "blockTxCounts (unsigned_raw b) = blockTxCounts b"
  by (simp_all add: unsigned_raw_def)

lemma derive_recovers:
  assumes "complete_columns lib chainID bts txs" "map fst bts = all_txs ss" "ss \<noteq> []"
    and "length ss < 2 ^ 63" "steps_by_one (map sb_EpochNum ss)"
    and "relTimestamp raw = rel_time cfg G (sb_Timestamp (hd ss))" "l1OriginNum raw = sb_EpochNum (last ss)"
    and "blockCount raw = of_nat (length ss)" "originBits raw = Some og"
    and "\<And>i. 0 < i \<Longrightarrow> i < length ss \<Longrightarrow> bit og i = advances (map sb_EpochNum ss) i"
    and "blockTxCounts raw = map (\<lambda>s. of_nat (length (sb_Transactions s))) ss" "rsb_txs raw = Some txs"
    and "units_agree cfg G (sb_Timestamp (hd ss))"
  obtains els where "derive lib (unsigned_raw raw) cfg G chainID
      = Some (Inr (zero_SpanBatch\<lparr>ParentCheck := parentCheck raw, L1OriginCheck := l1OriginCheck raw, Batches := els\<rparr>))"
    "map el_EpochNum els = map sb_EpochNum ss" "map el_Transactions els = map sb_Transactions ss"
    "map el_Timestamp els = map (\<lambda>i. milli cfg (sb_Timestamp (hd ss))
       + fst (span_interval cfg G (rel_time cfg G (sb_Timestamp (hd ss)))) * of_nat i) [0..<length ss]"
proof -
  let ?es = "map sb_EpochNum ss"
  have n: "unat (blockCount raw) = length ss" "blockCount raw \<noteq> 0"
    using assms(3,4) by (simp_all add: assms(8) unat_of_nat_u64 of_nat_eq_0_u64)
  have nums: "origin_nums (Some og) (length ss) (sb_EpochNum (last ss)) = Some ?es"
    using origin_nums_recover [OF assms(5), of "length ss" og] assms(3,10) by (simp add: last_conv_nth)
  have c: "columns_of lib chainID bts txs" using assms(1) by (simp add: complete_columns_def)
  then have ls: "length (txSigs txs) = length bts" by (simp add: columns_of_def Let_def)
  have z: "map (\<lambda>sig. sig\<lparr>sig_v := 0\<rparr>) (txSigs txs)
      = map2 (\<lambda>sig v. sig\<lparr>sig_v := v\<rparr>) (txSigs txs) (replicate (length bts) 0)"
    by (rule nth_equalityI) (simp_all add: ls)
  have rec: "recoverV chainID (txs\<lparr>txSigs := map (\<lambda>sig. sig\<lparr>sig_v := 0\<rparr>) (txSigs txs)\<rparr>) = Some (Inr txs)"
    unfolding z by (rule recoverV_columns [OF c]) simp
  have full: "fullTxs lib chainID txs = Some (Inr (all_txs ss))"
    using fullTxs_columns [OF assms(1)] assms(2) by simp
  obtain interval ms where iv: "span_interval cfg G (rel_time cfg G (sb_Timestamp (hd ss))) = (interval, ms)"
    by fastforce
  have start: "(if ms then G * 1000 + rel_time cfg G (sb_Timestamp (hd ss))
       else G * 1000 + rel_time cfg G (sb_Timestamp (hd ss)) * 1000) = milli cfg (sb_Timestamp (hd ss))"
    using span_start [OF assms(13)] iv by simp
  let ?ts = "\<lambda>i. milli cfg (sb_Timestamp (hd ss)) + interval * of_nat i"
  define els where "els = map2 (\<lambda>(j, num) s. \<lparr>el_EpochNum = num, el_Timestamp = ?ts (0 + j), el_Transactions = sb_Transactions s\<rparr>)
            (zip [0..<length ss] ?es) ss"
  have small: "length (sb_Transactions s) < 2 ^ 64" if "s \<in> set ss" for s
  proof -
    have "length bts = length (all_txs ss)" using assms(2) by (metis length_map)
    moreover have "length (sb_Transactions s) \<le> length (all_txs ss)"
      using that by (simp add: all_txs_def length_concat member_le_sum_list)
    ultimately show ?thesis using assms(1) by (simp add: complete_columns_def)
  qed
  have el: "derive_elements ?es (blockTxCounts raw) ?ts 0 (all_txs ss) = Some els"
    using derive_elements_recover [of ?es ss 0 "blockTxCounts raw" ?ts "[]"] small
    by (simp add: assms(11) els_def unat_of_nat_u64)
  have u: "rsb_txs (unsigned_raw raw) = Some (txs\<lparr>txSigs := map (\<lambda>sig. sig\<lparr>sig_v := 0\<rparr>) (txSigs txs)\<rparr>)"
    by (simp add: unsigned_raw_def assms(12))
  have "derive lib (unsigned_raw raw) cfg G chainID
      = Some (Inr (zero_SpanBatch\<lparr>ParentCheck := parentCheck raw, L1OriginCheck := l1OriginCheck raw, Batches := els\<rparr>))"
    using n nums rec full el start
    by (cases ms) (simp_all add: derive_def u assms(6,7,9) iv Let_def)
  moreover have "map el_EpochNum els = ?es" "map el_Transactions els = map sb_Transactions ss"
    "map el_Timestamp els = map ?ts [0..<length ss]"
    by (auto simp: els_def intro!: nth_equalityI)
  ultimately show ?thesis using iv by (intro that [of els]) simp_all
qed

text \<open>C25: what the batcher puts in a span batch is what a node derives from it. For batches in the order
  of their times, whose epoch numbers never jump, with transactions as the sequencer includes them, within
  the size limits: appending them succeeds, the raw form encodes, decoding it and deriving the span batch
  succeed, and the result has the same epoch numbers and the same transactions, block by block, the
  parent of the first and the origin hash of the last, and millisecond timestamps that start at the first
  batch's time and go up by the block interval. The units of the first timestamp and of the relative
  timestamp (seconds before Volta, milliseconds after) agree on the two sides.\<close>

theorem span_batch_end_to_end:
  assumes "ss \<noteq> []" "length ss \<le> unat MaxSpanBatchElementCount"
    and "length (all_txs (singulars ss)) \<le> unat MaxSpanBatchElementCount"
    and "sorted (map sb_Timestamp (singulars ss))" "steps_by_one (map sb_EpochNum (singulars ss))"
    and "list_all2 (valid_tx lib chainID) (all_txs (singulars ss)) ts"
    and "units_agree cfg G (sb_Timestamp (hd (singulars ss)))"
  shows "\<exists>b0 b raw enc raw' sp. NewSpanBatch lib G chainID = Some b0 \<and> append_all lib b0 ss = Some (b, None) \<and>
     ToRawSpanBatch b cfg = Inr raw \<and> encode_raw raw = Some (Inr enc) \<and>
     decode_raw lib zero_RawSpanBatch enc = Inr (raw', []) \<and> derive lib raw' cfg G chainID = Some (Inr sp) \<and>
     map el_EpochNum (Batches sp) = map sb_EpochNum (singulars ss) \<and>
     map el_Transactions (Batches sp) = map sb_Transactions (singulars ss) \<and>
     map el_Timestamp (Batches sp) = map (\<lambda>i. milli cfg (sb_Timestamp (hd (singulars ss)))
       + fst (span_interval cfg G (relTimestamp raw)) * of_nat i) [0..<length ss] \<and>
     CheckParentHash sp (sb_ParentHash (hd (singulars ss))) \<and> CheckOriginHash sp (sb_EpochHash (last (singulars ss)))"
proof -
  let ?ss = "singulars ss"
  have M: "unat MaxSpanBatchElementCount < 2 ^ 62" by (simp add: MaxSpanBatchElementCount_def)
  have ls: "length ?ss = length ss" "?ss \<noteq> []" using assms(1) by (simp_all add: singulars_def)
  obtain b0 where b0: "NewSpanBatch lib G chainID = Some b0" "span_of lib G chainID [] [] b0"
    using NewSpanBatch_span by blast
  have so: "sorted (map sb_Timestamp ([] @ ?ss))" using assms(4) by simp
  have l: "length ([] :: (bytes \<times> Transaction) list) + length (all_txs ?ss) < 2 ^ 63" using assms(3) M by simp
  obtain b bts where b: "append_all lib b0 ss = Some (b, None)" "span_of lib G chainID ?ss bts b"
    "length bts = length (all_txs ?ss)"
    using append_all_span [OF b0(2) assms(6) so l] by auto
  have sz: "length ?ss \<le> unat MaxSpanBatchElementCount" "length bts \<le> unat MaxSpanBatchElementCount"
    using assms(2,3) ls b(3) by simp_all
  obtain raw txs og where raw: "ToRawSpanBatch b cfg = Inr raw" "wf_raw lib raw"
    "relTimestamp raw = rel_time cfg G (sb_Timestamp (hd ?ss))" "l1OriginNum raw = sb_EpochNum (last ?ss)"
    "parentCheck raw = hash20 (sb_ParentHash (hd ?ss))" "l1OriginCheck raw = hash20 (sb_EpochHash (last ?ss))"
    "blockCount raw = of_nat (length ?ss)" "originBits raw = Some og"
    "\<And>i. 0 < i \<Longrightarrow> i < length ?ss \<Longrightarrow> bit og i = advances (map sb_EpochNum ?ss) i"
    "blockTxCounts raw = map (\<lambda>s. of_nat (length (sb_Transactions s))) ?ss"
    "rsb_txs raw = Some txs" "complete_columns lib chainID bts txs"
    using span_raw [OF b(2) ls(2) sz] by metis
  obtain enc where enc: "encode_raw raw = Some (Inr enc)"
    "\<forall>r. decode_raw lib zero_RawSpanBatch (enc @ r) = Inr (unsigned_raw raw, r)"
    using raw_roundtrip [OF raw(2)] by blast
  have dec: "decode_raw lib zero_RawSpanBatch enc = Inr (unsigned_raw raw, [])"
    using enc(2) by (metis append_Nil2)
  have bt: "map fst bts = all_txs ?ss" using b(2) by (simp add: span_of_def all_txs_def)
  have l63: "length ?ss < 2 ^ 63" using sz(1) M by simp
  obtain els where els: "derive lib (unsigned_raw raw) cfg G chainID
      = Some (Inr (zero_SpanBatch\<lparr>ParentCheck := parentCheck raw, L1OriginCheck := l1OriginCheck raw, Batches := els\<rparr>))"
    "map el_EpochNum els = map sb_EpochNum ?ss" "map el_Transactions els = map sb_Transactions ?ss"
    "map el_Timestamp els = map (\<lambda>i. milli cfg (sb_Timestamp (hd ?ss))
       + fst (span_interval cfg G (rel_time cfg G (sb_Timestamp (hd ?ss)))) * of_nat i) [0..<length ?ss]"
    using derive_recovers [OF raw(12) bt ls(2) l63 assms(5) raw(3,4,7-11) assms(7)] by blast
  let ?sp = "zero_SpanBatch\<lparr>ParentCheck := parentCheck raw, L1OriginCheck := l1OriginCheck raw, Batches := els\<rparr>"
  have "Batches ?sp = els" "CheckParentHash ?sp (sb_ParentHash (hd ?ss))" "CheckOriginHash ?sp (sb_EpochHash (last ?ss))"
    using raw(5,6) by (simp_all add: CheckParentHash_def CheckOriginHash_def)
  with b0(1) b(1) raw(1) enc(1) dec els raw(3) ls(1) show ?thesis by metis
qed

theorem span_batch_end_to_end_witness:
  "let s1 = \<lparr>sb_ParentHash = 1, sb_EpochNum = 30, sb_EpochHash = 2, sb_Timestamp = 1691753724, sb_Transactions = [[7]]\<rparr>;
       s2 = \<lparr>sb_ParentHash = 3, sb_EpochNum = 31, sb_EpochHash = 4, sb_Timestamp = 1691753725, sb_Transactions = [[7], [7]]\<rparr>;
       ss = [(s1, 5), (s2, 0)]; cfg = OPBNBMainnet; G = 1691753723; lib = example_lib2
   in \<exists>b0 b raw enc raw' sp. NewSpanBatch lib G 1 = Some b0 \<and> append_all lib b0 ss = Some (b, None) \<and>
     ToRawSpanBatch b cfg = Inr raw \<and> encode_raw raw = Some (Inr enc) \<and>
     decode_raw lib zero_RawSpanBatch enc = Inr (raw', []) \<and> derive lib raw' cfg G 1 = Some (Inr sp) \<and>
     map el_EpochNum (Batches sp) = map sb_EpochNum (singulars ss) \<and>
     map el_Transactions (Batches sp) = map sb_Transactions (singulars ss) \<and>
     map el_Timestamp (Batches sp) = map (\<lambda>i. milli cfg (sb_Timestamp (hd (singulars ss)))
       + fst (span_interval cfg G (relTimestamp raw)) * of_nat i) [0..<length ss] \<and>
     CheckParentHash sp (sb_ParentHash (hd (singulars ss))) \<and> CheckOriginHash sp (sb_EpochHash (last (singulars ss)))"
  unfolding Let_def
  by (rule span_batch_end_to_end [where ts = "[example_tx, example_tx, example_tx]"])
    (simp_all add: singulars_def all_txs_def MaxSpanBatchElementCount_def steps_by_one_def units_agree_def
      OPBNBMainnet_def less_Suc_eq valid_tx_def example_lib2_def example_tx_def blank_tx_def valid_v_def
      newSpanBatchTx_def rebuilt_def LegacyTxType_def)

end
