(* ===== verification/Batches.thy ===== *)
theory Batches
  imports SpanBatch L1Info
begin

text \<open>
  The validity of a batch on top of the safe head (op-node/rollup/derive/batches.go). The fetcher of
  safe L2 blocks, Keccak-256 and the decoder of transaction envelopes are parameters. A check of a
  span batch may panic (\<open>None\<close>) where it indexes the span.
\<close>

datatype BatchValidity = BatchDrop | BatchAccept | BatchUndecided | BatchFuture

datatype Batch = Singular SingularBatch | Span SpanBatch

record BatchWithL1InclusionBlock =
  bw_Batch :: Batch
  bw_L1InclusionBlock :: L1BlockRef

record SafeBlockFetcher =
  L2BlockRefByNumber :: "u64 \<Rightarrow> L2BlockRef res"
  PayloadByNumber :: "u64 \<Rightarrow> ExecutionPayload res"

section \<open>Singular batches\<close>

text \<open>A batch must not contain an empty transaction or a deposit.\<close>

definition good_tx :: "bytes \<Rightarrow> bool" where
  "good_tx tx \<longleftrightarrow> tx \<noteq> [] \<and> hd tx \<noteq> DepositTxType"

text \<open>The last moment a block of an origin may have transactions.\<close>

definition max_time :: "Config \<Rightarrow> L1BlockRef \<Rightarrow> u64" where
  "max_time cfg origin =
     l1_MillisecondTimestamp origin + MaxSequencerDrift cfg (l1_Time origin) * 1000"

definition checkSingularBatch ::
    "Config \<Rightarrow> L1BlockRef list \<Rightarrow> L2BlockRef \<Rightarrow> SingularBatch \<Rightarrow> L1BlockRef \<Rightarrow> BatchValidity" where
  "checkSingularBatch cfg l1Blocks l2SafeHead batch l1InclusionBlock =
     (if l1Blocks = [] then BatchUndecided
      else
        (let epoch = hd l1Blocks;
             nextMilliTimestamp = NextMillisecondBlockTime cfg (l2_MillisecondTimestamp l2SafeHead)
         in if sb_Timestamp batch > nextMilliTimestamp then BatchFuture
            else if sb_Timestamp batch < nextMilliTimestamp then BatchDrop
            else if sb_ParentHash batch \<noteq> l2_Hash l2SafeHead then BatchDrop
            else if sb_EpochNum batch + cfg_SeqWindowSize cfg < l1_Number l1InclusionBlock then BatchDrop
            else if sb_EpochNum batch < l1_Number epoch then BatchDrop
            else if sb_EpochNum batch \<noteq> l1_Number epoch \<and> sb_EpochNum batch \<noteq> l1_Number epoch + 1 then BatchDrop
            else if sb_EpochNum batch \<noteq> l1_Number epoch \<and> length l1Blocks < 2 then BatchUndecided
            else
              (let batchOrigin = (if sb_EpochNum batch = l1_Number epoch then epoch else l1Blocks ! 1) in
               if sb_EpochHash batch \<noteq> l1_Hash batchOrigin then BatchDrop
               else if sb_Timestamp batch < l1_MillisecondTimestamp batchOrigin then BatchDrop
               else
                 (let drift =
                    (if sb_Timestamp batch > max_time cfg batchOrigin then
                       (if sb_Transactions batch = [] then
                          (if l1_Number epoch = l1_Number batchOrigin then
                             (if length l1Blocks < 2 then Some BatchUndecided
                              else if sb_Timestamp batch \<ge> l1_MillisecondTimestamp (l1Blocks ! 1)
                              then Some BatchDrop else None)
                           else None)
                        else Some BatchDrop)
                     else None)
                  in case drift of
                       Some v \<Rightarrow> v
                     | None \<Rightarrow> if list_all good_tx (sb_Transactions batch) then BatchAccept else BatchDrop))))"

section \<open>Span batches\<close>

fun check_end_origin :: "SpanBatch \<Rightarrow> u64 \<Rightarrow> L1BlockRef list \<Rightarrow> BatchValidity option" where
  "check_end_origin batch endEpochNum [] = Some BatchUndecided"
| "check_end_origin batch endEpochNum (l1Block # l1Blocks) =
     (if l1_Number l1Block = endEpochNum then
        (if CheckOriginHash batch (l1_Hash l1Block) then None else Some BatchDrop)
      else check_end_origin batch endEpochNum l1Blocks)"

text \<open>One block of the span after the safe head: a verdict, or the state for the next block.\<close>

definition check_span_block :: "Config \<Rightarrow> L1BlockRef list \<Rightarrow> SpanBatchElement \<Rightarrow> L1BlockRef \<Rightarrow> nat \<Rightarrow> bool
    \<Rightarrow> BatchValidity option" where
  "check_span_block cfg l1Blocks el l1Origin originIdx originAdvanced =
     (if el_Timestamp el < l1_MillisecondTimestamp l1Origin then Some BatchDrop
      else
        (let drift =
           (if el_Timestamp el > max_time cfg l1Origin then
              (if el_Transactions el = [] then
                 (if \<not> originAdvanced then
                    (if originIdx + 1 \<ge> length l1Blocks then Some BatchUndecided
                     else if el_Timestamp el \<ge> l1_MillisecondTimestamp (l1Blocks ! (originIdx + 1))
                     then Some BatchDrop else None)
                  else None)
               else Some BatchDrop)
            else None)
         in case drift of
              Some v \<Rightarrow> Some v
            | None \<Rightarrow> if list_all good_tx (el_Transactions el) then None else Some BatchDrop))"

text \<open>The blocks from index \<open>i\<close> on; the origin of a block that is not found is the zero reference.\<close>

fun check_span_blocks :: "Config \<Rightarrow> L1BlockRef list \<Rightarrow> u64 \<Rightarrow> SpanBatchElement option \<Rightarrow> SpanBatchElement list
    \<Rightarrow> nat \<Rightarrow> bool \<Rightarrow> BatchValidity option" where
  "check_span_blocks cfg l1Blocks safeTime prv [] originIdx originAdvanced = None"
| "check_span_blocks cfg l1Blocks safeTime prv (el # els) originIdx originAdvanced =
     (if el_Timestamp el \<le> safeTime then
        check_span_blocks cfg l1Blocks safeTime (Some el) els originIdx originAdvanced
      else
        (let (originIdx, l1Origin) =
               (case find_origin l1Blocks (length l1Blocks) originIdx (el_EpochNum el) of
                  None \<Rightarrow> (originIdx, zero_L1BlockRef) | Some r \<Rightarrow> r);
             originAdvanced = (case prv of None \<Rightarrow> originAdvanced | Some p \<Rightarrow> el_EpochNum el > el_EpochNum p)
         in case check_span_block cfg l1Blocks el l1Origin originIdx originAdvanced of
              Some v \<Rightarrow> Some v
            | None \<Rightarrow> check_span_blocks cfg l1Blocks safeTime (Some el) els originIdx originAdvanced))"

text \<open>The deposits of a safe block are counted by their first byte: an empty transaction panics.\<close>

fun deposit_count :: "bytes list \<Rightarrow> nat go" where
  "deposit_count [] = Some 0"
| "deposit_count (tx # txs) =
     (case tx of
        [] \<Rightarrow> None
      | b # _ \<Rightarrow> map_option (\<lambda>n. if b = DepositTxType then Suc n else n) (deposit_count txs))"

fun check_overlap :: "keccak \<Rightarrow> txDecoder \<Rightarrow> Config \<Rightarrow> SafeBlockFetcher \<Rightarrow> SpanBatch \<Rightarrow> u64 \<Rightarrow> nat \<Rightarrow> nat
    \<Rightarrow> BatchValidity option go" where
  "check_overlap keccak256 decodeTx cfg l2Fetcher batch parentNum 0 i = Some None"
| "check_overlap keccak256 decodeTx cfg l2Fetcher batch parentNum (Suc n) i =
     (case PayloadByNumber l2Fetcher (parentNum + of_nat i + 1) of
        Inl err \<Rightarrow> Some (Some BatchUndecided)
      | Inr payload \<Rightarrow> do {
          let safeBlockTxs = ep_Transactions payload;
          batchTxs \<leftarrow> GetBlockTransactions batch i;
          depositCount \<leftarrow> deposit_count safeBlockTxs;
          if length safeBlockTxs - depositCount \<noteq> length batchTxs then Some (Some BatchDrop)
          else if drop depositCount safeBlockTxs \<noteq> batchTxs then Some (Some BatchDrop)
          else
            (case PayloadToBlockRef keccak256 decodeTx cfg payload of
               Inl err \<Rightarrow> Some (Some BatchDrop)
             | Inr safeBlockRef \<Rightarrow> do {
                 epochNum \<leftarrow> GetBlockEpochNum batch i;
                 if bid_Number (l2_L1Origin safeBlockRef) \<noteq> epochNum then Some (Some BatchDrop)
                 else check_overlap keccak256 decodeTx cfg l2Fetcher batch parentNum n (i + 1)
               })
        })"

text \<open>The parent block of the span: the safe head, or the block before the first one it overlaps.\<close>

definition span_parent :: "Config \<Rightarrow> L2BlockRef \<Rightarrow> SafeBlockFetcher \<Rightarrow> u64 \<Rightarrow> u64
    \<Rightarrow> (BatchValidity + u64 \<times> L2BlockRef) go" where
  "span_parent cfg l2SafeHead l2Fetcher start nextMilliTimestamp =
     (if start < nextMilliTimestamp then
        (if start > l2_MillisecondTimestamp l2SafeHead then Some (Inl BatchDrop)
         else
           (let milliSecondsDistance = l2_MillisecondTimestamp l2SafeHead - start;
                interval = (if \<not> IsFourier cfg (l2_MillisecondTimestamp l2SafeHead div 1000)
                            then MillisecondBlockIntervalVolta else MillisecondBlockIntervalFourier)
            in if milliSecondsDistance mod interval \<noteq> 0 then Some (Inl BatchDrop)
               else do {
                 current \<leftarrow> TargetBlockNumber cfg start;
                 case current of
                   Inl err \<Rightarrow> Some (Inl BatchUndecided)
                 | Inr currentNum \<Rightarrow>
                     (let parentNum = currentNum - 1 in
                      case L2BlockRefByNumber l2Fetcher parentNum of
                        Inl err \<Rightarrow> Some (Inl BatchUndecided)
                      | Inr parentBlock \<Rightarrow> Some (Inr (parentNum, parentBlock)))
               }))
      else Some (Inr (l2_Number l2SafeHead, l2SafeHead)))"

definition check_span_rest :: "keccak \<Rightarrow> txDecoder \<Rightarrow> Config \<Rightarrow> L1BlockRef list \<Rightarrow> L2BlockRef \<Rightarrow> SpanBatch
    \<Rightarrow> L1BlockRef \<Rightarrow> SafeBlockFetcher \<Rightarrow> u64 \<Rightarrow> u64 \<Rightarrow> L2BlockRef \<Rightarrow> BatchValidity go" where
  "check_span_rest keccak256 decodeTx cfg l1Blocks l2SafeHead batch l1InclusionBlock l2Fetcher
       nextMilliTimestamp parentNum parentBlock = do {
     startEpochNum \<leftarrow> GetStartEpochNum batch;
     start \<leftarrow> GetTimestamp batch;
     endEpochNum \<leftarrow> GetBlockEpochNum batch (GetBlockCount batch - 1);
     if \<not> CheckParentHash batch (l2_Hash parentBlock) then Some BatchDrop
     else if startEpochNum + cfg_SeqWindowSize cfg < l1_Number l1InclusionBlock then Some BatchDrop
     else if startEpochNum > bid_Number (l2_L1Origin parentBlock) + 1 then Some BatchDrop
     else (case check_end_origin batch endEpochNum l1Blocks of
         Some v \<Rightarrow> Some v
       | None \<Rightarrow>
           if startEpochNum < bid_Number (l2_L1Origin parentBlock) then Some BatchDrop
           else
             (case check_span_blocks cfg l1Blocks (l2_MillisecondTimestamp l2SafeHead) None (Batches batch) 0
                     (startEpochNum = bid_Number (l2_L1Origin parentBlock) + 1) of
                Some v \<Rightarrow> Some v
              | None \<Rightarrow>
                  if start < nextMilliTimestamp then do {
                    overlap \<leftarrow> check_overlap keccak256 decodeTx cfg l2Fetcher batch parentNum
                                 (unat (l2_Number l2SafeHead - parentNum)) 0;
                    Some (case overlap of Some v \<Rightarrow> v | None \<Rightarrow> BatchAccept)
                  } else Some BatchAccept))
   }"

definition checkSpanBatch :: "keccak \<Rightarrow> txDecoder \<Rightarrow> Config \<Rightarrow> L1BlockRef list \<Rightarrow> L2BlockRef \<Rightarrow> SpanBatch
    \<Rightarrow> L1BlockRef \<Rightarrow> SafeBlockFetcher \<Rightarrow> BatchValidity go" where
  "checkSpanBatch keccak256 decodeTx cfg l1Blocks l2SafeHead batch l1InclusionBlock l2Fetcher =
     (if l1Blocks = [] then Some BatchUndecided
      else do {
        let epoch = hd l1Blocks;
        startEpochNum \<leftarrow> GetStartEpochNum batch;
        if startEpochNum = l1_Number epoch + 1 \<and> length l1Blocks < 2 then Some BatchUndecided
        else do {
          let batchOrigin = (if startEpochNum = l1_Number epoch + 1 then l1Blocks ! 1 else epoch);
          if \<not> IsDelta cfg (l1_Time batchOrigin) then Some BatchDrop
          else do {
            let nextMilliTimestamp = NextMillisecondBlockTime cfg (l2_MillisecondTimestamp l2SafeHead);
            start \<leftarrow> GetTimestamp batch;
            lastTime \<leftarrow> GetBlockTimestamp batch (GetBlockCount batch - 1);
            if start > nextMilliTimestamp then Some BatchFuture
            else if lastTime < nextMilliTimestamp then Some BatchDrop
            else do {
              parent \<leftarrow> span_parent cfg l2SafeHead l2Fetcher start nextMilliTimestamp;
              case parent of
                Inl v \<Rightarrow> Some v
              | Inr (parentNum, parentBlock) \<Rightarrow>
                  check_span_rest keccak256 decodeTx cfg l1Blocks l2SafeHead batch l1InclusionBlock
                    l2Fetcher nextMilliTimestamp parentNum parentBlock
            }
          }
        }
      })"

definition CheckBatch :: "keccak \<Rightarrow> txDecoder \<Rightarrow> Config \<Rightarrow> L1BlockRef list \<Rightarrow> L2BlockRef
    \<Rightarrow> BatchWithL1InclusionBlock \<Rightarrow> SafeBlockFetcher \<Rightarrow> BatchValidity go" where
  "CheckBatch keccak256 decodeTx cfg l1Blocks l2SafeHead batch l2Fetcher =
     (case bw_Batch batch of
        Singular b \<Rightarrow> Some (checkSingularBatch cfg l1Blocks l2SafeHead b (bw_L1InclusionBlock batch))
      | Span b \<Rightarrow> checkSpanBatch keccak256 decodeTx cfg l1Blocks l2SafeHead b (bw_L1InclusionBlock batch) l2Fetcher)"

section \<open>What acceptance of a singular batch means\<close>

definition valid_singular :: "Config \<Rightarrow> L1BlockRef list \<Rightarrow> L2BlockRef \<Rightarrow> SingularBatch \<Rightarrow> L1BlockRef \<Rightarrow> bool" where
  "valid_singular cfg l1Blocks safe b inclusion \<longleftrightarrow>
     l1Blocks \<noteq> [] \<and>
     sb_Timestamp b = NextMillisecondBlockTime cfg (l2_MillisecondTimestamp safe) \<and>
     sb_ParentHash b = l2_Hash safe \<and>
     l1_Number inclusion \<le> sb_EpochNum b + cfg_SeqWindowSize cfg \<and>
     (\<exists>origin. (origin = hd l1Blocks \<and> sb_EpochNum b = l1_Number (hd l1Blocks)
              \<or> 2 \<le> length l1Blocks \<and> origin = l1Blocks ! 1 \<and> sb_EpochNum b = l1_Number (hd l1Blocks) + 1
                \<and> l1_Number (hd l1Blocks) < sb_EpochNum b) \<and>
        sb_EpochHash b = l1_Hash origin \<and>
        l1_MillisecondTimestamp origin \<le> sb_Timestamp b \<and>
        (max_time cfg origin < sb_Timestamp b \<longrightarrow>
           sb_Transactions b = [] \<and>
           (l1_Number origin \<noteq> l1_Number (hd l1Blocks) \<or>
            2 \<le> length l1Blocks \<and> sb_Timestamp b < l1_MillisecondTimestamp (l1Blocks ! 1)))) \<and>
     (\<forall>tx \<in> set (sb_Transactions b). good_tx tx)"

lemma checkSingularBatch_accept:
  "checkSingularBatch cfg l1Blocks safe b inclusion = BatchAccept \<longleftrightarrow> valid_singular cfg l1Blocks safe b inclusion"
proof -
  let ?next = "NextMillisecondBlockTime cfg (l2_MillisecondTimestamp safe)"
  let ?n = "l1_Number (hd l1Blocks)"
  consider (none) "l1Blocks = []" | (future) "l1Blocks \<noteq> []" "sb_Timestamp b > ?next"
    | (old) "l1Blocks \<noteq> []" "sb_Timestamp b < ?next" | (now) "l1Blocks \<noteq> []" "sb_Timestamp b = ?next"
    using linorder_less_linear by blast
  then show ?thesis
  proof cases
    case future
    moreover from future have "sb_Timestamp b \<noteq> ?next" by simp
    ultimately show ?thesis by (simp only: checkSingularBatch_def valid_singular_def Let_def) simp
  next
    case old
    moreover from old have "sb_Timestamp b \<noteq> ?next" "\<not> sb_Timestamp b > ?next" by simp_all
    ultimately show ?thesis by (simp only: checkSingularBatch_def valid_singular_def Let_def) simp
  next
    case now
    consider (parent) "sb_ParentHash b \<noteq> l2_Hash safe"
      | (window) "sb_EpochNum b + cfg_SeqWindowSize cfg < l1_Number inclusion"
      | (epoch) "sb_EpochNum b < ?n"
      | (go) "sb_ParentHash b = l2_Hash safe" "\<not> sb_EpochNum b + cfg_SeqWindowSize cfg < l1_Number inclusion"
        "\<not> sb_EpochNum b < ?n"
      by blast
    then show ?thesis
    proof cases
      case parent
      with now show ?thesis by (simp add: checkSingularBatch_def valid_singular_def Let_def)
    next
      case window
      then have "\<not> l1_Number inclusion \<le> sb_EpochNum b + cfg_SeqWindowSize cfg" by (simp add: not_le)
      with window now show ?thesis by (simp add: checkSingularBatch_def valid_singular_def Let_def)
    next
      case epoch
      then have "sb_EpochNum b \<noteq> ?n" "\<not> ?n < sb_EpochNum b" by simp_all
      with epoch now show ?thesis by (simp add: checkSingularBatch_def valid_singular_def Let_def)
    next
      case go
      then have w: "l1_Number inclusion \<le> sb_EpochNum b + cfg_SeqWindowSize cfg" by (simp add: not_less)
      show ?thesis
      proof (cases "sb_EpochNum b = ?n")
        case True
        with now go w show ?thesis
          by (simp add: checkSingularBatch_def valid_singular_def Let_def list_all_iff not_less [symmetric] split: if_split)
      next
        case False
        then have "?n < sb_EpochNum b" using go(3) by simp
        with False now go w show ?thesis
          by (simp add: checkSingularBatch_def valid_singular_def Let_def list_all_iff not_less [symmetric] split: if_split)
      qed
    qed
  qed (simp add: checkSingularBatch_def valid_singular_def)
qed

text \<open>C14: checkSingularBatch accepts exactly the valid batches: at the next block time, on the safe head,
  inside its sequence window, in the epoch of the first L1 block or of the next one, with the hash of that
  origin, not before the origin's time, without deposits or empty transactions, and past the sequencer
  drift only when it is empty and either moves to the next origin or cannot do so yet.\<close>

theorem checkSingularBatch_accept_iff:
  "checkSingularBatch cfg l1Blocks safe b inclusion = BatchAccept \<longleftrightarrow> valid_singular cfg l1Blocks safe b inclusion"
  by (rule checkSingularBatch_accept)

text \<open>A verdict other than undecided does not depend on L1 blocks that are not known yet.\<close>

lemma checkSingularBatch_final:
  assumes "checkSingularBatch cfg l1Blocks safe b inclusion \<noteq> BatchUndecided"
  shows "checkSingularBatch cfg (l1Blocks @ later) safe b inclusion = checkSingularBatch cfg l1Blocks safe b inclusion"
proof (cases "length l1Blocks < 2")
  case False
  then have "(l1Blocks @ later) ! 1 = l1Blocks ! 1" "l1Blocks \<noteq> []" "\<not> length (l1Blocks @ later) < 2"
    by (auto simp: nth_append)
  then show ?thesis using False by (simp only: checkSingularBatch_def hd_append2 append_is_Nil_conv simp_thms if_False)
next
  case True
  show ?thesis
  proof (cases "l1Blocks = []")
    case True
    with assms show ?thesis by (simp add: checkSingularBatch_def)
  next
    case ne: False
    show ?thesis
    proof (cases "sb_EpochNum b = l1_Number (hd l1Blocks)")
      case e: True
      show ?thesis
        using assms ne True e
        by (simp add: checkSingularBatch_def Let_def split: if_split_asm) (simp_all add: less_imp_neq)
    next
      case e: False
      show ?thesis
      proof (cases "sb_EpochNum b = l1_Number (hd l1Blocks) + 1")
        case f: True
        have "NextMillisecondBlockTime cfg (l2_MillisecondTimestamp safe) < sb_Timestamp b
            \<or> sb_Timestamp b < NextMillisecondBlockTime cfg (l2_MillisecondTimestamp safe)
            \<or> sb_ParentHash b \<noteq> l2_Hash safe
            \<or> l1_Number (hd l1Blocks) + 1 + cfg_SeqWindowSize cfg < l1_Number inclusion
            \<or> l1_Number (hd l1Blocks) + 1 < l1_Number (hd l1Blocks)"
        proof (rule ccontr)
          assume "\<not> ?thesis"
          then have "checkSingularBatch cfg l1Blocks safe b inclusion = BatchUndecided"
            using ne True e [unfolded f] by (simp add: checkSingularBatch_def Let_def f)
          with assms show False by simp
        qed
        then show ?thesis
          using ne by (elim disjE) (simp_all add: checkSingularBatch_def Let_def f e [unfolded f])
      next
        case f: False
        then show ?thesis
          using ne e by (simp add: checkSingularBatch_def Let_def)
      qed
    qed
  qed
qed

section \<open>What acceptance of a span batch means\<close>

lemma check_span_block_None:
  "check_span_block cfg l1Blocks el origin idx adv = None \<longleftrightarrow>
     l1_MillisecondTimestamp origin \<le> el_Timestamp el \<and>
     (max_time cfg origin < el_Timestamp el \<longrightarrow>
        el_Transactions el = [] \<and>
        (adv \<or> idx + 1 < length l1Blocks \<and> el_Timestamp el < l1_MillisecondTimestamp (l1Blocks ! (idx + 1)))) \<and>
     (\<forall>tx \<in> set (el_Transactions el). good_tx tx)"
proof -
  have n: "(a \<le> b) = (\<not> b < a)" for a b :: u64 by (simp add: not_less)
  show ?thesis
    by (simp add: check_span_block_def Let_def list_all_iff n [of _ "el_Timestamp el"] not_le split: if_split)
qed

lemma find_origin_Some:
  "find_origin l1 n i num = Some (j, b) \<Longrightarrow> i \<le> j \<and> j < length l1 \<and> b = l1 ! j \<and> l1_Number b = num"
  by (induction n arbitrary: i) (auto split: if_splits dest: Suc_leD)

lemma find_origin_None:
  "find_origin l1 n i num = None \<Longrightarrow> length l1 \<le> i + n \<Longrightarrow> i \<le> j \<Longrightarrow> j < length l1 \<Longrightarrow> l1_Number (l1 ! j) \<noteq> num"
proof (induction n arbitrary: i)
  case (Suc n)
  then show ?case by (cases "j = i") (auto split: if_splits)
qed simp


lemma find_origin_number:
  assumes l1: "\<forall>j < length l1. unat (l1_Number (l1 ! j)) = n0 + j"
    and num: "unat num = n0 + k" "i \<le> k" "k < length l1"
  shows "find_origin l1 (length l1) i num = Some (k, l1 ! k)"
proof (cases "find_origin l1 (length l1) i num")
  case None
  have "l1_Number (l1 ! k) \<noteq> num" by (rule find_origin_None [OF None]) (use num in auto)
  moreover have "unat (l1_Number (l1 ! k)) = unat num" using l1 num by simp
  ultimately show ?thesis by (simp add: word_unat_eq_iff)
next
  case (Some r)
  obtain j b where r: "r = (j, b)" by (cases r)
  from find_origin_Some [OF Some [unfolded r]] have "j < length l1" "b = l1 ! j" "l1_Number b = num" by auto
  moreover from this l1 num have "j = k" by auto
  ultimately show ?thesis using Some r by simp
qed

text \<open>What is checked of a new block of a span: its origin is the L1 block with its number.\<close>

definition span_block_ok :: "Config \<Rightarrow> L1BlockRef list \<Rightarrow> bool \<Rightarrow> SpanBatchElement \<Rightarrow> bool" where
  "span_block_ok cfg l1Blocks adv el \<longleftrightarrow>
     (\<exists>k < length l1Blocks.
        l1_Number (l1Blocks ! k) = el_EpochNum el \<and>
        l1_MillisecondTimestamp (l1Blocks ! k) \<le> el_Timestamp el \<and>
        (max_time cfg (l1Blocks ! k) < el_Timestamp el \<longrightarrow>
           el_Transactions el = [] \<and>
           (adv \<or> k + 1 < length l1Blocks \<and> el_Timestamp el < l1_MillisecondTimestamp (l1Blocks ! (k + 1)))) \<and>
        (\<forall>tx \<in> set (el_Transactions el). good_tx tx))"

definition advances_at :: "bool \<Rightarrow> SpanBatchElement option \<Rightarrow> SpanBatchElement list \<Rightarrow> nat \<Rightarrow> bool" where
  "advances_at adv prv els i =
     (if i = 0 then (case prv of None \<Rightarrow> adv | Some p \<Rightarrow> el_EpochNum (els ! 0) > el_EpochNum p)
      else el_EpochNum (els ! i) > el_EpochNum (els ! (i - 1)))"

lemma check_span_blocks_None:
  assumes l1: "\<forall>j < length l1. unat (l1_Number (l1 ! j)) = n0 + j"
  shows "check_span_blocks cfg l1 safe prv els idx adv = None \<Longrightarrow>
    sorted (map (\<lambda>el. unat (el_EpochNum el)) els) \<Longrightarrow>
    \<forall>el \<in> set els. safe < el_Timestamp el \<longrightarrow> n0 + idx \<le> unat (el_EpochNum el) \<and> unat (el_EpochNum el) < n0 + length l1 \<Longrightarrow>
    i < length els \<Longrightarrow> safe < el_Timestamp (els ! i) \<Longrightarrow>
    span_block_ok cfg l1 (advances_at adv prv els i) (els ! i)"
proof (induction els arbitrary: prv idx adv i)
  case (Cons el els)
  have step: "advances_at adv prv (el # els) (Suc m) = advances_at adv' (Some el) els m" for m adv'
    by (cases m) (auto simp: advances_at_def)
  show ?case
  proof (cases "el_Timestamp el \<le> safe")
    case True
    then obtain m where i: "i = Suc m" using Cons.prems(4,5) by (cases i) auto
    have "span_block_ok cfg l1 (advances_at adv (Some el) els m) (els ! m)"
      by (rule Cons.IH) (use Cons.prems True i in auto)
    then show ?thesis using i by (simp add: step [of m adv])
  next
    case False
    then have new: "safe < el_Timestamp el" by (simp add: not_le)
    define k where "k = unat (el_EpochNum el) - n0"
    have k: "unat (el_EpochNum el) = n0 + k" "idx \<le> k" "k < length l1"
      using Cons.prems(3) new by (auto simp: k_def)
    have found: "find_origin l1 (length l1) idx (el_EpochNum el) = Some (k, l1 ! k)"
      by (rule find_origin_number [OF l1 k])
    define a where "a = (case prv of None \<Rightarrow> adv | Some p \<Rightarrow> el_EpochNum el > el_EpochNum p)"
    have block: "check_span_block cfg l1 el (l1 ! k) k a = None"
      and rest: "check_span_blocks cfg l1 safe (Some el) els k a = None"
      using Cons.prems(1) False found by (auto simp: Let_def a_def split: option.splits)
    show ?thesis
    proof (cases i)
      case 0
      have "l1_Number (l1 ! k) = el_EpochNum el"
        using l1 k by (simp add: word_unat_eq_iff)
      moreover have "advances_at adv prv (el # els) 0 = a"
        by (simp add: advances_at_def a_def split: option.split)
      ultimately show ?thesis
        using block k(3) 0 by (auto simp: check_span_block_None span_block_ok_def intro!: exI [of _ k])
    next
      case (Suc m)
      have "span_block_ok cfg l1 (advances_at a (Some el) els m) (els ! m)"
        by (rule Cons.IH [OF rest]) (use Cons.prems Suc k in \<open>fastforce+\<close>)
      then show ?thesis using Suc by (simp add: step [of m a])
    qed
  qed
qed simp


text \<open>The overlapped blocks of a span are those of the safe chain, transaction by transaction.\<close>

definition overlap_ok :: "keccak \<Rightarrow> txDecoder \<Rightarrow> Config \<Rightarrow> SafeBlockFetcher \<Rightarrow> SpanBatch \<Rightarrow> u64 \<Rightarrow> nat \<Rightarrow> bool" where
  "overlap_ok keccak256 decodeTx cfg l2Fetcher batch parentNum i \<longleftrightarrow>
     (\<exists>payload ref d.
        PayloadByNumber l2Fetcher (parentNum + of_nat i + 1) = Inr payload \<and>
        PayloadToBlockRef keccak256 decodeTx cfg payload = Inr ref \<and>
        deposit_count (ep_Transactions payload) = Some d \<and>
        i < length (Batches batch) \<and>
        drop d (ep_Transactions payload) = el_Transactions (Batches batch ! i) \<and>
        bid_Number (l2_L1Origin ref) = el_EpochNum (Batches batch ! i))"

lemma at_Some: "at xs i = Some x \<longleftrightarrow> i < length xs \<and> x = xs ! i"
  by (auto simp: at_def)

lemma check_overlap_None:
  "check_overlap keccak256 decodeTx cfg l2Fetcher batch parentNum n i = Some None \<Longrightarrow> m < n
    \<Longrightarrow> overlap_ok keccak256 decodeTx cfg l2Fetcher batch parentNum (i + m)"
proof (induction n arbitrary: i m)
  case (Suc n)
  obtain payload where p: "PayloadByNumber l2Fetcher (parentNum + of_nat i + 1) = Inr payload"
    using Suc.prems(1) by (auto split: sum.splits)
  obtain txs d ref num where t: "GetBlockTransactions batch i = Some txs"
    "deposit_count (ep_Transactions payload) = Some d" "drop d (ep_Transactions payload) = txs"
    "PayloadToBlockRef keccak256 decodeTx cfg payload = Inr ref"
    "GetBlockEpochNum batch i = Some num" "bid_Number (l2_L1Origin ref) = num"
    and rest: "check_overlap keccak256 decodeTx cfg l2Fetcher batch parentNum n (i + 1) = Some None"
    using Suc.prems(1) p by (auto simp: Let_def split: sum.splits if_splits bind_splits)
  show ?case
  proof (cases m)
    case 0
    with p t show ?thesis
      by (auto simp: overlap_ok_def GetBlockTransactions_def GetBlockEpochNum_def at_Some)
  next
    case (Suc k)
    with Suc.IH [OF rest, of k] Suc.prems(2) show ?thesis by simp
  qed
qed simp

lemma check_end_origin_None:
  "check_end_origin batch num l1Blocks = None
    \<Longrightarrow> \<exists>k < length l1Blocks. l1_Number (l1Blocks ! k) = num \<and> CheckOriginHash batch (l1_Hash (l1Blocks ! k))"
proof (induction l1Blocks)
  case (Cons a bs)
  show ?case
  proof (cases "l1_Number a = num")
    case True
    with Cons.prems have "CheckOriginHash batch (l1_Hash a)" by (auto split: if_splits)
    with True show ?thesis by (intro exI [of _ 0]) simp
  next
    case False
    with Cons obtain k where "k < length bs" "l1_Number (bs ! k) = num" "CheckOriginHash batch (l1_Hash (bs ! k))"
      by auto
    then show ?thesis by (intro exI [of _ "Suc k"]) simp
  qed
qed simp

text \<open>What acceptance promises: \<open>parentNum\<close> and \<open>parent\<close> are the block the span builds on.\<close>

definition span_parent_ok :: "keccak \<Rightarrow> txDecoder \<Rightarrow> Config \<Rightarrow> L2BlockRef \<Rightarrow> SpanBatch \<Rightarrow> SafeBlockFetcher
    \<Rightarrow> L2BlockRef \<Rightarrow> bool" where
  "span_parent_ok keccak256 decodeTx cfg safe batch l2Fetcher parent \<longleftrightarrow>
     (let start = el_Timestamp (Batches batch ! 0);
          nxt = NextMillisecondBlockTime cfg (l2_MillisecondTimestamp safe)
      in start = nxt \<and> parent = safe
       \<or> start < nxt \<and> start \<le> l2_MillisecondTimestamp safe \<and>
         (\<exists>n. TargetBlockNumber cfg start = Some (Inr n) \<and> L2BlockRefByNumber l2Fetcher (n - 1) = Inr parent \<and>
            (\<forall>i < unat (l2_Number safe - (n - 1)). overlap_ok keccak256 decodeTx cfg l2Fetcher batch (n - 1) i)))"

definition valid_span :: "keccak \<Rightarrow> txDecoder \<Rightarrow> Config \<Rightarrow> L1BlockRef list \<Rightarrow> L2BlockRef \<Rightarrow> SpanBatch
    \<Rightarrow> L1BlockRef \<Rightarrow> SafeBlockFetcher \<Rightarrow> bool" where
  "valid_span keccak256 decodeTx cfg l1Blocks safe batch inclusion l2Fetcher \<longleftrightarrow>
     Batches batch \<noteq> [] \<and>
     NextMillisecondBlockTime cfg (l2_MillisecondTimestamp safe) \<le> el_Timestamp (last (Batches batch)) \<and>
     l1_Number inclusion \<le> el_EpochNum (Batches batch ! 0) + cfg_SeqWindowSize cfg \<and>
     (\<exists>k < length l1Blocks. l1_Number (l1Blocks ! k) = el_EpochNum (last (Batches batch)) \<and>
        CheckOriginHash batch (l1_Hash (l1Blocks ! k))) \<and>
     (\<exists>parent. span_parent_ok keccak256 decodeTx cfg safe batch l2Fetcher parent \<and>
        CheckParentHash batch (l2_Hash parent) \<and>
        bid_Number (l2_L1Origin parent) \<le> el_EpochNum (Batches batch ! 0) \<and>
        el_EpochNum (Batches batch ! 0) \<le> bid_Number (l2_L1Origin parent) + 1 \<and>
        (\<forall>i < length (Batches batch). l2_MillisecondTimestamp safe < el_Timestamp (Batches batch ! i) \<longrightarrow>
           span_block_ok cfg l1Blocks
             (if i = 0 then el_EpochNum (Batches batch ! 0) = bid_Number (l2_L1Origin parent) + 1
              else el_EpochNum (Batches batch ! (i - 1)) < el_EpochNum (Batches batch ! i))
             (Batches batch ! i)))"

lemma GetBlock_last:
  assumes "Batches batch \<noteq> []"
  shows "GetTimestamp batch = Some (el_Timestamp (Batches batch ! 0))"
    "GetStartEpochNum batch = Some (el_EpochNum (Batches batch ! 0))"
    "GetBlockTimestamp batch (GetBlockCount batch - 1) = Some (el_Timestamp (last (Batches batch)))"
    "GetBlockEpochNum batch (GetBlockCount batch - 1) = Some (el_EpochNum (last (Batches batch)))"
  using assms
  by (simp_all add: GetTimestamp_def GetStartEpochNum_def GetBlockTimestamp_def GetBlockEpochNum_def
      GetBlockCount_def at_def last_conv_nth)


text \<open>The parts of the check never accept by themselves.\<close>

lemma no_early_accept:
  "check_end_origin batch num l1Blocks \<noteq> Some BatchAccept"
  "check_span_block cfg l1Blocks el origin idx adv \<noteq> Some BatchAccept"
  "check_span_blocks cfg l1Blocks safeTime prv els idx adv \<noteq> Some BatchAccept"
  "check_overlap keccak256 decodeTx cfg l2Fetcher batch parentNum n i \<noteq> Some (Some BatchAccept)"
  "span_parent cfg safe l2Fetcher start nxt \<noteq> Some (Inl BatchAccept)"
proof -
  show "check_end_origin batch num l1Blocks \<noteq> Some BatchAccept" by (induction l1Blocks) auto
  show block: "check_span_block cfg l1Blocks el origin idx adv \<noteq> Some BatchAccept" for l1Blocks el origin idx adv
    by (auto simp: check_span_block_def Let_def)
  show "check_span_blocks cfg l1Blocks safeTime prv els idx adv \<noteq> Some BatchAccept"
    by (induction els arbitrary: prv idx adv) (auto simp: Let_def block split: option.splits prod.splits)
  show "check_overlap keccak256 decodeTx cfg l2Fetcher batch parentNum n i \<noteq> Some (Some BatchAccept)"
    by (induction n arbitrary: i) (auto simp: Let_def split: sum.splits bind_splits)
  show "span_parent cfg safe l2Fetcher start nxt \<noteq> Some (Inl BatchAccept)"
    by (auto simp: span_parent_def Let_def split: sum.splits bind_splits)
qed

lemma check_span_rest_accept:
  assumes "check_span_rest keccak256 decodeTx cfg l1Blocks safe batch inclusion l2Fetcher nxt parentNum parent
      = Some BatchAccept" "Batches batch \<noteq> []"
  shows "CheckParentHash batch (l2_Hash parent)"
    "l1_Number inclusion \<le> el_EpochNum (Batches batch ! 0) + cfg_SeqWindowSize cfg"
    "bid_Number (l2_L1Origin parent) \<le> el_EpochNum (Batches batch ! 0)"
    "el_EpochNum (Batches batch ! 0) \<le> bid_Number (l2_L1Origin parent) + 1"
    "check_end_origin batch (el_EpochNum (last (Batches batch))) l1Blocks = None"
    "check_span_blocks cfg l1Blocks (l2_MillisecondTimestamp safe) None (Batches batch) 0
       (el_EpochNum (Batches batch ! 0) = bid_Number (l2_L1Origin parent) + 1) = None"
    "el_Timestamp (Batches batch ! 0) < nxt \<Longrightarrow>
       check_overlap keccak256 decodeTx cfg l2Fetcher batch parentNum (unat (l2_Number safe - parentNum)) 0 = Some None"
proof -
  have "(\<not> CheckParentHash batch (l2_Hash parent)) = False"
    "(el_EpochNum (Batches batch ! 0) + cfg_SeqWindowSize cfg < l1_Number inclusion) = False"
    "(bid_Number (l2_L1Origin parent) + 1 < el_EpochNum (Batches batch ! 0)) = False"
    "(el_EpochNum (Batches batch ! 0) < bid_Number (l2_L1Origin parent)) = False"
    and end_ok: "check_end_origin batch (el_EpochNum (last (Batches batch))) l1Blocks = None"
    and blocks: "check_span_blocks cfg l1Blocks (l2_MillisecondTimestamp safe) None (Batches batch) 0
       (el_EpochNum (Batches batch ! 0) = bid_Number (l2_L1Origin parent) + 1) = None"
    using assms
    by (auto simp: check_span_rest_def GetBlock_last no_early_accept simp del: not_less not_le One_nat_def
        split: if_split_asm option.split_asm)
  note r = this
  then show "CheckParentHash batch (l2_Hash parent)"
    "l1_Number inclusion \<le> el_EpochNum (Batches batch ! 0) + cfg_SeqWindowSize cfg"
    "bid_Number (l2_L1Origin parent) \<le> el_EpochNum (Batches batch ! 0)"
    "el_EpochNum (Batches batch ! 0) \<le> bid_Number (l2_L1Origin parent) + 1"
    by (simp_all only: not_less [symmetric] not_not simp_thms)
  show "check_end_origin batch (el_EpochNum (last (Batches batch))) l1Blocks = None" by fact
  show "check_span_blocks cfg l1Blocks (l2_MillisecondTimestamp safe) None (Batches batch) 0
       (el_EpochNum (Batches batch ! 0) = bid_Number (l2_L1Origin parent) + 1) = None" by fact
  assume "el_Timestamp (Batches batch ! 0) < nxt"
  with assms r show
    "check_overlap keccak256 decodeTx cfg l2Fetcher batch parentNum (unat (l2_Number safe - parentNum)) 0 = Some None"
    by (simp add: check_span_rest_def GetBlock_last no_early_accept del: One_nat_def split: bind_splits option.split_asm)
qed

lemma span_parent_later:
  assumes "span_parent cfg safe l2Fetcher start nxt = Some (Inr (parentNum, parent))" "start < nxt"
  shows "start \<le> l2_MillisecondTimestamp safe"
    "TargetBlockNumber cfg start = Some (Inr (parentNum + 1))" "L2BlockRefByNumber l2Fetcher parentNum = Inr parent"
  using assms
  by (auto simp: span_parent_def Let_def not_less split: if_splits bind_splits sum.splits)

lemma checkSpanBatch_valid:
  assumes accept: "checkSpanBatch keccak256 decodeTx cfg l1Blocks safe batch inclusion l2Fetcher = Some BatchAccept"
    and l1: "consecutive l1Blocks"
    and mono: "sorted (map (\<lambda>el. unat (el_EpochNum el)) (Batches batch))"
    and known: "\<forall>el \<in> set (Batches batch). l2_MillisecondTimestamp safe < el_Timestamp el
        \<longrightarrow> l1_Number (hd l1Blocks) \<le> el_EpochNum el"
  shows "valid_span keccak256 decodeTx cfg l1Blocks safe batch inclusion l2Fetcher"
proof -
  let ?nxt = "NextMillisecondBlockTime cfg (l2_MillisecondTimestamp safe)"
  let ?start = "el_Timestamp (Batches batch ! 0)"
  have ne: "l1Blocks \<noteq> []" using accept by (auto simp: checkSpanBatch_def)
  have bs: "Batches batch \<noteq> []"
    using accept ne by (auto simp: checkSpanBatch_def Let_def GetStartEpochNum_def at_def)
  obtain parentNum parent where
      start: "\<not> ?start > ?nxt" and lastt: "\<not> el_Timestamp (last (Batches batch)) < ?nxt"
      and parent: "span_parent cfg safe l2Fetcher ?start ?nxt = Some (Inr (parentNum, parent))"
      and rest: "check_span_rest keccak256 decodeTx cfg l1Blocks safe batch inclusion l2Fetcher ?nxt parentNum parent
        = Some BatchAccept"
    using accept ne GetBlock_last [OF bs]
    by (auto simp: checkSpanBatch_def Let_def no_early_accept simp del: not_less not_le split: if_split_asm bind_split_asm sum.split_asm)
  note r = check_span_rest_accept [OF rest bs]
  obtain k where k: "k < length l1Blocks" "l1_Number (l1Blocks ! k) = el_EpochNum (last (Batches batch))"
    "CheckOriginHash batch (l1_Hash (l1Blocks ! k))"
    using check_end_origin_None [OF r(5)] by blast
  have nums: "\<forall>j < length l1Blocks. unat (l1_Number (l1Blocks ! j)) = unat (l1_Number (hd l1Blocks)) + j"
    unfolding hd_conv_nth [OF ne] by (intro allI impI) (rule consecutive_nth [OF l1])
  have top: "unat (el_EpochNum el) < unat (l1_Number (hd l1Blocks)) + length l1Blocks"
    if "el \<in> set (Batches batch)" for el
  proof -
    obtain i where "i < length (Batches batch)" "el = Batches batch ! i" using \<open>el \<in> _\<close> by (auto simp: in_set_conv_nth)
    then have "unat (el_EpochNum el) \<le> unat (el_EpochNum (last (Batches batch)))"
      using sorted_nth_mono [OF mono, of i "length (Batches batch) - 1"] bs by (simp add: last_conv_nth)
    also have "\<dots> = unat (l1_Number (hd l1Blocks)) + k" using nums k by (simp flip: k(2))
    finally show ?thesis using k(1) by simp
  qed
  have rng: "\<forall>el \<in> set (Batches batch). l2_MillisecondTimestamp safe < el_Timestamp el \<longrightarrow>
      unat (l1_Number (hd l1Blocks)) + 0 \<le> unat (el_EpochNum el) \<and>
      unat (el_EpochNum el) < unat (l1_Number (hd l1Blocks)) + length l1Blocks"
    using known top by (simp add: word_le_nat_alt)
  have blocks: "span_block_ok cfg l1Blocks
      (advances_at (el_EpochNum (Batches batch ! 0) = bid_Number (l2_L1Origin parent) + 1) None (Batches batch) i)
      (Batches batch ! i)"
    if "i < length (Batches batch)" "l2_MillisecondTimestamp safe < el_Timestamp (Batches batch ! i)" for i
    by (rule check_span_blocks_None [OF nums r(6) mono rng that])
  have "span_parent_ok keccak256 decodeTx cfg safe batch l2Fetcher parent"
  proof (cases "?start < ?nxt")
    case True
    note p = span_parent_later [OF parent True]
    have "overlap_ok keccak256 decodeTx cfg l2Fetcher batch parentNum m" if "m < unat (l2_Number safe - parentNum)" for m
      using check_overlap_None [OF r(7) [OF True] that] by simp
    with True p show ?thesis
      unfolding span_parent_ok_def Let_def by (intro disjI2 conjI exI [of _ "parentNum + 1"]) simp_all
  next
    case False
    then have "?start = ?nxt" using start by simp
    moreover have "parent = safe" using parent False by (simp add: span_parent_def)
    ultimately show ?thesis by (simp add: span_parent_ok_def)
  qed
  then show ?thesis
    unfolding valid_span_def
    using bs lastt r(1-4) k blocks [unfolded advances_at_def option.case]
    by (intro conjI exI [of _ parent] exI [of _ k]) (simp_all add: not_less)
qed



definition example_origin :: L1BlockRef where
  "example_origin = zero_L1BlockRef\<lparr>l1_Number := 5, l1_Time := 1730000000\<rparr>"

definition example_head :: L2BlockRef where
  "example_head = \<lparr>l2_Hash = 0, l2_Number = 100, l2_ParentHash = 0, l2_Time = 1730000000, l2_MilliTime = 0,
     l2_L1Origin = l1_ID example_origin, l2_SequenceNumber = 0\<rparr>"

definition example_span :: SpanBatch where
  "example_span = zero_SpanBatch\<lparr>Batches :=
     [\<lparr>el_EpochNum = 5, el_Timestamp = 1730000001000, el_Transactions = [[1]]\<rparr>,
      \<lparr>el_EpochNum = 5, el_Timestamp = 1730000002000, el_Transactions = []\<rparr>]\<rparr>"

definition no_fetcher :: SafeBlockFetcher where
  "no_fetcher = \<lparr>L2BlockRefByNumber = (\<lambda>_. Inl (Msg ''not found'')), PayloadByNumber = (\<lambda>_. Inl (Msg ''not found''))\<rparr>"

lemma hash20_0: "hash20 0 = 0"
  by code_simp

lemma example_span_accepted:
  "checkSpanBatch (\<lambda>_. 0) (\<lambda>_. Inl (Msg ''bad'')) OPBNBTestnet [example_origin] example_head example_span
     example_origin no_fetcher = Some BatchAccept"
  by (simp add: checkSpanBatch_def check_span_rest_def span_parent_def example_span_def example_head_def example_origin_def
      zero_SpanBatch_def zero_L1BlockRef_def GetStartEpochNum_def GetTimestamp_def GetBlockTimestamp_def
      GetBlockEpochNum_def GetBlockCount_def at_def fork_defs OPBNBTestnet_def NextMillisecondBlockTime_def
      MillisecondBlockInterval_def l2_MillisecondTimestamp_def l1_MillisecondTimestamp_def
      CheckParentHash_def CheckOriginHash_def hash20_0 check_span_block_def max_time_def MaxSequencerDrift_def
      good_tx_def DepositTxType_def Let_def)



section \<open>A span across the change of the block interval\<close>

text \<open>The testnet around Volta (block 56684294): a safe chain of six blocks from one before Volta to
  2000 ms after it, each holding only its attributes transaction, which names L1 block 5; and a span of
  five empty blocks, one second apart, from the same first block.\<close>

definition volta_time :: "u64 \<Rightarrow> u64" where
  "volta_time n = (if n \<le> 56684294 then 1743562800000 - (56684294 - n) * 1000
                   else 1743562800000 + (n - 56684294) * 500)"

definition volta_sysCfg :: SystemConfig where
  "volta_sysCfg = \<lparr>BatcherAddr = 1, Overhead = 0,
     Scalar = EncodeScalar \<lparr>BlobBaseFeeScalar = 1, BaseFeeScalar = 1\<rparr>, GasLimit = 100000000\<rparr>"

definition volta_block :: BlockInfo where
  "volta_block = \<lparr>bi_Hash = 0, bi_NumberU64 = 5, bi_Time = 1743562700, bi_BaseFee = 1, bi_BlobBaseFee = None\<rparr>"

definition volta_payload :: "u64 \<Rightarrow> ExecutionPayload" where
  "volta_payload n =
     \<lparr>ep_ParentHash = 0, ep_PrevRandao = 0, ep_BlockNumber = n, ep_GasLimit = 100000000,
      ep_Timestamp = volta_time n div 1000, ep_BlockHash = 0,
      ep_Transactions =
        (case L1InfoDeposit (\<lambda>_. 0) OPBNBTestnet volta_sysCfg 0 volta_block (volta_time n) of
           Inl _ \<Rightarrow> [] | Inr dep \<Rightarrow> [DepositTxType # dt_Data dep])\<rparr>"

definition volta_decodeTx :: txDecoder where
  "volta_decodeTx tx = (case tx of [] \<Rightarrow> Inl (Msg ''empty tx'') | b # bs \<Rightarrow> Inr (b, bs))"

definition volta_ref :: "u64 \<Rightarrow> L2BlockRef" where
  "volta_ref n = \<lparr>l2_Hash = 0, l2_Number = n, l2_ParentHash = 0, l2_Time = volta_time n div 1000,
     l2_MilliTime = volta_time n mod 1000, l2_L1Origin = \<lparr>bid_Hash = 0, bid_Number = 5\<rparr>, l2_SequenceNumber = 0\<rparr>"

definition volta_fetcher :: SafeBlockFetcher where
  "volta_fetcher = \<lparr>L2BlockRefByNumber = (\<lambda>n. Inr (volta_ref n)), PayloadByNumber = (\<lambda>n. Inr (volta_payload n))\<rparr>"

definition volta_origin :: L1BlockRef where
  "volta_origin = zero_L1BlockRef\<lparr>l1_Number := 5, l1_Time := 1743562700\<rparr>"

definition volta_span :: SpanBatch where
  "volta_span = zero_SpanBatch\<lparr>Batches :=
     map (\<lambda>i. \<lparr>el_EpochNum = 5, el_Timestamp = 1743562799000 + 1000 * of_nat i, el_Transactions = []\<rparr>) [0..<5]\<rparr>"

definition volta_numbers :: "u64 list" where
  "volta_numbers = [56684293, 56684294, 56684295, 56684296, 56684297, 56684298]"

lemma volta_forks:
  assumes "n \<in> set volta_numbers"
  shows "isEcotoneButNotFirstBlock OPBNBTestnet (volta_time n div 1000)"
    "IsRegolith OPBNBTestnet (volta_time n div 1000)" "n \<noteq> 0"
proof -
  have n: "n = 56684293 \<or> n = 56684294 \<or> n = 56684295 \<or> n = 56684296 \<or> n = 56684297 \<or> n = 56684298"
    using assms by (simp add: volta_numbers_def)
  from n show "isEcotoneButNotFirstBlock OPBNBTestnet (volta_time n div 1000)"
    by (elim disjE) (simp_all add: volta_time_def OPBNBTestnet_def isEcotoneButNotFirstBlock_def
      IsEcotoneActivationBlock_def IsEcotone_def SecondBlockInterval_def
      MillisecondBlockInterval_def MillisecondBlockIntervalVolta_def IsFourier_def IsVolta_def)
  show "IsRegolith OPBNBTestnet (volta_time n div 1000)" by (simp add: IsRegolith_def OPBNBTestnet_def)
  from n show "n \<noteq> 0" by (elim disjE) simp_all
qed

lemma volta_payload_ok:
  assumes "n \<in> set volta_numbers"
  shows "\<exists>data. ep_Transactions (volta_payload n) = [DepositTxType # data]"
    "\<exists>ref. PayloadToBlockRef (\<lambda>_. 0) volta_decodeTx OPBNBTestnet (volta_payload n) = Inr ref
       \<and> l2_L1Origin ref = \<lparr>bid_Hash = 0, bid_Number = 5\<rparr>"
proof -
  note r = volta_forks [OF assms]
  obtain dep where dep: "L1InfoDeposit (\<lambda>_. 0) OPBNBTestnet volta_sysCfg 0 volta_block (volta_time n) = Inr dep"
    using r(1,2) by (auto simp: L1InfoDeposit_def volta_sysCfg_def EcotoneScalars_EncodeScalar marshalBinaryEcotone_def
        WriteUint256_def volta_block_def zero_L1BlockInfo_def Let_def)
  then show "\<exists>data. ep_Transactions (volta_payload n) = [DepositTxType # data]"
    by (simp add: volta_payload_def)
  have "starts_with_deposit volta_decodeTx (volta_payload n) (volta_time n) dep"
    using dep by (simp add: starts_with_deposit_def volta_payload_def volta_decodeTx_def)
  from payload_info_deposit [OF dep this] obtain scalars where
    "payload_info (\<lambda>_. 0) volta_decodeTx OPBNBTestnet (volta_payload n)
       = Inr (deposit_info OPBNBTestnet volta_sysCfg 0 volta_block (volta_time n div 1000) scalars)" by blast
  with r(3) show "\<exists>ref. PayloadToBlockRef (\<lambda>_. 0) volta_decodeTx OPBNBTestnet (volta_payload n) = Inr ref
       \<and> l2_L1Origin ref = \<lparr>bid_Hash = 0, bid_Number = 5\<rparr>"
    by (simp add: PayloadToBlockRef_def OPBNBTestnet_fields volta_payload_def deposit_info_def zero_L1BlockInfo_def
        volta_block_def Let_def)
qed


lemma volta_overlap:
  "check_overlap (\<lambda>_. 0) volta_decodeTx OPBNBTestnet volta_fetcher volta_span 56684292 6 0 = None"
proof -
  have step: "check_overlap (\<lambda>_. 0) volta_decodeTx OPBNBTestnet volta_fetcher volta_span 56684292 (Suc n) i =
      check_overlap (\<lambda>_. 0) volta_decodeTx OPBNBTestnet volta_fetcher volta_span 56684292 n (i + 1)"
    if i: "i < 5" for n i
  proof -
    have "i = 0 \<or> i = 1 \<or> i = 2 \<or> i = 3 \<or> i = 4" using i by auto
    then have m: "56684292 + of_nat i + 1 \<in> set volta_numbers"
      by (elim disjE) (simp_all add: volta_numbers_def)
    obtain data ref where "ep_Transactions (volta_payload (56684292 + of_nat i + 1)) = [DepositTxType # data]"
      "PayloadToBlockRef (\<lambda>_. 0) volta_decodeTx OPBNBTestnet (volta_payload (56684292 + of_nat i + 1)) = Inr ref"
      "l2_L1Origin ref = \<lparr>bid_Hash = 0, bid_Number = 5\<rparr>"
      using volta_payload_ok [OF m] by blast
    then show ?thesis
      using i by (simp add: volta_fetcher_def volta_span_def zero_SpanBatch_def GetBlockTransactions_def
          GetBlockEpochNum_def at_def)
  qed
  have "check_overlap (\<lambda>_. 0) volta_decodeTx OPBNBTestnet volta_fetcher volta_span 56684292 (Suc (Suc (Suc (Suc (Suc (Suc 0)))))) 0
      = check_overlap (\<lambda>_. 0) volta_decodeTx OPBNBTestnet volta_fetcher volta_span 56684292 (Suc 0) 5"
    by (subst step, simp, subst step, simp, subst step, simp, subst step, simp, subst step, simp, simp only: eval_nat_numeral One_nat_def add_0 add_Suc_right add_0_right BitM.simps)
  also have "\<dots> = None"
    by (simp add: volta_fetcher_def volta_span_def zero_SpanBatch_def GetBlockTransactions_def at_def)
  finally show ?thesis by (simp add: eval_nat_numeral)
qed

lemma volta_heads:
  "l2_MillisecondTimestamp (volta_ref 56684298) = 1743562802000"
  "NextMillisecondBlockTime OPBNBTestnet 1743562802000 = 1743562802500"
  "l1_MillisecondTimestamp volta_origin = 1743562700000"
  "IsDelta OPBNBTestnet (l1_Time volta_origin)"
  "max_time OPBNBTestnet volta_origin = 1743564500000"
  by (simp_all add: l2_MillisecondTimestamp_def volta_ref_def volta_time_def NextMillisecondBlockTime_def
      MillisecondBlockInterval_def MillisecondBlockIntervalVolta_def IsVolta_def IsFourier_def IsDelta_def IsFjord_def OPBNBTestnet_def
      volta_origin_def zero_L1BlockRef_def l1_MillisecondTimestamp_def max_time_def MaxSequencerDrift_def)

lemma volta_batches:
  "Batches volta_span = map (\<lambda>t. \<lparr>el_EpochNum = 5, el_Timestamp = t, el_Transactions = []\<rparr>)
     [1743562799000, 1743562800000, 1743562801000, 1743562802000, 1743562803000]"
  by (simp add: volta_span_def zero_SpanBatch_def upt_rec)

lemma volta_parent:
  "span_parent OPBNBTestnet (volta_ref 56684298) volta_fetcher 1743562799000 1743562802500
     = Some (Inr (56684292, volta_ref 56684292))"
  by (simp add: span_parent_def volta_heads IsFourier_def OPBNBTestnet_fields MillisecondBlockIntervalVolta_def
      TargetBlockNumber_def VoltaBlockNumber_testnet volta_fetcher_def word_sless_alt Let_def)

lemma volta_blocks:
  "check_span_blocks OPBNBTestnet [volta_origin] 1743562802000 None (Batches volta_span) 0 False = None"
proof -
  have "l1_Number volta_origin = 5" by (simp add: volta_origin_def zero_L1BlockRef_def)
  then show ?thesis by (simp add: volta_batches check_span_block_def volta_heads Let_def)
qed

text \<open>A span batch whose one second blocks reach across Volta makes the check of the batch panic: the
  overlapped blocks of the safe chain are counted by their numbers, 500 ms apart after Volta, and the
  comparison reads a block the span does not have. Here five blocks from one before Volta are compared
  with the six safe blocks of the same time.\<close>

theorem checkSpanBatch_panics_across_Volta:
  "checkSpanBatch (\<lambda>_. 0) volta_decodeTx OPBNBTestnet [volta_origin] (volta_ref 56684298) volta_span
     volta_origin volta_fetcher = None"
proof -
  have origin: "bid_Number (l2_L1Origin (volta_ref n)) = 5" "l2_Hash (volta_ref n) = 0" "l2_Number (volta_ref n) = n" for n
    by (simp_all add: volta_ref_def)
  have "l1_Number volta_origin = 5" "l1_Hash volta_origin = 0"
    by (simp_all add: volta_origin_def zero_L1BlockRef_def)
  moreover have "ParentCheck volta_span = 0" "L1OriginCheck volta_span = 0" "Batches volta_span \<noteq> []"
    by (simp_all add: volta_span_def zero_SpanBatch_def)
  moreover have "el_EpochNum (Batches volta_span ! 0) = 5" "el_Timestamp (Batches volta_span ! 0) = 1743562799000"
    "el_EpochNum (last (Batches volta_span)) = 5" "el_Timestamp (last (Batches volta_span)) = 1743562803000"
    by (simp_all add: volta_batches)
  moreover have "cfg_SeqWindowSize OPBNBTestnet = 96000" by (simp add: OPBNBTestnet_def)
  ultimately show ?thesis
    using GetBlock_last [of volta_span]
    by (simp add: checkSpanBatch_def check_span_rest_def volta_heads volta_parent volta_blocks volta_overlap origin
        CheckParentHash_def CheckOriginHash_def hash20_0)
qed

end
