(* ===== verification/Blob.thy ===== *)
theory Blob
  imports Errors
begin

text \<open>
  The encoding of batcher data in EIP-4844 blobs (op-service/eth/blob.go). A blob is a list of
  \<open>BlobSize\<close> bytes. The encoder's closures share the offsets, the 31-byte buffer and the blob:
  they are the state record. A failed assertion of the encoder panics (\<open>None\<close>). The
  loops are related to a chunkwise reference encoding, from which the round trip follows.
\<close>

section \<open>Constants\<close>

definition BlobSize :: nat where "BlobSize = 4096 * 32"

definition MaxBlobDataSize :: nat where "MaxBlobDataSize = (4 * 31 + 3) * 1024 - 4"

definition EncodingVersion :: byte where "EncodingVersion = 0"

definition VersionOffset :: nat where "VersionOffset = 1"

definition Rounds :: nat where "Rounds = 1024"

text \<open>Go's \<open>copy(dst[off:], src)\<close>.\<close>

definition copy_at :: "nat \<Rightarrow> bytes \<Rightarrow> bytes \<Rightarrow> bytes" where
  "copy_at off src dst =
     take off dst @ take (length dst - off) src @ drop (off + length src) dst"

section \<open>The encoder\<close>

record Enc =
  enc_blob :: bytes
  enc_read :: nat
  enc_write :: nat
  enc_buf31 :: bytes

definition read1 :: "bytes \<Rightarrow> Enc \<Rightarrow> byte \<times> Enc" where
  "read1 data s =
     (if enc_read s \<ge> length data then (0, s)
      else (data ! enc_read s, s\<lparr>enc_read := enc_read s + 1\<rparr>))"

definition read31 :: "bytes \<Rightarrow> Enc \<Rightarrow> Enc" where
  "read31 data s =
     (if enc_read s \<ge> length data then s\<lparr>enc_buf31 := copy_at 0 (replicate 31 0) (enc_buf31 s)\<rparr>
      else
        (let n = min 31 (length data - enc_read s);
             buf = copy_at 0 (drop (enc_read s) data) (enc_buf31 s)
         in s\<lparr>enc_buf31 := copy_at n (replicate 31 0) buf, enc_read := enc_read s + n\<rparr>))"

definition write1 :: "byte \<Rightarrow> Enc \<Rightarrow> Enc go" where
  "write1 v s =
     (if enc_write s mod 32 \<noteq> 0 then None
      else if v AND 0b11000000 \<noteq> 0 then None
      else Some (s\<lparr>enc_blob := (enc_blob s)[enc_write s := v], enc_write := enc_write s + 1\<rparr>))"

definition write31 :: "Enc \<Rightarrow> Enc go" where
  "write31 s =
     (if enc_write s mod 32 \<noteq> 1 then None
      else Some (s\<lparr>enc_blob := copy_at (enc_write s) (enc_buf31 s) (enc_blob s),
                   enc_write := enc_write s + 31\<rparr>))"

definition first_read :: "bytes \<Rightarrow> Enc \<Rightarrow> Enc" where
  "first_read data s =
     (let ilen = (of_nat (length data) :: u32);
          buf = enc_buf31 s;
          buf = buf[0 := EncodingVersion, 1 := ucast (drop_bit 16 ilen),
                    2 := ucast (drop_bit 8 ilen), 3 := ucast ilen]
      in s\<lparr>enc_buf31 := copy_at 4 data buf, enc_read := enc_read s + min 27 (length data)\<rparr>)"

definition encode_round :: "bytes \<Rightarrow> nat \<Rightarrow> Enc \<Rightarrow> Enc go" where
  "encode_round data round s =
     (let s = (if round = 0 then first_read data s else read31 data s);
          (x, s) = read1 data s;
          A = x AND 0b00111111
      in do {
        s \<leftarrow> write1 A s;
        s \<leftarrow> write31 s;
        let s = read31 data s;
        let (y, s) = read1 data s;
        let B = (y AND 0b00001111) OR drop_bit 2 (x AND 0b11000000);
        s \<leftarrow> write1 B s;
        s \<leftarrow> write31 s;
        let s = read31 data s;
        let (z, s) = read1 data s;
        let C = z AND 0b00111111;
        s \<leftarrow> write1 C s;
        s \<leftarrow> write31 s;
        let s = read31 data s;
        let D = drop_bit 2 (z AND 0b11000000) OR drop_bit 4 (y AND 0b11110000);
        s \<leftarrow> write1 D s;
        write31 s
      })"

function encode_rounds :: "bytes \<Rightarrow> nat \<Rightarrow> Enc \<Rightarrow> Enc go" where
  "encode_rounds data round s =
     (if round < Rounds \<and> enc_read s < length data then
        do { s \<leftarrow> encode_round data round s; encode_rounds data (round + 1) s }
      else Some s)"
  by pat_completeness auto

termination encode_rounds
  by (relation "measure (\<lambda>(_, round, _). Rounds - round)") auto

declare encode_rounds.simps [simp del]

definition FromData :: "bytes \<Rightarrow> bytes res go" where
  "FromData data =
     (if length data > MaxBlobDataSize then
        Some (Inl (Wrap ''len'' (Msg ''ErrBlobInputTooLarge'')))
      else do {
        s \<leftarrow> encode_rounds data 0
          \<lparr>enc_blob = replicate BlobSize 0, enc_read = 0, enc_write = 0, enc_buf31 = replicate 31 0\<rparr>;
        if enc_read s < length data then None
        else Some (Inr (enc_blob s))
      })"

section \<open>The decoder\<close>

definition decodeFieldElement :: "bytes \<Rightarrow> nat \<Rightarrow> nat \<Rightarrow> bytes \<Rightarrow> (byte \<times> nat \<times> nat \<times> bytes) res" where
  "decodeFieldElement b opos ipos output =
     (if b ! ipos AND 0b11000000 \<noteq> 0 then
        Inl (Wrap ''field element'' (Msg ''ErrBlobInvalidFieldElement''))
      else Inr (b ! ipos, opos + 32, ipos + 32,
                copy_at opos (take 31 (drop (ipos + 1) b)) output))"

definition reassembleBytes :: "nat \<Rightarrow> bytes \<Rightarrow> bytes \<Rightarrow> nat \<times> bytes" where
  "reassembleBytes opos enc output =
     (let opos = opos - 1;
          x = (enc ! 0 AND 0b00111111) OR push_bit 2 (enc ! 1 AND 0b00110000);
          y = (enc ! 1 AND 0b00001111) OR push_bit 4 (enc ! 3 AND 0b00001111);
          z = (enc ! 2 AND 0b00111111) OR push_bit 2 (enc ! 3 AND 0b00110000)
      in (opos, output[opos - 32 := z, opos - 32 * 2 := y, opos - 32 * 3 := x]))"

text \<open>Field elements \<open>j\<close> up to 3 of a round, with their first bytes so far.\<close>

fun decode_elements :: "bytes \<Rightarrow> nat \<Rightarrow> bytes \<Rightarrow> nat \<Rightarrow> nat \<Rightarrow> bytes
    \<Rightarrow> (bytes \<times> nat \<times> nat \<times> bytes) res" where
  "decode_elements b 0 enc opos ipos output = Inr (enc, opos, ipos, output)"
| "decode_elements b (Suc n) enc opos ipos output =
     (case decodeFieldElement b opos ipos output of
        Inl err \<Rightarrow> Inl err
      | Inr (e, opos, ipos, output) \<Rightarrow> decode_elements b n (enc @ [e]) opos ipos output)"

function decode_rounds :: "bytes \<Rightarrow> nat \<Rightarrow> nat \<Rightarrow> nat \<Rightarrow> nat \<Rightarrow> bytes \<Rightarrow> (nat \<times> nat \<times> bytes) res" where
  "decode_rounds b outputLen i opos ipos output =
     (if i < Rounds \<and> opos < outputLen then
        (case decode_elements b 4 [] opos ipos output of
           Inl err \<Rightarrow> Inl err
         | Inr (enc, opos, ipos, output) \<Rightarrow>
             (case reassembleBytes opos enc output of
                (opos, output) \<Rightarrow> decode_rounds b outputLen (i + 1) opos ipos output))
      else Inr (opos, ipos, output))"
  by pat_completeness auto

termination decode_rounds
  by (relation "measure (\<lambda>(_, _, i, _). Rounds - i)") auto

declare decode_rounds.simps [simp del]

definition ToData :: "bytes \<Rightarrow> bytes res" where
  "ToData b =
     (if b ! VersionOffset \<noteq> EncodingVersion then
        Inl (Wrap ''expected version'' (Msg ''ErrBlobInvalidEncodingVersion''))
      else
        (let outputLen = unat (push_bit 16 (ucast (b ! 2) :: u32) OR push_bit 8 (ucast (b ! 3))
                               OR ucast (b ! 4)) in
         if outputLen > MaxBlobDataSize then Inl (Wrap ''got'' (Msg ''ErrBlobInvalidLength''))
         else
           (let output = copy_at 0 (take 27 (drop 5 b)) (replicate MaxBlobDataSize 0) in
            case decode_elements b 3 [b ! 0] 28 32 output of
              Inl err \<Rightarrow> Inl err
            | Inr (enc, opos, ipos, output) \<Rightarrow>
                (case reassembleBytes opos enc output of
                   (opos, output) \<Rightarrow>
                     (case decode_rounds b outputLen 1 opos ipos output of
                        Inl err \<Rightarrow> Inl err
                      | Inr (opos, ipos, output) \<Rightarrow>
                          if \<not> list_all (\<lambda>v. v = 0) (drop outputLen output) then
                            Inl (Wrap ''fe'' (Msg ''ErrBlobExtraneousDataFieldElement''))
                          else if \<not> list_all (\<lambda>v. v = 0) (drop ipos b) then
                            Inl (Wrap ''pos'' (Msg ''ErrBlobExtraneousData''))
                          else Inr (take outputLen output))))))"

section \<open>A reference encoding\<close>

text \<open>
  The bytes of a blob are a stream: the version, the length in three bytes, the data and zeros.
  Round \<open>i\<close> encodes 127 bytes of the stream in four field elements.
\<close>

definition stream :: "bytes \<Rightarrow> nat \<Rightarrow> byte" where
  "stream data k =
     (let n = (of_nat (length data) :: u32) in
      if k = 0 then EncodingVersion
      else if k = 1 then ucast (drop_bit 16 n)
      else if k = 2 then ucast (drop_bit 8 n)
      else if k = 3 then ucast n
      else if k - 4 < length data then data ! (k - 4) else 0)"

definition seg :: "(nat \<Rightarrow> byte) \<Rightarrow> nat \<Rightarrow> nat \<Rightarrow> bytes" where
  "seg f q n = map f [q..<q + n]"

definition head_bytes :: "byte \<Rightarrow> byte \<Rightarrow> byte \<Rightarrow> bytes" where
  "head_bytes x y z =
     [x AND 0b00111111, (y AND 0b00001111) OR drop_bit 2 (x AND 0b11000000), z AND 0b00111111,
      drop_bit 2 (z AND 0b11000000) OR drop_bit 4 (y AND 0b11110000)]"

definition round_bytes :: "(nat \<Rightarrow> byte) \<Rightarrow> nat \<Rightarrow> bytes" where
  "round_bytes f q =
     (let h = head_bytes (f (q + 31)) (f (q + 63)) (f (q + 95)) in
      [h ! 0] @ seg f q 31 @ [h ! 1] @ seg f (q + 32) 31 @ [h ! 2] @ seg f (q + 64) 31
      @ [h ! 3] @ seg f (q + 96) 31)"

definition rounds_bytes :: "(nat \<Rightarrow> byte) \<Rightarrow> nat \<Rightarrow> nat \<Rightarrow> bytes" where
  "rounds_bytes f i j = concat (map (\<lambda>r. round_bytes f (127 * r)) [i..<j])"

definition reference_blob :: "bytes \<Rightarrow> bytes" where
  "reference_blob data = rounds_bytes (stream data) 0 Rounds"

lemma length_seg [simp]: "length (seg f q n) = n"
  by (simp add: seg_def)

lemma nth_seg [simp]: "k < n \<Longrightarrow> seg f q n ! k = f (q + k)"
  by (simp add: seg_def)

lemma seg_append: "seg f q (m + n) = seg f q m @ seg f (q + m) n"
  using upt_add_eq_append [of q "q + m" n] by (simp add: seg_def add.assoc)

lemma seg_Suc: "seg f q (Suc n) = seg f q n @ [f (q + n)]"
  by (simp add: seg_def)

lemma length_round_bytes [simp]: "length (round_bytes f q) = 128"
  by (simp add: round_bytes_def Let_def)

lemma length_rounds_bytes [simp]: "length (rounds_bytes f i j) = 128 * (j - i)"
  by (simp only: rounds_bytes_def length_concat map_map comp_def length_round_bytes sum_list_triv length_upt mult.commute length_map of_nat_id)

lemma rounds_bytes_snoc: "i \<le> j \<Longrightarrow> rounds_bytes f i (Suc j) = rounds_bytes f i j @ round_bytes f (127 * j)"
  by (simp add: rounds_bytes_def)

lemma rounds_bytes_split: "i \<le> j \<Longrightarrow> j \<le> n \<Longrightarrow> rounds_bytes f i n = rounds_bytes f i j @ rounds_bytes f j n"
proof -
  assume "i \<le> j" "j \<le> n"
  then obtain d where n: "n = j + d" using le_Suc_ex by blast
  show ?thesis unfolding rounds_bytes_def n upt_add_eq_append [OF \<open>i \<le> j\<close>] by simp
qed

lemma rounds_bytes_zero:
  assumes "\<And>k. k \<ge> 127 * i \<Longrightarrow> f k = 0"
  shows "rounds_bytes f i j = replicate (128 * (j - i)) 0"
proof (induction j)
  case 0
  then show ?case by (simp add: rounds_bytes_def)
next
  case (Suc j)
  show ?case
  proof (cases "i \<le> j")
    case True
    have z: "f k = 0" if "k \<ge> 127 * j" for k using assms [of k] that True by simp
    have "set (round_bytes f (127 * j)) \<subseteq> {0}"
      by (auto simp: round_bytes_def seg_def head_bytes_def z)
    then have "round_bytes f (127 * j) = replicate 128 0"
      by (intro replicate_eqI) auto
    with Suc True show ?thesis
      by (simp add: rounds_bytes_snoc Suc_diff_le add.commute flip: replicate_add)
  qed (simp add: rounds_bytes_def)
qed

section \<open>Bits of the head bytes\<close>

lemma byte_eqI: "(\<And>n. n \<in> {0, 1, 2, 3, 4, 5, 6, 7} \<Longrightarrow> bit (v :: byte) n = bit w n) \<Longrightarrow> v = w"
  by (rule bit_word_eqI) (auto simp: less_Suc_eq numeral_eq_Suc)

lemma head_bytes_6bit:
  "head_bytes x y z ! 0 AND 0b11000000 = 0" "head_bytes x y z ! 1 AND 0b11000000 = 0"
  "head_bytes x y z ! 2 AND 0b11000000 = 0" "head_bytes x y z ! 3 AND 0b11000000 = 0"
  unfolding head_bytes_def by (rule byte_eqI; auto simp: bit_simps)+

lemmas bit_split = bit_or_iff bit_and_iff bit_push_bit_iff bit_drop_bit_eq comp_def

lemma head_bytes_nth:
  "head_bytes x y z ! 0 = x AND 0b00111111"
  "head_bytes x y z ! 1 = (y AND 0b00001111) OR drop_bit 2 (x AND 0b11000000)"
  "head_bytes x y z ! 2 = z AND 0b00111111"
  "head_bytes x y z ! 3 = drop_bit 2 (z AND 0b11000000) OR drop_bit 4 (y AND 0b11110000)"
  by (simp_all add: head_bytes_def)

lemma reassemble_head:
  "(head_bytes x y z ! 0 AND 0b00111111) OR push_bit 2 (head_bytes x y z ! 1 AND 0b00110000) = x"
  "(head_bytes x y z ! 1 AND 0b00001111) OR push_bit 4 (head_bytes x y z ! 3 AND 0b00001111) = y"
  "(head_bytes x y z ! 2 AND 0b00111111) OR push_bit 2 (head_bytes x y z ! 3 AND 0b00110000) = z"
proof -
  show
    "(head_bytes x y z ! 0 AND 0b00111111) OR push_bit 2 (head_bytes x y z ! 1 AND 0b00110000) = x"
    "(head_bytes x y z ! 1 AND 0b00001111) OR push_bit 4 (head_bytes x y z ! 3 AND 0b00001111) = y"
    "(head_bytes x y z ! 2 AND 0b00111111) OR push_bit 2 (head_bytes x y z ! 3 AND 0b00110000) = z"
    unfolding head_bytes_nth
    by (rule byte_eqI; elim insertE emptyE; simp only: bit_split; simp)+
qed

lemma length_bytes_u32:
  assumes "n < 2 ^ 24"
  shows "unat (push_bit 16 (ucast (ucast (drop_bit 16 (of_nat n :: u32)) :: byte) :: u32)
    OR push_bit 8 (ucast (ucast (drop_bit 8 (of_nat n :: u32)) :: byte))
    OR ucast (ucast (of_nat n :: u32) :: byte)) = n"
proof -
  let ?w = "of_nat n :: u32"
  have u: "unat ?w = n" using assms by (simp add: unat_of_nat take_bit_nat_eq_self)
  have hi: "\<not> bit ?w k" if "k \<ge> 24" for k
  proof -
    have "n < 2 ^ k" using assms that by (meson order_less_le_trans one_le_numeral power_increasing)
    then have "\<not> bit n k" by (simp add: bit_iff_odd)
    then show ?thesis by (simp add: bit_of_nat_iff)
  qed
  have "push_bit 16 (ucast (ucast (drop_bit 16 ?w) :: byte) :: u32)
    OR push_bit 8 (ucast (ucast (drop_bit 8 ?w) :: byte)) OR ucast (ucast ?w :: byte) = ?w"
    (is "?l = _")
  proof (rule bit_word_eqI)
    fix k assume "k < LENGTH(32)"
    then show "bit ?l k = bit ?w k"
      using hi [of k] by (cases "k < 8"; cases "k < 16"; cases "k < 24") (auto simp: bit_simps)
  qed
  then show ?thesis by (simp add: u)
qed

section \<open>The encoder follows the reference\<close>

text \<open>
  The encoder has consumed the data up to position \<open>p\<close> and written the bytes \<open>P\<close>.
\<close>

definition enc_at :: "bytes \<Rightarrow> nat \<Rightarrow> bytes \<Rightarrow> Enc \<Rightarrow> bool" where
  "enc_at data p P s \<longleftrightarrow>
     enc_read s = min p (length data) \<and> enc_write s = length P \<and> length P \<le> BlobSize \<and>
     enc_blob s = P @ replicate (BlobSize - length P) 0 \<and> length (enc_buf31 s) = 31"

lemma length_copy_at [simp]: "length (copy_at off src dst) = length dst" if "off \<le> length dst"
  using that by (simp add: copy_at_def)

lemma read1_at:
  assumes "enc_at data p P s"
  shows "read1 data s = (stream data (p + 4), snd (read1 data s))"
    "enc_at data (p + 1) P (snd (read1 data s))" "enc_buf31 (snd (read1 data s)) = enc_buf31 s"
  using assms by (auto simp: read1_def enc_at_def stream_def min_def split: if_splits)

lemma read31_buf:
  assumes "n \<le> 31" "n = min 31 (length data - p)" "length buf = 31" "p < length data"
  shows "copy_at n (replicate 31 0) (copy_at 0 (drop p data) buf) = seg (stream data) (p + 4) 31"
proof (rule nth_equalityI)
  show "length (copy_at n (replicate 31 0) (copy_at 0 (drop p data) buf)) = length (seg (stream data) (p + 4) 31)"
    using assms by (simp add: copy_at_def)
  fix k assume "k < length (copy_at n (replicate 31 0) (copy_at 0 (drop p data) buf))"
  then have k: "k < 31" using assms by (simp add: copy_at_def)
  show "copy_at n (replicate 31 0) (copy_at 0 (drop p data) buf) ! k = seg (stream data) (p + 4) 31 ! k"
    using assms k by (auto simp: copy_at_def nth_append stream_def add.commute)
qed

lemma read31_at:
  assumes "enc_at data p P s"
  shows "enc_at data (p + 31) P (read31 data s)" "enc_buf31 (read31 data s) = seg (stream data) (p + 4) 31"
proof -
  have "enc_at data (p + 31) P (read31 data s) \<and> enc_buf31 (read31 data s) = seg (stream data) (p + 4) 31"
  proof (cases "p < length data")
    case True
    then show ?thesis
      using assms read31_buf [of "min 31 (length data - p)" data p "enc_buf31 s"]
      by (auto simp: read31_def enc_at_def Let_def min_def)
  next
    case False
    then have "seg (stream data) (p + 4) 31 = replicate 31 0"
      by (intro nth_equalityI) (auto simp: stream_def)
    with False show ?thesis
      using assms by (auto simp: read31_def enc_at_def copy_at_def min_def)
  qed
  then show "enc_at data (p + 31) P (read31 data s)"
    "enc_buf31 (read31 data s) = seg (stream data) (p + 4) 31" by auto
qed

lemma write1_at:
  assumes "enc_at data p P s" "length P mod 32 = 0" "v AND 0b11000000 = 0" "length P < BlobSize"
  obtains s' where "write1 v s = Some s'" "enc_at data p (P @ [v]) s'" "enc_buf31 s' = enc_buf31 s"
proof -
  obtain m where m: "BlobSize - length P = Suc m" using assms(4) by (metis Suc_diff_Suc)
  then have m': "BlobSize - length (P @ [v]) = m" by simp
  show ?thesis
    using assms m m'
    by (intro that [of "s\<lparr>enc_blob := (enc_blob s)[enc_write s := v], enc_write := enc_write s + 1\<rparr>"])
      (auto simp: write1_def enc_at_def list_update_append)
qed

lemma write31_at:
  assumes "enc_at data p P s" "length P mod 32 = 1" "length P + 31 \<le> BlobSize"
  obtains s' where "write31 s = Some s'" "enc_at data p (P @ enc_buf31 s) s'"
  using assms by (intro that) (auto simp: write31_def enc_at_def copy_at_def)

lemma write_element_at:
  assumes "enc_at data p P s" "length P mod 32 = 0" "v AND 0b11000000 = 0" "length P + 32 \<le> BlobSize"
  obtains s' s'' where "write1 v s = Some s'" "write31 s' = Some s''"
    "enc_at data p (P @ [v] @ enc_buf31 s) s''"
proof -
  obtain s' where w: "write1 v s = Some s'" "enc_at data p (P @ [v]) s'" "enc_buf31 s' = enc_buf31 s"
    using write1_at [OF assms(1-3)] assms(4) by auto
  have "length (P @ [v]) mod 32 = 1" using assms(2) by (simp add: mod_Suc)
  then obtain s'' where "write31 s' = Some s''" "enc_at data p (P @ [v] @ enc_buf31 s) s''"
    using write31_at [OF w(2)] assms(4) w(3) by auto
  with w that show ?thesis by blast
qed

text \<open>The start of a round: the first buffer is filled.\<close>

definition round_start :: "bytes \<Rightarrow> nat \<Rightarrow> Enc \<Rightarrow> Enc" where
  "round_start data round s = (if round = 0 then first_read data s else read31 data s)"

lemma seg_0_4: "seg (stream data) 0 31 = map (stream data) [0, 1, 2, 3] @ seg (stream data) 4 27"
  using seg_append [of "stream data" 0 4 27] by (simp add: seg_def upt_rec numeral_eq_Suc)

lemma first_read_at:
  assumes "enc_at data 0 P s" "enc_buf31 s = replicate 31 0"
  shows "enc_at data 27 P (first_read data s)" "enc_buf31 (first_read data s) = seg (stream data) 0 31"
proof -
  have r: "enc_buf31 s = 0 # 0 # 0 # 0 # replicate 27 0"
    unfolding assms(2) by (simp add: numeral_eq_Suc)
  have "take 27 data @ drop (length data) (replicate 27 0) = seg (stream data) 4 27"
    by (rule nth_equalityI) (auto simp: nth_append stream_def)
  then have c: "copy_at 4 data (v0 # v1 # v2 # v3 # replicate 27 0) = [v0, v1, v2, v3] @ seg (stream data) 4 27"
    for v0 v1 v2 v3 by (simp add: copy_at_def add.commute [of 4] flip: drop_drop)
  show b: "enc_buf31 (first_read data s) = seg (stream data) 0 31"
    unfolding seg_0_4 by (simp add: first_read_def r c Let_def stream_def)
  show "enc_at data 27 P (first_read data s)"
    using assms(1) b by (simp add: first_read_def enc_at_def Let_def)
qed

lemma round_start_at:
  assumes "enc_at data (127 * round - 4) P s" "round = 0 \<longrightarrow> enc_buf31 s = replicate 31 0"
  shows "enc_at data (127 * round + 27) P (round_start data round s)"
    "enc_buf31 (round_start data round s) = seg (stream data) (127 * round) 31"
proof -
  have "enc_at data (127 * round + 27) P (round_start data round s) \<and>
    enc_buf31 (round_start data round s) = seg (stream data) (127 * round) 31"
  proof (cases "round = 0")
    case True
    then show ?thesis using first_read_at [of data P s] assms by (simp add: round_start_def)
  next
    case False
    then have "127 * round - 4 + 31 = 127 * round + 27" "127 * round - 4 + 4 = 127 * round" by simp_all
    with False read31_at [OF assms(1)] show ?thesis by (simp add: round_start_def)
  qed
  then show "enc_at data (127 * round + 27) P (round_start data round s)"
    "enc_buf31 (round_start data round s) = seg (stream data) (127 * round) 31" by auto
qed

lemma encode_round_eq:
  "encode_round data round s =
     (let (x, s) = read1 data (round_start data round s) in
      do { s \<leftarrow> write1 (x AND 0b00111111) s; s \<leftarrow> write31 s;
           let (y, s) = read1 data (read31 data s);
           s \<leftarrow> write1 ((y AND 0b00001111) OR drop_bit 2 (x AND 0b11000000)) s; s \<leftarrow> write31 s;
           let (z, s) = read1 data (read31 data s);
           s \<leftarrow> write1 (z AND 0b00111111) s; s \<leftarrow> write31 s;
           s \<leftarrow> write1 (drop_bit 2 (z AND 0b11000000) OR drop_bit 4 (y AND 0b11110000)) (read31 data s);
           write31 s })"
  by (simp add: encode_round_def round_start_def Let_def)

lemma encode_round_at:
  assumes "enc_at data (127 * round - 4) P s" "round = 0 \<longrightarrow> enc_buf31 s = replicate 31 0"
    and "length P mod 32 = 0" "length P + 128 \<le> BlobSize"
  obtains s' where "encode_round data round s = Some s'"
    "enc_at data (127 * (round + 1) - 4) (P @ round_bytes (stream data) (127 * round)) s'"
proof -
  let ?f = "stream data" and ?q = "127 * round"
  let ?h = "head_bytes (?f (?q + 31)) (?f (?q + 63)) (?f (?q + 95))"
  let ?e0 = "P @ [?h ! 0] @ seg ?f ?q 31"
  let ?e1 = "?e0 @ [?h ! 1] @ seg ?f (?q + 32) 31"
  let ?e2 = "?e1 @ [?h ! 2] @ seg ?f (?q + 64) 31"
  have l: "length ?e0 = length P + 32" "length ?e1 = length P + 64" "length ?e2 = length P + 96"
    by simp_all
  have m: "length ?e0 mod 32 = 0" "length ?e1 mod 32 = 0" "length ?e2 mod 32 = 0"
    unfolding l using assms(3) by presburger+
  have c: "length P + 32 \<le> BlobSize" "length ?e0 + 32 \<le> BlobSize" "length ?e1 + 32 \<le> BlobSize"
    "length ?e2 + 32 \<le> BlobSize"
    unfolding l using assms(4) by simp_all
  have q: "?q + 27 + 1 + 4 = ?q + 32" "?q + 27 + 1 + 31 + 1 + 4 = ?q + 64"
    "?q + 27 + 1 + 31 + 1 + 31 + 1 + 4 = ?q + 96" by simp_all
  note h = head_bytes_6bit [of "?f (?q + 31)" "?f (?q + 63)" "?f (?q + 95)"]
  note st = round_start_at [OF assms(1,2)]
  define s1 where "s1 = snd (read1 data (round_start data round s))"
  note r1 = read1_at [OF st(1), folded s1_def, unfolded st(2)]
  obtain s2 s3 where w1: "write1 (?h ! 0) s1 = Some s2" "write31 s2 = Some s3"
    "enc_at data (?q + 27 + 1) ?e0 s3"
    using write_element_at [OF r1(2) assms(3) h(1) c(1)] unfolding r1(3) by metis
  define s4 where "s4 = snd (read1 data (read31 data s3))"
  note a2 = read31_at [OF w1(3)]
  note r2 = read1_at [OF a2(1), folded s4_def, unfolded a2(2)]
  obtain s5 s6 where w2: "write1 (?h ! 1) s4 = Some s5" "write31 s5 = Some s6"
    "enc_at data (?q + 27 + 1 + 31 + 1) ?e1 s6"
    using write_element_at [OF r2(2) m(1) h(2) c(2)] unfolding r2(3) q by metis
  define s7 where "s7 = snd (read1 data (read31 data s6))"
  note a3 = read31_at [OF w2(3)]
  note r3 = read1_at [OF a3(1), folded s7_def, unfolded a3(2)]
  obtain s8 s9 where w3: "write1 (?h ! 2) s7 = Some s8" "write31 s8 = Some s9"
    "enc_at data (?q + 27 + 1 + 31 + 1 + 31 + 1) ?e2 s9"
    using write_element_at [OF r3(2) m(2) h(3) c(3)] unfolding r3(3) q by metis
  note r4 = read31_at [OF w3(3)]
  obtain s10 s11 where w4: "write1 (?h ! 3) (read31 data s9) = Some s10" "write31 s10 = Some s11"
    "enc_at data (?q + 27 + 1 + 31 + 1 + 31 + 1 + 31) (?e2 @ [?h ! 3] @ seg ?f (?q + 96) 31) s11"
    using write_element_at [OF r4(1) m(3) h(4) c(4)] unfolding r4(2) q by metis
  show ?thesis
  proof (rule that [of s11])
    have x: "read1 data (round_start data round s) = (?f (?q + 31), s1)" using r1(1) by (simp add: add.assoc)
    have y: "read1 data (read31 data s3) = (?f (?q + 63), s4)" using r2(1) by (simp add: add.assoc) (simp add: add.commute)
    have z: "read1 data (read31 data s6) = (?f (?q + 95), s7)" using r3(1) by (simp add: add.assoc) (simp add: add.commute)
    show "encode_round data round s = Some s11"
      by (simp only: encode_round_eq x y z prod.case Let_def w1(2) w2(2) w3(2) w4(2) w1(1) [unfolded head_bytes_nth]
        w2(1) [unfolded head_bytes_nth] w3(1) [unfolded head_bytes_nth] w4(1) [unfolded head_bytes_nth]
        bind.simps)
    have "127 * (round + 1) - 4 = ?q + 123" by simp
    then show "enc_at data (127 * (round + 1) - 4) (P @ round_bytes ?f ?q) s11"
      using w4(3) by (simp add: round_bytes_def Let_def)
  qed
qed

lemma encode_rounds_at:
  assumes "enc_at data (127 * round - 4) (rounds_bytes (stream data) 0 round) s"
    "round = 0 \<longrightarrow> enc_buf31 s = replicate 31 0" "round \<le> Rounds" "length data \<le> MaxBlobDataSize"
  obtains s' where "encode_rounds data round s = Some s'" "enc_read s' = length data"
    "enc_blob s' = reference_blob data"
  using assms
proof (induction "Rounds - round" arbitrary: round s thesis)
  case 0
  then have r: "round = Rounds" by simp
  have e: "encode_rounds data round s = Some s" by (simp add: encode_rounds.simps [of data Rounds] r)
  have "enc_read s = length data" "enc_blob s = reference_blob data"
    using 0 by (auto simp: r enc_at_def Rounds_def MaxBlobDataSize_def BlobSize_def reference_blob_def)
  with e 0 show ?case by blast
next
  case (Suc n)
  let ?P = "rounds_bytes (stream data) 0 round"
  have r: "round < Rounds" using Suc(2) by linarith
  show ?case
  proof (cases "enc_read s < length data")
    case True
    have "length ?P mod 32 = 0" "length ?P + 128 \<le> BlobSize"
      using r by (simp_all add: Rounds_def BlobSize_def)
    then obtain s1 where s1: "encode_round data round s = Some s1"
      "enc_at data (127 * (round + 1) - 4) (?P @ round_bytes (stream data) (127 * round)) s1"
      using encode_round_at [OF Suc(4,5)] by metis
    then have a: "enc_at data (127 * (round + 1) - 4) (rounds_bytes (stream data) 0 (round + 1)) s1"
      by (simp add: rounds_bytes_snoc)
    have "n = Rounds - (round + 1)" using Suc(2) by simp
    from Suc(1) [OF this _ a] r Suc(7) obtain s' where
      "encode_rounds data (round + 1) s1 = Some s'" "enc_read s' = length data"
      "enc_blob s' = reference_blob data" by auto
    then show ?thesis
      using Suc(3) True r s1(1) by (simp add: encode_rounds.simps [of data round])
  next
    case False
    have e: "encode_rounds data round s = Some s" using False by (simp add: encode_rounds.simps [of data round])
    have p: "length data \<le> 127 * round - 4" and rd: "enc_read s = length data"
      using Suc(4) False by (auto simp: enc_at_def)
    have "stream data k = 0" if "k \<ge> 127 * round" for k
      using p that by (cases "data = []") (auto simp: stream_def EncodingVersion_def Let_def)
    then have "rounds_bytes (stream data) round Rounds = replicate (128 * (Rounds - round)) 0"
      by (rule rounds_bytes_zero)
    then have "enc_blob s = reference_blob data"
      using Suc(4) r rounds_bytes_split [of 0 round Rounds "stream data"]
      by (simp add: enc_at_def reference_blob_def Rounds_def BlobSize_def)
    with e rd Suc(3) show ?thesis by blast
  qed
qed

lemma FromData_eq:
  assumes "length data \<le> MaxBlobDataSize"
  shows "FromData data = Some (Inr (reference_blob data))"
proof -
  let ?s = "\<lparr>enc_blob = replicate BlobSize 0, enc_read = 0, enc_write = 0, enc_buf31 = replicate 31 0\<rparr>"
  have "enc_at data (127 * 0 - 4) (rounds_bytes (stream data) 0 0) ?s"
    by (simp add: enc_at_def rounds_bytes_def)
  from encode_rounds_at [OF this _ _ assms] obtain s' where
    "encode_rounds data 0 ?s = Some s'" "enc_read s' = length data" "enc_blob s' = reference_blob data" by auto
  then show ?thesis using assms by (simp add: FromData_def)
qed

section \<open>The decoder inverts the reference\<close>

lemma nth_rounds_bytes:
  assumes "r < n" "k < 128"
  shows "rounds_bytes f 0 n ! (128 * r + k) = round_bytes f (127 * r) ! k"
proof -
  have "rounds_bytes f 0 n = rounds_bytes f 0 r @ round_bytes f (127 * r) @ rounds_bytes f (Suc r) n"
    using rounds_bytes_split [of 0 r n f] rounds_bytes_split [of r "Suc r" n f] assms
    by (simp add: rounds_bytes_snoc [of r r]) (simp add: rounds_bytes_def)
  then show ?thesis using assms by (simp add: nth_append)
qed

lemma take_rounds_bytes:
  assumes "r < n" "k + m \<le> 128"
  shows "take m (drop (128 * r + k) (rounds_bytes f 0 n)) = take m (drop k (round_bytes f (127 * r)))"
proof -
  have "rounds_bytes f 0 n = rounds_bytes f 0 r @ round_bytes f (127 * r) @ rounds_bytes f (Suc r) n"
    using rounds_bytes_split [of 0 r n f] rounds_bytes_split [of r "Suc r" n f] assms
    by (simp add: rounds_bytes_snoc [of r r]) (simp add: rounds_bytes_def)
  then show ?thesis using assms by simp
qed

lemma round_bytes_parts:
  fixes f q
  defines "h \<equiv> head_bytes (f (q + 31)) (f (q + 63)) (f (q + 95))"
  shows "round_bytes f q ! 0 = h ! 0" "round_bytes f q ! 32 = h ! 1" "round_bytes f q ! 64 = h ! 2"
    "round_bytes f q ! 96 = h ! 3"
    "take 31 (drop 1 (round_bytes f q)) = seg f q 31"
    "take 31 (drop 33 (round_bytes f q)) = seg f (q + 32) 31"
    "take 31 (drop 65 (round_bytes f q)) = seg f (q + 64) 31"
    "take 31 (drop 97 (round_bytes f q)) = seg f (q + 96) 31"
  by (simp_all add: round_bytes_def h_def Let_def nth_append nth_Cons')

text \<open>One field element: its 31 bytes go \<open>k\<close> places after what is decoded.\<close>

lemma copy_at_zeros:
  "copy_at (length P + k) c (P @ replicate (k + length c + m) 0) = P @ replicate k 0 @ c @ replicate m 0"
  by (simp add: copy_at_def replicate_add)

lemma decode_element_at:
  assumes "r < Rounds" "j < 4" "ipos = 128 * r + 32 * j"
    and "opos = length P + k" "output = P @ replicate (k + 31 + m) 0"
  shows "decodeFieldElement (rounds_bytes f 0 Rounds) opos ipos output =
     Inr (head_bytes (f (127 * r + 31)) (f (127 * r + 63)) (f (127 * r + 95)) ! j, opos + 32, ipos + 32,
          P @ replicate k 0 @ seg f (127 * r + 32 * j) 31 @ replicate m 0)"
proof -
  let ?h = "head_bytes (f (127 * r + 31)) (f (127 * r + 63)) (f (127 * r + 95))"
  have j: "j = 0 \<or> j = 1 \<or> j = 2 \<or> j = 3" using assms(2) by linarith
  have "rounds_bytes f 0 Rounds ! ipos = round_bytes f (127 * r) ! (32 * j)"
    using assms(1-3) by (simp add: nth_rounds_bytes)
  also have "\<dots> = ?h ! j" using j round_bytes_parts(1-4) [of f "127 * r"] by auto
  finally have b: "rounds_bytes f 0 Rounds ! ipos = ?h ! j" .
  have "take 31 (drop (ipos + 1) (rounds_bytes f 0 Rounds)) = take 31 (drop (32 * j + 1) (round_bytes f (127 * r)))"
    using take_rounds_bytes [OF assms(1), of "32 * j + 1" 31 f] assms(2,3) by (simp add: add.assoc)
  also have "\<dots> = seg f (127 * r + 32 * j) 31" using j round_bytes_parts(5-8) [of f "127 * r"] by auto
  finally have c: "take 31 (drop (ipos + 1) (rounds_bytes f 0 Rounds)) = seg f (127 * r + 32 * j) 31" .
  have v: "?h ! j AND 0b11000000 = 0" using j head_bytes_6bit by blast
  have "copy_at opos (seg f (127 * r + 32 * j) 31) output = P @ replicate k 0 @ seg f (127 * r + 32 * j) 31 @ replicate m 0"
    using copy_at_zeros [of P k "seg f (127 * r + 32 * j) 31" m] assms(4,5) by simp
  then show ?thesis unfolding decodeFieldElement_def b c using v by simp
qed

lemma seg_1: "seg f q 1 = [f q]"
  by (simp add: seg_def)

lemma decode_elements_4:
  "decode_elements b 4 = decode_elements b (Suc (Suc (Suc (Suc 0))))"
  "decode_elements b 3 = decode_elements b (Suc (Suc (Suc 0)))"
  by (simp_all add: numeral_eq_Suc)

lemma reassembleBytes_head:
  "reassembleBytes opos [head_bytes x y z ! 0, head_bytes x y z ! 1, head_bytes x y z ! 2, head_bytes x y z ! 3] out
   = (opos - 1, out[opos - 1 - 32 := z, opos - 1 - 64 := y, opos - 1 - 96 := x])"
proof -
  have h: "[head_bytes x y z ! 0, head_bytes x y z ! 1, head_bytes x y z ! 2, head_bytes x y z ! 3] = head_bytes x y z"
    by (simp add: head_bytes_def)
  show ?thesis
    unfolding h by (simp only: reassembleBytes_def Let_def reassemble_head) simp
qed

lemma decode_rounds_end: "decode_rounds b n Rounds opos ipos out = Inr (opos, ipos, out)"
  by (simp add: decode_rounds.simps)

lemma seg_127: "seg f q 127 = seg f q 31 @ [f (q + 31)] @ seg f (q + 32) 31 @ [f (q + 63)] @ seg f (q + 64) 31
    @ [f (q + 95)] @ seg f (q + 96) 31"
proof -
  have "seg f q (31 + 1 + 31 + 1 + 31 + 1 + 31) = seg f q 31 @ [f (q + 31)] @ seg f (q + 32) 31 @ [f (q + 63)]
     @ seg f (q + 64) 31 @ [f (q + 95)] @ seg f (q + 96) 31"
    unfolding seg_append by (simp add: seg_1 del: One_nat_def)
  then show ?thesis by simp
qed

text \<open>A round, from any of its elements on.\<close>

lemma decode_round_at:
  assumes "1 \<le> r" "r < Rounds" "length P = 127 * r - 4" "length P + 127 + m = MaxBlobDataSize"
  obtains enc out where
    "decode_elements (rounds_bytes f 0 Rounds) 4 [] (length P) (128 * r) (P @ replicate (127 + m) 0)
       = Inr (enc, length P + 128, 128 * r + 128, out)"
    "reassembleBytes (length P + 128) enc out = (length P + 127, P @ seg f (127 * r) 127 @ replicate m 0)"
proof -
  let ?b = "rounds_bytes f 0 Rounds" and ?q = "127 * r"
  let ?h = "head_bytes (f (?q + 31)) (f (?q + 63)) (f (?q + 95))"
  let ?P1 = "P @ seg f ?q 31" let ?P2 = "?P1 @ [0] @ seg f (?q + 32) 31"
  let ?P3 = "?P2 @ [0] @ seg f (?q + 64) 31"
  let ?out = "?P3 @ [0] @ seg f (?q + 96) 31 @ replicate m 0"
  have d0: "decodeFieldElement ?b (length P) (128 * r) (P @ replicate (127 + m) 0)
    = Inr (?h ! 0, length P + 32, 128 * r + 32, ?P1 @ replicate (96 + m) 0)"
    using decode_element_at [OF assms(2), of 0 "128 * r" "length P" P 0 _ "96 + m" f] by simp
  have d1: "decodeFieldElement ?b (length P + 32) (128 * r + 32) (?P1 @ replicate (96 + m) 0)
    = Inr (?h ! 1, length P + 64, 128 * r + 64, ?P2 @ replicate (64 + m) 0)"
    using decode_element_at [OF assms(2), of 1 "128 * r + 32" "length P + 32" ?P1 1 _ "64 + m" f] by simp
  have d2: "decodeFieldElement ?b (length P + 64) (128 * r + 64) (?P2 @ replicate (64 + m) 0)
    = Inr (?h ! 2, length P + 96, 128 * r + 96, ?P3 @ replicate (32 + m) 0)"
    using decode_element_at [OF assms(2), of 2 "128 * r + 64" "length P + 64" ?P2 1 _ "32 + m" f] by simp
  have d3: "decodeFieldElement ?b (length P + 96) (128 * r + 96) (?P3 @ replicate (32 + m) 0)
    = Inr (?h ! 3, length P + 128, 128 * r + 128, ?out)"
    using decode_element_at [OF assms(2), of 3 "128 * r + 96" "length P + 96" ?P3 1 _ "m" f] by simp
  have e: "decode_elements ?b 4 [] (length P) (128 * r) (P @ replicate (127 + m) 0)
       = Inr ([?h ! 0, ?h ! 1, ?h ! 2, ?h ! 3], length P + 128, 128 * r + 128, ?out)"
    by (simp only: decode_elements_4 decode_elements.simps d0 d1 [unfolded append.simps]
        d2 [unfolded append.simps] d3 [unfolded append.simps] sum.case prod.case append.simps)
  have "reassembleBytes (length P + 128) [?h ! 0, ?h ! 1, ?h ! 2, ?h ! 3] ?out
    = (length P + 127, P @ seg f ?q 127 @ replicate m 0)"
    unfolding reassembleBytes_head by (simp add: seg_127 list_update_append)
  with e that show ?thesis by blast
qed

lemma decode_rounds_at:
  assumes "1 \<le> i" "i \<le> Rounds" "n \<le> MaxBlobDataSize"
  obtains j where "i \<le> j" "j \<le> Rounds" "n \<le> 127 * j - 4"
    "decode_rounds (rounds_bytes f 0 Rounds) n i (127 * i - 4) (128 * i)
        (seg f 4 (127 * i - 4) @ replicate (127 * (Rounds - i)) 0)
     = Inr (127 * j - 4, 128 * j, seg f 4 (127 * j - 4) @ replicate (127 * (Rounds - j)) 0)"
  using assms
proof (induction "Rounds - i" arbitrary: i thesis)
  case 0
  then have r: "i = Rounds" by simp
  then show ?case
    using 0 by (intro 0(2) [of Rounds]) (simp_all add: decode_rounds_end Rounds_def [symmetric], simp add: Rounds_def MaxBlobDataSize_def)
next
  case (Suc k)
  let ?out = "\<lambda>i. seg f 4 (127 * i - 4) @ replicate (127 * (Rounds - i)) 0"
  let ?b = "rounds_bytes f 0 Rounds"
  have r: "i < Rounds" "1 \<le> i" using Suc(2,4) by linarith+
  show ?case
  proof (cases "127 * i - 4 < n")
    case True
    have z: "127 * (Rounds - i) = 127 + 127 * (Rounds - (i + 1))" using r by simp
    have len: "length (seg f 4 (127 * i - 4)) = 127 * i - 4" by simp
    have tot: "length (seg f 4 (127 * i - 4)) + 127 + 127 * (Rounds - (i + 1)) = MaxBlobDataSize"
      using r by (simp add: Rounds_def MaxBlobDataSize_def)
    obtain enc out where d: "decode_elements ?b 4 [] (127 * i - 4) (128 * i) (?out i)
        = Inr (enc, 127 * i - 4 + 128, 128 * i + 128, out)"
      "reassembleBytes (127 * i - 4 + 128) enc out
        = (127 * i - 4 + 127, seg f 4 (127 * i - 4) @ seg f (127 * i) 127 @ replicate (127 * (Rounds - (i + 1))) 0)"
      using decode_round_at [OF r(2,1) len tot] unfolding len z by metis
    have p: "127 * i - 4 + 127 = 127 * (i + 1) - 4" "128 * i + 128 = 128 * (i + 1)" using r by simp_all
    have "seg f 4 (127 * i - 4) @ seg f (127 * i) 127 = seg f 4 (127 * (i + 1) - 4)"
      using seg_append [of f 4 "127 * i - 4" 127] r unfolding p by simp
    then have o: "seg f 4 (127 * i - 4) @ seg f (127 * i) 127 @ replicate (127 * (Rounds - (i + 1))) 0 = ?out (i + 1)"
      by simp
    have step: "decode_rounds ?b n i (127 * i - 4) (128 * i) (?out i)
       = decode_rounds ?b n (i + 1) (127 * (i + 1) - 4) (128 * (i + 1)) (?out (i + 1))"
      using r True by (simp only: decode_rounds.simps [of _ n i] d sum.case prod.case o p simp_thms if_True)
    have "k = Rounds - (i + 1)" using Suc(2) by simp
    from Suc(1) [OF this] r Suc(6) obtain j where "i + 1 \<le> j" "j \<le> Rounds" "n \<le> 127 * j - 4"
      "decode_rounds ?b n (i + 1) (127 * (i + 1) - 4) (128 * (i + 1)) (?out (i + 1)) = Inr (127 * j - 4, 128 * j, ?out j)"
      by (metis Suc_eq_plus1 Suc_leI le_add2)
    with Suc(3) [of j] step show ?thesis by simp
  next
    case False
    then show ?thesis
      using r by (intro Suc(3) [of i]) (simp_all add: decode_rounds.simps [of _ n i])
  qed
qed

lemma decode_first_round:
  "\<exists>enc out. decode_elements (rounds_bytes f 0 Rounds) 3 [rounds_bytes f 0 Rounds ! 0] 28 32
       (copy_at 0 (take 27 (drop 5 (rounds_bytes f 0 Rounds))) (replicate MaxBlobDataSize 0))
     = Inr (enc, 124, 128, out) \<and>
     reassembleBytes 124 enc out = (123, seg f 4 123 @ replicate (127 * (Rounds - 1)) 0)"
proof -
  let ?b = "rounds_bytes f 0 Rounds" and ?h = "head_bytes (f 31) (f 63) (f 95)"
  let ?m = "127 * (Rounds - 1)"
  let ?P1 = "seg f 4 27" let ?P2 = "?P1 @ [0] @ seg f 32 31"
  let ?P3 = "?P2 @ [0] @ seg f 64 31"
  let ?out = "?P3 @ [0] @ seg f 96 31 @ replicate ?m 0"
  have R: "0 < Rounds" by (simp add: Rounds_def)
  have b0: "?b ! 0 = ?h ! 0"
    using nth_rounds_bytes [OF R, of 0 f] round_bytes_parts(1) [of f 0] by simp
  have "take 27 (drop 5 ?b) = take 27 (drop 4 (take 31 (drop (128 * 0 + 1) ?b)))" by (simp add: drop_take)
  also have "\<dots> = take 27 (drop 4 (seg f 0 31))"
    using take_rounds_bytes [OF R, of 1 31 f] round_bytes_parts(5) [of f 0] by simp
  also have "\<dots> = seg f 4 27" using seg_append [of f 0 4 27] by simp
  finally have "copy_at 0 (take 27 (drop 5 ?b)) (replicate MaxBlobDataSize 0) = ?P1 @ replicate (96 + ?m) 0"
    by (simp add: copy_at_def MaxBlobDataSize_def Rounds_def)
  note c = this
  have d1: "decodeFieldElement ?b 28 32 (?P1 @ replicate (96 + ?m) 0)
    = Inr (?h ! 1, 60, 64, ?P2 @ replicate (64 + ?m) 0)"
    using decode_element_at [OF R, of 1 32 28 ?P1 1 _ "64 + ?m" f] by simp
  have d2: "decodeFieldElement ?b 60 64 (?P2 @ replicate (64 + ?m) 0)
    = Inr (?h ! 2, 92, 96, ?P3 @ replicate (32 + ?m) 0)"
    using decode_element_at [OF R, of 2 64 60 ?P2 1 _ "32 + ?m" f] by simp
  have d3: "decodeFieldElement ?b 92 96 (?P3 @ replicate (32 + ?m) 0) = Inr (?h ! 3, 124, 128, ?out)"
    using decode_element_at [OF R, of 3 96 92 ?P3 1 _ ?m f] by simp
  have e: "decode_elements ?b 3 [?b ! 0] 28 32 (copy_at 0 (take 27 (drop 5 ?b)) (replicate MaxBlobDataSize 0))
       = Inr ([?h ! 0, ?h ! 1, ?h ! 2, ?h ! 3], 124, 128, ?out)"
    unfolding c b0
    by (simp only: decode_elements_4 decode_elements.simps d1 [unfolded append.simps]
        d2 [unfolded append.simps] d3 [unfolded append.simps] sum.case prod.case append.simps)
  have s: "seg f 4 (27 + 1 + 31 + 1 + 31 + 1 + 31) = ?P1 @ [f 31] @ seg f 32 31 @ [f 63] @ seg f 64 31
     @ [f 95] @ seg f 96 31"
    unfolding seg_append by (simp add: seg_1 del: One_nat_def)
  have "reassembleBytes 124 [?h ! 0, ?h ! 1, ?h ! 2, ?h ! 3] ?out = (123, seg f 4 123 @ replicate ?m 0)"
    unfolding reassembleBytes_head using s by (simp add: list_update_append)
  with e show ?thesis by blast
qed

lemma decoder_inverts:
  assumes "length data \<le> MaxBlobDataSize"
  shows "ToData (reference_blob data) = Inr data"
proof -
  let ?f = "stream data" and ?n = "length data"
  let ?b = "rounds_bytes ?f 0 Rounds"
  have R: "0 < Rounds" "1 \<le> Rounds" by (simp_all add: Rounds_def)
  have first: "?b ! k = ?f (k - 1)" if "1 \<le> k" "k < 32" "k - 1 < 31" for k
    using nth_rounds_bytes [OF R(1), of k ?f] that
    by (simp add: round_bytes_def Let_def nth_append nth_Cons')
  have hd: "?b ! 1 = ?f 0" "?b ! 2 = ?f 1" "?b ! 3 = ?f 2" "?b ! 4 = ?f 3"
    using first [of 1] first [of 2] first [of 3] first [of 4] by simp_all
  have len: "unat (push_bit 16 (ucast (?b ! 2) :: u32) OR push_bit 8 (ucast (?b ! 3)) OR ucast (?b ! 4)) = ?n"
    unfolding hd using length_bytes_u32 [of ?n] assms by (simp add: stream_def MaxBlobDataSize_def)
  obtain enc out where r0: "decode_elements ?b 3 [?b ! 0] 28 32
       (copy_at 0 (take 27 (drop 5 ?b)) (replicate MaxBlobDataSize 0)) = Inr (enc, 124, 128, out)"
    "reassembleBytes 124 enc out = (123, seg ?f 4 123 @ replicate (127 * (Rounds - 1)) 0)"
    using decode_first_round by blast
  obtain j where j: "1 \<le> j" "j \<le> Rounds" "?n \<le> 127 * j - 4"
    "decode_rounds ?b ?n 1 123 128 (seg ?f 4 123 @ replicate (127 * (Rounds - 1)) 0)
     = Inr (127 * j - 4, 128 * j, seg ?f 4 (127 * j - 4) @ replicate (127 * (Rounds - j)) 0)"
    using decode_rounds_at [of 1 ?n ?f] R(2) assms by auto
  let ?out = "seg ?f 4 (127 * j - 4) @ replicate (127 * (Rounds - j)) 0"
  have z: "?f k = 0" if "k \<ge> ?n + 4" for k using that by (auto simp: stream_def)
  have "seg ?f 4 (127 * j - 4) = seg ?f 4 ?n @ seg ?f (4 + ?n) (127 * j - 4 - ?n)"
    using seg_append [of ?f 4 ?n "127 * j - 4 - ?n"] unfolding le_add_diff_inverse [OF j(3)] .
  moreover have "seg ?f 4 ?n = data"
    by (rule nth_equalityI) (auto simp: stream_def)
  moreover have "seg ?f (4 + ?n) k = replicate k 0" for k
    by (rule nth_equalityI) (auto simp: z)
  ultimately have o: "take ?n ?out = data" "list_all (\<lambda>v. v = 0) (drop ?n ?out)"
    by (auto simp: list_all_iff)
  have "?b = rounds_bytes ?f 0 j @ rounds_bytes ?f j Rounds"
    using rounds_bytes_split [of 0 j Rounds ?f] j(2) by simp
  moreover have "rounds_bytes ?f j Rounds = replicate (128 * (Rounds - j)) 0"
    by (rule rounds_bytes_zero) (use j(1,3) z in auto)
  ultimately have t: "list_all (\<lambda>v. v = 0) (drop (128 * j) ?b)" by (simp add: list_all_iff)
  have "?b ! VersionOffset = EncodingVersion" using hd(1) by (simp add: VersionOffset_def stream_def)
  then show ?thesis
    unfolding ToData_def reference_blob_def len
    using assms by (simp only: Let_def r0 j(4) o t sum.case prod.case simp_thms if_False if_True not_le [symmetric] not_not)
qed

text \<open>C38: a blob carries the data that was put in it: every byte string of at most MaxBlobDataSize bytes
  is encoded without tripping an assertion of the encoder, in a blob of the fixed size that is the
  chunkwise reference encoding, and decoding the blob gives the byte string back.\<close>

theorem blob_roundtrip:
  assumes "length data \<le> MaxBlobDataSize"
  shows "\<exists>b. FromData data = Some (Inr b) \<and> length b = BlobSize \<and> b = reference_blob data \<and> ToData b = Inr data"
proof -
  have "length (reference_blob data) = BlobSize"
    by (simp add: reference_blob_def Rounds_def BlobSize_def)
  then show ?thesis using FromData_eq [OF assms] decoder_inverts [OF assms] by blast
qed

theorem blob_roundtrip_witness:
  "\<exists>b. FromData [1, 2, 3] = Some (Inr b) \<and> length b = BlobSize \<and> b = reference_blob [1, 2, 3] \<and> ToData b = Inr [1, 2, 3]"
  by (rule blob_roundtrip) (simp add: MaxBlobDataSize_def)

section \<open>The first byte of a blob\<close>

lemma decodeFieldElement_tail:
  "drop 1 b = drop 1 c \<Longrightarrow> 0 < length b \<Longrightarrow> length b = length c \<Longrightarrow> 1 \<le> ipos
     \<Longrightarrow> decodeFieldElement b opos ipos out = decodeFieldElement c opos ipos out"
proof -
  assume d: "drop 1 b = drop 1 c" and "0 < length b" "length b = length c" "1 \<le> ipos"
  then obtain k x y r where i: "ipos = Suc k" "b = x # r" "c = y # r"
    by (cases b; cases c; cases ipos) auto
  then show ?thesis by (simp add: decodeFieldElement_def)
qed

lemma decode_elements_tail:
  assumes "drop 1 b = drop 1 c" "0 < length b" "length b = length c"
  shows "1 \<le> ipos \<Longrightarrow> decode_elements b n enc opos ipos out = decode_elements c n enc opos ipos out"
proof (induction n arbitrary: enc opos ipos out)
  case (Suc n)
  have "1 \<le> ipos'" if "decodeFieldElement c opos ipos out = Inr (e, o', ipos', out')" for e o' ipos' out'
    using that by (auto simp: decodeFieldElement_def split: if_splits)
  with Suc decodeFieldElement_tail [OF assms Suc(2), of opos out] show ?case
    by (auto split: sum.split prod.split)
qed simp

lemma decode_elements_ipos:
  "decode_elements b n enc opos ipos out = Inr (enc', opos', ipos', out') \<Longrightarrow> ipos' = ipos + 32 * n"
proof (induction n arbitrary: enc opos ipos out)
  case (Suc n)
  then have "ipos' = ipos + 32 + 32 * n"
    by (auto simp: decodeFieldElement_def split: sum.splits if_splits)
  then show ?case by simp
qed simp

lemma decode_rounds_tail:
  assumes "drop 1 b = drop 1 c" "0 < length b" "length b = length c"
  shows "1 \<le> ipos \<Longrightarrow> decode_rounds b m i opos ipos out = decode_rounds c m i opos ipos out"
proof (induction "Rounds - i" arbitrary: i opos ipos out)
  case 0
  then show ?case by (simp add: decode_rounds.simps [of _ m i])
next
  case (Suc k)
  have e: "decode_elements b 4 [] opos ipos out = decode_elements c 4 [] opos ipos out"
    by (rule decode_elements_tail [OF assms Suc(3)])
  have k: "k = Rounds - (i + 1)" using Suc(2) by simp
  show ?case
    unfolding decode_rounds.simps [of _ m i] e
    using Suc(1) [OF k] Suc(3) decode_elements_ipos [of c 4 "[]" opos ipos out]
    by (auto split: sum.split prod.split)
qed

lemma decode_rounds_ipos:
  "decode_rounds b m i opos ipos out = Inr (opos', ipos', out') \<Longrightarrow> ipos \<le> ipos'"
proof (induction "Rounds - i" arbitrary: i opos ipos out)
  case 0
  then show ?case by (simp add: decode_rounds.simps [of _ m i])
next
  case (Suc k)
  have k: "k = Rounds - (i + 1)" using Suc(2) by simp
  show ?case
    using Suc(3) Suc(1) [OF k] decode_elements_ipos [of b 4 "[]" opos ipos out]
    unfolding decode_rounds.simps [of _ m i]
    by (fastforce split: sum.splits prod.splits if_splits)
qed

lemma decode_elements_prefix:
  "decode_elements b n (v # enc) opos ipos out =
     (case decode_elements b n enc opos ipos out of
        Inl e \<Rightarrow> Inl e | Inr (es, p, i, out) \<Rightarrow> Inr (v # es, p, i, out))"
  by (induction n arbitrary: enc opos ipos out) (auto split: sum.split)

lemma decode_elements_length:
  "decode_elements b n enc opos ipos out = Inr (enc', r) \<Longrightarrow> length enc' = length enc + n"
  by (induction n arbitrary: enc opos ipos out) (auto split: sum.splits)

lemma take_head_mask:
  "(v OR 0b11000000) AND 0b00111111 = v AND (0b00111111 :: byte)"
  by (rule byte_eqI) (auto simp: bit_simps)

text \<open>The two high bits of the very first byte of a blob are not looked at: a blob with those
  bits set, whose first field element is not valid, decodes to the same result as the blob without them.\<close>

theorem first_element_unchecked:
  assumes "length b = BlobSize"
  shows "ToData (b[0 := b ! 0 OR 0b11000000]) = ToData b"
proof -
  let ?b = "b[0 := b ! 0 OR 0b11000000]"
  have t: "drop 1 ?b = drop 1 b" "0 < length ?b" "length ?b = length b"
    using assms by (simp_all add: BlobSize_def)
  have n: "?b ! 0 = b ! 0 OR 0b11000000" "?b ! 2 = b ! 2" "?b ! 3 = b ! 3" "?b ! 4 = b ! 4"
    "?b ! VersionOffset = b ! VersionOffset" "drop 5 ?b = drop 5 b"
    using assms by (simp_all add: BlobSize_def VersionOffset_def)
  have e: "decode_elements ?b 3 [] 28 32 out = decode_elements b 3 [] 28 32 out" for out
    by (rule decode_elements_tail [OF t]) simp
  have re: "reassembleBytes opos ((v OR 0b11000000) # es) out = reassembleBytes opos (v # es) out" for opos v es out
    by (simp only: reassembleBytes_def nth_Cons_0 take_head_mask nth_Cons_numeral)
      (simp add: nth_Cons)
  have i: "ipos = 128" if "decode_elements b 3 [] 28 32 out = Inr (enc, opos, ipos, out')" for out enc opos ipos out'
    using decode_elements_ipos [OF that] by simp
  have r: "decode_rounds ?b m 1 opos 128 out = decode_rounds b m 1 opos 128 out" for m opos out
    by (rule decode_rounds_tail [OF t]) simp
  have d: "drop ipos' ?b = drop ipos' b" if "decode_rounds b m 1 opos 128 out = Inr (opos', ipos', out')"
    for m opos out opos' ipos' out'
    using decode_rounds_ipos [OF that] by simp
  have p: "decode_elements ?b 3 [v] 28 32 out = (case decode_elements b 3 [] 28 32 out of
      Inl e \<Rightarrow> Inl e | Inr (es, p, i, out) \<Rightarrow> Inr (v # es, p, i, out))" for v out
    using decode_elements_prefix [of ?b 3 v "[]"] e by simp
  let ?m = "unat (push_bit 16 (ucast (b ! 2) :: u32) OR push_bit 8 (ucast (b ! 3)) OR ucast (b ! 4))"
  let ?o = "copy_at 0 (take 27 (drop 5 b)) (replicate MaxBlobDataSize 0)"
  note u = ToData_def n p decode_elements_prefix [of b 3 _ "[]"] Let_def
  show ?thesis
  proof (cases "decode_elements b 3 [] 28 32 ?o")
    case (Inl err)
    then show ?thesis by (simp only: u sum.case)
  next
    case (Inr q)
    obtain es opos ipos out where q: "q = (es, opos, ipos, out)" by (cases q)
    have ip: "ipos = 128" using i Inr unfolding q by blast
    obtain opos2 out2 where x: "reassembleBytes opos (b ! 0 # es) out = (opos2, out2)" by fastforce
    show ?thesis
    proof (cases "decode_rounds b ?m 1 opos2 128 out2")
      case (Inl err)
      then show ?thesis by (simp only: u Inr q ip re x r sum.case prod.case)
    next
      case Inr2: (Inr q2)
      obtain opos3 ipos3 out3 where q2: "q2 = (opos3, ipos3, out3)" by (cases q2)
      have "drop ipos3 ?b = drop ipos3 b" using d Inr2 unfolding q2 by blast
      then show ?thesis by (simp only: u Inr q ip re x r Inr2 q2 sum.case prod.case)
    qed
  qed
qed

theorem first_element_unchecked_witness:
  "ToData ((replicate BlobSize 0)[0 := replicate BlobSize 0 ! 0 OR 0b11000000]) = ToData (replicate BlobSize 0)"
  by (rule first_element_unchecked) simp

end
