(* ===== verification/DataSource.thy ===== *)
theory DataSource
  imports Blob SysConfig
begin

text \<open>
  Where batcher data comes from: the calldata source, the blob source and the plasma source
  (op-node/rollup/derive/calldata_source.go, blob_data_source.go, plasma_data_source.go), the
  factory that picks one (data_source.go), and plasma commitments (op-plasma/commitment.go). The
  L1 node, the beacon node and the plasma service answer as the environment says: one record of
  functions for the duration of a call.
\<close>

section \<open>Transactions and the services\<close>

record L1Tx =
  tx_To :: "Address option"
  tx_Data :: bytes
  tx_Type :: byte
  tx_BlobHashes :: "Hash list"

definition BlobTxType :: byte where "BlobTxType = 3"

record IndexedBlobHash =
  ibh_Index :: u64
  ibh_Hash :: Hash

datatype CommitmentData = Keccak256Commitment bytes | GenericCommitment bytes

record L1Env =
  InfoAndTxsByHash :: "Hash \<Rightarrow> L1Tx list res"
  L1BlockRefByNumber :: "u64 \<Rightarrow> L1BlockRef res"
  FetchReceipts :: "Hash \<Rightarrow> L1Receipt list res"
  GetBlobs :: "L1BlockRef \<Rightarrow> IndexedBlobHash list \<Rightarrow> bytes option list res"
  AdvanceL1Origin :: "BlockID \<Rightarrow> gerr option"
  GetInput :: "CommitmentData \<Rightarrow> BlockID \<Rightarrow> bytes res"

record DataSourceConfig =
  ds_Sender :: "L1Tx \<Rightarrow> Address res"
  ds_batchInboxAddress :: Address
  ds_plasmaEnabled :: bool

definition isValidBatchTx :: "L1Tx \<Rightarrow> (L1Tx \<Rightarrow> Address res) \<Rightarrow> Address \<Rightarrow> Address \<Rightarrow> bool" where
  "isValidBatchTx tx l1Signer batchInboxAddr batcherAddr =
     (case tx_To tx of
        None \<Rightarrow> False
      | Some t \<Rightarrow>
          if t \<noteq> batchInboxAddr then False
          else (case l1Signer tx of
                  Inl err \<Rightarrow> False
                | Inr seqDataSubmitter \<Rightarrow> if seqDataSubmitter \<noteq> batcherAddr then False else True))"

section \<open>The calldata source\<close>

text \<open>A source that could not be opened keeps what it needs for another attempt.\<close>

record CalldataSource =
  cs_open :: bool
  cs_data :: "bytes list"
  cs_ref :: L1BlockRef
  cs_dsCfg :: DataSourceConfig
  cs_batcherAddr :: Address

fun DataFromEVMTransactions :: "DataSourceConfig \<Rightarrow> Address \<Rightarrow> L1Tx list \<Rightarrow> bytes list" where
  "DataFromEVMTransactions dsCfg batcherAddr [] = []"
| "DataFromEVMTransactions dsCfg batcherAddr (tx # txs) =
     (if isValidBatchTx tx (ds_Sender dsCfg) (ds_batchInboxAddress dsCfg) batcherAddr
      then tx_Data tx # DataFromEVMTransactions dsCfg batcherAddr txs
      else DataFromEVMTransactions dsCfg batcherAddr txs)"

definition NewCalldataSource :: "L1Env \<Rightarrow> DataSourceConfig \<Rightarrow> L1BlockRef \<Rightarrow> Address \<Rightarrow> CalldataSource" where
  "NewCalldataSource env dsCfg ref batcherAddr =
     (case InfoAndTxsByHash env (l1_Hash ref) of
        Inl err \<Rightarrow>
          \<lparr>cs_open = False, cs_data = [], cs_ref = ref, cs_dsCfg = dsCfg, cs_batcherAddr = batcherAddr\<rparr>
      | Inr txs \<Rightarrow>
          \<lparr>cs_open = True, cs_data = DataFromEVMTransactions dsCfg batcherAddr txs,
           cs_ref = ref, cs_dsCfg = dsCfg, cs_batcherAddr = batcherAddr\<rparr>)"

definition Calldata_Next :: "L1Env \<Rightarrow> CalldataSource \<Rightarrow> bytes res \<times> CalldataSource" where
  "Calldata_Next env ds =
     (let pop = (\<lambda>ds. case cs_data ds of
                        [] \<Rightarrow> (Inl EOF, ds)
                      | data # rest \<Rightarrow> (Inr data, ds\<lparr>cs_data := rest\<rparr>)) in
      if \<not> cs_open ds then
        (case InfoAndTxsByHash env (l1_Hash (cs_ref ds)) of
           Inr txs \<Rightarrow>
             pop (ds\<lparr>cs_open := True,
                     cs_data := DataFromEVMTransactions (cs_dsCfg ds) (cs_batcherAddr ds) txs\<rparr>)
         | Inl err \<Rightarrow>
             if errors_Is err NotFound then
               (Inl (NewResetError (Some (Wrap ''failed to open calldata source'' err))), ds)
             else (Inl (NewTemporaryError (Some (Wrap ''failed to open calldata source'' err))), ds))
      else pop ds)"

section \<open>The blob source\<close>

datatype blobOrCalldata = BCCalldata bytes | BCBlob "bytes option"

record BlobDataSource =
  bs_data :: "blobOrCalldata list option"
  bs_ref :: L1BlockRef
  bs_batcherAddr :: Address
  bs_dsCfg :: DataSourceConfig

definition NewBlobDataSource :: "DataSourceConfig \<Rightarrow> L1BlockRef \<Rightarrow> Address \<Rightarrow> BlobDataSource" where
  "NewBlobDataSource dsCfg ref batcherAddr =
     \<lparr>bs_data = None, bs_ref = ref, bs_batcherAddr = batcherAddr, bs_dsCfg = dsCfg\<rparr>"

fun add_blob_hashes :: "Hash list \<Rightarrow> blobOrCalldata list \<times> IndexedBlobHash list \<times> u64
    \<Rightarrow> blobOrCalldata list \<times> IndexedBlobHash list \<times> u64" where
  "add_blob_hashes [] acc = acc"
| "add_blob_hashes (h # hs) (data, hashes, blobIndex) =
     add_blob_hashes hs
       (data @ [BCBlob None], hashes @ [\<lparr>ibh_Index = blobIndex, ibh_Hash = h\<rparr>], blobIndex + 1)"

fun dataAndHashes_loop :: "DataSourceConfig \<Rightarrow> Address \<Rightarrow> L1Tx list
    \<Rightarrow> blobOrCalldata list \<times> IndexedBlobHash list \<times> u64
    \<Rightarrow> blobOrCalldata list \<times> IndexedBlobHash list \<times> u64" where
  "dataAndHashes_loop config batcherAddr [] acc = acc"
| "dataAndHashes_loop config batcherAddr (tx # txs) (data, hashes, blobIndex) =
     (if \<not> isValidBatchTx tx (ds_Sender config) (ds_batchInboxAddress config) batcherAddr then
        dataAndHashes_loop config batcherAddr txs
          (data, hashes, blobIndex + of_nat (length (tx_BlobHashes tx)))
      else if tx_Type tx \<noteq> BlobTxType then
        dataAndHashes_loop config batcherAddr txs (data @ [BCCalldata (tx_Data tx)], hashes, blobIndex)
      else
        dataAndHashes_loop config batcherAddr txs
          (add_blob_hashes (tx_BlobHashes tx) (data, hashes, blobIndex)))"

definition dataAndHashesFromTxs :: "L1Tx list \<Rightarrow> DataSourceConfig \<Rightarrow> Address
    \<Rightarrow> blobOrCalldata list \<times> IndexedBlobHash list" where
  "dataAndHashesFromTxs txs config batcherAddr =
     (case dataAndHashes_loop config batcherAddr txs ([], [], 0) of (data, hashes, _) \<Rightarrow> (data, hashes))"

text \<open>The placeholders are filled in order; the result is the filled list and the blobs left over.\<close>

fun fill_loop :: "blobOrCalldata list \<Rightarrow> bytes option list \<Rightarrow> (blobOrCalldata list \<times> bytes option list) res" where
  "fill_loop [] blobs = Inr ([], blobs)"
| "fill_loop (BCCalldata c # data) blobs =
     (case fill_loop data blobs of Inl err \<Rightarrow> Inl err | Inr (data, blobs) \<Rightarrow> Inr (BCCalldata c # data, blobs))"
| "fill_loop (BCBlob _ # data) blobs =
     (case blobs of
        [] \<Rightarrow> Inl (Msg ''did not get enough blobs'')
      | None # _ \<Rightarrow> Inl (Msg ''found a nil blob'')
      | Some b # blobs \<Rightarrow>
          (case fill_loop data blobs of
             Inl err \<Rightarrow> Inl err
           | Inr (data, blobs) \<Rightarrow> Inr (BCBlob (Some b) # data, blobs)))"

definition fillBlobPointers :: "blobOrCalldata list \<Rightarrow> bytes option list \<Rightarrow> blobOrCalldata list res" where
  "fillBlobPointers data blobs =
     (case fill_loop data blobs of
        Inl err \<Rightarrow> Inl err
      | Inr (data, rest) \<Rightarrow> if rest \<noteq> [] then Inl (Msg ''got too many blobs'') else Inr data)"

definition blob_open :: "L1Env \<Rightarrow> BlobDataSource \<Rightarrow> blobOrCalldata list res" where
  "blob_open env ds =
     (case InfoAndTxsByHash env (l1_Hash (bs_ref ds)) of
        Inl err \<Rightarrow>
          if errors_Is err NotFound then
            Inl (NewResetError (Some (Wrap ''failed to open blob data source'' err)))
          else Inl (NewTemporaryError (Some (Wrap ''failed to open blob data source'' err)))
      | Inr txs \<Rightarrow>
          (case dataAndHashesFromTxs txs (bs_dsCfg ds) (bs_batcherAddr ds) of
             (data, hashes) \<Rightarrow>
               if hashes = [] then Inr data
               else
                 (case GetBlobs env (bs_ref ds) hashes of
                    Inl err \<Rightarrow>
                      if errors_Is err NotFound then
                        Inl (NewResetError (Some (Wrap ''failed to fetch blobs'' err)))
                      else Inl (NewTemporaryError (Some (Wrap ''failed to fetch blobs'' err)))
                  | Inr blobs \<Rightarrow>
                      (case fillBlobPointers data blobs of
                         Inl err \<Rightarrow> Inl (NewResetError (Some (Wrap ''failed to fill blob pointers'' err)))
                       | Inr data \<Rightarrow> Inr data))))"

text \<open>A blob that does not parse is skipped by calling \<open>Next\<close> again. A missing blob panics.\<close>

fun blob_pop :: "blobOrCalldata list \<Rightarrow> (bytes res \<times> blobOrCalldata list) go" where
  "blob_pop [] = Some (Inl EOF, [])"
| "blob_pop (BCCalldata c # rest) = Some (Inr c, rest)"
| "blob_pop (BCBlob None # rest) = None"
| "blob_pop (BCBlob (Some b) # rest) =
     (case ToData b of Inr data \<Rightarrow> Some (Inr data, rest) | Inl err \<Rightarrow> blob_pop rest)"

definition Blob_Next :: "L1Env \<Rightarrow> BlobDataSource \<Rightarrow> (bytes res \<times> BlobDataSource) go" where
  "Blob_Next env ds =
     (case (case bs_data ds of None \<Rightarrow> blob_open env ds | Some data \<Rightarrow> Inr data) of
        Inl err \<Rightarrow> Some (Inl err, ds\<lparr>bs_data := None\<rparr>)
      | Inr data \<Rightarrow>
          (case blob_pop data of
             None \<Rightarrow> None
           | Some (r, rest) \<Rightarrow> Some (r, ds\<lparr>bs_data := Some rest\<rparr>)))"

section \<open>Plasma commitments (op-plasma/commitment.go)\<close>

definition Keccak256CommitmentType :: byte where "Keccak256CommitmentType = 0"

definition GenericCommitmentType :: byte where "GenericCommitmentType = 1"

definition TxDataVersion1 :: byte where "TxDataVersion1 = 1"

definition MaxInputSize :: nat where "MaxInputSize = 130672"

fun CommitmentType :: "CommitmentData \<Rightarrow> byte" where
  "CommitmentType (Keccak256Commitment _) = Keccak256CommitmentType"
| "CommitmentType (GenericCommitment _) = GenericCommitmentType"

fun Commitment_Encode :: "CommitmentData \<Rightarrow> bytes" where
  "Commitment_Encode (Keccak256Commitment c) = Keccak256CommitmentType # c"
| "Commitment_Encode (GenericCommitment c) = GenericCommitmentType # c"

definition Commitment_TxData :: "CommitmentData \<Rightarrow> bytes" where
  "Commitment_TxData c = TxDataVersion1 # Commitment_Encode c"

definition DecodeKeccak256 :: "bytes \<Rightarrow> CommitmentData res" where
  "DecodeKeccak256 commitment =
     (if length commitment = 0 then Inl (Msg ''ErrInvalidCommitment'')
      else if length commitment \<noteq> 32 then Inl (Msg ''ErrInvalidCommitment'')
      else Inr (Keccak256Commitment commitment))"

definition DecodeGenericCommitment :: "bytes \<Rightarrow> CommitmentData res" where
  "DecodeGenericCommitment commitment =
     (if length commitment = 0 then Inl (Msg ''ErrInvalidCommitment'')
      else Inr (GenericCommitment commitment))"

definition DecodeCommitmentData :: "bytes \<Rightarrow> CommitmentData res" where
  "DecodeCommitmentData input =
     (case input of
        [] \<Rightarrow> Inl (Msg ''ErrInvalidCommitment'')
      | t # data \<Rightarrow>
          if t = Keccak256CommitmentType then DecodeKeccak256 data
          else if t = GenericCommitmentType then DecodeGenericCommitment data
          else Inl (Msg ''ErrInvalidCommitment''))"

section \<open>The plasma source and the factory\<close>

datatype SrcIter = ICalldata CalldataSource | IBlob BlobDataSource

record PlasmaDataSource =
  ps_src :: SrcIter
  ps_id :: BlockID
  ps_comm :: "CommitmentData option"

datatype DataIter = ISrc SrcIter | IPlasma PlasmaDataSource

fun Src_Next :: "L1Env \<Rightarrow> SrcIter \<Rightarrow> (bytes res \<times> SrcIter) go" where
  "Src_Next env (ICalldata ds) = (case Calldata_Next env ds of (r, ds) \<Rightarrow> Some (r, ICalldata ds))"
| "Src_Next env (IBlob ds) =
     (case Blob_Next env ds of None \<Rightarrow> None | Some (r, ds) \<Rightarrow> Some (r, IBlob ds))"

text \<open>The commitment to work on: the pending one, or the next one of the source. \<open>Inl\<close> is an early
  return of \<open>Next\<close>.\<close>

definition plasma_commitment ::
    "L1Env \<Rightarrow> PlasmaDataSource \<Rightarrow> ((bytes res + CommitmentData) \<times> PlasmaDataSource) go" where
  "plasma_commitment env s =
     (case ps_comm s of
        Some comm \<Rightarrow> Some (Inr comm, s)
      | None \<Rightarrow>
          (case Src_Next env (ps_src s) of
             None \<Rightarrow> None
           | Some (Inl err, src) \<Rightarrow> Some (Inl (Inl err), s\<lparr>ps_src := src\<rparr>)
           | Some (Inr data, src) \<Rightarrow>
               (let s = s\<lparr>ps_src := src\<rparr> in
                case data of
                  [] \<Rightarrow> Some (Inl (Inl NotEnoughData), s)
                | version # rest \<Rightarrow>
                    if version \<noteq> TxDataVersion1 then Some (Inl (Inr data), s)
                    else (case DecodeCommitmentData rest of
                            Inl err \<Rightarrow> Some (Inl (Inl NotEnoughData), s)
                          | Inr comm \<Rightarrow> Some (Inr comm, s\<lparr>ps_comm := Some comm\<rparr>)))))"

fun src_remaining :: "L1Env \<Rightarrow> SrcIter \<Rightarrow> nat" where
  "src_remaining env (ICalldata ds) =
     (if cs_open ds then length (cs_data ds)
      else (case InfoAndTxsByHash env (l1_Hash (cs_ref ds)) of
              Inl _ \<Rightarrow> 0
            | Inr txs \<Rightarrow> length (DataFromEVMTransactions (cs_dsCfg ds) (cs_batcherAddr ds) txs)))"
| "src_remaining env (IBlob ds) =
     (case (case bs_data ds of None \<Rightarrow> blob_open env ds | Some data \<Rightarrow> Inr data) of
        Inl _ \<Rightarrow> 0
      | Inr data \<Rightarrow> length data)"

lemma blob_pop_shorter: "blob_pop data = Some (Inr d, rest) \<Longrightarrow> length rest < length data"
  by (induction data rule: blob_pop.induct) (fastforce split: sum.splits)+

lemma Src_Next_shorter:
  "Src_Next env src = Some (Inr d, src') \<Longrightarrow> src_remaining env src' < src_remaining env src"
  by (cases src)
    (auto simp: Calldata_Next_def Blob_Next_def Let_def dest: blob_pop_shorter
      split: sum.splits list.splits if_splits option.splits)

definition plasma_measure :: "L1Env \<times> PlasmaDataSource \<Rightarrow> nat" where
  "plasma_measure = (\<lambda>(env, s). src_remaining env (ps_src s) + (if ps_comm s = None then 0 else 1))"

lemma plasma_commitment_progress:
  assumes "plasma_commitment env s = Some (Inr comm, s')"
  shows "plasma_measure (env, s'\<lparr>ps_comm := None\<rparr>) < plasma_measure (env, s)"
  using assms
  by (auto simp: plasma_commitment_def plasma_measure_def Let_def dest!: Src_Next_shorter
      split: option.splits sum.splits list.splits if_splits)

function Plasma_Next :: "L1Env \<Rightarrow> PlasmaDataSource \<Rightarrow> (bytes res \<times> PlasmaDataSource) go" where
  "Plasma_Next env s =
     (case AdvanceL1Origin env (ps_id s) of
        Some err \<Rightarrow>
          if errors_Is err (Msg ''ErrReorgRequired'') then
            Some (Inl (NewResetError (Some (Msg ''new expired challenge''))), s)
          else Some (Inl (NewTemporaryError (Some (Wrap ''failed to advance plasma L1 origin'' err))), s)
      | None \<Rightarrow>
          (case plasma_commitment env s of
             None \<Rightarrow> None
           | Some (Inl r, s') \<Rightarrow> Some (r, s')
           | Some (Inr comm, s') \<Rightarrow>
               (case GetInput env comm (ps_id s') of
                  Inl err \<Rightarrow>
                    if errors_Is err (Msg ''ErrReorgRequired'') then Some (Inl (NewResetError (Some err)), s')
                    else if errors_Is err (Msg ''ErrExpiredChallenge'') then
                      Plasma_Next env (s'\<lparr>ps_comm := None\<rparr>)
                    else if errors_Is err (Msg ''ErrMissingPastWindow'') then
                      Some (Inl (NewCriticalError (Some (Wrap ''data for comm not available'' err))), s')
                    else if errors_Is err (Msg ''ErrPendingChallenge'') then Some (Inl NotEnoughData, s')
                    else Some (Inl (NewTemporaryError
                                 (Some (Wrap ''failed to fetch input data from da service'' err))), s')
                | Inr data \<Rightarrow>
                    if CommitmentType comm = Keccak256CommitmentType \<and> length data > MaxInputSize then
                      Plasma_Next env (s'\<lparr>ps_comm := None\<rparr>)
                    else Some (Inr data, s'\<lparr>ps_comm := None\<rparr>))))"
  by pat_completeness auto

termination Plasma_Next
  by (relation "measure plasma_measure") (auto simp: plasma_commitment_progress)

declare Plasma_Next.simps [simp del]

fun Iter_Next :: "L1Env \<Rightarrow> DataIter \<Rightarrow> (bytes res \<times> DataIter) go" where
  "Iter_Next env (ISrc src) =
     (case Src_Next env src of None \<Rightarrow> None | Some (r, src) \<Rightarrow> Some (r, ISrc src))"
| "Iter_Next env (IPlasma s) =
     (case Plasma_Next env s of None \<Rightarrow> None | Some (r, s) \<Rightarrow> Some (r, IPlasma s))"

text \<open>The factory; \<open>blobsFetcher\<close> says whether a beacon endpoint is configured.\<close>

record DataSourceFactory =
  dsf_dsCfg :: DataSourceConfig
  dsf_blobsFetcher :: bool
  dsf_ecotoneTime :: "u64 option"

definition NewDataSourceFactory :: "(L1Tx \<Rightarrow> Address res) \<Rightarrow> Config \<Rightarrow> bool \<Rightarrow> DataSourceFactory" where
  "NewDataSourceFactory signer cfg blobsFetcher =
     \<lparr>dsf_dsCfg = \<lparr>ds_Sender = signer, ds_batchInboxAddress = cfg_BatchInboxAddress cfg,
                   ds_plasmaEnabled = PlasmaEnabled cfg\<rparr>,
      dsf_blobsFetcher = blobsFetcher, dsf_ecotoneTime = cfg_EcotoneTime cfg\<rparr>"

definition OpenData :: "L1Env \<Rightarrow> DataSourceFactory \<Rightarrow> L1BlockRef \<Rightarrow> Address \<Rightarrow> DataIter res" where
  "OpenData env ds ref batcherAddr =
     (let wrap = (\<lambda>src. if ds_plasmaEnabled (dsf_dsCfg ds)
                        then IPlasma \<lparr>ps_src = src, ps_id = l1_ID ref, ps_comm = None\<rparr>
                        else ISrc src) in
      if (case dsf_ecotoneTime ds of None \<Rightarrow> False | Some t \<Rightarrow> l1_Time ref \<ge> t) then
        (if \<not> dsf_blobsFetcher ds then
           Inl (Msg ''ecotone upgrade active but beacon endpoint not configured'')
         else Inr (wrap (IBlob (NewBlobDataSource (dsf_dsCfg ds) ref batcherAddr))))
      else Inr (wrap (ICalldata (NewCalldataSource env (dsf_dsCfg ds) ref batcherAddr))))"

section \<open>The sources do not panic\<close>

definition filled :: "blobOrCalldata list \<Rightarrow> bool" where
  "filled data \<longleftrightarrow> BCBlob None \<notin> set data"

fun src_inv :: "SrcIter \<Rightarrow> bool" where
  "src_inv (ICalldata ds) = True"
| "src_inv (IBlob ds) = (case bs_data ds of None \<Rightarrow> True | Some data \<Rightarrow> filled data)"

fun iter_inv :: "DataIter \<Rightarrow> bool" where
  "iter_inv (ISrc src) = src_inv src"
| "iter_inv (IPlasma s) = src_inv (ps_src s)"

lemma blob_pop_total:
  "filled data \<Longrightarrow> \<exists>r rest. blob_pop data = Some (r, rest) \<and> filled rest"
  by (induction data rule: blob_pop.induct) (auto simp: filled_def split: sum.splits)

lemma fill_loop_filled: "fill_loop data blobs = Inr (data', rest) \<Longrightarrow> filled data'"
  by (induction data blobs arbitrary: data' rest rule: fill_loop.induct)
    (auto simp: filled_def split: sum.splits list.splits option.splits prod.splits)

lemma add_blob_hashes_simp:
  "add_blob_hashes hs (data, hashes, i) =
     (data @ map (\<lambda>_. BCBlob None) hs,
      hashes @ map (\<lambda>k. \<lparr>ibh_Index = i + of_nat k, ibh_Hash = hs ! k\<rparr>) [0..<length hs],
      i + of_nat (length hs))"
proof (induction hs arbitrary: data hashes i)
  case (Cons h hs)
  have "map (\<lambda>k. \<lparr>ibh_Index = i + of_nat k, ibh_Hash = (h # hs) ! k\<rparr>) [0..<length (h # hs)]
     = \<lparr>ibh_Index = i, ibh_Hash = h\<rparr>
       # map (\<lambda>k. \<lparr>ibh_Index = i + 1 + of_nat k, ibh_Hash = hs ! k\<rparr>) [0..<length hs]"
    by (simp add: upt_rec [of 0] map_Suc_upt [symmetric] comp_def add.assoc del: upt_Suc)
  then show ?case using Cons [of "data @ [BCBlob None]" "hashes @ [\<lparr>ibh_Index = i, ibh_Hash = h\<rparr>]" "i + 1"]
    by (simp add: add.assoc)
qed simp

lemma dataAndHashes_loop_no_hashes:
  "dataAndHashes_loop config b txs (data, hashes, i) = (data', hashes', i') \<Longrightarrow>
   (\<exists>hs. hashes' = hashes @ hs) \<and> (hashes' = [] \<longrightarrow> filled data \<longrightarrow> filled data')"
proof (induction config b txs "(data, hashes, i)" arbitrary: data hashes i rule: dataAndHashes_loop.induct)
  case (2 config b tx txs data hashes i)
  show ?case
  proof (cases "isValidBatchTx tx (ds_Sender config) (ds_batchInboxAddress config) b \<and> tx_Type tx = BlobTxType")
    case True
    then show ?thesis
      using 2 by (cases "tx_BlobHashes tx") (auto simp: add_blob_hashes_simp)
  next
    case False
    then show ?thesis using 2 by (auto simp: filled_def split: if_splits)
  qed
qed simp

lemma blob_open_filled: "blob_open env ds = Inr data \<Longrightarrow> filled data"
  by (auto simp: blob_open_def dataAndHashesFromTxs_def fillBlobPointers_def filled_def
      split: sum.splits prod.splits if_splits dest!: dataAndHashes_loop_no_hashes fill_loop_filled)

lemma Src_Next_total [panic_free]:
  assumes "src_inv src"
  shows "\<exists>r src'. Src_Next env src = Some (r, src') \<and> src_inv src'"
proof (cases src)
  case (ICalldata ds)
  then show ?thesis by (auto split: prod.splits)
next
  case (IBlob ds)
  show ?thesis
  proof (cases "case bs_data ds of None \<Rightarrow> blob_open env ds | Some data \<Rightarrow> Inr data")
    case (Inl err)
    then show ?thesis using IBlob by (simp add: Blob_Next_def)
  next
    case (Inr data)
    then have "filled data" using assms IBlob blob_open_filled by (auto split: option.splits)
    then obtain r rest where "blob_pop data = Some (r, rest)" "filled rest"
      using blob_pop_total by blast
    then show ?thesis using Inr IBlob by (simp add: Blob_Next_def)
  qed
qed

lemma Plasma_Next_total:
  "src_inv (ps_src s) \<Longrightarrow> \<exists>r s'. Plasma_Next env s = Some (r, s') \<and> src_inv (ps_src s')"
proof (induction env s rule: Plasma_Next.induct)
  case (1 env s)
  obtain r src where src: "Src_Next env (ps_src s) = Some (r, src)" "src_inv src"
    using Src_Next_total "1.prems" by blast
  have c: "\<exists>x s'. plasma_commitment env s = Some (x, s') \<and> src_inv (ps_src s')"
    using src "1.prems"
    by (auto simp: plasma_commitment_def Let_def split: option.splits sum.splits list.splits)
  show ?case
  proof (cases "AdvanceL1Origin env (ps_id s)")
    case (Some err)
    then show ?thesis using "1.prems" by (subst Plasma_Next.simps) auto
  next
    case None
    from c obtain x s' where x: "plasma_commitment env s = Some (x, s')" "src_inv (ps_src s')" by blast
    show ?thesis
    proof (cases x)
      case (Inl r)
      then show ?thesis using None x by (subst Plasma_Next.simps) auto
    next
      case (Inr comm)
      note IH = "1.IH" [OF None x(1) refl Inr]
      show ?thesis
        using IH x Inr None
        by (subst Plasma_Next.simps) (auto split: sum.splits if_splits)
    qed
  qed
qed

lemma Iter_Next_total [panic_free]:
  assumes "iter_inv it"
  shows "\<exists>r it'. Iter_Next env it = Some (r, it') \<and> iter_inv it'"
proof (cases it)
  case (ISrc src)
  then obtain r src' where "Src_Next env src = Some (r, src')" "src_inv src'"
    using assms Src_Next_total [of src env] by auto
  then show ?thesis using ISrc by simp
next
  case (IPlasma s)
  then obtain r s' where "Plasma_Next env s = Some (r, s')" "src_inv (ps_src s')"
    using assms Plasma_Next_total [of s env] by auto
  then show ?thesis using IPlasma by simp
qed

lemma OpenData_inv: "OpenData env ds ref b = Inr it \<Longrightarrow> iter_inv it"
  by (auto simp: OpenData_def Let_def NewBlobDataSource_def split: if_splits)

section \<open>What the sources deliver\<close>

lemma DataFromEVMTransactions_filter:
  "DataFromEVMTransactions dsCfg b txs =
     map tx_Data (filter (\<lambda>tx. isValidBatchTx tx (ds_Sender dsCfg) (ds_batchInboxAddress dsCfg) b) txs)"
  by (induction txs) auto

text \<open>The blob hashes of a block, in the order of its sidecar.\<close>

definition block_hashes :: "L1Tx list \<Rightarrow> Hash list" where
  "block_hashes txs = concat (map tx_BlobHashes txs)"

lemma dataAndHashes_loop_indices:
  assumes "\<forall>tx \<in> set txs. tx_Type tx \<noteq> BlobTxType \<longrightarrow> tx_BlobHashes tx = []"
    and "\<forall>h \<in> set hashes. unat (ibh_Index h) < length bef \<and> bef ! unat (ibh_Index h) = ibh_Hash h"
    and "i = of_nat (length bef)" "length bef + length (block_hashes txs) < 2 ^ 64"
    and "dataAndHashes_loop config b txs (data, hashes, i) = (data', hashes', i')"
  shows "\<forall>h \<in> set hashes'. unat (ibh_Index h) < length (bef @ block_hashes txs)
           \<and> (bef @ block_hashes txs) ! unat (ibh_Index h) = ibh_Hash h"
  using assms
proof (induction txs arbitrary: data hashes i bef)
  case Nil
  then show ?case by (simp add: block_hashes_def)
next
  case (Cons tx txs)
  let ?v = "isValidBatchTx tx (ds_Sender config) (ds_batchInboxAddress config) b"
  have bh: "block_hashes (tx # txs) = tx_BlobHashes tx @ block_hashes txs"
    by (simp add: block_hashes_def)
  have old: "\<forall>h \<in> set hashes. unat (ibh_Index h) < length (bef @ tx_BlobHashes tx)
      \<and> (bef @ tx_BlobHashes tx) ! unat (ibh_Index h) = ibh_Hash h"
    using Cons.prems(2) by (auto simp: nth_append)
  have next_i: "i + of_nat (length (tx_BlobHashes tx)) = of_nat (length (bef @ tx_BlobHashes tx))"
    using Cons.prems(3) by simp
  show ?case
  proof (cases "?v \<and> tx_Type tx = BlobTxType")
    case False
    have i: "i = of_nat (length (bef @ tx_BlobHashes tx))" if "?v"
      using that False Cons.prems(1,3) by auto
    obtain data2 where l: "dataAndHashes_loop config b txs
        (data2, hashes, of_nat (length (bef @ tx_BlobHashes tx))) = (data', hashes', i')"
      using Cons.prems(5) False i next_i by (cases ?v) auto
    show ?thesis
      using Cons.IH [OF _ old refl _ l] Cons.prems(1,4) by (simp add: bh)
  next
    case True
    let ?new = "map (\<lambda>k. \<lparr>ibh_Index = i + of_nat k, ibh_Hash = tx_BlobHashes tx ! k\<rparr>) [0..<length (tx_BlobHashes tx)]"
    have new: "unat (ibh_Index h) < length (bef @ tx_BlobHashes tx)
        \<and> (bef @ tx_BlobHashes tx) ! unat (ibh_Index h) = ibh_Hash h" if h: "h \<in> set ?new" for h
    proof -
      obtain k where k: "k < length (tx_BlobHashes tx)" "ibh_Index h = of_nat (length bef + k)"
          "ibh_Hash h = tx_BlobHashes tx ! k"
      proof -
        obtain k where "k < length (tx_BlobHashes tx)" "h = \<lparr>ibh_Index = i + of_nat k, ibh_Hash = tx_BlobHashes tx ! k\<rparr>"
          using h by auto
        then show ?thesis using Cons.prems(3) by (intro that [of k]) simp_all
      qed
      have "unat (ibh_Index h) = length bef + k"
        unfolding k(2) by (rule unat_of_nat_u64) (use k(1) Cons.prems(4) bh in simp)
      then show ?thesis using k by (simp add: nth_append)
    qed
    have l: "dataAndHashes_loop config b txs
        (data @ map (\<lambda>_. BCBlob None) (tx_BlobHashes tx), hashes @ ?new, of_nat (length (bef @ tx_BlobHashes tx)))
        = (data', hashes', i')"
      using Cons.prems(5) True by (simp add: add_blob_hashes_simp next_i del: of_nat_add length_append)
    show ?thesis
      using Cons.IH [OF _ _ refl _ l] Cons.prems(1,4) old new by (auto simp: bh)
  qed
qed

text \<open>The blob hashes the source asks the beacon node for carry their absolute positions among
  all blobs of the block, those of other senders' transactions included.\<close>

theorem dataAndHashesFromTxs_indices:
  assumes "\<forall>tx \<in> set txs. tx_Type tx \<noteq> BlobTxType \<longrightarrow> tx_BlobHashes tx = []"
    and "length (block_hashes txs) < 2 ^ 64"
    and "h \<in> set (snd (dataAndHashesFromTxs txs config batcherAddr))"
  shows "unat (ibh_Index h) < length (block_hashes txs)
       \<and> block_hashes txs ! unat (ibh_Index h) = ibh_Hash h"
proof -
  obtain data hashes i where l: "dataAndHashes_loop config batcherAddr txs ([], [], 0) = (data, hashes, i)"
    by (metis prod_cases3)
  then have "h \<in> set hashes" using assms(3) by (simp add: dataAndHashesFromTxs_def)
  then show ?thesis
    using dataAndHashes_loop_indices [of txs "[]" "[]" 0, OF assms(1) _ _ _ l] assms(2) by simp
qed

theorem dataAndHashesFromTxs_indices_witness:
  "block_hashes [\<lparr>tx_To = None, tx_Data = [], tx_Type = 3, tx_BlobHashes = [10, 11]\<rparr>,
                 \<lparr>tx_To = Some 1, tx_Data = [], tx_Type = 3, tx_BlobHashes = [12]\<rparr>] ! 2 = 12"
proof -
  let ?txs = "[\<lparr>tx_To = None, tx_Data = [], tx_Type = 3, tx_BlobHashes = [10, 11]\<rparr>,
               \<lparr>tx_To = Some 1, tx_Data = [], tx_Type = 3, tx_BlobHashes = [12]\<rparr>]"
  let ?cfg = "\<lparr>ds_Sender = (\<lambda>_. Inr 2), ds_batchInboxAddress = 1, ds_plasmaEnabled = False\<rparr>"
  have "snd (dataAndHashesFromTxs ?txs ?cfg 2) = [\<lparr>ibh_Index = 2, ibh_Hash = 12\<rparr>]"
    by (simp add: dataAndHashesFromTxs_def isValidBatchTx_def BlobTxType_def)
  then show ?thesis
    using dataAndHashesFromTxs_indices [of ?txs "\<lparr>ibh_Index = 2, ibh_Hash = 12\<rparr>" ?cfg 2]
    by (simp add: block_hashes_def BlobTxType_def)
qed

lemma Commitment_roundtrip:
  "DecodeCommitmentData bs = Inr c \<longleftrightarrow>
     bs = Commitment_Encode c \<and>
     (case c of Keccak256Commitment h \<Rightarrow> length h = 32 | GenericCommitment g \<Rightarrow> g \<noteq> [])"
  by (cases c)
    (auto simp: DecodeCommitmentData_def DecodeKeccak256_def DecodeGenericCommitment_def
      Keccak256CommitmentType_def GenericCommitmentType_def split: list.splits if_splits)

end
