(* ===== verification/Channel.thy ===== *)
theory Channel
  imports Frames EthTypes
begin

text \<open>
  A channel (op-node/rollup/derive/channel.go): the frames of one channel id, buffered in any
  order until all frames up to the closing one are there. The map of frames is an association
  list from frame numbers; the pruning loop ranges over it once, deleting as it goes.
\<close>

section \<open>State and operations\<close>

record Channel =
  ch_id :: ChannelID
  ch_openBlock :: L1BlockRef
  ch_size :: u64
  ch_closed :: bool
  ch_highestFrameNumber :: u16
  ch_endFrameNumber :: u16
  ch_inputs :: "(u64 \<times> Frame) list"
  ch_highestL1InclusionBlock :: L1BlockRef

definition NewChannel :: "ChannelID \<Rightarrow> L1BlockRef \<Rightarrow> Channel" where
  "NewChannel cid openBlock =
     \<lparr>ch_id = cid, ch_openBlock = openBlock, ch_size = 0, ch_closed = False,
      ch_highestFrameNumber = 0, ch_endFrameNumber = 0, ch_inputs = [],
      ch_highestL1InclusionBlock = zero_L1BlockRef\<rparr>"

text \<open>The loop over the saved inputs: the map it ranges over, the map being changed, the size.\<close>

fun prune_inputs :: "u16 \<Rightarrow> (u64 \<times> Frame) list \<Rightarrow> (u64 \<times> Frame) list \<times> u64
    \<Rightarrow> (u64 \<times> Frame) list \<times> u64" where
  "prune_inputs endNum [] (inputs, sz) = (inputs, sz)"
| "prune_inputs endNum ((i, prunedFrame) # rest) (inputs, sz) =
     prune_inputs endNum rest
       (if i \<ge> ucast endNum then AList.delete i inputs else inputs,
        sz - frameSize prunedFrame)"

definition AddFrame :: "Channel \<Rightarrow> Frame \<Rightarrow> L1BlockRef \<Rightarrow> Channel \<times> gerr option" where
  "AddFrame ch frame l1InclusionBlock =
     (if fr_ID frame \<noteq> ch_id ch then
        (ch, Some (Msg ''frame id does not match channel id''))
      else if fr_IsLast frame \<and> ch_closed ch then
        (ch, Some (Msg ''cannot add ending frame to a closed channel''))
      else if map_of (ch_inputs ch) (ucast (fr_FrameNumber frame)) \<noteq> None then
        (ch, Some DuplicateErr)
      else if ch_closed ch \<and> fr_FrameNumber frame \<ge> ch_endFrameNumber ch then
        (ch, Some (Msg ''frame number is greater than or equal to end frame number''))
      else
        (let ch = (if fr_IsLast frame
                   then ch\<lparr>ch_endFrameNumber := fr_FrameNumber frame, ch_closed := True\<rparr>
                   else ch);
             ch = (if fr_IsLast frame \<and> ch_endFrameNumber ch < ch_highestFrameNumber ch
                   then (case prune_inputs (ch_endFrameNumber ch) (ch_inputs ch)
                                (ch_inputs ch, ch_size ch) of
                           (inputs, sz) \<Rightarrow>
                             ch\<lparr>ch_inputs := inputs, ch_size := sz,
                                ch_highestFrameNumber := ch_endFrameNumber ch\<rparr>)
                   else ch);
             ch = (if fr_FrameNumber frame > ch_highestFrameNumber ch
                   then ch\<lparr>ch_highestFrameNumber := fr_FrameNumber frame\<rparr> else ch);
             ch = (if l1_Number (ch_highestL1InclusionBlock ch) < l1_Number l1InclusionBlock
                   then ch\<lparr>ch_highestL1InclusionBlock := l1InclusionBlock\<rparr> else ch);
             ch = ch\<lparr>ch_inputs := AList.update (ucast (fr_FrameNumber frame)) frame (ch_inputs ch),
                     ch_size := ch_size ch + frameSize frame\<rparr>
         in (ch, None)))"

definition OpenBlockNumber :: "Channel \<Rightarrow> u64" where
  "OpenBlockNumber ch = l1_Number (ch_openBlock ch)"

definition HighestBlock :: "Channel \<Rightarrow> L1BlockRef" where
  "HighestBlock ch = ch_highestL1InclusionBlock ch"

definition Channel_Size :: "Channel \<Rightarrow> u64" where
  "Channel_Size ch = ch_size ch"

definition IsReady :: "Channel \<Rightarrow> bool" where
  "IsReady ch =
     (if \<not> ch_closed ch then False
      else if length (ch_inputs ch) \<noteq> unat (ch_endFrameNumber ch) + 1 then False
      else list_all (\<lambda>i. map_of (ch_inputs ch) (of_nat i) \<noteq> None)
             [0..<Suc (unat (ch_endFrameNumber ch))])"

text \<open>The readers of the frames in their order, then the bytes they deliver one after another.\<close>

fun frame_readers :: "(u64 \<times> Frame) list \<Rightarrow> nat list \<Rightarrow> bytes list go" where
  "frame_readers inputs [] = Some []"
| "frame_readers inputs (i # is) =
     (case map_of inputs (of_nat i) of
        None \<Rightarrow> None
      | Some frame \<Rightarrow> do { readers \<leftarrow> frame_readers inputs is; Some (fr_Data frame # readers) })"

definition Reader :: "Channel \<Rightarrow> bytes go" where
  "Reader ch =
     do { readers \<leftarrow> frame_readers (ch_inputs ch) [0..<Suc (unat (ch_endFrameNumber ch))];
          Some (concat readers) }"

section \<open>The pruning loop\<close>

lemma prune_inputs_map:
  "prune_inputs e xs (m, s) = (m', s') \<Longrightarrow>
   map_of m' k = (if k \<in> fst ` set xs \<and> ucast e \<le> k then None else map_of m k)"
  by (induction e xs "(m, s)" arbitrary: m s rule: prune_inputs.induct)
    (auto simp: delete_conv split: if_splits)

lemma prune_inputs_wf: "prune_inputs e xs (m, s) = (m', s') \<Longrightarrow> wf_map m \<Longrightarrow> wf_map m'"
  by (induction e xs "(m, s)" arbitrary: m s rule: prune_inputs.induct) (auto split: if_splits)

lemma prune_inputs_set: "prune_inputs e xs (m, s) = (m', s') \<Longrightarrow> set m' \<subseteq> set m"
  by (induction e xs "(m, s)" arbitrary: m s rule: prune_inputs.induct)
    (auto simp: AList.delete_eq split: if_splits)

lemma prune_inputs_size:
  "prune_inputs e xs (m, s) = (m', s') \<Longrightarrow> s' = s - sum_list (map (frameSize \<circ> snd) xs)"
  by (induction e xs "(m, s)" arbitrary: m s rule: prune_inputs.induct) (auto split: if_splits)

section \<open>The channel invariant\<close>

lemma unat_ucast_u16 [simp]: "unat (ucast (a :: u16) :: u64) = unat a"
proof -
  have "unat a < 2 ^ LENGTH(16)" by (rule unsigned_less)
  then show ?thesis by (simp add: unsigned_ucast_eq take_bit_nat_eq_self)
qed

lemma ucast_u16_eq [simp]: "(ucast (a :: u16) :: u64) = ucast b \<longleftrightarrow> a = b"
  by (metis unat_ucast_u16 unsigned_word_eqI)

lemma ucast_u16_less [simp]: "(ucast (a :: u16) :: u64) < ucast b \<longleftrightarrow> a < b"
  by (simp add: word_less_nat_alt)

lemma ucast_u16_le [simp]: "(ucast (a :: u16) :: u64) \<le> ucast b \<longleftrightarrow> a \<le> b"
  by (simp add: word_le_nat_alt)

text \<open>A buffered frame sits under its own number, belongs to the channel and respects the closing
  frame, which is buffered itself once it has been seen.\<close>

definition channel_inv :: "Channel \<Rightarrow> bool" where
  "channel_inv ch \<longleftrightarrow>
     wf_map (ch_inputs ch) \<and>
     (\<forall>k f. map_of (ch_inputs ch) k = Some f \<longrightarrow>
        k = ucast (fr_FrameNumber f) \<and> fr_ID f = ch_id ch
        \<and> fr_FrameNumber f \<le> ch_highestFrameNumber ch
        \<and> (fr_IsLast f \<longrightarrow> ch_closed ch \<and> fr_FrameNumber f = ch_endFrameNumber ch)
        \<and> (ch_closed ch \<longrightarrow> fr_FrameNumber f \<le> ch_endFrameNumber ch)) \<and>
     (ch_closed ch \<longrightarrow>
        (\<exists>f. map_of (ch_inputs ch) (ucast (ch_endFrameNumber ch)) = Some f \<and> fr_IsLast f))"

definition accepts :: "Channel \<Rightarrow> Frame \<Rightarrow> bool" where
  "accepts ch f \<longleftrightarrow>
     fr_ID f = ch_id ch \<and> map_of (ch_inputs ch) (ucast (fr_FrameNumber f)) = None \<and>
     (ch_closed ch \<longrightarrow> \<not> fr_IsLast f \<and> fr_FrameNumber f < ch_endFrameNumber ch)"

definition kept :: "Channel \<Rightarrow> Frame \<Rightarrow> u64 \<Rightarrow> bool" where
  "kept ch f k \<longleftrightarrow> fr_IsLast f \<and> fr_FrameNumber f < ch_highestFrameNumber ch \<longrightarrow> k < ucast (fr_FrameNumber f)"

lemma AddFrame_rejects:
  "\<not> accepts ch f \<Longrightarrow> \<exists>e. AddFrame ch f b = (ch, Some e)"
  by (auto simp: AddFrame_def accepts_def not_less)

lemma AddFrame_accepts:
  fixes b k
  assumes "accepts ch f"
  defines "ch' \<equiv> fst (AddFrame ch f b)"
  shows "AddFrame ch f b = (ch', None)"
    and "ch_id ch' = ch_id ch" and "ch_openBlock ch' = ch_openBlock ch"
    and "ch_closed ch' \<longleftrightarrow> ch_closed ch \<or> fr_IsLast f"
    and "ch_endFrameNumber ch' = (if fr_IsLast f then fr_FrameNumber f else ch_endFrameNumber ch)"
    and "ch_highestFrameNumber ch' = (if fr_IsLast f then fr_FrameNumber f
       else max (ch_highestFrameNumber ch) (fr_FrameNumber f))"
    and "map_of (ch_inputs ch') k =
       (if k = ucast (fr_FrameNumber f) then Some f
        else if kept ch f k then map_of (ch_inputs ch) k else None)"
    and "wf_map (ch_inputs ch) \<Longrightarrow> wf_map (ch_inputs ch')"
    and "ch_size ch' = (if fr_IsLast f \<and> fr_FrameNumber f < ch_highestFrameNumber ch
       then ch_size ch - sum_list (map (frameSize \<circ> snd) (ch_inputs ch)) else ch_size ch) + frameSize f"
proof -
  obtain inputs sz where p: "prune_inputs (fr_FrameNumber f) (ch_inputs ch) (ch_inputs ch, ch_size ch) = (inputs, sz)"
    by (cases "prune_inputs (fr_FrameNumber f) (ch_inputs ch) (ch_inputs ch, ch_size ch)")
  note pm = prune_inputs_map [OF p] and ps = prune_inputs_size [OF p] and pw = prune_inputs_wf [OF p]
  have m: "map_of inputs k = (if k < ucast (fr_FrameNumber f) then map_of (ch_inputs ch) k else None)" for k
    unfolding pm not_less [symmetric] using map_of_eq_None_iff [of "ch_inputs ch" k] by auto
  have A: "fr_ID f = ch_id ch" "map_of (ch_inputs ch) (ucast (fr_FrameNumber f)) = None"
    "ch_closed ch \<Longrightarrow> \<not> fr_IsLast f" "(ch_closed ch \<and> ch_endFrameNumber ch \<le> fr_FrameNumber f) = False"
    using assms by (auto simp: accepts_def)
  have mx: "(if h < n then n else h) = max h n" "\<not> n < h \<Longrightarrow> (if h < n then n else h) = n" for h n :: u16
    by (auto simp: max_def)
  have "AddFrame ch f b = (ch', None) \<and> ch_id ch' = ch_id ch \<and> ch_openBlock ch' = ch_openBlock ch
    \<and> (ch_closed ch' \<longleftrightarrow> ch_closed ch \<or> fr_IsLast f)
    \<and> ch_endFrameNumber ch' = (if fr_IsLast f then fr_FrameNumber f else ch_endFrameNumber ch)
    \<and> ch_highestFrameNumber ch' = (if fr_IsLast f then fr_FrameNumber f
       else max (ch_highestFrameNumber ch) (fr_FrameNumber f))
    \<and> map_of (ch_inputs ch') k =
       (if k = ucast (fr_FrameNumber f) then Some f
        else if kept ch f k then map_of (ch_inputs ch) k else None)
    \<and> (wf_map (ch_inputs ch) \<longrightarrow> wf_map (ch_inputs ch'))
    \<and> ch_size ch' = (if fr_IsLast f \<and> fr_FrameNumber f < ch_highestFrameNumber ch
       then ch_size ch - sum_list (map (frameSize \<circ> snd) (ch_inputs ch)) else ch_size ch) + frameSize f"
  proof (cases "fr_IsLast f")
    case True
    then have c: "\<not> ch_closed ch" using A by blast
    show ?thesis
    proof (cases "fr_FrameNumber f < ch_highestFrameNumber ch")
      case less: True
      show ?thesis
        by (simp add: ch'_def AddFrame_def A True c less p ps pw m kept_def update_conv Let_def)
    next
      case ge: False
      then have eq: "\<not> ch_highestFrameNumber ch < fr_FrameNumber f \<Longrightarrow> ch_highestFrameNumber ch = fr_FrameNumber f"
        by auto
      show ?thesis
        by (simp add: ch'_def AddFrame_def A True c ge kept_def update_conv Let_def eq)
    qed
  next
    case False
    show ?thesis
      by (simp add: ch'_def AddFrame_def A(1,2,4) False kept_def update_conv Let_def mx)
  qed
  then show "AddFrame ch f b = (ch', None)"
    and "ch_id ch' = ch_id ch" and "ch_openBlock ch' = ch_openBlock ch"
    and "ch_closed ch' \<longleftrightarrow> ch_closed ch \<or> fr_IsLast f"
    and "ch_endFrameNumber ch' = (if fr_IsLast f then fr_FrameNumber f else ch_endFrameNumber ch)"
    and "ch_highestFrameNumber ch' = (if fr_IsLast f then fr_FrameNumber f
       else max (ch_highestFrameNumber ch) (fr_FrameNumber f))"
    and "map_of (ch_inputs ch') k =
       (if k = ucast (fr_FrameNumber f) then Some f
        else if kept ch f k then map_of (ch_inputs ch) k else None)"
    and "wf_map (ch_inputs ch) \<Longrightarrow> wf_map (ch_inputs ch')"
    and "ch_size ch' = (if fr_IsLast f \<and> fr_FrameNumber f < ch_highestFrameNumber ch
       then ch_size ch - sum_list (map (frameSize \<circ> snd) (ch_inputs ch)) else ch_size ch) + frameSize f"
    by blast+
qed

lemma channel_inv_NewChannel [inv_intros]: "channel_inv (NewChannel c b)"
  by (simp add: channel_inv_def NewChannel_def)

lemma AddFrame_contract:
  assumes "channel_inv ch"
  shows "(accepts ch f \<longrightarrow> snd (AddFrame ch f b) = None
            \<and> map_of (ch_inputs (fst (AddFrame ch f b))) (ucast (fr_FrameNumber f)) = Some f)
       \<and> (\<not> accepts ch f \<longrightarrow> fst (AddFrame ch f b) = ch \<and> snd (AddFrame ch f b) \<noteq> None)
       \<and> channel_inv (fst (AddFrame ch f b))"
proof (cases "accepts ch f")
  case False
  then show ?thesis using AddFrame_rejects [OF False, of b] assms by auto
next
  case True
  let ?ch' = "fst (AddFrame ch f b)"
  note r = AddFrame_accepts [OF True, of b]
  note a = True [unfolded accepts_def]
  have I: "k = ucast (fr_FrameNumber g)" "fr_ID g = ch_id ch" "fr_FrameNumber g \<le> ch_highestFrameNumber ch"
      "fr_IsLast g \<Longrightarrow> ch_closed ch \<and> fr_FrameNumber g = ch_endFrameNumber ch"
      "ch_closed ch \<Longrightarrow> fr_FrameNumber g \<le> ch_endFrameNumber ch"
    if "map_of (ch_inputs ch) k = Some g" for k g
    using that assms unfolding channel_inv_def by blast+
  have le: "fr_FrameNumber g \<le> fr_FrameNumber f"
    if "map_of (ch_inputs ch) k = Some g" "kept ch f k" "fr_IsLast f" for k g
  proof (cases "fr_FrameNumber f < ch_highestFrameNumber ch")
    case True
    then have "fr_FrameNumber g < fr_FrameNumber f"
      using that(2,3) I(1) [OF that(1)] by (simp add: kept_def)
    then show ?thesis by (rule less_imp_le)
  next
    case False
    then show ?thesis using I(3) [OF that(1)] by (meson not_less order_trans)
  qed
  have "k = ucast (fr_FrameNumber g) \<and> fr_ID g = ch_id ?ch' \<and> fr_FrameNumber g \<le> ch_highestFrameNumber ?ch'
        \<and> (fr_IsLast g \<longrightarrow> ch_closed ?ch' \<and> fr_FrameNumber g = ch_endFrameNumber ?ch')
        \<and> (ch_closed ?ch' \<longrightarrow> fr_FrameNumber g \<le> ch_endFrameNumber ?ch')"
    if g: "map_of (ch_inputs ?ch') k = Some g" for k g
  proof (cases "k = ucast (fr_FrameNumber f)")
    case True
    then have "g = f" using g r(7) by simp
    then show ?thesis using True a r(2-6) by auto
  next
    case False
    then have o: "map_of (ch_inputs ch) k = Some g" "kept ch f k" using g r(7) by (simp_all split: if_splits)
    show ?thesis
    proof (cases "fr_IsLast f")
      case True
      then have "\<not> ch_closed ch" using a by blast
      then show ?thesis using I(1,2,4) [OF o(1)] le [OF o True] r(2-6) True by simp blast
    next
      case nl: False
      show ?thesis using I [OF o(1)] r(2-6) nl by (simp add: le_max_iff_disj)
    qed
  qed
  moreover have "\<exists>g. map_of (ch_inputs ?ch') (ucast (ch_endFrameNumber ?ch')) = Some g \<and> fr_IsLast g"
    if "ch_closed ?ch'"
  proof (cases "fr_IsLast f")
    case True
    then show ?thesis using r(5,7) by simp
  next
    case False
    then have c: "ch_closed ch" using that r(4) by simp
    then obtain g where "map_of (ch_inputs ch) (ucast (ch_endFrameNumber ch)) = Some g" "fr_IsLast g"
      using assms by (auto simp: channel_inv_def)
    then show ?thesis using False a r(5,7) by (auto simp: kept_def)
  qed
  ultimately have "channel_inv ?ch'"
    using r(8) assms unfolding channel_inv_def by blast
  then show ?thesis using True arg_cong [OF r(1), of snd] r(7) by simp
qed


lemma AddFrame_inv [inv_intros]: "channel_inv ch \<Longrightarrow> channel_inv (fst (AddFrame ch f b))"
  using AddFrame_contract by blast

text \<open>AddFrame accepts a frame exactly if it is of the channel, new, and below the closing frame
  of a closed channel; a rejected frame leaves the channel unchanged, an accepted one is buffered,
  and in both cases the channel invariant is kept.\<close>

theorem AddFrame_correct:
  assumes "channel_inv ch"
  shows "(accepts ch f \<longrightarrow> snd (AddFrame ch f b) = None
            \<and> map_of (ch_inputs (fst (AddFrame ch f b))) (ucast (fr_FrameNumber f)) = Some f)
       \<and> (\<not> accepts ch f \<longrightarrow> fst (AddFrame ch f b) = ch \<and> snd (AddFrame ch f b) \<noteq> None)
       \<and> channel_inv (fst (AddFrame ch f b))"
  using assms by (rule AddFrame_contract)

theorem AddFrame_correct_witness:
  "snd (AddFrame (NewChannel 5 zero_L1BlockRef)
     \<lparr>fr_ID = 5, fr_FrameNumber = 0, fr_Data = [], fr_IsLast = True\<rparr> zero_L1BlockRef) = None"
  using AddFrame_correct [OF channel_inv_NewChannel [of 5 zero_L1BlockRef],
      of "\<lparr>fr_ID = 5, fr_FrameNumber = 0, fr_Data = [], fr_IsLast = True\<rparr>" zero_L1BlockRef]
  by (simp add: accepts_def NewChannel_def)

section \<open>Reading a channel\<close>

lemma frame_readers_Some:
  "list_all (\<lambda>i. map_of inputs (of_nat i) \<noteq> None) is \<Longrightarrow>
   frame_readers inputs is = Some (map (\<lambda>i. fr_Data (the (map_of inputs (of_nat i)))) is)"
  by (induction inputs "is" rule: frame_readers.induct) auto

lemma Reader_ready [panic_free]:
  "IsReady ch \<Longrightarrow>
   Reader ch = Some (concat (map (\<lambda>i. fr_Data (the (map_of (ch_inputs ch) (of_nat i))))
                       [0..<Suc (unat (ch_endFrameNumber ch))]))"
  by (simp add: Reader_def IsReady_def frame_readers_Some split: if_splits)

section \<open>A channel split into frames\<close>

text \<open>The frames a channel with the given pieces of data is sent as, and a channel that is offered
  frames one after another, the errors ignored as the channel bank does.\<close>

definition channel_frame :: "ChannelID \<Rightarrow> bytes list \<Rightarrow> nat \<Rightarrow> Frame" where
  "channel_frame cid pieces i =
     \<lparr>fr_ID = cid, fr_FrameNumber = of_nat i, fr_Data = pieces ! i,
      fr_IsLast = (Suc i = length pieces)\<rparr>"

definition channel_frames :: "ChannelID \<Rightarrow> bytes list \<Rightarrow> Frame list" where
  "channel_frames cid pieces = map (channel_frame cid pieces) [0..<length pieces]"

definition offer :: "Channel \<Rightarrow> (Frame \<times> L1BlockRef) list \<Rightarrow> Channel" where
  "offer ch fbs = foldl (\<lambda>ch (f, b). fst (AddFrame ch f b)) ch fbs"

definition received :: "ChannelID \<Rightarrow> bytes list \<Rightarrow> Frame set \<Rightarrow> Channel \<Rightarrow> bool" where
  "received cid pieces S ch \<longleftrightarrow>
     ch_id ch = cid \<and> wf_map (ch_inputs ch) \<and>
     (\<forall>k f. map_of (ch_inputs ch) k = Some f \<longleftrightarrow> f \<in> S \<and> k = ucast (fr_FrameNumber f)) \<and>
     (ch_closed ch \<longleftrightarrow> (\<exists>f \<in> S. fr_IsLast f)) \<and>
     (ch_closed ch \<longrightarrow> ch_endFrameNumber ch = of_nat (length pieces - 1)) \<and>
     ch_highestFrameNumber ch \<le> of_nat (length pieces - 1)"

lemma of_nat_u16: "i < 65536 \<Longrightarrow> unat (of_nat i :: u16) = i"
  by (simp add: unat_of_nat take_bit_nat_eq_self)

lemma channel_frame_simps [simp]:
  "fr_ID (channel_frame cid pieces i) = cid" "fr_FrameNumber (channel_frame cid pieces i) = of_nat i"
  "fr_Data (channel_frame cid pieces i) = pieces ! i"
  "fr_IsLast (channel_frame cid pieces i) \<longleftrightarrow> Suc i = length pieces"
  by (simp_all add: channel_frame_def)

lemma channel_frames_iff:
  "f \<in> set (channel_frames cid pieces) \<longleftrightarrow> (\<exists>i < length pieces. f = channel_frame cid pieces i)"
  by (auto simp: channel_frames_def)

lemma of_nat_u16_eq: "i < 65536 \<Longrightarrow> j < 65536 \<Longrightarrow> (of_nat i :: u16) = of_nat j \<longleftrightarrow> i = j"
  by (metis of_nat_u16)

lemma channel_frames_inj:
  assumes "length pieces \<le> 65536" "f \<in> set (channel_frames cid pieces)" "g \<in> set (channel_frames cid pieces)"
    and "fr_FrameNumber f = fr_FrameNumber g"
  shows "f = g"
  using assms by (auto simp: channel_frames_iff of_nat_u16_eq)

lemma channel_frames_bound:
  assumes "length pieces \<le> 65536" "f \<in> set (channel_frames cid pieces)"
  shows "fr_FrameNumber f \<le> of_nat (length pieces - 1)"
    and "fr_IsLast f \<longleftrightarrow> fr_FrameNumber f = of_nat (length pieces - 1)" and "fr_ID f = cid"
proof -
  obtain i where i: "i < length pieces" "f = channel_frame cid pieces i"
    using assms(2) unfolding channel_frames_iff by blast
  have u: "unat (of_nat i :: u16) = i" "unat (of_nat (length pieces - 1) :: u16) = length pieces - 1"
    by (rule of_nat_u16, use i(1) assms(1) in simp)+
  show "fr_FrameNumber f \<le> of_nat (length pieces - 1)"
    using i(1) unfolding word_le_nat_alt u(2) i(2) channel_frame_simps u(1) by simp
  have "(of_nat i :: u16) = of_nat (length pieces - 1) \<longleftrightarrow> i = length pieces - 1"
    by (rule of_nat_u16_eq) (use i(1) assms(1) in simp_all)
  then show "fr_IsLast f \<longleftrightarrow> fr_FrameNumber f = of_nat (length pieces - 1)"
    using i(1) unfolding i(2) channel_frame_simps by auto
  show "fr_ID f = cid" using i by simp
qed

lemma received_step:
  assumes "received cid pieces S ch" "length pieces \<le> 65536"
    and "S \<subseteq> set (channel_frames cid pieces)" "f \<in> set (channel_frames cid pieces)"
  shows "received cid pieces (insert f S) (fst (AddFrame ch f b))"
proof (cases "accepts ch f")
  case True
  note r = AddFrame_accepts [OF True, of b] and R = assms(1) [unfolded received_def]
  note F = channel_frames_bound [OF assms(2,4)]
  have kept: "kept ch f k" for k
    using R F by (auto simp: kept_def)
  have "map_of (ch_inputs ch) (ucast (fr_FrameNumber g)) = Some g" if "g \<in> S" for g
    using R that by blast
  then have fresh: "g \<in> S \<Longrightarrow> fr_FrameNumber g = fr_FrameNumber f \<Longrightarrow> False" for g
    using True by (fastforce simp: accepts_def)
  have m: "map_of (ch_inputs (fst (AddFrame ch f b))) k = Some g \<longleftrightarrow>
      g \<in> insert f S \<and> k = ucast (fr_FrameNumber g)" for k g
    using R fresh [of g] by (auto simp: r(7) kept)
  show ?thesis
    unfolding received_def using m R r(2,4,5,6,8) F by auto
next
  case False
  note F = channel_frames_bound [OF assms(2)]
  have "f \<in> S"
  proof (cases "map_of (ch_inputs ch) (ucast (fr_FrameNumber f))")
    case None
    then have "ch_closed ch" "fr_IsLast f \<or> \<not> fr_FrameNumber f < ch_endFrameNumber ch"
      using False assms(1) F [OF assms(4)] by (auto simp: accepts_def received_def)
    moreover from this obtain g where "g \<in> S" "fr_IsLast g" using assms(1) by (auto simp: received_def)
    ultimately have "fr_FrameNumber f = fr_FrameNumber g"
      using assms(1,3) F(1,2) [OF assms(4)] F(2) [of g] by (auto simp: received_def)
    then show ?thesis
      using channel_frames_inj [OF assms(2,4), of g] \<open>g \<in> S\<close> assms(3) by auto
  next
    case (Some g)
    then have "g \<in> S" "fr_FrameNumber f = fr_FrameNumber g" using assms(1) by (auto simp: received_def)
    then show ?thesis using channel_frames_inj [OF assms(2,4), of g] assms(3) by auto
  qed
  then show ?thesis using AddFrame_rejects [OF False, of b] assms(1) by (auto simp: insert_absorb)
qed

lemma received_offer:
  assumes "length pieces \<le> 65536"
  shows "set (map fst fbs) \<subseteq> set (channel_frames cid pieces) \<Longrightarrow>
    received cid pieces (set (map fst fbs)) (offer (NewChannel cid ob) fbs)"
proof (induction fbs rule: rev_induct)
  case Nil
  then show ?case by (simp add: received_def offer_def NewChannel_def)
next
  case (snoc fb fbs)
  obtain f b where fb: "fb = (f, b)" by (cases fb)
  have "received cid pieces (insert f (set (map fst fbs))) (fst (AddFrame (offer (NewChannel cid ob) fbs) f b))"
    by (rule received_step) (use snoc assms fb in auto)
  then show ?case by (simp add: fb offer_def)
qed


lemma received_all:
  assumes n: "0 < length pieces" "length pieces \<le> 65536"
    and r: "received cid pieces S ch" and S: "S \<subseteq> set (channel_frames cid pieces)"
  shows "IsReady ch \<longleftrightarrow> S = set (channel_frames cid pieces)"
    and "IsReady ch \<Longrightarrow> Reader ch = Some (concat pieces)"
proof -
  let ?f = "channel_frame cid pieces"
  note R = r [unfolded received_def]
  have u: "unat (of_nat i :: u16) = i" if "i < length pieces" for i
    by (rule of_nat_u16) (use that n in simp)
  have k: "ucast (of_nat i :: u16) = (of_nat i :: u64)" if "i < length pieces" for i
    by (rule unsigned_word_eqI [where 'a = nat]) (use u [OF that] that n in \<open>simp add: unat_of_nat_u64\<close>)
  have m: "map_of (ch_inputs ch) (of_nat i) = (if ?f i \<in> S then Some (?f i) else None)"
    if i: "i < length pieces" for i
  proof (cases "map_of (ch_inputs ch) (of_nat i)")
    case None
    have "map_of (ch_inputs ch) (of_nat i) = Some (?f i)" if "?f i \<in> S"
      using R that k [OF i] by simp
    then show ?thesis using None by auto
  next
    case (Some f)
    then have f: "f \<in> S" "(of_nat i :: u64) = ucast (fr_FrameNumber f)" using R by auto
    then have "fr_FrameNumber f = of_nat i" using k [OF i] by (metis ucast_u16_eq)
    moreover have "f \<in> set (channel_frames cid pieces)" "?f i \<in> set (channel_frames cid pieces)"
      using f(1) S i by (auto simp: channel_frames_iff)
    ultimately have "f = ?f i"
      using channel_frames_inj [OF n(2)] by simp
    then show ?thesis using Some f by simp
  qed
  have e: "unat (of_nat (length pieces - 1) :: u16) = length pieces - 1" by (rule u) (use n in simp)
  have last: "ch_closed ch \<longleftrightarrow> ?f (length pieces - 1) \<in> S"
  proof -
    have "ch_closed ch \<longleftrightarrow> (\<exists>f \<in> S. fr_IsLast f)" using R by blast
    also have "\<dots> \<longleftrightarrow> ?f (length pieces - 1) \<in> S"
    proof
      assume "\<exists>f \<in> S. fr_IsLast f"
      then obtain f where f: "f \<in> S" "fr_IsLast f" by blast
      then obtain i where "f = ?f i" using S channel_frames_iff by blast
      then have "?f i \<in> S" "Suc i = length pieces" using f by simp_all
      then show "?f (length pieces - 1) \<in> S" by (metis diff_Suc_1)
    next
      assume "?f (length pieces - 1) \<in> S"
      moreover have "fr_IsLast (?f (length pieces - 1))" using n by simp
      ultimately show "\<exists>f \<in> S. fr_IsLast f" by blast
    qed
    finally show ?thesis .
  qed
  have all: "S = set (channel_frames cid pieces) \<longleftrightarrow> (\<forall>i < length pieces. ?f i \<in> S)"
    using S by (auto simp: channel_frames_iff)
  have seq: "[0..<Suc (unat (ch_endFrameNumber ch))] = [0..<length pieces]" if "ch_closed ch"
    using R that e n by simp
  have dom: "dom (map_of (ch_inputs ch)) = (\<lambda>f. ucast (fr_FrameNumber f)) ` S"
    using R by (auto simp: dom_def)
  have inj: "inj_on (\<lambda>f. ucast (fr_FrameNumber f) :: u64) S"
    using channel_frames_inj [OF n(2)] S by (auto simp: inj_on_def)
  have len: "length (ch_inputs ch) = card S"
    using length_wf_map [of "ch_inputs ch"] R dom inj by (simp add: card_image)
  have "inj_on ?f {..<length pieces}"
    using n by (auto simp: inj_on_def channel_frame_def of_nat_u16_eq)
  then have card: "card (set (channel_frames cid pieces)) = length pieces"
    by (simp add: channel_frames_def atLeast0LessThan card_image)
  show iff: "IsReady ch \<longleftrightarrow> S = set (channel_frames cid pieces)"
  proof
    assume ready: "IsReady ch"
    then have "ch_closed ch" by (simp add: IsReady_def split: if_splits)
    moreover have "list_all (\<lambda>i. map_of (ch_inputs ch) (of_nat i) \<noteq> None) [0..<Suc (unat (ch_endFrameNumber ch))]"
      using ready unfolding IsReady_def by (metis (no_types))
    ultimately have "\<forall>i < length pieces. map_of (ch_inputs ch) (of_nat i) \<noteq> None"
      by (simp only: seq list_all_iff) simp
    then show "S = set (channel_frames cid pieces)"
      unfolding all using m by (metis (no_types))
  next
    assume S: "S = set (channel_frames cid pieces)"
    then have c: "ch_closed ch" using last all n by simp
    have "unat (ch_endFrameNumber ch) + 1 = length pieces" using R e n c by simp
    moreover have "list_all (\<lambda>i. map_of (ch_inputs ch) (of_nat i) \<noteq> None) [0..<length pieces]"
      using m all S by (simp add: list_all_iff)
    ultimately show "IsReady ch" using c S len card
      unfolding IsReady_def seq [OF c] by simp
  qed
  assume ready: "IsReady ch"
  then have c: "ch_closed ch" by (simp add: IsReady_def split: if_splits)
  have "map (\<lambda>i. fr_Data (the (map_of (ch_inputs ch) (of_nat i)))) [0..<length pieces] = map ((!) pieces) [0..<length pieces]"
    using m all iff ready by (intro map_cong) auto
  then show "Reader ch = Some (concat pieces)"
    using Reader_ready [OF ready] by (simp only: seq [OF c] map_nth)
qed

text \<open>C13: Frames of a channel may arrive in any order, more than once, and in any blocks: the
  channel is ready exactly when every frame has been offered at least once, and its reader then
  delivers the pieces of data in the order of the frame numbers.\<close>

theorem channel_any_order:
  assumes "0 < length pieces" "length pieces \<le> 65536"
    and "set (map fst fbs) \<subseteq> set (channel_frames cid pieces)"
  shows "(IsReady (offer (NewChannel cid ob) fbs) \<longleftrightarrow>
            set (map fst fbs) = set (channel_frames cid pieces))
       \<and> (IsReady (offer (NewChannel cid ob) fbs) \<longrightarrow>
            Reader (offer (NewChannel cid ob) fbs) = Some (concat pieces))"
  using received_all [OF assms(1,2) received_offer [OF assms(2,3)] assms(3), of ob] by blast

theorem channel_any_order_witness:
  "Reader (offer (NewChannel 9 zero_L1BlockRef)
     [(channel_frame 9 [[1], [2, 3]] 1, zero_L1BlockRef), (channel_frame 9 [[1], [2, 3]] 1, zero_L1BlockRef),
      (channel_frame 9 [[1], [2, 3]] 0, zero_L1BlockRef)]) = Some [1, 2, 3]"
  using channel_any_order [of "[[1], [2, 3]]"
    "[(channel_frame 9 [[1], [2, 3]] 1, zero_L1BlockRef), (channel_frame 9 [[1], [2, 3]] 1, zero_L1BlockRef),
      (channel_frame 9 [[1], [2, 3]] 0, zero_L1BlockRef)]" 9 zero_L1BlockRef]
  by (simp add: channel_frames_def insert_commute)

section \<open>The size of a channel\<close>

definition frames_size :: "Channel \<Rightarrow> u64" where
  "frames_size ch = sum_list (map (frameSize \<circ> snd) (ch_inputs ch))"

lemma AddFrame_size_cases:
  assumes "accepts ch f" "ch_size ch = frames_size ch"
  shows "fr_IsLast f \<and> fr_FrameNumber f < ch_highestFrameNumber ch \<Longrightarrow>
           ch_size (fst (AddFrame ch f b)) = frameSize f"
    and "\<not> (fr_IsLast f \<and> fr_FrameNumber f < ch_highestFrameNumber ch) \<Longrightarrow>
           ch_size (fst (AddFrame ch f b)) = frames_size (fst (AddFrame ch f b))
         \<and> ch_size (fst (AddFrame ch f b)) = ch_size ch + frameSize f"
proof -
  assume "fr_IsLast f \<and> fr_FrameNumber f < ch_highestFrameNumber ch"
  then show "ch_size (fst (AddFrame ch f b)) = frameSize f"
    using AddFrame_accepts(9) [OF assms(1), of b] assms(2) by (simp add: frames_size_def)
next
  assume n: "\<not> (fr_IsLast f \<and> fr_FrameNumber f < ch_highestFrameNumber ch)"
  then have "ch_inputs (fst (AddFrame ch f b)) = AList.update (ucast (fr_FrameNumber f)) f (ch_inputs ch)"
    using assms(1) by (auto simp: AddFrame_def accepts_def Let_def not_less)
  also have "\<dots> = ch_inputs ch @ [(ucast (fr_FrameNumber f), f)]"
    using assms(1) by (intro update_fresh map_of_None_fresh) (simp add: accepts_def)
  finally have i: "ch_inputs (fst (AddFrame ch f b)) = ch_inputs ch @ [(ucast (fr_FrameNumber f), f)]" .
  have F: "(fr_IsLast f \<and> fr_FrameNumber f < ch_highestFrameNumber ch) = False" using n by blast
  show "ch_size (fst (AddFrame ch f b)) = frames_size (fst (AddFrame ch f b))
      \<and> ch_size (fst (AddFrame ch f b)) = ch_size ch + frameSize f"
    using AddFrame_accepts(9) [OF assms(1), of b] assms(2)
    unfolding F if_False frames_size_def i by simp
qed

text \<open>The size field is exact as long as no frame is pruned: it is the sum of the sizes of the
  buffered frames. A closing frame that prunes resets it to its own size alone, the frames that
  stay buffered are no longer counted.\<close>

theorem AddFrame_size:
  assumes "accepts ch f" "ch_size ch = frames_size ch"
  shows "if fr_IsLast f \<and> fr_FrameNumber f < ch_highestFrameNumber ch
         then ch_size (fst (AddFrame ch f b)) = frameSize f
         else ch_size (fst (AddFrame ch f b)) = frames_size (fst (AddFrame ch f b))"
  using AddFrame_size_cases [OF assms] by simp

definition pruned_example :: Channel where
  "pruned_example = offer (NewChannel 9 zero_L1BlockRef)
     [(\<lparr>fr_ID = 9, fr_FrameNumber = 0, fr_Data = [1, 2, 3], fr_IsLast = False\<rparr>, zero_L1BlockRef),
      (\<lparr>fr_ID = 9, fr_FrameNumber = 5, fr_Data = [1], fr_IsLast = False\<rparr>, zero_L1BlockRef)]"

theorem AddFrame_size_witness:
  "(let ch = fst (AddFrame pruned_example
       \<lparr>fr_ID = 9, fr_FrameNumber = 2, fr_Data = [4, 5], fr_IsLast = True\<rparr> zero_L1BlockRef)
    in ch_size ch = 202 \<and> frames_size ch = 405)"
proof -
  have ex: "pruned_example = \<lparr>ch_id = 9, ch_openBlock = zero_L1BlockRef, ch_size = 404, ch_closed = False,
      ch_highestFrameNumber = 5, ch_endFrameNumber = 0,
      ch_inputs = [(0, \<lparr>fr_ID = 9, fr_FrameNumber = 0, fr_Data = [1, 2, 3], fr_IsLast = False\<rparr>),
                   (5, \<lparr>fr_ID = 9, fr_FrameNumber = 5, fr_Data = [1], fr_IsLast = False\<rparr>)],
      ch_highestL1InclusionBlock = zero_L1BlockRef\<rparr>"
    by (simp add: pruned_example_def offer_def NewChannel_def AddFrame_def Let_def frameSize_def frameOverhead_def)
  have "ch_size (fst (AddFrame pruned_example
       \<lparr>fr_ID = 9, fr_FrameNumber = 2, fr_Data = [4, 5], fr_IsLast = True\<rparr> zero_L1BlockRef)) = 202"
    using AddFrame_size [of pruned_example "\<lparr>fr_ID = 9, fr_FrameNumber = 2, fr_Data = [4, 5], fr_IsLast = True\<rparr>" zero_L1BlockRef]
    by (simp add: ex accepts_def frames_size_def frameSize_def frameOverhead_def)
  then show ?thesis
    by (simp add: ex AddFrame_def frames_size_def frameSize_def frameOverhead_def Let_def)
qed

end
