(* ===== verification/Stages.thy ===== *)
theory Stages
  imports DataSource Channel
begin

text \<open>
  The pull stages of the derivation pipeline up to the channel bank
  (op-node/rollup/derive/l1_traversal.go, l1_retrieval.go, frame_queue.go, channel_bank.go), and
  the contract between a stage and the one it pulls from: a pull does not panic, keeps the stage's
  invariant, and does not move the L1 origin. The contract is a locale; every stage proves it from
  the contract of its predecessor.
\<close>

section \<open>The contract of a stage\<close>

text \<open>Any number of pulls in a row, each with its own answers of the services.\<close>

fun pulls :: "('e \<Rightarrow> 's \<Rightarrow> ('a res \<times> 's) go) \<Rightarrow> 'e list \<Rightarrow> 's \<Rightarrow> ('a res list \<times> 's) go" where
  "pulls pull [] s = Some ([], s)"
| "pulls pull (e # es) s =
     (case pull e s of
        None \<Rightarrow> None
      | Some (r, s) \<Rightarrow>
          (case pulls pull es s of None \<Rightarrow> None | Some (rs, s) \<Rightarrow> Some (r # rs, s)))"

locale stage =
  fixes pull :: "'e \<Rightarrow> 's \<Rightarrow> ('a res \<times> 's) go"
    and origin :: "'s \<Rightarrow> L1BlockRef"
    and inv :: "'s \<Rightarrow> bool"
  assumes pull_contract:
    "inv s \<Longrightarrow> \<exists>r s'. pull e s = Some (r, s') \<and> inv s' \<and> origin s' = origin s"
begin

lemma pull_cases [consumes 1, case_names error data]:
  assumes "inv s"
  obtains (error) err s' where "pull e s = Some (Inl err, s')" "inv s'" "origin s' = origin s"
  | (data) x s' where "pull e s = Some (Inr x, s')" "inv s'" "origin s' = origin s"
  using pull_contract [OF assms, of e] by (metis sum.exhaust)

lemma pull_keeps:
  assumes "inv s" "pull e s = Some (r, s')"
  shows "inv s' \<and> origin s' = origin s"
  using pull_contract [OF assms(1), of e] assms(2) by auto

lemma pulls_contract:
  "inv s \<Longrightarrow> \<exists>rs s'. pulls pull es s = Some (rs, s') \<and> inv s' \<and> origin s' = origin s \<and> length rs = length es"
proof (induction es arbitrary: s)
  case (Cons e es)
  obtain r s1 where 1: "pull e s = Some (r, s1)" "inv s1" "origin s1 = origin s"
    using pull_contract [OF Cons.prems] by blast
  then show ?case using Cons.IH [OF 1(2)] by auto
qed simp

end

section \<open>L1 traversal\<close>

record L1Traversal =
  lt_block :: L1BlockRef
  lt_done :: bool
  lt_sysCfg :: SystemConfig

definition NewL1Traversal :: L1Traversal where
  "NewL1Traversal = \<lparr>lt_block = zero_L1BlockRef, lt_done = False,
     lt_sysCfg = \<lparr>BatcherAddr = 0, Overhead = 0, Scalar = 0, GasLimit = 0\<rparr>\<rparr>"

definition NextL1Block :: "L1Traversal \<Rightarrow> L1BlockRef res \<times> L1Traversal" where
  "NextL1Block l1t =
     (if \<not> lt_done l1t then (Inr (lt_block l1t), l1t\<lparr>lt_done := True\<rparr>)
      else (Inl EOF, l1t))"

text \<open>The configuration is updated in place, also when an event turns out to be malformed.\<close>

definition AdvanceL1Block :: "Hash \<Rightarrow> Config \<Rightarrow> L1Env \<Rightarrow> L1Traversal \<Rightarrow> gerr option \<times> L1Traversal" where
  "AdvanceL1Block abiHash cfg env l1t =
     (let origin = lt_block l1t in
      case L1BlockRefByNumber env (l1_Number origin + 1) of
        Inl err \<Rightarrow>
          if errors_Is err NotFound then (Some EOF, l1t)
          else (Some (NewTemporaryError (Some (Wrap ''failed to find L1 block info by number'' err))), l1t)
      | Inr nextL1Origin \<Rightarrow>
          if l1_Hash (lt_block l1t) \<noteq> l1_ParentHash nextL1Origin then
            (Some (NewResetError (Some (Msg ''detected L1 reorg''))), l1t)
          else
            (case FetchReceipts env (l1_Hash nextL1Origin) of
               Inl err \<Rightarrow>
                 (Some (NewTemporaryError (Some (Wrap ''failed to fetch receipts of L1 block'' err))), l1t)
             | Inr receipts \<Rightarrow>
                 (case UpdateSystemConfigWithL1Receipts abiHash (lt_sysCfg l1t) receipts cfg
                         (l1_Time nextL1Origin) of
                    (sysCfg, []) \<Rightarrow>
                      (None, l1t\<lparr>lt_sysCfg := sysCfg, lt_block := nextL1Origin, lt_done := False\<rparr>)
                  | (sysCfg, err # _) \<Rightarrow>
                      (Some (NewCriticalError (Some (Wrap ''failed to update L1 sysCfg'' err))),
                       l1t\<lparr>lt_sysCfg := sysCfg\<rparr>))))"

definition L1Traversal_Reset :: "L1BlockRef \<Rightarrow> SystemConfig \<Rightarrow> L1Traversal \<Rightarrow> gerr \<times> L1Traversal" where
  "L1Traversal_Reset base cfg l1t =
     (EOF, l1t\<lparr>lt_block := base, lt_done := False, lt_sysCfg := cfg\<rparr>)"

section \<open>L1 retrieval\<close>

record L1Retrieval =
  lr_dataSrc :: DataSourceFactory
  lr_prev :: L1Traversal
  lr_datas :: "DataIter option"

definition NewL1Retrieval :: "DataSourceFactory \<Rightarrow> L1Traversal \<Rightarrow> L1Retrieval" where
  "NewL1Retrieval dataSrc prev = \<lparr>lr_dataSrc = dataSrc, lr_prev = prev, lr_datas = None\<rparr>"

definition L1Retrieval_Origin :: "L1Retrieval \<Rightarrow> L1BlockRef" where
  "L1Retrieval_Origin l1r = lt_block (lr_prev l1r)"

text \<open>Opening the next block: an error, or the iterator to read from.\<close>

definition L1Retrieval_open :: "L1Env \<Rightarrow> L1Retrieval \<Rightarrow> DataIter res \<times> L1Retrieval" where
  "L1Retrieval_open env l1r =
     (case lr_datas l1r of
        Some datas \<Rightarrow> (Inr datas, l1r)
      | None \<Rightarrow>
          (case NextL1Block (lr_prev l1r) of
             (Inl err, prev) \<Rightarrow> (Inl err, l1r\<lparr>lr_prev := prev\<rparr>)
           | (Inr ref, prev) \<Rightarrow>
               (case OpenData env (lr_dataSrc l1r) ref (BatcherAddr (lt_sysCfg prev)) of
                  Inl err \<Rightarrow> (Inl (Wrap ''failed to open data source'' err), l1r\<lparr>lr_prev := prev\<rparr>)
                | Inr datas \<Rightarrow> (Inr datas, l1r\<lparr>lr_prev := prev, lr_datas := Some datas\<rparr>))))"

definition L1Retrieval_NextData :: "L1Env \<Rightarrow> L1Retrieval \<Rightarrow> (bytes res \<times> L1Retrieval) go" where
  "L1Retrieval_NextData env l1r =
     (case L1Retrieval_open env l1r of
        (Inl err, l1r) \<Rightarrow> Some (Inl err, l1r)
      | (Inr datas, l1r) \<Rightarrow>
          (case Iter_Next env datas of
             None \<Rightarrow> None
           | Some (Inl err, datas) \<Rightarrow>
               if err = EOF then Some (Inl EOF, l1r\<lparr>lr_datas := None\<rparr>)
               else Some (Inl err, l1r\<lparr>lr_datas := Some datas\<rparr>)
           | Some (Inr data, datas) \<Rightarrow> Some (Inr data, l1r\<lparr>lr_datas := Some datas\<rparr>)))"

definition L1Retrieval_Reset ::
    "L1Env \<Rightarrow> L1BlockRef \<Rightarrow> SystemConfig \<Rightarrow> L1Retrieval \<Rightarrow> gerr \<times> L1Retrieval" where
  "L1Retrieval_Reset env base sysCfg l1r =
     (case OpenData env (lr_dataSrc l1r) base (BatcherAddr sysCfg) of
        Inl err \<Rightarrow> (Wrap ''failed to open data source'' err, l1r\<lparr>lr_datas := None\<rparr>)
      | Inr datas \<Rightarrow> (EOF, l1r\<lparr>lr_datas := Some datas\<rparr>))"

definition L1Retrieval_inv :: "L1Retrieval \<Rightarrow> bool" where
  "L1Retrieval_inv l1r \<longleftrightarrow> (case lr_datas l1r of None \<Rightarrow> True | Some it \<Rightarrow> iter_inv it)"

lemma L1Retrieval_open_contract:
  assumes "L1Retrieval_inv l1r" "L1Retrieval_open env l1r = (r, l1r')"
  shows "L1Retrieval_inv l1r' \<and> L1Retrieval_Origin l1r' = L1Retrieval_Origin l1r
       \<and> (\<forall>it. r = Inr it \<longrightarrow> iter_inv it)"
  using assms
  by (auto simp: L1Retrieval_open_def L1Retrieval_inv_def L1Retrieval_Origin_def NextL1Block_def
      dest: OpenData_inv OpenData_inv [OF sym] split: option.splits prod.splits sum.splits if_splits)

interpretation l1r: stage L1Retrieval_NextData L1Retrieval_Origin L1Retrieval_inv
proof
  fix l1r :: L1Retrieval and env :: L1Env
  assume i: "L1Retrieval_inv l1r"
  obtain r l1r' where o: "L1Retrieval_open env l1r = (r, l1r')" by fastforce
  note c = L1Retrieval_open_contract [OF i o]
  show "\<exists>r s'. L1Retrieval_NextData env l1r = Some (r, s') \<and> L1Retrieval_inv s'
          \<and> L1Retrieval_Origin s' = L1Retrieval_Origin l1r"
  proof (cases r)
    case (Inl err)
    then show ?thesis using c o by (simp add: L1Retrieval_NextData_def)
  next
    case (Inr it)
    then obtain x it' where "Iter_Next env it = Some (x, it')" "iter_inv it'"
      using c Iter_Next_total by blast
    then show ?thesis using c o Inr
      by (auto simp: L1Retrieval_NextData_def L1Retrieval_inv_def L1Retrieval_Origin_def split: sum.split)
  qed
qed

section \<open>The frame queue\<close>

record 'p FrameQueue =
  fq_frames :: "Frame list"
  fq_prev :: 'p

definition NewFrameQueue :: "'p \<Rightarrow> 'p FrameQueue" where
  "NewFrameQueue prev = \<lparr>fq_frames = [], fq_prev = prev\<rparr>"

definition FrameQueue_Origin :: "('p \<Rightarrow> L1BlockRef) \<Rightarrow> 'p FrameQueue \<Rightarrow> L1BlockRef" where
  "FrameQueue_Origin prev_origin fq = prev_origin (fq_prev fq)"

definition NextFrame :: "('e \<Rightarrow> 'p \<Rightarrow> (bytes res \<times> 'p) go) \<Rightarrow> 'e \<Rightarrow> 'p FrameQueue
    \<Rightarrow> (Frame res \<times> 'p FrameQueue) go" where
  "NextFrame nextData env fq =
     (let deliver = (\<lambda>fq. case fq_frames fq of
                            [] \<Rightarrow> Some (Inl NotEnoughData, fq)
                          | ret # rest \<Rightarrow> Some (Inr ret, fq\<lparr>fq_frames := rest\<rparr>)) in
      if length (fq_frames fq) = 0 then
        (case nextData env (fq_prev fq) of
           None \<Rightarrow> None
         | Some (Inl err, prev) \<Rightarrow> Some (Inl err, fq\<lparr>fq_prev := prev\<rparr>)
         | Some (Inr data, prev) \<Rightarrow>
             (let fq = fq\<lparr>fq_prev := prev\<rparr> in
              case ParseFrames data of
                Inr new \<Rightarrow> deliver (fq\<lparr>fq_frames := fq_frames fq @ new\<rparr>)
              | Inl err \<Rightarrow> deliver fq))
      else deliver fq)"

definition FrameQueue_Reset :: "'p FrameQueue \<Rightarrow> gerr \<times> 'p FrameQueue" where
  "FrameQueue_Reset fq = (EOF, fq\<lparr>fq_frames := []\<rparr>)"

text \<open>Frames that are queued came out of the parser.\<close>

definition small_frame :: "Frame \<Rightarrow> bool" where
  "small_frame f \<longleftrightarrow> length (fr_Data f) \<le> MaxFrameLen"

definition FrameQueue_inv :: "('p \<Rightarrow> bool) \<Rightarrow> 'p FrameQueue \<Rightarrow> bool" where
  "FrameQueue_inv prev_inv fq \<longleftrightarrow> prev_inv (fq_prev fq) \<and> (\<forall>f \<in> set (fq_frames fq). small_frame f)"

lemma ParseFrames_small: "ParseFrames data = Inr fs \<Longrightarrow> \<forall>f \<in> set fs. small_frame f"
  by (auto simp: small_frame_def ParseFrames_def
      split: list.splits if_splits sum.splits prod.splits dest!: parseFrames_loop_InrD)

locale data_provider = stage pull origin inv
  for pull :: "'e \<Rightarrow> 's \<Rightarrow> (bytes res \<times> 's) go" and origin :: "'s \<Rightarrow> L1BlockRef" and inv :: "'s \<Rightarrow> bool"
begin

lemma NextFrame_contract:
  assumes "FrameQueue_inv inv fq"
  shows "\<exists>r fq'. NextFrame pull env fq = Some (r, fq') \<and> FrameQueue_inv inv fq'
          \<and> FrameQueue_Origin origin fq' = FrameQueue_Origin origin fq
          \<and> (\<forall>f. r = Inr f \<longrightarrow> small_frame f)"
proof (cases "fq_frames fq")
  case Nil
  have i: "inv (fq_prev fq)" using assms by (simp add: FrameQueue_inv_def)
  then show ?thesis
  proof (cases rule: pull_cases [where e = env])
    case (error err s')
    then show ?thesis using Nil by (simp add: NextFrame_def FrameQueue_inv_def FrameQueue_Origin_def)
  next
    case (data d s')
    then show ?thesis using Nil ParseFrames_small [of d]
      by (auto simp: NextFrame_def FrameQueue_inv_def FrameQueue_Origin_def Let_def
          split: sum.splits list.splits)
  qed
next
  case (Cons f fs)
  then show ?thesis using assms by (simp add: NextFrame_def FrameQueue_inv_def FrameQueue_Origin_def)
qed

end

locale frame_provider = stage pull origin inv
  for pull :: "'e \<Rightarrow> 's \<Rightarrow> (Frame res \<times> 's) go" and origin :: "'s \<Rightarrow> L1BlockRef" and inv :: "'s \<Rightarrow> bool" +
  assumes pull_small: "inv s \<Longrightarrow> pull e s = Some (Inr f, s') \<Longrightarrow> small_frame f"

interpretation l1r_data: data_provider L1Retrieval_NextData L1Retrieval_Origin L1Retrieval_inv
  by unfold_locales

interpretation fq: frame_provider "NextFrame L1Retrieval_NextData"
    "FrameQueue_Origin L1Retrieval_Origin" "FrameQueue_inv L1Retrieval_inv"
proof
  fix s :: "L1Retrieval FrameQueue" and e :: L1Env
  assume i: "FrameQueue_inv L1Retrieval_inv s"
  show "\<exists>r s'. NextFrame L1Retrieval_NextData e s = Some (r, s') \<and> FrameQueue_inv L1Retrieval_inv s'
          \<and> FrameQueue_Origin L1Retrieval_Origin s' = FrameQueue_Origin L1Retrieval_Origin s"
    using l1r_data.NextFrame_contract [OF i] by blast
  fix f s'
  assume "NextFrame L1Retrieval_NextData e s = Some (Inr f, s')"
  then show "small_frame f" using l1r_data.NextFrame_contract [OF i, of e] by auto
qed

end
