(* ===== verification/ChannelBank.thy ===== *)
theory ChannelBank
  imports Stages
begin

text \<open>
  The channel bank (op-node/rollup/derive/channel_bank.go): channels by id and their queue in the
  order they were opened, reading the first channel that is ready, and pruning from the head of
  the queue. A read of a missing map entry dereferences a nil pointer, an index beyond the queue
  panics: both are \<open>None\<close>.
\<close>

section \<open>State and operations\<close>

record 'p ChannelBank =
  cb_config :: Config
  cb_channels :: "(ChannelID \<times> Channel) list"
  cb_channelQueue :: "ChannelID list"
  cb_prev :: 'p

definition NewChannelBank :: "Config \<Rightarrow> 'p \<Rightarrow> 'p ChannelBank" where
  "NewChannelBank cfg prev =
     \<lparr>cb_config = cfg, cb_channels = [], cb_channelQueue = [], cb_prev = prev\<rparr>"

definition ChannelBank_Origin :: "('p \<Rightarrow> L1BlockRef) \<Rightarrow> 'p ChannelBank \<Rightarrow> L1BlockRef" where
  "ChannelBank_Origin prev_origin cb = prev_origin (cb_prev cb)"

fun prune_loop :: "u64 \<Rightarrow> u64 \<Rightarrow> ChannelID list \<Rightarrow> (ChannelID \<times> Channel) list
    \<Rightarrow> (ChannelID list \<times> (ChannelID \<times> Channel) list) go" where
  "prune_loop maxSize totalSize [] channels =
     (if totalSize > maxSize then None else Some ([], channels))"
| "prune_loop maxSize totalSize (cid # queue) channels =
     (if totalSize > maxSize then
        (case map_of channels cid of
           None \<Rightarrow> None
         | Some ch \<Rightarrow> prune_loop maxSize (totalSize - ch_size ch) queue (AList.delete cid channels))
      else Some (cid # queue, channels))"

definition prune :: "L1BlockRef \<Rightarrow> 'p ChannelBank \<Rightarrow> 'p ChannelBank go" where
  "prune origin cb =
     (let totalSize = sum_list (map (ch_size \<circ> snd) (cb_channels cb)) in
      case prune_loop (MaxChannelBankSize (cb_config cb) (l1_Time origin)) totalSize
             (cb_channelQueue cb) (cb_channels cb) of
        None \<Rightarrow> None
      | Some (queue, channels) \<Rightarrow> Some (cb\<lparr>cb_channelQueue := queue, cb_channels := channels\<rparr>))"

definition timedOut :: "Config \<Rightarrow> L1BlockRef \<Rightarrow> Channel \<Rightarrow> bool" where
  "timedOut cfg origin ch \<longleftrightarrow> OpenBlockNumber ch + cfg_ChannelTimeout cfg < l1_Number origin"

definition IngestFrame :: "L1BlockRef \<Rightarrow> Frame \<Rightarrow> 'p ChannelBank \<Rightarrow> 'p ChannelBank go" where
  "IngestFrame origin f cb =
     (let (currentCh, cb) =
        (case map_of (cb_channels cb) (fr_ID f) of
           Some ch \<Rightarrow> (ch, cb)
         | None \<Rightarrow>
             (let ch = NewChannel (fr_ID f) origin in
              (ch, cb\<lparr>cb_channels := AList.update (fr_ID f) ch (cb_channels cb),
                     cb_channelQueue := cb_channelQueue cb @ [fr_ID f]\<rparr>))) in
      if timedOut (cb_config cb) origin currentCh then Some cb
      else
        (case AddFrame currentCh f origin of
           (_, Some err) \<Rightarrow> Some cb
         | (ch, None) \<Rightarrow>
             prune origin (cb\<lparr>cb_channels := AList.update (fr_ID f) ch (cb_channels cb)\<rparr>)))"

definition tryReadChannelAtIndex ::
    "L1BlockRef \<Rightarrow> nat \<Rightarrow> 'p ChannelBank \<Rightarrow> (bytes res \<times> 'p ChannelBank) go" where
  "tryReadChannelAtIndex origin i cb =
     (if i \<ge> length (cb_channelQueue cb) then None
      else
        (let chanID = cb_channelQueue cb ! i in
         case map_of (cb_channels cb) chanID of
           None \<Rightarrow> None
         | Some ch \<Rightarrow>
             if timedOut (cb_config cb) origin ch \<or> \<not> IsReady ch then Some (Inl EOF, cb)
             else
               (case Reader ch of
                  None \<Rightarrow> None
                | Some data \<Rightarrow>
                    Some (Inr data,
                      cb\<lparr>cb_channels := AList.delete chanID (cb_channels cb),
                         cb_channelQueue := take i (cb_channelQueue cb)
                                            @ drop (i + 1) (cb_channelQueue cb)\<rparr>))))"

text \<open>The loop over the queue from index \<open>i\<close> on; \<open>n\<close> indices are left.\<close>

fun read_loop :: "L1BlockRef \<Rightarrow> nat \<Rightarrow> nat \<Rightarrow> 'p ChannelBank \<Rightarrow> (bytes res \<times> 'p ChannelBank) go" where
  "read_loop origin 0 i cb = Some (Inl EOF, cb)"
| "read_loop origin (Suc n) i cb =
     (case tryReadChannelAtIndex origin i cb of
        None \<Rightarrow> None
      | Some (Inr data, cb) \<Rightarrow> Some (Inr data, cb)
      | Some (Inl err, cb) \<Rightarrow> read_loop origin n (i + 1) cb)"

definition ChannelBank_Read :: "L1BlockRef \<Rightarrow> 'p ChannelBank \<Rightarrow> (bytes res \<times> 'p ChannelBank) go" where
  "ChannelBank_Read origin cb =
     (case cb_channelQueue cb of
        [] \<Rightarrow> Some (Inl EOF, cb)
      | first # queue \<Rightarrow>
          (case map_of (cb_channels cb) first of
             None \<Rightarrow> None
           | Some ch \<Rightarrow>
               if timedOut (cb_config cb) origin ch then
                 Some (Inr [], cb\<lparr>cb_channels := AList.delete first (cb_channels cb),
                                 cb_channelQueue := queue\<rparr>)
               else if \<not> IsCanyon (cb_config cb) (l1_Time origin) then tryReadChannelAtIndex origin 0 cb
               else read_loop origin (length (cb_channelQueue cb)) 0 cb))"

definition ChannelBank_NextData ::
    "('e \<Rightarrow> 'p \<Rightarrow> (Frame res \<times> 'p) go) \<Rightarrow> ('p \<Rightarrow> L1BlockRef) \<Rightarrow> 'e \<Rightarrow> 'p ChannelBank
     \<Rightarrow> (bytes res \<times> 'p ChannelBank) go" where
  "ChannelBank_NextData nextFrame prev_origin env cb =
     (case ChannelBank_Read (ChannelBank_Origin prev_origin cb) cb of
        None \<Rightarrow> None
      | Some (Inr data, cb) \<Rightarrow> Some (Inr data, cb)
      | Some (Inl err, cb) \<Rightarrow>
          if err \<noteq> EOF then Some (Inl err, cb)
          else
            (case nextFrame env (cb_prev cb) of
               None \<Rightarrow> None
             | Some (Inl err, prev) \<Rightarrow> Some (Inl err, cb\<lparr>cb_prev := prev\<rparr>)
             | Some (Inr frame, prev) \<Rightarrow>
                 (let cb = cb\<lparr>cb_prev := prev\<rparr> in
                  case IngestFrame (ChannelBank_Origin prev_origin cb) frame cb of
                    None \<Rightarrow> None
                  | Some cb \<Rightarrow> Some (Inl NotEnoughData, cb))))"

definition ChannelBank_Reset :: "'p ChannelBank \<Rightarrow> gerr \<times> 'p ChannelBank" where
  "ChannelBank_Reset cb = (EOF, cb\<lparr>cb_channels := [], cb_channelQueue := []\<rparr>)"

section \<open>The bank invariant\<close>

text \<open>The queue lists the channels of the map once each; a channel is stored under its own id; the
  sizes add up to at most the largest limit, as natural numbers.\<close>

definition channel_ok :: "Channel \<Rightarrow> bool" where
  "channel_ok ch \<longleftrightarrow> channel_inv ch \<and> (\<not> ch_closed ch \<longrightarrow> ch_size ch = frames_size ch)"

definition total_size :: "(ChannelID \<times> Channel) list \<Rightarrow> nat" where
  "total_size channels = sum_list (map (\<lambda>kc. unat (ch_size (snd kc))) channels)"

definition bank_inv :: "'p ChannelBank \<Rightarrow> bool" where
  "bank_inv cb \<longleftrightarrow>
     wf_map (cb_channels cb) \<and> distinct (cb_channelQueue cb) \<and>
     set (cb_channelQueue cb) = fst ` set (cb_channels cb) \<and>
     (\<forall>(k, ch) \<in> set (cb_channels cb). ch_id ch = k \<and> channel_ok ch) \<and>
     total_size (cb_channels cb) \<le> 1000000000"

section \<open>Sizes\<close>

lemma total_size_simps [simp]:
  "total_size [] = 0" "total_size ((k, ch) # chs) = unat (ch_size ch) + total_size chs"
  "total_size (xs @ ys) = total_size xs + total_size ys"
  by (simp_all add: total_size_def)

lemma total_size_sum:
  "total_size chs < 2 ^ 64 \<Longrightarrow> unat (sum_list (map (ch_size \<circ> snd) chs)) = total_size chs"
proof (induction chs)
  case (Cons kc chs)
  obtain k ch where kc: "kc = (k, ch)" by (cases kc)
  have "unat (sum_list (map (ch_size \<circ> snd) chs)) = total_size chs"
    by (rule Cons.IH) (use Cons.prems kc in simp)
  then show ?case using Cons.prems by (simp add: kc unat_add_small comp_def)
qed simp

lemma total_size_delete:
  "wf_map chs \<Longrightarrow> map_of chs k = Some ch \<Longrightarrow>
   total_size chs = total_size (AList.delete k chs) + unat (ch_size ch)"
  unfolding wf_map_def by (induction chs) (auto split: if_splits)

lemma total_size_update:
  "map_of chs k = Some ch \<Longrightarrow>
   total_size (AList.update k ch' chs) + unat (ch_size ch) = total_size chs + unat (ch_size ch')"
  by (induction chs) (auto split: if_splits)

lemma set_update: "set (AList.update k v m) \<subseteq> insert (k, v) (set m)"
  by (induction m) auto

lemma set_delete: "set (AList.delete k m) = {kv \<in> set m. fst kv \<noteq> k}"
  by (induction m) auto

lemma keys_delete: "fst ` set (AList.delete k m) = fst ` set m - {k}"
  by (auto simp: set_delete)

lemma keys_update: "fst ` set (AList.update k v m) = insert k (fst ` set m)"
  by (induction m) auto

section \<open>Pruning\<close>

lemma prune_loop_contract:
  assumes "wf_map chs" "distinct q" "set q = fst ` set chs" "unat tot = total_size chs"
  shows "\<exists>n chs'. prune_loop m tot q chs = Some (drop n q, chs') \<and> wf_map chs'
         \<and> set (drop n q) = fst ` set chs' \<and> set chs' \<subseteq> set chs
         \<and> total_size chs' \<le> unat m \<and> total_size chs' \<le> total_size chs"
  using assms
proof (induction q arbitrary: chs tot)
  case Nil
  then have "chs = []" "tot = 0" by (auto simp: unat_eq_0)
  then show ?case by simp
next
  case (Cons cid q)
  show ?case
  proof (cases "m < tot")
    case False
    then have "unat tot \<le> unat m" by (simp add: word_le_nat_alt not_less)
    then show ?thesis using False Cons.prems
      by (intro exI [of _ 0] exI [of _ chs]) simp
  next
    case True
    obtain ch where ch: "map_of chs cid = Some ch"
      using Cons.prems(3) by (metis list.set_intros(1) map_of_eq_None_iff not_Some_eq)
    note d = total_size_delete [OF Cons.prems(1) ch]
    have "ch_size ch \<le> tot" using d Cons.prems(4) by (simp add: word_le_nat_alt)
    then have t: "unat (tot - ch_size ch) = total_size (AList.delete cid chs)"
      using d Cons.prems(4) by (simp add: unat_sub)
    have "set q = fst ` set (AList.delete cid chs)"
      using Cons.prems(2,3) by (auto simp: keys_delete)
    then obtain n chs' where IH: "prune_loop m (tot - ch_size ch) q (AList.delete cid chs) = Some (drop n q, chs')"
        "wf_map chs'" "set (drop n q) = fst ` set chs'" "set chs' \<subseteq> set (AList.delete cid chs)"
        "total_size chs' \<le> unat m" "total_size chs' \<le> total_size (AList.delete cid chs)"
      using Cons.IH [of "AList.delete cid chs" "tot - ch_size ch"] Cons.prems t by auto
    then show ?thesis using True ch d
      by (intro exI [of _ "Suc n"] exI [of _ chs']) (auto simp: set_delete)
  qed
qed

lemma MaxChannelBankSize_bound: "unat (MaxChannelBankSize cfg t) \<le> 1000000000"
  by (simp add: MaxChannelBankSize_def)

lemma prune_contract:
  assumes "wf_map (cb_channels cb)" "distinct (cb_channelQueue cb)"
    and "set (cb_channelQueue cb) = fst ` set (cb_channels cb)"
    and "\<forall>(k, ch) \<in> set (cb_channels cb). ch_id ch = k \<and> channel_ok ch"
    and "total_size (cb_channels cb) < 2 ^ 64"
  shows "\<exists>cb'. prune origin cb = Some cb' \<and> bank_inv cb' \<and> cb_prev cb' = cb_prev cb \<and> cb_config cb' = cb_config cb
         \<and> total_size (cb_channels cb') \<le> unat (MaxChannelBankSize (cb_config cb) (l1_Time origin))"
proof -
  obtain n chs where p: "prune_loop (MaxChannelBankSize (cb_config cb) (l1_Time origin))
        (sum_list (map (ch_size \<circ> snd) (cb_channels cb))) (cb_channelQueue cb) (cb_channels cb)
      = Some (drop n (cb_channelQueue cb), chs)" "wf_map chs"
      "set (drop n (cb_channelQueue cb)) = fst ` set chs" "set chs \<subseteq> set (cb_channels cb)"
      "total_size chs \<le> unat (MaxChannelBankSize (cb_config cb) (l1_Time origin))"
    using prune_loop_contract [OF assms(1-3) total_size_sum [OF assms(5)]] by blast
  then show ?thesis
    using assms(2,4) MaxChannelBankSize_bound [of "cb_config cb" "l1_Time origin"]
    by (fastforce simp: prune_def bank_inv_def)
qed

section \<open>Ingesting a frame\<close>

lemma frameSize_small: "small_frame f \<Longrightarrow> unat (frameSize f) \<le> 1000200"
proof -
  assume "small_frame f"
  then have l: "length (fr_Data f) \<le> 1000000" by (simp add: small_frame_def MaxFrameLen_def)
  then have "unat (of_nat (length (fr_Data f)) :: u64) = length (fr_Data f)"
    by (intro unat_of_nat_u64) simp
  then show ?thesis using l
    by (simp add: frameSize_def frameOverhead_def unat_add_small)
qed

lemma unat_plus_le: "unat (a + b :: u64) \<le> unat a + unat b"
  by (simp add: unat_word_ariths)

lemma AddFrame_channel_ok:
  assumes "channel_ok ch"
  shows "channel_ok (fst (AddFrame ch f b))"
    and "unat (ch_size (fst (AddFrame ch f b))) \<le> unat (ch_size ch) + unat (frameSize f)"
proof -
  have inv: "channel_inv (fst (AddFrame ch f b))"
    using assms by (simp add: channel_ok_def AddFrame_inv)
  have "channel_ok (fst (AddFrame ch f b))
      \<and> unat (ch_size (fst (AddFrame ch f b))) \<le> unat (ch_size ch) + unat (frameSize f)"
  proof (cases "accepts ch f")
    case False
    then show ?thesis using AddFrame_rejects [OF False, of b] assms by auto
  next
    case True
    note r = AddFrame_accepts [OF True, of b]
    show ?thesis
    proof (cases "ch_closed ch")
      case True
      then have "\<not> fr_IsLast f" using \<open>accepts ch f\<close> by (simp add: accepts_def)
      then show ?thesis using r(4,9) True inv unat_plus_le [of "ch_size ch" "frameSize f"]
        by (simp add: channel_ok_def)
    next
      case False
      then have sz: "ch_size ch = frames_size ch" using assms by (simp add: channel_ok_def)
      note c = AddFrame_size_cases [OF \<open>accepts ch f\<close> sz, of b]
      show ?thesis
      proof (cases "fr_IsLast f \<and> fr_FrameNumber f < ch_highestFrameNumber ch")
        case True
        then show ?thesis using c(1) r(4) inv by (simp add: channel_ok_def)
      next
        case False
        then show ?thesis using c(2) inv unat_plus_le [of "ch_size ch" "frameSize f"]
          unfolding channel_ok_def by metis
      qed
    qed
  qed
  then show "channel_ok (fst (AddFrame ch f b))"
    and "unat (ch_size (fst (AddFrame ch f b))) \<le> unat (ch_size ch) + unat (frameSize f)" by auto
qed

lemma channel_ok_NewChannel: "channel_ok (NewChannel c b)"
  by (simp add: channel_ok_def channel_inv_NewChannel) (simp add: NewChannel_def frames_size_def)

lemma AddFrame_id: "ch_id (fst (AddFrame ch f b)) = ch_id ch"
  using AddFrame_accepts(2) [of ch f b] AddFrame_rejects [of ch f b] by (cases "accepts ch f") auto

lemma bank_inv_update:
  assumes i: "bank_inv cb" and ch: "map_of (cb_channels cb) k = Some ch"
    and ok: "channel_ok ch'" "ch_id ch' = k"
  shows "wf_map (AList.update k ch' (cb_channels cb))"
    and "set (cb_channelQueue cb) = fst ` set (AList.update k ch' (cb_channels cb))"
    and "\<forall>(k, ch) \<in> set (AList.update k ch' (cb_channels cb)). ch_id ch = k \<and> channel_ok ch"
proof -
  show "wf_map (AList.update k ch' (cb_channels cb))" using i by (simp add: bank_inv_def)
  have "k \<in> fst ` set (cb_channels cb)" using ch by (force dest: map_of_SomeD)
  then show "set (cb_channelQueue cb) = fst ` set (AList.update k ch' (cb_channels cb))"
    using i by (auto simp: bank_inv_def keys_update)
  show "\<forall>(k, ch) \<in> set (AList.update k ch' (cb_channels cb)). ch_id ch = k \<and> channel_ok ch"
    using i ok set_update [of k ch' "cb_channels cb"] by (fastforce simp: bank_inv_def)
qed

text \<open>Opening a channel for the frame's id when there is none.\<close>

definition opened :: "L1BlockRef \<Rightarrow> ChannelID \<Rightarrow> 'p ChannelBank \<Rightarrow> Channel \<times> 'p ChannelBank" where
  "opened origin cid cb =
     (case map_of (cb_channels cb) cid of
        Some ch \<Rightarrow> (ch, cb)
      | None \<Rightarrow>
          (let ch = NewChannel cid origin in
           (ch, cb\<lparr>cb_channels := AList.update cid ch (cb_channels cb),
                  cb_channelQueue := cb_channelQueue cb @ [cid]\<rparr>)))"

lemma opened_inv:
  assumes "bank_inv cb" "opened origin cid cb = (ch, cb')"
  shows "bank_inv cb' \<and> map_of (cb_channels cb') cid = Some ch \<and> channel_ok ch \<and> ch_id ch = cid
       \<and> cb_prev cb' = cb_prev cb \<and> cb_config cb' = cb_config cb"
proof (cases "map_of (cb_channels cb) cid")
  case (Some c)
  then have "(cid, ch) \<in> set (cb_channels cb)" "cb' = cb" using assms(2)
    by (auto simp: opened_def dest: map_of_SomeD)
  then show ?thesis using assms Some by (auto simp: opened_def bank_inv_def)
next
  case None
  have f: "cid \<notin> fst ` set (cb_channels cb)" using None by (simp add: map_of_eq_None_iff)
  have eq: "cb' = cb\<lparr>cb_channels := cb_channels cb @ [(cid, ch)], cb_channelQueue := cb_channelQueue cb @ [cid]\<rparr>"
    and ch: "ch = NewChannel cid origin"
    using assms(2) None by (auto simp: opened_def Let_def update_fresh [OF f])
  have n: "channel_ok ch" "ch_id ch = cid" "ch_size ch = 0"
    unfolding ch by (rule channel_ok_NewChannel) (simp_all add: NewChannel_def)
  have "wf_map (cb_channels cb @ [(cid, ch)])"
    using assms(1) f by (auto simp: bank_inv_def wf_map_def)
  moreover have "map_of (cb_channels cb @ [(cid, ch)]) cid = Some ch" using None by (simp add: map_add_def)
  ultimately show ?thesis
    using assms(1) f n by (auto simp: eq bank_inv_def)
qed

lemma IngestFrame_opened:
  "IngestFrame origin f cb =
     (case opened origin (fr_ID f) cb of
        (currentCh, cb) \<Rightarrow>
          if timedOut (cb_config cb) origin currentCh then Some cb
          else
            (case AddFrame currentCh f origin of
               (_, Some err) \<Rightarrow> Some cb
             | (ch, None) \<Rightarrow>
                 prune origin (cb\<lparr>cb_channels := AList.update (fr_ID f) ch (cb_channels cb)\<rparr>)))"
  by (simp add: IngestFrame_def opened_def Let_def)

lemma IngestFrame_contract:
  assumes i: "bank_inv cb" and f: "small_frame f"
  shows "\<exists>cb'. IngestFrame origin f cb = Some cb' \<and> bank_inv cb'
         \<and> cb_prev cb' = cb_prev cb \<and> cb_config cb' = cb_config cb"
proof -
  obtain ch cb1 where o: "opened origin (fr_ID f) cb = (ch, cb1)" by fastforce
  note O = opened_inv [OF i o]
  obtain ch' e where a: "AddFrame ch f origin = (ch', e)" by fastforce
  show ?thesis
  proof (cases "timedOut (cb_config cb1) origin ch \<or> e \<noteq> None")
    case True
    then show ?thesis using o a O by (auto simp: IngestFrame_opened)
  next
    case False
    let ?chs = "AList.update (fr_ID f) ch' (cb_channels cb1)"
    have ok: "channel_ok ch'" "ch_id ch' = fr_ID f"
        "unat (ch_size ch') \<le> unat (ch_size ch) + unat (frameSize f)"
      using AddFrame_channel_ok [of ch f origin] AddFrame_id [of ch f origin] O a by auto
    have b: "bank_inv cb1" "map_of (cb_channels cb1) (fr_ID f) = Some ch" using O by auto
    note U = bank_inv_update [OF b ok(1,2)]
    have "total_size ?chs \<le> total_size (cb_channels cb1) + 1000200"
      using total_size_update [OF b(2), of ch'] ok(3) frameSize_small [OF f] by simp
    then have sz: "total_size ?chs < 2 ^ 64" using b(1) by (simp add: bank_inv_def)
    have d: "distinct (cb_channelQueue cb1)" using b(1) by (simp add: bank_inv_def)
    obtain cb' where "prune origin (cb1\<lparr>cb_channels := ?chs\<rparr>) = Some cb'" "bank_inv cb'"
        "cb_prev cb' = cb_prev cb1" "cb_config cb' = cb_config cb1"
      using prune_contract [of "cb1\<lparr>cb_channels := ?chs\<rparr>" origin] U d sz by auto
    then show ?thesis using False o a O by (simp add: IngestFrame_opened)
  qed
qed

section \<open>Reading\<close>

lemma bank_inv_lookup:
  "bank_inv cb \<Longrightarrow> c \<in> set (cb_channelQueue cb) \<Longrightarrow> \<exists>ch. map_of (cb_channels cb) c = Some ch"
  unfolding bank_inv_def by (metis map_of_eq_None_iff not_Some_eq)

lemma bank_inv_remove:
  assumes "bank_inv cb" "i < length (cb_channelQueue cb)"
  shows "bank_inv (cb\<lparr>cb_channels := AList.delete (cb_channelQueue cb ! i) (cb_channels cb),
           cb_channelQueue := take i (cb_channelQueue cb) @ drop (Suc i) (cb_channelQueue cb)\<rparr>)"
proof -
  let ?q = "cb_channelQueue cb" and ?c = "cb_channelQueue cb ! i"
  have q: "?q = take i ?q @ ?c # drop (Suc i) ?q" by (rule id_take_nth_drop [OF assms(2)])
  have d: "distinct ?q" using assms(1) by (simp add: bank_inv_def)
  have d': "distinct (take i ?q @ ?c # drop (Suc i) ?q)" using d q by simp
  have "set (take i ?q @ drop (Suc i) ?q) = set ?q - {?c}"
    using d' arg_cong [OF q, of set] by auto
  moreover obtain ch where "map_of (cb_channels cb) ?c = Some ch"
    using bank_inv_lookup [OF assms(1)] assms(2) nth_mem by blast
  then have "total_size (AList.delete ?c (cb_channels cb)) \<le> total_size (cb_channels cb)"
    using total_size_delete assms(1) by (fastforce simp: bank_inv_def)
  ultimately show ?thesis
    using assms(1) d' by (auto simp: bank_inv_def keys_delete set_delete)
qed

lemma tryRead_contract:
  assumes "bank_inv cb" "i < length (cb_channelQueue cb)"
  obtains (skip) ch where "tryReadChannelAtIndex origin i cb = Some (Inl EOF, cb)"
      "map_of (cb_channels cb) (cb_channelQueue cb ! i) = Some ch"
      "timedOut (cb_config cb) origin ch \<or> \<not> IsReady ch"
  | (read) ch data cb' where "tryReadChannelAtIndex origin i cb = Some (Inr data, cb')"
      "map_of (cb_channels cb) (cb_channelQueue cb ! i) = Some ch" "IsReady ch"
      "\<not> timedOut (cb_config cb) origin ch" "Reader ch = Some data" "bank_inv cb'"
      "cb' = cb\<lparr>cb_channels := AList.delete (cb_channelQueue cb ! i) (cb_channels cb),
           cb_channelQueue := take i (cb_channelQueue cb) @ drop (Suc i) (cb_channelQueue cb)\<rparr>"
proof -
  obtain ch where ch: "map_of (cb_channels cb) (cb_channelQueue cb ! i) = Some ch"
    using bank_inv_lookup [OF assms(1)] assms(2) nth_mem by blast
  show ?thesis
  proof (cases "timedOut (cb_config cb) origin ch \<or> \<not> IsReady ch")
    case True
    then show ?thesis using ch assms(2) by (intro skip) (auto simp: tryReadChannelAtIndex_def)
  next
    case False
    then obtain data where "Reader ch = Some data" using Reader_ready by blast
    then show ?thesis using False ch assms(2) bank_inv_remove [OF assms]
      by (intro read) (auto simp: tryReadChannelAtIndex_def Let_def)
  qed
qed

definition readable :: "L1BlockRef \<Rightarrow> 'p ChannelBank \<Rightarrow> nat \<Rightarrow> bool" where
  "readable origin cb i =
     (case map_of (cb_channels cb) (cb_channelQueue cb ! i) of
        None \<Rightarrow> False
      | Some ch \<Rightarrow> IsReady ch \<and> \<not> timedOut (cb_config cb) origin ch)"

text \<open>The bank without the channel at a position of the queue.\<close>

definition without :: "nat \<Rightarrow> 'p ChannelBank \<Rightarrow> 'p ChannelBank" where
  "without i cb =
     cb\<lparr>cb_channels := AList.delete (cb_channelQueue cb ! i) (cb_channels cb),
        cb_channelQueue := take i (cb_channelQueue cb) @ drop (Suc i) (cb_channelQueue cb)\<rparr>"

definition reads_at :: "L1BlockRef \<Rightarrow> 'p ChannelBank \<Rightarrow> nat \<Rightarrow> bytes \<Rightarrow> bool" where
  "reads_at origin cb i data \<longleftrightarrow>
     readable origin cb i \<and> Reader (the (map_of (cb_channels cb) (cb_channelQueue cb ! i))) = Some data"

lemma tryRead_cases:
  assumes "bank_inv cb" "i < length (cb_channelQueue cb)"
  shows "(tryReadChannelAtIndex origin i cb = Some (Inl EOF, cb) \<and> \<not> readable origin cb i) \<or>
         (\<exists>data. tryReadChannelAtIndex origin i cb = Some (Inr data, without i cb)
            \<and> bank_inv (without i cb) \<and> reads_at origin cb i data)"
  using assms by (cases rule: tryRead_contract [where origin = origin])
    (auto simp: readable_def reads_at_def without_def)

lemma read_loop_cases:
  "bank_inv cb \<Longrightarrow> i + n \<le> length (cb_channelQueue cb) \<Longrightarrow>
   (read_loop origin n i cb = Some (Inl EOF, cb) \<and> (\<forall>j. i \<le> j \<and> j < i + n \<longrightarrow> \<not> readable origin cb j)) \<or>
   (\<exists>j data. read_loop origin n i cb = Some (Inr data, without j cb) \<and> i \<le> j \<and> j < i + n
      \<and> bank_inv (without j cb) \<and> reads_at origin cb j data \<and> (\<forall>k. i \<le> k \<and> k < j \<longrightarrow> \<not> readable origin cb k))"
proof (induction n arbitrary: i)
  case (Suc n)
  have i: "i < length (cb_channelQueue cb)" using Suc.prems by simp
  from tryRead_cases [OF Suc.prems(1) i, of origin] show ?case
  proof (elim disjE conjE exE)
    assume t: "tryReadChannelAtIndex origin i cb = Some (Inl EOF, cb)" and nr: "\<not> readable origin cb i"
    have ext: "\<forall>j. i \<le> j \<and> j < m \<longrightarrow> \<not> readable origin cb j" if "\<forall>j. i + 1 \<le> j \<and> j < m \<longrightarrow> \<not> readable origin cb j" for m
      using that nr by (metis Suc_eq_plus1 Suc_leI le_neq_implies_less)
    from Suc.IH [of "i + 1"] Suc.prems
    have "(read_loop origin n (i + 1) cb = Some (Inl EOF, cb) \<and> (\<forall>j. i + 1 \<le> j \<and> j < i + 1 + n \<longrightarrow> \<not> readable origin cb j)) \<or>
     (\<exists>j data. read_loop origin n (i + 1) cb = Some (Inr data, without j cb) \<and> i + 1 \<le> j \<and> j < i + 1 + n
      \<and> bank_inv (without j cb) \<and> reads_at origin cb j data \<and> (\<forall>k. i + 1 \<le> k \<and> k < j \<longrightarrow> \<not> readable origin cb k))"
      by simp
    then show ?thesis
    proof (elim disjE conjE exE)
      assume "read_loop origin n (i + 1) cb = Some (Inl EOF, cb)"
        and "\<forall>j. i + 1 \<le> j \<and> j < i + 1 + n \<longrightarrow> \<not> readable origin cb j"
      then show ?thesis using t ext [of "i + Suc n"] by simp
    next
      fix j data assume "read_loop origin n (i + 1) cb = Some (Inr data, without j cb)"
        "i + 1 \<le> j" "j < i + 1 + n" "bank_inv (without j cb)" "reads_at origin cb j data"
        "\<forall>k. i + 1 \<le> k \<and> k < j \<longrightarrow> \<not> readable origin cb k"
      then show ?thesis using t ext [of j] by (intro disjI2 exI [of _ j] exI [of _ data]) simp
    qed
  next
    fix data assume "tryReadChannelAtIndex origin i cb = Some (Inr data, without i cb)"
      "bank_inv (without i cb)" "reads_at origin cb i data"
    then show ?thesis by (intro disjI2 exI [of _ i] exI [of _ data]) auto
  qed
qed auto

definition head_timed_out :: "L1BlockRef \<Rightarrow> 'p ChannelBank \<Rightarrow> bool" where
  "head_timed_out origin cb =
     (case cb_channelQueue cb of
        [] \<Rightarrow> False
      | c # _ \<Rightarrow> (case map_of (cb_channels cb) c of
                   None \<Rightarrow> False | Some ch \<Rightarrow> timedOut (cb_config cb) origin ch))"

definition read_range :: "L1BlockRef \<Rightarrow> 'p ChannelBank \<Rightarrow> nat" where
  "read_range origin cb =
     (if IsCanyon (cb_config cb) (l1_Time origin) then length (cb_channelQueue cb)
      else min 1 (length (cb_channelQueue cb)))"

lemma ChannelBank_Read_cases:
  assumes i: "bank_inv cb"
  obtains
    (timeout) "head_timed_out origin cb" "ChannelBank_Read origin cb = Some (Inr [], without 0 cb)"
      "bank_inv (without 0 cb)"
  | (idle) "\<not> head_timed_out origin cb" "ChannelBank_Read origin cb = Some (Inl EOF, cb)"
      "\<forall>j < read_range origin cb. \<not> readable origin cb j"
  | (channel) j data where "\<not> head_timed_out origin cb"
      "ChannelBank_Read origin cb = Some (Inr data, without j cb)" "j < read_range origin cb"
      "reads_at origin cb j data" "\<forall>k < j. \<not> readable origin cb k" "bank_inv (without j cb)"
proof (cases "cb_channelQueue cb")
  case Nil
  show ?thesis by (rule idle) (simp_all add: Nil ChannelBank_Read_def head_timed_out_def read_range_def)
next
  case (Cons c q)
  then obtain ch where ch: "map_of (cb_channels cb) c = Some ch"
    using bank_inv_lookup [OF i, of c] by auto
  show ?thesis
  proof (cases "timedOut (cb_config cb) origin ch")
    case True
    then show ?thesis using Cons ch bank_inv_remove [OF i, of 0]
      by (intro timeout) (simp_all add: ChannelBank_Read_def head_timed_out_def without_def)
  next
    case False
    then have h: "\<not> head_timed_out origin cb" using Cons ch by (simp add: head_timed_out_def)
    show ?thesis
    proof (cases "IsCanyon (cb_config cb) (l1_Time origin)")
      case True
      then have r: "ChannelBank_Read origin cb = read_loop origin (length (cb_channelQueue cb)) 0 cb"
        and rg: "read_range origin cb = length (cb_channelQueue cb)"
        using Cons ch False by (simp_all add: ChannelBank_Read_def read_range_def)
      from read_loop_cases [OF i, of 0 "length (cb_channelQueue cb)" origin] show ?thesis
        using idle [OF h] channel [OF h] r rg by auto
    next
      case nc: False
      then have r: "ChannelBank_Read origin cb = tryReadChannelAtIndex origin 0 cb"
        and rg: "read_range origin cb = 1"
        using Cons ch False by (simp_all add: ChannelBank_Read_def read_range_def)
      from tryRead_cases [OF i, of 0 origin] Cons show ?thesis
        using idle [OF h] channel [OF h, of _ 0] r rg by auto
    qed
  qed
qed

section \<open>The bank as a stage\<close>

definition ChannelBank_inv :: "('p \<Rightarrow> bool) \<Rightarrow> 'p ChannelBank \<Rightarrow> bool" where
  "ChannelBank_inv prev_inv cb \<longleftrightarrow> bank_inv cb \<and> prev_inv (cb_prev cb)"

lemma bank_inv_prev [simp]: "bank_inv (cb\<lparr>cb_prev := p\<rparr>) = bank_inv cb"
  by (simp add: bank_inv_def)

lemma without_prev [simp]: "cb_prev (without i cb) = cb_prev cb"
  by (simp add: without_def)

context frame_provider
begin

lemma NextData_contract:
  assumes i: "ChannelBank_inv inv cb"
  shows "\<exists>r cb'. ChannelBank_NextData pull origin e cb = Some (r, cb') \<and> ChannelBank_inv inv cb'
          \<and> ChannelBank_Origin origin cb' = ChannelBank_Origin origin cb"
proof -
  have b: "bank_inv cb" and p: "inv (cb_prev cb)" using i by (simp_all add: ChannelBank_inv_def)
  from b show ?thesis
  proof (cases rule: ChannelBank_Read_cases [where origin = "ChannelBank_Origin origin cb"])
    case timeout
    then show ?thesis using p
      by (simp add: ChannelBank_NextData_def ChannelBank_inv_def ChannelBank_Origin_def)
  next
    case (channel j data)
    then show ?thesis using p
      by (simp add: ChannelBank_NextData_def ChannelBank_inv_def ChannelBank_Origin_def)
  next
    case idle
    have o: "ChannelBank_Origin origin (cb\<lparr>cb_prev := s'\<rparr>) = ChannelBank_Origin origin cb"
      if "origin s' = origin (cb_prev cb)" for s'
      using that by (simp add: ChannelBank_Origin_def)
    from p show ?thesis
    proof (cases rule: pull_cases [where e = e])
      case (error err s')
      then show ?thesis using idle b o [of s']
        by (simp add: ChannelBank_NextData_def ChannelBank_inv_def)
    next
      case (data f s')
      have "small_frame f" by (rule pull_small [OF p data(1)])
      then obtain cb' where "IngestFrame (ChannelBank_Origin origin cb) f (cb\<lparr>cb_prev := s'\<rparr>) = Some cb'"
          "bank_inv cb'" "cb_prev cb' = s'"
        using IngestFrame_contract [of "cb\<lparr>cb_prev := s'\<rparr>"] b by fastforce
      then show ?thesis using idle data o [of s']
        by (simp add: ChannelBank_NextData_def ChannelBank_inv_def) (simp add: ChannelBank_Origin_def)
    qed
  qed
qed

end

interpretation cb: data_provider "ChannelBank_NextData (NextFrame L1Retrieval_NextData) (FrameQueue_Origin L1Retrieval_Origin)"
    "ChannelBank_Origin (FrameQueue_Origin L1Retrieval_Origin)"
    "ChannelBank_inv (FrameQueue_inv L1Retrieval_inv)"
  by unfold_locales (rule fq.NextData_contract)

section \<open>What the bank guarantees\<close>

text \<open>Read serves the first channel of the queue that is complete and not timed out (only the
  head of the queue before Canyon), removes exactly that channel, and reports that there is
  nothing to read only if no channel it may serve is complete; a head that has timed out is
  dropped first, whatever is behind it.\<close>

theorem ChannelBank_Read_first:
  assumes "bank_inv cb" and "ChannelBank_Read origin cb = Some (r, cb')"
  shows "(if head_timed_out origin cb then r = Inr [] \<and> cb' = without 0 cb
          else case r of
            Inl err \<Rightarrow> err = EOF \<and> cb' = cb \<and> (\<forall>j < read_range origin cb. \<not> readable origin cb j)
          | Inr data \<Rightarrow> \<exists>j < read_range origin cb. reads_at origin cb j data \<and> cb' = without j cb
                        \<and> (\<forall>k < j. \<not> readable origin cb k))"
  using assms(1)
  by (cases rule: ChannelBank_Read_cases [where origin = origin]) (use assms(2) in auto)

definition one_channel_bank :: "nat ChannelBank" where
  "one_channel_bank =
     \<lparr>cb_config = OPBNBMainnet,
      cb_channels = [(7, fst (AddFrame (NewChannel 7 zero_L1BlockRef)
         \<lparr>fr_ID = 7, fr_FrameNumber = 0, fr_Data = [1, 2], fr_IsLast = True\<rparr> zero_L1BlockRef))],
      cb_channelQueue = [7], cb_prev = 0\<rparr>"

lemma one_channel_bank_inv: "bank_inv one_channel_bank"
proof -
  let ?f = "\<lparr>fr_ID = 7, fr_FrameNumber = 0, fr_Data = [1, 2], fr_IsLast = True\<rparr> :: Frame"
  have "channel_ok (fst (AddFrame (NewChannel 7 zero_L1BlockRef) ?f zero_L1BlockRef))"
    by (rule AddFrame_channel_ok(1)) (rule channel_ok_NewChannel)
  moreover have "unat (ch_size (fst (AddFrame (NewChannel 7 zero_L1BlockRef) ?f zero_L1BlockRef))) \<le> 0 + 1000200"
    using AddFrame_channel_ok(2) [OF channel_ok_NewChannel, of 7 zero_L1BlockRef ?f zero_L1BlockRef]
      frameSize_small [of ?f] by (simp add: NewChannel_def small_frame_def MaxFrameLen_def)
  ultimately show ?thesis
    by (simp add: one_channel_bank_def bank_inv_def wf_map_def AddFrame_id) (simp add: NewChannel_def)
qed

theorem ChannelBank_Read_first_witness:
  "\<exists>j < read_range zero_L1BlockRef one_channel_bank. reads_at zero_L1BlockRef one_channel_bank j [1, 2]"
proof -
  have r: "ChannelBank_Read zero_L1BlockRef one_channel_bank =
      Some (Inr [1, 2], one_channel_bank\<lparr>cb_channels := [], cb_channelQueue := []\<rparr>)"
    by (simp add: one_channel_bank_def ChannelBank_Read_def AddFrame_def NewChannel_def Let_def timedOut_def
        OpenBlockNumber_def zero_L1BlockRef_def IsCanyon_def OPBNBMainnet_def tryReadChannelAtIndex_def
        IsReady_def Reader_def)
  have "\<not> head_timed_out zero_L1BlockRef one_channel_bank"
    by (simp add: head_timed_out_def one_channel_bank_def timedOut_def OpenBlockNumber_def AddFrame_def
        NewChannel_def Let_def zero_L1BlockRef_def)
  then show ?thesis
    using ChannelBank_Read_first [OF one_channel_bank_inv r] by auto
qed

abbreviation derivation_bank ::
    "L1Env \<Rightarrow> L1Retrieval FrameQueue ChannelBank \<Rightarrow> (bytes res \<times> L1Retrieval FrameQueue ChannelBank) go" where
  "derivation_bank \<equiv>
     ChannelBank_NextData (NextFrame L1Retrieval_NextData) (FrameQueue_Origin L1Retrieval_Origin)"

abbreviation new_bank :: "Config \<Rightarrow> DataSourceFactory \<Rightarrow> L1Retrieval FrameQueue ChannelBank" where
  "new_bank cfg src \<equiv> NewChannelBank cfg (NewFrameQueue (NewL1Retrieval src NewL1Traversal))"

lemma new_bank_inv: "ChannelBank_inv (FrameQueue_inv L1Retrieval_inv) (new_bank cfg src)"
  by (simp add: ChannelBank_inv_def FrameQueue_inv_def L1Retrieval_inv_def bank_inv_def NewChannelBank_def
      NewFrameQueue_def NewL1Retrieval_def)


end
