(* ===== verification/BatchQueue.thy ===== *)
theory BatchQueue
  imports Batches ChannelBank
begin

text \<open>
  The batch queue (op-node/rollup/derive/batch_queue.go): it orders batches, turns span batches into
  singular ones and makes empty batches when a sequence window has passed. It pulls batches from the
  stage before it; the fetcher of safe blocks answers for one call.
\<close>

section \<open>State and operations\<close>

record 'p BatchQueue =
  bq_config :: Config
  bq_prev :: 'p
  bq_origin :: L1BlockRef
  bq_l1Blocks :: "L1BlockRef list"
  bq_batches :: "BatchWithL1InclusionBlock list"
  bq_nextSpan :: "SingularBatch list"

definition NewBatchQueue :: "Config \<Rightarrow> 'p \<Rightarrow> 'p BatchQueue" where
  "NewBatchQueue cfg prev =
     \<lparr>bq_config = cfg, bq_prev = prev, bq_origin = zero_L1BlockRef, bq_l1Blocks = [], bq_batches = [],
      bq_nextSpan = []\<rparr>"

definition BatchQueue_Origin :: "('p \<Rightarrow> L1BlockRef) \<Rightarrow> 'p BatchQueue \<Rightarrow> L1BlockRef" where
  "BatchQueue_Origin prev_origin bq = prev_origin (bq_prev bq)"

definition popNextBatch :: "L2BlockRef \<Rightarrow> 'p BatchQueue \<Rightarrow> (SingularBatch \<times> 'p BatchQueue) go" where
  "popNextBatch parent bq =
     (case bq_nextSpan bq of
        [] \<Rightarrow> None
      | nextBatch # rest \<Rightarrow>
          Some (nextBatch\<lparr>sb_ParentHash := l2_Hash parent\<rparr>, bq\<lparr>bq_nextSpan := rest\<rparr>))"

definition AddBatch :: "keccak \<Rightarrow> txDecoder \<Rightarrow> SafeBlockFetcher \<Rightarrow> Batch \<Rightarrow> L2BlockRef \<Rightarrow> 'p BatchQueue
    \<Rightarrow> 'p BatchQueue go" where
  "AddBatch keccak256 decodeTx l2 batch parent bq =
     (if bq_l1Blocks bq = [] then None
      else do {
        let data = \<lparr>bw_Batch = batch, bw_L1InclusionBlock = bq_origin bq\<rparr>;
        validity \<leftarrow> CheckBatch keccak256 decodeTx (bq_config bq) (bq_l1Blocks bq) parent data l2;
        if validity = BatchDrop then Some bq
        else Some (bq\<lparr>bq_batches := bq_batches bq @ [data]\<rparr>)
      })"

text \<open>The loop over the batches: \<open>Inl\<close> when a batch is undecided, and the batches that remain.\<close>

fun batch_loop :: "keccak \<Rightarrow> txDecoder \<Rightarrow> Config \<Rightarrow> L1BlockRef list \<Rightarrow> L2BlockRef \<Rightarrow> SafeBlockFetcher
    \<Rightarrow> BatchWithL1InclusionBlock list \<Rightarrow> BatchWithL1InclusionBlock list
    \<Rightarrow> (BatchWithL1InclusionBlock list + BatchWithL1InclusionBlock option \<times> BatchWithL1InclusionBlock list) go" where
  "batch_loop keccak256 decodeTx cfg l1Blocks parent l2 remaining [] = Some (Inr (None, remaining))"
| "batch_loop keccak256 decodeTx cfg l1Blocks parent l2 remaining (batch # batches) = do {
     validity \<leftarrow> CheckBatch keccak256 decodeTx cfg l1Blocks parent batch l2;
     case validity of
       BatchFuture \<Rightarrow> batch_loop keccak256 decodeTx cfg l1Blocks parent l2 (remaining @ [batch]) batches
     | BatchDrop \<Rightarrow> batch_loop keccak256 decodeTx cfg l1Blocks parent l2 remaining batches
     | BatchAccept \<Rightarrow> Some (Inr (Some batch, remaining @ batches))
     | BatchUndecided \<Rightarrow> Some (Inl (remaining @ batch # batches))
   }"

definition empty_batch :: "L2BlockRef \<Rightarrow> L1BlockRef \<Rightarrow> u64 \<Rightarrow> SingularBatch" where
  "empty_batch parent epoch nextMilliTimestamp =
     \<lparr>sb_ParentHash = l2_Hash parent, sb_EpochNum = l1_Number epoch, sb_EpochHash = l1_Hash epoch,
      sb_Timestamp = nextMilliTimestamp, sb_Transactions = []\<rparr>"

definition forceEmptyBatches :: "Config \<Rightarrow> L1BlockRef \<Rightarrow> L1BlockRef \<Rightarrow> bool \<Rightarrow> bool" where
  "forceEmptyBatches cfg epoch origin outOfData \<longleftrightarrow>
     (let expiryEpoch = l1_Number epoch + cfg_SeqWindowSize cfg
      in expiryEpoch = l1_Number origin \<and> outOfData \<or> expiryEpoch < l1_Number origin)"

definition force_empty :: "bool \<Rightarrow> L2BlockRef \<Rightarrow> L1BlockRef \<Rightarrow> 'p BatchQueue \<Rightarrow> Batch res \<times> 'p BatchQueue" where
  "force_empty outOfData parent epoch bq =
     (let nextMilliTimestamp = NextMillisecondBlockTime (bq_config bq) (l2_MillisecondTimestamp parent);
          firstOfEpoch = (l1_Number epoch = bid_Number (l2_L1Origin parent) + 1)
      in if \<not> forceEmptyBatches (bq_config bq) epoch (bq_origin bq) outOfData then (Inl EOF, bq)
         else if length (bq_l1Blocks bq) < 2 then (Inl EOF, bq)
         else
           (let nextEpoch = bq_l1Blocks bq ! 1 in
            if nextMilliTimestamp < l1_MillisecondTimestamp nextEpoch \<or> firstOfEpoch then
              (Inr (Singular (empty_batch parent epoch nextMilliTimestamp)), bq)
            else (Inl EOF, bq\<lparr>bq_l1Blocks := tl (bq_l1Blocks bq)\<rparr>)))"

definition deriveNextBatch :: "keccak \<Rightarrow> txDecoder \<Rightarrow> SafeBlockFetcher \<Rightarrow> bool \<Rightarrow> L2BlockRef \<Rightarrow> 'p BatchQueue
    \<Rightarrow> (Batch res \<times> 'p BatchQueue) go" where
  "deriveNextBatch keccak256 decodeTx l2 outOfData parent bq =
     (case bq_l1Blocks bq of
        [] \<Rightarrow> Some (Inl (NewCriticalError (Some (Msg ''cannot derive next batch, no origin was prepared''))), bq)
      | epoch # _ \<Rightarrow>
          if l2_L1Origin parent \<noteq> l1_ID epoch \<and> bid_Number (l2_L1Origin parent) \<noteq> l1_Number epoch - 1 then
            Some (Inl (NewResetError (Some (Msg ''buffered L1 chain epoch does not match safe head origin''))), bq)
          else do {
            found \<leftarrow> batch_loop keccak256 decodeTx (bq_config bq) (bq_l1Blocks bq) parent l2 [] (bq_batches bq);
            case found of
              Inl remaining \<Rightarrow> Some (Inl EOF, bq\<lparr>bq_batches := remaining\<rparr>)
            | Inr (Some nextBatch, remaining) \<Rightarrow>
                Some (Inr (bw_Batch nextBatch), bq\<lparr>bq_batches := remaining\<rparr>)
            | Inr (None, remaining) \<Rightarrow>
                Some (force_empty outOfData parent epoch (bq\<lparr>bq_batches := remaining\<rparr>))
          })"

text \<open>The epoch moves to the origin of the parent if that is one of the known L1 blocks.\<close>

fun from_origin :: "u64 \<Rightarrow> L1BlockRef list \<Rightarrow> L1BlockRef list option" where
  "from_origin num [] = None"
| "from_origin num (b # bs) = (if num = l1_Number b then Some (b # bs) else from_origin num bs)"

definition advance_epoch :: "L2BlockRef \<Rightarrow> 'p BatchQueue \<Rightarrow> 'p BatchQueue" where
  "advance_epoch parent bq =
     (if bq_l1Blocks bq \<noteq> [] \<and> bid_Number (l2_L1Origin parent) > l1_Number (hd (bq_l1Blocks bq)) then
        (case from_origin (bid_Number (l2_L1Origin parent)) (bq_l1Blocks bq) of
           None \<Rightarrow> bq
         | Some bs \<Rightarrow> bq\<lparr>bq_l1Blocks := bs\<rparr>)
      else bq)"

definition advance_origin :: "L1BlockRef \<Rightarrow> bool \<Rightarrow> 'p BatchQueue \<Rightarrow> 'p BatchQueue" where
  "advance_origin origin originBehind bq =
     (if bq_origin bq \<noteq> origin then
        (if \<not> originBehind then bq\<lparr>bq_origin := origin, bq_l1Blocks := bq_l1Blocks bq @ [origin]\<rparr>
         else bq\<lparr>bq_origin := origin, bq_l1Blocks := []\<rparr>)
      else bq)"

text \<open>A derived batch is returned: a span batch as its blocks after the parent, the first at once.\<close>

definition deliver :: "L2BlockRef \<Rightarrow> Batch \<Rightarrow> 'p BatchQueue \<Rightarrow> ((SingularBatch \<times> bool) res \<times> 'p BatchQueue) go" where
  "deliver parent batch bq =
     (case batch of
        Singular b \<Rightarrow> Some (Inr (b, bq_nextSpan bq = []), bq)
      | Span b \<Rightarrow>
          (case GetSingularBatches b (bq_l1Blocks bq) parent of
             Inl err \<Rightarrow> Some (Inl (NewCriticalError (Some err)), bq)
           | Inr singularBatches \<Rightarrow> do {
               (nextBatch, bq) \<leftarrow> popNextBatch parent (bq\<lparr>bq_nextSpan := singularBatches\<rparr>);
               Some (Inr (nextBatch, bq_nextSpan bq = []), bq)
             }))"

definition derive_and_deliver :: "keccak \<Rightarrow> txDecoder \<Rightarrow> SafeBlockFetcher \<Rightarrow> bool \<Rightarrow> L2BlockRef \<Rightarrow> 'p BatchQueue
    \<Rightarrow> ((SingularBatch \<times> bool) res \<times> 'p BatchQueue) go" where
  "derive_and_deliver keccak256 decodeTx l2 outOfData parent bq = do {
     (derived, bq) \<leftarrow> deriveNextBatch keccak256 decodeTx l2 outOfData parent bq;
     case derived of
       Inl err \<Rightarrow>
         if err = EOF \<and> outOfData then Some (Inl EOF, bq)
         else if err = EOF then Some (Inl NotEnoughData, bq)
         else Some (Inl err, bq)
     | Inr batch \<Rightarrow> deliver parent batch bq
   }"

definition load_and_derive :: "keccak \<Rightarrow> txDecoder \<Rightarrow> ('e \<Rightarrow> 'p \<Rightarrow> (Batch res \<times> 'p) go) \<Rightarrow> ('p \<Rightarrow> L1BlockRef)
    \<Rightarrow> SafeBlockFetcher \<Rightarrow> 'e \<Rightarrow> L2BlockRef \<Rightarrow> 'p BatchQueue \<Rightarrow> ((SingularBatch \<times> bool) res \<times> 'p BatchQueue) go" where
  "load_and_derive keccak256 decodeTx nextBatch prev_origin l2 env parent bq = do {
     let bq = advance_epoch parent bq;
     let originBehind = l1_Number (prev_origin (bq_prev bq)) < bid_Number (l2_L1Origin parent);
     let bq = advance_origin (prev_origin (bq_prev bq)) originBehind bq;
     (loaded, prev) \<leftarrow> nextBatch env (bq_prev bq);
     let bq = bq\<lparr>bq_prev := prev\<rparr>;
     case loaded of
       Inl err \<Rightarrow>
         if err = EOF then
           (if originBehind then Some (Inl EOF, bq) else derive_and_deliver keccak256 decodeTx l2 True parent bq)
         else Some (Inl err, bq)
     | Inr batch \<Rightarrow>
         if originBehind then Some (Inl NotEnoughData, bq)
         else do {
           bq \<leftarrow> AddBatch keccak256 decodeTx l2 batch parent bq;
           derive_and_deliver keccak256 decodeTx l2 False parent bq
         }
   }"

definition BatchQueue_NextBatch :: "keccak \<Rightarrow> txDecoder \<Rightarrow> ('e \<Rightarrow> 'p \<Rightarrow> (Batch res \<times> 'p) go) \<Rightarrow> ('p \<Rightarrow> L1BlockRef)
    \<Rightarrow> SafeBlockFetcher \<Rightarrow> 'e \<Rightarrow> L2BlockRef \<Rightarrow> 'p BatchQueue \<Rightarrow> ((SingularBatch \<times> bool) res \<times> 'p BatchQueue) go" where
  "BatchQueue_NextBatch keccak256 decodeTx nextBatch prev_origin l2 env parent bq =
     (case bq_nextSpan bq of
        [] \<Rightarrow> load_and_derive keccak256 decodeTx nextBatch prev_origin l2 env parent bq
      | next # _ \<Rightarrow>
          if sb_Timestamp next = NextMillisecondBlockTime (bq_config bq) (l2_MillisecondTimestamp parent) then do {
            (nextBatch, bq) \<leftarrow> popNextBatch parent bq;
            Some (Inr (nextBatch, bq_nextSpan bq = []), bq)
          }
          else load_and_derive keccak256 decodeTx nextBatch prev_origin l2 env parent (bq\<lparr>bq_nextSpan := []\<rparr>))"

definition BatchQueue_Reset :: "L1BlockRef \<Rightarrow> 'p BatchQueue \<Rightarrow> gerr \<times> 'p BatchQueue" where
  "BatchQueue_Reset base bq =
     (EOF, bq\<lparr>bq_origin := base, bq_batches := [], bq_l1Blocks := [base], bq_nextSpan := []\<rparr>)"


section \<open>The loop over the batches\<close>

abbreviation verdict where
  "verdict keccak256 decodeTx l2 parent bq b \<equiv>
     CheckBatch keccak256 decodeTx (bq_config bq) (bq_l1Blocks bq) parent b l2"

definition skipped :: "BatchValidity go \<Rightarrow> bool" where
  "skipped v \<longleftrightarrow> v = Some BatchFuture \<or> v = Some BatchDrop"

lemma skipped_simps [simp]:
  "skipped (Some BatchFuture)" "skipped (Some BatchDrop)"
  "\<not> skipped (Some BatchAccept)" "\<not> skipped (Some BatchUndecided)" "\<not> skipped None"
  by (simp_all add: skipped_def)

lemma batch_loop_spec:
  assumes "\<forall>b \<in> set bs. CheckBatch keccak256 decodeTx cfg l1Blocks parent b l2 \<noteq> None"
  shows "batch_loop keccak256 decodeTx cfg l1Blocks parent l2 rem bs =
     (let v = (\<lambda>b. CheckBatch keccak256 decodeTx cfg l1Blocks parent b l2);
          kept = filter (\<lambda>b. v b = Some BatchFuture)
      in Some (case dropWhile (\<lambda>b. skipped (v b)) bs of
           [] \<Rightarrow> Inr (None, rem @ kept bs)
         | b # later \<Rightarrow>
             (let before = rem @ kept (takeWhile (\<lambda>b. skipped (v b)) bs)
              in if v b = Some BatchAccept then Inr (Some b, before @ later) else Inl (before @ b # later))))"
  using assms
proof (induction bs arbitrary: rem)
  case (Cons b bs)
  obtain v where v: "CheckBatch keccak256 decodeTx cfg l1Blocks parent b l2 = Some v" using Cons.prems by auto
  show ?case
    using Cons by (cases v) (simp_all add: v Let_def del: dropWhile_eq_Nil_conv split: list.split)
qed simp

text \<open>C16: deriveNextBatch goes over the queued batches in the order they were seen. Those to be dropped
  are removed, those for the future are kept; at the first batch that is accepted it stops and returns
  it, keeping all later ones; at the first one it cannot decide it stops and reports the end of the
  data, keeping that batch and all later ones; and only if there is neither it may make an empty batch.\<close>

theorem deriveNextBatch_in_order:
  assumes "bq_l1Blocks bq = epoch # l1Blocks"
    and "l2_L1Origin parent = l1_ID epoch \<or> bid_Number (l2_L1Origin parent) = l1_Number epoch - 1"
    and "\<forall>b \<in> set (bq_batches bq). verdict keccak256 decodeTx l2 parent bq b \<noteq> None"
  shows "deriveNextBatch keccak256 decodeTx l2 outOfData parent bq =
     (let v = verdict keccak256 decodeTx l2 parent bq;
          future = filter (\<lambda>b. v b = Some BatchFuture);
          before = takeWhile (\<lambda>b. skipped (v b)) (bq_batches bq)
      in Some (case dropWhile (\<lambda>b. skipped (v b)) (bq_batches bq) of
           [] \<Rightarrow> force_empty outOfData parent epoch (bq\<lparr>bq_batches := future (bq_batches bq)\<rparr>)
         | b # later \<Rightarrow>
             if v b = Some BatchAccept then (Inr (bw_Batch b), bq\<lparr>bq_batches := future before @ later\<rparr>)
             else (Inl EOF, bq\<lparr>bq_batches := future before @ b # later\<rparr>)))"
  unfolding deriveNextBatch_def batch_loop_spec [OF assms(3)]
  using assms(1,2) by (auto simp: Let_def simp del: dropWhile_eq_Nil_conv split: list.split)

definition queue_origin :: "u64 \<Rightarrow> u64 \<Rightarrow> L1BlockRef" where
  "queue_origin num t = zero_L1BlockRef\<lparr>l1_Number := num, l1_Time := t\<rparr>"

definition example_queue :: "nat BatchQueue" where
  "example_queue =
     \<lparr>bq_config = OPBNBTestnet, bq_prev = 0, bq_origin = queue_origin 6 1730000003,
      bq_l1Blocks = [queue_origin 5 1730000000, queue_origin 6 1730000003],
      bq_batches =
        [\<lparr>bw_Batch = Singular (empty_batch example_head (queue_origin 5 0) 1730000002000),
          bw_L1InclusionBlock = queue_origin 6 0\<rparr>,
         \<lparr>bw_Batch = Singular (empty_batch example_head (queue_origin 4 0) 1730000001000),
          bw_L1InclusionBlock = queue_origin 6 0\<rparr>,
         \<lparr>bw_Batch = Singular (empty_batch example_head (queue_origin 5 0) 1730000001000),
          bw_L1InclusionBlock = queue_origin 6 0\<rparr>],
      bq_nextSpan = []\<rparr>"

lemmas example_eval = queue_origin_def example_head_def example_origin_def zero_L1BlockRef_def empty_batch_def
  checkSingularBatch_def CheckBatch_def NextMillisecondBlockTime_def MillisecondBlockInterval_def
  l2_MillisecondTimestamp_def l1_MillisecondTimestamp_def max_time_def MaxSequencerDrift_def l1_ID_def
  IsFjord_def IsVolta_def IsFourier_def OPBNBTestnet_def

theorem deriveNextBatch_in_order_witness:
  "deriveNextBatch (\<lambda>_. 0) (\<lambda>_. Inl (Msg ''bad'')) no_fetcher False example_head example_queue =
     Some (Inr (Singular (empty_batch example_head (queue_origin 5 0) 1730000001000)),
           example_queue\<lparr>bq_batches := take 1 (bq_batches example_queue)\<rparr>)"
  by (subst deriveNextBatch_in_order [of _ "queue_origin 5 1730000000" "[queue_origin 6 1730000003]"])
    (simp_all add: example_queue_def example_eval)

section \<open>Empty batches\<close>

lemma dropWhile_Cons_split:
  assumes "dropWhile P xs = y # ys"
  shows "xs = takeWhile P xs @ y # ys" "\<not> P y" "y \<in> set xs"
proof -
  show xs: "xs = takeWhile P xs @ y # ys" using takeWhile_dropWhile_id [of P xs] assms by simp
  show "\<not> P y" using hd_dropWhile [of P xs] assms by simp
  have "y \<in> set (takeWhile P xs @ y # ys)" by simp
  with xs show "y \<in> set xs" by metis
qed

lemma batch_loop_found:
  "batch_loop keccak256 decodeTx cfg l1Blocks parent l2 rem bs = Some (Inr (Some b, remaining))
    \<Longrightarrow> b \<in> set bs \<and> CheckBatch keccak256 decodeTx cfg l1Blocks parent b l2 = Some BatchAccept
      \<and> set remaining \<subseteq> set rem \<union> set bs"
  by (induction bs arbitrary: rem)
    (fastforce split: BatchValidity.splits bind_splits)+

lemma batch_loop_none:
  "batch_loop keccak256 decodeTx cfg l1Blocks parent l2 rem bs = Some (Inr (None, remaining))
    \<Longrightarrow> (\<forall>b \<in> set bs. skipped (CheckBatch keccak256 decodeTx cfg l1Blocks parent b l2))
      \<and> set remaining \<subseteq> set rem \<union> set bs"
  by (induction bs arbitrary: rem)
    (fastforce simp: skipped_def split: BatchValidity.splits bind_splits)+

lemma batch_loop_undecided:
  "batch_loop keccak256 decodeTx cfg l1Blocks parent l2 rem bs = Some (Inl remaining)
    \<Longrightarrow> set remaining \<subseteq> set rem \<union> set bs"
  by (induction bs arbitrary: rem)
    (fastforce split: BatchValidity.splits bind_splits)+


text \<open>How deriveNextBatch ends: with an error, with a queued batch, or with an empty batch.\<close>

lemma deriveNextBatch_cases:
  assumes "deriveNextBatch keccak256 decodeTx l2 outOfData parent bq = Some (r, bq')"
  obtains
    (no_origin) "bq_l1Blocks bq = []" "bq' = bq"
      "r = Inl (NewCriticalError (Some (Msg ''cannot derive next batch, no origin was prepared'')))"
  | (mismatch) "bq_l1Blocks bq \<noteq> []" "bq' = bq"
      "r = Inl (NewResetError (Some (Msg ''buffered L1 chain epoch does not match safe head origin'')))"
      "l2_L1Origin parent \<noteq> l1_ID (hd (bq_l1Blocks bq))"
  | (undecided) remaining where "bq_l1Blocks bq \<noteq> []" "r = Inl EOF" "bq' = bq\<lparr>bq_batches := remaining\<rparr>"
      "set remaining \<subseteq> set (bq_batches bq)"
  | (found) b remaining where "bq_l1Blocks bq \<noteq> []" "b \<in> set (bq_batches bq)"
      "verdict keccak256 decodeTx l2 parent bq b = Some BatchAccept" "r = Inr (bw_Batch b)"
      "bq' = bq\<lparr>bq_batches := remaining\<rparr>" "set remaining \<subseteq> set (bq_batches bq)"
  | (empty) remaining where "bq_l1Blocks bq \<noteq> []"
      "\<forall>b \<in> set (bq_batches bq). skipped (verdict keccak256 decodeTx l2 parent bq b)"
      "(r, bq') = force_empty outOfData parent (hd (bq_l1Blocks bq)) (bq\<lparr>bq_batches := remaining\<rparr>)"
      "set remaining \<subseteq> set (bq_batches bq)"
proof (cases "bq_l1Blocks bq")
  case Nil
  then show ?thesis using assms by (intro no_origin) (simp_all add: deriveNextBatch_def)
next
  case (Cons epoch bs)
  show ?thesis
  proof (cases "l2_L1Origin parent \<noteq> l1_ID epoch \<and> bid_Number (l2_L1Origin parent) \<noteq> l1_Number epoch - 1")
    case True
    then show ?thesis using assms Cons by (intro mismatch) (simp_all add: deriveNextBatch_def)
  next
    case False
    then obtain f where f:
        "batch_loop keccak256 decodeTx (bq_config bq) (bq_l1Blocks bq) parent l2 [] (bq_batches bq) = Some f"
        "Some (r, bq') = (case f of
              Inl remaining \<Rightarrow> Some (Inl EOF, bq\<lparr>bq_batches := remaining\<rparr>)
            | Inr (Some nextBatch, remaining) \<Rightarrow>
                Some (Inr (bw_Batch nextBatch), bq\<lparr>bq_batches := remaining\<rparr>)
            | Inr (None, remaining) \<Rightarrow>
                Some (force_empty outOfData parent epoch (bq\<lparr>bq_batches := remaining\<rparr>)))"
      using assms Cons by (auto simp: deriveNextBatch_def split: bind_splits)
    show ?thesis
    proof (cases f)
      case (Inl remaining)
      then show ?thesis using f batch_loop_undecided [OF f(1) [unfolded Inl]] Cons undecided by simp
    next
      case (Inr p)
      then obtain b remaining where p: "f = Inr (b, remaining)" by (cases p) simp
      show ?thesis
      proof (cases b)
        case None
        then show ?thesis using f p batch_loop_none [OF f(1) [unfolded p None]] Cons
          by (intro empty [of remaining]) auto
      next
        case (Some b')
        then show ?thesis using f p batch_loop_found [OF f(1) [unfolded p Some]] Cons
          by (intro found [of b' remaining]) auto
      qed
    qed
  qed
qed

lemma force_empty_batch:
  assumes "(Inr batch, bq') = force_empty outOfData parent epoch bq"
  shows "batch = Singular (empty_batch parent epoch (NextMillisecondBlockTime (bq_config bq) (l2_MillisecondTimestamp parent)))"
    "forceEmptyBatches (bq_config bq) epoch (bq_origin bq) outOfData" "2 \<le> length (bq_l1Blocks bq)" "bq' = bq"
    "NextMillisecondBlockTime (bq_config bq) (l2_MillisecondTimestamp parent) < l1_MillisecondTimestamp (bq_l1Blocks bq ! 1)
      \<or> l1_Number epoch = bid_Number (l2_L1Origin parent) + 1"
  using assms by (auto simp: force_empty_def Let_def split: if_splits)


definition expired_queue :: "nat BatchQueue" where
  "expired_queue =
     \<lparr>bq_config = OPBNBTestnet, bq_prev = 0, bq_origin = queue_origin 96006 1730288000,
      bq_l1Blocks = [queue_origin 5 1730000000, queue_origin 6 1730000003], bq_batches = [], bq_nextSpan = []\<rparr>"



section \<open>The L1 blocks of the queue\<close>

definition queue_ok :: "'p BatchQueue \<Rightarrow> bool" where
  "queue_ok bq \<longleftrightarrow> consecutive (bq_l1Blocks bq) \<and> (bq_l1Blocks bq \<noteq> [] \<longrightarrow> last (bq_l1Blocks bq) = bq_origin bq)"

lemma queue_ok_simps [simp]:
  "queue_ok (bq\<lparr>bq_batches := bs\<rparr>) = queue_ok bq"
  "queue_ok (bq\<lparr>bq_nextSpan := ss\<rparr>) = queue_ok bq"
  "queue_ok (bq\<lparr>bq_prev := p\<rparr>) = queue_ok bq"
  by (simp_all add: queue_ok_def)

lemma from_origin_suffix:
  "from_origin num bs = Some r \<Longrightarrow> \<exists>n < length bs. r = drop n bs \<and> l1_Number (hd r) = num"
  by (induction bs) (fastforce split: if_splits intro: exI [of _ "Suc _"])+

lemma queue_ok_drop:
  assumes "queue_ok bq" "n < length (bq_l1Blocks bq)"
  shows "queue_ok (bq\<lparr>bq_l1Blocks := drop n (bq_l1Blocks bq)\<rparr>)"
  using assms by (auto simp: queue_ok_def consecutive_drop last_drop)

lemma advance_epoch_ok:
  assumes "queue_ok bq"
  shows "queue_ok (advance_epoch parent bq)" "bq_origin (advance_epoch parent bq) = bq_origin bq"
    "bq_prev (advance_epoch parent bq) = bq_prev bq" "bq_batches (advance_epoch parent bq) = bq_batches bq"
    "bq_config (advance_epoch parent bq) = bq_config bq" "bq_nextSpan (advance_epoch parent bq) = bq_nextSpan bq"
  using assms queue_ok_drop [OF assms]
  by (auto simp: advance_epoch_def dest!: from_origin_suffix split: option.split)

lemma advance_origin_ok:
  assumes "queue_ok bq" "origin = bq_origin bq \<or> succ_block (bq_origin bq) origin"
  shows "queue_ok (advance_origin origin behind bq)" "bq_origin (advance_origin origin behind bq) = origin"
  using assms by (auto simp: advance_origin_def queue_ok_def consecutive_snoc)

lemma advance_origin_simps [simp]:
  "bq_prev (advance_origin origin behind bq) = bq_prev bq"
  "bq_batches (advance_origin origin behind bq) = bq_batches bq"
  "bq_config (advance_origin origin behind bq) = bq_config bq"
  "bq_nextSpan (advance_origin origin behind bq) = bq_nextSpan bq"
  by (simp_all add: advance_origin_def)

lemma force_empty_ok:
  assumes "queue_ok bq" "(r, bq') = force_empty outOfData parent epoch bq"
  shows "queue_ok bq'" "bq_origin bq' = bq_origin bq" "bq_prev bq' = bq_prev bq" "bq_config bq' = bq_config bq"
    "bq_batches bq' = bq_batches bq"
  using assms queue_ok_drop [OF assms(1), of 1]
  by (auto simp: force_empty_def Let_def drop_Suc split: if_splits)

lemma deriveNextBatch_ok:
  assumes "deriveNextBatch keccak256 decodeTx l2 outOfData parent bq = Some (r, bq')" "queue_ok bq"
  shows "queue_ok bq' \<and> bq_origin bq' = bq_origin bq \<and> bq_prev bq' = bq_prev bq \<and> bq_config bq' = bq_config bq
     \<and> set (bq_batches bq') \<subseteq> set (bq_batches bq)"
  using assms(1)
proof (cases rule: deriveNextBatch_cases)
  case (empty remaining)
  note f = force_empty_ok [OF _ empty(3)]
  show ?thesis using f assms(2) empty(4) by simp
qed (use assms(2) in auto)

lemma deliver_ok:
  assumes "deliver parent batch bq = Some (r, bq')" "queue_ok bq"
  shows "queue_ok bq' \<and> bq_origin bq' = bq_origin bq \<and> bq_prev bq' = bq_prev bq \<and> bq_config bq' = bq_config bq
     \<and> bq_batches bq' = bq_batches bq"
  using assms by (auto simp: deliver_def popNextBatch_def split: Batch.splits sum.splits list.splits)

lemma derive_and_deliver_ok:
  assumes "derive_and_deliver keccak256 decodeTx l2 outOfData parent bq = Some (r, bq')" "queue_ok bq"
  shows "queue_ok bq' \<and> bq_origin bq' = bq_origin bq \<and> bq_prev bq' = bq_prev bq \<and> bq_config bq' = bq_config bq
     \<and> set (bq_batches bq') \<subseteq> set (bq_batches bq)"
proof -
  obtain d bq1 where d: "deriveNextBatch keccak256 decodeTx l2 outOfData parent bq = Some (d, bq1)"
    using assms(1) by (auto simp: derive_and_deliver_def split: bind_splits)
  note o1 = deriveNextBatch_ok [OF d assms(2)]
  show ?thesis
  proof (cases d)
    case (Inl err)
    then show ?thesis using assms(1) d o1 by (auto simp: derive_and_deliver_def split: if_splits)
  next
    case (Inr batch)
    then have "deliver parent batch bq1 = Some (r, bq')" using assms(1) d by (simp add: derive_and_deliver_def)
    from deliver_ok [OF this] o1 show ?thesis by auto
  qed
qed

lemma AddBatch_ok:
  assumes "AddBatch keccak256 decodeTx l2 batch parent bq = Some bq'" "queue_ok bq"
  shows "queue_ok bq' \<and> bq_origin bq' = bq_origin bq \<and> bq_prev bq' = bq_prev bq \<and> bq_config bq' = bq_config bq
     \<and> bq_nextSpan bq' = bq_nextSpan bq \<and> bw_Batch ` set (bq_batches bq') \<subseteq> insert batch (bw_Batch ` set (bq_batches bq))"
  using assms by (auto simp: AddBatch_def Let_def split: if_splits bind_splits)


text \<open>The queue after the L1 blocks have been brought up to date and the stage before was pulled.\<close>

definition pulled_queue :: "('p \<Rightarrow> L1BlockRef) \<Rightarrow> L2BlockRef \<Rightarrow> 'p \<Rightarrow> 'p BatchQueue \<Rightarrow> 'p BatchQueue" where
  "pulled_queue prev_origin parent prev bq =
     (advance_origin (prev_origin (bq_prev bq))
        (l1_Number (prev_origin (bq_prev bq)) < bid_Number (l2_L1Origin parent)) (advance_epoch parent bq))\<lparr>bq_prev := prev\<rparr>"

lemma pulled_queue_ok:
  assumes "queue_ok bq" "prev_origin (bq_prev bq) = bq_origin bq \<or> succ_block (bq_origin bq) (prev_origin (bq_prev bq))"
  shows "queue_ok (pulled_queue prev_origin parent prev bq)"
    "bq_origin (pulled_queue prev_origin parent prev bq) = prev_origin (bq_prev bq)"
    "bq_prev (pulled_queue prev_origin parent prev bq) = prev"
    "bq_config (pulled_queue prev_origin parent prev bq) = bq_config bq"
    "bq_batches (pulled_queue prev_origin parent prev bq) = bq_batches bq"
  using advance_origin_ok [of "advance_epoch parent bq"] advance_epoch_ok [OF assms(1)] assms
  by (simp_all add: pulled_queue_def)

lemma load_and_derive_cases:
  assumes "load_and_derive keccak256 decodeTx nextBatch prev_origin l2 env parent bq = Some (r, bq')" "queue_ok bq"
  obtains
    (idle) x prev where "nextBatch env (bq_prev bq) = Some (x, prev)" "\<exists>err. r = Inl err"
      "bq' = pulled_queue prev_origin parent prev bq"
  | (derived) outOfData x prev bq1 where "nextBatch env (bq_prev bq) = Some (x, prev)"
      "bq1 = pulled_queue prev_origin parent prev bq \<or> (\<exists>batch. x = Inr batch \<and>
         AddBatch keccak256 decodeTx l2 batch parent (pulled_queue prev_origin parent prev bq) = Some bq1)"
      "derive_and_deliver keccak256 decodeTx l2 outOfData parent bq1 = Some (r, bq')"
proof -
  have p: "bq_prev (advance_epoch parent bq) = bq_prev bq" by (rule advance_epoch_ok(3) [OF assms(2)])
  obtain x prev where x: "nextBatch env (bq_prev bq) = Some (x, prev)"
    using assms(1) by (auto simp: load_and_derive_def Let_def p split: bind_splits)
  let ?bq = "pulled_queue prev_origin parent prev bq"
  let ?behind = "l1_Number (prev_origin (bq_prev bq)) < bid_Number (l2_L1Origin parent)"
  have r: "Some (r, bq') = (case x of
       Inl err \<Rightarrow>
         if err = EOF then
           (if ?behind then Some (Inl EOF, ?bq) else derive_and_deliver keccak256 decodeTx l2 True parent ?bq)
         else Some (Inl err, ?bq)
     | Inr batch \<Rightarrow>
         if ?behind then Some (Inl NotEnoughData, ?bq)
         else do {
           bq \<leftarrow> AddBatch keccak256 decodeTx l2 batch parent ?bq;
           derive_and_deliver keccak256 decodeTx l2 False parent bq
         })"
    using assms(1) unfolding load_and_derive_def Let_def advance_origin_simps p x pulled_queue_def by simp
  show ?thesis
  proof (cases x)
    case (Inl err)
    show ?thesis
    proof (cases "err = EOF \<and> \<not> ?behind")
      case True
      with r Inl show ?thesis by (intro derived [OF x, of ?bq True]) simp_all
    next
      case False
      with r Inl have "\<exists>err. r = Inl err" "bq' = ?bq" by (auto split: if_splits)
      then show ?thesis by (rule idle [OF x])
    qed
  next
    case (Inr batch)
    show ?thesis
    proof (cases ?behind)
      case True
      with r Inr have "\<exists>err. r = Inl err" "bq' = ?bq" by simp_all
      then show ?thesis by (rule idle [OF x])
    next
      case False
      with r Inr obtain bq1 where "AddBatch keccak256 decodeTx l2 batch parent ?bq = Some bq1"
        "derive_and_deliver keccak256 decodeTx l2 False parent bq1 = Some (r, bq')"
        by (auto split: bind_splits)
      with Inr show ?thesis by (intro derived [OF x, of bq1 False]) simp_all
    qed
  qed
qed

lemma load_and_derive_ok:
  assumes "load_and_derive keccak256 decodeTx nextBatch prev_origin l2 env parent bq = Some (r, bq')" "queue_ok bq"
    and "prev_origin (bq_prev bq) = bq_origin bq \<or> succ_block (bq_origin bq) (prev_origin (bq_prev bq))"
  shows "queue_ok bq' \<and> bq_origin bq' = prev_origin (bq_prev bq)
      \<and> (\<exists>x. nextBatch env (bq_prev bq) = Some (x, bq_prev bq')) \<and> bq_config bq' = bq_config bq"
  using assms(1,2)
proof (cases rule: load_and_derive_cases)
  case (idle x prev)
  then show ?thesis using pulled_queue_ok [where prev_origin = prev_origin, OF assms(2,3)] by simp
next
  case (derived outOfData x prev bq1)
  note p = pulled_queue_ok [where prev_origin = prev_origin and parent = parent and prev = prev, OF assms(2,3)]
  have "queue_ok bq1 \<and> bq_origin bq1 = prev_origin (bq_prev bq) \<and> bq_prev bq1 = prev \<and> bq_config bq1 = bq_config bq"
    using derived(2) AddBatch_ok [OF _ p(1)] p by auto
  then show ?thesis using derive_and_deliver_ok [OF derived(3)] derived(1) by auto
qed

lemma NextBatch_ok:
  assumes "BatchQueue_NextBatch keccak256 decodeTx nextBatch prev_origin l2 env parent bq = Some (r, bq')" "queue_ok bq"
    and "prev_origin (bq_prev bq) = bq_origin bq \<or> succ_block (bq_origin bq) (prev_origin (bq_prev bq))"
  shows "queue_ok bq' \<and> bq_config bq' = bq_config bq \<and>
     (bq_prev bq' = bq_prev bq \<and> bq_origin bq' = bq_origin bq \<and> bq_l1Blocks bq' = bq_l1Blocks bq \<or>
      bq_origin bq' = prev_origin (bq_prev bq) \<and> (\<exists>x. nextBatch env (bq_prev bq) = Some (x, bq_prev bq')))"
proof (cases "bq_nextSpan bq")
  case Nil
  then have "load_and_derive keccak256 decodeTx nextBatch prev_origin l2 env parent bq = Some (r, bq')"
    using assms(1) by (simp add: BatchQueue_NextBatch_def)
  from load_and_derive_ok [OF this assms(2,3)] show ?thesis by simp
next
  case (Cons b bs)
  show ?thesis
  proof (cases "sb_Timestamp b = NextMillisecondBlockTime (bq_config bq) (l2_MillisecondTimestamp parent)")
    case True
    then show ?thesis using assms(1,2) Cons by (auto simp: BatchQueue_NextBatch_def popNextBatch_def)
  next
    case False
    then have "load_and_derive keccak256 decodeTx nextBatch prev_origin l2 env parent (bq\<lparr>bq_nextSpan := []\<rparr>) = Some (r, bq')"
      using assms(1) Cons by (simp add: BatchQueue_NextBatch_def)
    from load_and_derive_ok [OF this] assms(2,3) show ?thesis by simp
  qed
qed


section \<open>Batches build on the parent\<close>

text \<open>The blocks of a span follow the block times of the chain, and the safe head is one of them if the
  span starts before the next block.\<close>

definition on_schedule :: "Config \<Rightarrow> u64 \<Rightarrow> SpanBatch \<Rightarrow> bool" where
  "on_schedule cfg safeTime batch \<longleftrightarrow>
     (let ts = map el_Timestamp (Batches batch) in
      sorted ts \<and> (\<forall>i. Suc i < length ts \<longrightarrow> ts ! Suc i = NextMillisecondBlockTime cfg (ts ! i)) \<and>
      (ts \<noteq> [] \<and> ts ! 0 < NextMillisecondBlockTime cfg safeTime \<longrightarrow> safeTime \<in> set ts))"

lemma get_singulars_first:
  assumes "\<forall>el \<in> set xs. el_Timestamp el \<le> safeTime" "safeTime < el_Timestamp y"
    and "get_singulars l1 safeTime idx (xs @ y # ys) = Inr bs"
  shows "\<exists>b bs'. bs = b # bs' \<and> sb_Timestamp b = el_Timestamp y"
proof -
  have "\<not> el_Timestamp y \<le> safeTime" using assms(2) by simp
  then show ?thesis using assms(1,3)
    by (induction xs arbitrary: idx) (auto split: option.splits sum.splits simp del: not_le)
qed

lemma on_schedule_first:
  assumes o: "on_schedule cfg safeTime batch" and ne: "Batches batch \<noteq> []"
    and start: "el_Timestamp (Batches batch ! 0) \<le> NextMillisecondBlockTime cfg safeTime"
    and last: "NextMillisecondBlockTime cfg safeTime \<le> el_Timestamp (last (Batches batch))"
    and fwd: "safeTime < NextMillisecondBlockTime cfg safeTime"
  obtains xs y ys where "Batches batch = xs @ y # ys" "\<forall>el \<in> set xs. el_Timestamp el \<le> safeTime"
    "el_Timestamp y = NextMillisecondBlockTime cfg safeTime"
proof (cases "el_Timestamp (Batches batch ! 0) = NextMillisecondBlockTime cfg safeTime")
  case True
  then show ?thesis using ne hd_Cons_tl [OF ne] by (intro that [of "[]" "hd (Batches batch)" "tl (Batches batch)"]) (simp_all add: hd_conv_nth)
next
  case False
  let ?ts = "map el_Timestamp (Batches batch)"
  have "safeTime \<in> set ?ts" using o ne False start by (simp add: on_schedule_def Let_def)
  then obtain i where i: "i < length (Batches batch)" "el_Timestamp (Batches batch ! i) = safeTime"
    by (auto simp: in_set_conv_nth)
  have "i \<noteq> length (Batches batch) - 1"
  proof
    assume "i = length (Batches batch) - 1"
    with i ne have "el_Timestamp (last (Batches batch)) = safeTime" by (simp add: last_conv_nth)
    with last fwd show False by simp
  qed
  then have s: "Suc i < length (Batches batch)" using i by simp
  then have nxt: "el_Timestamp (Batches batch ! Suc i) = NextMillisecondBlockTime cfg safeTime"
    using o i by (auto simp: on_schedule_def Let_def)
  have "el_Timestamp el \<le> safeTime" if el: "el \<in> set (take (Suc i) (Batches batch))" for el
  proof -
    obtain j where "j < Suc i" "el = Batches batch ! j" using el s by (auto simp: in_set_conv_nth)
    moreover have "sorted ?ts" using o by (simp add: on_schedule_def Let_def)
    ultimately show ?thesis using sorted_nth_mono [of ?ts j i] i by simp
  qed
  then show ?thesis using nxt s
    by (intro that [of "take (Suc i) (Batches batch)" "Batches batch ! Suc i" "drop (Suc (Suc i)) (Batches batch)"])
      (auto simp: Cons_nth_drop_Suc)
qed

definition builds_on :: "Config \<Rightarrow> L2BlockRef \<Rightarrow> SingularBatch \<Rightarrow> bool" where
  "builds_on cfg parent b \<longleftrightarrow>
     sb_ParentHash b = l2_Hash parent \<and>
     sb_Timestamp b = NextMillisecondBlockTime cfg (l2_MillisecondTimestamp parent)"

lemma accepted_span_times:
  assumes "checkSpanBatch keccak256 decodeTx cfg l1Blocks safe batch inclusion l2Fetcher = Some BatchAccept"
  shows "Batches batch \<noteq> []"
    "el_Timestamp (Batches batch ! 0) \<le> NextMillisecondBlockTime cfg (l2_MillisecondTimestamp safe)"
    "NextMillisecondBlockTime cfg (l2_MillisecondTimestamp safe) \<le> el_Timestamp (last (Batches batch))"
proof -
  have ne: "l1Blocks \<noteq> []" using assms by (auto simp: checkSpanBatch_def)
  show bs: "Batches batch \<noteq> []"
    using assms ne by (auto simp: checkSpanBatch_def Let_def GetStartEpochNum_def at_def)
  have "\<not> el_Timestamp (Batches batch ! 0) > NextMillisecondBlockTime cfg (l2_MillisecondTimestamp safe)"
    "\<not> el_Timestamp (last (Batches batch)) < NextMillisecondBlockTime cfg (l2_MillisecondTimestamp safe)"
    using assms ne GetBlock_last [OF bs]
    by (auto simp: checkSpanBatch_def Let_def simp del: not_less not_le split: if_split_asm bind_split_asm sum.split_asm)
  then show "el_Timestamp (Batches batch ! 0) \<le> NextMillisecondBlockTime cfg (l2_MillisecondTimestamp safe)"
    "NextMillisecondBlockTime cfg (l2_MillisecondTimestamp safe) \<le> el_Timestamp (last (Batches batch))"
    by (simp_all add: not_less)
qed

lemma deliver_accepted:
  assumes v: "verdict keccak256 decodeTx l2 parent bq b = Some BatchAccept"
    and d: "deliver parent (bw_Batch b) bq' = Some (Inr (s, isLast), bq'')"
    and sched: "\<forall>span. bw_Batch b = Span span \<longrightarrow> on_schedule (bq_config bq) (l2_MillisecondTimestamp parent) span"
    and fwd: "l2_MillisecondTimestamp parent < NextMillisecondBlockTime (bq_config bq) (l2_MillisecondTimestamp parent)"
  shows "builds_on (bq_config bq) parent s"
proof (cases "bw_Batch b")
  case (Singular sb)
  then have "valid_singular (bq_config bq) (bq_l1Blocks bq) parent sb (bw_L1InclusionBlock b)"
    using v by (simp add: CheckBatch_def checkSingularBatch_accept)
  then show ?thesis using d Singular by (auto simp: deliver_def builds_on_def valid_singular_def)
next
  case (Span span)
  then have "checkSpanBatch keccak256 decodeTx (bq_config bq) (bq_l1Blocks bq) parent span (bw_L1InclusionBlock b) l2
      = Some BatchAccept"
    using v by (simp add: CheckBatch_def)
  note t = accepted_span_times [OF this]
  from Span sched have "on_schedule (bq_config bq) (l2_MillisecondTimestamp parent) span" by simp
  from on_schedule_first [OF this t fwd] obtain xs y ys where y:
    "Batches span = xs @ y # ys" "\<forall>el \<in> set xs. el_Timestamp el \<le> l2_MillisecondTimestamp parent"
    "el_Timestamp y = NextMillisecondBlockTime (bq_config bq) (l2_MillisecondTimestamp parent)" .
  obtain bs where bs: "GetSingularBatches span (bq_l1Blocks bq') parent = Inr bs"
    using d Span by (auto simp: deliver_def split: sum.splits)
  then have "get_singulars (bq_l1Blocks bq') (l2_MillisecondTimestamp parent) 0 (xs @ y # ys) = Inr bs"
    by (simp add: GetSingularBatches_def y(1))
  from get_singulars_first [OF y(2) _ this] y(3) fwd obtain b1 bs' where
    "bs = b1 # bs'" "sb_Timestamp b1 = el_Timestamp y" by metis
  then show ?thesis using d Span bs y(3) by (auto simp: deliver_def popNextBatch_def builds_on_def)
qed


lemma derive_and_deliver_builds_on:
  assumes r: "derive_and_deliver keccak256 decodeTx l2 outOfData parent bq = Some (Inr (s, isLast), bq')"
    and sched: "\<forall>span. Span span \<in> bw_Batch ` set (bq_batches bq)
        \<longrightarrow> on_schedule (bq_config bq) (l2_MillisecondTimestamp parent) span"
    and fwd: "l2_MillisecondTimestamp parent < NextMillisecondBlockTime (bq_config bq) (l2_MillisecondTimestamp parent)"
  shows "builds_on (bq_config bq) parent s"
proof -
  obtain batch bq1 where d: "deriveNextBatch keccak256 decodeTx l2 outOfData parent bq = Some (Inr batch, bq1)"
    and e: "deliver parent batch bq1 = Some (Inr (s, isLast), bq')"
    using r by (auto simp: derive_and_deliver_def split: bind_splits sum.splits if_splits)
  from d show ?thesis
  proof (cases rule: deriveNextBatch_cases)
    case (found b remaining)
    then have b: "batch = bw_Batch b" by simp
    have "\<forall>span. bw_Batch b = Span span \<longrightarrow> on_schedule (bq_config bq) (l2_MillisecondTimestamp parent) span"
      using sched found(2) by force
    from deliver_accepted [OF found(3) e [unfolded b] this fwd] show ?thesis .
  next
    case (empty remaining)
    from force_empty_batch(1) [OF empty(3)] e show ?thesis
      by (auto simp: deliver_def builds_on_def empty_batch_def)
  qed simp_all
qed

lemma NextBatch_builds_on:
  assumes "BatchQueue_NextBatch keccak256 decodeTx nextBatch prev_origin l2 env parent bq = Some (Inr (b, isLast), bq')"
    and "queue_ok bq"
    and "\<forall>span. Span span \<in> bw_Batch ` set (bq_batches bq) \<or> (\<exists>s. nextBatch env (bq_prev bq) = Some (Inr (Span span), s))
        \<longrightarrow> on_schedule (bq_config bq) (l2_MillisecondTimestamp parent) span"
    and "l2_MillisecondTimestamp parent < NextMillisecondBlockTime (bq_config bq) (l2_MillisecondTimestamp parent)"
  shows "builds_on (bq_config bq) parent b"
proof -
  have load: ?thesis
    if l: "load_and_derive keccak256 decodeTx nextBatch prev_origin l2 env parent bq0 = Some (Inr (b, isLast), bq')"
      and bq0: "queue_ok bq0" "bq_batches bq0 = bq_batches bq" "bq_prev bq0 = bq_prev bq" "bq_config bq0 = bq_config bq"
    for bq0
    using l bq0(1)
  proof (cases rule: load_and_derive_cases)
    case (derived outOfData x prev bq1)
    let ?p = "pulled_queue prev_origin parent prev bq0"
    have p: "bq_config ?p = bq_config bq" "bq_batches ?p = bq_batches bq"
      using advance_epoch_ok [OF bq0(1)] bq0 by (simp_all add: pulled_queue_def)
    have "bq_config bq1 = bq_config bq \<and> (\<forall>span. Span span \<in> bw_Batch ` set (bq_batches bq1)
        \<longrightarrow> Span span \<in> bw_Batch ` set (bq_batches bq) \<or> x = Inr (Span span))"
      using derived(2)
    proof (elim disjE exE conjE)
      fix batch
      assume x: "x = Inr batch" and "AddBatch keccak256 decodeTx l2 batch parent ?p = Some bq1"
      then have "bq_config bq1 = bq_config bq
          \<and> (bq_batches bq1 = bq_batches bq \<or> (\<exists>o1. bq_batches bq1 = bq_batches bq @ [\<lparr>bw_Batch = batch, bw_L1InclusionBlock = o1\<rparr>]))"
        using p by (auto simp: AddBatch_def Let_def split: if_splits bind_splits)
      then show ?thesis using x by auto
    qed (use p in simp)
    then have c: "bq_config bq1 = bq_config bq"
      and from_bq: "\<And>span. Span span \<in> bw_Batch ` set (bq_batches bq1)
        \<Longrightarrow> Span span \<in> bw_Batch ` set (bq_batches bq) \<or> x = Inr (Span span)" by simp_all
    have x: "nextBatch env (bq_prev bq) = Some (x, prev)" using derived(1) bq0(3) by simp
    have "on_schedule (bq_config bq1) (l2_MillisecondTimestamp parent) span"
      if "Span span \<in> bw_Batch ` set (bq_batches bq1)" for span
      using from_bq [OF that] assms(3) x c by metis
    then have "\<forall>span. Span span \<in> bw_Batch ` set (bq_batches bq1)
        \<longrightarrow> on_schedule (bq_config bq1) (l2_MillisecondTimestamp parent) span" by blast
    from derive_and_deliver_builds_on [OF derived(3) this] assms(4) c show ?thesis by simp
  qed auto
  show ?thesis
  proof (cases "bq_nextSpan bq")
    case Nil
    then show ?thesis using assms(1,2) by (intro load [of bq]) (simp_all add: BatchQueue_NextBatch_def)
  next
    case (Cons n bs)
    show ?thesis
    proof (cases "sb_Timestamp n = NextMillisecondBlockTime (bq_config bq) (l2_MillisecondTimestamp parent)")
      case True
      then show ?thesis using assms(1) Cons by (auto simp: BatchQueue_NextBatch_def popNextBatch_def builds_on_def)
    next
      case False
      then show ?thesis using assms(1,2) Cons
        by (intro load [of "bq\<lparr>bq_nextSpan := []\<rparr>"]) (simp_all add: BatchQueue_NextBatch_def)
    qed
  qed
qed

text \<open>C9: The batch NextBatch returns builds on the parent it was asked for: it has the parent's hash and
  the next block time, whether it comes from the cached rest of a span, is a submitted singular batch,
  the first new block of a submitted span, or made up after the sequence window. The spans in the queue
  and the one that may be pulled are assumed to follow the block times of the chain.\<close>

theorem NextBatch_builds_on_parent:
  assumes "BatchQueue_NextBatch keccak256 decodeTx nextBatch prev_origin l2 env parent bq = Some (Inr (b, isLast), bq')"
    and "queue_ok bq"
    and "\<forall>span. Span span \<in> bw_Batch ` set (bq_batches bq) \<or> (\<exists>s. nextBatch env (bq_prev bq) = Some (Inr (Span span), s))
        \<longrightarrow> on_schedule (bq_config bq) (l2_MillisecondTimestamp parent) span"
    and "l2_MillisecondTimestamp parent < NextMillisecondBlockTime (bq_config bq) (l2_MillisecondTimestamp parent)"
  shows "builds_on (bq_config bq) parent b"
  by (rule NextBatch_builds_on [OF assms])

definition span_queue :: "nat BatchQueue" where
  "span_queue = \<lparr>bq_config = OPBNBTestnet, bq_prev = 0, bq_origin = example_origin, bq_l1Blocks = [example_origin],
     bq_batches = [], bq_nextSpan = []\<rparr>"

lemma span_queue_next:
  "BatchQueue_NextBatch (\<lambda>_. 0) (\<lambda>_. Inl (Msg ''bad'')) (\<lambda>e n. Some (Inr (Span example_span), n)) (\<lambda>n. example_origin)
     no_fetcher () example_head span_queue
   = Some (Inr (\<lparr>sb_ParentHash = 0, sb_EpochNum = 5, sb_EpochHash = 0, sb_Timestamp = 1730000001000,
                 sb_Transactions = [[1]]\<rparr>, False),
       span_queue\<lparr>bq_nextSpan := [\<lparr>sb_ParentHash = 0, sb_EpochNum = 5, sb_EpochHash = 0,
         sb_Timestamp = 1730000002000, sb_Transactions = []\<rparr>]\<rparr>)"
proof -
  have c: "verdict (\<lambda>_. 0) (\<lambda>_. Inl (Msg ''bad'')) no_fetcher example_head span_queue
      \<lparr>bw_Batch = Span example_span, bw_L1InclusionBlock = example_origin\<rparr> = Some BatchAccept"
    using example_span_accepted by (simp add: CheckBatch_def span_queue_def)
  have g: "GetSingularBatches example_span [example_origin] example_head =
      Inr [\<lparr>sb_ParentHash = 0, sb_EpochNum = 5, sb_EpochHash = 0, sb_Timestamp = 1730000001000, sb_Transactions = [[1]]\<rparr>,
           \<lparr>sb_ParentHash = 0, sb_EpochNum = 5, sb_EpochHash = 0, sb_Timestamp = 1730000002000, sb_Transactions = []\<rparr>]"
    by (simp add: GetSingularBatches_def example_span_def zero_SpanBatch_def example_origin_def example_head_def
        zero_L1BlockRef_def l2_MillisecondTimestamp_def)
  have o: "l2_L1Origin example_head = l1_ID example_origin" "l2_Hash example_head = 0"
    by (simp_all add: example_head_def)
  have "load_and_derive (\<lambda>_. 0) (\<lambda>_. Inl (Msg ''bad'')) (\<lambda>e n. Some (Inr (Span example_span), n)) (\<lambda>n. example_origin)
     no_fetcher () example_head span_queue = derive_and_deliver (\<lambda>_. 0) (\<lambda>_. Inl (Msg ''bad'')) no_fetcher False example_head
       (span_queue\<lparr>bq_batches := [\<lparr>bw_Batch = Span example_span, bw_L1InclusionBlock = example_origin\<rparr>]\<rparr>)"
    using c o by (simp add: load_and_derive_def advance_epoch_def advance_origin_def AddBatch_def span_queue_def Let_def)
  also have "\<dots> = Some (Inr (\<lparr>sb_ParentHash = 0, sb_EpochNum = 5, sb_EpochHash = 0, sb_Timestamp = 1730000001000,
                 sb_Transactions = [[1]]\<rparr>, False),
       span_queue\<lparr>bq_nextSpan := [\<lparr>sb_ParentHash = 0, sb_EpochNum = 5, sb_EpochHash = 0,
         sb_Timestamp = 1730000002000, sb_Transactions = []\<rparr>]\<rparr>)"
    using c o g by (simp add: derive_and_deliver_def deriveNextBatch_def deliver_def popNextBatch_def span_queue_def)
  finally show ?thesis by (simp add: BatchQueue_NextBatch_def span_queue_def)
qed

theorem NextBatch_builds_on_parent_witness:
  "builds_on OPBNBTestnet example_head
     \<lparr>sb_ParentHash = 0, sb_EpochNum = 5, sb_EpochHash = 0, sb_Timestamp = 1730000001000, sb_Transactions = [[1]]\<rparr>"
proof -
  have "on_schedule OPBNBTestnet (l2_MillisecondTimestamp example_head) example_span"
    by (simp add: on_schedule_def example_span_def zero_SpanBatch_def example_eval nth_Cons')
  moreover have "l2_MillisecondTimestamp example_head < NextMillisecondBlockTime OPBNBTestnet (l2_MillisecondTimestamp example_head)"
    by (simp add: example_eval)
  ultimately show ?thesis
    using NextBatch_builds_on_parent [OF span_queue_next] by (simp add: span_queue_def queue_ok_def)
qed


section \<open>Progress after the sequence window\<close>

lemma queue_length:
  assumes "queue_ok bq" "bq_l1Blocks bq \<noteq> []"
  shows "unat (l1_Number (bq_origin bq)) + 1 = unat (l1_Number (hd (bq_l1Blocks bq))) + length (bq_l1Blocks bq)"
  using assms consecutive_nth [of "bq_l1Blocks bq" "length (bq_l1Blocks bq) - 1"]
  by (auto simp: queue_ok_def last_conv_nth hd_conv_nth)

lemma deriveNextBatch_no_batches:
  assumes "bq_batches bq = []" "bq_l1Blocks bq = epoch # bs"
    and "l2_L1Origin parent = l1_ID epoch \<or> bid_Number (l2_L1Origin parent) = l1_Number epoch - 1"
  shows "deriveNextBatch keccak256 decodeTx l2 outOfData parent bq = Some (force_empty outOfData parent epoch bq)"
proof -
  have same: "bq\<lparr>bq_batches := []\<rparr> = bq" using assms(1) by simp
  show ?thesis using assms by (auto simp: deriveNextBatch_def same)
qed

lemma window_passed:
  assumes "unat (l1_Number epoch) + unat (cfg_SeqWindowSize cfg) < unat (l1_Number origin)"
  shows "forceEmptyBatches cfg epoch origin b"
proof -
  have "unat (l1_Number epoch + cfg_SeqWindowSize cfg) = unat (l1_Number epoch) + unat (cfg_SeqWindowSize cfg)"
    using assms unat_u64_bound [of "l1_Number origin"] by (simp add: unat_word_ariths)
  then show ?thesis using assms by (simp add: forceEmptyBatches_def word_less_nat_alt)
qed

lemma window_reached:
  assumes "unat (l1_Number epoch) + unat (cfg_SeqWindowSize cfg) \<le> unat (l1_Number origin)"
  shows "forceEmptyBatches cfg epoch origin True"
proof (cases "unat (l1_Number epoch) + unat (cfg_SeqWindowSize cfg) < unat (l1_Number origin)")
  case False
  with assms have "unat (l1_Number epoch + cfg_SeqWindowSize cfg) = unat (l1_Number origin)"
    using unat_u64_bound [of "l1_Number origin"] by (simp add: unat_word_ariths)
  then show ?thesis by (simp add: forceEmptyBatches_def word_unat_eq_iff)
qed (rule window_passed)

text \<open>C24: The chain cannot be held up by missing batches: when the sequence window of the parent's epoch
  has passed, the previous stages have no more data and no submitted batch is left, at most two calls of
  deriveNextBatch give an empty batch on the parent, in its epoch or the next one.\<close>

theorem expired_window_progress:
  assumes "queue_ok bq" and "bq_batches bq = []" and "bq_l1Blocks bq \<noteq> []"
    and "l2_L1Origin parent = l1_ID (hd (bq_l1Blocks bq))"
    and "unat (l1_Number (hd (bq_l1Blocks bq))) + unat (cfg_SeqWindowSize (bq_config bq)) < unat (l1_Number (bq_origin bq))"
    and "0 < cfg_SeqWindowSize (bq_config bq)"
  shows "\<exists>b bq' bq1. (deriveNextBatch keccak256 decodeTx l2 True parent bq = Some (Inr (Singular b), bq') \<or>
       deriveNextBatch keccak256 decodeTx l2 True parent bq = Some (Inl EOF, bq1) \<and>
       deriveNextBatch keccak256 decodeTx l2 True parent bq1 = Some (Inr (Singular b), bq'))
     \<and> builds_on (bq_config bq) parent b \<and> sb_Transactions b = []
     \<and> (sb_EpochNum b = l1_Number (hd (bq_l1Blocks bq)) \<or> sb_EpochNum b = l1_Number (hd (bq_l1Blocks bq)) + 1)"
proof -
  let ?nxt = "NextMillisecondBlockTime (bq_config bq) (l2_MillisecondTimestamp parent)"
  obtain e0 e1 e2 bs where l: "bq_l1Blocks bq = e0 # e1 # e2 # bs"
  proof -
    have "0 < unat (cfg_SeqWindowSize (bq_config bq))" using assms(6) by (simp add: word_less_nat_alt)
    then have "2 < length (bq_l1Blocks bq)" using queue_length [OF assms(1,3)] assms(5) by simp
    then show ?thesis using that by (cases "bq_l1Blocks bq"; cases "tl (bq_l1Blocks bq)"; cases "tl (tl (bq_l1Blocks bq))") auto
  qed
  have e1: "unat (l1_Number e1) = Suc (unat (l1_Number e0))"
    using assms(1) l by (simp add: queue_ok_def succ_block_def)
  have n1: "l1_Number e1 = l1_Number e0 + 1"
    using e1 unat_u64_bound [of "l1_Number e1"] by (simp add: word_unat_eq_iff unat_word_ariths)
  have f0: "forceEmptyBatches (bq_config bq) e0 (bq_origin bq) True" using window_passed assms(5) l by simp
  have d0: "deriveNextBatch keccak256 decodeTx l2 True parent bq = Some (force_empty True parent e0 bq)"
    using deriveNextBatch_no_batches [OF assms(2) l] assms(4) l by simp
  show ?thesis
  proof (cases "?nxt < l1_MillisecondTimestamp e1 \<or> l1_Number e0 = bid_Number (l2_L1Origin parent) + 1")
    case True
    then have "force_empty True parent e0 bq = (Inr (Singular (empty_batch parent e0 ?nxt)), bq)"
      using f0 l by (simp add: force_empty_def Let_def)
    then show ?thesis using d0 l
      by (intro exI [of _ "empty_batch parent e0 ?nxt"] exI [of _ bq]) (simp add: builds_on_def empty_batch_def)
  next
    case False
    let ?bq1 = "bq\<lparr>bq_l1Blocks := e1 # e2 # bs\<rparr>"
    have s0: "force_empty True parent e0 bq = (Inl EOF, ?bq1)"
      using f0 l False by (simp add: force_empty_def Let_def)
    have p: "bid_Number (l2_L1Origin parent) = l1_Number e1 - 1" using assms(4) l n1 by simp
    have f1: "forceEmptyBatches (bq_config bq) e1 (bq_origin bq) True"
      by (rule window_reached) (use e1 assms(5) l in simp)
    have "deriveNextBatch keccak256 decodeTx l2 True parent ?bq1 = Some (force_empty True parent e1 ?bq1)"
      by (rule deriveNextBatch_no_batches [of _ e1 "e2 # bs"]) (use assms(2) p in simp_all)
    also have "force_empty True parent e1 ?bq1 = (Inr (Singular (empty_batch parent e1 ?nxt)), ?bq1)"
      using f1 p by (simp add: force_empty_def Let_def)
    finally show ?thesis using d0 s0 l n1
      by (intro exI [of _ "empty_batch parent e1 ?nxt"] exI [of _ ?bq1]) (simp add: builds_on_def empty_batch_def)
  qed
qed

definition small_window :: Config where "small_window = OPBNBTestnet\<lparr>cfg_SeqWindowSize := 1\<rparr>"

definition late_queue :: "nat BatchQueue" where
  "late_queue =
     \<lparr>bq_config = small_window, bq_prev = 0, bq_origin = queue_origin 7 1730000003,
      bq_l1Blocks = [queue_origin 5 1730000000, queue_origin 6 1730000000, queue_origin 7 1730000003],
      bq_batches = [], bq_nextSpan = []\<rparr>"

theorem expired_window_progress_witness:
  "\<exists>b bq' bq1. (deriveNextBatch (\<lambda>_. 0) (\<lambda>_. Inl (Msg ''bad'')) no_fetcher True example_head late_queue = Some (Inr (Singular b), bq') \<or>
       deriveNextBatch (\<lambda>_. 0) (\<lambda>_. Inl (Msg ''bad'')) no_fetcher True example_head late_queue = Some (Inl EOF, bq1) \<and>
       deriveNextBatch (\<lambda>_. 0) (\<lambda>_. Inl (Msg ''bad'')) no_fetcher True example_head bq1 = Some (Inr (Singular b), bq'))
     \<and> builds_on small_window example_head b \<and> sb_Transactions b = [] \<and> (sb_EpochNum b = 5 \<or> sb_EpochNum b = 6)"
proof -
  have n: "l1_Number (queue_origin k t) = k" for k t by (simp add: queue_origin_def zero_L1BlockRef_def)
  have "queue_ok late_queue" by (simp add: queue_ok_def late_queue_def succ_block_def n)
  moreover have "l2_L1Origin example_head = l1_ID (queue_origin 5 1730000000)"
    by (simp add: example_head_def example_origin_def l1_ID_def queue_origin_def zero_L1BlockRef_def)
  ultimately show ?thesis
    using expired_window_progress [of late_queue example_head "\<lambda>_. 0" "\<lambda>_. Inl (Msg ''bad'')" no_fetcher]
    by (simp add: late_queue_def small_window_def n)
qed

end
