(* ===== verification/ChannelReader.thy ===== *)
theory ChannelReader
  imports BatchQueue
begin

text \<open>
  Reading batches out of channels (op-node/rollup/derive/channel_in_reader.go and the batch reader of
  channel.go). The decompressors and the RLP stream are parameters: a stream gives its next byte
  string or an error. The stage is the provider of batches for the batch queue.
\<close>

section \<open>The batch reader\<close>

definition ZlibCM8 :: byte where "ZlibCM8 = 8"
definition ZlibCM15 :: byte where "ZlibCM15 = 15"
definition ChannelVersionBrotli :: byte where "ChannelVersionBrotli = 1"

record ('z, 'r) ReaderLib =
  lib_batch :: BatchLib
  lib_zlib :: "bytes \<Rightarrow> 'z res"
  lib_brotli :: "bytes \<Rightarrow> 'z"
  lib_rlpStream :: "'z \<Rightarrow> u64 \<Rightarrow> 'r"
  lib_rlpBytes :: "'r \<Rightarrow> bytes res \<times> 'r"

record 'r BatchStream =
  bs_rlpReader :: 'r
  bs_comprAlgo :: string

definition BatchReader :: "('z, 'r) ReaderLib \<Rightarrow> bytes \<Rightarrow> u64 \<Rightarrow> bool \<Rightarrow> 'r BatchStream res" where
  "BatchReader lib r maxRLPBytesPerChannel isFjord =
     (case r of
        [] \<Rightarrow> Inl EOF
      | compressionType # rest \<Rightarrow>
          if compressionType AND 0x0F = ZlibCM8 \<or> compressionType AND 0x0F = ZlibCM15 then
            (case lib_zlib lib r of
               Inl err \<Rightarrow> Inl err
             | Inr zr \<Rightarrow> Inr \<lparr>bs_rlpReader = lib_rlpStream lib zr maxRLPBytesPerChannel, bs_comprAlgo = ''zlib''\<rparr>)
          else if compressionType = ChannelVersionBrotli then
            (if \<not> isFjord then Inl (Msg ''cannot accept brotli compressed batch before Fjord'')
             else Inr \<lparr>bs_rlpReader = lib_rlpStream lib (lib_brotli lib rest) maxRLPBytesPerChannel,
                       bs_comprAlgo = ''brotli''\<rparr>)
          else Inl (Msg ''cannot distinguish the compression algo used given type byte''))"

text \<open>One call of the function a batch reader returns.\<close>

definition next_batch_data :: "('z, 'r) ReaderLib \<Rightarrow> 'r BatchStream \<Rightarrow> BatchData res \<times> 'r BatchStream" where
  "next_batch_data lib s =
     (let (v, reader) = lib_rlpBytes lib (bs_rlpReader s); s = s\<lparr>bs_rlpReader := reader\<rparr> in
      case v of
        Inl err \<Rightarrow> (Inl err, s)
      | Inr v \<Rightarrow>
          (case decodeTyped (lib_batch lib) (Some \<lparr>bd_inner = InnerRaw zero_RawSpanBatch, bd_ComprAlgo = bs_comprAlgo s\<rparr>) v of
             Inl err \<Rightarrow> (Inl err, s)
           | Inr inner \<Rightarrow> (Inr \<lparr>bd_inner = inner, bd_ComprAlgo = bs_comprAlgo s\<rparr>, s)))"

section \<open>The channel reader\<close>

record ('p, 'r) ChannelInReader =
  cr_cfg :: Config
  cr_prev :: 'p
  cr_nextBatchFn :: "'r BatchStream option"

definition NewChannelInReader :: "Config \<Rightarrow> 'p \<Rightarrow> ('p, 'r) ChannelInReader" where
  "NewChannelInReader cfg prev = \<lparr>cr_cfg = cfg, cr_prev = prev, cr_nextBatchFn = None\<rparr>"

definition ChannelInReader_Origin :: "('p \<Rightarrow> L1BlockRef) \<Rightarrow> ('p, 'r) ChannelInReader \<Rightarrow> L1BlockRef" where
  "ChannelInReader_Origin prev_origin cr = prev_origin (cr_prev cr)"

definition WriteChannel :: "('z, 'r) ReaderLib \<Rightarrow> ('p \<Rightarrow> L1BlockRef) \<Rightarrow> bytes \<Rightarrow> ('p, 'r) ChannelInReader
    \<Rightarrow> gerr option \<times> ('p, 'r) ChannelInReader" where
  "WriteChannel lib prev_origin data cr =
     (let t = l1_Time (prev_origin (cr_prev cr)) in
      case BatchReader lib data (MaxRLPBytesPerChannel (cr_cfg cr) t) (IsFjord (cr_cfg cr) t) of
        Inr f \<Rightarrow> (None, cr\<lparr>cr_nextBatchFn := Some f\<rparr>)
      | Inl err \<Rightarrow> (Some err, cr))"

definition NextChannel :: "('p, 'r) ChannelInReader \<Rightarrow> ('p, 'r) ChannelInReader" where
  "NextChannel cr = cr\<lparr>cr_nextBatchFn := None\<rparr>"

text \<open>A decoded batch as a batch of the queue; \<open>Check\<close> of the configuration excludes a missing chain id.\<close>

definition derive_batch :: "('z, 'r) ReaderLib \<Rightarrow> ('p \<Rightarrow> L1BlockRef) \<Rightarrow> ('p, 'r) ChannelInReader \<Rightarrow> BatchData
    \<Rightarrow> Batch res go" where
  "derive_batch lib prev_origin cr batchData =
     (if GetBatchType (bd_inner batchData) = SingularBatchType then
        (case GetSingularBatch batchData (cr_cfg cr) of
           Inl err \<Rightarrow> Some (Inl err)
         | Inr b \<Rightarrow> Some (Inr (Singular b)))
      else if GetBatchType (bd_inner batchData) = SpanBatchType then
        (if \<not> IsDelta (cr_cfg cr) (l1_Time (ChannelInReader_Origin prev_origin cr)) then
           Some (Inl (NewTemporaryError (Some (Msg ''cannot accept span batch in L1 block''))))
         else do {
           chainID \<leftarrow> cfg_L2ChainID (cr_cfg cr);
           derived \<leftarrow> DeriveSpanBatch (lib_tx (lib_batch lib)) batchData (cr_cfg cr)
                        (gen_L2Time (cfg_Genesis (cr_cfg cr))) chainID;
           case derived of Inl err \<Rightarrow> Some (Inl err) | Inr b \<Rightarrow> Some (Inr (Span b))
         })
      else Some (Inl (NewTemporaryError (Some (Msg ''unrecognized batch type'')))))"

definition read_batch :: "('z, 'r) ReaderLib \<Rightarrow> ('p \<Rightarrow> L1BlockRef) \<Rightarrow> 'r BatchStream \<Rightarrow> ('p, 'r) ChannelInReader
    \<Rightarrow> (Batch res \<times> ('p, 'r) ChannelInReader) go" where
  "read_batch lib prev_origin f cr =
     (case next_batch_data lib f of
        (Inl err, f) \<Rightarrow> Some (Inl NotEnoughData, NextChannel cr)
      | (Inr batchData, f) \<Rightarrow> do {
          let cr = cr\<lparr>cr_nextBatchFn := Some f\<rparr>;
          batch \<leftarrow> derive_batch lib prev_origin cr batchData;
          Some (batch, cr)
        })"

definition ChannelInReader_NextBatch :: "('z, 'r) ReaderLib \<Rightarrow> ('e \<Rightarrow> 'p \<Rightarrow> (bytes res \<times> 'p) go) \<Rightarrow> ('p \<Rightarrow> L1BlockRef)
    \<Rightarrow> 'e \<Rightarrow> ('p, 'r) ChannelInReader \<Rightarrow> (Batch res \<times> ('p, 'r) ChannelInReader) go" where
  "ChannelInReader_NextBatch lib nextData prev_origin env cr =
     (case cr_nextBatchFn cr of
        Some f \<Rightarrow> read_batch lib prev_origin f cr
      | None \<Rightarrow> do {
          (data, prev) \<leftarrow> nextData env (cr_prev cr);
          let cr = cr\<lparr>cr_prev := prev\<rparr>;
          case data of
            Inl err \<Rightarrow> Some (Inl err, cr)
          | Inr data \<Rightarrow>
              (case WriteChannel lib prev_origin data cr of
                 (Some err, cr) \<Rightarrow> Some (Inl (NewTemporaryError (Some err)), cr)
               | (None, cr) \<Rightarrow>
                   (case cr_nextBatchFn cr of None \<Rightarrow> None | Some f \<Rightarrow> read_batch lib prev_origin f cr))
        })"

definition ChannelInReader_Reset :: "('p, 'r) ChannelInReader \<Rightarrow> gerr \<times> ('p, 'r) ChannelInReader" where
  "ChannelInReader_Reset cr = (EOF, cr\<lparr>cr_nextBatchFn := None\<rparr>)"

section \<open>The contract of the stage\<close>

text \<open>Deriving a span batch may panic, so the contract from here on is that of a call that returns.\<close>

locale partial_stage =
  fixes pull :: "'e \<Rightarrow> 's \<Rightarrow> ('a res \<times> 's) go"
    and origin :: "'s \<Rightarrow> L1BlockRef"
    and inv :: "'s \<Rightarrow> bool"
  assumes pull_partial: "inv s \<Longrightarrow> pull e s = Some (r, s') \<Longrightarrow> inv s' \<and> origin s' = origin s"

sublocale stage \<subseteq> kept: partial_stage pull origin inv
  by unfold_locales (rule pull_keeps)

lemma read_batch_prev:
  "read_batch lib prev_origin f cr = Some (r, cr') \<Longrightarrow> cr_prev cr' = cr_prev cr \<and> cr_cfg cr' = cr_cfg cr"
  by (auto simp: read_batch_def NextChannel_def Let_def split: prod.splits sum.splits bind_splits)

context data_provider
begin

lemma NextBatch_contract:
  assumes i: "inv (cr_prev cr)" and n: "ChannelInReader_NextBatch lib pull origin e cr = Some (r, cr')"
  shows "inv (cr_prev cr') \<and> ChannelInReader_Origin origin cr' = ChannelInReader_Origin origin cr"
proof (cases "cr_nextBatchFn cr")
  case (Some f)
  then show ?thesis using n i by (auto simp: ChannelInReader_NextBatch_def ChannelInReader_Origin_def dest: read_batch_prev)
next
  case None
  from i show ?thesis
  proof (cases rule: pull_cases [where e = e])
    case (error err s')
    then show ?thesis using n None by (auto simp: ChannelInReader_NextBatch_def ChannelInReader_Origin_def)
  next
    case (data d s')
    then have "cr_prev cr' = s'"
      using n None
      by (auto simp: ChannelInReader_NextBatch_def WriteChannel_def Let_def split: sum.splits dest: read_batch_prev)
    then show ?thesis using data by (simp add: ChannelInReader_Origin_def)
  qed
qed

end

locale batch_provider = partial_stage pull origin inv
  for pull :: "'e \<Rightarrow> 's \<Rightarrow> (Batch res \<times> 's) go" and origin :: "'s \<Rightarrow> L1BlockRef" and inv :: "'s \<Rightarrow> bool"
begin

text \<open>The batch queue keeps its L1 blocks consecutive while the L1 origin stays or moves to the next block.\<close>

lemma BatchQueue_contract:
  assumes "inv (bq_prev bq)" "queue_ok bq"
    and "origin (bq_prev bq) = bq_origin bq \<or> succ_block (bq_origin bq) (origin (bq_prev bq))"
    and "BatchQueue_NextBatch keccak256 decodeTx pull origin l2 e parent bq = Some (r, bq')"
  shows "inv (bq_prev bq') \<and> queue_ok bq' \<and> BatchQueue_Origin origin bq' = BatchQueue_Origin origin bq
    \<and> (origin (bq_prev bq') = bq_origin bq' \<or> succ_block (bq_origin bq') (origin (bq_prev bq')))"
proof -
  note n = NextBatch_ok [OF assms(4,2,3)]
  from n show ?thesis
    using assms(1,3) pull_partial [OF assms(1)] by (auto simp: BatchQueue_Origin_def)
qed

end

abbreviation channel_reader where
  "channel_reader lib \<equiv> ChannelInReader_NextBatch lib derivation_bank
     (ChannelBank_Origin (FrameQueue_Origin L1Retrieval_Origin))"

abbreviation channel_reader_origin where
  "channel_reader_origin \<equiv> ChannelInReader_Origin (ChannelBank_Origin (FrameQueue_Origin L1Retrieval_Origin))"

interpretation cr: batch_provider "channel_reader lib" channel_reader_origin
    "\<lambda>cr. ChannelBank_inv (FrameQueue_inv L1Retrieval_inv) (cr_prev cr)"
  for lib :: "('z, 'r) ReaderLib"
  by unfold_locales (use cb.NextBatch_contract in blast)

end
