(* ===== verification/AttributesQueue.thy ===== *)
theory AttributesQueue
  imports Attributes ChannelReader
begin

text \<open>
  The attributes queue, op-node/rollup/derive/attributes_queue.go: it turns the next batch into payload
  attributes. The stage before it and the attributes builder are parameters (\<open>nextBatch\<close>, \<open>prepare\<close>);
  the instances are the batch queue and PreparePayloadAttributes. The last section follows the L2
  blocks that come of it from the genesis on.
\<close>

type_synonym 'b builder = "L2BlockRef \<Rightarrow> BlockID \<Rightarrow> 'b \<Rightarrow> (PayloadAttributes res \<times> 'b) go"

record AttributesWithParent =
  awp_Attributes :: PayloadAttributes
  awp_Parent :: L2BlockRef
  awp_IsLastInSpan :: bool

record ('q, 'b) AttributesQueue =
  aq_config :: Config
  aq_builder :: 'b
  aq_prev :: 'q
  aq_batch :: "SingularBatch option"
  aq_isLastInSpan :: bool

definition NewAttributesQueue :: "Config \<Rightarrow> 'b \<Rightarrow> 'q \<Rightarrow> ('q, 'b) AttributesQueue" where
  "NewAttributesQueue cfg builder prev =
     \<lparr>aq_config = cfg, aq_builder = builder, aq_prev = prev, aq_batch = None, aq_isLastInSpan = False\<rparr>"

definition AttributesQueue_Origin :: "('q \<Rightarrow> L1BlockRef) \<Rightarrow> ('q, 'b) AttributesQueue \<Rightarrow> L1BlockRef" where
  "AttributesQueue_Origin prev_origin aq = prev_origin (aq_prev aq)"

definition createNextAttributes :: "'b builder \<Rightarrow> Config \<Rightarrow> SingularBatch \<Rightarrow> L2BlockRef \<Rightarrow> 'b
    \<Rightarrow> (PayloadAttributes res \<times> 'b) go" where
  "createNextAttributes prepare cfg batch l2SafeHead builder =
     (if sb_ParentHash batch \<noteq> l2_Hash l2SafeHead then
        Some (Inl (NewResetError (Some (Msg ''valid batch has bad parent hash''))), builder)
      else if NextMillisecondBlockTime cfg (l2_MillisecondTimestamp l2SafeHead) \<noteq> sb_Timestamp batch then
        Some (Inl (NewResetError (Some (Msg ''valid batch has bad timestamp''))), builder)
      else do {
        (attrs, builder) \<leftarrow> prepare l2SafeHead (Epoch batch) builder;
        case attrs of
          Inl err \<Rightarrow> Some (Inl err, builder)
        | Inr attrs \<Rightarrow>
            Some (Inr (attrs\<lparr>pa_NoTxPool := True,
                             pa_Transactions := pa_Transactions attrs @ sb_Transactions batch\<rparr>), builder)
      })"

text \<open>The attributes of the batch that is held: on success the queue is cleared.\<close>

definition generate_attributes :: "'b builder \<Rightarrow> L2BlockRef \<Rightarrow> SingularBatch \<Rightarrow> ('q, 'b) AttributesQueue
    \<Rightarrow> (AttributesWithParent res \<times> ('q, 'b) AttributesQueue) go" where
  "generate_attributes prepare parent batch aq = do {
     (attrs, builder) \<leftarrow> createNextAttributes prepare (aq_config aq) batch parent (aq_builder aq);
     let aq = aq\<lparr>aq_builder := builder\<rparr>;
     case attrs of
       Inl err \<Rightarrow> Some (Inl err, aq)
     | Inr attrs \<Rightarrow>
         Some (Inr \<lparr>awp_Attributes = attrs, awp_Parent = parent, awp_IsLastInSpan = aq_isLastInSpan aq\<rparr>,
               aq\<lparr>aq_batch := None, aq_isLastInSpan := False\<rparr>)
   }"

definition NextAttributes :: "('e \<Rightarrow> L2BlockRef \<Rightarrow> 'q \<Rightarrow> ((SingularBatch \<times> bool) res \<times> 'q) go) \<Rightarrow> 'b builder \<Rightarrow> 'e
    \<Rightarrow> L2BlockRef \<Rightarrow> ('q, 'b) AttributesQueue \<Rightarrow> (AttributesWithParent res \<times> ('q, 'b) AttributesQueue) go" where
  "NextAttributes nextBatch prepare env parent aq =
     (case aq_batch aq of
        Some batch \<Rightarrow> generate_attributes prepare parent batch aq
      | None \<Rightarrow> do {
          (r, prev) \<leftarrow> nextBatch env parent (aq_prev aq);
          let aq = aq\<lparr>aq_prev := prev\<rparr>;
          case r of
            Inl err \<Rightarrow> Some (Inl err, aq)
          | Inr (batch, isLastInSpan) \<Rightarrow>
              generate_attributes prepare parent batch (aq\<lparr>aq_batch := Some batch, aq_isLastInSpan := isLastInSpan\<rparr>)
        })"

definition AttributesQueue_Reset :: "('q, 'b) AttributesQueue \<Rightarrow> gerr \<times> ('q, 'b) AttributesQueue" where
  "AttributesQueue_Reset aq = (EOF, aq\<lparr>aq_batch := None, aq_isLastInSpan := False\<rparr>)"

section \<open>What a call does\<close>

lemma createNextAttributes_Inr:
  assumes "createNextAttributes prepare cfg batch l2SafeHead builder = Some (Inr pa, builder')"
  obtains pa0 where "builds_on cfg l2SafeHead batch" "prepare l2SafeHead (Epoch batch) builder = Some (Inr pa0, builder')"
    "pa = pa0\<lparr>pa_NoTxPool := True, pa_Transactions := pa_Transactions pa0 @ sb_Transactions batch\<rparr>"
  using assms
  by (auto simp: createNextAttributes_def builds_on_def split: if_splits bind_splits sum.splits)

lemma createNextAttributes_builds_on:
  assumes "builds_on cfg l2SafeHead batch"
  shows "createNextAttributes prepare cfg batch l2SafeHead builder =
    map_option (apfst (map_sum (\<lambda>e. e) (\<lambda>pa. pa\<lparr>pa_NoTxPool := True, pa_Transactions := pa_Transactions pa @ sb_Transactions batch\<rparr>)))
      (prepare l2SafeHead (Epoch batch) builder)"
  using assms
  by (cases "prepare l2SafeHead (Epoch batch) builder")
    (auto simp: createNextAttributes_def builds_on_def split: sum.split)

lemma generate_attributes_Inr:
  assumes "generate_attributes prepare parent batch aq = Some (Inr awp, aq')"
  obtains pa builder where "builds_on (aq_config aq) parent batch"
    "prepare parent (Epoch batch) (aq_builder aq) = Some (Inr pa, builder)"
    "awp = \<lparr>awp_Attributes = pa\<lparr>pa_NoTxPool := True, pa_Transactions := pa_Transactions pa @ sb_Transactions batch\<rparr>,
            awp_Parent = parent, awp_IsLastInSpan = aq_isLastInSpan aq\<rparr>"
    "aq' = aq\<lparr>aq_builder := builder, aq_batch := None, aq_isLastInSpan := False\<rparr>"
  using assms
  by (auto simp: generate_attributes_def Let_def split: bind_splits sum.splits elim!: createNextAttributes_Inr)

text \<open>A batch that is held builds on the parent the next call will name.\<close>

definition aq_fits :: "L2BlockRef \<Rightarrow> ('q, 'b) AttributesQueue \<Rightarrow> bool" where
  "aq_fits parent aq \<longleftrightarrow> (\<forall>b. aq_batch aq = Some b \<longrightarrow> builds_on (aq_config aq) parent b)"

lemma map_sum_Inl: "map_sum f g x = Inl e \<longleftrightarrow> (\<exists>a. x = Inl a \<and> e = f a)" by (cases x) auto

lemma generate_attributes_fits:
  assumes "builds_on (aq_config aq) parent batch" "aq_batch aq = Some batch"
    and "generate_attributes prepare parent batch aq = Some (r, aq')"
  shows "(\<exists>awp. r = Inr awp \<and> aq_batch aq' = None) \<or>
     (\<exists>err builder. r = Inl err \<and> prepare parent (Epoch batch) (aq_builder aq) = Some (Inl err, builder) \<and>
        aq' = aq\<lparr>aq_builder := builder\<rparr>)"
  using assms(3)
  by (auto simp: generate_attributes_def createNextAttributes_builds_on [OF assms(1)] map_sum_Inl Let_def split: bind_splits sum.splits prod.splits)

text \<open>The checks of createNextAttributes never fail on batches of the batch queue, and a failed call
  can be repeated: when a held batch builds on the parent (as after a failed call with the same
  parent), NextAttributes either succeeds and holds nothing afterwards, or its error is one of the
  batch queue or of the attributes builder and a batch that is held still builds on the parent. The
  spans are assumed to follow the block times of the chain, as in NextBatch.\<close>

theorem NextAttributes_retry:
  assumes "NextAttributes (BatchQueue_NextBatch keccak256 decodeTx pull prev_origin l2) prepare env parent aq = Some (r, aq')"
    and "aq_fits parent aq" "queue_ok (aq_prev aq)" "bq_config (aq_prev aq) = aq_config aq"
    and "\<forall>span. Span span \<in> bw_Batch ` set (bq_batches (aq_prev aq))
          \<or> (\<exists>s. pull env (bq_prev (aq_prev aq)) = Some (Inr (Span span), s))
        \<longrightarrow> on_schedule (aq_config aq) (l2_MillisecondTimestamp parent) span"
    and "l2_MillisecondTimestamp parent < NextMillisecondBlockTime (aq_config aq) (l2_MillisecondTimestamp parent)"
  shows "aq_fits parent aq' \<and>
    ((\<exists>awp. r = Inr awp \<and> aq_batch aq' = None) \<or>
     (\<exists>err. r = Inl err \<and>
        ((\<exists>prev. BatchQueue_NextBatch keccak256 decodeTx pull prev_origin l2 env parent (aq_prev aq) = Some (Inl err, prev)
            \<and> aq_batch aq' = None) \<or>
         (\<exists>b builder. prepare parent (Epoch b) (aq_builder aq) = Some (Inl err, builder) \<and> aq_batch aq' = Some b))))"
proof -
  have gen: ?thesis if g: "generate_attributes prepare parent b aq0 = Some (r, aq')" "builds_on (aq_config aq) parent b"
    and aq0: "aq_config aq0 = aq_config aq" "aq_batch aq0 = Some b" "aq_builder aq0 = aq_builder aq" for b aq0
    using generate_attributes_fits [of aq0 parent b, OF _ _ g(1)] g(2) aq0 by (auto simp: aq_fits_def)
  show ?thesis
  proof (cases "aq_batch aq")
    case (Some b)
    then show ?thesis using assms(1,2) by (intro gen [of b aq]) (auto simp: NextAttributes_def aq_fits_def)
  next
    case None
    obtain x prev where n: "BatchQueue_NextBatch keccak256 decodeTx pull prev_origin l2 env parent (aq_prev aq) = Some (x, prev)"
      using assms(1) None by (auto simp: NextAttributes_def split: bind_splits)
    show ?thesis
    proof (cases x)
      case (Inl err)
      then show ?thesis using assms(1) None n by (auto simp: NextAttributes_def aq_fits_def Let_def)
    next
      case (Inr bl)
      obtain b isLast where bl: "bl = (b, isLast)" by (cases bl)
      have "builds_on (aq_config aq) parent b"
        using NextBatch_builds_on [OF n [unfolded Inr bl] assms(3)] assms(4-6) by simp
      then show ?thesis using assms(1) None n Inr bl
        by (intro gen [of b "aq\<lparr>aq_prev := prev, aq_batch := Some b, aq_isLastInSpan := isLast\<rparr>"])
          (auto simp: NextAttributes_def Let_def)
    qed
  qed
qed

definition failing_queue :: "(nat BatchQueue, nat) AttributesQueue" where
  "failing_queue = NewAttributesQueue OPBNBTestnet 0 span_queue"

theorem NextAttributes_retry_witness:
  "\<exists>aq'. NextAttributes (BatchQueue_NextBatch (\<lambda>_. 0) (\<lambda>_. Inl (Msg ''bad'')) (\<lambda>e n. Some (Inr (Span example_span), n))
       (\<lambda>n. example_origin) no_fetcher) (\<lambda>parent epoch n. Some (Inl (Msg ''down''), n + 1)) () example_head failing_queue
     = Some (Inl (Msg ''down''), aq') \<and> aq_fits example_head aq' \<and> aq_batch aq' \<noteq> None"
proof -
  let ?next = "BatchQueue_NextBatch (\<lambda>_. 0) (\<lambda>_. Inl (Msg ''bad'')) (\<lambda>e n. Some (Inr (Span example_span), n))
       (\<lambda>n. example_origin) no_fetcher" and ?prep = "\<lambda>parent epoch n. Some (Inl (Msg ''down''), n + 1)"
  let ?b = "\<lparr>sb_ParentHash = 0, sb_EpochNum = 5, sb_EpochHash = 0, sb_Timestamp = 1730000001000, sb_Transactions = [[1]]\<rparr>"
  have b: "builds_on OPBNBTestnet example_head ?b" by (simp add: builds_on_def example_eval)
  obtain aq' where r: "NextAttributes ?next ?prep () example_head failing_queue = Some (Inl (Msg ''down''), aq')"
    using span_queue_next b
    by (auto simp: NextAttributes_def failing_queue_def NewAttributesQueue_def generate_attributes_def
        createNextAttributes_builds_on)
  have s: "on_schedule OPBNBTestnet (l2_MillisecondTimestamp example_head) example_span"
    by (simp add: on_schedule_def example_span_def zero_SpanBatch_def example_eval nth_Cons')
  have f: "l2_MillisecondTimestamp example_head < NextMillisecondBlockTime OPBNBTestnet (l2_MillisecondTimestamp example_head)"
    by (simp add: example_eval)
  have "aq_fits example_head aq' \<and> aq_batch aq' \<noteq> None"
    using NextAttributes_retry [OF r] s f span_queue_next
    by (simp add: failing_queue_def NewAttributesQueue_def aq_fits_def span_queue_def queue_ok_def)
  then show ?thesis using r by blast
qed


section \<open>The chain that is derived\<close>

text \<open>The L2 blocks that come of NextAttributes, with their distance to the genesis: each is built by
  the engine from attributes for the block before, and its reference is read from it. The stages
  before may be in any state and answer anything; before Volta the L1 blocks have no milliseconds in
  the mix digest.\<close>

definition quiet_l1 :: "AttrEnv \<Rightarrow> bool" where
  "quiet_l1 env \<longleftrightarrow>
     (\<forall>h info receipts. AttrFetchReceipts env h = Inr (info, receipts) \<longrightarrow> milliPart (ai_MixDigest info) = 0) \<and>
     (\<forall>h info. InfoByHash env h = Inr info \<longrightarrow> milliPart (ai_MixDigest info) = 0)"

inductive derived :: "('e \<Rightarrow> L2BlockRef \<Rightarrow> 'q \<Rightarrow> ((SingularBatch \<times> bool) res \<times> 'q) go) \<Rightarrow> 'c AttrLib \<Rightarrow> txDecoder
    \<Rightarrow> L2BlockRef \<Rightarrow> nat \<Rightarrow> L2BlockRef \<Rightarrow> bool"
  for nextBatch lib decodeTx genesis where
  genesis: "derived nextBatch lib decodeTx genesis 0 genesis"
| block: "derived nextBatch lib decodeTx genesis n parent \<Longrightarrow>
    NextAttributes nextBatch (PreparePayloadAttributes lib env) e parent aq = Some (Inr awp, aq') \<Longrightarrow>
    aq_config aq = al_cfg lib \<Longrightarrow>
    IsVolta (al_cfg lib) (NextSecondBlockTime (al_cfg lib) (l2_MillisecondTimestamp parent)) \<or> quiet_l1 env \<Longrightarrow>
    built_from (awp_Attributes awp) payload \<Longrightarrow> ep_BlockNumber payload = l2_Number parent + 1 \<Longrightarrow>
    PayloadToBlockRef (al_keccak256 lib) decodeTx (al_cfg lib) payload = Inr ref \<Longrightarrow>
    derived nextBatch lib decodeTx genesis (Suc n) ref"

inductive_simps derived_0 [simp]: "derived nextBatch lib decodeTx genesis 0 ref"
inductive_cases derived_SucE: "derived nextBatch lib decodeTx genesis (Suc n) ref"

lemma NextAttributes_Inr:
  assumes "NextAttributes nextBatch prepare env parent aq = Some (Inr awp, aq')"
  obtains batch pa builder where "builds_on (aq_config aq) parent batch"
    "prepare parent (Epoch batch) (aq_builder aq) = Some (Inr pa, builder)"
    "awp_Attributes awp = pa\<lparr>pa_NoTxPool := True, pa_Transactions := pa_Transactions pa @ sb_Transactions batch\<rparr>"
  using assms
  by (auto simp: NextAttributes_def Let_def split: option.splits bind_splits sum.splits elim!: generate_attributes_Inr)

lemma built_from_more:
  assumes "built_from (pa\<lparr>pa_NoTxPool := b, pa_Transactions := pa_Transactions pa @ txs\<rparr>) payload"
  shows "built_from pa payload"
proof -
  have "take (length (pa_Transactions pa)) (take (length (pa_Transactions pa @ txs)) (ep_Transactions payload))
    = pa_Transactions pa"
    using assms by (simp add: built_from_def)
  then show ?thesis using assms by (simp add: built_from_def)
qed

lemma honest_quiet_info:
  "epoch_inputs lib env parent epoch = Inr (info, depositTxs, sysConfig, seqNumber) \<Longrightarrow> quiet_l1 env
    \<Longrightarrow> milliPart (ai_MixDigest info) = 0"
  by (auto simp: epoch_inputs_def quiet_l1_def split: sum.splits if_splits prod.splits list.splits)

lemma scheduled_before_Volta:
  assumes "realistic cfg" "cfg_FourierTime cfg = None" "volta_aligned cfg"
    and "bid_Number (gen_L2 (cfg_Genesis cfg)) \<le> n" "n < 2 ^ 41"
    and w: "MillisecondTimestampForBlock cfg n = Some w" and "\<not> IsVolta cfg (w div 1000)"
  shows "w div 1000 * 1000 = w"
proof -
  have u: "unat w = block_ms cfg (unat n)"
    using MillisecondTimestampForBlock_refines [OF assms(1,2,4,5)] w by auto
  have "block_ms cfg (unat n) mod 1000 = 0"
  proof (cases "volta_at cfg")
    case None
    then show ?thesis by (simp add: block_ms_def)
  next
    case (Some vk)
    then obtain v k where vk: "volta_at cfg = Some (v, k)" by (cases vk) auto
    note V = VoltaBlockNumber_Some [OF assms(1) vk]
    have "\<not> v \<le> unat w div 1000"
      using assms(7) V(3,4) by (simp add: IsVolta_def word_le_nat_alt unat_div unat_of_nat take_bit_nat_eq_self)
    then have "\<not> v * 1000 \<le> block_ms cfg (unat n)" using u by linarith
    then show ?thesis using vk by (auto simp: block_ms_def Let_def split: if_splits)
  qed
  then have "w mod 1000 = 0" using u by (simp add: word_arith_nat_mod)
  then show ?thesis using div_mult_mod_eq [of w 1000] by simp
qed


definition genesis_ref :: L2BlockRef where
  "genesis_ref = \<lparr>l2_Hash = 20, l2_Number = 0, l2_ParentHash = 0, l2_Time = 1691753723, l2_MilliTime = 0,
     l2_L1Origin = \<lparr>bid_Hash = 5, bid_Number = 6\<rparr>, l2_SequenceNumber = 0\<rparr>"

definition main_lib :: "unit AttrLib" where "main_lib = attr_lib\<lparr>al_cfg := OPBNBMainnet\<rparr>"

definition first_batch :: SingularBatch where
  "first_batch = \<lparr>sb_ParentHash = 20, sb_EpochNum = 6, sb_EpochHash = 5, sb_Timestamp = 1691753724000,
     sb_Transactions = [[1, 2]]\<rparr>"

lemma main_cfg: "al_cfg main_lib = OPBNBMainnet" by (simp add: main_lib_def)

lemma main_time: "NextMillisecondBlockTime OPBNBMainnet (l2_MillisecondTimestamp genesis_ref) = 1691753724000"
  by (simp add: genesis_ref_def NextMillisecondBlockTime_def MillisecondBlockInterval_def
      l2_MillisecondTimestamp_def IsVolta_def IsFourier_def OPBNBMainnet_def)

abbreviation main_state :: "unit SnowState" where
  "main_state \<equiv> \<lparr>latestBlockHash = 0, latestL1GasPrice = None, BlockInfoCache = ()\<rparr>"

lemma main_attributes:
  "\<exists>pa. PreparePayloadAttributes main_lib attr_env genesis_ref (Epoch first_batch) main_state = Some (Inr pa, main_state)"
proof -
  let ?sysConfig = "\<lparr>BatcherAddr = 1, Overhead = 2, Scalar = EncodeScalar \<lparr>BlobBaseFeeScalar = 3, BaseFeeScalar = 2\<rparr>, GasLimit = 4\<rparr>"
  have e: "epoch_inputs main_lib attr_env genesis_ref (Epoch first_batch) = Inr (attr_info, [], ?sysConfig, 1)"
    by (simp add: epoch_inputs_def attr_env_def attr_info_def genesis_ref_def first_batch_def Epoch_def)
  have fee: "l1_base_fee main_lib attr_env genesis_ref (Epoch first_batch) main_state = Some (Inr (Some 7), main_state)"
    unfolding l1_base_fee_def NextSecondBlockTime_def main_cfg main_time
    by (simp add: IsSnow_def IsFermat_def isTimestampForked_def isBlockForked_def OPBNBMainnet_def genesis_ref_def
        attr_env_def BaseFeeByTransactions_def)
  obtain dep where dep: "L1InfoDeposit (al_keccak256 main_lib) OPBNBMainnet ?sysConfig 1
      (BlockInfo.truncate (attr_info\<lparr>bi_BaseFee := 7\<rparr>)) 1691753724000 = Inr dep"
    using mainnet_before_Ecotone
    by (cases "IsRegolith OPBNBMainnet 1691753724")
      (auto simp: L1InfoDeposit_def marshalBinaryBedrock_def WriteUint256_def attr_info_def BlockInfo.truncate_def
        zero_L1BlockInfo_def Let_def)
  have forks: "\<not> IsVolta OPBNBMainnet 1691753724" "\<not> IsFourier OPBNBMainnet 1691753724"
    "upgrade_txs main_lib 1691753724000 = Inr []"
    by (simp_all add: upgrade_txs_def IsEcotoneActivationBlock_def IsFjordActivationBlock_def main_cfg fork_defs OPBNBMainnet_def)
  have "\<exists>pa. finish_attributes main_lib genesis_ref attr_info [] ?sysConfig 1 (Some 7) = Some (Inr pa)"
    unfolding finish_attributes_def main_cfg main_time Let_def L1InfoDepositBytes_def
    using forks dep by (simp add: main_lib_def attr_lib_def attr_info_def)
  then show ?thesis unfolding PreparePayloadAttributes_def e by (auto simp: fee)
qed

lemma main_NextAttributes:
  "\<exists>awp aq'. NextAttributes (\<lambda>u parent n. Some (Inr (first_batch, False), n)) (PreparePayloadAttributes main_lib attr_env) ()
     genesis_ref (NewAttributesQueue OPBNBMainnet main_state (0 :: nat)) = Some (Inr awp, aq')"
proof -
  have "builds_on OPBNBMainnet genesis_ref first_batch"
    unfolding builds_on_def main_time by (simp add: first_batch_def genesis_ref_def)
  then show ?thesis using main_attributes
    by (auto simp: NextAttributes_def NewAttributesQueue_def generate_attributes_def createNextAttributes_builds_on)
qed


end
