(* ===== verification/Compressors.thy ===== *)
theory Compressors
  imports Errors
begin

text \<open>
  Compressors: the channel compressor of op-node/rollup/derive/channel_compressor.go with the
  algorithm names of types.go, and the three compressors of op-batcher/compressor. The zlib and
  brotli writers and float division are parameters (\<open>CompressLib\<close>): a writer's state, and the bytes that a
  call appends to the buffer under it.
\<close>

definition ErrCompressorFull :: gerr where "ErrCompressorFull = Msg ''compressor is full''"

section \<open>Algorithms\<close>

type_synonym CompressionAlgo = string

definition Zlib :: CompressionAlgo where "Zlib = ''zlib''"
definition Brotli :: CompressionAlgo where "Brotli = ''brotli''"
definition Brotli9 :: CompressionAlgo where "Brotli9 = ''brotli-9''"
definition Brotli10 :: CompressionAlgo where "Brotli10 = ''brotli-10''"
definition Brotli11 :: CompressionAlgo where "Brotli11 = ''brotli-11''"

definition CompressionAlgos :: "CompressionAlgo list" where
  "CompressionAlgos = [Zlib, Brotli, Brotli9, Brotli10, Brotli11]"

definition ValidCompressionAlgo :: "CompressionAlgo \<Rightarrow> bool" where
  "ValidCompressionAlgo value \<longleftrightarrow> list_ex (\<lambda>k. k = value) CompressionAlgos"

definition CompressionAlgo_Set :: "CompressionAlgo \<Rightarrow> CompressionAlgo \<Rightarrow> gerr option \<times> CompressionAlgo" where
  "CompressionAlgo_Set value algo =
     (if \<not> ValidCompressionAlgo value then (Some (Msg ''unknown compression algo type''), algo) else (None, value))"

definition IsBrotli :: "CompressionAlgo \<Rightarrow> bool" where
  "IsBrotli algo \<longleftrightarrow> algo \<in> {''brotli'', ''brotli-9'', ''brotli-10'', ''brotli-11''}"

definition GetBrotliLevel :: "CompressionAlgo \<Rightarrow> nat go" where
  "GetBrotliLevel algo =
     (if algo = Brotli9 then Some 9 else if algo = Brotli10 \<or> algo = Brotli then Some 10
      else if algo = Brotli11 then Some 11 else None)"

section \<open>Writers and the channel compressor\<close>

record 'w CompressLib =
  cl_zlib :: "bool \<Rightarrow> 'w res"
  cl_brotli :: "nat \<Rightarrow> 'w"
  cl_Write :: "'w \<Rightarrow> bytes \<Rightarrow> bytes \<times> gerr option \<times> 'w"
  cl_Flush :: "'w \<Rightarrow> bytes \<times> gerr option \<times> 'w"
  cl_Close :: "'w \<Rightarrow> bytes \<times> gerr option \<times> 'w"
  cl_Reset :: "'w \<Rightarrow> 'w"
  cl_float_div :: "u64 \<Rightarrow> u64 \<Rightarrow> u64"

definition ChannelVersionBrotliByte :: byte where "ChannelVersionBrotliByte = 1"

record 'w ChannelCompressor =
  cc_compressed :: bytes
  cc_writer :: 'w
  cc_brotli :: bool

definition NewChannelCompressor :: "'w CompressLib \<Rightarrow> CompressionAlgo \<Rightarrow> 'w ChannelCompressor res go" where
  "NewChannelCompressor lib algo =
     (if algo = Zlib then
        (case cl_zlib lib True of
           Inl err \<Rightarrow> Some (Inl err)
         | Inr writer \<Rightarrow> Some (Inr \<lparr>cc_compressed = [], cc_writer = writer, cc_brotli = False\<rparr>))
      else if IsBrotli algo then do {
        level \<leftarrow> GetBrotliLevel algo;
        Some (Inr \<lparr>cc_compressed = [ChannelVersionBrotliByte], cc_writer = cl_brotli lib level, cc_brotli = True\<rparr>)
      }
      else Some (Inl (Msg ''unsupported compression algorithm'')))"

text \<open>A call of the writer appends what it emits to the buffer.\<close>

definition emit :: "bytes \<times> gerr option \<times> 'w \<Rightarrow> 'w ChannelCompressor \<Rightarrow> gerr option \<times> 'w ChannelCompressor" where
  "emit r cc = (case r of (bs, err, writer) \<Rightarrow>
     (err, cc\<lparr>cc_compressed := cc_compressed cc @ bs, cc_writer := writer\<rparr>))"

definition cc_Write :: "'w CompressLib \<Rightarrow> bytes \<Rightarrow> 'w ChannelCompressor \<Rightarrow> gerr option \<times> 'w ChannelCompressor" where
  "cc_Write lib p cc = emit (cl_Write lib (cc_writer cc) p) cc"

definition cc_Flush :: "'w CompressLib \<Rightarrow> 'w ChannelCompressor \<Rightarrow> gerr option \<times> 'w ChannelCompressor" where
  "cc_Flush lib cc = emit (cl_Flush lib (cc_writer cc)) cc"

definition cc_Close :: "'w CompressLib \<Rightarrow> 'w ChannelCompressor \<Rightarrow> gerr option \<times> 'w ChannelCompressor" where
  "cc_Close lib cc = emit (cl_Close lib (cc_writer cc)) cc"

definition cc_Len :: "'w ChannelCompressor \<Rightarrow> nat" where
  "cc_Len cc = length (cc_compressed cc)"

text \<open>\<open>io.ReadFull\<close> of the buffer: a read that falls short takes all that is there.\<close>

definition cc_ReadFull :: "nat \<Rightarrow> 'w ChannelCompressor \<Rightarrow> bytes res \<times> 'w ChannelCompressor" where
  "cc_ReadFull n cc =
     (case ReadFull n (cc_compressed cc) of
        Inr (data, rest) \<Rightarrow> (Inr data, cc\<lparr>cc_compressed := rest\<rparr>)
      | Inl err \<Rightarrow> (Inl err, cc\<lparr>cc_compressed := []\<rparr>))"

definition ZlibCompressor_Reset :: "'w CompressLib \<Rightarrow> 'w ChannelCompressor \<Rightarrow> 'w ChannelCompressor" where
  "ZlibCompressor_Reset lib cc = cc\<lparr>cc_compressed := [], cc_writer := cl_Reset lib (cc_writer cc)\<rparr>"

definition BrotliCompressor_Reset :: "'w CompressLib \<Rightarrow> 'w ChannelCompressor \<Rightarrow> 'w ChannelCompressor" where
  "BrotliCompressor_Reset lib cc =
     cc\<lparr>cc_compressed := [ChannelVersionBrotliByte], cc_writer := cl_Reset lib (cc_writer cc)\<rparr>"

definition cc_Reset :: "'w CompressLib \<Rightarrow> 'w ChannelCompressor \<Rightarrow> 'w ChannelCompressor" where
  "cc_Reset lib cc = (if cc_brotli cc then BrotliCompressor_Reset lib cc else ZlibCompressor_Reset lib cc)"

section \<open>The compressors of the batcher\<close>

definition CloseOverheadZlib :: u64 where "CloseOverheadZlib = 9"
definition safeCompressionOverhead :: u64 where "safeCompressionOverhead = 51"

record CompressorConfig =
  cfg_TargetOutputSize :: u64
  cfg_ApproxComprRatio :: u64
  cfg_Kind :: string
  cfg_CompressionAlgo :: CompressionAlgo

datatype 'w Compressor =
    RatioCompressor (ratio_config: CompressorConfig) (ratio_inputBytes: nat) (ratio_compressor: "'w ChannelCompressor")
  | ShadowCompressor (shadow_config: CompressorConfig) (shadow_compressor: "'w ChannelCompressor")
      (shadow_shadow: "'w ChannelCompressor") (shadow_fullErr: "gerr option") (shadow_bound: u64)
  | NonCompressor (non_config: CompressorConfig) (non_compressor: "'w ChannelCompressor") (non_fullErr: "gerr option")

definition NewRatioCompressor :: "'w CompressLib \<Rightarrow> CompressorConfig \<Rightarrow> 'w Compressor res go" where
  "NewRatioCompressor lib config = do {
     r \<leftarrow> NewChannelCompressor lib (cfg_CompressionAlgo config);
     case r of Inl err \<Rightarrow> Some (Inl err) | Inr compressor \<Rightarrow> Some (Inr (RatioCompressor config 0 compressor))
   }"

definition NewShadowCompressor :: "'w CompressLib \<Rightarrow> CompressorConfig \<Rightarrow> 'w Compressor res go" where
  "NewShadowCompressor lib config = do {
     r \<leftarrow> NewChannelCompressor lib (cfg_CompressionAlgo config);
     case r of Inl err \<Rightarrow> Some (Inl err)
     | Inr compressor \<Rightarrow> do {
         r \<leftarrow> NewChannelCompressor lib (cfg_CompressionAlgo config);
         case r of Inl err \<Rightarrow> Some (Inl err)
         | Inr shadow \<Rightarrow> Some (Inr (ShadowCompressor config compressor shadow None safeCompressionOverhead))
       }
   }"

definition NewNonCompressor :: "'w CompressLib \<Rightarrow> CompressorConfig \<Rightarrow> 'w Compressor res go" where
  "NewNonCompressor lib config =
     (case cl_zlib lib False of
        Inl err \<Rightarrow> Some (Inl err)
      | Inr writer \<Rightarrow> Some (Inr (NonCompressor config \<lparr>cc_compressed = [], cc_writer = writer, cc_brotli = False\<rparr> None)))"

definition NewCompressor :: "'w CompressLib \<Rightarrow> CompressorConfig \<Rightarrow> 'w Compressor res go" where
  "NewCompressor lib c =
     (if cfg_Kind c = ''shadow'' then NewShadowCompressor lib c
      else if cfg_Kind c = ''none'' then NewNonCompressor lib c
      else NewRatioCompressor lib c)"

definition InputThreshold :: "'w CompressLib \<Rightarrow> CompressorConfig \<Rightarrow> u64" where
  "InputThreshold lib config = cl_float_div lib (cfg_TargetOutputSize config) (cfg_ApproxComprRatio config)"

definition inputTargetReached :: "'w CompressLib \<Rightarrow> CompressorConfig \<Rightarrow> nat \<Rightarrow> bool" where
  "inputTargetReached lib config inputBytes \<longleftrightarrow> of_nat inputBytes \<ge> InputThreshold lib config"

fun Compressor_FullErr :: "'w CompressLib \<Rightarrow> 'w Compressor \<Rightarrow> gerr option" where
  "Compressor_FullErr lib (RatioCompressor config inputBytes cc) =
     (if inputTargetReached lib config inputBytes then Some ErrCompressorFull else None)"
| "Compressor_FullErr lib (ShadowCompressor config cc shadow fullErr bound) = fullErr"
| "Compressor_FullErr lib (NonCompressor config cc fullErr) = fullErr"

definition RatioCompressor_Write :: "'w CompressLib \<Rightarrow> bytes \<Rightarrow> CompressorConfig \<Rightarrow> nat \<Rightarrow> 'w ChannelCompressor
    \<Rightarrow> gerr option \<times> 'w Compressor" where
  "RatioCompressor_Write lib p config inputBytes cc =
     (case Compressor_FullErr lib (RatioCompressor config inputBytes cc) of
        Some err \<Rightarrow> (Some err, RatioCompressor config inputBytes cc)
      | None \<Rightarrow> (case cc_Write lib p cc of (err, cc) \<Rightarrow> (err, RatioCompressor config (inputBytes + length p) cc)))"

definition ShadowCompressor_Write :: "'w CompressLib \<Rightarrow> bytes \<Rightarrow> CompressorConfig \<Rightarrow> 'w ChannelCompressor
    \<Rightarrow> 'w ChannelCompressor \<Rightarrow> gerr option \<Rightarrow> u64 \<Rightarrow> gerr option \<times> 'w Compressor" where
  "ShadowCompressor_Write lib p config cc shadow fullErr bound =
     (if fullErr \<noteq> None then (fullErr, ShadowCompressor config cc shadow fullErr bound)
      else
        (case cc_Write lib p shadow of
           (Some err, shadow) \<Rightarrow> (Some err, ShadowCompressor config cc shadow fullErr bound)
         | (None, shadow) \<Rightarrow>
             (let newBound = bound + of_nat (length p);
                  write = (\<lambda>shadow fullErr bound.
                    (case cc_Write lib p cc of (err, cc) \<Rightarrow> (err, ShadowCompressor config cc shadow fullErr bound))) in
              if newBound > cfg_TargetOutputSize config then
                (case cc_Flush lib shadow of
                   (Some err, shadow) \<Rightarrow> (Some err, ShadowCompressor config cc shadow fullErr bound)
                 | (None, shadow) \<Rightarrow>
                     (let newBound = of_nat (cc_Len shadow) + CloseOverheadZlib in
                      if newBound > cfg_TargetOutputSize config then
                        (if cc_Len cc > 0 then
                           (Some ErrCompressorFull, ShadowCompressor config cc shadow (Some ErrCompressorFull) bound)
                         else write shadow (Some ErrCompressorFull) newBound)
                      else write shadow fullErr newBound))
              else write shadow fullErr newBound)))"

definition NonCompressor_Write :: "'w CompressLib \<Rightarrow> bytes \<Rightarrow> CompressorConfig \<Rightarrow> 'w ChannelCompressor \<Rightarrow> gerr option
    \<Rightarrow> gerr option \<times> 'w Compressor" where
  "NonCompressor_Write lib p config cc fullErr =
     (case cc_Flush lib cc of
        (Some err, cc) \<Rightarrow> (Some err, NonCompressor config cc fullErr)
      | (None, cc) \<Rightarrow>
          (case cc_Write lib p cc of
             (Some err, cc) \<Rightarrow> (Some err, NonCompressor config cc fullErr)
           | (None, cc) \<Rightarrow>
               (None, NonCompressor config cc
                  (if of_nat (cc_Len cc) > cfg_TargetOutputSize config then Some ErrCompressorFull else fullErr))))"

fun Compressor_Write :: "'w CompressLib \<Rightarrow> bytes \<Rightarrow> 'w Compressor \<Rightarrow> gerr option \<times> 'w Compressor" where
  "Compressor_Write lib p (RatioCompressor config inputBytes cc) = RatioCompressor_Write lib p config inputBytes cc"
| "Compressor_Write lib p (ShadowCompressor config cc shadow fullErr bound) =
     ShadowCompressor_Write lib p config cc shadow fullErr bound"
| "Compressor_Write lib p (NonCompressor config cc fullErr) = NonCompressor_Write lib p config cc fullErr"

text \<open>The other operations act on the buffer that is read.\<close>

fun buffer_of :: "'w Compressor \<Rightarrow> 'w ChannelCompressor" where
  "buffer_of (RatioCompressor config inputBytes cc) = cc"
| "buffer_of (ShadowCompressor config cc shadow fullErr bound) = cc"
| "buffer_of (NonCompressor config cc fullErr) = cc"

fun with_buffer :: "'w ChannelCompressor \<Rightarrow> 'w Compressor \<Rightarrow> 'w Compressor" where
  "with_buffer cc (RatioCompressor config inputBytes _) = RatioCompressor config inputBytes cc"
| "with_buffer cc (ShadowCompressor config _ shadow fullErr bound) = ShadowCompressor config cc shadow fullErr bound"
| "with_buffer cc (NonCompressor config _ fullErr) = NonCompressor config cc fullErr"

definition Compressor_Close :: "'w CompressLib \<Rightarrow> 'w Compressor \<Rightarrow> gerr option \<times> 'w Compressor" where
  "Compressor_Close lib t = (case cc_Close lib (buffer_of t) of (err, cc) \<Rightarrow> (err, with_buffer cc t))"

definition Compressor_Flush :: "'w CompressLib \<Rightarrow> 'w Compressor \<Rightarrow> gerr option \<times> 'w Compressor" where
  "Compressor_Flush lib t = (case cc_Flush lib (buffer_of t) of (err, cc) \<Rightarrow> (err, with_buffer cc t))"

definition Compressor_Len :: "'w Compressor \<Rightarrow> nat" where
  "Compressor_Len t = cc_Len (buffer_of t)"

definition Compressor_ReadFull :: "nat \<Rightarrow> 'w Compressor \<Rightarrow> bytes res \<times> 'w Compressor" where
  "Compressor_ReadFull n t = (case cc_ReadFull n (buffer_of t) of (r, cc) \<Rightarrow> (r, with_buffer cc t))"

fun Compressor_Reset :: "'w CompressLib \<Rightarrow> 'w Compressor \<Rightarrow> 'w Compressor" where
  "Compressor_Reset lib (RatioCompressor config inputBytes cc) = RatioCompressor config 0 (cc_Reset lib cc)"
| "Compressor_Reset lib (ShadowCompressor config cc shadow fullErr bound) =
     ShadowCompressor config (cc_Reset lib cc) (cc_Reset lib shadow) None safeCompressionOverhead"
| "Compressor_Reset lib (NonCompressor config cc fullErr) = NonCompressor config (ZlibCompressor_Reset lib cc) None"

end
