(* ===== verification/ChannelOut.thy ===== *)
theory ChannelOut
  imports Compressors Channel SpanBatch L1Info
begin

text \<open>
  The writing side of a channel, op-node/rollup/derive/channel_out.go and span_channel_out.go: batches
  go in, are compressed, and frames come out. The random channel ids, the RLP header of a byte string
  and the binary form of a transaction are parameters.
\<close>

definition ErrMaxFrameSizeTooSmall :: gerr where
  "ErrMaxFrameSizeTooSmall = Msg ''maxSize is too small to fit the fixed frame overhead''"
definition ErrNotDepositTx :: gerr where "ErrNotDepositTx = Msg ''first transaction in block is not a deposit tx''"
definition ErrTooManyRLPBytes :: gerr where "ErrTooManyRLPBytes = Msg ''batch would cause RLP bytes to go over limit''"
definition ErrChannelOutAlreadyClosed :: gerr where "ErrChannelOutAlreadyClosed = Msg ''channel-out already closed''"

definition FrameV0OverHeadSize :: nat where "FrameV0OverHeadSize = 23"
definition SafeMaxRLPBytesPerChannel :: nat where "SafeMaxRLPBytesPerChannel = 10000000"

section \<open>Blocks to batches\<close>

text \<open>A block as the batcher has it: with the binary form of each transaction.\<close>

record OutBlock = L2Block +
  ob_MarshalBinary :: "nat \<Rightarrow> bytes res"

fun opaque_txs :: "(nat \<Rightarrow> bytes res) \<Rightarrow> nat \<Rightarrow> (byte \<times> bytes) list \<Rightarrow> bytes list res" where
  "opaque_txs marshal i [] = Inr []"
| "opaque_txs marshal i (tx # txs) =
     (if fst tx = DepositTxType then opaque_txs marshal (i + 1) txs
      else
        (case marshal i of
           Inl err \<Rightarrow> Inl (Wrap ''could not encode tx in block'' err)
         | Inr otx \<Rightarrow> (case opaque_txs marshal (i + 1) txs of Inl err \<Rightarrow> Inl err | Inr rest \<Rightarrow> Inr (otx # rest))))"

definition BlockToSingularBatch :: "keccak \<Rightarrow> Config \<Rightarrow> OutBlock \<Rightarrow> (SingularBatch \<times> L1BlockInfo) res" where
  "BlockToSingularBatch keccak256 rollupCfg block =
     (case lb_Transactions block of
        [] \<Rightarrow> Inl (Msg ''block has no transactions'')
      | l1InfoTx # _ \<Rightarrow>
          (case opaque_txs (ob_MarshalBinary block) 0 (lb_Transactions block) of
             Inl err \<Rightarrow> Inl err
           | Inr opaqueTxs \<Rightarrow>
               if fst l1InfoTx \<noteq> DepositTxType then Inl ErrNotDepositTx
               else
                 (case L1BlockInfoFromBytes keccak256 rollupCfg (lb_Time block) (snd l1InfoTx) of
                    Inl err \<Rightarrow> Inl (Wrap ''could not parse the L1 Info deposit'' err)
                  | Inr l1Info \<Rightarrow>
                      (let ts = (if IsVolta rollupCfg (lb_Time block) then
                                   lb_Time block * 1000
                                   + (if lb_MixDigest block \<noteq> 0 then milliPart (lb_MixDigest block) else 0)
                                 else lb_Time block)
                       in Inr (\<lparr>sb_ParentHash = lb_ParentHash block, sb_EpochNum = li_Number l1Info,
                                sb_EpochHash = li_BlockHash l1Info, sb_Timestamp = ts,
                                sb_Transactions = opaqueTxs\<rparr>, l1Info)))))"

section \<open>Frames\<close>

definition createEmptyFrame :: "ChannelID \<Rightarrow> u64 \<Rightarrow> nat \<Rightarrow> bool \<Rightarrow> u64 \<Rightarrow> Frame" where
  "createEmptyFrame cid frame readyBytes closed maxSize =
     (let f = \<lparr>fr_ID = cid, fr_FrameNumber = ucast frame, fr_Data = [], fr_IsLast = False\<rparr>;
          maxDataSize = unat (maxSize - of_nat FrameV0OverHeadSize) in
      if maxDataSize \<ge> readyBytes then
        f\<lparr>fr_IsLast := closed, fr_Data := replicate readyBytes 0\<rparr>
      else f\<lparr>fr_Data := replicate maxDataSize 0\<rparr>)"

text \<open>The frame number, the error and the bytes that are written.\<close>

type_synonym Output = "u16 \<times> gerr option \<times> bytes"

section \<open>Channels of singular batches\<close>

record 'w OutLib =
  ol_compress :: "'w CompressLib"
  ol_batch :: BatchLib
  ol_rlp :: "bytes \<Rightarrow> bytes"

definition encode_batch :: "'w OutLib \<Rightarrow> InnerBatchData \<Rightarrow> bytes res go" where
  "encode_batch lib inner =
     map_option (map_sum (\<lambda>e. e) (ol_rlp lib)) (encodeTyped (ol_batch lib) \<lparr>bd_inner = inner, bd_ComprAlgo = []\<rparr>)"

record 'w SingularChannelOut =
  sco_id :: ChannelID
  sco_frame :: u64
  sco_rlpLength :: nat
  sco_compress :: "'w Compressor"
  sco_closed :: bool

definition NewSingularChannelOut :: "ChannelID res \<Rightarrow> 'w Compressor \<Rightarrow> 'w SingularChannelOut res" where
  "NewSingularChannelOut random compress =
     (case random of
        Inl err \<Rightarrow> Inl err
      | Inr cid \<Rightarrow> Inr \<lparr>sco_id = cid, sco_frame = 0, sco_rlpLength = 0, sco_compress = compress, sco_closed = False\<rparr>)"

definition SingularChannelOut_Reset :: "'w OutLib \<Rightarrow> ChannelID res \<Rightarrow> 'w SingularChannelOut
    \<Rightarrow> gerr option \<times> 'w SingularChannelOut" where
  "SingularChannelOut_Reset lib random co =
     (let co = co\<lparr>sco_frame := 0, sco_rlpLength := 0,
                 sco_compress := Compressor_Reset (ol_compress lib) (sco_compress co), sco_closed := False\<rparr>
      in case random of Inl err \<Rightarrow> (Some err, co) | Inr cid \<Rightarrow> (None, co\<lparr>sco_id := cid\<rparr>))"

definition SingularChannelOut_AddSingularBatch :: "'w OutLib \<Rightarrow> SingularBatch \<Rightarrow> 'w SingularChannelOut
    \<Rightarrow> (gerr option \<times> 'w SingularChannelOut) go" where
  "SingularChannelOut_AddSingularBatch lib batch co =
     (if sco_closed co then Some (Some ErrChannelOutAlreadyClosed, co)
      else do {
        buf \<leftarrow> encode_batch lib (InnerSingular batch);
        case buf of
          Inl err \<Rightarrow> Some (Some err, co)
        | Inr buf \<Rightarrow>
            if sco_rlpLength co + length buf > SafeMaxRLPBytesPerChannel then
              Some (Some (Wrap ''could not add bytes to channel'' ErrTooManyRLPBytes), co)
            else
              (let co = co\<lparr>sco_rlpLength := sco_rlpLength co + length buf\<rparr> in
               case Compressor_Write (ol_compress lib) buf (sco_compress co) of
                 (err, compress) \<Rightarrow> Some (err, co\<lparr>sco_compress := compress\<rparr>))
      })"

definition SingularChannelOut_AddBlock :: "'w OutLib \<Rightarrow> keccak \<Rightarrow> Config \<Rightarrow> OutBlock \<Rightarrow> 'w SingularChannelOut
    \<Rightarrow> (gerr option \<times> 'w SingularChannelOut) go" where
  "SingularChannelOut_AddBlock lib keccak256 rollupCfg block co =
     (if sco_closed co then Some (Some ErrChannelOutAlreadyClosed, co)
      else (case BlockToSingularBatch keccak256 rollupCfg block of
              Inl err \<Rightarrow> Some (Some err, co)
            | Inr (batch, l1Info) \<Rightarrow> SingularChannelOut_AddSingularBatch lib batch co))"

definition SingularChannelOut_ReadyBytes :: "'w SingularChannelOut \<Rightarrow> nat" where
  "SingularChannelOut_ReadyBytes co = Compressor_Len (sco_compress co)"

definition SingularChannelOut_Flush :: "'w OutLib \<Rightarrow> 'w SingularChannelOut \<Rightarrow> gerr option \<times> 'w SingularChannelOut" where
  "SingularChannelOut_Flush lib co =
     (case Compressor_Flush (ol_compress lib) (sco_compress co) of (err, compress) \<Rightarrow> (err, co\<lparr>sco_compress := compress\<rparr>))"

definition SingularChannelOut_FullErr :: "'w OutLib \<Rightarrow> 'w SingularChannelOut \<Rightarrow> gerr option" where
  "SingularChannelOut_FullErr lib co = Compressor_FullErr (ol_compress lib) (sco_compress co)"

definition SingularChannelOut_Close :: "'w OutLib \<Rightarrow> 'w SingularChannelOut \<Rightarrow> gerr option \<times> 'w SingularChannelOut" where
  "SingularChannelOut_Close lib co =
     (if sco_closed co then (Some ErrChannelOutAlreadyClosed, co)
      else (case Compressor_Close (ol_compress lib) (sco_compress co) of
              (err, compress) \<Rightarrow> (err, co\<lparr>sco_closed := True, sco_compress := compress\<rparr>)))"

definition SingularChannelOut_OutputFrame :: "u64 \<Rightarrow> 'w SingularChannelOut \<Rightarrow> Output \<times> 'w SingularChannelOut" where
  "SingularChannelOut_OutputFrame maxSize co =
     (if unat maxSize < FrameV0OverHeadSize then ((0, Some ErrMaxFrameSizeTooSmall, []), co)
      else
        (let f = createEmptyFrame (sco_id co) (sco_frame co) (SingularChannelOut_ReadyBytes co) (sco_closed co) maxSize in
         case Compressor_ReadFull (length (fr_Data f)) (sco_compress co) of
           (Inl err, compress) \<Rightarrow> ((0, Some err, []), co\<lparr>sco_compress := compress\<rparr>)
         | (Inr data, compress) \<Rightarrow>
             (let f = f\<lparr>fr_Data := data\<rparr>; co = co\<lparr>sco_compress := compress\<rparr> in
              case MarshalBinary buffer_write f [] of
                Inl err \<Rightarrow> ((0, Some err, []), co)
              | Inr w \<Rightarrow> ((fr_FrameNumber f, if fr_IsLast f then Some EOF else None, w),
                          co\<lparr>sco_frame := sco_frame co + 1\<rparr>))))"

section \<open>Channels of one span batch\<close>

text \<open>Two buffers hold the encoded span with and without the last batch; \<open>spco_rlpIndex\<close> tells which is
  active.\<close>

record 'w SpanChannelOut =
  spco_id :: ChannelID
  spco_frame :: u64
  spco_rlp :: "bytes \<times> bytes"
  spco_rlpIndex :: bool
  spco_lastCompressedRLPSize :: nat
  spco_compressor :: "'w ChannelCompressor"
  spco_target :: u64
  spco_closed :: bool
  spco_full :: "gerr option"
  spco_spanBatch :: SpanBatch

definition NewSpanChannelOut :: "'w OutLib \<Rightarrow> ChannelID res \<Rightarrow> u64 \<Rightarrow> int \<Rightarrow> u64 \<Rightarrow> CompressionAlgo
    \<Rightarrow> 'w SpanChannelOut res go" where
  "NewSpanChannelOut lib random genesisTimestamp chainID targetOutputSize compressionAlgo = do {
     spanBatch \<leftarrow> NewSpanBatch (lib_tx (ol_batch lib)) genesisTimestamp chainID;
     case random of
       Inl err \<Rightarrow> Some (Inl err)
     | Inr cid \<Rightarrow> do {
         compressor \<leftarrow> NewChannelCompressor (ol_compress lib) compressionAlgo;
         case compressor of
           Inl err \<Rightarrow> Some (Inl err)
         | Inr compressor \<Rightarrow>
             Some (Inr \<lparr>spco_id = cid, spco_frame = 0, spco_rlp = ([], []), spco_rlpIndex = False,
                        spco_lastCompressedRLPSize = 0, spco_compressor = compressor,
                        spco_target = targetOutputSize, spco_closed = False, spco_full = None,
                        spco_spanBatch = spanBatch\<rparr>)
       }
   }"

definition SpanChannelOut_Reset :: "'w OutLib \<Rightarrow> ChannelID res \<Rightarrow> 'w SpanChannelOut
    \<Rightarrow> (gerr option \<times> 'w SpanChannelOut) go" where
  "SpanChannelOut_Reset lib random co = do {
     spanBatch \<leftarrow> NewSpanBatch (lib_tx (ol_batch lib)) (GenesisTimestamp (spco_spanBatch co)) (ChainID (spco_spanBatch co));
     let co = co\<lparr>spco_closed := False, spco_full := None, spco_frame := 0, spco_rlp := ([], []),
                spco_lastCompressedRLPSize := 0,
                spco_compressor := cc_Reset (ol_compress lib) (spco_compressor co), spco_spanBatch := spanBatch\<rparr>;
     case random of Inl err \<Rightarrow> Some (Some err, co) | Inr cid \<Rightarrow> Some (None, co\<lparr>spco_id := cid\<rparr>)
   }"

definition activeRLP :: "'w SpanChannelOut \<Rightarrow> bytes" where
  "activeRLP co = (if spco_rlpIndex co then snd (spco_rlp co) else fst (spco_rlp co))"

definition inactiveRLP :: "'w SpanChannelOut \<Rightarrow> bytes" where
  "inactiveRLP co = (if spco_rlpIndex co then fst (spco_rlp co) else snd (spco_rlp co))"

definition swapRLP :: "'w SpanChannelOut \<Rightarrow> 'w SpanChannelOut" where
  "swapRLP co = co\<lparr>spco_rlpIndex := \<not> spco_rlpIndex co\<rparr>"

definition write_active :: "bytes \<Rightarrow> 'w SpanChannelOut \<Rightarrow> 'w SpanChannelOut" where
  "write_active bs co =
     co\<lparr>spco_rlp := (if spco_rlpIndex co then (fst (spco_rlp co), bs) else (bs, snd (spco_rlp co)))\<rparr>"

definition checkFull :: "'w SpanChannelOut \<Rightarrow> 'w SpanChannelOut" where
  "checkFull co =
     (if spco_full co \<noteq> None then co
      else if of_nat (cc_Len (spco_compressor co)) \<ge> spco_target co then co\<lparr>spco_full := Some ErrCompressorFull\<rparr>
      else co)"

definition span_compress :: "'w OutLib \<Rightarrow> 'w SpanChannelOut \<Rightarrow> gerr option \<times> 'w SpanChannelOut" where
  "span_compress lib co =
     (let cc = cc_Reset (ol_compress lib) (spco_compressor co) in
      case cc_Write (ol_compress lib) (activeRLP co) cc of
        (Some err, cc) \<Rightarrow> (Some err, co\<lparr>spco_compressor := cc\<rparr>)
      | (None, cc) \<Rightarrow>
          (case cc_Close (ol_compress lib) cc of
             (Some err, cc) \<Rightarrow> (Some err, co\<lparr>spco_compressor := cc\<rparr>)
           | (None, cc) \<Rightarrow> (None, checkFull (co\<lparr>spco_compressor := cc\<rparr>))))"

text \<open>After the batch is encoded in the active buffer: the limits are checked.\<close>

definition compress_if_needed :: "'w OutLib \<Rightarrow> 'w SpanChannelOut \<Rightarrow> gerr option \<times> 'w SpanChannelOut" where
  "compress_if_needed lib co =
     (if length (activeRLP co) > SafeMaxRLPBytesPerChannel then
        (Some (Wrap ''could not take bytes as replacement of channel'' ErrTooManyRLPBytes), co)
      else
        (let rlpGrowth = int (length (activeRLP co)) - int (spco_lastCompressedRLPSize co) in
         if (of_int (int (cc_Len (spco_compressor co)) + rlpGrowth) :: u64) < spco_target co then (None, co)
         else
           (case span_compress lib co of
              (Some err, co) \<Rightarrow> (Some err, co)
            | (None, co) \<Rightarrow>
                (let co = co\<lparr>spco_lastCompressedRLPSize := length (activeRLP co)\<rparr> in
                 case spco_full co of
                   None \<Rightarrow> (None, co)
                 | Some full \<Rightarrow>
                     if length (Batches (spco_spanBatch co)) = 1 then (None, co)
                     else (case span_compress lib (swapRLP co) of
                             (Some err, co) \<Rightarrow> (Some err, co)
                           | (None, co) \<Rightarrow> (Some full, co))))))"

definition SpanChannelOut_AddSingularBatch :: "'w OutLib \<Rightarrow> Config \<Rightarrow> SingularBatch \<Rightarrow> u64 \<Rightarrow> 'w SpanChannelOut
    \<Rightarrow> (gerr option \<times> 'w SpanChannelOut) go" where
  "SpanChannelOut_AddSingularBatch lib cfg batch seqNum co =
     (if spco_closed co then Some (Some ErrChannelOutAlreadyClosed, co)
      else if spco_full co \<noteq> None then Some (spco_full co, co)
      else do {
        (spanBatch, err) \<leftarrow> AppendSingularBatch (lib_tx (ol_batch lib)) (spco_spanBatch co) batch seqNum;
        let co = co\<lparr>spco_spanBatch := spanBatch\<rparr>;
        case err of
          Some err \<Rightarrow> Some (Some (Wrap ''failed to append SingularBatch to SpanBatch'' err), co)
        | None \<Rightarrow>
            (case ToRawSpanBatch spanBatch cfg of
               Inl err \<Rightarrow> Some (Some (Wrap ''failed to convert SpanBatch into RawSpanBatch'' err), co)
             | Inr rawSpanBatch \<Rightarrow> do {
                 let co = write_active [] (swapRLP co);
                 enc \<leftarrow> encode_batch lib (InnerRaw rawSpanBatch);
                 case enc of
                   Inl err \<Rightarrow> Some (Some (Wrap ''failed to encode RawSpanBatch into bytes'' err), co)
                 | Inr enc \<Rightarrow> Some (compress_if_needed lib (write_active enc co))
               })
      })"

definition SpanChannelOut_AddBlock :: "'w OutLib \<Rightarrow> keccak \<Rightarrow> Config \<Rightarrow> OutBlock \<Rightarrow> 'w SpanChannelOut
    \<Rightarrow> (gerr option \<times> 'w SpanChannelOut) go" where
  "SpanChannelOut_AddBlock lib keccak256 rollupCfg block co =
     (if spco_closed co then Some (Some ErrChannelOutAlreadyClosed, co)
      else (case BlockToSingularBatch keccak256 rollupCfg block of
              Inl err \<Rightarrow> Some (Some err, co)
            | Inr (batch, l1Info) \<Rightarrow>
                SpanChannelOut_AddSingularBatch lib rollupCfg batch (li_SequenceNumber l1Info) co))"

definition SpanChannelOut_ReadyBytes :: "'w SpanChannelOut \<Rightarrow> nat" where
  "SpanChannelOut_ReadyBytes co =
     (if spco_closed co \<or> spco_full co \<noteq> None then cc_Len (spco_compressor co) else 0)"

definition SpanChannelOut_Close :: "'w OutLib \<Rightarrow> 'w SpanChannelOut \<Rightarrow> gerr option \<times> 'w SpanChannelOut" where
  "SpanChannelOut_Close lib co =
     (if spco_closed co then (Some ErrChannelOutAlreadyClosed, co)
      else (let co = co\<lparr>spco_closed := True\<rparr> in
            if spco_full co \<noteq> None then (None, co) else span_compress lib co))"

definition SpanChannelOut_OutputFrame :: "u64 \<Rightarrow> 'w SpanChannelOut \<Rightarrow> Output \<times> 'w SpanChannelOut" where
  "SpanChannelOut_OutputFrame maxSize co =
     (if unat maxSize < FrameV0OverHeadSize then ((0, Some ErrMaxFrameSizeTooSmall, []), co)
      else
        (let f = createEmptyFrame (spco_id co) (spco_frame co) (SpanChannelOut_ReadyBytes co) (spco_closed co) maxSize in
         case cc_ReadFull (length (fr_Data f)) (spco_compressor co) of
           (Inl err, cc) \<Rightarrow> ((0, Some err, []), co\<lparr>spco_compressor := cc\<rparr>)
         | (Inr data, cc) \<Rightarrow>
             (let f = f\<lparr>fr_Data := data\<rparr>; co = co\<lparr>spco_compressor := cc\<rparr> in
              case MarshalBinary buffer_write f [] of
                Inl err \<Rightarrow> ((0, Some err, []), co)
              | Inr w \<Rightarrow> ((fr_FrameNumber f, if fr_IsLast f then Some EOF else None, w),
                          co\<lparr>spco_frame := spco_frame co + 1\<rparr>))))"

section \<open>Closing a channel by force\<close>

text \<open>The loop counts in 16 bits; when it cannot end, its value is \<open>None\<close>.\<close>

partial_function (option) force_frames :: "ChannelID \<Rightarrow> u16 list \<Rightarrow> u16 \<Rightarrow> u16 \<Rightarrow> bytes \<Rightarrow> bytes res option" where
  "force_frames cid frameNumbers closeNumber i out =
     (if i \<le> closeNumber then
        (if i \<in> set frameNumbers then force_frames cid frameNumbers closeNumber (i + 1) out
         else
           (case MarshalBinary buffer_write \<lparr>fr_ID = cid, fr_FrameNumber = i, fr_Data = [], fr_IsLast = False\<rparr> out of
              Inl err \<Rightarrow> Some (Inl err)
            | Inr out \<Rightarrow> force_frames cid frameNumbers closeNumber (i + 1) out))
      else Some (Inr out))"

fun first_close :: "Frame list \<Rightarrow> u16 option" where
  "first_close [] = None"
| "first_close (f # fs) = (if fr_IsLast f then Some (fr_FrameNumber f) else first_close fs)"

definition ForceCloseTxData :: "Frame list \<Rightarrow> bytes res option" where
  "ForceCloseTxData frames =
     (case frames of
        [] \<Rightarrow> Some (Inl (Msg ''must provide at least one frame''))
      | f # _ \<Rightarrow>
          if list_ex (\<lambda>g. fr_ID g \<noteq> fr_ID f) frames then Some (Inl (Msg ''invalid ID in list''))
          else
            (case first_close frames of
               None \<Rightarrow> Some (MarshalBinary buffer_write
                 \<lparr>fr_ID = fr_ID f, fr_FrameNumber = 0, fr_Data = [], fr_IsLast = True\<rparr> [DerivationVersion0])
             | Some closeNumber \<Rightarrow>
                 force_frames (fr_ID f) (map fr_FrameNumber frames) closeNumber 0 [DerivationVersion0]))"

definition filler :: "ChannelID \<Rightarrow> nat \<Rightarrow> Frame" where
  "filler cid i = \<lparr>fr_ID = cid, fr_FrameNumber = of_nat i, fr_Data = [], fr_IsLast = False\<rparr>"

lemma force_frames_fillers:
  assumes "n < 65535" "i \<le> Suc n"
  shows "force_frames cid nums (of_nat n) (of_nat i) out =
    Some (Inr (out @ concat (map (\<lambda>j. frame_bytes (filler cid j)) (filter (\<lambda>j. (of_nat j :: u16) \<notin> set nums) [i..<Suc n]))))"
  using assms(2)
proof (induction "Suc n - i" arbitrary: i out)
  case 0
  then have i: "i = Suc n" by simp
  have u: "unat (of_nat n :: u16) = n" "unat (of_nat i :: u16) = Suc n"
    using assms(1) i by (simp_all add: of_nat_u16 del: of_nat_Suc)
  then have "\<not> (of_nat i :: u16) \<le> of_nat n" unfolding word_le_nat_alt by linarith
  then show ?case using i by (subst force_frames.simps) simp
next
  case (Suc k)
  then have i: "i \<le> n" by simp
  have "unat (of_nat n :: u16) = n" "unat (of_nat i :: u16) = i"
    using assms(1) i by (simp_all add: of_nat_u16)
  then have le: "(of_nat i :: u16) \<le> of_nat n" unfolding word_le_nat_alt using i by simp
  have s: "(of_nat i :: u16) + 1 = of_nat (Suc i)" by simp
  note IH = Suc.hyps(1) [of "Suc i"]
  show ?case
  proof (cases "(of_nat i :: u16) \<in> set nums")
    case True
    then have "force_frames cid nums (of_nat n) (of_nat i) out = force_frames cid nums (of_nat n) (of_nat (Suc i)) out"
      using le by (subst force_frames.simps) (simp only: s if_True)
    also have "\<dots> = Some (Inr (out @ concat (map (\<lambda>j. frame_bytes (filler cid j)) (filter (\<lambda>j. (of_nat j :: u16) \<notin> set nums) [Suc i..<Suc n]))))"
      by (rule IH) (use Suc.hyps(2) i in simp_all)
    finally show ?thesis using True i by (simp add: upt_conv_Cons del: upt_Suc)
  next
    case False
    then have "force_frames cid nums (of_nat n) (of_nat i) out
      = force_frames cid nums (of_nat n) (of_nat (Suc i)) (out @ frame_bytes (filler cid i))"
      using le by (subst force_frames.simps) (simp only: s if_True if_False MarshalBinary_buffer sum.case filler_def)
    also have "\<dots> = Some (Inr ((out @ frame_bytes (filler cid i)) @ concat (map (\<lambda>j. frame_bytes (filler cid j)) (filter (\<lambda>j. (of_nat j :: u16) \<notin> set nums) [Suc i..<Suc n]))))"
      by (rule IH) (use Suc.hyps(2) i in simp_all)
    finally show ?thesis using False i by (simp add: upt_conv_Cons del: upt_Suc)
  qed
qed

lemma reads_all:
  assumes "0 < length pieces" "length pieces \<le> 65536" "set (map fst fbs) = set (channel_frames cid pieces)"
  shows "Reader (offer (NewChannel cid b) fbs) = Some (concat pieces)"
  using received_all [OF assms(1,2) received_offer [OF assms(2)], of fbs cid b] assms(3) by simp

text \<open>The pieces of a channel of which only some frames are there.\<close>

definition known_pieces :: "ChannelID \<Rightarrow> bytes list \<Rightarrow> Frame list \<Rightarrow> bytes list" where
  "known_pieces cid pieces fs = map (\<lambda>i. if channel_frame cid pieces i \<in> set fs then pieces ! i else []) [0..<length pieces]"

lemma known_piece_frames:
  assumes "i < length pieces"
  shows "channel_frame cid pieces i \<in> set fs \<Longrightarrow> channel_frame cid (known_pieces cid pieces fs) i = channel_frame cid pieces i"
    "channel_frame cid pieces i \<notin> set fs \<Longrightarrow> Suc i \<noteq> length pieces \<Longrightarrow>
       channel_frame cid (known_pieces cid pieces fs) i = filler cid i"
  using assms by (simp_all add: known_pieces_def channel_frame_def filler_def)

lemma first_close_channel:
  assumes "0 < length pieces" "length pieces \<le> 65535" "set fs \<subseteq> set (channel_frames cid pieces)"
    and "channel_frame cid pieces (length pieces - 1) \<in> set fs"
  shows "first_close fs = Some (of_nat (length pieces - 1))"
proof -
  have last: "fr_FrameNumber f = of_nat (length pieces - 1)" if "f \<in> set fs" "fr_IsLast f" for f
    using that assms(2,3) channel_frames_bound(2) [of pieces f cid] by auto
  have "\<exists>f \<in> set fs. fr_IsLast f"
    using assms(1) by (intro bexI [OF _ assms(4)]) simp
  with last show ?thesis by (induction fs) auto
qed

lemma channel_frames_numbers:
  assumes "length pieces \<le> 65535" "set fs \<subseteq> set (channel_frames cid pieces)" "i < length pieces"
  shows "(of_nat i :: u16) \<in> set (map fr_FrameNumber fs) \<longleftrightarrow> channel_frame cid pieces i \<in> set fs"
proof
  assume "(of_nat i :: u16) \<in> set (map fr_FrameNumber fs)"
  then obtain f where f: "f \<in> set fs" "fr_FrameNumber f = of_nat i" by auto
  have "f = channel_frame cid pieces i"
    by (rule channel_frames_inj [of pieces _ cid]) (use f assms in \<open>auto simp: channel_frames_iff\<close>)
  then show "channel_frame cid pieces i \<in> set fs" using f(1) by simp
qed (metis channel_frame_simps(2) image_eqI set_map)

text \<open>A channel of which frames are missing can be closed by force. Given frames of a channel on L1, the
  closing one among them, ForceCloseTxData returns a transaction with an empty frame for every
  missing number, and whoever has received the given frames and then these reads the channel with the
  missing pieces left out.\<close>

theorem ForceCloseTxData_closes:
  assumes "0 < length pieces" "length pieces \<le> 65535"
    and "set fs \<subseteq> set (channel_frames cid pieces)"
    and "channel_frame cid pieces (length pieces - 1) \<in> set fs"
  shows "\<exists>gs. ForceCloseTxData fs = Some (Inr (DerivationVersion0 # concat (map frame_bytes gs))) \<and>
     (\<forall>b c. Reader (offer (NewChannel cid b) (map (\<lambda>f. (f, c)) (fs @ gs))) =
       Some (concat (map (\<lambda>i. if channel_frame cid pieces i \<in> set fs then pieces ! i else []) [0..<length pieces])))"
proof -
  let ?n = "length pieces - 1" and ?k = "known_pieces cid pieces fs"
  let ?missing = "filter (\<lambda>j. (of_nat j :: u16) \<notin> set (map fr_FrameNumber fs)) [0..<Suc ?n]"
  let ?gs = "map (filler cid) ?missing"
  obtain f fs' where fs: "fs = f # fs'" using assms(4) by (cases fs) auto
  have ids: "fr_ID g = cid" if "g \<in> set fs" for g
    using subsetD [OF assms(3) that] by (auto simp: channel_frames_iff)
  then have "fr_ID f = cid" "\<not> list_ex (\<lambda>g. fr_ID g \<noteq> fr_ID f) fs" using fs by (auto simp: list_ex_iff)
  then have d: "ForceCloseTxData fs = Some (Inr (DerivationVersion0 # concat (map frame_bytes ?gs)))"
    using first_close_channel [OF assms] force_frames_fillers [of ?n 0 cid "map fr_FrameNumber fs" "[DerivationVersion0]"] assms(1,2)
    unfolding ForceCloseTxData_def fs by (simp add: comp_def del: upt_Suc)
  have nums: "(of_nat i :: u16) \<in> set (map fr_FrameNumber fs) \<longleftrightarrow> channel_frame cid pieces i \<in> set fs" if "i < length pieces" for i
    by (rule channel_frames_numbers [OF assms(2,3) that])
  have n: "[0..<Suc ?n] = [0..<length pieces]" using assms(1) by (simp del: upt_Suc)
  have lk: "length ?k = length pieces" by (simp add: known_pieces_def)
  have gs: "set ?gs = (\<lambda>i. filler cid i) ` {i. i < length pieces \<and> channel_frame cid pieces i \<notin> set fs}"
    unfolding n using nums by auto
  have at: "channel_frame cid ?k i = (if channel_frame cid pieces i \<in> set fs then channel_frame cid pieces i else filler cid i)"
    if "i < length pieces" for i
    using known_piece_frames [OF that, of cid fs] assms(4) that by (cases "i = length pieces - 1") auto
  have all: "set (fs @ ?gs) = set (channel_frames cid ?k)"
  proof (intro set_eqI iffI)
    fix g assume "g \<in> set (fs @ ?gs)"
    then consider "g \<in> set fs" | "g \<in> set ?gs" by auto
    then show "g \<in> set (channel_frames cid ?k)"
    proof cases
      case 1
      then obtain i where "i < length pieces" "g = channel_frame cid pieces i"
        using subsetD [OF assms(3)] unfolding channel_frames_iff by blast
      then show ?thesis using 1 at [of i] by (auto simp: channel_frames_iff lk)
    next
      case 2
      then obtain i where "i < length pieces" "channel_frame cid pieces i \<notin> set fs" "g = filler cid i"
        unfolding gs by blast
      then show ?thesis using at [of i] by (auto simp: channel_frames_iff lk)
    qed
  next
    fix g assume "g \<in> set (channel_frames cid ?k)"
    then obtain i where "i < length pieces" "g = channel_frame cid ?k i" by (auto simp: channel_frames_iff lk)
    then show "g \<in> set (fs @ ?gs)" using at gs by auto
  qed
  have "Reader (offer (NewChannel cid b) (map (\<lambda>f. (f, c)) (fs @ ?gs))) = Some (concat ?k)" for b c
  proof -
    let ?fbs = "map (\<lambda>f. (f, c)) (fs @ ?gs)"
    have s: "set (map fst ?fbs) = set (channel_frames cid ?k)"
      unfolding all [symmetric] by (simp only: map_map comp_def fst_conv map_ident)
    show ?thesis by (rule reads_all [OF _ _ s]) (simp_all only: lk, use assms(1,2) in simp_all)
  qed
  then show ?thesis using d unfolding known_pieces_def by blast
qed

theorem ForceCloseTxData_closes_witness:
  "\<exists>gs. ForceCloseTxData [channel_frame 7 [[1], [2], [3]] 2, channel_frame 7 [[1], [2], [3]] 0]
     = Some (Inr (0 # concat (map frame_bytes gs))) \<and>
   Reader (offer (NewChannel 7 zero_L1BlockRef)
     (map (\<lambda>f. (f, zero_L1BlockRef)) ([channel_frame 7 [[1], [2], [3]] 2, channel_frame 7 [[1], [2], [3]] 0] @ gs))) = Some [1, 3]"
  using ForceCloseTxData_closes [of "[[1], [2], [3]]" "[channel_frame 7 [[1], [2], [3]] 2, channel_frame 7 [[1], [2], [3]] 0]" 7]
  by (simp add: channel_frames_def channel_frame_def DerivationVersion0_def numeral_2_eq_2) blast

text \<open>A channel of 65536 frames cannot be closed by force: the loop counter cannot pass its bound.\<close>

lemma force_frames_never: "force_frames cid nums 65535 i out = None"
proof (rule ccontr)
  assume "force_frames cid nums 65535 i out \<noteq> None"
  then obtain r where r: "force_frames cid nums 65535 i out = Some r" by blast
  have "(65535 :: u16) \<noteq> 65535"
  proof (rule force_frames.raw_induct [OF _ r, where P = "\<lambda>cid nums c i out r. c \<noteq> 65535"])
    fix rec cid nums c i out r
    assume IH: "\<And>cid nums c i out r. rec cid nums c i out = Some r \<Longrightarrow> (c :: u16) \<noteq> 65535"
      and body: "(if i \<le> c then
          (if i \<in> set nums then rec cid nums c (i + 1) out
           else (case MarshalBinary buffer_write \<lparr>fr_ID = cid, fr_FrameNumber = i, fr_Data = [], fr_IsLast = False\<rparr> out of
                   Inl err \<Rightarrow> Some (Inl err) | Inr out \<Rightarrow> rec cid nums c (i + 1) out))
         else Some (Inr out)) = Some r"
    show "c \<noteq> 65535"
    proof
      assume c: "c = 65535"
      have "unat i < 65536" using unsigned_less [of i] by simp
      then have "i \<le> c" unfolding c by (simp add: word_le_nat_alt)
      then have "\<exists>out'. rec cid nums c (i + 1) out' = Some r" using body by (auto split: if_splits)
      then show False using IH c by blast
    qed
  qed
  then show False by simp
qed

theorem ForceCloseTxData_hangs:
  assumes "fs \<noteq> []" "\<forall>f \<in> set fs. fr_ID f = cid" "first_close fs = Some 65535"
  shows "ForceCloseTxData fs = None"
  using assms by (cases fs) (auto simp: ForceCloseTxData_def force_frames_never list_ex_iff)

text \<open>An open channel of which the first frame is on L1 is not closed: the closing frame that
  ForceCloseTxData makes has number 0, and a channel that has a frame of this number rejects it as a
  duplicate and stays as it is.\<close>

theorem ForceCloseTxData_duplicate:
  assumes "fs \<noteq> []" "\<forall>f \<in> set fs. fr_ID f = cid \<and> \<not> fr_IsLast f"
    and "ch_id ch = cid" "\<not> ch_closed ch" "map_of (ch_inputs ch) 0 \<noteq> None"
  shows "\<exists>g. ForceCloseTxData fs = Some (Inr (DerivationVersion0 # frame_bytes g)) \<and>
     AddFrame ch g b = (ch, Some DuplicateErr) \<and> \<not> IsReady ch"
proof -
  obtain f fs' where fs: "fs = f # fs'" using assms(1) by (cases fs) auto
  have "first_close fs = None" using assms(2) by (induction fs) auto
  moreover have "\<not> list_ex (\<lambda>g. fr_ID g \<noteq> fr_ID f) fs" "fr_ID f = cid" using assms(2) fs by (auto simp: list_ex_iff)
  ultimately have "ForceCloseTxData fs = Some (Inr (DerivationVersion0 # frame_bytes
      \<lparr>fr_ID = cid, fr_FrameNumber = 0, fr_Data = [], fr_IsLast = True\<rparr>))"
    unfolding ForceCloseTxData_def fs by simp
  moreover have "AddFrame ch \<lparr>fr_ID = cid, fr_FrameNumber = 0, fr_Data = [], fr_IsLast = True\<rparr> b = (ch, Some DuplicateErr)"
    using assms(3-5) by (simp add: AddFrame_def)
  moreover have "\<not> IsReady ch" using assms(4) by (simp add: IsReady_def)
  ultimately show ?thesis by blast
qed

theorem ForceCloseTxData_duplicate_witness:
  "\<exists>g. ForceCloseTxData [channel_frame 7 [[1], [2]] 0] = Some (Inr (0 # frame_bytes g)) \<and>
     snd (AddFrame (offer (NewChannel 7 zero_L1BlockRef) [(channel_frame 7 [[1], [2]] 0, zero_L1BlockRef)]) g zero_L1BlockRef)
       = Some DuplicateErr"
proof -
  let ?ch = "offer (NewChannel 7 zero_L1BlockRef) [(channel_frame 7 [[1], [2]] 0, zero_L1BlockRef)]"
  have "ch_id ?ch = 7" "\<not> ch_closed ?ch" "map_of (ch_inputs ?ch) 0 \<noteq> None"
    by (simp_all add: offer_def AddFrame_def NewChannel_def channel_frame_def Let_def zero_L1BlockRef_def)
  then show ?thesis
    using ForceCloseTxData_duplicate [of "[channel_frame 7 [[1], [2]] 0]" 7 ?ch zero_L1BlockRef]
    by (force simp: DerivationVersion0_def)
qed

section \<open>What a channel with a span batch sends\<close>

text \<open>Writers into memory do not fail, and a reset brings them back to one state; \<open>fresh\<close> is the data that
  is compressed from there and closed.\<close>

definition memory_writer :: "'w CompressLib \<Rightarrow> 'w \<Rightarrow> bool" where
  "memory_writer lib w0 \<longleftrightarrow>
     (\<forall>w p. fst (snd (cl_Write lib w p)) = None) \<and> (\<forall>w. fst (snd (cl_Close lib w)) = None) \<and> (\<forall>w. cl_Reset lib w = w0)"

definition fresh :: "'w CompressLib \<Rightarrow> 'w \<Rightarrow> bool \<Rightarrow> bytes \<Rightarrow> bytes" where
  "fresh lib w0 brotli data =
     (if brotli then [ChannelVersionBrotliByte] else []) @ fst (cl_Write lib w0 data)
     @ fst (cl_Close lib (snd (snd (cl_Write lib w0 data))))"

lemma span_compress_fresh:
  assumes "memory_writer (ol_compress lib) w0"
  obtains cc where "span_compress lib co = (None, checkFull (co\<lparr>spco_compressor := cc\<rparr>))"
    "cc_compressed cc = fresh (ol_compress lib) w0 (cc_brotli (spco_compressor co)) (activeRLP co)"
    "cc_brotli cc = cc_brotli (spco_compressor co)"
proof -
  let ?lib = "ol_compress lib" and ?d = "activeRLP co"
  obtain bs w1 where w1: "cl_Write ?lib w0 ?d = (bs, None, w1)"
    using assms unfolding memory_writer_def by (metis prod.collapse)
  obtain cs w2 where w2: "cl_Close ?lib w1 = (cs, None, w2)"
    using assms unfolding memory_writer_def by (metis prod.collapse)
  show ?thesis using assms
    by (intro that [of "(spco_compressor co)\<lparr>cc_compressed := fresh ?lib w0 (cc_brotli (spco_compressor co)) ?d,
          cc_writer := w2\<rparr>"])
      (simp_all add: span_compress_def memory_writer_def cc_Reset_def BrotliCompressor_Reset_def ZlibCompressor_Reset_def
        cc_Write_def cc_Close_def emit_def w1 w2 fresh_def Let_def)
qed

lemma checkFull_simps [simp]:
  "spco_compressor (checkFull co) = spco_compressor co" "activeRLP (checkFull co) = activeRLP co"
  "spco_spanBatch (checkFull co) = spco_spanBatch co" "spco_closed (checkFull co) = spco_closed co"
  "inactiveRLP (checkFull co) = inactiveRLP co"
  by (simp_all add: checkFull_def activeRLP_def inactiveRLP_def)

lemma rlp_simps [simp]:
  "activeRLP (write_active bs co) = bs" "inactiveRLP (write_active bs co) = inactiveRLP co"
  "activeRLP (swapRLP co) = inactiveRLP co" "inactiveRLP (swapRLP co) = activeRLP co"
  "activeRLP (co\<lparr>spco_compressor := cc\<rparr>) = activeRLP co" "activeRLP (co\<lparr>spco_lastCompressedRLPSize := n\<rparr>) = activeRLP co"
  "activeRLP (co\<lparr>spco_spanBatch := b\<rparr>) = activeRLP co" "activeRLP (co\<lparr>spco_closed := x\<rparr>) = activeRLP co"
  "inactiveRLP (co\<lparr>spco_lastCompressedRLPSize := n\<rparr>) = inactiveRLP co" "inactiveRLP (co\<lparr>spco_compressor := cc\<rparr>) = inactiveRLP co"
  "inactiveRLP (co\<lparr>spco_spanBatch := b\<rparr>) = inactiveRLP co"
  by (simp_all add: activeRLP_def inactiveRLP_def swapRLP_def write_active_def)

lemma co_simps [simp]:
  "spco_spanBatch (swapRLP co) = spco_spanBatch co" "spco_spanBatch (write_active bs co) = spco_spanBatch co"
  "spco_full (swapRLP co) = spco_full co" "spco_full (write_active bs co) = spco_full co"
  "spco_closed (swapRLP co) = spco_closed co" "spco_closed (write_active bs co) = spco_closed co"
  "spco_compressor (swapRLP co) = spco_compressor co" "spco_compressor (write_active bs co) = spco_compressor co"
  by (simp_all add: swapRLP_def write_active_def)

lemma ErrTooManyRLPBytes_Wrap: "errors_Is (Wrap s ErrTooManyRLPBytes) ErrTooManyRLPBytes" by simp

lemma full_not_too_many: "\<not> errors_Is ErrCompressorFull ErrTooManyRLPBytes"
  by (simp add: ErrCompressorFull_def ErrTooManyRLPBytes_def)

lemma compress_if_needed_cases:
  assumes "memory_writer (ol_compress lib) w0" "spco_full co = None" "compress_if_needed lib co = (err, co')"
  defines "sent \<equiv> \<lambda>co data. cc_compressed (spco_compressor co) = fresh (ol_compress lib) w0 (cc_brotli (spco_compressor co)) data"
  shows "spco_spanBatch co' = spco_spanBatch co \<and> spco_closed co' = spco_closed co \<and>
     cc_brotli (spco_compressor co') = cc_brotli (spco_compressor co) \<and>
     ((err = Some (Wrap ''could not take bytes as replacement of channel'' ErrTooManyRLPBytes) \<and> co' = co
         \<and> length (activeRLP co) > SafeMaxRLPBytesPerChannel)
      \<or> (err = None \<and> activeRLP co' = activeRLP co \<and> (spco_full co' = None \<or> sent co' (activeRLP co)))
      \<or> (err = Some ErrCompressorFull \<and> activeRLP co' = inactiveRLP co \<and> spco_full co' = err \<and> sent co' (inactiveRLP co)))"
proof (cases "length (activeRLP co) > SafeMaxRLPBytesPerChannel")
  case True
  then show ?thesis using assms(3) by (simp add: compress_if_needed_def)
next
  case small: False
  show ?thesis
  proof (cases "(of_int (int (cc_Len (spco_compressor co)) + (int (length (activeRLP co)) - int (spco_lastCompressedRLPSize co))) :: u64)
      < spco_target co")
    case True
    then show ?thesis using assms(2,3) small by (simp add: compress_if_needed_def Let_def)
  next
    case False
    obtain cc where cc: "span_compress lib co = (None, checkFull (co\<lparr>spco_compressor := cc\<rparr>))"
      "cc_compressed cc = fresh (ol_compress lib) w0 (cc_brotli (spco_compressor co)) (activeRLP co)"
      "cc_brotli cc = cc_brotli (spco_compressor co)"
      using span_compress_fresh [OF assms(1)] .
    let ?co1 = "checkFull (co\<lparr>spco_compressor := cc\<rparr>)"
    let ?co2 = "?co1\<lparr>spco_lastCompressedRLPSize := length (activeRLP ?co1)\<rparr>"
    obtain cc' where cc': "span_compress lib (swapRLP ?co2) = (None, checkFull (swapRLP ?co2\<lparr>spco_compressor := cc'\<rparr>))"
      "cc_compressed cc' = fresh (ol_compress lib) w0 (cc_brotli (spco_compressor (swapRLP ?co2))) (activeRLP (swapRLP ?co2))"
      "cc_brotli cc' = cc_brotli (spco_compressor (swapRLP ?co2))"
      using span_compress_fresh [OF assms(1)] .
    have r: "compress_if_needed lib co =
      (case spco_full ?co2 of None \<Rightarrow> (None, ?co2)
       | Some full \<Rightarrow> if length (Batches (spco_spanBatch ?co2)) = 1 then (None, ?co2)
           else (Some full, checkFull (swapRLP ?co2\<lparr>spco_compressor := cc'\<rparr>)))"
      using small False cc'(1) unfolding compress_if_needed_def Let_def by (simp add: cc(1) split: option.split)
    have f: "spco_full ?co2 = None \<or> spco_full ?co2 = Some ErrCompressorFull"
      using assms(2) by (simp add: checkFull_def)
    have keep: "checkFull (swapRLP ?co2\<lparr>spco_compressor := cc'\<rparr>) = swapRLP ?co2\<lparr>spco_compressor := cc'\<rparr>"
      if "spco_full ?co2 \<noteq> None" using that by (simp add: checkFull_def)
    show ?thesis
    proof (cases "spco_full ?co2 = None \<or> length (Batches (spco_spanBatch ?co2)) = 1")
      case True
      then have "err = None" "co' = ?co2" using assms(3) unfolding r by (auto split: option.splits)
      then show ?thesis using cc(2,3) by (simp add: sent_def)
    next
      case False
      then have "err = Some ErrCompressorFull" "co' = swapRLP ?co2\<lparr>spco_compressor := cc'\<rparr>"
        using assms(3) f unfolding r keep [OF conjunct1 [OF False [unfolded de_Morgan_disj]]] by auto
      then show ?thesis using cc'(2,3) cc(3) f False by (auto simp: sent_def)
    qed
  qed
qed

lemma AddSingularBatch_cases:
  assumes "memory_writer (ol_compress lib) w0" "\<not> spco_closed co" "spco_full co = None"
    and "SpanChannelOut_AddSingularBatch lib cfg batch seqNum co = Some (err, co')"
  defines "sent \<equiv> \<lambda>co data. cc_compressed (spco_compressor co) = fresh (ol_compress lib) w0 (cc_brotli (spco_compressor co)) data"
  obtains
    (failed) "err \<noteq> None" "err \<noteq> Some ErrCompressorFull" "err \<noteq> Some (Wrap ''could not take bytes as replacement of channel'' ErrTooManyRLPBytes)"
  | (encoded) raw enc where "AppendSingularBatch (lib_tx (ol_batch lib)) (spco_spanBatch co) batch seqNum = Some (spco_spanBatch co', None)"
      "ToRawSpanBatch (spco_spanBatch co') cfg = Inr raw" "encode_batch lib (InnerRaw raw) = Some (Inr enc)"
      "\<not> spco_closed co'" "cc_brotli (spco_compressor co') = cc_brotli (spco_compressor co)"
      "(err = Some (Wrap ''could not take bytes as replacement of channel'' ErrTooManyRLPBytes) \<and> activeRLP co' = enc
          \<and> spco_full co' = None \<and> length enc > SafeMaxRLPBytesPerChannel)
       \<or> (err = None \<and> activeRLP co' = enc \<and> (spco_full co' = None \<or> sent co' enc))
       \<or> (err = Some ErrCompressorFull \<and> activeRLP co' = activeRLP co \<and> spco_full co' = err \<and> sent co' (activeRLP co))"
proof -
  obtain spanBatch aerr where a: "AppendSingularBatch (lib_tx (ol_batch lib)) (spco_spanBatch co) batch seqNum = Some (spanBatch, aerr)"
    using assms(2-4) by (auto simp: SpanChannelOut_AddSingularBatch_def split: bind_splits)
  let ?co = "co\<lparr>spco_spanBatch := spanBatch\<rparr>"
  show ?thesis
  proof (cases aerr)
    case (Some e)
    then have "err = Some (Wrap ''failed to append SingularBatch to SpanBatch'' e)"
      using assms(2-4) a by (simp add: SpanChannelOut_AddSingularBatch_def)
    then show ?thesis by (intro failed) (simp_all add: ErrCompressorFull_def)
  next
    case None
    show ?thesis
    proof (cases "ToRawSpanBatch spanBatch cfg")
      case (Inl e)
      then have "err = Some (Wrap ''failed to convert SpanBatch into RawSpanBatch'' e)"
        using assms(2-4) a None by (simp add: SpanChannelOut_AddSingularBatch_def)
      then show ?thesis by (intro failed) (simp_all add: ErrCompressorFull_def)
    next
      case (Inr raw)
      obtain r where r: "encode_batch lib (InnerRaw raw) = Some r"
        using assms(2-4) a None Inr by (auto simp: SpanChannelOut_AddSingularBatch_def Let_def split: bind_splits)
      show ?thesis
      proof (cases r)
        case (Inl e)
        then have "err = Some (Wrap ''failed to encode RawSpanBatch into bytes'' e)"
          using assms(2-4) a None Inr r by (simp add: SpanChannelOut_AddSingularBatch_def Let_def)
        then show ?thesis by (intro failed) (simp_all add: ErrCompressorFull_def)
      next
        case enc: (Inr enc)
        let ?co3 = "write_active enc (write_active [] (swapRLP ?co))"
        have c: "compress_if_needed lib ?co3 = (err, co')"
          using assms(2-4) a None Inr r enc by (simp add: SpanChannelOut_AddSingularBatch_def Let_def)
        have f: "spco_full ?co3 = None" using assms(3) by simp
        note cases = compress_if_needed_cases [OF assms(1) f c]
        have s: "spco_spanBatch co' = spanBatch" "\<not> spco_closed co'" "cc_brotli (spco_compressor co') = cc_brotli (spco_compressor co)"
          using cases assms(2) by simp_all
        have b: "activeRLP ?co3 = enc" "inactiveRLP ?co3 = activeRLP co"
          "spco_compressor ?co3 = spco_compressor co" by simp_all
        let ?s = "\<lambda>data. cc_compressed (spco_compressor co') = fresh (ol_compress lib) w0 (cc_brotli (spco_compressor co')) data"
        from cases have d: "(err = Some (Wrap ''could not take bytes as replacement of channel'' ErrTooManyRLPBytes)
            \<and> activeRLP co' = enc \<and> spco_full co' = None \<and> length enc > SafeMaxRLPBytesPerChannel)
          \<or> (err = None \<and> activeRLP co' = enc \<and> (spco_full co' = None \<or> ?s enc))
          \<or> (err = Some ErrCompressorFull \<and> activeRLP co' = activeRLP co \<and> spco_full co' = err \<and> ?s (activeRLP co))"
          unfolding b by (elim conjE disjE) (simp_all only: f b, simp_all)
        show ?thesis
        proof (rule encoded [of raw enc])
          show "AppendSingularBatch (lib_tx (ol_batch lib)) (spco_spanBatch co) batch seqNum = Some (spco_spanBatch co', None)"
            using a None s(1) by simp
          show "ToRawSpanBatch (spco_spanBatch co') cfg = Inr raw" using Inr s(1) by simp
          show "encode_batch lib (InnerRaw raw) = Some (Inr enc)" using r enc by simp
        qed (use s d in \<open>simp_all add: sent_def\<close>)
      qed
    qed
  qed
qed

lemma SpanChannelOut_Close_sends:
  assumes "memory_writer (ol_compress lib) w0" "\<not> spco_closed co"
    and "spco_full co = None \<or> cc_compressed (spco_compressor co) = fresh (ol_compress lib) w0 (cc_brotli (spco_compressor co)) (activeRLP co)"
  shows "\<exists>co'. SpanChannelOut_Close lib co = (None, co') \<and> spco_closed co' \<and>
     cc_compressed (spco_compressor co') = fresh (ol_compress lib) w0 (cc_brotli (spco_compressor co)) (activeRLP co)"
proof (cases "spco_full co")
  case None
  obtain cc where "span_compress lib (co\<lparr>spco_closed := True\<rparr>) = (None, checkFull (co\<lparr>spco_closed := True, spco_compressor := cc\<rparr>))"
    "cc_compressed cc = fresh (ol_compress lib) w0 (cc_brotli (spco_compressor co)) (activeRLP co)"
    using span_compress_fresh [OF assms(1), of "co\<lparr>spco_closed := True\<rparr>"] by auto
  then show ?thesis using assms(2) None by (simp add: SpanChannelOut_Close_def Let_def)
next
  case (Some e)
  then show ?thesis using assms(2,3) by (simp add: SpanChannelOut_Close_def)
qed

section \<open>A first span\<close>

text \<open>A compressor that copies, and the first, empty block of a span.\<close>

definition copy_writer :: "unit CompressLib" where
  "copy_writer = \<lparr>cl_zlib = (\<lambda>_. Inr ()), cl_brotli = (\<lambda>_. ()), cl_Write = (\<lambda>w p. (p, None, w)),
     cl_Flush = (\<lambda>w. ([], None, w)), cl_Close = (\<lambda>w. ([], None, w)), cl_Reset = (\<lambda>w. w), cl_float_div = (\<lambda>a b. a)\<rparr>"

definition span_lib :: "(bytes \<Rightarrow> bytes) \<Rightarrow> unit OutLib" where
  "span_lib rlp = \<lparr>ol_compress = copy_writer, ol_batch = \<lparr>lib_tx = example_lib, lib_encodeSingular = (\<lambda>_. Inr []),
     lib_decodeSingular = (\<lambda>_. Inl EOF)\<rparr>, ol_rlp = rlp\<rparr>"

definition out_batch :: SingularBatch where
  "out_batch = \<lparr>sb_ParentHash = 0, sb_EpochNum = 7, sb_EpochHash = 0, sb_Timestamp = 30, sb_Transactions = []\<rparr>"

definition empty_span :: SpanBatch where
  "empty_span = zero_SpanBatch\<lparr>sp_originBits := Some 0,
     sp_sbtxs := Some (zero_spanBatchTxs\<lparr>contractCreationBits := Some 0, yParityBits := Some 0, protectedBits := Some 0\<rparr>)\<rparr>"

definition one_span :: SpanBatch where
  "one_span = empty_span\<lparr>Batches := [\<lparr>el_EpochNum = 7, el_Timestamp = 30, el_Transactions = []\<rparr>],
     sp_originBits := Some 1, sp_blockTxCounts := [0]\<rparr>"

definition one_raw :: RawSpanBatch where
  "one_raw = \<lparr>relTimestamp = 30, l1OriginNum = 7, parentCheck = 0, l1OriginCheck = 0, blockCount = 1,
     originBits = Some 1, blockTxCounts = [0], rsb_txs = sp_sbtxs empty_span\<rparr>"

definition one_bytes :: bytes where
  "one_bytes = SpanBatchType # [30, 7] @ replicate 40 0 @ [1, 1, 0]"

definition empty_out :: "unit SpanChannelOut" where
  "empty_out = \<lparr>spco_id = 9, spco_frame = 0, spco_rlp = ([], []), spco_rlpIndex = False, spco_lastCompressedRLPSize = 0,
     spco_compressor = \<lparr>cc_compressed = [], cc_writer = (), cc_brotli = False\<rparr>, spco_target = 100,
     spco_closed = False, spco_full = None, spco_spanBatch = empty_span\<rparr>"

lemma empty_out_is_new:
  "NewSpanChannelOut (span_lib rlp) (Inr 9) 0 0 100 Zlib = Some (Inr empty_out)"
proof -
  have "NewSpanBatch example_lib 0 0 = Some empty_span" by code_simp
  then show ?thesis
    by (simp add: NewSpanChannelOut_def span_lib_def copy_writer_def empty_out_def NewChannelCompressor_def)
qed

lemma one_span_added:
  "AppendSingularBatch example_lib empty_span out_batch 0 = Some (one_span, None)"
  "ToRawSpanBatch one_span OPBNBMainnet = Inr one_raw"
  "encode_batch (span_lib rlp) (InnerRaw one_raw) = Some (Inr (rlp one_bytes))"
proof -
  show "AppendSingularBatch example_lib empty_span out_batch 0 = Some (one_span, None)"
    by code_simp
  have "sp_sbtxs one_span = sp_sbtxs empty_span" by (simp add: one_span_def)
  then show "ToRawSpanBatch one_span OPBNBMainnet = Inr one_raw"
    by (simp add: ToRawSpanBatch_def one_raw_def)
       (simp add: one_span_def empty_span_def zero_SpanBatch_def IsVolta_def OPBNBMainnet_def)
  have no_bits: "encodeSpanBatchBits 0 (Some 0) = Some (Inr [])" by code_simp
  have txs: "encode_txs (zero_spanBatchTxs\<lparr>contractCreationBits := Some 0, yParityBits := Some 0, protectedBits := Some 0\<rparr>)
      = Some (Inr [])"
    by (simp add: encode_txs_def encodeContractCreationBits_def encodeYParityBits_def encodeProtectedBits_def
        zero_spanBatchTxs_def no_bits wrap_err_def encodeTxSigsRS_def encodeTxTos_def encodeTxDatas_def
        encodeTxNonces_def encodeTxGases_def)
  have bits: "encodeSpanBatchBits 1 (Some (Suc 0)) = Some (Inr [1])" by code_simp
  have varints: "PutUvarint 30 = [30]" "PutUvarint 7 = [7]" "PutUvarint 1 = [1]" "PutUvarint 0 = [0]"
    by (simp_all add: PutUvarint.simps)
  have zeros: "be_put 20 (0 :: 160 word) = replicate 20 0"
    unfolding be_put_def using nat_to_be_0 by simp
  have "encodePrefix one_raw = [30, 7] @ replicate (20 + 20) 0"
    unfolding replicate_add by (simp only: encodePrefix_def one_raw_def RawSpanBatch.simps varints zeros) simp
  moreover have "encodePayload one_raw = Some (Inr [1, 1, 0])"
    by (simp add: encodePayload_def encodeOriginBits_def encodeTxs_def encodeBlockTxCounts_def one_raw_def
        empty_span_def txs bits varints wrap_err_def)
  ultimately have "encode_raw one_raw = Some (Inr ([30, 7] @ replicate 40 0 @ [1, 1, 0]))"
    by (simp add: encode_raw_def del: replicate_add)
  then show "encode_batch (span_lib rlp) (InnerRaw one_raw) = Some (Inr (rlp one_bytes))"
    by (simp add: encode_batch_def span_lib_def encodeTyped_def encode_inner_def one_bytes_def)
qed

lemma one_span_added_to:
  "SpanChannelOut_AddSingularBatch (span_lib rlp) OPBNBMainnet out_batch 0 empty_out =
     Some (compress_if_needed (span_lib rlp)
       (write_active (rlp one_bytes) (swapRLP (empty_out\<lparr>spco_spanBatch := one_span\<rparr>))))"
  using one_span_added
  by (simp add: SpanChannelOut_AddSingularBatch_def Let_def)
     (simp add: empty_out_def span_lib_def write_active_def swapRLP_def)

lemma copy_writer_memory: "memory_writer (ol_compress (span_lib rlp)) ()"
  by (simp add: memory_writer_def span_lib_def copy_writer_def)

lemma fresh_copy: "fresh (ol_compress (span_lib rlp)) () False bs = bs"
  by (simp add: fresh_def span_lib_def copy_writer_def)

lemma empty_out_simps: "\<not> spco_closed empty_out" "spco_full empty_out = None" "spco_spanBatch empty_out = empty_span"
  "cc_brotli (spco_compressor empty_out) = False" "spco_lastCompressedRLPSize empty_out = 0"
  "cc_Len (spco_compressor empty_out) = 0" "spco_target empty_out = 100"
  by (simp_all add: empty_out_def cc_Len_def)

lemma empty_out_kept [simp]:
  "spco_lastCompressedRLPSize (write_active bs co) = spco_lastCompressedRLPSize co"
  "spco_lastCompressedRLPSize (swapRLP co) = spco_lastCompressedRLPSize co"
  "spco_target (write_active bs co) = spco_target co" "spco_target (swapRLP co) = spco_target co"
  by (simp_all add: write_active_def swapRLP_def)

section \<open>The first block of a shadow compressor\<close>

lemma new_shadow:
  assumes "NewShadowCompressor lib config = Some (Inr t)"
  obtains cc shadow where "t = ShadowCompressor config cc shadow None safeCompressionOverhead"
    "cc_Len cc = of_bool (IsBrotli (cfg_CompressionAlgo config))"
proof (cases "cfg_CompressionAlgo config = Zlib")
  case True
  then obtain w where "t = ShadowCompressor config \<lparr>cc_compressed = [], cc_writer = w, cc_brotli = False\<rparr>
      \<lparr>cc_compressed = [], cc_writer = w, cc_brotli = False\<rparr> None safeCompressionOverhead"
    using assms by (auto simp: NewShadowCompressor_def NewChannelCompressor_def split: sum.splits)
  moreover have "cc_Len \<lparr>cc_compressed = [], cc_writer = w, cc_brotli = False\<rparr> = of_bool (IsBrotli (cfg_CompressionAlgo config))"
    unfolding True by (simp add: cc_Len_def IsBrotli_def Zlib_def)
  ultimately show ?thesis by (rule that)
next
  case False
  then have "IsBrotli (cfg_CompressionAlgo config)"
    using assms by (auto simp: NewShadowCompressor_def NewChannelCompressor_def split: if_splits)
  then show ?thesis using assms False that
    by (auto simp: NewShadowCompressor_def NewChannelCompressor_def cc_Len_def split: bind_splits)
qed

text \<open>The first block of a channel is to be taken even when it is over the target, says the constructor's
  comment. With zlib it is. With brotli it is rejected, and nothing is written: the version byte makes
  the length of the buffer positive before any block is in it.\<close>

theorem ShadowCompressor_first_block:
  assumes "NewShadowCompressor lib config = Some (Inr t)"
    and "\<forall>w p. fst (snd (cl_Write lib w p)) = None" "\<forall>w. fst (snd (cl_Flush lib w)) = None"
    and "cfg_TargetOutputSize config < safeCompressionOverhead + of_nat (length p)"
    and "cfg_TargetOutputSize config
      < of_nat (cc_Len (snd (cc_Flush lib (snd (cc_Write lib p (shadow_shadow t)))))) + CloseOverheadZlib"
  shows "fst (Compressor_Write lib p t) = (if IsBrotli (cfg_CompressionAlgo config) then Some ErrCompressorFull else None) \<and>
    (IsBrotli (cfg_CompressionAlgo config) \<longrightarrow> buffer_of (snd (Compressor_Write lib p t)) = buffer_of t)"
proof -
  from new_shadow [OF assms(1)] obtain cc shadow where
    t: "t = ShadowCompressor config cc shadow None safeCompressionOverhead"
      "cc_Len cc = of_bool (IsBrotli (cfg_CompressionAlgo config))" .
  have w: "\<exists>c'. cc_Write lib p c = (None, c')" for c
    using assms(2) by (auto simp: cc_Write_def emit_def split: prod.split) (metis fst_conv snd_conv)
  have f: "\<exists>c'. cc_Flush lib c = (None, c')" for c
    using assms(3) by (auto simp: cc_Flush_def emit_def split: prod.split) (metis fst_conv snd_conv)
  obtain c1 c2 s1 s2 where "cc_Write lib p cc = (None, c1)" "cc_Write lib p shadow = (None, s1)" "cc_Flush lib s1 = (None, s2)"
    using w f by metis
  then show ?thesis using assms(4,5) t by (simp add: ShadowCompressor_Write_def Let_def)
qed

theorem ShadowCompressor_first_block_witness:
  "\<exists>lib :: unit CompressLib. \<exists>t. NewShadowCompressor lib
      \<lparr>cfg_TargetOutputSize = 100, cfg_ApproxComprRatio = 1, cfg_Kind = ''shadow'', cfg_CompressionAlgo = Brotli\<rparr> = Some (Inr t) \<and>
    fst (Compressor_Write lib (replicate 200 0) t) = Some ErrCompressorFull"
proof -
  let ?cfg = "\<lparr>cfg_TargetOutputSize = 100, cfg_ApproxComprRatio = 1, cfg_Kind = ''shadow'', cfg_CompressionAlgo = Brotli\<rparr>"
  let ?cc = "\<lparr>cc_compressed = [ChannelVersionBrotliByte], cc_writer = (), cc_brotli = True\<rparr>"
  let ?t = "ShadowCompressor ?cfg ?cc ?cc None safeCompressionOverhead"
  have b: "IsBrotli Brotli" "Brotli \<noteq> Zlib" "GetBrotliLevel Brotli = Some 10"
    by (simp_all add: IsBrotli_def GetBrotliLevel_def Brotli_def Zlib_def Brotli9_def)
  have t: "NewShadowCompressor copy_writer ?cfg = Some (Inr ?t)"
    using b by (simp add: NewShadowCompressor_def NewChannelCompressor_def copy_writer_def)
  have "fst (Compressor_Write copy_writer (replicate 200 0) ?t) = (if IsBrotli Brotli then Some ErrCompressorFull else None)"
    using ShadowCompressor_first_block [OF t, of "replicate 200 0"]
    by (simp add: copy_writer_def safeCompressionOverhead_def cc_Flush_def cc_Write_def emit_def cc_Len_def CloseOverheadZlib_def)
  then show ?thesis using t b(1) by (intro exI [of _ copy_writer] exI [of _ ?t]) simp
qed

section \<open>Accepted and rejected batches\<close>

text \<open>A channel with a span batch sends what it accepted. After AddSingularBatch accepted a batch, closing
  the channel leaves the compressed encoding of the span with this batch; after it answered that the
  compressor is full, closing leaves the compressed encoding of the span as it was before the call.\<close>

theorem SpanChannelOut_sends_accepted:
  assumes "memory_writer (ol_compress lib) w0" "\<not> spco_closed co" "spco_full co = None"
    and "SpanChannelOut_AddSingularBatch lib cfg batch seqNum co = Some (err, co')"
    and "err = None \<or> err = Some ErrCompressorFull"
  shows "\<exists>co'' raw enc. SpanChannelOut_Close lib co' = (None, co'') \<and>
     AppendSingularBatch (lib_tx (ol_batch lib)) (spco_spanBatch co) batch seqNum = Some (spco_spanBatch co', None) \<and>
     ToRawSpanBatch (spco_spanBatch co') cfg = Inr raw \<and> encode_batch lib (InnerRaw raw) = Some (Inr enc) \<and>
     cc_compressed (spco_compressor co'') =
       fresh (ol_compress lib) w0 (cc_brotli (spco_compressor co)) (if err = None then enc else activeRLP co)"
  using assms(1-4)
proof (cases rule: AddSingularBatch_cases)
  case failed
  then show ?thesis using assms(5) by blast
next
  case (encoded raw enc)
  have "spco_full co' = None \<or> cc_compressed (spco_compressor co')
      = fresh (ol_compress lib) w0 (cc_brotli (spco_compressor co')) (activeRLP co')"
    using encoded(6) by auto
  from SpanChannelOut_Close_sends [OF assms(1) encoded(4) this] obtain co'' where
    "SpanChannelOut_Close lib co' = (None, co'')"
    "cc_compressed (spco_compressor co'') = fresh (ol_compress lib) w0 (cc_brotli (spco_compressor co)) (activeRLP co')"
    using encoded(5) by auto
  moreover have "activeRLP co' = (if err = None then enc else activeRLP co)"
    using encoded(6) assms(5) by (auto simp: ErrCompressorFull_def)
  ultimately show ?thesis using encoded(1-3)
    by (intro exI [of _ co''] exI [of _ raw] exI [of _ enc]) simp
qed

theorem SpanChannelOut_sends_accepted_witness:
  "\<exists>co' co''. SpanChannelOut_AddSingularBatch (span_lib (\<lambda>b. b)) OPBNBMainnet out_batch 0 empty_out = Some (None, co') \<and>
     SpanChannelOut_Close (span_lib (\<lambda>b. b)) co' = (None, co'') \<and>
     cc_compressed (spco_compressor co'') = one_bytes"
proof -
  let ?co' = "write_active one_bytes (swapRLP (empty_out\<lparr>spco_spanBatch := one_span\<rparr>))"
  have n: "length one_bytes = 46" by (simp add: one_bytes_def)
  have r: "SpanChannelOut_AddSingularBatch (span_lib (\<lambda>b. b)) OPBNBMainnet out_batch 0 empty_out = Some (None, ?co')"
    unfolding one_span_added_to
    by (simp add: compress_if_needed_def n SafeMaxRLPBytesPerChannel_def empty_out_simps)
  have s: "spco_spanBatch ?co' = one_span" by simp
  from SpanChannelOut_sends_accepted [OF copy_writer_memory empty_out_simps(1,2) r disjI1 [OF refl]]
  show ?thesis unfolding s one_span_added(2) using r one_span_added(3) [of "\<lambda>b. b"]
    by (auto simp: fresh_copy empty_out_simps one_span_added(2))
qed

text \<open>A batch that is rejected for the limit on RLP bytes is sent all the same. When AddSingularBatch
  returns ErrTooManyRLPBytes, the active buffer still holds the encoding with the rejected batch, more
  than the limit, and closing the channel compresses that.\<close>

theorem SpanChannelOut_sends_rejected:
  assumes "memory_writer (ol_compress lib) w0" "\<not> spco_closed co" "spco_full co = None"
    and "SpanChannelOut_AddSingularBatch lib cfg batch seqNum co = Some (err, co')"
    and "err = Some (Wrap ''could not take bytes as replacement of channel'' ErrTooManyRLPBytes)"
  shows "\<exists>co'' raw enc. SpanChannelOut_Close lib co' = (None, co'') \<and>
     AppendSingularBatch (lib_tx (ol_batch lib)) (spco_spanBatch co) batch seqNum = Some (spco_spanBatch co', None) \<and>
     ToRawSpanBatch (spco_spanBatch co') cfg = Inr raw \<and> encode_batch lib (InnerRaw raw) = Some (Inr enc) \<and>
     length enc > SafeMaxRLPBytesPerChannel \<and>
     cc_compressed (spco_compressor co'') = fresh (ol_compress lib) w0 (cc_brotli (spco_compressor co)) enc"
  using assms(1-4)
proof (cases rule: AddSingularBatch_cases)
  case failed
  then show ?thesis using assms(5) by blast
next
  case (encoded raw enc)
  then have e: "spco_full co' = None" "activeRLP co' = enc" "length enc > SafeMaxRLPBytesPerChannel"
    using assms(5) by (auto simp: ErrCompressorFull_def)
  from SpanChannelOut_Close_sends [OF assms(1) encoded(4) disjI1 [OF e(1)]] obtain co'' where
    "SpanChannelOut_Close lib co' = (None, co'')"
    "cc_compressed (spco_compressor co'') = fresh (ol_compress lib) w0 (cc_brotli (spco_compressor co)) enc"
    using encoded(5) e(2) by auto
  then show ?thesis using encoded(1-3) e(3)
    by (intro exI [of _ co''] exI [of _ raw] exI [of _ enc]) simp
qed

theorem SpanChannelOut_sends_rejected_witness:
  "\<exists>err co' co''. SpanChannelOut_AddSingularBatch (span_lib (\<lambda>b. replicate 10000001 0 @ b)) OPBNBMainnet out_batch 0 empty_out
       = Some (Some (Wrap err ErrTooManyRLPBytes), co') \<and>
     SpanChannelOut_Close (span_lib (\<lambda>b. replicate 10000001 0 @ b)) co' = (None, co'') \<and>
     length (cc_compressed (spco_compressor co'')) > SafeMaxRLPBytesPerChannel"
proof -
  let ?rlp = "\<lambda>b :: bytes. replicate 10000001 0 @ b"
  let ?co' = "write_active (?rlp one_bytes) (swapRLP (empty_out\<lparr>spco_spanBatch := one_span\<rparr>))"
  have n: "length (?rlp one_bytes) > SafeMaxRLPBytesPerChannel" by (simp add: SafeMaxRLPBytesPerChannel_def)
  have r: "SpanChannelOut_AddSingularBatch (span_lib ?rlp) OPBNBMainnet out_batch 0 empty_out
      = Some (Some (Wrap ''could not take bytes as replacement of channel'' ErrTooManyRLPBytes), ?co')"
    unfolding one_span_added_to compress_if_needed_def using n by simp
  from SpanChannelOut_sends_rejected [OF copy_writer_memory empty_out_simps(1,2) r refl] obtain co'' enc where
    "SpanChannelOut_Close (span_lib ?rlp) ?co' = (None, co'')" "length enc > SafeMaxRLPBytesPerChannel"
    "cc_compressed (spco_compressor co'') = enc"
    by (auto simp: fresh_copy empty_out_simps)
  with r show ?thesis by blast
qed

end
