(* ===== verification/ChannelBuilder.thy ===== *)
theory ChannelBuilder
  imports ChannelOut
begin

text \<open>
  The channel builder, op-batcher/batcher/channel_builder.go and channel_config.go: it fills a channel with
  blocks, watches its timeouts and cuts it into frames. The channel it fills is an interface in the
  code, \<open>ChannelOut\<close>; \<open>ChannelOutOps\<close> has its methods and \<open>channel_out_ops\<close> those of the two
  implementations. The locale \<open>channel_out\<close> is what the builder relies on: how frames are cut.
\<close>

section \<open>Configuration\<close>

record ChannelConfig =
  cc_SeqWindowSize :: u64
  cc_ChannelTimeout :: u64
  cc_MaxChannelDuration :: u64
  cc_SubSafetyMargin :: u64
  cc_MaxFrameSize :: u64
  cc_TargetNumFrames :: int
  cc_CompressorConfig :: CompressorConfig
  cc_BatchType :: nat
  cc_MultiFrameTxs :: bool

definition ErrInvalidChannelTimeout :: gerr where
  "ErrInvalidChannelTimeout = Msg ''channel timeout is less than the safety margin''"
definition ErrMaxFrameIndex :: gerr where "ErrMaxFrameIndex = Msg ''max frame index reached (uint16)''"
definition ErrMaxDurationReached :: gerr where "ErrMaxDurationReached = Msg ''max channel duration reached''"
definition ErrChannelTimeoutClose :: gerr where "ErrChannelTimeoutClose = Msg ''close to channel timeout''"
definition ErrSeqWindowClose :: gerr where "ErrSeqWindowClose = Msg ''close to sequencer window timeout''"
definition ErrTerminated :: gerr where "ErrTerminated = Msg ''channel terminated''"

definition MaxFramesPerTx :: "ChannelConfig \<Rightarrow> int" where
  "MaxFramesPerTx cc = (if \<not> cc_MultiFrameTxs cc then 1 else cc_TargetNumFrames cc)"

definition ChannelConfig_Check :: "ChannelConfig \<Rightarrow> gerr option" where
  "ChannelConfig_Check cc =
     (if cc_ChannelTimeout cc < cc_SubSafetyMargin cc then Some ErrInvalidChannelTimeout
      else if cc_MaxFrameSize cc < of_nat FrameV0OverHeadSize then Some (Msg ''max frame size is less than the minimum'')
      else if cc_BatchType cc > 1 then Some (Msg ''unrecognized batch type'')
      else if cc_TargetNumFrames cc < 1 then Some (Msg ''invalid number of frames'')
      else None)"

definition MaxDataSize :: "int \<Rightarrow> u64 \<Rightarrow> u64 go" where
  "MaxDataSize numFrames maxFrameSize =
     (if maxFrameSize < of_nat FrameV0OverHeadSize then None
      else Some (of_int numFrames * (maxFrameSize - of_nat FrameV0OverHeadSize)))"

definition InitCompressorConfig :: "u64 \<Rightarrow> string \<Rightarrow> CompressionAlgo \<Rightarrow> ChannelConfig \<Rightarrow> ChannelConfig go" where
  "InitCompressorConfig approxComprRatio comprKind compressionAlgo cc =
     map_option (\<lambda>target. cc\<lparr>cc_CompressorConfig := \<lparr>cfg_TargetOutputSize = target,
         cfg_ApproxComprRatio = approxComprRatio, cfg_Kind = comprKind, cfg_CompressionAlgo = compressionAlgo\<rparr>\<rparr>)
       (MaxDataSize (cc_TargetNumFrames cc) (cc_MaxFrameSize cc))"

section \<open>The channel that is filled\<close>

record 's ChannelOutOps =
  ops_ID :: "'s \<Rightarrow> ChannelID"
  ops_AddSingularBatch :: "Config \<Rightarrow> SingularBatch \<Rightarrow> u64 \<Rightarrow> 's \<Rightarrow> (gerr option \<times> 's) go"
  ops_InputBytes :: "'s \<Rightarrow> nat"
  ops_ReadyBytes :: "'s \<Rightarrow> nat"
  ops_FullErr :: "'s \<Rightarrow> gerr option"
  ops_Close :: "'s \<Rightarrow> gerr option \<times> 's"
  ops_OutputFrame :: "u64 \<Rightarrow> 's \<Rightarrow> Output \<times> 's"

datatype 'w ChannelOut = SingularOut "'w SingularChannelOut" | SpanOut "'w SpanChannelOut"

definition lift_out :: "('a \<Rightarrow> 'c) \<Rightarrow> 'b \<times> 'a \<Rightarrow> 'b \<times> 'c" where "lift_out f r = (fst r, f (snd r))"

definition channel_out_ops :: "'w OutLib \<Rightarrow> 'w ChannelOut ChannelOutOps" where
  "channel_out_ops lib =
     \<lparr>ops_ID = (\<lambda>co. case co of SingularOut co \<Rightarrow> sco_id co | SpanOut co \<Rightarrow> spco_id co),
      ops_AddSingularBatch = (\<lambda>cfg batch seqNum co. case co of
         SingularOut co \<Rightarrow> map_option (lift_out SingularOut) (SingularChannelOut_AddSingularBatch lib batch co)
       | SpanOut co \<Rightarrow> map_option (lift_out SpanOut) (SpanChannelOut_AddSingularBatch lib cfg batch seqNum co)),
      ops_InputBytes = (\<lambda>co. case co of SingularOut co \<Rightarrow> sco_rlpLength co | SpanOut co \<Rightarrow> length (activeRLP co)),
      ops_ReadyBytes = (\<lambda>co. case co of
         SingularOut co \<Rightarrow> SingularChannelOut_ReadyBytes co | SpanOut co \<Rightarrow> SpanChannelOut_ReadyBytes co),
      ops_FullErr = (\<lambda>co. case co of
         SingularOut co \<Rightarrow> SingularChannelOut_FullErr lib co | SpanOut co \<Rightarrow> spco_full co),
      ops_Close = (\<lambda>co. case co of
         SingularOut co \<Rightarrow> lift_out SingularOut (SingularChannelOut_Close lib co)
       | SpanOut co \<Rightarrow> lift_out SpanOut (SpanChannelOut_Close lib co)),
      ops_OutputFrame = (\<lambda>maxSize co. case co of
         SingularOut co \<Rightarrow> lift_out SingularOut (SingularChannelOut_OutputFrame maxSize co)
       | SpanOut co \<Rightarrow> lift_out SpanOut (SpanChannelOut_OutputFrame maxSize co))\<rparr>"

section \<open>The builder\<close>

type_synonym frameID = "ChannelID \<times> u16"

record frameData =
  fd_data :: bytes
  fd_id :: frameID

record 's ChannelBuilder =
  bld_cfg :: ChannelConfig
  bld_rollupCfg :: Config
  bld_timeout :: u64
  bld_timeoutReason :: "gerr option"
  bld_fullErr :: "gerr option"
  bld_co :: 's
  bld_blocks :: "OutBlock list"
  bld_latestL1Origin :: BlockID
  bld_frames :: "frameData list"
  bld_numFrames :: nat
  bld_outputBytes :: nat

definition ChannelFullError :: "gerr \<Rightarrow> gerr" where "ChannelFullError err = Wrap ''channel full'' err"

fun is_ChannelFullError :: "gerr \<Rightarrow> bool" where
  "is_ChannelFullError (Wrap s err) \<longleftrightarrow> s = ''channel full'' \<or> is_ChannelFullError err"
| "is_ChannelFullError (Leveled l (Some err)) \<longleftrightarrow> is_ChannelFullError err"
| "is_ChannelFullError _ \<longleftrightarrow> False"

definition IsFull :: "'s ChannelBuilder \<Rightarrow> bool" where "IsFull c \<longleftrightarrow> bld_fullErr c \<noteq> None"

definition setFullErr :: "gerr \<Rightarrow> 's ChannelBuilder \<Rightarrow> 's ChannelBuilder" where
  "setFullErr err c = c\<lparr>bld_fullErr := Some (ChannelFullError err)\<rparr>"

definition updateTimeout :: "u64 \<Rightarrow> gerr \<Rightarrow> 's ChannelBuilder \<Rightarrow> 's ChannelBuilder" where
  "updateTimeout timeoutBlockNum reason c =
     (if bld_timeout c = 0 \<or> bld_timeout c > timeoutBlockNum then
        c\<lparr>bld_timeout := timeoutBlockNum, bld_timeoutReason := Some reason\<rparr>
      else c)"

definition FramePublished :: "u64 \<Rightarrow> 's ChannelBuilder \<Rightarrow> 's ChannelBuilder" where
  "FramePublished l1BlockNum c =
     updateTimeout (l1BlockNum + cc_ChannelTimeout (bld_cfg c) - cc_SubSafetyMargin (bld_cfg c)) ErrChannelTimeoutClose c"

definition updateDurationTimeout :: "u64 \<Rightarrow> 's ChannelBuilder \<Rightarrow> 's ChannelBuilder" where
  "updateDurationTimeout l1BlockNum c =
     (if cc_MaxChannelDuration (bld_cfg c) = 0 then c
      else updateTimeout (l1BlockNum + cc_MaxChannelDuration (bld_cfg c)) ErrMaxDurationReached c)"

definition updateSwTimeout :: "SingularBatch \<Rightarrow> 's ChannelBuilder \<Rightarrow> 's ChannelBuilder" where
  "updateSwTimeout batch c =
     updateTimeout (sb_EpochNum batch + cc_SeqWindowSize (bld_cfg c) - cc_SubSafetyMargin (bld_cfg c)) ErrSeqWindowClose c"

definition TimedOut :: "u64 \<Rightarrow> 's ChannelBuilder \<Rightarrow> bool" where
  "TimedOut blockNum c \<longleftrightarrow> bld_timeout c \<noteq> 0 \<and> blockNum \<ge> bld_timeout c"

text \<open>A timeout that is set has a reason.\<close>

definition CheckTimeout :: "u64 \<Rightarrow> 's ChannelBuilder \<Rightarrow> 's ChannelBuilder" where
  "CheckTimeout l1BlockNum c =
     (if \<not> IsFull c \<and> TimedOut l1BlockNum c then
        setFullErr (case bld_timeoutReason c of Some reason \<Rightarrow> reason | None \<Rightarrow> Msg ''<nil>'') c
      else c)"

definition NewChannelBuilder :: "'w OutLib \<Rightarrow> ChannelID res \<Rightarrow> ChannelConfig \<Rightarrow> Config \<Rightarrow> u64
    \<Rightarrow> 'w ChannelOut ChannelBuilder res go" where
  "NewChannelBuilder lib random cfg rollupCfg latestL1OriginBlockNum = do {
     c \<leftarrow> NewCompressor (ol_compress lib) (cc_CompressorConfig cfg);
     case c of
       Inl err \<Rightarrow> Some (Inl err)
     | Inr c \<Rightarrow> do {
         co \<leftarrow> (if cc_BatchType cfg = 1 then do {
                  chainID \<leftarrow> cfg_L2ChainID rollupCfg;
                  map_option (map_sum (\<lambda>e. e) SpanOut)
                    (NewSpanChannelOut lib random (gen_L2Time (cfg_Genesis rollupCfg)) chainID
                      (cfg_TargetOutputSize (cc_CompressorConfig cfg)) (cfg_CompressionAlgo (cc_CompressorConfig cfg)))
                }
                else Some (map_sum (\<lambda>e. e) SingularOut (NewSingularChannelOut random c)));
         case co of
           Inl err \<Rightarrow> Some (Inl (Wrap ''creating channel out'' err))
         | Inr co \<Rightarrow>
             Some (Inr (updateDurationTimeout latestL1OriginBlockNum
               \<lparr>bld_cfg = cfg, bld_rollupCfg = rollupCfg, bld_timeout = 0, bld_timeoutReason = None,
                bld_fullErr = None, bld_co = co, bld_blocks = [], bld_latestL1Origin = \<lparr>bid_Hash = 0, bid_Number = 0\<rparr>,
                bld_frames = [], bld_numFrames = 0, bld_outputBytes = 0\<rparr>))
       }
   }"

definition Builder_AddBlock :: "'s ChannelOutOps \<Rightarrow> keccak \<Rightarrow> OutBlock \<Rightarrow> 's ChannelBuilder
    \<Rightarrow> (L1BlockInfo res \<times> 's ChannelBuilder) go" where
  "Builder_AddBlock ops keccak256 block c =
     (case bld_fullErr c of
        Some err \<Rightarrow> Some (Inl err, c)
      | None \<Rightarrow>
          (case BlockToSingularBatch keccak256 (bld_rollupCfg c) block of
             Inl err \<Rightarrow> Some (Inl (Wrap ''converting block to batch'' err), c)
           | Inr (batch, l1info) \<Rightarrow> do {
               (err, co) \<leftarrow> ops_AddSingularBatch ops (bld_rollupCfg c) batch (li_SequenceNumber l1info) (bld_co c);
               let c = c\<lparr>bld_co := co\<rparr>;
               case err of
                 Some err \<Rightarrow>
                   if errors_Is err ErrTooManyRLPBytes \<or> errors_Is err ErrCompressorFull then
                     Some (Inl (ChannelFullError err), setFullErr err c)
                   else Some (Inl (Wrap ''adding block to channel out'' err), c)
               | None \<Rightarrow> do {
                   let c = updateSwTimeout batch (c\<lparr>bld_blocks := bld_blocks c @ [block]\<rparr>);
                   let c = (if li_Number l1info > bid_Number (bld_latestL1Origin c)
                            then c\<lparr>bld_latestL1Origin := \<lparr>bid_Hash = li_BlockHash l1info, bid_Number = li_Number l1info\<rparr>\<rparr>
                            else c);
                   Some (Inr l1info, (case ops_FullErr ops (bld_co c) of Some err \<Rightarrow> setFullErr err c | None \<Rightarrow> c))
                 }
             }))"

definition outputFrame :: "'s ChannelOutOps \<Rightarrow> 's ChannelBuilder \<Rightarrow> gerr option \<times> 's ChannelBuilder" where
  "outputFrame ops c =
     (case ops_OutputFrame ops (cc_MaxFrameSize (bld_cfg c)) (bld_co c) of
        ((fn, err, buf), co) \<Rightarrow>
          (let c = c\<lparr>bld_co := co\<rparr> in
           if err \<noteq> Some EOF \<and> err \<noteq> None then (map_option (Wrap ''writing frame'') err, c)
           else
             (let c = (if fn = 65535 then setFullErr ErrMaxFrameIndex c else c);
                  frame = \<lparr>fd_data = buf, fd_id = (ops_ID ops (bld_co c), fn)\<rparr>
              in (err, c\<lparr>bld_frames := bld_frames c @ [frame], bld_numFrames := bld_numFrames c + 1,
                        bld_outputBytes := bld_outputBytes c + length buf\<rparr>))))"

text \<open>The two loops may run forever; then their value is \<open>None\<close>.\<close>

partial_function (option) outputReadyFrames :: "'s ChannelOutOps \<Rightarrow> 's ChannelBuilder \<Rightarrow> (gerr option \<times> 's ChannelBuilder) option"
where
  "outputReadyFrames ops c =
     (if int (ops_ReadyBytes ops (bld_co c) + FrameV0OverHeadSize) \<ge> sint (cc_MaxFrameSize (bld_cfg c)) then
        (case outputFrame ops c of
           (None, c) \<Rightarrow> outputReadyFrames ops c
         | (Some err, c) \<Rightarrow> if err = EOF then Some (None, c) else Some (Some err, c))
      else Some (None, c))"

partial_function (option) outputAllFrames :: "'s ChannelOutOps \<Rightarrow> 's ChannelBuilder \<Rightarrow> (gerr option \<times> 's ChannelBuilder) option"
where
  "outputAllFrames ops c =
     (case outputFrame ops c of
        (None, c) \<Rightarrow> outputAllFrames ops c
      | (Some err, c) \<Rightarrow> if err = EOF then Some (None, c) else Some (Some err, c))"

definition closeAndOutputAllFrames :: "'s ChannelOutOps \<Rightarrow> 's ChannelBuilder \<Rightarrow> (gerr option \<times> 's ChannelBuilder) option" where
  "closeAndOutputAllFrames ops c =
     (case ops_Close ops (bld_co c) of
        (Some err, co) \<Rightarrow> Some (Some (Wrap ''closing channel out'' err), c\<lparr>bld_co := co\<rparr>)
      | (None, co) \<Rightarrow> outputAllFrames ops (c\<lparr>bld_co := co\<rparr>))"

definition OutputFrames :: "'s ChannelOutOps \<Rightarrow> 's ChannelBuilder \<Rightarrow> (gerr option \<times> 's ChannelBuilder) option" where
  "OutputFrames ops c =
     (if IsFull c then do {
        (err, c) \<leftarrow> closeAndOutputAllFrames ops c;
        Some (map_option (Wrap ''error while closing full channel'') err, c)
      }
      else outputReadyFrames ops c)"

definition Builder_Close :: "'s ChannelBuilder \<Rightarrow> 's ChannelBuilder" where
  "Builder_Close c = (if \<not> IsFull c then setFullErr ErrTerminated c else c)"

definition HasFrame :: "'s ChannelBuilder \<Rightarrow> bool" where "HasFrame c \<longleftrightarrow> length (bld_frames c) > 0"

definition PendingFrames :: "'s ChannelBuilder \<Rightarrow> nat" where "PendingFrames c = length (bld_frames c)"

definition Builder_NextFrame :: "'s ChannelBuilder \<Rightarrow> (frameData \<times> 's ChannelBuilder) go" where
  "Builder_NextFrame c = (case bld_frames c of [] \<Rightarrow> None | f # fs \<Rightarrow> Some (f, c\<lparr>bld_frames := fs\<rparr>))"

definition PushFrames :: "'s ChannelOutOps \<Rightarrow> frameData list \<Rightarrow> 's ChannelBuilder \<Rightarrow> 's ChannelBuilder go" where
  "PushFrames ops frames c =
     (if list_all (\<lambda>f. fst (fd_id f) = ops_ID ops (bld_co c)) frames then
        Some (c\<lparr>bld_frames := bld_frames c @ frames\<rparr>)
      else None)"

section \<open>The contract of a channel\<close>

text \<open>The frame that comes next: as much of the ready bytes as fits, flagged as the last one when the
  channel is closed and nothing remains.\<close>

definition next_frame :: "ChannelID \<Rightarrow> u64 \<Rightarrow> bool \<Rightarrow> bytes \<Rightarrow> nat \<Rightarrow> Frame" where
  "next_frame cid number closed ready m =
     \<lparr>fr_ID = cid, fr_FrameNumber = ucast number, fr_Data = take m ready,
      fr_IsLast = (closed \<and> length ready \<le> m)\<rparr>"

locale channel_out =
  fixes ops :: "'s ChannelOutOps"
    and ready :: "'s \<Rightarrow> bytes"
    and number :: "'s \<Rightarrow> u64"
    and closed :: "'s \<Rightarrow> bool"
  assumes ready_bytes: "ops_ReadyBytes ops s = length (ready s)"
    and output_small: "unat maxSize < 23 \<Longrightarrow> ops_OutputFrame ops maxSize s = ((0, Some ErrMaxFrameSizeTooSmall, []), s)"
    and output_next: "23 \<le> unat maxSize \<Longrightarrow>
      (let f = next_frame (ops_ID ops s) (number s) (closed s) (ready s) (unat maxSize - 23) in
       \<exists>s'. ops_OutputFrame ops maxSize s
              = ((fr_FrameNumber f, if fr_IsLast f then Some EOF else None, frame_bytes f), s') \<and>
            ready s' = drop (unat maxSize - 23) (ready s) \<and> number s' = number s + 1 \<and>
            closed s' = closed s \<and> ops_ID ops s' = ops_ID ops s)"
    and close_once: "\<not> closed s \<Longrightarrow> ops_Close ops s = (None, s') \<Longrightarrow>
      closed s' \<and> number s' = number s \<and> ops_ID ops s' = ops_ID ops s"

lemma createEmptyFrame_size:
  assumes "23 \<le> unat maxSize"
  shows "length (fr_Data (createEmptyFrame cid n k c maxSize)) = min k (unat maxSize - 23)"
    "(createEmptyFrame cid n k c maxSize)\<lparr>fr_Data := d\<rparr> =
       \<lparr>fr_ID = cid, fr_FrameNumber = ucast n, fr_Data = d, fr_IsLast = (c \<and> k \<le> unat maxSize - 23)\<rparr>"
proof -
  have "unat (maxSize - of_nat FrameV0OverHeadSize) = unat maxSize - 23"
    using assms by (simp add: FrameV0OverHeadSize_def unat_sub word_le_nat_alt)
  then show "length (fr_Data (createEmptyFrame cid n k c maxSize)) = min k (unat maxSize - 23)"
    "(createEmptyFrame cid n k c maxSize)\<lparr>fr_Data := d\<rparr> =
       \<lparr>fr_ID = cid, fr_FrameNumber = ucast n, fr_Data = d, fr_IsLast = (c \<and> k \<le> unat maxSize - 23)\<rparr>"
    by (auto simp: createEmptyFrame_def Let_def)
qed

lemma cc_ReadFull_min:
  "cc_ReadFull (min (cc_Len cc) m) cc = (Inr (take m (cc_compressed cc)), cc\<lparr>cc_compressed := drop m (cc_compressed cc)\<rparr>)"
  by (simp add: cc_ReadFull_def ReadFull_def cc_Len_def min_def)

lemma with_buffer_simps [simp]:
  "buffer_of (with_buffer cc t) = cc"
  by (cases t) auto

definition sco_ready :: "'w SingularChannelOut \<Rightarrow> bytes" where
  "sco_ready co = cc_compressed (buffer_of (sco_compress co))"

definition spco_ready :: "'w SpanChannelOut \<Rightarrow> bytes" where
  "spco_ready co = (if spco_closed co \<or> spco_full co \<noteq> None then cc_compressed (spco_compressor co) else [])"

lemma SingularChannelOut_OutputFrame_next:
  assumes "23 \<le> unat maxSize"
  shows "let f = next_frame (sco_id co) (sco_frame co) (sco_closed co) (sco_ready co) (unat maxSize - 23) in
       \<exists>co'. SingularChannelOut_OutputFrame maxSize co
              = ((fr_FrameNumber f, if fr_IsLast f then Some EOF else None, frame_bytes f), co') \<and>
            sco_ready co' = drop (unat maxSize - 23) (sco_ready co) \<and> sco_frame co' = sco_frame co + 1 \<and>
            sco_closed co' = sco_closed co \<and> sco_id co' = sco_id co"
  using assms
  by (simp add: SingularChannelOut_OutputFrame_def createEmptyFrame_size SingularChannelOut_ReadyBytes_def
      Compressor_Len_def Compressor_ReadFull_def cc_ReadFull_min next_frame_def sco_ready_def FrameV0OverHeadSize_def
      Let_def not_less cc_Len_def [symmetric])

lemma SpanChannelOut_OutputFrame_next:
  assumes "23 \<le> unat maxSize"
  shows "let f = next_frame (spco_id co) (spco_frame co) (spco_closed co) (spco_ready co) (unat maxSize - 23) in
       \<exists>co'. SpanChannelOut_OutputFrame maxSize co
              = ((fr_FrameNumber f, if fr_IsLast f then Some EOF else None, frame_bytes f), co') \<and>
            spco_ready co' = drop (unat maxSize - 23) (spco_ready co) \<and> spco_frame co' = spco_frame co + 1 \<and>
            spco_closed co' = spco_closed co \<and> spco_id co' = spco_id co"
proof (cases "spco_closed co \<or> spco_full co \<noteq> None")
  case True
  then have r: "SpanChannelOut_ReadyBytes co = cc_Len (spco_compressor co)" "spco_ready co = cc_compressed (spco_compressor co)"
    by (simp_all add: SpanChannelOut_ReadyBytes_def spco_ready_def)
  show ?thesis using assms True
    by (simp add: SpanChannelOut_OutputFrame_def createEmptyFrame_size r cc_ReadFull_min next_frame_def
        FrameV0OverHeadSize_def Let_def not_less cc_Len_def [symmetric]) (simp add: spco_ready_def)
next
  case False
  then have r: "SpanChannelOut_ReadyBytes co = 0" "spco_ready co = []"
    by (simp_all add: SpanChannelOut_ReadyBytes_def spco_ready_def)
  have "cc_ReadFull 0 (spco_compressor co) = (Inr [], spco_compressor co)" by (simp add: cc_ReadFull_def ReadFull_def)
  then show ?thesis using assms False
    by (simp add: SpanChannelOut_OutputFrame_def createEmptyFrame_size r next_frame_def
        FrameV0OverHeadSize_def Let_def not_less) (simp add: spco_ready_def)
qed

lemma span_compress_frame [simp]:
  "spco_closed (snd (span_compress lib co)) = spco_closed co"
  "spco_frame (snd (span_compress lib co)) = spco_frame co" "spco_id (snd (span_compress lib co)) = spco_id co"
  by (auto simp: span_compress_def checkFull_def Let_def split: prod.splits option.splits)

abbreviation "co_ready co \<equiv> case co of SingularOut co \<Rightarrow> sco_ready co | SpanOut co \<Rightarrow> spco_ready co"
abbreviation "co_number co \<equiv> case co of SingularOut co \<Rightarrow> sco_frame co | SpanOut co \<Rightarrow> spco_frame co"
abbreviation "co_closed co \<equiv> case co of SingularOut co \<Rightarrow> sco_closed co | SpanOut co \<Rightarrow> spco_closed co"

interpretation out: channel_out "channel_out_ops lib" "\<lambda>co. co_ready co" "\<lambda>co. co_number co" "\<lambda>co. co_closed co"
  for lib :: "'w OutLib"
proof unfold_locales
  fix maxSize :: u64 and s :: "'w ChannelOut"
  show "ops_ReadyBytes (channel_out_ops lib) s = length (co_ready s)"
    by (simp add: channel_out_ops_def SingularChannelOut_ReadyBytes_def Compressor_Len_def cc_Len_def sco_ready_def
        SpanChannelOut_ReadyBytes_def spco_ready_def split: ChannelOut.split)
  show "unat maxSize < 23 \<Longrightarrow> ops_OutputFrame (channel_out_ops lib) maxSize s = ((0, Some ErrMaxFrameSizeTooSmall, []), s)"
    by (simp add: channel_out_ops_def lift_out_def SingularChannelOut_OutputFrame_def SpanChannelOut_OutputFrame_def
        FrameV0OverHeadSize_def split: ChannelOut.split)
  assume m: "23 \<le> unat maxSize"
  show "let f = next_frame (ops_ID (channel_out_ops lib) s) (co_number s) (co_closed s) (co_ready s) (unat maxSize - 23) in
       \<exists>s'. ops_OutputFrame (channel_out_ops lib) maxSize s
              = ((fr_FrameNumber f, if fr_IsLast f then Some EOF else None, frame_bytes f), s') \<and>
            co_ready s' = drop (unat maxSize - 23) (co_ready s) \<and> co_number s' = co_number s + 1 \<and>
            co_closed s' = co_closed s \<and> ops_ID (channel_out_ops lib) s' = ops_ID (channel_out_ops lib) s"
  proof (cases s)
    case (SingularOut co)
    from SingularChannelOut_OutputFrame_next [OF m, of co] show ?thesis
      by (auto simp: SingularOut channel_out_ops_def lift_out_def Let_def)
  next
    case (SpanOut co)
    from SpanChannelOut_OutputFrame_next [OF m, of co] show ?thesis
      by (auto simp: SpanOut channel_out_ops_def lift_out_def Let_def)
  qed
next
  fix s s' :: "'w ChannelOut"
  assume "\<not> co_closed s" "ops_Close (channel_out_ops lib) s = (None, s')"
  then show "co_closed s' \<and> co_number s' = co_number s \<and> ops_ID (channel_out_ops lib) s' = ops_ID (channel_out_ops lib) s"
    by (cases s) (auto simp: channel_out_ops_def lift_out_def SingularChannelOut_Close_def SpanChannelOut_Close_def Let_def
        split: prod.splits if_splits)
qed

section \<open>Cutting a closed channel into frames\<close>

fun chunks :: "nat \<Rightarrow> bytes \<Rightarrow> bytes list" where
  "chunks m xs = (if m = 0 \<or> length xs \<le> m then [xs] else take m xs # chunks m (drop m xs))"

declare chunks.simps [simp del]

lemma chunks_concat: "concat (chunks m xs) = xs"
  by (induction m xs rule: chunks.induct) (subst chunks.simps, auto)

lemma chunks_bound: "0 < m \<Longrightarrow> p \<in> set (chunks m xs) \<Longrightarrow> length p \<le> m"
  by (induction m xs rule: chunks.induct) (subst (asm) chunks.simps, auto split: if_splits)

lemma chunks_ne [simp]: "chunks m xs \<noteq> []"
  by (subst chunks.simps) simp

text \<open>What a builder has after frames with given pieces of data were cut, from number \<open>k\<close> on.\<close>

definition piece_frames :: "ChannelID \<Rightarrow> u64 \<Rightarrow> bytes list \<Rightarrow> frameData list" where
  "piece_frames cid k pieces =
     map (\<lambda>i. \<lparr>fd_data = frame_bytes \<lparr>fr_ID = cid, fr_FrameNumber = ucast (k + of_nat i), fr_Data = pieces ! i,
                                     fr_IsLast = (Suc i = length pieces)\<rparr>,
              fd_id = (cid, ucast (k + of_nat i))\<rparr>) [0..<length pieces]"

lemma piece_frames_Cons:
  "pieces \<noteq> [] \<Longrightarrow> piece_frames cid k (p # pieces) =
     \<lparr>fd_data = frame_bytes \<lparr>fr_ID = cid, fr_FrameNumber = ucast k, fr_Data = p, fr_IsLast = False\<rparr>,
      fd_id = (cid, ucast k)\<rparr> # piece_frames cid (k + 1) pieces"
  by (simp add: piece_frames_def upt_conv_Cons map_Suc_upt [symmetric] algebra_simps del: upt_Suc)

lemma piece_frames_single:
  "piece_frames cid k [p] =
     [\<lparr>fd_data = frame_bytes \<lparr>fr_ID = cid, fr_FrameNumber = ucast k, fr_Data = p, fr_IsLast = True\<rparr>,
      fd_id = (cid, ucast k)\<rparr>]"
  by (simp add: piece_frames_def)

context channel_out begin

lemma outputFrame_next:
  fixes c :: "'s ChannelBuilder"
  assumes "23 \<le> unat (cc_MaxFrameSize (bld_cfg c))"
  defines "m \<equiv> unat (cc_MaxFrameSize (bld_cfg c)) - 23" and "s \<equiv> bld_co c"
  obtains s' full where
    "outputFrame ops c =
      (if closed s \<and> length (ready s) \<le> m then Some EOF else None,
       c\<lparr>bld_co := s', bld_fullErr := full,
         bld_frames := bld_frames c @ [\<lparr>fd_data = frame_bytes (next_frame (ops_ID ops s) (number s) (closed s) (ready s) m),
                                       fd_id = (ops_ID ops s, ucast (number s))\<rparr>],
         bld_numFrames := bld_numFrames c + 1,
         bld_outputBytes := bld_outputBytes c + 23 + length (take m (ready s))\<rparr>)"
    "ready s' = drop m (ready s)" "number s' = number s + 1" "closed s' = closed s" "ops_ID ops s' = ops_ID ops s"
proof -
  from output_next [OF assms(1), of s] obtain s' where s':
    "ops_OutputFrame ops (cc_MaxFrameSize (bld_cfg c)) s =
      ((ucast (number s), if closed s \<and> length (ready s) \<le> m then Some EOF else None,
        frame_bytes (next_frame (ops_ID ops s) (number s) (closed s) (ready s) m)), s')"
    "ready s' = drop m (ready s)" "number s' = number s + 1" "closed s' = closed s" "ops_ID ops s' = ops_ID ops s"
    by (auto simp: Let_def next_frame_def m_def)
  show ?thesis
    by (rule that [of "if (ucast (number s) :: u16) = 65535 then Some (ChannelFullError ErrMaxFrameIndex) else bld_fullErr c" s',
          OF _ s'(2-5)])
      (simp add: outputFrame_def s_def [symmetric] s' next_frame_def Let_def setFullErr_def)
qed

lemma outputFrame_rest:
  fixes c :: "'s ChannelBuilder"
  assumes "23 \<le> unat (cc_MaxFrameSize (bld_cfg c))"
  shows "\<exists>c'. outputFrame ops c =
      (if closed (bld_co c) \<and> length (ready (bld_co c)) \<le> unat (cc_MaxFrameSize (bld_cfg c)) - 23 then Some EOF else None, c') \<and>
    bld_cfg c' = bld_cfg c \<and> ready (bld_co c') = drop (unat (cc_MaxFrameSize (bld_cfg c)) - 23) (ready (bld_co c)) \<and>
    closed (bld_co c') = closed (bld_co c)"
  by (rule outputFrame_next [OF assms], rule exI, intro conjI, assumption) simp_all

lemma outputAllFrames_chunks:
  fixes c :: "'s ChannelBuilder"
  assumes "23 < unat (cc_MaxFrameSize (bld_cfg c))" "closed (bld_co c)"
  shows "\<exists>c'. outputAllFrames ops c = Some (None, c') \<and>
     bld_frames c' = bld_frames c @ piece_frames (ops_ID ops (bld_co c)) (number (bld_co c))
       (chunks (unat (cc_MaxFrameSize (bld_cfg c)) - 23) (ready (bld_co c)))"
  using assms
proof (induction "length (ready (bld_co c))" arbitrary: c rule: less_induct)
  case (less c)
  let ?s = "bld_co c" and ?m = "unat (cc_MaxFrameSize (bld_cfg c)) - 23"
  have m: "0 < ?m" using less.prems(1) by simp
  from less.prems(1) have le: "23 \<le> unat (cc_MaxFrameSize (bld_cfg c))" by simp
  from outputFrame_next [OF le] obtain s' full where o':
    "outputFrame ops c =
      (if closed ?s \<and> length (ready ?s) \<le> ?m then Some EOF else None,
       c\<lparr>bld_co := s', bld_fullErr := full,
         bld_frames := bld_frames c @ [\<lparr>fd_data = frame_bytes (next_frame (ops_ID ops ?s) (number ?s) (closed ?s) (ready ?s) ?m),
                                       fd_id = (ops_ID ops ?s, ucast (number ?s))\<rparr>],
         bld_numFrames := bld_numFrames c + 1,
         bld_outputBytes := bld_outputBytes c + 23 + length (take ?m (ready ?s))\<rparr>)"
    "ready s' = drop ?m (ready ?s)" "number s' = number ?s + 1" "closed s' = closed ?s" "ops_ID ops s' = ops_ID ops ?s"
    by blast
  show ?case
  proof (cases "length (ready ?s) \<le> ?m")
    case True
    then have "chunks ?m (ready ?s) = [ready ?s]" by (subst chunks.simps) simp
    then show ?thesis using True less.prems(2)
      by (subst outputAllFrames.simps) (simp add: o'(1) next_frame_def piece_frames_single)
  next
    case False
    let ?c = "snd (outputFrame ops c)"
    have c: "bld_co ?c = s'" "bld_cfg ?c = bld_cfg c" using o'(1) by simp_all
    have "length (ready (bld_co ?c)) < length (ready ?s)" using False m by (simp add: c o'(2))
    from less.hyps [OF this] less.prems obtain c' where c':
      "outputAllFrames ops ?c = Some (None, c')"
      "bld_frames c' = bld_frames ?c @ piece_frames (ops_ID ops s') (number s') (chunks ?m (ready s'))"
      unfolding c o'(4) by auto
    have "chunks ?m (ready ?s) = take ?m (ready ?s) # chunks ?m (ready s')"
      using False m by (subst chunks.simps) (simp add: o'(2))
    then show ?thesis using False c' o'
      by (subst outputAllFrames.simps) (simp add: next_frame_def piece_frames_Cons)
  qed
qed

lemma outputAllFrames_stuck:
  fixes c :: "'s ChannelBuilder"
  assumes "outputAllFrames ops c = Some r" "unat (cc_MaxFrameSize (bld_cfg c)) = 23" "closed (bld_co c)"
  shows "ready (bld_co c) = []"
proof -
  have "ops = ops \<longrightarrow> unat (cc_MaxFrameSize (bld_cfg c)) = 23 \<longrightarrow> closed (bld_co c) \<longrightarrow> ready (bld_co c) = []"
  proof (rule outputAllFrames.raw_induct [OF _ assms(1),
        where P = "\<lambda>ops' c r. ops' = ops \<longrightarrow> unat (cc_MaxFrameSize (bld_cfg c)) = 23 \<longrightarrow> closed (bld_co c) \<longrightarrow> ready (bld_co c) = []"],
      intro impI)
    fix rec ops' and c :: "'s ChannelBuilder" and r
    assume IH: "\<And>ops' c r. rec ops' c = Some r \<Longrightarrow>
        ops' = ops \<longrightarrow> unat (cc_MaxFrameSize (bld_cfg c)) = 23 \<longrightarrow> closed (bld_co c) \<longrightarrow> ready (bld_co c) = []"
      and body: "(case outputFrame ops' c of (None, c) \<Rightarrow> rec ops' c
         | (Some err, c) \<Rightarrow> if err = EOF then Some (None, c) else Some (Some err, c)) = Some r"
      and o': "ops' = ops" and m: "unat (cc_MaxFrameSize (bld_cfg c)) = 23" and cl: "closed (bld_co c)"
    show "ready (bld_co c) = []"
    proof (rule ccontr)
      assume ne: "ready (bld_co c) \<noteq> []"
      have "23 \<le> unat (cc_MaxFrameSize (bld_cfg c))" using m by simp
      from outputFrame_rest [OF this] ne m cl obtain c1 where c1: "outputFrame ops c = (None, c1)"
        "bld_cfg c1 = bld_cfg c" "ready (bld_co c1) = ready (bld_co c)" "closed (bld_co c1)"
        by auto
      have "rec ops c1 = Some r" using body unfolding o' c1(1) by simp
      from IH [OF this] c1(2-4) m ne show False by simp
    qed
  qed
  then show ?thesis using assms by blast
qed

lemma outputAllFrames_returns:
  fixes c :: "'s ChannelBuilder"
  assumes "closed (bld_co c)" "23 \<le> unat (cc_MaxFrameSize (bld_cfg c))"
  shows "(\<exists>r. outputAllFrames ops c = Some r) \<longleftrightarrow> 23 < unat (cc_MaxFrameSize (bld_cfg c)) \<or> ready (bld_co c) = []"
proof (cases "23 < unat (cc_MaxFrameSize (bld_cfg c))")
  case True
  then show ?thesis using outputAllFrames_chunks [OF True assms(1)] by auto
next
  case False
  then have m: "unat (cc_MaxFrameSize (bld_cfg c)) = 23" using assms(2) by simp
  show ?thesis
  proof (cases "ready (bld_co c) = []")
    case True
    from outputFrame_rest [OF assms(2)] obtain c1 where "outputFrame ops c = (Some EOF, c1)"
      using True assms(1) by auto
    then show ?thesis using True by (subst outputAllFrames.simps) simp
  next
    case ready: False
    have "outputAllFrames ops c \<noteq> Some r" for r
      using outputAllFrames_stuck [of c r] m assms(1) ready by blast
    then show ?thesis using ready m by auto
  qed
qed

lemma OutputFrames_full:
  fixes c :: "'s ChannelBuilder"
  assumes "IsFull c" "\<not> closed (bld_co c)" "ops_Close ops (bld_co c) = (None, co)"
    and "23 < unat (cc_MaxFrameSize (bld_cfg c))"
  shows "\<exists>c'. OutputFrames ops c = Some (None, c') \<and>
     bld_frames c' = bld_frames c @ piece_frames (ops_ID ops (bld_co c)) (number (bld_co c))
       (chunks (unat (cc_MaxFrameSize (bld_cfg c)) - 23) (ready co))"
proof -
  note co = close_once [OF assms(2,3)]
  let ?c = "c\<lparr>bld_co := co\<rparr>"
  have "23 < unat (cc_MaxFrameSize (bld_cfg ?c))" "closed (bld_co ?c)" using assms(4) co by simp_all
  from outputAllFrames_chunks [OF this] obtain c' where "outputAllFrames ops ?c = Some (None, c')"
    "bld_frames c' = bld_frames c @ piece_frames (ops_ID ops (bld_co c)) (number (bld_co c))
       (chunks (unat (cc_MaxFrameSize (bld_cfg c)) - 23) (ready co))"
    using co by auto
  then show ?thesis using assms(1,3) by (simp add: OutputFrames_def closeAndOutputAllFrames_def)
qed

end

lemma ucast_of_nat_u16: "ucast (of_nat n :: u64) = (of_nat n :: u16)"
  by (rule bit_word_eqI) (simp add: bit_simps)

lemma piece_frames_size: "f \<in> set (piece_frames cid k pieces) \<Longrightarrow> \<exists>p \<in> set pieces. length (fd_data f) = 23 + length p"
  by (auto simp: piece_frames_def)

lemma piece_frames_channel:
  "map fd_data (piece_frames cid 0 pieces) = map frame_bytes (channel_frames cid pieces)"
  by (simp add: piece_frames_def channel_frames_def channel_frame_def ucast_of_nat_u16)

text \<open>A channel for the examples: the writer copies, and eight bytes are ready.\<close>

definition copy_lib :: "unit OutLib" where
  "copy_lib = \<lparr>ol_compress = copy_writer, ol_batch = \<lparr>lib_tx = undefined, lib_encodeSingular = (\<lambda>_. Inr []),
     lib_decodeSingular = (\<lambda>_. Inl EOF)\<rparr>, ol_rlp = (\<lambda>b. b)\<rparr>"

definition small_config :: "u64 \<Rightarrow> ChannelConfig" where
  "small_config maxFrameSize = \<lparr>cc_SeqWindowSize = 10, cc_ChannelTimeout = 10, cc_MaxChannelDuration = 0, cc_SubSafetyMargin = 1,
     cc_MaxFrameSize = maxFrameSize, cc_TargetNumFrames = 1, cc_CompressorConfig = \<lparr>cfg_TargetOutputSize = 8,
       cfg_ApproxComprRatio = 1, cfg_Kind = ''ratio'', cfg_CompressionAlgo = Zlib\<rparr>, cc_BatchType = 0, cc_MultiFrameTxs = False\<rparr>"

definition full_builder :: "u64 \<Rightarrow> bool \<Rightarrow> unit ChannelOut ChannelBuilder" where
  "full_builder maxFrameSize closed =
     \<lparr>bld_cfg = small_config maxFrameSize, bld_rollupCfg = OPBNBMainnet, bld_timeout = 0, bld_timeoutReason = None,
      bld_fullErr = Some (ChannelFullError ErrTerminated),
      bld_co = SingularOut \<lparr>sco_id = 9, sco_frame = 0, sco_rlpLength = 8,
        sco_compress = RatioCompressor (cc_CompressorConfig (small_config maxFrameSize)) 8
          \<lparr>cc_compressed = [1, 2, 3, 4, 5, 6, 7, 8], cc_writer = (), cc_brotli = False\<rparr>, sco_closed = closed\<rparr>,
      bld_blocks = [], bld_latestL1Origin = \<lparr>bid_Hash = 0, bid_Number = 0\<rparr>, bld_frames = [], bld_numFrames = 0,
      bld_outputBytes = 0\<rparr>"

text \<open>C4: From the batcher to the reader of a channel. When a channel that is full and has not been cut yet
  is closed without an error, and the configuration leaves room for data in a frame, OutputFrames
  returns; its frames fit the maximal size, and whoever receives these frames, in any order and any
  number of times, reads exactly the bytes of the closed compressor, if they are at most 65536.\<close>

theorem OutputFrames_reach_Reader:
  assumes "IsFull c" "\<not> co_closed (bld_co c)" "bld_frames c = []" "co_number (bld_co c) = 0"
    and "ops_Close (channel_out_ops lib) (bld_co c) = (None, co)"
    and "23 < unat (cc_MaxFrameSize (bld_cfg c))"
    and "length (chunks (unat (cc_MaxFrameSize (bld_cfg c)) - 23) (co_ready co)) \<le> 65536"
  shows "\<exists>c' fs. OutputFrames (channel_out_ops lib) c = Some (None, c') \<and>
     map fd_data (bld_frames c') = map frame_bytes fs \<and>
     (\<forall>f \<in> set (bld_frames c'). length (fd_data f) \<le> unat (cc_MaxFrameSize (bld_cfg c))) \<and>
     (\<forall>fbs b. set (map fst fbs) = set fs \<longrightarrow>
        Reader (offer (NewChannel (ops_ID (channel_out_ops lib) (bld_co c)) b) fbs) = Some (co_ready co))"
proof -
  let ?m = "unat (cc_MaxFrameSize (bld_cfg c)) - 23" and ?cid = "ops_ID (channel_out_ops lib) (bld_co c)"
  let ?pieces = "chunks ?m (co_ready co)"
  from out.OutputFrames_full [OF assms(1,2,5,6)] obtain c' where
    c': "OutputFrames (channel_out_ops lib) c = Some (None, c')" "bld_frames c' = piece_frames ?cid 0 ?pieces"
    using assms(3,4) by auto
  have "length (fd_data f) \<le> unat (cc_MaxFrameSize (bld_cfg c))" if f: "f \<in> set (bld_frames c')" for f
  proof -
    obtain p where p: "p \<in> set ?pieces" "length (fd_data f) = 23 + length p"
      using piece_frames_size [OF f [unfolded c'(2)]] by blast
    then show ?thesis using chunks_bound [OF _ p(1)] assms(6) by simp
  qed
  moreover have "Reader (offer (NewChannel ?cid b) fbs) = Some (co_ready co)"
    if "set (map fst fbs) = set (channel_frames ?cid ?pieces)" for fbs b
    using received_all [OF _ assms(7) received_offer [OF assms(7)], of fbs ?cid b] that
    by (auto simp: chunks_concat)
  ultimately show ?thesis using c' piece_frames_channel [of ?cid ?pieces]
    by (intro exI [of _ c'] exI [of _ "channel_frames ?cid ?pieces"]) simp
qed

theorem OutputFrames_reach_Reader_witness:
  "\<exists>c' fs. OutputFrames (channel_out_ops copy_lib) (full_builder 26 False) = Some (None, c') \<and>
     map fd_data (bld_frames c') = map frame_bytes fs \<and>
     Reader (offer (NewChannel 9 zero_L1BlockRef) (map (\<lambda>f. (f, zero_L1BlockRef)) (rev fs))) = Some [1, 2, 3, 4, 5, 6, 7, 8]"
proof -
  let ?c = "full_builder 26 False"
  obtain co where co: "ops_Close (channel_out_ops copy_lib) (bld_co ?c) = (None, co)" "co_ready co = [1, 2, 3, 4, 5, 6, 7, 8]"
    by (simp add: full_builder_def channel_out_ops_def lift_out_def SingularChannelOut_Close_def Compressor_Close_def
        cc_Close_def emit_def copy_lib_def copy_writer_def sco_ready_def)
  have n: "length (chunks (unat (cc_MaxFrameSize (bld_cfg ?c)) - 23) (co_ready co)) \<le> 65536"
    unfolding co(2) by (simp add: full_builder_def small_config_def chunks.simps)
  have c: "IsFull ?c" "\<not> co_closed (bld_co ?c)" "bld_frames ?c = []" "co_number (bld_co ?c) = 0"
    "23 < unat (cc_MaxFrameSize (bld_cfg ?c))" "ops_ID (channel_out_ops copy_lib) (bld_co ?c) = 9"
    by (simp_all add: IsFull_def full_builder_def small_config_def channel_out_ops_def)
  from OutputFrames_reach_Reader [OF c(1-4) co(1) c(5) n] obtain c' fs where
    r: "OutputFrames (channel_out_ops copy_lib) ?c = Some (None, c')" "map fd_data (bld_frames c') = map frame_bytes fs"
    "\<And>fbs b. set (map fst fbs) = set fs \<Longrightarrow> Reader (offer (NewChannel 9 b) fbs) = Some (co_ready co)"
    unfolding c(6) by blast
  have "Reader (offer (NewChannel 9 zero_L1BlockRef) (map (\<lambda>f. (f, zero_L1BlockRef)) (rev fs))) = Some (co_ready co)"
    by (rule r(3)) (simp add: image_image)
  then show ?thesis using r(1,2) co(2) by auto
qed

text \<open>C34: Whether the frames of a closed channel are ever all cut depends on the configuration: the loop
  returns exactly when a frame has room for data beside its 23 bytes of overhead, or there is no
  data. A maximal frame size of 23 bytes, which Check accepts, makes it emit empty frames for ever.\<close>

theorem outputAllFrames_terminates_iff:
  assumes "co_closed (bld_co c)" "ChannelConfig_Check (bld_cfg c) = None"
  shows "(\<exists>r. outputAllFrames (channel_out_ops lib) c = Some r) \<longleftrightarrow>
     cc_MaxFrameSize (bld_cfg c) \<noteq> 23 \<or> co_ready (bld_co c) = []"
proof -
  have m: "23 \<le> unat (cc_MaxFrameSize (bld_cfg c))"
    using assms(2) by (auto simp: ChannelConfig_Check_def FrameV0OverHeadSize_def word_less_nat_alt split: if_splits)
  have "23 < unat (cc_MaxFrameSize (bld_cfg c)) \<longleftrightarrow> cc_MaxFrameSize (bld_cfg c) \<noteq> 23"
    using m by (auto simp: word_unat_eq_iff)
  then show ?thesis using out.outputAllFrames_returns [OF assms(1) m] by simp
qed

theorem outputAllFrames_terminates_iff_witness:
  "(\<exists>r. outputAllFrames (channel_out_ops copy_lib) (full_builder 26 True) = Some r) \<and>
   \<not> (\<exists>r. outputAllFrames (channel_out_ops copy_lib) (full_builder 23 True) = Some r)"
proof -
  have c: "ChannelConfig_Check (bld_cfg (full_builder n True)) = None" if "n = 23 \<or> n = 26" for n
    using that by (auto simp: ChannelConfig_Check_def full_builder_def small_config_def FrameV0OverHeadSize_def)
  have cl: "co_closed (bld_co (full_builder n True))" for n by (simp add: full_builder_def)
  have r: "co_ready (bld_co (full_builder n True)) \<noteq> []" for n by (simp add: full_builder_def sco_ready_def)
  have m: "cc_MaxFrameSize (bld_cfg (full_builder n True)) = n" for n by (simp add: full_builder_def small_config_def)
  show ?thesis
    using outputAllFrames_terminates_iff [OF cl c, of 26] outputAllFrames_terminates_iff [OF cl c, of 23] r m
    by auto
qed

end
