(* ===== verification/Batcher.thy ===== *)
theory Batcher
  imports ChannelBuilder ChannelBank Blob
begin

text \<open>
  The channel manager of the batcher: op-batcher/batcher/tx_data.go, channel.go and channel_manager.go.
  Blocks wait in a queue, go into the current channel, and its frames go out as transactions, which are
  confirmed or fail. The code holds channels by pointer; here the store \<open>cm_store\<close> lists all channels
  that were made and a pointer is an index into it. Slices are values, but for the queue that Close
  walks over while it is shifted. What the code panics on, and a loop that does not end, is \<open>None\<close>.
\<close>

section \<open>Transactions\<close>

type_synonym txID = "frameID list"

fun hex_digit :: "nat \<Rightarrow> char" where
  "hex_digit n = char_of (if n < 10 then 48 + n else 87 + n)"

definition hex_of :: "bytes \<Rightarrow> string" where
  "hex_of bs = concat (map (\<lambda>b. [hex_digit (unat b div 16), hex_digit (unat b mod 16)]) bs)"

definition ChannelID_String :: "ChannelID \<Rightarrow> string" where
  "ChannelID_String cid = hex_of (be_put 16 cid)"

fun decimal :: "nat \<Rightarrow> string" where
  "decimal n = (if n < 10 then [hex_digit n] else decimal (n div 10) @ [hex_digit (n mod 10)])"

declare decimal.simps [simp del]

fun txID_string :: "(ChannelID \<Rightarrow> string) \<Rightarrow> ChannelID \<Rightarrow> txID \<Rightarrow> string" where
  "txID_string chIDStringer curChID [] = ''''"
| "txID_string chIDStringer curChID ((chID, frameNumber) # fs) =
     (if chID = curChID then ''+'' @ decimal (unat frameNumber)
      else (if curChID \<noteq> 0 then ''|'' else '''') @ chIDStringer chID @ '':'' @ decimal (unat frameNumber))
     @ txID_string chIDStringer chID fs"

definition txID_String :: "txID \<Rightarrow> string" where
  "txID_String i = txID_string ChannelID_String 0 i"

type_synonym txData = "frameData list"

definition txData_ID :: "txData \<Rightarrow> txID" where "txData_ID td = map fd_id td"

definition txData_CallData :: "txData \<Rightarrow> bytes" where
  "txData_CallData td = DerivationVersion0 # concat (map fd_data td)"

fun frame_blobs :: "frameData list \<Rightarrow> bytes list res go" where
  "frame_blobs [] = Some (Inr [])"
| "frame_blobs (f # fs) = do {
     blob \<leftarrow> FromData (DerivationVersion0 # fd_data f);
     case blob of
       Inl err \<Rightarrow> Some (Inl err)
     | Inr blob \<Rightarrow> map_option (map_sum (\<lambda>e. e) ((#) blob)) (frame_blobs fs)
   }"

definition txData_Blobs :: "txData \<Rightarrow> bytes list res go" where
  "txData_Blobs td = frame_blobs td"

definition txData_Len :: "txData \<Rightarrow> nat" where
  "txData_Len td = sum_list (map (length \<circ> fd_data) td)"

section \<open>Channels (channel.go)\<close>

record 's channel =
  chn_cfg :: ChannelConfig
  chn_builder :: "'s ChannelBuilder"
  chn_pending :: "(string \<times> txData) list"
  chn_confirmed :: "(string \<times> BlockID) list"
  chn_confirmedTxUpdated :: bool
  chn_minInclusionBlock :: u64
  chn_maxInclusionBlock :: u64

definition newChannel :: "'w OutLib \<Rightarrow> ChannelID res \<Rightarrow> ChannelConfig \<Rightarrow> Config \<Rightarrow> u64 \<Rightarrow> 'w ChannelOut channel res go" where
  "newChannel lib random cfg rollupCfg latestL1OriginBlockNum =
     map_option (\<lambda>r. case r of
         Inl err \<Rightarrow> Inl (Wrap ''creating new channel'' err)
       | Inr cb \<Rightarrow> Inr \<lparr>chn_cfg = cfg, chn_builder = cb, chn_pending = [], chn_confirmed = [],
                        chn_confirmedTxUpdated = False, chn_minInclusionBlock = 0, chn_maxInclusionBlock = 0\<rparr>)
       (NewChannelBuilder lib random cfg rollupCfg latestL1OriginBlockNum)"

definition updateInclusionBlocks :: "'s channel \<Rightarrow> 's channel" where
  "updateInclusionBlocks s =
     (if chn_confirmed s = [] \<or> \<not> chn_confirmedTxUpdated s then s
      else
        s\<lparr>chn_minInclusionBlock := fold (\<lambda>(_, b) m. if bid_Number b < m then bid_Number b else m) (chn_confirmed s) (- 1),
          chn_maxInclusionBlock := fold (\<lambda>(_, b) m. if bid_Number b > m then bid_Number b else m) (chn_confirmed s) 0,
          chn_confirmedTxUpdated := False\<rparr>)"

definition isTimedOut :: "'s channel \<Rightarrow> bool \<times> 's channel" where
  "isTimedOut s =
     (let s = updateInclusionBlocks s in
      (chn_maxInclusionBlock s - chn_minInclusionBlock s \<ge> cc_ChannelTimeout (chn_cfg s), s))"

definition isFullySubmitted :: "'s channel \<Rightarrow> bool \<times> 's channel" where
  "isFullySubmitted s =
     (let s = updateInclusionBlocks s in
      (IsFull (chn_builder s) \<and> length (chn_pending s) + PendingFrames (chn_builder s) = 0, s))"

definition NoneSubmitted :: "'s channel \<Rightarrow> bool" where
  "NoneSubmitted s \<longleftrightarrow> length (chn_confirmed s) = 0 \<and> length (chn_pending s) = 0"

definition channel_TxFailed :: "'s ChannelOutOps \<Rightarrow> string \<Rightarrow> 's channel \<Rightarrow> 's channel go" where
  "channel_TxFailed ops i s =
     (case map_of (chn_pending s) i of
        None \<Rightarrow> Some s
      | Some data \<Rightarrow> do {
          cb \<leftarrow> PushFrames ops data (chn_builder s);
          Some (s\<lparr>chn_builder := cb, chn_pending := AList.delete i (chn_pending s)\<rparr>)
        })"

definition channel_TxConfirmed :: "string \<Rightarrow> BlockID \<Rightarrow> 's channel \<Rightarrow> (bool \<times> OutBlock list) \<times> 's channel" where
  "channel_TxConfirmed i inclusionBlock s =
     (if map_of (chn_pending s) i = None then ((False, []), s)
      else
        (let s = s\<lparr>chn_pending := AList.delete i (chn_pending s),
                   chn_confirmed := AList.update i inclusionBlock (chn_confirmed s),
                   chn_confirmedTxUpdated := True,
                   chn_builder := FramePublished (bid_Number inclusionBlock) (chn_builder s)\<rparr>;
             (timedOut, s) = isTimedOut s in
         if timedOut then ((True, bld_blocks (chn_builder s)), s)
         else (let (submitted, s) = isFullySubmitted s in ((submitted, []), s))))"

definition HasTxData :: "'s channel \<Rightarrow> bool" where
  "HasTxData s \<longleftrightarrow>
     (if IsFull (chn_builder s) \<or> \<not> cc_MultiFrameTxs (chn_cfg s) then HasFrame (chn_builder s)
      else int (PendingFrames (chn_builder s)) \<ge> MaxFramesPerTx (chn_cfg s))"

fun take_frames :: "nat \<Rightarrow> 's ChannelBuilder \<Rightarrow> (txData \<times> 's ChannelBuilder) go" where
  "take_frames 0 cb = Some ([], cb)"
| "take_frames (Suc n) cb =
     (if HasFrame cb then do {
        (frame, cb) \<leftarrow> Builder_NextFrame cb;
        (frames, cb) \<leftarrow> take_frames n cb;
        Some (frame # frames, cb)
      }
      else Some ([], cb))"

definition NextTxData :: "'s channel \<Rightarrow> (txData \<times> 's channel) go" where
  "NextTxData s =
     (let nf = MaxFramesPerTx (chn_cfg s) in
      if nf < 0 then None
      else do {
        (txdata, cb) \<leftarrow> take_frames (nat nf) (chn_builder s);
        Some (txdata, s\<lparr>chn_builder := cb,
          chn_pending := AList.update (txID_String (txData_ID txdata)) txdata (chn_pending s)\<rparr>)
      })"

section \<open>The channel manager (channel_manager.go)\<close>

record 's channelManager =
  cm_cfg :: ChannelConfig
  cm_rollupCfg :: Config
  cm_blocks :: "OutBlock list"
  cm_l1OriginLastClosedChannel :: BlockID
  cm_tip :: Hash
  cm_currentChannel :: "nat option"
  cm_channelQueue :: "nat list"
  cm_txChannels :: "(string \<times> nat) list"
  cm_closed :: bool
  cm_isVolta :: bool
  cm_isFourier :: bool
  cm_store :: "'s channel list"

definition ErrReorg :: gerr where "ErrReorg = Msg ''block does not extend existing chain''"
definition ErrPendingAfterClose :: gerr where
  "ErrPendingAfterClose = Msg ''pending channels remain after closing channel-manager''"

definition NewChannelManager :: "ChannelConfig \<Rightarrow> Config \<Rightarrow> 's channelManager" where
  "NewChannelManager cfg rollupCfg =
     \<lparr>cm_cfg = cfg, cm_rollupCfg = rollupCfg, cm_blocks = [], cm_l1OriginLastClosedChannel = \<lparr>bid_Hash = 0, bid_Number = 0\<rparr>,
      cm_tip = 0, cm_currentChannel = None, cm_channelQueue = [], cm_txChannels = [], cm_closed = False,
      cm_isVolta = False, cm_isFourier = False, cm_store = []\<rparr>"

definition Manager_Clear :: "BlockID \<Rightarrow> 's channelManager \<Rightarrow> 's channelManager" where
  "Manager_Clear l1OriginLastClosedChannel s =
     s\<lparr>cm_blocks := [], cm_l1OriginLastClosedChannel := l1OriginLastClosedChannel, cm_tip := 0, cm_closed := False,
       cm_currentChannel := None, cm_channelQueue := [], cm_txChannels := []\<rparr>"

text \<open>The channel behind a pointer, and writing through it.\<close>

definition the_channel :: "nat \<Rightarrow> 's channelManager \<Rightarrow> 's channel" where
  "the_channel p s = cm_store s ! p"

definition put_channel :: "nat \<Rightarrow> 's channel \<Rightarrow> 's channelManager \<Rightarrow> 's channelManager" where
  "put_channel p ch s = s\<lparr>cm_store := (cm_store s)[p := ch]\<rparr>"

fun index_of :: "nat \<Rightarrow> nat list \<Rightarrow> nat option" where
  "index_of p [] = None"
| "index_of p (q # qs) = (if q = p then Some 0 else map_option Suc (index_of p qs))"

definition removePendingChannel :: "nat \<Rightarrow> 's channelManager \<Rightarrow> 's channelManager" where
  "removePendingChannel p s =
     (let s = (if cm_currentChannel s = Some p then s\<lparr>cm_currentChannel := None\<rparr> else s) in
      case index_of p (cm_channelQueue s) of
        None \<Rightarrow> s
      | Some i \<Rightarrow> s\<lparr>cm_channelQueue := take i (cm_channelQueue s) @ drop (i + 1) (cm_channelQueue s)\<rparr>)"

definition Manager_TxFailed :: "'s ChannelOutOps \<Rightarrow> txID \<Rightarrow> 's channelManager \<Rightarrow> 's channelManager go" where
  "Manager_TxFailed ops txid s =
     (let i = txID_String txid in
      case map_of (cm_txChannels s) i of
        None \<Rightarrow> Some s
      | Some p \<Rightarrow> do {
          ch \<leftarrow> channel_TxFailed ops i (the_channel p s);
          let s = put_channel p ch (s\<lparr>cm_txChannels := AList.delete i (cm_txChannels s)\<rparr>);
          Some (if cm_closed s \<and> NoneSubmitted ch then removePendingChannel p s else s)
        })"

definition Manager_TxConfirmed :: "txID \<Rightarrow> BlockID \<Rightarrow> 's channelManager \<Rightarrow> 's channelManager" where
  "Manager_TxConfirmed txid inclusionBlock s =
     (let i = txID_String txid in
      case map_of (cm_txChannels s) i of
        None \<Rightarrow> s
      | Some p \<Rightarrow>
          (case channel_TxConfirmed i inclusionBlock (the_channel p s) of
             ((finished, blocks), ch) \<Rightarrow>
               (let s = put_channel p ch (s\<lparr>cm_txChannels := AList.delete i (cm_txChannels s),
                                           cm_blocks := blocks @ cm_blocks s\<rparr>)
                in if finished then removePendingChannel p s else s)))"

definition nextTxData :: "nat option \<Rightarrow> 's channelManager \<Rightarrow> (txData res \<times> 's channelManager) go" where
  "nextTxData p s =
     (case p of
        None \<Rightarrow> Some (Inl EOF, s)
      | Some p \<Rightarrow>
          if \<not> HasTxData (the_channel p s) then Some (Inl EOF, s)
          else do {
            (tx, ch) \<leftarrow> NextTxData (the_channel p s);
            Some (Inr tx, (put_channel p ch s)\<lparr>cm_txChannels :=
              AList.update (txID_String (txData_ID tx)) p (cm_txChannels s)\<rparr>)
          })"

definition ensureChannelWithSpace :: "'w OutLib \<Rightarrow> ChannelID res \<Rightarrow> 'w ChannelOut channelManager
    \<Rightarrow> (gerr option \<times> 'w ChannelOut channelManager) go" where
  "ensureChannelWithSpace lib random s =
     (if (case cm_currentChannel s of None \<Rightarrow> False | Some p \<Rightarrow> \<not> IsFull (chn_builder (the_channel p s))) then Some (None, s)
      else do {
        pc \<leftarrow> newChannel lib random (cm_cfg s) (cm_rollupCfg s) (bid_Number (cm_l1OriginLastClosedChannel s));
        case pc of
          Inl err \<Rightarrow> Some (Some (Wrap ''creating new channel'' err), s)
        | Inr pc \<Rightarrow>
            (let p = length (cm_store s) in
             Some (None, s\<lparr>cm_store := cm_store s @ [pc], cm_currentChannel := Some p,
                           cm_channelQueue := cm_channelQueue s @ [p]\<rparr>))
      })"

definition CallDataMaxTxSize :: u64 where "CallDataMaxTxSize = 120000"

definition SwitchDAType :: "string \<Rightarrow> 's channelManager \<Rightarrow> 's channelManager go" where
  "SwitchDAType targetDAType s =
     (if targetDAType = ''blobs'' then
        Some (s\<lparr>cm_cfg := (cm_cfg s)\<lparr>cc_MaxFrameSize := of_nat MaxBlobDataSize - 1, cc_MultiFrameTxs := True\<rparr>\<rparr>)
      else if targetDAType = ''calldata'' then
        Some (s\<lparr>cm_cfg := (cm_cfg s)\<lparr>cc_MaxFrameSize := CallDataMaxTxSize - 1, cc_MultiFrameTxs := False\<rparr>\<rparr>)
      else None)"

definition on_builder :: "('s ChannelBuilder \<Rightarrow> 's ChannelBuilder) \<Rightarrow> nat \<Rightarrow> 's channelManager \<Rightarrow> 's channelManager" where
  "on_builder f p s =
     put_channel p ((the_channel p s)\<lparr>chn_builder := f (chn_builder (the_channel p s))\<rparr>) s"

definition registerL1Block :: "BlockID \<Rightarrow> nat \<Rightarrow> 's channelManager \<Rightarrow> 's channelManager" where
  "registerL1Block l1Head p s = on_builder (CheckTimeout (bid_Number l1Head)) p s"

text \<open>The loop of processBlocks over the queue: the number of blocks that were added, or an error.\<close>

fun process_blocks_loop :: "'s ChannelOutOps \<Rightarrow> keccak \<Rightarrow> nat \<Rightarrow> OutBlock list \<Rightarrow> nat \<Rightarrow> 's channelManager
    \<Rightarrow> (nat res \<times> 's channelManager) go" where
  "process_blocks_loop ops keccak256 p [] blocksAdded s = Some (Inr blocksAdded, s)"
| "process_blocks_loop ops keccak256 p (block # rest) blocksAdded s =
     (let cb = chn_builder (the_channel p s); used = ops_InputBytes ops (bld_co cb) \<noteq> 0 in
      if \<not> cm_isFourier s \<and> IsFourier (cm_rollupCfg s) (lb_Time block) \<and> used then
        Some (Inr blocksAdded, (on_builder Builder_Close p s)\<lparr>cm_isFourier := True, cm_isVolta := True\<rparr>)
      else if \<not> cm_isVolta s \<and> IsVolta (cm_rollupCfg s) (lb_Time block) \<and> used then
        Some (Inr blocksAdded, (on_builder Builder_Close p s)\<lparr>cm_isVolta := True\<rparr>)
      else do {
        (r, cb) \<leftarrow> Builder_AddBlock ops keccak256 block cb;
        let s = on_builder (\<lambda>_. cb) p s;
        case r of
          Inl err \<Rightarrow>
            if is_ChannelFullError err then Some (Inr blocksAdded, s)
            else Some (Inl (Wrap ''adding block to channel builder'' err), s)
        | Inr l1info \<Rightarrow>
            if IsFull cb then Some (Inr (blocksAdded + 1), s)
            else process_blocks_loop ops keccak256 p rest (blocksAdded + 1) s
      })"

definition processBlocks :: "'s ChannelOutOps \<Rightarrow> keccak \<Rightarrow> nat \<Rightarrow> 's channelManager \<Rightarrow> (gerr option \<times> 's channelManager) go" where
  "processBlocks ops keccak256 p s = do {
     (r, s') \<leftarrow> process_blocks_loop ops keccak256 p (cm_blocks s) 0 s;
     case r of
       Inl err \<Rightarrow> Some (Some err, s')
     | Inr blocksAdded \<Rightarrow> Some (None, s'\<lparr>cm_blocks := drop blocksAdded (cm_blocks s')\<rparr>)
   }"

definition Manager_outputFrames :: "'s ChannelOutOps \<Rightarrow> nat \<Rightarrow> 's channelManager \<Rightarrow> (gerr option \<times> 's channelManager) go" where
  "Manager_outputFrames ops p s = do {
     (err, cb) \<leftarrow> OutputFrames ops (chn_builder (the_channel p s));
     let s = on_builder (\<lambda>_. cb) p s;
     case err of
       Some err \<Rightarrow> Some (Some (Wrap ''creating frames with channel builder'' err), s)
     | None \<Rightarrow>
         if \<not> IsFull cb then Some (None, s)
         else if bid_Number (bld_latestL1Origin cb) > bid_Number (cm_l1OriginLastClosedChannel s) then
           Some (None, s\<lparr>cm_l1OriginLastClosedChannel := bld_latestL1Origin cb\<rparr>)
         else Some (None, s)
   }"

definition firstWithTxData :: "'s channelManager \<Rightarrow> nat option" where
  "firstWithTxData s = find (\<lambda>p. HasTxData (the_channel p s)) (cm_channelQueue s)"

definition TxData :: "'w OutLib \<Rightarrow> keccak \<Rightarrow> ChannelID res \<Rightarrow> BlockID \<Rightarrow> 'w ChannelOut channelManager
    \<Rightarrow> (txData res \<times> 'w ChannelOut channelManager) go" where
  "TxData lib keccak256 random l1Head s =
     (if firstWithTxData s \<noteq> None \<or> cm_closed s then nextTxData (firstWithTxData s) s
      else if cm_blocks s = [] then Some (Inl EOF, s)
      else do {
        (err, s) \<leftarrow> ensureChannelWithSpace lib random s;
        case err of
          Some err \<Rightarrow> Some (Inl err, s)
        | None \<Rightarrow> do {
            p \<leftarrow> cm_currentChannel s;
            (err, s) \<leftarrow> processBlocks (channel_out_ops lib) keccak256 p s;
            case err of
              Some err \<Rightarrow> Some (Inl err, s)
            | None \<Rightarrow> do {
                let s = registerL1Block l1Head p s;
                (err, s) \<leftarrow> Manager_outputFrames (channel_out_ops lib) p s;
                case err of
                  Some err \<Rightarrow> Some (Inl err, s)
                | None \<Rightarrow> nextTxData (cm_currentChannel s) s
              }
          }
      })"

definition AddL2Block :: "OutBlock \<Rightarrow> 's channelManager \<Rightarrow> gerr option \<times> 's channelManager" where
  "AddL2Block block s =
     (if cm_tip s \<noteq> 0 \<and> cm_tip s \<noteq> lb_ParentHash block then (Some ErrReorg, s)
      else
        (let s = (if cm_tip s = 0 \<and> IsFourier (cm_rollupCfg s) (lb_Time block)
                  then s\<lparr>cm_isFourier := True, cm_isVolta := True\<rparr> else s);
             s = (if cm_tip s = 0 \<and> IsVolta (cm_rollupCfg s) (lb_Time block) then s\<lparr>cm_isVolta := True\<rparr> else s)
         in (None, s\<lparr>cm_blocks := cm_blocks s @ [block], cm_tip := lb_Hash block\<rparr>)))"

text \<open>Close walks over the queue as it was, over an array that removePendingChannel shifts at the same time:
  the elements behind the shorter queue keep their old values.\<close>

fun close_loop :: "nat \<Rightarrow> nat \<Rightarrow> nat list \<Rightarrow> 's channelManager \<Rightarrow> 's channelManager" where
  "close_loop 0 i arr s = s"
| "close_loop (Suc n) i arr s =
     (if NoneSubmitted (the_channel (arr ! i) s) then
        (let s = removePendingChannel (arr ! i) s;
             arr = cm_channelQueue s @ drop (length (cm_channelQueue s)) arr
         in close_loop n (i + 1) arr s)
      else close_loop n (i + 1) arr s)"

definition Manager_Close :: "'s ChannelOutOps \<Rightarrow> 's channelManager \<Rightarrow> (gerr option \<times> 's channelManager) go" where
  "Manager_Close ops s =
     (if cm_closed s then Some (None, s)
      else
        (let s = s\<lparr>cm_closed := True\<rparr>;
             s = close_loop (length (cm_channelQueue s)) 0 (cm_channelQueue s) s in
         case cm_currentChannel s of
           None \<Rightarrow> Some (None, s)
         | Some p \<Rightarrow> do {
             (err, s) \<leftarrow> (if \<not> IsFull (chn_builder (the_channel p s))
                          then Manager_outputFrames ops p (on_builder Builder_Close p s) else Some (None, s));
             Some (case err of
                 Some err \<Rightarrow> (Some (Wrap ''outputting frames during close'' err), s)
               | None \<Rightarrow> (if HasTxData (the_channel p s) then Some ErrPendingAfterClose else None, s))
           }))"

section \<open>Transaction ids as keys\<close>

definition is_digit :: "char \<Rightarrow> bool" where "is_digit c \<longleftrightarrow> 48 \<le> (of_char c :: nat) \<and> (of_char c :: nat) \<le> 57"

lemma hex_digit_char: "n < 16 \<Longrightarrow> (of_char (hex_digit n) :: nat) = (if n < 10 then 48 + n else 87 + n)"
  by simp

lemma hex_digit_inj: "m < 16 \<Longrightarrow> n < 16 \<Longrightarrow> hex_digit m = hex_digit n \<Longrightarrow> m = n"
  by (drule arg_cong [of _ _ "of_char :: char \<Rightarrow> nat"]) (auto simp del: hex_digit.simps simp: hex_digit_char split: if_splits)

lemma hex_of_inj: "hex_of bs = hex_of cs \<Longrightarrow> bs = cs"
proof (induction bs arbitrary: cs)
  case Nil
  then show ?case by (cases cs) (simp_all add: hex_of_def)
next
  case (Cons b bs)
  then obtain c cs' where cs: "cs = c # cs'" by (cases cs) (simp_all add: hex_of_def)
  have bound: "unat x < 256" for x :: byte
  proof -
    have "unat x < 2 ^ LENGTH(8)" by (rule unsigned_less)
    then show ?thesis by simp
  qed
  have "hex_digit (unat b div 16) = hex_digit (unat c div 16)" "hex_digit (unat b mod 16) = hex_digit (unat c mod 16)"
    "hex_of bs = hex_of cs'"
    using Cons.prems unfolding cs by (simp_all add: hex_of_def del: hex_digit.simps)
  moreover have "unat b div 16 < 16" "unat c div 16 < 16" using bound [of b] bound [of c] by simp_all
  ultimately have "unat b div 16 = unat c div 16" by (blast intro: hex_digit_inj)
  moreover have "unat b mod 16 = unat c mod 16"
    by (rule hex_digit_inj [OF _ _ \<open>hex_digit (unat b mod 16) = hex_digit (unat c mod 16)\<close>]) simp_all
  moreover have "bs = cs'" by (rule Cons.IH) fact
  ultimately have "unat b = unat c" by (metis div_mult_mod_eq)
  then have "b = c" by (rule word_unat_eq_iff [THEN iffD2])
  then show ?case using Cons.IH [OF \<open>hex_of bs = hex_of cs'\<close>] cs by simp
qed

lemma ChannelID_String_inj: "ChannelID_String a = ChannelID_String b \<longleftrightarrow> a = b"
proof
  assume "ChannelID_String a = ChannelID_String b"
  then have "be_put 16 a = be_put 16 b" by (simp add: ChannelID_String_def hex_of_inj)
  then have "(be_get (be_put 16 a) :: ChannelID) = be_get (be_put 16 b)" by simp
  then show "a = b" by (simp add: be_get_put)
qed simp

lemma length_ChannelID_String: "length (ChannelID_String a) = 32"
proof -
  have "length (hex_of bs) = 2 * length bs" for bs by (induction bs) (simp_all add: hex_of_def)
  then show ?thesis by (simp add: ChannelID_String_def)
qed

lemma hex_digit_decimal: "n < 10 \<Longrightarrow> is_digit (hex_digit n) \<and> (of_char (hex_digit n) :: nat) = 48 + n"
  by (simp add: is_digit_def)

lemma decimal_digits: "\<forall>c \<in> set (decimal n). is_digit c"
proof (induction n rule: decimal.induct)
  case (1 n)
  then show ?case
    by (subst decimal.simps) (auto simp del: hex_digit.simps simp: hex_digit_decimal)
qed

lemma decimal_value: "foldl (\<lambda>a c. 10 * a + (of_char c - 48)) 0 (decimal n) = n"
proof (induction n rule: decimal.induct)
  case (1 n)
  show ?case
  proof (cases "n < 10")
    case True
    then show ?thesis by (subst decimal.simps) (simp del: hex_digit.simps add: hex_digit_decimal)
  next
    case False
    then show ?thesis using 1 hex_digit_decimal [of "n mod 10"]
      by (subst decimal.simps) (simp del: hex_digit.simps)
  qed
qed

lemma decimal_inj: "decimal m = decimal n \<longleftrightarrow> m = n" using decimal_value by metis

lemma decimal_split:
  assumes "decimal m @ u = decimal n @ v" "u = [] \<or> \<not> is_digit (hd u)" "v = [] \<or> \<not> is_digit (hd v)"
  shows "m = n \<and> u = v"
proof -
  have "takeWhile is_digit (decimal k @ w) = decimal k" if "w = [] \<or> \<not> is_digit (hd w)" for k w
    using that decimal_digits [of k] by (cases w) (simp_all add: takeWhile_append2 takeWhile_tail)
  then have "decimal m = decimal n" using assms by metis
  then show ?thesis using assms(1) by (simp add: decimal_inj)
qed

lemma txID_string_head:
  assumes "c \<noteq> 0"
  shows "txID_string S c fs = [] \<or> \<not> is_digit (hd (txID_string S c fs))"
proof (cases fs)
  case (Cons f rest)
  then show ?thesis by (cases "fst f = c") (use \<open>c \<noteq> 0\<close> in \<open>cases f; simp add: is_digit_def\<close>)+
qed simp

lemma txID_string_inj:
  assumes "\<forall>f \<in> set a. fst f \<noteq> 0" "\<forall>f \<in> set b. fst f \<noteq> 0"
    and "txID_string ChannelID_String c a = txID_string ChannelID_String c b"
  shows "a = b"
  using assms
proof (induction a arbitrary: b c)
  case Nil
  then show ?case by (cases b) (auto split: if_splits)
next
  case (Cons f a)
  obtain x m where f: "f = (x, m)" by force
  obtain y n b' where b: "b = (y, n) # b'" using Cons.prems by (cases b) (auto simp: f split: if_splits)
  have nz: "x \<noteq> 0" "y \<noteq> 0" using Cons.prems f b by simp_all
  let ?S = "txID_string ChannelID_String"
  note eq = Cons.prems(3) [unfolded f b txID_string.simps]
  have "x = y \<and> decimal (unat m) @ ?S x a = decimal (unat n) @ ?S y b'"
  proof (cases "x = c \<or> y = c")
    case True
    have "ChannelID_String z \<noteq> []" for z using length_ChannelID_String [of z] by auto
    then have "x = c \<and> y = c"
      using eq True nz by (auto split: if_splits)
    then show ?thesis using eq by simp
  next
    case False
    then have "ChannelID_String x @ '':'' @ decimal (unat m) @ ?S x a = ChannelID_String y @ '':'' @ decimal (unat n) @ ?S y b'"
      using eq by (auto split: if_splits)
    then have "ChannelID_String x = ChannelID_String y"
      "decimal (unat m) @ ?S x a = decimal (unat n) @ ?S y b'"
      by (simp_all add: length_ChannelID_String)
    then show ?thesis by (simp add: ChannelID_String_inj)
  qed
  then have r: "x = y" "unat m = unat n" "?S x a = ?S x b'"
    using decimal_split txID_string_head nz by metis+
  then have "m = n" using word_unat_eq_iff by blast
  moreover have "a = b'" by (rule Cons.IH) (use Cons.prems b r(3) in auto)
  ultimately show ?case using f b r(1) by simp
qed

text \<open>The string of a transaction id, under which the channel and the manager keep their transactions, tells
  all ids apart: two lists of frames, of channels whose id is not zero, have the same string only when they
  are the same list.\<close>

theorem txID_String_inj:
  assumes "\<forall>f \<in> set a. fst f \<noteq> 0" "\<forall>f \<in> set b. fst f \<noteq> 0"
  shows "txID_String a = txID_String b \<longleftrightarrow> a = b"
  using txID_string_inj [OF assms] by (auto simp: txID_String_def)

theorem txID_String_inj_witness:
  "txID_String [(7, 1), (7, 12), (8, 3)] \<noteq> txID_String [(7, 11), (7, 2), (8, 3)]"
  using txID_String_inj [of "[(7, 1), (7, 12), (8, 3)]" "[(7, 11), (7, 2), (8, 3)]"] by simp

text \<open>With the id zero it does not: the separator before the next channel is left out.\<close>

lemma txID_String_zero:
  "txID_String [(0, 1), (5, 2)] = ''+1'' @ ChannelID_String 5 @ '':2''"
proof -
  have "decimal 1 = ''1''" "decimal 2 = ''2''" by code_simp+
  then show ?thesis by (simp add: txID_String_def)
qed

section \<open>The timeout of a channel\<close>

lemma min_fold: "fold (\<lambda>(_, b) m. if bid_Number b < m then bid_Number b else m) xs m0 \<le> m0 \<and>
  (\<forall>(i, b) \<in> set xs. fold (\<lambda>(_, b) m. if bid_Number b < m then bid_Number b else m) xs m0 \<le> bid_Number b)"
proof (induction xs arbitrary: m0)
  case (Cons x xs)
  obtain i b where x: "x = (i, b)" by force
  let ?m = "if bid_Number b < m0 then bid_Number b else m0"
  have "?m \<le> m0" "?m \<le> bid_Number b" by auto
  with Cons.IH [of ?m] show ?case unfolding x by (auto intro: order_trans)
qed simp

lemma max_fold: "fold (\<lambda>(_, b) m. if bid_Number b > m then bid_Number b else m) xs m0 \<ge> m0 \<and>
  (\<forall>(i, b) \<in> set xs. fold (\<lambda>(_, b) m. if bid_Number b > m then bid_Number b else m) xs m0 \<ge> bid_Number b)"
proof (induction xs arbitrary: m0)
  case (Cons x xs)
  obtain i b where x: "x = (i, b)" by force
  let ?m = "if bid_Number b > m0 then bid_Number b else m0"
  have "m0 \<le> ?m" "bid_Number b \<le> ?m" by auto
  with Cons.IH [of ?m] show ?case unfolding x by (auto intro: order_trans)
qed simp

lemma isTimedOut_False:
  assumes "isTimedOut s = (False, s')" "chn_confirmedTxUpdated s" "(i, b) \<in> set (chn_confirmed s)" "(j, c) \<in> set (chn_confirmed s)"
  shows "unat (bid_Number c) < unat (bid_Number b) + unat (cc_ChannelTimeout (chn_cfg s))"
proof -
  let ?min = "fold (\<lambda>(_, b) m. if bid_Number b < m then bid_Number b else m) (chn_confirmed s) (- 1)"
  let ?max = "fold (\<lambda>(_, b) m. if bid_Number b > m then bid_Number b else m) (chn_confirmed s) 0"
  have "chn_confirmed s \<noteq> []" using assms(3) by auto
  then have "?max - ?min < cc_ChannelTimeout (chn_cfg s)"
    using assms(1,2) by (auto simp: isTimedOut_def updateInclusionBlocks_def Let_def)
  moreover have "?min \<le> bid_Number b" "bid_Number c \<le> ?max"
    using min_fold [where xs = "chn_confirmed s" and ?m0.0 = "- 1"] max_fold [where xs = "chn_confirmed s" and ?m0.0 = 0] assms(3,4) by auto
  moreover have "?min \<le> ?max"
    using min_fold [where xs = "chn_confirmed s" and ?m0.0 = "- 1"] max_fold [where xs = "chn_confirmed s" and ?m0.0 = 0] assms(3) by (auto intro: order_trans)
  ultimately show ?thesis by (simp add: word_less_nat_alt word_le_nat_alt unat_sub)
qed

text \<open>C26: The batcher does not take a channel for submitted that the derivation drops as timed out. When it
  confirms a transaction and does not give the blocks back to be sent again, no two confirmed
  transactions lie so far apart that the channel, opened in the block of one, has timed out at the block
  of the other, provided the timeout of the batcher is not above that of the rollup.\<close>

theorem confirmed_not_timed_out:
  assumes "channel_TxConfirmed i block s = ((finished, []), s')" "map_of (chn_pending s) i \<noteq> None"
    and "bld_blocks (chn_builder s) \<noteq> []"
    and "(j, first_in) \<in> set (chn_confirmed s')" "(k, last_in) \<in> set (chn_confirmed s')"
    and "OpenBlockNumber ch = bid_Number first_in" "l1_Number origin = bid_Number last_in"
    and "cc_ChannelTimeout (chn_cfg s) \<le> cfg_ChannelTimeout cfg"
    and "unat (bid_Number first_in) + unat (cfg_ChannelTimeout cfg) < 2 ^ 64"
  shows "\<not> timedOut cfg origin ch"
proof -
  let ?s = "s\<lparr>chn_pending := AList.delete i (chn_pending s), chn_confirmed := AList.update i block (chn_confirmed s),
     chn_confirmedTxUpdated := True, chn_builder := FramePublished (bid_Number block) (chn_builder s)\<rparr>"
  obtain t s1 where t: "isTimedOut ?s = (t, s1)" by force
  have s1: "s1 = updateInclusionBlocks ?s" using t by (simp add: isTimedOut_def Let_def)
  have keep: "chn_confirmed (updateInclusionBlocks x) = chn_confirmed x" "chn_builder (updateInclusionBlocks x) = chn_builder x" for x :: "'a channel"
    by (simp_all add: updateInclusionBlocks_def)
  have blocks: "bld_blocks (FramePublished n b) = bld_blocks b" for n and b :: "'a ChannelBuilder"
    by (simp add: FramePublished_def updateTimeout_def)
  have r: "((finished, []), s') = (if t then ((True, bld_blocks (chn_builder s1)), s1)
      else (case isFullySubmitted s1 of (submitted, s) \<Rightarrow> ((submitted, []), s)))"
    using assms(1,2) t by (auto simp: channel_TxConfirmed_def Let_def)
  have "\<not> t" using r assms(3) by (auto simp: s1 keep blocks)
  then have c: "chn_confirmed s' = chn_confirmed ?s" using r by (simp add: isFullySubmitted_def Let_def s1 keep)
  have "unat (bid_Number last_in) < unat (bid_Number first_in) + unat (cc_ChannelTimeout (chn_cfg s))"
    using isTimedOut_False [of ?s s1 j first_in k last_in] t \<open>\<not> t\<close> assms(4,5) c by simp
  then have "unat (l1_Number origin) < unat (bid_Number first_in + cfg_ChannelTimeout cfg)"
    using assms(7-9) by (simp add: unat_add_small word_le_nat_alt)
  then show ?thesis using assms(6) by (simp add: timedOut_def word_less_nat_alt)
qed


section \<open>The blocks of the batcher\<close>

text \<open>A pointer in the queue is of a channel that was made, no channel is queued twice, the current channel
  is the last in the queue, and the transactions in flight are of channels that were made.\<close>

definition manager_inv :: "'s channelManager \<Rightarrow> bool" where
  "manager_inv s \<longleftrightarrow> distinct (cm_channelQueue s) \<and> (\<forall>p \<in> set (cm_channelQueue s). p < length (cm_store s)) \<and>
     (\<forall>p \<in> snd ` set (cm_txChannels s). p < length (cm_store s)) \<and>
     (\<forall>p. cm_currentChannel s = Some p \<longrightarrow> cm_channelQueue s \<noteq> [] \<and> last (cm_channelQueue s) = p)"

lemma index_of_None: "index_of p q = None \<longleftrightarrow> p \<notin> set q"
  by (induction q) auto

lemma index_of_remove1: "index_of p q = Some i \<Longrightarrow> take i q @ drop (i + 1) q = remove1 p q"
  by (induction q arbitrary: i) (auto split: if_splits)

lemma removePendingChannel_fields:
  "cm_channelQueue (removePendingChannel p s) = remove1 p (cm_channelQueue s)"
  "cm_currentChannel (removePendingChannel p s) = (if cm_currentChannel s = Some p then None else cm_currentChannel s)"
  "cm_store (removePendingChannel p s) = cm_store s" "cm_txChannels (removePendingChannel p s) = cm_txChannels s"
  "cm_blocks (removePendingChannel p s) = cm_blocks s" "cm_closed (removePendingChannel p s) = cm_closed s"
  by (auto simp: removePendingChannel_def Let_def index_of_None index_of_remove1 [unfolded Suc_eq_plus1 [symmetric]]
      remove1_idem split: option.split)

lemma last_remove1: "last q = r \<Longrightarrow> q \<noteq> [] \<Longrightarrow> p \<noteq> r \<Longrightarrow> remove1 p q \<noteq> [] \<and> last (remove1 p q) = r"
  by (induction q) (auto split: if_splits)

lemma removePendingChannel_inv:
  assumes "manager_inv s"
  shows "manager_inv (removePendingChannel p s)"
proof -
  have "set (remove1 p (cm_channelQueue s)) \<subseteq> set (cm_channelQueue s)" by (rule set_remove1_subset)
  then show ?thesis
    using assms last_remove1 [of "cm_channelQueue s"]
    by (cases "cm_currentChannel s") (auto simp: manager_inv_def removePendingChannel_fields)
qed

lemma put_channel_fields [simp]:
  "cm_channelQueue (put_channel p ch s) = cm_channelQueue s" "cm_currentChannel (put_channel p ch s) = cm_currentChannel s"
  "length (cm_store (put_channel p ch s)) = length (cm_store s)" "cm_txChannels (put_channel p ch s) = cm_txChannels s"
  "cm_blocks (put_channel p ch s) = cm_blocks s" "cm_closed (put_channel p ch s) = cm_closed s"
  "cm_rollupCfg (put_channel p ch s) = cm_rollupCfg s" "cm_isVolta (put_channel p ch s) = cm_isVolta s"
  "cm_isFourier (put_channel p ch s) = cm_isFourier s"
  "p < length (cm_store s) \<Longrightarrow> the_channel p (put_channel p ch s) = ch"
  "q \<noteq> p \<Longrightarrow> the_channel q (put_channel p ch s) = the_channel q s"
  by (simp_all add: put_channel_def the_channel_def)

lemma on_builder_fields [simp]:
  "cm_channelQueue (on_builder f p s) = cm_channelQueue s" "cm_currentChannel (on_builder f p s) = cm_currentChannel s"
  "length (cm_store (on_builder f p s)) = length (cm_store s)" "cm_txChannels (on_builder f p s) = cm_txChannels s"
  "cm_blocks (on_builder f p s) = cm_blocks s" "cm_closed (on_builder f p s) = cm_closed s"
  "cm_rollupCfg (on_builder f p s) = cm_rollupCfg s" "cm_isVolta (on_builder f p s) = cm_isVolta s"
  "cm_isFourier (on_builder f p s) = cm_isFourier s"
  "p < length (cm_store s) \<Longrightarrow> chn_builder (the_channel p (on_builder f p s)) = f (chn_builder (the_channel p s))"
  "q \<noteq> p \<Longrightarrow> the_channel q (on_builder f p s) = the_channel q s"
  by (simp_all add: on_builder_def)

lemma manager_inv_put: "manager_inv (put_channel p ch s) \<longleftrightarrow> manager_inv s"
  by (simp add: manager_inv_def split: option.split)

text \<open>What a step inside one channel leaves alone.\<close>

definition same_but :: "nat \<Rightarrow> 's channelManager \<Rightarrow> 's channelManager \<Rightarrow> bool" where
  "same_but p s s' \<longleftrightarrow> cm_channelQueue s' = cm_channelQueue s \<and> cm_currentChannel s' = cm_currentChannel s \<and>
     length (cm_store s') = length (cm_store s) \<and> cm_txChannels s' = cm_txChannels s \<and> cm_closed s' = cm_closed s \<and>
     cm_rollupCfg s' = cm_rollupCfg s \<and> (\<forall>q. q \<noteq> p \<longrightarrow> the_channel q s' = the_channel q s)"

lemma same_but_on_builder: "same_but p s (on_builder f p s)" by (simp add: same_but_def)

lemma same_but_flags [simp]:
  "same_but p s (s'\<lparr>cm_isVolta := v\<rparr>) = same_but p s s'" "same_but p s (s'\<lparr>cm_isFourier := v\<rparr>) = same_but p s s'"
  "same_but p s (s'\<lparr>cm_blocks := bs\<rparr>) = same_but p s s'" "same_but p s (s'\<lparr>cm_l1OriginLastClosedChannel := o1\<rparr>) = same_but p s s'"
  by (simp_all add: same_but_def the_channel_def)

lemma the_channel_flags [simp]:
  "the_channel q (s\<lparr>cm_isVolta := v\<rparr>) = the_channel q s" "the_channel q (s\<lparr>cm_isFourier := v\<rparr>) = the_channel q s"
  "the_channel q (s\<lparr>cm_blocks := bs\<rparr>) = the_channel q s" "the_channel q (s\<lparr>cm_txChannels := tx\<rparr>) = the_channel q s"
  "the_channel q (s\<lparr>cm_l1OriginLastClosedChannel := o1\<rparr>) = the_channel q s" "the_channel q (s\<lparr>cm_closed := c\<rparr>) = the_channel q s"
  by (simp_all add: the_channel_def)

lemma same_but_trans: "same_but p s t \<Longrightarrow> same_but p t u \<Longrightarrow> same_but p s u"
  by (simp add: same_but_def)

lemma same_but_inv: "same_but p s s' \<Longrightarrow> manager_inv s' \<longleftrightarrow> manager_inv s"
  by (simp add: same_but_def manager_inv_def split: option.split)

abbreviation blocks_of :: "nat \<Rightarrow> 's channelManager \<Rightarrow> OutBlock list" where
  "blocks_of p s \<equiv> bld_blocks (chn_builder (the_channel p s))"

definition all_blocks :: "'s channelManager \<Rightarrow> OutBlock list" where
  "all_blocks s = concat (map (\<lambda>p. blocks_of p s) (cm_channelQueue s)) @ cm_blocks s"

subsection \<open>The builder keeps its blocks\<close>

lemma builder_blocks [simp]:
  "bld_blocks (setFullErr err c) = bld_blocks c" "bld_blocks (updateTimeout n r c) = bld_blocks c"
  "bld_blocks (CheckTimeout n c) = bld_blocks c" "bld_blocks (Builder_Close c) = bld_blocks c"
  "bld_blocks (FramePublished n c) = bld_blocks c" "bld_blocks (updateSwTimeout b c) = bld_blocks c"
  by (simp_all add: setFullErr_def updateTimeout_def CheckTimeout_def Builder_Close_def FramePublished_def updateSwTimeout_def)

lemma Builder_AddBlock_blocks:
  assumes "Builder_AddBlock ops keccak256 block c = Some (r, c')"
  shows "bld_blocks c' = (case r of Inr l1info \<Rightarrow> bld_blocks c @ [block] | Inl err \<Rightarrow> bld_blocks c)"
  using assms by (auto simp: Builder_AddBlock_def Let_def split: option.splits sum.splits prod.splits if_splits bind_splits)

lemma outputFrame_blocks: "outputFrame ops c = (err, c') \<Longrightarrow> bld_blocks c' = bld_blocks c"
  by (auto simp: outputFrame_def Let_def split: prod.splits if_splits)

lemma outputAllFrames_blocks: "outputAllFrames ops c = Some (err, c') \<Longrightarrow> bld_blocks c' = bld_blocks c"
proof -
  assume r: "outputAllFrames ops c = Some (err, c')"
  have "bld_blocks (snd (err, c')) = bld_blocks c"
  proof (rule outputAllFrames.raw_induct [OF _ r, where P = "\<lambda>ops c r. bld_blocks (snd r) = bld_blocks c"])
    fix f and ops :: "'a ChannelOutOps" and c :: "'a ChannelBuilder" and r
    assume IH: "\<And>ops c r. f ops c = Some r \<Longrightarrow> bld_blocks (snd r) = bld_blocks c"
      and body: "(case outputFrame ops c of (None, c) \<Rightarrow> f ops c
        | (Some err, c) \<Rightarrow> if err = EOF then Some (None, c) else Some (Some err, c)) = Some r"
    obtain e c1 where e: "outputFrame ops c = (e, c1)" by force
    show "bld_blocks (snd r) = bld_blocks c"
      using body IH outputFrame_blocks [OF e] unfolding e by (auto split: option.splits if_splits)
  qed
  then show ?thesis by simp
qed

lemma outputReadyFrames_blocks: "outputReadyFrames ops c = Some (err, c') \<Longrightarrow> bld_blocks c' = bld_blocks c"
proof -
  assume r: "outputReadyFrames ops c = Some (err, c')"
  have "bld_blocks (snd (err, c')) = bld_blocks c"
  proof (rule outputReadyFrames.raw_induct [OF _ r, where P = "\<lambda>ops c r. bld_blocks (snd r) = bld_blocks c"])
    fix f and ops :: "'a ChannelOutOps" and c :: "'a ChannelBuilder" and r
    assume IH: "\<And>ops c r. f ops c = Some r \<Longrightarrow> bld_blocks (snd r) = bld_blocks c"
      and body: "(if sint (cc_MaxFrameSize (bld_cfg c)) \<le> int (ops_ReadyBytes ops (bld_co c) + FrameV0OverHeadSize) then
        (case outputFrame ops c of (None, c) \<Rightarrow> f ops c
        | (Some err, c) \<Rightarrow> if err = EOF then Some (None, c) else Some (Some err, c)) else Some (None, c)) = Some r"
    obtain e c1 where e: "outputFrame ops c = (e, c1)" by force
    show "bld_blocks (snd r) = bld_blocks c"
      using body IH outputFrame_blocks [OF e] unfolding e by (auto split: option.splits if_splits)
  qed
  then show ?thesis by simp
qed

lemma OutputFrames_blocks: "OutputFrames ops c = Some (err, c') \<Longrightarrow> bld_blocks c' = bld_blocks c"
  by (auto simp: OutputFrames_def closeAndOutputAllFrames_def outputReadyFrames_blocks
      dest!: outputAllFrames_blocks split: if_splits bind_splits prod.splits option.splits)

lemma take_frames_blocks: "take_frames n c = Some (fs, c') \<Longrightarrow> bld_blocks c' = bld_blocks c"
  by (induction n arbitrary: c fs c')
     (auto simp: Builder_NextFrame_def split: if_splits bind_splits list.splits)

subsection \<open>The manager keeps the blocks\<close>

lemma all_blocks_same:
  assumes "same_but p s s'" "blocks_of p s' = blocks_of p s" "cm_blocks s' = cm_blocks s"
  shows "all_blocks s' = all_blocks s"
proof -
  have "blocks_of q s' = blocks_of q s" for q using assms by (cases "q = p") (simp_all add: same_but_def)
  then show ?thesis using assms(1,3) by (simp add: all_blocks_def same_but_def)
qed

lemma all_blocks_added:
  assumes "same_but p s s'" "manager_inv s" "cm_currentChannel s = Some p"
    and "blocks_of p s' = blocks_of p s @ bs"
  shows "concat (map (\<lambda>p. blocks_of p s') (cm_channelQueue s')) = concat (map (\<lambda>p. blocks_of p s) (cm_channelQueue s)) @ bs"
proof -
  obtain q where q: "cm_channelQueue s = q @ [p]" "p \<notin> set q"
    using assms(2,3) by (cases "cm_channelQueue s" rule: rev_cases) (auto simp: manager_inv_def)
  have "map (\<lambda>p. blocks_of p s') q = map (\<lambda>p. blocks_of p s) q"
    using q(2) assms(1) by (auto simp: same_but_def)
  then have "concat (map (\<lambda>p. blocks_of p s') q) = concat (map (\<lambda>p. blocks_of p s) q)" by (rule arg_cong)
  then show ?thesis using assms(1,4) q(1) by (simp add: same_but_def)
qed

lemma process_blocks_loop_blocks:
  assumes "process_blocks_loop ops keccak256 p blocks n s = Some (r, s')" "p < length (cm_store s)"
  shows "same_but p s s' \<and> cm_blocks s' = cm_blocks s \<and>
    (\<exists>k. k \<le> length blocks \<and> blocks_of p s' = blocks_of p s @ take k blocks \<and> (\<forall>m. r = Inr m \<longrightarrow> m = n + k))"
  using assms
proof (induction blocks arbitrary: n s)
  case Nil
  then show ?case by (auto simp: same_but_def)
next
  case (Cons block blocks)
  let ?cb = "chn_builder (the_channel p s)" let ?used = "ops_InputBytes ops (bld_co ?cb) \<noteq> 0"
  note p = Cons.prems(2)
  have none: ?case if "same_but p s s'" "cm_blocks s' = cm_blocks s" "blocks_of p s' = blocks_of p s" "\<forall>m. r = Inr m \<longrightarrow> m = n"
    using that by (intro conjI exI [of _ 0]) simp_all
  let ?fourier = "\<not> cm_isFourier s \<and> IsFourier (cm_rollupCfg s) (lb_Time block) \<and> ?used"
  let ?volta = "\<not> cm_isVolta s \<and> IsVolta (cm_rollupCfg s) (lb_Time block) \<and> ?used"
  note run = Cons.prems(1) [unfolded process_blocks_loop.simps Let_def]
  show ?case
  proof (cases ?fourier)
    case True
    have "s' = (on_builder Builder_Close p s)\<lparr>cm_isFourier := True, cm_isVolta := True\<rparr>" "r = Inr n"
      using run [unfolded if_P [OF True]] by simp_all
    then show ?thesis using p by (intro none) (simp_all add: same_but_on_builder)
  next
    case False
    note run = run [unfolded if_not_P [OF False]]
    show ?thesis
    proof (cases ?volta)
      case True
      have "s' = (on_builder Builder_Close p s)\<lparr>cm_isVolta := True\<rparr>" "r = Inr n"
        using run [unfolded if_P [OF True]] by simp_all
      then show ?thesis using p by (intro none) (simp_all add: same_but_on_builder)
    next
      case False
      note run = run [unfolded if_not_P [OF False]]
      obtain r1 cb where add: "Builder_AddBlock ops keccak256 block ?cb = Some (r1, cb)"
        using run by (auto split: bind_splits)
      let ?s = "on_builder (\<lambda>_. cb) p s"
      note rest = run [unfolded add bind.bind_lunit prod.case]
      note blocks = Builder_AddBlock_blocks [OF add]
      show ?thesis
      proof (cases r1)
        case (Inl err)
        then have "s' = ?s" "\<forall>m. r = Inr m \<longrightarrow> m = n" using rest by (auto split: if_splits)
        then show ?thesis using p blocks Inl by (intro none) (simp_all add: same_but_on_builder)
      next
        case (Inr l1info)
        then have b: "blocks_of p ?s = blocks_of p s @ [block]" using blocks p by simp
        show ?thesis
        proof (cases "IsFull cb")
          case True
          then have "s' = ?s" "r = Inr (n + 1)" using rest Inr by simp_all
          then show ?thesis using b by (intro conjI exI [of _ 1]) (simp_all add: same_but_on_builder)
        next
          case False
          then have "process_blocks_loop ops keccak256 p blocks (n + 1) ?s = Some (r, s')" using rest Inr by simp
          from Cons.IH [OF this] p obtain k where k: "same_but p ?s s'" "cm_blocks s' = cm_blocks ?s" "k \<le> length blocks"
            "blocks_of p s' = blocks_of p ?s @ take k blocks" "\<forall>m. r = Inr m \<longrightarrow> m = n + 1 + k"
            by auto
          show ?thesis using k(2-5) b same_but_trans [OF same_but_on_builder k(1)]
            by (intro conjI exI [of _ "Suc k"]) simp_all
        qed
      qed
    qed
  qed
qed

lemma processBlocks_blocks:
  assumes "processBlocks ops keccak256 p s = Some (err, s')" "p < length (cm_store s)"
  shows "same_but p s s' \<and> (\<exists>k. blocks_of p s' = blocks_of p s @ take k (cm_blocks s) \<and>
    cm_blocks s' = (if err = None then drop k (cm_blocks s) else cm_blocks s))"
proof -
  obtain r s1 where l: "process_blocks_loop ops keccak256 p (cm_blocks s) 0 s = Some (r, s1)"
    using assms(1) by (auto simp: processBlocks_def split: bind_splits)
  note b = process_blocks_loop_blocks [OF l assms(2)]
  show ?thesis
  proof (cases r)
    case (Inl e)
    then show ?thesis using assms(1) l b by (auto simp: processBlocks_def)
  next
    case (Inr n)
    then have "err = None" "s' = s1\<lparr>cm_blocks := drop n (cm_blocks s1)\<rparr>"
      using assms(1) l by (auto simp: processBlocks_def)
    then show ?thesis using b Inr by (auto simp: the_channel_flags intro!: exI [of _ n])
  qed
qed


lemma set_alist_update: "set (AList.update k v al) \<subseteq> insert (k, v) (set al)"
  by (induction al) auto

lemma set_alist_delete: "set (AList.delete k al) \<subseteq> set al"
  by (auto simp: AList.delete_eq)

lemma all_blocks_txChannels [simp]: "all_blocks (s\<lparr>cm_txChannels := tx\<rparr>) = all_blocks s"
  by (simp add: all_blocks_def)

lemma put_channel_none: "\<not> p < length (cm_store s) \<Longrightarrow> put_channel p ch s = s"
  by (simp add: put_channel_def list_update_beyond)

lemma all_blocks_put:
  assumes "bld_blocks (chn_builder ch) = blocks_of p s"
  shows "all_blocks (put_channel p ch s) = all_blocks s"
proof (cases "p < length (cm_store s)")
  case True
  show ?thesis by (rule all_blocks_same [of p]) (use True assms in \<open>simp_all add: same_but_def\<close>)
qed (simp add: put_channel_none)

lemma NextTxData_blocks: "NextTxData ch = Some (tx, ch') \<Longrightarrow> bld_blocks (chn_builder ch') = bld_blocks (chn_builder ch)"
  by (auto simp: NextTxData_def Let_def take_frames_blocks split: if_splits bind_splits)

lemma nextTxData_step:
  assumes "nextTxData q s = Some (r, s')"
  shows "all_blocks s' = all_blocks s" "cm_channelQueue s' = cm_channelQueue s" "cm_currentChannel s' = cm_currentChannel s"
    "length (cm_store s') = length (cm_store s)"
    "snd ` set (cm_txChannels s') \<subseteq> snd ` set (cm_txChannels s) \<union> set_option q" "r \<noteq> Inl (Wrap m e)"
proof -
  have "s' = s \<and> r = Inl EOF \<or> (\<exists>p tx ch. q = Some p \<and> r = Inr tx \<and> NextTxData (the_channel p s) = Some (tx, ch) \<and>
      s' = (put_channel p ch s)\<lparr>cm_txChannels := AList.update (txID_String (txData_ID tx)) p (cm_txChannels s)\<rparr>)"
    using assms by (auto simp: nextTxData_def split: option.splits if_splits bind_splits)
  then show "all_blocks s' = all_blocks s" "cm_channelQueue s' = cm_channelQueue s" "cm_currentChannel s' = cm_currentChannel s"
    "length (cm_store s') = length (cm_store s)"
    "snd ` set (cm_txChannels s') \<subseteq> snd ` set (cm_txChannels s) \<union> set_option q" "r \<noteq> Inl (Wrap m e)"
    by (auto simp: NextTxData_blocks all_blocks_put dest!: set_alist_update [THEN subsetD])
qed

lemma NewChannelBuilder_blocks:
  assumes "NewChannelBuilder lib random cfg rollupCfg n = Some (Inr cb)"
  shows "bld_blocks cb = []"
proof -
  obtain c where c: "NewCompressor (ol_compress lib) (cc_CompressorConfig cfg) = Some (Inr c)"
    using assms by (auto simp: NewChannelBuilder_def split: bind_split_asm sum.split_asm)
  let ?co = "if cc_BatchType cfg = 1 then do {
      chainID \<leftarrow> cfg_L2ChainID rollupCfg;
      map_option (map_sum (\<lambda>e. e) SpanOut) (NewSpanChannelOut lib random (gen_L2Time (cfg_Genesis rollupCfg)) chainID
        (cfg_TargetOutputSize (cc_CompressorConfig cfg)) (cfg_CompressionAlgo (cc_CompressorConfig cfg)))
    }
    else Some (map_sum (\<lambda>e. e) SingularOut (NewSingularChannelOut random c))"
  obtain co where "?co = Some (Inr co)"
    using assms c by (cases ?co) (auto simp: NewChannelBuilder_def split: sum.split_asm)
  then show ?thesis using assms c by (auto simp: NewChannelBuilder_def updateDurationTimeout_def)
qed

lemma newChannel_blocks: "newChannel lib random cfg rollupCfg n = Some (Inr pc) \<Longrightarrow> bld_blocks (chn_builder pc) = []"
  by (cases "NewChannelBuilder lib random cfg rollupCfg n") (auto simp: newChannel_def NewChannelBuilder_blocks split: sum.split_asm)

lemma ensureChannelWithSpace_step:
  assumes "ensureChannelWithSpace lib random s = Some (err, s')" "manager_inv s"
  shows "manager_inv s' \<and> all_blocks s' = all_blocks s \<and> cm_blocks s' = cm_blocks s \<and> (err = None \<longrightarrow> (\<exists>p. cm_currentChannel s' = Some p)) \<and>
    err \<noteq> Some (Wrap ''adding block to channel builder'' e)"
proof -
  consider (same) "s' = s" "err = None" "\<exists>p. cm_currentChannel s = Some p"
    | (failed) e1 where "s' = s" "err = Some (Wrap ''creating new channel'' e1)"
    | (made) pc where "err = None" "bld_blocks (chn_builder pc) = []"
        "s' = s\<lparr>cm_store := cm_store s @ [pc], cm_currentChannel := Some (length (cm_store s)),
          cm_channelQueue := cm_channelQueue s @ [length (cm_store s)]\<rparr>"
  proof (cases "case cm_currentChannel s of None \<Rightarrow> False | Some p \<Rightarrow> \<not> IsFull (chn_builder (the_channel p s))")
    case True
    then show ?thesis using assms(1) same by (auto simp: ensureChannelWithSpace_def split: option.splits)
  next
    case False
    note run = assms(1) [unfolded ensureChannelWithSpace_def if_not_P [OF False]]
    obtain r where r: "newChannel lib random (cm_cfg s) (cm_rollupCfg s) (bid_Number (cm_l1OriginLastClosedChannel s)) = Some r"
      using run by (auto split: bind_splits)
    show ?thesis
    proof (cases r)
      case (Inl e1)
      then show ?thesis using run r failed by auto
    next
      case (Inr pc)
      show ?thesis by (rule made [of pc]) (use run r Inr newChannel_blocks in \<open>auto simp: Let_def\<close>)
    qed
  qed
  then show ?thesis
  proof cases
    case made
    have old: "the_channel p s' = the_channel p s" if "p \<in> set (cm_channelQueue s)" for p
      using assms(2) that made(3) by (simp add: manager_inv_def the_channel_def nth_append)
    then have "map (\<lambda>p. blocks_of p s') (cm_channelQueue s) = map (\<lambda>p. blocks_of p s) (cm_channelQueue s)" by simp
    then have "concat (map (\<lambda>p. blocks_of p s') (cm_channelQueue s)) = concat (map (\<lambda>p. blocks_of p s) (cm_channelQueue s))"
      by (rule arg_cong)
    moreover have "blocks_of (length (cm_store s)) s' = []" using made(2,3) by (simp add: the_channel_def)
    ultimately have "all_blocks s' = all_blocks s" using made(3) by (simp add: all_blocks_def)
    moreover have "manager_inv s'" using assms(2) unfolding made(3) manager_inv_def by (auto simp: less_Suc_eq)
    ultimately show ?thesis using made by simp
  qed (use assms(2) in simp_all)
qed

lemma Manager_outputFrames_step:
  assumes "Manager_outputFrames ops p s = Some (err, s')" "p < length (cm_store s)"
  shows "same_but p s s' \<and> blocks_of p s' = blocks_of p s \<and> cm_blocks s' = cm_blocks s \<and>
    err \<noteq> Some (Wrap ''adding block to channel builder'' e)"
  using assms
  by (auto simp: Manager_outputFrames_def Let_def same_but_on_builder OutputFrames_blocks split: bind_splits option.splits if_splits)

lemma process_blocks_loop_error:
  "process_blocks_loop ops keccak256 p blocks n s = Some (Inl err, s') \<Longrightarrow> \<exists>e. err = Wrap ''adding block to channel builder'' e"
proof (induction blocks arbitrary: n s)
  case (Cons block blocks)
  then show ?case
    unfolding process_blocks_loop.simps Let_def by (auto split: if_splits bind_splits sum.splits)
qed simp

lemma processBlocks_error:
  "processBlocks ops keccak256 p s = Some (Some err, s') \<Longrightarrow> \<exists>e. err = Wrap ''adding block to channel builder'' e"
  by (auto simp: processBlocks_def process_blocks_loop_error split: bind_splits sum.splits)

lemma manager_inv_current:
  "manager_inv s \<Longrightarrow> cm_currentChannel s = Some p \<Longrightarrow> p \<in> set (cm_channelQueue s) \<and> p < length (cm_store s)"
  using last_in_set by (fastforce simp: manager_inv_def)

lemma firstWithTxData_queue: "set_option (firstWithTxData s) \<subseteq> set (cm_channelQueue s)"
  by (auto simp: firstWithTxData_def find_Some_iff)

lemma nextTxData_inv:
  assumes "nextTxData q s = Some (r, s')" "manager_inv s" "set_option q \<subseteq> set (cm_channelQueue s)"
  shows "manager_inv s'"
proof -
  note n = nextTxData_step [OF assms(1)]
  have "\<forall>p \<in> snd ` set (cm_txChannels s'). p < length (cm_store s')"
  proof
    fix p
    assume "p \<in> snd ` set (cm_txChannels s')"
    then have "p \<in> snd ` set (cm_txChannels s) \<union> set (cm_channelQueue s)" using n(5) assms(3) by blast
    then show "p < length (cm_store s')" using n(4) assms(2) by (auto simp: manager_inv_def)
  qed
  then show ?thesis using assms(2) n(2-4) by (auto simp: manager_inv_def split: option.splits)
qed

text \<open>TxData keeps the invariant and all blocks, but for an error while blocks are added: then those that
  were added are in the channel and still in the queue.\<close>

lemma TxData_step:
  assumes "TxData lib keccak256 random l1Head s = Some (r, s')" "manager_inv s"
  shows "manager_inv s' \<and> (if \<exists>e. r = Inl (Wrap ''adding block to channel builder'' e)
    then \<exists>k. concat (map (\<lambda>p. blocks_of p s') (cm_channelQueue s')) @ drop k (cm_blocks s') = all_blocks s \<and>
           cm_blocks s' = cm_blocks s
    else all_blocks s' = all_blocks s)"
proof (cases "firstWithTxData s \<noteq> None \<or> cm_closed s")
  case True
  then have n: "nextTxData (firstWithTxData s) s = Some (r, s')" using assms(1) by (simp add: TxData_def)
  show ?thesis
    using nextTxData_step [OF n] nextTxData_inv [OF n assms(2) firstWithTxData_queue] by auto
next
  case open_: False
  show ?thesis
  proof (cases "cm_blocks s = []")
    case True
    then show ?thesis using open_ assms by (auto simp: TxData_def)
  next
    case False
    obtain e1 s1 where s1: "ensureChannelWithSpace lib random s = Some (e1, s1)"
      using assms(1) open_ False by (auto simp: TxData_def split: bind_splits)
    note step1 = ensureChannelWithSpace_step [OF s1 assms(2)]
    show ?thesis
    proof (cases e1)
      case (Some err)
      then show ?thesis using assms(1) open_ False s1 step1 by (auto simp: TxData_def)
    next
      case None
      then obtain p where p: "cm_currentChannel s1 = Some p" using step1 by auto
      then have len: "p < length (cm_store s1)" using step1 manager_inv_current [of s1 p] by simp
      obtain e2 s2 where s2: "processBlocks (channel_out_ops lib) keccak256 p s1 = Some (e2, s2)"
        using assms(1) open_ False s1 None p by (auto simp: TxData_def split: bind_splits)
      from processBlocks_blocks [OF s2 len] obtain k where k: "same_but p s1 s2"
        "blocks_of p s2 = blocks_of p s1 @ take k (cm_blocks s1)"
        "cm_blocks s2 = (if e2 = None then drop k (cm_blocks s1) else cm_blocks s1)" by auto
      have queued: "concat (map (\<lambda>p. blocks_of p s2) (cm_channelQueue s2)) =
          concat (map (\<lambda>p. blocks_of p s1) (cm_channelQueue s1)) @ take k (cm_blocks s1)"
        using all_blocks_added [OF k(1) _ p k(2)] step1 by blast
      have before: "all_blocks s1 = all_blocks s" "cm_blocks s1 = cm_blocks s" using step1 by simp_all
      have inv2: "manager_inv s2" using same_but_inv [OF k(1)] step1 by simp
      show ?thesis
      proof (cases e2)
        case (Some err)
        then have r: "r = Inl err" "s' = s2" using assms(1) open_ False s1 None p s2 by (simp_all add: TxData_def)
        obtain e where e: "err = Wrap ''adding block to channel builder'' e" using processBlocks_error s2 Some by blast
        have "concat (map (\<lambda>p. blocks_of p s') (cm_channelQueue s')) @ drop k (cm_blocks s') = all_blocks s"
          "cm_blocks s' = cm_blocks s"
          using queued k(3) Some before r(2) unfolding all_blocks_def by simp_all
        then show ?thesis using inv2 r e by auto
      next
        case e2: None
        let ?s3 = "registerL1Block l1Head p s2"
        have len2: "p < length (cm_store s2)" using k(1) len by (simp add: same_but_def)
        have s3: "same_but p s2 ?s3" "blocks_of p ?s3 = blocks_of p s2" "cm_blocks ?s3 = cm_blocks s2"
          using len2 by (simp_all add: registerL1Block_def same_but_on_builder)
        have all2: "all_blocks s2 = all_blocks s" using queued k(3) e2 before unfolding all_blocks_def by simp
        obtain e4 s4 where s4: "Manager_outputFrames (channel_out_ops lib) p ?s3 = Some (e4, s4)"
          using assms(1) open_ False s1 None p s2 e2 by (auto simp: TxData_def split: bind_splits)
        have len3: "p < length (cm_store ?s3)" using s3(1) len2 by (simp add: same_but_def)
        have step4: "same_but p ?s3 s4" "blocks_of p s4 = blocks_of p ?s3" "cm_blocks s4 = cm_blocks ?s3"
          "\<And>e. e4 \<noteq> Some (Wrap ''adding block to channel builder'' e)"
          using Manager_outputFrames_step [OF s4 len3] by blast+
        have inv4: "manager_inv s4" using inv2 same_but_inv s3(1) step4(1) by blast
        have all4: "all_blocks s4 = all_blocks s"
          using all_blocks_same [OF s3] all_blocks_same [OF step4(1-3)] all2 by simp
        show ?thesis
        proof (cases e4)
          case (Some err)
          then have "r = Inl err" "s' = s4" using assms(1) open_ False s1 None p s2 e2 s4 by (simp_all add: TxData_def)
          then show ?thesis using inv4 all4 Some step4(4) by auto
        next
          case None
          then have n: "nextTxData (cm_currentChannel s4) s4 = Some (r, s')"
            using assms(1) open_ False s1 \<open>e1 = None\<close> p s2 e2 s4 by (simp add: TxData_def)
          have q: "set_option (cm_currentChannel s4) \<subseteq> set (cm_channelQueue s4)"
            using inv4 manager_inv_current by fastforce
          show ?thesis using nextTxData_step [OF n] nextTxData_inv [OF n inv4 q] all4 by auto
        qed
      qed
    qed
  qed
qed

section \<open>The batcher as a state machine\<close>

text \<open>What may happen to a manager: the driver hands it a block, asks it for a transaction, reports one as failed
  or confirmed, switches the kind of data, closes it or clears it.\<close>

inductive manager_step :: "'w OutLib \<Rightarrow> keccak \<Rightarrow> 'w ChannelOut channelManager \<Rightarrow> 'w ChannelOut channelManager \<Rightarrow> bool"
  for lib keccak256 where
  add: "manager_step lib keccak256 s (snd (AddL2Block block s))"
| data: "TxData lib keccak256 random l1Head s = Some (r, s') \<Longrightarrow> manager_step lib keccak256 s s'"
| failed: "Manager_TxFailed (channel_out_ops lib) txid s = Some s' \<Longrightarrow> manager_step lib keccak256 s s'"
| confirmed: "manager_step lib keccak256 s (Manager_TxConfirmed txid inclusionBlock s)"
| switch: "SwitchDAType targetDAType s = Some s' \<Longrightarrow> manager_step lib keccak256 s s'"
| close: "Manager_Close (channel_out_ops lib) s = Some (err, s') \<Longrightarrow> manager_step lib keccak256 s s'"
| clear: "manager_step lib keccak256 s (Manager_Clear l1Origin s)"

inductive manager_reachable :: "'w OutLib \<Rightarrow> keccak \<Rightarrow> 'w ChannelOut channelManager \<Rightarrow> bool" for lib keccak256 where
  start: "manager_reachable lib keccak256 (NewChannelManager cfg rollupCfg)"
| step: "manager_reachable lib keccak256 s \<Longrightarrow> manager_step lib keccak256 s s' \<Longrightarrow> manager_reachable lib keccak256 s'"

lemma manager_inv_fewer_txs:
  "manager_inv s \<Longrightarrow> set tx \<subseteq> set (cm_txChannels s) \<Longrightarrow> manager_inv (s\<lparr>cm_txChannels := tx\<rparr>)"
  unfolding manager_inv_def by (simp cong: option.case_cong) blast

lemma manager_inv_irrelevant [simp]:
  "manager_inv (s\<lparr>cm_blocks := bs\<rparr>) = manager_inv s" "manager_inv (s\<lparr>cm_closed := c\<rparr>) = manager_inv s"
  "manager_inv (s\<lparr>cm_tip := t\<rparr>) = manager_inv s" "manager_inv (s\<lparr>cm_isVolta := v\<rparr>) = manager_inv s"
  "manager_inv (s\<lparr>cm_isFourier := v\<rparr>) = manager_inv s" "manager_inv (s\<lparr>cm_cfg := cfg\<rparr>) = manager_inv s"
  by (simp_all add: manager_inv_def)

lemma AddL2Block_inv: "manager_inv s \<Longrightarrow> manager_inv (snd (AddL2Block block s))"
  by (simp add: AddL2Block_def Let_def)

lemma TxFailed_inv:
  assumes "Manager_TxFailed ops txid s = Some s'" "manager_inv s"
  shows "manager_inv s'"
proof (cases "map_of (cm_txChannels s) (txID_String txid)")
  case None
  then show ?thesis using assms by (simp add: Manager_TxFailed_def)
next
  case (Some p)
  let ?tx = "AList.delete (txID_String txid) (cm_txChannels s)"
  obtain ch where "s' = (let t = put_channel p ch (s\<lparr>cm_txChannels := ?tx\<rparr>) in
      if cm_closed t \<and> NoneSubmitted ch then removePendingChannel p t else t)"
    using assms(1) Some by (auto simp: Manager_TxFailed_def Let_def split: bind_splits)
  moreover have "manager_inv (put_channel p ch (s\<lparr>cm_txChannels := ?tx\<rparr>))"
    using manager_inv_fewer_txs [OF assms(2) set_alist_delete] by (simp add: manager_inv_put)
  ultimately show ?thesis by (simp add: Let_def removePendingChannel_inv)
qed

lemma TxConfirmed_inv:
  assumes "manager_inv s"
  shows "manager_inv (Manager_TxConfirmed txid block s)"
proof (cases "map_of (cm_txChannels s) (txID_String txid)")
  case None
  then show ?thesis using assms by (simp add: Manager_TxConfirmed_def)
next
  case (Some p)
  let ?tx = "AList.delete (txID_String txid) (cm_txChannels s)"
  obtain finished blocks ch where c: "channel_TxConfirmed (txID_String txid) block (the_channel p s) = ((finished, blocks), ch)"
    by (metis prod.collapse)
  have "manager_inv (put_channel p ch (s\<lparr>cm_txChannels := ?tx, cm_blocks := blocks @ cm_blocks s\<rparr>))"
    using manager_inv_fewer_txs [OF assms set_alist_delete] by (simp add: manager_inv_put)
  then show ?thesis using Some c by (simp add: Manager_TxConfirmed_def Let_def removePendingChannel_inv)
qed

lemma close_loop_inv: "manager_inv s \<Longrightarrow> manager_inv (close_loop n i arr s)"
  by (induction n arbitrary: i arr s) (simp_all add: Let_def removePendingChannel_inv)

lemma Manager_Close_inv:
  assumes "Manager_Close ops s = Some (err, s')" "manager_inv s"
  shows "manager_inv s'"
proof -
  let ?s = "close_loop (length (cm_channelQueue s)) 0 (cm_channelQueue s) (s\<lparr>cm_closed := True\<rparr>)"
  have inv: "manager_inv ?s" by (rule close_loop_inv) (simp add: assms(2))
  consider "s' = s" | "s' = ?s" | p e where "cm_currentChannel ?s = Some p"
      "Manager_outputFrames ops p (on_builder Builder_Close p ?s) = Some (e, s')"
    using assms(1) by (auto simp: Manager_Close_def Let_def split: if_splits option.splits bind_splits)
  then show ?thesis
  proof cases
    case 3
    let ?t = "on_builder Builder_Close p ?s"
    have "p < length (cm_store ?t)" using manager_inv_current [OF inv 3(1)] by simp
    then have "same_but p ?t s'" using Manager_outputFrames_step [OF 3(2)] by blast
    moreover have "same_but p ?s ?t" by (rule same_but_on_builder)
    ultimately show ?thesis using inv same_but_inv by blast
  qed (use inv assms(2) in simp_all)
qed

lemma manager_step_inv: "manager_step lib keccak256 s s' \<Longrightarrow> manager_inv s \<Longrightarrow> manager_inv s'"
proof (induction rule: manager_step.induct)
  case (switch targetDAType s s')
  then show ?case by (auto simp: SwitchDAType_def split: if_splits)
next
  case (clear s l1Origin)
  then show ?case by (simp add: Manager_Clear_def manager_inv_def)
qed (simp_all add: AddL2Block_inv TxData_step TxFailed_inv TxConfirmed_inv Manager_Close_inv)

lemma manager_reachable_inv: "manager_reachable lib keccak256 s \<Longrightarrow> manager_inv s"
proof (induction rule: manager_reachable.induct)
  case (start cfg rollupCfg)
  show ?case by (simp add: NewChannelManager_def manager_inv_def)
next
  case (step s s')
  then show ?case by (blast intro: manager_step_inv)
qed

text \<open>In every state the batcher can reach, each queued channel is queued once and exists, and so does the
  channel of each transaction in flight, and the channel that blocks are added to is the last of the queue.\<close>

theorem manager_state_sound:
  assumes "manager_reachable lib keccak256 s"
  shows "distinct (cm_channelQueue s) \<and> (\<forall>p \<in> set (cm_channelQueue s). p < length (cm_store s)) \<and>
    (\<forall>p \<in> snd ` set (cm_txChannels s). p < length (cm_store s)) \<and>
    (\<forall>p. cm_currentChannel s = Some p \<longrightarrow> cm_channelQueue s \<noteq> [] \<and> last (cm_channelQueue s) = p)"
  using manager_reachable_inv [OF assms] by (simp add: manager_inv_def split: option.splits)

text \<open>C7: Asking for a transaction loses no block and takes none twice. In every state the batcher can reach,
  TxData only moves blocks from the front of the queue to the end of the current channel: the blocks of the
  channels, in the order of the channels, followed by those in the queue stay the same. The exception is an
  error while a block is added: the queue is then unchanged, while the blocks before the failing one are
  already in the channel.\<close>

theorem TxData_conserves_blocks:
  assumes "manager_reachable lib keccak256 s" "TxData lib keccak256 random l1Head s = Some (r, s')"
  shows "if \<exists>e. r = Inl (Wrap ''adding block to channel builder'' e)
    then \<exists>k. concat (map (\<lambda>p. blocks_of p s') (cm_channelQueue s')) @ drop k (cm_blocks s') = all_blocks s \<and>
           cm_blocks s' = cm_blocks s
    else all_blocks s' = all_blocks s"
  using TxData_step [OF assms(2) manager_reachable_inv [OF assms(1)]] by blast


section \<open>Closing\<close>

text \<open>Close drops the channels of which nothing was submitted, but not all of them: while it walks over the
  queue, removing one shifts the next under its feet. Of three channels with nothing submitted the middle one
  stays, Close reports nothing pending, and the frames of that channel are then the next transaction, though
  the blocks of the first channel, which come before its own, are gone.\<close>

theorem Manager_Close_keeps_middle:
  assumes "manager_inv s" "\<not> cm_closed s" "cm_channelQueue s = [a, b, c]"
    and "\<forall>p \<in> {a, b, c}. NoneSubmitted (the_channel p s)" "HasTxData (the_channel b s)"
  shows "\<exists>s'. Manager_Close ops s = Some (None, s') \<and> cm_channelQueue s' = [b] \<and>
    firstWithTxData s' = Some b"
proof -
  have inv: "distinct [a, b, c]" "\<forall>p. cm_currentChannel s = Some p \<longrightarrow> p = c"
    using assms(1,3) by (auto simp: manager_inv_def)
  let ?s = "close_loop 3 0 [a, b, c] (s\<lparr>cm_closed := True\<rparr>)"
  have cur: "cm_currentChannel s = None \<or> cm_currentChannel s = Some c" using inv(2) by (cases "cm_currentChannel s") auto
  have the: "the_channel q (removePendingChannel p t) = the_channel q t" for q p and t :: "'a channelManager"
    by (simp add: the_channel_def removePendingChannel_fields)
  have l: "cm_channelQueue ?s = [b]" "cm_currentChannel ?s = None" "cm_store ?s = cm_store s"
    using inv(1) cur assms(3,4) by (auto simp: numeral_3_eq_3 removePendingChannel_fields the Let_def)
  have "Manager_Close ops s = Some (None, ?s)"
    using assms(2,3) l(2) by (simp add: Manager_Close_def Let_def numeral_3_eq_3)
  moreover have "firstWithTxData ?s = Some b"
    using l assms(5) by (simp add: firstWithTxData_def the_channel_def)
  ultimately show ?thesis using l(1) by blast
qed

section \<open>A second confirmation\<close>

text \<open>The manager forgets a channel that timed out, but not the other transactions of that channel. When one
  of them is confirmed too, the blocks of the channel are put back into the queue a second time.\<close>

theorem Manager_TxConfirmed_twice:
  assumes "map_of (cm_txChannels s) (txID_String t1) = Some p" "map_of (cm_txChannels s) (txID_String t2) = Some p"
    and "txID_String t1 \<noteq> txID_String t2" "p < length (cm_store s)"
    and "channel_TxConfirmed (txID_String t1) b1 (the_channel p s) = ((True, blocks), ch1)"
    and "channel_TxConfirmed (txID_String t2) b2 ch1 = ((True, blocks'), ch2)"
  shows "cm_blocks (Manager_TxConfirmed t2 b2 (Manager_TxConfirmed t1 b1 s)) = blocks' @ blocks @ cm_blocks s"
proof -
  let ?s = "removePendingChannel p (put_channel p ch1 (s\<lparr>cm_txChannels := AList.delete (txID_String t1) (cm_txChannels s),
     cm_blocks := blocks @ cm_blocks s\<rparr>))"
  have s: "Manager_TxConfirmed t1 b1 s = ?s" using assms(1,5) by (simp add: Manager_TxConfirmed_def)
  have "the_channel p ?s = ch1" "map_of (cm_txChannels ?s) (txID_String t2) = Some p" "cm_blocks ?s = blocks @ cm_blocks s"
    using assms(2-4) by (simp_all add: the_channel_def removePendingChannel_fields put_channel_def AList.delete_conv')
  then show ?thesis unfolding s using assms(6) by (simp add: Manager_TxConfirmed_def removePendingChannel_fields)
qed

section \<open>One side of a fork\<close>

definition one_side :: "(u64 \<Rightarrow> bool) \<Rightarrow> OutBlock list \<Rightarrow> bool" where
  "one_side F bs \<longleftrightarrow> (\<forall>b \<in> set bs. F (lb_Time b)) \<or> (\<forall>b \<in> set bs. \<not> F (lb_Time b))"

lemma fork_mono: "t \<le> t' \<Longrightarrow> IsVolta cfg t \<Longrightarrow> IsVolta cfg t'" "t \<le> t' \<Longrightarrow> IsFourier cfg t \<Longrightarrow> IsFourier cfg t'"
  by (auto simp: IsVolta_def IsFourier_def split: option.splits)

lemma one_side_snoc:
  assumes "one_side F bs" "bs \<noteq> [] \<Longrightarrow> \<not> F (lb_Time b)" "sorted (map lb_Time (bs @ [b]))" "\<And>t t'. t \<le> t' \<Longrightarrow> F t \<Longrightarrow> F t'"
  shows "one_side F (bs @ [b])"
proof (cases "bs = []")
  case False
  then have "\<not> F (lb_Time b)" using assms(2) by blast
  moreover have "\<not> F (lb_Time b')" if "b' \<in> set bs" for b'
    using that assms(3,4) \<open>\<not> F (lb_Time b)\<close> by (auto simp: sorted_append)
  ultimately show ?thesis by (simp add: one_side_def)
qed (simp add: one_side_def)

text \<open>A block that was added left bytes behind: the encoded batch is never empty.\<close>

lemma span_compress_active: "span_compress lib co = (err, co') \<Longrightarrow> activeRLP co' = activeRLP co"
  by (auto simp: span_compress_def Let_def split: prod.splits option.splits)

lemma compress_if_needed_active: "compress_if_needed lib co = (None, co') \<Longrightarrow> activeRLP co' = activeRLP co"
  by (auto simp: compress_if_needed_def Let_def dest!: span_compress_active split: if_splits prod.splits option.splits)

lemma SpanChannelOut_AddSingularBatch_active:
  assumes "SpanChannelOut_AddSingularBatch lib cfg batch seqNum co = Some (None, co')"
  obtains raw enc where "encode_batch lib (InnerRaw raw) = Some (Inr enc)" "activeRLP co' = enc"
proof -
  have c: "\<not> spco_closed co" "spco_full co = None"
    using assms by (auto simp: SpanChannelOut_AddSingularBatch_def split: if_splits)
  obtain b where a: "AppendSingularBatch (lib_tx (ol_batch lib)) (spco_spanBatch co) batch seqNum = Some (b, None)"
    using assms c by (auto simp: SpanChannelOut_AddSingularBatch_def Let_def split: bind_splits option.splits)
  obtain raw where raw: "ToRawSpanBatch b cfg = Inr raw"
    using assms c a by (auto simp: SpanChannelOut_AddSingularBatch_def Let_def split: sum.splits)
  obtain enc where enc: "encode_batch lib (InnerRaw raw) = Some (Inr enc)"
    using assms c a raw by (auto simp: SpanChannelOut_AddSingularBatch_def Let_def split: sum.splits bind_splits)
  have "activeRLP co' = enc"
    using assms c a raw enc by (auto simp: SpanChannelOut_AddSingularBatch_def Let_def dest: compress_if_needed_active)
  with enc show ?thesis by (rule that)
qed

lemma encode_batch_nonempty:
  "encode_batch lib inner = Some (Inr enc) \<Longrightarrow> \<forall>b. ol_rlp lib b \<noteq> [] \<Longrightarrow> enc \<noteq> []"
  unfolding encode_batch_def by (cases "encodeTyped (ol_batch lib) \<lparr>bd_inner = inner, bd_ComprAlgo = []\<rparr>") (auto simp: map_sum_def split: sum.splits)

lemma AddSingularBatch_used:
  assumes "ops_AddSingularBatch (channel_out_ops lib) cfg batch seqNum co = Some (None, co')" "\<forall>b. ol_rlp lib b \<noteq> []"
  shows "ops_InputBytes (channel_out_ops lib) co' \<noteq> 0"
proof (cases co)
  case (SingularOut sco)
  then obtain sco' where sco': "SingularChannelOut_AddSingularBatch lib batch sco = Some (None, sco')" "co' = SingularOut sco'"
    using assms(1) by (auto simp: channel_out_ops_def lift_out_def)
  then have "\<not> sco_closed sco" by (auto simp: SingularChannelOut_AddSingularBatch_def)
  moreover obtain buf where buf: "encode_batch lib (InnerSingular batch) = Some (Inr buf)"
    using sco'(1) calculation by (auto simp: SingularChannelOut_AddSingularBatch_def split: bind_splits sum.splits)
  ultimately have "sco_rlpLength sco' = sco_rlpLength sco + length buf"
    using sco'(1) by (auto simp: SingularChannelOut_AddSingularBatch_def Let_def split: if_splits prod.splits)
  then show ?thesis using encode_batch_nonempty [OF buf assms(2)] sco'(2) by (simp add: channel_out_ops_def)
next
  case (SpanOut sco)
  then obtain sco' where sco': "SpanChannelOut_AddSingularBatch lib cfg batch seqNum sco = Some (None, sco')" "co' = SpanOut sco'"
    using assms(1) by (auto simp: channel_out_ops_def lift_out_def)
  then obtain raw enc where "encode_batch lib (InnerRaw raw) = Some (Inr enc)" "activeRLP sco' = enc"
    using SpanChannelOut_AddSingularBatch_active by blast
  then have "activeRLP sco' \<noteq> []" using encode_batch_nonempty assms(2) by blast
  then show ?thesis using sco'(2) by (simp add: channel_out_ops_def)
qed

lemma Builder_AddBlock_used:
  assumes "Builder_AddBlock (channel_out_ops lib) keccak256 block cb = Some (Inr l1info, cb')" "\<forall>b. ol_rlp lib b \<noteq> []"
  shows "ops_InputBytes (channel_out_ops lib) (bld_co cb') \<noteq> 0"
proof -
  have keep: "bld_co (setFullErr e c) = bld_co c" "bld_co (updateSwTimeout b c) = bld_co c" for e b and c :: "'a ChannelOut ChannelBuilder"
    by (simp_all add: setFullErr_def updateSwTimeout_def updateTimeout_def)
  have full: "bld_fullErr cb = None" using assms(1) by (auto simp: Builder_AddBlock_def split: option.splits)
  obtain batch info where batch: "BlockToSingularBatch keccak256 (bld_rollupCfg cb) block = Inr (batch, info)"
    using assms(1) full by (auto simp: Builder_AddBlock_def split: sum.splits)
  let ?r = "ops_AddSingularBatch (channel_out_ops lib) (bld_rollupCfg cb) batch (li_SequenceNumber info) (bld_co cb)"
  obtain err co where r: "?r = Some (err, co)"
    using assms(1) full batch by (cases ?r) (auto simp: Builder_AddBlock_def)
  have none: "err = None"
    using assms(1) full batch r by (cases err) (auto simp: Builder_AddBlock_def Let_def split: if_splits)
  have "bld_co cb' = co" using assms(1) full batch r none
    by (simp add: Builder_AddBlock_def Let_def) (auto simp: keep split: option.splits)
  then show ?thesis using AddSingularBatch_used [OF r [unfolded none] assms(2)] by simp
qed

lemma process_blocks_loop_one_side:
  assumes "process_blocks_loop (channel_out_ops lib) keccak256 p blocks n s = Some (r, s')" "p < length (cm_store s)"
    and "\<forall>b. ol_rlp lib b \<noteq> []"
    and "blocks_of p s \<noteq> [] \<Longrightarrow> ops_InputBytes (channel_out_ops lib) (bld_co (chn_builder (the_channel p s))) \<noteq> 0"
    and "sorted (map lb_Time (blocks_of p s @ blocks))" "one_side F (blocks_of p s)"
    and "F = IsVolta (cm_rollupCfg s) \<and> \<not> cm_isVolta s \<or> F = IsFourier (cm_rollupCfg s) \<and> \<not> cm_isFourier s"
  shows "one_side F (blocks_of p s')"
  using assms
proof (induction blocks arbitrary: n s)
  case Nil
  then show ?case by auto
next
  case (Cons block blocks)
  let ?cb = "chn_builder (the_channel p s)" let ?used = "ops_InputBytes (channel_out_ops lib) (bld_co ?cb) \<noteq> 0"
  let ?fourier = "\<not> cm_isFourier s \<and> IsFourier (cm_rollupCfg s) (lb_Time block) \<and> ?used"
  let ?volta = "\<not> cm_isVolta s \<and> IsVolta (cm_rollupCfg s) (lb_Time block) \<and> ?used"
  note run = Cons.prems(1) [unfolded process_blocks_loop.simps Let_def]
  show ?case
  proof (cases "?fourier \<or> ?volta")
    case True
    then have "blocks_of p s' = blocks_of p s" using run Cons.prems(2) by (auto split: if_splits)
    then show ?thesis using Cons.prems(6) by simp
  next
    case False
    then have neither: "\<not> ?fourier" "\<not> ?volta" by blast+
    note run = run [unfolded if_not_P [OF neither(1)] if_not_P [OF neither(2)]]
    obtain r1 cb where add: "Builder_AddBlock (channel_out_ops lib) keccak256 block ?cb = Some (r1, cb)"
      using run by (auto split: bind_splits)
    let ?s = "on_builder (\<lambda>_. cb) p s"
    note rest = run [unfolded add bind.bind_lunit prod.case]
    show ?thesis
    proof (cases r1)
      case (Inl err)
      then have "s' = ?s" using rest by (auto split: if_splits)
      then show ?thesis using Cons.prems(2,6) Builder_AddBlock_blocks [OF add] Inl by simp
    next
      case (Inr l1info)
      then have b: "blocks_of p ?s = blocks_of p s @ [block]" using Builder_AddBlock_blocks [OF add] Cons.prems(2) by simp
      have side: "one_side F (blocks_of p s @ [block])"
      proof (rule one_side_snoc)
        show "one_side F (blocks_of p s)" by fact
        show "\<not> F (lb_Time block)" if "blocks_of p s \<noteq> []" using Cons.prems(4) [OF that] Cons.prems(7) neither by auto
        show "sorted (map lb_Time (blocks_of p s @ [block]))" using Cons.prems(5) by (auto simp: sorted_append)
        show "F t'" if "t \<le> t'" "F t" for t t' using that Cons.prems(7) fork_mono by blast
      qed
      show ?thesis
      proof (cases "IsFull cb")
        case True
        then show ?thesis using rest Inr b side by simp
      next
        case False
        then have "process_blocks_loop (channel_out_ops lib) keccak256 p blocks (n + 1) ?s = Some (r, s')" using rest Inr by simp
        then show ?thesis
        proof (rule Cons.IH)
          show "ops_InputBytes (channel_out_ops lib) (bld_co (chn_builder (the_channel p ?s))) \<noteq> 0"
            using Builder_AddBlock_used [OF add [unfolded Inr]] Cons.prems(2,3) by simp
        qed (use Cons.prems(2,3,5,7) b side in simp_all)
      qed
    qed
  qed
qed

text \<open>A channel does not mix blocks from before and after a fork: as long as the manager has not passed the
  fork, adding the queued blocks, in the order of time, to a channel whose blocks are on one side leaves it
  on one side, for Volta and for Fourier.\<close>

theorem processBlocks_one_side:
  assumes "processBlocks (channel_out_ops lib) keccak256 p s = Some (err, s')" "p < length (cm_store s)"
    and "\<forall>b. ol_rlp lib b \<noteq> []"
    and "blocks_of p s \<noteq> [] \<Longrightarrow> ops_InputBytes (channel_out_ops lib) (bld_co (chn_builder (the_channel p s))) \<noteq> 0"
    and "sorted (map lb_Time (blocks_of p s @ cm_blocks s))"
  shows "(\<not> cm_isVolta s \<longrightarrow> one_side (IsVolta (cm_rollupCfg s)) (blocks_of p s) \<longrightarrow> one_side (IsVolta (cm_rollupCfg s)) (blocks_of p s')) \<and>
    (\<not> cm_isFourier s \<longrightarrow> one_side (IsFourier (cm_rollupCfg s)) (blocks_of p s) \<longrightarrow> one_side (IsFourier (cm_rollupCfg s)) (blocks_of p s'))"
proof -
  obtain r s1 where l: "process_blocks_loop (channel_out_ops lib) keccak256 p (cm_blocks s) 0 s = Some (r, s1)"
    using assms(1) by (auto simp: processBlocks_def split: bind_splits)
  then have "blocks_of p s' = blocks_of p s1" using assms(1) by (auto simp: processBlocks_def split: sum.splits)
  then show ?thesis using process_blocks_loop_one_side [OF l assms(2-5)] by simp
qed

text \<open>Past the fork nothing separates the blocks: when older ones come back into the queue, after a timeout or a
  reorganisation, they share a channel with the newer ones.\<close>

theorem process_blocks_loop_mixes:
  assumes "cm_isVolta s" "cm_isFourier s" "p < length (cm_store s)"
    and "Builder_AddBlock ops keccak256 b1 (chn_builder (the_channel p s)) = Some (Inr l1, cb1)" "\<not> IsFull cb1"
    and "Builder_AddBlock ops keccak256 b2 cb1 = Some (Inr l2, cb2)"
  shows "\<exists>s'. process_blocks_loop ops keccak256 p [b1, b2] 0 s = Some (Inr 2, s') \<and> blocks_of p s' = blocks_of p s @ [b1, b2]"
  using assms Builder_AddBlock_blocks [OF assms(4)] Builder_AddBlock_blocks [OF assms(6)] by (simp add: Let_def)


definition confirming :: "unit ChannelOut channel" where
  "confirming = \<lparr>chn_cfg = small_config 100,
     chn_builder = (full_builder 100 False)\<lparr>bld_blocks := [\<lparr>lb_Hash = 1, lb_ParentHash = 0, lb_MixDigest = 0, lb_NumberU64 = 1,
       lb_Time = 5, lb_Transactions = [], ob_MarshalBinary = (\<lambda>_. Inr [])\<rparr>]\<rparr>,
     chn_pending = [(''b'', [])], chn_confirmed = [(''a'', \<lparr>bid_Hash = 1, bid_Number = 100\<rparr>)],
     chn_confirmedTxUpdated = False, chn_minInclusionBlock = 100, chn_maxInclusionBlock = 100\<rparr>"

theorem confirmed_not_timed_out_witness:
  "\<exists>s'. channel_TxConfirmed ''b'' \<lparr>bid_Hash = 2, bid_Number = 109\<rparr> confirming = ((True, []), s') \<and>
    \<not> timedOut (OPBNBMainnet\<lparr>cfg_ChannelTimeout := 10\<rparr>) (zero_L1BlockRef\<lparr>l1_Number := 109\<rparr>)
      (NewChannel 7 (zero_L1BlockRef\<lparr>l1_Number := 100\<rparr>))"
proof -
  let ?b = "\<lparr>bid_Hash = 2, bid_Number = 109\<rparr>" and ?a = "\<lparr>bid_Hash = 1, bid_Number = 100\<rparr>"
  have "\<exists>s'. channel_TxConfirmed ''b'' ?b confirming = ((True, []), s') \<and> chn_confirmed s' = [(''a'', ?a), (''b'', ?b)]"
    by (simp add: channel_TxConfirmed_def confirming_def Let_def isTimedOut_def isFullySubmitted_def updateInclusionBlocks_def
        small_config_def full_builder_def FramePublished_def updateTimeout_def IsFull_def PendingFrames_def)
  then obtain s' where s': "channel_TxConfirmed ''b'' ?b confirming = ((True, []), s')"
    "chn_confirmed s' = [(''a'', ?a), (''b'', ?b)]" by blast
  have "\<not> timedOut (OPBNBMainnet\<lparr>cfg_ChannelTimeout := 10\<rparr>) (zero_L1BlockRef\<lparr>l1_Number := 109\<rparr>)
      (NewChannel 7 (zero_L1BlockRef\<lparr>l1_Number := 100\<rparr>))"
    by (rule confirmed_not_timed_out [OF s'(1), where j = "''a''" and k = "''b''" and first_in = ?a and last_in = ?b])
       (simp_all add: s'(2) confirming_def small_config_def OpenBlockNumber_def NewChannel_def zero_L1BlockRef_def)
  then show ?thesis using s'(1) by blast
qed

text \<open>A block without transactions: a channel is made for it, and adding it fails.\<close>

definition bad_block :: OutBlock where
  "bad_block = \<lparr>lb_Hash = 1, lb_ParentHash = 0, lb_MixDigest = 0, lb_NumberU64 = 1, lb_Time = 5, lb_Transactions = [],
     ob_MarshalBinary = (\<lambda>_. Inr [])\<rparr>"

definition new_channel :: "unit ChannelOut channel" where
  "new_channel = \<lparr>chn_cfg = small_config 100,
     chn_builder = \<lparr>bld_cfg = small_config 100, bld_rollupCfg = OPBNBMainnet, bld_timeout = 0, bld_timeoutReason = None,
       bld_fullErr = None, bld_co = SingularOut \<lparr>sco_id = 9, sco_frame = 0, sco_rlpLength = 0,
         sco_compress = RatioCompressor (cc_CompressorConfig (small_config 100)) 0 \<lparr>cc_compressed = [], cc_writer = (), cc_brotli = False\<rparr>,
         sco_closed = False\<rparr>,
       bld_blocks = [], bld_latestL1Origin = \<lparr>bid_Hash = 0, bid_Number = 0\<rparr>, bld_frames = [], bld_numFrames = 0, bld_outputBytes = 0\<rparr>,
     chn_pending = [], chn_confirmed = [], chn_confirmedTxUpdated = False, chn_minInclusionBlock = 0, chn_maxInclusionBlock = 0\<rparr>"

lemma new_channel: "newChannel copy_lib (Inr 9) (small_config 100) OPBNBMainnet n = Some (Inr new_channel)"
  by (simp add: newChannel_def NewChannelBuilder_def NewCompressor_def NewRatioCompressor_def NewChannelCompressor_def
      NewSingularChannelOut_def updateDurationTimeout_def small_config_def copy_lib_def copy_writer_def new_channel_def)

definition asked :: "unit ChannelOut channelManager" where
  "asked = (NewChannelManager (small_config 100) OPBNBMainnet)\<lparr>cm_blocks := [bad_block], cm_tip := 1\<rparr>"

definition tried :: "unit ChannelOut channelManager" where
  "tried = asked\<lparr>cm_store := [new_channel], cm_currentChannel := Some 0, cm_channelQueue := [0]\<rparr>"

lemma asked_reachable: "manager_reachable copy_lib (\<lambda>_. 0) asked"
proof -
  have "asked = snd (AddL2Block bad_block (NewChannelManager (small_config 100) OPBNBMainnet))"
    by (simp add: asked_def AddL2Block_def NewChannelManager_def bad_block_def IsVolta_def IsFourier_def OPBNBMainnet_def)
  then show ?thesis
    using manager_reachable.step [OF manager_reachable.start [of copy_lib "\<lambda>_. 0" "small_config 100" OPBNBMainnet]
        manager_step.add [of copy_lib "\<lambda>_. 0" _ bad_block]] by simp
qed

lemma tried:
  "TxData copy_lib (\<lambda>_. 0) (Inr 9) \<lparr>bid_Hash = 3, bid_Number = 40\<rparr> asked =
   Some (Inl (Wrap ''adding block to channel builder'' (Wrap ''converting block to batch'' (Msg ''block has no transactions''))), tried)"
proof -
  have e: "ensureChannelWithSpace copy_lib (Inr 9) asked = Some (None, tried)"
    by (simp add: ensureChannelWithSpace_def asked_def NewChannelManager_def new_channel tried_def)
  have a: "Builder_AddBlock (channel_out_ops copy_lib) (\<lambda>_. 0) bad_block (chn_builder new_channel) =
      Some (Inl (Wrap ''converting block to batch'' (Msg ''block has no transactions'')), chn_builder new_channel)"
    by (simp add: Builder_AddBlock_def new_channel_def BlockToSingularBatch_def bad_block_def)
  have f: "\<not> IsFourier OPBNBMainnet (lb_Time bad_block)" "\<not> IsVolta OPBNBMainnet (lb_Time bad_block)"
    by (simp_all add: bad_block_def IsVolta_def IsFourier_def OPBNBMainnet_def)
  have t: "the_channel 0 tried = new_channel" "cm_blocks tried = [bad_block]" "cm_currentChannel tried = Some 0"
    "cm_rollupCfg tried = OPBNBMainnet" "on_builder (\<lambda>_. chn_builder new_channel) 0 tried = tried"
    by (simp_all add: tried_def asked_def the_channel_def NewChannelManager_def on_builder_def put_channel_def)
  have "processBlocks (channel_out_ops copy_lib) (\<lambda>_. 0) 0 tried =
      Some (Some (Wrap ''adding block to channel builder'' (Wrap ''converting block to batch'' (Msg ''block has no transactions''))), tried)"
    by (simp add: processBlocks_def t a f Let_def)
  moreover have "firstWithTxData asked = None" "\<not> cm_closed asked" "cm_blocks asked \<noteq> []"
    by (simp_all add: asked_def NewChannelManager_def firstWithTxData_def)
  ultimately show ?thesis by (simp add: TxData_def e t)
qed

theorem manager_state_sound_witness:
  "\<exists>s. manager_reachable copy_lib (\<lambda>_. 0) s \<and> cm_currentChannel s = Some 0 \<and> last (cm_channelQueue s) = 0 \<and>
    0 < length (cm_store s)"
proof -
  have r: "manager_reachable copy_lib (\<lambda>_. 0) tried"
    using asked_reachable manager_step.data [OF tried] by (rule manager_reachable.step)
  have "cm_currentChannel tried = Some 0" by (simp add: tried_def)
  then show ?thesis using manager_state_sound [OF r] r by (metis last_in_set)
qed

theorem TxData_conserves_blocks_witness:
  "\<exists>r s' k. TxData copy_lib (\<lambda>_. 0) (Inr 9) \<lparr>bid_Hash = 3, bid_Number = 40\<rparr> asked = Some (r, s') \<and>
    concat (map (\<lambda>p. blocks_of p s') (cm_channelQueue s')) @ drop k (cm_blocks s') = all_blocks asked \<and> all_blocks asked = [bad_block]"
proof -
  have "all_blocks asked = [bad_block]" by (simp add: all_blocks_def asked_def NewChannelManager_def)
  then show ?thesis using TxData_conserves_blocks [OF asked_reachable tried] tried by auto
qed

text \<open>Three channels whose transactions all failed.\<close>

definition three_failed :: "unit ChannelOut channelManager" where
  "three_failed = (NewChannelManager (small_config 100) OPBNBMainnet)\<lparr>cm_channelQueue := [0, 1, 2], cm_currentChannel := Some 2,
     cm_store := replicate 3 (new_channel\<lparr>chn_builder := (chn_builder new_channel)\<lparr>bld_frames := [\<lparr>fd_data = [1], fd_id = (9, 0)\<rparr>]\<rparr>\<rparr>)\<rparr>"

theorem Manager_Close_keeps_middle_witness:
  "\<exists>s'. Manager_Close (channel_out_ops copy_lib) three_failed = Some (None, s') \<and> cm_channelQueue s' = [1] \<and>
    firstWithTxData s' = Some 1"
  by (rule Manager_Close_keeps_middle [of _ 0 1 2])
    (simp_all add: three_failed_def NewChannelManager_def manager_inv_def the_channel_def new_channel_def NoneSubmitted_def
      HasTxData_def HasFrame_def small_config_def numeral_3_eq_3)

text \<open>A channel with a block of before Volta, and a later block in the queue.\<close>

definition across :: "unit ChannelOut channelManager" where
  "across = (NewChannelManager (small_config 100) OPBNBMainnet)\<lparr>cm_channelQueue := [0], cm_currentChannel := Some 0,
     cm_blocks := [bad_block\<lparr>lb_Time := 1745204400\<rparr>],
     cm_store := [confirming\<lparr>chn_builder := (full_builder 100 False)\<lparr>bld_fullErr := None, bld_blocks := [bad_block]\<rparr>\<rparr>]\<rparr>"

theorem processBlocks_one_side_witness:
  "\<exists>s'. processBlocks (channel_out_ops (copy_lib\<lparr>ol_rlp := (\<lambda>b. 0 # b)\<rparr>)) (\<lambda>_. 0) 0 across = Some (None, s') \<and>
    one_side (IsVolta OPBNBMainnet) (blocks_of 0 s')"
proof -
  let ?lib = "copy_lib\<lparr>ol_rlp := (\<lambda>b. 0 # b)\<rparr>"
  have a: "the_channel 0 across = confirming\<lparr>chn_builder := (full_builder 100 False)\<lparr>bld_fullErr := None, bld_blocks := [bad_block]\<rparr>\<rparr>"
    "cm_rollupCfg across = OPBNBMainnet" "cm_blocks across = [bad_block\<lparr>lb_Time := 1745204400\<rparr>]" "length (cm_store across) = 1"
    "\<not> cm_isVolta across" "\<not> cm_isFourier across"
    by (simp_all add: across_def the_channel_def NewChannelManager_def)
  have used: "ops_InputBytes (channel_out_ops ?lib) (bld_co (chn_builder (the_channel 0 across))) = 8"
    by (simp add: a full_builder_def channel_out_ops_def)
  have v: "IsVolta OPBNBMainnet 1745204400" "\<not> IsVolta OPBNBMainnet (lb_Time bad_block)" "\<not> IsFourier OPBNBMainnet 1745204400"
    by (simp_all add: IsVolta_def IsFourier_def OPBNBMainnet_def bad_block_def)
  have u: "0 < ops_InputBytes (channel_out_ops ?lib) (bld_co (chn_builder (the_channel 0 across)))" using used by simp
  have "process_blocks_loop (channel_out_ops ?lib) (\<lambda>_. 0) 0 [bad_block\<lparr>lb_Time := 1745204400\<rparr>] 0 across
      = Some (Inr 0, (on_builder Builder_Close 0 across)\<lparr>cm_isVolta := True\<rparr>)"
    using v u a(2,5,6) by (simp add: Let_def)
  then have p: "processBlocks (channel_out_ops ?lib) (\<lambda>_. 0) 0 across
      = Some (None, (on_builder Builder_Close 0 across)\<lparr>cm_isVolta := True, cm_blocks := [bad_block\<lparr>lb_Time := 1745204400\<rparr>]\<rparr>)"
    by (simp add: processBlocks_def a(3))
  have "blocks_of 0 across = [bad_block]" by (simp add: a(1))
  then have "one_side (IsVolta (cm_rollupCfg across)) (blocks_of 0
      ((on_builder Builder_Close 0 across)\<lparr>cm_isVolta := True, cm_blocks := [bad_block\<lparr>lb_Time := 1745204400\<rparr>]\<rparr>))"
    using processBlocks_one_side [OF p] used a(3,4,5) by (simp add: one_side_def bad_block_def copy_lib_def)
  then show ?thesis using p a(2) by auto
qed

section \<open>What a transaction carries\<close>

text \<open>What the batcher sends is what the derivation parses. For a transaction whose frames are the bytes of
  frames that are not too long, the call data parses into these frames; and if each fits a blob,
  then making the blobs succeeds, and the blobs, each decoded and parsed, give the same frames.\<close>

theorem txData_read_back:
  assumes "map fd_data td = map frame_bytes fs" "fs \<noteq> []"
    and "\<forall>f \<in> set fs. length (fr_Data f) \<le> MaxFrameLen \<and> length (frame_bytes f) < MaxBlobDataSize"
  shows "ParseFrames (txData_CallData td) = Inr fs \<and>
    (\<exists>blobs. txData_Blobs td = Some (Inr blobs) \<and>
      list_all2 (\<lambda>blob f. \<exists>data. ToData blob = Inr data \<and> ParseFrames data = Inr [f]) blobs fs)"
proof
  show "ParseFrames (txData_CallData td) = Inr fs"
    using assms unfolding ParseFrames_spec txData_CallData_def by simp
  have "\<exists>blobs. frame_blobs td = Some (Inr blobs) \<and>
      list_all2 (\<lambda>blob f. \<exists>data. ToData blob = Inr data \<and> ParseFrames data = Inr [f]) blobs fs"
    using assms(1,3)
  proof (induction td arbitrary: fs)
    case (Cons d td)
    then obtain f fs' where fs: "fs = f # fs'" "fd_data d = frame_bytes f" by auto
    let ?data = "DerivationVersion0 # frame_bytes f"
    have len: "length ?data \<le> MaxBlobDataSize" using Cons.prems(2) fs by simp
    obtain blobs where "frame_blobs td = Some (Inr blobs)"
      "list_all2 (\<lambda>blob f. \<exists>data. ToData blob = Inr data \<and> ParseFrames data = Inr [f]) blobs fs'"
      using Cons.IH [of fs'] Cons.prems fs by auto
    moreover have "ParseFrames ?data = Inr [f]" using Cons.prems(2) fs unfolding ParseFrames_spec by simp
    ultimately show ?case using fs FromData_eq [OF len] decoder_inverts [OF len] by auto
  qed simp
  then show "\<exists>blobs. txData_Blobs td = Some (Inr blobs) \<and>
      list_all2 (\<lambda>blob f. \<exists>data. ToData blob = Inr data \<and> ParseFrames data = Inr [f]) blobs fs"
    by (simp add: txData_Blobs_def)
qed

theorem txData_read_back_witness:
  "let f = \<lparr>fr_ID = 9, fr_FrameNumber = 0, fr_Data = [1, 2], fr_IsLast = True\<rparr>; td = [\<lparr>fd_data = frame_bytes f, fd_id = (9, 0)\<rparr>] in
   ParseFrames (txData_CallData td) = Inr [f] \<and>
    (\<exists>blobs. txData_Blobs td = Some (Inr blobs) \<and>
      list_all2 (\<lambda>blob f. \<exists>data. ToData blob = Inr data \<and> ParseFrames data = Inr [f]) blobs [f])"
  unfolding Let_def by (rule txData_read_back) (simp_all add: MaxFrameLen_def MaxBlobDataSize_def)

end
