(* ===== verification/FaultPosition.thy ===== *)
theory FaultPosition
  imports SpanBatchTxs Errors
begin

unbundle bit_operations_syntax

text \<open>
  Positions in a dispute game, op-challenger/game/fault/types/position.go: a node of a binary tree by its
  depth, 64 bits wide, and its index at that depth, a big integer behind a pointer, nil in the zero value and read as 0. The trace index of a position is that
  of the last leaf below it.
\<close>

section \<open>The operations\<close>

record Position =
  pos_depth :: u64
  pos_indexAtDepth :: "int option"

definition IndexAtDepth :: "Position \<Rightarrow> int" where
  "IndexAtDepth p = (case pos_indexAtDepth p of None \<Rightarrow> 0 | Some i \<Rightarrow> i)"

definition ErrPositionDepthTooSmall :: gerr where
  "ErrPositionDepthTooSmall = Msg ''position depth is too small''"

lemma IndexAtDepth_Some [simp]: "IndexAtDepth \<lparr>pos_depth = d, pos_indexAtDepth = Some i\<rparr> = i"
  by (simp add: IndexAtDepth_def)

definition NewPosition :: "u64 \<Rightarrow> int \<Rightarrow> Position" where
  "NewPosition depth indexAtDepth = \<lparr>pos_depth = depth, pos_indexAtDepth = Some indexAtDepth\<rparr>"

definition bigMSB :: "int \<Rightarrow> u64" where
  "bigMSB x = (if x = 0 then 0 else of_nat (BitLen (nat \<bar>x\<bar>) - 1))"

definition NewPositionFromGIndex :: "int \<Rightarrow> Position" where
  "NewPositionFromGIndex x =
     (let depth = bigMSB x; withoutMSB = NOT (push_bit (unat depth) (1 :: int)) in NewPosition depth (x AND withoutMSB))"

definition RootPosition :: Position where "RootPosition = NewPositionFromGIndex 1"

definition MoveRight :: "Position \<Rightarrow> Position" where
  "MoveRight p = \<lparr>pos_depth = pos_depth p, pos_indexAtDepth = Some (IndexAtDepth p + 1)\<rparr>"

text \<open>A machine integer is shifted: by 64 bits and more that is zero, and the remainder by zero panics;
  \<open>Mod\<close> of a big integer is never negative.\<close>

definition RelativeToAncestorAtDepth :: "u64 \<Rightarrow> Position \<Rightarrow> Position res go" where
  "RelativeToAncestorAtDepth ancestor p =
     (if ancestor > pos_depth p then Some (Inl ErrPositionDepthTooSmall)
      else
        (let newPosDepth = pos_depth p - ancestor;
             nodesAtDepth = push_bit (unat newPosDepth) (1 :: i64)
         in if nodesAtDepth = 0 then None
            else Some (Inr (NewPosition newPosDepth (IndexAtDepth p mod \<bar>sint nodesAtDepth\<bar>)))))"

definition IsRootPosition :: "Position \<Rightarrow> bool" where
  "IsRootPosition p \<longleftrightarrow> pos_depth p = 0 \<and> IndexAtDepth p = 0"

definition lshIndex :: "u64 \<Rightarrow> Position \<Rightarrow> int" where
  "lshIndex amount p = push_bit (unat amount) (IndexAtDepth p)"

definition TraceIndex :: "u64 \<Rightarrow> Position \<Rightarrow> int go" where
  "TraceIndex maxDepth p =
     (if maxDepth < pos_depth p then None
      else
        (let rd = maxDepth - pos_depth p; rhs = push_bit (unat rd) 1 - 1 in Some (lshIndex rd p OR rhs)))"

definition move :: "bool \<Rightarrow> Position \<Rightarrow> Position" where
  "move right p = \<lparr>pos_depth = pos_depth p + 1, pos_indexAtDepth = Some (lshIndex 1 p OR of_bool right)\<rparr>"

definition parentIndexAtDepth :: "Position \<Rightarrow> int" where
  "parentIndexAtDepth p = IndexAtDepth p div 2"

definition RightOf :: "Position \<Rightarrow> Position \<Rightarrow> bool" where
  "RightOf parent p \<longleftrightarrow> parentIndexAtDepth p \<noteq> IndexAtDepth parent"

definition parent :: "Position \<Rightarrow> Position" where
  "parent p = \<lparr>pos_depth = pos_depth p - 1, pos_indexAtDepth = Some (parentIndexAtDepth p)\<rparr>"

definition Attack :: "Position \<Rightarrow> Position" where
  "Attack p = move False p"

definition Defend :: "Position \<Rightarrow> Position" where
  "Defend p = move False (move True (parent p))"

definition ToGIndex :: "Position \<Rightarrow> int" where
  "ToGIndex p = push_bit (unat (pos_depth p)) 1 OR IndexAtDepth p"

section \<open>Arithmetic\<close>

text \<open>A node of the tree: its index is given, and is one of those at its depth.\<close>

definition node :: "Position \<Rightarrow> bool" where
  "node p \<longleftrightarrow> pos_indexAtDepth p \<noteq> None \<and> 0 \<le> IndexAtDepth p \<and> IndexAtDepth p < 2 ^ unat (pos_depth p)"

lemma or_low:
  assumes "0 \<le> (a :: int)" "a < 2 ^ n"
  shows "push_bit n b OR a = 2 ^ n * b + a"
proof -
  have t: "take_bit n a = a" using assms by (simp add: take_bit_int_eq_self_iff)
  have "push_bit n b OR take_bit n a = push_bit n b + take_bit n a"
    by (subst disjunctive_add) (auto simp: bit_push_bit_iff bit_take_bit_iff)
  then show ?thesis unfolding t by (simp add: push_bit_eq_mult mult.commute)
qed

lemma bigMSB_eq: "2 ^ n \<le> x \<Longrightarrow> x < 2 ^ Suc n \<Longrightarrow> n < 2 ^ 64 \<Longrightarrow> unat (bigMSB x) = n"
proof -
  assume x: "2 ^ n \<le> x" "x < 2 ^ Suc n" and n: "n < 2 ^ 64"
  then have pos: "0 < x" by (metis less_le_trans zero_less_numeral zero_less_power)
  have "nat \<bar>x\<bar> < 2 ^ Suc n" "\<not> nat \<bar>x\<bar> < 2 ^ n"
    using x pos by (simp_all add: nat_less_iff)
  then have "BitLen (nat \<bar>x\<bar>) = Suc n" using BitLen_le [of "nat \<bar>x\<bar>" "Suc n"] BitLen_le [of "nat \<bar>x\<bar>" n] by simp
  then show ?thesis using pos n by (simp add: bigMSB_def unat_of_nat take_bit_nat_eq_self)
qed

lemma unat_depth: "unat (pos_depth p) < 2 ^ 64"
  using unsigned_less [of "pos_depth p"] by simp

lemma ToGIndex_eq: "node p \<Longrightarrow> ToGIndex p = 2 ^ unat (pos_depth p) + IndexAtDepth p"
  using or_low [of "IndexAtDepth p" "unat (pos_depth p)" 1] by (simp add: ToGIndex_def node_def)

lemma gindex_node:
  assumes "node p"
  shows "NewPositionFromGIndex (ToGIndex p) = p"
proof -
  let ?d = "unat (pos_depth p)"
  have x: "ToGIndex p = 2 ^ ?d + IndexAtDepth p" by (rule ToGIndex_eq [OF assms])
  have i: "0 \<le> IndexAtDepth p" "IndexAtDepth p < 2 ^ ?d" using assms by (simp_all add: node_def)
  then have msb: "unat (bigMSB (ToGIndex p)) = ?d"
    using bigMSB_eq [of ?d "ToGIndex p"] unat_depth [of p] unfolding x by simp
  then have "bigMSB (ToGIndex p) = pos_depth p" using word_unat_eq_iff by blast
  moreover have "ToGIndex p AND NOT (push_bit ?d 1) = IndexAtDepth p"
  proof (rule bit_eqI)
    fix n
    have "\<not> bit (IndexAtDepth p) ?d" 
      using i by (metis bit_take_bit_iff order_less_irrefl take_bit_int_eq_self_iff)
    then show "bit (ToGIndex p AND NOT (push_bit ?d 1)) n = bit (IndexAtDepth p) n"
      by (auto simp: ToGIndex_def bit_and_iff bit_or_iff bit_not_iff bit_push_bit_iff bit_exp_iff)
  qed
  moreover have "pos_indexAtDepth p = Some (IndexAtDepth p)"
    using assms by (auto simp: node_def IndexAtDepth_def)
  ultimately show ?thesis by (simp add: NewPositionFromGIndex_def NewPosition_def Let_def)
qed

text \<open>A generalised index names exactly one node: converting a node to its index and back gives the node, its
  index lies between the powers of two of its depth, and so nodes with equal indices are equal.\<close>

theorem gindex_roundtrip:
  assumes "node p"
  shows "NewPositionFromGIndex (ToGIndex p) = p \<and> 2 ^ unat (pos_depth p) \<le> ToGIndex p \<and>
    ToGIndex p < 2 ^ Suc (unat (pos_depth p)) \<and> (\<forall>q. node q \<longrightarrow> ToGIndex q = ToGIndex p \<longrightarrow> q = p)"
  using gindex_node [OF assms] gindex_node ToGIndex_eq [OF assms] assms by (metis add_strict_left_mono mult_2 node_def le_add_same_cancel1 power_Suc)

theorem gindex_roundtrip_witness:
  "NewPositionFromGIndex (ToGIndex \<lparr>pos_depth = 3, pos_indexAtDepth = Some 6\<rparr>) = \<lparr>pos_depth = 3, pos_indexAtDepth = Some 6\<rparr>"
  using gindex_roundtrip [of "\<lparr>pos_depth = 3, pos_indexAtDepth = Some 6\<rparr>"] by (simp add: node_def)

lemma trace_index:
  assumes "pos_depth p \<le> maxDepth"
  shows "TraceIndex maxDepth p = Some ((IndexAtDepth p + 1) * 2 ^ (unat maxDepth - unat (pos_depth p)) - 1)"
proof -
  let ?k = "unat maxDepth - unat (pos_depth p)"
  have k: "unat (maxDepth - pos_depth p) = ?k" using assms by (simp add: unat_sub word_le_nat_alt)
  have "push_bit ?k (IndexAtDepth p) OR (2 ^ ?k - 1) = 2 ^ ?k * IndexAtDepth p + (2 ^ ?k - 1)"
    by (rule or_low) simp_all
  then show ?thesis using assms
    by (simp add: TraceIndex_def lshIndex_def Let_def k push_bit_eq_mult not_less [symmetric] algebra_simps)
qed

lemma Attack_eq: "Attack p = \<lparr>pos_depth = pos_depth p + 1, pos_indexAtDepth = Some (2 * IndexAtDepth p)\<rparr>"
  by (simp add: Attack_def move_def lshIndex_def push_bit_eq_mult)

lemma Defend_eq: "even (IndexAtDepth p) \<Longrightarrow> Defend p = \<lparr>pos_depth = pos_depth p + 1, pos_indexAtDepth = Some (2 * (IndexAtDepth p + 1))\<rparr>"
proof -
  assume "even (IndexAtDepth p)"
  then have i: "2 * (IndexAtDepth p div 2) = IndexAtDepth p" by simp
  have "push_bit 1 (IndexAtDepth p div 2) OR 1 = IndexAtDepth p + 1"
    using or_low [of 1 1 "IndexAtDepth p div 2"] i by simp
  then show ?thesis
    by (simp add: Defend_def move_def parent_def parentIndexAtDepth_def lshIndex_def push_bit_eq_mult mult.commute)
qed

text \<open>The trace index as a function, and what a move does to it.\<close>

definition tidx :: "u64 \<Rightarrow> Position \<Rightarrow> int" where
  "tidx maxDepth p = (IndexAtDepth p + 1) * 2 ^ (unat maxDepth - unat (pos_depth p)) - 1"

lemma TraceIndex_tidx: "pos_depth p \<le> maxDepth \<Longrightarrow> TraceIndex maxDepth p = Some (tidx maxDepth p)"
  by (simp add: trace_index tidx_def)

lemma unat_Suc_depth: "d < (m :: u64) \<Longrightarrow> unat (d + 1) = unat d + 1"
proof -
  assume "d < m"
  moreover have "unat m < 2 ^ 64" using unsigned_less [of m] by simp
  ultimately have "unat d + unat (1 :: u64) < 2 ^ 64" by (simp add: word_less_nat_alt)
  then show ?thesis by (simp add: unat_add_small)
qed

lemma move_depth:
  assumes "pos_depth p < maxDepth"
  shows "unat (pos_depth p + 1) = unat (pos_depth p) + 1" "pos_depth p + 1 \<le> maxDepth"
    "unat maxDepth - unat (pos_depth p) = Suc (unat maxDepth - (unat (pos_depth p) + 1))"
proof -
  show d: "unat (pos_depth p + 1) = unat (pos_depth p) + 1" by (rule unat_Suc_depth [OF assms])
  show "pos_depth p + 1 \<le> maxDepth" using assms by (simp add: word_le_nat_alt word_less_nat_alt d)
  show "unat maxDepth - unat (pos_depth p) = Suc (unat maxDepth - (unat (pos_depth p) + 1))"
    using assms by (simp add: word_less_nat_alt)
qed

lemma tidx_Attack:
  assumes "pos_depth p < maxDepth"
  shows "tidx maxDepth (Attack p) = tidx maxDepth p - 2 ^ (unat maxDepth - (unat (pos_depth p) + 1))"
proof -
  note d = move_depth [OF assms]
  show ?thesis unfolding tidx_def Attack_eq d(3) by (simp add: d(1) ring_distribs)
qed

lemma tidx_Defend:
  assumes "pos_depth p < maxDepth" "even (IndexAtDepth p)"
  shows "tidx maxDepth (Defend p) = tidx maxDepth p + 2 ^ (unat maxDepth - (unat (pos_depth p) + 1))"
proof -
  note d = move_depth [OF assms(1)]
  show ?thesis unfolding tidx_def Defend_eq [OF assms(2)] d(3) by (simp add: d(1) ring_distribs)
qed

lemma node_Attack: "node p \<Longrightarrow> pos_depth p < maxDepth \<Longrightarrow> node (Attack p)"
  by (simp add: node_def Attack_eq move_depth)

lemma node_Defend:
  assumes "node p" "pos_depth p < maxDepth" "even (IndexAtDepth p)" "pos_depth p \<noteq> 0"
  shows "node (Defend p)"
proof -
  have d: "unat (pos_depth p) \<noteq> 0" using assms(4) by (metis unat_eq_zero)
  then have "even ((2 :: int) ^ unat (pos_depth p))" by simp
  then have "IndexAtDepth p + 1 < 2 ^ unat (pos_depth p)"
    using assms(1,3) by (metis even_add node_def odd_one order_less_le add1_zle_eq)
  then show ?thesis using assms by (simp add: node_def Defend_eq move_depth [OF assms(2)])
qed

lemma tidx_bounds:
  assumes "node p" "pos_depth p \<le> maxDepth"
  shows "0 \<le> tidx maxDepth p" "tidx maxDepth p < 2 ^ unat maxDepth"
proof -
  let ?d = "unat (pos_depth p)" let ?k = "unat maxDepth - ?d"
  have m: "2 ^ unat maxDepth = (2 :: int) ^ ?d * 2 ^ ?k"
    using assms(2) by (simp add: word_le_nat_alt flip: power_add)
  have i: "0 \<le> IndexAtDepth p" "IndexAtDepth p + 1 \<le> 2 ^ ?d" using assms(1) by (simp_all add: node_def)
  have "1 * 1 \<le> (IndexAtDepth p + 1) * 2 ^ ?k" by (rule mult_mono) (use i in simp_all)
  then show "0 \<le> tidx maxDepth p" by (simp add: tidx_def)
  have "(IndexAtDepth p + 1) * 2 ^ ?k \<le> 2 ^ ?d * 2 ^ ?k" by (rule mult_right_mono) (use i in simp_all)
  then show "tidx maxDepth p < 2 ^ unat maxDepth" unfolding tidx_def m by linarith
qed

text \<open>A move stays in the tree and on its side. From a node above the maximal depth whose index is even, as
  that of every claim, Attack leads to a node one level down with a smaller trace index, and so
  does Defend, from a node other than the root, to one with a larger trace index, by the same
  distance; TraceIndex does not panic on them, and each index is one of the leaves below the maximal depth.\<close>

theorem moves_stay_in_tree:
  assumes "node p" "even (IndexAtDepth p)" "pos_depth p < maxDepth" "\<not> IsRootPosition p"
  shows "node (Attack p) \<and> node (Defend p) \<and>
    (\<exists>t d. TraceIndex maxDepth p = Some t \<and> TraceIndex maxDepth (Attack p) = Some (t - d) \<and>
       TraceIndex maxDepth (Defend p) = Some (t + d) \<and> d > 0 \<and> 0 \<le> t - d \<and> t + d < 2 ^ unat maxDepth)"
proof -
  have depth: "pos_depth p \<noteq> 0" using assms(1,4) by (auto simp: node_def IsRootPosition_def)
  note nodes = node_Attack [OF assms(1,3)] node_Defend [OF assms(1,3,2) depth]
  have le: "pos_depth p \<le> maxDepth" "pos_depth (Attack p) \<le> maxDepth" "pos_depth (Defend p) \<le> maxDepth"
    using assms(3) move_depth(2) [OF assms(3)] by (simp_all add: Attack_eq Defend_eq assms(2))
  let ?d = "2 ^ (unat maxDepth - (unat (pos_depth p) + 1)) :: int"
  have "0 \<le> tidx maxDepth p - ?d" "tidx maxDepth p + ?d < 2 ^ unat maxDepth"
    using tidx_bounds(1) [OF nodes(1) le(2)] tidx_bounds(2) [OF nodes(2) le(3)]
    unfolding tidx_Attack [OF assms(3)] tidx_Defend [OF assms(3,2)] by simp_all
  moreover have "0 < ?d" by simp
  ultimately show ?thesis using nodes TraceIndex_tidx [OF le(1)] TraceIndex_tidx [OF le(2)] TraceIndex_tidx [OF le(3)]
    unfolding tidx_Attack [OF assms(3)] tidx_Defend [OF assms(3,2)] by blast
qed

theorem moves_stay_in_tree_witness:
  "TraceIndex 4 \<lparr>pos_depth = 2, pos_indexAtDepth = Some 2\<rparr> = Some 11 \<and>
   (\<exists>d. TraceIndex 4 (Attack \<lparr>pos_depth = 2, pos_indexAtDepth = Some 2\<rparr>) = Some (11 - d) \<and> d > 0)"
proof -
  have "TraceIndex 4 \<lparr>pos_depth = 2, pos_indexAtDepth = Some 2\<rparr> = Some 11" by (simp add: trace_index)
  then show ?thesis
    using moves_stay_in_tree [of "\<lparr>pos_depth = 2, pos_indexAtDepth = Some 2\<rparr>" 4] by (auto simp: node_def IsRootPosition_def)
qed

section \<open>Subtrees\<close>

lemma nodesAtDepth:
  assumes "n < 64"
  shows "\<bar>sint (push_bit n (1 :: i64))\<bar> = 2 ^ n" "push_bit n (1 :: i64) \<noteq> 0"
proof -
  have u: "uint (push_bit n (1 :: i64)) = 2 ^ n" 
    unfolding unsigned_push_bit_eq using assms by (simp add: take_bit_int_eq_self)
  have "(2 :: int) ^ n \<noteq> 0" by simp
  then show "push_bit n (1 :: i64) \<noteq> 0" using u by (metis unsigned_0)
  have s: "sint (push_bit n (1 :: i64)) = signed_take_bit 63 (2 ^ n)" unfolding sint_uint u by simp
  show "\<bar>sint (push_bit n (1 :: i64))\<bar> = 2 ^ n"
  proof (cases "n = 63")
    case False
    then have "n < 63" using assms by simp
    then have "(2 :: int) ^ n < 2 ^ 63" by (rule power_strict_increasing) simp
    moreover have "- (2 ^ 63) \<le> (2 :: int) ^ n" by (rule order_trans [of _ 0]) simp_all
    ultimately have "signed_take_bit 63 ((2 :: int) ^ n) = 2 ^ n" by (simp only: signed_take_bit_int_eq_self)
    then show ?thesis unfolding s by simp
  qed simp
qed

lemma subtree_mod:
  fixes i :: int
  assumes "0 \<le> i"
  shows "((i + 1) * 2 ^ r - 1) mod 2 ^ (k + r) = (i mod 2 ^ k + 1) * 2 ^ r - 1"
proof -
  let ?f = "i mod 2 ^ k"
  have split: "(e * d + f + 1) * c - 1 = (f + 1) * c - 1 + d * c * e" for c d e f :: int
    by (simp add: algebra_simps)
  have "(i + 1) * 2 ^ r - 1 = ((?f + 1) * 2 ^ r - 1) + 2 ^ (k + r) * (i div 2 ^ k)"
    using split [of "i div 2 ^ k" "2 ^ k" ?f "2 ^ r"] unfolding div_mult_mod_eq power_add .
  moreover have "0 \<le> (?f + 1) * 2 ^ r - 1"
  proof -
    have "1 * 1 \<le> (?f + 1) * (2 ^ r :: int)" by (rule mult_mono) simp_all
    then show ?thesis by simp
  qed
  moreover have "(?f + 1) * 2 ^ r - 1 < 2 ^ (k + r)"
  proof -
    have "?f + 1 \<le> 2 ^ k" using pos_mod_bound [of "2 ^ k" i] by (simp add: add1_zle_eq)
    then have "(?f + 1) * 2 ^ r \<le> 2 ^ k * (2 ^ r :: int)" by (rule mult_right_mono) simp
    then show ?thesis unfolding power_add by (rule order.strict_trans2 [rotated]) simp
  qed
  ultimately show ?thesis by (metis mod_mult_self2 mod_pos_pos_trivial)
qed

text \<open>The position relative to an ancestor is a node of the subtree, its trace index within the subtree is the
  remainder of the trace index in the tree. The subtree may be at most 63 levels deep: with 64 and
  more the number of its nodes is shifted out of the machine integer, and the remainder panics.\<close>

theorem relative_position:
  assumes "node p" "ancestor \<le> pos_depth p" "pos_depth p \<le> maxDepth"
  shows "if unat (pos_depth p) - unat ancestor < 64
    then \<exists>q. RelativeToAncestorAtDepth ancestor p = Some (Inr q) \<and> node q \<and> pos_depth q = pos_depth p - ancestor \<and>
      (\<exists>t. TraceIndex maxDepth p = Some t \<and> TraceIndex (maxDepth - ancestor) q = Some (t mod 2 ^ (unat maxDepth - unat ancestor)))
    else RelativeToAncestorAtDepth ancestor p = None"
proof -
  let ?k = "unat (pos_depth p) - unat ancestor" let ?r = "unat maxDepth - unat (pos_depth p)"
  have k: "unat (pos_depth p - ancestor) = ?k" using assms(2) by (simp add: unat_sub word_le_nat_alt)
  have not_less: "\<not> ancestor > pos_depth p" using assms(2) by simp
  show ?thesis
  proof (cases "?k < 64")
    case False
    then have "push_bit ?k (1 :: i64) = 0" by (simp add: push_bit_word_beyond)
    then show ?thesis using False not_less by (simp add: RelativeToAncestorAtDepth_def Let_def k)
  next
    case True
    let ?q = "\<lparr>pos_depth = pos_depth p - ancestor, pos_indexAtDepth = Some (IndexAtDepth p mod 2 ^ ?k)\<rparr>"
    have rel: "RelativeToAncestorAtDepth ancestor p = Some (Inr ?q)"
      using not_less nodesAtDepth [OF True] by (simp add: RelativeToAncestorAtDepth_def Let_def k NewPosition_def)
    have m: "unat (maxDepth - ancestor) = unat maxDepth - unat ancestor"
      using assms(2,3) by (simp add: unat_sub word_le_nat_alt)
    have parts: "unat maxDepth - unat ancestor = ?k + ?r" "unat maxDepth - unat ancestor - ?k = ?r"
      using assms(2,3) by (simp_all add: word_le_nat_alt)
    have le: "pos_depth ?q \<le> maxDepth - ancestor" using parts(1) by (simp add: word_le_nat_alt m k)
    have "tidx (maxDepth - ancestor) ?q = tidx maxDepth p mod 2 ^ (unat maxDepth - unat ancestor)"
      using subtree_mod [of "IndexAtDepth p" ?r ?k] assms(1) by (simp add: tidx_def m k parts node_def)
    moreover have "node ?q" by (simp add: node_def k)
    ultimately show ?thesis using True rel TraceIndex_tidx [OF le] TraceIndex_tidx [OF assms(3)] by simp
  qed
qed

theorem relative_position_witness:
  "RelativeToAncestorAtDepth 2 \<lparr>pos_depth = 4, pos_indexAtDepth = Some 6\<rparr> = Some (Inr \<lparr>pos_depth = 2, pos_indexAtDepth = Some 2\<rparr>) \<and>
   RelativeToAncestorAtDepth 0 \<lparr>pos_depth = 64, pos_indexAtDepth = Some 6\<rparr> = None"
proof -
  have "RelativeToAncestorAtDepth 0 \<lparr>pos_depth = 64, pos_indexAtDepth = Some 6\<rparr> = None"
    using relative_position [of "\<lparr>pos_depth = 64, pos_indexAtDepth = Some 6\<rparr>" 0 64] by (simp add: node_def)
  then show ?thesis by (simp add: RelativeToAncestorAtDepth_def NewPosition_def nodesAtDepth(1) [of 2, simplified])
qed

section \<open>Boundaries\<close>

text \<open>The trace indices just left and just right of the subtrees a claim and its right sibling span: a move
  to the left replaces the right one by the trace index of the position, a move to the right the left one.\<close>

definition lower :: "u64 \<Rightarrow> Position \<Rightarrow> int" where
  "lower maxDepth p = IndexAtDepth p * 2 ^ (unat maxDepth - unat (pos_depth p)) - 1"

definition upper :: "u64 \<Rightarrow> Position \<Rightarrow> int" where
  "upper maxDepth p = (IndexAtDepth p + 2) * 2 ^ (unat maxDepth - unat (pos_depth p)) - 1"

lemma tidx_between: "lower maxDepth p < tidx maxDepth p" "tidx maxDepth p < upper maxDepth p"
  by (simp_all add: lower_def upper_def tidx_def ring_distribs)

lemma bounds_Attack:
  assumes "pos_depth p < maxDepth"
  shows "lower maxDepth (Attack p) = lower maxDepth p" "upper maxDepth (Attack p) = tidx maxDepth p"
proof -
  note d = move_depth [OF assms]
  show "lower maxDepth (Attack p) = lower maxDepth p" "upper maxDepth (Attack p) = tidx maxDepth p"
    unfolding lower_def upper_def tidx_def Attack_eq d(3) by (simp_all add: d(1) ring_distribs)
qed

lemma bounds_Defend:
  assumes "pos_depth p < maxDepth" "even (IndexAtDepth p)"
  shows "lower maxDepth (Defend p) = tidx maxDepth p" "upper maxDepth (Defend p) = upper maxDepth p"
proof -
  note d = move_depth [OF assms(1)]
  show "lower maxDepth (Defend p) = tidx maxDepth p" "upper maxDepth (Defend p) = upper maxDepth p"
    unfolding lower_def upper_def tidx_def Defend_eq [OF assms(2)] d(3) by (simp_all add: d(1) ring_distribs)
qed

text \<open>A leaf is between its neighbours.\<close>

lemma bounds_leaf:
  assumes "pos_depth p = maxDepth"
  shows "lower maxDepth p = tidx maxDepth p - 1" "upper maxDepth p = tidx maxDepth p + 1"
  by (simp_all add: lower_def upper_def tidx_def assms)

lemma tidx_MoveRight: "pos_depth p = maxDepth \<Longrightarrow> tidx maxDepth (MoveRight p) = tidx maxDepth p + 1"
  by (simp add: tidx_def MoveRight_def)

lemma even_Attack: "even (IndexAtDepth (Attack p))"
  by (simp add: Attack_eq)

lemma even_Defend: "even (IndexAtDepth p) \<Longrightarrow> even (IndexAtDepth (Defend p))"
  by (simp add: Defend_eq)

lemma Attack_not_Defend: "even (IndexAtDepth p) \<Longrightarrow> Attack p \<noteq> Defend p"
  by (simp add: Attack_eq Defend_eq)

lemma RightOf_moves:
  "\<not> RightOf p (Attack p)" "even (IndexAtDepth p) \<Longrightarrow> RightOf p (Defend p)"
  by (simp_all add: RightOf_def parentIndexAtDepth_def Attack_eq Defend_eq)

lemma depth_moves:
  "pos_depth (Attack p) = pos_depth p + 1" "pos_depth (Defend p) = pos_depth p + 1"
  by (simp_all add: Attack_def Defend_def move_def parent_def)

end
