(* ===== verification/FaultGame.thy ===== *)
theory FaultGame
  imports FaultPosition L1Info
begin

text \<open>
  The claims and the state of a dispute game, op-challenger/game/fault/types (types.go, actions.go,
  game.go). A claim names its parent by the index in the contract; the root claim has none. Pointers of
  the zero claim are nil. Times are nanoseconds since the zero time, durations machine integers; the
  data of an L2 block number challenge is a type parameter.
\<close>

section \<open>Claims (types.go)\<close>

definition ErrGameDepthReached :: gerr where "ErrGameDepthReached = Msg ''game depth reached''"

definition ErrL2BlockNumberValid :: gerr where "ErrL2BlockNumberValid = Msg ''l2 block number is valid''"

record PreimageOracleData =
  pd_IsLocal :: bool
  pd_OracleKey :: bytes
  pd_oracleData :: bytes
  pd_OracleOffset :: u32
  pd_BlobFieldIndex :: u64
  pd_BlobCommitment :: bytes
  pd_BlobProof :: bytes

definition LocalKeyType :: byte where "LocalKeyType = 1"

definition NewPreimageOracleData :: "bytes \<Rightarrow> bytes \<Rightarrow> u32 \<Rightarrow> PreimageOracleData" where
  "NewPreimageOracleData key data offset =
     \<lparr>pd_IsLocal = (key \<noteq> [] \<and> hd key = LocalKeyType), pd_OracleKey = key, pd_oracleData = data, pd_OracleOffset = offset,
      pd_BlobFieldIndex = 0, pd_BlobCommitment = [], pd_BlobProof = []\<rparr>"

definition NewPreimageOracleBlobData ::
  "bytes \<Rightarrow> bytes \<Rightarrow> u32 \<Rightarrow> u64 \<Rightarrow> bytes \<Rightarrow> bytes \<Rightarrow> PreimageOracleData" where
  "NewPreimageOracleBlobData key data offset fieldIndex commitment prf =
     \<lparr>pd_IsLocal = False, pd_OracleKey = key, pd_oracleData = data, pd_OracleOffset = offset,
      pd_BlobFieldIndex = fieldIndex, pd_BlobCommitment = commitment, pd_BlobProof = prf\<rparr>"

definition GetIdent :: "PreimageOracleData \<Rightarrow> nat go" where
  "GetIdent p = (if pd_OracleKey p = [] then None else Some (be_to_nat (drop 1 (pd_OracleKey p))))"

definition GetPreimageWithoutSize :: "PreimageOracleData \<Rightarrow> bytes go" where
  "GetPreimageWithoutSize p = (if length (pd_oracleData p) < 8 then None else Some (drop 8 (pd_oracleData p)))"

definition GetPreimageWithSize :: "PreimageOracleData \<Rightarrow> bytes" where
  "GetPreimageWithSize p = pd_oracleData p"

definition GetPrecompileInput :: "PreimageOracleData \<Rightarrow> bytes go" where
  "GetPrecompileInput p = (if length (pd_oracleData p) < 28 then None else Some (drop 28 (pd_oracleData p)))"

record Clock =
  clk_Duration :: i64
  clk_Timestamp :: int

definition NewClock :: "i64 \<Rightarrow> int \<Rightarrow> Clock" where
  "NewClock d timestamp = \<lparr>clk_Duration = d, clk_Timestamp = timestamp\<rparr>"

record ClaimData =
  cl_Value :: Hash
  cl_Bond :: "int option"
  cl_Position :: Position

record Claim = ClaimData +
  cl_CounteredBy :: Address
  cl_Claimant :: Address
  cl_Clock :: Clock
  cl_ContractIndex :: int
  cl_ParentContractIndex :: int

definition zero_Claim :: Claim where
  "zero_Claim =
     \<lparr>cl_Value = 0, cl_Bond = None, cl_Position = \<lparr>pos_depth = 0, pos_indexAtDepth = None\<rparr>, cl_CounteredBy = 0,
      cl_Claimant = 0, cl_Clock = \<lparr>clk_Duration = 0, clk_Timestamp = 0\<rparr>, cl_ContractIndex = 0,
      cl_ParentContractIndex = 0\<rparr>"

text \<open>\<open>big.Int.Bytes\<close>: the absolute value, most significant byte first, without leading zeros.\<close>

definition big_Bytes :: "int \<Rightarrow> bytes" where
  "big_Bytes x = nat_to_be ((BitLen (nat \<bar>x\<bar>) + 7) div 8) (nat \<bar>x\<bar>)"

definition ID_preimage :: "Claim \<Rightarrow> bytes" where
  "ID_preimage c =
     big_Bytes (ToGIndex (cl_Position c)) @ be_put 32 (cl_Value c) @ big_Bytes (cl_ParentContractIndex c)"

definition Claim_ID :: "keccak \<Rightarrow> Claim \<Rightarrow> Hash" where
  "Claim_ID keccak256 c = keccak256 (ID_preimage c)"

definition IsRoot :: "Claim \<Rightarrow> bool" where
  "IsRoot c = IsRootPosition (cl_Position c)"

section \<open>Actions (actions.go)\<close>

datatype ActionType = ActionTypeMove | ActionTypeStep | ActionTypeChallengeL2BlockNumber

record 'c Action =
  act_Type :: ActionType
  act_ParentClaim :: Claim
  act_IsAttack :: bool
  act_Value :: Hash
  act_PreState :: bytes
  act_ProofData :: bytes
  act_OracleData :: "PreimageOracleData option"
  act_Challenge :: "'c option"

section \<open>The game (game.go)\<close>

definition ErrClaimNotFound :: gerr where
  "ErrClaimNotFound = Msg ''claim not found in game state''"

record gameState =
  gs_claims :: "Claim list"
  gs_claimIDs :: "Hash \<Rightarrow> bool"
  gs_depth :: u64

definition NewGameState :: "keccak \<Rightarrow> Claim list \<Rightarrow> u64 \<Rightarrow> gameState" where
  "NewGameState keccak256 claims depth =
     (let claimIDs = foldl (\<lambda>m claim. m(Claim_ID keccak256 claim := True)) (\<lambda>_. False) claims
      in \<lparr>gs_claims = claims, gs_claimIDs = claimIDs, gs_depth = depth\<rparr>)"

definition AgreeWithClaimLevel :: "Claim \<Rightarrow> bool \<Rightarrow> bool" where
  "AgreeWithClaimLevel claim agreeWithRootClaim =
     (let isOddLevel = pos_depth (cl_Position claim) mod 2 = 1 in
      if agreeWithRootClaim then \<not> isOddLevel else isOddLevel)"

definition IsDuplicate :: "keccak \<Rightarrow> gameState \<Rightarrow> Claim \<Rightarrow> bool" where
  "IsDuplicate keccak256 g claim = gs_claimIDs g (Claim_ID keccak256 claim)"

definition getParent :: "gameState \<Rightarrow> Claim \<Rightarrow> Claim option" where
  "getParent g claim =
     (if IsRoot claim then None
      else if int (length (gs_claims g)) \<le> cl_ParentContractIndex claim \<or> cl_ParentContractIndex claim < 0 then None
      else Some (gs_claims g ! nat (cl_ParentContractIndex claim)))"

definition GetParent :: "gameState \<Rightarrow> Claim \<Rightarrow> Claim res" where
  "GetParent g claim = (case getParent g claim of None \<Rightarrow> Inl ErrClaimNotFound | Some p \<Rightarrow> Inr p)"

definition DefendsParent :: "gameState \<Rightarrow> Claim \<Rightarrow> bool" where
  "DefendsParent g claim =
     (case getParent g claim of None \<Rightarrow> False | Some p \<Rightarrow> RightOf (cl_Position p) (cl_Position claim))"

text \<open>\<open>Time.Sub\<close> saturates; the sum of two durations wraps.\<close>

definition Time_Sub :: "int \<Rightarrow> int \<Rightarrow> i64" where
  "Time_Sub t u = word_of_int (max (- (2 ^ 63)) (min (2 ^ 63 - 1) (t - u)))"

definition ChessClock :: "int \<Rightarrow> Claim \<Rightarrow> Claim \<Rightarrow> i64" where
  "ChessClock now claim parentClaim =
     (let duration = Time_Sub now (clk_Timestamp (cl_Clock claim)) in
      if parentClaim \<noteq> zero_Claim then clk_Duration (cl_Clock parentClaim) + duration else duration)"

definition Game_ChessClock :: "gameState \<Rightarrow> int \<Rightarrow> Claim \<Rightarrow> i64" where
  "Game_ChessClock g now claim =
     ChessClock now claim (case getParent g claim of None \<Rightarrow> zero_Claim | Some p \<Rightarrow> p)"

text \<open>The walk up to an ancestor: outer None when it never ends, inner None when \<open>TraceIndex\<close> panics.\<close>

partial_function (option) AncestorWithTraceIndex :: "gameState \<Rightarrow> Claim \<Rightarrow> int \<Rightarrow> (Claim \<times> bool) go option" where
  "AncestorWithTraceIndex g claim idx =
     (case TraceIndex (gs_depth g) (cl_Position claim) of
        None \<Rightarrow> Some None
      | Some t \<Rightarrow>
          if t = idx then Some (Some (claim, True))
          else if IsRoot claim then Some (Some (zero_Claim, False))
          else
            (case getParent g claim of
               None \<Rightarrow> Some (Some (zero_Claim, False))
             | Some p \<Rightarrow> AncestorWithTraceIndex g p idx))"

section \<open>Games of the contract\<close>

text \<open>The claims as the contract stores them: the root claim first, each other claim an attack or, unless
  of the root, a defense of an earlier claim above the maximal depth.\<close>

abbreviation claim_at :: "gameState \<Rightarrow> nat \<Rightarrow> Claim" where
  "claim_at g i \<equiv> gs_claims g ! i"

definition par :: "gameState \<Rightarrow> nat \<Rightarrow> nat" where
  "par g i = nat (cl_ParentContractIndex (claim_at g i))"

abbreviation posn :: "gameState \<Rightarrow> nat \<Rightarrow> Position" where
  "posn g i \<equiv> cl_Position (claim_at g i)"

definition wf_game :: "gameState \<Rightarrow> bool" where
  "wf_game g \<longleftrightarrow> gs_claims g \<noteq> [] \<and> posn g 0 = RootPosition \<and>
     (\<forall>i < length (gs_claims g). cl_ContractIndex (claim_at g i) = int i \<and>
        (0 < i \<longrightarrow> 0 \<le> cl_ParentContractIndex (claim_at g i) \<and> par g i < i \<and>
           pos_depth (posn g (par g i)) < gs_depth g \<and>
           (posn g i = Attack (posn g (par g i)) \<or> par g i \<noteq> 0 \<and> posn g i = Defend (posn g (par g i)))))"

lemma RootPosition_eq: "RootPosition = \<lparr>pos_depth = 0, pos_indexAtDepth = Some 0\<rparr>"
proof -
  have "bigMSB 1 = 0" by (simp add: bigMSB_def BitLen.simps)
  then show ?thesis by (simp add: RootPosition_def NewPositionFromGIndex_def NewPosition_def)
qed

lemma wf_root:
  assumes "wf_game g"
  shows "0 < length (gs_claims g)" "posn g 0 = RootPosition" "IsRoot (claim_at g 0)" "getParent g (claim_at g 0) = None"
proof -
  show root: "posn g 0 = RootPosition" and "0 < length (gs_claims g)" using assms by (auto simp: wf_game_def)
  show "IsRoot (claim_at g 0)" unfolding IsRoot_def root RootPosition_eq by (simp add: IsRootPosition_def)
  then show "getParent g (claim_at g 0) = None" by (simp add: getParent_def)
qed

lemma wf_index: "wf_game g \<Longrightarrow> i < length (gs_claims g) \<Longrightarrow> cl_ContractIndex (claim_at g i) = int i"
  by (simp add: wf_game_def)

lemma wf_par:
  assumes "wf_game g" "i < length (gs_claims g)" "0 < i"
  shows "par g i < i" "par g i < length (gs_claims g)" "cl_ParentContractIndex (claim_at g i) = int (par g i)"
    "pos_depth (posn g (par g i)) < gs_depth g"
    "posn g i = Attack (posn g (par g i)) \<or> par g i \<noteq> 0 \<and> posn g i = Defend (posn g (par g i))"
  using assms by (auto simp: wf_game_def par_def)

text \<open>The positions of the claims.\<close>

lemma wf_posn:
  assumes "wf_game g" "i < length (gs_claims g)"
  shows "node (posn g i) \<and> even (IndexAtDepth (posn g i)) \<and> pos_depth (posn g i) \<le> gs_depth g \<and>
    (0 < i \<longrightarrow> pos_depth (posn g i) \<noteq> 0)"
  using assms(2)
proof (induction i rule: less_induct)
  case (less i)
  show ?case
  proof (cases "i = 0")
    case True
    then show ?thesis using wf_root(2) [OF assms(1)] by (simp add: RootPosition_eq node_def)
  next
    case False
    then have i: "0 < i" by simp
    note par = wf_par [OF assms(1) less.prems i]
    let ?p = "posn g (par g i)"
    have IH: "node ?p" "even (IndexAtDepth ?p)" "0 < par g i \<longrightarrow> pos_depth ?p \<noteq> 0"
      using less.IH [OF par(1,2)] by simp_all
    note depth = move_depth(1,2) [OF par(4)]
    have nz: "pos_depth ?p + 1 \<noteq> 0" using depth(1) by (metis Suc_eq_plus1 nat.distinct(1) unsigned_0)
    from par(5) show ?thesis
    proof
      assume "posn g i = Attack ?p"
      then show ?thesis using node_Attack [OF IH(1) par(4)] even_Attack depth(2) nz by (simp add: depth_moves)
    next
      assume d: "par g i \<noteq> 0 \<and> posn g i = Defend ?p"
      then show ?thesis using node_Defend [OF IH(1) par(4) IH(2)] even_Defend [OF IH(2)] IH(3) depth(2) nz
        by (simp add: depth_moves)
    qed
  qed
qed

lemmas wf_node = wf_posn [THEN conjunct1]
lemmas wf_even = wf_posn [THEN conjunct2, THEN conjunct1]
lemmas wf_depth = wf_posn [THEN conjunct2, THEN conjunct2, THEN conjunct1]
lemmas wf_nonroot = wf_posn [THEN conjunct2, THEN conjunct2, THEN conjunct2, rule_format]

lemma wf_IsRoot: "wf_game g \<Longrightarrow> i < length (gs_claims g) \<Longrightarrow> IsRoot (claim_at g i) \<longleftrightarrow> i = 0"
  using wf_nonroot wf_root(3) by (auto simp: IsRoot_def IsRootPosition_def)

lemma wf_getParent:
  assumes "wf_game g" "i < length (gs_claims g)" "0 < i"
  shows "getParent g (claim_at g i) = Some (claim_at g (par g i))"
  using wf_par [OF assms] wf_IsRoot [OF assms(1,2)] assms(3) by (simp add: getParent_def)

text \<open>The trace index of a claim.\<close>

abbreviation tix :: "gameState \<Rightarrow> nat \<Rightarrow> int" where
  "tix g i \<equiv> tidx (gs_depth g) (posn g i)"

lemma wf_TraceIndex:
  "wf_game g \<Longrightarrow> i < length (gs_claims g) \<Longrightarrow> TraceIndex (gs_depth g) (posn g i) = Some (tix g i)"
  by (simp add: TraceIndex_tidx wf_depth)

section \<open>Ancestors\<close>

text \<open>The indices of a claim's proper ancestors, nearest first.\<close>

function ancestors :: "gameState \<Rightarrow> nat \<Rightarrow> nat list" where
  "ancestors g i = (if par g i < i then par g i # ancestors g (par g i) else [])"
  by pat_completeness auto
termination by (relation "measure snd") auto

declare ancestors.simps [simp del]

lemma ancestors_root: "ancestors g 0 = []"
  by (simp add: ancestors.simps)

lemma ancestors_step:
  "wf_game g \<Longrightarrow> i < length (gs_claims g) \<Longrightarrow> 0 < i \<Longrightarrow> ancestors g i = par g i # ancestors g (par g i)"
  using wf_par(1) by (subst ancestors.simps) simp

text \<open>Induction along the path from the root.\<close>

lemma path_induct [consumes 2, case_names root child]:
  assumes "wf_game g" "i < length (gs_claims g)"
    and root: "P 0"
    and child: "\<And>i. i < length (gs_claims g) \<Longrightarrow> 0 < i \<Longrightarrow> P (par g i) \<Longrightarrow> P i"
  shows "P i"
  using assms(2)
proof (induction i rule: less_induct)
  case (less i)
  show ?case
  proof (cases "i = 0")
    case False
    then show ?thesis using child less wf_par(1,2) [OF assms(1)] by simp
  qed (simp add: root)
qed

text \<open>An ancestor lies outside of the boundaries of a claim's subtree.\<close>

abbreviation low :: "gameState \<Rightarrow> nat \<Rightarrow> int" where "low g i \<equiv> lower (gs_depth g) (posn g i)"
abbreviation upp :: "gameState \<Rightarrow> nat \<Rightarrow> int" where "upp g i \<equiv> upper (gs_depth g) (posn g i)"

lemma child_bounds:
  assumes "wf_game g" "i < length (gs_claims g)" "0 < i"
  shows "posn g i = Attack (posn g (par g i)) \<and> low g i = low g (par g i) \<and> upp g i = tix g (par g i) \<or>
    par g i \<noteq> 0 \<and> posn g i = Defend (posn g (par g i)) \<and> low g i = tix g (par g i) \<and> upp g i = upp g (par g i)"
  using wf_par [OF assms] wf_even [OF assms(1) wf_par(2) [OF assms]] bounds_Attack bounds_Defend by metis

lemma ancestors_outside:
  assumes "wf_game g" "i < length (gs_claims g)"
  shows "\<forall>j \<in> set (ancestors g i). tix g j \<le> low g i \<or> upp g i \<le> tix g j"
  using assms
proof (induction rule: path_induct)
  case (child i)
  note b = child_bounds [OF assms(1) child(1,2)] tidx_between [of "gs_depth g" "posn g (par g i)"]
  show ?case
  proof
    fix j assume "j \<in> set (ancestors g i)"
    then have "j = par g i \<or> j \<in> set (ancestors g (par g i))"
      by (simp add: ancestors_step [OF assms(1) child(1,2)])
    then show "tix g j \<le> low g i \<or> upp g i \<le> tix g j" using child(3) b by fastforce
  qed
qed (simp add: ancestors_root)

text \<open>The boundaries are trace indices of ancestors, but for that before the first leaf and those of the root.\<close>

lemma low_ancestor:
  assumes "wf_game g" "i < length (gs_claims g)"
  shows "low g i = -1 \<or> (\<exists>j \<in> set (ancestors g i). tix g j = low g i)"
  using assms
proof (induction rule: path_induct)
  case root
  show ?case using wf_root(2) [OF assms(1)] by (simp add: lower_def RootPosition_eq)
next
  case (child i)
  then show ?case using child_bounds [OF assms(1) child(1,2)]
    by (auto simp: ancestors_step [OF assms(1) child(1,2)])
qed

lemma ancestors_less:
  assumes "wf_game g" "i < length (gs_claims g)"
  shows "\<forall>j \<in> set (ancestors g i). j < i"
  using assms
proof (induction rule: path_induct)
  case (child i)
  then show ?case using wf_par(1) [OF assms(1) child(1,2)]
    by (auto simp: ancestors_step [OF assms(1) child(1,2)])
qed (simp add: ancestors_root)

lemma ancestors_in: "wf_game g \<Longrightarrow> i < length (gs_claims g) \<Longrightarrow> j \<in> set (ancestors g i) \<Longrightarrow> j < length (gs_claims g)"
  using ancestors_less by fastforce

section \<open>The walk\<close>

definition walk_result :: "gameState \<Rightarrow> nat list \<Rightarrow> int \<Rightarrow> Claim \<times> bool" where
  "walk_result g js idx =
     (case find (\<lambda>j. tix g j = idx) js of None \<Rightarrow> (zero_Claim, False) | Some j \<Rightarrow> (claim_at g j, True))"

lemma AncestorWithTraceIndex_spec:
  assumes "wf_game g" "i < length (gs_claims g)"
  shows "AncestorWithTraceIndex g (claim_at g i) idx = Some (Some (walk_result g (i # ancestors g i) idx))"
  using assms
proof (induction rule: path_induct)
  case root
  show ?case using wf_TraceIndex [OF assms(1) wf_root(1) [OF assms(1)]] wf_root(3) [OF assms(1)]
    by (simp add: AncestorWithTraceIndex.simps [of g "claim_at g 0"] walk_result_def ancestors_root)
next
  case (child i)
  then show ?case using wf_TraceIndex [OF assms(1) child(1)] wf_getParent [OF assms(1) child(1,2)]
      wf_IsRoot [OF assms(1) child(1)]
    by (simp add: AncestorWithTraceIndex.simps [of g "claim_at g i"] walk_result_def
        ancestors_step [OF assms(1) child(1,2)])
qed


lemma AncestorWithTraceIndex_unique:
  assumes "wf_game g" "i < length (gs_claims g)"
  shows "\<forall>j \<in> set (ancestors g i). tix g j \<noteq> tix g i"
  using ancestors_outside [OF assms] tidx_between [of "gs_depth g" "posn g i"] by fastforce

lemma walk_result_cases:
  obtains (found) j where "j \<in> set js" "tix g j = idx" "walk_result g js idx = (claim_at g j, True)"
  | (missing) "\<forall>j \<in> set js. tix g j \<noteq> idx" "walk_result g js idx = (zero_Claim, False)"
proof -
  have "(\<exists>j \<in> set js. tix g j = idx \<and> walk_result g js idx = (claim_at g j, True)) \<or>
    (\<forall>j \<in> set js. tix g j \<noteq> idx) \<and> walk_result g js idx = (zero_Claim, False)"
    by (induction js) (auto simp: walk_result_def)
  then show ?thesis using found missing by blast
qed

text \<open>The walk to an ancestor ends. In a game as the contract stores it, AncestorWithTraceIndex neither loops
  nor panics; it finds a claim exactly when the claim or an ancestor of it has the trace index, and
  then it returns that one.\<close>

theorem AncestorWithTraceIndex_terminates:
  assumes "wf_game g" "i < length (gs_claims g)"
  shows "\<exists>c found. AncestorWithTraceIndex g (claim_at g i) idx = Some (Some (c, found)) \<and>
    (found \<longleftrightarrow> (\<exists>j \<in> set (i # ancestors g i). tix g j = idx)) \<and>
    (found \<longrightarrow> (\<exists>j \<in> set (i # ancestors g i). c = claim_at g j \<and> tix g j = idx)) \<and> (\<not> found \<longrightarrow> c = zero_Claim)"
  unfolding AncestorWithTraceIndex_spec [OF assms]
  by (rule walk_result_cases [of "i # ancestors g i" g idx]) auto

section \<open>Identifiers\<close>

lemma be_to_nat_big_Bytes: "be_to_nat (big_Bytes x) = nat \<bar>x\<bar>"
proof -
  let ?n = "nat \<bar>x\<bar>" let ?b = "BitLen (nat \<bar>x\<bar>)"
  have "?n < 2 ^ ?b" using BitLen_le [of ?n ?b] by simp
  also have "(2 :: nat) ^ ?b \<le> 2 ^ (8 * ((?b + 7) div 8))" by (rule power_increasing) simp_all
  also have "(2 :: nat) ^ (8 * ((?b + 7) div 8)) = 256 ^ ((?b + 7) div 8)" by (simp add: power_mult)
  finally show ?thesis by (simp add: big_Bytes_def)
qed

lemma siblings_preimage:
  assumes "node (cl_Position a)" "node (cl_Position b)" "cl_ParentContractIndex a = cl_ParentContractIndex b"
    "ID_preimage a = ID_preimage b"
  shows "cl_Position a = cl_Position b \<and> cl_Value a = cl_Value b"
proof -
  let ?x = "ToGIndex (cl_Position a)" let ?y = "ToGIndex (cl_Position b)"
  have "big_Bytes ?x @ be_put 32 (cl_Value a) = big_Bytes ?y @ be_put 32 (cl_Value b)"
    using assms(3,4) by (simp add: ID_preimage_def)
  then have x: "big_Bytes ?x = big_Bytes ?y" and v: "be_put 32 (cl_Value a) = be_put 32 (cl_Value b)"
    by (simp_all add: append_eq_append_conv)
  have pos: "0 \<le> ToGIndex p" if "node p" for p
    using that by (simp add: ToGIndex_eq node_def)
  have "\<bar>?x\<bar> = \<bar>?y\<bar>" using x be_to_nat_big_Bytes [of ?x] be_to_nat_big_Bytes [of ?y] by simp
  then have "?x = ?y" using pos [OF assms(1)] pos [OF assms(2)] by simp
  then have "cl_Position a = cl_Position b" using gindex_node [OF assms(1)] gindex_node [OF assms(2)] by metis
  moreover have "cl_Value a = cl_Value b" by (rule be_put_inj [OF _ v]) simp
  ultimately show ?thesis by simp
qed

lemma IsDuplicate_NewGameState:
  "IsDuplicate keccak256 (NewGameState keccak256 claims depth) c \<longleftrightarrow>
    (\<exists>c' \<in> set claims. Claim_ID keccak256 c' = Claim_ID keccak256 c)"
proof -
  have "foldl (\<lambda>m claim. m(Claim_ID keccak256 claim := True)) m claims i \<longleftrightarrow> m i \<or> i \<in> Claim_ID keccak256 ` set claims" for m i
    by (induction claims arbitrary: m) auto
  note fold = this [of "\<lambda>_. False"]
  show ?thesis unfolding IsDuplicate_def NewGameState_def Let_def gameState.simps fold by (simp add: image_iff eq_commute)
qed

text \<open>A game in which the identifier of a claim clashes with that of a move that has not been made: a chain of
  ten attacks, then attacks of the root, the last of them with index 265 = 256 + 9. The attack on that one
  is at depth 2 and has the generalised index 4; the last claim of the chain is at depth 10, has the
  generalised index 1024 = 4 * 256, and its parent is the claim of index 9.\<close>

definition clash_claim :: "nat \<Rightarrow> nat \<Rightarrow> Claim" where
  "clash_claim u i = zero_Claim\<lparr>cl_Value := (if i = 10 then be_get (nat_to_be 31 u @ [1]) else of_nat i),
     cl_Position := \<lparr>pos_depth = (if i \<le> 10 then of_nat i else 1), pos_indexAtDepth = Some 0\<rparr>,
     cl_ContractIndex := int i, cl_ParentContractIndex := (if 0 < i \<and> i \<le> 10 then int i - 1 else 0)\<rparr>"

definition clash_game :: "keccak \<Rightarrow> nat \<Rightarrow> gameState" where
  "clash_game keccak256 u = NewGameState keccak256 (map (clash_claim u) [0..<266]) 73"

definition clash_move :: "nat \<Rightarrow> Claim" where
  "clash_move u = zero_Claim\<lparr>cl_Value := be_get (0 # nat_to_be 31 u), cl_Position := Attack (cl_Position (clash_claim u 265)),
     cl_ParentContractIndex := 265\<rparr>"

lemma clash_ID: "Claim_ID keccak256 (clash_claim u 10) = Claim_ID keccak256 (clash_move u)"
proof -
  have g: "ToGIndex (cl_Position (clash_claim u 10)) = 1024" "ToGIndex (cl_Position (clash_move u)) = 4"
    by (simp_all add: clash_claim_def clash_move_def ToGIndex_def Attack_eq)
  have two: "nat_to_be 2 v = [of_nat (v div 256 mod 256), of_nat (v mod 256)]" for v by (simp add: numeral_2_eq_2)
  have b: "big_Bytes 1024 = [4, 0]" "big_Bytes 4 = [4]" "big_Bytes 9 = [9]" "big_Bytes 265 = [1, 9]"
    by (simp_all add: big_Bytes_def BitLen.simps two)
  show ?thesis unfolding Claim_ID_def ID_preimage_def g
    by (simp add: clash_claim_def clash_move_def b be_put_get)
qed

lemma clash_wf: "wf_game (clash_game keccak256 u)"
proof -
  let ?g = "clash_game keccak256 u"
  have claims: "gs_claims ?g = map (clash_claim u) [0..<266]" and depth: "gs_depth ?g = 73"
    by (simp_all add: clash_game_def NewGameState_def)
  have at: "claim_at ?g i = clash_claim u i" if "i < 266" for i
    using that unfolding claims by simp
  show ?thesis unfolding wf_game_def
  proof (intro conjI allI impI)
    show "gs_claims ?g \<noteq> []" by (simp add: claims)
    show "posn ?g 0 = RootPosition" unfolding at [of 0, simplified] by (simp add: clash_claim_def RootPosition_eq)
  next
    fix i assume "i < length (gs_claims ?g)"
    then have i: "i < 266" by (simp add: claims)
    show "cl_ContractIndex (claim_at ?g i) = int i" unfolding at [OF i] by (simp add: clash_claim_def)
    assume pos: "0 < i"
    show "0 \<le> cl_ParentContractIndex (claim_at ?g i)" unfolding at [OF i] by (simp add: clash_claim_def)
    have par: "par ?g i = (if i \<le> 10 then i - 1 else 0)" using pos unfolding par_def at [OF i]
      by (auto simp: clash_claim_def)
    then show less: "par ?g i < i" using pos by simp
    then have p: "par ?g i < 266" using i by simp
    have "par ?g i < 10" using par pos by auto
    then have d: "pos_depth (posn ?g (par ?g i)) = of_nat (par ?g i)" unfolding at [OF p] by (simp add: clash_claim_def)
    show "pos_depth (posn ?g (par ?g i)) < gs_depth ?g"
      unfolding d depth using \<open>par ?g i < 10\<close> by (simp add: word_less_nat_alt unat_of_nat)
    have "posn ?g i = Attack (posn ?g (par ?g i))"
      unfolding at [OF p] at [OF i] using par pos by (auto simp: clash_claim_def Attack_eq)
    then show "posn ?g i = Attack (posn ?g (par ?g i)) \<or>
        par ?g i \<noteq> 0 \<and> posn ?g i = Defend (posn ?g (par ?g i))" ..
  qed
qed

text \<open>Equal identifiers do not make equal claims. ID hashes the generalised index and the parent's index without
  their leading zeros, next to each other: in a well-formed game of 266 claims there is a claim at
  depth 10 that IsDuplicate takes for the attack on claim 265 at depth 2, which no claim is a
  counter to, whatever the hash function is and whatever 31 bytes the value of the attack ends in.\<close>

theorem IsDuplicate_of_other_claim:
  "wf_game (clash_game keccak256 u) \<and> IsDuplicate keccak256 (clash_game keccak256 u) (clash_move u) \<and>
   cl_Position (clash_move u) = Attack (posn (clash_game keccak256 u) 265) \<and>
   be_put 32 (cl_Value (clash_move u)) = 0 # nat_to_be 31 u \<and>
   cl_ParentContractIndex (clash_move u) \<notin> cl_ParentContractIndex ` set (gs_claims (clash_game keccak256 u))"
proof -
  let ?g = "clash_game keccak256 u"
  have claims: "gs_claims ?g = map (clash_claim u) [0..<266]" by (simp add: clash_game_def NewGameState_def)
  have "clash_claim u 10 \<in> set (map (clash_claim u) [0..<266])" by simp
  then have "IsDuplicate keccak256 ?g (clash_move u)"
    unfolding clash_game_def IsDuplicate_NewGameState using clash_ID by blast
  moreover have "posn ?g 265 = cl_Position (clash_claim u 265)" unfolding claims by simp
  then have "cl_Position (clash_move u) = Attack (posn ?g 265)" by (simp add: clash_move_def)
  moreover have "be_put 32 (cl_Value (clash_move u)) = 0 # nat_to_be 31 u" by (simp add: clash_move_def be_put_get)
  moreover have "cl_ParentContractIndex (clash_claim u i) \<noteq> cl_ParentContractIndex (clash_move u)" for i
    by (auto simp: clash_claim_def clash_move_def)
  then have "cl_ParentContractIndex (clash_move u) \<notin> cl_ParentContractIndex ` set (gs_claims ?g)"
    unfolding claims by (metis (mono_tags, lifting) image_iff image_set)
  ultimately show ?thesis using clash_wf by blast
qed

theorem AncestorWithTraceIndex_terminates_witness:
  "\<exists>c. AncestorWithTraceIndex (clash_game (\<lambda>_. 0) 0) (claim_at (clash_game (\<lambda>_. 0) 0) 10)
     (tix (clash_game (\<lambda>_. 0) 0) 10) = Some (Some (c, True))"
proof -
  have "10 < length (gs_claims (clash_game (\<lambda>_. 0) 0))" by (simp add: clash_game_def NewGameState_def)
  from AncestorWithTraceIndex_terminates [OF clash_wf this, of "tix (clash_game (\<lambda>_. 0) 0) 10"]
  obtain c found where walk: "AncestorWithTraceIndex (clash_game (\<lambda>_. 0) 0) (claim_at (clash_game (\<lambda>_. 0) 0) 10)
      (tix (clash_game (\<lambda>_. 0) 0) 10) = Some (Some (c, found))"
    and iff: "found \<longleftrightarrow> (\<exists>j \<in> set (10 # ancestors (clash_game (\<lambda>_. 0) 0) 10).
      tix (clash_game (\<lambda>_. 0) 0) j = tix (clash_game (\<lambda>_. 0) 0) 10)" by blast
  from iff have found by simp
  then show ?thesis using walk by simp
qed

end
