(* ===== verification/FaultSolver.thy ===== *)
theory FaultSolver
  imports FaultGame Errors
begin

text \<open>
  The honest actor of a dispute game, op-challenger/game/fault/solver (honest_claims.go, solver.go,
  game_solver.go) and the trace accessor it asks (trace/access.go, types.go). The accessor is a parameter:
  each of its functions returns a value or an error, or panics (None). Indexing outside of a
  list panics.
\<close>

section \<open>Trace accessors (types.go)\<close>

record 'c TraceAccessor =
  ta_Get :: "gameState \<Rightarrow> Claim \<Rightarrow> Position \<Rightarrow> Hash res go"
  ta_GetStepData :: "gameState \<Rightarrow> Claim \<Rightarrow> Position \<Rightarrow> (bytes \<times> bytes \<times> PreimageOracleData option) res go"
  ta_GetL2BlockNumberChallenge :: "gameState \<Rightarrow> 'c res go"

section \<open>Honest claims (honest_claims.go)\<close>

record honestClaimTracker =
  hc_agreed :: "Hash \<Rightarrow> bool"
  hc_counters :: "Hash \<rightharpoonup> Claim"

definition newHonestClaimTracker :: honestClaimTracker where
  "newHonestClaimTracker = \<lparr>hc_agreed = (\<lambda>_. False), hc_counters = Map.empty\<rparr>"

definition AddHonestClaim :: "keccak \<Rightarrow> Claim \<Rightarrow> Claim \<Rightarrow> honestClaimTracker \<Rightarrow> honestClaimTracker" where
  "AddHonestClaim keccak256 parentClaim claim a =
     (let a = a\<lparr>hc_agreed := (hc_agreed a)(Claim_ID keccak256 claim := True)\<rparr> in
      if parentClaim \<noteq> zero_Claim
      then a\<lparr>hc_counters := (hc_counters a)(Claim_ID keccak256 parentClaim \<mapsto> claim)\<rparr> else a)"

definition IsHonest :: "keccak \<Rightarrow> honestClaimTracker \<Rightarrow> Claim \<Rightarrow> bool" where
  "IsHonest keccak256 a claim = hc_agreed a (Claim_ID keccak256 claim)"

definition HonestCounter :: "keccak \<Rightarrow> honestClaimTracker \<Rightarrow> Claim \<Rightarrow> Claim option" where
  "HonestCounter keccak256 a parentClaim = hc_counters a (Claim_ID keccak256 parentClaim)"

section \<open>Responses to a claim (solver.go)\<close>

definition ErrStepNonLeafNode :: gerr where
  "ErrStepNonLeafNode = Msg ''cannot step on non-leaf claims''"

record 'c claimSolver =
  cs_trace :: "'c TraceAccessor"
  cs_gameDepth :: u64

definition newClaimSolver :: "u64 \<Rightarrow> 'c TraceAccessor \<Rightarrow> 'c claimSolver" where
  "newClaimSolver gameDepth trace = \<lparr>cs_trace = trace, cs_gameDepth = gameDepth\<rparr>"

definition shouldCounter :: "keccak \<Rightarrow> gameState \<Rightarrow> Claim \<Rightarrow> honestClaimTracker \<Rightarrow> bool res go" where
  "shouldCounter keccak256 game claim honestClaims =
     (if IsHonest keccak256 honestClaims claim then Some (Inr False)
      else if IsRoot claim then Some (Inr True)
      else
        (case GetParent game claim of
           Inl err \<Rightarrow> Some (Inl (Wrap ''no parent for claim'' err))
         | Inr parentClaim \<Rightarrow>
             if IsHonest keccak256 honestClaims parentClaim then Some (Inr True)
             else
               (case HonestCounter keccak256 honestClaims parentClaim of
                  None \<Rightarrow> Some (Inr False)
                | Some counter \<Rightarrow>
                    (case TraceIndex (gs_depth game) (cl_Position counter) of
                       None \<Rightarrow> None
                     | Some honestIdx \<Rightarrow>
                         (case TraceIndex (gs_depth game) (cl_Position claim) of
                            None \<Rightarrow> None
                          | Some claimIdx \<Rightarrow> Some (Inr (claimIdx \<le> honestIdx)))))))"

definition agreeWithClaim :: "'c claimSolver \<Rightarrow> gameState \<Rightarrow> Claim \<Rightarrow> bool res go" where
  "agreeWithClaim s game claim =
     (case ta_Get (cs_trace s) game claim (cl_Position claim) of
        None \<Rightarrow> None
      | Some (Inl err) \<Rightarrow> Some (Inl err)
      | Some (Inr ourValue) \<Rightarrow> Some (Inr (ourValue = cl_Value claim)))"

definition new_claim :: "Claim \<Rightarrow> Hash \<Rightarrow> Position \<Rightarrow> Claim" where
  "new_claim claim v position =
     zero_Claim\<lparr>cl_Value := v, cl_Position := position, cl_ParentContractIndex := cl_ContractIndex claim\<rparr>"

definition solver_attack :: "'c claimSolver \<Rightarrow> gameState \<Rightarrow> Claim \<Rightarrow> Claim option res go" where
  "solver_attack s game claim =
     (let position = Attack (cl_Position claim) in
      case ta_Get (cs_trace s) game claim position of
        None \<Rightarrow> None
      | Some (Inl err) \<Rightarrow> Some (Inl (Wrap ''attack claim'' err))
      | Some (Inr v) \<Rightarrow> Some (Inr (Some (new_claim claim v position))))"

definition solver_defend :: "'c claimSolver \<Rightarrow> gameState \<Rightarrow> Claim \<Rightarrow> Claim option res go" where
  "solver_defend s game claim =
     (if IsRoot claim then Some (Inr None)
      else
        (let position = Defend (cl_Position claim) in
         case ta_Get (cs_trace s) game claim position of
           None \<Rightarrow> None
         | Some (Inl err) \<Rightarrow> Some (Inl (Wrap ''defend claim'' err))
         | Some (Inr v) \<Rightarrow> Some (Inr (Some (new_claim claim v position)))))"

definition NextMove :: "keccak \<Rightarrow> 'c claimSolver \<Rightarrow> Claim \<Rightarrow> gameState \<Rightarrow> honestClaimTracker \<Rightarrow> Claim option res go" where
  "NextMove keccak256 s claim game honestClaims =
     (if pos_depth (cl_Position claim) = cs_gameDepth s then Some (Inl ErrGameDepthReached)
      else
        (case shouldCounter keccak256 game claim honestClaims of
           None \<Rightarrow> None
         | Some (Inl err) \<Rightarrow> Some (Inl (Wrap ''failed to determine if claim should be countered'' err))
         | Some (Inr False) \<Rightarrow> Some (Inr None)
         | Some (Inr True) \<Rightarrow>
             (case agreeWithClaim s game claim of
                None \<Rightarrow> None
              | Some (Inl err) \<Rightarrow> Some (Inl err)
              | Some (Inr True) \<Rightarrow> solver_defend s game claim
              | Some (Inr False) \<Rightarrow> solver_attack s game claim)))"

record StepData =
  sd_LeafClaim :: Claim
  sd_IsAttack :: bool
  sd_PreState :: bytes
  sd_ProofData :: bytes
  sd_OracleData :: "PreimageOracleData option"

definition AttemptStep ::
  "keccak \<Rightarrow> 'c claimSolver \<Rightarrow> gameState \<Rightarrow> Claim \<Rightarrow> honestClaimTracker \<Rightarrow> StepData option res go" where
  "AttemptStep keccak256 s game claim honestClaims =
     (if pos_depth (cl_Position claim) \<noteq> cs_gameDepth s then Some (Inl ErrStepNonLeafNode)
      else
        (case shouldCounter keccak256 game claim honestClaims of
           None \<Rightarrow> None
         | Some (Inl err) \<Rightarrow> Some (Inl (Wrap ''failed to determine if claim should be countered'' err))
         | Some (Inr False) \<Rightarrow> Some (Inr None)
         | Some (Inr True) \<Rightarrow>
             (case agreeWithClaim s game claim of
                None \<Rightarrow> None
              | Some (Inl err) \<Rightarrow> Some (Inl err)
              | Some (Inr claimCorrect) \<Rightarrow>
                  (let position = (if \<not> claimCorrect then cl_Position claim else MoveRight (cl_Position claim)) in
                   case ta_GetStepData (cs_trace s) game claim position of
                     None \<Rightarrow> None
                   | Some (Inl err) \<Rightarrow> Some (Inl err)
                   | Some (Inr (preState, proofData, oracleData)) \<Rightarrow>
                       Some (Inr (Some \<lparr>sd_LeafClaim = claim, sd_IsAttack = (\<not> claimCorrect), sd_PreState = preState,
                         sd_ProofData = proofData, sd_OracleData = oracleData\<rparr>))))))"

section \<open>Responses to a game (game_solver.go)\<close>

definition calculateStep ::
  "keccak \<Rightarrow> 'c claimSolver \<Rightarrow> gameState \<Rightarrow> Claim \<Rightarrow> honestClaimTracker \<Rightarrow> 'c Action option res go" where
  "calculateStep keccak256 s game claim agreedClaims =
     (if cl_CounteredBy claim \<noteq> 0 then Some (Inr None)
      else
        (case AttemptStep keccak256 s game claim agreedClaims of
           None \<Rightarrow> None
         | Some (Inl err) \<Rightarrow> Some (Inl err)
         | Some (Inr None) \<Rightarrow> Some (Inr None)
         | Some (Inr (Some step)) \<Rightarrow>
             Some (Inr (Some \<lparr>act_Type = ActionTypeStep, act_ParentClaim = sd_LeafClaim step, act_IsAttack = sd_IsAttack step,
               act_Value = 0, act_PreState = sd_PreState step, act_ProofData = sd_ProofData step,
               act_OracleData = sd_OracleData step, act_Challenge = None\<rparr>))))"

definition calculateMove ::
  "keccak \<Rightarrow> 'c claimSolver \<Rightarrow> gameState \<Rightarrow> Claim \<Rightarrow> honestClaimTracker \<Rightarrow>
   ('c Action option res \<times> honestClaimTracker) go" where
  "calculateMove keccak256 s game claim honestClaims =
     (case NextMove keccak256 s claim game honestClaims of
        None \<Rightarrow> None
      | Some (Inl err) \<Rightarrow> Some (Inl (Wrap ''failed to calculate next move for claim index'' err), honestClaims)
      | Some (Inr None) \<Rightarrow> Some (Inr None, honestClaims)
      | Some (Inr (Some mv)) \<Rightarrow>
          (let honestClaims = AddHonestClaim keccak256 claim mv honestClaims in
           if IsDuplicate keccak256 game mv then Some (Inr None, honestClaims)
           else
             (let p = cl_ParentContractIndex mv in
              if p < 0 \<or> int (length (gs_claims game)) \<le> p then None
              else
                Some (Inr (Some \<lparr>act_Type = ActionTypeMove, act_ParentClaim = gs_claims game ! nat p,
                  act_IsAttack = (\<not> DefendsParent game mv), act_Value = cl_Value mv, act_PreState = [],
                  act_ProofData = [], act_OracleData = None, act_Challenge = None\<rparr>), honestClaims))))"

text \<open>The loop over the claims: the actions found until an error, and the error.\<close>

fun CalculateNextActions_loop ::
  "keccak \<Rightarrow> 'c claimSolver \<Rightarrow> gameState \<Rightarrow> Claim list \<Rightarrow> 'c Action list \<Rightarrow> honestClaimTracker \<Rightarrow>
   ('c Action list \<times> gerr option) go" where
  "CalculateNextActions_loop keccak256 s game [] actions agreedClaims = Some (actions, None)"
| "CalculateNextActions_loop keccak256 s game (claim # claims) actions agreedClaims =
     (case (if pos_depth (cl_Position claim) = gs_depth game
            then map_option (\<lambda>r. (r, agreedClaims)) (calculateStep keccak256 s game claim agreedClaims)
            else calculateMove keccak256 s game claim agreedClaims) of
        None \<Rightarrow> None
      | Some (Inl err, agreedClaims) \<Rightarrow> Some (actions, Some (Wrap ''failed to determine response to claim'' err))
      | Some (Inr None, agreedClaims) \<Rightarrow> CalculateNextActions_loop keccak256 s game claims actions agreedClaims
      | Some (Inr (Some action), agreedClaims) \<Rightarrow>
          CalculateNextActions_loop keccak256 s game claims (actions @ [action]) agreedClaims)"

definition AgreeWithRootClaim :: "'c claimSolver \<Rightarrow> gameState \<Rightarrow> bool res go" where
  "AgreeWithRootClaim s game = (if gs_claims game = [] then None else agreeWithClaim s game (gs_claims game ! 0))"

definition CalculateNextActions :: "keccak \<Rightarrow> 'c claimSolver \<Rightarrow> gameState \<Rightarrow> ('c Action list \<times> gerr option) go" where
  "CalculateNextActions keccak256 s game =
     (case AgreeWithRootClaim s game of
        None \<Rightarrow> None
      | Some (Inl err) \<Rightarrow> Some ([], Some (Wrap ''failed to determine if root claim is correct'' err))
      | Some (Inr agreeWithRootClaim) \<Rightarrow>
          (let run = (\<lambda>agreedClaims. CalculateNextActions_loop keccak256 s game (gs_claims game) [] agreedClaims) in
           if agreeWithRootClaim then
             (case ta_GetL2BlockNumberChallenge (cs_trace s) game of
                None \<Rightarrow> None
              | Some (Inr challenge) \<Rightarrow>
                  Some ([\<lparr>act_Type = ActionTypeChallengeL2BlockNumber, act_ParentClaim = zero_Claim, act_IsAttack = False,
                    act_Value = 0, act_PreState = [], act_ProofData = [], act_OracleData = None,
                    act_Challenge = Some challenge\<rparr>], None)
              | Some (Inl err) \<Rightarrow>
                  if errors_Is err ErrL2BlockNumberValid
                  then run (AddHonestClaim keccak256 zero_Claim (gs_claims game ! 0) newHonestClaimTracker)
                  else Some ([], Some (Wrap ''failed to determine L2 block validity'' err)))
           else run newHonestClaimTracker))"

end
