(* ===== verification/FaultRules.thy ===== *)
theory FaultRules
  imports FaultSolver
begin

text \<open>
  What an action of the honest actor must satisfy, op-challenger/game/fault/solver/rules.go. A rule may
  walk the ancestors of a claim: the outer option is None when the walk does not end, the inner one
  when the rule panics; the result is the rule's error, if it is broken. Of the provider of the correct trace
  the rules use the value at a position.
\<close>

section \<open>The rules\<close>

type_synonym rule_result = "gerr option go option"

definition challengerAddr :: Address where
  "challengerAddr = be_get (replicate 20 0xaa)"

definition errorf :: "bool \<Rightarrow> string \<Rightarrow> gerr option go" where
  "errorf broken msg = Some (if broken then Some (Msg msg) else None)"

definition action_parent :: "gameState \<Rightarrow> 'c Action \<Rightarrow> Claim go" where
  "action_parent game action =
     (let i = cl_ContractIndex (act_ParentClaim action) in
      if i < 0 \<or> int (length (gs_claims game)) \<le> i then None else Some (gs_claims game ! nat i))"

definition resultingPosition :: "gameState \<Rightarrow> 'c Action \<Rightarrow> Position go" where
  "resultingPosition game action =
     (case action_parent game action of
        None \<Rightarrow> None
      | Some p \<Rightarrow>
          Some (if act_Type action = ActionTypeStep then cl_Position p
            else if act_IsAttack action then Attack (cl_Position p) else Defend (cl_Position p)))"

definition parentMustExist :: "gameState \<Rightarrow> 'c Action \<Rightarrow> rule_result" where
  "parentMustExist game action =
     (let i = cl_ContractIndex (act_ParentClaim action) in
      Some (errorf (int (length (gs_claims game)) \<le> i \<or> i < 0) ''parent claim does not exist''))"

definition onlyStepAtMaxDepth :: "gameState \<Rightarrow> 'c Action \<Rightarrow> rule_result" where
  "onlyStepAtMaxDepth game action = Some
     (if act_Type action = ActionTypeStep then Some None
      else
        (case action_parent game action of
           None \<Rightarrow> None
         | Some p \<Rightarrow> errorf (gs_depth game \<le> pos_depth (cl_Position p)) ''parent at max depth''))"

definition onlyMoveBeforeMaxDepth :: "gameState \<Rightarrow> 'c Action \<Rightarrow> rule_result" where
  "onlyMoveBeforeMaxDepth game action = Some
     (if act_Type action = ActionTypeMove then Some None
      else
        (case action_parent game action of
           None \<Rightarrow> None
         | Some p \<Rightarrow> errorf (pos_depth (cl_Position p) < gs_depth game) ''parent not at max depth''))"

definition doNotDuplicateExistingMoves :: "keccak \<Rightarrow> gameState \<Rightarrow> 'c Action \<Rightarrow> rule_result" where
  "doNotDuplicateExistingMoves keccak256 game action = Some
     (case resultingPosition game action of
        None \<Rightarrow> None
      | Some position \<Rightarrow>
          errorf (IsDuplicate keccak256 game (zero_Claim\<lparr>cl_Value := act_Value action, cl_Position := position,
            cl_ParentContractIndex := cl_ContractIndex (act_ParentClaim action)\<rparr>)) ''creating duplicate claim'')"

definition doNotStepAlreadyCounteredClaims :: "gameState \<Rightarrow> 'c Action \<Rightarrow> rule_result" where
  "doNotStepAlreadyCounteredClaims game action = Some
     (case action_parent game action of
        None \<Rightarrow> None
      | Some claim \<Rightarrow> errorf (cl_CounteredBy claim \<noteq> 0) ''attempting to step already countered claim'')"

definition doNotDefendRootClaim :: "gameState \<Rightarrow> 'c Action \<Rightarrow> rule_result" where
  "doNotDefendRootClaim game action = Some
     (case action_parent game action of
        None \<Rightarrow> None
      | Some p \<Rightarrow> errorf (IsRootPosition (cl_Position p) \<and> \<not> act_IsAttack action) ''defending the root claim'')"

definition doNotCounterSelf :: "gameState \<Rightarrow> 'c Action \<Rightarrow> rule_result" where
  "doNotCounterSelf game action = Some
     (case action_parent game action of
        None \<Rightarrow> None
      | Some claim \<Rightarrow> errorf (cl_Claimant claim = challengerAddr) ''countering own claim'')"

text \<open>The claim with the largest trace index left of the given one among a claim and its ancestors, the zero
  claim when there is none; \<open>printClaim\<close> computes the trace index as well.\<close>

partial_function (option) preState_walk :: "gameState \<Rightarrow> int \<Rightarrow> Claim \<Rightarrow> Claim \<Rightarrow> Claim res go option" where
  "preState_walk game honestTraceIndex claim preStateClaim =
     (case TraceIndex (gs_depth game) (cl_Position claim) of
        None \<Rightarrow> Some None
      | Some claimTraceIdx \<Rightarrow>
          (case (if claimTraceIdx < honestTraceIndex then
                   (if preStateClaim = zero_Claim then Some claim
                    else
                      (case TraceIndex (gs_depth game) (cl_Position preStateClaim) of
                         None \<Rightarrow> None
                       | Some preIdx \<Rightarrow> Some (if claimTraceIdx > preIdx then claim else preStateClaim)))
                 else Some preStateClaim) of
             None \<Rightarrow> Some None
           | Some preStateClaim \<Rightarrow>
               if IsRoot claim then Some (Some (Inr preStateClaim))
               else
                 (case GetParent game claim of
                    Inl err \<Rightarrow> Some (Some (Inl (Wrap ''no parent of claim'' err)))
                  | Inr parentClaim \<Rightarrow> preState_walk game honestTraceIndex parentClaim preStateClaim)))"

definition avoidPoisonedPrestate :: "gameState \<Rightarrow> 'c Action \<Rightarrow> (Position \<Rightarrow> Hash res go) \<Rightarrow> rule_result" where
  "avoidPoisonedPrestate game action correctTrace =
     (if act_Type action = ActionTypeStep then Some (Some None)
      else
        (case (action_parent game action, resultingPosition game action) of
           (Some claim, Some movePosition) \<Rightarrow>
             (case TraceIndex (gs_depth game) movePosition of
                None \<Rightarrow> Some None
              | Some honestTraceIndex \<Rightarrow>
                  (case preState_walk game honestTraceIndex claim zero_Claim of
                     None \<Rightarrow> None
                   | Some None \<Rightarrow> Some None
                   | Some (Some (Inl err)) \<Rightarrow> Some (Some (Some err))
                   | Some (Some (Inr preStateClaim)) \<Rightarrow>
                       if preStateClaim = zero_Claim then Some (Some None)
                       else
                         (case correctTrace (cl_Position preStateClaim) of
                            None \<Rightarrow> Some None
                          | Some (Inl err) \<Rightarrow> Some (Some (Some (Wrap ''failed to get correct trace'' err)))
                          | Some (Inr correctValue) \<Rightarrow>
                              Some (errorf (correctValue \<noteq> cl_Value preStateClaim) ''prestate poisoned''))))
         | _ \<Rightarrow> Some None))"

definition detectFailedStep :: "gameState \<Rightarrow> 'c Action \<Rightarrow> (Position \<Rightarrow> Hash res go) \<Rightarrow> rule_result" where
  "detectFailedStep game action correctTrace =
     (if act_Type action \<noteq> ActionTypeStep then Some (Some None)
      else
        (case (action_parent game action, resultingPosition game action) of
           (Some claim, Some position) \<Rightarrow>
             if pos_depth position \<noteq> gs_depth game then Some (Some None)
             else
               (case TraceIndex (gs_depth game) position of
                  None \<Rightarrow> Some None
                | Some honestTraceIndex \<Rightarrow>
                    (let poststateIndex = (if \<not> act_IsAttack action then honestTraceIndex + 1 else honestTraceIndex) in
                     case AncestorWithTraceIndex game claim poststateIndex of
                       None \<Rightarrow> None
                     | Some None \<Rightarrow> Some None
                     | Some (Some (poststateClaim, ok)) \<Rightarrow>
                         if \<not> ok then Some (errorf True ''did not find required poststate'')
                         else
                           (case correctTrace (cl_Position poststateClaim) of
                              None \<Rightarrow> Some None
                            | Some (Inl err) \<Rightarrow> Some (Some (Some (Wrap ''failed to get correct trace'' err)))
                            | Some (Inr correctValue) \<Rightarrow>
                                (let validStep = (correctValue = cl_Value poststateClaim);
                                     parentPostAgree =
                                       ((pos_depth (cl_Position claim) - pos_depth (cl_Position poststateClaim)) mod 2 = 0)
                                 in Some (errorf (parentPostAgree = validStep) ''failed step'')))))
         | _ \<Rightarrow> Some None))"

definition detectPoisonedStepPrestate ::
  "keccak \<Rightarrow> gameState \<Rightarrow> 'c Action \<Rightarrow> (Position \<Rightarrow> Hash res go) \<Rightarrow> rule_result" where
  "detectPoisonedStepPrestate keccak256 game action correctTrace =
     (case (action_parent game action, resultingPosition game action) of
        (Some claim, Some position) \<Rightarrow>
          if pos_depth position \<noteq> gs_depth game then Some (Some None)
          else
            (case TraceIndex (gs_depth game) position of
               None \<Rightarrow> Some None
             | Some honestTraceIndex \<Rightarrow>
                 (let prestateIndex =
                    (if act_IsAttack action \<or> act_Type action = ActionTypeMove then honestTraceIndex - 1
                     else honestTraceIndex) in
                  if prestateIndex < 0 then Some (Some None)
                  else
                    (case AncestorWithTraceIndex game claim prestateIndex of
                       None \<Rightarrow> None
                     | Some None \<Rightarrow> Some None
                     | Some (Some (preStateClaim, ok)) \<Rightarrow>
                         if \<not> ok then Some (errorf True ''performing step with no prestate available'')
                         else
                           (case correctTrace (cl_Position preStateClaim) of
                              None \<Rightarrow> Some None
                            | Some (Inl err) \<Rightarrow> Some (Some (Some (Wrap ''failed to get correct trace'' err)))
                            | Some (Inr correctValue) \<Rightarrow>
                                if correctValue \<noteq> cl_Value preStateClaim then
                                  Some (errorf True (if act_Type action = ActionTypeStep
                                    then ''stepping from poisoned prestate'' else ''posting leaf claim with poisoned prestate''))
                                else if act_Type action = ActionTypeStep then
                                  (let prestateHash = keccak256 (act_PreState action) in
                                   Some (errorf (drop 1 (be_put 32 prestateHash) \<noteq> drop 1 (be_put 32 (cl_Value preStateClaim)))
                                     ''prestate hash does not match''))
                                else Some (Some None)))))
      | _ \<Rightarrow> Some None)"

definition rules :: "keccak \<Rightarrow> (gameState \<Rightarrow> 'c Action \<Rightarrow> (Position \<Rightarrow> Hash res go) \<Rightarrow> rule_result) list" where
  "rules keccak256 =
     [\<lambda>g a _. parentMustExist g a,
      \<lambda>g a _. onlyStepAtMaxDepth g a,
      \<lambda>g a _. onlyMoveBeforeMaxDepth g a,
      \<lambda>g a _. doNotDuplicateExistingMoves keccak256 g a,
      \<lambda>g a _. doNotStepAlreadyCounteredClaims g a,
      \<lambda>g a _. doNotDefendRootClaim g a,
      avoidPoisonedPrestate,
      detectPoisonedStepPrestate keccak256,
      detectFailedStep,
      \<lambda>g a _. doNotCounterSelf g a]"

text \<open>The errors of the rules, joined: none when every rule holds.\<close>

definition checkRules :: "keccak \<Rightarrow> gameState \<Rightarrow> 'c Action \<Rightarrow> (Position \<Rightarrow> Hash res go) \<Rightarrow> gerr list go option" where
  "checkRules keccak256 game action correctTrace =
     foldl (\<lambda>errs rule.
       case errs of
         None \<Rightarrow> None
       | Some None \<Rightarrow> Some None
       | Some (Some errs) \<Rightarrow>
           (case rule game action correctTrace of
              None \<Rightarrow> None
            | Some None \<Rightarrow> Some None
            | Some (Some None) \<Rightarrow> Some (Some errs)
            | Some (Some (Some err)) \<Rightarrow> Some (Some (errs @ [err]))))
       (Some (Some [])) (rules keccak256)"

definition rule_holds :: "rule_result \<Rightarrow> bool" where
  "rule_holds r \<longleftrightarrow> r = Some (Some None)"

lemma checkRules_holds:
  assumes "\<And>rule. rule \<in> set (rules keccak256) \<Longrightarrow> rule_holds (rule game action correctTrace)"
  shows "checkRules keccak256 game action correctTrace = Some (Some [])"
proof -
  have "foldl (\<lambda>errs rule. case errs of None \<Rightarrow> None | Some None \<Rightarrow> Some None
       | Some (Some errs) \<Rightarrow>
           (case rule game action correctTrace of None \<Rightarrow> None | Some None \<Rightarrow> Some None
            | Some (Some None) \<Rightarrow> Some (Some errs) | Some (Some (Some err)) \<Rightarrow> Some (Some (errs @ [err]))))
       (Some (Some [])) rs = Some (Some [])"
    if "\<forall>rule \<in> set rs. rule_holds (rule game action correctTrace)" for rs :: "(gameState \<Rightarrow> 'a Action \<Rightarrow> (Position \<Rightarrow> Hash res go) \<Rightarrow> rule_result) list"
    using that by (induction rs) (auto simp: rule_holds_def)
  then show ?thesis using assms by (simp add: checkRules_def)
qed

section \<open>The walk to the prestate\<close>

text \<open>In a game of the contract the walk ends, and the claim it finds, if any, is left of the position.\<close>

lemma claim_not_zero: "wf_game g \<Longrightarrow> i < length (gs_claims g) \<Longrightarrow> claim_at g i \<noteq> zero_Claim"
proof
  assume "wf_game g" "i < length (gs_claims g)" "claim_at g i = zero_Claim"
  then have "node (cl_Position zero_Claim)" using wf_node [of g i] by simp
  then show False by (simp add: node_def zero_Claim_def)
qed

definition left_of :: "gameState \<Rightarrow> int \<Rightarrow> nat set \<Rightarrow> Claim \<Rightarrow> bool" where
  "left_of g idx js pre \<longleftrightarrow> pre = zero_Claim \<or> (\<exists>j \<in> js. j < length (gs_claims g) \<and> pre = claim_at g j \<and> tix g j < idx)"

definition walk_step :: "gameState \<Rightarrow> int \<Rightarrow> nat \<Rightarrow> Claim \<Rightarrow> Claim" where
  "walk_step g idx i pre =
     (if tix g i < idx \<and> (pre = zero_Claim \<or> (\<exists>t. TraceIndex (gs_depth g) (cl_Position pre) = Some t \<and> t < tix g i))
      then claim_at g i else pre)"

lemma walk_step_left:
  "i < length (gs_claims g) \<Longrightarrow> left_of g idx js pre \<Longrightarrow> left_of g idx (insert i js) (walk_step g idx i pre)"
  by (auto simp: left_of_def walk_step_def)

lemma preState_walk_unfold:
  assumes "wf_game g" "i < length (gs_claims g)" "left_of g idx js pre"
  shows "preState_walk g idx (claim_at g i) pre =
    (if i = 0 then Some (Some (Inr (walk_step g idx i pre)))
     else preState_walk g idx (claim_at g (par g i)) (walk_step g idx i pre))"
proof -
  have pre: "pre = zero_Claim \<or> (\<exists>t. TraceIndex (gs_depth g) (cl_Position pre) = Some t)"
    using assms(3) wf_TraceIndex [OF assms(1)] by (auto simp: left_of_def)
  show ?thesis
    using wf_TraceIndex [OF assms(1,2)] wf_IsRoot [OF assms(1,2)] wf_getParent [OF assms(1,2)] pre
    by (subst preState_walk.simps) (auto simp: GetParent_def walk_step_def)
qed

lemma preState_walk_left:
  assumes "wf_game g" "i < length (gs_claims g)" "left_of g idx js pre"
  shows "\<exists>r. preState_walk g idx (claim_at g i) pre = Some (Some (Inr r)) \<and> left_of g idx (js \<union> set (i # ancestors g i)) r"
  using assms
proof (induction arbitrary: pre js rule: path_induct)
  case root
  have n: "0 < length (gs_claims g)" by (rule wf_root(1) [OF assms(1)])
  show ?case using preState_walk_unfold [OF assms(1) n root] walk_step_left [OF n root] by (simp add: ancestors_root)
next
  case (child i)
  note next_left = walk_step_left [OF child(1,4)]
  obtain r where "preState_walk g idx (claim_at g (par g i)) (walk_step g idx i pre) = Some (Some (Inr r))"
    "left_of g idx (insert i js \<union> set (par g i # ancestors g (par g i))) r"
    using child(3) [OF next_left] by blast
  moreover have "insert i js \<union> set (par g i # ancestors g (par g i)) = js \<union> set (i # ancestors g i)"
    by (auto simp: ancestors_step [OF assms(1) child(1,2)])
  ultimately show ?case using preState_walk_unfold [OF assms(1) child(1,4)] child(2) by simp
qed

end
