(* ===== verification/FaultHonest.thy ===== *)
theory FaultHonest
  imports FaultRules
begin

text \<open>
  The abstract game of the honest actor: which claims of a game are its own moves and which it counters, from
  the value of the correct trace at each position alone, without the tracker, the identifiers and
  the accessor. \<open>CalculateNextActions\<close> implements it, and each of its actions keeps the rules.
\<close>

section \<open>The specification\<close>

abbreviation val :: "gameState \<Rightarrow> nat \<Rightarrow> Hash" where "val g i \<equiv> cl_Value (claim_at g i)"

definition agrees :: "(Position \<Rightarrow> Hash) \<Rightarrow> gameState \<Rightarrow> nat \<Rightarrow> bool" where
  "agrees V g i \<longleftrightarrow> V (posn g i) = val g i"

text \<open>The position of a counter to a claim.\<close>

definition reply :: "(Position \<Rightarrow> Hash) \<Rightarrow> gameState \<Rightarrow> nat \<Rightarrow> Position" where
  "reply V g i = (if agrees V g i then Defend (posn g i) else Attack (posn g i))"

text \<open>Whether a claim is honest and whether it is countered. The root is honest when correct and countered when
  not; another claim is honest when it is the counter to its parent, and countered when it is
  not honest and the parent is, or when the counter to the parent is not left of it.\<close>

function status :: "(Position \<Rightarrow> Hash) \<Rightarrow> gameState \<Rightarrow> nat \<Rightarrow> bool \<times> bool" where
  "status V g i =
     (if i = 0 \<or> i \<le> par g i then (agrees V g i, \<not> agrees V g i)
      else
        (let p = par g i;
             (honest_p, countered_p) = status V g p;
             honest_i = (countered_p \<and> posn g i = reply V g p \<and> agrees V g i)
         in (honest_i, \<not> honest_i \<and> (honest_p \<or> countered_p \<and> tix g i \<le> tidx (gs_depth g) (reply V g p)))))"
  by pat_completeness auto
termination by (relation "measure (\<lambda>(V, g, i). i)") auto

declare status.simps [simp del]

definition honest :: "(Position \<Rightarrow> Hash) \<Rightarrow> gameState \<Rightarrow> nat \<Rightarrow> bool" where
  "honest V g i = fst (status V g i)"

definition countered :: "(Position \<Rightarrow> Hash) \<Rightarrow> gameState \<Rightarrow> nat \<Rightarrow> bool" where
  "countered V g i = snd (status V g i)"

lemma root_status: "honest V g 0 = agrees V g 0" "countered V g 0 = (\<not> agrees V g 0)"
  by (simp_all add: honest_def countered_def status.simps)

lemma child_status:
  assumes "wf_game g" "i < length (gs_claims g)" "0 < i"
  shows "honest V g i \<longleftrightarrow> countered V g (par g i) \<and> posn g i = reply V g (par g i) \<and> agrees V g i"
    "countered V g i \<longleftrightarrow> \<not> honest V g i \<and>
      (honest V g (par g i) \<or> countered V g (par g i) \<and> tix g i \<le> tidx (gs_depth g) (reply V g (par g i)))"
  using wf_par(1) [OF assms] assms(3)
  by (simp_all add: honest_def countered_def status.simps [of V g i] Let_def case_prod_unfold)

lemma honest_agrees:
  assumes "wf_game g" "i < length (gs_claims g)" "honest V g i"
  shows "agrees V g i"
  using assms(3) root_status(1) child_status(1) [OF assms(1,2)] by (cases "i = 0") auto

lemma honest_not_countered:
  assumes "wf_game g" "i < length (gs_claims g)" "honest V g i"
  shows "\<not> countered V g i"
  using assms(3) root_status child_status(2) [OF assms(1,2)] by (cases "i = 0") auto

definition relevant :: "(Position \<Rightarrow> Hash) \<Rightarrow> gameState \<Rightarrow> nat \<Rightarrow> bool" where
  "relevant V g i \<longleftrightarrow> honest V g i \<or> countered V g i"

lemma relevant_par:
  "wf_game g \<Longrightarrow> i < length (gs_claims g) \<Longrightarrow> 0 < i \<Longrightarrow> relevant V g i \<Longrightarrow> relevant V g (par g i)"
  using child_status by (auto simp: relevant_def)

section \<open>The claims left of a relevant one are correct\<close>

lemma moves_apart:
  assumes "wf_game g" "i < length (gs_claims g)" "0 < i"
  shows "Attack (posn g (par g i)) \<noteq> Defend (posn g (par g i))"
    "tidx (gs_depth g) (Attack (posn g (par g i))) < tidx (gs_depth g) (Defend (posn g (par g i)))"
proof -
  note p = wf_par [OF assms]
  note even = wf_even [OF assms(1) p(2)]
  show "Attack (posn g (par g i)) \<noteq> Defend (posn g (par g i))" by (rule Attack_not_Defend [OF even])
  have "0 < (2 :: int) ^ (unat (gs_depth g) - (unat (pos_depth (posn g (par g i))) + 1))" by simp
  then show "tidx (gs_depth g) (Attack (posn g (par g i))) < tidx (gs_depth g) (Defend (posn g (par g i)))"
    unfolding tidx_Attack [OF p(4)] tidx_Defend [OF p(4) even] by linarith
qed

text \<open>A claim that a relevant one defends is correct.\<close>

lemma defended_agrees:
  assumes "wf_game g" "i < length (gs_claims g)" "0 < i" "relevant V g i" "posn g i = Defend (posn g (par g i))"
  shows "agrees V g (par g i)"
proof (rule ccontr)
  assume wrong: "\<not> agrees V g (par g i)"
  then have reply: "reply V g (par g i) = Attack (posn g (par g i))" by (simp add: reply_def)
  have "\<not> honest V g (par g i)" using wrong honest_agrees [OF assms(1) wf_par(2) [OF assms(1-3)]] by blast
  then have "posn g i = Attack (posn g (par g i)) \<or> tix g i \<le> tidx (gs_depth g) (Attack (posn g (par g i)))"
    using assms(4) child_status [OF assms(1-3), of V] unfolding relevant_def reply by auto
  then show False using moves_apart [OF assms(1-3)] unfolding assms(5) by auto
qed

lemma left_agrees:
  assumes "wf_game g" "i < length (gs_claims g)" "relevant V g i"
  shows "\<forall>j \<in> set (ancestors g i). tix g j < upp g i \<longrightarrow> agrees V g j"
  using assms
proof (induction rule: path_induct)
  case (child i)
  let ?p = "par g i"
  have IH: "\<forall>j \<in> set (ancestors g ?p). tix g j < upp g ?p \<longrightarrow> agrees V g j"
    using child(3) relevant_par [OF assms(1) child(1,2,4)] by blast
  note between = tidx_between [of "gs_depth g" "posn g ?p"]
  show ?case
  proof (intro ballI impI)
    fix j assume j: "j \<in> set (ancestors g i)" "tix g j < upp g i"
    then consider "j = ?p" | "j \<in> set (ancestors g ?p)" by (auto simp: ancestors_step [OF assms(1) child(1,2)])
    then show "agrees V g j"
    proof cases
      case 1
      then have "posn g i = Defend (posn g ?p)" using child_bounds [OF assms(1) child(1,2)] j(2) by auto
      then show ?thesis using defended_agrees [OF assms(1) child(1,2,4)] 1 by simp
    next
      case 2
      moreover have "tix g j < upp g ?p" using child_bounds [OF assms(1) child(1,2)] j(2) between by auto
      ultimately show ?thesis using IH by blast
    qed
  qed
qed (simp add: ancestors_root)

section \<open>The poststate of a defense\<close>

text \<open>The claim just right of a relevant and correct one is correct exactly when the distance to it is odd for a
  countered claim, even for an honest one.\<close>

lemma poststate_parity:
  assumes "wf_game g" "i < length (gs_claims g)" "0 < i" "relevant V g i" "agrees V g i"
  shows "\<exists>j \<in> set (ancestors g i). tix g j = upp g i \<and> unat (pos_depth (posn g j)) \<le> unat (pos_depth (posn g i)) \<and>
    (agrees V g j \<longleftrightarrow> (odd (unat (pos_depth (posn g i)) - unat (pos_depth (posn g j))) \<longleftrightarrow> \<not> honest V g i))"
  using assms
proof (induction rule: path_induct)
  case (child i)
  let ?p = "par g i"
  note p = wf_par [OF assms(1) child(1,2)]
  note status = child_status [OF assms(1) child(1,2), of V]
  have rel: "relevant V g ?p" by (rule relevant_par [OF assms(1) child(1,2,5)])
  have depth: "unat (pos_depth (posn g i)) = unat (pos_depth (posn g ?p)) + 1"
    using p(5) move_depth(1) [OF p(4)] by (auto simp: depth_moves)
  note anc = ancestors_step [OF assms(1) child(1,2)]
  note apart = moves_apart(1) [OF assms(1) child(1,2)]
  from child_bounds [OF assms(1) child(1,2)] show ?case
  proof (elim disjE conjE)
    assume attack: "posn g i = Attack (posn g ?p)" and upp: "upp g i = tix g ?p"
    have "agrees V g ?p \<longleftrightarrow> \<not> honest V g i"
    proof
      assume "agrees V g ?p"
      then have "posn g i \<noteq> reply V g ?p" using attack apart by (simp add: reply_def)
      then show "\<not> honest V g i" using status(1) by blast
    next
      assume not: "\<not> honest V g i"
      show "agrees V g ?p"
      proof (rule ccontr)
        assume wrong: "\<not> agrees V g ?p"
        then have "posn g i = reply V g ?p" using attack by (simp add: reply_def)
        moreover have "countered V g ?p"
          using wrong rel honest_agrees [OF assms(1) p(2)] by (auto simp: relevant_def)
        ultimately show False using not status(1) child(6) by blast
      qed
    qed
    then show ?thesis using upp depth by (auto simp: anc)
  next
    assume nonroot: "?p \<noteq> 0" and defend: "posn g i = Defend (posn g ?p)" and upp: "upp g i = upp g ?p"
    have agree: "agrees V g ?p" by (rule defended_agrees [OF assms(1) child(1,2,5) defend])
    have "posn g i = reply V g ?p" using agree defend by (simp add: reply_def)
    then have flip: "honest V g i \<longleftrightarrow> \<not> honest V g ?p"
      using status(1) child(6) rel honest_not_countered [OF assms(1) p(2)] by (auto simp: relevant_def)
    obtain j where j: "j \<in> set (ancestors g ?p)" "tix g j = upp g ?p"
      "unat (pos_depth (posn g j)) \<le> unat (pos_depth (posn g ?p))"
      "agrees V g j \<longleftrightarrow> (odd (unat (pos_depth (posn g ?p)) - unat (pos_depth (posn g j))) \<longleftrightarrow> \<not> honest V g ?p)"
      using child(3) nonroot rel agree by blast
    have "odd (unat (pos_depth (posn g i)) - unat (pos_depth (posn g j))) \<longleftrightarrow>
        \<not> odd (unat (pos_depth (posn g ?p)) - unat (pos_depth (posn g j)))"
      unfolding depth using j(3) by (simp add: Suc_diff_le)
    then show ?thesis using j depth upp flip by (auto simp: anc)
  qed
qed simp

end
