(* ===== verification/FaultPlay.thy ===== *)
theory FaultPlay
  imports FaultHonest
begin

text \<open>
  \<open>CalculateNextActions\<close> implements the abstract game: under an accessor that returns the values of one trace or
  an error, and when no two claims in question share an identifier, the tracker holds the honest claims, and the
  actions are the moves against the countered claims above the maximal depth that have not
  been made and the steps against those at the maximal depth that have not been countered.
\<close>

section \<open>Hypotheses\<close>

definition key :: "Claim \<Rightarrow> Position \<times> Hash \<times> int" where
  "key c = (cl_Position c, cl_Value c, cl_ParentContractIndex c)"

lemma key_ID: "key a = key b \<Longrightarrow> Claim_ID keccak256 a = Claim_ID keccak256 b"
  by (simp add: key_def Claim_ID_def ID_preimage_def)

definition counter_move :: "(Position \<Rightarrow> Hash) \<Rightarrow> gameState \<Rightarrow> nat \<Rightarrow> Claim" where
  "counter_move V g i = new_claim (claim_at g i) (V (reply V g i)) (reply V g i)"

definition step_claim :: "gameState \<Rightarrow> nat \<Rightarrow> Claim" where
  "step_claim g i = new_claim (claim_at g i) 0 (posn g i)"

text \<open>A game as loaded from the contract while it is in progress: no two claims with the same position, value and
  parent, only leaves countered, and moves are possible.\<close>

definition open_game :: "keccak \<Rightarrow> gameState \<Rightarrow> bool" where
  "open_game keccak256 g \<longleftrightarrow> wf_game g \<and> gs_depth g \<noteq> 0 \<and> g = NewGameState keccak256 (gs_claims g) (gs_depth g) \<and>
     distinct (map key (gs_claims g)) \<and>
     (\<forall>c \<in> set (gs_claims g). pos_depth (cl_Position c) \<noteq> gs_depth g \<longrightarrow> cl_CounteredBy c = 0)"

text \<open>No claim of the game has the identifier of another claim, of a counter or of a step.\<close>

definition ids_faithful :: "keccak \<Rightarrow> (Position \<Rightarrow> Hash) \<Rightarrow> gameState \<Rightarrow> bool" where
  "ids_faithful keccak256 V g \<longleftrightarrow>
     (\<forall>i < length (gs_claims g). \<forall>j < length (gs_claims g).
        \<forall>c \<in> {claim_at g j, counter_move V g j, step_claim g j}.
          Claim_ID keccak256 (claim_at g i) = Claim_ID keccak256 c \<longrightarrow> key (claim_at g i) = key c)"

text \<open>The positions an accessor is asked for: those of the tree, and the one right of the last leaf.\<close>

definition asked :: "gameState \<Rightarrow> Position \<Rightarrow> bool" where
  "asked g p \<longleftrightarrow> 0 \<le> IndexAtDepth p \<and> IndexAtDepth p \<le> 2 ^ unat (pos_depth p) \<and> pos_depth p \<le> gs_depth g"

text \<open>An accessor of one trace: it does not panic, a value it returns is that of the trace at the position, and
  the state it returns for a step hashes, but for the first byte, to the value one trace index before.\<close>

definition accessor_of :: "keccak \<Rightarrow> (Position \<Rightarrow> Hash) \<Rightarrow> gameState \<Rightarrow> 'c TraceAccessor \<Rightarrow> bool" where
  "accessor_of keccak256 V g trace \<longleftrightarrow>
     (\<forall>c \<in> set (gs_claims g). \<forall>p. asked g p \<longrightarrow>
        (\<exists>r. ta_Get trace g c p = Some r \<and> (\<forall>v. r = Inr v \<longrightarrow> v = V p))) \<and>
     (\<forall>c \<in> set (gs_claims g). \<forall>p. asked g p \<longrightarrow>
        (\<exists>r. ta_GetStepData trace g c p = Some r \<and>
           (\<forall>pre pfd orc q. r = Inr (pre, pfd, orc) \<longrightarrow> node q \<longrightarrow> pos_depth q \<le> gs_depth g \<longrightarrow>
              tidx (gs_depth g) q = tidx (gs_depth g) p - 1 \<longrightarrow>
              drop 1 (be_put 32 (keccak256 pre)) = drop 1 (be_put 32 (V q))))) \<and>
     (\<exists>r. ta_GetL2BlockNumberChallenge trace g = Some r)"

lemma asked_node: "node p \<Longrightarrow> pos_depth p \<le> gs_depth g \<Longrightarrow> asked g p"
  by (simp add: asked_def node_def)

lemma asked_claim: "wf_game g \<Longrightarrow> i < length (gs_claims g) \<Longrightarrow> asked g (posn g i)"
  by (rule asked_node) (rule wf_node, assumption+, rule wf_depth)

section \<open>The tracker\<close>

text \<open>The claims with a counter: countered and above the maximal depth.\<close>

definition moved :: "(Position \<Rightarrow> Hash) \<Rightarrow> gameState \<Rightarrow> nat \<Rightarrow> bool" where
  "moved V g j \<longleftrightarrow> countered V g j \<and> pos_depth (posn g j) \<noteq> gs_depth g"

definition tracks :: "keccak \<Rightarrow> (Position \<Rightarrow> Hash) \<Rightarrow> gameState \<Rightarrow> nat \<Rightarrow> honestClaimTracker \<Rightarrow> bool" where
  "tracks keccak256 V g k t \<longleftrightarrow>
     (\<forall>x. hc_agreed t x \<longleftrightarrow> agrees V g 0 \<and> x = Claim_ID keccak256 (claim_at g 0) \<or>
        (\<exists>j < k. moved V g j \<and> x = Claim_ID keccak256 (counter_move V g j))) \<and>
     (\<forall>j < length (gs_claims g). hc_counters t (Claim_ID keccak256 (claim_at g j)) =
        (if j < k \<and> moved V g j then Some (counter_move V g j) else None))"

lemma open_wf: "open_game keccak256 g \<Longrightarrow> wf_game g"
  by (simp add: open_game_def)

lemma key_inj: "open_game keccak256 g \<Longrightarrow> i < length (gs_claims g) \<Longrightarrow> j < length (gs_claims g) \<Longrightarrow>
    key (claim_at g i) = key (claim_at g j) \<Longrightarrow> i = j"
  by (auto simp: open_game_def nth_eq_iff_index_eq [symmetric] distinct_conv_nth)

lemma faithful_claim: "ids_faithful keccak256 V g \<Longrightarrow> i < length (gs_claims g) \<Longrightarrow> j < length (gs_claims g) \<Longrightarrow>
    Claim_ID keccak256 (claim_at g i) = Claim_ID keccak256 (claim_at g j) \<Longrightarrow> key (claim_at g i) = key (claim_at g j)"
  and faithful_move: "ids_faithful keccak256 V g \<Longrightarrow> i < length (gs_claims g) \<Longrightarrow> j < length (gs_claims g) \<Longrightarrow>
    Claim_ID keccak256 (claim_at g i) = Claim_ID keccak256 (counter_move V g j) \<Longrightarrow>
    key (claim_at g i) = key (counter_move V g j)"
  and faithful_step: "ids_faithful keccak256 V g \<Longrightarrow> i < length (gs_claims g) \<Longrightarrow> j < length (gs_claims g) \<Longrightarrow>
    Claim_ID keccak256 (claim_at g i) = Claim_ID keccak256 (step_claim g j) \<Longrightarrow> key (claim_at g i) = key (step_claim g j)"
  unfolding ids_faithful_def by blast+

lemma ID_inj:
  "open_game keccak256 g \<Longrightarrow> ids_faithful keccak256 V g \<Longrightarrow> i < length (gs_claims g) \<Longrightarrow> j < length (gs_claims g) \<Longrightarrow>
    Claim_ID keccak256 (claim_at g i) = Claim_ID keccak256 (claim_at g j) \<longleftrightarrow> i = j"
  using faithful_claim key_inj by blast

lemma key_counter_move:
  "wf_game g \<Longrightarrow> j < length (gs_claims g) \<Longrightarrow> key (counter_move V g j) = (reply V g j, V (reply V g j), int j)"
  by (simp add: counter_move_def new_claim_def key_def wf_index)

lemma reply_depth:
  "pos_depth (reply V g j) = pos_depth (posn g j) + 1"
  by (simp add: reply_def depth_moves)

lemma not_max_depth: "wf_game g \<Longrightarrow> j < length (gs_claims g) \<Longrightarrow> pos_depth (posn g j) \<noteq> gs_depth g \<Longrightarrow>
    pos_depth (posn g j) < gs_depth g"
  using wf_depth by (simp add: order.not_eq_order_implies_strict)

lemma Suc_depth_not_zero: "d < (m :: u64) \<Longrightarrow> d + 1 \<noteq> 0"
  using unat_Suc_depth by (metis Suc_eq_plus1 nat.distinct(1) unsigned_0)

text \<open>The honest claims are those the tracker holds.\<close>

lemma counter_is_honest:
  assumes "open_game keccak256 g" "i < length (gs_claims g)" "j < length (gs_claims g)" "moved V g j"
    and key: "key (claim_at g i) = key (counter_move V g j)"
  shows "0 < i \<and> par g i = j \<and> honest V g i"
proof -
  note wf = open_wf [OF assms(1)]
  have k: "posn g i = reply V g j" "val g i = V (reply V g j)" "cl_ParentContractIndex (claim_at g i) = int j"
    using key unfolding key_counter_move [OF wf assms(3)] by (simp_all add: key_def)
  have "pos_depth (posn g j) < gs_depth g"
    using assms(4) not_max_depth [OF wf assms(3)] by (simp add: moved_def)
  then have "pos_depth (posn g i) \<noteq> 0" unfolding k(1) reply_depth by (rule Suc_depth_not_zero)
  then have i: "0 < i" using wf_root(2) [OF wf] by (cases "i = 0") (simp_all add: RootPosition_eq)
  have par: "par g i = j" using k(3) by (simp add: par_def)
  then show ?thesis using i k assms(4) child_status(1) [OF wf assms(2) i, of V] by (simp add: moved_def agrees_def)
qed

lemma honest_moved:
  assumes "wf_game g" "i < length (gs_claims g)" "0 < i" "honest V g i"
  shows "moved V g (par g i) \<and> key (claim_at g i) = key (counter_move V g (par g i))"
proof
  note p = wf_par [OF assms(1-3)]
  have h: "countered V g (par g i)" "posn g i = reply V g (par g i)" "agrees V g i"
    using child_status(1) [OF assms(1-3), of V] assms(4) by simp_all
  show "moved V g (par g i)" using h(1) p(4) by (auto simp: moved_def)
  show "key (claim_at g i) = key (counter_move V g (par g i))"
    unfolding key_counter_move [OF assms(1) p(2)] using h p(3) by (simp add: key_def agrees_def)
qed

lemma tracks_IsHonest:
  assumes "open_game keccak256 g" "ids_faithful keccak256 V g" "tracks keccak256 V g k t" "k < length (gs_claims g)" "i \<le> k"
  shows "IsHonest keccak256 t (claim_at g i) \<longleftrightarrow> honest V g i"
proof -
  note wf = open_wf [OF assms(1)]
  have i: "i < length (gs_claims g)" using assms(4,5) by simp
  have "IsHonest keccak256 t (claim_at g i) \<longleftrightarrow>
      agrees V g 0 \<and> Claim_ID keccak256 (claim_at g i) = Claim_ID keccak256 (claim_at g 0) \<or>
      (\<exists>j < k. moved V g j \<and> Claim_ID keccak256 (claim_at g i) = Claim_ID keccak256 (counter_move V g j))"
    using assms(3) by (simp add: tracks_def IsHonest_def)
  also have "\<dots> \<longleftrightarrow> agrees V g 0 \<and> i = 0 \<or> (\<exists>j < k. moved V g j \<and> key (claim_at g i) = key (counter_move V g j))"
  proof -
    have "Claim_ID keccak256 (claim_at g i) = Claim_ID keccak256 (counter_move V g j) \<longleftrightarrow>
        key (claim_at g i) = key (counter_move V g j)" if "j < k" for j
      using faithful_move [OF assms(2) i] key_ID less_trans [OF that assms(4)] by blast
    then show ?thesis using ID_inj [OF assms(1,2) i wf_root(1) [OF wf]] by auto
  qed
  also have "\<dots> \<longleftrightarrow> honest V g i"
  proof
    assume "agrees V g 0 \<and> i = 0 \<or> (\<exists>j < k. moved V g j \<and> key (claim_at g i) = key (counter_move V g j))"
    then show "honest V g i" using counter_is_honest [OF assms(1) i] assms(4) root_status(1) less_trans by blast
  next
    assume honest: "honest V g i"
    show "agrees V g 0 \<and> i = 0 \<or> (\<exists>j < k. moved V g j \<and> key (claim_at g i) = key (counter_move V g j))"
    proof (cases "i = 0")
      case False
      then have pos: "0 < i" by simp
      then show ?thesis using honest_moved [OF wf i pos honest] wf_par(1) [OF wf i pos] assms(5) by (metis order.strict_trans2)
    qed (use honest root_status(1) in simp)
  qed
  finally show ?thesis .
qed

lemma tracks_HonestCounter:
  "tracks keccak256 V g k t \<Longrightarrow> j < length (gs_claims g) \<Longrightarrow> j < k \<Longrightarrow>
    HonestCounter keccak256 t (claim_at g j) = (if moved V g j then Some (counter_move V g j) else None)"
  by (simp add: tracks_def HonestCounter_def)

lemma tracks_shouldCounter:
  assumes "open_game keccak256 g" "ids_faithful keccak256 V g" "tracks keccak256 V g i t" "i < length (gs_claims g)"
  shows "shouldCounter keccak256 g (claim_at g i) t = Some (Inr (countered V g i))"
proof (cases "i = 0")
  note wf = open_wf [OF assms(1)]
  case True
  then show ?thesis using tracks_IsHonest [OF assms order_refl] wf_root(3) [OF wf] root_status [of V g]
    by (simp add: shouldCounter_def)
next
  note wf = open_wf [OF assms(1)]
  case False
  then have pos: "0 < i" by simp
  note p = wf_par [OF wf assms(4) pos]
  have par: "GetParent g (claim_at g i) = Inr (claim_at g (par g i))"
    using wf_getParent [OF wf assms(4) pos] by (simp add: GetParent_def)
  have root: "\<not> IsRoot (claim_at g i)" using wf_IsRoot [OF wf assms(4)] False by simp
  have hp: "IsHonest keccak256 t (claim_at g (par g i)) \<longleftrightarrow> honest V g (par g i)"
    using tracks_IsHonest [OF assms, of "par g i"] p(1) by simp
  have hc: "HonestCounter keccak256 t (claim_at g (par g i)) =
      (if countered V g (par g i) then Some (counter_move V g (par g i)) else None)"
    using tracks_HonestCounter [OF assms(3) p(2,1)] p(4) by (auto simp: moved_def)
  have "pos_depth (reply V g (par g i)) \<le> gs_depth g" unfolding reply_depth by (rule move_depth(2) [OF p(4)])
  then have t: "TraceIndex (gs_depth g) (cl_Position (counter_move V g (par g i))) =
      Some (tidx (gs_depth g) (reply V g (par g i)))"
    by (simp add: counter_move_def new_claim_def TraceIndex_tidx)
  show ?thesis
    using tracks_IsHonest [OF assms order_refl] child_status(2) [OF wf assms(4) pos, of V]
    by (simp add: shouldCounter_def root par hp hc t wf_TraceIndex [OF wf assms(4)])
qed

lemma tracks_skip: "tracks keccak256 V g i t \<Longrightarrow> \<not> moved V g i \<Longrightarrow> tracks keccak256 V g (Suc i) t"
  by (auto simp: tracks_def less_Suc_eq)

lemma tracks_add:
  assumes "open_game keccak256 g" "ids_faithful keccak256 V g" "tracks keccak256 V g i t" "i < length (gs_claims g)" "moved V g i"
  shows "tracks keccak256 V g (Suc i) (AddHonestClaim keccak256 (claim_at g i) (counter_move V g i) t)"
  using assms(3,5) claim_not_zero [OF open_wf [OF assms(1)] assms(4)] ID_inj [OF assms(1,2) _ assms(4)]
  by (auto simp: tracks_def AddHonestClaim_def less_Suc_eq)

section \<open>The actions\<close>

definition move_action :: "(Position \<Rightarrow> Hash) \<Rightarrow> gameState \<Rightarrow> nat \<Rightarrow> 'c Action" where
  "move_action V g i =
     \<lparr>act_Type = ActionTypeMove, act_ParentClaim = claim_at g i, act_IsAttack = (\<not> agrees V g i),
      act_Value = V (reply V g i), act_PreState = [], act_ProofData = [], act_OracleData = None, act_Challenge = None\<rparr>"

definition step_action :: "(Position \<Rightarrow> Hash) \<Rightarrow> gameState \<Rightarrow> nat \<Rightarrow> bytes \<Rightarrow> bytes \<Rightarrow> PreimageOracleData option \<Rightarrow> 'c Action" where
  "step_action V g i pre pfd orc =
     \<lparr>act_Type = ActionTypeStep, act_ParentClaim = claim_at g i, act_IsAttack = (\<not> agrees V g i),
      act_Value = 0, act_PreState = pre, act_ProofData = pfd, act_OracleData = orc, act_Challenge = None\<rparr>"

definition step_position :: "(Position \<Rightarrow> Hash) \<Rightarrow> gameState \<Rightarrow> nat \<Rightarrow> Position" where
  "step_position V g i = (if agrees V g i then MoveRight (posn g i) else posn g i)"

text \<open>The response to a claim, if there is one.\<close>

definition response :: "keccak \<Rightarrow> (Position \<Rightarrow> Hash) \<Rightarrow> gameState \<Rightarrow> 'c TraceAccessor \<Rightarrow> nat \<Rightarrow> 'c Action option" where
  "response keccak256 V g trace i =
     (if \<not> countered V g i then None
      else if pos_depth (posn g i) \<noteq> gs_depth g then
        (if IsDuplicate keccak256 g (counter_move V g i) then None else Some (move_action V g i))
      else if cl_CounteredBy (claim_at g i) \<noteq> 0 then None
      else
        (case ta_GetStepData trace g (claim_at g i) (step_position V g i) of
           Some (Inr (pre, pfd, orc)) \<Rightarrow> Some (step_action V g i pre pfd orc)
         | _ \<Rightarrow> None))"

lemma asked_reply:
  assumes "wf_game g" "i < length (gs_claims g)" "pos_depth (posn g i) < gs_depth g" "agrees V g i \<Longrightarrow> i \<noteq> 0"
  shows "asked g (reply V g i)"
proof (rule asked_node)
  note i = wf_node [OF assms(1,2)] wf_even [OF assms(1,2)]
  show "node (reply V g i)"
    using node_Attack [OF i(1) assms(3)] node_Defend [OF i(1) assms(3) i(2)] wf_nonroot [OF assms(1,2)] assms(4)
    by (simp add: reply_def)
  show "pos_depth (reply V g i) \<le> gs_depth g" unfolding reply_depth by (rule move_depth(2) [OF assms(3)])
qed

lemma asked_step: "wf_game g \<Longrightarrow> i < length (gs_claims g) \<Longrightarrow> asked g (step_position V g i)"
  using wf_node [of g i] wf_depth [of g i] by (simp add: asked_def step_position_def MoveRight_def node_def)

lemma accessor_Get:
  assumes "accessor_of keccak256 V g trace" "i < length (gs_claims g)" "asked g p"
  obtains (err) e where "ta_Get trace g (claim_at g i) p = Some (Inl e)"
  | (ok) "ta_Get trace g (claim_at g i) p = Some (Inr (V p))"
proof -
  obtain r where "ta_Get trace g (claim_at g i) p = Some r" "\<forall>v. r = Inr v \<longrightarrow> v = V p"
    using assms unfolding accessor_of_def by (meson nth_mem)
  then show ?thesis using err ok by (cases r) auto
qed

lemma accessor_StepData:
  assumes "accessor_of keccak256 V g trace" "i < length (gs_claims g)" "asked g p"
  obtains (err) e where "ta_GetStepData trace g (claim_at g i) p = Some (Inl e)"
  | (data) pre pfd orc where "ta_GetStepData trace g (claim_at g i) p = Some (Inr (pre, pfd, orc))"
proof -
  obtain r where "ta_GetStepData trace g (claim_at g i) p = Some r"
    using assms unfolding accessor_of_def by (meson nth_mem)
  then show ?thesis using err data by (cases r) auto
qed

lemma agreeWithClaim_cases:
  assumes "accessor_of keccak256 V g (cs_trace s)" "i < length (gs_claims g)" "wf_game g"
  obtains (err) e where "agreeWithClaim s g (claim_at g i) = Some (Inl e)"
  | (ok) "agreeWithClaim s g (claim_at g i) = Some (Inr (agrees V g i))"
proof (cases rule: accessor_Get [OF assms(1,2) asked_claim [OF assms(3,2)]])
  case (1 e)
  then show ?thesis using err by (simp add: agreeWithClaim_def)
next
  case 2
  then show ?thesis using ok by (simp add: agreeWithClaim_def agrees_def)
qed

text \<open>A step, unless a query fails, is the response.\<close>

lemma calculateStep_cases:
  assumes "open_game keccak256 g" "ids_faithful keccak256 V g" "accessor_of keccak256 V g (cs_trace s)"
    "cs_gameDepth s = gs_depth g" "tracks keccak256 V g i t" "i < length (gs_claims g)" "pos_depth (posn g i) = gs_depth g"
  obtains (err) e where "calculateStep keccak256 s g (claim_at g i) t = Some (Inl e)"
  | (response) "calculateStep keccak256 s g (claim_at g i) t = Some (Inr (response keccak256 V g (cs_trace s) i))"
proof (cases "cl_CounteredBy (claim_at g i) \<noteq> 0 \<or> \<not> countered V g i")
  case True
  have "calculateStep keccak256 s g (claim_at g i) t = Some (Inr None)"
    using True tracks_shouldCounter [OF assms(1,2,5,6)] assms(4,7) by (auto simp: calculateStep_def AttemptStep_def)
  moreover have "response keccak256 V g (cs_trace s) i = (None :: 'a Action option)"
    using True assms(7) by (auto simp: response_def)
  ultimately show ?thesis using response by simp
next
  case False
  note counter = tracks_shouldCounter [OF assms(1,2,5,6)]
  show ?thesis
  proof (cases rule: agreeWithClaim_cases [OF assms(3,6) open_wf [OF assms(1)]])
    case (1 e)
    then show ?thesis using that(1) False counter assms(4,7) by (simp add: calculateStep_def AttemptStep_def)
  next
    case 2
    have run: "AttemptStep keccak256 s g (claim_at g i) t =
        (case ta_GetStepData (cs_trace s) g (claim_at g i) (step_position V g i) of
           None \<Rightarrow> None
         | Some (Inl err) \<Rightarrow> Some (Inl err)
         | Some (Inr (preState, proofData, oracleData)) \<Rightarrow>
             Some (Inr (Some \<lparr>sd_LeafClaim = claim_at g i, sd_IsAttack = (\<not> agrees V g i), sd_PreState = preState,
               sd_ProofData = proofData, sd_OracleData = oracleData\<rparr>)))"
      using 2 False counter assms(4,7) by (simp add: AttemptStep_def step_position_def)
    show ?thesis
    proof (cases rule: accessor_StepData [OF assms(3,6) asked_step [OF open_wf [OF assms(1)] assms(6)], of V])
      case (1 e)
      then show ?thesis using that(1) False run by (simp add: calculateStep_def)
    next
      case (2 pre pfd orc)
      then show ?thesis using that(2) False run assms(7) by (simp add: calculateStep_def response_def step_action_def)
    qed
  qed
qed

text \<open>So is a move, and the tracker goes on to the next claim.\<close>

lemma counter_move_simps:
  "wf_game g \<Longrightarrow> i < length (gs_claims g) \<Longrightarrow> cl_ParentContractIndex (counter_move V g i) = int i"
  "cl_Value (counter_move V g i) = V (reply V g i)" "cl_Position (counter_move V g i) = reply V g i"
  by (simp_all add: counter_move_def new_claim_def wf_index)

lemma counter_move_DefendsParent:
  assumes "wf_game g" "i < length (gs_claims g)" "pos_depth (posn g i) < gs_depth g"
  shows "DefendsParent g (counter_move V g i) \<longleftrightarrow> agrees V g i"
proof -
  have "\<not> IsRoot (counter_move V g i)"
    using Suc_depth_not_zero [OF assms(3)] by (simp add: IsRoot_def IsRootPosition_def counter_move_simps reply_depth)
  then have "getParent g (counter_move V g i) = Some (claim_at g i)"
    using assms(2) by (simp add: getParent_def counter_move_simps assms(1))
  then show ?thesis using RightOf_moves wf_even [OF assms(1,2)]
    by (simp add: DefendsParent_def counter_move_simps reply_def)
qed

lemma NextMove_cases:
  assumes "open_game keccak256 g" "ids_faithful keccak256 V g" "accessor_of keccak256 V g (cs_trace s)"
    "cs_gameDepth s = gs_depth g" "tracks keccak256 V g i t" "i < length (gs_claims g)" "pos_depth (posn g i) \<noteq> gs_depth g"
  obtains (err) e where "NextMove keccak256 s (claim_at g i) g t = Some (Inl e)"
  | (skip) "\<not> countered V g i" "NextMove keccak256 s (claim_at g i) g t = Some (Inr None)"
  | (move) "countered V g i" "NextMove keccak256 s (claim_at g i) g t = Some (Inr (Some (counter_move V g i)))"
proof (cases "countered V g i")
  case False
  then show ?thesis using that(2) tracks_shouldCounter [OF assms(1,2,5,6)] assms(4,7) by (simp add: NextMove_def)
next
  case True
  note wf = open_wf [OF assms(1)]
  note counter = tracks_shouldCounter [OF assms(1,2,5,6)]
  have nonroot: "agrees V g i \<Longrightarrow> i \<noteq> 0" using True root_status(2) [of V g] by metis
  then have root: "agrees V g i \<Longrightarrow> \<not> IsRoot (claim_at g i)" using wf_IsRoot [OF wf assms(6)] by simp
  have reply: "asked g (reply V g i)"
    by (rule asked_reply [OF wf assms(6) not_max_depth [OF wf assms(6,7)] nonroot])
  show ?thesis
  proof (cases rule: agreeWithClaim_cases [OF assms(3,6) open_wf [OF assms(1)]])
    case (1 e)
    then show ?thesis using that(1) True counter assms(4,7) by (simp add: NextMove_def)
  next
    case 2
    have run: "NextMove keccak256 s (claim_at g i) g t =
        (if agrees V g i then solver_defend s g (claim_at g i) else solver_attack s g (claim_at g i))"
      using 2 True counter assms(4,7) by (simp add: NextMove_def)
    show ?thesis
    proof (cases rule: accessor_Get [OF assms(3,6) reply])
      case (1 e)
      have "\<exists>e. NextMove keccak256 s (claim_at g i) g t = Some (Inl e)"
        using 1 root unfolding run by (auto simp: solver_defend_def solver_attack_def reply_def)
      then show ?thesis using that(1) by blast
    next
      case 2
      have "NextMove keccak256 s (claim_at g i) g t = Some (Inr (Some (counter_move V g i)))"
        using 2 root unfolding run by (auto simp: solver_defend_def solver_attack_def reply_def counter_move_def Let_def)
      then show ?thesis using that(3) True by blast
    qed
  qed
qed

lemma calculateMove_cases:
  assumes "open_game keccak256 g" "ids_faithful keccak256 V g" "accessor_of keccak256 V g (cs_trace s)"
    "cs_gameDepth s = gs_depth g" "tracks keccak256 V g i t" "i < length (gs_claims g)" "pos_depth (posn g i) \<noteq> gs_depth g"
  obtains (err) e t' where "calculateMove keccak256 s g (claim_at g i) t = Some (Inl e, t')"
  | (response) t' where "calculateMove keccak256 s g (claim_at g i) t = Some (Inr (response keccak256 V g (cs_trace s) i), t')"
      "tracks keccak256 V g (Suc i) t'"
proof (cases rule: NextMove_cases [OF assms])
  case (1 e)
  then show ?thesis using that(1) by (simp add: calculateMove_def)
next
  case 2
  then show ?thesis using that(2) tracks_skip [OF assms(5)]
    by (simp add: calculateMove_def response_def moved_def)
next
  case 3
  note wf = open_wf [OF assms(1)]
  note depth = not_max_depth [OF wf assms(6,7)]
  have "moved V g i" using 3(1) assms(7) by (simp add: moved_def)
  note add = tracks_add [OF assms(1,2,5,6) this]
  have "calculateMove keccak256 s g (claim_at g i) t = Some (Inr (response keccak256 V g (cs_trace s) i),
      AddHonestClaim keccak256 (claim_at g i) (counter_move V g i) t)"
    using 3 assms(6,7) counter_move_DefendsParent [OF wf assms(6) depth]
    by (simp add: calculateMove_def response_def move_action_def counter_move_simps wf Let_def)
  then show ?thesis using that(2) add by blast
qed

text \<open>The loop: it ends after the claims or at the first that fails.\<close>

lemma loop_responses:
  assumes "open_game keccak256 g" "ids_faithful keccak256 V g" "accessor_of keccak256 V g (cs_trace s)"
    "cs_gameDepth s = gs_depth g"
  shows "tracks keccak256 V g i t \<Longrightarrow> i \<le> length (gs_claims g) \<Longrightarrow>
    actions = List.map_filter (response keccak256 V g (cs_trace s)) [0..<i] \<Longrightarrow>
    \<exists>k err. CalculateNextActions_loop keccak256 s g (drop i (gs_claims g)) actions t =
        Some (List.map_filter (response keccak256 V g (cs_trace s)) [0..<k], err) \<and>
      (err = None \<longrightarrow> k = length (gs_claims g)) \<and> k \<le> length (gs_claims g)"
proof (induction "length (gs_claims g) - i" arbitrary: i t actions)
  case 0
  then show ?case by (intro exI [of _ i] exI [of _ None]) simp
next
  case (Suc n)
  then have i: "i < length (gs_claims g)" by simp
  let ?r = "response keccak256 V g (cs_trace s)"
  let ?actions = "List.map_filter ?r [0..<Suc i]"
  have acts: "?actions = actions @ (case ?r i of None \<Rightarrow> [] | Some a \<Rightarrow> [a])"
    using Suc.prems(3) by (simp add: List.map_filter_def split: option.splits)
  note claims = Cons_nth_drop_Suc [OF i, symmetric]
  have stop: ?case if "CalculateNextActions_loop keccak256 s g (drop i (gs_claims g)) actions t = Some (actions, Some e)" for e
    using that Suc.prems(2,3) by blast
  have continue: ?case if "tracks keccak256 V g (Suc i) t'"
    "CalculateNextActions_loop keccak256 s g (drop i (gs_claims g)) actions t =
       CalculateNextActions_loop keccak256 s g (drop (Suc i) (gs_claims g)) ?actions t'" for t'
    unfolding that(2) by (rule Suc.hyps(1) [OF _ that(1) _ refl]) (use Suc.hyps(2) i in simp_all)
  show ?case
  proof (cases "pos_depth (posn g i) = gs_depth g")
    case True
    have skip: "tracks keccak256 V g (Suc i) t"
      by (rule tracks_skip [OF Suc.prems(1)]) (use True in \<open>simp add: moved_def\<close>)
    show ?thesis
    proof (cases rule: calculateStep_cases [OF assms Suc.prems(1) i True])
      case (1 e)
      then show ?thesis using stop True by (simp add: claims)
    next
      case 2
      show ?thesis by (rule continue [OF skip]) (use 2 True in \<open>simp add: claims acts split: option.split del: upt_Suc\<close>)
    qed
  next
    case False
    show ?thesis
    proof (cases rule: calculateMove_cases [OF assms Suc.prems(1) i False])
      case (1 e t')
      then show ?thesis using stop False by (simp add: claims)
    next
      case (2 t')
      show ?thesis by (rule continue [OF 2(2)]) (use 2(1) False in \<open>simp add: claims acts split: option.split del: upt_Suc\<close>)
    qed
  qed
qed

definition challenge_action :: "'c \<Rightarrow> 'c Action" where
  "challenge_action challenge =
     \<lparr>act_Type = ActionTypeChallengeL2BlockNumber, act_ParentClaim = zero_Claim, act_IsAttack = False,
      act_Value = 0, act_PreState = [], act_ProofData = [], act_OracleData = None, act_Challenge = Some challenge\<rparr>"

text \<open>The actions of a run: a challenge of the block number, or the responses to the claims before the one that fails.\<close>

lemma run_actions:
  assumes "open_game keccak256 g" "ids_faithful keccak256 V g" "accessor_of keccak256 V g (cs_trace s)"
    "cs_gameDepth s = gs_depth g"
  shows "(\<exists>challenge. ta_GetL2BlockNumberChallenge (cs_trace s) g = Some (Inr challenge) \<and> agrees V g 0 \<and>
      CalculateNextActions keccak256 s g = Some ([challenge_action challenge], None)) \<or>
    (\<exists>k err. CalculateNextActions keccak256 s g =
        Some (List.map_filter (response keccak256 V g (cs_trace s)) [0..<k], err) \<and>
      (err = None \<longrightarrow> k = length (gs_claims g)) \<and> k \<le> length (gs_claims g))"
proof -
  note wf = open_wf [OF assms(1)]
  note n = wf_root(1) [OF wf]
  then have nonempty: "gs_claims g \<noteq> []" by simp
  have zero: "\<exists>k err. Some ([], Some e) = Some (List.map_filter (response keccak256 V g (cs_trace s)) [0..<k], err) \<and>
      (err = None \<longrightarrow> k = length (gs_claims g)) \<and> k \<le> length (gs_claims g)" for e :: gerr
    by (intro exI [of _ 0] exI [of _ "Some e"]) (simp add: List.map_filter_def)
  have loop: "tracks keccak256 V g 0 t \<Longrightarrow>
      \<exists>k err. CalculateNextActions_loop keccak256 s g (gs_claims g) [] t =
        Some (List.map_filter (response keccak256 V g (cs_trace s)) [0..<k], err) \<and>
      (err = None \<longrightarrow> k = length (gs_claims g)) \<and> k \<le> length (gs_claims g)" for t
    using loop_responses [OF assms, of 0 t "[]"] by (simp add: List.map_filter_def)
  show ?thesis
  proof (cases rule: agreeWithClaim_cases [OF assms(3) n wf])
    case (1 e)
    then show ?thesis using zero nonempty by (simp add: CalculateNextActions_def AgreeWithRootClaim_def)
  next
    case 2
    then have root: "AgreeWithRootClaim s g = Some (Inr (agrees V g 0))" using nonempty by (simp add: AgreeWithRootClaim_def)
    obtain r where r: "ta_GetL2BlockNumberChallenge (cs_trace s) g = Some r"
      using assms(3) unfolding accessor_of_def by blast
    show ?thesis
    proof (cases "agrees V g 0")
      case False
      have "tracks keccak256 V g 0 newHonestClaimTracker"
        using False by (simp add: tracks_def newHonestClaimTracker_def)
      then show ?thesis using loop root False by (simp add: CalculateNextActions_def)
    next
      case True
      have "tracks keccak256 V g 0 (AddHonestClaim keccak256 zero_Claim (claim_at g 0) newHonestClaimTracker)"
        using True by (simp add: tracks_def newHonestClaimTracker_def AddHonestClaim_def)
      then show ?thesis using loop root True zero r
        by (cases r) (auto simp: CalculateNextActions_def challenge_action_def)
    qed
  qed
qed

end
