(* ===== verification/FaultSafety.thy ===== *)
theory FaultSafety
  imports FaultPlay
begin

text \<open>
  The actions of the honest actor keep the rules of solver/rules.go.
\<close>

section \<open>Ancestors of a response\<close>

lemma response_cases:
  assumes "response keccak256 V g trace i = Some a"
  obtains (move) "countered V g i" "pos_depth (posn g i) \<noteq> gs_depth g" "\<not> IsDuplicate keccak256 g (counter_move V g i)"
      "a = move_action V g i"
  | (step) pre pfd orc where "countered V g i" "pos_depth (posn g i) = gs_depth g" "cl_CounteredBy (claim_at g i) = 0"
      "ta_GetStepData trace g (claim_at g i) (step_position V g i) = Some (Inr (pre, pfd, orc))"
      "a = step_action V g i pre pfd orc"
  using assms that by (auto simp: response_def split: if_splits option.splits sum.splits prod.splits)

lemma tix_inj:
  assumes "wf_game g" "i < length (gs_claims g)"
  shows "inj_on (tix g) (set (i # ancestors g i))"
  using assms
proof (induction rule: path_induct)
  case (child i)
  have "inj_on (tix g) (set (ancestors g i))"
    using child(3) by (simp only: ancestors_step [OF assms(1) child(1,2)])
  moreover have "tix g i \<notin> tix g ` (set (ancestors g i) - {i})"
  proof
    assume "tix g i \<in> tix g ` (set (ancestors g i) - {i})"
    then obtain j where "j \<in> set (ancestors g i)" "tix g i = tix g j" by blast
    then show False using AncestorWithTraceIndex_unique [OF assms(1) child(1)] by force
  qed
  ultimately show ?case by (simp only: list.set inj_on_insert simp_thms)
qed (simp add: ancestors_root)

lemma before_agrees:
  assumes "wf_game g" "i < length (gs_claims g)" "relevant V g i" "agrees V g i \<or> tix g j < tix g i"
    "j \<in> set (i # ancestors g i)" "tix g j < upp g i"
  shows "agrees V g j"
  using left_agrees [OF assms(1-3)] assms(4-6) by auto

lemma reply_bounds:
  assumes "wf_game g" "i < length (gs_claims g)" "pos_depth (posn g i) < gs_depth g"
  shows "lower (gs_depth g) (reply V g i) = (if agrees V g i then tix g i else low g i)"
    "tidx (gs_depth g) (reply V g i) < upp g i"
    "\<not> agrees V g i \<Longrightarrow> tidx (gs_depth g) (reply V g i) < tix g i"
proof -
  note a = bounds_Attack [OF assms(3)] tidx_between [of "gs_depth g" "Attack (posn g i)"]
  note d = bounds_Defend [OF assms(3) wf_even [OF assms(1,2)]] tidx_between [of "gs_depth g" "Defend (posn g i)"]
  note i = tidx_between [of "gs_depth g" "posn g i"]
  show "lower (gs_depth g) (reply V g i) = (if agrees V g i then tix g i else low g i)"
    using a d by (simp add: reply_def)
  show "tidx (gs_depth g) (reply V g i) < upp g i" using a d i by (simp add: reply_def)
  show "\<not> agrees V g i \<Longrightarrow> tidx (gs_depth g) (reply V g i) < tix g i" using a by (simp add: reply_def)
qed

lemma before_reply_agrees:
  assumes "wf_game g" "i < length (gs_claims g)" "pos_depth (posn g i) < gs_depth g" "relevant V g i"
    "j \<in> set (i # ancestors g i)" "tix g j < tidx (gs_depth g) (reply V g i)"
  shows "agrees V g j"
proof (rule before_agrees [OF assms(1,2,4) _ assms(5)])
  note b = reply_bounds(2,3) [OF assms(1-3), of V]
  show "agrees V g i \<or> tix g j < tix g i" using b(2) assms(6) by linarith
  show "tix g j < upp g i" using b(1) assms(6) by linarith
qed

lemma path_in: "wf_game g \<Longrightarrow> i < length (gs_claims g) \<Longrightarrow> j \<in> set (i # ancestors g i) \<Longrightarrow> j < length (gs_claims g)"
  using ancestors_in by auto

lemma low_found:
  "wf_game g \<Longrightarrow> i < length (gs_claims g) \<Longrightarrow> 0 \<le> low g i \<Longrightarrow> \<exists>j \<in> set (i # ancestors g i). tix g j = low g i"
  using low_ancestor by fastforce

lemma walk_result_found:
  "\<exists>j \<in> set js. tix g j = idx \<Longrightarrow> \<exists>j \<in> set js. tix g j = idx \<and> walk_result g js idx = (claim_at g j, True)"
  by (rule walk_result_cases [of js g idx]) auto

section \<open>The rules hold\<close>

lemma action_parent_eq:
  "wf_game g \<Longrightarrow> i < length (gs_claims g) \<Longrightarrow> act_ParentClaim a = claim_at g i \<Longrightarrow> action_parent g a = Some (claim_at g i)"
  by (simp add: action_parent_def wf_index)

lemma move_simps [simp]:
  "act_ParentClaim (move_action V g i) = claim_at g i" "act_Type (move_action V g i) = ActionTypeMove"
  "act_IsAttack (move_action V g i) \<longleftrightarrow> \<not> agrees V g i" "act_Value (move_action V g i) = V (reply V g i)"
  by (simp_all add: move_action_def)

lemma step_simps [simp]:
  "act_ParentClaim (step_action V g i pre pfd orc) = claim_at g i" "act_Type (step_action V g i pre pfd orc) = ActionTypeStep"
  "act_IsAttack (step_action V g i pre pfd orc) \<longleftrightarrow> \<not> agrees V g i" "act_Value (step_action V g i pre pfd orc) = 0"
  "act_PreState (step_action V g i pre pfd orc) = pre"
  by (simp_all add: step_action_def)

abbreviation correct :: "(Position \<Rightarrow> Hash) \<Rightarrow> Position \<Rightarrow> Hash res go" where
  "correct V \<equiv> \<lambda>p. Some (Inr (V p))"

lemma move_rules:
  assumes "open_game keccak256 g" "i < length (gs_claims g)" "countered V g i" "pos_depth (posn g i) \<noteq> gs_depth g"
    "\<not> IsDuplicate keccak256 g (counter_move V g i)"
  defines "a \<equiv> move_action V g i :: 'c Action"
  shows "rule_holds (parentMustExist g a)" "rule_holds (onlyStepAtMaxDepth g a)" "rule_holds (onlyMoveBeforeMaxDepth g a)"
    "rule_holds (doNotDuplicateExistingMoves keccak256 g a)" "rule_holds (doNotStepAlreadyCounteredClaims g a)"
    "rule_holds (doNotDefendRootClaim g a)" "rule_holds (avoidPoisonedPrestate g a (correct V))"
    "rule_holds (detectPoisonedStepPrestate keccak256 g a (correct V))" "rule_holds (detectFailedStep g a (correct V))"
proof -
  have act: "act_ParentClaim a = claim_at g i" "act_Type a = ActionTypeMove" "act_IsAttack a \<longleftrightarrow> \<not> agrees V g i"
      "act_Value a = V (reply V g i)"
    by (simp_all add: a_def)
  note wf = open_wf [OF assms(1)]
  note depth = not_max_depth [OF wf assms(2,4)]
  have rel: "relevant V g i" using assms(3) by (simp add: relevant_def)
  have par: "action_parent g a = Some (claim_at g i)" by (rule action_parent_eq [OF wf assms(2)]) (simp add: act)
  have pos: "resultingPosition g a = Some (reply V g i)" using par by (simp add: resultingPosition_def act reply_def)
  have le: "pos_depth (reply V g i) \<le> gs_depth g" unfolding reply_depth by (rule move_depth(2) [OF depth])
  note ti = TraceIndex_tidx [OF le]
  show "rule_holds (parentMustExist g a)" using assms(2) by (simp add: parentMustExist_def rule_holds_def errorf_def act wf_index wf)
  show "rule_holds (onlyStepAtMaxDepth g a)"
    using depth by (simp add: onlyStepAtMaxDepth_def act par rule_holds_def errorf_def)
  show "rule_holds (onlyMoveBeforeMaxDepth g a)" by (simp add: onlyMoveBeforeMaxDepth_def act rule_holds_def)
  have "zero_Claim\<lparr>cl_Value := act_Value a, cl_Position := reply V g i,
      cl_ParentContractIndex := cl_ContractIndex (act_ParentClaim a)\<rparr> = counter_move V g i"
    by (simp add: counter_move_def new_claim_def act)
  then show "rule_holds (doNotDuplicateExistingMoves keccak256 g a)"
    using assms(5) by (simp add: doNotDuplicateExistingMoves_def pos rule_holds_def errorf_def)
  have "cl_CounteredBy (claim_at g i) = 0" using assms(1,2,4) by (simp add: open_game_def)
  then show "rule_holds (doNotStepAlreadyCounteredClaims g a)"
    by (simp add: doNotStepAlreadyCounteredClaims_def par rule_holds_def errorf_def)
  have "IsRootPosition (posn g i) \<Longrightarrow> \<not> agrees V g i"
    using wf_IsRoot [OF wf assms(2)] assms(3) root_status(2) [of V g] by (auto simp: IsRoot_def)
  then show "rule_holds (doNotDefendRootClaim g a)"
    unfolding doNotDefendRootClaim_def par by (auto simp: rule_holds_def errorf_def act)
  show "rule_holds (detectFailedStep g a (correct V))" by (simp add: detectFailedStep_def act rule_holds_def)
  show "rule_holds (avoidPoisonedPrestate g a (correct V))"
  proof -
    let ?t = "tidx (gs_depth g) (reply V g i)"
    obtain r where r: "preState_walk g ?t (claim_at g i) zero_Claim = Some (Some (Inr r))"
      "left_of g ?t (set (i # ancestors g i)) r"
      using preState_walk_left [OF wf assms(2), of ?t "{}" zero_Claim] by (auto simp: left_of_def)
    have "r = zero_Claim \<or> V (cl_Position r) = cl_Value r"
      using r(2) before_reply_agrees [OF wf assms(2) depth rel] by (auto simp: left_of_def agrees_def)
    moreover have "act_Type a \<noteq> ActionTypeStep" by (simp add: act)
    ultimately show ?thesis using r(1) by (auto simp: avoidPoisonedPrestate_def par pos ti rule_holds_def errorf_def)
  qed
  show "rule_holds (detectPoisonedStepPrestate keccak256 g a (correct V))"
  proof (cases "pos_depth (reply V g i) = gs_depth g \<and> \<not> tidx (gs_depth g) (reply V g i) - 1 < 0")
    case False
    then show ?thesis
      by (auto simp: detectPoisonedStepPrestate_def par pos ti rule_holds_def errorf_def Let_def act)
  next
    case True
    let ?t = "tidx (gs_depth g) (reply V g i) - 1"
    have t: "?t = (if agrees V g i then tix g i else low g i)" "0 \<le> ?t"
      using bounds_leaf(1) [of "reply V g i" "gs_depth g"] reply_bounds(1) [OF wf assms(2) depth, of V] True by auto
    have "\<exists>j \<in> set (i # ancestors g i). tix g j = ?t"
      using t low_found [OF wf assms(2)] by (cases "agrees V g i") auto
    then obtain j where j: "j \<in> set (i # ancestors g i)" "tix g j = ?t" "walk_result g (i # ancestors g i) ?t = (claim_at g j, True)"
      using walk_result_found by blast
    have "agrees V g j" by (rule before_reply_agrees [OF wf assms(2) depth rel j(1)]) (use j(2) in simp)
    then show ?thesis using True j(3) AncestorWithTraceIndex_spec [OF wf assms(2), of ?t]
      by (simp add: detectPoisonedStepPrestate_def par pos ti rule_holds_def Let_def act agrees_def)
  qed
qed

lemma word_parity:
  assumes "unat b \<le> unat (a :: u64)"
  shows "(a - b) mod 2 = 0 \<longleftrightarrow> even (unat a - unat b)"
proof -
  have "unat ((a - b) mod 2) = (unat a - unat b) mod 2"
    using assms by (simp add: unat_mod unat_sub word_le_nat_alt)
  then show ?thesis by (metis even_iff_mod_2_eq_zero unat_eq_zero)
qed

lemma step_not_duplicate:
  assumes "open_game keccak256 g" "ids_faithful keccak256 V g" "i < length (gs_claims g)" "pos_depth (posn g i) = gs_depth g"
  shows "\<not> IsDuplicate keccak256 g (step_claim g i)"
proof
  note wf = open_wf [OF assms(1)]
  assume "IsDuplicate keccak256 g (step_claim g i)"
  then obtain c where "c \<in> set (gs_claims g)" "Claim_ID keccak256 c = Claim_ID keccak256 (step_claim g i)"
    using assms(1) IsDuplicate_NewGameState [of keccak256 "gs_claims g" "gs_depth g" "step_claim g i"]
    by (auto simp: open_game_def)
  then obtain j where j: "j < length (gs_claims g)" "Claim_ID keccak256 (claim_at g j) = Claim_ID keccak256 (step_claim g i)"
    by (auto simp: in_set_conv_nth)
  have key: "posn g j = posn g i" "cl_ParentContractIndex (claim_at g j) = int i"
    using faithful_step [OF assms(2) j(1) assms(3) j(2)]
    by (simp_all add: key_def step_claim_def new_claim_def wf_index [OF wf assms(3)])
  have "j \<noteq> 0"
  proof
    assume "j = 0"
    then have "posn g i = RootPosition" using key(1) wf_root(2) [OF wf] by simp
    then show False using assms(1,4) by (simp add: open_game_def RootPosition_eq)
  qed
  then have pos: "0 < j" by simp
  have "par g j = i" using key(2) by (simp add: par_def)
  then show False using wf_par(4) [OF wf j(1) pos] assms(4) by simp
qed

lemma step_rules:
  assumes "open_game keccak256 g" "ids_faithful keccak256 V g" "accessor_of keccak256 V g trace" "i < length (gs_claims g)"
    "countered V g i" "pos_depth (posn g i) = gs_depth g" "cl_CounteredBy (claim_at g i) = 0"
    "ta_GetStepData trace g (claim_at g i) (step_position V g i) = Some (Inr (pre, pfd, orc))"
  defines "a \<equiv> step_action V g i pre pfd orc :: 'c Action"
  shows "rule_holds (parentMustExist g a)" "rule_holds (onlyStepAtMaxDepth g a)" "rule_holds (onlyMoveBeforeMaxDepth g a)"
    "rule_holds (doNotDuplicateExistingMoves keccak256 g a)" "rule_holds (doNotStepAlreadyCounteredClaims g a)"
    "rule_holds (doNotDefendRootClaim g a)" "rule_holds (avoidPoisonedPrestate g a (correct V))"
    "rule_holds (detectPoisonedStepPrestate keccak256 g a (correct V))" "rule_holds (detectFailedStep g a (correct V))"
proof -
  have act: "act_ParentClaim a = claim_at g i" "act_Type a = ActionTypeStep" "act_IsAttack a \<longleftrightarrow> \<not> agrees V g i"
      "act_Value a = 0" "act_PreState a = pre"
    by (simp_all add: a_def)
  note wf = open_wf [OF assms(1)]
  have rel: "relevant V g i" using assms(5) by (simp add: relevant_def)
  have par: "action_parent g a = Some (claim_at g i)" by (rule action_parent_eq [OF wf assms(4)]) (simp add: act)
  have pos: "resultingPosition g a = Some (posn g i)" using par by (simp add: resultingPosition_def act)
  note ti = wf_TraceIndex [OF wf assms(4)]
  note leaf = bounds_leaf [OF assms(6)]
  have i: "agrees V g i \<Longrightarrow> 0 < i" using assms(5) root_status(2) [of V g] by (cases "i = 0") auto
  show "rule_holds (parentMustExist g a)" using assms(4) by (simp add: parentMustExist_def rule_holds_def errorf_def act wf_index wf)
  show "rule_holds (onlyStepAtMaxDepth g a)" by (simp add: onlyStepAtMaxDepth_def act rule_holds_def)
  show "rule_holds (onlyMoveBeforeMaxDepth g a)"
    using assms(6) by (simp add: onlyMoveBeforeMaxDepth_def act par rule_holds_def errorf_def)
  have "zero_Claim\<lparr>cl_Value := act_Value a, cl_Position := posn g i,
      cl_ParentContractIndex := cl_ContractIndex (act_ParentClaim a)\<rparr> = step_claim g i"
    by (simp add: step_claim_def new_claim_def act)
  then show "rule_holds (doNotDuplicateExistingMoves keccak256 g a)"
    using step_not_duplicate [OF assms(1,2,4,6)] by (simp add: doNotDuplicateExistingMoves_def pos rule_holds_def errorf_def)
  show "rule_holds (doNotStepAlreadyCounteredClaims g a)"
    using assms(7) by (simp add: doNotStepAlreadyCounteredClaims_def par rule_holds_def errorf_def)
  have "IsRootPosition (posn g i) \<Longrightarrow> \<not> agrees V g i" using wf_IsRoot [OF wf assms(4)] i by (auto simp: IsRoot_def)
  then show "rule_holds (doNotDefendRootClaim g a)"
    unfolding doNotDefendRootClaim_def par by (auto simp: rule_holds_def errorf_def act)
  show "rule_holds (avoidPoisonedPrestate g a (correct V))" by (simp add: avoidPoisonedPrestate_def act rule_holds_def)
  let ?pre = "if agrees V g i then tix g i else low g i"
  have pre: "?pre = tidx (gs_depth g) (step_position V g i) - 1" "?pre = (if agrees V g i then tix g i else tix g i - 1)"
    using leaf tidx_MoveRight [OF assms(6)] by (simp_all add: step_position_def)
  show "rule_holds (detectPoisonedStepPrestate keccak256 g a (correct V))"
  proof (cases "?pre < 0")
    case True
    then show ?thesis unfolding pre(2)
      by (auto simp: detectPoisonedStepPrestate_def par pos ti rule_holds_def errorf_def Let_def act split: if_splits)
  next
    case False
    have "\<exists>j \<in> set (i # ancestors g i). tix g j = ?pre"
      using False low_found [OF wf assms(4)] by (cases "agrees V g i") auto
    then obtain j where j: "j \<in> set (i # ancestors g i)" "tix g j = ?pre" "walk_result g (i # ancestors g i) ?pre = (claim_at g j, True)"
      using walk_result_found by blast
    have agree: "agrees V g j"
      by (rule before_agrees [OF wf assms(4) rel _ j(1)]) (use j(2) pre(2) leaf in \<open>auto split: if_splits\<close>)
    have n: "j < length (gs_claims g)" by (rule path_in [OF wf assms(4) j(1)])
    have "drop 1 (be_put 32 (keccak256 pre)) = drop 1 (be_put 32 (V (posn g j)))"
    proof -
      have "tidx (gs_depth g) (posn g j) = tidx (gs_depth g) (step_position V g i) - 1" using j(2) pre(1) by simp
      then show ?thesis using assms(3,8) wf_node [OF wf n] wf_depth [OF wf n] nth_mem [OF assms(4)]
          asked_step [OF wf assms(4), of V]
        unfolding accessor_of_def by (metis option.inject)
    qed
    then have hash: "drop 1 (be_put 32 (keccak256 pre)) = drop 1 (be_put 32 (val g j))" using agree by (simp add: agrees_def)
    define x where "x = ?pre"
    have idx: "(if act_IsAttack a \<or> act_Type a = ActionTypeMove then tix g i - 1 else tix g i) = x"
      using pre(2) by (simp add: act x_def)
    have walk: "AncestorWithTraceIndex g (claim_at g i) x = Some (Some (claim_at g j, True))"
      using j(3) AncestorWithTraceIndex_spec [OF wf assms(4), of ?pre] by (simp add: x_def)
    have "\<not> x < 0" using False by (simp add: x_def)
    then show ?thesis using walk agree hash
      unfolding detectPoisonedStepPrestate_def par pos prod.case option.case ti Let_def idx
      by (simp add: assms(6) act(2,5) agrees_def rule_holds_def errorf_def)
  qed
  show "rule_holds (detectFailedStep g a (correct V))"
  proof (cases "agrees V g i")
    case False
    obtain j where j: "j \<in> set (i # ancestors g i)" "tix g j = tix g i"
        "walk_result g (i # ancestors g i) (tix g i) = (claim_at g j, True)"
      using walk_result_found [of "i # ancestors g i" g "tix g i"] by auto
    have "j = i" using inj_onD [OF tix_inj [OF wf assms(4)], of j i] j(1,2) by simp
    then show ?thesis using False j(3) AncestorWithTraceIndex_spec [OF wf assms(4), of "tix g i"]
      by (simp add: detectFailedStep_def par pos ti rule_holds_def errorf_def Let_def act assms(6) agrees_def)
  next
    case True
    obtain k where k: "k \<in> set (ancestors g i)" "tix g k = upp g i"
        "unat (pos_depth (posn g k)) \<le> unat (pos_depth (posn g i))"
        "agrees V g k \<longleftrightarrow> (odd (unat (pos_depth (posn g i)) - unat (pos_depth (posn g k))) \<longleftrightarrow> \<not> honest V g i)"
      using poststate_parity [OF wf assms(4) i [OF True] rel True] by blast
    have idx: "tix g k = tix g i + 1" using k(2) leaf by simp
    have "\<exists>j \<in> set (i # ancestors g i). tix g j = tix g i + 1" using k(1) idx by auto
    then obtain j where j: "j \<in> set (i # ancestors g i)" "tix g j = tix g i + 1"
        "walk_result g (i # ancestors g i) (tix g i + 1) = (claim_at g j, True)"
      using walk_result_found by blast
    have "j = k" using inj_onD [OF tix_inj [OF wf assms(4)], of j k] j(1,2) idx k(1) by simp
    moreover have "\<not> honest V g i" using assms(5) honest_not_countered [OF wf assms(4)] by blast
    ultimately have "agrees V g j \<longleftrightarrow> (pos_depth (posn g i) - pos_depth (posn g j)) mod 2 \<noteq> 0"
      using k(3,4) word_parity [OF k(3)] by simp
    then show ?thesis using True j(3) AncestorWithTraceIndex_spec [OF wf assms(4), of "tix g i + 1"]
      by (simp add: detectFailedStep_def par pos ti rule_holds_def errorf_def Let_def act assms(6) agrees_def)
  qed
qed

text \<open>Every rule but the last, which is about who made the claim.\<close>

lemma response_rules:
  assumes "open_game keccak256 g" "ids_faithful keccak256 V g" "accessor_of keccak256 V g trace" "i < length (gs_claims g)"
    "response keccak256 V g trace i = Some a"
  shows "\<forall>rule \<in> set (butlast (rules keccak256)). rule_holds (rule g a (correct V))"
  using assms(5)
proof (cases rule: response_cases)
  case move
  note r = move_rules [OF assms(1,4) move(1-3)]
  show ?thesis unfolding move(4) using r by (simp add: rules_def)
next
  case (step pre pfd orc)
  note r = step_rules [OF assms(1-4) step(1-4)]
  show ?thesis unfolding step(5) using r by (simp add: rules_def)
qed

lemma response_in_run:
  assumes "a \<in> set (List.map_filter (response keccak256 V g trace) [0..<k])" "k \<le> length (gs_claims g)"
  obtains i where "i < length (gs_claims g)" "response keccak256 V g trace i = Some a"
proof -
  obtain i where "i < k" "response keccak256 V g trace i = Some a" using assms(1) by (auto simp: List.map_filter_def)
  then show ?thesis using that less_le_trans [OF _ assms(2)] by blast
qed

lemma run_response:
  assumes "open_game keccak256 g" "ids_faithful keccak256 V g" "accessor_of keccak256 V g (cs_trace s)"
    "cs_gameDepth s = gs_depth g" "CalculateNextActions keccak256 s g = Some (actions, err)" "a \<in> set actions"
    "act_Type a \<noteq> ActionTypeChallengeL2BlockNumber"
  obtains i where "i < length (gs_claims g)" "response keccak256 V g (cs_trace s) i = Some a"
proof -
  have "a \<notin> set [challenge_action c]" for c using assms(7) by (auto simp: challenge_action_def)
  then obtain k where "a \<in> set (List.map_filter (response keccak256 V g (cs_trace s)) [0..<k])" "k \<le> length (gs_claims g)"
    using run_actions [OF assms(1-4)] assms(5,6) by auto
  then show ?thesis by (rule response_in_run) (rule that)
qed

end
