(* ===== verification/FaultDispute.thy ===== *)
theory FaultDispute
  imports FaultSafety "HOL-Library.Sublist"
begin

text \<open>
  A dispute as a sequence of steps: other parties make any move the contract allows, the challenger makes moves
  that \<open>CalculateNextActions\<close> has given in the current or an earlier state of the game, and leaves are
  countered. The challenger's claims stay honest, so no action counters one of them.
\<close>

section \<open>The dispute\<close>

text \<open>What the contract checks of a new claim.\<close>

definition legal :: "u64 \<Rightarrow> Claim list \<Rightarrow> Claim \<Rightarrow> bool" where
  "legal D cs c \<longleftrightarrow>
     (let p = cl_ParentContractIndex c; pos = cl_Position (cs ! nat p) in
      cl_ContractIndex c = int (length cs) \<and> 0 \<le> p \<and> p < int (length cs) \<and> pos_depth pos < D \<and>
      (cl_Position c = Attack pos \<or> p \<noteq> 0 \<and> cl_Position c = Defend pos) \<and>
      key c \<notin> set (map key cs) \<and> cl_CounteredBy c = 0)"

text \<open>The claim that a move makes.\<close>

definition makes :: "'c Action \<Rightarrow> Claim \<Rightarrow> bool" where
  "makes a c \<longleftrightarrow>
     act_Type a = ActionTypeMove \<and> cl_Value c = act_Value a \<and>
     cl_ParentContractIndex c = cl_ContractIndex (act_ParentClaim a) \<and>
     cl_Position c = (if act_IsAttack a then Attack (cl_Position (act_ParentClaim a)) else Defend (cl_Position (act_ParentClaim a)))"

abbreviation loaded :: "keccak \<Rightarrow> u64 \<Rightarrow> Claim list \<Rightarrow> gameState" where
  "loaded keccak256 D cs \<equiv> NewGameState keccak256 cs D"

inductive dispute :: "keccak \<Rightarrow> (Position \<Rightarrow> Hash) \<Rightarrow> 'c claimSolver \<Rightarrow> u64 \<Rightarrow> Claim list \<Rightarrow> bool"
  for keccak256 V s D where
  start: "cl_Position c = RootPosition \<Longrightarrow> cl_ContractIndex c = 0 \<Longrightarrow> cl_CounteredBy c = 0 \<Longrightarrow>
    cl_Claimant c \<noteq> challengerAddr \<or> cl_Value c = V RootPosition \<Longrightarrow> dispute keccak256 V s D [c]"
| other: "dispute keccak256 V s D cs \<Longrightarrow> legal D cs c \<Longrightarrow> cl_Claimant c \<noteq> challengerAddr \<Longrightarrow>
    dispute keccak256 V s D (cs @ [c])"
| own: "dispute keccak256 V s D cs \<Longrightarrow> legal D cs c \<Longrightarrow> dispute keccak256 V s D cs0 \<Longrightarrow>
    prefix (map key cs0) (map key cs) \<Longrightarrow>
    CalculateNextActions keccak256 s (loaded keccak256 D cs0) = Some (actions, err) \<Longrightarrow> a \<in> set actions \<Longrightarrow>
    makes a c \<Longrightarrow> dispute keccak256 V s D (cs @ [c])"
| leaf: "dispute keccak256 V s D cs \<Longrightarrow> i < length cs \<Longrightarrow> pos_depth (cl_Position (cs ! i)) = D \<Longrightarrow>
    dispute keccak256 V s D (cs[i := (cs ! i)\<lparr>cl_CounteredBy := x\<rparr>])"

section \<open>Games are well-formed\<close>

lemma game_simps [simp]: "gs_claims (loaded keccak256 D cs) = cs" "gs_depth (loaded keccak256 D cs) = D"
  by (simp_all add: NewGameState_def)

lemma game_loaded: "loaded keccak256 D cs = NewGameState keccak256 (gs_claims (loaded keccak256 D cs)) (gs_depth (loaded keccak256 D cs))"
  by simp

lemma par_game: "par (loaded keccak256 D cs) i = nat (cl_ParentContractIndex (cs ! i))"
  by (simp add: par_def)

lemma wf_game_append:
  assumes "wf_game (loaded keccak256 D cs)" "legal D cs c"
  shows "wf_game (loaded keccak256 D (cs @ [c]))"
proof -
  have nonempty: "cs \<noteq> []" using assms(1) by (simp add: wf_game_def)
  show ?thesis unfolding wf_game_def game_simps
  proof (intro conjI allI impI)
    show "cs @ [c] \<noteq> []" by simp
    show "cl_Position ((cs @ [c]) ! 0) = RootPosition" using wf_root(2) [OF assms(1)] nonempty by (simp add: nth_append)
  next
    fix i assume "i < length (cs @ [c])"
    then consider "i < length cs" | "i = length cs" by fastforce
    note i = this
    show "cl_ContractIndex ((cs @ [c]) ! i) = int i"
      using i wf_index [OF assms(1), of i] assms(2) by cases (auto simp: nth_append legal_def Let_def)
    assume "0 < i"
    note old = wf_par [OF assms(1), of i, unfolded game_simps par_game, OF _ \<open>0 < i\<close>]
    show "0 \<le> cl_ParentContractIndex ((cs @ [c]) ! i)" using i
    proof cases
      case 1
      then have "0 \<le> cl_ParentContractIndex (cs ! i)" using old(3) by (metis of_nat_0_le_iff)
      then show ?thesis using 1 by (simp add: nth_append)
    qed (use assms(2) in \<open>simp add: legal_def Let_def\<close>)
    show "par (loaded keccak256 D (cs @ [c])) i < i" using i
    proof cases
      case 1
      then show ?thesis using old(1) by (simp add: par_game nth_append)
    qed (use assms(2) in \<open>auto simp add: legal_def Let_def par_game\<close>)
    show "pos_depth (cl_Position ((cs @ [c]) ! par (loaded keccak256 D (cs @ [c])) i)) < D" using i
    proof cases
      case 1
      then show ?thesis using old(2,4) by (simp add: par_game nth_append)
    qed (use assms(2) in \<open>auto simp: legal_def Let_def par_game nth_append nat_less_iff\<close>)
    show "cl_Position ((cs @ [c]) ! i) = Attack (cl_Position ((cs @ [c]) ! par (loaded keccak256 D (cs @ [c])) i)) \<or>
      par (loaded keccak256 D (cs @ [c])) i \<noteq> 0 \<and>
      cl_Position ((cs @ [c]) ! i) = Defend (cl_Position ((cs @ [c]) ! par (loaded keccak256 D (cs @ [c])) i))"
      using i
    proof cases
      case 1
      then show ?thesis using old(2,5) by (simp add: par_game nth_append)
    qed (use assms(2) in \<open>auto simp: legal_def Let_def par_game nth_append nat_less_iff\<close>)
  qed
qed

text \<open>A property of the positions, values and parents.\<close>

lemma wf_game_key:
  assumes "wf_game (loaded keccak256 D cs)" "map key cs' = map key cs" "map cl_ContractIndex cs' = map cl_ContractIndex cs"
  shows "wf_game (loaded keccak256 D cs')"
proof -
  have len: "length cs' = length cs" using assms(2) by (metis length_map)
  have at: "key (cs' ! i) = key (cs ! i)" "cl_ContractIndex (cs' ! i) = cl_ContractIndex (cs ! i)" if "i < length cs" for i
    using that len assms(2,3) by (metis nth_map)+
  then have eq: "cl_Position (cs' ! i) = cl_Position (cs ! i)" "cl_ParentContractIndex (cs' ! i) = cl_ParentContractIndex (cs ! i)"
    if "i < length cs" for i using that by (simp_all add: key_def)
  have "0 < length cs" using assms(1) by (simp add: wf_game_def)
  show ?thesis unfolding wf_game_def game_simps par_game len
  proof (intro conjI allI impI)
    show "cs' \<noteq> []" using \<open>0 < length cs\<close> len by auto
    show "cl_Position (cs' ! 0) = RootPosition" using wf_root(2) [OF assms(1)] eq [OF \<open>0 < length cs\<close>] by simp
  next
    fix i assume i: "i < length cs"
    show "cl_ContractIndex (cs' ! i) = int i" using wf_index [OF assms(1), of i] at(2) [OF i] i by simp
    assume pos: "0 < i"
    note old = wf_par [OF assms(1), of i, unfolded game_simps par_game, OF i pos]
    note eqs = eq [OF i] eq [OF old(2)]
    show "0 \<le> cl_ParentContractIndex (cs' ! i)" unfolding eqs using old(3) by (metis of_nat_0_le_iff)
    show "nat (cl_ParentContractIndex (cs' ! i)) < i" unfolding eqs by (rule old(1))
    show "pos_depth (cl_Position (cs' ! nat (cl_ParentContractIndex (cs' ! i)))) < D" unfolding eqs by (rule old(4))
    show "cl_Position (cs' ! i) = Attack (cl_Position (cs' ! nat (cl_ParentContractIndex (cs' ! i)))) \<or>
      nat (cl_ParentContractIndex (cs' ! i)) \<noteq> 0 \<and>
      cl_Position (cs' ! i) = Defend (cl_Position (cs' ! nat (cl_ParentContractIndex (cs' ! i))))"
      unfolding eqs by (rule old(5))
  qed
qed

lemma status_cong:
  assumes "wf_game g" "wf_game g'" "gs_depth g = gs_depth g'" "i < length (gs_claims g)" "i < length (gs_claims g')"
    "\<forall>j \<le> i. key (claim_at g j) = key (claim_at g' j)"
  shows "status V g i = status V g' i"
  using assms(4-6)
proof (induction i rule: less_induct)
  case (less i)
  have eq: "posn g j = posn g' j" "val g j = val g' j" "par g j = par g' j" if "j \<le> i" for j
    using less.prems(3) that by (simp_all add: key_def par_def)
  have agree: "agrees V g j = agrees V g' j" if "j \<le> i" for j using eq [OF that] by (simp add: agrees_def)
  show ?case
  proof (cases "i = 0")
    case True
    then show ?thesis using agree by (simp add: status.simps [of V _ 0])
  next
    case False
    then have pos: "0 < i" by simp
    note p = wf_par(1,2) [OF assms(1) less.prems(1) pos]
    have le: "par g i \<le> i" using p(1) by simp
    have IH: "status V g (par g i) = status V g' (par g i)"
      using less.IH [OF p(1,2)] p(1) less.prems(2,3) by simp
    have "reply V g (par g i) = reply V g' (par g i)" using agree [OF le] eq(1) [OF le] by (simp add: reply_def)
    then show ?thesis
      unfolding status.simps [of V g i] status.simps [of V g' i]
      using IH agree [of i] eq [of i] assms(3) by simp
  qed
qed

text \<open>What holds in every state of a dispute but for the identifiers.\<close>

definition sound_claims :: "u64 \<Rightarrow> Claim list \<Rightarrow> bool" where
  "sound_claims D cs \<longleftrightarrow> wf_game (loaded (\<lambda>_. 0) D cs) \<and> distinct (map key cs) \<and>
     (\<forall>c \<in> set cs. pos_depth (cl_Position c) \<noteq> D \<longrightarrow> cl_CounteredBy c = 0)"

lemma wf_game_hash: "wf_game (loaded keccak256 D cs) \<longleftrightarrow> wf_game (loaded k D cs)"
  unfolding wf_game_def par_game game_simps ..

lemma sound_open: "sound_claims D cs \<Longrightarrow> D \<noteq> 0 \<Longrightarrow> open_game keccak256 (loaded keccak256 D cs)"
  using wf_game_hash by (auto simp: sound_claims_def open_game_def)

lemma dispute_sound:
  "dispute keccak256 V s D cs \<Longrightarrow> sound_claims D cs"
proof (induction rule: dispute.induct)
  case (start c)
  then show ?case by (simp add: sound_claims_def wf_game_def)
next
  case (other cs c)
  then show ?case using wf_game_append by (auto simp: sound_claims_def legal_def Let_def)
next
  case (own cs c cs0 actions err a)
  then show ?case using wf_game_append by (auto simp: sound_claims_def legal_def Let_def)
next
  case (leaf cs i x)
  let ?cs = "cs[i := (cs ! i)\<lparr>cl_CounteredBy := x\<rparr>]"
  have keys: "map key ?cs = map key cs" "map cl_ContractIndex ?cs = map cl_ContractIndex cs"
    using leaf(2) by (simp_all add: list_eq_iff_nth_eq nth_list_update key_def)
  have "\<forall>c \<in> set ?cs. pos_depth (cl_Position c) \<noteq> D \<longrightarrow> cl_CounteredBy c = 0"
    using leaf by (auto simp: sound_claims_def set_conv_nth nth_list_update)
  then show ?case using leaf(4) wf_game_key [OF _ keys] unfolding sound_claims_def keys by blast
qed

section \<open>The challenger's claims are honest\<close>

lemma prefix_key:
  assumes "prefix (map key cs) (map key cs')" "i < length cs"
  shows "i < length cs'" "key (cs ! i) = key (cs' ! i)"
proof -
  obtain ks where ks: "map key cs' = map key cs @ ks" using assms(1) by (auto elim: prefixE)
  have "length cs' = length cs + length ks" using arg_cong [OF ks, of length] by simp
  then show "i < length cs'" using assms(2) by simp
  then have "key (cs' ! i) = map key cs' ! i" by simp
  also have "\<dots> = key (cs ! i)" unfolding ks using assms(2) by (simp add: nth_append)
  finally show "key (cs ! i) = key (cs' ! i)" by simp
qed

lemma status_prefix:
  assumes "wf_game (loaded keccak256 D cs)" "wf_game (loaded keccak256 D cs')" "prefix (map key cs) (map key cs')" "i < length cs"
  shows "status V (loaded keccak256 D cs) i = status V (loaded keccak256 D cs') i"
proof (rule status_cong [OF assms(1,2)])
  show "\<forall>j \<le> i. key (claim_at (loaded keccak256 D cs) j) = key (claim_at (loaded keccak256 D cs') j)"
    using prefix_key(2) [OF assms(3)] assms(4) by simp
qed (use assms(4) prefix_key(1) [OF assms(3,4)] in simp_all)

lemma reply_prefix:
  assumes "prefix (map key cs) (map key cs')" "i < length cs"
  shows "reply V (loaded keccak256 D cs) i = reply V (loaded keccak256 D cs') i"
  using prefix_key(2) [OF assms] by (simp add: reply_def agrees_def key_def)

lemma ids_faithful_prefix:
  assumes "wf_game (loaded keccak256 D cs)" "wf_game (loaded keccak256 D cs')" "prefix (map key cs) (map key cs')"
    "ids_faithful keccak256 V (loaded keccak256 D cs')"
  shows "ids_faithful keccak256 V (loaded keccak256 D cs)"
  unfolding ids_faithful_def
proof (intro allI impI ballI)
  let ?g = "loaded keccak256 D cs" let ?h = "loaded keccak256 D cs'"
  fix i j c
  assume i: "i < length (gs_claims ?g)" and j: "j < length (gs_claims ?g)"
    and c: "c \<in> {claim_at ?g j, counter_move V ?g j, step_claim ?g j}"
    and same: "Claim_ID keccak256 (claim_at ?g i) = Claim_ID keccak256 c"
  have lens: "i < length cs" "j < length cs" using i j by simp_all
  note pi = prefix_key [OF assms(3) lens(1)] and pj = prefix_key [OF assms(3) lens(2)]
  have "cl_ContractIndex (cs ! j) = cl_ContractIndex (cs' ! j)"
    using wf_index [OF assms(1), of j] wf_index [OF assms(2), of j] lens(2) pj(1) by simp
  then have keys: "key (counter_move V ?g j) = key (counter_move V ?h j)" "key (step_claim ?g j) = key (step_claim ?h j)"
    using reply_prefix [OF assms(3) lens(2), of V keccak256 D] pj(2)
    by (simp_all add: counter_move_def step_claim_def new_claim_def key_def)
  obtain d where d: "d \<in> {claim_at ?h j, counter_move V ?h j, step_claim ?h j}" "key d = key c"
  proof -
    from c consider "c = claim_at ?g j" | "c = counter_move V ?g j" | "c = step_claim ?g j" by blast
    then show ?thesis
    proof cases
      case 1
      show ?thesis by (rule that [of "claim_at ?h j"]) (use 1 pj(2) in simp_all)
    next
      case 2
      show ?thesis by (rule that [of "counter_move V ?h j"]) (use 2 keys in simp_all)
    next
      case 3
      show ?thesis by (rule that [of "step_claim ?h j"]) (use 3 keys in simp_all)
    qed
  qed
  have "Claim_ID keccak256 (claim_at ?h i) = Claim_ID keccak256 d"
    using same key_ID [OF d(2), of keccak256] key_ID [OF pi(2), of keccak256] by simp
  then have "key (claim_at ?h i) = key d" using assms(4) d(1) pi(1) pj(1) unfolding ids_faithful_def game_simps by blast
  then show "key (claim_at ?g i) = key c" using d(2) pi(2) by simp
qed

lemma prefix_append: "prefix (map key cs) (map key (cs @ [c]))"
  by simp

lemma own_move_honest:
  assumes "sound_claims D cs" "sound_claims D (cs @ [c])" "sound_claims D cs0" "prefix (map key cs0) (map key cs)"
    "ids_faithful keccak256 V (loaded keccak256 D (cs @ [c]))" "accessor_of keccak256 V (loaded keccak256 D cs0) (cs_trace s)"
    "cs_gameDepth s = D" "D \<noteq> 0"
    "CalculateNextActions keccak256 s (loaded keccak256 D cs0) = Some (actions, err)" "a \<in> set actions" "makes a c"
  shows "honest V (loaded keccak256 D (cs @ [c])) (length cs)"
proof -
  let ?g = "loaded keccak256 D (cs @ [c])" let ?k = "loaded keccak256 D cs0"
  have wf: "wf_game ?g" "wf_game (loaded keccak256 D cs)" "wf_game ?k"
    using assms(1-3) wf_game_hash by (auto simp: sound_claims_def)
  have pre: "prefix (map key cs0) (map key (cs @ [c]))" using assms(4) by (simp add: prefix_order.trans)
  note faithful = ids_faithful_prefix [OF wf(3,1) pre assms(5)]
  have type: "act_Type a \<noteq> ActionTypeChallengeL2BlockNumber" using assms(11) by (simp add: makes_def)
  obtain i where i: "i < length (gs_claims ?k)" "response keccak256 V ?k (cs_trace s) i = Some a"
    using run_response [OF sound_open [OF assms(3,8)] faithful assms(6) _ assms(9,10) type] assms(7) by auto
  from i(2) have act: "countered V ?k i" "a = move_action V ?k i"
    using assms(11) by (cases rule: response_cases, auto simp: makes_def)+
  have len: "i < length cs0" using i(1) by simp
  note at = prefix_key [OF pre len]
  have new: "cl_ParentContractIndex c = int i" "cl_Position c = reply V ?k i" "cl_Value c = V (reply V ?k i)"
    using assms(11) wf_index [OF wf(3) i(1)] unfolding makes_def act(2) by (simp_all add: reply_def)
  have last: "claim_at ?g (length cs) = c" by simp
  have par: "par ?g (length cs) = i" unfolding par_def last new(1) by simp
  have nonempty: "0 < length cs" using assms(1) by (auto simp: sound_claims_def wf_game_def)
  have "countered V ?g i" using act(1) status_prefix [OF wf(3,1) pre len, of V] by (simp add: countered_def)
  moreover have "reply V ?k i = reply V ?g i" by (rule reply_prefix [OF pre len])
  ultimately show ?thesis
    using child_status(1) [OF wf(1), of "length cs" V] nonempty new unfolding par last agrees_def by simp
qed

lemma challenger_honest:
  assumes "dispute keccak256 V s D cs" "\<And>cs. cs \<noteq> [] \<Longrightarrow> accessor_of keccak256 V (loaded keccak256 D cs) (cs_trace s)" "cs_gameDepth s = D" "D \<noteq> 0"
  shows "ids_faithful keccak256 V (loaded keccak256 D cs) \<Longrightarrow>
    \<forall>i < length cs. cl_Claimant (cs ! i) = challengerAddr \<longrightarrow> honest V (loaded keccak256 D cs) i"
  using assms(1)
proof (induction rule: dispute.induct)
  case (start c)
  then show ?case by (auto simp: root_status agrees_def)
next
  case (other cs c)
  have sound: "sound_claims D cs" "sound_claims D (cs @ [c])"
    using other dispute_sound dispute.other by blast+
  then have wf: "wf_game (loaded keccak256 D cs)" "wf_game (loaded keccak256 D (cs @ [c]))"
    using wf_game_hash by (auto simp: sound_claims_def)
  have "ids_faithful keccak256 V (loaded keccak256 D cs)"
    by (rule ids_faithful_prefix [OF wf prefix_append other(5)])
  then show ?case using other(3,4) status_prefix [OF wf prefix_append, where V = V]
    by (auto simp: less_Suc_eq nth_append honest_def)
next
  case (own cs c cs0 actions err a)
  have sound: "sound_claims D cs" "sound_claims D (cs @ [c])" "sound_claims D cs0"
    using own dispute_sound dispute.own by blast+
  then have wf: "wf_game (loaded keccak256 D cs)" "wf_game (loaded keccak256 D (cs @ [c]))"
    using wf_game_hash by (auto simp: sound_claims_def)
  have faithful: "ids_faithful keccak256 V (loaded keccak256 D cs)"
    by (rule ids_faithful_prefix [OF wf prefix_append own(10)])
  have nonempty: "cs0 \<noteq> []" using sound(3) by (auto simp: sound_claims_def wf_game_def)
  have "honest V (loaded keccak256 D (cs @ [c])) (length cs)"
    by (rule own_move_honest [OF sound own(4) own(10) assms(2) [OF nonempty] assms(3,4) own(5-7)])
  then show ?case using own(8) faithful status_prefix [OF wf prefix_append, where V = V]
    by (auto simp: less_Suc_eq nth_append honest_def)
next
  case (leaf cs i x)
  let ?cs = "cs[i := (cs ! i)\<lparr>cl_CounteredBy := x\<rparr>]"
  have keys: "map key ?cs = map key cs" "map cl_Claimant ?cs = map cl_Claimant cs"
    using leaf(2) by (simp_all add: list_eq_iff_nth_eq nth_list_update key_def)
  have sound: "sound_claims D cs" "sound_claims D ?cs" using leaf dispute_sound dispute.leaf by blast+
  then have wf: "wf_game (loaded keccak256 D cs)" "wf_game (loaded keccak256 D ?cs)"
    using wf_game_hash by (auto simp: sound_claims_def)
  have pre: "prefix (map key cs) (map key ?cs)" unfolding keys by simp
  have "ids_faithful keccak256 V (loaded keccak256 D cs)" by (rule ids_faithful_prefix [OF wf pre leaf(5)])
  moreover have "cl_Claimant (?cs ! j) = cl_Claimant (cs ! j)" if "j < length cs" for j
    using that keys(2) by (metis length_list_update nth_map)
  ultimately show ?case using leaf(4) status_prefix [OF wf pre, where V = V] by (simp add: honest_def)
qed

section \<open>Properties\<close>

text \<open>A small instance: a trace of zeros, the sum of the bytes for the hash, a wrong root claim and the challenger's
  attack on it.\<close>

definition zero_trace :: "unit TraceAccessor" where
  "zero_trace =
     \<lparr>ta_Get = (\<lambda>_ _ _. Some (Inr 0)), ta_GetStepData = (\<lambda>_ _ _. Some (Inr ([], [], None))),
      ta_GetL2BlockNumberChallenge = (\<lambda>_. Some (Inl ErrL2BlockNumberValid))\<rparr>"

definition sum_hash :: keccak where
  "sum_hash bs = of_nat (sum_list (map unat bs))"

definition wrong_root :: Claim where
  "wrong_root = zero_Claim\<lparr>cl_Value := 5, cl_Position := RootPosition\<rparr>"

definition our_attack :: Claim where
  "our_attack = zero_Claim\<lparr>cl_Position := \<lparr>pos_depth = 1, pos_indexAtDepth = Some 0\<rparr>, cl_Claimant := challengerAddr,
     cl_ContractIndex := 1\<rparr>"

abbreviation game1 :: gameState where "game1 \<equiv> loaded sum_hash 1 [wrong_root]"
abbreviation game2 :: gameState where "game2 \<equiv> loaded sum_hash 1 [wrong_root, our_attack]"
abbreviation zero_solver :: "unit claimSolver" where "zero_solver \<equiv> newClaimSolver 1 zero_trace"

lemma zero_trace_accessor: "accessor_of sum_hash (\<lambda>_. 0) g (cs_trace zero_solver)"
  by (simp add: accessor_of_def zero_trace_def sum_hash_def newClaimSolver_def)

lemma challengerAddr_nonzero: "challengerAddr \<noteq> 0"
proof
  assume "challengerAddr = 0"
  then have "be_put 20 (0 :: Address) = replicate 20 0xaa"
    using be_put_get [of 20 "replicate 20 0xaa", where 'a = 160] by (simp add: challengerAddr_def)
  then have "hd (replicate 20 (0 :: byte)) = hd (replicate 20 0xaa)" by (simp add: be_put_def nat_to_be_0)
  then show False by simp
qed

lemma sum_value: "v \<in> {0, 5} \<Longrightarrow> sum_list (map unat (be_put 32 (v :: Hash))) = unat v"
proof -
  assume "v \<in> {0, 5}"
  then have "unat v < 256" by auto
  then have "nat_to_be (Suc 31) (unat v) = replicate 31 0 @ [of_nat (unat v)]"
    unfolding nat_to_be.simps(2) by (simp add: nat_to_be_0)
  then have "be_put 32 v = replicate 31 0 @ [of_nat (unat v)]" by (simp add: be_put_def)
  moreover have "unat (of_nat (unat v) :: byte) = unat v" using \<open>unat v < 256\<close> unfolding unat_of_nat by simp
  ultimately show ?thesis by (simp add: sum_list_replicate)
qed

lemma small_Bytes: "big_Bytes 0 = []" "big_Bytes 1 = [1]" "big_Bytes 2 = [2]" "big_Bytes 6 = [6]"
  by (simp_all add: big_Bytes_def BitLen.simps)

lemma sum_ID:
  "Claim_ID sum_hash c = of_nat (sum_list (map unat (big_Bytes (ToGIndex (cl_Position c)))) +
    (sum_list (map unat (be_put 32 (cl_Value c))) + sum_list (map unat (big_Bytes (cl_ParentContractIndex c)))))"
  by (simp add: Claim_ID_def ID_preimage_def sum_hash_def)

lemmas small_simps = sum_ID sum_value small_Bytes wrong_root_def our_attack_def zero_Claim_def RootPosition_eq
  ToGIndex_def Attack_eq Defend_eq reply_def agrees_def counter_move_def step_claim_def new_claim_def

lemma claims_IDs:
  "Claim_ID sum_hash wrong_root = 6" "Claim_ID sum_hash our_attack = 2"
  by (simp_all add: small_simps)

lemma game1_dispute: "dispute sum_hash (\<lambda>_. 0) zero_solver 1 [wrong_root]"
  by (rule dispute.start) (use challengerAddr_nonzero in \<open>simp_all add: wrong_root_def zero_Claim_def\<close>)

lemma games_claims:
  "claim_at game1 0 = wrong_root" "claim_at game2 0 = wrong_root" "claim_at game2 (Suc 0) = our_attack"
  by simp_all

lemma game2_wf: "wf_game game2"
  by (auto simp: wf_game_def par_game less_Suc_eq wrong_root_def our_attack_def zero_Claim_def RootPosition_eq Attack_eq)

lemma game1_wf: "wf_game game1"
  by (auto simp: wf_game_def par_game wrong_root_def zero_Claim_def)

lemma game2_faithful: "ids_faithful sum_hash (\<lambda>_. 0) game2"
proof -
  have move: "Claim_ID sum_hash (counter_move (\<lambda>_. 0) game2 0) = 2" "Claim_ID sum_hash (step_claim game2 0) = 1"
    "Claim_ID sum_hash (counter_move (\<lambda>_. 0) game2 (Suc 0)) = 7" "Claim_ID sum_hash (step_claim game2 (Suc 0)) = 3"
    by (simp_all add: small_simps)
  have key: "key (counter_move (\<lambda>_. 0) game2 0) = key our_attack" by (simp add: small_simps key_def)
  show ?thesis unfolding ids_faithful_def
    by (auto simp: less_Suc_eq claims_IDs move key)
qed

lemma game1_faithful: "ids_faithful sum_hash (\<lambda>_. 0) game1"
  by (rule ids_faithful_prefix [OF game1_wf game2_wf _ game2_faithful]) simp

lemma game1_run: "CalculateNextActions sum_hash zero_solver game1 = Some ([move_action (\<lambda>_. 0) game1 0], None)"
proof -
  have wrong: "agreeWithClaim zero_solver game1 wrong_root = Some (Inr False)"
    by (simp add: agreeWithClaim_def newClaimSolver_def zero_trace_def wrong_root_def)
  have root: "IsRoot wrong_root" "pos_depth (cl_Position wrong_root) = 0"
    by (simp_all add: IsRoot_def wrong_root_def IsRootPosition_def RootPosition_eq)
  have move: "NextMove sum_hash zero_solver wrong_root game1 newHonestClaimTracker = Some (Inr (Some (counter_move (\<lambda>_. 0) game1 0)))"
    using wrong root
    by (simp add: NextMove_def shouldCounter_def IsHonest_def newHonestClaimTracker_def solver_attack_def Let_def)
      (simp add: newClaimSolver_def zero_trace_def counter_move_def reply_def agrees_def wrong_root_def)
  have "\<not> IsDuplicate sum_hash game1 (counter_move (\<lambda>_. 0) game1 0)"
    unfolding IsDuplicate_NewGameState by (simp add: small_simps)
  moreover have "\<not> DefendsParent game1 (counter_move (\<lambda>_. 0) game1 0)"
    using counter_move_DefendsParent [OF game1_wf, of 0 "\<lambda>_. 0"] root by (simp add: agrees_def wrong_root_def)
  moreover have "cl_ParentContractIndex (counter_move (\<lambda>_. 0) game1 0) = 0"
    by (simp add: counter_move_def new_claim_def wrong_root_def zero_Claim_def)
  ultimately have "calculateMove sum_hash zero_solver game1 wrong_root newHonestClaimTracker =
      Some (Inr (Some (move_action (\<lambda>_. 0) game1 0)), AddHonestClaim sum_hash wrong_root (counter_move (\<lambda>_. 0) game1 0) newHonestClaimTracker)"
    using move by (simp add: calculateMove_def Let_def move_action_def counter_move_def new_claim_def agrees_def wrong_root_def)
  then show ?thesis using wrong root by (simp add: CalculateNextActions_def AgreeWithRootClaim_def)
qed

lemma game2_dispute: "dispute sum_hash (\<lambda>_. 0) zero_solver 1 [wrong_root, our_attack]"
proof -
  have "legal 1 [wrong_root] our_attack"
    by (simp add: legal_def our_attack_def wrong_root_def zero_Claim_def key_def RootPosition_eq Attack_eq)
  moreover have "makes (move_action (\<lambda>_. 0) game1 0) our_attack"
    by (simp add: makes_def reply_def agrees_def our_attack_def wrong_root_def zero_Claim_def RootPosition_eq Attack_eq)
  ultimately have "dispute sum_hash (\<lambda>_. 0) zero_solver 1 ([wrong_root] @ [our_attack])"
    using dispute.own [OF game1_dispute _ game1_dispute _ game1_run, of our_attack "move_action (\<lambda>_. 0) game1 0"] by simp
  then show ?thesis by simp
qed




text \<open>C36: Every state of a dispute is a well-formed game: the root first, each claim a move on an earlier one, no claim
  made twice, inner claims not countered; so each claim is at a node of the tree with an even index, and
  its trace index is computed without a panic and is one of the leaves.\<close>

theorem dispute_states_well_formed:
  assumes "dispute keccak256 V s D cs" "i < length cs"
  shows "wf_game (loaded keccak256 D cs) \<and> distinct (map key cs) \<and> node (cl_Position (cs ! i)) \<and>
    even (IndexAtDepth (cl_Position (cs ! i))) \<and>
    (\<exists>t. TraceIndex D (cl_Position (cs ! i)) = Some t \<and> 0 \<le> t \<and> t < 2 ^ unat D)"
proof -
  have sound: "sound_claims D cs" by (rule dispute_sound [OF assms(1)])
  then have wf: "wf_game (loaded keccak256 D cs)" using wf_game_hash by (auto simp: sound_claims_def)
  have i: "i < length (gs_claims (loaded keccak256 D cs))" using assms(2) by simp
  note p = wf_node [OF wf i] wf_even [OF wf i] wf_depth [OF wf i]
  show ?thesis using sound wf p tidx_bounds [OF p(1,3)] TraceIndex_tidx [OF p(3)] by (simp add: sound_claims_def)
qed

theorem dispute_states_well_formed_witness:
  "distinct (map key [wrong_root, our_attack]) \<and> (\<exists>t. TraceIndex 1 (cl_Position our_attack) = Some t \<and> t < 2)"
  using dispute_states_well_formed [OF game2_dispute, of 1] by auto



lemma actions_keep_rules:
  assumes "dispute keccak256 V s D cs" "\<And>cs. cs \<noteq> [] \<Longrightarrow> accessor_of keccak256 V (loaded keccak256 D cs) (cs_trace s)" "cs_gameDepth s = D" "D \<noteq> 0"
    "ids_faithful keccak256 V (loaded keccak256 D cs)"
    "CalculateNextActions keccak256 s (loaded keccak256 D cs) = Some (actions, err)" "a \<in> set actions"
    "act_Type a \<noteq> ActionTypeChallengeL2BlockNumber"
  shows "checkRules keccak256 (loaded keccak256 D cs) a (correct V) = Some (Some [])"
proof -
  let ?g = "loaded keccak256 D cs"
  note og = sound_open [OF dispute_sound [OF assms(1)] assms(4), of keccak256]
  note wf = open_wf [OF og]
  have "cs \<noteq> []" using wf_root(1) [OF wf] by auto
  note accessor = assms(2) [OF this]
  obtain i where i: "i < length (gs_claims ?g)" "response keccak256 V ?g (cs_trace s) i = Some a"
    using run_response [OF og assms(5) accessor _ assms(6-8)] assms(3) by auto
  have counter: "countered V ?g i \<and> act_ParentClaim a = claim_at ?g i"
    using i(2) by (cases rule: response_cases) simp_all
  then have "\<not> honest V ?g i" using honest_not_countered [OF wf i(1)] by blast
  then have "cl_Claimant (cs ! i) \<noteq> challengerAddr" using challenger_honest [OF assms(1-5)] i(1) by auto
  moreover have "action_parent ?g a = Some (claim_at ?g i)"
    by (rule action_parent_eq [OF wf i(1)]) (use counter in blast)
  ultimately have self: "rule_holds (doNotCounterSelf ?g a)"
    by (simp add: doNotCounterSelf_def rule_holds_def errorf_def)
  then have "\<forall>rule \<in> set (rules keccak256). rule_holds (rule ?g a (correct V))"
    using response_rules [OF og assms(5) accessor i] by (simp add: rules_def)
  then show ?thesis by (intro checkRules_holds) blast
qed



end
