(* ===== verification/FaultAgent.thy ===== *)
theory FaultAgent
  imports FaultDispute
begin

text \<open>
  The agent of one dispute game, op-challenger/game/fault/agent.go. The contract, its loader and the responder's
  transactions are a world that the responder changes; each call reads the world it is made in.
  The agent resolves claims as long as there are any, then the game, and otherwise computes the
  actions, which it performs concurrently. Metrics and log lines are left out.
\<close>

section \<open>The agent\<close>

definition errNoResolvableClaims :: gerr where
  "errNoResolvableClaims = Msg ''no resolvable claims''"

type_synonym GameStatus = byte

definition GameStatusInProgress :: GameStatus where "GameStatusInProgress = 0"
definition GameStatusChallengerWon :: GameStatus where "GameStatusChallengerWon = 1"
definition GameStatusDefenderWon :: GameStatus where "GameStatusDefenderWon = 2"

definition GameStatusFromUint8 :: "byte \<Rightarrow> GameStatus \<times> gerr option" where
  "GameStatusFromUint8 i = (if i > 2 then (i, Some (Msg ''invalid game status'')) else (i, None))"

record ('w, 'c) Agent =
  ag_CallResolve :: "'w \<Rightarrow> GameStatus res"
  ag_Resolve :: "'w \<Rightarrow> gerr option \<times> 'w"
  ag_CallResolveClaim :: "'w \<Rightarrow> u64 \<Rightarrow> gerr option"
  ag_ResolveClaims :: "'w \<Rightarrow> u64 list \<Rightarrow> gerr option \<times> 'w"
  ag_GetAllClaims :: "'w \<Rightarrow> Claim list res"
  ag_IsL2BlockNumberChallenged :: "'w \<Rightarrow> bool res"
  ag_l1Clock :: "'w \<Rightarrow> int"
  ag_solver :: "'c claimSolver"
  ag_selective :: bool
  ag_claimants :: "Address list"
  ag_maxDepth :: u64
  ag_maxClockDuration :: i64

text \<open>Whether a claim is tried: its clock has run out, and with selective resolution the agent is paid for it. The
  parent of a claim that is not the root is read from the list and a missing one panics.\<close>

definition tries_claim :: "('w, 'c) Agent \<Rightarrow> 'w \<Rightarrow> Claim list \<Rightarrow> Claim \<Rightarrow> bool go" where
  "tries_claim a w claims claim =
     (let p = cl_ParentContractIndex claim in
      case (if IsRootPosition (cl_Position claim) then Some zero_Claim
            else if p < 0 \<or> int (length claims) \<le> p then None else Some (claims ! nat p)) of
        None \<Rightarrow> None
      | Some parentClaim \<Rightarrow>
          if ChessClock (ag_l1Clock a w) claim parentClaim \<le>s ag_maxClockDuration a then Some False
          else if ag_selective a then
            (let isUncounteredClaim = (cl_Claimant claim \<in> set (ag_claimants a) \<and> cl_CounteredBy claim = 0);
                 ourCounter = (cl_CounteredBy claim \<in> set (ag_claimants a))
             in Some (\<not> (\<not> isUncounteredClaim \<and> \<not> ourCounter)))
          else Some True)"

fun resolvableClaims :: "('w, 'c) Agent \<Rightarrow> 'w \<Rightarrow> Claim list \<Rightarrow> Claim list \<Rightarrow> u64 list go" where
  "resolvableClaims a w claims [] = Some []"
| "resolvableClaims a w claims (claim # rest) =
     (case tries_claim a w claims claim of
        None \<Rightarrow> None
      | Some tried \<Rightarrow>
          (let idx = word_of_int (cl_ContractIndex claim);
               found = (tried \<and> ag_CallResolveClaim a w idx = None)
           in map_option (\<lambda>l. if found then idx # l else l) (resolvableClaims a w claims rest)))"

definition tryResolveClaims :: "('w, 'c) Agent \<Rightarrow> 'w \<Rightarrow> (gerr option \<times> 'w) go" where
  "tryResolveClaims a w =
     (case ag_GetAllClaims a w of
        Inl err \<Rightarrow> Some (Some (Wrap ''failed to fetch claims'' err), w)
      | Inr claims \<Rightarrow>
          if claims = [] then Some (Some errNoResolvableClaims, w)
          else
            (case resolvableClaims a w claims claims of
               None \<Rightarrow> None
             | Some found \<Rightarrow>
                 if found = [] then Some (Some errNoResolvableClaims, w)
                 else (let (err, w) = ag_ResolveClaims a w found in Some (None, w))))"

text \<open>None when it does not return or panics.\<close>

partial_function (option) resolveClaims :: "('w, 'c) Agent \<Rightarrow> 'w \<Rightarrow> (gerr option \<times> 'w) option" where
  "resolveClaims a w =
     (case tryResolveClaims a w of
        None \<Rightarrow> None
      | Some (err, w) \<Rightarrow>
          if err = Some errNoResolvableClaims then Some (None, w)
          else if err = None then resolveClaims a w
          else Some (err, w))"

definition tryResolve :: "('w, 'c) Agent \<Rightarrow> 'w \<Rightarrow> (bool \<times> 'w) option" where
  "tryResolve a w =
     (case resolveClaims a w of
        None \<Rightarrow> None
      | Some (Some err, w) \<Rightarrow> Some (False, w)
      | Some (None, w) \<Rightarrow>
          (case ag_CallResolve a w of
             Inl err \<Rightarrow> Some (False, w)
           | Inr st \<Rightarrow>
               if st = GameStatusInProgress then Some (False, w)
               else (let (err, w) = ag_Resolve a w in Some (True, w))))"

definition newGameFromContracts :: "keccak \<Rightarrow> ('w, 'c) Agent \<Rightarrow> 'w \<Rightarrow> gameState res" where
  "newGameFromContracts keccak256 a w =
     (case ag_GetAllClaims a w of
        Inl err \<Rightarrow> Inl (Wrap ''failed to fetch claims'' err)
      | Inr claims \<Rightarrow> if claims = [] then Inl (Msg ''no claims'') else Inr (NewGameState keccak256 claims (ag_maxDepth a)))"

text \<open>What a round of the agent does: the error it returns, or the actions it performs.\<close>

definition Act :: "keccak \<Rightarrow> ('w, 'c) Agent \<Rightarrow> 'w \<Rightarrow> ('c Action list res \<times> 'w) option" where
  "Act keccak256 a w =
     (case tryResolve a w of
        None \<Rightarrow> None
      | Some (True, w) \<Rightarrow> Some (Inr [], w)
      | Some (False, w) \<Rightarrow>
          (case ag_IsL2BlockNumberChallenged a w of
             Inl err \<Rightarrow> Some (Inl (Wrap ''failed to check if L2 block number already challenged'' err), w)
           | Inr True \<Rightarrow> Some (Inr [], w)
           | Inr False \<Rightarrow>
               (case newGameFromContracts keccak256 a w of
                  Inl err \<Rightarrow> Some (Inl (Wrap ''create game from contracts'' err), w)
                | Inr game \<Rightarrow>
                    (case CalculateNextActions keccak256 (ag_solver a) game of
                       None \<Rightarrow> None
                     | Some (actions, err) \<Rightarrow> Some (Inr actions, w)))))"

section \<open>Resolution\<close>

lemma resolvableClaims_eq:
  assumes "\<forall>c \<in> set cs. tries_claim a w claims c \<noteq> None"
  shows "resolvableClaims a w claims cs = Some (map (\<lambda>c. word_of_int (cl_ContractIndex c))
    (filter (\<lambda>c. tries_claim a w claims c = Some True \<and> ag_CallResolveClaim a w (word_of_int (cl_ContractIndex c)) = None) cs))"
  using assms by (induction cs) auto

lemma tries_claim_total:
  assumes "wf_game (loaded keccak256 D claims)" "c \<in> set claims"
  shows "tries_claim a w claims c \<noteq> None"
proof -
  obtain i where i: "i < length claims" "c = claims ! i" using assms(2) by (auto simp: in_set_conv_nth)
  show ?thesis
  proof (cases "i = 0")
    case True
    then have "IsRootPosition (cl_Position c)" using wf_root(3) [OF assms(1)] i by (simp add: IsRoot_def)
    then show ?thesis by (simp add: tries_claim_def Let_def del: not_None_eq)
  next
    case False
    have "cl_ParentContractIndex c = int (par (loaded keccak256 D claims) i)" "par (loaded keccak256 D claims) i < length claims"
      using wf_par(2,3) [OF assms(1), of i] i False by simp_all
    then show ?thesis by (simp add: tries_claim_def Let_def del: not_None_eq)
  qed
qed

lemma resolveClaims_unfold:
  "tryResolveClaims a w = Some (Some errNoResolvableClaims, w') \<Longrightarrow> resolveClaims a w = Some (None, w')"
  "tryResolveClaims a w = Some (None, w') \<Longrightarrow> resolveClaims a w = resolveClaims a w'"
  "tryResolveClaims a w = Some (Some err, w') \<Longrightarrow> err \<noteq> errNoResolvableClaims \<Longrightarrow> resolveClaims a w = Some (Some err, w')"
  by (subst resolveClaims.simps, simp)+

text \<open>The rounds of the loop.\<close>

definition resolve_round :: "('w, 'c) Agent \<Rightarrow> 'w \<Rightarrow> 'w \<Rightarrow> bool" where
  "resolve_round a w w' \<longleftrightarrow> tryResolveClaims a w = Some (None, w')"

definition resolve_end :: "('w, 'c) Agent \<Rightarrow> 'w \<Rightarrow> gerr option \<times> 'w \<Rightarrow> bool" where
  "resolve_end a w r \<longleftrightarrow> (\<exists>err. tryResolveClaims a w = Some (Some err, snd r) \<and>
     fst r = (if err = errNoResolvableClaims then None else Some err))"

lemma resolveClaims_rounds:
  assumes "resolveClaims a w = Some r"
  shows "\<exists>w'. (resolve_round a)\<^sup>*\<^sup>* w w' \<and> resolve_end a w' r"
proof (rule resolveClaims.raw_induct [OF _ assms, where P = "\<lambda>a w r. \<exists>w'. (resolve_round a)\<^sup>*\<^sup>* w w' \<and> resolve_end a w' r"])
  fix rec a w r
  assume IH: "\<And>a w r. rec a w = Some r \<Longrightarrow> \<exists>w'. (resolve_round a)\<^sup>*\<^sup>* w w' \<and> resolve_end a w' r"
    and body: "(case tryResolveClaims a w of
        None \<Rightarrow> None
      | Some (err, w) \<Rightarrow>
          if err = Some errNoResolvableClaims then Some (None, w)
          else if err = None then rec a w else Some (err, w)) = Some r"
  obtain err v where run: "tryResolveClaims a w = Some (err, v)" using body by (auto split: option.splits)
  show "\<exists>w'. (resolve_round a)\<^sup>*\<^sup>* w w' \<and> resolve_end a w' r"
  proof (cases err)
    case None
    then have "rec a v = Some r" using body run by simp
    then obtain w' where "(resolve_round a)\<^sup>*\<^sup>* v w'" "resolve_end a w' r" using IH by blast
    moreover have "resolve_round a w v" using run None by (simp add: resolve_round_def)
    ultimately show ?thesis by (meson converse_rtranclp_into_rtranclp)
  next
    case (Some e)
    then have "resolve_end a w r" using body run by (auto simp: resolve_end_def split: if_splits)
    then show ?thesis by blast
  qed
qed

lemma rounds_resolveClaims:
  "(resolve_round a)\<^sup>*\<^sup>* w w' \<Longrightarrow> resolve_end a w' r \<Longrightarrow> resolveClaims a w = Some r"
proof (induction rule: converse_rtranclp_induct)
  case base
  then show ?case using resolveClaims_unfold(1,3) [of a w'] by (cases r) (auto simp: resolve_end_def split: if_splits)
next
  case (step w v)
  then show ?case using resolveClaims_unfold(2) [of a w v] by (simp add: resolve_round_def)
qed


text \<open>What the agent resolves. In a game as the contract stores it a round does not panic; when the claims can be
  read, it sends one batch with exactly the indices, in order, of the claims whose opponent's clock
  has run out, which with selective resolution are the agent's own uncountered claims and those it has
  countered, and whose resolution the contract would accept; and it sends nothing when there are none.\<close>

theorem tryResolveClaims_batch:
  assumes "ag_GetAllClaims a w = Inr claims" "wf_game (loaded keccak256 D claims)"
  shows "\<exists>batch. batch = map (\<lambda>c. word_of_int (cl_ContractIndex c))
      (filter (\<lambda>c. tries_claim a w claims c = Some True \<and> ag_CallResolveClaim a w (word_of_int (cl_ContractIndex c)) = None) claims) \<and>
    tryResolveClaims a w = Some (if batch = [] then (Some errNoResolvableClaims, w) else (None, snd (ag_ResolveClaims a w batch)))"
proof -
  have "claims \<noteq> []" using assms(2) by (simp add: wf_game_def)
  moreover have "\<forall>c \<in> set claims. tries_claim a w claims c \<noteq> None" by (intro ballI tries_claim_total [OF assms(2)])
  ultimately show ?thesis using assms(1) by (simp add: tryResolveClaims_def resolvableClaims_eq case_prod_unfold Let_def)
qed

definition sample_agent :: "(bool, unit) Agent" where
  "sample_agent =
     \<lparr>ag_CallResolve = (\<lambda>_. Inr GameStatusInProgress), ag_Resolve = (\<lambda>w. (None, w)), ag_CallResolveClaim = (\<lambda>_ _. None),
      ag_ResolveClaims = (\<lambda>_ _. (None, True)), ag_GetAllClaims = (\<lambda>_. Inr [wrong_root]),
      ag_IsL2BlockNumberChallenged = (\<lambda>_. Inr False), ag_l1Clock = (\<lambda>_. 100), ag_solver = zero_solver,
      ag_selective = False, ag_claimants = [], ag_maxDepth = 1, ag_maxClockDuration = 10\<rparr>"

theorem tryResolveClaims_batch_witness:
  "tryResolveClaims sample_agent False = Some (None, True)"
proof -
  have tried: "tries_claim sample_agent False [wrong_root] wrong_root = Some True"
    by (simp add: tries_claim_def sample_agent_def ChessClock_def Time_Sub_def wrong_root_def zero_Claim_def RootPosition_eq
        IsRootPosition_def Let_def)
  show ?thesis
    using tryResolveClaims_batch [of sample_agent False "[wrong_root]" sum_hash 1, OF _ game1_wf] tried
    by (simp add: sample_agent_def)
qed


end
