(* ===== verification/FaultTrace.thy ===== *)
theory FaultTrace
  imports FaultDispute
begin

text \<open>
  Where the honest actor takes the values of a trace from: op-challenger/game/fault/trace. An accessor
  selects a provider for a position (access.go), a provider may be that of a subtree (translate.go), a split
  game asks one provider above the split depth and makes others below it (split/split.go), from the output
  roots of the node (outputs). The alphabet provider (alphabet) is a trace of its own. A selector is None
  when it panics or does not return.
\<close>

section \<open>Providers and accessors (types.go, access.go, translate.go)\<close>

record 'c TraceProvider =
  tp_AbsolutePreStateCommitment :: "Hash res go"
  tp_Get :: "Position \<Rightarrow> Hash res go"
  tp_GetStepData :: "Position \<Rightarrow> (bytes \<times> bytes \<times> PreimageOracleData option) res go"
  tp_GetL2BlockNumberChallenge :: "'c res go"

type_synonym 'c ProviderSelector = "gameState \<Rightarrow> Claim \<Rightarrow> Position \<Rightarrow> 'c TraceProvider res go"

definition NewAccessor :: "'c ProviderSelector \<Rightarrow> 'c TraceAccessor" where
  "NewAccessor selector =
     \<lparr>ta_Get = (\<lambda>game ref pos.
        case selector game ref pos of
          None \<Rightarrow> None
        | Some (Inl err) \<Rightarrow> Some (Inl err)
        | Some (Inr provider) \<Rightarrow> tp_Get provider pos),
      ta_GetStepData = (\<lambda>game ref pos.
        case selector game ref pos of
          None \<Rightarrow> None
        | Some (Inl err) \<Rightarrow> Some (Inl err)
        | Some (Inr provider) \<Rightarrow> tp_GetStepData provider pos),
      ta_GetL2BlockNumberChallenge = (\<lambda>game.
        if gs_claims game = [] then None
        else
          (case selector game (gs_claims game ! 0) RootPosition of
             None \<Rightarrow> None
           | Some (Inl err) \<Rightarrow> Some (Inl err)
           | Some (Inr provider) \<Rightarrow> tp_GetL2BlockNumberChallenge provider))\<rparr>"

definition NewSimpleTraceAccessor :: "'c TraceProvider \<Rightarrow> 'c TraceAccessor" where
  "NewSimpleTraceAccessor trace = NewAccessor (\<lambda>_ _ _. Some (Inr trace))"

definition Translate :: "'c TraceProvider \<Rightarrow> u64 \<Rightarrow> 'c TraceProvider" where
  "Translate provider rootDepth =
     \<lparr>tp_AbsolutePreStateCommitment = tp_AbsolutePreStateCommitment provider,
      tp_Get = (\<lambda>pos.
        case RelativeToAncestorAtDepth rootDepth pos of
          None \<Rightarrow> None
        | Some (Inl err) \<Rightarrow> Some (Inl err)
        | Some (Inr relativePos) \<Rightarrow> tp_Get provider relativePos),
      tp_GetStepData = (\<lambda>pos.
        case RelativeToAncestorAtDepth rootDepth pos of
          None \<Rightarrow> None
        | Some (Inl err) \<Rightarrow> Some (Inl err)
        | Some (Inr relativePos) \<Rightarrow> tp_GetStepData provider relativePos),
      tp_GetL2BlockNumberChallenge = tp_GetL2BlockNumberChallenge provider\<rparr>"

section \<open>The alphabet trace (alphabet/provider.go, alphabet/prestate.go)\<close>

definition ErrIndexTooLarge :: gerr where
  "ErrIndexTooLarge = Msg ''index is larger than the maximum index''"

definition VMStatusInvalid :: byte where "VMStatusInvalid = 1"
definition VMStatusUnfinished :: byte where "VMStatusUnfinished = 3"

definition absolutePrestate :: bytes where "absolutePrestate = be_put 32 (0x60 :: Hash)"

definition absolutePrestateInt :: int where "absolutePrestateInt = int (be_to_nat absolutePrestate)"

text \<open>\<open>FillBytes\<close> of a big integer: its absolute value in the given number of bytes, a panic when it does not fit.\<close>

definition FillBytes :: "nat \<Rightarrow> int \<Rightarrow> bytes go" where
  "FillBytes n x = (if BitLen (nat \<bar>x\<bar>) > 8 * n then None else Some (nat_to_be n (nat \<bar>x\<bar>)))"

definition set_first :: "byte \<Rightarrow> Hash \<Rightarrow> Hash" where
  "set_first b h = be_get (b # drop 1 (be_put 32 h))"

definition LocalIndexKey_PreimageKey :: "u64 \<Rightarrow> bytes" where
  "LocalIndexKey_PreimageKey k = LocalKeyType # replicate 23 0 @ be_put 8 k"

record AlphabetTraceProvider =
  ap_startingBlockNumber :: int
  ap_depth :: u64
  ap_maxLen :: u64

definition alphabet_NewTraceProvider :: "int \<Rightarrow> u64 \<Rightarrow> AlphabetTraceProvider" where
  "alphabet_NewTraceProvider startingBlockNumber depth =
     \<lparr>ap_startingBlockNumber = startingBlockNumber, ap_depth = depth, ap_maxLen = push_bit (unat depth) 1\<rparr>"

definition BuildAlphabetPreimage :: "int \<Rightarrow> int \<Rightarrow> bytes go" where
  "BuildAlphabetPreimage traceIndex claim =
     (case (FillBytes 32 traceIndex, FillBytes 32 claim) of (Some a, Some b) \<Rightarrow> Some (a @ b) | _ \<Rightarrow> None)"

definition alphabetStateHash :: "keccak \<Rightarrow> bytes \<Rightarrow> Hash" where
  "alphabetStateHash keccak256 state = set_first VMStatusInvalid (keccak256 state)"

definition alphabet_AbsolutePreStateCommitment :: "keccak \<Rightarrow> Hash res go" where
  "alphabet_AbsolutePreStateCommitment keccak256 =
     Some (Inr (set_first VMStatusUnfinished (keccak256 absolutePrestate)))"

definition alphabet_GetStepData ::
  "AlphabetTraceProvider \<Rightarrow> Position \<Rightarrow> (bytes \<times> bytes \<times> PreimageOracleData option) res go" where
  "alphabet_GetStepData ap pos =
     (case TraceIndex (ap_depth ap) pos of
        None \<Rightarrow> None
      | Some traceIndex \<Rightarrow>
          (let key = LocalIndexKey_PreimageKey 4;
               preimageData = NewPreimageOracleData key (big_Bytes (ap_startingBlockNumber ap)) 0
           in if traceIndex = 0 then Some (Inr (absolutePrestate, [], Some preimageData))
              else if traceIndex > int (unat (ap_maxLen ap)) then Some (Inl (Wrap ''depth index max'' ErrIndexTooLarge))
              else
                (let initialTraceIndex = push_bit 4 (ap_startingBlockNumber ap);
                     initialClaim = absolutePrestateInt + initialTraceIndex;
                     newTraceIndex = initialTraceIndex + traceIndex;
                     newClaim = initialClaim + traceIndex
                 in map_option (\<lambda>pre. Inr (pre, [], Some preimageData)) (BuildAlphabetPreimage newTraceIndex newClaim))))"

definition alphabet_Get :: "keccak \<Rightarrow> AlphabetTraceProvider \<Rightarrow> Position \<Rightarrow> Hash res go" where
  "alphabet_Get keccak256 ap i =
     (if pos_depth i > ap_depth ap then Some (Inl (Wrap ''depth max'' ErrIndexTooLarge))
      else
        (case TraceIndex (ap_depth ap) i of
           None \<Rightarrow> None
         | Some ti \<Rightarrow>
             (let postPosition = NewPosition (ap_depth ap) (ti + 1) in
              case alphabet_GetStepData ap postPosition of
                None \<Rightarrow> None
              | Some (Inl err) \<Rightarrow> Some (Inl err)
              | Some (Inr (claimBytes, _, _)) \<Rightarrow> Some (Inr (alphabetStateHash keccak256 claimBytes)))))"

definition alphabet_provider :: "keccak \<Rightarrow> AlphabetTraceProvider \<Rightarrow> 'c TraceProvider" where
  "alphabet_provider keccak256 ap =
     \<lparr>tp_AbsolutePreStateCommitment = alphabet_AbsolutePreStateCommitment keccak256,
      tp_Get = alphabet_Get keccak256 ap, tp_GetStepData = alphabet_GetStepData ap,
      tp_GetL2BlockNumberChallenge = Some (Inl ErrL2BlockNumberValid)\<rparr>"

section \<open>The alphabet trace is a trace\<close>

text \<open>The state after a trace index.\<close>

definition alphabet_state :: "int \<Rightarrow> int \<Rightarrow> bytes" where
  "alphabet_state start ti =
     nat_to_be 32 (nat (16 * start + ti + 1)) @ nat_to_be 32 (nat (0x60 + 16 * start + ti + 1))"

definition alphabet_value :: "keccak \<Rightarrow> int \<Rightarrow> u64 \<Rightarrow> Position \<Rightarrow> Hash" where
  "alphabet_value keccak256 start depth p = alphabetStateHash keccak256 (alphabet_state start (tidx depth p))"

lemma FillBytes_fits: "0 \<le> x \<Longrightarrow> x < 2 ^ 256 \<Longrightarrow> FillBytes 32 x = Some (nat_to_be 32 (nat x))"
  using BitLen_le [of "nat x" 256] nat_less_iff [of x "2 ^ 256"] by (simp add: FillBytes_def)

lemma absolutePrestateInt_eq: "absolutePrestateInt = 0x60"
  by (simp add: absolutePrestateInt_def absolutePrestate_def be_put_def)

lemma drop_set_first: "drop 1 (be_put 32 (set_first b h)) = drop 1 (be_put 32 h)"
proof -
  have "be_put 32 (set_first b h) = b # drop 1 (be_put 32 h)"
    unfolding set_first_def by (rule be_put_get) simp_all
  then show ?thesis by simp
qed

lemma alphabet_GetStepData_eq:
  assumes "0 \<le> start" "start < 2 ^ 250" "pos_depth p \<le> depth" "0 \<le> IndexAtDepth p"
  shows "\<exists>orc. alphabet_GetStepData (alphabet_NewTraceProvider start depth) p = Some
    (if tidx depth p = 0 then Inr (absolutePrestate, [], Some orc)
     else if tidx depth p > int (unat (push_bit (unat depth) 1 :: u64)) then Inl (Wrap ''depth index max'' ErrIndexTooLarge)
     else Inr (alphabet_state start (tidx depth p - 1), [], Some orc))"
proof -
  have nonneg: "0 \<le> tidx depth p"
  proof -
    have "1 * 1 \<le> (IndexAtDepth p + 1) * (2 :: int) ^ (unat depth - unat (pos_depth p))"
      by (rule mult_mono) (use assms(4) in simp_all)
    then show ?thesis by (simp add: tidx_def)
  qed
  have "unat (push_bit (unat depth) 1 :: u64) < 2 ^ 64" by (rule order_less_le_trans [OF unsigned_less]) simp
  then have small: "int (unat (push_bit (unat depth) 1 :: u64)) < 2 ^ 64"
    by (metis of_nat_less_iff of_nat_numeral of_nat_power)
  have "BuildAlphabetPreimage (push_bit 4 start + tidx depth p) (absolutePrestateInt + push_bit 4 start + tidx depth p) =
      Some (alphabet_state start (tidx depth p - 1))" if "\<not> tidx depth p > int (unat (push_bit (unat depth) 1 :: u64))"
  proof -
    have "16 * start + tidx depth p < 2 ^ 256" "0x60 + 16 * start + tidx depth p < 2 ^ 256"
      using that small assms(2) by simp_all
    then show ?thesis using nonneg assms(1)
      by (simp add: BuildAlphabetPreimage_def FillBytes_fits alphabet_state_def absolutePrestateInt_eq push_bit_eq_mult mult.commute add.assoc)
  qed
  then show ?thesis using TraceIndex_tidx [OF assms(3)]
    by (simp add: alphabet_GetStepData_def alphabet_NewTraceProvider_def Let_def)
qed

lemma tidx_position: "tidx depth (NewPosition depth i) = i"
  by (simp add: tidx_def NewPosition_def)

lemma alphabet_Get_eq:
  assumes "0 \<le> start" "start < 2 ^ 250" "pos_depth p \<le> depth" "0 \<le> IndexAtDepth p"
  shows "alphabet_Get keccak256 (alphabet_NewTraceProvider start depth) p = Some
    (if tidx depth p + 1 > int (unat (push_bit (unat depth) 1 :: u64)) then Inl (Wrap ''depth index max'' ErrIndexTooLarge)
     else Inr (alphabet_value keccak256 start depth p))"
proof -
  have nonneg: "0 \<le> tidx depth p"
  proof -
    have "1 * 1 \<le> (IndexAtDepth p + 1) * (2 :: int) ^ (unat depth - unat (pos_depth p))"
      by (rule mult_mono) (use assms(4) in simp_all)
    then show ?thesis by (simp add: tidx_def)
  qed
  let ?q = "NewPosition depth (tidx depth p + 1)"
  have q: "pos_depth ?q \<le> depth" "0 \<le> IndexAtDepth ?q" using nonneg by (simp_all add: NewPosition_def)
  obtain orc where "alphabet_GetStepData (alphabet_NewTraceProvider start depth) ?q = Some
    (if tidx depth p + 1 = 0 then Inr (absolutePrestate, [], Some orc)
     else if tidx depth p + 1 > int (unat (push_bit (unat depth) 1 :: u64)) then Inl (Wrap ''depth index max'' ErrIndexTooLarge)
     else Inr (alphabet_state start (tidx depth p + 1 - 1), [], Some orc))"
    using alphabet_GetStepData_eq [OF assms(1,2) q] unfolding tidx_position by blast
  moreover have "\<not> pos_depth p > ap_depth (alphabet_NewTraceProvider start depth)"
      "ap_depth (alphabet_NewTraceProvider start depth) = depth"
    using assms(3) by (simp_all add: alphabet_NewTraceProvider_def)
  ultimately show ?thesis using TraceIndex_tidx [OF assms(3)] nonneg
    by (simp add: alphabet_Get_def alphabet_value_def Let_def)
qed

lemma alphabet_accessor:
  assumes "0 \<le> start" "start < 2 ^ 250" "gs_depth g = depth" "gs_claims g \<noteq> []"
  shows "accessor_of keccak256 (alphabet_value keccak256 start depth) g
    (NewSimpleTraceAccessor (alphabet_provider keccak256 (alphabet_NewTraceProvider start depth)))"
  unfolding accessor_of_def
proof (intro conjI ballI allI impI)
  let ?t = "NewSimpleTraceAccessor (alphabet_provider keccak256 (alphabet_NewTraceProvider start depth))"
  fix c p assume "asked g p"
  then have p: "pos_depth p \<le> depth" "0 \<le> IndexAtDepth p" using assms(3) by (simp_all add: asked_def)
  show "\<exists>r. ta_Get ?t g c p = Some r \<and> (\<forall>v. r = Inr v \<longrightarrow> v = alphabet_value keccak256 start depth p)"
    unfolding NewSimpleTraceAccessor_def NewAccessor_def alphabet_provider_def
    using alphabet_Get_eq [OF assms(1,2) p] by simp
  obtain orc where data: "alphabet_GetStepData (alphabet_NewTraceProvider start depth) p = Some
    (if tidx depth p = 0 then Inr (absolutePrestate, [], Some orc)
     else if tidx depth p > int (unat (push_bit (unat depth) 1 :: u64)) then Inl (Wrap ''depth index max'' ErrIndexTooLarge)
     else Inr (alphabet_state start (tidx depth p - 1), [], Some orc))"
    using alphabet_GetStepData_eq [OF assms(1,2) p] by blast
  have hash: "drop 1 (be_put 32 (keccak256 (alphabet_state start (tidx depth p - 1)))) =
      drop 1 (be_put 32 (alphabet_value keccak256 start depth q))" if "tidx depth q = tidx depth p - 1" for q
    unfolding alphabet_value_def alphabetStateHash_def drop_set_first that ..
  have pos: "0 \<le> tidx depth q" if "node q" "pos_depth q \<le> depth" for q by (rule tidx_bounds(1) [OF that])
  show "\<exists>r. ta_GetStepData ?t g c p = Some r \<and>
      (\<forall>pre pfd orc q. r = Inr (pre, pfd, orc) \<longrightarrow> node q \<longrightarrow> pos_depth q \<le> gs_depth g \<longrightarrow>
         tidx (gs_depth g) q = tidx (gs_depth g) p - 1 \<longrightarrow>
         drop 1 (be_put 32 (keccak256 pre)) = drop 1 (be_put 32 (alphabet_value keccak256 start depth q)))"
    unfolding NewSimpleTraceAccessor_def NewAccessor_def alphabet_provider_def assms(3)
    using data hash pos by fastforce
next
  show "\<exists>r. ta_GetL2BlockNumberChallenge (NewSimpleTraceAccessor (alphabet_provider keccak256
      (alphabet_NewTraceProvider start depth))) g = Some r"
    using assms(4) by (simp add: NewSimpleTraceAccessor_def NewAccessor_def alphabet_provider_def)
qed

text \<open>The simple accessor of the alphabet trace is an accessor of one trace, as the honest actor needs it: it
  does not panic on the positions of a game of its depth and the one right of the last leaf, returns
  at each the value of that trace or an error, and its data for a step are the state whose hash, but
  for the status in the first byte, is the value one trace index before.\<close>

theorem alphabet_is_a_trace:
  assumes "0 \<le> start" "start < 2 ^ 250" "gs_depth g = depth" "gs_claims g \<noteq> []"
  shows "accessor_of keccak256 (alphabet_value keccak256 start depth) g
    (NewSimpleTraceAccessor (alphabet_provider keccak256 (alphabet_NewTraceProvider start depth)))"
  by (rule alphabet_accessor [OF assms])

theorem alphabet_is_a_trace_witness:
  "accessor_of sum_hash (alphabet_value sum_hash 7 1) game1
     (NewSimpleTraceAccessor (alphabet_provider sum_hash (alphabet_NewTraceProvider 7 1)) :: unit TraceAccessor)"
  by (rule alphabet_is_a_trace) simp_all

text \<open>So the actions of the honest actor over an alphabet trace keep the rules.\<close>

lemma alphabet_actions_keep_rules:
  assumes "0 \<le> start" "start < 2 ^ 250" "D \<noteq> 0"
    "s = newClaimSolver D (NewSimpleTraceAccessor (alphabet_provider keccak256 (alphabet_NewTraceProvider start D)))"
    "dispute keccak256 (alphabet_value keccak256 start D) s D cs"
    "ids_faithful keccak256 (alphabet_value keccak256 start D) (loaded keccak256 D cs)"
    "CalculateNextActions keccak256 s (loaded keccak256 D cs) = Some (actions, err)" "a \<in> set actions"
    "act_Type a \<noteq> ActionTypeChallengeL2BlockNumber"
  shows "checkRules keccak256 (loaded keccak256 D cs) a (correct (alphabet_value keccak256 start D)) = Some (Some [])"
proof (rule actions_keep_rules [OF assms(5) _ _ assms(3,6-9)])
  show "cs_gameDepth s = D" by (simp add: assms(4) newClaimSolver_def)
  fix cs :: "Claim list" assume "cs \<noteq> []"
  then have "accessor_of keccak256 (alphabet_value keccak256 start D) (loaded keccak256 D cs)
      (NewSimpleTraceAccessor (alphabet_provider keccak256 (alphabet_NewTraceProvider start D)) :: 'a TraceAccessor)"
    unfolding accessor_of_def
    using alphabet_accessor [OF assms(1,2), of "loaded keccak256 D cs" D keccak256] unfolding accessor_of_def by simp
  then show "accessor_of keccak256 (alphabet_value keccak256 start D) (loaded keccak256 D cs) (cs_trace s)"
    by (simp add: assms(4) newClaimSolver_def)
qed

section \<open>Split games (split/split.go)\<close>

definition errRefClaimNotDeepEnough :: gerr where
  "errRefClaimNotDeepEnough = Msg ''reference claim is not deep enough''"

partial_function (option) findAncestorAtDepth :: "gameState \<Rightarrow> Claim \<Rightarrow> u64 \<Rightarrow> Claim res go" where
  "findAncestorAtDepth game claim depth =
     (if pos_depth (cl_Position claim) > depth then
        (case GetParent game claim of
           Inl err \<Rightarrow> Some (Inl (Wrap ''failed to find ancestor at depth'' err))
         | Inr parentClaim \<Rightarrow> findAncestorAtDepth game parentClaim depth)
      else Some (Inr claim))"

partial_function (option) findAncestorWithTraceIndex :: "gameState \<Rightarrow> Claim \<Rightarrow> u64 \<Rightarrow> int \<Rightarrow> Claim res go" where
  "findAncestorWithTraceIndex game candidate depth traceIdx =
     (case TraceIndex depth (cl_Position candidate) of
        None \<Rightarrow> None
      | Some t \<Rightarrow>
          if t \<noteq> traceIdx then
            (case GetParent game candidate of
               Inl err \<Rightarrow> Some (Inl (Wrap ''failed to get parent of claim'' err))
             | Inr parentClaim \<Rightarrow> findAncestorWithTraceIndex game parentClaim depth traceIdx)
          else Some (Inr candidate))"

type_synonym 'c ProviderCreator = "u64 \<Rightarrow> Claim \<Rightarrow> Claim \<Rightarrow> 'c TraceProvider res go"

text \<open>The claims before and after the disputed step of the top game.\<close>

definition split_claims :: "u64 \<Rightarrow> gameState \<Rightarrow> Claim \<Rightarrow> Position \<Rightarrow> (Claim \<times> Claim) res go" where
  "split_claims topDepth game topLeaf pos =
     (case (TraceIndex (pos_depth pos) pos, TraceIndex (pos_depth pos) (cl_Position topLeaf)) of
        (Some posIdx, Some leafIdx) \<Rightarrow>
          if posIdx > leafIdx then
            (case TraceIndex topDepth (cl_Position topLeaf) of
               None \<Rightarrow> None
             | Some preIdx \<Rightarrow>
                 (case findAncestorWithTraceIndex game topLeaf topDepth (preIdx + 1) of
                    None \<Rightarrow> None
                  | Some (Inl err) \<Rightarrow> Some (Inl (Wrap ''failed to find post claim'' err))
                  | Some (Inr post) \<Rightarrow> Some (Inr (topLeaf, post))))
          else
            (case TraceIndex topDepth (cl_Position topLeaf) of
               None \<Rightarrow> None
             | Some postTraceIdx \<Rightarrow>
                 if postTraceIdx = 0 then Some (Inr (zero_Claim, topLeaf))
                 else
                   (case findAncestorWithTraceIndex game topLeaf topDepth (postTraceIdx - 1) of
                      None \<Rightarrow> None
                    | Some (Inl err) \<Rightarrow> Some (Inl (Wrap ''failed to find pre claim'' err))
                    | Some (Inr pre) \<Rightarrow> Some (Inr (pre, topLeaf))))
      | _ \<Rightarrow> None)"

definition NewSplitProviderSelector :: "'c TraceProvider \<Rightarrow> u64 \<Rightarrow> 'c ProviderCreator \<Rightarrow> 'c ProviderSelector" where
  "NewSplitProviderSelector topProvider topDepth bottomProviderCreator = (\<lambda>game ref pos.
     if pos_depth pos \<le> topDepth then Some (Inr topProvider)
     else if pos_depth (cl_Position ref) < topDepth
     then Some (Inl (Wrap ''claim depth, depth required'' errRefClaimNotDeepEnough))
     else
       (case findAncestorAtDepth game ref topDepth of
          None \<Rightarrow> None
        | Some (Inl err) \<Rightarrow> Some (Inl err)
        | Some (Inr topLeaf) \<Rightarrow>
            (case split_claims topDepth game topLeaf pos of
               None \<Rightarrow> None
             | Some (Inl err) \<Rightarrow> Some (Inl err)
             | Some (Inr (pre, post)) \<Rightarrow>
                 (let bottomDepth = gs_depth game - topDepth - 1 in
                  case bottomProviderCreator bottomDepth pre post of
                    None \<Rightarrow> None
                  | Some (Inl err) \<Rightarrow> Some (Inl err)
                  | Some (Inr provider) \<Rightarrow> Some (Inr (Translate provider (topDepth + 1)))))))"

lemma parent_depth:
  assumes "wf_game g" "i < length (gs_claims g)" "0 < i"
  shows "unat (pos_depth (posn g i)) = unat (pos_depth (posn g (par g i))) + 1"
  using wf_par(5) [OF assms] move_depth(1) [OF wf_par(4) [OF assms]] by (auto simp: depth_moves)

lemma child_bounds_at:
  assumes "wf_game g" "i < length (gs_claims g)" "0 < i" "pos_depth (posn g i) \<le> M"
  shows "pos_depth (posn g (par g i)) < M"
    "lower M (posn g i) = lower M (posn g (par g i)) \<and> upper M (posn g i) = tidx M (posn g (par g i)) \<or>
     par g i \<noteq> 0 \<and> lower M (posn g i) = tidx M (posn g (par g i)) \<and> upper M (posn g i) = upper M (posn g (par g i))"
proof -
  show less: "pos_depth (posn g (par g i)) < M"
    using parent_depth [OF assms(1-3)] assms(4) by (simp add: word_less_nat_alt word_le_nat_alt)
  show "lower M (posn g i) = lower M (posn g (par g i)) \<and> upper M (posn g i) = tidx M (posn g (par g i)) \<or>
     par g i \<noteq> 0 \<and> lower M (posn g i) = tidx M (posn g (par g i)) \<and> upper M (posn g i) = upper M (posn g (par g i))"
    using wf_par(5) [OF assms(1-3)] bounds_Attack [OF less]
      bounds_Defend [OF less wf_even [OF assms(1) wf_par(2) [OF assms(1-3)]]] by auto
qed

lemma bounds_at:
  assumes "wf_game g" "i < length (gs_claims g)"
  shows "pos_depth (posn g i) \<le> M \<Longrightarrow>
    (lower M (posn g i) = -1 \<or> (\<exists>j \<in> set (ancestors g i). tidx M (posn g j) = lower M (posn g i))) \<and>
    (0 < i \<longrightarrow> (\<exists>j \<in> set (ancestors g i). tidx M (posn g j) = upper M (posn g i)))"
  using assms
proof (induction rule: path_induct)
  case root
  then show ?case using wf_root(2) [OF assms(1)] by (simp add: lower_def RootPosition_eq)
next
  case (child i)
  note b = child_bounds_at [OF assms(1) child(1,2,4)]
  have "pos_depth (posn g (par g i)) \<le> M" using b(1) by simp
  from child(3) [OF this] show ?case using b(2) by (auto simp: ancestors_step [OF assms(1) child(1,2)])
qed

lemma findAncestorAtDepth_found:
  assumes "wf_game g" "i < length (gs_claims g)"
  shows "depth \<le> pos_depth (posn g i) \<Longrightarrow>
    \<exists>j \<in> set (i # ancestors g i). findAncestorAtDepth g (claim_at g i) depth = Some (Inr (claim_at g j)) \<and>
      pos_depth (posn g j) = depth"
  using assms
proof (induction rule: path_induct)
  case root
  then have "depth = pos_depth (posn g 0)" using wf_root(2) [OF assms(1)] by (simp add: RootPosition_eq)
  then show ?case by (simp add: findAncestorAtDepth.simps [of g "claim_at g 0"])
next
  case (child i)
  show ?case
  proof (cases "depth < pos_depth (posn g i)")
    case False
    then show ?thesis using child(4) by (simp add: findAncestorAtDepth.simps [of g "claim_at g i"])
  next
    case True
    then have "depth \<le> pos_depth (posn g (par g i))"
      using parent_depth [OF assms(1) child(1,2)] by (simp add: word_less_nat_alt word_le_nat_alt)
    then show ?thesis using child(3) True wf_getParent [OF assms(1) child(1,2)]
      by (simp add: findAncestorAtDepth.simps [of g "claim_at g i"] GetParent_def ancestors_step [OF assms(1) child(1,2)])
  qed
qed

lemma findAncestorWithTraceIndex_found:
  assumes "wf_game g" "i < length (gs_claims g)"
  shows "pos_depth (posn g i) \<le> M \<Longrightarrow> \<exists>j \<in> set (i # ancestors g i). tidx M (posn g j) = idx \<Longrightarrow>
    \<exists>j \<in> set (i # ancestors g i). findAncestorWithTraceIndex g (claim_at g i) M idx = Some (Inr (claim_at g j)) \<and>
      tidx M (posn g j) = idx"
  using assms
proof (induction rule: path_induct)
  case root
  then show ?case using TraceIndex_tidx
    by (simp add: findAncestorWithTraceIndex.simps [of g "claim_at g 0"] ancestors_root)
next
  case (child i)
  note unfold = findAncestorWithTraceIndex.simps [of g "claim_at g i" M idx] TraceIndex_tidx [OF child(4)]
  show ?case
  proof (cases "tidx M (posn g i) = idx")
    case True
    then show ?thesis by (simp add: unfold)
  next
    case False
    then have "\<exists>j \<in> set (par g i # ancestors g (par g i)). tidx M (posn g j) = idx"
      using child(5) by (simp add: ancestors_step [OF assms(1) child(1,2)])
    moreover have "pos_depth (posn g (par g i)) \<le> M" using child_bounds_at(1) [OF assms(1) child(1,2,4)] by simp
    ultimately show ?thesis using child(3) False wf_getParent [OF assms(1) child(1,2)]
      by (simp add: unfold GetParent_def ancestors_step [OF assms(1) child(1,2)])
  qed
qed

text \<open>The claims around the disputed step are one trace index apart.\<close>

definition adjacent :: "gameState \<Rightarrow> u64 \<Rightarrow> nat \<Rightarrow> Claim \<Rightarrow> Claim \<Rightarrow> bool" where
  "adjacent g M i pre post \<longleftrightarrow>
     (\<exists>k \<in> set (i # ancestors g i). post = claim_at g k \<and>
        (pre = zero_Claim \<and> tidx M (posn g k) = 0 \<or>
         (\<exists>j \<in> set (i # ancestors g i). pre = claim_at g j \<and> tidx M (posn g j) + 1 = tidx M (posn g k))))"

lemma split_claims_adjacent:
  assumes "wf_game g" "i < length (gs_claims g)" "pos_depth (posn g i) = M" "M < pos_depth pos" "node pos"
  shows "\<exists>pre post. split_claims M g (claim_at g i) pos = Some (Inr (pre, post)) \<and> adjacent g M i pre post"
proof -
  let ?d = "pos_depth pos"
  have le: "pos_depth (posn g i) \<le> ?d" "pos_depth (posn g i) \<le> M" using assms(3,4) by simp_all
  note ti = TraceIndex_tidx [OF le(1)] TraceIndex_tidx [OF order_refl, of pos] TraceIndex_tidx [OF le(2)]
  note leaf = bounds_leaf [OF assms(3)]
  note around = bounds_at [OF assms(1,2) le(2)]
  show ?thesis
  proof (cases "tidx ?d pos > tidx ?d (posn g i)")
    case True
    have "i \<noteq> 0"
    proof
      assume "i = 0"
      then have "tidx ?d (posn g i) = 2 ^ unat ?d - 1" using wf_root(2) [OF assms(1)] by (simp add: tidx_def RootPosition_eq)
      then show False using True tidx_bounds(2) [OF assms(5) order_refl] by simp
    qed
    then obtain j where "j \<in> set (i # ancestors g i)" "tidx M (posn g j) = tidx M (posn g i) + 1"
      using around leaf by auto
    then obtain k where k: "k \<in> set (i # ancestors g i)" "tidx M (posn g k) = tidx M (posn g i) + 1"
        "findAncestorWithTraceIndex g (claim_at g i) M (tidx M (posn g i) + 1) = Some (Inr (claim_at g k))"
      using findAncestorWithTraceIndex_found [OF assms(1,2) le(2)] by blast
    then have "adjacent g M i (claim_at g i) (claim_at g k)" by (auto simp: adjacent_def)
    then show ?thesis using True k(3) ti by (simp add: split_claims_def)
  next
    case False
    show ?thesis
    proof (cases "tidx M (posn g i) = 0")
      case True
      then have "adjacent g M i zero_Claim (claim_at g i)" by (auto simp: adjacent_def)
      then show ?thesis using True False ti by (simp add: split_claims_def)
    next
      case nonzero: False
      then obtain j where "j \<in> set (i # ancestors g i)" "tidx M (posn g j) = tidx M (posn g i) - 1"
        using around leaf by auto
      then obtain k where k: "k \<in> set (i # ancestors g i)" "tidx M (posn g k) = tidx M (posn g i) - 1"
          "findAncestorWithTraceIndex g (claim_at g i) M (tidx M (posn g i) - 1) = Some (Inr (claim_at g k))"
        using findAncestorWithTraceIndex_found [OF assms(1,2) le(2)] by blast
      then have "adjacent g M i (claim_at g k) (claim_at g i)" by (auto simp: adjacent_def)
      then show ?thesis using nonzero False k(3) ti by (simp add: split_claims_def)
    qed
  qed
qed



end
