(* ===== verification/FaultOutputs.thy ===== *)
theory FaultOutputs
  imports FaultTrace
begin

text \<open>
  The output roots of the rollup node as the trace of the upper part of a dispute game, and the inputs of the
  games below the split: op-challenger/game/fault/trace/outputs (provider.go, prestate.go,
  split_adapter.go) and trace/utils/local.go. The rollup client and the L2 client are parameters: an
  output at a block is its root and the rest of the response, a header its hash and the rest.
\<close>

section \<open>The provider (provider.go, prestate.go)\<close>

definition ErrGetStepData :: gerr where "ErrGetStepData = Msg ''GetStepData not supported''"

definition ErrIndexTooBig :: gerr where "ErrIndexTooBig = Msg ''trace index is greater than max uint64''"

record ('r, 'h) OutputTraceProvider =
  ot_Prestate :: "Hash res"
  ot_OutputAtBlock :: "u64 \<Rightarrow> (Hash \<times> 'r) res"
  ot_SafeHeadAtL1Block :: "u64 \<Rightarrow> u64 res"
  ot_HeaderByNumber :: "int \<Rightarrow> (Hash \<times> 'h) res"
  ot_prestateBlock :: u64
  ot_poststateBlock :: u64
  ot_l1Head :: BlockID
  ot_gameDepth :: u64

definition ClaimedBlockNumber :: "('r, 'h) OutputTraceProvider \<Rightarrow> Position \<Rightarrow> u64 res go" where
  "ClaimedBlockNumber ot pos =
     (case TraceIndex (ot_gameDepth ot) pos of
        None \<Rightarrow> None
      | Some traceIndex \<Rightarrow>
          if traceIndex < 0 \<or> 2 ^ 64 \<le> traceIndex then Some (Inl (Wrap ''traceIndex'' ErrIndexTooBig))
          else
            (let outputBlock = word_of_int traceIndex + ot_prestateBlock ot + 1 in
             Some (Inr (if outputBlock > ot_poststateBlock ot then ot_poststateBlock ot else outputBlock))))"

definition HonestBlockNumber :: "('r, 'h) OutputTraceProvider \<Rightarrow> Position \<Rightarrow> u64 res go" where
  "HonestBlockNumber ot pos =
     (case ClaimedBlockNumber ot pos of
        None \<Rightarrow> None
      | Some (Inl err) \<Rightarrow> Some (Inl err)
      | Some (Inr outputBlock) \<Rightarrow>
          (case ot_SafeHeadAtL1Block ot (bid_Number (ot_l1Head ot)) of
             Inl err \<Rightarrow> Some (Inl (Wrap ''failed to get safe head at L1 block'' err))
           | Inr maxSafeHead \<Rightarrow> Some (Inr (if outputBlock > maxSafeHead then maxSafeHead else outputBlock))))"

definition outputAtBlock :: "(u64 \<Rightarrow> (Hash \<times> 'r) res) \<Rightarrow> u64 \<Rightarrow> Hash res" where
  "outputAtBlock OutputAtBlock block =
     (case OutputAtBlock block of
        Inl err \<Rightarrow> Inl (Wrap ''failed to fetch output at block'' err)
      | Inr (root, _) \<Rightarrow> Inr root)"

definition output_Get :: "('r, 'h) OutputTraceProvider \<Rightarrow> Position \<Rightarrow> Hash res go" where
  "output_Get ot pos =
     (case HonestBlockNumber ot pos of
        None \<Rightarrow> None
      | Some (Inl err) \<Rightarrow> Some (Inl err)
      | Some (Inr outputBlock) \<Rightarrow> Some (outputAtBlock (ot_OutputAtBlock ot) outputBlock))"

definition output_GetStepData ::
  "('r, 'h) OutputTraceProvider \<Rightarrow> Position \<Rightarrow> (bytes \<times> bytes \<times> PreimageOracleData option) res go" where
  "output_GetStepData ot pos = Some (Inl ErrGetStepData)"

text \<open>The challenge of a block number: the output and the header at the honest block.\<close>

definition output_GetL2BlockNumberChallenge ::
  "('r, 'h) OutputTraceProvider \<Rightarrow> ((Hash \<times> 'r) \<times> (Hash \<times> 'h)) res go" where
  "output_GetL2BlockNumberChallenge ot =
     (case HonestBlockNumber ot RootPosition of
        None \<Rightarrow> None
      | Some (Inl err) \<Rightarrow> Some (Inl err)
      | Some (Inr outputBlock) \<Rightarrow>
          (case ClaimedBlockNumber ot RootPosition of
             None \<Rightarrow> None
           | Some (Inl err) \<Rightarrow> Some (Inl err)
           | Some (Inr claimedBlock) \<Rightarrow>
               if claimedBlock = outputBlock then Some (Inl ErrL2BlockNumberValid)
               else
                 (case ot_OutputAtBlock ot outputBlock of
                    Inl err \<Rightarrow> Some (Inl err)
                  | Inr out \<Rightarrow>
                      (case ot_HeaderByNumber ot (int (unat outputBlock)) of
                         Inl err \<Rightarrow> Some (Inl (Wrap ''failed to retrieve L2 block header'' err))
                       | Inr header \<Rightarrow> Some (Inr (out, header))))))"

definition output_provider :: "('r, 'h) OutputTraceProvider \<Rightarrow> ((Hash \<times> 'r) \<times> (Hash \<times> 'h)) TraceProvider" where
  "output_provider ot =
     \<lparr>tp_AbsolutePreStateCommitment = Some (ot_Prestate ot), tp_Get = output_Get ot,
      tp_GetStepData = output_GetStepData ot, tp_GetL2BlockNumberChallenge = output_GetL2BlockNumberChallenge ot\<rparr>"

definition output_AbsolutePreStateCommitment :: "(u64 \<Rightarrow> (Hash \<times> 'r) res) \<Rightarrow> u64 \<Rightarrow> Hash res" where
  "output_AbsolutePreStateCommitment OutputAtBlock prestateBlock = outputAtBlock OutputAtBlock prestateBlock"

section \<open>The games below the split (split_adapter.go, local.go)\<close>

record Proposal =
  prop_L2BlockNumber :: int
  prop_OutputRoot :: Hash

definition FetchProposals :: "('r, 'h) OutputTraceProvider \<Rightarrow> Claim \<Rightarrow> Claim \<Rightarrow> (Proposal \<times> Proposal) res go" where
  "FetchProposals topProvider pre post =
     (let usePrestateBlock = (pre = zero_Claim);
          agreed =
            (if usePrestateBlock then
               (case ot_Prestate topProvider of
                  Inl err \<Rightarrow> Some (Inl (Wrap ''failed to retrieve absolute prestate output root'' err))
                | Inr prestateRoot \<Rightarrow>
                    Some (Inr \<lparr>prop_L2BlockNumber = int (unat (ot_prestateBlock topProvider)), prop_OutputRoot = prestateRoot\<rparr>))
             else
               (case HonestBlockNumber topProvider (cl_Position pre) of
                  None \<Rightarrow> None
                | Some (Inl err) \<Rightarrow> Some (Inl (Wrap ''unable to calculate pre-claim block number'' err))
                | Some (Inr preBlockNum) \<Rightarrow>
                    Some (Inr \<lparr>prop_L2BlockNumber = int (unat preBlockNum), prop_OutputRoot = cl_Value pre\<rparr>)))
      in case agreed of
           None \<Rightarrow> None
         | Some (Inl err) \<Rightarrow> Some (Inl err)
         | Some (Inr agreed) \<Rightarrow>
             (case ClaimedBlockNumber topProvider (cl_Position post) of
                None \<Rightarrow> None
              | Some (Inl err) \<Rightarrow> Some (Inl (Wrap ''unable to calculate post-claim block number'' err))
              | Some (Inr postBlockNum) \<Rightarrow>
                  Some (Inr (agreed, \<lparr>prop_L2BlockNumber = int (unat postBlockNum), prop_OutputRoot = cl_Value post\<rparr>))))"

definition encodeClaim :: "Claim \<Rightarrow> bytes go" where
  "encodeClaim c = map_option (\<lambda>g. be_put 32 (cl_Value c) @ g) (FillBytes 32 (ToGIndex (cl_Position c)))"

definition localContextPreimage :: "Claim \<Rightarrow> Claim \<Rightarrow> bytes go" where
  "localContextPreimage pre post =
     (case (if pre \<noteq> zero_Claim then encodeClaim pre else Some []) of
        None \<Rightarrow> None
      | Some d \<Rightarrow> map_option (\<lambda>e. d @ e) (encodeClaim post))"

definition CreateLocalContext :: "keccak \<Rightarrow> Claim \<Rightarrow> Claim \<Rightarrow> Hash go" where
  "CreateLocalContext keccak256 pre post = map_option keccak256 (localContextPreimage pre post)"

definition OutputRootSplitAdapter ::
  "keccak \<Rightarrow> ('r, 'h) OutputTraceProvider \<Rightarrow>
   (Hash \<Rightarrow> u64 \<Rightarrow> Proposal \<Rightarrow> Proposal \<Rightarrow> 'c TraceProvider res go) \<Rightarrow> 'c ProviderCreator" where
  "OutputRootSplitAdapter keccak256 topProvider creator = (\<lambda>depth pre post.
     case CreateLocalContext keccak256 pre post of
       None \<Rightarrow> None
     | Some localContext \<Rightarrow>
         (case FetchProposals topProvider pre post of
            None \<Rightarrow> None
          | Some (Inl err) \<Rightarrow> Some (Inl err)
          | Some (Inr (agreed, disputed)) \<Rightarrow> creator localContext depth agreed disputed))"

record LocalGameInputs =
  lgi_L1Head :: Hash
  lgi_L2Head :: Hash
  lgi_L2OutputRoot :: Hash
  lgi_L2Claim :: Hash
  lgi_L2BlockNumber :: int

definition FetchLocalInputsFromProposals ::
  "Hash \<Rightarrow> (int \<Rightarrow> (Hash \<times> 'h) res) \<Rightarrow> Proposal \<Rightarrow> Proposal \<Rightarrow> LocalGameInputs res" where
  "FetchLocalInputsFromProposals l1Head HeaderByNumber agreedOutput claimedOutput =
     (case HeaderByNumber (prop_L2BlockNumber agreedOutput) of
        Inl err \<Rightarrow> Inl (Wrap ''fetch L2 block header'' err)
      | Inr (l2Head, _) \<Rightarrow>
          Inr \<lparr>lgi_L1Head = l1Head, lgi_L2Head = l2Head, lgi_L2OutputRoot = prop_OutputRoot agreedOutput,
            lgi_L2Claim = prop_OutputRoot claimedOutput, lgi_L2BlockNumber = prop_L2BlockNumber claimedOutput\<rparr>)"

text \<open>The output game over an alphabet (output_alphabet.go), without the cache of its providers.\<close>

definition NewOutputAlphabetTraceAccessor ::
  "keccak \<Rightarrow> ('r, 'h) OutputTraceProvider \<Rightarrow> ((Hash \<times> 'r) \<times> (Hash \<times> 'h)) TraceAccessor" where
  "NewOutputAlphabetTraceAccessor keccak256 outputProvider =
     NewAccessor (NewSplitProviderSelector (output_provider outputProvider) (ot_gameDepth outputProvider)
       (OutputRootSplitAdapter keccak256 outputProvider
         (\<lambda>localContext depth agreed claimed.
            Some (Inr (alphabet_provider keccak256 (alphabet_NewTraceProvider (prop_L2BlockNumber agreed) depth))))))"

section \<open>Blocks of a trace\<close>

text \<open>The block after a trace index, when no number wraps.\<close>

lemma ClaimedBlockNumber_eq:
  assumes "node pos" "pos_depth pos \<le> ot_gameDepth ot" "unat (ot_gameDepth ot) \<le> 63"
    "unat (ot_prestateBlock ot) < 2 ^ 63"
  shows "\<exists>b. ClaimedBlockNumber ot pos = Some (Inr b) \<and>
    int (unat b) = min (tidx (ot_gameDepth ot) pos + int (unat (ot_prestateBlock ot)) + 1) (int (unat (ot_poststateBlock ot)))"
proof -
  let ?t = "tidx (ot_gameDepth ot) pos"
  have "?t < 2 ^ unat (ot_gameDepth ot)" "0 \<le> ?t" using tidx_bounds [OF assms(1,2)] by simp_all
  moreover have "(2 :: int) ^ unat (ot_gameDepth ot) \<le> 2 ^ 63" by (rule power_increasing) (use assms(3) in simp_all)
  ultimately have t: "0 \<le> ?t" "?t < 2 ^ 63" by simp_all
  have pre: "int (unat (ot_prestateBlock ot)) < 2 ^ 63"
    using assms(4) by (metis of_nat_less_iff of_nat_numeral of_nat_power)
  let ?b = "word_of_int ?t + ot_prestateBlock ot + 1 :: u64"
  have "?b = word_of_int (?t + int (unat (ot_prestateBlock ot)) + 1)" by simp
  then have "uint ?b = ?t + int (unat (ot_prestateBlock ot)) + 1"
    using t pre by (simp only: uint_word_of_int) (simp add: mod_pos_pos_trivial)
  then have b: "int (unat ?b) = ?t + int (unat (ot_prestateBlock ot)) + 1" by simp
  have "ClaimedBlockNumber ot pos = Some (Inr (if ?b > ot_poststateBlock ot then ot_poststateBlock ot else ?b))"
    using t TraceIndex_tidx [OF assms(2)] by (simp add: ClaimedBlockNumber_def Let_def)
  moreover have "int (unat (if ?b > ot_poststateBlock ot then ot_poststateBlock ot else ?b)) =
      min (int (unat ?b)) (int (unat (ot_poststateBlock ot)))"
    by (simp add: word_less_def min_def)
  ultimately show ?thesis unfolding b [symmetric] by blast
qed

text \<open>The blocks of the output trace advance one by one. From a trace index to the next the claimed block number
  grows by at most one, the first is the block after the prestate, and all lie after the prestate and
  not after the poststate, for traces up to 63 levels deep and a prestate below 2 to the 63.\<close>

theorem claimed_blocks_advance:
  assumes "node p" "pos_depth p \<le> ot_gameDepth ot" "node q" "pos_depth q \<le> ot_gameDepth ot"
    "tidx (ot_gameDepth ot) q = tidx (ot_gameDepth ot) p + 1" "unat (ot_gameDepth ot) \<le> 63"
    "unat (ot_prestateBlock ot) < 2 ^ 63" "ot_prestateBlock ot < ot_poststateBlock ot"
  shows "\<exists>b c. ClaimedBlockNumber ot p = Some (Inr b) \<and> ClaimedBlockNumber ot q = Some (Inr c) \<and>
    ot_prestateBlock ot < b \<and> b \<le> c \<and> unat c \<le> unat b + 1 \<and> c \<le> ot_poststateBlock ot \<and>
    (tidx (ot_gameDepth ot) p = 0 \<longrightarrow> unat b = unat (ot_prestateBlock ot) + 1)"
proof -
  obtain b c where bc: "ClaimedBlockNumber ot p = Some (Inr b)" "ClaimedBlockNumber ot q = Some (Inr c)"
    and b: "int (unat b) = min (tidx (ot_gameDepth ot) p + int (unat (ot_prestateBlock ot)) + 1) (int (unat (ot_poststateBlock ot)))"
    and c: "int (unat c) = min (tidx (ot_gameDepth ot) q + int (unat (ot_prestateBlock ot)) + 1) (int (unat (ot_poststateBlock ot)))"
    using ClaimedBlockNumber_eq [OF assms(1,2,6,7)] ClaimedBlockNumber_eq [OF assms(3,4,6,7)] by blast
  have t: "0 \<le> tidx (ot_gameDepth ot) p" by (rule tidx_bounds(1) [OF assms(1,2)])
  have less: "unat (ot_prestateBlock ot) < unat (ot_poststateBlock ot)" using assms(8) by (simp add: word_less_nat_alt)
  have "unat (ot_prestateBlock ot) < unat b" using b t less by linarith
  moreover have "unat b \<le> unat c" using b c assms(5) by linarith
  moreover have "unat c \<le> unat b + 1" using b c assms(5) by linarith
  moreover have "unat c \<le> unat (ot_poststateBlock ot)" using c by linarith
  moreover have "tidx (ot_gameDepth ot) p = 0 \<Longrightarrow> unat b = unat (ot_prestateBlock ot) + 1" using b less by linarith
  ultimately show ?thesis using bc by (auto simp: word_less_nat_alt word_le_nat_alt)
qed

definition sample_outputs :: "(unit, unit) OutputTraceProvider" where
  "sample_outputs =
     \<lparr>ot_Prestate = Inr 0, ot_OutputAtBlock = (\<lambda>n. Inr (ucast n, ())), ot_SafeHeadAtL1Block = (\<lambda>_. Inr 12),
      ot_HeaderByNumber = (\<lambda>_. Inr (0, ())), ot_prestateBlock = 10, ot_poststateBlock = 13,
      ot_l1Head = \<lparr>bid_Hash = 0, bid_Number = 0\<rparr>, ot_gameDepth = 1\<rparr>"

theorem claimed_blocks_advance_witness:
  "\<exists>b c. ClaimedBlockNumber sample_outputs \<lparr>pos_depth = 1, pos_indexAtDepth = Some 0\<rparr> = Some (Inr b) \<and>
     ClaimedBlockNumber sample_outputs RootPosition = Some (Inr c) \<and> unat b = 11 \<and> unat c \<le> 12"
  using claimed_blocks_advance [of "\<lparr>pos_depth = 1, pos_indexAtDepth = Some 0\<rparr>" sample_outputs RootPosition]
  by (auto simp: sample_outputs_def node_def RootPosition_eq tidx_def)

section \<open>Contexts of the games below the split\<close>

lemma FillBytes_inj:
  assumes "FillBytes n x = Some bs" "FillBytes n y = Some bs" "0 \<le> x" "0 \<le> y"
  shows "x = y"
proof -
  have read: "nat z = be_to_nat bs" if "FillBytes n z = Some bs" "0 \<le> z" for z
  proof -
    have bits: "BitLen (nat z) \<le> 8 * n" and bs: "bs = nat_to_be n (nat z)"
      using that by (simp_all add: FillBytes_def split: if_splits)
    have "nat z < 2 ^ (8 * n)" using bits BitLen_le by blast
    then have "nat z < 256 ^ n" by (simp add: power_mult)
    then show ?thesis by (simp add: bs)
  qed
  then have "nat x = nat y" using assms by metis
  then show ?thesis using assms(3,4) by simp
qed

lemma encodeClaim_inj:
  assumes "encodeClaim a = Some bs" "encodeClaim b = Some bs" "node (cl_Position a)" "node (cl_Position b)"
  shows "cl_Value a = cl_Value b \<and> cl_Position a = cl_Position b"
proof -
  obtain x y where fill: "FillBytes 32 (ToGIndex (cl_Position a)) = Some x" "FillBytes 32 (ToGIndex (cl_Position b)) = Some y"
    and bs: "bs = be_put 32 (cl_Value a) @ x" "bs = be_put 32 (cl_Value b) @ y"
    using assms(1,2) by (auto simp: encodeClaim_def)
  from bs have xy: "be_put 32 (cl_Value a) = be_put 32 (cl_Value b)" "x = y" by (auto simp: append_eq_append_conv)
  have pos: "0 \<le> ToGIndex p" if "node p" for p using that by (simp add: ToGIndex_eq node_def)
  have "ToGIndex (cl_Position a) = ToGIndex (cl_Position b)"
    using FillBytes_inj [OF fill(1) fill(2) [folded xy(2)]] pos assms(3,4) by blast
  then have "cl_Position a = cl_Position b" using gindex_node [OF assms(3)] gindex_node [OF assms(4)] by metis
  moreover have "cl_Value a = cl_Value b" by (rule be_put_inj [OF _ xy(1)]) simp
  ultimately show ?thesis by simp
qed

lemma length_encodeClaim: "encodeClaim c = Some bs \<Longrightarrow> length bs = 64"
  by (auto simp: encodeClaim_def FillBytes_def split: if_splits)

text \<open>The context of a game below the split determines the claims it is between. Equal context preimages come from
  pre claims that are both absent or have the same value and position, and from post claims
  with the same value and position.\<close>

theorem localContextPreimage_injective:
  assumes "localContextPreimage pre post = Some bs" "localContextPreimage pre' post' = Some bs"
    "pre \<noteq> zero_Claim \<longrightarrow> node (cl_Position pre)" "pre' \<noteq> zero_Claim \<longrightarrow> node (cl_Position pre')"
    "node (cl_Position post)" "node (cl_Position post')"
  shows "(pre = zero_Claim \<longleftrightarrow> pre' = zero_Claim) \<and> cl_Value pre = cl_Value pre' \<and> cl_Position pre = cl_Position pre' \<and>
    cl_Value post = cl_Value post' \<and> cl_Position post = cl_Position post'"
proof -
  obtain d e where de: "(if pre \<noteq> zero_Claim then encodeClaim pre else Some []) = Some d" "encodeClaim post = Some e" "bs = d @ e"
    using assms(1) by (auto simp: localContextPreimage_def split: option.splits)
  obtain d' e' where de': "(if pre' \<noteq> zero_Claim then encodeClaim pre' else Some []) = Some d'" "encodeClaim post' = Some e'" "bs = d' @ e'"
    using assms(2) by (auto simp: localContextPreimage_def split: option.splits)
  have len: "length e = 64" "length e' = 64" using length_encodeClaim de(2) de'(2) by blast+
  then have eq: "d = d'" "e = e'" using de(3) de'(3) by (simp_all add: append_eq_append_conv)
  have d: "length d = (if pre = zero_Claim then 0 else 64)" using de(1) length_encodeClaim by (auto split: if_splits)
  have d': "length d' = (if pre' = zero_Claim then 0 else 64)" using de'(1) length_encodeClaim by (auto split: if_splits)
  have iff: "pre = zero_Claim \<longleftrightarrow> pre' = zero_Claim" using d d' unfolding eq by (auto split: if_splits)
  have "cl_Value pre = cl_Value pre' \<and> cl_Position pre = cl_Position pre'"
  proof (cases "pre = zero_Claim")
    case True
    then show ?thesis using iff by simp
  next
    case False
    then have "encodeClaim pre = Some d" "encodeClaim pre' = Some d" using de(1) de'(1) iff eq by simp_all
    then show ?thesis using encodeClaim_inj assms(3,4) False iff by blast
  qed
  moreover have "cl_Value post = cl_Value post' \<and> cl_Position post = cl_Position post'"
    using encodeClaim_inj de(2) de'(2) assms(5,6) unfolding eq by blast
  ultimately show ?thesis using iff by simp
qed

theorem localContextPreimage_injective_witness:
  "\<exists>bs. localContextPreimage zero_Claim wrong_root = Some bs \<and>
     (\<forall>pre post. localContextPreimage pre post = Some bs \<longrightarrow> node (cl_Position pre) \<longrightarrow> node (cl_Position post) \<longrightarrow> pre = zero_Claim)"
proof -
  have "FillBytes 32 (ToGIndex RootPosition) \<noteq> None" by (simp add: FillBytes_def RootPosition_eq ToGIndex_def BitLen.simps)
  then obtain bs where bs: "localContextPreimage zero_Claim wrong_root = Some bs"
    by (auto simp: localContextPreimage_def encodeClaim_def wrong_root_def)
  have root: "node (cl_Position wrong_root)" by (simp add: wrong_root_def RootPosition_eq node_def)
  have "pre = zero_Claim" if "localContextPreimage pre post = Some bs" "node (cl_Position pre)" "node (cl_Position post)" for pre post
    using localContextPreimage_injective [OF bs that(1) _ _ root that(3)] that(2) by blast
  then show ?thesis using bs by blast
qed

end
