(* ===== verification/SyncStart.thy ===== *)
theory SyncStart
  imports Rollup Errors
begin

text \<open>
  Where derivation starts after a reset, op-node/rollup/sync (start.go, config.go): \<open>FindL2Heads\<close> walks back from the
  unsafe head of the engine. The L1 and the L2 node answer for one call, so the five attempts
  of \<open>retry.Do\<close> (op-service/retry) give the answer of the first. None stands for a walk that does not end.
\<close>

section \<open>The walk\<close>

datatype Mode = CLSync | ELSync

record SyncConfig =
  sc_SyncMode :: Mode
  sc_SkipSyncStartCheck :: bool
  sc_ELTriggerGap :: int

datatype BlockLabel = LabelUnsafe | LabelSafe | LabelFinalized

record L1Chain =
  c1_ByNumber :: "u64 \<Rightarrow> L1BlockRef res"
  c1_ByHash :: "Hash \<Rightarrow> L1BlockRef res"

record L2Chain =
  c2_ByHash :: "Hash \<Rightarrow> L2BlockRef res"
  c2_ByLabel :: "BlockLabel \<Rightarrow> L2BlockRef res"

definition ReorgFinalizedErr :: gerr where "ReorgFinalizedErr = Msg ''cannot reorg finalized block''"
definition WrongChainErr :: gerr where "WrongChainErr = Msg ''wrong chain''"
definition TooDeepReorgErr :: gerr where "TooDeepReorgErr = Msg ''reorg is too deep''"

definition MaxReorgSeqWindows :: u64 where "MaxReorgSeqWindows = 5"

record FindHeadsResult =
  fh_Unsafe :: L2BlockRef
  fh_Safe :: L2BlockRef
  fh_Finalized :: L2BlockRef

definition zero_L2BlockRef :: L2BlockRef where
  "zero_L2BlockRef = \<lparr>l2_Hash = 0, l2_Number = 0, l2_ParentHash = 0, l2_Time = 0, l2_MilliTime = 0,
     l2_L1Origin = \<lparr>bid_Hash = 0, bid_Number = 0\<rparr>, l2_SequenceNumber = 0\<rparr>"

definition retry_Do :: "'a res \<Rightarrow> 'a res" where
  "retry_Do r = (case r of Inl err \<Rightarrow> Inl (Wrap ''operation failed permanently'' err) | Inr x \<Rightarrow> Inr x)"

definition is_NotFound :: "'a res \<Rightarrow> bool" where
  "is_NotFound r = (case r of Inl err \<Rightarrow> errors_Is err NotFound | Inr _ \<Rightarrow> False)"

definition currentHeads :: "Config \<Rightarrow> L2Chain \<Rightarrow> FindHeadsResult res" where
  "currentHeads cfg l2 =
     (let finalized = c2_ByLabel l2 LabelFinalized;
          finalized = (if is_NotFound finalized then c2_ByHash l2 (bid_Hash (gen_L2 (cfg_Genesis cfg))) else finalized)
      in case finalized of
           Inl err \<Rightarrow> Inl (Wrap ''failed to find the finalized L2 block'' err)
         | Inr finalized \<Rightarrow>
             (let safe = c2_ByLabel l2 LabelSafe;
                  safe = (if is_NotFound safe then Inr finalized else safe)
              in case safe of
                   Inl err \<Rightarrow> Inl (Wrap ''failed to find the safe L2 block'' err)
                 | Inr safe \<Rightarrow>
                     (case c2_ByLabel l2 LabelUnsafe of
                        Inl err \<Rightarrow> Inl (Wrap ''failed to find the L2 head block'' err)
                      | Inr unsafe \<Rightarrow> Inr \<lparr>fh_Unsafe = unsafe, fh_Safe = safe, fh_Finalized = finalized\<rparr>)))"

text \<open>The variables of the loop.\<close>

record FindState =
  fs_n :: L2BlockRef
  fs_result :: FindHeadsResult
  fs_highest :: L2BlockRef
  fs_l1Block :: L1BlockRef
  fs_ahead :: bool
  fs_ready :: bool

text \<open>The L1 information for the origin of the current block.\<close>

definition fetch_l1 :: "L1Chain \<Rightarrow> FindState \<Rightarrow> FindState res" where
  "fetch_l1 l1 s =
     (let origin = l2_L1Origin (fs_n s); l1Block = fs_l1Block s in
      if bid_Hash origin = l1_ParentHash l1Block then
        (case retry_Do (c1_ByHash l1 (bid_Hash origin)) of
           Inl err \<Rightarrow> Inl (Wrap ''failed to retrieve L1 block'' err)
         | Inr b \<Rightarrow> Inr (s\<lparr>fs_l1Block := b, fs_ahead := False\<rparr>))
      else if l1Block = zero_L1BlockRef \<or> bid_Hash origin \<noteq> l1_Hash l1Block then
        (let r = retry_Do (c1_ByNumber l1 (bid_Number origin)); notFound = is_NotFound r in
         case r of
           Inl err \<Rightarrow>
             if \<not> notFound then Inl (Wrap ''failed to retrieve block from L1'' err)
             else Inr (s\<lparr>fs_l1Block := zero_L1BlockRef, fs_ahead := True\<rparr>)
         | Inr b \<Rightarrow> Inr (s\<lparr>fs_l1Block := b, fs_ahead := False\<rparr>))
      else Inr s)"

text \<open>The checks against genesis and the finalized block, and the depth of the reorg.\<close>

definition check_chain :: "Config \<Rightarrow> L2BlockRef \<Rightarrow> FindState \<Rightarrow> gerr option" where
  "check_chain cfg prevUnsafe s =
     (let n = fs_n s; genesis = cfg_Genesis cfg in
      if l2_Number n = bid_Number (gen_L2 genesis) \<and> l2_Hash n \<noteq> bid_Hash (gen_L2 genesis) then
        Some (Wrap ''L2: genesis'' WrongChainErr)
      else if l2_Number n = bid_Number (gen_L2 genesis) \<and> \<not> fs_ahead s \<and>
              l1_Hash (fs_l1Block s) \<noteq> bid_Hash (gen_L1 genesis) then
        Some (Wrap ''L1: genesis'' WrongChainErr)
      else if l2_Number n = l2_Number (fh_Finalized (fs_result s)) \<and> l2_Hash n \<noteq> l2_Hash (fh_Finalized (fs_result s)) then
        Some (Wrap ''finalized'' ReorgFinalizedErr)
      else if fh_Unsafe (fs_result s) = zero_L2BlockRef \<and>
              bid_Number (l2_L1Origin n) + MaxReorgSeqWindows * SyncLookback cfg < bid_Number (l2_L1Origin prevUnsafe) then
        Some (Wrap ''traversed back too deep'' TooDeepReorgErr)
      else None)"

definition set_unsafe :: "FindState \<Rightarrow> L2BlockRef \<Rightarrow> FindState" where
  "set_unsafe s b = s\<lparr>fs_result := (fs_result s)\<lparr>fh_Unsafe := b\<rparr>\<rparr>"

text \<open>What the origin of the current block means for the unsafe head and the highest canonical block.\<close>

definition judge_origin :: "FindState \<Rightarrow> FindState" where
  "judge_origin s =
     (let n = fs_n s; s = (if fh_Unsafe (fs_result s) = zero_L2BlockRef then set_unsafe s n else s) in
      if fs_ahead s then s
      else if l1_Hash (fs_l1Block s) = bid_Hash (l2_L1Origin n) then
        (if fs_highest s = zero_L2BlockRef then s\<lparr>fs_highest := n\<rparr> else s)
      else (set_unsafe s zero_L2BlockRef)\<lparr>fs_highest := zero_L2BlockRef\<rparr>)"

definition is_ready :: "Config \<Rightarrow> FindState \<Rightarrow> bool" where
  "is_ready cfg s \<longleftrightarrow>
     l2_Number (fs_n s) \<le> l2_Number (fh_Safe (fs_result s)) \<and>
     bid_Number (l2_L1Origin (fs_n s)) + SyncLookback cfg < bid_Number (l2_L1Origin (fs_highest s)) \<and>
     l2_SequenceNumber (fs_n s) = 0"

definition check_parent :: "FindState \<Rightarrow> L2BlockRef \<Rightarrow> gerr option" where
  "check_parent s parent =
     (let n = fs_n s in
      if l2_L1Origin parent \<noteq> l2_L1Origin n then
        (if bid_Number (l2_L1Origin parent) + 1 \<noteq> bid_Number (l2_L1Origin n) then
           Some (Msg ''l2 parent has L1 origin that is not before'')
         else if l2_SequenceNumber n \<noteq> 0 then
           Some (Msg ''l2 block has parent with different L1 origin, but non-zero sequence number'')
         else if l1_Hash (fs_l1Block s) = bid_Hash (l2_L1Origin n) \<and>
                 l1_ParentHash (fs_l1Block s) \<noteq> bid_Hash (l2_L1Origin parent) then
           Some (Msg ''parent L2 block has another origin than expected'')
         else None)
      else if l2_SequenceNumber parent + 1 \<noteq> l2_SequenceNumber n then Some (Msg ''sequence number inconsistency'')
      else None)"

text \<open>One iteration: the result of the function, or the state of the next iteration.\<close>

definition find_step ::
    "Config \<Rightarrow> SyncConfig \<Rightarrow> L1Chain \<Rightarrow> L2Chain \<Rightarrow> L2BlockRef \<Rightarrow> FindState \<Rightarrow> FindHeadsResult res + FindState" where
  "find_step cfg syncCfg l1 l2 prevUnsafe s =
     (case fetch_l1 l1 s of
        Inl err \<Rightarrow> Inl (Inl err)
      | Inr s \<Rightarrow>
          (case check_chain cfg prevUnsafe s of
             Some err \<Rightarrow> Inl (Inl err)
           | None \<Rightarrow>
               (let s = judge_origin s;
                    s = (if is_ready cfg s then s\<lparr>fs_ready := True\<rparr> else s);
                    n = fs_n s
                in if l2_Number n = l2_Number (fh_Finalized (fs_result s)) then
                     Inl (Inr ((fs_result s)\<lparr>fh_Safe := n\<rparr>))
                   else if sc_SkipSyncStartCheck syncCfg \<and> l2_Hash (fs_highest s) = l2_Hash n then
                     Inr (s\<lparr>fs_n := fh_Safe (fs_result s)\<rparr>)
                   else
                     (case c2_ByHash l2 (l2_ParentHash n) of
                        Inl err \<Rightarrow> Inl (Inl (Wrap ''failed to fetch L2 block by hash'' err))
                      | Inr parent \<Rightarrow>
                          (case check_parent s parent of
                             Some err \<Rightarrow> Inl (Inl err)
                           | None \<Rightarrow>
                               if fs_ready s then Inl (Inr ((fs_result s)\<lparr>fh_Safe := parent\<rparr>))
                               else Inr (s\<lparr>fs_n := parent\<rparr>))))))"

partial_function (option) find_loop ::
    "Config \<Rightarrow> SyncConfig \<Rightarrow> L1Chain \<Rightarrow> L2Chain \<Rightarrow> L2BlockRef \<Rightarrow> FindState \<Rightarrow> FindHeadsResult res option" where
  "find_loop cfg syncCfg l1 l2 prevUnsafe s =
     (case find_step cfg syncCfg l1 l2 prevUnsafe s of
        Inl r \<Rightarrow> Some r
      | Inr s \<Rightarrow> find_loop cfg syncCfg l1 l2 prevUnsafe s)"

definition find_start :: "FindHeadsResult \<Rightarrow> FindState" where
  "find_start result =
     \<lparr>fs_n = fh_Unsafe result, fs_result = result, fs_highest = zero_L2BlockRef, fs_l1Block = zero_L1BlockRef,
      fs_ahead = False, fs_ready = False\<rparr>"

definition FindL2Heads :: "Config \<Rightarrow> SyncConfig \<Rightarrow> L1Chain \<Rightarrow> L2Chain \<Rightarrow> FindHeadsResult res option" where
  "FindL2Heads cfg syncCfg l1 l2 =
     (case currentHeads cfg l2 of
        Inl err \<Rightarrow> Some (Inl (Wrap ''failed to fetch current L2 forkchoice state'' err))
      | Inr result \<Rightarrow> find_loop cfg syncCfg l1 l2 (fh_Unsafe result) (find_start result))"

section \<open>Termination\<close>

text \<open>The blocks that the L2 node gives; they are linked by parent hash, their numbers count up, and no hash is zero.\<close>

definition known :: "L2Chain \<Rightarrow> L2BlockRef \<Rightarrow> bool" where
  "known l2 b \<longleftrightarrow> (\<exists>h. c2_ByHash l2 h = Inr b) \<or> (\<exists>lbl. c2_ByLabel l2 lbl = Inr b)"

definition parent_of :: "L2Chain \<Rightarrow> L2BlockRef \<Rightarrow> L2BlockRef \<Rightarrow> bool" where
  "parent_of l2 b p \<longleftrightarrow> c2_ByHash l2 (l2_ParentHash b) = Inr p"

definition l2_consistent :: "L2Chain \<Rightarrow> bool" where
  "l2_consistent l2 \<longleftrightarrow>
     (\<forall>b p. known l2 b \<longrightarrow> parent_of l2 b p \<longrightarrow> unat (l2_Number b) = Suc (unat (l2_Number p))) \<and>
     (\<forall>b. known l2 b \<longrightarrow> l2_Hash b \<noteq> 0)"

lemma parent_known: "parent_of l2 b p \<Longrightarrow> known l2 p"
  by (auto simp: parent_of_def known_def)

lemma currentHeads_known:
  assumes "currentHeads cfg l2 = Inr r"
  shows "known l2 (fh_Unsafe r) \<and> known l2 (fh_Safe r) \<and> known l2 (fh_Finalized r)"
  using assms by (auto simp: currentHeads_def Let_def known_def split: sum.splits if_splits)

lemma fetch_l1_keeps: "fetch_l1 l1 s = Inr s' \<Longrightarrow> fs_n s' = fs_n s \<and> fs_result s' = fs_result s \<and> fs_ready s' = fs_ready s \<and> fs_highest s' = fs_highest s"
  by (auto simp: fetch_l1_def Let_def split: sum.splits if_splits)

lemma judge_origin_keeps [simp]:
  "fs_n (judge_origin s) = fs_n s" "fs_ready (judge_origin s) = fs_ready s" "fs_l1Block (judge_origin s) = fs_l1Block s"
  "fs_ahead (judge_origin s) = fs_ahead s"
  "fh_Safe (fs_result (judge_origin s)) = fh_Safe (fs_result s)"
  "fh_Finalized (fs_result (judge_origin s)) = fh_Finalized (fs_result s)"
  by (simp_all add: judge_origin_def Let_def set_unsafe_def)

text \<open>The state between the L1 information and the step to the parent.\<close>

definition judged :: "Config \<Rightarrow> FindState \<Rightarrow> FindState" where
  "judged cfg s = (let s = judge_origin s in if is_ready cfg s then s\<lparr>fs_ready := True\<rparr> else s)"

lemma judged_keeps [simp]:
  "fs_n (judged cfg s) = fs_n s" "fs_l1Block (judged cfg s) = fs_l1Block s" "fs_ahead (judged cfg s) = fs_ahead s"
  "fh_Safe (fs_result (judged cfg s)) = fh_Safe (fs_result s)"
  "fh_Finalized (fs_result (judged cfg s)) = fh_Finalized (fs_result s)"
  "fs_result (judged cfg s) = fs_result (judge_origin s)" "fs_highest (judged cfg s) = fs_highest (judge_origin s)"
  by (simp_all add: judged_def Let_def)

lemma find_step_cases:
  assumes "find_step cfg syncCfg l1 l2 prevUnsafe s = r"
  obtains (error) err where "r = Inl (Inl err)"
  | (finalized) s0 where "fetch_l1 l1 s = Inr s0" "check_chain cfg prevUnsafe s0 = None"
      "l2_Number (fs_n s) = l2_Number (fh_Finalized (fs_result s))"
      "r = Inl (Inr ((fs_result (judged cfg s0))\<lparr>fh_Safe := fs_n s\<rparr>))"
  | (jump) s0 where "fetch_l1 l1 s = Inr s0" "check_chain cfg prevUnsafe s0 = None" "sc_SkipSyncStartCheck syncCfg"
      "l2_Hash (fs_highest (judged cfg s0)) = l2_Hash (fs_n s)"
      "r = Inr ((judged cfg s0)\<lparr>fs_n := fh_Safe (fs_result s)\<rparr>)"
  | (ready) s0 parent where "fetch_l1 l1 s = Inr s0" "check_chain cfg prevUnsafe s0 = None"
      "parent_of l2 (fs_n s) parent" "check_parent (judged cfg s0) parent = None" "fs_ready (judged cfg s0)"
      "r = Inl (Inr ((fs_result (judged cfg s0))\<lparr>fh_Safe := parent\<rparr>))"
  | (walk) s0 parent where "fetch_l1 l1 s = Inr s0" "check_chain cfg prevUnsafe s0 = None"
      "parent_of l2 (fs_n s) parent" "check_parent (judged cfg s0) parent = None" "\<not> fs_ready (judged cfg s0)"
      "r = Inr ((judged cfg s0)\<lparr>fs_n := parent\<rparr>)"
proof (cases "fetch_l1 l1 s")
  case (Inl err)
  then show ?thesis using assms error by (auto simp: find_step_def)
next
  case (Inr s0)
  note k = fetch_l1_keeps [OF Inr]
  have r: "r = (case check_chain cfg prevUnsafe s0 of
             Some err \<Rightarrow> Inl (Inl err)
           | None \<Rightarrow>
               (let s = judged cfg s0; n = fs_n s
                in if l2_Number n = l2_Number (fh_Finalized (fs_result s)) then
                     Inl (Inr ((fs_result s)\<lparr>fh_Safe := n\<rparr>))
                   else if sc_SkipSyncStartCheck syncCfg \<and> l2_Hash (fs_highest s) = l2_Hash n then
                     Inr (s\<lparr>fs_n := fh_Safe (fs_result s)\<rparr>)
                   else
                     (case c2_ByHash l2 (l2_ParentHash n) of
                        Inl err \<Rightarrow> Inl (Inl (Wrap ''failed to fetch L2 block by hash'' err))
                      | Inr parent \<Rightarrow>
                          (case check_parent s parent of
                             Some err \<Rightarrow> Inl (Inl err)
                           | None \<Rightarrow>
                               if fs_ready s then Inl (Inr ((fs_result s)\<lparr>fh_Safe := parent\<rparr>))
                               else Inr (s\<lparr>fs_n := parent\<rparr>)))))"
    unfolding assms [symmetric] find_step_def judged_def Let_def Inr sum.case ..
  show ?thesis
  proof (cases "check_chain cfg prevUnsafe s0")
    case None
    consider "l2_Number (fs_n s) = l2_Number (fh_Finalized (fs_result s))"
      | "l2_Number (fs_n s) \<noteq> l2_Number (fh_Finalized (fs_result s))" "sc_SkipSyncStartCheck syncCfg \<and> l2_Hash (fs_highest (judged cfg s0)) = l2_Hash (fs_n s)"
      | "l2_Number (fs_n s) \<noteq> l2_Number (fh_Finalized (fs_result s))" "\<not> (sc_SkipSyncStartCheck syncCfg \<and> l2_Hash (fs_highest (judged cfg s0)) = l2_Hash (fs_n s))"
      by blast
    then show ?thesis
    proof cases
      case 1
      then show ?thesis using r None k finalized [OF Inr None] by (simp add: Let_def)
    next
      case 2
      then show ?thesis using r None k jump [OF Inr None] by (simp add: Let_def)
    next
      case 3
      show ?thesis
      proof (cases "c2_ByHash l2 (l2_ParentHash (fs_n s))")
        case (Inl err)
        then show ?thesis using r None k 3 error by (simp add: Let_def)
      next
        case (Inr parent)
        then have p: "parent_of l2 (fs_n s) parent" by (simp add: parent_of_def)
        show ?thesis
        proof (cases "check_parent (judged cfg s0) parent")
          case None': None
          have "r = (if fs_ready (judged cfg s0) then Inl (Inr ((fs_result (judged cfg s0))\<lparr>fh_Safe := parent\<rparr>))
              else Inr ((judged cfg s0)\<lparr>fs_n := parent\<rparr>))"
            unfolding r using None None' k 3 Inr by (auto simp: Let_def)
          then show ?thesis
            using ready [OF \<open>fetch_l1 l1 s = Inr s0\<close> None p None'] walk [OF \<open>fetch_l1 l1 s = Inr s0\<close> None p None']
            by (cases "fs_ready (judged cfg s0)") (simp_all only: if_True if_False simp_thms)
        next
          case (Some err)
          then show ?thesis using r None k 3 Inr error by (simp add: Let_def)
        qed
      qed
    qed
  next
    case (Some err)
    then show ?thesis using r error by simp
  qed
qed

lemma find_loop_returns:
  assumes "l2_consistent l2" "\<not> sc_SkipSyncStartCheck syncCfg"
  shows "known l2 (fs_n s) \<Longrightarrow> find_loop cfg syncCfg l1 l2 prevUnsafe s \<noteq> None"
proof (induction "unat (l2_Number (fs_n s))" arbitrary: s rule: less_induct)
  case less
  obtain r where r: "find_step cfg syncCfg l1 l2 prevUnsafe s = r" by blast
  then show ?case
  proof (cases rule: find_step_cases)
    case (walk s0 parent)
    have "unat (l2_Number parent) < unat (l2_Number (fs_n s))"
      using assms(1) walk(3) less.prems by (auto simp: l2_consistent_def)
    then have "find_loop cfg syncCfg l1 l2 prevUnsafe ((judged cfg s0)\<lparr>fs_n := parent\<rparr>) \<noteq> None"
      using less.hyps [of "(judged cfg s0)\<lparr>fs_n := parent\<rparr>"] parent_known [OF walk(3)] by simp
    then show ?thesis using r walk(6) by (subst find_loop.simps) simp
  qed (use r assms(2) in \<open>subst find_loop.simps, simp\<close>)+
qed

lemma find_loop_diverges:
  assumes "\<And>s. s \<in> S \<Longrightarrow> \<exists>s'\<in>S. find_step cfg syncCfg l1 l2 prevUnsafe s = Inr s'" "s \<in> S"
  shows "find_loop cfg syncCfg l1 l2 prevUnsafe s = None"
proof -
  have "s \<notin> S" if "find_loop cfg syncCfg l1 l2 prevUnsafe s = Some r" for r
  proof -
    have "cfg = cfg \<longrightarrow> syncCfg = syncCfg \<longrightarrow> l1 = l1 \<longrightarrow> l2 = l2 \<longrightarrow> prevUnsafe = prevUnsafe \<longrightarrow> s \<notin> S"
    proof (rule find_loop.raw_induct [OF _ that, where P = "\<lambda>c y a b u s r. c = cfg \<longrightarrow> y = syncCfg \<longrightarrow> a = l1 \<longrightarrow> b = l2 \<longrightarrow> u = prevUnsafe \<longrightarrow> s \<notin> S"], intro impI)
      fix loop c y a b u s r
      assume ih: "\<And>c y a b u s r. loop c y a b u s = Some r \<Longrightarrow> c = cfg \<longrightarrow> y = syncCfg \<longrightarrow> a = l1 \<longrightarrow> b = l2 \<longrightarrow> u = prevUnsafe \<longrightarrow> s \<notin> S"
        and e: "(case find_step c y a b u s of Inl r \<Rightarrow> Some r | Inr s \<Rightarrow> loop c y a b u s) = Some r"
        and eqs: "c = cfg" "y = syncCfg" "a = l1" "b = l2" "u = prevUnsafe"
      show "s \<notin> S"
      proof
        assume "s \<in> S"
        then obtain s' where "s' \<in> S" "find_step cfg syncCfg l1 l2 prevUnsafe s = Inr s'" using assms(1) by blast
        then show False using ih [of c y a b u s' r] e eqs by simp
      qed
    qed
    then show ?thesis by simp
  qed
  then show ?thesis using assms(2) by (cases "find_loop cfg syncCfg l1 l2 prevUnsafe s") auto
qed

section \<open>Where the walk ends\<close>

text \<open>The canonical chain as the L1 node tells it: a block by number is canonical; the parent by hash of a canonical
  block is canonical and has that hash.\<close>

definition l1_consistent :: "L1Chain \<Rightarrow> bool" where
  "l1_consistent l1 \<longleftrightarrow>
     (\<forall>m x p. c1_ByNumber l1 m = Inr x \<longrightarrow> c1_ByHash l1 (l1_ParentHash x) = Inr p \<longrightarrow>
        l1_Hash p = l1_ParentHash x \<and> (\<exists>k. c1_ByNumber l1 k = Inr p)) \<and>
     (\<forall>b. c1_ByHash l1 0 \<noteq> Inr b)"

definition canonical_hash :: "L1Chain \<Rightarrow> Hash \<Rightarrow> bool" where
  "canonical_hash l1 h \<longleftrightarrow> (\<exists>m x. c1_ByNumber l1 m = Inr x \<and> l1_Hash x = h)"

definition plausible :: "L1Chain \<Rightarrow> L2BlockRef \<Rightarrow> bool" where
  "plausible l1 b \<longleftrightarrow>
     canonical_hash l1 (bid_Hash (l2_L1Origin b)) \<or> is_NotFound (c1_ByNumber l1 (bid_Number (l2_L1Origin b)))"

definition l1_known :: "L1Chain \<Rightarrow> L1BlockRef \<Rightarrow> bool" where
  "l1_known l1 x \<longleftrightarrow> x = zero_L1BlockRef \<or> (\<exists>m. c1_ByNumber l1 m = Inr x)"

text \<open>What the L1 information of the current block says.\<close>

definition l1_verdict :: "L1Chain \<Rightarrow> FindState \<Rightarrow> bool" where
  "l1_verdict l1 s \<longleftrightarrow> l1_known l1 (fs_l1Block s) \<and>
     (fs_ahead s \<longrightarrow> is_NotFound (c1_ByNumber l1 (bid_Number (l2_L1Origin (fs_n s))))) \<and>
     (\<not> fs_ahead s \<longrightarrow> (\<exists>m. c1_ByNumber l1 m = Inr (fs_l1Block s)))"

lemma fetch_l1_verdict:
  assumes "l1_consistent l1" "l1_known l1 (fs_l1Block s)" "fetch_l1 l1 s = Inr s'"
    and "fs_ahead s \<longrightarrow> fs_l1Block s = zero_L1BlockRef"
  shows "l1_verdict l1 s' \<and> (fs_ahead s' \<longrightarrow> fs_l1Block s' = zero_L1BlockRef)"
proof (cases "bid_Hash (l2_L1Origin (fs_n s)) = l1_ParentHash (fs_l1Block s)")
  case True
  then obtain b where b: "c1_ByHash l1 (l1_ParentHash (fs_l1Block s)) = Inr b" "s' = s\<lparr>fs_l1Block := b, fs_ahead := False\<rparr>"
    using assms(3) by (auto simp: fetch_l1_def retry_Do_def Let_def split: sum.splits)
  have "fs_l1Block s \<noteq> zero_L1BlockRef"
    using b(1) assms(1) by (auto simp: l1_consistent_def zero_L1BlockRef_def)
  then obtain m where "c1_ByNumber l1 m = Inr (fs_l1Block s)" using assms(2) by (auto simp: l1_known_def)
  then have "\<exists>k. c1_ByNumber l1 k = Inr b" using assms(1) b(1) by (auto simp: l1_consistent_def)
  then show ?thesis using b(2) by (auto simp: l1_verdict_def l1_known_def)
next
  case False
  show ?thesis
  proof (cases "fs_l1Block s = zero_L1BlockRef \<or> bid_Hash (l2_L1Origin (fs_n s)) \<noteq> l1_Hash (fs_l1Block s)")
    case True
    then show ?thesis
      using assms(3) False
      by (auto simp: fetch_l1_def retry_Do_def is_NotFound_def Let_def l1_verdict_def l1_known_def split: sum.splits if_splits)
  next
    case f: False
    then have "s' = s" using assms(3) False by (auto simp: fetch_l1_def Let_def)
    then show ?thesis using f assms(2,4) by (auto simp: l1_verdict_def l1_known_def)
  qed
qed

text \<open>The blocks visited so far, from the unsafe head of the engine down to the current one: from the unsafe
  head of the result on, all before the last \<open>m\<close> are plausible; the highest canonical block is one of them.\<close>

definition linked :: "L2Chain \<Rightarrow> L2BlockRef list \<Rightarrow> bool" where
  "linked l2 bs \<longleftrightarrow> (\<forall>i. Suc i < length bs \<longrightarrow> parent_of l2 (bs ! i) (bs ! Suc i))"

definition heads_ok :: "L1Chain \<Rightarrow> L2BlockRef list \<Rightarrow> nat \<Rightarrow> L2BlockRef \<Rightarrow> L2BlockRef \<Rightarrow> bool" where
  "heads_ok l1 bs m unsafe highest \<longleftrightarrow>
     unsafe = zero_L2BlockRef \<and> highest = zero_L2BlockRef \<or>
     (\<exists>j<length bs. unsafe = bs ! j \<and> (\<forall>i. j \<le> i \<and> i < m \<longrightarrow> plausible l1 (bs ! i)) \<and>
        (highest = zero_L2BlockRef \<or>
         (\<exists>k. j \<le> k \<and> k < m \<and> highest = bs ! k \<and> canonical_hash l1 (bid_Hash (l2_L1Origin highest)))))"

lemma linked_snoc: "linked l2 bs \<Longrightarrow> bs \<noteq> [] \<Longrightarrow> parent_of l2 (last bs) p \<Longrightarrow> linked l2 (bs @ [p])"
  unfolding linked_def
proof (intro allI impI)
  fix i
  assume l: "\<forall>i. Suc i < length bs \<longrightarrow> parent_of l2 (bs ! i) (bs ! Suc i)" and ne: "bs \<noteq> []" and p: "parent_of l2 (last bs) p"
    and i: "Suc i < length (bs @ [p])"
  show "parent_of l2 ((bs @ [p]) ! i) ((bs @ [p]) ! Suc i)"
  proof (cases "Suc i < length bs")
    case False
    then have "Suc i = length bs" using i by simp
    then show ?thesis using p ne by (simp add: nth_append last_conv_nth flip: \<open>Suc i = length bs\<close>)
  qed (use l in \<open>simp add: nth_append\<close>)
qed

lemma heads_ok_snoc:
  assumes "heads_ok l1 bs (length bs) u h"
  shows "heads_ok l1 (bs @ [p]) (length bs) u h"
proof (cases "u = zero_L2BlockRef \<and> h = zero_L2BlockRef")
  case False
  have n: "(bs @ [p]) ! i = bs ! i" if "i < length bs" for i using that by (simp add: nth_append)
  obtain j where j: "j < length bs" "u = bs ! j" "\<forall>i. j \<le> i \<and> i < length bs \<longrightarrow> plausible l1 (bs ! i)"
    and k: "h = zero_L2BlockRef \<or> (\<exists>k. j \<le> k \<and> k < length bs \<and> h = bs ! k \<and> canonical_hash l1 (bid_Hash (l2_L1Origin h)))"
    using assms False unfolding heads_ok_def by blast
  have "h = zero_L2BlockRef \<or>
      (\<exists>k. j \<le> k \<and> k < length bs \<and> h = (bs @ [p]) ! k \<and> canonical_hash l1 (bid_Hash (l2_L1Origin h)))"
    using k n by metis
  moreover have "j < length (bs @ [p])" "u = (bs @ [p]) ! j"
    "\<forall>i. j \<le> i \<and> i < length bs \<longrightarrow> plausible l1 ((bs @ [p]) ! i)" using j n by auto
  ultimately show ?thesis unfolding heads_ok_def by blast
qed (simp add: heads_ok_def)

lemma linked_known:
  assumes "linked l2 bs" "known l2 (hd bs)" "i < length bs"
  shows "known l2 (bs ! i)"
  using assms by (cases i) (auto simp: hd_conv_nth linked_def intro: parent_known)

lemma judge_heads:
  assumes v: "l1_verdict l1 s" and n: "fs_n s = last bs" "bs \<noteq> []" "fs_n s \<noteq> zero_L2BlockRef"
    and h: "heads_ok l1 bs (length bs - 1) (fh_Unsafe (fs_result s)) (fs_highest s)"
    and nz: "\<And>j. j < length bs \<Longrightarrow> bs ! j \<noteq> zero_L2BlockRef"
  shows "heads_ok l1 bs (length bs) (fh_Unsafe (fs_result (judge_origin s))) (fs_highest (judge_origin s))"
proof -
  let ?L = "length bs - 1"
  have L: "?L < length bs" "bs ! ?L = fs_n s" using n by (simp_all add: last_conv_nth)
  define u where "u = (if fh_Unsafe (fs_result s) = zero_L2BlockRef then fs_n s else fh_Unsafe (fs_result s))"
  have u: "\<exists>j<length bs. u = bs ! j \<and> (\<forall>i. j \<le> i \<and> i < ?L \<longrightarrow> plausible l1 (bs ! i)) \<and>
        (fs_highest s = zero_L2BlockRef \<or>
         (\<exists>k. j \<le> k \<and> k < ?L \<and> fs_highest s = bs ! k \<and> canonical_hash l1 (bid_Hash (l2_L1Origin (fs_highest s)))))"
  proof (cases "fh_Unsafe (fs_result s) = zero_L2BlockRef")
    case True
    then have "fs_highest s = zero_L2BlockRef" using h nz unfolding heads_ok_def by metis
    then show ?thesis using True L by (intro exI [of _ ?L]) (auto simp: u_def)
  next
    case False
    then show ?thesis using h by (auto simp: heads_ok_def u_def)
  qed
  have extend: "heads_ok l1 bs (length bs) u (fs_highest s)" if pl: "plausible l1 (bs ! ?L)"
  proof -
    obtain j where j: "j < length bs" "u = bs ! j" "\<forall>i. j \<le> i \<and> i < ?L \<longrightarrow> plausible l1 (bs ! i)"
      and k: "fs_highest s = zero_L2BlockRef \<or>
         (\<exists>k. j \<le> k \<and> k < ?L \<and> fs_highest s = bs ! k \<and> canonical_hash l1 (bid_Hash (l2_L1Origin (fs_highest s))))"
      using u by blast
    have "plausible l1 (bs ! i)" if "j \<le> i" "i < length bs" for i
      using that j(3) pl by (cases "i = ?L") auto
    moreover have "k < length bs" if "k < ?L" for k using that by simp
    ultimately show ?thesis unfolding heads_ok_def using j k by blast
  qed
  have unz: "u \<noteq> zero_L2BlockRef" using n(3) by (simp add: u_def)
  consider "fs_ahead s" | "\<not> fs_ahead s" "l1_Hash (fs_l1Block s) = bid_Hash (l2_L1Origin (fs_n s))"
    | "\<not> fs_ahead s" "l1_Hash (fs_l1Block s) \<noteq> bid_Hash (l2_L1Origin (fs_n s))" by blast
  then show ?thesis
  proof cases
    case 1
    then have "plausible l1 (bs ! ?L)" using v L by (simp add: l1_verdict_def plausible_def)
    then have "heads_ok l1 bs (length bs) u (fs_highest s)" by (rule extend)
    then show ?thesis using 1 by (auto simp: judge_origin_def Let_def u_def set_unsafe_def split: if_splits)
  next
    case 2
    then have c: "canonical_hash l1 (bid_Hash (l2_L1Origin (fs_n s)))"
      using v by (auto simp: l1_verdict_def canonical_hash_def)
    then have "plausible l1 (bs ! ?L)" using L by (simp add: plausible_def)
    then have e: "heads_ok l1 bs (length bs) u (fs_highest s)" by (rule extend)
    have "heads_ok l1 bs (length bs) u (fs_n s)" if z: "fs_highest s = zero_L2BlockRef"
    proof -
      obtain j where j: "j < length bs" "u = bs ! j" "\<forall>i. j \<le> i \<and> i < length bs \<longrightarrow> plausible l1 (bs ! i)"
        using e nz unz unfolding heads_ok_def by metis
      then show ?thesis
        unfolding heads_ok_def using c L by (intro disjI2 exI [of _ j]) (auto intro!: exI [of _ ?L])
    qed
    then show ?thesis using 2 e by (auto simp: judge_origin_def Let_def u_def set_unsafe_def split: if_splits)
  next
    case 3
    then show ?thesis by (simp add: judge_origin_def Let_def set_unsafe_def heads_ok_def)
  qed
qed

text \<open>What the heads of a result are: \<open>bs\<close> are the blocks from the unsafe head of the engine to the last one looked at;
  the unsafe head is the highest with only plausible blocks from there to the last; the safe head is
  the finalized block, or the parent of the first block of an epoch that is more than the lookback behind
  a canonical block and not above the safe head of the engine.\<close>

definition start_ok :: "Config \<Rightarrow> L1Chain \<Rightarrow> L2Chain \<Rightarrow> FindHeadsResult \<Rightarrow> L2BlockRef list \<Rightarrow> FindHeadsResult \<Rightarrow> bool" where
  "start_ok cfg l1 l2 r0 bs r \<longleftrightarrow>
     bs \<noteq> [] \<and> linked l2 bs \<and> hd bs = fh_Unsafe r0 \<and> fh_Finalized r = fh_Finalized r0 \<and>
     (\<exists>highest. heads_ok l1 bs (length bs) (fh_Unsafe r) highest \<and>
        (fh_Safe r = last bs \<and> l2_Number (last bs) = l2_Number (fh_Finalized r0) \<and> l2_Hash (last bs) = l2_Hash (fh_Finalized r0) \<or>
         parent_of l2 (last bs) (fh_Safe r) \<and> l2_Number (last bs) \<le> l2_Number (fh_Safe r0) \<and>
         l2_SequenceNumber (last bs) = 0 \<and> highest \<noteq> zero_L2BlockRef \<and>
         bid_Number (l2_L1Origin (last bs)) + SyncLookback cfg < bid_Number (l2_L1Origin highest)))"

definition walk_inv :: "L1Chain \<Rightarrow> L2Chain \<Rightarrow> FindHeadsResult \<Rightarrow> L2BlockRef list \<Rightarrow> FindState \<Rightarrow> bool" where
  "walk_inv l1 l2 r0 bs s \<longleftrightarrow>
     bs \<noteq> [] \<and> linked l2 bs \<and> hd bs = fh_Unsafe r0 \<and> last bs = fs_n s \<and>
     fh_Safe (fs_result s) = fh_Safe r0 \<and> fh_Finalized (fs_result s) = fh_Finalized r0 \<and> \<not> fs_ready s \<and>
     l1_known l1 (fs_l1Block s) \<and> (fs_ahead s \<longrightarrow> fs_l1Block s = zero_L1BlockRef) \<and>
     heads_ok l1 bs (length bs - 1) (fh_Unsafe (fs_result s)) (fs_highest s)"

lemma walk_judged:
  assumes c: "l1_consistent l1" "l2_consistent l2" "known l2 (fh_Unsafe r0)"
    and w: "walk_inv l1 l2 r0 bs s" and f: "fetch_l1 l1 s = Inr s0"
  shows "heads_ok l1 bs (length bs) (fh_Unsafe (fs_result (judged cfg s0))) (fs_highest (judged cfg s0))"
    and "l1_known l1 (fs_l1Block s0)" "fs_ahead s0 \<longrightarrow> fs_l1Block s0 = zero_L1BlockRef"
    and "fs_ready (judged cfg s0) \<longleftrightarrow> is_ready cfg (judge_origin s0)"
proof -
  note k = fetch_l1_keeps [OF f]
  have v: "l1_verdict l1 s0" and a: "fs_ahead s0 \<longrightarrow> fs_l1Block s0 = zero_L1BlockRef"
    using fetch_l1_verdict [OF c(1) _ f] w by (auto simp: walk_inv_def)
  have l: "linked l2 bs" "bs \<noteq> []" "hd bs = fh_Unsafe r0" "last bs = fs_n s" using w by (simp_all add: walk_inv_def)
  have nz: "bs ! j \<noteq> zero_L2BlockRef" if "j < length bs" for j
    using linked_known [OF l(1) _ that] c(2,3) l(3) by (auto simp: l2_consistent_def zero_L2BlockRef_def)
  have n: "fs_n s0 = last bs" "fs_n s0 \<noteq> zero_L2BlockRef"
    using k l(2,4) nz [of "length bs - 1"] by (simp_all add: last_conv_nth)
  have "heads_ok l1 bs (length bs - 1) (fh_Unsafe (fs_result s0)) (fs_highest s0)" using w k by (simp add: walk_inv_def)
  then have "heads_ok l1 bs (length bs) (fh_Unsafe (fs_result (judge_origin s0))) (fs_highest (judge_origin s0))"
    by (rule judge_heads [OF v n(1) l(2) n(2)]) (rule nz)
  then show "heads_ok l1 bs (length bs) (fh_Unsafe (fs_result (judged cfg s0))) (fs_highest (judged cfg s0))" by simp
  show "l1_known l1 (fs_l1Block s0)" using v by (simp add: l1_verdict_def)
  show "fs_ahead s0 \<longrightarrow> fs_l1Block s0 = zero_L1BlockRef" by (rule a)
  show "fs_ready (judged cfg s0) \<longleftrightarrow> is_ready cfg (judge_origin s0)"
    using w k by (simp add: judged_def Let_def walk_inv_def)
qed

lemma walk_step:
  assumes c: "l1_consistent l1" "l2_consistent l2" "known l2 (fh_Unsafe r0)" "\<not> sc_SkipSyncStartCheck syncCfg"
    and w: "walk_inv l1 l2 r0 bs s"
  shows "find_step cfg syncCfg l1 l2 prevUnsafe s = Inr s' \<Longrightarrow> \<exists>bs'. walk_inv l1 l2 r0 bs' s'"
    and "find_step cfg syncCfg l1 l2 prevUnsafe s = Inl (Inr r) \<Longrightarrow> start_ok cfg l1 l2 r0 bs r"
proof -
  have b: "bs \<noteq> []" "linked l2 bs" "hd bs = fh_Unsafe r0" "last bs = fs_n s"
    "fh_Safe (fs_result s) = fh_Safe r0" "fh_Finalized (fs_result s) = fh_Finalized r0" using w by (simp_all add: walk_inv_def)
  show "\<exists>bs'. walk_inv l1 l2 r0 bs' s'" if "find_step cfg syncCfg l1 l2 prevUnsafe s = Inr s'"
    using that
  proof (cases rule: find_step_cases)
    case (walk s0 parent)
    note k = fetch_l1_keeps [OF walk(1)] and j = walk_judged(1) [OF c(1-3) w walk(1), of cfg] walk_judged(2,3) [OF c(1-3) w walk(1)]
      walk_judged(4) [OF c(1-3) w walk(1), of cfg]
    have s': "s' = (judged cfg s0)\<lparr>fs_n := parent\<rparr>" using walk(6) by simp
    have "heads_ok l1 (bs @ [parent]) (length bs) (fh_Unsafe (fs_result (judged cfg s0))) (fs_highest (judged cfg s0))"
      by (rule heads_ok_snoc [OF j(1)])
    then show ?thesis
      using b j(2-4) walk(3,5) k linked_snoc [OF b(2,1)] unfolding s'
      by (intro exI [of _ "bs @ [parent]"]) (simp add: walk_inv_def)
  next
    case (jump s0)
    then show ?thesis using c(4) by blast
  qed simp_all
  show "start_ok cfg l1 l2 r0 bs r" if "find_step cfg syncCfg l1 l2 prevUnsafe s = Inl (Inr r)"
    using that
  proof (cases rule: find_step_cases)
    case (finalized s0)
    note k = fetch_l1_keeps [OF finalized(1)] and j = walk_judged(1) [OF c(1-3) w finalized(1), of cfg] walk_judged(2,3) [OF c(1-3) w finalized(1)]
      walk_judged(4) [OF c(1-3) w finalized(1), of cfg]
    have "l2_Hash (fs_n s) = l2_Hash (fh_Finalized r0)"
      using finalized(2,3) k b by (auto simp: check_chain_def Let_def split: if_splits)
    moreover have "r = (fs_result (judged cfg s0))\<lparr>fh_Safe := fs_n s\<rparr>" using finalized(4) by simp
    ultimately show ?thesis
      using b j(1) k finalized(3) unfolding start_ok_def by (intro conjI exI [of _ "fs_highest (judged cfg s0)"]) simp_all
  next
    case (ready s0 parent)
    note k = fetch_l1_keeps [OF ready(1)] and j = walk_judged(1) [OF c(1-3) w ready(1), of cfg] walk_judged(2,3) [OF c(1-3) w ready(1)]
      walk_judged(4) [OF c(1-3) w ready(1), of cfg]
    have i: "is_ready cfg (judge_origin s0)" using j(4) ready(5) by simp
    then have "fs_highest (judge_origin s0) \<noteq> zero_L2BlockRef" by (auto simp: is_ready_def zero_L2BlockRef_def)
    moreover have "r = (fs_result (judged cfg s0))\<lparr>fh_Safe := parent\<rparr>" using ready(6) by simp
    ultimately show ?thesis
      using b j(1) k ready(3) i unfolding start_ok_def is_ready_def
      by (intro conjI exI [of _ "fs_highest (judged cfg s0)"]) simp_all
  qed simp_all
qed

lemma find_loop_ok:
  assumes "l1_consistent l1" "l2_consistent l2" "known l2 (fh_Unsafe r0)" "\<not> sc_SkipSyncStartCheck syncCfg"
    and "find_loop cfg syncCfg l1 l2 prevUnsafe s = Some (Inr r)" "walk_inv l1 l2 r0 bs s"
  shows "\<exists>bs. start_ok cfg l1 l2 r0 bs r"
proof -
  have "c = cfg \<longrightarrow> y = syncCfg \<longrightarrow> a = l1 \<longrightarrow> b = l2 \<longrightarrow> (\<forall>bs r. t = Inr r \<longrightarrow> walk_inv l1 l2 r0 bs s \<longrightarrow> (\<exists>bs. start_ok cfg l1 l2 r0 bs r))"
    if "find_loop c y a b u s = Some t" for c y a b u s t
  proof (rule find_loop.raw_induct [OF _ that, where P = "\<lambda>c y a b u s t. c = cfg \<longrightarrow> y = syncCfg \<longrightarrow> a = l1 \<longrightarrow> b = l2 \<longrightarrow>
        (\<forall>bs r. t = Inr r \<longrightarrow> walk_inv l1 l2 r0 bs s \<longrightarrow> (\<exists>bs. start_ok cfg l1 l2 r0 bs r))"], intro impI allI)
    fix loop c y a b u s t bs r
    assume ih: "\<And>c y a b u s t. loop c y a b u s = Some t \<Longrightarrow> c = cfg \<longrightarrow> y = syncCfg \<longrightarrow> a = l1 \<longrightarrow> b = l2 \<longrightarrow>
        (\<forall>bs r. t = Inr r \<longrightarrow> walk_inv l1 l2 r0 bs s \<longrightarrow> (\<exists>bs. start_ok cfg l1 l2 r0 bs r))"
      and e: "(case find_step c y a b u s of Inl r \<Rightarrow> Some r | Inr s \<Rightarrow> loop c y a b u s) = Some t"
      and eqs: "c = cfg" "y = syncCfg" "a = l1" "b = l2" "t = Inr r" "walk_inv l1 l2 r0 bs s"
    show "\<exists>bs. start_ok cfg l1 l2 r0 bs r"
    proof (cases "find_step cfg syncCfg l1 l2 u s")
      case (Inl t')
      then have "find_step cfg syncCfg l1 l2 u s = Inl (Inr r)" using e eqs by simp
      then show ?thesis using walk_step(2) [OF assms(1-4) eqs(6)] by blast
    next
      case (Inr s')
      then obtain bs' where "walk_inv l1 l2 r0 bs' s'" using walk_step(1) [OF assms(1-4) eqs(6)] by blast
      then show ?thesis using ih [of cfg syncCfg l1 l2 u s' "Inr r"] e eqs Inr by auto
    qed
  qed
  then show ?thesis using assms(5,6) by blast
qed

lemma find_start_inv: "walk_inv l1 l2 r0 [fh_Unsafe r0] (find_start r0)"
  by (simp add: walk_inv_def find_start_def linked_def l1_known_def heads_ok_def)

section \<open>Properties\<close>


text \<open>C28: Skipping the check can hang the node. When the engine's unsafe head is also its safe head, beyond the
  finalized block, and its L1 origin is canonical, FindL2Heads with SkipSyncStartCheck jumps to the safe head,
  that is to the block it is at, again and again, and does not return.\<close>

theorem skip_check_hangs:
  assumes "sc_SkipSyncStartCheck syncCfg" "currentHeads cfg l2 = Inr r0" "fh_Safe r0 = fh_Unsafe r0"
    and "l2_Number (fh_Unsafe r0) \<noteq> l2_Number (fh_Finalized r0)"
    and "l2_Number (fh_Unsafe r0) \<noteq> bid_Number (gen_L2 (cfg_Genesis cfg))" "l2_Hash (fh_Unsafe r0) \<noteq> 0"
    and "c1_ByNumber l1 (bid_Number (l2_L1Origin (fh_Unsafe r0))) = Inr x"
    and "l1_Hash x = bid_Hash (l2_L1Origin (fh_Unsafe r0))" "l1_Hash x \<noteq> 0" "l1_ParentHash x \<noteq> l1_Hash x"
  shows "FindL2Heads cfg syncCfg l1 l2 = None"
proof -
  let ?b = "fh_Unsafe r0"
  have bz: "?b \<noteq> zero_L2BlockRef" using assms(6) by (auto simp: zero_L2BlockRef_def)
  have xz: "x \<noteq> zero_L1BlockRef" using assms(9) by (auto simp: zero_L1BlockRef_def)
  define S where "S = {s :: FindState. fs_n s = ?b \<and> fs_result s = r0 \<and>
      (fs_l1Block s = zero_L1BlockRef \<and> fs_highest s = zero_L2BlockRef \<or> fs_l1Block s = x \<and> fs_highest s = ?b \<and> \<not> fs_ahead s)}"
  have "find_loop cfg syncCfg l1 l2 ?b (find_start r0) = None"
  proof (rule find_loop_diverges [where S = S])
    show "find_start r0 \<in> S" by (simp add: S_def find_start_def)
    fix s
    assume s: "s \<in> S"
    have f: "fetch_l1 l1 s = Inr (s\<lparr>fs_l1Block := x, fs_ahead := False\<rparr>)"
      using s assms(7-10) xz by (auto simp: S_def fetch_l1_def retry_Do_def Let_def zero_L1BlockRef_def)
    have n: "fs_n s = ?b" "fs_result s = r0" "fs_highest s = zero_L2BlockRef \<or> fs_highest s = ?b" using s by (auto simp: S_def)
    let ?s = "judged cfg (s\<lparr>fs_l1Block := x, fs_ahead := False\<rparr>)"
    have j: "fs_result ?s = r0" "fs_highest ?s = ?b" "fs_n ?s = ?b" "fs_l1Block ?s = x" "\<not> fs_ahead ?s"
      using n bz assms(8) by (auto simp: judge_origin_def Let_def)
    have "check_chain cfg ?b (s\<lparr>fs_l1Block := x, fs_ahead := False\<rparr>) = None"
      using n assms(4,5) bz by (simp add: check_chain_def Let_def)
    then have "find_step cfg syncCfg l1 l2 ?b s = Inr (?s\<lparr>fs_n := fh_Safe r0\<rparr>)"
      using f j assms(1,4) by (simp add: find_step_def judged_def Let_def)
    moreover have "?s\<lparr>fs_n := fh_Safe r0\<rparr> \<in> S" using j assms(3) by (simp add: S_def)
    ultimately show "\<exists>s'\<in>S. find_step cfg syncCfg l1 l2 ?b s = Inr s'" by blast
  qed
  then show ?thesis using assms(2) by (simp add: FindL2Heads_def)
qed

section \<open>Witnesses\<close>

definition start_l1 :: L1Chain where
  "start_l1 = \<lparr>c1_ByNumber = (\<lambda>n. if n = 10 then Inr (zero_L1BlockRef\<lparr>l1_Hash := 7, l1_Number := 10, l1_ParentHash := 6\<rparr>) else Inl NotFound),
     c1_ByHash = (\<lambda>_. Inl NotFound)\<rparr>"

definition start_block :: "u64 \<Rightarrow> L2BlockRef" where
  "start_block n = zero_L2BlockRef\<lparr>l2_Hash := 1 + ucast n, l2_Number := n, l2_ParentHash := ucast n,
     l2_L1Origin := \<lparr>bid_Hash = 7, bid_Number = 10\<rparr>, l2_SequenceNumber := n\<rparr>"

definition start_l2 :: L2Chain where
  "start_l2 = \<lparr>c2_ByHash = (\<lambda>h. if h = 2 then Inr (start_block 1) else if h = 3 then Inr (start_block 2) else Inl NotFound),
     c2_ByLabel = (\<lambda>l. if l = LabelFinalized then Inr (start_block 1) else Inr (start_block 2))\<rparr>"

lemmas start_defs = start_l1_def start_block_def start_l2_def zero_L1BlockRef_def zero_L2BlockRef_def

lemma start_known: "known start_l2 b \<Longrightarrow> b = start_block 1 \<or> b = start_block 2"
  by (auto simp: known_def start_l2_def split: if_splits)

lemma start_l2_consistent: "l2_consistent start_l2"
  unfolding l2_consistent_def
proof (intro conjI allI impI)
  fix b
  assume "known start_l2 b"
  then show "l2_Hash b \<noteq> 0" by (auto dest!: start_known simp: start_block_def)
next
  fix b p
  assume "known start_l2 b" "parent_of start_l2 b p"
  then show "unat (l2_Number b) = Suc (unat (l2_Number p))"
    by (auto dest!: start_known simp: start_block_def parent_of_def zero_L2BlockRef_def)
      (auto simp: start_l2_def start_block_def)
qed

lemma start_l1_consistent: "l1_consistent start_l1"
  by (auto simp: l1_consistent_def start_l1_def)


theorem skip_check_hangs_witness:
  "FindL2Heads OPBNBTestnet \<lparr>sc_SyncMode = CLSync, sc_SkipSyncStartCheck = True, sc_ELTriggerGap = 0\<rparr> start_l1 start_l2 = None"
proof -
  have h: "currentHeads OPBNBTestnet start_l2 = Inr \<lparr>fh_Unsafe = start_block 2, fh_Safe = start_block 2, fh_Finalized = start_block 1\<rparr>"
    by (simp add: currentHeads_def start_l2_def is_NotFound_def)
  show ?thesis
    by (rule skip_check_hangs [OF _ h, where x = "zero_L1BlockRef\<lparr>l1_Hash := 7, l1_Number := 10, l1_ParentHash := 6\<rparr>"])
      (simp_all add: start_defs OPBNBTestnet_def)
qed

end
