(* ===== verification/EngineControl.thy ===== *)
theory EngineControl
  imports AttributesQueue SyncStart "HOL-Library.Monad_Syntax"
begin

text \<open>
  The engine controller, op-node/rollup/derive/engine_controller.go and engine_update.go: the heads of the
  chain as the node sees them, the block that is being built, and the calls to the execution engine that keep
  both sides in agreement. The engine, the conductor and the network of the gossiper are one environment: a
  record of functions over a state \<open>'w\<close> that every call may change, so that a call can be answered
  differently the next time. \<open>None\<close> is a panic. Contexts, timeouts, metrics and logging are left out; the
  package variable \<open>needSyncWithEngine\<close> is a field of the controller.
\<close>

section \<open>The engine API\<close>

type_synonym PayloadID = u64
type_synonym PStatus = string

definition ExecutionValid :: PStatus where "ExecutionValid = ''VALID''"
definition ExecutionInvalid :: PStatus where "ExecutionInvalid = ''INVALID''"
definition ExecutionSyncing :: PStatus where "ExecutionSyncing = ''SYNCING''"
definition ExecutionAccepted :: PStatus where "ExecutionAccepted = ''ACCEPTED''"
definition ExecutionInvalidBlockHash :: PStatus where "ExecutionInvalidBlockHash = ''INVALID_BLOCK_HASH''"
definition ExecutionInvalidTerminalBlock :: PStatus where "ExecutionInvalidTerminalBlock = ''INVALID_TERMINAL_BLOCK''"
definition ExecutionInconsistent :: PStatus where "ExecutionInconsistent = ''INCONSISTENT''"

lemmas status_defs = ExecutionValid_def ExecutionInvalid_def ExecutionSyncing_def ExecutionAccepted_def
  ExecutionInvalidBlockHash_def ExecutionInvalidTerminalBlock_def ExecutionInconsistent_def

definition InvalidForkchoiceState :: int where "InvalidForkchoiceState = -38002"
definition InvalidPayloadAttributes :: int where "InvalidPayloadAttributes = -38003"

definition GetPayloadStage :: string where "GetPayloadStage = ''sealApiGetPayloadErrStage''"
definition NewPayloadStage :: string where "NewPayloadStage = ''sealApiNewPayloadErrStage''"
definition ForkchoiceUpdatedStage :: string where "ForkchoiceUpdatedStage = ''sealApiForkchoiceUpdatedErrStage''"

record ForkchoiceState =
  fc_Head :: Hash
  fc_Safe :: Hash
  fc_Finalized :: Hash

record FCUResult =
  fr_Status :: PStatus
  fr_PayloadID :: "PayloadID option"

record PayloadInfo =
  pi_ID :: PayloadID
  pi_Timestamp :: u64

definition zero_PayloadInfo :: PayloadInfo where "zero_PayloadInfo = \<lparr>pi_ID = 0, pi_Timestamp = 0\<rparr>"

text \<open>The fields of a payload that the engine queue reads beyond those of the block readers.\<close>

record EnginePayload = ExecutionPayload +
  ep_FeeRecipient :: Address
  ep_Withdrawals :: "Withdrawals option"

record Envelope =
  env_ParentBeaconBlockRoot :: "Hash option"
  env_Payload :: EnginePayload

record 'w ExecEngine =
  en_GetPayload :: "PayloadInfo \<Rightarrow> 'w \<Rightarrow> Envelope res \<times> 'w"
  en_ForkchoiceUpdate :: "ForkchoiceState \<Rightarrow> PayloadAttributes option \<Rightarrow> 'w \<Rightarrow> FCUResult res \<times> 'w"
  en_NewPayload :: "EnginePayload \<Rightarrow> Hash option \<Rightarrow> 'w \<Rightarrow> (PStatus option \<times> gerr option) \<times> 'w"
  en_SealPayload :: "PayloadInfo \<Rightarrow> ForkchoiceState \<Rightarrow> 'w \<Rightarrow> (PStatus option \<times> string \<times> gerr option) \<times> 'w"
  en_L2BlockRefByLabel :: "BlockLabel \<Rightarrow> 'w \<Rightarrow> L2BlockRef res \<times> 'w"
  en_CommitUnsafePayload :: "Envelope \<Rightarrow> 'w \<Rightarrow> gerr option \<times> 'w"
  en_PublishL2Payload :: "Envelope \<Rightarrow> 'w \<Rightarrow> gerr option \<times> 'w"

definition ForkchoiceUpdateErr :: "PStatus \<Rightarrow> gerr option" where
  "ForkchoiceUpdateErr status =
     (if status = ExecutionSyncing then Some (Msg ''updated forkchoice, but node is syncing'')
      else if status \<in> {ExecutionAccepted, ExecutionInvalidTerminalBlock, ExecutionInvalidBlockHash} then
        Some (Msg (''unexpected '' @ status @ '' status, could not update forkchoice''))
      else if status = ExecutionInvalid then Some (Msg ''cannot update forkchoice, block is invalid'')
      else if status = ExecutionValid then None
      else Some (Msg (''unknown forkchoice status: '' @ status)))"

definition NewPayloadErr :: "PStatus \<Rightarrow> gerr option" where
  "NewPayloadErr status =
     (if status = ExecutionValid then None
      else if status = ExecutionSyncing then Some (Msg ''failed to execute payload, node is syncing'')
      else if status = ExecutionInvalid then Some (Msg ''execution payload was INVALID!'')
      else if status = ExecutionInvalidBlockHash then Some (Msg ''execution payload has INVALID BLOCKHASH!'')
      else if status = ExecutionInvalidTerminalBlock then Some (Msg ''engine is misconfigured'')
      else if status = ExecutionAccepted then Some (Msg ''execution payload cannot be validated yet'')
      else if status = ExecutionInconsistent then Some (Msg ''execution payload meets an INCONSISTENT status'')
      else Some (Msg (''unknown execution status: '' @ status)))"

section \<open>The gossiper\<close>

text \<open>\<open>SimpleAsyncGossiper\<close> holds at most one payload, the last one it has published.\<close>

datatype Gossiper = NoOpGossiper | SimpleAsyncGossiper (currentPayload: "Envelope option")

fun Gossiper_Get :: "Gossiper \<Rightarrow> Envelope option" where
  "Gossiper_Get NoOpGossiper = None"
| "Gossiper_Get (SimpleAsyncGossiper p) = p"

fun Gossiper_Clear :: "Gossiper \<Rightarrow> Gossiper" where
  "Gossiper_Clear NoOpGossiper = NoOpGossiper"
| "Gossiper_Clear (SimpleAsyncGossiper p) = SimpleAsyncGossiper None"

fun Gossiper_Gossip :: "'w ExecEngine \<Rightarrow> Gossiper \<Rightarrow> Envelope \<Rightarrow> 'w \<Rightarrow> Gossiper \<times> 'w" where
  "Gossiper_Gossip eng NoOpGossiper envelope w = (NoOpGossiper, w)"
| "Gossiper_Gossip eng (SimpleAsyncGossiper p) envelope w =
     (case en_PublishL2Payload eng envelope w of
        (None, w) \<Rightarrow> (SimpleAsyncGossiper (Some envelope), w)
      | (Some err, w) \<Rightarrow> (SimpleAsyncGossiper p, w))"

section \<open>Checks of a payload\<close>

definition isDepositTx :: "bytes \<Rightarrow> bool res" where
  "isDepositTx opaqueTx = (case opaqueTx of [] \<Rightarrow> Inl (Msg ''empty transaction'') | b # _ \<Rightarrow> Inr (b = DepositTxType))"

fun lastDeposit_from :: "nat \<Rightarrow> nat \<Rightarrow> bytes list \<Rightarrow> nat res" where
  "lastDeposit_from i lastDeposit [] = Inr lastDeposit"
| "lastDeposit_from i lastDeposit (tx # txns) =
     (case isDepositTx tx of
        Inl err \<Rightarrow> Inl (Msg ''invalid transaction'')
      | Inr deposit \<Rightarrow> if deposit then lastDeposit_from (i + 1) i txns else Inr lastDeposit)"

definition lastDeposit :: "bytes list \<Rightarrow> nat res" where "lastDeposit txns = lastDeposit_from 0 0 txns"

fun no_deposits :: "bytes list \<Rightarrow> gerr option" where
  "no_deposits [] = None"
| "no_deposits (tx # txns) =
     (case isDepositTx tx of
        Inl err \<Rightarrow> Some (Wrap ''failed to decode transaction'' err)
      | Inr deposit \<Rightarrow> if deposit then Some (Msg ''deposit tx after other tx in l2 block'') else no_deposits txns)"

text \<open>The first byte of the first transaction is read before the transaction is known not to be empty.\<close>

definition sanityCheckPayload :: "bytes list \<Rightarrow> gerr option go" where
  "sanityCheckPayload txns =
     (case txns of
        [] \<Rightarrow> Some (Some (Msg ''no transactions in returned payload''))
      | [] # _ \<Rightarrow> None
      | (b # _) # _ \<Rightarrow>
          if b \<noteq> DepositTxType then Some (Some (Msg ''first transaction was not deposit tx''))
          else (case lastDeposit txns of
                  Inl err \<Rightarrow> Some (Some (Wrap ''failed to find last deposit'' err))
                | Inr i \<Rightarrow> Some (no_deposits (drop (i + 1) txns))))"

section \<open>Building blocks\<close>

datatype BlockInsertionErrType = BlockInsertOK | BlockInsertTemporaryErr | BlockInsertPrestateErr | BlockInsertPayloadErr

definition startPayload :: "'w ExecEngine \<Rightarrow> ForkchoiceState \<Rightarrow> PayloadAttributes \<Rightarrow> 'w
    \<Rightarrow> (BlockInsertionErrType \<times> gerr + PayloadID) \<times> 'w" where
  "startPayload eng fc attrs w =
     (case en_ForkchoiceUpdate eng fc (Some attrs) w of
        (Inl err, w) \<Rightarrow>
          (case errors_As_InputError err of
             Some (code, inner) \<Rightarrow>
               if code = InvalidForkchoiceState then
                 (Inl (BlockInsertPrestateErr, Wrap ''pre-block-creation forkchoice update was inconsistent with engine, need reset to resolve'' inner), w)
               else if code = InvalidPayloadAttributes then
                 (Inl (BlockInsertPayloadErr, Wrap ''payload attributes are not valid, cannot build block'' inner), w)
               else (Inl (BlockInsertPrestateErr, Wrap ''unexpected error code in forkchoice-updated response'' err), w)
           | None \<Rightarrow> (Inl (BlockInsertTemporaryErr, Wrap ''failed to create new block via forkchoice'' err), w))
      | (Inr fcRes, w) \<Rightarrow>
          if fr_Status fcRes \<in> {ExecutionInvalid, ExecutionInvalidBlockHash} then
            (Inl (BlockInsertPayloadErr, the (ForkchoiceUpdateErr (fr_Status fcRes))), w)
          else if fr_Status fcRes = ExecutionValid then
            (case fr_PayloadID fcRes of
               None \<Rightarrow> (Inl (BlockInsertTemporaryErr, Msg ''nil id in forkchoice result when expecting a valid ID''), w)
             | Some pid \<Rightarrow> (Inr pid, w))
          else (Inl (BlockInsertTemporaryErr, the (ForkchoiceUpdateErr (fr_Status fcRes))), w))"

text \<open>The end of \<open>confirmPayload\<close>: the forkchoice update that makes the payload the head.\<close>

type_synonym confirmed = "(BlockInsertionErrType \<times> gerr) + Envelope"

definition make_canonical :: "'w ExecEngine \<Rightarrow> ForkchoiceState \<Rightarrow> bool \<Rightarrow> Envelope \<Rightarrow> Gossiper \<Rightarrow> 'w
    \<Rightarrow> confirmed \<times> Gossiper \<times> 'w" where
  "make_canonical eng fc updateSafe envelope agossip w =
     (let hash = ep_BlockHash (env_Payload envelope);
          fc = fc\<lparr>fc_Head := hash\<rparr>;
          fc = (if updateSafe then fc\<lparr>fc_Safe := hash\<rparr> else fc)
      in case en_ForkchoiceUpdate eng fc None w of
           (Inl err, w) \<Rightarrow>
             (case errors_As_InputError err of
                Some (code, inner) \<Rightarrow>
                  if code = InvalidForkchoiceState then
                    (Inl (BlockInsertPayloadErr, Wrap ''post-block-creation forkchoice update was inconsistent with engine, need reset to resolve'' inner),
                     Gossiper_Clear agossip, w)
                  else (Inl (BlockInsertPrestateErr, Wrap ''unexpected error code in forkchoice-updated response'' err),
                        Gossiper_Clear agossip, w)
              | None \<Rightarrow> (Inl (BlockInsertTemporaryErr, Wrap ''failed to make the new L2 block canonical via forkchoice'' err), agossip, w))
         | (Inr fcRes, w) \<Rightarrow>
             if fr_Status fcRes \<noteq> ExecutionValid then
               (Inl (BlockInsertPayloadErr, the (ForkchoiceUpdateErr (fr_Status fcRes))), Gossiper_Clear agossip, w)
             else (Inr envelope, Gossiper_Clear agossip, w))"

text \<open>Its middle: the payload is committed, gossiped and given to the engine. A nil status is dereferenced.\<close>

definition insert_payload :: "'w ExecEngine \<Rightarrow> ForkchoiceState \<Rightarrow> bool \<Rightarrow> Envelope \<Rightarrow> Gossiper \<Rightarrow> 'w
    \<Rightarrow> (confirmed \<times> Gossiper \<times> 'w) go" where
  "insert_payload eng fc updateSafe envelope agossip w =
     (case en_CommitUnsafePayload eng envelope w of
        (Some err, w) \<Rightarrow> Some (Inl (BlockInsertTemporaryErr, Wrap ''failed to commit unsafe payload to conductor'' err), agossip, w)
      | (None, w) \<Rightarrow>
          (case Gossiper_Gossip eng agossip envelope w of
             (agossip, w) \<Rightarrow>
               (case en_NewPayload eng (env_Payload envelope) (env_ParentBeaconBlockRoot envelope) w of
                  ((_, Some err), w) \<Rightarrow> Some (Inl (BlockInsertTemporaryErr, Wrap ''failed to insert execution payload'' err), agossip, w)
                | ((None, None), w) \<Rightarrow> None
                | ((Some status, None), w) \<Rightarrow>
                    if status \<in> {ExecutionInvalid, ExecutionInvalidBlockHash, ExecutionInconsistent} then
                      Some (Inl (BlockInsertPayloadErr, the (NewPayloadErr status)), Gossiper_Clear agossip, w)
                    else if status \<noteq> ExecutionValid then
                      Some (Inl (BlockInsertTemporaryErr, the (NewPayloadErr status)), agossip, w)
                    else Some (make_canonical eng fc updateSafe envelope agossip w))))"

definition confirmPayload :: "'w ExecEngine \<Rightarrow> ForkchoiceState \<Rightarrow> PayloadInfo \<Rightarrow> bool \<Rightarrow> Gossiper \<Rightarrow> 'w
    \<Rightarrow> (confirmed \<times> Gossiper \<times> 'w) go" where
  "confirmPayload eng fc payloadInfo updateSafe agossip w =
     (let (r, w) = (case Gossiper_Get agossip of
                      Some cached \<Rightarrow> (Inr cached, w)
                    | None \<Rightarrow> en_GetPayload eng payloadInfo w)
      in case r of
           Inl err \<Rightarrow> Some (Inl (BlockInsertTemporaryErr, Wrap ''failed to get execution payload'' err), agossip, w)
         | Inr envelope \<Rightarrow>
             (case sanityCheckPayload (ep_Transactions (env_Payload envelope)) of
                None \<Rightarrow> None
              | Some (Some err) \<Rightarrow> Some (Inl (BlockInsertPayloadErr, err), agossip, w)
              | Some None \<Rightarrow> insert_payload eng fc updateSafe envelope agossip w))"

text \<open>The combined call seals the block in the engine; the payload is fetched at the same time, only to check and
  gossip it. \<open>sealFirst\<close> says which of the two calls the engine sees first. First what the outcome of sealing means.\<close>

definition seal_verdict :: "PStatus option \<Rightarrow> string \<Rightarrow> gerr option \<Rightarrow> Gossiper
    \<Rightarrow> ((BlockInsertionErrType \<times> gerr) option \<times> Gossiper) go" where
  "seal_verdict sealRes errStage sealErr agossip =
     (if errStage = GetPayloadStage then
        Some (Some (BlockInsertTemporaryErr, Wrap ''failed to get execution payload'' (case sealErr of Some e \<Rightarrow> e | None \<Rightarrow> Msg ''nil'')), agossip)
      else if errStage = NewPayloadStage then
        (case sealErr of
           Some err \<Rightarrow> Some (Some (BlockInsertTemporaryErr, Wrap ''failed to insert execution payload'' err), agossip)
         | None \<Rightarrow>
             (case sealRes of
                None \<Rightarrow> None
              | Some status \<Rightarrow>
                  if status \<in> {ExecutionInvalid, ExecutionInvalidBlockHash} then
                    Some (Some (BlockInsertPayloadErr, Msg (''failed to new payload, status: '' @ status)), Gossiper_Clear agossip)
                  else if status \<noteq> ExecutionValid then
                    Some (Some (BlockInsertTemporaryErr, Msg (''failed to new payload, status: '' @ status)), agossip)
                  else Some (None, agossip)))
      else if errStage = ForkchoiceUpdatedStage then
        (case sealErr of
           Some err \<Rightarrow>
             (case errors_As_InputError err of
                Some (code, inner) \<Rightarrow>
                  if code = InvalidForkchoiceState then
                    Some (Some (BlockInsertPayloadErr, Wrap ''post-block-creation forkchoice update was inconsistent with engine, need reset to resolve'' inner), Gossiper_Clear agossip)
                  else Some (Some (BlockInsertPrestateErr, Wrap ''unexpected error code in forkchoice-updated response'' err), Gossiper_Clear agossip)
              | None \<Rightarrow>
                  Some (Some (BlockInsertTemporaryErr, NewTemporaryError (Some (Wrap ''failed to make the new L2 block canonical via forkchoice'' err))), Gossiper_Clear agossip))
         | None \<Rightarrow>
             (case sealRes of
                None \<Rightarrow> None
              | Some status \<Rightarrow>
                  if status \<noteq> ExecutionValid then
                    Some (Some (BlockInsertPayloadErr, Msg (''failed to forkchoice update, status: '' @ status)), Gossiper_Clear agossip)
                  else Some (None, agossip)))
      else
        (case sealErr of
           Some err \<Rightarrow> Some (Some (BlockInsertTemporaryErr, NewTemporaryError (Some (Wrap ''failed to seal payload'' err))), agossip)
         | None \<Rightarrow>
             (case sealRes of
                None \<Rightarrow> Some (Some (BlockInsertTemporaryErr, NewTemporaryError (Some (Msg ''failed to seal payload, got empty response''))), agossip)
              | Some status \<Rightarrow>
                  if status \<noteq> ExecutionValid then
                    Some (Some (BlockInsertTemporaryErr, NewTemporaryError (Some (Msg (''failed to seal payload, status: '' @ status)))), agossip)
                  else Some (None, agossip))))"

definition seal_and_get :: "bool \<Rightarrow> 'w ExecEngine \<Rightarrow> ForkchoiceState \<Rightarrow> PayloadInfo \<Rightarrow> 'w
    \<Rightarrow> (PStatus option \<times> string \<times> gerr option) \<times> Envelope res \<times> 'w" where
  "seal_and_get sealFirst eng fc payloadInfo w =
     (if sealFirst then
        (case en_SealPayload eng payloadInfo fc w of
           (s, w) \<Rightarrow> (case en_GetPayload eng payloadInfo w of (g, w) \<Rightarrow> (s, g, w)))
      else
        (case en_GetPayload eng payloadInfo w of
           (g, w) \<Rightarrow> (case en_SealPayload eng payloadInfo fc w of (s, w) \<Rightarrow> (s, g, w))))"

definition confirmPayloadCombined :: "bool \<Rightarrow> 'w ExecEngine \<Rightarrow> ForkchoiceState \<Rightarrow> PayloadInfo \<Rightarrow> Gossiper \<Rightarrow> 'w
    \<Rightarrow> (confirmed \<times> Gossiper \<times> 'w) go" where
  "confirmPayloadCombined sealFirst eng fc payloadInfo agossip w =
     (case seal_and_get sealFirst eng fc payloadInfo w of
        ((sealRes, errStage, sealErr), got, w) \<Rightarrow>
          do {
            (validateErr, agossip, w) \<leftarrow>
              (case got of
                 Inl err \<Rightarrow> Some (None, agossip, w)
               | Inr envelope \<Rightarrow>
                   (case sanityCheckPayload (ep_Transactions (env_Payload envelope)) of
                      None \<Rightarrow> None
                    | Some (Some err) \<Rightarrow> Some (Some err, agossip, w)
                    | Some None \<Rightarrow>
                        (case Gossiper_Gossip eng agossip envelope (snd (en_CommitUnsafePayload eng envelope w)) of
                           (agossip, w) \<Rightarrow> Some (None, agossip, w))));
            (verdict, agossip) \<leftarrow> seal_verdict sealRes errStage sealErr agossip;
            Some (case verdict of
                    Some e \<Rightarrow> (Inl e, agossip, w)
                  | None \<Rightarrow>
                      (case got of
                         Inl err \<Rightarrow> (Inl (BlockInsertTemporaryErr, NewTemporaryError (Some (Wrap ''failed to get payload'' err))), agossip, w)
                       | Inr envelope \<Rightarrow>
                           (case validateErr of
                              Some err \<Rightarrow> (Inl (BlockInsertPayloadErr, NewCriticalError (Some (Wrap ''failed to validate payload but seal succeed'' err))), agossip, w)
                            | None \<Rightarrow> (Inr envelope, Gossiper_Clear agossip, w))))
          })"

section \<open>The controller\<close>

datatype syncStatusEnum = syncStatusCL | syncStatusWillStartEL | syncStatusStartedEL
  | syncStatusFinishedELButNotFinalized | syncStatusFinishedEL

definition ErrNoFCUNeeded :: gerr where "ErrNoFCUNeeded = Msg ''no FCU call was needed''"
definition ErrELSyncTriggerUnexpected :: gerr where "ErrELSyncTriggerUnexpected = Msg ''forced head needed for startup''"
definition maxFCURetryAttempts :: nat where "maxFCURetryAttempts = 5"

record EngineController =
  ec_syncMode :: Mode
  ec_syncStatus :: syncStatusEnum
  ec_elTriggerGap :: int
  ec_chainSpec :: ChainSpec
  ec_rollupCfg :: Config
  ec_unsafeHead :: L2BlockRef
  ec_pendingSafeHead :: L2BlockRef
  ec_safeHead :: L2BlockRef
  ec_finalizedHead :: L2BlockRef
  ec_backupUnsafeHead :: L2BlockRef
  ec_needFCUCall :: bool
  ec_needFCUCallForBackupUnsafeReorg :: bool
  ec_buildingOnto :: L2BlockRef
  ec_buildingInfo :: PayloadInfo
  ec_buildingSafe :: bool
  ec_safeAttrs :: "AttributesWithParent option"
  ec_combinedAPI :: bool
  ec_needSyncWithEngine :: bool

definition NewEngineController :: "Config \<Rightarrow> SyncConfig \<Rightarrow> bool \<Rightarrow> EngineController" where
  "NewEngineController cfg syncConfig combinedAPI =
     \<lparr>ec_syncMode = sc_SyncMode syncConfig,
      ec_syncStatus = (if sc_SyncMode syncConfig = ELSync then syncStatusWillStartEL else syncStatusCL),
      ec_elTriggerGap = sc_ELTriggerGap syncConfig, ec_chainSpec = NewChainSpec cfg, ec_rollupCfg = cfg,
      ec_unsafeHead = zero_L2BlockRef, ec_pendingSafeHead = zero_L2BlockRef, ec_safeHead = zero_L2BlockRef,
      ec_finalizedHead = zero_L2BlockRef, ec_backupUnsafeHead = zero_L2BlockRef, ec_needFCUCall = False,
      ec_needFCUCallForBackupUnsafeReorg = False, ec_buildingOnto = zero_L2BlockRef, ec_buildingInfo = zero_PayloadInfo,
      ec_buildingSafe = False, ec_safeAttrs = None, ec_combinedAPI = combinedAPI, ec_needSyncWithEngine = False\<rparr>"

definition IsEngineSyncing :: "EngineController \<Rightarrow> bool" where
  "IsEngineSyncing e \<longleftrightarrow>
     ec_syncStatus e = syncStatusWillStartEL \<or> ec_syncStatus e = syncStatusStartedEL \<or>
     ec_syncStatus e = syncStatusFinishedELButNotFinalized"

definition SetFinalizedHead :: "EngineController \<Rightarrow> L2BlockRef \<Rightarrow> EngineController" where
  "SetFinalizedHead e r = e\<lparr>ec_finalizedHead := r, ec_needFCUCall := True\<rparr>"

definition SetPendingSafeL2Head :: "EngineController \<Rightarrow> L2BlockRef \<Rightarrow> EngineController" where
  "SetPendingSafeL2Head e r = e\<lparr>ec_pendingSafeHead := r\<rparr>"

definition SetSafeHead :: "EngineController \<Rightarrow> L2BlockRef \<Rightarrow> EngineController" where
  "SetSafeHead e r = e\<lparr>ec_safeHead := r, ec_needFCUCall := True\<rparr>"

definition SetUnsafeHead :: "EngineController \<Rightarrow> L2BlockRef \<Rightarrow> EngineController" where
  "SetUnsafeHead e r =
     e\<lparr>ec_unsafeHead := r, ec_needFCUCall := True, ec_chainSpec := CheckForkActivation (ec_chainSpec e) r\<rparr>"

definition SetBackupUnsafeL2Head :: "EngineController \<Rightarrow> L2BlockRef \<Rightarrow> bool \<Rightarrow> EngineController" where
  "SetBackupUnsafeL2Head e r triggerReorg =
     e\<lparr>ec_backupUnsafeHead := r, ec_needFCUCallForBackupUnsafeReorg := triggerReorg\<rparr>"

lemmas setter_defs = SetFinalizedHead_def SetPendingSafeL2Head_def SetSafeHead_def SetUnsafeHead_def SetBackupUnsafeL2Head_def

definition resetBuildingState :: "EngineController \<Rightarrow> EngineController" where
  "resetBuildingState e =
     e\<lparr>ec_buildingInfo := zero_PayloadInfo, ec_buildingOnto := zero_L2BlockRef, ec_buildingSafe := False, ec_safeAttrs := None\<rparr>"

definition StartPayload :: "'w ExecEngine \<Rightarrow> EngineController \<Rightarrow> L2BlockRef \<Rightarrow> AttributesWithParent \<Rightarrow> bool \<Rightarrow> 'w
    \<Rightarrow> (BlockInsertionErrType \<times> gerr) option \<times> EngineController \<times> 'w" where
  "StartPayload eng e parent attrs updateSafe w =
     (if IsEngineSyncing e then (Some (BlockInsertTemporaryErr, Msg ''engine is in progess of p2p sync''), e, w)
      else
        (let fc = \<lparr>fc_Head = l2_Hash parent, fc_Safe = l2_Hash (ec_safeHead e), fc_Finalized = l2_Hash (ec_finalizedHead e)\<rparr> in
         case startPayload eng fc (awp_Attributes attrs) w of
           (Inl err, w) \<Rightarrow> (Some err, e, w)
         | (Inr pid, w) \<Rightarrow>
             (None,
              e\<lparr>ec_buildingInfo := \<lparr>pi_ID = pid, pi_Timestamp = pa_Timestamp (awp_Attributes attrs)\<rparr>,
                ec_buildingSafe := updateSafe, ec_buildingOnto := parent,
                ec_safeAttrs := (if updateSafe then Some attrs else ec_safeAttrs e)\<rparr>, w)))"

text \<open>What a confirmed payload does to the heads.\<close>

definition accept_payload :: "EngineController \<Rightarrow> bool \<Rightarrow> L2BlockRef \<Rightarrow> EngineController" where
  "accept_payload e updateSafe ref =
     (let e = (if l2_Number (ec_unsafeHead e) \<ge> l2_Number ref then SetBackupUnsafeL2Head e (ec_unsafeHead e) False else e);
          e = e\<lparr>ec_unsafeHead := ref\<rparr>;
          e = (if ec_buildingSafe e then
                 (let e = e\<lparr>ec_pendingSafeHead := ref\<rparr> in
                  if updateSafe then SetBackupUnsafeL2Head (e\<lparr>ec_safeHead := ref\<rparr>) zero_L2BlockRef False else e)
               else e)
      in resetBuildingState e)"

definition ConfirmPayload :: "bool \<Rightarrow> keccak \<Rightarrow> txDecoder \<Rightarrow> 'w ExecEngine \<Rightarrow> EngineController \<Rightarrow> Gossiper \<Rightarrow> 'w
    \<Rightarrow> (confirmed \<times> EngineController \<times> Gossiper \<times> 'w) go" where
  "ConfirmPayload sealFirst keccak256 decodeTx eng e agossip w =
     (if ec_buildingInfo e = zero_PayloadInfo \<and> Gossiper_Get agossip = None then
        Some (Inl (BlockInsertPrestateErr, Msg ''cannot complete payload building: not currently building a payload''), e, agossip, w)
      else
        (let fc = \<lparr>fc_Head = 0, fc_Safe = l2_Hash (ec_safeHead e), fc_Finalized = l2_Hash (ec_finalizedHead e)\<rparr>;
             updateSafe = (ec_buildingSafe e \<and> (case ec_safeAttrs e of None \<Rightarrow> False | Some a \<Rightarrow> awp_IsLastInSpan a))
         in case (if ec_combinedAPI e \<and> \<not> ec_buildingSafe e
                  then confirmPayloadCombined sealFirst eng fc (ec_buildingInfo e) agossip w
                  else confirmPayload eng fc (ec_buildingInfo e) updateSafe agossip w) of
              None \<Rightarrow> None
            | Some (Inl (errTyp, err), agossip, w) \<Rightarrow>
                Some (Inl (errTyp, Wrap ''failed to complete building on top of L2 chain'' err), e, agossip, w)
            | Some (Inr envelope, agossip, w) \<Rightarrow>
                (case PayloadToBlockRef keccak256 decodeTx (ec_rollupCfg e) (ExecutionPayload.truncate (env_Payload envelope)) of
                   Inl err \<Rightarrow>
                     Some (Inl (BlockInsertPayloadErr, NewResetError (Some (Wrap ''failed to decode L2 block ref from payload'' err))), e, agossip, w)
                 | Inr ref \<Rightarrow> Some (Inr envelope, accept_payload e updateSafe ref, agossip, w))))"

definition CancelPayload :: "'w ExecEngine \<Rightarrow> EngineController \<Rightarrow> bool \<Rightarrow> 'w \<Rightarrow> gerr option \<times> EngineController \<times> 'w" where
  "CancelPayload eng e force w =
     (if ec_buildingInfo e = zero_PayloadInfo then (None, e, w)
      else
        (case en_GetPayload eng (ec_buildingInfo e) w of
           (Inl err, w) \<Rightarrow> if \<not> force then (Some err, e, w) else (None, resetBuildingState e, w)
         | (Inr _, w) \<Rightarrow> (None, resetBuildingState e, w)))"

section \<open>Forkchoice updates\<close>

definition checkNewPayloadStatus :: "EngineController \<Rightarrow> PStatus \<Rightarrow> bool \<times> EngineController" where
  "checkNewPayloadStatus e status =
     (if ec_syncMode e = ELSync then
        (if status = ExecutionInconsistent then (True, e)
         else
           (status = ExecutionValid \<or> status = ExecutionSyncing \<or> status = ExecutionAccepted,
            if status = ExecutionValid \<and> ec_syncStatus e = syncStatusStartedEL
            then e\<lparr>ec_syncStatus := syncStatusFinishedELButNotFinalized\<rparr> else e))
      else if ec_syncMode e = CLSync \<and> status = ExecutionInconsistent then (True, e)
      else (status = ExecutionValid, e))"

definition checkForkchoiceUpdatedStatus :: "EngineController \<Rightarrow> PStatus \<Rightarrow> bool \<times> EngineController" where
  "checkForkchoiceUpdatedStatus e status =
     (if ec_syncMode e = ELSync then
        (status = ExecutionValid \<or> status = ExecutionSyncing,
         if status = ExecutionValid \<and> ec_syncStatus e = syncStatusStartedEL
         then e\<lparr>ec_syncStatus := syncStatusFinishedELButNotFinalized\<rparr> else e)
      else (status = ExecutionValid, e))"

definition checkELSyncTriggered :: "EngineController \<Rightarrow> PStatus \<Rightarrow> gerr option \<Rightarrow> bool" where
  "checkELSyncTriggered e status err \<longleftrightarrow>
     (case err of
        None \<Rightarrow> False
      | Some err \<Rightarrow>
          string_Contains (Error_text err) (Error_text ErrELSyncTriggerUnexpected) \<and>
          ec_syncMode e \<noteq> ELSync \<and> status = ExecutionSyncing)"

definition checkUpdateUnsafeHead :: "EngineController \<Rightarrow> PStatus \<Rightarrow> bool" where
  "checkUpdateUnsafeHead e status \<longleftrightarrow>
     (if ec_syncMode e = ELSync then \<not> (ec_syncStatus e = syncStatusStartedEL \<or> ec_syncStatus e = syncStatusWillStartEL)
      else status = ExecutionValid)"

text \<open>The forkchoice state of the node, and the error of an update that failed; its text is the caller's.\<close>

definition node_fc :: "EngineController \<Rightarrow> ForkchoiceState" where
  "node_fc e = \<lparr>fc_Head = l2_Hash (ec_unsafeHead e), fc_Safe = l2_Hash (ec_safeHead e), fc_Finalized = l2_Hash (ec_finalizedHead e)\<rparr>"

definition fcu_error :: "string \<Rightarrow> string \<Rightarrow> gerr \<Rightarrow> gerr" where
  "fcu_error inconsistent failed err =
     (case errors_As_InputError err of
        Some (code, inner) \<Rightarrow>
          if code = InvalidForkchoiceState then NewResetError (Some (Wrap inconsistent inner))
          else NewTemporaryError (Some (Wrap ''unexpected error code in forkchoice-updated response'' err))
      | None \<Rightarrow> NewTemporaryError (Some (Wrap failed err)))"

definition TryUpdateEngine :: "'w ExecEngine \<Rightarrow> EngineController \<Rightarrow> 'w \<Rightarrow> gerr option \<times> EngineController \<times> 'w" where
  "TryUpdateEngine eng e w =
     (if \<not> ec_needFCUCall e then (Some ErrNoFCUNeeded, e, w)
      else
        (case en_ForkchoiceUpdate eng (node_fc e) None w of
           (Inl err, w) \<Rightarrow>
             (Some (fcu_error ''forkchoice update was inconsistent with engine, need reset to resolve'' ''failed to sync forkchoice with engine'' err), e, w)
         | (Inr _, w) \<Rightarrow> (None, e\<lparr>ec_needFCUCall := False\<rparr>, w)))"

definition shouldTryBackupUnsafeReorg :: "EngineController \<Rightarrow> bool \<times> EngineController" where
  "shouldTryBackupUnsafeReorg e =
     (if \<not> ec_needFCUCallForBackupUnsafeReorg e then (False, e)
      else if IsEngineSyncing e then (False, e)
      else if ec_backupUnsafeHead e = zero_L2BlockRef then (False, SetBackupUnsafeL2Head e zero_L2BlockRef False)
      else (True, e))"

definition TryBackupUnsafeReorg :: "'w ExecEngine \<Rightarrow> EngineController \<Rightarrow> 'w \<Rightarrow> (bool \<times> gerr option) \<times> EngineController \<times> 'w" where
  "TryBackupUnsafeReorg eng e w =
     (case shouldTryBackupUnsafeReorg e of
        (False, e) \<Rightarrow> ((False, None), e, w)
      | (True, e) \<Rightarrow>
          (let e = e\<lparr>ec_needFCUCallForBackupUnsafeReorg := False\<rparr> in
           case en_ForkchoiceUpdate eng ((node_fc e)\<lparr>fc_Head := l2_Hash (ec_backupUnsafeHead e)\<rparr>) None w of
             (Inl err, w) \<Rightarrow>
               ((True, Some (fcu_error ''forkchoice update was inconsistent with engine, need reset to resolve'' ''failed to sync forkchoice with engine'' err)),
                (if errors_As_InputError err \<noteq> None then SetBackupUnsafeL2Head e zero_L2BlockRef False
                 else e\<lparr>ec_needFCUCallForBackupUnsafeReorg := True\<rparr>), w)
           | (Inr fcRes, w) \<Rightarrow>
               if fr_Status fcRes = ExecutionValid then
                 ((True, None), SetBackupUnsafeL2Head (SetUnsafeHead e (ec_backupUnsafeHead e)) zero_L2BlockRef False, w)
               else
                 ((True, Some (NewTemporaryError (Some (Wrap ''cannot restore unsafe chain using backupUnsafe: err'' (the (ForkchoiceUpdateErr (fr_Status fcRes))))))),
                  SetBackupUnsafeL2Head e zero_L2BlockRef False, w)))"

section \<open>Unsafe payloads\<close>

definition GetCurrentUnsafeHead :: "'w ExecEngine \<Rightarrow> EngineController \<Rightarrow> 'w \<Rightarrow> L2BlockRef \<times> 'w" where
  "GetCurrentUnsafeHead eng e w =
     (if l2_Number (ec_unsafeHead e) = 0 then
        (case en_L2BlockRefByLabel eng LabelUnsafe w of
           (Inl err, w) \<Rightarrow> (ec_unsafeHead e, w)
         | (Inr ref, w) \<Rightarrow> (ref, w))
      else (ec_unsafeHead e, w))"

definition getCurrentL2Info :: "'w ExecEngine \<Rightarrow> 'w \<Rightarrow> FindHeadsResult res \<times> 'w" where
  "getCurrentL2Info eng w =
     (case en_L2BlockRefByLabel eng LabelFinalized w of
        (Inl err, w) \<Rightarrow> (Inl (Wrap ''failed to find the finalized L2 block'' err), w)
      | (Inr finalized, w) \<Rightarrow>
          (let (safe, w) = en_L2BlockRefByLabel eng LabelSafe w;
               safe = (case safe of Inl err \<Rightarrow> if errors_Is err NotFound then Inr finalized else Inl err | Inr r \<Rightarrow> Inr r)
           in case safe of
                Inl err \<Rightarrow> (Inl (Wrap ''failed to find the safe L2 block'' err), w)
              | Inr safe \<Rightarrow>
                  (case en_L2BlockRefByLabel eng LabelUnsafe w of
                     (Inl err, w) \<Rightarrow> (Inl (Wrap ''failed to find the L2 head block'' err), w)
                   | (Inr unsafe, w) \<Rightarrow> (Inr \<lparr>fh_Unsafe = unsafe, fh_Safe = safe, fh_Finalized = finalized\<rparr>, w))))"

definition resetSafeAndFinalizedHead :: "EngineController \<Rightarrow> FindHeadsResult \<Rightarrow> (bool \<times> bool) \<times> EngineController" where
  "resetSafeAndFinalizedHead e info =
     (let e = SetUnsafeHead e (fh_Unsafe info);
          needSafe = l2_Number (fh_Safe info) > l2_Number (fh_Unsafe info);
          e = (if needSafe then SetSafeHead e (fh_Unsafe info) else e);
          needFinalized = l2_Number (fh_Finalized info) > l2_Number (fh_Unsafe info);
          e = (if needFinalized then SetFinalizedHead e (fh_Unsafe info) else e)
      in ((needSafe, needFinalized), e))"

text \<open>The attempts that are left are the argument of the recursion.\<close>

fun sync_attempts :: "nat \<Rightarrow> 'w ExecEngine \<Rightarrow> EngineController \<Rightarrow> ForkchoiceState \<Rightarrow> 'w \<Rightarrow> bool res \<times> EngineController \<times> 'w" where
  "sync_attempts 0 eng e fcuReq w = (Inl (Msg ''max retry attempts reached for trySyncingWithEngine''), e, w)"
| "sync_attempts (Suc n) eng e fcuReq w =
     (case en_ForkchoiceUpdate eng fcuReq None w of
        (Inl err, w) \<Rightarrow>
          if string_Contains (Error_text err) ''context deadline exceeded'' then sync_attempts n eng e fcuReq w
          else (Inl (Wrap ''engine failed to process due to error'' err), e, w)
      | (Inr fcuRes, w) \<Rightarrow>
          if fr_Status fcuRes = ExecutionValid then (Inr True, e\<lparr>ec_needFCUCall := False\<rparr>, w)
          else (Inl (Msg ''engine failed to process inconsistent data''), e, w))"

definition trySyncingWithEngine :: "'w ExecEngine \<Rightarrow> EngineController \<Rightarrow> ForkchoiceState \<Rightarrow> 'w \<Rightarrow> bool res \<times> EngineController \<times> 'w" where
  "trySyncingWithEngine = sync_attempts maxFCURetryAttempts"

text \<open>The first step of EL sync: \<open>Inl\<close> is a result of \<open>InsertUnsafePayload\<close>, \<open>Inr\<close> goes on.\<close>

definition start_EL :: "'w ExecEngine \<Rightarrow> EngineController \<Rightarrow> L2BlockRef \<Rightarrow> 'w
    \<Rightarrow> (gerr option + unit) \<times> EngineController \<times> 'w" where
  "start_EL eng e ref w =
     (if ec_syncStatus e \<noteq> syncStatusWillStartEL then (Inr (), e, w)
      else
        (let (b, w) = en_L2BlockRefByLabel eng LabelFinalized w;
             (currentUnsafe, w) = GetCurrentUnsafeHead eng e w;
             bHash = (case b of Inl _ \<Rightarrow> 0 | Inr b \<Rightarrow> l2_Hash b);
             rollupGenesisIsFinalized = (bHash = bid_Hash (gen_L2 (cfg_Genesis (ec_rollupCfg e))));
             isGapSyncNeeded = l2_Number ref - l2_Number currentUnsafe > word_of_int (ec_elTriggerGap e)
         in if is_NotFound b \<or> rollupGenesisIsFinalized \<or> isGapSyncNeeded then
              (Inr (), e\<lparr>ec_syncStatus := syncStatusStartedEL\<rparr>, w)
            else
              (case b of
                 Inr b \<Rightarrow> (Inl None, e\<lparr>ec_syncStatus := syncStatusFinishedEL\<rparr>, w)
               | Inl err \<Rightarrow> (Inl (Some (NewTemporaryError (Some (Wrap ''failed to fetch finalized head'' err)))), e, w))))"

text \<open>An engine that has an inconsistent state: the heads are taken from it, and it is told them.\<close>

definition sync_inconsistent :: "'w ExecEngine \<Rightarrow> EngineController \<Rightarrow> 'w
    \<Rightarrow> (gerr + bool \<times> bool) \<times> EngineController \<times> 'w" where
  "sync_inconsistent eng e w =
     (case getCurrentL2Info eng w of
        (Inl err, w) \<Rightarrow> (Inl (NewTemporaryError (Some (Wrap ''failed to process inconsistent state'' err))), e, w)
      | (Inr info, w) \<Rightarrow>
          (case resetSafeAndFinalizedHead e info of
             (needs, e) \<Rightarrow>
               (case trySyncingWithEngine eng e (node_fc e) w of
                  (Inl err, e, w) \<Rightarrow> (Inl (NewTemporaryError (Some err)), e\<lparr>ec_needSyncWithEngine := False\<rparr>, w)
                | (Inr need, e, w) \<Rightarrow> (Inr needs, e\<lparr>ec_needSyncWithEngine := need\<rparr>, w))))"

text \<open>The heads after a sync with the engine; the error of the engine is ignored, the block is zero then.\<close>

definition adopt_engine_heads :: "'w ExecEngine \<Rightarrow> EngineController \<Rightarrow> bool \<times> bool \<Rightarrow> ForkchoiceState \<Rightarrow> 'w
    \<Rightarrow> ForkchoiceState \<times> EngineController \<times> 'w" where
  "adopt_engine_heads eng e needs fc w =
     (if \<not> ec_needSyncWithEngine e then (fc, e, w)
      else
        (let (r, w) = en_L2BlockRefByLabel eng LabelUnsafe w;
             currentUnsafe = (case r of Inl _ \<Rightarrow> zero_L2BlockRef | Inr b \<Rightarrow> b);
             e = SetUnsafeHead e currentUnsafe;
             fc = fc\<lparr>fc_Head := l2_Hash currentUnsafe\<rparr>;
             (fc, e) = (if snd needs then (fc\<lparr>fc_Finalized := l2_Hash currentUnsafe\<rparr>, SetFinalizedHead e currentUnsafe) else (fc, e));
             (fc, e) = (if fst needs then (fc\<lparr>fc_Safe := l2_Hash currentUnsafe\<rparr>, SetSafeHead e currentUnsafe) else (fc, e))
         in (fc, e\<lparr>ec_needSyncWithEngine := False\<rparr>, w)))"

text \<open>The end of \<open>InsertUnsafePayload\<close>: the forkchoice update that makes the payload the head.\<close>

definition make_unsafe_head :: "'w ExecEngine \<Rightarrow> EngineController \<Rightarrow> ForkchoiceState \<Rightarrow> Envelope \<Rightarrow> L2BlockRef \<Rightarrow> 'w
    \<Rightarrow> gerr option \<times> EngineController \<times> 'w" where
  "make_unsafe_head eng e fc envelope ref w =
     (let hash = ep_BlockHash (env_Payload envelope);
          (fc, e) = (if ec_syncStatus e = syncStatusFinishedELButNotFinalized
                     then (fc\<lparr>fc_Safe := hash, fc_Finalized := hash\<rparr>, SetFinalizedHead (SetSafeHead e ref) ref)
                     else (fc, e))
      in case en_ForkchoiceUpdate eng fc None w of
           (Inl err, w) \<Rightarrow>
             (Some (fcu_error ''pre-unsafe-block forkchoice update was inconsistent with engine, need reset to resolve''
                      ''failed to update forkchoice to prepare for new unsafe payload'' err), e, w)
         | (Inr fcRes, w) \<Rightarrow>
             (case checkForkchoiceUpdatedStatus e (fr_Status fcRes) of
                (False, e) \<Rightarrow>
                  (Some (NewTemporaryError (Some (Wrap ''cannot prepare unsafe chain for new payload'' (the (ForkchoiceUpdateErr (fr_Status fcRes)))))), e, w)
              | (True, e) \<Rightarrow>
                  (let e = e\<lparr>ec_needFCUCall := False\<rparr>;
                       e = (if checkUpdateUnsafeHead e (fr_Status fcRes) then SetUnsafeHead e ref else e);
                       e = (if ec_syncStatus e = syncStatusFinishedELButNotFinalized
                            then SetUnsafeHead (e\<lparr>ec_syncStatus := syncStatusFinishedEL\<rparr>) ref else e)
                   in (None, e, w))))"

definition after_new_payload :: "'w ExecEngine \<Rightarrow> EngineController \<Rightarrow> Envelope \<Rightarrow> L2BlockRef \<Rightarrow> PStatus \<Rightarrow> gerr option \<Rightarrow> 'w
    \<Rightarrow> gerr option \<times> EngineController \<times> 'w" where
  "after_new_payload eng e envelope ref status err w =
     (let (r, e, w) = (if status = ExecutionInconsistent \<or> checkELSyncTriggered e status err
                       then sync_inconsistent eng e w else (Inr (False, False), e, w))
      in case r of
           Inl err \<Rightarrow> (Some err, e, w)
         | Inr needs \<Rightarrow>
             (case checkNewPayloadStatus e status of
                (False, e) \<Rightarrow>
                  (Some (NewTemporaryError (Some (Wrap ''cannot process unsafe payload'' (the (NewPayloadErr status))))), e, w)
              | (True, e) \<Rightarrow>
                  (let fc = (node_fc e)\<lparr>fc_Head := ep_BlockHash (env_Payload envelope)\<rparr>;
                       (fc, e, w) = adopt_engine_heads eng e needs fc w
                   in make_unsafe_head eng e fc envelope ref w)))"

definition InsertUnsafePayload :: "'w ExecEngine \<Rightarrow> EngineController \<Rightarrow> Envelope \<Rightarrow> L2BlockRef \<Rightarrow> 'w
    \<Rightarrow> (gerr option \<times> EngineController \<times> 'w) go" where
  "InsertUnsafePayload eng e envelope ref w =
     (case start_EL eng e ref w of
        (Inl r, e, w) \<Rightarrow> Some (r, e, w)
      | (Inr _, e, w) \<Rightarrow>
          (case en_NewPayload eng (env_Payload envelope) (env_ParentBeaconBlockRoot envelope) w of
             ((status, err), w) \<Rightarrow>
               if (case err of None \<Rightarrow> False
                   | Some err \<Rightarrow> \<not> string_Contains (Error_text err) (Error_text ErrELSyncTriggerUnexpected)) then
                 Some (Some (NewTemporaryError (Some (Wrap ''failed to update insert payload'' (the err)))), e, w)
               else
                 (case status of
                    None \<Rightarrow> None
                  | Some status \<Rightarrow> Some (after_new_payload eng e envelope ref status err w))))"

section \<open>What a payload must look like\<close>

definition is_deposit :: "bytes \<Rightarrow> bool" where "is_deposit tx \<longleftrightarrow> tx \<noteq> [] \<and> hd tx = DepositTxType"
definition is_other :: "bytes \<Rightarrow> bool" where "is_other tx \<longleftrightarrow> tx \<noteq> [] \<and> hd tx \<noteq> DepositTxType"

lemma isDepositTx_eq: "isDepositTx tx = (if tx = [] then Inl (Msg ''empty transaction'') else Inr (is_deposit tx))"
  by (cases tx) (auto simp: isDepositTx_def is_deposit_def)

lemma no_deposits_iff: "no_deposits txns = None \<longleftrightarrow> (\<forall>tx\<in>set txns. is_other tx)"
  by (induction txns) (auto simp: isDepositTx_eq is_deposit_def is_other_def)

lemma lastDeposit_from_eq:
  "lastDeposit_from i k txns =
     (if dropWhile is_deposit txns = [] \<or> hd (dropWhile is_deposit txns) \<noteq> []
      then Inr (if takeWhile is_deposit txns = [] then k else i + length (takeWhile is_deposit txns) - 1)
      else Inl (Msg ''invalid transaction''))"
  by (induction txns arbitrary: i k) (auto simp: isDepositTx_eq is_deposit_def)

lemma deposits_first_iff:
  "(\<exists>ds rest. txns = ds @ rest \<and> ds \<noteq> [] \<and> filter is_deposit ds = ds \<and> filter is_other rest = rest) \<longleftrightarrow>
   txns \<noteq> [] \<and> is_deposit (hd txns) \<and> (\<forall>tx\<in>set (dropWhile is_deposit txns). is_other tx)"
  (is "?l \<longleftrightarrow> ?r")
proof
  assume ?l
  then obtain ds rest where r: "txns = ds @ rest" "ds \<noteq> []" "\<forall>x\<in>set ds. is_deposit x" "\<forall>x\<in>set rest. is_other x"
    by (auto simp: filter_id_conv)
  have "dropWhile is_deposit rest = rest" using r(4) by (cases rest) (auto simp: is_deposit_def is_other_def)
  then have "dropWhile is_deposit txns = rest" using r by (simp add: dropWhile_append2)
  then show ?r using r by (cases ds) auto
next
  assume ?r
  then have "takeWhile is_deposit txns \<noteq> []" by (cases txns) auto
  moreover have "filter is_deposit (takeWhile is_deposit txns) = takeWhile is_deposit txns"
    by (auto simp: filter_id_conv dest: set_takeWhileD)
  moreover have "filter is_other (dropWhile is_deposit txns) = dropWhile is_deposit txns"
    using \<open>?r\<close> by (simp add: filter_id_conv)
  ultimately show ?l by (metis takeWhile_dropWhile_id)
qed

text \<open>C29: Payloads are checked for the order of their transactions. The check passes exactly the transactions that are one
  or more deposits followed by transactions of other types, none of them empty; it panics exactly when the first
  transaction is empty.\<close>

theorem sanityCheckPayload_spec:
  "(sanityCheckPayload txns = Some None \<longleftrightarrow>
      (\<exists>ds rest. txns = ds @ rest \<and> ds \<noteq> [] \<and> filter is_deposit ds = ds \<and> filter is_other rest = rest)) \<and>
   (sanityCheckPayload txns = None \<longleftrightarrow> take 1 txns = [[]])"
proof (cases "txns \<noteq> [] \<and> is_deposit (hd txns)")
  case False
  then show ?thesis
    unfolding deposits_first_iff
    by (cases txns; cases "hd txns") (auto simp: sanityCheckPayload_def is_deposit_def split: if_splits)
next
  case True
  let ?ds = "takeWhile is_deposit txns" and ?rest = "dropWhile is_deposit txns"
  have ne: "?ds \<noteq> []" using True by (cases txns) auto
  have "drop (length ?ds) txns = ?rest" by (metis append_eq_conv_conj takeWhile_dropWhile_id)
  moreover have "Suc (length ?ds - Suc 0) = length ?ds" using ne by (cases ?ds) auto
  ultimately have d: "drop (Suc (length ?ds - Suc 0)) txns = ?rest" by metis
  have eq: "sanityCheckPayload txns = (case lastDeposit txns of
                  Inl err \<Rightarrow> Some (Some (Wrap ''failed to find last deposit'' err))
                | Inr i \<Rightarrow> Some (no_deposits (drop (i + 1) txns)))"
    using True by (cases txns; cases "hd txns") (auto simp: sanityCheckPayload_def is_deposit_def)
  have "sanityCheckPayload txns = Some None \<longleftrightarrow> (?rest = [] \<or> hd ?rest \<noteq> []) \<and> (\<forall>tx\<in>set ?rest. is_other tx)"
    using ne by (auto simp: eq lastDeposit_def lastDeposit_from_eq no_deposits_iff d simp del: Suc_pred)
  also have "\<dots> \<longleftrightarrow> (\<forall>tx\<in>set ?rest. is_other tx)" by (cases ?rest) (auto simp: is_other_def)
  finally have "sanityCheckPayload txns = Some None \<longleftrightarrow> (\<forall>tx\<in>set ?rest. is_other tx)" .
  moreover have "sanityCheckPayload txns \<noteq> None" by (simp add: eq split: sum.splits)
  ultimately show ?thesis
    unfolding deposits_first_iff using True by (cases txns) (auto simp: is_deposit_def)
qed

section \<open>Agreement with the engine\<close>

text \<open>The interface of the engine, as far as the forkchoice is concerned: \<open>told w\<close> is the last forkchoice state the
  engine has accepted, with the status VALID; no other call changes it.\<close>

locale exec_engine =
  fixes eng :: "'w ExecEngine" and told :: "'w \<Rightarrow> ForkchoiceState option"
  assumes fcu: "en_ForkchoiceUpdate eng fc attrs w = (r, w') \<Longrightarrow>
      told w' = (case r of Inl _ \<Rightarrow> told w | Inr res \<Rightarrow> if fr_Status res = ExecutionValid then Some fc else told w)"
    and get_payload: "en_GetPayload eng info w = (g, w') \<Longrightarrow> told w' = told w"
    and new_payload: "en_NewPayload eng payload root w = (n, w') \<Longrightarrow> told w' = told w"
    and by_label: "en_L2BlockRefByLabel eng label w = (b, w') \<Longrightarrow> told w' = told w"
    and commit: "en_CommitUnsafePayload eng envelope w = (c, w') \<Longrightarrow> told w' = told w"
    and publish: "en_PublishL2Payload eng envelope w = (c, w') \<Longrightarrow> told w' = told w"

text \<open>Any environment with a log of what it was told is one.\<close>

definition logged :: "'w ExecEngine \<Rightarrow> (ForkchoiceState option \<times> 'w) ExecEngine" where
  "logged eng =
     \<lparr>en_GetPayload = (\<lambda>info (l, w). case en_GetPayload eng info w of (r, w) \<Rightarrow> (r, l, w)),
      en_ForkchoiceUpdate = (\<lambda>fc attrs (l, w). case en_ForkchoiceUpdate eng fc attrs w of
         (Inl err, w) \<Rightarrow> (Inl err, l, w)
       | (Inr res, w) \<Rightarrow> (Inr res, if fr_Status res = ExecutionValid then Some fc else l, w)),
      en_NewPayload = (\<lambda>payload root (l, w). case en_NewPayload eng payload root w of (r, w) \<Rightarrow> (r, l, w)),
      en_SealPayload = (\<lambda>info fc (l, w). case en_SealPayload eng info fc w of (r, w) \<Rightarrow> (r, l, w)),
      en_L2BlockRefByLabel = (\<lambda>label (l, w). case en_L2BlockRefByLabel eng label w of (r, w) \<Rightarrow> (r, l, w)),
      en_CommitUnsafePayload = (\<lambda>envelope (l, w). case en_CommitUnsafePayload eng envelope w of (r, w) \<Rightarrow> (r, l, w)),
      en_PublishL2Payload = (\<lambda>envelope (l, w). case en_PublishL2Payload eng envelope w of (r, w) \<Rightarrow> (r, l, w))\<rparr>"

interpretation logged: exec_engine "logged eng" fst
  by unfold_locales (auto simp: logged_def split: prod.splits sum.splits)

text \<open>The node has nothing to tell the engine, or its heads are what the engine was told last.\<close>

definition agrees :: "EngineController \<Rightarrow> ForkchoiceState option \<Rightarrow> bool" where
  "agrees e l \<longleftrightarrow> ec_needFCUCall e \<or> l = Some (node_fc e)"

text \<open>A node that is driven block by block, without the combined API.\<close>

definition cl_node :: "EngineController \<Rightarrow> bool" where
  "cl_node e \<longleftrightarrow> ec_syncMode e = CLSync \<and> ec_syncStatus e = syncStatusCL \<and> \<not> ec_combinedAPI e"

lemma cl_node_setters [simp]:
  "cl_node (SetFinalizedHead e r) = cl_node e" "cl_node (SetPendingSafeL2Head e r) = cl_node e"
  "cl_node (SetSafeHead e r) = cl_node e" "cl_node (SetUnsafeHead e r) = cl_node e"
  "cl_node (SetBackupUnsafeL2Head e r b) = cl_node e" "cl_node (resetBuildingState e) = cl_node e"
  "cl_node (e\<lparr>ec_needSyncWithEngine := b\<rparr>) = cl_node e" "cl_node (e\<lparr>ec_needFCUCall := b\<rparr>) = cl_node e"
  "cl_node (e\<lparr>ec_needFCUCallForBackupUnsafeReorg := b\<rparr>) = cl_node e"
  by (simp_all add: cl_node_def setter_defs resetBuildingState_def)

lemma agrees_setters [simp]:
  "agrees (SetFinalizedHead e r) l" "agrees (SetSafeHead e r) l" "agrees (SetUnsafeHead e r) l"
  "agrees (SetPendingSafeL2Head e r) l = agrees e l" "agrees (SetBackupUnsafeL2Head e r b) l = agrees e l"
  "agrees (resetBuildingState e) l = agrees e l" "agrees (e\<lparr>ec_needSyncWithEngine := b\<rparr>) l = agrees e l"
  "agrees (e\<lparr>ec_needFCUCallForBackupUnsafeReorg := b\<rparr>) l = agrees e l"
  by (simp_all add: agrees_def setter_defs resetBuildingState_def node_fc_def)

lemma PayloadToBlockRef_hash:
  "PayloadToBlockRef keccak256 decodeTx cfg payload = Inr ref \<Longrightarrow>
   l2_Hash ref = ep_BlockHash payload \<and> l2_Number ref = ep_BlockNumber payload \<and> l2_ParentHash ref = ep_ParentHash payload"
  by (auto simp: PayloadToBlockRef_def Let_def split: sum.splits)

lemma accept_payload_heads:
  "ec_unsafeHead (accept_payload e updateSafe ref) = ref"
  "ec_safeHead (accept_payload e updateSafe ref) = (if ec_buildingSafe e \<and> updateSafe then ref else ec_safeHead e)"
  "ec_pendingSafeHead (accept_payload e updateSafe ref) = (if ec_buildingSafe e then ref else ec_pendingSafeHead e)"
  "ec_finalizedHead (accept_payload e updateSafe ref) = ec_finalizedHead e"
  "cl_node (accept_payload e updateSafe ref) = cl_node e"
  by (simp_all add: accept_payload_def resetBuildingState_def setter_defs Let_def cl_node_def)

context exec_engine
begin

lemma gossip: "Gossiper_Gossip eng g envelope w = (g', w') \<Longrightarrow> told w' = told w"
  by (cases g) (auto split: prod.splits option.splits dest: publish)

lemma startPayload_told:
  assumes "startPayload eng fc attrs w = (r, w')"
  shows "told w' = (case r of Inl _ \<Rightarrow> told w' | Inr _ \<Rightarrow> Some fc)"
    and "(\<forall>pid. r \<noteq> Inr pid) \<longrightarrow> told w' = told w \<or> told w' = Some fc"
  using assms
  by (auto simp: startPayload_def Let_def status_defs split: prod.splits sum.splits option.splits if_splits dest!: fcu)

lemma make_canonical_told:
  assumes "make_canonical eng fc updateSafe envelope g w = (r, g', w')"
  shows "told w' = (case r of Inl _ \<Rightarrow> told w
     | Inr _ \<Rightarrow> Some (fc\<lparr>fc_Head := ep_BlockHash (env_Payload envelope),
         fc_Safe := if updateSafe then ep_BlockHash (env_Payload envelope) else fc_Safe fc\<rparr>))" and "\<forall>x. r = Inr x \<longrightarrow> x = envelope"
  using assms
  by (auto simp: make_canonical_def Let_def split: prod.splits sum.splits option.splits if_splits dest!: fcu)

lemma confirmPayload_told:
  assumes "confirmPayload eng fc info updateSafe g w = Some (r, g', w')"
  shows "told w' = (case r of Inl _ \<Rightarrow> told w
     | Inr envelope \<Rightarrow> Some (fc\<lparr>fc_Head := ep_BlockHash (env_Payload envelope),
         fc_Safe := if updateSafe then ep_BlockHash (env_Payload envelope) else fc_Safe fc\<rparr>))"
proof -
  have ins: "told v' = (case r of Inl _ \<Rightarrow> told v
     | Inr envelope \<Rightarrow> Some (fc\<lparr>fc_Head := ep_BlockHash (env_Payload envelope),
         fc_Safe := if updateSafe then ep_BlockHash (env_Payload envelope) else fc_Safe fc\<rparr>))"
    if "insert_payload eng fc updateSafe envelope g v = Some (r, g', v')" for envelope v v'
  proof -
    obtain c v1 where c: "en_CommitUnsafePayload eng envelope v = (c, v1)" by fastforce
    show ?thesis
    proof (cases c)
      case (Some err)
      then show ?thesis using that c commit [OF c] by (auto simp: insert_payload_def)
    next
      case None
      obtain g1 v2 where g: "Gossiper_Gossip eng g envelope v1 = (g1, v2)" by fastforce
      obtain st er v3 where n: "en_NewPayload eng (env_Payload envelope) (env_ParentBeaconBlockRoot envelope) v2 = ((st, er), v3)"
        by (metis prod.exhaust)
      have t: "told v3 = told v" using commit [OF c] gossip [OF g] new_payload [OF n] by simp
      have "insert_payload eng fc updateSafe envelope g v = (case (st, er) of
          (_, Some err) \<Rightarrow> Some (Inl (BlockInsertTemporaryErr, Wrap ''failed to insert execution payload'' err), g1, v3)
        | (None, None) \<Rightarrow> None
        | (Some status, None) \<Rightarrow>
            if status \<in> {ExecutionInvalid, ExecutionInvalidBlockHash, ExecutionInconsistent} then
              Some (Inl (BlockInsertPayloadErr, the (NewPayloadErr status)), Gossiper_Clear g1, v3)
            else if status \<noteq> ExecutionValid then
              Some (Inl (BlockInsertTemporaryErr, the (NewPayloadErr status)), g1, v3)
            else Some (make_canonical eng fc updateSafe envelope g1 v3))"
        using None c g n by (simp add: insert_payload_def split: option.split)
      then show ?thesis
        using that t make_canonical_told(1) [of fc updateSafe envelope g1 v3 r g' v']
          make_canonical_told(2) [of fc updateSafe envelope g1 v3 r g' v']
        by (cases st; cases er; cases r) (auto split: if_splits)
    qed
  qed
  show ?thesis
  proof (cases "Gossiper_Get g")
    case (Some cached)
    then show ?thesis using assms ins
      by (auto simp: confirmPayload_def Let_def split: option.splits)
  next
    case None
    obtain x v where x: "en_GetPayload eng info w = (x, v)" by fastforce
    then show ?thesis using assms ins None get_payload [OF x]
      by (auto simp: confirmPayload_def Let_def split: option.splits sum.splits)
  qed
qed

text \<open>A payload that is accepted but whose block reference cannot be decoded is the head of the engine only.\<close>

lemma ConfirmPayload_agrees:
  assumes c: "ConfirmPayload sealFirst keccak256 decodeTx eng e g w = Some (r, e', g', w')" and n: "cl_node e"
    and d: "\<forall>err. r \<noteq> Inl (BlockInsertPayloadErr, NewResetError err)"
  shows "cl_node e' \<and> (agrees e (told w) \<longrightarrow> agrees e' (told w')) \<and> (\<forall>x. r = Inr x \<longrightarrow> agrees e' (told w'))"
proof (cases "ec_buildingInfo e = zero_PayloadInfo \<and> Gossiper_Get g = None")
  case True
  then show ?thesis using c n by (auto simp: ConfirmPayload_def)
next
  case False
  let ?fc = "\<lparr>fc_Head = 0, fc_Safe = l2_Hash (ec_safeHead e), fc_Finalized = l2_Hash (ec_finalizedHead e)\<rparr>"
  let ?u = "ec_buildingSafe e \<and> (case ec_safeAttrs e of None \<Rightarrow> False | Some a \<Rightarrow> awp_IsLastInSpan a)"
  have "\<not> ec_combinedAPI e" using n by (simp add: cl_node_def)
  then have c: "(case confirmPayload eng ?fc (ec_buildingInfo e) ?u g w of
              None \<Rightarrow> None
            | Some (Inl (errTyp, err), agossip, w) \<Rightarrow>
                Some (Inl (errTyp, Wrap ''failed to complete building on top of L2 chain'' err), e, agossip, w)
            | Some (Inr envelope, agossip, w) \<Rightarrow>
                (case PayloadToBlockRef keccak256 decodeTx (ec_rollupCfg e) (ExecutionPayload.truncate (env_Payload envelope)) of
                   Inl err \<Rightarrow>
                     Some (Inl (BlockInsertPayloadErr, NewResetError (Some (Wrap ''failed to decode L2 block ref from payload'' err))), e, agossip, w)
                 | Inr ref \<Rightarrow> Some (Inr envelope, accept_payload e ?u ref, agossip, w))) = Some (r, e', g', w')"
    using c False unfolding ConfirmPayload_def Let_def by simp
  then obtain x g1 w1 where x: "confirmPayload eng ?fc (ec_buildingInfo e) ?u g w = Some (x, g1, w1)"
    by (auto split: option.splits)
  note t = confirmPayload_told [OF x]
  show ?thesis
  proof (cases x)
    case (Inl err)
    then show ?thesis using c x t n by (cases err) (auto simp: agrees_def)
  next
    case (Inr envelope)
    show ?thesis
    proof (cases "PayloadToBlockRef keccak256 decodeTx (ec_rollupCfg e) (ExecutionPayload.truncate (env_Payload envelope))")
      case (Inl err)
      then show ?thesis using c x \<open>x = _\<close> d by auto
    next
      case ref: (Inr ref)
      have e': "e' = accept_payload e ?u ref" "w' = w1" using c x Inr ref by auto
      have "l2_Hash ref = ep_BlockHash (env_Payload envelope)"
        using PayloadToBlockRef_hash [OF ref] by (simp add: ExecutionPayload.truncate_def)
      then have "told w' = Some (node_fc e')"
        using t Inr e' by (simp add: node_fc_def accept_payload_heads)
      then show ?thesis using e' n by (simp add: agrees_def accept_payload_heads)
    qed
  qed
qed

lemma getCurrentL2Info_told:
  assumes "getCurrentL2Info eng w = (r, w')" shows "told w' = told w"
proof -
  obtain f w1 where f: "en_L2BlockRefByLabel eng LabelFinalized w = (f, w1)" by fastforce
  obtain s w2 where s: "en_L2BlockRefByLabel eng LabelSafe w1 = (s, w2)" by fastforce
  obtain u w3 where u: "en_L2BlockRefByLabel eng LabelUnsafe w2 = (u, w3)" by fastforce
  have t: "told w1 = told w" "told w2 = told w" "told w3 = told w"
    using by_label [OF f] by_label [OF s] by_label [OF u] by simp_all
  show ?thesis
    using assms t unfolding getCurrentL2Info_def f prod.case
    by (cases f; cases u; cases s) (auto simp: s u Let_def split: if_splits)
qed

lemma sync_attempts_told:
  "sync_attempts n eng e fcuReq w = (r, e', w') \<Longrightarrow>
   (case r of Inl _ \<Rightarrow> e' = e \<and> told w' = told w
    | Inr b \<Rightarrow> b \<and> e' = e\<lparr>ec_needFCUCall := False\<rparr> \<and> told w' = Some fcuReq)"
proof (induction n arbitrary: w)
  case (Suc n)
  obtain f w1 where f: "en_ForkchoiceUpdate eng fcuReq None w = (f, w1)" by fastforce
  show ?case
    using Suc.prems fcu [OF f] Suc.IH [of w1]
    by (cases f; cases r) (auto simp: f split: if_splits)
qed auto

lemma sync_inconsistent_agrees:
  assumes s: "sync_inconsistent eng e w = (r, e', w')" and n: "cl_node e" and a: "agrees e (told w)"
  shows "cl_node e' \<and> agrees e' (told w')"
proof -
  obtain i w1 where i: "getCurrentL2Info eng w = (i, w1)" by fastforce
  show ?thesis
  proof (cases i)
    case (Inl err)
    then show ?thesis using s i n a getCurrentL2Info_told [OF i] by (auto simp: sync_inconsistent_def)
  next
    case (Inr info)
    obtain needs e1 where r: "resetSafeAndFinalizedHead e info = (needs, e1)" by fastforce
    have e1: "cl_node e1" "ec_needFCUCall e1"
      using r n by (auto simp: resetSafeAndFinalizedHead_def Let_def setter_defs cl_node_def split: if_splits)
    obtain b e2 w2 where t: "trySyncingWithEngine eng e1 (node_fc e1) w1 = (b, e2, w2)" by (metis prod.exhaust)
    note t' = sync_attempts_told [OF t [unfolded trySyncingWithEngine_def]]
    show ?thesis
    proof (cases b)
      case (Inl err)
      then show ?thesis using s i Inr r t t' e1 by (auto simp: sync_inconsistent_def agrees_def)
    next
      case (Inr need)
      then have "cl_node e2" "told w2 = Some (node_fc e2)" using t' e1(1) by (auto simp: node_fc_def)
      then show ?thesis using s i \<open>i = _\<close> r t Inr by (auto simp: sync_inconsistent_def agrees_def node_fc_def)
    qed
  qed
qed

lemma adopt_engine_heads_agrees:
  assumes "adopt_engine_heads eng e needs fc w = (fc', e', w')" "cl_node e" "agrees e (told w)"
  shows "cl_node e' \<and> agrees e' (told w')"
proof (cases "ec_needSyncWithEngine e")
  case True
  obtain r w1 where "en_L2BlockRefByLabel eng LabelUnsafe w = (r, w1)" by fastforce
  then show ?thesis using assms True by (auto simp: adopt_engine_heads_def Let_def split: if_splits)
qed (use assms in \<open>simp add: adopt_engine_heads_def\<close>)

lemma make_unsafe_head_agrees:
  assumes m: "make_unsafe_head eng e fc envelope ref w = (r, e', w')" and n: "cl_node e" and a: "agrees e (told w)"
  shows "cl_node e' \<and> agrees e' (told w')"
proof -
  have st: "ec_syncMode e = CLSync" "ec_syncStatus e = syncStatusCL" using n by (simp_all add: cl_node_def)
  obtain f w1 where f: "en_ForkchoiceUpdate eng fc None w = (f, w1)" by fastforce
  show ?thesis
  proof (cases f)
    case (Inl err)
    then show ?thesis using m st f fcu [OF f] n a by (simp add: make_unsafe_head_def Let_def)
  next
    case (Inr res)
    have c: "checkForkchoiceUpdatedStatus e (fr_Status res) = (fr_Status res = ExecutionValid, e)"
      using st by (simp add: checkForkchoiceUpdatedStatus_def)
    show ?thesis
    proof (cases "fr_Status res = ExecutionValid")
      case True
      then have "e' = SetUnsafeHead (e\<lparr>ec_needFCUCall := False\<rparr>) ref"
        using m st f Inr c by (auto simp: make_unsafe_head_def Let_def checkUpdateUnsafeHead_def setter_defs)
      then show ?thesis using n by simp
    next
      case False
      then have "e' = e" "w' = w1" using m st f Inr c by (auto simp: make_unsafe_head_def Let_def)
      then show ?thesis using fcu [OF f] Inr False n a by simp
    qed
  qed
qed

lemma InsertUnsafePayload_agrees:
  assumes i: "InsertUnsafePayload eng e envelope ref w = Some (r, e', w')" and n: "cl_node e" and a: "agrees e (told w)"
  shows "cl_node e' \<and> agrees e' (told w')"
proof -
  have st: "start_EL eng e ref w = (Inr (), e, w)" using n by (simp add: start_EL_def cl_node_def)
  obtain s err w1 where np: "en_NewPayload eng (env_Payload envelope) (env_ParentBeaconBlockRoot envelope) w = ((s, err), w1)"
    by (metis prod.exhaust)
  have a1: "agrees e (told w1)" using a new_payload [OF np] by simp
  have "r = Some (NewTemporaryError (Some (Wrap ''failed to update insert payload'' (the err)))) \<and> e' = e \<and> w' = w1 \<or>
      (\<exists>status. after_new_payload eng e envelope ref status err w1 = (r, e', w'))"
    using i st np by (auto simp: InsertUnsafePayload_def split: if_splits option.splits)
  then show ?thesis
  proof (elim disjE exE conjE)
    fix status
    assume an: "after_new_payload eng e envelope ref status err w1 = (r, e', w')"
    obtain q e2 w2 where q: "(if status = ExecutionInconsistent \<or> checkELSyncTriggered e status err
                       then sync_inconsistent eng e w1 else (Inr (False, False), e, w1)) = (q, e2, w2)" by (metis prod.exhaust)
    have e2: "cl_node e2 \<and> agrees e2 (told w2)"
    proof (cases "status = ExecutionInconsistent \<or> checkELSyncTriggered e status err")
      case True
      then show ?thesis using q sync_inconsistent_agrees [OF _ n a1] by simp
    next
      case False
      then show ?thesis using q n a1 by auto
    qed
    obtain ok where ck: "checkNewPayloadStatus e2 status = (ok, e2)"
      using e2 by (cases "status = ExecutionInconsistent") (auto simp: checkNewPayloadStatus_def cl_node_def)
    show ?thesis
    proof (cases q)
      case (Inl x)
      then show ?thesis using an q e2 by (simp add: after_new_payload_def)
    next
      case (Inr needs)
      obtain fc e3 w3 where ad: "adopt_engine_heads eng e2 needs ((node_fc e2)\<lparr>fc_Head := ep_BlockHash (env_Payload envelope)\<rparr>) w2 = (fc, e3, w3)"
        by (metis prod.exhaust)
      note e3 = adopt_engine_heads_agrees [OF ad conjunct1 [OF e2] conjunct2 [OF e2]]
      show ?thesis
      proof (cases ok)
        case True
        then have "make_unsafe_head eng e3 fc envelope ref w3 = (r, e', w')"
          using an ck ad unfolding after_new_payload_def q Let_def Inr by simp
        then show ?thesis using make_unsafe_head_agrees e3 by blast
      next
        case False
        then have "e' = e2" "w' = w2" using an ck unfolding after_new_payload_def q Let_def Inr by auto
        then show ?thesis using e2 by simp
      qed
    qed
  qed (use n a1 in auto)
qed

lemma TryBackupUnsafeReorg_agrees:
  assumes t: "TryBackupUnsafeReorg eng e w = (r, e', w')" and n: "cl_node e" and a: "agrees e (told w)"
  shows "cl_node e' \<and> agrees e' (told w')"
proof -
  obtain s e1 where s: "shouldTryBackupUnsafeReorg e = (s, e1)" by fastforce
  have e1: "cl_node e1" "agrees e1 (told w)"
    using s n a by (auto simp: shouldTryBackupUnsafeReorg_def split: if_splits)
  show ?thesis
  proof (cases s)
    case True
    let ?e = "e1\<lparr>ec_needFCUCallForBackupUnsafeReorg := False\<rparr>"
    obtain f w1 where f: "en_ForkchoiceUpdate eng ((node_fc ?e)\<lparr>fc_Head := l2_Hash (ec_backupUnsafeHead ?e)\<rparr>) None w = (f, w1)"
      by fastforce
    note t = t [unfolded TryBackupUnsafeReorg_def s True Let_def f prod.case bool.case]
    show ?thesis
    proof (cases f)
      case (Inl err)
      then show ?thesis using t True fcu [OF f] e1 by (auto split: if_splits)
    next
      case (Inr res)
      then show ?thesis using t True fcu [OF f] e1 by (auto split: if_splits)
    qed
  qed (use t s e1 in \<open>auto simp: TryBackupUnsafeReorg_def\<close>)
qed

lemma TryUpdateEngine_agrees:
  assumes "TryUpdateEngine eng e w = (r, e', w')" "cl_node e" "agrees e (told w)"
    and "\<forall>res. fst (en_ForkchoiceUpdate eng (node_fc e) None w) = Inr res \<longrightarrow> fr_Status res = ExecutionValid"
  shows "cl_node e' \<and> agrees e' (told w')"
proof -
  obtain f w1 where f: "en_ForkchoiceUpdate eng (node_fc e) None w = (f, w1)" by fastforce
  show ?thesis
    using assms fcu [OF f] f by (cases f) (auto simp: TryUpdateEngine_def agrees_def node_fc_def split: if_splits)
qed

lemma CancelPayload_agrees:
  assumes "CancelPayload eng e force w = (r, e', w')" "cl_node e" "agrees e (told w)"
  shows "cl_node e' \<and> agrees e' (told w')"
proof -
  obtain g w1 where g: "en_GetPayload eng (ec_buildingInfo e) w = (g, w1)" by fastforce
  show ?thesis
    using assms get_payload [OF g] g by (cases g) (auto simp: CancelPayload_def split: if_splits)
qed

lemma StartPayload_told:
  assumes "StartPayload eng e parent attrs updateSafe w = (r, e', w')" "cl_node e"
  shows "cl_node e' \<and> node_fc e' = node_fc e \<and> ec_needFCUCall e' = ec_needFCUCall e \<and>
    (told w' = told w \<or> told w' = Some ((node_fc e)\<lparr>fc_Head := l2_Hash parent\<rparr>))"
proof -
  let ?fc = "(node_fc e)\<lparr>fc_Head := l2_Hash parent\<rparr>"
  obtain s w1 where s: "startPayload eng ?fc (awp_Attributes attrs) w = (s, w1)" by fastforce
  have t: "told w1 = told w \<or> told w1 = Some ?fc"
    using startPayload_told [OF s] by (cases s) auto
  have eq: "StartPayload eng e parent attrs updateSafe w = (if IsEngineSyncing e then (Some (BlockInsertTemporaryErr, Msg ''engine is in progess of p2p sync''), e, w)
      else (case (s, w1) of
           (Inl err, w) \<Rightarrow> (Some err, e, w)
         | (Inr pid, w) \<Rightarrow>
             (None,
              e\<lparr>ec_buildingInfo := \<lparr>pi_ID = pid, pi_Timestamp = pa_Timestamp (awp_Attributes attrs)\<rparr>,
                ec_buildingSafe := updateSafe, ec_buildingOnto := parent,
                ec_safeAttrs := (if updateSafe then Some attrs else ec_safeAttrs e)\<rparr>, w)))"
    using s by (simp add: StartPayload_def node_fc_def)
  show ?thesis
    using assms t unfolding eq by (cases s) (auto simp: cl_node_def node_fc_def split: if_splits)
qed

end

text \<open>The calls of the driver, the engine queue and the sequencer on a node that is driven block by block, with the log
  of what the engine has accepted. A block that is built anywhere but on the unsafe head is a step only
  together with its insertion, and the answer of \<open>TryUpdateEngine\<close> must be VALID or an error.\<close>

inductive ec_run :: "'w ExecEngine \<Rightarrow> EngineController \<Rightarrow> ForkchoiceState option \<times> 'w \<Rightarrow> bool" for eng where
  start: "sc_SyncMode sc = CLSync \<Longrightarrow> ec_run eng (SetUnsafeHead (NewEngineController cfg sc False) head) (None, w)"
| finalized: "ec_run eng e w \<Longrightarrow> ec_run eng (SetFinalizedHead e r) w"
| safe: "ec_run eng e w \<Longrightarrow> ec_run eng (SetSafeHead e r) w"
| pending: "ec_run eng e w \<Longrightarrow> ec_run eng (SetPendingSafeL2Head e r) w"
| unsafe: "ec_run eng e w \<Longrightarrow> ec_run eng (SetUnsafeHead e r) w"
| backup: "ec_run eng e w \<Longrightarrow> ec_run eng (SetBackupUnsafeL2Head e r b) w"
| reset_building: "ec_run eng e w \<Longrightarrow> ec_run eng (resetBuildingState e) w"
| update: "ec_run eng e w \<Longrightarrow> TryUpdateEngine (logged eng) e w = (x, e', w') \<Longrightarrow>
    \<forall>res. fst (en_ForkchoiceUpdate (logged eng) (node_fc e) None w) = Inr res \<longrightarrow> fr_Status res = ExecutionValid \<Longrightarrow>
    ec_run eng e' w'"
| reorg: "ec_run eng e w \<Longrightarrow> TryBackupUnsafeReorg (logged eng) e w = (y, e', w') \<Longrightarrow> ec_run eng e' w'"
| insert: "ec_run eng e w \<Longrightarrow> InsertUnsafePayload (logged eng) e envelope ref w = Some (x, e', w') \<Longrightarrow> ec_run eng e' w'"
| cancel: "ec_run eng e w \<Longrightarrow> CancelPayload (logged eng) e force w = (x, e', w') \<Longrightarrow> ec_run eng e' w'"
| start_block: "ec_run eng e w \<Longrightarrow> StartPayload (logged eng) e parent attrs updateSafe w = (z, e', w') \<Longrightarrow>
    l2_Hash parent = l2_Hash (ec_unsafeHead e) \<Longrightarrow> ec_run eng e' w'"
| confirm: "ec_run eng e w \<Longrightarrow> ConfirmPayload sealFirst keccak256 decodeTx (logged eng) e g w = Some (c, e', g', w') \<Longrightarrow>
    \<forall>err. c \<noteq> Inl (BlockInsertPayloadErr, NewResetError err) \<Longrightarrow> ec_run eng e' w'"
| build_block: "ec_run eng e w \<Longrightarrow> StartPayload (logged eng) e parent attrs updateSafe w = (z, e1, w1) \<Longrightarrow>
    ConfirmPayload sealFirst keccak256 decodeTx (logged eng) e1 g w1 = Some (Inr envelope, e', g', w') \<Longrightarrow> ec_run eng e' w'"

lemma ec_run_agrees: "ec_run eng e w \<Longrightarrow> cl_node e \<and> agrees e (fst w)"
proof (induction rule: ec_run.induct)
  case (start sc cfg head w)
  then show ?case by (simp add: cl_node_def NewEngineController_def SetUnsafeHead_def agrees_def)
next
  case (start_block e w parent attrs updateSafe z e' w')
  then show ?case
    using logged.StartPayload_told [OF start_block.hyps(2)] by (auto simp: agrees_def node_fc_def)
next
  case (build_block e w parent attrs updateSafe z e1 w1 sealFirst keccak256 decodeTx g envelope e' g' w')
  then show ?case
    using logged.StartPayload_told [OF build_block.hyps(2)] logged.ConfirmPayload_agrees [OF build_block.hyps(3)] by auto
next
  case (update e w x e' w')
  then show ?case using logged.TryUpdateEngine_agrees [OF update.hyps(2)] by blast
next
  case (reorg e w y e' w')
  then show ?case using logged.TryBackupUnsafeReorg_agrees [OF reorg.hyps(2)] by blast
next
  case (insert e w envelope ref x e' w')
  then show ?case using logged.InsertUnsafePayload_agrees [OF insert.hyps(2)] by blast
next
  case (cancel e w force x e' w')
  then show ?case using logged.CancelPayload_agrees [OF cancel.hyps(2)] by blast
next
  case (confirm e w sealFirst keccak256 decodeTx g c e' g' w')
  then show ?case using logged.ConfirmPayload_agrees [OF confirm.hyps(2) _ confirm.hyps(3)] by blast
qed simp_all


text \<open>The status of a forkchoice update is not looked at when the heads are synced. When the engine answers
  without an error, TryUpdateEngine succeeds and does not call again, also when the status is INVALID or SYNCING and the
  engine has not accepted the heads.\<close>

theorem TryUpdateEngine_ignores_status:
  assumes "ec_needFCUCall e" "en_ForkchoiceUpdate eng (node_fc e) None w = (Inr res, w')" "fr_Status res \<noteq> ExecutionValid"
  shows "TryUpdateEngine (logged eng) e (l, w) = (None, e\<lparr>ec_needFCUCall := False\<rparr>, (l, w')) \<and>
    TryUpdateEngine (logged eng) (e\<lparr>ec_needFCUCall := False\<rparr>) (l, w') = (Some ErrNoFCUNeeded, e\<lparr>ec_needFCUCall := False\<rparr>, (l, w'))"
  using assms by (simp add: TryUpdateEngine_def logged_def)

lemma gap_wraps:
  fixes a b :: u64
  assumes "a < b" "unat (b - a) < 2 ^ 63" "0 \<le> gap" "gap < 2 ^ 63"
  shows "word_of_int gap < a - b"
proof -
  have "int (unat (b - a)) < int (2 ^ 63)" using assms(2) by (simp only: of_nat_less_iff)
  then have s: "uint (b - a) < 2 ^ 63" by simp
  have "uint (b - a) = uint b - uint a" "uint (a - b) = uint a - uint b + 2 ^ 64"
    using assms(1) by (simp_all add: uint_sub_if' word_less_def)
  then have "uint (a - b) = 2 ^ 64 - uint (b - a)" by simp
  moreover have "uint (word_of_int gap :: u64) = gap" using assms(3,4) by (simp add: uint_word_of_int take_bit_eq_mod)
  ultimately show ?thesis using s assms(4) by (simp add: word_less_def)
qed

text \<open>C31: A late block starts EL sync. The gap to the head of the engine is computed without sign: when the first unsafe
  payload is older than the head of the engine, by any number of blocks below two to the 63, the node takes it for a gap
  above the trigger and starts EL sync, although the engine has a finalized block.\<close>

theorem late_block_starts_EL:
  assumes "ec_syncStatus e = syncStatusWillStartEL" "0 \<le> ec_elTriggerGap e" "ec_elTriggerGap e < 2 ^ 63"
    and "en_L2BlockRefByLabel eng LabelFinalized w = (Inr finalized, w1)" "GetCurrentUnsafeHead eng e w1 = (head, w2)"
    and "l2_Number ref < l2_Number head" "unat (l2_Number head - l2_Number ref) < 2 ^ 63"
  shows "start_EL eng e ref w = (Inr (), e\<lparr>ec_syncStatus := syncStatusStartedEL\<rparr>, w2)"
  using assms gap_wraps [OF assms(6,7,2,3)] by (simp add: start_EL_def Let_def)

lemma sync_attempts_result:
  "sync_attempts n eng e fcuReq w = (Inr b, e', w') \<Longrightarrow> b \<and> e' = e\<lparr>ec_needFCUCall := False\<rparr>"
  by (induction n arbitrary: w) (auto split: prod.splits sum.splits if_splits)

text \<open>C27: A forgotten sync can lose the unsafe head. When the engine asks for a forced head and takes the heads of the node,
  a node that syncs block by block returns an error with the mark to sync still set; when the engine then cannot say what its
  head is during the insertion of the next, valid payload, that error is ignored, the engine is told the zero hash and
  the unsafe head of the node is the zero block.\<close>

theorem forgotten_sync_zero_head:
  assumes "ec_syncMode e = CLSync" "ec_syncStatus e = syncStatusCL"
    and "en_NewPayload eng (env_Payload envelope1) (env_ParentBeaconBlockRoot envelope1) w = ((Some ExecutionSyncing, Some err), w1)"
    and "string_Contains (Error_text err) (Error_text ErrELSyncTriggerUnexpected)"
    and "sync_inconsistent eng e w1 = (Inr needs, e2, w2)"
    and "en_NewPayload eng (env_Payload envelope2) (env_ParentBeaconBlockRoot envelope2) w2 = ((Some ExecutionValid, None), w3)"
    and "en_L2BlockRefByLabel eng LabelUnsafe w3 = (Inl err', w4)"
    and "en_ForkchoiceUpdate eng ((node_fc e2)\<lparr>fc_Head := 0\<rparr>) None w4 = (Inr res, w5)" "fr_Status res \<noteq> ExecutionValid"
  shows "\<exists>r1 r2 e3. InsertUnsafePayload eng e envelope1 ref1 w = Some (Some (NewTemporaryError r1), e2, w2) \<and>
    InsertUnsafePayload eng e2 envelope2 ref2 w2 = Some (Some (NewTemporaryError r2), e3, w5) \<and>
    ec_unsafeHead e3 = zero_L2BlockRef"
proof -
  obtain info w1' needs' e1 where i: "getCurrentL2Info eng w1 = (Inr info, w1')" "resetSafeAndFinalizedHead e info = (needs', e1)"
    using assms(5) by (auto simp: sync_inconsistent_def split: prod.splits sum.splits)
  obtain need e1' where t: "trySyncingWithEngine eng e1 (node_fc e1) w1' = (Inr need, e1', w2)" and
    e2: "e2 = e1'\<lparr>ec_needSyncWithEngine := need\<rparr>"
    using assms(5) i by (auto simp: sync_inconsistent_def split: prod.splits sum.splits)
  have "need \<and> e1' = e1\<lparr>ec_needFCUCall := False\<rparr>"
    using t unfolding trySyncingWithEngine_def by (rule sync_attempts_result)
  then have e2: "ec_needSyncWithEngine e2" "ec_syncMode e2 = CLSync" "ec_syncStatus e2 = syncStatusCL"
    using e2 i(2) assms(1,2) by (auto simp: resetSafeAndFinalizedHead_def Let_def setter_defs split: if_splits)
  have st: "start_EL eng e ref1 w = (Inr (), e, w)" "start_EL eng e2 ref2 w2 = (Inr (), e2, w2)"
    using assms(2) e2(3) by (simp_all add: start_EL_def)
  have ck: "checkELSyncTriggered e ExecutionSyncing (Some err)" using assms(1,4) by (simp add: checkELSyncTriggered_def)
  have "after_new_payload eng e envelope1 ref1 ExecutionSyncing (Some err) w1 =
      (Some (NewTemporaryError (Some (Wrap ''cannot process unsafe payload'' (the (NewPayloadErr ExecutionSyncing))))), e2, w2)"
    using ck assms(5) e2 by (simp add: after_new_payload_def checkNewPayloadStatus_def status_defs)
  then have 1: "InsertUnsafePayload eng e envelope1 ref1 w =
      Some (Some (NewTemporaryError (Some (Wrap ''cannot process unsafe payload'' (the (NewPayloadErr ExecutionSyncing))))), e2, w2)"
    using st(1) assms(3,4) by (simp add: InsertUnsafePayload_def)
  define e3 where "e3 = (SetUnsafeHead e2 zero_L2BlockRef)\<lparr>ec_needSyncWithEngine := False\<rparr>"
  obtain fc e3' where ad: "adopt_engine_heads eng e2 (False, False) ((node_fc e2)\<lparr>fc_Head := ep_BlockHash (env_Payload envelope2)\<rparr>) w3 =
      ((node_fc e2)\<lparr>fc_Head := 0\<rparr>, e3, w4)"
    using e2(1) assms(7) by (auto simp: adopt_engine_heads_def e3_def Let_def zero_L2BlockRef_def)
  have "make_unsafe_head eng e3 ((node_fc e2)\<lparr>fc_Head := 0\<rparr>) envelope2 ref2 w4 =
      (Some (NewTemporaryError (Some (Wrap ''cannot prepare unsafe chain for new payload'' (the (ForkchoiceUpdateErr (fr_Status res)))))), e3, w5)"
    using e2 assms(8,9) by (simp add: make_unsafe_head_def Let_def checkForkchoiceUpdatedStatus_def e3_def setter_defs)
  then have "after_new_payload eng e2 envelope2 ref2 ExecutionValid None w3 =
      (Some (NewTemporaryError (Some (Wrap ''cannot prepare unsafe chain for new payload'' (the (ForkchoiceUpdateErr (fr_Status res)))))), e3, w5)"
    using ad e2 by (simp add: after_new_payload_def checkNewPayloadStatus_def checkELSyncTriggered_def status_defs)
  then have 2: "InsertUnsafePayload eng e2 envelope2 ref2 w2 =
      Some (Some (NewTemporaryError (Some (Wrap ''cannot prepare unsafe chain for new payload'' (the (ForkchoiceUpdateErr (fr_Status res)))))), e3, w5)"
    using st(2) assms(6) by (simp add: InsertUnsafePayload_def)
  show ?thesis using 1 2 by (auto simp: e3_def setter_defs)
qed

section \<open>Witnesses\<close>

definition eng_block :: "u64 \<Rightarrow> L2BlockRef" where
  "eng_block n = \<lparr>l2_Hash = ucast n + 500, l2_Number = n, l2_ParentHash = ucast n + 499, l2_Time = n, l2_MilliTime = 0,
     l2_L1Origin = \<lparr>bid_Hash = 9, bid_Number = 1\<rparr>, l2_SequenceNumber = n\<rparr>"

definition eng_config :: "Mode \<Rightarrow> SyncConfig" where
  "eng_config mode = \<lparr>sc_SyncMode = mode, sc_SkipSyncStartCheck = False, sc_ELTriggerGap = 86400\<rparr>"

text \<open>An engine with three phases: it asks for a forced head, accepts it, and then answers as it is told to.\<close>

definition phase_engine :: "PStatus \<Rightarrow> nat ExecEngine" where
  "phase_engine status =
     \<lparr>en_GetPayload = (\<lambda>info w. (Inl (Msg ''unknown payload''), w)),
      en_ForkchoiceUpdate = (\<lambda>fc attrs w. (Inr \<lparr>fr_Status = (if w = 1 then ExecutionValid else status), fr_PayloadID = Some 7\<rparr>, w)),
      en_NewPayload = (\<lambda>payload root w. if w = 0 then ((Some ExecutionSyncing, Some (Wrap ''rpc'' ErrELSyncTriggerUnexpected)), 1)
         else ((Some ExecutionValid, None), 2)),
      en_SealPayload = (\<lambda>info fc w. ((None, [], None), w)),
      en_L2BlockRefByLabel = (\<lambda>label w. if w = 2 then (Inl (Msg ''timeout''), w)
         else (Inr (if label = LabelUnsafe then eng_block 1000 else eng_block 5), w)),
      en_CommitUnsafePayload = (\<lambda>envelope w. (None, w)), en_PublishL2Payload = (\<lambda>envelope w. (None, w))\<rparr>"


theorem TryUpdateEngine_ignores_status_witness:
  "fst (TryUpdateEngine (logged (phase_engine ExecutionInvalid))
     (SetUnsafeHead (NewEngineController OPBNBMainnet (eng_config CLSync) False) (eng_block 3)) (None, 0)) = None"
proof -
  let ?e = "SetUnsafeHead (NewEngineController OPBNBMainnet (eng_config CLSync) False) (eng_block 3)"
  have n: "ec_needFCUCall ?e" by (simp add: SetUnsafeHead_def)
  have f: "en_ForkchoiceUpdate (phase_engine ExecutionInvalid) (node_fc ?e) None 0 =
      (Inr \<lparr>fr_Status = ExecutionInvalid, fr_PayloadID = Some 7\<rparr>, 0)" by (simp add: phase_engine_def)
  have "fr_Status \<lparr>fr_Status = ExecutionInvalid, fr_PayloadID = Some 7\<rparr> \<noteq> ExecutionValid" by (simp add: status_defs)
  from TryUpdateEngine_ignores_status [OF n f this, of None] show ?thesis by simp
qed

theorem late_block_starts_EL_witness:
  "ec_syncStatus (fst (snd (start_EL (phase_engine ExecutionValid)
     (NewEngineController OPBNBMainnet (eng_config ELSync) False) (eng_block 999) 0))) = syncStatusStartedEL"
proof -
  let ?e = "NewEngineController OPBNBMainnet (eng_config ELSync) False"
  have "start_EL (phase_engine ExecutionValid) ?e (eng_block 999) 0 = (Inr (), ?e\<lparr>ec_syncStatus := syncStatusStartedEL\<rparr>, 0)"
    by (rule late_block_starts_EL [where finalized = "eng_block 5" and ?w1.0 = 0 and head = "eng_block 1000"])
      (simp_all add: NewEngineController_def eng_config_def phase_engine_def GetCurrentUnsafeHead_def zero_L2BlockRef_def eng_block_def)
  then show ?thesis by simp
qed

definition eng_envelope :: Envelope where
  "eng_envelope = \<lparr>env_ParentBeaconBlockRoot = None, env_Payload = \<lparr>ep_ParentHash = 503, ep_PrevRandao = 0, ep_BlockNumber = 4,
     ep_GasLimit = 30, ep_Timestamp = 4, ep_BlockHash = 504, ep_Transactions = [[DepositTxType]],
     ep_FeeRecipient = 1, ep_Withdrawals = None\<rparr>\<rparr>"

theorem forgotten_sync_zero_head_witness:
  "\<exists>e e3 r. InsertUnsafePayload (phase_engine ExecutionInvalid) e eng_envelope (eng_block 4) 1 = Some (Some (NewTemporaryError r), e3, 2) \<and>
     ec_unsafeHead e = eng_block 1000 \<and> ec_unsafeHead e3 = zero_L2BlockRef"
proof -
  let ?eng = "phase_engine ExecutionInvalid"
  let ?e = "NewEngineController OPBNBMainnet (eng_config CLSync) False"
  obtain needs e2 where s: "sync_inconsistent ?eng ?e 1 = (Inr needs, e2, 1)" "ec_unsafeHead e2 = eng_block 1000"
    by (simp add: sync_inconsistent_def getCurrentL2Info_def phase_engine_def Let_def trySyncingWithEngine_def
        maxFCURetryAttempts_def numeral_eq_Suc resetSafeAndFinalizedHead_def setter_defs eng_block_def)
  have "\<exists>r1 r2 e3. InsertUnsafePayload ?eng ?e eng_envelope (eng_block 4) 0 = Some (Some (NewTemporaryError r1), e2, 1) \<and>
    InsertUnsafePayload ?eng e2 eng_envelope (eng_block 4) 1 = Some (Some (NewTemporaryError r2), e3, 2) \<and>
    ec_unsafeHead e3 = zero_L2BlockRef"
    by (rule forgotten_sync_zero_head [OF _ _ _ _ s(1), where err = "Wrap ''rpc'' ErrELSyncTriggerUnexpected"
          and ?w3.0 = 2 and err' = "Msg ''timeout''" and ?w4.0 = 2 and res = "\<lparr>fr_Status = ExecutionInvalid, fr_PayloadID = Some 7\<rparr>"])
      (simp_all add: NewEngineController_def eng_config_def phase_engine_def status_defs ErrELSyncTriggerUnexpected_def)
  then show ?thesis using s(2) by blast
qed

end
