(* ===== verification/AttributesHandler.thy ===== *)
theory AttributesHandler
  imports EngineControl
begin

text \<open>
  The attributes handler, op-node/rollup/attributes (attributes.go, engine_consolidate.go): the payload attributes
  derived from L1 are compared with the block the engine already has, or else built and inserted, and the pending safe
  and safe heads follow. The comparison's help for debugging (\<open>logL1InfoTxns\<close>, \<open>getMissingTxnHashes\<close>) only logs and
  is left out.
\<close>

section \<open>Consolidation\<close>

definition checkParentBeaconBlockRootMatch :: "Hash option \<Rightarrow> Hash option \<Rightarrow> gerr option" where
  "checkParentBeaconBlockRootMatch attrRoot blockRoot =
     (case blockRoot of
        None \<Rightarrow> (case attrRoot of Some _ \<Rightarrow> Some (Msg ''expected non-nil parent beacon block root but got nil'') | None \<Rightarrow> None)
      | Some b \<Rightarrow>
          (case attrRoot of
             None \<Rightarrow> Some (Msg ''expected nil parent beacon block root but got non-nil'')
           | Some a \<Rightarrow> if b \<noteq> a then Some (Msg ''parent beacon block root does not match'') else None))"

text \<open>The loops over two lists of the same length.\<close>

fun withdrawals_differ :: "Withdrawals \<Rightarrow> Withdrawals \<Rightarrow> bool" where
  "withdrawals_differ (expected # es) (actual # acts) \<longleftrightarrow> expected \<noteq> actual \<or> withdrawals_differ es acts"
| "withdrawals_differ _ _ \<longleftrightarrow> False"

fun txs_differ :: "bytes list \<Rightarrow> bytes list \<Rightarrow> bool" where
  "txs_differ (otx # otxs) (expect # expects) \<longleftrightarrow> otx \<noteq> expect \<or> txs_differ otxs expects"
| "txs_differ _ _ \<longleftrightarrow> False"

definition checkWithdrawalsMatch :: "Withdrawals option \<Rightarrow> Withdrawals option \<Rightarrow> gerr option" where
  "checkWithdrawalsMatch attrWithdrawals blockWithdrawals =
     (case (attrWithdrawals, blockWithdrawals) of
        (None, None) \<Rightarrow> None
      | (None, Some _) \<Rightarrow> Some (Msg ''expected withdrawals in block to be nil'')
      | (Some _, None) \<Rightarrow> Some (Msg ''expected withdrawals in block to be non-nil'')
      | (Some a, Some b) \<Rightarrow>
          if length a \<noteq> length b then Some (Msg ''expected withdrawals in block to be of another length'')
          else if withdrawals_differ a b then Some (Msg ''expected another withdrawal'') else None)"

definition AttributesMatchBlock :: "PayloadAttributes \<Rightarrow> Hash \<Rightarrow> Envelope \<Rightarrow> gerr option" where
  "AttributesMatchBlock attrs parentHash envelope =
     (let block = env_Payload envelope in
      if parentHash \<noteq> ep_ParentHash block then Some (Msg ''parent hash field does not match'')
      else if pa_Timestamp attrs \<noteq> ep_Timestamp block then Some (Msg ''timestamp field does not match'')
      else if pa_PrevRandao attrs \<noteq> ep_PrevRandao block then Some (Msg ''random field does not match'')
      else if length (pa_Transactions attrs) \<noteq> length (ep_Transactions block) then Some (Msg ''transaction count does not match'')
      else if txs_differ (pa_Transactions attrs) (ep_Transactions block) then Some (Msg ''transaction does not match'')
      else
        (case pa_GasLimit attrs of
           None \<Rightarrow> Some (Msg ''expected gaslimit in attributes to not be nil'')
         | Some gasLimit \<Rightarrow>
             if gasLimit \<noteq> ep_GasLimit block then Some (Msg ''gas limit does not match'')
             else
               (case checkWithdrawalsMatch (pa_Withdrawals attrs) (ep_Withdrawals block) of
                  Some err \<Rightarrow> Some err
                | None \<Rightarrow>
                    (case checkParentBeaconBlockRootMatch (pa_ParentBeaconBlockRoot attrs) (env_ParentBeaconBlockRoot envelope) of
                       Some err \<Rightarrow> Some err
                     | None \<Rightarrow>
                         if pa_SuggestedFeeRecipient attrs \<noteq> ep_FeeRecipient block then Some (Msg ''fee recipient data does not match'')
                         else None))))"

lemma withdrawals_differ_iff: "length a = length b \<Longrightarrow> withdrawals_differ a b \<longleftrightarrow> a \<noteq> b"
  by (induction a b rule: list_induct2) auto

lemma txs_differ_iff: "length a = length b \<Longrightarrow> txs_differ a b \<longleftrightarrow> a \<noteq> b"
  by (induction a b rule: list_induct2) auto

lemma checkWithdrawalsMatch_iff: "checkWithdrawalsMatch a b = None \<longleftrightarrow> a = b"
  by (cases a; cases b) (auto simp: checkWithdrawalsMatch_def withdrawals_differ_iff)

lemma checkParentBeaconBlockRootMatch_iff: "checkParentBeaconBlockRootMatch a b = None \<longleftrightarrow> a = b"
  by (cases a; cases b) (auto simp: checkParentBeaconBlockRootMatch_def)

text \<open>C22: A block of the unsafe chain is taken for the block derived from L1 exactly when it is on the given parent and
  every field that the attributes determine is the same: the timestamp and the milliseconds in the random field, all
  transactions in their order, gas limit, withdrawals, beacon root and fee recipient.\<close>

theorem AttributesMatchBlock_iff:
  "AttributesMatchBlock attrs parentHash envelope = None \<longleftrightarrow>
     attrs = \<lparr>pa_Timestamp = ep_Timestamp (env_Payload envelope), pa_PrevRandao = ep_PrevRandao (env_Payload envelope),
       pa_SuggestedFeeRecipient = ep_FeeRecipient (env_Payload envelope), pa_Withdrawals = ep_Withdrawals (env_Payload envelope),
       pa_ParentBeaconBlockRoot = env_ParentBeaconBlockRoot envelope, pa_Transactions = ep_Transactions (env_Payload envelope),
       pa_NoTxPool = pa_NoTxPool attrs, pa_GasLimit = Some (ep_GasLimit (env_Payload envelope))\<rparr> \<and>
     parentHash = ep_ParentHash (env_Payload envelope)"
proof -
  obtain ts rd fr wd rt txs np gl where a: "attrs = \<lparr>pa_Timestamp = ts, pa_PrevRandao = rd, pa_SuggestedFeeRecipient = fr,
      pa_Withdrawals = wd, pa_ParentBeaconBlockRoot = rt, pa_Transactions = txs, pa_NoTxPool = np, pa_GasLimit = gl\<rparr>"
    by (cases attrs) auto
  show ?thesis
  proof (cases "length txs = length (ep_Transactions (env_Payload envelope))")
    case True
    then show ?thesis
      using txs_differ_iff [OF True] checkWithdrawalsMatch_iff [of wd "ep_Withdrawals (env_Payload envelope)"]
        checkParentBeaconBlockRootMatch_iff [of rt "env_ParentBeaconBlockRoot envelope"]
      unfolding AttributesMatchBlock_def Let_def a
      by (auto split: option.splits)
  next
    case False
    then show ?thesis by (auto simp: AttributesMatchBlock_def Let_def a)
  qed
qed

section \<open>The handler\<close>

record AttributesHandler =
  ah_cfg :: Config
  ah_attributes :: "AttributesWithParent option"

definition NewAttributesHandler :: "Config \<Rightarrow> AttributesHandler" where
  "NewAttributesHandler cfg = \<lparr>ah_cfg = cfg, ah_attributes = None\<rparr>"

definition HasAttributes :: "AttributesHandler \<Rightarrow> bool" where "HasAttributes ah \<longleftrightarrow> ah_attributes ah \<noteq> None"

definition SetAttributes :: "AttributesHandler \<Rightarrow> AttributesWithParent option \<Rightarrow> AttributesHandler" where
  "SetAttributes ah attributes = ah\<lparr>ah_attributes := attributes\<rparr>"

text \<open>The handler inserts without a conductor.\<close>

definition NoOpConductor :: "'w ExecEngine \<Rightarrow> 'w ExecEngine" where
  "NoOpConductor eng = eng\<lparr>en_CommitUnsafePayload := (\<lambda>_ w. (None, w))\<rparr>"

definition depositCount :: "bytes list \<Rightarrow> nat" where
  "depositCount txs = length (filter (\<lambda>tx. length tx > 0 \<and> tx ! 0 = DepositTxType) txs)"

text \<open>The errors of building or inserting, by their type.\<close>

definition force_error :: "'w ExecEngine \<Rightarrow> AttributesWithParent \<Rightarrow> BlockInsertionErrType \<Rightarrow> gerr \<Rightarrow> EngineController \<Rightarrow> 'w
    \<Rightarrow> gerr option \<times> EngineController \<times> 'w" where
  "force_error eng attributes errType err e w =
     (case errType of
        BlockInsertTemporaryErr \<Rightarrow> (Some (NewTemporaryError (Some (Wrap ''temporarily cannot insert new safe block'' err))), e, w)
      | BlockInsertPrestateErr \<Rightarrow>
          (case CancelPayload eng e True w of
             (_, e, w) \<Rightarrow> (Some (NewResetError (Some (Wrap ''need reset to resolve pre-state problem'' err))), e, w))
      | BlockInsertPayloadErr \<Rightarrow>
          if string_Contains (Error_text err) ''INCONSISTENT'' then
            (Some (NewTemporaryError (Some (Wrap ''temporarily cannot insert new safe block'' err))), e, w)
          else
            (case CancelPayload eng e True w of
               (_, e, w) \<Rightarrow>
                 (let txs = pa_Transactions (awp_Attributes attributes) in
                  if length txs = depositCount txs then
                    (Some (NewCriticalError (Some (Wrap ''failed to process block with only deposit transactions'' err))), e, w)
                  else
                    (let e = SetPendingSafeL2Head e (ec_safeHead e)
                     in (None, SetBackupUnsafeL2Head e (ec_backupUnsafeHead e) True, w))))
      | BlockInsertOK \<Rightarrow> (Some (NewCriticalError (Some (Wrap ''unknown InsertHeadBlock error type'' err))), e, w))"

definition forceNextSafeAttributes :: "keccak \<Rightarrow> txDecoder \<Rightarrow> 'w ExecEngine \<Rightarrow> EngineController \<Rightarrow> AttributesWithParent \<Rightarrow> 'w
    \<Rightarrow> (gerr option \<times> EngineController \<times> 'w) go" where
  "forceNextSafeAttributes keccak256 decodeTx eng e attributes w =
     (case StartPayload eng e (ec_pendingSafeHead e) attributes True w of
        (Some (errType, err), e, w) \<Rightarrow> Some (force_error eng attributes errType err e w)
      | (None, e, w) \<Rightarrow>
          (case ConfirmPayload True keccak256 decodeTx (NoOpConductor eng) e NoOpGossiper w of
             None \<Rightarrow> None
           | Some (Inl (errType, err), e, _, w) \<Rightarrow> Some (force_error eng attributes errType err e w)
           | Some (Inr _, e, _, w) \<Rightarrow> Some (None, e, w)))"

definition consolidateNextSafeAttributes :: "keccak \<Rightarrow> txDecoder \<Rightarrow> (u64 \<Rightarrow> 'w \<Rightarrow> Envelope res \<times> 'w) \<Rightarrow> 'w ExecEngine
    \<Rightarrow> AttributesHandler \<Rightarrow> EngineController \<Rightarrow> AttributesWithParent \<Rightarrow> 'w \<Rightarrow> (gerr option \<times> EngineController \<times> 'w) go" where
  "consolidateNextSafeAttributes keccak256 decodeTx payloadByNumber eng ah e attributes w =
     (case payloadByNumber (l2_Number (ec_pendingSafeHead e) + 1) w of
        (Inl err, w) \<Rightarrow>
          Some (if errors_Is err NotFound
                then (Some (NewResetError (Some (Wrap ''expected engine was synced and had unsafe block to reconcile, but cannot find the block'' err))), e, w)
                else (Some (NewTemporaryError (Some (Wrap ''failed to get existing unsafe payload to compare against derived attributes from L1'' err))), e, w))
      | (Inr envelope, w) \<Rightarrow>
          (case AttributesMatchBlock (awp_Attributes attributes) (l2_Hash (ec_pendingSafeHead e)) envelope of
             Some _ \<Rightarrow> forceNextSafeAttributes keccak256 decodeTx eng e attributes w
           | None \<Rightarrow>
               (case PayloadToBlockRef keccak256 decodeTx (ah_cfg ah) (ExecutionPayload.truncate (env_Payload envelope)) of
                  Inl err \<Rightarrow> Some (Some (NewResetError (Some (Wrap ''failed to decode L2 block ref from payload'' err))), e, w)
                | Inr ref \<Rightarrow>
                    (let e = SetPendingSafeL2Head e ref;
                         e = (if awp_IsLastInSpan attributes then SetSafeHead e ref else e)
                     in Some (None, e, w)))))"

definition Handler_Proceed :: "keccak \<Rightarrow> txDecoder \<Rightarrow> (u64 \<Rightarrow> 'w \<Rightarrow> Envelope res \<times> 'w) \<Rightarrow> 'w ExecEngine
    \<Rightarrow> AttributesHandler \<Rightarrow> EngineController \<Rightarrow> 'w \<Rightarrow> (gerr option \<times> AttributesHandler \<times> EngineController \<times> 'w) go" where
  "Handler_Proceed keccak256 decodeTx payloadByNumber eng ah e w =
     (case ah_attributes ah of
        None \<Rightarrow> Some (Some EOF, ah, e, w)
      | Some attributes \<Rightarrow>
          let pending = ec_pendingSafeHead e; unsafe = ec_unsafeHead e in
          if pending \<noteq> awp_Parent attributes then
            (if l2_ParentHash pending = l2_Hash (awp_Parent attributes)
             then Some (None, SetAttributes ah None, e, w)
             else Some (Some (NewResetError (Some (Msg ''pending safe head changed, conflicting with queued safe attributes''))), ah, e, w))
          else if l2_Number pending < l2_Number unsafe then
            (case consolidateNextSafeAttributes keccak256 decodeTx payloadByNumber eng ah e attributes w of
               None \<Rightarrow> None
             | Some (Some err, e, w) \<Rightarrow> Some (Some err, ah, e, w)
             | Some (None, e, w) \<Rightarrow> Some (None, SetAttributes ah None, e, w))
          else if l2_Number pending = l2_Number unsafe then
            (case forceNextSafeAttributes keccak256 decodeTx eng e attributes w of
               None \<Rightarrow> None
             | Some (Some err, e, w) \<Rightarrow> Some (Some err, ah, e, w)
             | Some (None, e, w) \<Rightarrow> Some (None, SetAttributes ah None, e, w))
          else Some (None, ah, SetUnsafeHead e pending, w))"

section \<open>The heads\<close>

definition heads :: "EngineController \<Rightarrow> L2BlockRef \<times> L2BlockRef \<times> L2BlockRef \<times> L2BlockRef" where
  "heads e = (ec_unsafeHead e, ec_pendingSafeHead e, ec_safeHead e, ec_finalizedHead e)"

lemma CancelPayload_heads: "CancelPayload eng e force w = (r, e', w') \<Longrightarrow> heads e' = heads e"
  by (auto simp: CancelPayload_def heads_def resetBuildingState_def split: if_splits prod.splits sum.splits)

lemma StartPayload_heads:
  "StartPayload eng e parent attrs True w = (r, e', w') \<Longrightarrow>
   heads e' = heads e \<and> (r = None \<longrightarrow> ec_buildingSafe e' \<and> ec_safeAttrs e' = Some attrs)"
  by (auto simp: StartPayload_def heads_def Let_def split: if_splits prod.splits sum.splits)

lemma ConfirmPayload_heads:
  assumes "ConfirmPayload sealFirst keccak256 decodeTx eng e g w = Some (r, e', g', w')"
    "ec_buildingSafe e" "ec_safeAttrs e = Some attrs"
  shows "(case r of Inl _ \<Rightarrow> e' = e
     | Inr envelope \<Rightarrow> \<exists>ref. l2_Hash ref = ep_BlockHash (env_Payload envelope) \<and>
         heads e' = (ref, ref, if awp_IsLastInSpan attrs then ref else ec_safeHead e, ec_finalizedHead e))"
proof (cases "ec_buildingInfo e = zero_PayloadInfo \<and> Gossiper_Get g = None")
  case True
  then show ?thesis using assms by (auto simp: ConfirmPayload_def)
next
  case False
  let ?fc = "\<lparr>fc_Head = 0, fc_Safe = l2_Hash (ec_safeHead e), fc_Finalized = l2_Hash (ec_finalizedHead e)\<rparr>"
  let ?u = "awp_IsLastInSpan attrs"
  have u: "(ec_buildingSafe e \<and> (case ec_safeAttrs e of None \<Rightarrow> False | Some a \<Rightarrow> awp_IsLastInSpan a)) = ?u"
    using assms(2,3) by simp
  have c: "(case confirmPayload eng ?fc (ec_buildingInfo e) ?u g w of
              None \<Rightarrow> None
            | Some (Inl (errTyp, err), agossip, w) \<Rightarrow>
                Some (Inl (errTyp, Wrap ''failed to complete building on top of L2 chain'' err), e, agossip, w)
            | Some (Inr envelope, agossip, w) \<Rightarrow>
                (case PayloadToBlockRef keccak256 decodeTx (ec_rollupCfg e) (ExecutionPayload.truncate (env_Payload envelope)) of
                   Inl err \<Rightarrow>
                     Some (Inl (BlockInsertPayloadErr, NewResetError (Some (Wrap ''failed to decode L2 block ref from payload'' err))), e, agossip, w)
                 | Inr ref \<Rightarrow> Some (Inr envelope, accept_payload e ?u ref, agossip, w))) = Some (r, e', g', w')"
    using assms(1) False unfolding ConfirmPayload_def Let_def u by (simp add: assms(2))
  then obtain x g1 w1 where x: "confirmPayload eng ?fc (ec_buildingInfo e) ?u g w = Some (x, g1, w1)"
    by (auto split: option.splits)
  show ?thesis
  proof (cases x)
    case (Inl err)
    then show ?thesis using c x by (cases err) auto
  next
    case (Inr envelope)
    show ?thesis
    proof (cases "PayloadToBlockRef keccak256 decodeTx (ec_rollupCfg e) (ExecutionPayload.truncate (env_Payload envelope))")
      case (Inl err)
      then show ?thesis using c x \<open>x = _\<close> by auto
    next
      case ref: (Inr ref)
      have "e' = accept_payload e ?u ref" "r = Inr envelope" using c x Inr ref by auto
      moreover have "l2_Hash ref = ep_BlockHash (env_Payload envelope)"
        using PayloadToBlockRef_hash [OF ref] by (simp add: ExecutionPayload.truncate_def)
      ultimately show ?thesis using assms(2) by (auto simp: heads_def accept_payload_heads intro!: exI [of _ ref])
    qed
  qed
qed

definition dropped :: "EngineController \<Rightarrow> EngineController \<Rightarrow> bool" where
  "dropped e e' \<longleftrightarrow> heads e' = (ec_unsafeHead e, ec_safeHead e, ec_safeHead e, ec_finalizedHead e) \<and>
     ec_needFCUCallForBackupUnsafeReorg e'"

definition advanced :: "bool \<Rightarrow> EngineController \<Rightarrow> EngineController \<Rightarrow> bool" where
  "advanced isLast e e' \<longleftrightarrow>
     (\<exists>ref unsafe. unsafe \<in> {ec_unsafeHead e, ref} \<and>
        heads e' = (unsafe, ref, if isLast then ref else ec_safeHead e, ec_finalizedHead e))"

lemma force_error_heads:
  assumes "force_error eng attributes errType err e w = (r, e', w')"
  shows "r \<noteq> None \<and> heads e' = heads e \<or> r = None \<and> dropped e e'"
proof -
  obtain c e1 w1 where c: "CancelPayload eng e True w = (c, e1, w1)" by (metis prod.exhaust)
  show ?thesis
    using assms CancelPayload_heads [OF c]
    by (cases errType) (auto simp: force_error_def c Let_def dropped_def heads_def setter_defs split: if_splits)
qed

lemma forceNextSafeAttributes_heads:
  assumes "forceNextSafeAttributes keccak256 decodeTx eng e attributes w = Some (r, e', w')"
  shows "r \<noteq> None \<and> heads e' = heads e \<or> r = None \<and> (dropped e e' \<or> advanced (awp_IsLastInSpan attributes) e e')"
proof -
  obtain s e1 w1 where s: "StartPayload eng e (ec_pendingSafeHead e) attributes True w = (s, e1, w1)" by (metis prod.exhaust)
  note h = StartPayload_heads [OF s]
  have fe: ?thesis if "force_error eng attributes errType err e2 v = (r, e', w')" "heads e2 = heads e" for errType err e2 v
    using force_error_heads [OF that(1)] that(2) by (auto simp: dropped_def heads_def)
  show ?thesis
  proof (cases s)
    case (Some p)
    then show ?thesis using assms s h fe [of "fst p" "snd p" e1 w1] by (cases p) (auto simp: forceNextSafeAttributes_def)
  next
    case None
    then obtain x e2 g w2 where x: "ConfirmPayload True keccak256 decodeTx (NoOpConductor eng) e1 NoOpGossiper w1 = Some (x, e2, g, w2)"
      using assms s by (auto simp: forceNextSafeAttributes_def split: option.splits)
    note c = ConfirmPayload_heads [OF x conjunct1 [OF mp [OF conjunct2 [OF h] None]] conjunct2 [OF mp [OF conjunct2 [OF h] None]]]
    show ?thesis
    proof (cases x)
      case (Inl p)
      then show ?thesis using assms s None x c h fe [of "fst p" "snd p" e2 w2] by (cases p) (auto simp: forceNextSafeAttributes_def)
    next
      case (Inr envelope)
      then have "r = None" "e' = e2" using assms s None x by (auto simp: forceNextSafeAttributes_def)
      then show ?thesis using c Inr h by (auto simp: advanced_def heads_def)
    qed
  qed
qed

lemma consolidate_heads:
  assumes "consolidateNextSafeAttributes keccak256 decodeTx payloadByNumber eng ah e attributes w = Some (r, e', w')"
  shows "r \<noteq> None \<and> heads e' = heads e \<or> r = None \<and> (dropped e e' \<or> advanced (awp_IsLastInSpan attributes) e e')"
proof -
  obtain p w1 where p: "payloadByNumber (l2_Number (ec_pendingSafeHead e) + 1) w = (p, w1)" by fastforce
  show ?thesis
  proof (cases p)
    case (Inl err)
    then show ?thesis using assms p by (auto simp: consolidateNextSafeAttributes_def split: if_splits)
  next
    case (Inr envelope)
    show ?thesis
    proof (cases "AttributesMatchBlock (awp_Attributes attributes) (l2_Hash (ec_pendingSafeHead e)) envelope")
      case (Some err)
      then have "forceNextSafeAttributes keccak256 decodeTx eng e attributes w1 = Some (r, e', w')"
        using assms p Inr by (simp add: consolidateNextSafeAttributes_def)
      then show ?thesis by (rule forceNextSafeAttributes_heads)
    next
      case None
      show ?thesis
        using assms p Inr None
        by (cases "PayloadToBlockRef keccak256 decodeTx (ah_cfg ah) (ExecutionPayload.truncate (env_Payload envelope))")
          (auto simp: consolidateNextSafeAttributes_def Let_def advanced_def heads_def setter_defs split: if_splits)
    qed
  qed
qed

lemma Handler_Proceed_heads:
  assumes "Handler_Proceed keccak256 decodeTx payloadByNumber eng ah e w = Some (err, ah', e', w')"
  shows "(err \<noteq> None \<and> heads e' = heads e \<and> ah' = ah) \<or>
    (err = None \<and> (\<exists>a. ah_attributes ah = Some a \<and>
       (heads e' = heads e \<or> awp_Parent a = ec_pendingSafeHead e \<and>
         (advanced (awp_IsLastInSpan a) e e' \<or> dropped e e' \<or>
          l2_Number (ec_unsafeHead e) < l2_Number (ec_pendingSafeHead e) \<and>
            heads e' = (ec_pendingSafeHead e, ec_pendingSafeHead e, ec_safeHead e, ec_finalizedHead e)))))"
proof (cases "ah_attributes ah")
  case None
  then show ?thesis using assms by (auto simp: Handler_Proceed_def)
next
  case (Some a)
  let ?p = "ec_pendingSafeHead e" and ?u = "ec_unsafeHead e"
  consider (stale) "?p \<noteq> awp_Parent a" | (consolidate) "?p = awp_Parent a" "l2_Number ?p < l2_Number ?u"
    | (force) "?p = awp_Parent a" "l2_Number ?p = l2_Number ?u" | (fix_unsafe) "?p = awp_Parent a" "l2_Number ?u < l2_Number ?p"
    by (meson linorder_less_linear)
  then show ?thesis
  proof cases
    case stale
    then show ?thesis using assms Some by (auto simp: Handler_Proceed_def Let_def split: if_splits)
  next
    case consolidate
    then obtain r e1 w1 where c: "consolidateNextSafeAttributes keccak256 decodeTx payloadByNumber eng ah e a w = Some (r, e1, w1)"
      using assms Some by (auto simp: Handler_Proceed_def Let_def split: option.splits)
    then have "e' = e1 \<and> err = r \<and> ah' = (if r = None then SetAttributes ah None else ah)"
      using assms Some consolidate unfolding Handler_Proceed_def Let_def by (cases r) auto
    then show ?thesis using consolidate_heads [OF c] Some consolidate(1) by fastforce
  next
    case force
    then obtain r e1 w1 where c: "forceNextSafeAttributes keccak256 decodeTx eng e a w = Some (r, e1, w1)"
      using assms Some by (auto simp: Handler_Proceed_def Let_def split: option.splits)
    then have "e' = e1 \<and> err = r \<and> ah' = (if r = None then SetAttributes ah None else ah)"
      using assms Some force unfolding Handler_Proceed_def Let_def by (cases r) auto
    then show ?thesis using forceNextSafeAttributes_heads [OF c] Some force(1) by fastforce
  next
    case fix_unsafe
    then have "e' = SetUnsafeHead e ?p" "err = None" using assms Some by (auto simp: Handler_Proceed_def Let_def split: if_splits)
    then show ?thesis using Some fix_unsafe by (auto simp: heads_def SetUnsafeHead_def)
  qed
qed


section \<open>Witnesses\<close>

text \<open>An engine that builds a block and then finds it invalid, and attributes in the middle of a span.\<close>

definition invalid_engine :: "nat ExecEngine" where
  "invalid_engine = (phase_engine ExecutionValid)\<lparr>en_GetPayload := (\<lambda>info w. (Inr eng_envelope, w)),
     en_NewPayload := (\<lambda>payload root w. ((Some ExecutionInvalid, None), w + 1))\<rparr>"

definition span_attributes :: AttributesWithParent where
  "span_attributes = \<lparr>awp_Attributes = \<lparr>pa_Timestamp = 4, pa_PrevRandao = 0, pa_SuggestedFeeRecipient = 1, pa_Withdrawals = None,
     pa_ParentBeaconBlockRoot = None, pa_Transactions = [[DepositTxType], [1]], pa_NoTxPool = True, pa_GasLimit = Some 30\<rparr>,
     awp_Parent = eng_block 3, awp_IsLastInSpan = False\<rparr>"

definition span_controller :: EngineController where
  "span_controller = (NewEngineController OPBNBMainnet (eng_config CLSync) False)
     \<lparr>ec_unsafeHead := eng_block 3, ec_pendingSafeHead := eng_block 3, ec_safeHead := eng_block 2\<rparr>"

lemma span_confirm:
  "ConfirmPayload True keccak256 decodeTx (NoOpConductor invalid_engine)
     (span_controller\<lparr>ec_buildingInfo := \<lparr>pi_ID = 7, pi_Timestamp = 4\<rparr>, ec_buildingSafe := True, ec_buildingOnto := eng_block 3,
        ec_safeAttrs := Some span_attributes\<rparr>) NoOpGossiper 0 =
   Some (Inl (BlockInsertPayloadErr, Wrap ''failed to complete building on top of L2 chain'' (Msg ''execution payload was INVALID!'')),
     span_controller\<lparr>ec_buildingInfo := \<lparr>pi_ID = 7, pi_Timestamp = 4\<rparr>, ec_buildingSafe := True, ec_buildingOnto := eng_block 3,
        ec_safeAttrs := Some span_attributes\<rparr>, NoOpGossiper, 1)"
  by (simp add: ConfirmPayload_def zero_PayloadInfo_def confirmPayload_def NoOpConductor_def invalid_engine_def
      phase_engine_def eng_envelope_def sanityCheckPayload_def lastDeposit_def isDepositTx_def insert_payload_def status_defs NewPayloadErr_def)


end
