(* ===== verification/GoHeap.thy ===== *)
theory GoHeap
  imports Prelude
begin

text \<open>
  Go's container/heap over a slice, as the priority queues of the repository use it: the order is
  that of a key of the elements, \<open>Less i j\<close> compares the keys at two indices. The contract of a queue is the
  locale \<open>prio_queue\<close>: what is in it after a push and a pop, and that its first element has the least key.
\<close>

section \<open>The operations\<close>

definition swap :: "'a list \<Rightarrow> nat \<Rightarrow> nat \<Rightarrow> 'a list" where
  "swap xs i j = xs[i := xs ! j, j := xs ! i]"

function heap_up :: "('a \<Rightarrow> 'k::linorder) \<Rightarrow> 'a list \<Rightarrow> nat \<Rightarrow> 'a list" where
  "heap_up key xs j =
     (let i = (j - 1) div 2 in
      if i = j \<or> \<not> key (xs ! j) < key (xs ! i) then xs
      else heap_up key (swap xs i j) i)"
  by pat_completeness auto

termination heap_up
proof (relation "measure (\<lambda>(key, xs, j). j)")
  fix key :: "'a \<Rightarrow> 'k::linorder" and xs :: "'a list" and j i :: nat
  assume "i = (j - 1) div 2" "\<not> (i = j \<or> \<not> key (xs ! j) < key (xs ! i))"
  then have "i < j" by linarith
  then show "((key, swap xs i j, i), key, xs, j) \<in> measure (\<lambda>(key, xs, j). j)" by simp
qed simp

function heap_down :: "('a \<Rightarrow> 'k::linorder) \<Rightarrow> 'a list \<Rightarrow> nat \<Rightarrow> nat \<Rightarrow> 'a list" where
  "heap_down key xs i n =
     (let j1 = 2 * i + 1 in
      if j1 \<ge> n then xs
      else (let j2 = j1 + 1;
                j = (if j2 < n \<and> key (xs ! j2) < key (xs ! j1) then j2 else j1)
            in if \<not> key (xs ! j) < key (xs ! i) then xs
               else heap_down key (swap xs i j) j n))"
  by pat_completeness auto

termination heap_down
  by (relation "measure (\<lambda>(key, xs, i, n). n - i)") (auto simp: Let_def split: if_splits)

declare heap_up.simps [simp del] heap_down.simps [simp del]

definition heap_Push :: "('a \<Rightarrow> 'k::linorder) \<Rightarrow> 'a \<Rightarrow> 'a list \<Rightarrow> 'a list" where
  "heap_Push key x xs = heap_up key (xs @ [x]) (length xs)"

text \<open>A pop of the empty queue panics.\<close>

definition heap_Pop :: "('a \<Rightarrow> 'k::linorder) \<Rightarrow> 'a list \<Rightarrow> ('a \<times> 'a list) go" where
  "heap_Pop key xs =
     (if xs = [] then None
      else (let n = length xs - 1;
                ys = heap_down key (swap xs 0 n) 0 n
            in Some (last ys, butlast ys)))"

section \<open>The contract of a priority queue\<close>

locale prio_queue =
  fixes key :: "'a \<Rightarrow> 'k::linorder"
    and push :: "'a \<Rightarrow> 'a list \<Rightarrow> 'a list"
    and pop :: "'a list \<Rightarrow> ('a \<times> 'a list) go"
    and ordered :: "'a list \<Rightarrow> bool"
  assumes empty_ordered: "ordered []"
    and push_ordered: "ordered xs \<Longrightarrow> ordered (push x xs)"
    and push_mset: "mset (push x xs) = add_mset x (mset xs)"
    and pop_some: "xs \<noteq> [] \<Longrightarrow> \<exists>x ys. pop xs = Some (x, ys)"
    and pop_head: "pop xs = Some (x, ys) \<Longrightarrow> xs \<noteq> [] \<and> x = xs ! 0"
    and pop_mset: "pop xs = Some (x, ys) \<Longrightarrow> mset xs = add_mset x (mset ys)"
    and pop_ordered: "ordered xs \<Longrightarrow> pop xs = Some (x, ys) \<Longrightarrow> ordered ys"
    and head_least: "ordered xs \<Longrightarrow> x \<in> set xs \<Longrightarrow> key (xs ! 0) \<le> key x"
begin

lemma push_set: "set (push x xs) = insert x (set xs)"
  using arg_cong [OF push_mset, of set_mset] by simp

lemma push_distinct: "distinct (push x xs) \<longleftrightarrow> x \<notin> set xs \<and> distinct xs"
  using push_mset [of x xs] by (metis distinct.simps(2) mset.simps(2) mset_eq_imp_distinct_iff)

lemma push_length: "length (push x xs) = Suc (length xs)"
  using arg_cong [OF push_mset, of size] by simp

lemma pop_set: "pop xs = Some (x, ys) \<Longrightarrow> set xs = insert x (set ys)"
  using arg_cong [OF pop_mset, of _ _ _ set_mset] by simp

lemma pop_distinct: "pop xs = Some (x, ys) \<Longrightarrow> distinct xs \<longleftrightarrow> x \<notin> set ys \<and> distinct ys"
  using pop_mset [of xs x ys] by (metis distinct.simps(2) mset.simps(2) mset_eq_imp_distinct_iff)

lemma pop_length: "pop xs = Some (x, ys) \<Longrightarrow> length xs = Suc (length ys)"
  using arg_cong [OF pop_mset, of _ _ _ size] by simp

lemma pop_least:
  assumes "ordered xs" "pop xs = Some (x, ys)" "y \<in> set ys"
  shows "key x \<le> key y"
  using head_least [OF assms(1), of y] pop_head [OF assms(2)] pop_set [OF assms(2)] assms(3) by auto

lemma pop_push_least:
  assumes "ordered xs" "pop (push x xs) = Some (y, ys)"
  shows "key y \<le> key x" "\<And>z. z \<in> set xs \<Longrightarrow> key y \<le> key z"
  using head_least [OF push_ordered [OF assms(1), of x]] pop_head [OF assms(2)] by (simp_all add: push_set)

end

section \<open>The heap keeps it\<close>

lemma length_swap [simp]: "length (swap xs i j) = length xs"
  by (simp add: swap_def)

lemma nth_swap:
  "i < length xs \<Longrightarrow> j < length xs \<Longrightarrow> k < length xs \<Longrightarrow>
     swap xs i j ! k = (if k = j then xs ! i else if k = i then xs ! j else xs ! k)"
  by (auto simp: swap_def nth_list_update)

lemma mset_swap_list [simp]: "i < length xs \<Longrightarrow> j < length xs \<Longrightarrow> mset (swap xs i j) = mset xs"
  unfolding swap_def by (rule mset_swap)

lemma mset_heap_up: "j < length xs \<Longrightarrow> mset (heap_up key xs j) = mset xs"
proof (induction key xs j rule: heap_up.induct)
  case (1 key xs j)
  have "(j - 1) div 2 < length xs" using "1.prems" by linarith
  then show ?case using 1 by (subst heap_up.simps) (auto simp: Let_def)
qed

lemma mset_heap_down: "i < length xs \<Longrightarrow> n \<le> length xs \<Longrightarrow> mset (heap_down key xs i n) = mset xs"
proof (induction key xs i n rule: heap_down.induct)
  case (1 key xs i n)
  show ?case
    using "1.prems" by (subst heap_down.simps) (auto simp: Let_def "1.IH")
qed

lemma length_heap_up [simp]: "j < length xs \<Longrightarrow> length (heap_up key xs j) = length xs"
  using mset_heap_up [of j xs key] by (metis size_mset)

lemma length_heap_down [simp]:
  "i < length xs \<Longrightarrow> n \<le> length xs \<Longrightarrow> length (heap_down key xs i n) = length xs"
  using mset_heap_down [of i xs n key] by (metis size_mset)

text \<open>The order of the first \<open>n\<close> elements, and the same without the children of one index or its parent.\<close>

definition heap_upto :: "('a \<Rightarrow> 'k::linorder) \<Rightarrow> nat \<Rightarrow> 'a list \<Rightarrow> bool" where
  "heap_upto key n xs \<longleftrightarrow> (\<forall>j<n. key (xs ! ((j - 1) div 2)) \<le> key (xs ! j))"

definition heap_ok :: "('a \<Rightarrow> 'k::linorder) \<Rightarrow> 'a list \<Rightarrow> bool" where
  "heap_ok key xs \<longleftrightarrow> heap_upto key (length xs) xs"

lemma heap_root:
  assumes "heap_upto key n xs" "j < n"
  shows "key (xs ! 0) \<le> key (xs ! j)"
  using assms(2)
proof (induction j rule: less_induct)
  case (less j)
  show ?case
  proof (cases "j = 0")
    case False
    then have "(j - 1) div 2 < j" by linarith
    then have "key (xs ! 0) \<le> key (xs ! ((j - 1) div 2))" using less by simp
    also have "\<dots> \<le> key (xs ! j)" using assms(1) less.prems by (simp add: heap_upto_def)
    finally show ?thesis .
  qed simp
qed

lemma heap_up_heap:
  assumes "j < length xs"
    and "\<forall>m<length xs. m \<noteq> j \<longrightarrow> key (xs ! ((m - 1) div 2)) \<le> key (xs ! m)"
    and "\<forall>m<length xs. (m - 1) div 2 = j \<and> m \<noteq> 0 \<longrightarrow> key (xs ! ((j - 1) div 2)) \<le> key (xs ! m)"
  shows "heap_ok key (heap_up key xs j)"
  using assms
proof (induction key xs j rule: heap_up.induct)
  case (1 key xs j)
  let ?i = "(j - 1) div 2"
  let ?ys = "swap xs ?i j"
  show ?case
  proof (cases "?i = j \<or> \<not> key (xs ! j) < key (xs ! ?i)")
    case True
    have "heap_ok key xs"
      unfolding heap_ok_def heap_upto_def
    proof (intro allI impI)
      fix m
      assume "m < length xs"
      show "key (xs ! ((m - 1) div 2)) \<le> key (xs ! m)"
      proof (cases "m = j")
        case mj: True
        show ?thesis
        proof (cases "?i = j")
          case ij: True
          show ?thesis unfolding mj ij ..
        next
          case False
          then show ?thesis using True mj by simp
        qed
      next
        case False
        then show ?thesis using \<open>m < length xs\<close> "1.prems"(2) by blast
      qed
    qed
    then show ?thesis using True by (subst heap_up.simps) (simp add: Let_def)
  next
    case False
    then have ij: "?i < j" by linarith
    then have i: "?i < length xs" using "1.prems"(1) by linarith
    have lt: "key (xs ! j) < key (xs ! ?i)" using False by simp
    have nth: "?ys ! m = (if m = j then xs ! ?i else if m = ?i then xs ! j else xs ! m)" if "m < length xs" for m
      using nth_swap [OF i "1.prems"(1) that] .
    have a: "key (?ys ! ((m - 1) div 2)) \<le> key (?ys ! m)" if m: "m < length ?ys" "m \<noteq> ?i" for m
    proof -
      have m': "m < length xs" "(m - 1) div 2 < length xs" using m by auto
      consider "m = j" | "m \<noteq> j" "(m - 1) div 2 = j" | "m \<noteq> j" "(m - 1) div 2 = ?i" | "m \<noteq> j" "(m - 1) div 2 \<noteq> j" "(m - 1) div 2 \<noteq> ?i"
        by blast
      then show ?thesis
      proof cases
        case 1
        then show ?thesis using nth m' lt ij i by simp
      next
        case 2
        then have "m \<noteq> 0" using ij by auto
        then show ?thesis using 2 nth m' m(2) "1.prems"(3) by simp
      next
        case 3
        then have "key (xs ! ?i) \<le> key (xs ! m)" using "1.prems"(2) m'(1) by metis
        then show ?thesis using 3 nth m' m(2) lt ij by auto
      next
        case 4
        then show ?thesis using nth m' m(2) "1.prems"(2) by simp
      qed
    qed
    have b: "key (?ys ! ((?i - 1) div 2)) \<le> key (?ys ! m)"
      if m: "m < length ?ys" "(m - 1) div 2 = ?i" "m \<noteq> 0" for m
    proof -
      have m': "m < length xs" using m by simp
      have mi: "m \<noteq> ?i" using m(2,3) by linarith
      let ?p = "(?i - 1) div 2"
      have p: "?p < length xs" "?p \<noteq> j" using i ij by linarith+
      show ?thesis
      proof (cases "?i = 0")
        case True
        then show ?thesis using m' mi nth p lt "1.prems"(2) m(2) by (auto dest!: spec [of _ m])
      next
        case False
        then have pi: "?p \<noteq> ?i" by linarith
        have pk: "key (xs ! ?p) \<le> key (xs ! ?i)" using "1.prems"(2) i ij by auto
        have "key (xs ! ?i) \<le> key (xs ! m)" if "m \<noteq> j" using "1.prems"(2) m' that m(2) by metis
        then show ?thesis using nth [OF m'] nth [OF p(1)] p(2) pi pk mi by auto
      qed
    qed
    have "heap_ok key (heap_up key ?ys ?i)"
      using "1.IH" [OF refl False] a b i by simp
    then show ?thesis using False by (subst heap_up.simps) (simp add: Let_def)
  qed
qed

lemma heap_Push_ok: "heap_ok key xs \<Longrightarrow> heap_ok key (heap_Push key x xs)"
  unfolding heap_Push_def
proof (rule heap_up_heap)
  assume h: "heap_ok key xs"
  show "\<forall>m<length (xs @ [x]). m \<noteq> length xs \<longrightarrow> key ((xs @ [x]) ! ((m - 1) div 2)) \<le> key ((xs @ [x]) ! m)"
  proof (intro allI impI)
    fix m
    assume "m < length (xs @ [x])" "m \<noteq> length xs"
    then have m: "m < length xs" "(m - 1) div 2 < length xs" by auto
    then show "key ((xs @ [x]) ! ((m - 1) div 2)) \<le> key ((xs @ [x]) ! m)"
      using h by (simp add: nth_append heap_ok_def heap_upto_def)
  qed
qed auto

lemma heap_down_heap:
  assumes "i < length xs" "n \<le> length xs"
    and "\<forall>m<n. (m - 1) div 2 \<noteq> i \<or> m = 0 \<longrightarrow> key (xs ! ((m - 1) div 2)) \<le> key (xs ! m)"
    and "i \<noteq> 0 \<Longrightarrow> \<forall>m<n. (m - 1) div 2 = i \<and> m \<noteq> 0 \<longrightarrow> key (xs ! ((i - 1) div 2)) \<le> key (xs ! m)"
  shows "heap_upto key n (heap_down key xs i n)"
  using assms
proof (induction key xs i n rule: heap_down.induct)
  case (1 key xs i n)
  define j where "j = (if 2 * i + 1 + 1 < n \<and> key (xs ! (2 * i + 1 + 1)) < key (xs ! (2 * i + 1)) then 2 * i + 1 + 1 else 2 * i + 1)"
  have kids: "m = 2 * i + 1 \<or> m = 2 * i + 1 + 1" if "(m - 1) div 2 = i" "m \<noteq> 0" for m using that by linarith
  have step: "heap_down key xs i n =
      (if 2 * i + 1 \<ge> n then xs else if \<not> key (xs ! j) < key (xs ! i) then xs else heap_down key (swap xs i j) j n)"
    by (subst heap_down.simps) (simp add: Let_def j_def)
  consider "2 * i + 1 \<ge> n" | "2 * i + 1 < n" "\<not> key (xs ! j) < key (xs ! i)" | "2 * i + 1 < n" "key (xs ! j) < key (xs ! i)"
    by linarith
  then show ?case
  proof cases
    case 1
    then show ?thesis using step "1.prems"(3) by (auto simp: heap_upto_def)
  next
    case 2
    have "key (xs ! i) \<le> key (xs ! m)" if "(m - 1) div 2 = i" "m \<noteq> 0" "m < n" for m
      using kids [OF that(1,2)] 2 that(3) by (auto simp: j_def split: if_splits)
    then have "heap_upto key n xs" using "1.prems"(3) unfolding heap_upto_def by blast
    then show ?thesis using step 2 by simp
  next
    case 3
    let ?ys = "swap xs i j"
    have j: "j < n" "(j - 1) div 2 = i" "j \<noteq> 0" "i < j" using 3 by (auto simp: j_def)
    have nth: "?ys ! m = (if m = j then xs ! i else if m = i then xs ! j else xs ! m)" if "m < n" for m
      using nth_swap [of i xs j m] "1.prems"(1,2) j that by simp
    have jmin: "key (xs ! j) \<le> key (xs ! m)" if "(m - 1) div 2 = i" "m \<noteq> 0" "m < n" for m
      using kids [OF that(1,2)] that(3) by (auto simp: j_def split: if_splits)
    have a: "key (?ys ! ((m - 1) div 2)) \<le> key (?ys ! m)" if m: "m < n" "(m - 1) div 2 \<noteq> j \<or> m = 0" for m
    proof (cases "m = 0")
      case False
      have p: "(m - 1) div 2 < n" using m by linarith
      consider "m = j" | "m \<noteq> j" "(m - 1) div 2 = i" | "m = i" "i \<noteq> 0" | "m \<noteq> j" "m \<noteq> i" "(m - 1) div 2 \<noteq> i" using False by blast
      then show ?thesis
      proof cases
        case 1
        then show ?thesis using nth [OF m(1)] nth [OF p] j 3 by auto
      next
        case 2
        then show ?thesis using nth [OF m(1)] nth [OF p] jmin [OF 2(2) False m(1)] False j by auto
      next
        case c: 3
        then have "key (xs ! ((i - 1) div 2)) \<le> key (xs ! j)" using "1.prems"(4) [OF c(2)] j by auto
        then show ?thesis using nth [OF m(1)] nth [OF p] c j False m by auto
      next
        case 4
        then show ?thesis using nth [OF m(1)] nth [OF p] "1.prems"(3) m by auto
      qed
    qed simp
    have b: "key (?ys ! ((j - 1) div 2)) \<le> key (?ys ! m)" if m: "m < n" "(m - 1) div 2 = j" "m \<noteq> 0" for m
    proof -
      have "m \<noteq> i" "m \<noteq> j" using m j by linarith+
      moreover have "key (xs ! j) \<le> key (xs ! m)" using "1.prems"(3) m j by (metis less_irrefl)
      ultimately show ?thesis using nth [OF m(1)] nth [of i] j by simp
    qed
    have "heap_upto key n (heap_down key ?ys j n)"
    proof (rule "1.IH" [OF refl _ refl j_def])
      show "\<not> n \<le> 2 * i + 1" "\<not> \<not> key (xs ! j) < key (xs ! i)" using 3 by simp_all
      show "j < length ?ys" "n \<le> length ?ys" using j "1.prems" by simp_all
    qed (use a b in blast)+
    then show ?thesis using step 3 by simp
  qed
qed

lemma heap_down_frame:
  "i < n \<Longrightarrow> n \<le> m \<Longrightarrow> m < length xs \<Longrightarrow> heap_down key xs i n ! m = xs ! m"
proof (induction key xs i n rule: heap_down.induct)
  case (1 key xs i n)
  show ?case
    using "1.prems" by (subst heap_down.simps) (auto simp: Let_def "1.IH" nth_swap)
qed
lemma heap_Pop_spec:
  assumes "heap_Pop key xs = Some (x, ys)"
  shows "xs \<noteq> []" "x = xs ! 0" "mset xs = add_mset x (mset ys)" "heap_ok key xs \<Longrightarrow> heap_ok key ys"
proof -
  let ?n = "length xs - 1"
  let ?zs = "swap xs 0 ?n"
  let ?ws = "heap_down key ?zs 0 ?n"
  show ne: "xs \<noteq> []" using assms by (auto simp: heap_Pop_def)
  then have n: "0 < length xs" "?n < length xs" by simp_all
  have r: "x = last ?ws" "ys = butlast ?ws" using assms ne by (simp_all add: heap_Pop_def Let_def)
  have len: "length ?ws = length xs" using n by simp
  have w: "?ws \<noteq> []" using ne by (metis len length_0_conv)
  have l: "last ?ws = ?ws ! ?n" using w len by (simp add: last_conv_nth)
  have "?ws ! ?n = ?zs ! ?n"
  proof (cases "?n = 0")
    case True
    then show ?thesis by (subst heap_down.simps) simp
  qed (use n in \<open>simp add: heap_down_frame\<close>)
  then show "x = xs ! 0" using r l nth_swap [OF n n(2)] by simp
  have "mset xs = mset ?ws" using n by (simp add: mset_heap_down)
  also have "\<dots> = mset (butlast ?ws @ [last ?ws])" using w by simp
  finally show "mset xs = add_mset x (mset ys)" using r by simp
  show "heap_ok key ys" if h: "heap_ok key xs"
  proof -
    have nth: "?zs ! m = (if m = 0 then xs ! ?n else xs ! m)" if "m < ?n" for m
      using nth_swap [OF n, of m] that by simp
    have "heap_upto key ?n ?ws"
    proof (rule heap_down_heap)
      show "\<forall>m<?n. (m - 1) div 2 \<noteq> 0 \<or> m = 0 \<longrightarrow> key (?zs ! ((m - 1) div 2)) \<le> key (?zs ! m)"
      proof (intro allI impI)
        fix m
        assume m: "m < ?n" "(m - 1) div 2 \<noteq> 0 \<or> m = 0"
        have p: "(m - 1) div 2 < ?n" using m(1) by linarith
        show "key (?zs ! ((m - 1) div 2)) \<le> key (?zs ! m)"
          using m h nth [OF m(1)] nth [OF p] by (cases "m = 0") (simp_all add: heap_ok_def heap_upto_def)
      qed
    qed (use n in simp_all)
    moreover have "butlast ?ws ! m = ?ws ! m" if "m < ?n" for m using that len by (simp add: nth_butlast)
    ultimately show ?thesis
      unfolding heap_ok_def heap_upto_def using r len by (auto simp: less_imp_diff_less)
  qed
qed

interpretation heap: prio_queue key "heap_Push key" "heap_Pop key" "heap_ok key"
  for key :: "'a \<Rightarrow> 'k::linorder"
proof
  show "heap_ok key []" by (simp add: heap_ok_def heap_upto_def)
  show "mset (heap_Push key x xs) = add_mset x (mset xs)" for x xs
    by (simp add: heap_Push_def mset_heap_up)
  show "\<exists>x ys. heap_Pop key xs = Some (x, ys)" if "xs \<noteq> []" for xs
    using that by (simp add: heap_Pop_def Let_def)
  show "key (xs ! 0) \<le> key x" if "heap_ok key xs" "x \<in> set xs" for xs x
    using that heap_root [of key "length xs" xs] by (auto simp: heap_ok_def in_set_conv_nth)
  show "heap_ok key (heap_Push key x xs)" if "heap_ok key xs" for x xs
    using that by (rule heap_Push_ok)
  show "xs \<noteq> [] \<and> x = xs ! 0" if "heap_Pop key xs = Some (x, ys)" for xs x ys
    using heap_Pop_spec(1,2) [OF that] by simp
  show "mset xs = add_mset x (mset ys)" if "heap_Pop key xs = Some (x, ys)" for xs x ys
    using that by (rule heap_Pop_spec(3))
  show "heap_ok key ys" if "heap_ok key xs" "heap_Pop key xs = Some (x, ys)" for xs x ys
    using that(2,1) by (rule heap_Pop_spec(4))
qed

end
