(* ===== verification/PlasmaState.thy ===== *)
theory PlasmaState
  imports GoHeap DataSource L1Info
begin

text \<open>
  The challenge state of plasma data availability, op-plasma/dastate.go: the commitments that were seen and
  how they were challenged. The code shares a commitment between a queue and the map of keys by
  pointer; here the store \<open>st_store\<close> holds all commitments and a pointer is its index. Block numbers and
  keys of commitments never change after they are stored.
\<close>

section \<open>The state and its operations\<close>

type_synonym ChallengeStatus = byte

definition ChallengeUninitialized :: ChallengeStatus where "ChallengeUninitialized = 0"
definition ChallengeActive :: ChallengeStatus where "ChallengeActive = 1"
definition ChallengeResolved :: ChallengeStatus where "ChallengeResolved = 2"
definition ChallengeExpired :: ChallengeStatus where "ChallengeExpired = 3"

lemmas status_defs = ChallengeUninitialized_def ChallengeActive_def ChallengeResolved_def ChallengeExpired_def

definition ErrReorgRequired :: gerr where "ErrReorgRequired = Msg ''ErrReorgRequired''"

record Commitment =
  cm_key :: bytes
  cm_input :: bytes
  cm_expiresAt :: u64
  cm_blockNumber :: u64
  cm_challengeStatus :: ChallengeStatus
  cm_canonical :: bool

record PState =
  st_store :: "Commitment list"
  st_activeComms :: "nat list"
  st_expiredComms :: "nat list"
  st_commsByKey :: "bytes \<Rightarrow> nat option"
  st_finalized :: u64

definition NewState :: PState where
  "NewState = \<lparr>st_store = [], st_activeComms = [], st_expiredComms = [], st_commsByKey = (\<lambda>_. None), st_finalized = 0\<rparr>"

definition comm :: "PState \<Rightarrow> nat \<Rightarrow> Commitment" where
  "comm s r = st_store s ! r"

text \<open>\<open>CommQueue.Less\<close> compares the block numbers of two commitments.\<close>

definition comm_block :: "Commitment list \<Rightarrow> nat \<Rightarrow> u64" where
  "comm_block cs r = cm_blockNumber (cs ! r)"

definition set_comm :: "PState \<Rightarrow> nat \<Rightarrow> Commitment \<Rightarrow> PState" where
  "set_comm s r c = s\<lparr>st_store := (st_store s)[r := c]\<rparr>"

text \<open>A new commitment goes into the active queue and the map.\<close>

definition push_comm :: "PState \<Rightarrow> Commitment \<Rightarrow> PState" where
  "push_comm s c =
     (let r = length (st_store s); cs = st_store s @ [c] in
      s\<lparr>st_store := cs, st_activeComms := heap_Push (comm_block cs) r (st_activeComms s),
        st_commsByKey := (st_commsByKey s)(cm_key c := Some r)\<rparr>)"

definition TrackDetachedCommitment :: "PState \<Rightarrow> bytes \<Rightarrow> u64 \<Rightarrow> PState" where
  "TrackDetachedCommitment s key bn =
     push_comm s \<lparr>cm_key = key, cm_input = [], cm_expiresAt = bn, cm_blockNumber = bn,
                  cm_challengeStatus = ChallengeUninitialized, cm_canonical = False\<rparr>"

definition IsTracking :: "PState \<Rightarrow> bytes \<Rightarrow> u64 \<Rightarrow> bool \<times> PState" where
  "IsTracking s key bn =
     (case st_commsByKey s key of
        Some r \<Rightarrow> (cm_blockNumber (comm s r) = bn, s)
      | None \<Rightarrow> (True, TrackDetachedCommitment s key bn))"

definition SetActiveChallenge :: "PState \<Rightarrow> bytes \<Rightarrow> u64 \<Rightarrow> u64 \<Rightarrow> PState" where
  "SetActiveChallenge s key challengedAt resolveWindow =
     (case st_commsByKey s key of
        Some r \<Rightarrow> set_comm s r ((comm s r)\<lparr>cm_expiresAt := challengedAt + resolveWindow,
                                          cm_challengeStatus := ChallengeActive\<rparr>)
      | None \<Rightarrow> s)"

definition SetResolvedChallenge :: "PState \<Rightarrow> bytes \<Rightarrow> bytes \<Rightarrow> u64 \<Rightarrow> PState" where
  "SetResolvedChallenge s key input resolvedAt =
     (case st_commsByKey s key of
        Some r \<Rightarrow> set_comm s r ((comm s r)\<lparr>cm_challengeStatus := ChallengeResolved,
                                          cm_expiresAt := resolvedAt, cm_input := input\<rparr>)
      | None \<Rightarrow> s)"

text \<open>The result is the pointer to the new commitment.\<close>

definition SetInputCommitment :: "PState \<Rightarrow> bytes \<Rightarrow> u64 \<Rightarrow> u64 \<Rightarrow> nat \<times> PState" where
  "SetInputCommitment s key committedAt challengeWindow =
     (length (st_store s),
      push_comm s \<lparr>cm_key = key, cm_input = [], cm_expiresAt = committedAt + challengeWindow,
                   cm_blockNumber = committedAt, cm_challengeStatus = ChallengeUninitialized, cm_canonical = True\<rparr>)"

definition GetOrTrackChallenge :: "PState \<Rightarrow> bytes \<Rightarrow> u64 \<Rightarrow> u64 \<Rightarrow> nat \<times> PState" where
  "GetOrTrackChallenge s key bn challengeWindow =
     (case st_commsByKey s key of
        Some r \<Rightarrow> (r, set_comm s r ((comm s r)\<lparr>cm_canonical := True\<rparr>))
      | None \<Rightarrow> SetInputCommitment s key bn challengeWindow)"

definition GetResolvedInput :: "PState \<Rightarrow> bytes \<Rightarrow> bytes res" where
  "GetResolvedInput s key =
     (case st_commsByKey s key of
        Some r \<Rightarrow> Inr (cm_input (comm s r))
      | None \<Rightarrow> Inl (Msg ''commitment not found''))"

text \<open>One round of the loop of \<open>ExpireChallenges\<close>: the head of the active queue moves to the other one.\<close>

definition expire_head :: "PState \<Rightarrow> gerr option \<Rightarrow> nat \<Rightarrow> nat list \<Rightarrow> PState \<times> gerr option" where
  "expire_head s err r active =
     (let s = s\<lparr>st_activeComms := active,
                st_expiredComms := heap_Push (comm_block (st_store s)) r (st_expiredComms s)\<rparr>;
          s = (if cm_canonical (comm s r) then s\<lparr>st_finalized := cm_blockNumber (comm s r)\<rparr> else s)
      in if cm_challengeStatus (comm s r) = ChallengeActive then
           (set_comm s r ((comm s r)\<lparr>cm_challengeStatus := ChallengeExpired\<rparr>),
            if cm_canonical (comm s r) then Some ErrReorgRequired else err)
         else (s, err))"

lemma heap_Pop_length: "heap_Pop key xs = Some (x, ys) \<Longrightarrow> length ys < length xs"
  by (simp add: heap.pop_length)

lemma expire_head_queues [simp]:
  "st_activeComms (fst (expire_head s err r active)) = active"
  "st_expiredComms (fst (expire_head s err r active)) = heap_Push (comm_block (st_store s)) r (st_expiredComms s)"
  "st_commsByKey (fst (expire_head s err r active)) = st_commsByKey s"
  by (simp_all add: expire_head_def Let_def set_comm_def comm_def)

function expire_loop :: "u64 \<Rightarrow> gerr option \<Rightarrow> PState \<Rightarrow> gerr option \<times> PState" where
  "expire_loop bn err s =
     (if st_activeComms s = [] then (err, s)
      else (let c = comm s (st_activeComms s ! 0) in
            if \<not> (cm_expiresAt c \<le> bn \<and> cm_blockNumber c > st_finalized s) then (err, s)
            else (case heap_Pop (comm_block (st_store s)) (st_activeComms s) of
                    None \<Rightarrow> (err, s)
                  | Some (r, active) \<Rightarrow>
                      expire_loop bn (snd (expire_head s err r active)) (fst (expire_head s err r active)))))"
  by pat_completeness auto

termination expire_loop
  by (relation "measure (\<lambda>(bn, err, s). length (st_activeComms s))") (auto dest: heap_Pop_length)

declare expire_loop.simps [simp del]

definition ExpireChallenges :: "PState \<Rightarrow> u64 \<Rightarrow> (u64 \<times> gerr option) \<times> PState" where
  "ExpireChallenges s bn = (case expire_loop bn None s of (err, s) \<Rightarrow> ((st_finalized s, err), s))"

definition commPruneMargin :: u64 where "commPruneMargin = 200"

function prune_expired :: "u64 \<Rightarrow> PState \<Rightarrow> PState" where
  "prune_expired bn s =
     (if st_expiredComms s = [] then s
      else if \<not> cm_blockNumber (comm s (st_expiredComms s ! 0)) < bn then s
      else (case heap_Pop (comm_block (st_store s)) (st_expiredComms s) of
              None \<Rightarrow> s
            | Some (r, expired) \<Rightarrow>
                prune_expired bn (s\<lparr>st_expiredComms := expired,
                                 st_commsByKey := (st_commsByKey s)(cm_key (comm s r) := None)\<rparr>)))"
  by pat_completeness auto

termination prune_expired
  by (relation "measure (\<lambda>(bn, s). length (st_expiredComms s))") (auto dest: heap_Pop_length)

declare prune_expired.simps [simp del]

definition Prune :: "PState \<Rightarrow> u64 \<Rightarrow> PState" where
  "Prune s bn = prune_expired (if bn > commPruneMargin then bn - commPruneMargin else 0) s"

definition State_Reset :: "PState \<Rightarrow> PState" where
  "State_Reset s = s\<lparr>st_activeComms := [], st_expiredComms := [], st_finalized := 0, st_commsByKey := (\<lambda>_. None)\<rparr>"

section \<open>Invariant\<close>

text \<open>Both queues are heaps of commitments, together they have every commitment that the map of keys
  has, each once and under its own key.\<close>

definition tracked :: "PState \<Rightarrow> nat set" where
  "tracked s = set (st_activeComms s) \<union> set (st_expiredComms s)"

definition state_inv :: "PState \<Rightarrow> bool" where
  "state_inv s \<longleftrightarrow>
     heap_ok (comm_block (st_store s)) (st_activeComms s) \<and> heap_ok (comm_block (st_store s)) (st_expiredComms s) \<and>
     distinct (st_activeComms s @ st_expiredComms s) \<and> tracked s \<subseteq> {..<length (st_store s)} \<and>
     (\<forall>k r. st_commsByKey s k = Some r \<longleftrightarrow> r \<in> tracked s \<and> cm_key (comm s r) = k)"

lemma heap_ok_cong:
  assumes "\<And>x. x \<in> set xs \<Longrightarrow> k x = k' x"
  shows "heap_ok k xs = heap_ok k' xs"
proof -
  have "(j - 1) div 2 < length xs" if "j < length xs" for j using that by linarith
  then show ?thesis unfolding heap_ok_def heap_upto_def using assms by simp
qed

text \<open>A commitment changes in place, its key and block number stay.\<close>

lemma set_comm_inv [inv_intros]:
  assumes "state_inv s" "cm_key c = cm_key (comm s r)" "cm_blockNumber c = cm_blockNumber (comm s r)"
  shows "state_inv (set_comm s r c)"
proof -
  have "comm_block ((st_store s)[r := c]) x = comm_block (st_store s) x" for x
    using assms(3) by (cases "x = r") (auto simp: comm_block_def comm_def nth_list_update, metis list_update_beyond nth_list_update_eq linorder_not_less)
  then have k: "comm_block ((st_store s)[r := c]) = comm_block (st_store s)" by blast
  have "cm_key ((st_store s)[r := c] ! x) = cm_key (st_store s ! x)" for x
    using assms(2) by (cases "x = r") (auto simp: comm_def, metis list_update_beyond nth_list_update_eq linorder_not_less)
  then show ?thesis using assms(1) k by (simp add: state_inv_def set_comm_def tracked_def comm_def)
qed

lemma push_comm_inv [inv_intros]:
  assumes "state_inv s" "st_commsByKey s (cm_key c) = None"
  shows "state_inv (push_comm s c)"
proof -
  let ?cs = "st_store s @ [c]"
  let ?n = "length (st_store s)"
  have sub: "x < ?n" if "x \<in> tracked s" for x using assms(1) that by (auto simp: state_inv_def)
  have fresh: "?n \<notin> set (st_activeComms s)" "?n \<notin> set (st_expiredComms s)" using sub by (auto simp: tracked_def)
  have k: "comm_block ?cs x = comm_block (st_store s) x" if "x \<in> tracked s" for x
    using sub [OF that] by (simp add: comm_block_def nth_append)
  have h: "heap_ok (comm_block ?cs) (st_activeComms s)" "heap_ok (comm_block ?cs) (st_expiredComms s)"
    using assms(1) heap_ok_cong [of _ "comm_block ?cs" "comm_block (st_store s)"] k
    by (auto simp: state_inv_def tracked_def)
  have cm: "comm (push_comm s c) x = (if x = ?n then c else comm s x)" if "x \<in> insert ?n (tracked s)" for x
    using that sub by (auto simp: push_comm_def Let_def comm_def nth_append)
  have t: "tracked (push_comm s c) = insert ?n (tracked s)"
    by (simp add: push_comm_def Let_def tracked_def heap.push_set)
  have "st_commsByKey (push_comm s c) key = Some r \<longleftrightarrow> r \<in> tracked (push_comm s c) \<and> cm_key (comm (push_comm s c) r) = key" for key r
  proof -
    have "st_commsByKey s (cm_key c) \<noteq> Some r" using assms(2) by simp
    then have no: "r \<in> tracked s \<Longrightarrow> cm_key (comm s r) \<noteq> cm_key c" using assms(1) by (auto simp: state_inv_def)
    have old: "st_commsByKey s key = Some r \<longleftrightarrow> r \<in> tracked s \<and> cm_key (comm s r) = key"
      using assms(1) by (simp add: state_inv_def)
    have m: "st_commsByKey (push_comm s c) = (st_commsByKey s)(cm_key c := Some ?n)" by (simp add: push_comm_def Let_def)
    have n: "?n \<notin> tracked s" using sub by blast
    then have "st_commsByKey s k \<noteq> Some ?n" for k using assms(1) by (simp add: state_inv_def)
    then show ?thesis
      unfolding m t using old no cm [of r] n by (cases "r = ?n") auto
  qed
  moreover have "tracked (push_comm s c) \<subseteq> {..<length (st_store (push_comm s c))}"
    unfolding t using sub by (auto simp: push_comm_def Let_def less_Suc_eq)
  ultimately show ?thesis
    using h heap_Push_ok fresh assms(1)
    by (simp add: state_inv_def push_comm_def Let_def heap.push_distinct heap.push_set)
qed

lemma NewState_inv [simp]: "state_inv NewState"
  by (simp add: state_inv_def NewState_def tracked_def heap.empty_ordered)

lemma Reset_inv [simp, inv_intros]: "state_inv (State_Reset s)"
  by (simp add: state_inv_def State_Reset_def tracked_def heap.empty_ordered)

lemma TrackDetached_inv [inv_intros]:
  "state_inv s \<Longrightarrow> st_commsByKey s key = None \<Longrightarrow> state_inv (TrackDetachedCommitment s key bn)"
  by (simp add: TrackDetachedCommitment_def push_comm_inv)

lemma IsTracking_inv [inv_intros]: "state_inv s \<Longrightarrow> state_inv (snd (IsTracking s key bn))"
  by (simp add: IsTracking_def TrackDetached_inv split: option.splits)

lemma SetActiveChallenge_inv [inv_intros]: "state_inv s \<Longrightarrow> state_inv (SetActiveChallenge s key a w)"
  by (simp add: SetActiveChallenge_def set_comm_inv split: option.splits)

lemma SetResolvedChallenge_inv [inv_intros]: "state_inv s \<Longrightarrow> state_inv (SetResolvedChallenge s key i a)"
  by (simp add: SetResolvedChallenge_def set_comm_inv split: option.splits)

lemma GetOrTrackChallenge_inv [inv_intros]: "state_inv s \<Longrightarrow> state_inv (snd (GetOrTrackChallenge s key bn w))"
  by (simp add: GetOrTrackChallenge_def SetInputCommitment_def set_comm_inv push_comm_inv split: option.splits)

text \<open>A round of the loop moves the head; only its status can change.\<close>

lemma move_inv:
  assumes i: "state_inv s" and p: "heap_Pop (comm_block (st_store s)) (st_activeComms s) = Some (r, active)"
  shows "state_inv (s\<lparr>st_activeComms := active, st_expiredComms := heap_Push (comm_block (st_store s)) r (st_expiredComms s)\<rparr>)"
    (is "state_inv ?s")
proof -
  have t: "tracked ?s = tracked s" by (auto simp: tracked_def heap.push_set heap.pop_set [OF p])
  have "distinct (active @ heap_Push (comm_block (st_store s)) r (st_expiredComms s))"
    using i heap.pop_distinct [OF p] heap.pop_set [OF p]
    by (auto simp: state_inv_def heap.push_distinct heap.push_set)
  then show ?thesis
    using i heap.pop_ordered [OF _ p] heap_Push_ok unfolding state_inv_def t by (auto simp: comm_def)
qed

lemma state_inv_finalized [simp]: "state_inv (s\<lparr>st_finalized := x\<rparr>) = state_inv s"
  by (simp add: state_inv_def tracked_def comm_def)

lemma expire_head_inv:
  assumes "state_inv s" "heap_Pop (comm_block (st_store s)) (st_activeComms s) = Some (r, active)"
  shows "state_inv (fst (expire_head s err r active))"
  using move_inv [OF assms] set_comm_inv [of "s\<lparr>st_activeComms := active, st_expiredComms := _, st_finalized := _\<rparr>"]
  by (simp add: expire_head_def Let_def set_comm_inv comm_def)

lemma length_expire_head [simp]: "length (st_store (fst (expire_head s err r active))) = length (st_store s)"
  by (simp add: expire_head_def Let_def set_comm_def)

lemma comm_expire_head:
  assumes "r < length (st_store s)"
  shows "comm (fst (expire_head s err r active)) x =
    (if x = r \<and> cm_challengeStatus (comm s x) = ChallengeActive
     then (comm s x)\<lparr>cm_challengeStatus := ChallengeExpired\<rparr> else comm s x)"
  using assms by (auto simp: expire_head_def Let_def set_comm_def comm_def nth_list_update)

section \<open>What ExpireChallenges does\<close>

text \<open>The commitments that a call moves, in this order, and the finalized number after them.\<close>

definition advance :: "PState \<Rightarrow> u64 \<Rightarrow> nat \<Rightarrow> u64" where
  "advance s f r = (if cm_canonical (comm s r) then cm_blockNumber (comm s r) else f)"

abbreviation blockNum :: "PState \<Rightarrow> nat \<Rightarrow> u64" where
  "blockNum s r \<equiv> cm_blockNumber (comm s r)"

definition reorg_needed :: "PState \<Rightarrow> nat \<Rightarrow> bool" where
  "reorg_needed s r \<longleftrightarrow> cm_canonical (comm s r) \<and> cm_challengeStatus (comm s r) = ChallengeActive"

definition expire_stops :: "u64 \<Rightarrow> PState \<Rightarrow> bool" where
  "expire_stops bn s \<longleftrightarrow>
     st_activeComms s = [] \<or> bn < cm_expiresAt (comm s (st_activeComms s ! 0)) \<or>
     blockNum s (st_activeComms s ! 0) \<le> st_finalized s"

definition expired_by :: "u64 \<Rightarrow> nat list \<Rightarrow> PState \<Rightarrow> PState \<Rightarrow> bool" where
  "expired_by bn ps s s' \<longleftrightarrow>
     mset (st_activeComms s) = mset ps + mset (st_activeComms s') \<and>
     mset (st_expiredComms s') = mset ps + mset (st_expiredComms s) \<and>
     sorted (map (blockNum s) ps) \<and> (\<forall>r\<in>set ps. cm_expiresAt (comm s r) \<le> bn) \<and>
     (\<forall>r\<in>set ps. \<forall>q\<in>set (st_activeComms s'). blockNum s r \<le> blockNum s q) \<and>
     (\<forall>i<length ps. foldl (advance s) (st_finalized s) (take i ps) < blockNum s (ps ! i)) \<and>
     st_finalized s' = foldl (advance s) (st_finalized s) ps \<and>
     (\<forall>r. comm s' r = (if r \<in> set ps \<and> cm_challengeStatus (comm s r) = ChallengeActive
                        then (comm s r)\<lparr>cm_challengeStatus := ChallengeExpired\<rparr> else comm s r)) \<and>
     length (st_store s') = length (st_store s) \<and> st_commsByKey s' = st_commsByKey s \<and> expire_stops bn s'"

lemma expired_byD:
  assumes "expired_by bn ps s s'"
  shows "mset (st_activeComms s) = mset ps + mset (st_activeComms s')"
    "mset (st_expiredComms s') = mset ps + mset (st_expiredComms s)"
    "sorted (map (blockNum s) ps)" "\<forall>r\<in>set ps. cm_expiresAt (comm s r) \<le> bn"
    "\<forall>r\<in>set ps. \<forall>q\<in>set (st_activeComms s'). blockNum s r \<le> blockNum s q"
    "\<forall>i<length ps. foldl (advance s) (st_finalized s) (take i ps) < blockNum s (ps ! i)"
    "st_finalized s' = foldl (advance s) (st_finalized s) ps"
    "comm s' r = (if r \<in> set ps \<and> cm_challengeStatus (comm s r) = ChallengeActive
                  then (comm s r)\<lparr>cm_challengeStatus := ChallengeExpired\<rparr> else comm s r)"
    "length (st_store s') = length (st_store s)" "st_commsByKey s' = st_commsByKey s" "expire_stops bn s'"
  using assms unfolding expired_by_def by blast+

lemma expired_by_Nil: "expire_stops bn s \<Longrightarrow> expired_by bn [] s s"
  by (simp add: expired_by_def)

lemma expired_by_Cons:
  assumes i: "state_inv s" and p: "heap_Pop (comm_block (st_store s)) (st_activeComms s) = Some (r, active)"
    and e: "cm_expiresAt (comm s r) \<le> bn" "st_finalized s < blockNum s r"
    and x: "expired_by bn ps (fst (expire_head s err r active)) s'"
  shows "expired_by bn (r # ps) s s'"
proof -
  let ?s = "fst (expire_head s err r active)"
  have r: "r \<in> set (st_activeComms s)" using heap.pop_set [OF p] by blast
  then have rl: "r < length (st_store s)" using i by (auto simp: state_inv_def tracked_def)
  note c = comm_expire_head [OF rl, of err active]
  have ps: "set ps \<subseteq> set active" and a': "set (st_activeComms s') \<subseteq> set active"
    using x arg_cong [of _ _ set_mset] unfolding expired_by_def by (metis expire_head_queues(1) set_mset_mset set_mset_union Un_upper1 Un_upper2)+
  have rn: "r \<notin> set active" using heap.pop_distinct [OF p] i by (simp add: state_inv_def)
  then have rps: "r \<notin> set ps" using ps by blast
  have blk: "blockNum ?s y = blockNum s y" "cm_canonical (comm ?s y) = cm_canonical (comm s y)"
    "cm_expiresAt (comm ?s y) = cm_expiresAt (comm s y)" for y
    by (simp_all add: c)
  have adv: "advance ?s = advance s" by (rule ext)+ (simp add: advance_def blk)
  have fin: "st_finalized ?s = advance s (st_finalized s) r"
    by (simp add: expire_head_def Let_def set_comm_def comm_def advance_def)
  have least: "blockNum s r \<le> blockNum s y" if "y \<in> set active" for y
    using heap.pop_least [OF _ p that] i by (simp add: state_inv_def comm_block_def comm_def)
  have xs: "sorted (map (blockNum s) ps)" "\<forall>y\<in>set ps. cm_expiresAt (comm s y) \<le> bn"
    "\<forall>y\<in>set ps. \<forall>q\<in>set (st_activeComms s'). blockNum s y \<le> blockNum s q"
    using x unfolding expired_by_def blk by blast+
  show ?thesis
    unfolding expired_by_def
  proof (intro conjI allI impI)
    show "mset (st_activeComms s) = mset (r # ps) + mset (st_activeComms s')"
      "mset (st_expiredComms s') = mset (r # ps) + mset (st_expiredComms s)"
      using x heap.pop_mset [OF p] by (simp_all add: expired_by_def heap.push_mset)
    show "sorted (map (blockNum s) (r # ps))" "\<forall>y\<in>set (r # ps). cm_expiresAt (comm s y) \<le> bn"
      "\<forall>y\<in>set (r # ps). \<forall>q\<in>set (st_activeComms s'). blockNum s y \<le> blockNum s q"
      using least ps a' e(1) xs by auto
    show "foldl (advance s) (st_finalized s) (take j (r # ps)) < blockNum s ((r # ps) ! j)" if "j < length (r # ps)" for j
      using that e(2) x by (cases j) (simp_all add: expired_by_def adv fin blk)
    show "comm s' y = (if y \<in> set (r # ps) \<and> cm_challengeStatus (comm s y) = ChallengeActive
        then (comm s y)\<lparr>cm_challengeStatus := ChallengeExpired\<rparr> else comm s y)" for y
    proof -
      have "comm s' y = (if y \<in> set ps \<and> cm_challengeStatus (comm ?s y) = ChallengeActive
        then (comm ?s y)\<lparr>cm_challengeStatus := ChallengeExpired\<rparr> else comm ?s y)"
        using x unfolding expired_by_def by blast
      then show ?thesis using rps by (cases "y = r") (simp_all add: c)
    qed
    show "st_finalized s' = foldl (advance s) (st_finalized s) (r # ps)"
      "length (st_store s') = length (st_store s)" "st_commsByKey s' = st_commsByKey s" "expire_stops bn s'"
      using x unfolding expired_by_def adv fin by simp_all
  qed
qed

lemma expire_loop_spec:
  "state_inv s \<Longrightarrow> expire_loop bn err s = (err', s') \<Longrightarrow>
   \<exists>ps. expired_by bn ps s s' \<and> state_inv s' \<and>
        err' = (if \<exists>r\<in>set ps. reorg_needed s r then Some ErrReorgRequired else err)"
proof (induction bn err s arbitrary: err' s' rule: expire_loop.induct)
  case (1 bn err s)
  let ?c = "comm s (st_activeComms s ! 0)"
  show ?case
  proof (cases "st_activeComms s = [] \<or> \<not> (cm_expiresAt ?c \<le> bn \<and> cm_blockNumber ?c > st_finalized s)")
    case True
    then have "expire_loop bn err s = (err, s)" by (subst expire_loop.simps) (auto simp only: Let_def split: if_splits)
    then have "err' = err" "s' = s" using "1.prems"(2) by simp_all
    moreover have "expired_by bn [] s s" by (rule expired_by_Nil) (use True in \<open>auto simp: expire_stops_def\<close>)
    ultimately show ?thesis using "1.prems"(1) by (intro exI [of _ "[]"]) simp
  next
    case False
    then obtain r active where p: "heap_Pop (comm_block (st_store s)) (st_activeComms s) = Some (r, active)"
      using heap.pop_some by blast
    have r: "r = st_activeComms s ! 0" using heap.pop_head [OF p] by simp
    have rin: "r \<in> set (st_activeComms s)" using heap.pop_set [OF p] by blast
    then have rl: "r < length (st_store s)" using "1.prems"(1) by (auto simp: state_inv_def tracked_def)
    let ?s = "fst (expire_head s err r active)"
    let ?e = "snd (expire_head s err r active)"
    have "expire_loop bn ?e ?s = (err', s')"
      using "1.prems"(2) False p by (subst (asm) expire_loop.simps) (simp add: Let_def)
    then obtain ps where ps: "expired_by bn ps ?s s'" "state_inv s'"
      "err' = (if \<exists>x\<in>set ps. reorg_needed ?s x then Some ErrReorgRequired else ?e)"
      using "1.IH" [OF _ refl _ p refl] False expire_head_inv [OF "1.prems"(1) p] by blast
    have "set ps \<subseteq> set active"
      using ps(1) unfolding expired_by_def by (metis expire_head_queues(1) set_mset_mset set_mset_union Un_upper1)
    then have "r \<notin> set ps" using heap.pop_distinct [OF p] "1.prems"(1) by (auto simp: state_inv_def)
    then have "reorg_needed ?s x = reorg_needed s x" if "x \<in> set ps" for x
      using that by (auto simp: reorg_needed_def comm_expire_head [OF rl])
    moreover have "?e = (if reorg_needed s r then Some ErrReorgRequired else err)"
      by (simp add: expire_head_def Let_def reorg_needed_def comm_def set_comm_def)
    ultimately have "err' = (if \<exists>x\<in>set (r # ps). reorg_needed s x then Some ErrReorgRequired else err)"
      using ps(3) by auto
    moreover have "expired_by bn (r # ps) s s'"
      using expired_by_Cons [OF "1.prems"(1) p _ _ ps(1)] False r by simp
    ultimately show ?thesis using ps(2) by blast
  qed
qed

text \<open>The bounds that follow, and the part of the queue that a call moves.\<close>

lemma expired_by_sets:
  assumes "expired_by bn ps s s'"
  shows "set (st_activeComms s) = set ps \<union> set (st_activeComms s')"
  using assms unfolding expired_by_def by (metis set_mset_mset set_mset_union)

lemma expired_by_disjoint:
  assumes "expired_by bn ps s s'" "state_inv s"
  shows "distinct ps" "set ps \<inter> set (st_activeComms s') = {}"
proof -
  have "mset (st_activeComms s) = mset (ps @ st_activeComms s')" using assms(1) by (simp add: expired_by_def)
  then have "distinct (ps @ st_activeComms s')"
    using assms(2) mset_eq_imp_distinct_iff unfolding state_inv_def by (metis distinct_append)
  then show "distinct ps" "set ps \<inter> set (st_activeComms s') = {}" by simp_all
qed

lemma foldl_advance:
  "foldl (advance s) f ps = f \<or> (\<exists>r\<in>set ps. cm_canonical (comm s r) \<and> foldl (advance s) f ps = blockNum s r)"
  by (induction ps arbitrary: f) (auto simp: advance_def)

lemma foldl_advance_le:
  assumes "\<And>i. i < length ps \<Longrightarrow> foldl (advance s) f (take i ps) < blockNum s (ps ! i)"
  shows "f \<le> foldl (advance s) f ps"
  using assms
proof (induction ps rule: rev_induct)
  case (snoc p ps)
  have "f \<le> foldl (advance s) f ps"
  proof (rule snoc.IH)
    fix i
    assume "i < length ps"
    then show "foldl (advance s) f (take i ps) < blockNum s (ps ! i)"
      using snoc.prems [of i] by (simp add: nth_append)
  qed
  moreover have "foldl (advance s) f ps < blockNum s p" using snoc.prems [of "length ps"] by simp
  ultimately show ?case by (auto simp: advance_def [of s "foldl (advance s) f ps" p] dest: order_le_less_trans)
qed simp

lemma expired_by_finalized:
  assumes "expired_by bn ps s s'"
  shows "st_finalized s \<le> st_finalized s'"
    and "st_finalized s' = st_finalized s \<or>
      (\<exists>r\<in>set ps. cm_canonical (comm s r) \<and> st_finalized s' = blockNum s r \<and>
                   (\<forall>q\<in>set (st_activeComms s'). st_finalized s' \<le> blockNum s q))"
proof -
  have fin: "st_finalized s' = foldl (advance s) (st_finalized s) ps"
    and above: "\<forall>i<length ps. foldl (advance s) (st_finalized s) (take i ps) < blockNum s (ps ! i)"
    and least: "\<forall>r\<in>set ps. \<forall>q\<in>set (st_activeComms s'). blockNum s r \<le> blockNum s q"
    using expired_byD [OF assms] by blast+
  show "st_finalized s \<le> st_finalized s'" unfolding fin using above by (intro foldl_advance_le) blast
  show "st_finalized s' = st_finalized s \<or>
      (\<exists>r\<in>set ps. cm_canonical (comm s r) \<and> st_finalized s' = blockNum s r \<and>
                   (\<forall>q\<in>set (st_activeComms s'). st_finalized s' \<le> blockNum s q))"
    using foldl_advance [of s "st_finalized s" ps] least unfolding fin by metis
qed

lemma expired_by_block:
  assumes "expired_by bn ps s s'"
  shows "blockNum s' r = blockNum s r" "cm_expiresAt (comm s' r) = cm_expiresAt (comm s r)"
    "cm_canonical (comm s' r) = cm_canonical (comm s r)" "cm_key (comm s' r) = cm_key (comm s r)"
  by (simp_all add: expired_byD(8) [OF assms])

text \<open>Every moved commitment is beyond the finalized number, and a canonical one beyond all moved before it.\<close>

lemma expired_by_above:
  assumes "expired_by bn ps s s'" "i < j" "j < length ps" "cm_canonical (comm s (ps ! i))"
  shows "blockNum s (ps ! i) < blockNum s (ps ! j)"
proof -
  have above: "foldl (advance s) (st_finalized s) (take k ps) < blockNum s (ps ! k)" if "k < length ps" for k
    using expired_byD(6) [OF assms(1)] that by blast
  define qs where "qs = drop (Suc i) (take j ps)"
  have tk: "take j ps = take i ps @ ps ! i # qs"
    using id_take_nth_drop [of i "take j ps"] assms(2,3) by (simp add: qs_def min_def)
  have "blockNum s (ps ! i) \<le> foldl (advance s) (blockNum s (ps ! i)) qs"
  proof (rule foldl_advance_le)
    fix k
    assume k: "k < length qs"
    then have j: "Suc i + k < j" using assms(2,3) by (simp add: qs_def)
    have "take (Suc i + k) ps = take (Suc i + k) (take j ps)" using j by (simp add: min_def)
    also have "\<dots> = take i ps @ ps ! i # take k qs" unfolding tk using assms(2,3) by (simp add: min_def)
    finally have "take (Suc i + k) ps = take i ps @ ps ! i # take k qs" .
    moreover have "qs ! k = ps ! (Suc i + k)" using k j assms(3) by (simp add: qs_def)
    moreover have "Suc i + k < length ps" using j assms(3) by simp
    ultimately show "foldl (advance s) (blockNum s (ps ! i)) (take k qs) < blockNum s (qs ! k)"
      using above [of "Suc i + k"] assms(4) by (simp add: advance_def)
  qed
  also have "\<dots> = foldl (advance s) (st_finalized s) (take j ps)" using assms(4) by (simp add: tk advance_def)
  also have "\<dots> < blockNum s (ps ! j)" using above [OF assms(3)] .
  finally show ?thesis .
qed

lemma ExpireChallenges_moves:
  assumes "state_inv s"
  obtains ps s' where
    "ExpireChallenges s bn = ((st_finalized s', if \<exists>r\<in>set ps. reorg_needed s r then Some ErrReorgRequired else None), s')"
    "expired_by bn ps s s'" "state_inv s'"
  using expire_loop_spec [OF assms, of bn None] unfolding ExpireChallenges_def
  by (cases "expire_loop bn None s") fastforce

lemma ExpireChallenges_inv [inv_intros]: "state_inv s \<Longrightarrow> state_inv (snd (ExpireChallenges s bn))"
  by (elim ExpireChallenges_moves [of s bn]) simp

section \<open>Pruning\<close>

lemma prune_pop_inv:
  assumes i: "state_inv s" and p: "heap_Pop (comm_block (st_store s)) (st_expiredComms s) = Some (r, expired)"
  shows "state_inv (s\<lparr>st_expiredComms := expired, st_commsByKey := (st_commsByKey s)(cm_key (comm s r) := None)\<rparr>)"
    (is "state_inv ?s")
proof -
  have r: "r \<in> set (st_expiredComms s)" "r \<notin> set expired" "distinct expired"
    using heap.pop_set [OF p] heap.pop_distinct [OF p] i by (auto simp: state_inv_def)
  then have t: "tracked ?s = tracked s - {r}"
    using heap.pop_set [OF p] i by (auto simp: tracked_def state_inv_def)
  have rt: "r \<in> tracked s" using r by (simp add: tracked_def)
  have keys: "st_commsByKey s k = Some x \<longleftrightarrow> x \<in> tracked s \<and> cm_key (comm s x) = k" for k x
    using i unfolding state_inv_def by blast
  have "cm_key (comm s x) \<noteq> cm_key (comm s r)" if "x \<in> tracked s - {r}" for x
    using keys [of _ x] keys [of _ r] that rt by (metis DiffE insertI1 option.inject)
  then have "st_commsByKey ?s k = Some x \<longleftrightarrow> x \<in> tracked ?s \<and> cm_key (comm ?s x) = k" for k x
    using i rt by (auto simp: t comm_def [of ?s] state_inv_def) (auto simp: comm_def)
  then show ?thesis
    using i heap.pop_ordered [OF _ p] r heap.pop_set [OF p]
    unfolding state_inv_def by (auto simp: t)
qed

definition pruned_by :: "u64 \<Rightarrow> nat list \<Rightarrow> PState \<Rightarrow> PState \<Rightarrow> bool" where
  "pruned_by bn ps s s' \<longleftrightarrow>
     mset (st_expiredComms s) = mset ps + mset (st_expiredComms s') \<and>
     (\<forall>r\<in>set ps. blockNum s r < bn) \<and> (\<forall>r\<in>set (st_expiredComms s'). bn \<le> blockNum s r) \<and>
     st_commsByKey s' = (\<lambda>k. if \<exists>r\<in>set ps. cm_key (comm s r) = k then None else st_commsByKey s k) \<and>
     st_activeComms s' = st_activeComms s \<and> st_store s' = st_store s \<and> st_finalized s' = st_finalized s"

lemma prune_expired_spec:
  "state_inv s \<Longrightarrow> state_inv (prune_expired bn s) \<and> (\<exists>ps. pruned_by bn ps s (prune_expired bn s))"
proof (induction bn s rule: prune_expired.induct)
  case (1 bn s)
  show ?case
  proof (cases "st_expiredComms s = [] \<or> \<not> cm_blockNumber (comm s (st_expiredComms s ! 0)) < bn")
    case True
    then have e: "prune_expired bn s = s" by (subst prune_expired.simps) auto
    have "bn \<le> blockNum s r" if "r \<in> set (st_expiredComms s)" for r
      using heap.head_least [of "comm_block (st_store s)" "st_expiredComms s" r] that True "1.prems"
      by (auto simp: state_inv_def comm_block_def comm_def)
    then have "pruned_by bn [] s s" by (auto simp: pruned_by_def)
    then show ?thesis unfolding e using "1.prems" by blast
  next
    case False
    then obtain r expired where p: "heap_Pop (comm_block (st_store s)) (st_expiredComms s) = Some (r, expired)"
      using heap.pop_some by blast
    have r: "r = st_expiredComms s ! 0" using heap.pop_head [OF p] by simp
    let ?s = "s\<lparr>st_expiredComms := expired, st_commsByKey := (st_commsByKey s)(cm_key (comm s r) := None)\<rparr>"
    have e: "prune_expired bn s = prune_expired bn ?s" using False p by (subst prune_expired.simps) simp
    obtain ps where ps: "pruned_by bn ps ?s (prune_expired bn ?s)" "state_inv (prune_expired bn ?s)"
      using "1.IH" [OF _ _ p refl] False prune_pop_inv [OF "1.prems" p] by blast
    have "pruned_by bn (r # ps) s (prune_expired bn ?s)"
      using ps(1) False r heap.pop_mset [OF p] unfolding pruned_by_def by (auto simp: comm_def)
    then show ?thesis unfolding e using ps(2) by blast
  qed
qed

lemma Prune_inv [inv_intros]: "state_inv s \<Longrightarrow> state_inv (Prune s bn)"
  using prune_expired_spec [of s] by (simp add: Prune_def)

section \<open>The reference, and where the queue stalls\<close>

text \<open>The commitments whose window has passed together with that of all older ones.\<close>

definition ready :: "u64 \<Rightarrow> PState \<Rightarrow> nat set" where
  "ready bn s = {r \<in> set (st_activeComms s). \<forall>q \<in> set (st_activeComms s). blockNum s q \<le> blockNum s r \<longrightarrow> cm_expiresAt (comm s q) \<le> bn}"

lemma expired_by_ready:
  assumes x: "expired_by bn ps s s'" and i: "state_inv s" "state_inv s'"
    and inj: "inj_on (blockNum s) (set (st_activeComms s))"
    and above: "\<forall>r\<in>set (st_activeComms s). st_finalized s < blockNum s r"
  shows "set ps = ready bn s"
proof
  note u = expired_by_sets [OF x]
  note d = expired_by_disjoint(2) [OF x i(1)]
  note e = expired_byD(4,5) [OF x]
  show "set ps \<subseteq> ready bn s"
  proof
    fix r
    assume r: "r \<in> set ps"
    have "q \<in> set ps" if "q \<in> set (st_activeComms s)" "blockNum s q \<le> blockNum s r" for q
    proof (rule ccontr)
      assume q: "q \<notin> set ps"
      then have "q \<in> set (st_activeComms s')" using that(1) u by blast
      then have "blockNum s r = blockNum s q" using e(2) r that(2) by force
      then have "r = q" using inj r that(1) u by (auto dest: inj_onD)
      then show False using q r by simp
    qed
    then show "r \<in> ready bn s" using r u e(1) unfolding ready_def by blast
  qed
  show "ready bn s \<subseteq> set ps"
  proof
    fix r
    assume r: "r \<in> ready bn s"
    show "r \<in> set ps"
    proof (rule ccontr)
      assume "r \<notin> set ps"
      then have ra: "r \<in> set (st_activeComms s')" using r u by (auto simp: ready_def)
      let ?h = "st_activeComms s' ! 0"
      have h: "?h \<in> set (st_activeComms s')" using ra by (cases "st_activeComms s'") auto
      have hs: "?h \<in> set (st_activeComms s)" using h u by blast
      have "blockNum s' ?h \<le> blockNum s' r"
        using heap.head_least [of "comm_block (st_store s')" "st_activeComms s'" r] i(2) ra
        by (simp add: state_inv_def comm_block_def comm_def)
      then have "cm_expiresAt (comm s ?h) \<le> bn" using r hs unfolding ready_def expired_by_block [OF x] by blast
      then have le: "blockNum s ?h \<le> st_finalized s'"
        using expired_byD(11) [OF x] h unfolding expire_stops_def expired_by_block [OF x] by (metis empty_iff leD list.set(1))
      consider "st_finalized s' = st_finalized s" | p where "p \<in> set ps" "st_finalized s' = blockNum s p"
        using expired_by_finalized(2) [OF x] by blast
      then show False
      proof cases
        case 1
        then show ?thesis using le above hs by (metis leD)
      next
        case 2
        then have "blockNum s p = blockNum s ?h" using le e(2) h by force
        then have "p = ?h" using inj 2(1) hs u by (auto dest: inj_onD)
        then show ?thesis using 2(1) h d by blast
      qed
    qed
  qed
qed

lemma Max_sorted_advance:
  assumes "sorted (map (blockNum s) ps)"
  shows "foldl (advance s) f ps =
    (if \<exists>r\<in>set ps. cm_canonical (comm s r) then Max (blockNum s ` {r \<in> set ps. cm_canonical (comm s r)}) else f)"
  using assms
proof (induction ps rule: rev_induct)
  case (snoc p ps)
  let ?C = "{r \<in> set ps. cm_canonical (comm s r)}"
  have le: "\<forall>r\<in>set ps. blockNum s r \<le> blockNum s p" using snoc.prems by (simp add: sorted_append)
  have "{r \<in> set (ps @ [p]). cm_canonical (comm s r)} = (if cm_canonical (comm s p) then insert p ?C else ?C)" by auto
  moreover have "Max (insert (blockNum s p) (blockNum s ` ?C)) = blockNum s p"
    by (rule Max_eqI) (use le in auto)
  moreover have "foldl (advance s) f (ps @ [p]) = (if cm_canonical (comm s p) then blockNum s p else foldl (advance s) f ps)"
    by (simp add: advance_def [of s "foldl (advance s) f ps" p])
  moreover have "sorted (map (blockNum s) ps)" using snoc.prems by (simp add: sorted_append)
  ultimately show ?case using snoc.IH by (cases "cm_canonical (comm s p)") simp_all
qed simp

definition stalled :: "PState \<Rightarrow> bool" where
  "stalled s \<longleftrightarrow> (\<exists>r\<in>set (st_activeComms s). blockNum s r \<le> st_finalized s)"

lemma stalled_expire:
  assumes i: "state_inv s" and st: "stalled s"
  shows "expire_loop bn err s = (err, s)"
proof -
  obtain r where r: "r \<in> set (st_activeComms s)" "blockNum s r \<le> st_finalized s" using st by (auto simp: stalled_def)
  have "blockNum s (st_activeComms s ! 0) \<le> blockNum s r"
    using heap.head_least [of "comm_block (st_store s)" "st_activeComms s" r] i r(1)
    by (simp add: state_inv_def comm_block_def comm_def)
  then have "\<not> (cm_expiresAt (comm s (st_activeComms s ! 0)) \<le> bn \<and> blockNum s (st_activeComms s ! 0) > st_finalized s)"
    using r(2) by (meson leD order_trans)
  then show ?thesis by (subst expire_loop.simps) (simp only: Let_def if_True not_False_eq_True simp_thms if_cancel)
qed

text \<open>Any operation on the state other than a reset.\<close>

inductive pstep :: "PState \<Rightarrow> PState \<Rightarrow> bool" where
  track: "pstep s (snd (IsTracking s key bn))"
| active: "pstep s (SetActiveChallenge s key at_block window)"
| resolved: "pstep s (SetResolvedChallenge s key input at_block)"
| commit: "pstep s (snd (GetOrTrackChallenge s key bn window))"
| expire: "pstep s (snd (ExpireChallenges s bn))"
| prune: "pstep s (Prune s bn)"

lemma pstep_inv: "pstep s s' \<Longrightarrow> state_inv s \<Longrightarrow> state_inv s'"
  by (induction rule: pstep.induct) (auto intro: inv_intros)

definition keeps_stall :: "PState \<Rightarrow> PState \<Rightarrow> bool" where
  "keeps_stall s s' \<longleftrightarrow> set (st_activeComms s) \<subseteq> set (st_activeComms s') \<and> st_finalized s' = st_finalized s \<and>
     (\<forall>r\<in>set (st_activeComms s). blockNum s' r = blockNum s r)"

lemma keeps_stall_set_comm [simp]: "cm_blockNumber c = blockNum s r \<Longrightarrow> keeps_stall s (set_comm s r c)"
  by (cases "r < length (st_store s)") (auto simp: keeps_stall_def set_comm_def comm_def nth_list_update list_update_beyond)

lemma keeps_stall_push [simp]:
  assumes "state_inv s"
  shows "keeps_stall s (push_comm s c)"
proof -
  have "r < length (st_store s)" if "r \<in> set (st_activeComms s)" for r
    using assms that by (auto simp: state_inv_def tracked_def)
  then have "blockNum (push_comm s c) r = blockNum s r" if "r \<in> set (st_activeComms s)" for r
    using that by (simp add: push_comm_def Let_def comm_def nth_append)
  moreover have "set (st_activeComms (push_comm s c)) = insert (length (st_store s)) (set (st_activeComms s))"
    "st_finalized (push_comm s c) = st_finalized s"
    by (simp_all add: push_comm_def Let_def heap.push_set)
  ultimately show ?thesis by (simp add: keeps_stall_def subset_insertI)
qed

lemma pstep_stalled:
  assumes "pstep s s'" "state_inv s" "stalled s"
  shows "keeps_stall s s'"
proof -
  have r [simp]: "keeps_stall s s" by (simp add: keeps_stall_def)
  show ?thesis
    using assms
  proof cases
    case (expire bn)
    then show ?thesis by (simp add: ExpireChallenges_def stalled_expire [OF assms(2,3)])
  next
    case (prune bn)
    define b where "b = (if bn > commPruneMargin then bn - commPruneMargin else 0)"
    obtain ps where "pruned_by b ps s (prune_expired b s)" using prune_expired_spec [OF assms(2)] by blast
    then show ?thesis using prune by (simp add: Prune_def b_def [symmetric] pruned_by_def keeps_stall_def comm_def)
  qed (use assms(2) in \<open>auto simp: IsTracking_def TrackDetachedCommitment_def SetActiveChallenge_def SetResolvedChallenge_def
        GetOrTrackChallenge_def SetInputCommitment_def split: option.splits\<close>)
qed

lemma psteps_stalled:
  assumes "pstep\<^sup>*\<^sup>* s s'" "state_inv s" "stalled s"
  shows "keeps_stall s s' \<and> state_inv s' \<and> stalled s'"
  using assms(1)
proof induction
  case base
  then show ?case using assms(2,3) by (simp add: keeps_stall_def)
next
  case (step t u)
  then have "keeps_stall t u" using pstep_stalled by blast
  then have k: "keeps_stall s u" using step.IH by (auto simp: keeps_stall_def)
  then have "stalled u" using assms(3) unfolding stalled_def keeps_stall_def by (metis subsetD)
  then show ?case using k step pstep_inv by blast
qed

section \<open>Properties\<close>


text \<open>C23: Two canonical commitments of one L1 block stop the queue. When one of them has expired and moved, the other
  one stays at a block that is not beyond the finalized number, so it is never moved: whatever
  is tracked, challenged, resolved, committed, expired and pruned after that, the finalized number
  stays, and no expired challenge asks for a reorg, until the state is reset.\<close>

theorem same_block_stalls:
  assumes "state_inv s" "r \<in> set (st_activeComms s)" "q \<in> set (st_activeComms s)" "r \<noteq> q"
    and "blockNum s r = blockNum s q" "cm_canonical (comm s r)" "cm_canonical (comm s q)"
    and "ExpireChallenges s bn = ((fin, err), s1)" "r \<notin> set (st_activeComms s1)" "pstep\<^sup>*\<^sup>* s1 s2"
  shows "q \<in> set (st_activeComms s2) \<and> blockNum s r \<le> fin \<and> ExpireChallenges s2 bn' = ((fin, None), s2)"
proof -
  obtain ps where x: "expired_by bn ps s s1" and i: "state_inv s1" and f: "fin = st_finalized s1"
    by (rule ExpireChallenges_moves [OF assms(1), of bn]) (use assms(8) in simp)
  note u = expired_by_sets [OF x]
  have rp: "r \<in> set ps" using u assms(2,9) by blast
  have "q \<notin> set ps"
  proof
    assume "q \<in> set ps"
    then obtain j k where "j < length ps" "k < length ps" "ps ! j = r" "ps ! k = q" using rp by (metis in_set_conv_nth)
    then show False
      using expired_by_above [OF x, of j k] expired_by_above [OF x, of k j] assms(4-7) by (cases j k rule: linorder_cases) auto
  qed
  then have q: "q \<in> set (st_activeComms s1)" using u assms(3) by blast
  have le: "blockNum s r \<le> fin"
  proof -
    obtain j where j: "j < length ps" "ps ! j = r" using rp by (metis in_set_conv_nth)
    have "take (Suc j) ps = take j ps @ [r]" using j by (simp add: take_Suc_conv_app_nth)
    then have "foldl (advance s) (st_finalized s) (take (Suc j) ps) = blockNum s r" using assms(6) by (simp add: advance_def)
    moreover have "foldl (advance s) (st_finalized s) (take (Suc j) ps) \<le>
        foldl (advance s) (foldl (advance s) (st_finalized s) (take (Suc j) ps)) (drop (Suc j) ps)"
    proof (rule foldl_advance_le)
      fix k
      assume "k < length (drop (Suc j) ps)"
      then show "foldl (advance s) (foldl (advance s) (st_finalized s) (take (Suc j) ps)) (take k (drop (Suc j) ps)) < blockNum s (drop (Suc j) ps ! k)"
        using expired_byD(6) [OF x] by (auto simp: take_add [symmetric] foldl_append [symmetric] dest: spec [of _ "Suc j + k"])
    qed
    ultimately show ?thesis
      using f expired_byD(7) [OF x] by (metis append_take_drop_id foldl_append)
  qed
  have "stalled s1" using q le f assms(5) by (auto simp: stalled_def expired_by_block [OF x])
  then have st: "keeps_stall s1 s2" "state_inv s2" "stalled s2" using psteps_stalled [OF assms(10) i] by blast+
  then have "q \<in> set (st_activeComms s2)" "st_finalized s2 = fin" using q f by (auto simp: keeps_stall_def)
  then show ?thesis using le by (simp add: ExpireChallenges_def stalled_expire [OF st(2,3)])
qed

definition two_comms :: "u64 \<Rightarrow> PState" where
  "two_comms bn = snd (SetInputCommitment (snd (SetInputCommitment NewState [1] 1 6)) [2] bn 6)"

lemma two_comms_eq:
  "bn \<noteq> 0 \<Longrightarrow> two_comms bn =
    \<lparr>st_store = [\<lparr>cm_key = [1], cm_input = [], cm_expiresAt = 7, cm_blockNumber = 1, cm_challengeStatus = 0, cm_canonical = True\<rparr>,
                 \<lparr>cm_key = [2], cm_input = [], cm_expiresAt = bn + 6, cm_blockNumber = bn, cm_challengeStatus = 0, cm_canonical = True\<rparr>],
     st_activeComms = [0, 1], st_expiredComms = [], st_commsByKey = (\<lambda>_. None)([1] := Some 0, [2] := Some 1), st_finalized = 0\<rparr>"
  by (simp add: two_comms_def SetInputCommitment_def push_comm_def NewState_def Let_def heap_Push_def heap_up.simps
      comm_block_def ChallengeUninitialized_def)

lemma two_comms_inv: "state_inv (two_comms bn)"
  unfolding two_comms_def SetInputCommitment_def snd_conv
  by (intro push_comm_inv NewState_inv) (simp_all add: push_comm_def Let_def NewState_def)


theorem same_block_stalls_witness:
  "\<exists>s1. ExpireChallenges (two_comms 1) 7 = ((1, None), s1) \<and>
     (\<forall>s2 bn'. pstep\<^sup>*\<^sup>* s1 s2 \<longrightarrow> fst (ExpireChallenges s2 bn') = (1, None))"
proof -
  have e: "(1 :: u64) \<noteq> 0" by simp
  note eq = two_comms_eq [OF e]
  define s1 where "s1 = snd (ExpireChallenges (two_comms 1) 7)"
  note evals = comm_def Let_def heap_Pop_def heap_down.simps heap_Push_def heap_up.simps comm_block_def swap_def
    expire_head_def ChallengeActive_def
  have one: "expire_loop 7 None (two_comms 1) = expire_loop 7 None (fst (expire_head (two_comms 1) None 0 [1]))"
    unfolding eq by (subst expire_loop.simps) (simp add: evals)
  also have "\<dots> = (None, fst (expire_head (two_comms 1) None 0 [1]))"
    unfolding eq by (subst expire_loop.simps) (simp add: evals)
  finally have l: "expire_loop 7 None (two_comms 1) = (None, fst (expire_head (two_comms 1) None 0 [1]))" .
  have x: "ExpireChallenges (two_comms 1) 7 = ((1, None), s1)" and y: "st_activeComms s1 = [1]"
    unfolding s1_def ExpireChallenges_def l by (simp_all add: eq evals)
  have "fst (ExpireChallenges s2 bn') = (1, None)" if "pstep\<^sup>*\<^sup>* s1 s2" for s2 bn'
    using same_block_stalls [OF two_comms_inv, where bn = 7 and bn' = bn' and r = 0 and q = 1, OF _ _ _ _ _ _ x _ that] y
    by (simp add: eq comm_def)
  then show ?thesis using x by blast
qed

end
