(* ===== verification/PlasmaDA.thy ===== *)
theory PlasmaDA
  imports PlasmaState
begin

text \<open>
  The plasma data availability manager, op-plasma/damgr.go, and the client of the storage server,
  daclient.go. The L1 node answers for one call (\<open>L1Fetcher\<close>), the storage server too (\<open>http\<close>). The ABI codec
  of go-ethereum is the record \<open>DALib\<close>; Keccak-256 is a parameter. A slice of the call data beyond its
  end panics (\<open>None\<close>). Logging and metrics are left out.
\<close>

section \<open>Commitments to inputs\<close>

definition NewKeccak256Commitment :: "keccak \<Rightarrow> bytes \<Rightarrow> CommitmentData" where
  "NewKeccak256Commitment keccak256 input = Keccak256Commitment (be_put 32 (keccak256 input))"

fun Commitment_Verify :: "keccak \<Rightarrow> CommitmentData \<Rightarrow> bytes \<Rightarrow> gerr option" where
  "Commitment_Verify keccak256 (Keccak256Commitment c) input =
     (if c \<noteq> be_put 32 (keccak256 input) then Some (Msg ''ErrCommitmentMismatch'') else None)"
| "Commitment_Verify keccak256 (GenericCommitment c) input = None"

section \<open>The storage client (op-plasma/daclient.go)\<close>

definition ErrNotFound :: gerr where "ErrNotFound = Msg ''not found''"

definition ErrInvalidInput :: gerr where "ErrInvalidInput = Msg ''invalid input''"

text \<open>The requests the client makes: the key of a path is the encoded commitment.\<close>

datatype Request = GetKey bytes | PutKey bytes bytes | PutData bytes

record Response =
  rs_StatusCode :: nat
  rs_Body :: "bytes res"

text \<open>The server of a URL: a request may be malformed (the URL), fail, or be answered.\<close>

record Http =
  NewRequest :: "Request \<Rightarrow> gerr option"
  Do :: "Request \<Rightarrow> Response res"

record DAClient =
  dc_verify :: bool
  dc_precompute :: bool

definition Client_GetInput :: "keccak \<Rightarrow> Http \<Rightarrow> DAClient \<Rightarrow> CommitmentData \<Rightarrow> bytes res" where
  "Client_GetInput keccak256 http c commitment =
     (let req = GetKey (Commitment_Encode commitment) in
      case NewRequest http req of
        Some err \<Rightarrow> Inl (Wrap ''failed to create HTTP request'' err)
      | None \<Rightarrow>
          (case Do http req of
             Inl err \<Rightarrow> Inl err
           | Inr resp \<Rightarrow>
               if rs_StatusCode resp = 404 then Inl ErrNotFound
               else if rs_StatusCode resp \<noteq> 200 then Inl (Msg ''failed to get preimage'')
               else (case rs_Body resp of
                       Inl err \<Rightarrow> Inl err
                     | Inr input \<Rightarrow>
                         if dc_verify c then
                           (case Commitment_Verify keccak256 commitment input of Some err \<Rightarrow> Inl err | None \<Rightarrow> Inr input)
                         else Inr input)))"

definition setInputWithCommit :: "Http \<Rightarrow> CommitmentData \<Rightarrow> bytes \<Rightarrow> gerr option" where
  "setInputWithCommit http commitment img =
     (let req = PutKey (Commitment_Encode commitment) img in
      case NewRequest http req of
        Some err \<Rightarrow> Some (Wrap ''failed to create HTTP request'' err)
      | None \<Rightarrow>
          (case Do http req of
             Inl err \<Rightarrow> Some err
           | Inr resp \<Rightarrow> if rs_StatusCode resp \<noteq> 200 then Some (Msg ''failed to store preimage'') else None))"

definition setInput :: "Http \<Rightarrow> bytes \<Rightarrow> CommitmentData res" where
  "setInput http img =
     (if length img = 0 then Inl ErrInvalidInput
      else (let req = PutData img in
            case NewRequest http req of
              Some err \<Rightarrow> Inl (Wrap ''failed to create HTTP request'' err)
            | None \<Rightarrow>
                (case Do http req of
                   Inl err \<Rightarrow> Inl err
                 | Inr resp \<Rightarrow>
                     if rs_StatusCode resp \<noteq> 200 then Inl (Msg ''failed to store data'')
                     else (case rs_Body resp of Inl err \<Rightarrow> Inl err | Inr b \<Rightarrow> DecodeCommitmentData b))))"

definition Client_SetInput :: "keccak \<Rightarrow> Http \<Rightarrow> DAClient \<Rightarrow> bytes \<Rightarrow> CommitmentData res" where
  "Client_SetInput keccak256 http c img =
     (if length img = 0 then Inl ErrInvalidInput
      else if dc_precompute c then
        (let commitment = NewKeccak256Commitment keccak256 img in
         case setInputWithCommit http commitment img of Some err \<Rightarrow> Inl err | None \<Rightarrow> Inr commitment)
      else setInput http img)"

section \<open>The manager\<close>

definition ErrPendingChallenge :: gerr where "ErrPendingChallenge = Msg ''ErrPendingChallenge''"
definition ErrExpiredChallenge :: gerr where "ErrExpiredChallenge = Msg ''ErrExpiredChallenge''"
definition ErrMissingPastWindow :: gerr where "ErrMissingPastWindow = Msg ''ErrMissingPastWindow''"
definition ErrInvalidChallenge :: gerr where "ErrInvalidChallenge = Msg ''ErrInvalidChallenge''"

record DALog = L1Log +
  dl_TxIndex :: u64
  dl_TxHash :: Hash
  dl_BlockNumber :: u64

record DAReceipt =
  dr_Status :: u64
  dr_Logs :: "DALog list"

record DATx =
  dtx_Hash :: Hash
  dtx_Data :: bytes

record L1Fetcher =
  f_InfoAndTxsByHash :: "Hash \<Rightarrow> DATx list res"
  f_FetchReceipts :: "Hash \<Rightarrow> DAReceipt list res"
  f_L1BlockRefByNumber :: "u64 \<Rightarrow> L1BlockRef res"

record ChallengeEvent =
  ev_ChallengedBlockNumber :: nat
  ev_ChallengedCommitment :: bytes
  ev_Status :: byte

text \<open>The ABI of the contract: it may fail to load; the data of the event hold the commitment and the status, its
  second topic the block number; the arguments of \<open>resolve\<close> are unpacked into a map, from which
  \<open>resolveData\<close> is read.\<close>

record DALib =
  GetAbi :: "gerr option"
  UnpackEvent :: "bytes \<Rightarrow> (bytes \<times> byte) res"
  ParseTopics :: "Hash list \<Rightarrow> nat res"
  UnpackResolve :: "bytes \<Rightarrow> bytes option res"
  ChallengeStatusEventABIHash :: Hash

record DAConfig =
  cfg_DAChallengeContractAddress :: Address
  cfg_CommitmentType :: byte
  cfg_ChallengeWindow :: u64
  cfg_ResolveWindow :: u64

record DA =
  da_cfg :: DAConfig
  da_state :: PState
  da_origin :: BlockID
  da_finalizedHead :: L1BlockRef
  da_l1FinalizedHead :: L1BlockRef
  da_resetting :: bool
  da_signal_set :: bool

definition NewPlasmaDA :: "DAConfig \<Rightarrow> DA" where
  "NewPlasmaDA cfg =
     \<lparr>da_cfg = cfg, da_state = NewState, da_origin = \<lparr>bid_Hash = 0, bid_Number = 0\<rparr>, da_finalizedHead = zero_L1BlockRef,
      da_l1FinalizedHead = zero_L1BlockRef, da_resetting = False, da_signal_set = False\<rparr>"

definition OnFinalizedHeadSignal :: "DA \<Rightarrow> DA" where
  "OnFinalizedHeadSignal d = d\<lparr>da_signal_set := True\<rparr>"

text \<open>The result is the block that is signalled to the engine queue, if any.\<close>

definition Finalize :: "DA \<Rightarrow> L1BlockRef \<Rightarrow> L1BlockRef option \<times> DA" where
  "Finalize d l1Finalized =
     (let ref = da_finalizedHead d;
          ref = (if l1_Number l1Finalized < l1_Number (da_finalizedHead d) then l1Finalized else ref);
          d = d\<lparr>da_state := Prune (da_state d) (l1_Number ref)\<rparr>
      in if \<not> da_signal_set d then (None, d) else (Some ref, d))"

definition DA_Reset :: "DA \<Rightarrow> L1BlockRef \<Rightarrow> gerr \<times> DA" where
  "DA_Reset d base =
     (EOF, if da_resetting d then d\<lparr>da_resetting := False\<rparr>
           else d\<lparr>da_origin := l1_ID base, da_state := State_Reset (da_state d)\<rparr>)"

definition isExpired :: "DA \<Rightarrow> u64 \<Rightarrow> bool" where
  "isExpired d bn \<longleftrightarrow> bid_Number (da_origin d) \<ge> bn"

section \<open>Challenge events\<close>

definition DecodeChallengeStatusEvent :: "DALib \<Rightarrow> DALog \<Rightarrow> ChallengeEvent res go" where
  "DecodeChallengeStatusEvent lib log =
     (case GetAbi lib of
        Some err \<Rightarrow> Some (Inl err)
      | None \<Rightarrow>
          (case UnpackEvent lib (log_Data log) of
             Inl err \<Rightarrow> Some (Inl err)
           | Inr (commitment, status) \<Rightarrow>
               if log_Topics log = [] then None
               else (case ParseTopics lib (tl (log_Topics log)) of
                       Inl err \<Rightarrow> Some (Inl err)
                     | Inr bn \<Rightarrow> Some (Inr \<lparr>ev_ChallengedBlockNumber = bn, ev_ChallengedCommitment = commitment,
                                            ev_Status = status\<rparr>))))"

definition DecodeResolvedInput :: "DALib \<Rightarrow> bytes \<Rightarrow> bytes res go" where
  "DecodeResolvedInput lib data =
     (case GetAbi lib of
        Some err \<Rightarrow> Some (Inl err)
      | None \<Rightarrow>
          if length data < 4 then None
          else (case UnpackResolve lib (drop 4 data) of
                  Inl err \<Rightarrow> Some (Inl err)
                | Inr None \<Rightarrow> Some (Inl (Msg ''invalid resolve data''))
                | Inr (Some rd) \<Rightarrow>
                    if length rd = 0 then Some (Inl (Msg ''invalid resolve data'')) else Some (Inr rd)))"

definition decodeChallengeStatus ::
    "DALib \<Rightarrow> PState \<Rightarrow> DALog \<Rightarrow> ((ChallengeStatus \<times> CommitmentData) res \<times> PState) go" where
  "decodeChallengeStatus lib s log =
     (case DecodeChallengeStatusEvent lib log of
        None \<Rightarrow> None
      | Some (Inl err) \<Rightarrow> Some (Inl err, s)
      | Some (Inr event) \<Rightarrow>
          (case DecodeCommitmentData (ev_ChallengedCommitment event) of
             Inl err \<Rightarrow> Some (Inl err, s)
           | Inr commitment \<Rightarrow>
               (let bn = of_nat (ev_ChallengedBlockNumber event) in
                case IsTracking s (Commitment_Encode commitment) bn of
                  (tracking, s) \<Rightarrow>
                    if \<not> tracking then Some (Inl (Wrap ''invalid challenge'' ErrInvalidChallenge), s)
                    else Some (Inr (ev_Status event, commitment), s))))"

definition fetchChallengeLogs :: "DALib \<Rightarrow> L1Fetcher \<Rightarrow> DAConfig \<Rightarrow> BlockID \<Rightarrow> DALog list res" where
  "fetchChallengeLogs lib l1 cfg block =
     (if cfg_CommitmentType cfg = GenericCommitmentType then Inr []
      else (case f_FetchReceipts l1 (bid_Hash block) of
              Inl err \<Rightarrow> Inl err
            | Inr receipts \<Rightarrow>
                Inr (concat (map (\<lambda>rec. if dr_Status rec \<noteq> ReceiptStatusSuccessful then []
                                        else filter (\<lambda>log. log_Address log = cfg_DAChallengeContractAddress cfg \<and>
                                               length (log_Topics log) > 0 \<and>
                                               log_Topics log ! 0 = ChallengeStatusEventABIHash lib) (dr_Logs rec))
                                 receipts))))"

text \<open>One iteration of \<open>LoadChallengeEvents\<close>; an event that cannot be used is skipped.\<close>

definition load_event :: "keccak \<Rightarrow> DALib \<Rightarrow> L1Fetcher \<Rightarrow> DAConfig \<Rightarrow> BlockID \<Rightarrow> PState \<Rightarrow> DALog \<Rightarrow> PState go" where
  "load_event keccak256 lib l1 cfg block s log =
     (let i = unat (dl_TxIndex log) in
      case decodeChallengeStatus lib s log of
        None \<Rightarrow> None
      | Some (Inl err, s) \<Rightarrow> Some s
      | Some (Inr (status, commitment), s) \<Rightarrow>
          if status = ChallengeResolved then
            (case f_InfoAndTxsByHash l1 (bid_Hash block) of
               Inl err \<Rightarrow> Some s
             | Inr txs \<Rightarrow>
                 if length txs \<le> i then Some s
                 else (let tx = txs ! i in
                       if dtx_Hash tx \<noteq> dl_TxHash log then Some s
                       else if cfg_CommitmentType cfg = Keccak256CommitmentType then
                         (case DecodeResolvedInput lib (dtx_Data tx) of
                            None \<Rightarrow> None
                          | Some (Inl err) \<Rightarrow> Some s
                          | Some (Inr input) \<Rightarrow>
                              (case Commitment_Verify keccak256 commitment input of
                                 Some err \<Rightarrow> Some s
                               | None \<Rightarrow> Some (SetResolvedChallenge s (Commitment_Encode commitment) input (dl_BlockNumber log))))
                       else Some (SetResolvedChallenge s (Commitment_Encode commitment) [] (dl_BlockNumber log))))
          else if status = ChallengeActive then
            Some (SetActiveChallenge s (Commitment_Encode commitment) (dl_BlockNumber log) (cfg_ResolveWindow cfg))
          else Some s)"

fun load_events :: "keccak \<Rightarrow> DALib \<Rightarrow> L1Fetcher \<Rightarrow> DAConfig \<Rightarrow> BlockID \<Rightarrow> PState \<Rightarrow> DALog list \<Rightarrow> PState go" where
  "load_events keccak256 lib l1 cfg block s [] = Some s"
| "load_events keccak256 lib l1 cfg block s (log # logs) =
     (case load_event keccak256 lib l1 cfg block s log of
        None \<Rightarrow> None
      | Some s \<Rightarrow> load_events keccak256 lib l1 cfg block s logs)"

definition LoadChallengeEvents :: "keccak \<Rightarrow> DALib \<Rightarrow> L1Fetcher \<Rightarrow> DA \<Rightarrow> BlockID \<Rightarrow> (gerr option \<times> DA) go" where
  "LoadChallengeEvents keccak256 lib l1 d block =
     (case fetchChallengeLogs lib l1 (da_cfg d) block of
        Inl err \<Rightarrow> Some (Some err, d)
      | Inr logs \<Rightarrow>
          map_option (\<lambda>s. (None, d\<lparr>da_state := s\<rparr>)) (load_events keccak256 lib l1 (da_cfg d) block (da_state d) logs))"

section \<open>The L1 origin and the inputs\<close>

definition DA_AdvanceL1Origin :: "keccak \<Rightarrow> DALib \<Rightarrow> L1Fetcher \<Rightarrow> DA \<Rightarrow> BlockID \<Rightarrow> (gerr option \<times> DA) go" where
  "DA_AdvanceL1Origin keccak256 lib l1 d block =
     (if bid_Number block \<le> bid_Number (da_origin d) then Some (None, d)
      else
        (case LoadChallengeEvents keccak256 lib l1 d block of
           None \<Rightarrow> None
         | Some (Some err, d) \<Rightarrow> Some (Some err, d)
         | Some (None, d) \<Rightarrow>
             (case ExpireChallenges (da_state d) (bid_Number block) of
                ((bn, Some err), s) \<Rightarrow> Some (Some err, d\<lparr>da_state := s, da_resetting := True\<rparr>)
              | ((bn, None), s) \<Rightarrow>
                  (let d = d\<lparr>da_state := s\<rparr> in
                   if bn > l1_Number (da_finalizedHead d) then
                     (case f_L1BlockRefByNumber l1 bn of
                        Inl err \<Rightarrow> Some (Some err, d)
                      | Inr ref \<Rightarrow> Some (None, d\<lparr>da_finalizedHead := ref, da_origin := block\<rparr>))
                   else Some (None, d\<lparr>da_origin := block\<rparr>)))))"

definition LookAhead :: "keccak \<Rightarrow> DALib \<Rightarrow> L1Fetcher \<Rightarrow> DA \<Rightarrow> (gerr option \<times> DA) go" where
  "LookAhead keccak256 lib l1 d =
     (case f_L1BlockRefByNumber l1 (bid_Number (da_origin d) + 1) of
        Inl err \<Rightarrow> Some (Some err, d)
      | Inr blkRef \<Rightarrow> DA_AdvanceL1Origin keccak256 lib l1 d (l1_ID blkRef))"

text \<open>The two waiting branches of \<open>GetInput\<close>.\<close>

definition look_ahead_pending :: "keccak \<Rightarrow> DALib \<Rightarrow> L1Fetcher \<Rightarrow> DA \<Rightarrow> (bytes res \<times> DA) go" where
  "look_ahead_pending keccak256 lib l1 d =
     (case LookAhead keccak256 lib l1 d of
        None \<Rightarrow> None
      | Some (Some err, d) \<Rightarrow> Some (Inl err, d)
      | Some (None, d) \<Rightarrow> Some (Inl ErrPendingChallenge, d))"

text \<open>The arguments of \<open>errors.Is\<close> are in the order of the source.\<close>

definition DA_GetInput ::
    "keccak \<Rightarrow> DALib \<Rightarrow> (CommitmentData \<Rightarrow> bytes res) \<Rightarrow> L1Fetcher \<Rightarrow> DA \<Rightarrow> CommitmentData \<Rightarrow> BlockID \<Rightarrow> (bytes res \<times> DA) go" where
  "DA_GetInput keccak256 lib storage l1 d commitment blockId =
     (if cfg_CommitmentType (da_cfg d) \<noteq> CommitmentType commitment then
        Some (Inl (Wrap ''invalid commitment type'' ErrExpiredChallenge), d)
      else
        (case GetOrTrackChallenge (da_state d) (Commitment_Encode commitment) (bid_Number blockId)
                (cfg_ChallengeWindow (da_cfg d)) of
           (r, s) \<Rightarrow>
             (let d = d\<lparr>da_state := s\<rparr>;
                  ch = comm s r;
                  fetched = storage commitment;
                  notFound = (case fetched of Inl err \<Rightarrow> errors_Is ErrNotFound err | Inr _ \<Rightarrow> False)
              in case fetched of
                   Inl err \<Rightarrow>
                     if \<not> notFound then Some (Inl err, d)
                     else if cm_challengeStatus ch = ChallengeActive then
                       (if isExpired d (cm_expiresAt ch) then Some (Inl ErrExpiredChallenge, d)
                        else look_ahead_pending keccak256 lib l1 d)
                     else if cm_challengeStatus ch = ChallengeExpired then Some (Inl ErrExpiredChallenge, d)
                     else if cm_challengeStatus ch = ChallengeResolved then
                       (if CommitmentType commitment = GenericCommitmentType then Some (Inl ErrMissingPastWindow, d)
                        else Some (GetResolvedInput s (Commitment_Encode commitment), d))
                     else if isExpired d (cm_expiresAt ch) then Some (Inl ErrMissingPastWindow, d)
                     else look_ahead_pending keccak256 lib l1 d
                 | Inr data \<Rightarrow>
                     if cm_challengeStatus ch = ChallengeActive \<and> isExpired d (cm_expiresAt ch) then
                       Some (Inl ErrExpiredChallenge, d)
                     else if cm_challengeStatus ch = ChallengeExpired then Some (Inl ErrExpiredChallenge, d)
                     else Some (Inr data, d))))"

section \<open>Invariant\<close>

text \<open>The input of a resolved Keccak commitment is its preimage.\<close>

definition resolved_ok :: "keccak \<Rightarrow> PState \<Rightarrow> bool" where
  "resolved_ok keccak256 s \<longleftrightarrow>
     (\<forall>r<length (st_store s). \<forall>h. cm_challengeStatus (comm s r) = ChallengeResolved \<and>
        cm_key (comm s r) = Keccak256CommitmentType # h \<longrightarrow> h = be_put 32 (keccak256 (cm_input (comm s r))))"

definition plasma_inv :: "keccak \<Rightarrow> PState \<Rightarrow> bool" where
  "plasma_inv keccak256 s \<longleftrightarrow> state_inv s \<and> resolved_ok keccak256 s"

lemma plasma_invI: "state_inv s \<Longrightarrow> resolved_ok keccak256 s \<Longrightarrow> plasma_inv keccak256 s"
  by (simp add: plasma_inv_def)

lemma set_comm_resolved:
  assumes "resolved_ok keccak256 s"
    and "\<And>h. cm_challengeStatus c = ChallengeResolved \<Longrightarrow> cm_key c = Keccak256CommitmentType # h \<Longrightarrow>
      h = be_put 32 (keccak256 (cm_input c))"
  shows "resolved_ok keccak256 (set_comm s r c)"
  using assms
  by (cases "r < length (st_store s)")
    (auto simp: resolved_ok_def set_comm_def comm_def nth_list_update list_update_beyond)

lemma push_comm_resolved:
  assumes "resolved_ok keccak256 s" "cm_challengeStatus c \<noteq> ChallengeResolved"
  shows "resolved_ok keccak256 (push_comm s c)"
  using assms by (auto simp: resolved_ok_def push_comm_def Let_def comm_def nth_append less_Suc_eq)

lemma tracked_key:
  assumes "state_inv s" "st_commsByKey s k = Some r"
  shows "r < length (st_store s)" "cm_key (comm s r) = k" "r \<in> tracked s"
  using assms by (auto simp: state_inv_def)

lemma IsTracking_plasma:
  assumes "plasma_inv keccak256 s"
  shows "plasma_inv keccak256 (snd (IsTracking s k bn))"
proof (rule plasma_invI)
  show "state_inv (snd (IsTracking s k bn))" using assms by (simp add: plasma_inv_def IsTracking_inv)
  show "resolved_ok keccak256 (snd (IsTracking s k bn))"
    using assms by (auto simp: plasma_inv_def IsTracking_def TrackDetachedCommitment_def push_comm_resolved status_defs
        split: option.splits)
qed

lemma SetActiveChallenge_plasma:
  assumes "plasma_inv keccak256 s"
  shows "plasma_inv keccak256 (SetActiveChallenge s k a w)"
proof (rule plasma_invI)
  show "state_inv (SetActiveChallenge s k a w)" using assms by (simp add: plasma_inv_def SetActiveChallenge_inv)
  have "resolved_ok keccak256 s" using assms by (simp add: plasma_inv_def)
  then show "resolved_ok keccak256 (SetActiveChallenge s k a w)"
    by (auto simp: SetActiveChallenge_def status_defs split: option.splits intro!: set_comm_resolved)
qed

lemma SetResolvedChallenge_plasma:
  assumes "plasma_inv keccak256 s" "Commitment_Verify keccak256 c input = None"
  shows "plasma_inv keccak256 (SetResolvedChallenge s (Commitment_Encode c) input a)"
proof (rule plasma_invI)
  have i: "state_inv s" "resolved_ok keccak256 s" using assms(1) by (simp_all add: plasma_inv_def)
  then show "state_inv (SetResolvedChallenge s (Commitment_Encode c) input a)" by (simp add: SetResolvedChallenge_inv)
  show "resolved_ok keccak256 (SetResolvedChallenge s (Commitment_Encode c) input a)"
  proof (cases "st_commsByKey s (Commitment_Encode c)")
    case (Some r)
    then have k: "cm_key (comm s r) = Commitment_Encode c" using tracked_key [OF i(1)] by simp
    have "h = be_put 32 (keccak256 input)" if "Commitment_Encode c = Keccak256CommitmentType # h" for h
      using that assms(2) by (cases c) (auto simp: Keccak256CommitmentType_def GenericCommitmentType_def split: if_splits)
    then show ?thesis
      using Some i(2) k by (auto simp: SetResolvedChallenge_def intro!: set_comm_resolved)
  qed (use i in \<open>simp add: SetResolvedChallenge_def\<close>)
qed

lemma GetOrTrackChallenge_plasma:
  "plasma_inv keccak256 s \<Longrightarrow> plasma_inv keccak256 (snd (GetOrTrackChallenge s k bn w))"
proof (rule plasma_invI)
  assume p: "plasma_inv keccak256 s"
  then have i: "state_inv s" "resolved_ok keccak256 s" by (simp_all add: plasma_inv_def)
  show "state_inv (snd (GetOrTrackChallenge s k bn w))" by (rule GetOrTrackChallenge_inv [OF i(1)])
  show "resolved_ok keccak256 (snd (GetOrTrackChallenge s k bn w))"
  proof (cases "st_commsByKey s k")
    case None
    then show ?thesis using i(2) by (simp add: GetOrTrackChallenge_def SetInputCommitment_def push_comm_resolved status_defs)
  next
    case (Some r)
    then have "r < length (st_store s)" using tracked_key [OF i(1)] by blast
    then have "h = be_put 32 (keccak256 (cm_input (comm s r)))"
      if "cm_challengeStatus (comm s r) = ChallengeResolved" "cm_key (comm s r) = Keccak256CommitmentType # h" for h
      using that i(2) by (simp add: resolved_ok_def)
    then have "resolved_ok keccak256 (set_comm s r ((comm s r)\<lparr>cm_canonical := True\<rparr>))"
      by (intro set_comm_resolved [OF i(2)]) simp_all
    then show ?thesis using Some by (simp add: GetOrTrackChallenge_def)
  qed
qed

lemma ExpireChallenges_plasma:
  assumes "plasma_inv keccak256 s"
  shows "plasma_inv keccak256 (snd (ExpireChallenges s bn))"
proof -
  have i: "state_inv s" "resolved_ok keccak256 s" using assms by (simp_all add: plasma_inv_def)
  obtain ps s' where e: "snd (ExpireChallenges s bn) = s'" and x: "expired_by bn ps s s'" "state_inv s'"
    by (rule ExpireChallenges_moves [OF i(1), of bn]) simp
  have "resolved_ok keccak256 s'"
    using i(2) unfolding resolved_ok_def expired_byD(8,9) [OF x(1)] by (auto simp: status_defs)
  then show ?thesis using e x(2) by (simp add: plasma_inv_def)
qed

lemma Prune_plasma: "plasma_inv keccak256 s \<Longrightarrow> plasma_inv keccak256 (Prune s bn)"
proof (rule plasma_invI)
  assume p: "plasma_inv keccak256 s"
  then show "state_inv (Prune s bn)" by (simp add: plasma_inv_def Prune_inv)
  define b where "b = (if bn > commPruneMargin then bn - commPruneMargin else 0)"
  obtain ps where "pruned_by b ps s (prune_expired b s)" using prune_expired_spec p by (auto simp: plasma_inv_def)
  then have "st_store (Prune s bn) = st_store s" by (simp add: Prune_def b_def [symmetric] pruned_by_def)
  then show "resolved_ok keccak256 (Prune s bn)" using p by (simp add: plasma_inv_def resolved_ok_def comm_def)
qed

lemma Reset_plasma: "plasma_inv keccak256 s \<Longrightarrow> plasma_inv keccak256 (State_Reset s)"
  by (rule plasma_invI) (simp_all add: plasma_inv_def resolved_ok_def comm_def, simp add: State_Reset_def)

lemma NewState_plasma: "plasma_inv keccak256 NewState"
  by (rule plasma_invI) (simp, simp add: resolved_ok_def NewState_def)

lemmas plasma_intros = IsTracking_plasma SetActiveChallenge_plasma SetResolvedChallenge_plasma GetOrTrackChallenge_plasma
  ExpireChallenges_plasma Prune_plasma Reset_plasma NewState_plasma

lemma decodeChallengeStatus_plasma:
  assumes "decodeChallengeStatus lib s log = Some (r, s')" "plasma_inv keccak256 s"
  shows "plasma_inv keccak256 s'"
  using assms IsTracking_plasma [OF assms(2)]
  by (auto simp: decodeChallengeStatus_def Let_def case_prod_unfold split: option.splits sum.splits if_splits)

lemma load_event_plasma:
  assumes "load_event keccak256 lib l1 cfg block s log = Some s'" "plasma_inv keccak256 s"
    and "cfg_CommitmentType cfg = Keccak256CommitmentType"
  shows "plasma_inv keccak256 s'"
proof -
  obtain r s0 where d: "decodeChallengeStatus lib s log = Some (r, s0)"
    using assms(1) by (cases "decodeChallengeStatus lib s log") (auto simp: load_event_def Let_def)
  then have "plasma_inv keccak256 s0" by (rule decodeChallengeStatus_plasma [OF _ assms(2)])
  then show ?thesis
    using assms(1,3) d
    by (auto simp: load_event_def Let_def SetActiveChallenge_plasma SetResolvedChallenge_plasma
        split: sum.splits prod.splits option.splits if_splits)
qed

lemma load_events_plasma:
  "load_events keccak256 lib l1 cfg block s logs = Some s' \<Longrightarrow> plasma_inv keccak256 s \<Longrightarrow>
   cfg_CommitmentType cfg = Keccak256CommitmentType \<Longrightarrow> plasma_inv keccak256 s'"
  by (induction logs arbitrary: s) (auto split: option.splits dest: load_event_plasma)

lemma load_event_state_inv: "load_event keccak256 lib l1 cfg block s log = Some s' \<Longrightarrow> state_inv s \<Longrightarrow> state_inv s'"
  using IsTracking_inv [of s]
  by (auto simp: load_event_def decodeChallengeStatus_def Let_def case_prod_unfold SetActiveChallenge_inv SetResolvedChallenge_inv
      split: option.splits sum.splits if_splits)

lemma load_events_state_inv: "load_events keccak256 lib l1 cfg block s logs = Some s' \<Longrightarrow> state_inv s \<Longrightarrow> state_inv s'"
  by (induction logs arbitrary: s) (auto split: option.splits dest: load_event_state_inv)

lemma LoadChallengeEvents_state_inv:
  "LoadChallengeEvents keccak256 lib l1 d block = Some (e, d') \<Longrightarrow> state_inv (da_state d) \<Longrightarrow> state_inv (da_state d')"
  by (auto simp: LoadChallengeEvents_def split: sum.splits dest: load_events_state_inv)

definition da_inv :: "keccak \<Rightarrow> DAConfig \<Rightarrow> DA \<Rightarrow> bool" where
  "da_inv keccak256 cfg d \<longleftrightarrow> plasma_inv keccak256 (da_state d) \<and> da_cfg d = cfg"

lemma LoadChallengeEvents_inv:
  assumes "LoadChallengeEvents keccak256 lib l1 d block = Some (e, d')" "da_inv keccak256 cfg d"
    and "cfg_CommitmentType cfg = Keccak256CommitmentType"
  shows "da_inv keccak256 cfg d' \<and> da_origin d' = da_origin d \<and> da_resetting d' = da_resetting d"
  using assms load_events_plasma [of keccak256 lib l1 cfg block "da_state d"]
  by (auto simp: LoadChallengeEvents_def da_inv_def split: sum.splits)

lemma AdvanceL1Origin_inv:
  assumes "DA_AdvanceL1Origin keccak256 lib l1 d block = Some (e, d')" "da_inv keccak256 cfg d"
    and "cfg_CommitmentType cfg = Keccak256CommitmentType"
  shows "da_inv keccak256 cfg d'"
proof (cases "bid_Number block \<le> bid_Number (da_origin d)")
  case False
  then obtain e1 d1 where l: "LoadChallengeEvents keccak256 lib l1 d block = Some (e1, d1)"
    using assms(1) by (cases "LoadChallengeEvents keccak256 lib l1 d block") (auto simp: DA_AdvanceL1Origin_def)
  have d1: "da_inv keccak256 cfg d1" using LoadChallengeEvents_inv [OF l assms(2,3)] by simp
  then have "plasma_inv keccak256 (snd (ExpireChallenges (da_state d1) (bid_Number block)))"
    by (simp add: da_inv_def ExpireChallenges_plasma)
  then show ?thesis
    using assms(1) l d1 False
    by (auto simp: DA_AdvanceL1Origin_def da_inv_def Let_def split: option.splits prod.splits sum.splits if_splits)
qed (use assms in \<open>simp add: DA_AdvanceL1Origin_def\<close>)

lemma LookAhead_inv:
  assumes "LookAhead keccak256 lib l1 d = Some (e, d')" "da_inv keccak256 cfg d"
    and "cfg_CommitmentType cfg = Keccak256CommitmentType"
  shows "da_inv keccak256 cfg d'"
  using assms by (auto simp: LookAhead_def split: sum.splits dest: AdvanceL1Origin_inv)

lemma look_ahead_pending_inv:
  assumes "look_ahead_pending keccak256 lib l1 d = Some (e, d')" "da_inv keccak256 cfg d"
    and "cfg_CommitmentType cfg = Keccak256CommitmentType"
  shows "da_inv keccak256 cfg d' \<and> (\<exists>err. e = Inl err)"
  using assms by (auto simp: look_ahead_pending_def split: option.splits prod.splits dest: LookAhead_inv)

lemma look_ahead_pending_err: "look_ahead_pending keccak256 lib l1 d \<noteq> Some (Inr data, d')"
  by (auto simp: look_ahead_pending_def split: option.splits prod.splits)

lemma GetInput_cases:
  assumes "DA_GetInput keccak256 lib storage l1 d commitment blockId = Some (e, d')"
    and s: "GetOrTrackChallenge (da_state d) (Commitment_Encode commitment) (bid_Number blockId)
        (cfg_ChallengeWindow (da_cfg d)) = (r, s)"
  obtains (keep) err where "e = Inl err" "d' = d"
  | (stop) err where "e = Inl err" "d' = d\<lparr>da_state := s\<rparr>"
  | (wait) "look_ahead_pending keccak256 lib l1 (d\<lparr>da_state := s\<rparr>) = Some (e, d')"
  | (resolved) "cfg_CommitmentType (da_cfg d) = CommitmentType commitment" "cm_challengeStatus (comm s r) = ChallengeResolved"
      "CommitmentType commitment \<noteq> GenericCommitmentType" "e = GetResolvedInput s (Commitment_Encode commitment)"
      "d' = d\<lparr>da_state := s\<rparr>"
  | (stored) data where "cfg_CommitmentType (da_cfg d) = CommitmentType commitment" "storage commitment = Inr data"
      "e = Inr data" "d' = d\<lparr>da_state := s\<rparr>"
proof (cases "cfg_CommitmentType (da_cfg d) = CommitmentType commitment")
  case False
  then show ?thesis using assms(1) keep by (auto simp: DA_GetInput_def)
next
  case True
  note e = assms(1) [unfolded DA_GetInput_def Let_def s prod.case]
  show ?thesis
  proof (cases "storage commitment")
    case (Inl err)
    have "((\<exists>err. e = Inl err) \<and> d' = d\<lparr>da_state := s\<rparr>) \<or>
        look_ahead_pending keccak256 lib l1 (d\<lparr>da_state := s\<rparr>) = Some (e, d') \<or>
        cm_challengeStatus (comm s r) = ChallengeResolved \<and> CommitmentType commitment \<noteq> GenericCommitmentType \<and>
        e = GetResolvedInput s (Commitment_Encode commitment) \<and> d' = d\<lparr>da_state := s\<rparr>"
      using e True Inl by (simp split: if_splits) (metis prod.inject option.inject)+
    then show ?thesis using True stop wait resolved by blast
  next
    case (Inr data)
    have "((\<exists>err. e = Inl err) \<or> e = Inr data) \<and> d' = d\<lparr>da_state := s\<rparr>"
      using e True Inr by (auto split: if_splits)
    then show ?thesis using True Inr stop stored by blast
  qed
qed

lemma GetInput_inv:
  assumes "DA_GetInput keccak256 lib storage l1 d commitment blockId = Some (e, d')" "da_inv keccak256 cfg d"
    and "cfg_CommitmentType cfg = Keccak256CommitmentType"
  shows "da_inv keccak256 cfg d'"
proof -
  obtain r s where s: "GetOrTrackChallenge (da_state d) (Commitment_Encode commitment) (bid_Number blockId)
        (cfg_ChallengeWindow (da_cfg d)) = (r, s)" by fastforce
  then have "plasma_inv keccak256 s"
    using GetOrTrackChallenge_plasma assms(2) by (metis da_inv_def snd_conv)
  then have i: "da_inv keccak256 cfg (d\<lparr>da_state := s\<rparr>)" using assms(2) by (simp add: da_inv_def)
  from assms(1) s show ?thesis
    by (cases rule: GetInput_cases) (use i assms(2,3) in \<open>auto dest: look_ahead_pending_inv\<close>)
qed

section \<open>Every run of the manager\<close>

text \<open>The manager as the node uses it. L1 and the storage server may answer differently at every step.\<close>

inductive da_run :: "keccak \<Rightarrow> DALib \<Rightarrow> DAConfig \<Rightarrow> DA \<Rightarrow> bool" for keccak256 lib cfg where
  start: "da_run keccak256 lib cfg (NewPlasmaDA cfg)"
| signal: "da_run keccak256 lib cfg d \<Longrightarrow> da_run keccak256 lib cfg (OnFinalizedHeadSignal d)"
| finalize: "da_run keccak256 lib cfg d \<Longrightarrow> da_run keccak256 lib cfg (snd (Finalize d ref))"
| reset: "da_run keccak256 lib cfg d \<Longrightarrow> da_run keccak256 lib cfg (snd (DA_Reset d base))"
| advance: "da_run keccak256 lib cfg d \<Longrightarrow> DA_AdvanceL1Origin keccak256 lib l1 d block = Some (e, d') \<Longrightarrow>
    da_run keccak256 lib cfg d'"
| input: "da_run keccak256 lib cfg d \<Longrightarrow> DA_GetInput keccak256 lib storage l1 d commitment blockId = Some (r, d') \<Longrightarrow>
    da_run keccak256 lib cfg d'"

lemma da_run_inv:
  assumes "da_run keccak256 lib cfg d" "cfg_CommitmentType cfg = Keccak256CommitmentType"
  shows "da_inv keccak256 cfg d"
  using assms(1)
proof induction
  case start
  then show ?case by (simp add: da_inv_def NewPlasmaDA_def NewState_plasma)
next
  case (signal d)
  then show ?case by (simp add: da_inv_def OnFinalizedHeadSignal_def)
next
  case (finalize d ref)
  then show ?case by (simp add: da_inv_def Finalize_def Let_def Prune_plasma)
next
  case (reset d base)
  then show ?case by (simp add: da_inv_def DA_Reset_def Reset_plasma)
next
  case (advance d l1 block e d')
  then show ?case using AdvanceL1Origin_inv assms(2) by blast
next
  case (input d storage l1 commitment blockId r d')
  then show ?case using GetInput_inv assms(2) by blast
qed

lemma Client_GetInput_verified:
  "Client_GetInput keccak256 http c commitment = Inr data \<Longrightarrow> dc_verify c \<Longrightarrow> Commitment_Verify keccak256 commitment data = None"
  by (auto simp: Client_GetInput_def Let_def split: option.splits sum.splits if_splits)

lemma GetOrTrackChallenge_key:
  assumes "state_inv s" "GetOrTrackChallenge s k bn w = (r, s')"
  shows "st_commsByKey s' k = Some r \<and> r < length (st_store s') \<and> cm_key (comm s' r) = k"
proof -
  have "state_inv s'" using GetOrTrackChallenge_inv [OF assms(1), of k bn w] assms(2) by simp
  moreover have "st_commsByKey s' k = Some r"
    using assms(2) by (auto simp: GetOrTrackChallenge_def SetInputCommitment_def push_comm_def Let_def set_comm_def split: option.splits)
  ultimately show ?thesis using tracked_key by blast
qed

lemma NewKeccak_iff:
  "CommitmentType c = Keccak256CommitmentType \<Longrightarrow> Commitment_Verify keccak256 c data = None \<Longrightarrow>
   c = NewKeccak256Commitment keccak256 data"
  by (cases c) (auto simp: NewKeccak256Commitment_def Keccak256CommitmentType_def GenericCommitmentType_def split: if_splits)

section \<open>Properties\<close>

text \<open>C11: Inputs are authentic. In whatever state the manager has got to, whatever the L1 node, the contract's events and
  the storage server answer, with verification on an input it gives to the derivation for a Keccak
  commitment is the preimage of the commitment.\<close>

theorem GetInput_authentic:
  assumes "da_run keccak256 lib cfg d" "cfg_CommitmentType cfg = Keccak256CommitmentType" "dc_verify c"
    and "DA_GetInput keccak256 lib (Client_GetInput keccak256 http c) l1 d commitment blockId = Some (Inr data, d')"
  shows "commitment = NewKeccak256Commitment keccak256 data"
proof -
  have i: "da_inv keccak256 cfg d" by (rule da_run_inv [OF assms(1,2)])
  then have si: "state_inv (da_state d)" "cfg_CommitmentType (da_cfg d) = Keccak256CommitmentType"
    using assms(2) by (simp_all add: da_inv_def plasma_inv_def)
  obtain r s where s: "GetOrTrackChallenge (da_state d) (Commitment_Encode commitment) (bid_Number blockId)
        (cfg_ChallengeWindow (da_cfg d)) = (r, s)" by fastforce
  have k: "st_commsByKey s (Commitment_Encode commitment) = Some r" "r < length (st_store s)"
    "cm_key (comm s r) = Commitment_Encode commitment"
    using GetOrTrackChallenge_key [OF si(1) s] by simp_all
  have p: "plasma_inv keccak256 s" using GetOrTrackChallenge_plasma i s by (metis da_inv_def snd_conv)
  from assms(4) s show ?thesis
  proof (cases rule: GetInput_cases)
    case wait
    then show ?thesis using look_ahead_pending_err by blast
  next
    case resolved
    then have d: "data = cm_input (comm s r)" using k(1) by (simp add: GetResolvedInput_def)
    obtain h where c: "commitment = Keccak256Commitment h"
      using resolved(1) si(2) by (cases commitment) (auto simp: Keccak256CommitmentType_def GenericCommitmentType_def)
    then have "h = be_put 32 (keccak256 (cm_input (comm s r)))"
      using p k(2,3) resolved(2) by (simp add: plasma_inv_def resolved_ok_def)
    then show ?thesis by (simp add: c d NewKeccak256Commitment_def)
  next
    case (stored data')
    then show ?thesis using NewKeccak_iff Client_GetInput_verified assms(3) si(2) by auto
  qed auto
qed

text \<open>A reorg for an expired challenge ends in the input being skipped. When moving the L1 origin expires a
  challenge of a derived commitment, ErrReorgRequired is returned, the reset that follows keeps the state,
  and deriving the commitment again gives ErrExpiredChallenge, on which derivation goes on, or an error
  of the storage server other than that the input is missing.\<close>

theorem reorg_then_skip:
  assumes "state_inv (da_state d)" "bid_Number (da_origin d) < bid_Number block"
    and "LoadChallengeEvents keccak256 lib l1 d block = Some (None, d0)"
    and "r \<in> set (st_activeComms (da_state d0))" "cm_canonical (comm (da_state d0) r)"
    and "cm_challengeStatus (comm (da_state d0) r) = ChallengeActive"
    and "r \<notin> set (st_activeComms (snd (ExpireChallenges (da_state d0) (bid_Number block))))"
    and "cm_key (comm (da_state d0) r) = Commitment_Encode commitment"
    and "CommitmentType commitment = cfg_CommitmentType (da_cfg d0)"
  shows "\<exists>d1. DA_AdvanceL1Origin keccak256 lib l1 d block = Some (Some ErrReorgRequired, d1) \<and>
    da_origin d1 = da_origin d0 \<and> da_state (snd (DA_Reset d1 base)) = da_state d1 \<and>
    (\<exists>e d2. DA_GetInput keccak256 lib storage l1' (snd (DA_Reset d1 base)) commitment blockId = Some (e, d2) \<and>
      e = (case storage commitment of Inl err \<Rightarrow> Inl (if errors_Is ErrNotFound err then ErrExpiredChallenge else err)
           | Inr _ \<Rightarrow> Inl ErrExpiredChallenge))"
proof -
  let ?s = "da_state d0"
  note i = LoadChallengeEvents_state_inv [OF assms(3,1)]
  obtain ps s' where e: "ExpireChallenges ?s (bid_Number block) =
      ((st_finalized s', if \<exists>r\<in>set ps. reorg_needed ?s r then Some ErrReorgRequired else None), s')"
    and x: "expired_by (bid_Number block) ps ?s s'" "state_inv s'"
    by (rule ExpireChallenges_moves [OF i])
  have r: "r \<in> set ps" using expired_by_sets [OF x(1)] assms(4,7) e by auto
  then have "\<exists>r\<in>set ps. reorg_needed ?s r" using assms(5,6) by (auto simp: reorg_needed_def)
  then have a: "DA_AdvanceL1Origin keccak256 lib l1 d block = Some (Some ErrReorgRequired, d0\<lparr>da_state := s', da_resetting := True\<rparr>)"
    using assms(2,3) e by (simp add: DA_AdvanceL1Origin_def)
  let ?d = "d0\<lparr>da_state := s', da_resetting := False\<rparr>"
  have c: "comm s' r = (comm ?s r)\<lparr>cm_challengeStatus := ChallengeExpired\<rparr>"
    using expired_byD(8) [OF x(1), of r] r assms(6) by simp
  have "r \<in> tracked ?s" using assms(4) by (simp add: tracked_def)
  then have "st_commsByKey ?s (Commitment_Encode commitment) = Some r" using i assms(8) by (simp add: state_inv_def)
  then have k: "st_commsByKey s' (Commitment_Encode commitment) = Some r" using expired_byD(10) [OF x(1)] by simp
  then have rl: "r < length (st_store s')" using tracked_key [OF x(2)] by blast
  let ?s1 = "set_comm s' r ((comm s' r)\<lparr>cm_canonical := True\<rparr>)"
  have g: "GetOrTrackChallenge s' (Commitment_Encode commitment) bn w = (r, ?s1)" for bn w
    using k by (simp add: GetOrTrackChallenge_def)
  have st: "cm_challengeStatus (comm ?s1 r) = ChallengeExpired" using rl c by (simp add: set_comm_def comm_def)
  have "\<exists>e d2. DA_GetInput keccak256 lib storage l1' ?d commitment blockId = Some (e, d2) \<and>
      e = (case storage commitment of Inl err \<Rightarrow> Inl (if errors_Is ErrNotFound err then ErrExpiredChallenge else err)
           | Inr _ \<Rightarrow> Inl ErrExpiredChallenge)"
    using assms(9) st by (cases "storage commitment") (simp_all add: DA_GetInput_def g Let_def status_defs)
  then show ?thesis using a by (simp add: DA_Reset_def)
qed

text \<open>A challenge that is resolved through another contract can crash the node. In a block with a resolution event of a
  tracked commitment, the call data of the transaction is decoded as a call of resolve, without its
  first four bytes; the call panics exactly when there are fewer. Otherwise, when the call data does not
  unpack or does not hold the preimage, the resolution is ignored: the commitment stays as it was.\<close>

theorem resolved_by_contract:
  assumes "cfg_CommitmentType (da_cfg d) = Keccak256CommitmentType" "bid_Number (da_origin d) < bid_Number block"
    and "f_FetchReceipts l1 (bid_Hash block) = Inr [\<lparr>dr_Status = ReceiptStatusSuccessful, dr_Logs = [log]\<rparr>]"
    and "log_Address log = cfg_DAChallengeContractAddress (da_cfg d)" "log_Topics log = ChallengeStatusEventABIHash lib # topics"
    and "GetAbi lib = None" "UnpackEvent lib (log_Data log) = Inr (Commitment_Encode (Keccak256Commitment h), ChallengeResolved)"
    and "length h = 32" "ParseTopics lib topics = Inr bn"
    and "st_commsByKey (da_state d) (Commitment_Encode (Keccak256Commitment h)) = Some r"
    and "cm_blockNumber (comm (da_state d) r) = of_nat bn"
    and "f_InfoAndTxsByHash l1 (bid_Hash block) = Inr txs" "unat (dl_TxIndex log) < length txs"
    and "dtx_Hash (txs ! unat (dl_TxIndex log)) = dl_TxHash log"
  shows "(DA_AdvanceL1Origin keccak256 lib l1 d block = None \<longleftrightarrow> length (dtx_Data (txs ! unat (dl_TxIndex log))) < 4) \<and>
    (4 \<le> length (dtx_Data (txs ! unat (dl_TxIndex log))) \<and>
     (\<forall>rd. UnpackResolve lib (drop 4 (dtx_Data (txs ! unat (dl_TxIndex log)))) = Inr (Some rd) \<longrightarrow> be_put 32 (keccak256 rd) \<noteq> h) \<longrightarrow>
     LoadChallengeEvents keccak256 lib l1 d block = Some (None, d))"
    (is "?crash \<and> (?bad \<longrightarrow> ?load)")
proof
  let ?data = "dtx_Data (txs ! unat (dl_TxIndex log))"
  have dc: "DecodeCommitmentData (Commitment_Encode (Keccak256Commitment h)) = Inr (Keccak256Commitment h)"
    using assms(8) by (auto simp: DecodeCommitmentData_def DecodeKeccak256_def)
  have dec: "decodeChallengeStatus lib (da_state d) log = Some (Inr (ChallengeResolved, Keccak256Commitment h), da_state d)"
    using assms(5-7,9-11) dc
    by (simp add: decodeChallengeStatus_def DecodeChallengeStatusEvent_def IsTracking_def Let_def del: Commitment_Encode.simps)
  have logs: "fetchChallengeLogs lib l1 (da_cfg d) block = Inr [log]"
    using assms(1,3-5) by (simp add: fetchChallengeLogs_def Keccak256CommitmentType_def GenericCommitmentType_def)
  have load: "LoadChallengeEvents keccak256 lib l1 d block =
      (case DecodeResolvedInput lib ?data of
         None \<Rightarrow> None
       | Some (Inl err) \<Rightarrow> Some (None, d)
       | Some (Inr input) \<Rightarrow>
           if h \<noteq> be_put 32 (keccak256 input) then Some (None, d)
           else Some (None, d\<lparr>da_state := SetResolvedChallenge (da_state d) (Commitment_Encode (Keccak256Commitment h)) input (dl_BlockNumber log)\<rparr>))"
    using logs dec assms(1,12-14)
    by (simp add: LoadChallengeEvents_def load_event_def Let_def split: option.splits sum.splits)
  have panic: "DecodeResolvedInput lib ?data = None \<longleftrightarrow> length ?data < 4"
    using assms(6) by (auto simp: DecodeResolvedInput_def split: sum.splits option.splits)
  have "DA_AdvanceL1Origin keccak256 lib l1 d block = None \<longleftrightarrow> LoadChallengeEvents keccak256 lib l1 d block = None"
    using assms(2) by (auto simp: DA_AdvanceL1Origin_def Let_def split: option.splits prod.splits sum.splits)
  moreover have "LoadChallengeEvents keccak256 lib l1 d block = None \<longleftrightarrow> DecodeResolvedInput lib ?data = None"
    unfolding load by (simp split: option.splits sum.splits)
  ultimately show ?crash using panic by simp
  show "?bad \<longrightarrow> ?load"
    unfolding load using assms(6) by (auto simp: DecodeResolvedInput_def split: sum.splits option.splits)
qed

section \<open>Witnesses\<close>

definition sample_cfg :: "byte \<Rightarrow> DAConfig" where
  "sample_cfg t = \<lparr>cfg_DAChallengeContractAddress = 1, cfg_CommitmentType = t, cfg_ChallengeWindow = 6, cfg_ResolveWindow = 6\<rparr>"

definition sample_lib :: DALib where
  "sample_lib = \<lparr>GetAbi = None, UnpackEvent = (\<lambda>b. Inr (b, ChallengeResolved)), ParseTopics = (\<lambda>_. Inr 1),
     UnpackResolve = (\<lambda>b. Inr (Some b)), ChallengeStatusEventABIHash = 9\<rparr>"

definition sample_http :: Http where
  "sample_http = \<lparr>NewRequest = (\<lambda>_. None), Do = (\<lambda>_. Inr \<lparr>rs_StatusCode = 200, rs_Body = Inr [7]\<rparr>)\<rparr>"

definition sample_l1 :: "DALog \<Rightarrow> L1Fetcher" where
  "sample_l1 log = \<lparr>f_InfoAndTxsByHash = (\<lambda>_. Inr [\<lparr>dtx_Hash = 3, dtx_Data = []\<rparr>]),
     f_FetchReceipts = (\<lambda>_. Inr [\<lparr>dr_Status = ReceiptStatusSuccessful, dr_Logs = [log]\<rparr>]),
     f_L1BlockRefByNumber = (\<lambda>n. Inr (zero_L1BlockRef\<lparr>l1_Number := n\<rparr>))\<rparr>"

definition sample_log :: DALog where
  "sample_log = \<lparr>log_Address = 1, log_Topics = [9, 1], log_Data = Commitment_Encode (Keccak256Commitment (be_put 32 (0 :: Hash))),
     log_BlockHash = 0, log_Index = 0, dl_TxIndex = 0, dl_TxHash = 3, dl_BlockNumber = 2\<rparr>"

definition block2 :: BlockID where "block2 = \<lparr>bid_Hash = 2, bid_Number = 2\<rparr>"

lemmas sample_defs = sample_cfg_def sample_lib_def sample_http_def sample_l1_def sample_log_def block2_def

theorem GetInput_authentic_witness:
  "Keccak256Commitment (be_put 32 (0 :: Hash)) = NewKeccak256Commitment (\<lambda>_. 0) [7]"
proof (rule GetInput_authentic [OF da_run.start [of "\<lambda>_. 0" sample_lib "sample_cfg Keccak256CommitmentType"],
      of "\<lparr>dc_verify = True, dc_precompute = True\<rparr>" sample_http "sample_l1 sample_log" _ block2])
  show "DA_GetInput (\<lambda>_. 0) sample_lib (Client_GetInput (\<lambda>_. 0) sample_http \<lparr>dc_verify = True, dc_precompute = True\<rparr>)
      (sample_l1 sample_log) (NewPlasmaDA (sample_cfg Keccak256CommitmentType)) (Keccak256Commitment (be_put 32 (0 :: Hash))) block2 =
    Some (Inr [7], (NewPlasmaDA (sample_cfg Keccak256CommitmentType))\<lparr>da_state :=
      snd (GetOrTrackChallenge NewState (Commitment_Encode (Keccak256Commitment (be_put 32 (0 :: Hash)))) 2 6)\<rparr>)"
    by (simp add: DA_GetInput_def sample_defs NewPlasmaDA_def Client_GetInput_def Let_def GetOrTrackChallenge_def NewState_def
        SetInputCommitment_def push_comm_def comm_def status_defs)
qed (simp_all add: sample_defs)

theorem resolved_by_contract_witness:
  "DA_AdvanceL1Origin (\<lambda>_. 0) sample_lib (sample_l1 sample_log) ((NewPlasmaDA (sample_cfg Keccak256CommitmentType))\<lparr>da_state :=
     snd (SetInputCommitment NewState (Commitment_Encode (Keccak256Commitment (be_put 32 (0 :: Hash)))) 1 6)\<rparr>) block2 = None"
proof -
  let ?d = "(NewPlasmaDA (sample_cfg Keccak256CommitmentType))\<lparr>da_state :=
     snd (SetInputCommitment NewState (Commitment_Encode (Keccak256Commitment (be_put 32 (0 :: Hash)))) 1 6)\<rparr>"
  have s: "st_commsByKey (da_state ?d) (Commitment_Encode (Keccak256Commitment (be_put 32 (0 :: Hash)))) = Some 0"
    "cm_blockNumber (comm (da_state ?d) 0) = of_nat 1"
    by (simp_all add: SetInputCommitment_def push_comm_def NewState_def comm_def Let_def)
  show ?thesis
    using resolved_by_contract [of ?d block2 "sample_l1 sample_log" sample_log sample_lib "[1]" "be_put 32 (0 :: Hash)" 1 0
        "[\<lparr>dtx_Hash = 3, dtx_Data = []\<rparr>]" "\<lambda>_. 0", OF _ _ _ _ _ _ _ _ _ s]
    by (simp add: sample_defs NewPlasmaDA_def)
qed

definition challenged :: PState where
  "challenged = SetActiveChallenge (snd (SetInputCommitment NewState [1, 5] 1 6)) [1, 5] 2 3"

lemma challenged_eq: "challenged =
    \<lparr>st_store = [\<lparr>cm_key = [1, 5], cm_input = [], cm_expiresAt = 5, cm_blockNumber = 1, cm_challengeStatus = 1, cm_canonical = True\<rparr>],
     st_activeComms = [0], st_expiredComms = [], st_commsByKey = (\<lambda>_. None)([1, 5] := Some 0), st_finalized = 0\<rparr>"
  by (simp add: challenged_def SetInputCommitment_def push_comm_def NewState_def Let_def heap_Push_def heap_up.simps
      SetActiveChallenge_def set_comm_def comm_def status_defs)

theorem reorg_then_skip_witness:
  "\<exists>d1. DA_AdvanceL1Origin (\<lambda>_. 0) sample_lib (sample_l1 sample_log) ((NewPlasmaDA (sample_cfg 1))\<lparr>da_state := challenged\<rparr>)
      \<lparr>bid_Hash = 5, bid_Number = 5\<rparr> = Some (Some ErrReorgRequired, d1) \<and>
    (\<exists>d2. DA_GetInput (\<lambda>_. 0) sample_lib (\<lambda>_. Inl ErrNotFound) (sample_l1 sample_log) (snd (DA_Reset d1 zero_L1BlockRef))
      (GenericCommitment [5]) block2 = Some (Inl ErrExpiredChallenge, d2))"
proof -
  let ?d = "(NewPlasmaDA (sample_cfg 1))\<lparr>da_state := challenged\<rparr>"
  let ?b = "\<lparr>bid_Hash = 5, bid_Number = 5\<rparr>"
  have i: "state_inv (da_state ?d)"
    unfolding challenged_def SetInputCommitment_def snd_conv
    by (simp, intro SetActiveChallenge_inv push_comm_inv NewState_inv) (simp add: NewState_def)
  have l: "LoadChallengeEvents (\<lambda>_. 0) sample_lib (sample_l1 sample_log) ?d ?b = Some (None, ?d)"
    by (simp add: LoadChallengeEvents_def fetchChallengeLogs_def NewPlasmaDA_def sample_defs GenericCommitmentType_def)
  have step: "expire_loop 5 None challenged = expire_loop 5 (snd (expire_head challenged None 0 [])) (fst (expire_head challenged None 0 []))"
    unfolding challenged_eq by (subst expire_loop.simps) (simp add: comm_def heap_Pop_def heap_down.simps swap_def Let_def)
  have "st_activeComms (snd (ExpireChallenges (da_state ?d) (bid_Number ?b))) = []"
    by (simp add: ExpireChallenges_def step) (subst expire_loop.simps, simp)
  then show ?thesis
    using reorg_then_skip [OF i _ l, of 0 "GenericCommitment [5]" zero_L1BlockRef "\<lambda>_. Inl ErrNotFound" "sample_l1 sample_log" block2]
    by (auto simp: challenged_eq comm_def NewPlasmaDA_def sample_cfg_def status_defs GenericCommitmentType_def)
qed

end
