(* ===== verification/Finality.thy ===== *)
theory Finality
  imports PlasmaDA
begin

text \<open>
  Finality of L2 blocks, op-node/rollup/finality (finalizer.go, plasma.go): which L2 block was derived up to which L1
  block is remembered, and when an L1 block is final the L2 blocks derived up to it are made final in
  the engine. Of the engine the finalizer uses its finalized head, which is part of the state here; L1
  answers for one call. In plasma mode the signal of L1 goes through the plasma manager. The mutex is left out.
\<close>

section \<open>The finalizer\<close>

definition defaultFinalityLookback :: u64 where "defaultFinalityLookback = 4 * 32 + 1"

definition finalityDelay :: u64 where "finalityDelay = 15"

definition calcFinalityLookback :: "Config \<Rightarrow> u64" where
  "calcFinalityLookback cfg =
     (case cfg_PlasmaConfig cfg of
        Some pc \<Rightarrow>
          (let lkb = pc_DAChallengeWindow pc + pc_DAResolveWindow pc + 1
           in if lkb > defaultFinalityLookback then lkb else defaultFinalityLookback)
      | None \<Rightarrow> defaultFinalityLookback)"

record FinalityData =
  fd_L2Block :: L2BlockRef
  fd_L1Block :: BlockID

text \<open>\<open>fi_engine\<close> is the finalized head of the engine controller.\<close>

record Finalizer =
  fi_finalizedL1 :: L1BlockRef
  fi_triedFinalizeAt :: u64
  fi_finalityData :: "FinalityData list"
  fi_finalityLookback :: u64
  fi_engine :: L2BlockRef

definition NewFinalizer :: "Config \<Rightarrow> L2BlockRef \<Rightarrow> Finalizer" where
  "NewFinalizer cfg engineFinalized =
     \<lparr>fi_finalizedL1 = zero_L1BlockRef, fi_triedFinalizeAt = 0, fi_finalityData = [],
      fi_finalityLookback = calcFinalityLookback cfg, fi_engine = engineFinalized\<rparr>"

type_synonym L1ByNumber = "u64 \<Rightarrow> L1BlockRef res"

text \<open>The loop over the remembered data: the block to finalize and the L1 block it was derived from.\<close>

fun finalize_scan :: "u64 \<Rightarrow> FinalityData list \<Rightarrow> L2BlockRef \<times> BlockID \<Rightarrow> L2BlockRef \<times> BlockID" where
  "finalize_scan finalizedL1 [] acc = acc"
| "finalize_scan finalizedL1 (fd # fds) (l2, from) =
     finalize_scan finalizedL1 fds
       (if l2_Number (fd_L2Block fd) > l2_Number l2 \<and> bid_Number (fd_L1Block fd) \<le> finalizedL1
        then (fd_L2Block fd, fd_L1Block fd) else (l2, from))"

definition tryFinalize :: "L1ByNumber \<Rightarrow> Finalizer \<Rightarrow> gerr option \<times> Finalizer" where
  "tryFinalize l1 fi =
     (case finalize_scan (l1_Number (fi_finalizedL1 fi)) (fi_finalityData fi)
             (fi_engine fi, \<lparr>bid_Hash = 0, bid_Number = 0\<rparr>) of
        (finalizedL2, derivedFrom) \<Rightarrow>
          if derivedFrom \<noteq> \<lparr>bid_Hash = 0, bid_Number = 0\<rparr> then
            (case l1 (l1_Number (fi_finalizedL1 fi)) of
               Inl err \<Rightarrow> (Some (NewTemporaryError (Some (Wrap ''failed to check if on finalizing L1 chain'' err))), fi)
             | Inr signalRef \<Rightarrow>
                 if l1_Hash signalRef \<noteq> l1_Hash (fi_finalizedL1 fi) then
                   (Some (NewResetError (Some (Msg ''need to reset, assumed another block finalized''))), fi)
                 else
                   (case l1 (bid_Number derivedFrom) of
                      Inl err \<Rightarrow> (Some (NewTemporaryError (Some (Wrap ''failed to check if on finalizing L1 chain'' err))), fi)
                    | Inr derivedRef \<Rightarrow>
                        if l1_Hash derivedRef \<noteq> bid_Hash derivedFrom then
                          (Some (NewResetError (Some (Msg ''need to reset, not on the finalizing L1 chain''))), fi)
                        else (None, fi\<lparr>fi_engine := finalizedL2\<rparr>)))
          else (None, fi))"

definition Finalizer_Finalize :: "L1ByNumber \<Rightarrow> Finalizer \<Rightarrow> L1BlockRef \<Rightarrow> Finalizer" where
  "Finalizer_Finalize l1 fi l1Origin =
     (if l1_Number l1Origin < l1_Number (fi_finalizedL1 fi) then fi
      else (let fi = (if fi_finalizedL1 fi \<noteq> l1Origin
                      then fi\<lparr>fi_triedFinalizeAt := 0, fi_finalizedL1 := l1Origin\<rparr> else fi)
            in snd (tryFinalize l1 fi)))"

definition OnDerivationL1End :: "L1ByNumber \<Rightarrow> Finalizer \<Rightarrow> L1BlockRef \<Rightarrow> gerr option \<times> Finalizer" where
  "OnDerivationL1End l1 fi derivedFrom =
     (if fi_finalizedL1 fi = zero_L1BlockRef then (None, fi)
      else if fi_triedFinalizeAt fi \<noteq> 0 \<and> l1_Number derivedFrom \<le> fi_triedFinalizeAt fi + finalityDelay then (None, fi)
      else tryFinalize l1 (fi\<lparr>fi_triedFinalizeAt := l1_Number derivedFrom\<rparr>))"

definition PostProcessSafeL2 :: "Finalizer \<Rightarrow> L2BlockRef \<Rightarrow> L1BlockRef \<Rightarrow> Finalizer" where
  "PostProcessSafeL2 fi l2Safe derivedFrom =
     (let data = fi_finalityData fi in
      if data = [] \<or> bid_Number (fd_L1Block (last data)) < l1_Number derivedFrom then
        (let data = (if of_nat (length data) \<ge> fi_finalityLookback fi
                     then drop 1 (take (unat (fi_finalityLookback fi)) data) else data)
         in fi\<lparr>fi_finalityData := data @ [\<lparr>fd_L2Block = l2Safe, fd_L1Block = l1_ID derivedFrom\<rparr>]\<rparr>)
      else fi\<lparr>fi_finalityData := butlast data @ [(last data)\<lparr>fd_L2Block := l2Safe\<rparr>]\<rparr>)"

definition Finalizer_Reset :: "Finalizer \<Rightarrow> Finalizer" where
  "Finalizer_Reset fi = fi\<lparr>fi_finalityData := [], fi_triedFinalizeAt := 0\<rparr>"

text \<open>In plasma mode a signal goes to the manager, which signals the finalizer in turn.\<close>

definition PlasmaFinalizer_Finalize :: "L1ByNumber \<Rightarrow> DA \<Rightarrow> Finalizer \<Rightarrow> L1BlockRef \<Rightarrow> DA \<times> Finalizer" where
  "PlasmaFinalizer_Finalize l1 d fi l1Origin =
     (case Finalize d l1Origin of
        (None, d) \<Rightarrow> (d, fi)
      | (Some ref, d) \<Rightarrow> (d, Finalizer_Finalize l1 fi ref))"

section \<open>Invariant\<close>

text \<open>The data are in the order of their L1 blocks, and there are at most as many as the lookback.\<close>

definition data_sorted :: "FinalityData list \<Rightarrow> bool" where
  "data_sorted ds \<longleftrightarrow> sorted_wrt (<) (map (\<lambda>d. bid_Number (fd_L1Block d)) ds)"

definition fin_inv :: "Finalizer \<Rightarrow> bool" where
  "fin_inv fi \<longleftrightarrow> data_sorted (fi_finalityData fi) \<and> length (fi_finalityData fi) \<le> unat (fi_finalityLookback fi) \<and>
     0 < fi_finalityLookback fi"

lemma calcFinalityLookback_ge: "defaultFinalityLookback \<le> calcFinalityLookback cfg"
  by (auto simp: calcFinalityLookback_def Let_def split: option.splits)

lemma lookback_pos: "0 < calcFinalityLookback cfg"
proof -
  have "(0 :: u64) < defaultFinalityLookback" by (simp add: defaultFinalityLookback_def)
  then show ?thesis using calcFinalityLookback_ge by (rule order_less_le_trans)
qed

text \<open>What the scan finds: the highest of the remembered blocks that were derived from finalized L1 blocks.\<close>

lemma finalize_scan_spec:
  assumes "finalize_scan n fds (l2, from) = (l2', from')"
  shows "(l2' = l2 \<and> from' = from \<or>
      (\<exists>fd\<in>set fds. l2' = fd_L2Block fd \<and> from' = fd_L1Block fd \<and> bid_Number from' \<le> n \<and> l2_Number l2 < l2_Number l2')) \<and>
    l2_Number l2 \<le> l2_Number l2' \<and>
    (\<forall>fd\<in>set fds. bid_Number (fd_L1Block fd) \<le> n \<longrightarrow> l2_Number (fd_L2Block fd) \<le> l2_Number l2')"
  using assms
proof (induction fds arbitrary: l2 "from")
  case (Cons fd fds)
  let ?t = "l2_Number l2 < l2_Number (fd_L2Block fd) \<and> bid_Number (fd_L1Block fd) \<le> n"
  show ?case
  proof (cases ?t)
    case True
    then have "finalize_scan n fds (fd_L2Block fd, fd_L1Block fd) = (l2', from')" using Cons.prems by simp
    from Cons.IH [OF this] show ?thesis using True by (auto intro: order_less_le_trans order_less_imp_le)
  next
    case False
    then have "finalize_scan n fds (l2, from) = (l2', from')" using Cons.prems by (simp split: if_splits)
    from Cons.IH [OF this] show ?thesis using False by (auto simp: linorder_not_less intro: order_trans)
  qed
qed simp

lemma tryFinalize_cases:
  assumes "tryFinalize l1 fi = (err, fi')"
  obtains (same) "fi' = fi"
  | (final) fd x y where "fd \<in> set (fi_finalityData fi)" "fi' = fi\<lparr>fi_engine := fd_L2Block fd\<rparr>"
      "l2_Number (fi_engine fi) < l2_Number (fd_L2Block fd)" "bid_Number (fd_L1Block fd) \<le> l1_Number (fi_finalizedL1 fi)"
      "l1 (l1_Number (fi_finalizedL1 fi)) = Inr x" "l1_Hash x = l1_Hash (fi_finalizedL1 fi)"
      "l1 (bid_Number (fd_L1Block fd)) = Inr y" "l1_Hash y = bid_Hash (fd_L1Block fd)"
      "\<forall>e\<in>set (fi_finalityData fi). bid_Number (fd_L1Block e) \<le> l1_Number (fi_finalizedL1 fi) \<longrightarrow>
         l2_Number (fd_L2Block e) \<le> l2_Number (fd_L2Block fd)"
proof -
  obtain l2 "from" where sc: "finalize_scan (l1_Number (fi_finalizedL1 fi)) (fi_finalityData fi)
      (fi_engine fi, \<lparr>bid_Hash = 0, bid_Number = 0\<rparr>) = (l2, from)" by fastforce
  note sp = finalize_scan_spec [OF sc]
  note df = tryFinalize_def [of l1 fi, unfolded sc prod.case]
  show ?thesis
  proof (cases "from = \<lparr>bid_Hash = 0, bid_Number = 0\<rparr>")
    case True
    then have "fi' = fi" using assms unfolding df by simp
    then show ?thesis by (rule same)
  next
    case False
    show ?thesis
    proof (cases "l1 (l1_Number (fi_finalizedL1 fi))")
      case (Inl e)
      then have "fi' = fi" using assms False unfolding df by simp
      then show ?thesis by (rule same)
    next
      case x: (Inr x)
      show ?thesis
      proof (cases "l1_Hash x = l1_Hash (fi_finalizedL1 fi)")
        case hx: True
        show ?thesis
        proof (cases "l1 (bid_Number from)")
          case (Inl e)
          then have "fi' = fi" using assms False x hx unfolding df by simp
          then show ?thesis by (rule same)
        next
          case y: (Inr y)
          show ?thesis
          proof (cases "l1_Hash y = bid_Hash from")
            case hy: True
            then have f: "fi' = fi\<lparr>fi_engine := l2\<rparr>" using assms False x y hx unfolding df by simp
            from sp False obtain fd where "fd \<in> set (fi_finalityData fi)" "l2 = fd_L2Block fd" "from = fd_L1Block fd"
              "bid_Number from \<le> l1_Number (fi_finalizedL1 fi)" "l2_Number (fi_engine fi) < l2_Number l2" by blast
            moreover have "\<forall>e\<in>set (fi_finalityData fi). bid_Number (fd_L1Block e) \<le> l1_Number (fi_finalizedL1 fi) \<longrightarrow>
              l2_Number (fd_L2Block e) \<le> l2_Number l2" using sp by blast
            ultimately show ?thesis using f x y hx hy by (intro final [of fd x y]) simp_all
          next
            case False
            then have "fi' = fi" using assms \<open>from \<noteq> _\<close> x y hx unfolding df by simp
            then show ?thesis by (rule same)
          qed
        qed
      next
        case hx: False
        then have "fi' = fi" using assms False x unfolding df by simp
        then show ?thesis by (rule same)
      qed
    qed
  qed
qed

section \<open>Runs\<close>

text \<open>The finalizer as the engine queue and the driver use it, with the safe heads posted since the last reset: a
  signal of L1, the end of an L1 block, a new safe head, a reset; others may set the finalized head of the engine.
  L1 may answer differently every time.\<close>

inductive fin_step :: "(L2BlockRef \<times> L1BlockRef) list \<Rightarrow> Finalizer \<Rightarrow> (L2BlockRef \<times> L1BlockRef) list \<Rightarrow> Finalizer \<Rightarrow> bool" where
  signal: "fin_step posts fi posts (Finalizer_Finalize l1 fi ref)"
| l1_end: "fin_step posts fi posts (snd (OnDerivationL1End l1 fi ref))"
| post: "fin_step posts fi (posts @ [(l2, ref)]) (PostProcessSafeL2 fi l2 ref)"
| reset: "fin_step posts fi [] (Finalizer_Reset fi)"
| engine: "fin_step posts fi posts (fi\<lparr>fi_engine := head\<rparr>)"

inductive fin_run :: "Config \<Rightarrow> (L2BlockRef \<times> L1BlockRef) list \<Rightarrow> Finalizer \<Rightarrow> bool" for cfg where
  start: "fin_run cfg [] (NewFinalizer cfg e)"
| step: "fin_run cfg posts fi \<Longrightarrow> fin_step posts fi posts' fi' \<Longrightarrow> fin_run cfg posts' fi'"

lemma tryFinalize_frame:
  assumes "tryFinalize l1 fi = (err, fi')"
  shows "fi_finalityData fi' = fi_finalityData fi" "fi_finalityLookback fi' = fi_finalityLookback fi"
    "fi_finalizedL1 fi' = fi_finalizedL1 fi" "l2_Number (fi_engine fi) \<le> l2_Number (fi_engine fi')"
  by (cases rule: tryFinalize_cases [OF assms]; simp)+

lemma fin_step_frame:
  "fin_step posts fi posts' fi' \<Longrightarrow>
   fi_finalityLookback fi' = fi_finalityLookback fi"
proof (induction rule: fin_step.induct)
  case (signal posts fi l1 ref)
  then show ?case
    using tryFinalize_frame [of l1 fi, OF surjective_pairing]
      tryFinalize_frame [of l1 "fi\<lparr>fi_triedFinalizeAt := 0, fi_finalizedL1 := ref\<rparr>", OF surjective_pairing]
    by (simp add: Finalizer_Finalize_def Let_def)
next
  case (l1_end posts fi l1 ref)
  then show ?case
    using tryFinalize_frame [of l1 "fi\<lparr>fi_triedFinalizeAt := l1_Number ref\<rparr>", OF surjective_pairing]
    by (simp add: OnDerivationL1End_def)
qed (simp_all add: PostProcessSafeL2_def Finalizer_Reset_def Let_def)

lemma data_step:
  "fin_step posts fi posts' fi' \<Longrightarrow> fi_finalityData fi' = fi_finalityData fi \<and> posts' = posts \<or>
   (\<exists>l2 ref. posts' = posts @ [(l2, ref)] \<and> fi' = PostProcessSafeL2 fi l2 ref) \<or> posts' = [] \<and> fi' = Finalizer_Reset fi"
proof (induction rule: fin_step.induct)
  case (signal posts fi l1 ref)
  then show ?case
    using tryFinalize_frame(1) [of l1 fi, OF surjective_pairing]
      tryFinalize_frame(1) [of l1 "fi\<lparr>fi_triedFinalizeAt := 0, fi_finalizedL1 := ref\<rparr>", OF surjective_pairing]
    by (simp add: Finalizer_Finalize_def Let_def)
next
  case (l1_end posts fi l1 ref)
  then show ?case
    using tryFinalize_frame(1) [of l1 "fi\<lparr>fi_triedFinalizeAt := l1_Number ref\<rparr>", OF surjective_pairing]
    by (simp add: OnDerivationL1End_def)
qed auto

text \<open>Every remembered entry is a posted safe head, under the id of an L1 block of a post that is not before the one
  it was derived from.\<close>

definition posted :: "(L2BlockRef \<times> L1BlockRef) list \<Rightarrow> FinalityData \<Rightarrow> bool" where
  "posted posts fd \<longleftrightarrow>
     (\<exists>ref. (fd_L2Block fd, ref) \<in> set posts \<and> l1_Number ref \<le> bid_Number (fd_L1Block fd)) \<and>
     (\<exists>l2 ref. (l2, ref) \<in> set posts \<and> l1_ID ref = fd_L1Block fd)"

definition run_inv :: "(L2BlockRef \<times> L1BlockRef) list \<Rightarrow> Finalizer \<Rightarrow> bool" where
  "run_inv posts fi \<longleftrightarrow> fin_inv fi \<and> (\<forall>fd\<in>set (fi_finalityData fi). posted posts fd)"

lemma posted_mono: "posted posts fd \<Longrightarrow> posted (posts @ xs) fd"
  by (auto simp: posted_def)

lemma data_sorted_snoc:
  "data_sorted (ds @ [d]) \<longleftrightarrow> data_sorted ds \<and> (\<forall>e\<in>set ds. bid_Number (fd_L1Block e) < bid_Number (fd_L1Block d))"
  by (auto simp: data_sorted_def sorted_wrt_append)

lemma data_sorted_drop: "data_sorted ds \<Longrightarrow> data_sorted (drop k ds)"
  by (simp add: data_sorted_def drop_map sorted_wrt_drop flip: drop_map)

lemma data_sorted_take: "data_sorted ds \<Longrightarrow> data_sorted (take k ds)"
  by (simp add: data_sorted_def sorted_wrt_take flip: take_map)

lemma data_sorted_last:
  assumes "data_sorted ds" "e \<in> set ds"
  shows "bid_Number (fd_L1Block e) \<le> bid_Number (fd_L1Block (last ds))"
  using assms by (cases ds rule: rev_cases) (auto simp: data_sorted_snoc)

lemma PostProcess_inv:
  assumes "run_inv posts fi"
  shows "run_inv (posts @ [(l2, ref)]) (PostProcessSafeL2 fi l2 ref)"
proof -
  let ?d = "fi_finalityData fi"
  let ?L = "unat (fi_finalityLookback fi)"
  have s: "data_sorted ?d" and len: "length ?d \<le> ?L" and pos: "0 < ?L"
    and p: "\<And>fd. fd \<in> set ?d \<Longrightarrow> posted (posts @ [(l2, ref)]) fd"
    using assms by (auto simp: run_inv_def fin_inv_def word_less_nat_alt intro: posted_mono)
  show ?thesis
  proof (cases "?d = [] \<or> bid_Number (fd_L1Block (last ?d)) < l1_Number ref")
    case True
    let ?k = "if fi_finalityLookback fi \<le> of_nat (length ?d) then drop 1 (take ?L ?d) else ?d"
    have k: "set ?k \<subseteq> set ?d" by (auto dest: in_set_dropD in_set_takeD)
    have "length ?d < ?L" if "\<not> fi_finalityLookback fi \<le> of_nat (length ?d)"
    proof -
      have "unat (of_nat (length ?d) :: u64) = length ?d"
        using len order_le_less_trans [OF len, of "2 ^ 64"] unsigned_less [of "fi_finalityLookback fi", where 'a = nat]
        by (intro unat_of_nat_u64) simp
      then show ?thesis using that by (simp add: word_le_nat_alt)
    qed
    then have "length ?k < ?L" using len pos by auto
    moreover have "data_sorted ?k" using s by (simp add: data_sorted_drop data_sorted_take)
    moreover have "bid_Number (fd_L1Block e) < l1_Number ref" if "e \<in> set ?k" for e
      using True k that data_sorted_last [OF s, of e] by (cases "?d = []") (auto intro: order_le_less_trans)
    moreover have "posted (posts @ [(l2, ref)]) \<lparr>fd_L2Block = l2, fd_L1Block = l1_ID ref\<rparr>"
      by (auto simp: posted_def l1_ID_def)
    ultimately show ?thesis
      using True p k pos
      by (auto simp: run_inv_def fin_inv_def PostProcessSafeL2_def Let_def data_sorted_snoc l1_ID_def word_less_nat_alt)
  next
    case False
    then obtain ds e where d: "?d = ds @ [e]" by (metis rev_exhaust)
    have "posted (posts @ [(l2, ref)]) (e\<lparr>fd_L2Block := l2\<rparr>)"
      using p [of e] False d by (auto simp: posted_def)
    then show ?thesis
      using False s len pos p d
      by (auto simp: run_inv_def fin_inv_def PostProcessSafeL2_def Let_def data_sorted_snoc word_less_nat_alt)
  qed
qed

lemma fin_run_inv: "fin_run cfg posts fi \<Longrightarrow> run_inv posts fi"
proof (induction rule: fin_run.induct)
  case (start e)
  then show ?case
    using lookback_pos by (simp add: run_inv_def fin_inv_def NewFinalizer_def data_sorted_def)
next
  case (step posts fi posts' fi')
  from data_step [OF step.hyps(2)] show ?case
  proof (elim disjE exE conjE)
    assume "fi_finalityData fi' = fi_finalityData fi" "posts' = posts"
    then show ?thesis using step.IH fin_step_frame [OF step.hyps(2)] by (simp add: run_inv_def fin_inv_def)
  next
    fix l2 ref
    assume "posts' = posts @ [(l2, ref)]" "fi' = PostProcessSafeL2 fi l2 ref"
    then show ?thesis using PostProcess_inv [OF step.IH] by simp
  next
    assume "posts' = []" "fi' = Finalizer_Reset fi"
    then show ?thesis using step.IH by (simp add: run_inv_def fin_inv_def Finalizer_Reset_def data_sorted_def)
  qed
qed

section \<open>Properties\<close>

lemma scan_final:
  assumes "fin_run cfg posts fi" "tryFinalize l1 f = (err, f')" "fi_finalityData f = fi_finalityData fi"
    "fi_engine f = fi_engine fi" "fi_engine f' \<noteq> fi_engine fi"
  obtains fd x y where "fd \<in> set (fi_finalityData fi)" "fi_engine f' = fd_L2Block fd" "posted posts fd"
    "l2_Number (fi_engine fi) < l2_Number (fd_L2Block fd)" "bid_Number (fd_L1Block fd) \<le> l1_Number (fi_finalizedL1 f)"
    "l1 (l1_Number (fi_finalizedL1 f)) = Inr x" "l1_Hash x = l1_Hash (fi_finalizedL1 f)"
    "l1 (bid_Number (fd_L1Block fd)) = Inr y" "l1_Hash y = bid_Hash (fd_L1Block fd)"
  using assms(2)
proof (cases rule: tryFinalize_cases)
  case same
  then show ?thesis using assms(4,5) by simp
next
  case (final fd x y)
  then show ?thesis
    using that [of fd x y] fin_run_inv [OF assms(1)] assms(3,4) by (simp add: run_inv_def)
qed

text \<open>Whatever signals, ends of L1 blocks, safe heads and resets the finalizer has seen, a signal of a finalized L1
  block moves the finalized head of the engine only forward, only to a safe head posted since the last reset, and only
  when that one was derived up to an L1 block at or before the finalized one (its own derivation, and the entry it is
  remembered under, are not after it), with both the finalized L1 block and the entry's on the canonical chain.\<close>

theorem finalized_is_derived_from_final:
  assumes "fin_run cfg posts fi" "fi_engine (Finalizer_Finalize l1 fi ref) \<noteq> fi_engine fi"
  shows "l2_Number (fi_engine fi) < l2_Number (fi_engine (Finalizer_Finalize l1 fi ref)) \<and>
    (\<exists>derived fd x y. (fi_engine (Finalizer_Finalize l1 fi ref), derived) \<in> set posts \<and>
       fd \<in> set (fi_finalityData fi) \<and> l1_Number derived \<le> bid_Number (fd_L1Block fd) \<and>
       bid_Number (fd_L1Block fd) \<le> l1_Number ref \<and>
       l1 (l1_Number ref) = Inr x \<and> l1_Hash x = l1_Hash ref \<and>
       l1 (bid_Number (fd_L1Block fd)) = Inr y \<and> l1_Hash y = bid_Hash (fd_L1Block fd))"
proof -
  have n: "\<not> l1_Number ref < l1_Number (fi_finalizedL1 fi)"
    using assms(2) by (auto simp: Finalizer_Finalize_def)
  define f where "f = (if fi_finalizedL1 fi \<noteq> ref then fi\<lparr>fi_triedFinalizeAt := 0, fi_finalizedL1 := ref\<rparr> else fi)"
  have f: "fi_finalityData f = fi_finalityData fi" "fi_engine f = fi_engine fi" "fi_finalizedL1 f = ref"
    by (simp_all add: f_def)
  obtain err f' where t: "tryFinalize l1 f = (err, f')" by fastforce
  have r: "Finalizer_Finalize l1 fi ref = f'"
    using n t by (simp add: Finalizer_Finalize_def Let_def f_def [symmetric])
  obtain fd x y where "fd \<in> set (fi_finalityData fi)" "fi_engine f' = fd_L2Block fd" "posted posts fd"
    "l2_Number (fi_engine fi) < l2_Number (fd_L2Block fd)" "bid_Number (fd_L1Block fd) \<le> l1_Number ref"
    "l1 (l1_Number ref) = Inr x" "l1_Hash x = l1_Hash ref"
    "l1 (bid_Number (fd_L1Block fd)) = Inr y" "l1_Hash y = bid_Hash (fd_L1Block fd)"
    using scan_final [OF assms(1) t f(1,2)] assms(2) r f(3) by metis
  then show ?thesis unfolding r posted_def by metis
qed

text \<open>In every state the finalizer reaches, the remembered entries are strictly in the order of their L1 blocks, they
  are at most the lookback, which covers the challenge and resolve windows of plasma mode, and every one holds a safe
  head posted since the last reset.\<close>

theorem finality_data_bounded:
  assumes "fin_run cfg posts fi"
  shows "data_sorted (fi_finalityData fi) \<and> length (fi_finalityData fi) \<le> unat (calcFinalityLookback cfg) \<and>
    set (map fd_L2Block (fi_finalityData fi)) \<subseteq> set (map fst posts)"
proof -
  have "fi_finalityLookback fi = calcFinalityLookback cfg"
    using assms
  proof (induction rule: fin_run.induct)
    case (start e)
    then show ?case by (simp add: NewFinalizer_def)
  next
    case (step posts fi posts' fi')
    then show ?case using fin_step_frame [OF step.hyps(2)] by simp
  qed
  then show ?thesis using fin_run_inv [OF assms] by (force simp: run_inv_def fin_inv_def posted_def)
qed

text \<open>C30: In plasma mode a signal of L1 does not reach the finalizer as it is: when it changes the finalizer's view of
  finalized L1, the new view is at or before the signal and at or before the manager's own finalized head.\<close>

theorem plasma_finality_behind:
  assumes "fi_finalizedL1 (snd (PlasmaFinalizer_Finalize l1 d fi ref)) \<noteq> fi_finalizedL1 fi"
  shows "l1_Number (fi_finalizedL1 (snd (PlasmaFinalizer_Finalize l1 d fi ref))) \<le> l1_Number ref \<and>
    l1_Number (fi_finalizedL1 (snd (PlasmaFinalizer_Finalize l1 d fi ref))) \<le> l1_Number (da_finalizedHead d)"
proof -
  obtain s d' where s: "Finalize d ref = (s, d')" by fastforce
  show ?thesis
  proof (cases s)
    case None
    then show ?thesis using assms s by (simp add: PlasmaFinalizer_Finalize_def)
  next
    case (Some r)
    have r: "l1_Number r \<le> l1_Number ref \<and> l1_Number r \<le> l1_Number (da_finalizedHead d)"
      using s Some by (auto simp: Finalize_def Let_def split: if_splits)
    have "fi_finalizedL1 (Finalizer_Finalize l1 fi r) = fi_finalizedL1 fi \<or> fi_finalizedL1 (Finalizer_Finalize l1 fi r) = r"
      using tryFinalize_frame(3) [OF surjective_pairing] by (simp add: Finalizer_Finalize_def Let_def)
    then show ?thesis using assms s Some r by (auto simp: PlasmaFinalizer_Finalize_def)
  qed
qed

section \<open>Witnesses\<close>

definition final_l1 :: "u64 \<Rightarrow> L1BlockRef" where
  "final_l1 n = \<lparr>l1_Hash = ucast n + 100, l1_Number = n, l1_ParentHash = ucast n + 99, l1_Time = 12 * n, l1_MilliTime = 0\<rparr>"

definition final_l2 :: "u64 \<Rightarrow> L2BlockRef" where
  "final_l2 n = \<lparr>l2_Hash = ucast n + 500, l2_Number = n, l2_ParentHash = 0, l2_Time = 0, l2_MilliTime = 0,
     l2_L1Origin = \<lparr>bid_Hash = 0, bid_Number = 0\<rparr>, l2_SequenceNumber = 0\<rparr>"

definition final_fi :: "Config \<Rightarrow> Finalizer" where
  "final_fi cfg = PostProcessSafeL2 (PostProcessSafeL2 (PostProcessSafeL2 (NewFinalizer cfg (final_l2 0))
     (final_l2 1) (final_l1 5)) (final_l2 2) (final_l1 5)) (final_l2 3) (final_l1 7)"

lemma final_run: "fin_run cfg [(final_l2 1, final_l1 5), (final_l2 2, final_l1 5), (final_l2 3, final_l1 7)] (final_fi cfg)"
proof -
  have "fin_run cfg [(final_l2 1, final_l1 5)] (PostProcessSafeL2 (NewFinalizer cfg (final_l2 0)) (final_l2 1) (final_l1 5))"
    using fin_run.step [OF fin_run.start fin_step.post] by force
  from fin_run.step [OF this fin_step.post] have "fin_run cfg [(final_l2 1, final_l1 5), (final_l2 2, final_l1 5)]
      (PostProcessSafeL2 (PostProcessSafeL2 (NewFinalizer cfg (final_l2 0)) (final_l2 1) (final_l1 5)) (final_l2 2) (final_l1 5))"
    by force
  from fin_run.step [OF this fin_step.post] show ?thesis unfolding final_fi_def by force
qed

lemma final_data:
  "fi_finalityData (final_fi cfg) =
     [\<lparr>fd_L2Block = final_l2 2, fd_L1Block = l1_ID (final_l1 5)\<rparr>, \<lparr>fd_L2Block = final_l2 3, fd_L1Block = l1_ID (final_l1 7)\<rparr>]"
  "fi_finalizedL1 (final_fi cfg) = zero_L1BlockRef" "fi_engine (final_fi cfg) = final_l2 0"
proof -
  have "1 < calcFinalityLookback cfg"
    using calcFinalityLookback_ge [of cfg] by (rule order_less_le_trans [rotated]) (simp add: defaultFinalityLookback_def)
  moreover have "calcFinalityLookback cfg \<noteq> 0" using lookback_pos [of cfg] by (simp add: word_gt_0)
  ultimately show "fi_finalityData (final_fi cfg) =
     [\<lparr>fd_L2Block = final_l2 2, fd_L1Block = l1_ID (final_l1 5)\<rparr>, \<lparr>fd_L2Block = final_l2 3, fd_L1Block = l1_ID (final_l1 7)\<rparr>]"
    by (simp add: final_fi_def PostProcessSafeL2_def NewFinalizer_def l1_ID_def final_l1_def linorder_not_le Let_def)
qed (simp_all add: final_fi_def PostProcessSafeL2_def NewFinalizer_def Let_def)

text \<open>L1 block 6 is finalized: L2 block 2 is final, L2 block 3 is not yet.\<close>

lemma final_engine: "fi_engine (Finalizer_Finalize (\<lambda>n. Inr (final_l1 n)) (final_fi cfg) (final_l1 6)) = final_l2 2"
  by (simp add: Finalizer_Finalize_def tryFinalize_def Let_def final_data l1_ID_def final_l1_def final_l2_def
      zero_L1BlockRef_def)

theorem finalized_is_derived_from_final_witness:
  "\<exists>derived fd x y. (final_l2 2, derived) \<in> set [(final_l2 1, final_l1 5), (final_l2 2, final_l1 5), (final_l2 3, final_l1 7)] \<and>
     fd \<in> set (fi_finalityData (final_fi undefined)) \<and> l1_Number derived \<le> bid_Number (fd_L1Block fd) \<and>
     bid_Number (fd_L1Block fd) \<le> 6 \<and> Inr (final_l1 6) = Inr x \<and>
     Inr (final_l1 (bid_Number (fd_L1Block fd))) = Inr y \<and> l1_Hash y = bid_Hash (fd_L1Block fd)"
proof -
  have ne: "fi_engine (Finalizer_Finalize (\<lambda>n. Inr (final_l1 n)) (final_fi undefined) (final_l1 6)) \<noteq> fi_engine (final_fi undefined)"
    by (simp add: final_engine final_data final_l2_def)
  have n: "l1_Number (final_l1 6) = 6" by (simp add: final_l1_def)
  show ?thesis
    using finalized_is_derived_from_final [OF final_run ne] unfolding final_engine n by blast
qed

theorem finality_data_bounded_witness:
  "data_sorted (fi_finalityData (final_fi undefined)) \<and> fi_finalityData (final_fi undefined) \<noteq> []"
  using finality_data_bounded [OF final_run] by (simp add: final_data)

theorem plasma_finality_behind_witness:
  "l1_Number (fi_finalizedL1 (snd (PlasmaFinalizer_Finalize (\<lambda>n. Inr (final_l1 n))
     ((NewPlasmaDA \<lparr>cfg_DAChallengeContractAddress = 0, cfg_CommitmentType = Keccak256CommitmentType, cfg_ChallengeWindow = 10, cfg_ResolveWindow = 10\<rparr>)\<lparr>da_finalizedHead := final_l1 4, da_signal_set := True\<rparr>) (final_fi undefined) (final_l1 6)))) \<le> 4"
proof -
  let ?d = "(NewPlasmaDA \<lparr>cfg_DAChallengeContractAddress = 0, cfg_CommitmentType = Keccak256CommitmentType, cfg_ChallengeWindow = 10, cfg_ResolveWindow = 10\<rparr>)\<lparr>da_finalizedHead := final_l1 4, da_signal_set := True\<rparr>"
  have "fi_finalizedL1 (snd (PlasmaFinalizer_Finalize (\<lambda>n. Inr (final_l1 n)) ?d (final_fi undefined) (final_l1 6))) \<noteq>
    fi_finalizedL1 (final_fi undefined)"
    using tryFinalize_frame(3) [OF surjective_pairing]
    by (simp add: PlasmaFinalizer_Finalize_def Finalize_def Let_def final_l1_def Finalizer_Finalize_def final_data zero_L1BlockRef_def)
  from plasma_finality_behind [OF this] show ?thesis by (simp add: final_l1_def)
qed

end
