(* ===== verification/EngineQueue.thy ===== *)
theory EngineQueue
  imports AttributesHandler Finality
begin

text \<open>
  The last stage of derivation and the pipeline around it, op-node/rollup/derive (engine_queue.go, pipeline.go): one
  step gives the engine what it must be told, processes queued attributes, remembers the safe head for finality, checks the
  L1 origin, and pulls the next attributes; a reset finds the heads to start from and walks back until the L1 origin is
  old enough to read every channel again. L1, L2 and the listener of safe heads answer for the time of one call; the engine
  has a state of its own. The attributes queue is a parameter, with its state \<open>'q\<close>.
\<close>

section \<open>The queue\<close>

record QueueEnv =
  qe_cfg :: Config
  qe_syncCfg :: SyncConfig
  qe_l1 :: L1Chain
  qe_l2 :: L2Chain
  qe_SystemConfigByL2Hash :: "Hash \<Rightarrow> SystemConfig res"
  qe_PreFetchReceipts :: "u64 \<Rightarrow> gerr option"
  qe_SafeHeadUpdated :: "L2BlockRef \<Rightarrow> BlockID \<Rightarrow> gerr option"
  qe_SafeHeadReset :: "L2BlockRef \<Rightarrow> gerr option"
  qe_NotifsEnabled :: bool

record EngineQueue =
  eq_ec :: EngineController
  eq_handler :: AttributesHandler
  eq_origin :: L1BlockRef
  eq_sysCfg :: SystemConfig
  eq_lastNotifiedSafeHead :: L2BlockRef
  eq_finalizer :: Finalizer

definition zero_SystemConfig :: SystemConfig where
  "zero_SystemConfig = \<lparr>BatcherAddr = 0, Overhead = 0, Scalar = 0, GasLimit = 0\<rparr>"

definition NewEngineQueue :: "EngineController \<Rightarrow> Finalizer \<Rightarrow> AttributesHandler \<Rightarrow> EngineQueue" where
  "NewEngineQueue engine finalizer attributesHandler =
     \<lparr>eq_ec = engine, eq_handler = attributesHandler, eq_origin = zero_L1BlockRef, eq_sysCfg = zero_SystemConfig,
      eq_lastNotifiedSafeHead = zero_L2BlockRef, eq_finalizer = finalizer\<rparr>"

text \<open>A call of the finalizer: it reads the finalized head of the controller, and sets it when it finds a higher one.\<close>

definition finalizer_head :: "EngineQueue \<Rightarrow> Finalizer" where
  "finalizer_head q = (eq_finalizer q)\<lparr>fi_engine := ec_finalizedHead (eq_ec q)\<rparr>"

definition set_finalizer :: "EngineQueue \<Rightarrow> Finalizer \<Rightarrow> EngineQueue" where
  "set_finalizer q fi =
     q\<lparr>eq_finalizer := fi,
       eq_ec := (if fi_engine fi = ec_finalizedHead (eq_ec q) then eq_ec q else SetFinalizedHead (eq_ec q) (fi_engine fi))\<rparr>"

definition queue_Finalize :: "QueueEnv \<Rightarrow> EngineQueue \<Rightarrow> L1BlockRef \<Rightarrow> EngineQueue" where
  "queue_Finalize env q l1Origin = set_finalizer q (Finalizer_Finalize (c1_ByNumber (qe_l1 env)) (finalizer_head q) l1Origin)"

definition verifyNewL1Origin :: "QueueEnv \<Rightarrow> EngineQueue \<Rightarrow> L1BlockRef \<Rightarrow> gerr option" where
  "verifyNewL1Origin env q newOrigin =
     (if newOrigin = eq_origin q then None
      else
        (let unsafeOrigin = l2_L1Origin (ec_unsafeHead (eq_ec q)) in
         if l1_Number newOrigin = bid_Number unsafeOrigin \<and> l1_ID newOrigin \<noteq> unsafeOrigin then
           Some (NewResetError (Some (Msg ''l1 origin was inconsistent with l2 unsafe head origin, need reset to resolve'')))
         else if l1_Number newOrigin = bid_Number unsafeOrigin + 1 \<and> l1_ParentHash newOrigin \<noteq> bid_Hash unsafeOrigin then
           Some (NewResetError (Some (Msg ''l2 unsafe head origin is no longer canonical, need reset to resolve'')))
         else if l1_Number newOrigin > bid_Number unsafeOrigin + 1 then
           (case c1_ByNumber (qe_l1 env) (bid_Number unsafeOrigin) of
              Inl err \<Rightarrow> Some (NewTemporaryError (Some (Wrap ''failed to fetch canonical L1 block at slot'' err)))
            | Inr canonical \<Rightarrow>
                if l1_ID canonical \<noteq> unsafeOrigin then
                  Some (NewResetError (Some (Msg ''l2 unsafe head origin is no longer canonical, need reset to resolve'')))
                else None)
         else None))"

text \<open>The end of a step, when all attributes are processed: \<open>post_safe\<close> notifies and remembers the safe head.\<close>

definition post_safe :: "QueueEnv \<Rightarrow> EngineQueue \<Rightarrow> gerr option \<times> EngineQueue" where
  "post_safe env q =
     (let safe = ec_safeHead (eq_ec q);
          notify = eq_lastNotifiedSafeHead q \<noteq> safe;
          q = (if notify then q\<lparr>eq_lastNotifiedSafeHead := safe\<rparr> else q)
      in case (if notify then qe_SafeHeadUpdated env safe (l1_ID (eq_origin q)) else None) of
           Some err \<Rightarrow> (Some (NewResetError (Some (Wrap ''safe head notifications failed'' err))), q)
         | None \<Rightarrow>
             (let q = q\<lparr>eq_finalizer := PostProcessSafeL2 (eq_finalizer q) safe (eq_origin q)\<rparr> in
              case OnDerivationL1End (c1_ByNumber (qe_l1 env)) (finalizer_head q) (eq_origin q) of
                (err, fi) \<Rightarrow> (map_option (Wrap ''finalizer OnDerivationL1End error'') err, set_finalizer q fi)))"

definition pull_next :: "QueueEnv \<Rightarrow> ('q \<Rightarrow> L1BlockRef) \<Rightarrow> (L2BlockRef \<Rightarrow> 'q \<Rightarrow> (AttributesWithParent res \<times> 'q) go)
    \<Rightarrow> EngineQueue \<Rightarrow> 'q \<Rightarrow> (gerr option \<times> EngineQueue \<times> 'q) go" where
  "pull_next env prevOrigin nextAttributes q prev =
     (let newOrigin = prevOrigin prev in
      case verifyNewL1Origin env q newOrigin of
        Some err \<Rightarrow> Some (Some err, q, prev)
      | None \<Rightarrow>
          (let q = q\<lparr>eq_origin := newOrigin\<rparr> in
           case nextAttributes (ec_pendingSafeHead (eq_ec q)) prev of
             None \<Rightarrow> None
           | Some (Inl err, prev) \<Rightarrow> Some (Some err, q, prev)
           | Some (Inr attrs, prev) \<Rightarrow>
               Some (Some NotEnoughData, q\<lparr>eq_handler := SetAttributes (eq_handler q) (Some attrs)\<rparr>, prev)))"

definition EngineQueue_Step :: "keccak \<Rightarrow> txDecoder \<Rightarrow> (u64 \<Rightarrow> 'w \<Rightarrow> Envelope res \<times> 'w) \<Rightarrow> 'w ExecEngine \<Rightarrow> QueueEnv
    \<Rightarrow> ('q \<Rightarrow> L1BlockRef) \<Rightarrow> (L2BlockRef \<Rightarrow> 'q \<Rightarrow> (AttributesWithParent res \<times> 'q) go)
    \<Rightarrow> EngineQueue \<Rightarrow> 'q \<Rightarrow> 'w \<Rightarrow> (gerr option \<times> EngineQueue \<times> 'q \<times> 'w) go" where
  "EngineQueue_Step keccak256 decodeTx payloadByNumber eng env prevOrigin nextAttributes q prev w =
     (case TryBackupUnsafeReorg eng (eq_ec q) w of
        ((fcuCalled, err), e, w) \<Rightarrow>
          if fcuCalled then Some (err, q\<lparr>eq_ec := e\<rparr>, prev, w)
          else
            (case TryUpdateEngine eng e w of
               (err, e, w) \<Rightarrow>
                 if \<not> (case err of None \<Rightarrow> False | Some err \<Rightarrow> errors_Is err ErrNoFCUNeeded) then
                   Some (err, q\<lparr>eq_ec := e\<rparr>, prev, w)
                 else if IsEngineSyncing e then Some (Some EngineELSyncing, q\<lparr>eq_ec := e\<rparr>, prev, w)
                 else
                   (case Handler_Proceed keccak256 decodeTx payloadByNumber eng (eq_handler q) e w of
                      None \<Rightarrow> None
                    | Some (err, ah, e, w) \<Rightarrow>
                        (let q = q\<lparr>eq_ec := e, eq_handler := ah\<rparr> in
                         if err \<noteq> Some EOF then Some (err, q, prev, w)
                         else
                           (case post_safe env q of
                              (Some err, q) \<Rightarrow> Some (Some err, q, prev, w)
                            | (None, q) \<Rightarrow>
                                (case pull_next env prevOrigin nextAttributes q prev of
                                   None \<Rightarrow> None
                                 | Some (err, q, prev) \<Rightarrow> Some (err, q, prev, w)))))))"

section \<open>Reset\<close>

text \<open>The walk back: \<open>None\<close> of the outer option does not return.\<close>

definition old_enough :: "Config \<Rightarrow> L1BlockRef \<Rightarrow> L2BlockRef \<Rightarrow> bool" where
  "old_enough cfg l1Origin b \<longleftrightarrow>
     \<not> (l2_Number b > bid_Number (gen_L2 (cfg_Genesis cfg)) \<and>
        bid_Number (l2_L1Origin b) > bid_Number (gen_L1 (cfg_Genesis cfg)) \<and>
        bid_Number (l2_L1Origin b) + cfg_ChannelTimeout cfg > l1_Number l1Origin)"

partial_function (option) walk_back :: "QueueEnv \<Rightarrow> L1BlockRef \<Rightarrow> L2BlockRef \<Rightarrow> L2BlockRef res option" where
  "walk_back env l1Origin b =
     (if old_enough (qe_cfg env) l1Origin b then Some (Inr b)
      else
        (case c2_ByHash (qe_l2 env) (l2_ParentHash b) of
           Inl err \<Rightarrow> Some (Inl (NewResetError (Some (Msg ''failed to fetch L2 parent block''))))
         | Inr parent \<Rightarrow> walk_back env l1Origin parent))"

definition apply_heads :: "FindHeadsResult \<Rightarrow> L1BlockRef \<Rightarrow> SystemConfig \<Rightarrow> EngineQueue \<Rightarrow> EngineQueue" where
  "apply_heads result pipelineOrigin l1Cfg q =
     (let safe = fh_Safe result;
          finalized = (if l2_Number (fh_Finalized result) > l2_Number safe then safe else fh_Finalized result);
          e = SetUnsafeHead (eq_ec q) (fh_Unsafe result);
          e = SetSafeHead e safe;
          e = SetPendingSafeL2Head e safe;
          e = SetFinalizedHead e finalized;
          e = SetBackupUnsafeL2Head e zero_L2BlockRef False
      in q\<lparr>eq_ec := resetBuildingState e, eq_handler := SetAttributes (eq_handler q) None,
           eq_finalizer := Finalizer_Reset (eq_finalizer q), eq_origin := pipelineOrigin, eq_sysCfg := l1Cfg,
           eq_lastNotifiedSafeHead := safe\<rparr>)"

definition notify_reset :: "QueueEnv \<Rightarrow> L2BlockRef \<Rightarrow> gerr" where
  "notify_reset env safe =
     (case qe_SafeHeadReset env safe of
        Some err \<Rightarrow> err
      | None \<Rightarrow>
          if qe_NotifsEnabled env \<and> l2_Number safe = bid_Number (gen_L2 (cfg_Genesis (qe_cfg env))) \<and>
             l2_Hash safe = bid_Hash (gen_L2 (cfg_Genesis (qe_cfg env))) then
            (case c1_ByNumber (qe_l1 env) 0 of
               Inl err \<Rightarrow> Wrap ''failed to retrieve L1 genesis'' err
             | Inr l1Genesis \<Rightarrow>
                 (case qe_SafeHeadUpdated env safe (l1_ID l1Genesis) of Some err \<Rightarrow> err | None \<Rightarrow> EOF))
          else EOF)"

definition EngineQueue_Reset :: "QueueEnv \<Rightarrow> EngineQueue \<Rightarrow> (gerr \<times> EngineQueue) option" where
  "EngineQueue_Reset env q =
     (case FindL2Heads (qe_cfg env) (qe_syncCfg env) (qe_l1 env) (qe_l2 env) of
        None \<Rightarrow> None
      | Some (Inl err) \<Rightarrow> Some (NewTemporaryError (Some (Wrap ''failed to find the L2 Heads to start from'' err)), q)
      | Some (Inr result) \<Rightarrow>
          (let safe = fh_Safe result in
           case c1_ByHash (qe_l1 env) (bid_Hash (l2_L1Origin safe)) of
             Inl err \<Rightarrow> Some (NewTemporaryError (Some (Wrap ''failed to fetch the new L1 progress'' err)), q)
           | Inr l1Origin \<Rightarrow>
               if l2_MillisecondTimestamp safe < l1_MillisecondTimestamp l1Origin then
                 Some (NewResetError (Some (Msg ''cannot reset block derivation, time invariant is broken'')), q)
               else
                 (case walk_back env l1Origin safe of
                    None \<Rightarrow> None
                  | Some (Inl err) \<Rightarrow> Some (err, q)
                  | Some (Inr pipelineL2) \<Rightarrow>
                      (case c1_ByHash (qe_l1 env) (bid_Hash (l2_L1Origin pipelineL2)) of
                         Inl err \<Rightarrow> Some (NewTemporaryError (Some (Wrap ''failed to fetch the new L1 progress'' err)), q)
                       | Inr pipelineOrigin \<Rightarrow>
                           (case qe_SystemConfigByL2Hash env (l2_Hash pipelineL2) of
                              Inl err \<Rightarrow> Some (NewTemporaryError (Some (Wrap ''failed to fetch L1 config of L2 block'' err)), q)
                            | Inr l1Cfg \<Rightarrow>
                                (case qe_PreFetchReceipts env (l1_Number pipelineOrigin) of
                                   Some err \<Rightarrow> Some (NewTemporaryError (Some (Wrap ''failed to run pre fetch L1 receipts'' err)), q)
                                 | None \<Rightarrow> Some (notify_reset env safe, apply_heads result pipelineOrigin l1Cfg q)))))))"

section \<open>The pipeline\<close>

text \<open>The stages of the pipeline over one state: their resets in order, the origin and configuration and the step of the
  engine queue, and the advance of the L1 traversal.\<close>

record 's Stages =
  st_resets :: "(L1BlockRef \<Rightarrow> SystemConfig \<Rightarrow> 's \<Rightarrow> (gerr option \<times> 's) go) list"
  st_origin :: "'s \<Rightarrow> L1BlockRef"
  st_sysCfg :: "'s \<Rightarrow> SystemConfig"
  st_step :: "'s \<Rightarrow> (gerr option \<times> 's) go"
  st_advance :: "'s \<Rightarrow> (gerr option \<times> 's) go"

definition EngineReady :: "nat \<Rightarrow> bool" where "EngineReady resetting \<longleftrightarrow> resetting > 0"

definition Pipeline_Reset :: "nat \<Rightarrow> nat" where "Pipeline_Reset resetting = 0"

definition Pipeline_Step :: "'s Stages \<Rightarrow> nat \<Rightarrow> 's \<Rightarrow> (gerr option \<times> nat \<times> 's) go" where
  "Pipeline_Step stages resetting s =
     (if resetting < length (st_resets stages) then
        (case (st_resets stages ! resetting) (st_origin stages s) (st_sysCfg stages s) s of
           None \<Rightarrow> None
         | Some (err, s) \<Rightarrow>
             if err = Some EOF then Some (None, resetting + 1, s)
             else Some (map_option (Wrap ''stage failed resetting'') err, resetting, s))
      else
        (case st_step stages s of
           None \<Rightarrow> None
         | Some (err, s) \<Rightarrow>
             (case err of
                None \<Rightarrow> Some (None, resetting, s)
              | Some err \<Rightarrow>
                  if err = EOF then
                    (case st_advance stages s of None \<Rightarrow> None | Some (err, s) \<Rightarrow> Some (err, resetting, s))
                  else if errors_Is err EngineELSyncing then Some (Some err, resetting, s)
                  else Some (Some (Wrap ''engine stage failed'' err), resetting, s))))"

section \<open>Where derivation starts\<close>

lemma walk_back_ok:
  assumes "l2_consistent (qe_l2 env)"
  shows "known (qe_l2 env) b \<Longrightarrow> \<exists>r. walk_back env l1Origin b = Some r \<and>
    (case r of Inl err \<Rightarrow> err \<noteq> EOF
     | Inr p \<Rightarrow> (parent_of (qe_l2 env))\<^sup>*\<^sup>* b p \<and> old_enough (qe_cfg env) l1Origin p)"
proof (induction "unat (l2_Number b)" arbitrary: b rule: less_induct)
  case less
  show ?case
  proof (cases "old_enough (qe_cfg env) l1Origin b")
    case True
    then have "walk_back env l1Origin b = Some (Inr b)" by (subst walk_back.simps) simp
    then show ?thesis using True by auto
  next
    case False
    show ?thesis
    proof (cases "c2_ByHash (qe_l2 env) (l2_ParentHash b)")
      case (Inl err)
      then have "walk_back env l1Origin b = Some (Inl (NewResetError (Some (Msg ''failed to fetch L2 parent block''))))"
        using False by (subst walk_back.simps) simp
      then show ?thesis by (simp add: level_defs)
    next
      case (Inr p)
      then have p: "parent_of (qe_l2 env) b p" by (simp add: parent_of_def)
      then have "unat (l2_Number p) < unat (l2_Number b)" using assms less.prems by (auto simp: l2_consistent_def)
      from less.hyps [OF this parent_known [OF p]] obtain r where r: "walk_back env l1Origin p = Some r"
        "(case r of Inl err \<Rightarrow> err \<noteq> EOF | Inr a \<Rightarrow> (parent_of (qe_l2 env))\<^sup>*\<^sup>* p a \<and> old_enough (qe_cfg env) l1Origin a)" by blast
      have "walk_back env l1Origin b = Some r" using False Inr r(1) by (subst walk_back.simps) simp
      then show ?thesis using r(2) converse_rtranclp_into_rtranclp [where r = "parent_of (qe_l2 env)" and a = b and b = p] p
        by (auto split: sum.splits)
    qed
  qed
qed

lemma FindL2Heads_start:
  assumes "l1_consistent l1" "l2_consistent l2" "\<not> sc_SkipSyncStartCheck syncCfg"
    and "FindL2Heads cfg syncCfg l1 l2 = Some (Inr r)"
  shows "known l2 (fh_Safe r)"
proof -
  obtain r0 where r0: "currentHeads cfg l2 = Inr r0" using assms(4) by (auto simp: FindL2Heads_def split: sum.splits)
  have k: "known l2 (fh_Unsafe r0)" using currentHeads_known [OF r0] by simp
  obtain bs where bs: "start_ok cfg l1 l2 r0 bs r"
    using find_loop_ok [OF assms(1,2) k assms(3) _ find_start_inv] assms(4) r0 unfolding FindL2Heads_def by fastforce
  then have l: "linked l2 bs" "bs \<noteq> []" "hd bs = fh_Unsafe r0" by (simp_all add: start_ok_def)
  have "known l2 (last bs)"
    using linked_known [OF l(1) _, of "length bs - 1"] l k by (simp add: last_conv_nth)
  then show ?thesis using bs parent_known unfolding start_ok_def by metis
qed

text \<open>C19: A reset finds a consistent start. When the chains of L1 and L2 are consistent the reset returns; and when it ends
  with EOF, the pending safe head is the safe head that sync start has found, no attributes, no block in building and no finality
  data are left, the finalized head is not above the safe head, and the new L1 origin of the pipeline is that of an
  ancestor of the safe head that is at the L2 genesis, at the L1 genesis, or a channel timeout before the origin of the
  safe head: every channel that the next batches may come from can be read from there.\<close>

theorem EngineQueue_Reset_ok:
  assumes "l1_consistent (qe_l1 env)" "l2_consistent (qe_l2 env)" "\<not> sc_SkipSyncStartCheck (qe_syncCfg env)"
  shows "EngineQueue_Reset env q \<noteq> None \<and>
    (\<forall>q'. EngineQueue_Reset env q = Some (EOF, q') \<longrightarrow>
       (\<exists>r l1Origin p finalized. FindL2Heads (qe_cfg env) (qe_syncCfg env) (qe_l1 env) (qe_l2 env) = Some (Inr r) \<and>
          heads (eq_ec q') = (fh_Unsafe r, fh_Safe r, fh_Safe r, finalized) \<and> l2_Number finalized \<le> l2_Number (fh_Safe r) \<and>
          ah_attributes (eq_handler q') = None \<and> ec_buildingInfo (eq_ec q') = zero_PayloadInfo \<and>
          fi_finalityData (eq_finalizer q') = [] \<and>
          c1_ByHash (qe_l1 env) (bid_Hash (l2_L1Origin (fh_Safe r))) = Inr l1Origin \<and>
          (parent_of (qe_l2 env))\<^sup>*\<^sup>* (fh_Safe r) p \<and> old_enough (qe_cfg env) l1Origin p \<and>
          c1_ByHash (qe_l1 env) (bid_Hash (l2_L1Origin p)) = Inr (eq_origin q')))"
proof -
  have f: "FindL2Heads (qe_cfg env) (qe_syncCfg env) (qe_l1 env) (qe_l2 env) \<noteq> None"
    using find_loop_returns [OF assms(2,3)] currentHeads_known
    by (auto simp: FindL2Heads_def find_start_def split: sum.splits)
  then obtain res where res: "FindL2Heads (qe_cfg env) (qe_syncCfg env) (qe_l1 env) (qe_l2 env) = Some res" by blast
  show ?thesis
  proof (cases res)
    case (Inl err)
    then show ?thesis using res by (simp add: EngineQueue_Reset_def level_defs)
  next
    case (Inr r)
    show ?thesis
    proof (cases "c1_ByHash (qe_l1 env) (bid_Hash (l2_L1Origin (fh_Safe r)))")
      case (Inl err)
      then show ?thesis using res Inr by (simp add: EngineQueue_Reset_def Let_def level_defs)
    next
      case l1o: (Inr l1Origin)
      obtain x where x: "walk_back env l1Origin (fh_Safe r) = Some x" "(case x of Inl err \<Rightarrow> err \<noteq> EOF
         | Inr p \<Rightarrow> (parent_of (qe_l2 env))\<^sup>*\<^sup>* (fh_Safe r) p \<and> old_enough (qe_cfg env) l1Origin p)"
        using walk_back_ok [OF assms(2) FindL2Heads_start [OF assms res [unfolded Inr]]] by blast
      note unf = EngineQueue_Reset_def res Inr l1o x(1) Let_def option.case sum.case
      show ?thesis
      proof (cases x)
        case (Inl err)
        then show ?thesis using x(2) unfolding unf Inl by (simp add: level_defs)
      next
        case xr: (Inr p)
        have a: "heads (eq_ec (apply_heads r o1 c q)) = (fh_Unsafe r, fh_Safe r, fh_Safe r,
            if l2_Number (fh_Finalized r) > l2_Number (fh_Safe r) then fh_Safe r else fh_Finalized r)"
          "ah_attributes (eq_handler (apply_heads r o1 c q)) = None" "ec_buildingInfo (eq_ec (apply_heads r o1 c q)) = zero_PayloadInfo"
          "fi_finalityData (eq_finalizer (apply_heads r o1 c q)) = []" "eq_origin (apply_heads r o1 c q) = o1" for o1 c
          by (simp_all add: apply_heads_def heads_def setter_defs resetBuildingState_def SetAttributes_def Finalizer_Reset_def Let_def)
        have fin: "l2_Number (if l2_Number (fh_Finalized r) > l2_Number (fh_Safe r) then fh_Safe r else fh_Finalized r) \<le> l2_Number (fh_Safe r)"
          by auto
        show ?thesis
        proof (intro conjI allI impI)
          show "EngineQueue_Reset env q \<noteq> None" unfolding unf xr by (auto split: sum.splits option.splits)
        next
          fix q'
          assume "EngineQueue_Reset env q = Some (EOF, q')"
          then obtain o1 c where "c1_ByHash (qe_l1 env) (bid_Hash (l2_L1Origin p)) = Inr o1" "q' = apply_heads r o1 c q"
            unfolding unf xr by (auto simp: level_defs split: if_splits sum.splits option.splits)
          then show "\<exists>r l1Origin p finalized. FindL2Heads (qe_cfg env) (qe_syncCfg env) (qe_l1 env) (qe_l2 env) = Some (Inr r) \<and>
            heads (eq_ec q') = (fh_Unsafe r, fh_Safe r, fh_Safe r, finalized) \<and> l2_Number finalized \<le> l2_Number (fh_Safe r) \<and>
            ah_attributes (eq_handler q') = None \<and> ec_buildingInfo (eq_ec q') = zero_PayloadInfo \<and>
            fi_finalityData (eq_finalizer q') = [] \<and>
            c1_ByHash (qe_l1 env) (bid_Hash (l2_L1Origin (fh_Safe r))) = Inr l1Origin \<and>
            (parent_of (qe_l2 env))\<^sup>*\<^sup>* (fh_Safe r) p \<and> old_enough (qe_cfg env) l1Origin p \<and>
            c1_ByHash (qe_l1 env) (bid_Hash (l2_L1Origin p)) = Inr (eq_origin q')"
            using res Inr l1o x(2) xr a fin by (intro exI [of _ r] exI [of _ l1Origin] exI [of _ p] exI) simp
        qed
      qed
    qed
  qed
qed

section \<open>Finality of the queue\<close>

lemma run_inv_engine [simp]: "run_inv posts (fi\<lparr>fi_engine := h\<rparr>) = run_inv posts fi"
  by (simp add: run_inv_def fin_inv_def)

lemma run_inv_mono: "run_inv posts fi \<Longrightarrow> run_inv (posts @ xs) fi"
  by (auto simp: run_inv_def intro: posted_mono)

lemma run_inv_empty: "run_inv posts fi \<Longrightarrow> fi_finalityData fi = [] \<Longrightarrow> run_inv posts' fi"
  by (simp add: run_inv_def)

lemma tryFinalize_inv: "run_inv posts fi \<Longrightarrow> run_inv posts (snd (tryFinalize l1 fi))"
  using tryFinalize_frame [of l1 fi, OF surjective_pairing] by (simp add: run_inv_def fin_inv_def)

lemma OnDerivationL1End_inv: "run_inv posts fi \<Longrightarrow> run_inv posts (snd (OnDerivationL1End l1 fi ref))"
  using tryFinalize_inv [of posts "fi\<lparr>fi_triedFinalizeAt := l1_Number ref\<rparr>" l1]
  by (simp add: OnDerivationL1End_def run_inv_def fin_inv_def)

lemma Finalizer_Finalize_inv: "run_inv posts fi \<Longrightarrow> run_inv posts (Finalizer_Finalize l1 fi ref)"
  using tryFinalize_inv [of posts fi l1] tryFinalize_inv [of posts "fi\<lparr>fi_triedFinalizeAt := 0, fi_finalizedL1 := ref\<rparr>" l1]
  by (simp add: Finalizer_Finalize_def Let_def run_inv_def fin_inv_def)

text \<open>A head that \<open>tryFinalize\<close> sets was posted, and derived from L1 blocks that are final and canonical.\<close>

definition final_head :: "(L2BlockRef \<times> L1BlockRef) list \<Rightarrow> L1ByNumber \<Rightarrow> L1BlockRef \<Rightarrow> L2BlockRef \<Rightarrow> L2BlockRef \<Rightarrow> bool" where
  "final_head posts l1 finalizedL1 before head \<longleftrightarrow>
     l2_Number before < l2_Number head \<and>
     (\<exists>derived (entry :: BlockID) x y. (head, derived) \<in> set posts \<and> l1_Number derived \<le> bid_Number entry \<and> bid_Number entry \<le> l1_Number finalizedL1 \<and>
        l1 (l1_Number finalizedL1) = Inr x \<and> l1_Hash x = l1_Hash finalizedL1 \<and>
        l1 (bid_Number entry) = Inr y \<and> l1_Hash y = bid_Hash entry)"

lemma tryFinalize_final_head:
  assumes "tryFinalize l1 fi = (err, fi')" "run_inv posts fi" "fi_engine fi' \<noteq> fi_engine fi"
  shows "final_head posts l1 (fi_finalizedL1 fi) (fi_engine fi) (fi_engine fi')"
  using assms(1)
proof (cases rule: tryFinalize_cases)
  case (final fd x y)
  have "posted posts fd" using assms(2) final(1) by (simp add: run_inv_def)
  then obtain ref where ref: "(fd_L2Block fd, ref) \<in> set posts" "l1_Number ref \<le> bid_Number (fd_L1Block fd)"
    by (auto simp: posted_def)
  have e: "fi_engine fi' = fd_L2Block fd" using final(2) by simp
  show ?thesis
    unfolding final_head_def e
    by (intro conjI final(3) exI [of _ ref] exI [of _ "fd_L1Block fd"] exI [of _ x] exI [of _ y]) (use ref final in simp_all)
qed (use assms(3) in simp)

lemma OnDerivationL1End_final_head:
  assumes "OnDerivationL1End l1 fi ref = (err, fi')" "run_inv posts fi" "fi_engine fi' \<noteq> fi_engine fi"
  shows "final_head posts l1 (fi_finalizedL1 fi) (fi_engine fi) (fi_engine fi')"
proof -
  have "tryFinalize l1 (fi\<lparr>fi_triedFinalizeAt := l1_Number ref\<rparr>) = (err, fi')"
    using assms(1,3) by (auto simp: OnDerivationL1End_def split: if_splits)
  from tryFinalize_final_head [OF this, of posts] show ?thesis using assms(2,3) by (simp add: run_inv_def fin_inv_def)
qed

text \<open>What a step does to the finalizer and the finalized head.\<close>

lemma post_safe_finalizer:
  assumes "post_safe env q = (r, q')"
  shows "eq_finalizer q' = eq_finalizer q \<and> eq_ec q' = eq_ec q \<or>
    (\<exists>err fi. OnDerivationL1End (c1_ByNumber (qe_l1 env))
       ((PostProcessSafeL2 (eq_finalizer q) (ec_safeHead (eq_ec q)) (eq_origin q))\<lparr>fi_engine := ec_finalizedHead (eq_ec q)\<rparr>)
       (eq_origin q) = (err, fi) \<and>
     eq_finalizer q' = fi \<and> ec_finalizedHead (eq_ec q') = fi_engine fi)"
proof -
  define n where "n = (eq_lastNotifiedSafeHead q \<noteq> ec_safeHead (eq_ec q))"
  define q1 where "q1 = (if n then q\<lparr>eq_lastNotifiedSafeHead := ec_safeHead (eq_ec q)\<rparr> else q)"
  have q1: "eq_finalizer q1 = eq_finalizer q" "eq_ec q1 = eq_ec q" "eq_origin q1 = eq_origin q" by (simp_all add: q1_def)
  define u where "u = (if n then qe_SafeHeadUpdated env (ec_safeHead (eq_ec q)) (l1_ID (eq_origin q1)) else None)"
  have ps: "post_safe env q = (case u of Some err \<Rightarrow> (Some (NewResetError (Some (Wrap ''safe head notifications failed'' err))), q1)
         | None \<Rightarrow>
             (let q = q1\<lparr>eq_finalizer := PostProcessSafeL2 (eq_finalizer q1) (ec_safeHead (eq_ec q)) (eq_origin q1)\<rparr> in
              case OnDerivationL1End (c1_ByNumber (qe_l1 env)) (finalizer_head q) (eq_origin q) of
                (err, fi) \<Rightarrow> (map_option (Wrap ''finalizer OnDerivationL1End error'') err, set_finalizer q fi)))"
    unfolding post_safe_def Let_def u_def n_def q1_def by (simp split: option.split)
  show ?thesis
  proof (cases u)
    case (Some err)
    then show ?thesis using assms ps q1 by auto
  next
    case None
    let ?fi = "(PostProcessSafeL2 (eq_finalizer q) (ec_safeHead (eq_ec q)) (eq_origin q))\<lparr>fi_engine := ec_finalizedHead (eq_ec q)\<rparr>"
    obtain err fi where o: "OnDerivationL1End (c1_ByNumber (qe_l1 env)) ?fi (eq_origin q) = (err, fi)" by fastforce
    have "q' = set_finalizer (q1\<lparr>eq_finalizer := PostProcessSafeL2 (eq_finalizer q) (ec_safeHead (eq_ec q)) (eq_origin q)\<rparr>) fi"
      using assms ps None o q1 by (simp add: finalizer_head_def Let_def)
    then have "eq_finalizer q' = fi" "ec_finalizedHead (eq_ec q') = fi_engine fi"
      by (auto simp: set_finalizer_def SetFinalizedHead_def)
    then show ?thesis using o by blast
  qed
qed

lemma pull_next_keeps:
  "pull_next env prevOrigin nextAttributes q prev = Some (r, q', prev') \<Longrightarrow> eq_finalizer q' = eq_finalizer q \<and> eq_ec q' = eq_ec q"
  by (auto simp: pull_next_def Let_def split: option.splits sum.splits)

lemma TryBackup_heads: "TryBackupUnsafeReorg eng e w = (r, e', w') \<Longrightarrow>
   ec_safeHead e' = ec_safeHead e \<and> ec_finalizedHead e' = ec_finalizedHead e"
  by (auto simp: TryBackupUnsafeReorg_def shouldTryBackupUnsafeReorg_def Let_def setter_defs
      split: if_splits prod.splits sum.splits)

lemma TryUpdate_heads: "TryUpdateEngine eng e w = (r, e', w') \<Longrightarrow>
   ec_safeHead e' = ec_safeHead e \<and> ec_finalizedHead e' = ec_finalizedHead e"
  by (auto simp: TryUpdateEngine_def split: if_splits prod.splits sum.splits)

lemma Handler_finalized:
  assumes "Handler_Proceed keccak256 decodeTx payloadByNumber eng ah e w = Some (err, ah', e', w')"
  shows "ec_finalizedHead e' = ec_finalizedHead e \<and> (err \<noteq> None \<longrightarrow> ec_safeHead e' = ec_safeHead e)"
  using Handler_Proceed_heads [OF assms] by (auto simp: heads_def advanced_def dropped_def)

lemma EngineQueue_Step_finalizer:
  assumes "EngineQueue_Step keccak256 decodeTx payloadByNumber eng env prevOrigin nextAttributes q prev w = Some (r, q', prev', w')"
  shows "eq_finalizer q' = eq_finalizer q \<and> ec_finalizedHead (eq_ec q') = ec_finalizedHead (eq_ec q) \<or>
    (\<exists>err fi. OnDerivationL1End (c1_ByNumber (qe_l1 env))
       ((PostProcessSafeL2 (eq_finalizer q) (ec_safeHead (eq_ec q)) (eq_origin q))\<lparr>fi_engine := ec_finalizedHead (eq_ec q)\<rparr>)
       (eq_origin q) = (err, fi) \<and>
     eq_finalizer q' = fi \<and> ec_finalizedHead (eq_ec q') = fi_engine fi)"
proof -
  obtain fcu b e1 w1 where b: "TryBackupUnsafeReorg eng (eq_ec q) w = ((fcu, b), e1, w1)" by (metis prod.exhaust)
  obtain u e2 w2 where u: "TryUpdateEngine eng e1 w1 = (u, e2, w2)" by (metis prod.exhaust)
  note h1 = TryBackup_heads [OF b] and h2 = TryUpdate_heads [OF u]
  note S = assms [unfolded EngineQueue_Step_def b u prod.case]
  show ?thesis
  proof (cases "fcu \<or> \<not> (case u of None \<Rightarrow> False | Some err \<Rightarrow> errors_Is err ErrNoFCUNeeded) \<or> IsEngineSyncing e2")
    case True
    then show ?thesis using S h1 h2 by (auto split: if_splits)
  next
    case False
    then obtain x ah e3 w3 where x: "Handler_Proceed keccak256 decodeTx payloadByNumber eng (eq_handler q) e2 w2 = Some (x, ah, e3, w3)"
      using S by (auto split: option.splits)
    note h3 = Handler_finalized [OF x]
    let ?q = "q\<lparr>eq_ec := e3, eq_handler := ah\<rparr>"
    show ?thesis
    proof (cases "x = Some EOF")
      case x2: False
      then show ?thesis using S False x h1 h2 h3 by auto
    next
      case x2: True
      obtain p q1 where p: "post_safe env ?q = (p, q1)" by fastforce
      have "eq_finalizer q' = eq_finalizer q1 \<and> eq_ec q' = eq_ec q1"
      proof (cases p)
        case (Some err)
        then show ?thesis using S False x x2 p by auto
      next
        case None
        then show ?thesis using S False x x2 p by (auto split: option.splits dest!: pull_next_keeps)
      qed
      then show ?thesis using post_safe_finalizer [OF p] h1 h2 h3 x2 by auto
    qed
  qed
qed

text \<open>The life of a queue, with the safe heads and origins of its steps since the last reset. Others may do anything with the
  controller and the handler in between.\<close>

inductive eq_run :: "'w ExecEngine \<Rightarrow> (L2BlockRef \<Rightarrow> 'q \<Rightarrow> (AttributesWithParent res \<times> 'q) go)
    \<Rightarrow> (L2BlockRef \<times> L1BlockRef) list \<Rightarrow> EngineQueue \<Rightarrow> bool" for eng nextAttributes where
  start: "eq_run eng nextAttributes [] (NewEngineQueue e (NewFinalizer cfg zero_L2BlockRef) ah)"
| step: "eq_run eng nextAttributes posts q \<Longrightarrow>
    EngineQueue_Step keccak256 decodeTx payloadByNumber eng env prevOrigin nextAttributes q prev w = Some (r, q', prev', w') \<Longrightarrow>
    eq_run eng nextAttributes (posts @ [(ec_safeHead (eq_ec q), eq_origin q)]) q'"
| reset: "eq_run eng nextAttributes posts q \<Longrightarrow> EngineQueue_Reset env q = Some (err, q') \<Longrightarrow>
    posts' = (if fi_finalityData (eq_finalizer q') = [] then [] else posts) \<Longrightarrow> eq_run eng nextAttributes posts' q'"
| signal: "eq_run eng nextAttributes posts q \<Longrightarrow> eq_run eng nextAttributes posts (queue_Finalize env q ref)"
| others: "eq_run eng nextAttributes posts q \<Longrightarrow> eq_run eng nextAttributes posts (q\<lparr>eq_ec := e, eq_handler := ah\<rparr>)"

lemma eq_run_inv: "eq_run eng nextAttributes posts q \<Longrightarrow> run_inv posts (eq_finalizer q)"
proof (induction rule: eq_run.induct)
  case (start e cfg ah)
  then show ?case
    using lookback_pos by (simp add: NewEngineQueue_def run_inv_def fin_inv_def NewFinalizer_def data_sorted_def)
next
  case (step posts q keccak256 decodeTx payloadByNumber env prevOrigin prev w r q' prev' w')
  let ?p = "PostProcessSafeL2 (eq_finalizer q) (ec_safeHead (eq_ec q)) (eq_origin q)"
  have p: "run_inv (posts @ [(ec_safeHead (eq_ec q), eq_origin q)]) (?p\<lparr>fi_engine := h\<rparr>)" for h
    using PostProcess_inv [OF step.IH] by simp
  from EngineQueue_Step_finalizer [OF step.hyps(2)] show ?case
  proof (elim disjE exE conjE)
    fix err fi
    assume "OnDerivationL1End (c1_ByNumber (qe_l1 env)) (?p\<lparr>fi_engine := ec_finalizedHead (eq_ec q)\<rparr>) (eq_origin q) = (err, fi)"
      "eq_finalizer q' = fi"
    then show ?thesis
      using OnDerivationL1End_inv [OF p [of "ec_finalizedHead (eq_ec q)"], of "c1_ByNumber (qe_l1 env)" "eq_origin q"] by simp
  qed (use run_inv_mono [OF step.IH] in simp)
next
  case (reset posts q env err q' posts')
  have "eq_finalizer q' = eq_finalizer q \<or> eq_finalizer q' = Finalizer_Reset (eq_finalizer q)"
    using reset.hyps(2)
    by (auto simp: EngineQueue_Reset_def Let_def apply_heads_def split: option.splits sum.splits if_splits)
  then have "run_inv posts (eq_finalizer q')"
    using reset.IH by (auto simp: run_inv_def fin_inv_def Finalizer_Reset_def data_sorted_def)
  then show ?case using run_inv_empty reset.hyps(3) by auto
next
  case (signal posts q env ref)
  then show ?case
    using Finalizer_Finalize_inv [of posts "finalizer_head q"] by (simp add: queue_Finalize_def set_finalizer_def finalizer_head_def)
next
  case (others posts q e ah)
  then show ?case by simp
qed


section \<open>The order of resets\<close>

text \<open>All resets in a row, each of which must end with EOF.\<close>

fun reset_all :: "(L1BlockRef \<Rightarrow> SystemConfig \<Rightarrow> 's \<Rightarrow> (gerr option \<times> 's) go) list \<Rightarrow> ('s \<Rightarrow> L1BlockRef) \<Rightarrow> ('s \<Rightarrow> SystemConfig)
    \<Rightarrow> 's \<Rightarrow> 's option" where
  "reset_all [] origin sysCfg s = Some s"
| "reset_all (f # fs) origin sysCfg s =
     (case f (origin s) (sysCfg s) s of
        None \<Rightarrow> None
      | Some (err, s) \<Rightarrow> if err = Some EOF then reset_all fs origin sysCfg s else None)"

fun step_times :: "nat \<Rightarrow> 's Stages \<Rightarrow> nat \<Rightarrow> 's \<Rightarrow> (nat \<times> 's) option" where
  "step_times 0 stages resetting s = Some (resetting, s)"
| "step_times (Suc n) stages resetting s =
     (case Pipeline_Step stages resetting s of
        Some (None, resetting, s) \<Rightarrow> step_times n stages resetting s
      | _ \<Rightarrow> None)"

lemma step_times_resets:
  "reset_all (drop k (st_resets stages)) (st_origin stages) (st_sysCfg stages) s = Some s' \<Longrightarrow> k \<le> length (st_resets stages) \<Longrightarrow>
   step_times (length (st_resets stages) - k) stages k s = Some (length (st_resets stages), s')"
proof (induction "length (st_resets stages) - k" arbitrary: k s)
  case (Suc n)
  then have k: "k < length (st_resets stages)" by simp
  then have d: "drop k (st_resets stages) = st_resets stages ! k # drop (Suc k) (st_resets stages)" by (simp add: Cons_nth_drop_Suc)
  obtain s1 where s1: "(st_resets stages ! k) (st_origin stages s) (st_sysCfg stages s) s = Some (Some EOF, s1)"
    "reset_all (drop (Suc k) (st_resets stages)) (st_origin stages) (st_sysCfg stages) s1 = Some s'"
    using Suc.prems(1) unfolding d by (auto split: option.splits if_splits)
  have "Pipeline_Step stages k s = Some (None, Suc k, s1)" using k s1(1) by (simp add: Pipeline_Step_def)
  moreover have "step_times (length (st_resets stages) - Suc k) stages (Suc k) s1 = Some (length (st_resets stages), s')"
    using Suc.hyps(1) [of "Suc k"] Suc.hyps(2) s1(2) k by simp
  moreover have "length (st_resets stages) - k = Suc (length (st_resets stages) - Suc k)" using k by simp
  ultimately show ?case by simp
qed simp

text \<open>Resetting the pipeline resets every stage once, in order, before the engine queue is stepped again. When the
  resets in a row all end with EOF, each with the origin and configuration that the engine queue has at that moment, the
  next steps of the pipeline, as many as there are stages, are exactly these resets and succeed.\<close>

theorem Pipeline_resets_in_order:
  assumes "reset_all (st_resets stages) (st_origin stages) (st_sysCfg stages) s = Some s'"
  shows "step_times (length (st_resets stages)) stages (Pipeline_Reset resetting) s = Some (length (st_resets stages), s')"
  using step_times_resets [of 0 stages s s'] assms by (simp add: Pipeline_Reset_def)

section \<open>Witnesses\<close>

definition reset_env :: QueueEnv where
  "reset_env = \<lparr>qe_cfg = OPBNBTestnet, qe_syncCfg = eng_config CLSync, qe_l1 = start_l1, qe_l2 = start_l2,
     qe_SystemConfigByL2Hash = (\<lambda>_. Inr zero_SystemConfig), qe_PreFetchReceipts = (\<lambda>_. None),
     qe_SafeHeadUpdated = (\<lambda>_ _. None), qe_SafeHeadReset = (\<lambda>_. None), qe_NotifsEnabled = False\<rparr>"

definition first_queue :: EngineQueue where
  "first_queue = NewEngineQueue ((NewEngineController OPBNBMainnet (eng_config CLSync) False)
       \<lparr>ec_unsafeHead := (final_l2 3)\<lparr>l2_L1Origin := \<lparr>bid_Hash = 109, bid_Number = 9\<rparr>\<rparr>,
        ec_pendingSafeHead := final_l2 3, ec_safeHead := final_l2 3\<rparr>)
     (NewFinalizer OPBNBMainnet zero_L2BlockRef) (NewAttributesHandler OPBNBMainnet)"

theorem EngineQueue_Reset_ok_witness: "\<exists>err q'. EngineQueue_Reset reset_env first_queue = Some (err, q')"
proof -
  have a: "l1_consistent (qe_l1 reset_env)" "l2_consistent (qe_l2 reset_env)" "\<not> sc_SkipSyncStartCheck (qe_syncCfg reset_env)"
    by (simp_all add: reset_env_def eng_config_def start_l1_consistent start_l2_consistent)
  show ?thesis using EngineQueue_Reset_ok [OF a, of first_queue] by auto
qed

text \<open>A step of a queue that is at L1 block 5, with L1 block 6 finalized, makes its safe head final.\<close>

definition final_env :: QueueEnv where
  "final_env = reset_env\<lparr>qe_l1 := \<lparr>c1_ByNumber = (\<lambda>n. Inr (final_l1 n)), c1_ByHash = (\<lambda>_. Inl NotFound)\<rparr>\<rparr>"

definition low_queue :: EngineQueue where
  "low_queue = first_queue\<lparr>eq_ec := (eq_ec first_queue)\<lparr>ec_safeHead := final_l2 2\<rparr>\<rparr>"

abbreviation eof_attributes :: "L2BlockRef \<Rightarrow> unit \<Rightarrow> (AttributesWithParent res \<times> unit) go" where
  "eof_attributes \<equiv> \<lambda>_ p. Some (Inl EOF, p)"

abbreviation quiet_step :: "EngineQueue \<Rightarrow> (gerr option \<times> EngineQueue \<times> unit \<times> nat) go" where
  "quiet_step q \<equiv> EngineQueue_Step (\<lambda>_. 0) (\<lambda>b. Inr (DepositTxType, b)) (\<lambda>n w. (Inl NotFound, w)) (phase_engine ExecutionValid) final_env
     (\<lambda>_. final_l1 5) eof_attributes q () 0"

text \<open>A step of a queue that has nothing to tell the engine and no attributes.\<close>

definition quiet :: "EngineQueue \<Rightarrow> bool" where
  "quiet q \<longleftrightarrow> \<not> ec_needFCUCall (eq_ec q) \<and> \<not> ec_needFCUCallForBackupUnsafeReorg (eq_ec q) \<and>
     ec_syncStatus (eq_ec q) = syncStatusCL \<and> ah_attributes (eq_handler q) = None \<and>
     l2_L1Origin (ec_unsafeHead (eq_ec q)) = \<lparr>bid_Hash = 109, bid_Number = 9\<rparr>"

lemma quiet_step_eq:
  assumes "quiet q" "post_safe final_env q = (None, q1)" "l2_L1Origin (ec_unsafeHead (eq_ec q1)) = \<lparr>bid_Hash = 109, bid_Number = 9\<rparr>"
  shows "quiet_step q = Some (Some EOF, q1\<lparr>eq_origin := final_l1 5\<rparr>, (), 0)"
proof -
  have q: "q\<lparr>eq_ec := eq_ec q, eq_handler := eq_handler q\<rparr> = q" by simp
  have v: "verifyNewL1Origin final_env q1 (final_l1 5) = None"
    using assms(3) by (simp add: verifyNewL1Origin_def Let_def final_l1_def)
  show ?thesis
    using assms(1,2) v q
    by (simp add: EngineQueue_Step_def quiet_def TryBackupUnsafeReorg_def shouldTryBackupUnsafeReorg_def TryUpdateEngine_def
        IsEngineSyncing_def Handler_Proceed_def pull_next_def Let_def)
qed

lemma main_above: "((129 :: u64) \<le> 1) = False" by (simp add: word_le_nat_alt)

lemma main_lookback: "calcFinalityLookback OPBNBMainnet = 129"
  by (simp add: calcFinalityLookback_def OPBNBMainnet_def defaultFinalityLookback_def)

lemmas queue_eval = low_queue_def first_queue_def NewEngineQueue_def NewEngineController_def NewFinalizer_def eng_config_def
  NewAttributesHandler_def

text \<open>The queue after a step at the zero origin, with another safe head and a signal of L1 block 6.\<close>

definition moved_queue :: EngineQueue where
  "moved_queue = low_queue\<lparr>eq_lastNotifiedSafeHead := final_l2 2, eq_origin := final_l1 5, eq_ec := eq_ec first_queue,
     eq_finalizer := \<lparr>fi_finalizedL1 = final_l1 6, fi_triedFinalizeAt = 0,
       fi_finalityData = [\<lparr>fd_L2Block = final_l2 2, fd_L1Block = \<lparr>bid_Hash = 0, bid_Number = 0\<rparr>\<rparr>],
       fi_finalityLookback = 129, fi_engine = zero_L2BlockRef\<rparr>\<rparr>"

lemma moved_run: "\<exists>posts. eq_run (phase_engine ExecutionValid) eof_attributes posts moved_queue"
proof -
  let ?next = "eof_attributes" and ?eng = "phase_engine ExecutionValid"
  let ?q1 = "low_queue\<lparr>eq_lastNotifiedSafeHead := final_l2 2,
      eq_finalizer := (eq_finalizer low_queue)\<lparr>fi_finalityData := [\<lparr>fd_L2Block = final_l2 2, fd_L1Block = \<lparr>bid_Hash = 0, bid_Number = 0\<rparr>\<rparr>]\<rparr>\<rparr>"
  have p1: "post_safe final_env low_queue = (None, ?q1)"
    by (simp add: post_safe_def queue_eval final_env_def reset_env_def OnDerivationL1End_def finalizer_head_def main_lookback
        PostProcessSafeL2_def set_finalizer_def zero_L2BlockRef_def zero_L1BlockRef_def l1_ID_def final_l2_def Let_def)
  have s1: "quiet_step low_queue = Some (Some EOF, ?q1\<lparr>eq_origin := final_l1 5\<rparr>, (), 0)"
    by (rule quiet_step_eq [OF _ p1]) (simp_all add: quiet_def queue_eval)
  have r0: "eq_run ?eng ?next [] low_queue"
    using eq_run.start [of ?eng ?next "eq_ec low_queue" OPBNBMainnet "NewAttributesHandler OPBNBMainnet"]
    by (simp add: queue_eval)
  have "queue_Finalize final_env (?q1\<lparr>eq_origin := final_l1 5, eq_ec := eq_ec first_queue, eq_handler := eq_handler low_queue\<rparr>) (final_l1 6) = moved_queue"
    by (simp add: queue_Finalize_def Finalizer_Finalize_def tryFinalize_def finalizer_head_def set_finalizer_def moved_queue_def
        queue_eval zero_L1BlockRef_def zero_L2BlockRef_def final_l1_def final_l2_def main_lookback Let_def)
  then show ?thesis
    using eq_run.signal [OF eq_run.others [OF eq_run.step [OF r0 s1], where e = "eq_ec first_queue" and ah = "eq_handler low_queue"],
        of final_env "final_l1 6"] by auto
qed


theorem Pipeline_resets_in_order_witness:
  "step_times 3 \<lparr>st_resets = replicate 3 (\<lambda>o1 c s. Some (Some EOF, s + 1)), st_origin = (\<lambda>_. final_l1 1), st_sysCfg = (\<lambda>_. zero_SystemConfig),
     st_step = (\<lambda>s. Some (Some EOF, s)), st_advance = (\<lambda>s. Some (None, s))\<rparr> 0 (4 :: nat) = Some (3, 7)"
proof -
  let ?st = "\<lparr>st_resets = replicate 3 (\<lambda>o1 c s. Some (Some EOF, s + 1)), st_origin = (\<lambda>_. final_l1 1), st_sysCfg = (\<lambda>_. zero_SystemConfig),
     st_step = (\<lambda>s. Some (Some EOF, s)), st_advance = (\<lambda>s. Some (None, s))\<rparr> :: nat Stages"
  have "reset_all (st_resets ?st) (st_origin ?st) (st_sysCfg ?st) 4 = Some 7" by (simp add: numeral_eq_Suc)
  from Pipeline_resets_in_order [OF this, of 9] show ?thesis by (simp add: Pipeline_Reset_def)
qed

end
