(* ===== verification/PayloadsQueue.thy ===== *)
theory PayloadsQueue
  imports EngineControl GoHeap
begin

text \<open>
  Unsafe payloads, op-node/rollup/clsync (payloads_queue.go, clsync.go): the blocks that were received ahead of L1 wait in
  a priority queue of bounded memory, ordered by block number, and are applied to the tip of the chain. The queue is
  the heap of theory \<open>GoHeap\<close>; a nil envelope and one with a nil payload are both \<open>None\<close>.
\<close>

section \<open>The queue\<close>

record payloadAndSize =
  ps_envelope :: Envelope
  ps_size :: u64

definition ps_number :: "payloadAndSize \<Rightarrow> u64" where "ps_number p = ep_BlockNumber (env_Payload (ps_envelope p))"
definition ps_hash :: "payloadAndSize \<Rightarrow> Hash" where "ps_hash p = ep_BlockHash (env_Payload (ps_envelope p))"

definition payloadMemFixedCost :: u64 where "payloadMemFixedCost = 1000"
definition payloadTxMemOverhead :: u64 where "payloadTxMemOverhead = 24"

definition payloadMemSize :: "Envelope \<Rightarrow> u64" where
  "payloadMemSize p =
     foldl (\<lambda>out tx. out + (of_nat (length tx) + payloadTxMemOverhead)) payloadMemFixedCost (ep_Transactions (env_Payload p))"

record PayloadsQueue =
  pq_pq :: "payloadAndSize list"
  pq_currentSize :: u64
  pq_MaxSize :: u64
  pq_blockHashes :: "Hash set"
  pq_SizeFn :: "Envelope \<Rightarrow> u64"

definition NewPayloadsQueue :: "u64 \<Rightarrow> (Envelope \<Rightarrow> u64) \<Rightarrow> PayloadsQueue" where
  "NewPayloadsQueue maxSize sizeFn =
     \<lparr>pq_pq = [], pq_currentSize = 0, pq_MaxSize = maxSize, pq_blockHashes = {}, pq_SizeFn = sizeFn\<rparr>"

definition Queue_Len :: "PayloadsQueue \<Rightarrow> nat" where "Queue_Len q = length (pq_pq q)"

definition Queue_Peek :: "PayloadsQueue \<Rightarrow> Envelope option" where
  "Queue_Peek q = (if pq_pq q = [] then None else Some (ps_envelope (pq_pq q ! 0)))"

definition Queue_Pop :: "PayloadsQueue \<Rightarrow> Envelope option \<times> PayloadsQueue" where
  "Queue_Pop q =
     (case heap_Pop ps_number (pq_pq q) of
        None \<Rightarrow> (None, q)
      | Some (ps, pq) \<Rightarrow>
          (Some (ps_envelope ps),
           q\<lparr>pq_pq := pq, pq_currentSize := pq_currentSize q - ps_size ps, pq_blockHashes := pq_blockHashes q - {ps_hash ps}\<rparr>))"

lemma Queue_Pop_length: "Queue_Pop q = (Some env, q') \<Longrightarrow> length (pq_pq q') < length (pq_pq q)"
  by (auto simp: Queue_Pop_def split: option.splits dest!: heap.pop_length)

text \<open>The loop of \<open>Push\<close>: the id of the popped payload is logged, so a nil payload would panic.\<close>

function evict :: "PayloadsQueue \<Rightarrow> PayloadsQueue go" where
  "evict q =
     (if pq_currentSize q > pq_MaxSize q then
        (case Queue_Pop q of (None, q') \<Rightarrow> None | (Some env, q') \<Rightarrow> evict q')
      else Some q)"
  by pat_completeness auto

termination evict
  by (relation "measure (\<lambda>q. length (pq_pq q))") (auto dest: Queue_Pop_length [OF sym])

declare evict.simps [simp del]

definition Queue_Push :: "PayloadsQueue \<Rightarrow> Envelope option \<Rightarrow> (gerr option \<times> PayloadsQueue) go" where
  "Queue_Push q e =
     (case e of
        None \<Rightarrow> Some (Some (Msg ''cannot add nil payload''), q)
      | Some e \<Rightarrow>
          (let hash = ep_BlockHash (env_Payload e); sz = pq_SizeFn q e in
           if hash \<in> pq_blockHashes q then Some (Some (Msg ''cannot add duplicate payload''), q)
           else if sz > pq_MaxSize q then Some (Some (Msg ''cannot add payload, payload mem size is larger than max queue size''), q)
           else
             (case evict (q\<lparr>pq_pq := heap_Push ps_number \<lparr>ps_envelope = e, ps_size = sz\<rparr> (pq_pq q),
                           pq_currentSize := pq_currentSize q + sz\<rparr>) of
                None \<Rightarrow> None
              | Some q \<Rightarrow> Some (None, q\<lparr>pq_blockHashes := insert hash (pq_blockHashes q)\<rparr>))))"

section \<open>Applying payloads\<close>

definition maxUnsafePayloadsMemory :: u64 where "maxUnsafePayloadsMemory = 500 * 1024 * 1024"

definition NewCLSync :: PayloadsQueue where "NewCLSync = NewPayloadsQueue maxUnsafePayloadsMemory payloadMemSize"

definition LowestQueuedUnsafeBlock :: "keccak \<Rightarrow> txDecoder \<Rightarrow> Config \<Rightarrow> PayloadsQueue \<Rightarrow> L2BlockRef" where
  "LowestQueuedUnsafeBlock keccak256 decodeTx cfg q =
     (case Queue_Peek q of
        None \<Rightarrow> zero_L2BlockRef
      | Some payload \<Rightarrow>
          (case PayloadToBlockRef keccak256 decodeTx cfg (ExecutionPayload.truncate (env_Payload payload)) of
             Inl err \<Rightarrow> zero_L2BlockRef
           | Inr ref \<Rightarrow> ref))"

text \<open>After a push the first payload of the queue is reported, so an empty queue would panic.\<close>

definition AddUnsafePayload :: "PayloadsQueue \<Rightarrow> Envelope option \<Rightarrow> PayloadsQueue go" where
  "AddUnsafePayload q envelope =
     (case envelope of
        None \<Rightarrow> Some q
      | Some e \<Rightarrow>
          (case Queue_Push q (Some e) of
             None \<Rightarrow> None
           | Some (Some err, q) \<Rightarrow> Some q
           | Some (None, q) \<Rightarrow> (case Queue_Peek q of None \<Rightarrow> None | Some p \<Rightarrow> Some q)))"

definition CLSync_Proceed :: "keccak \<Rightarrow> txDecoder \<Rightarrow> 'w ExecEngine \<Rightarrow> Config \<Rightarrow> PayloadsQueue \<Rightarrow> EngineController \<Rightarrow> 'w
    \<Rightarrow> (gerr option \<times> PayloadsQueue \<times> EngineController \<times> 'w) go" where
  "CLSync_Proceed keccak256 decodeTx eng cfg q e w =
     (case Queue_Peek q of
        None \<Rightarrow> Some (Some EOF, q, e, w)
      | Some firstEnvelope \<Rightarrow>
          (let first = env_Payload firstEnvelope; popped = snd (Queue_Pop q) in
           if ep_BlockNumber first \<le> l2_Number (ec_safeHead e) then Some (None, popped, e, w)
           else if ep_BlockNumber first \<le> l2_Number (ec_unsafeHead e) then Some (None, popped, e, w)
           else if ep_ParentHash first \<noteq> l2_Hash (ec_unsafeHead e) then
             Some (Some EOF, if ep_BlockNumber first = l2_Number (ec_unsafeHead e) + 1 then popped else q, e, w)
           else
             (case PayloadToBlockRef keccak256 decodeTx cfg (ExecutionPayload.truncate first) of
                Inl err \<Rightarrow> Some (None, popped, e, w)
              | Inr ref \<Rightarrow>
                  (case InsertUnsafePayload eng e firstEnvelope ref w of
                     None \<Rightarrow> None
                   | Some (Some err, e, w) \<Rightarrow>
                       if errors_Is err ErrTemporary then Some (Some err, q, e, w) else Some (Some err, popped, e, w)
                   | Some (None, e, w) \<Rightarrow> Some (None, popped, e, w)))))"

section \<open>Invariant\<close>

definition total_size :: "payloadAndSize list \<Rightarrow> nat" where
  "total_size ps = (\<Sum>p\<leftarrow>ps. unat (ps_size p))"

text \<open>The counted size is the sum of the sizes; the hashes of the payloads differ and are known. \<open>bound\<close> is the most that
  the queue may hold at the moment.\<close>

definition queue_ok :: "nat \<Rightarrow> PayloadsQueue \<Rightarrow> bool" where
  "queue_ok bound q \<longleftrightarrow>
     heap_ok ps_number (pq_pq q) \<and> unat (pq_currentSize q) = total_size (pq_pq q) \<and> total_size (pq_pq q) \<le> bound \<and>
     (\<forall>p\<in>set (pq_pq q). ps_size p \<le> pq_MaxSize q) \<and> distinct (map ps_hash (pq_pq q))"

abbreviation queue_inv :: "PayloadsQueue \<Rightarrow> bool" where
  "queue_inv q \<equiv> queue_ok (unat (pq_MaxSize q)) q \<and> ps_hash ` set (pq_pq q) \<subseteq> pq_blockHashes q"

lemma total_size_mset: "mset xs = mset ys \<Longrightarrow> total_size xs = total_size ys"
  unfolding total_size_def by (metis mset_map sum_mset_sum_list)

lemma distinct_mset: "mset xs = mset ys \<Longrightarrow> distinct (map f xs) = distinct (map f ys)"
  by (metis mset_eq_imp_distinct_iff mset_map)

lemma Queue_Pop_cases:
  assumes "queue_ok bound q" "pq_pq q \<noteq> []"
  obtains p ys where "Queue_Pop q = (Some (ps_envelope p),
      q\<lparr>pq_pq := ys, pq_currentSize := pq_currentSize q - ps_size p, pq_blockHashes := pq_blockHashes q - {ps_hash p}\<rparr>)"
    "mset (pq_pq q) = add_mset p (mset ys)" "p = pq_pq q ! 0" "\<forall>y\<in>set ys. ps_number p \<le> ps_number y"
    "queue_ok bound (snd (Queue_Pop q))" "total_size (pq_pq q) = unat (ps_size p) + total_size ys" "ps_hash p \<notin> ps_hash ` set ys"
proof -
  obtain p ys where p: "heap_Pop ps_number (pq_pq q) = Some (p, ys)" using heap.pop_some [OF assms(2)] by blast
  have h: "heap_ok ps_number (pq_pq q)" using assms(1) by (simp add: queue_ok_def)
  have m: "mset (pq_pq q) = mset (p # ys)" using heap.pop_mset [OF p] by simp
  have t: "total_size (pq_pq q) = unat (ps_size p) + total_size ys"
    using total_size_mset [OF m] by (simp add: total_size_def)
  have d: "distinct (map ps_hash (p # ys))" using assms(1) distinct_mset [OF m, of ps_hash] by (simp add: queue_ok_def)
  have q: "Queue_Pop q = (Some (ps_envelope p),
      q\<lparr>pq_pq := ys, pq_currentSize := pq_currentSize q - ps_size p, pq_blockHashes := pq_blockHashes q - {ps_hash p}\<rparr>)"
    by (simp add: Queue_Pop_def p)
  have s: "unat (pq_currentSize q - ps_size p) = total_size ys"
    using assms(1) t by (simp add: queue_ok_def unat_sub word_le_nat_alt)
  have sub: "set ys \<subseteq> set (pq_pq q)" using heap.pop_set [OF p] by blast
  have "queue_ok bound (snd (Queue_Pop q))"
    using assms(1) s t d sub heap.pop_ordered [OF h p] by (auto simp: q queue_ok_def)
  then show ?thesis
    using that [OF q] heap.pop_mset [OF p] heap.pop_head [OF p] heap.pop_least [OF h p] t d by auto
qed

lemma evict_ok:
  assumes "queue_ok bound q" "bound < 2 ^ 64" "pq_pq q \<noteq> []"
  shows "\<exists>q'. evict q = Some q' \<and> queue_ok (unat (pq_MaxSize q)) q' \<and> pq_MaxSize q' = pq_MaxSize q \<and> pq_SizeFn q' = pq_SizeFn q \<and>
    pq_pq q' \<noteq> [] \<and> set (pq_pq q') \<subseteq> set (pq_pq q) \<and>
    pq_blockHashes q' = pq_blockHashes q - (ps_hash ` set (pq_pq q) - ps_hash ` set (pq_pq q'))"
  using assms
proof (induction q rule: evict.induct)
  case (1 q)
  show ?case
  proof (cases "pq_currentSize q > pq_MaxSize q")
    case False
    then have "queue_ok (unat (pq_MaxSize q)) q"
      using "1.prems"(1) by (auto simp: queue_ok_def word_le_nat_alt linorder_not_less)
    then show ?thesis using False "1.prems"(3) by (subst evict.simps) auto
  next
    case True
    from Queue_Pop_cases [OF "1.prems"(1,3)] obtain p ys where p: "Queue_Pop q = (Some (ps_envelope p),
        q\<lparr>pq_pq := ys, pq_currentSize := pq_currentSize q - ps_size p, pq_blockHashes := pq_blockHashes q - {ps_hash p}\<rparr>)"
      "mset (pq_pq q) = add_mset p (mset ys)" "queue_ok bound (snd (Queue_Pop q))"
      "total_size (pq_pq q) = unat (ps_size p) + total_size ys" "ps_hash p \<notin> ps_hash ` set ys" by metis
    let ?q = "q\<lparr>pq_pq := ys, pq_currentSize := pq_currentSize q - ps_size p, pq_blockHashes := pq_blockHashes q - {ps_hash p}\<rparr>"
    have set_eq: "set (pq_pq q) = insert p (set ys)" using p(2) by (metis set_mset_add_mset_insert set_mset_mset)
    have "ys \<noteq> []"
    proof
      assume "ys = []"
      then have "total_size (pq_pq q) \<le> unat (pq_MaxSize q)"
        using p(4) set_eq "1.prems"(1) by (auto simp: queue_ok_def total_size_def word_le_nat_alt)
      then show False using True "1.prems"(1) by (simp add: queue_ok_def word_less_nat_alt)
    qed
    then obtain q' where q': "evict ?q = Some q'" "queue_ok (unat (pq_MaxSize q)) q'" "pq_MaxSize q' = pq_MaxSize q"
      "pq_SizeFn q' = pq_SizeFn q" "pq_pq q' \<noteq> []" "set (pq_pq q') \<subseteq> set ys"
      "pq_blockHashes q' = pq_blockHashes q - {ps_hash p} - (ps_hash ` set ys - ps_hash ` set (pq_pq q'))"
      using "1.IH" [OF True p(1) [symmetric] refl] p(1,3) "1.prems"(2) by auto
    have "evict q = Some q'" using True p(1) q'(1) by (subst evict.simps) simp
    moreover have "pq_blockHashes q' = pq_blockHashes q - (ps_hash ` set (pq_pq q) - ps_hash ` set (pq_pq q'))"
    proof -
      have "ps_hash p \<notin> ps_hash ` set (pq_pq q')" using q'(6) p(5) by blast
      then show ?thesis unfolding q'(7) set_eq image_insert by blast
    qed
    ultimately show ?thesis using q' set_eq by auto
  qed
qed

lemma push_state_ok:
  assumes "queue_inv q" "ep_BlockHash (env_Payload e) \<notin> pq_blockHashes q" "sz \<le> pq_MaxSize q" "pq_MaxSize q < 2 ^ 63"
  shows "queue_ok (2 * unat (pq_MaxSize q)) (q\<lparr>pq_pq := heap_Push ps_number \<lparr>ps_envelope = e, ps_size = sz\<rparr> (pq_pq q),
     pq_currentSize := pq_currentSize q + sz\<rparr>)"
proof -
  let ?x = "\<lparr>ps_envelope = e, ps_size = sz\<rparr>"
  have m: "mset (heap_Push ps_number ?x (pq_pq q)) = mset (?x # pq_pq q)" by (simp add: heap.push_mset)
  have t: "total_size (heap_Push ps_number ?x (pq_pq q)) = unat sz + total_size (pq_pq q)"
    using total_size_mset [OF m] by (simp add: total_size_def)
  have d: "distinct (map ps_hash (heap_Push ps_number ?x (pq_pq q)))"
    using distinct_mset [OF m, of ps_hash] assms(1,2) by (auto simp: queue_ok_def ps_hash_def)
  have M: "unat (pq_MaxSize q) < 2 ^ 63" using assms(4) by (simp add: word_less_nat_alt)
  have le: "unat sz \<le> unat (pq_MaxSize q)" "unat (pq_currentSize q) \<le> unat (pq_MaxSize q)" "unat (pq_currentSize q) = total_size (pq_pq q)"
    using assms(1,3) by (auto simp: queue_ok_def word_le_nat_alt)
  have s: "unat (pq_currentSize q + sz) = total_size (pq_pq q) + unat sz"
    using le M by (subst unat_add_lem [THEN iffD1]) simp_all
  show ?thesis
    using assms(1,3) t d s le heap.push_ordered [of ps_number "pq_pq q" ?x]
    by (auto simp: queue_ok_def heap.push_set)
qed

lemma Queue_Push_inv:
  assumes "queue_inv q" "pq_MaxSize q < 2 ^ 63"
  shows "\<exists>r q'. Queue_Push q e = Some (r, q') \<and> queue_inv q' \<and> pq_MaxSize q' = pq_MaxSize q \<and> pq_SizeFn q' = pq_SizeFn q \<and>
    (r = None \<longrightarrow> pq_pq q' \<noteq> [])"
proof (cases e)
  case None
  then show ?thesis using assms by (simp add: Queue_Push_def)
next
  case (Some e)
  let ?h = "ep_BlockHash (env_Payload e)" and ?s = "pq_SizeFn q e"
  let ?q = "q\<lparr>pq_pq := heap_Push ps_number \<lparr>ps_envelope = e, ps_size = ?s\<rparr> (pq_pq q), pq_currentSize := pq_currentSize q + ?s\<rparr>"
  show ?thesis
  proof (cases "?h \<in> pq_blockHashes q \<or> ?s > pq_MaxSize q")
    case True
    then show ?thesis using Some assms by (auto simp: Queue_Push_def Let_def)
  next
    case False
    have ok: "queue_ok (2 * unat (pq_MaxSize q)) ?q" using push_state_ok [OF assms(1)] False assms(2) by (simp add: linorder_not_less)
    have b: "2 * unat (pq_MaxSize q) < 2 ^ 64" using assms(2) by (simp add: word_less_nat_alt)
    have ne: "pq_pq ?q \<noteq> []" using heap.push_length [of ps_number "\<lparr>ps_envelope = e, ps_size = ?s\<rparr>" "pq_pq q"] by auto
    obtain q' where q': "evict ?q = Some q'" "queue_ok (unat (pq_MaxSize q)) q'" "pq_MaxSize q' = pq_MaxSize q"
      "pq_SizeFn q' = pq_SizeFn q" "pq_pq q' \<noteq> []" "set (pq_pq q') \<subseteq> set (pq_pq ?q)"
      "pq_blockHashes q' = pq_blockHashes q - (ps_hash ` set (pq_pq ?q) - ps_hash ` set (pq_pq q'))"
      using evict_ok [OF ok b ne] by auto
    have "ps_hash x \<in> insert ?h (pq_blockHashes q')" if x: "x \<in> set (pq_pq q')" for x
    proof -
      have "ps_hash x = ?h \<or> x \<in> set (pq_pq q)" using x q'(6) by (auto simp: heap.push_set ps_hash_def)
      then have "ps_hash x = ?h \<or> ps_hash x \<in> pq_blockHashes q" using assms(1) by blast
      then show ?thesis using x unfolding q'(7) by blast
    qed
    then have "ps_hash ` set (pq_pq q') \<subseteq> insert ?h (pq_blockHashes q')" by blast
    then show ?thesis using Some False q' by (auto simp: Queue_Push_def Let_def queue_ok_def)
  qed
qed

lemma Queue_Pop_inv:
  assumes "queue_inv q" "pq_pq q \<noteq> []"
  shows "queue_inv (snd (Queue_Pop q)) \<and> pq_MaxSize (snd (Queue_Pop q)) = pq_MaxSize q"
proof -
  from Queue_Pop_cases [OF conjunct1 [OF assms(1)] assms(2)] obtain p ys where p: "Queue_Pop q = (Some (ps_envelope p),
      q\<lparr>pq_pq := ys, pq_currentSize := pq_currentSize q - ps_size p, pq_blockHashes := pq_blockHashes q - {ps_hash p}\<rparr>)"
    "mset (pq_pq q) = add_mset p (mset ys)" "queue_ok (unat (pq_MaxSize q)) (snd (Queue_Pop q))" "ps_hash p \<notin> ps_hash ` set ys" by metis
  have "set (pq_pq q) = insert p (set ys)" using p(2) by (metis set_mset_add_mset_insert set_mset_mset)
  then have "ps_hash ` set ys \<subseteq> pq_blockHashes q - {ps_hash p}" using assms(1) p(4) by blast
  then show ?thesis using p(1,3) by simp
qed

section \<open>Properties\<close>

text \<open>The queue as it is used: payloads are pushed and popped.\<close>

inductive queue_run :: "PayloadsQueue \<Rightarrow> PayloadsQueue \<Rightarrow> bool" for q0 where
  start: "queue_run q0 q0"
| push: "queue_run q0 q \<Longrightarrow> Queue_Push q e = Some (r, q') \<Longrightarrow> queue_run q0 q'"
| pop: "queue_run q0 q \<Longrightarrow> Queue_Pop q = (p, q') \<Longrightarrow> queue_run q0 q'"

lemma Queue_Pop_empty: "pq_pq q = [] \<Longrightarrow> Queue_Pop q = (None, q)"
  by (simp add: Queue_Pop_def heap_Pop_def)

lemma queue_run_inv:
  assumes "queue_run q0 q" "queue_inv q0" "pq_MaxSize q0 < 2 ^ 63"
  shows "queue_inv q \<and> pq_MaxSize q = pq_MaxSize q0"
  using assms(1)
proof induction
  case (push q e r q')
  note i = conjunct1 [OF push.IH] conjunct2 [OF push.IH]
  have "pq_MaxSize q < 2 ^ 63" using i(2) assms(3) by simp
  then obtain r1 q1 where q1: "Queue_Push q e = Some (r1, q1)" "queue_inv q1" "pq_MaxSize q1 = pq_MaxSize q"
    using Queue_Push_inv [OF i(1), of e] by blast
  have "q1 = q'" using q1(1) push.hyps(2) by simp
  then show ?case using q1(2,3) i(2) by metis
next
  case (pop q p q')
  show ?case
  proof (cases "pq_pq q = []")
    case True
    have "q' = q" using pop.hyps(2) Queue_Pop_empty [OF True] by simp
    then show ?thesis using pop.IH by metis
  next
    case False
    note i = conjunct1 [OF pop.IH] conjunct2 [OF pop.IH]
    have "snd (Queue_Pop q) = q'" using pop.hyps(2) by simp
    then show ?thesis using Queue_Pop_inv [OF i(1) False] i(2) by metis
  qed
qed (use assms in simp)


text \<open>A hash that is known but not that of a queued payload stays so.\<close>

lemma queue_run_lost:
  assumes "queue_run q0 q" "h \<in> pq_blockHashes q0" "h \<notin> ps_hash ` set (pq_pq q0)" "queue_inv q0" "pq_MaxSize q0 < 2 ^ 63"
  shows "h \<in> pq_blockHashes q \<and> h \<notin> ps_hash ` set (pq_pq q)"
  using assms(1)
proof induction
  case (push q e r q')
  have i: "queue_inv q" "pq_MaxSize q < 2 ^ 63" using queue_run_inv [OF push.hyps(1) assms(4,5)] assms(5) by auto
  show ?case
  proof (cases e)
    case None
    then show ?thesis using push by (simp add: Queue_Push_def)
  next
    case (Some x)
    let ?q = "q\<lparr>pq_pq := heap_Push ps_number \<lparr>ps_envelope = x, ps_size = pq_SizeFn q x\<rparr> (pq_pq q), pq_currentSize := pq_currentSize q + pq_SizeFn q x\<rparr>"
    show ?thesis
    proof (cases "ep_BlockHash (env_Payload x) \<in> pq_blockHashes q \<or> pq_SizeFn q x > pq_MaxSize q")
      case True
      then have "q' = q" using push.hyps(2) Some by (auto simp: Queue_Push_def Let_def split: if_splits)
      then show ?thesis using push.IH by simp
    next
      case False
      have ok: "queue_ok (2 * unat (pq_MaxSize q)) ?q" using push_state_ok [OF i(1)] False i(2) by (simp add: linorder_not_less)
      have b: "2 * unat (pq_MaxSize q) < 2 ^ 64" using i(2) by (simp add: word_less_nat_alt)
      have ne: "pq_pq ?q \<noteq> []"
        using heap.push_length [of ps_number "\<lparr>ps_envelope = x, ps_size = pq_SizeFn q x\<rparr>" "pq_pq q"] by auto
      obtain q1 where q1: "evict ?q = Some q1" "set (pq_pq q1) \<subseteq> set (pq_pq ?q)"
        "pq_blockHashes q1 = pq_blockHashes q - (ps_hash ` set (pq_pq ?q) - ps_hash ` set (pq_pq q1))"
        using evict_ok [OF ok b ne] by auto
      have q': "q' = q1\<lparr>pq_blockHashes := insert (ep_BlockHash (env_Payload x)) (pq_blockHashes q1)\<rparr>"
        using push.hyps(2) False Some q1(1) by (simp add: Queue_Push_def Let_def)
      have "h \<noteq> ep_BlockHash (env_Payload x)" using False push.IH by auto
      then have "h \<notin> ps_hash ` set (pq_pq ?q)" using push.IH by (simp add: heap.push_set ps_hash_def)
      then show ?thesis using q' q1(2,3) push.IH by auto
    qed
  qed
next
  case (pop q p q')
  show ?case
  proof (cases "pq_pq q = []")
    case False
    note i = conjunct1 [OF queue_run_inv [OF pop.hyps(1) assms(4,5)]]
    from Queue_Pop_cases [OF conjunct1 [OF i] False] obtain y ys where y: "Queue_Pop q = (Some (ps_envelope y),
      q\<lparr>pq_pq := ys, pq_currentSize := pq_currentSize q - ps_size y, pq_blockHashes := pq_blockHashes q - {ps_hash y}\<rparr>)"
      "mset (pq_pq q) = add_mset y (mset ys)" by metis
    have "set (pq_pq q) = insert y (set ys)" using y(2) by (metis set_mset_add_mset_insert set_mset_mset)
    then show ?thesis using pop y(1) by auto
  qed (use pop Queue_Pop_empty in auto)
qed (use assms in auto)

text \<open>C21: A payload can be lost for good. When a payload that is lower than all queued ones is pushed and the queue is
  full, the push succeeds, but the payload is the one that is evicted, and its hash is remembered afterwards: whatever is
  pushed and popped later, pushing the payload again is refused as a duplicate although it is not in the queue.\<close>

theorem evicted_payload_lost:
  assumes "queue_inv q" "pq_MaxSize q < 2 ^ 63" "ep_BlockHash (env_Payload e) \<notin> pq_blockHashes q"
    and "pq_SizeFn q e \<le> pq_MaxSize q" "pq_currentSize q + pq_SizeFn q e > pq_MaxSize q"
    and "\<forall>p\<in>set (pq_pq q). ep_BlockNumber (env_Payload e) < ps_number p"
    and "Queue_Push q (Some e) = Some (r, q1)" "queue_run q1 q2"
  shows "r = None \<and> ep_BlockHash (env_Payload e) \<notin> ps_hash ` set (pq_pq q2) \<and>
    Queue_Push q2 (Some e) = Some (Some (Msg ''cannot add duplicate payload''), q2)"
proof -
  let ?x = "\<lparr>ps_envelope = e, ps_size = pq_SizeFn q e\<rparr>"
  let ?q = "q\<lparr>pq_pq := heap_Push ps_number ?x (pq_pq q), pq_currentSize := pq_currentSize q + pq_SizeFn q e\<rparr>"
  have ok: "queue_ok (2 * unat (pq_MaxSize q)) ?q" using push_state_ok [OF assms(1,3,4,2)] .
  have ne: "pq_pq ?q \<noteq> []" using heap.push_length [of ps_number ?x "pq_pq q"] by auto
  have xnum: "ps_number ?x = ep_BlockNumber (env_Payload e)" by (simp add: ps_number_def)
  from Queue_Pop_cases [OF ok ne] obtain p ys where p: "Queue_Pop ?q = (Some (ps_envelope p),
      ?q\<lparr>pq_pq := ys, pq_currentSize := pq_currentSize ?q - ps_size p, pq_blockHashes := pq_blockHashes ?q - {ps_hash p}\<rparr>)"
    "mset (pq_pq ?q) = add_mset p (mset ys)" "\<forall>y\<in>set ys. ps_number p \<le> ps_number y" by metis
  have m: "add_mset ?x (mset (pq_pq q)) = add_mset p (mset ys)" using p(2) by (simp add: heap.push_mset)
  have "p = ?x"
  proof (rule ccontr)
    assume n: "p \<noteq> ?x"
    then have "p \<in># mset (pq_pq q)" "?x \<in># mset ys" using m by (metis insert_noteq_member)+
    then have "ps_number ?x < ps_number p" "ps_number p \<le> ps_number ?x" using assms(6) p(3) xnum by auto
    then show False by simp
  qed
  then have ys: "mset ys = mset (pq_pq q)" using m by simp
  have pop: "Queue_Pop ?q = (Some e, q\<lparr>pq_pq := ys\<rparr>)"
    using p(1) \<open>p = ?x\<close> assms(3) by (simp add: ps_hash_def)
  have "\<not> pq_currentSize q > pq_MaxSize q" using assms(1) by (simp add: queue_ok_def word_less_nat_alt)
  then have "evict (q\<lparr>pq_pq := ys\<rparr>) = Some (q\<lparr>pq_pq := ys\<rparr>)" by (subst evict.simps) simp
  then have "evict ?q = Some (q\<lparr>pq_pq := ys\<rparr>)" using assms(5) pop by (subst evict.simps) simp
  then have q1: "r = None" "q1 = q\<lparr>pq_pq := ys, pq_blockHashes := insert (ep_BlockHash (env_Payload e)) (pq_blockHashes q)\<rparr>"
    using assms(3,4,7) by (auto simp: Queue_Push_def Let_def linorder_not_less [symmetric])
  have i1: "queue_inv q1" using Queue_Push_inv [OF assms(1,2), of "Some e"] assms(7) by auto
  have s1: "set (pq_pq q1) = set (pq_pq q)" using q1(2) mset_eq_setD [OF ys] by simp
  have "ep_BlockHash (env_Payload e) \<notin> ps_hash ` set (pq_pq q1)" using s1 assms(1,3) by auto
  then have l: "ep_BlockHash (env_Payload e) \<in> pq_blockHashes q2 \<and> ep_BlockHash (env_Payload e) \<notin> ps_hash ` set (pq_pq q2)"
    using queue_run_lost [OF assms(8) _ _ i1] q1(2) assms(2) by simp
  then show ?thesis using q1(1) by (simp add: Queue_Push_def)
qed

text \<open>Only blocks on the tip are applied. When CLSync does anything with the engine, the first payload of the queue has the
  unsafe head as its parent and a number above the unsafe and the safe head.\<close>

theorem CLSync_Proceed_tip:
  assumes "CLSync_Proceed keccak256 decodeTx eng cfg q e w = Some (r, q', e', w')" "e' \<noteq> e \<or> w' \<noteq> w"
  shows "\<exists>p. Queue_Peek q = Some p \<and> ep_ParentHash (env_Payload p) = l2_Hash (ec_unsafeHead e) \<and>
    l2_Number (ec_unsafeHead e) < ep_BlockNumber (env_Payload p) \<and> l2_Number (ec_safeHead e) < ep_BlockNumber (env_Payload p) \<and>
    (q' = q \<or> q' = snd (Queue_Pop q))"
proof (cases "Queue_Peek q")
  case (Some p)
  then show ?thesis
    using assms
    by (auto simp: CLSync_Proceed_def Let_def linorder_not_le split: if_splits sum.splits option.splits)
qed (use assms in \<open>auto simp: CLSync_Proceed_def\<close>)

section \<open>Witnesses\<close>

definition queue_block :: "u64 \<Rightarrow> Envelope" where
  "queue_block n = eng_envelope\<lparr>env_Payload := (env_Payload eng_envelope)\<lparr>ep_BlockNumber := n, ep_BlockHash := ucast n + 500,
     ep_ParentHash := ucast n + 499\<rparr>\<rparr>"

text \<open>A queue for one payload that holds block 9.\<close>

definition small_queue :: PayloadsQueue where
  "small_queue = \<lparr>pq_pq = [\<lparr>ps_envelope = queue_block 9, ps_size = 10\<rparr>], pq_currentSize = 10, pq_MaxSize = 15,
     pq_blockHashes = {509}, pq_SizeFn = (\<lambda>_. 10)\<rparr>"

lemma small_inv: "queue_inv small_queue"
  by (simp add: queue_ok_def small_queue_def total_size_def heap_ok_def heap_upto_def ps_hash_def queue_block_def)


theorem evicted_payload_lost_witness:
  "\<exists>q1. Queue_Push small_queue (Some (queue_block 8)) = Some (None, q1) \<and>
    Queue_Push (snd (Queue_Pop q1)) (Some (queue_block 8)) = Some (Some (Msg ''cannot add duplicate payload''), snd (Queue_Pop q1))"
proof -
  obtain r q1 where p: "Queue_Push small_queue (Some (queue_block 8)) = Some (r, q1)"
    using Queue_Push_inv [OF small_inv, of "Some (queue_block 8)"] by (auto simp: small_queue_def)
  have "queue_run q1 (snd (Queue_Pop q1))" by (rule queue_run.pop [OF queue_run.start surjective_pairing])
  from evicted_payload_lost [OF small_inv _ _ _ _ _ p this] p show ?thesis
    by (simp add: small_queue_def queue_block_def ps_number_def)
qed

definition tip_queue :: PayloadsQueue where
  "tip_queue = small_queue\<lparr>pq_pq := [\<lparr>ps_envelope = queue_block 4, ps_size = 10\<rparr>]\<rparr>"

definition tip_engine :: "nat ExecEngine" where
  "tip_engine = (phase_engine ExecutionValid)\<lparr>en_NewPayload := (\<lambda>payload root w. ((Some ExecutionValid, None), w + 1))\<rparr>"

text \<open>Block 4 on the unsafe head, block 3: the engine is called. The genesis block makes the block reference readable.\<close>

definition tip_config :: Config where
  "tip_config = OPBNBMainnet\<lparr>cfg_Genesis := (cfg_Genesis OPBNBMainnet)\<lparr>gen_L2 := \<lparr>bid_Hash = 504, bid_Number = 4\<rparr>\<rparr>\<rparr>"

theorem CLSync_Proceed_tip_witness:
  "\<exists>r q' e' w'. CLSync_Proceed (\<lambda>_. 0) (\<lambda>b. Inr (DepositTxType, b)) tip_engine tip_config tip_queue
      ((NewEngineController OPBNBMainnet (eng_config CLSync) False)\<lparr>ec_unsafeHead := eng_block 3\<rparr>) 0 = Some (r, q', e', w') \<and>
    w' \<noteq> 0 \<and> (\<exists>p. Queue_Peek tip_queue = Some p \<and> ep_ParentHash (env_Payload p) = 503)"
proof -
  let ?e = "(NewEngineController OPBNBMainnet (eng_config CLSync) False)\<lparr>ec_unsafeHead := eng_block 3\<rparr>"
  obtain ref where r: "PayloadToBlockRef (\<lambda>_. 0) (\<lambda>b. Inr (DepositTxType, b)) tip_config
      (ExecutionPayload.truncate (env_Payload (queue_block 4))) = Inr ref"
    by (simp add: PayloadToBlockRef_def tip_config_def queue_block_def eng_envelope_def ExecutionPayload.truncate_def Let_def)
  obtain e' where i: "InsertUnsafePayload tip_engine ?e (queue_block 4) ref 0 = Some (None, e', 1)"
    by (simp add: InsertUnsafePayload_def start_EL_def NewEngineController_def eng_config_def tip_engine_def phase_engine_def
        after_new_payload_def checkNewPayloadStatus_def checkELSyncTriggered_def adopt_engine_heads_def make_unsafe_head_def
        checkForkchoiceUpdatedStatus_def status_defs Let_def)
  have p: "CLSync_Proceed (\<lambda>_. 0) (\<lambda>b. Inr (DepositTxType, b)) tip_engine tip_config tip_queue ?e 0 =
      Some (None, snd (Queue_Pop tip_queue), e', 1)"
    using r i
    by (simp add: CLSync_Proceed_def Queue_Peek_def tip_queue_def queue_block_def eng_envelope_def NewEngineController_def
        zero_L2BlockRef_def eng_block_def)
  from CLSync_Proceed_tip [OF p] have "\<exists>p. Queue_Peek tip_queue = Some p \<and> ep_ParentHash (env_Payload p) = 503"
    by (auto simp: eng_block_def)
  then show ?thesis using p by force
qed

end
