(* ===== verification/Spec2Isabelle.thy ===== *)
theory Spec2Isabelle
  imports Rollup AttributesQueue Batcher FaultAgent FaultOutputs EngineQueue PayloadsQueue
begin

text \<open>
  The verification library of the node: how L2 blocks get to L1, how they are derived back from L1, and
  how a claim about them is disputed.

  \<^bold>\<open>The program.\<close> Three Go programs of the repository share the data this library models. The batcher
  (op-batcher) takes L2 blocks, puts them as batches into a channel, compresses it and cuts it into
  frames, which go to L1 as transactions. The node (op-node) reads L1 block by block and rebuilds the
  chain: transactions give frames, frames give channels, channels give batches, a batch on top of the
  safe head gives payload attributes. The engine queue compares them with the blocks that the engine got
  ahead of L1 or has it build the next block, moves the heads and finalizes them. The challenger
  (op-challenger) watches dispute games over the output roots of that chain and counters every claim
  that does not agree with its own trace.

  \<^bold>\<open>Shared data.\<close>
  \<^item> \<open>Prelude\<close>: machine words, fixed-size byte arrays, big-endian bytes, Go maps as association
    lists, the collections of facts that the components use.
  \<^item> \<open>EthTypes\<close>: block references and system configuration (op-service/eth/id.go, types.go).
  \<^item> \<open>Rollup\<close>: the rollup configuration, its checks, fork switches, block times in milliseconds
    (op-node/rollup/types.go, chain_spec.go). Its properties relate times and numbers of blocks on both
    sides of the Volta fork, where the block time changes from seconds to milliseconds.
  \<^item> \<open>Errors\<close>: the severities of op-node/rollup/derive/error.go and \<open>errors.Is\<close>.
  \<^item> \<open>SysConfig\<close>: ABI words (op-service/solabi), fee scalars, configuration events
    (derive/system_config.go).
  \<^item> \<open>GoHeap\<close>: the priority queue of container/heap.

  \<^bold>\<open>Derivation\<close>, op-node/rollup/derive, in the order in which data flows:
  \<^item> \<open>DataSource\<close>: calldata, blob and plasma sources; \<open>Blob\<close>: the encoding of data in blobs
    (op-service/eth/blob.go).
  \<^item> \<open>Frames\<close> (frame.go), \<open>Channel\<close> (channel.go), \<open>ChannelBank\<close> (channel_bank.go), \<open>Stages\<close>
    (l1_traversal.go, l1_retrieval.go, frame_queue.go), \<open>ChannelReader\<close> (channel_in_reader.go).
  \<^item> \<open>SpanBatchTxs\<close>, \<open>SpanBatch\<close> (batch.go, singular_batch.go, span_batch.go and its helpers),
    \<open>Batches\<close> (batches.go), \<open>BatchQueue\<close> (batch_queue.go).
  \<^item> \<open>L1Info\<close> (l1_block_info.go, deposit_source.go, payload_util.go, l2block_util.go), \<open>Deposits\<close>
    (deposit_log.go, deposits.go), \<open>Attributes\<close> (attributes.go), \<open>AttributesQueue\<close> (attributes_queue.go).

  \<^bold>\<open>Plasma\<close>, op-plasma: \<open>PlasmaState\<close> (commitment.go, dastate.go) is the state of challenges over two priority
  queues, \<open>PlasmaDA\<close> (damgr.go, daclient.go) the manager that the plasma source of \<open>DataSource\<close> asks for
  data. What it hands out belongs to the commitment, whatever the storage server answers.

  \<^bold>\<open>The node at the engine\<close>, op-node/rollup:
  \<^item> \<open>SyncStart\<close> (sync/start.go): the heads to start from after a restart or a reset.
  \<^item> \<open>Finality\<close> (finality/finalizer.go, plasma.go): which safe heads an L1 signal finalizes.
  \<^item> \<open>EngineControl\<close> (derive/engine_controller.go, engine_update.go): heads, forkchoice updates, building and
    inserting payloads.
  \<^item> \<open>AttributesHandler\<close> (attributes/attributes.go, engine_consolidate.go), \<open>PayloadsQueue\<close> (clsync/payloads_queue.go,
    clsync.go).
  \<^item> \<open>EngineQueue\<close> (derive/engine_queue.go, pipeline.go): the last stage, and the steps and resets of the pipeline.

  The engine, the conductor and the network are a record of functions over a state of their own, so that
  properties hold for every behaviour of theirs, changing answers included. What the engine was told is
  observed by a wrapper that logs accepted forkchoice states; the invariant of the controller relates that
  log to the heads of the node. The queue of unsafe payloads and the challenge queues of plasma are
  clients of the locale of priority queues, interpreted on the model of container/heap.

  A stage pulls from the stage before it. The contract of a pull is the locale of theory \<open>Stages\<close>: it does
  not panic, keeps the stage's invariant and does not move the L1 origin. Every stage is an
  interpretation of the locale, proved from the contract of the stage before it; the batch queue and
  the attributes queue are clients of it, and so are facts of the whole pipeline, e.g. that no read of
  the channel bank over the real stages panics. Codecs have round trips in both directions, checks of
  batches have a characterization of what they accept, the batch queue is compared with a reference that
  reads its batches in order.

  \<^bold>\<open>Batching\<close>, op-batcher and the writing side of op-node/rollup/derive:
  \<^item> \<open>Compressors\<close> (derive/channel_compressor.go, op-batcher/compressor).
  \<^item> \<open>ChannelOut\<close> (derive/channel_out.go, span_channel_out.go).
  \<^item> \<open>ChannelBuilder\<close> (op-batcher/batcher/channel_builder.go, channel_config.go).
  \<^item> \<open>Batcher\<close> (batcher/tx_data.go, channel.go, channel_manager.go). The pointers to channels are indices of
    a store. The manager is a transition system; its invariants hold of every reachable state: no
    block is lost or sent twice by the manager, a confirmed channel has not timed out.

  \<^bold>\<open>Disputes\<close>, op-challenger/game/fault:
  \<^item> \<open>FaultPosition\<close>, \<open>FaultGame\<close>: positions, claims, clocks, actions and the state of a game (types/).
  \<^item> \<open>FaultSolver\<close>: the honest actor (solver/honest_claims.go, solver.go, game_solver.go);
    \<open>FaultRules\<close>: the rules an action must keep (solver/rules.go).
  \<^item> \<open>FaultTrace\<close>, \<open>FaultOutputs\<close>: the traces it takes its values from (trace/).
  \<^item> \<open>FaultAgent\<close>: one round of the agent (agent.go).
  \<^item> \<open>FaultHonest\<close> is an abstract specification: the moves and counters of an honest actor as a function of
    the tree of claims and of one correct trace. \<open>FaultPlay\<close> proves that \<open>CalculateNextActions\<close> computes it,
    \<open>FaultSafety\<close> that its actions keep the rules, \<open>FaultDispute\<close> both for every state that a dispute
    can reach, whatever the other parties play.

  \<^bold>\<open>How code becomes definitions.\<close> A struct is a record whose fields have a prefix of their own, a method is a
  definition with the receiver among its arguments and, where it writes, in its result. An error is
  the left side of a sum; a panic, and in the fault game a walk that never ends, is \<open>None\<close> of an outer
  option. Integers keep their width, except lengths and indices of slices, which are natural numbers, and
  signed \<open>time.Duration\<close> and \<open>int\<close> values where the sign matters, which are read with \<open>sint\<close> or are integers
  as the theory says. Logging and metrics have no effect on the state and are left out. The texts of
  errors are not kept where no code reads them.

  \<^bold>\<open>Loops.\<close> Loops over slices are structural recursions or functions with a measure; loops that consume a
  reader are recursions on the bytes that are left. No fuel is used. A loop that may run for ever is a
  \<open>partial_function\<close> in \<open>option\<close>, and there is a theorem that says when it returns: the output of all frames
  of a channel (\<open>outputAllFrames\<close>), the walk from a claim to an ancestor (\<open>AncestorWithTraceIndex\<close>), the
  resolution of claims (\<open>resolveClaims\<close>), the search for the heads to start from (\<open>find_loop\<close>, which does
  not return when the check of the start is skipped) and the walk to an old enough L1 origin
  (\<open>walk_back\<close>).

  \<^bold>\<open>Parameters.\<close> Code outside of the repository is an argument of the definitions that use it: Keccak-256,
  RLP and the transaction types of go-ethereum (record \<open>TxLib\<close> and single functions), the zlib and brotli
  writers and readers (\<open>CompressLib\<close>), random channel ids, the compiled contracts of upgrades. Nodes
  and services answer as the environment says, a record of functions for the time of a call. What a
  property needs from a parameter is a named predicate among its assumptions (for instance that a decoder
  reads back what the encoder wrote), and its witness has an instance. The accessor of the fault game is a
  parameter of the solver; \<open>accessor_of\<close> says that it gives the values of one trace, \<open>open_game\<close> which
  games the contract can produce, \<open>ids_faithful\<close> that no two claims of a game share an identifier (the
  identifier is a hash; a clash is shown to be possible for values that wrap).

  \<^bold>\<open>Not modelled.\<close> Everything that is I/O, concurrency or wiring: the event loops of driver, sequencer,
  batcher and proposer, the transaction manager, peer to peer code, RPC clients and servers, databases,
  command lines, metrics. The contract bindings are generated; the contracts are Solidity. What a
  component leaves out is said in its theory.
\<close>

end
